(* ===== verification/Prelude.thy ===== *)
theory Prelude
  imports
    Main
    "HOL-Library.Char_ord"
    "HOL-Library.List_Lexorder"
    "HOL-Library.Sublist"
begin

text \<open>
  Shared vocabulary of the development.
  \<^item> Results: a fallible operation returns \<open>'e + 'a\<close>, \<open>Inl\<close> carrying the exception.
  \<^item> Tables: a Postgres table is the list of its rows; \<open>UPDATE .. WHERE\<close>, \<open>DELETE .. WHERE\<close>
    and the first row of a \<open>SELECT\<close> are \<open>tbl_update\<close>, \<open>tbl_delete\<close> and \<open>tbl_find\<close>.
  \<^item> Ordered sets and maps: JavaScript's \<open>Set\<close> and \<open>Map\<close> keep insertion order; they are
    lists changed by \<open>set_add\<close> and \<open>map_put\<close>.
  \<^item> Strings: \<open>join\<close>, \<open>trim\<close>, \<open>split\<close> on the first separator, decimal numerals.
  The collection \<open>tbl_simps\<close> holds the rewriting rules of tables, \<open>js_simps\<close> those of
  the JavaScript containers.
\<close>

named_theorems tbl_simps "rewriting of table operations"
named_theorems js_simps "rewriting of JavaScript containers"

section \<open>Tables\<close>

definition tbl_find :: "('r \<Rightarrow> bool) \<Rightarrow> 'r list \<Rightarrow> 'r option" where
  "tbl_find P t = find P t"

definition tbl_update :: "('r \<Rightarrow> bool) \<Rightarrow> ('r \<Rightarrow> 'r) \<Rightarrow> 'r list \<Rightarrow> 'r list" where
  "tbl_update P f t = map (\<lambda>r. if P r then f r else r) t"

definition tbl_count :: "('r \<Rightarrow> bool) \<Rightarrow> 'r list \<Rightarrow> nat" where
  "tbl_count P t = length (filter P t)"

definition tbl_delete :: "('r \<Rightarrow> bool) \<Rightarrow> 'r list \<Rightarrow> 'r list" where
  "tbl_delete P t = filter (\<lambda>r. \<not> P r) t"

lemma tbl_find_Nil [tbl_simps]: "tbl_find P [] = None"
  by (simp add: tbl_find_def)

lemma tbl_find_Cons [tbl_simps]: "tbl_find P (r # t) = (if P r then Some r else tbl_find P t)"
  by (simp add: tbl_find_def)

lemma tbl_find_append [tbl_simps]:
  "tbl_find P (t @ u) = (case tbl_find P t of Some r \<Rightarrow> Some r | None \<Rightarrow> tbl_find P u)"
  by (induction t) (auto simp: tbl_simps)

lemma tbl_find_None [tbl_simps]: "tbl_find P t = None \<longleftrightarrow> (\<forall>r \<in> set t. \<not> P r)"
  by (induction t) (auto simp: tbl_find_def)

lemma tbl_find_Some_in: "tbl_find P t = Some r \<Longrightarrow> r \<in> set t \<and> P r"
  by (induction t) (auto simp: tbl_find_def split: if_splits)

lemma tbl_count_0 [tbl_simps]: "tbl_count P t = 0 \<longleftrightarrow> (\<forall>r \<in> set t. \<not> P r)"
  by (simp add: tbl_count_def filter_empty_conv)

lemma tbl_count_pos: "tbl_count P t > 0 \<longleftrightarrow> (\<exists>r \<in> set t. P r)"
  using tbl_count_0 [of P t] by auto

lemma set_tbl_update [tbl_simps]: "set (tbl_update P f t) = (\<lambda>r. if P r then f r else r) ` set t"
  by (simp add: tbl_update_def)

lemma length_tbl_update [tbl_simps]: "length (tbl_update P f t) = length t"
  by (simp add: tbl_update_def)

lemma set_tbl_delete [tbl_simps]: "set (tbl_delete P t) = {r \<in> set t. \<not> P r}"
  by (auto simp: tbl_delete_def)

lemma tbl_update_none: "\<forall>r \<in> set t. \<not> P r \<Longrightarrow> tbl_update P f t = t"
  by (induction t) (auto simp: tbl_update_def)

text \<open>Rows are looked up by a key that no update of the program writes.\<close>

lemma map_key_tbl_update:
  assumes "\<And>r. key (f r) = key r"
  shows "map key (tbl_update P f t) = map key t"
  by (induction t) (auto simp: tbl_update_def assms)

lemma tbl_find_key_update:
  assumes "\<And>r. key (f r) = key r"
  shows "tbl_find (\<lambda>r. key r = k) (tbl_update P f t) =
    map_option (\<lambda>r. if P r then f r else r) (tbl_find (\<lambda>r. key r = k) t)"
  by (induction t) (auto simp: tbl_update_def tbl_find_def assms)

lemma tbl_find_delete_other:
  assumes "\<And>r. key r = k \<Longrightarrow> \<not> P r"
  shows "tbl_find (\<lambda>r. key r = k) (tbl_delete P t) = tbl_find (\<lambda>r. key r = k) t"
  using assms by (induction t) (auto simp: tbl_delete_def tbl_find_def)

lemma distinct_key_unique:
  assumes "distinct (map key t)" "r \<in> set t" "s \<in> set t" "key r = key s"
  shows "r = s"
  using assms by (induction t) (auto simp: image_iff)

lemma tbl_find_key_in:
  assumes "distinct (map key t)" "r \<in> set t"
  shows "tbl_find (\<lambda>x. key x = key r) t = Some r"
  using assms by (induction t) (auto simp: tbl_find_def image_iff)

text \<open>A unique index on a nullable column.\<close>

lemma distinct_some_unique:
  assumes "distinct (filter (\<lambda>k. k \<noteq> None) (map key t))" "r \<in> set t" "s \<in> set t"
    and "key r = Some k" "key s = Some k"
  shows "r = s"
  using assms
proof (induction t)
  case (Cons x t)
  have other: "key y \<noteq> Some k" if "y \<in> set t" "key x = Some k" for y
  proof
    assume "key y = Some k"
    with that have "Some k \<in> set (filter (\<lambda>k. k \<noteq> None) (map key t))" by force
    with Cons.prems(1) that(2) show False by simp
  qed
  have "distinct (filter (\<lambda>k. k \<noteq> None) (map key t))"
    using Cons.prems(1) by (cases "key x = None") simp_all
  then show ?case using Cons.IH Cons.prems(2-5) other by (metis set_ConsD)
qed simp

lemma distinct_map_tbl_delete: "distinct (map key t) \<Longrightarrow> distinct (map key (tbl_delete P t))"
  by (simp add: tbl_delete_def distinct_map_filter)

section \<open>Insertion-ordered sets and maps\<close>

definition set_add :: "'a \<Rightarrow> 'a list \<Rightarrow> 'a list" where
  "set_add x s = (if x \<in> set s then s else s @ [x])"

definition set_of :: "'a list \<Rightarrow> 'a list" where
  "set_of xs = foldl (\<lambda>s x. set_add x s) [] xs"

lemma set_set_add [js_simps]: "set (set_add x s) = insert x (set s)"
  by (auto simp: set_add_def)

lemma distinct_set_add [js_simps]: "distinct (set_add x s) = distinct s"
  by (auto simp: set_add_def)

lemma foldl_set_add:
  "set (foldl (\<lambda>s x. set_add x s) s0 xs) = set s0 \<union> set xs \<and>
   (distinct s0 \<longrightarrow> distinct (foldl (\<lambda>s x. set_add x s) s0 xs))"
  by (induction xs arbitrary: s0) (auto simp: js_simps)

lemma set_set_of [js_simps]: "set (set_of xs) = set xs"
  by (simp add: set_of_def foldl_set_add)

lemma distinct_set_of [js_simps]: "distinct (set_of xs)"
  by (simp add: set_of_def foldl_set_add)

fun map_put :: "'k \<Rightarrow> 'v \<Rightarrow> ('k \<times> 'v) list \<Rightarrow> ('k \<times> 'v) list" where
  "map_put k v [] = [(k, v)]"
| "map_put k v ((k', v') # m) = (if k = k' then (k, v) # m else (k', v') # map_put k v m)"

definition map_of_entries :: "('k \<times> 'v) list \<Rightarrow> ('k \<times> 'v) list" where
  "map_of_entries es = foldl (\<lambda>m (k, v). map_put k v m) [] es"

definition map_del :: "'k \<Rightarrow> ('k \<times> 'v) list \<Rightarrow> ('k \<times> 'v) list" where
  "map_del k m = filter (\<lambda>(k', v). k' \<noteq> k) m"

lemma map_of_map_put [js_simps]: "map_of (map_put k v m) = (map_of m)(k \<mapsto> v)"
  by (induction k v m rule: map_put.induct) (auto simp: fun_eq_iff)

lemma map_of_map_put_apply [js_simps]:
  "map_of (map_put k v m) x = (if x = k then Some v else map_of m x)"
  by (simp add: map_of_map_put)

lemma keys_map_put [js_simps]: "fst ` set (map_put k v m) = insert k (fst ` set m)"
  by (induction k v m rule: map_put.induct) auto

lemma distinct_map_put [js_simps]:
  "distinct (map fst m) \<Longrightarrow> distinct (map fst (map_put k v m))"
proof (induction k v m rule: map_put.induct)
  case (1 k v)
  then show ?case by simp
next
  case (2 k v k' v' m)
  have "k' \<noteq> k \<Longrightarrow> k' \<notin> fst ` set m \<Longrightarrow> k' \<notin> fst ` set (map_put k v m)"
    by (simp add: keys_map_put)
  with 2 show ?case by auto
qed

lemma map_of_map_del [js_simps]: "map_of (map_del k m) = (map_of m)(k := None)"
  by (induction m) (auto simp: map_del_def fun_eq_iff)

lemma keys_map_del [js_simps]: "fst ` set (map_del k m) = fst ` set m - {k}"
  by (auto simp: map_del_def image_iff)

lemma distinct_map_del [js_simps]:
  "distinct (map fst m) \<Longrightarrow> distinct (map fst (map_del k m))"
  by (simp add: map_del_def distinct_map_filter)

lemma map_of_foldl_map_put:
  "map_of (foldl (\<lambda>m (k, v). map_put k v m) m0 es) = (\<lambda>k.
     case map_of (rev es) k of Some v \<Rightarrow> Some v | None \<Rightarrow> map_of m0 k)"
proof (induction es arbitrary: m0)
  case Nil
  then show ?case by simp
next
  case (Cons e es)
  obtain k v where e: "e = (k, v)" by (cases e)
  show ?case
    unfolding e foldl_Cons prod.case Cons.IH
    by (auto simp: fun_eq_iff js_simps map_add_def split: option.splits)
qed

text \<open>\<open>new Map(entries)\<close>: where a key is given twice, the last entry counts.\<close>

lemma map_of_entries_lookup [js_simps]: "map_of (map_of_entries es) = map_of (rev es)"
  by (auto simp: map_of_entries_def map_of_foldl_map_put fun_eq_iff split: option.splits)

section \<open>Strings\<close>

fun join :: "string \<Rightarrow> string list \<Rightarrow> string" where
  "join sep [] = []"
| "join sep [x] = x"
| "join sep (x # xs) = x @ sep @ join sep xs"

definition is_space :: "char \<Rightarrow> bool" where
  "is_space c \<longleftrightarrow> of_char c = (32 :: nat) \<or> (9 \<le> (of_char c :: nat) \<and> of_char c \<le> (13 :: nat))"

definition trim :: "string \<Rightarrow> string" where
  "trim s = rev (dropWhile is_space (rev (dropWhile is_space s)))"

lemma trim_no_outer_space:
  "trim s \<noteq> [] \<Longrightarrow> \<not> is_space (hd (trim s)) \<and> \<not> is_space (last (trim s))"
proof -
  assume ne: "trim s \<noteq> []"
  let ?d = "dropWhile is_space s"
  have last: "\<not> is_space (last (trim s))"
    using ne hd_dropWhile [of is_space "rev ?d"] by (simp add: trim_def last_rev)
  obtain t where t: "?d = trim s @ t"
    by (metis trim_def rev_append rev_rev_ident takeWhile_dropWhile_id)
  have "?d \<noteq> []" using ne t by auto
  then have "\<not> is_space (hd ?d)" by (rule hd_dropWhile)
  with t ne have "\<not> is_space (hd (trim s))" by simp
  with last show ?thesis by blast
qed

lemma dropWhile_id: "(xs \<noteq> [] \<Longrightarrow> \<not> P (hd xs)) \<Longrightarrow> dropWhile P xs = xs"
  by (cases xs) auto

lemma trim_idem [simp]: "trim (trim s) = trim s"
proof (cases "trim s = []")
  case True
  show ?thesis by (simp only: True) (simp add: trim_def)
next
  case False
  note ns = trim_no_outer_space [OF False]
  have "dropWhile is_space (trim s) = trim s" by (rule dropWhile_id) (use ns in blast)
  moreover have "dropWhile is_space (rev (trim s)) = rev (trim s)"
    by (rule dropWhile_id) (use ns False in \<open>simp add: hd_rev\<close>)
  ultimately show ?thesis by (simp add: trim_def)
qed

text \<open>\<open>haystack.includes(needle)\<close>.\<close>

fun str_includes :: "string \<Rightarrow> string \<Rightarrow> bool" where
  "str_includes needle [] = (needle = [])"
| "str_includes needle (c # cs) = (take (length needle) (c # cs) = needle \<or> str_includes needle cs)"

fun digits :: "nat \<Rightarrow> string" where
  "digits n = (if n < 10 then [char_of (48 + n)] else digits (n div 10) @ [char_of (48 + n mod 10)])"

declare digits.simps [simp del]

definition int_str :: "int \<Rightarrow> string" where
  "int_str i = (if i < 0 then CHR ''-'' # digits (nat (- i)) else digits (nat i))"

text \<open>\<open>String(n).padStart(w, "0")\<close> for a natural number.\<close>

definition pad_nat :: "nat \<Rightarrow> nat \<Rightarrow> string" where
  "pad_nat w n = replicate (w - length (digits n)) CHR ''0'' @ digits n"

section \<open>Results\<close>

definition is_ok :: "'e + 'a \<Rightarrow> bool" where
  "is_ok r = (case r of Inl _ \<Rightarrow> False | Inr _ \<Rightarrow> True)"

lemma is_ok_simps [simp]: "is_ok (Inr x)" "\<not> is_ok (Inl e)"
  by (simp_all add: is_ok_def)

text \<open>
  Stateful code that may throw: a function from the state to the result and the state after
  it. A throw keeps the effects that came before it; \<open>atomicallyM\<close> is a database
  transaction, which a throw rolls back.
\<close>

type_synonym ('s, 'e, 'a) comp = "'s \<Rightarrow> ('e + 'a) \<times> 's"

definition returnM :: "'a \<Rightarrow> ('s, 'e, 'a) comp" where
  "returnM x s = (Inr x, s)"

definition throwM :: "'e \<Rightarrow> ('s, 'e, 'a) comp" where
  "throwM e s = (Inl e, s)"

definition bindM :: "('s, 'e, 'a) comp \<Rightarrow> ('a \<Rightarrow> ('s, 'e, 'b) comp) \<Rightarrow> ('s, 'e, 'b) comp" where
  "bindM m k s = (case m s of (Inl e, s') \<Rightarrow> (Inl e, s') | (Inr x, s') \<Rightarrow> k x s')"

definition catchM :: "('s, 'e, 'a) comp \<Rightarrow> ('e \<Rightarrow> ('s, 'e, 'a) comp) \<Rightarrow> ('s, 'e, 'a) comp" where
  "catchM m h s = (case m s of (Inl e, s') \<Rightarrow> h e s' | (Inr x, s') \<Rightarrow> (Inr x, s'))"

definition atomicallyM :: "('s, 'e, 'a) comp \<Rightarrow> ('s, 'e, 'a) comp" where
  "atomicallyM m s = (case m s of (Inl e, _) \<Rightarrow> (Inl e, s) | (Inr x, s') \<Rightarrow> (Inr x, s'))"

named_theorems comp_simps "unfolding of stateful computations"

lemmas [comp_simps] = returnM_def throwM_def bindM_def catchM_def atomicallyM_def

text \<open>
  The relational view of a computation: \<open>preserves I m\<close> says that \<open>m\<close> keeps \<open>I\<close>,
  whether it returns or throws.
\<close>

definition preserves :: "('s \<Rightarrow> 's \<Rightarrow> bool) \<Rightarrow> ('s, 'e, 'a) comp \<Rightarrow> bool" where
  "preserves R m \<longleftrightarrow> (\<forall>s. R s (snd (m s)))"

lemma preservesI: "(\<And>s. R s (snd (m s))) \<Longrightarrow> preserves R m"
  by (simp add: preserves_def)

lemma preservesD: "preserves R m \<Longrightarrow> R s (snd (m s))"
  by (simp add: preserves_def)

lemma preserves_returnM: "reflp R \<Longrightarrow> preserves R (returnM x)"
  by (simp add: preserves_def returnM_def reflpD)

lemma preserves_throwM: "reflp R \<Longrightarrow> preserves R (throwM e)"
  by (simp add: preserves_def throwM_def reflpD)

lemma preserves_bindM:
  assumes "transp R" "preserves R m" "\<And>x. preserves R (k x)"
  shows "preserves R (bindM m k)"
proof (rule preservesI)
  fix s
  have m: "R s (snd (m s))" using assms(2) by (rule preservesD)
  have k: "R s' (snd (k x s'))" for x s' using assms(3) by (rule preservesD)
  show "R s (snd (bindM m k s))"
    using m transpD [OF assms(1) m k] by (auto simp: bindM_def split: prod.splits sum.splits)
qed

lemma preserves_catchM:
  assumes "transp R" "preserves R m" "\<And>e. preserves R (h e)"
  shows "preserves R (catchM m h)"
proof (rule preservesI)
  fix s
  have m: "R s (snd (m s))" using assms(2) by (rule preservesD)
  have k: "R s' (snd (h x s'))" for x s' using assms(3) by (rule preservesD)
  show "R s (snd (catchM m h s))"
    using m transpD [OF assms(1) m k] by (auto simp: catchM_def split: prod.splits sum.splits)
qed

lemma preserves_atomicallyM:
  assumes "reflp R" "preserves R m"
  shows "preserves R (atomicallyM m)"
proof (rule preservesI)
  fix s
  show "R s (snd (atomicallyM m s))"
    using reflpD [OF assms(1)] preservesD [OF assms(2), of s]
    by (auto simp: atomicallyM_def split: prod.splits sum.splits)
qed

lemmas preserves_intros =
  preserves_returnM preserves_throwM preserves_bindM preserves_catchM preserves_atomicallyM

text \<open>\<open>x ?? d\<close> on an optional value.\<close>

definition or_else :: "'a option \<Rightarrow> 'a \<Rightarrow> 'a" where
  "or_else x d = (case x of Some v \<Rightarrow> v | None \<Rightarrow> d)"

lemma or_else_simps [simp]: "or_else (Some v) d = v" "or_else None d = d"
  by (simp_all add: or_else_def)

text \<open>An optional string tested for truthiness: absent and empty are both false.\<close>

definition truthy_str :: "string option \<Rightarrow> bool" where
  "truthy_str x \<longleftrightarrow> x \<noteq> None \<and> x \<noteq> Some []"

end
