(* ===== verification/Json.thy ===== *)
theory Json
  imports Prelude
begin

text \<open>
  JSON values and their texts. A value is what \<open>JSON.parse\<close> returns; an object is the list of
  its own properties in insertion order, an absent property reads as \<open>undefined\<close>
  (\<open>None\<close>). Integral numbers are \<open>int\<close>; any other finite number is \<open>JFloat\<close> with
  the literal that \<open>JSON.stringify\<close> prints for it. Strings are UTF-8 byte sequences.
  \<open>stable_stringify\<close> is \<open>stableStringify\<close> of
  \<^verbatim>\<open>apps/torii/src/policy/utils/approval-tool-args.ts\<close>, the text whose SHA-256 keys the
  approval ledger.
\<close>

datatype json =
    JNull
  | JBool bool
  | JInt int
  | JFloat string
  | JStr string
  | JArr "json list"
  | JObj "(string \<times> json) list"

type_synonym jobj = "(string \<times> json) list"

fun is_object :: "json \<Rightarrow> bool" where
  "is_object (JObj _) = True"
| "is_object _ = False"

text \<open>\<open>value.key\<close> for a value that is known to be an object, an array or a primitive:
  the properties the program reads exist on objects only.\<close>

fun prop_of :: "string \<Rightarrow> json \<Rightarrow> json option" where
  "prop_of k (JObj kvs) = map_of kvs k"
| "prop_of k _ = None"

fun as_string :: "json option \<Rightarrow> string option" where
  "as_string (Some (JStr s)) = Some s"
| "as_string _ = None"

text \<open>The spread \<open>{...a, ...b}\<close>.\<close>

definition spread :: "jobj \<Rightarrow> jobj \<Rightarrow> jobj" where
  "spread a b = foldl (\<lambda>m (k, v). map_put k v m) a b"

lemma map_of_spread [js_simps]:
  "map_of (spread a b) k = (case map_of (rev b) k of Some v \<Rightarrow> Some v | None \<Rightarrow> map_of a k)"
  by (simp add: spread_def map_of_foldl_map_put)

lemma keys_spread [js_simps]: "fst ` set (spread a b) = fst ` set a \<union> fst ` set b"
proof (induction b arbitrary: a)
  case (Cons e b)
  obtain k v where "e = (k, v)" by (cases e)
  with Cons.IH [of "map_put k v a"] show ?case by (simp add: spread_def keys_map_put)
qed (simp add: spread_def)

text \<open>
  \<open>key in obj\<close> also sees what an object inherits from \<open>Object.prototype\<close>.
\<close>

definition object_prototype_keys :: "string list" where
  "object_prototype_keys =
    [''constructor'', ''__defineGetter__'', ''__defineSetter__'', ''hasOwnProperty'',
     ''__lookupGetter__'', ''__lookupSetter__'', ''isPrototypeOf'', ''propertyIsEnumerable'',
     ''toString'', ''valueOf'', ''__proto__'', ''toLocaleString'']"

definition in_object :: "string \<Rightarrow> jobj \<Rightarrow> bool" where
  "in_object k obj \<longleftrightarrow> k \<in> fst ` set obj \<or> k \<in> set object_prototype_keys"

section \<open>Texts\<close>

definition hex_digit :: "nat \<Rightarrow> char" where
  "hex_digit n = (if n < 10 then char_of (48 + n) else char_of (87 + n))"

definition esc_char :: "char \<Rightarrow> string" where
  "esc_char c =
    (let n = of_char c :: nat in
     if c = CHR 0x22 then [CHR 0x5C, CHR 0x22]
     else if c = CHR 0x5C then [CHR 0x5C, CHR 0x5C]
     else if n = 8 then [CHR 0x5C, CHR ''b'']
     else if n = 9 then [CHR 0x5C, CHR ''t'']
     else if n = 10 then [CHR 0x5C, CHR ''n'']
     else if n = 12 then [CHR 0x5C, CHR ''f'']
     else if n = 13 then [CHR 0x5C, CHR ''r'']
     else if n < 32 then [CHR 0x5C, CHR ''u'', CHR ''0'', CHR ''0'', hex_digit (n div 16), hex_digit (n mod 16)]
     else [c])"

definition json_string :: "string \<Rightarrow> string" where
  "json_string s = CHR 0x22 # concat (map esc_char s) @ [CHR 0x22]"

text \<open>\<open>JSON.stringify\<close> without indentation.\<close>

fun json_stringify :: "json \<Rightarrow> string" where
  "json_stringify JNull = ''null''"
| "json_stringify (JBool b) = (if b then ''true'' else ''false'')"
| "json_stringify (JInt i) = int_str i"
| "json_stringify (JFloat lit) = lit"
| "json_stringify (JStr s) = json_string s"
| "json_stringify (JArr xs) = ''['' @ join '','' (map json_stringify xs) @ '']''"
| "json_stringify (JObj kvs) =
    ''{'' @ join '','' (map (\<lambda>(k, v). json_string k @ '':'' @ json_stringify v) kvs) @ ''}''"

text \<open>
  The source sorts the keys and looks each value up again; keys of an object are distinct,
  so sorting the properties by key is the same.
\<close>

fun stable_stringify :: "json \<Rightarrow> string" where
  "stable_stringify JNull = json_stringify JNull"
| "stable_stringify (JBool b) = json_stringify (JBool b)"
| "stable_stringify (JInt i) = json_stringify (JInt i)"
| "stable_stringify (JFloat lit) = json_stringify (JFloat lit)"
| "stable_stringify (JStr s) = json_stringify (JStr s)"
| "stable_stringify (JArr xs) = ''['' @ join '','' (map stable_stringify xs) @ '']''"
| "stable_stringify (JObj kvs) =
    ''{'' @ join '','' (map (\<lambda>(k, v). json_string k @ '':'' @ v)
      (sort_key fst (map (\<lambda>(k, v). (k, stable_stringify v)) kvs))) @ ''}''"

text \<open>The value with the properties of every object in key order.\<close>

fun canon :: "json \<Rightarrow> json" where
  "canon (JArr xs) = JArr (map canon xs)"
| "canon (JObj kvs) = JObj (sort_key fst (map (\<lambda>(k, v). (k, canon v)) kvs))"
| "canon v = v"

lemma insort_key_map_snd:
  "insort_key fst (k, g v) (map (\<lambda>(k, v). (k, g v)) kvs) =
   map (\<lambda>(k, v). (k, g v)) (insort_key fst (k, v) kvs)"
  by (induction kvs) auto

lemma sort_key_map_snd:
  "sort_key fst (map (\<lambda>(k, v). (k, g v)) kvs) = map (\<lambda>(k, v). (k, g v)) (sort_key fst kvs)"
proof (induction kvs)
  case (Cons p kvs)
  obtain k v where "p = (k, v)" by (cases p)
  with Cons show ?case by (simp add: insort_key_map_snd)
qed simp

lemma stable_stringify_canon: "stable_stringify v = json_stringify (canon v)"
proof (induction v)
  case (JObj kvs)
  have *: "map (\<lambda>(k, v). (k, stable_stringify v)) kvs =
           map (\<lambda>(k, v). (k, json_stringify (canon v))) kvs"
    using JObj by (auto intro!: map_cong)
  show ?case
    unfolding stable_stringify.simps * canon.simps json_stringify.simps
    using sort_key_map_snd [of "\<lambda>v. json_stringify (canon v)" kvs]
      sort_key_map_snd [of canon kvs]
    by (simp add: case_prod_beta comp_def)
next
  case (JArr xs)
  then have "map stable_stringify xs = map (json_stringify \<circ> canon) xs" by auto
  then show ?case by (simp only: stable_stringify.simps canon.simps json_stringify.simps map_map)
qed auto

end
