(* ===== verification/JsonText.thy ===== *)
theory JsonText
  imports Json
begin

text \<open>
  JSON texts determine their values: no two values whose non-integral numbers are proper
  literals have the same text. The proof reads a text from the left: strings and brackets
  are self-delimiting, a number ends at the first character no number contains.
\<close>

section \<open>Decimal numerals\<close>

definition is_digit :: "char \<Rightarrow> bool" where
  "is_digit c \<longleftrightarrow> 48 \<le> (of_char c :: nat) \<and> of_char c \<le> (57 :: nat)"

definition num_char :: "char \<Rightarrow> bool" where
  "num_char c \<longleftrightarrow> is_digit c \<or> c = CHR ''-'' \<or> c = CHR ''+'' \<or> c = CHR ''.'' \<or> c = CHR ''e''"

definition digits_val :: "string \<Rightarrow> nat" where
  "digits_val s = foldl (\<lambda>a c. 10 * a + (of_char c - 48)) 0 s"

lemma digits_val_digits: "digits_val (digits n) = n"
proof (induction n rule: digits.induct)
  case (1 n)
  show ?case
  proof (cases "n < 10")
    case True
    then show ?thesis by (simp add: digits.simps [of n] digits_val_def)
  next
    case False
    with 1 have "digits_val (digits (n div 10)) = n div 10" by simp
    with False show ?thesis by (simp add: digits.simps [of n] digits_val_def)
  qed
qed

lemma digits_inject [simp]: "digits m = digits n \<longleftrightarrow> m = n"
  by (metis digits_val_digits)

lemma is_digit_char_of: "(k :: nat) < 10 \<Longrightarrow> is_digit (char_of (48 + k))"
  by (simp add: is_digit_def)

lemma digits_are_digits: "c \<in> set (digits n) \<Longrightarrow> is_digit c"
proof (induction n rule: digits.induct)
  case (1 n)
  then show ?case
    by (auto simp: digits.simps [of n] is_digit_char_of split: if_splits)
qed

lemma digits_not_Nil [simp]: "digits n \<noteq> []"
  by (simp add: digits.simps [of n])

lemma hd_digits: "is_digit (hd (digits n))"
  by (rule digits_are_digits [of _ n]) simp

lemma int_str_chars: "c \<in> set (int_str i) \<Longrightarrow> is_digit c \<or> c = CHR ''-''"
  by (auto simp: int_str_def dest: digits_are_digits split: if_splits)

lemma int_str_not_Nil [simp]: "int_str i \<noteq> []"
  by (simp add: int_str_def)

lemma int_str_inject [simp]: "int_str i = int_str j \<longleftrightarrow> i = j"
proof -
  have minus: "CHR ''-'' # t \<noteq> digits n" for t n
  proof
    assume "CHR ''-'' # t = digits n"
    then have "hd (digits n) = CHR ''-''" by (metis list.sel(1))
    with hd_digits [of n] show False by (simp add: is_digit_def)
  qed
  show ?thesis using minus minus [symmetric] by (auto simp: int_str_def)
qed

definition float_literal :: "string \<Rightarrow> bool" where
  "float_literal s \<longleftrightarrow> (\<forall>c \<in> set s. num_char c) \<and> (CHR ''.'' \<in> set s \<or> CHR ''e'' \<in> set s)"

fun wf_numbers :: "json \<Rightarrow> bool" where
  "wf_numbers (JFloat lit) = float_literal lit"
| "wf_numbers (JArr xs) = (\<forall>x \<in> set xs. wf_numbers x)"
| "wf_numbers (JObj kvs) = (\<forall>p \<in> set kvs. wf_numbers (snd p))"
| "wf_numbers _ = True"

lemma float_not_int: "float_literal s \<Longrightarrow> s \<noteq> int_str i"
  using int_str_chars by (fastforce simp: float_literal_def is_digit_def)

section \<open>Strings\<close>

lemma hex_digit_inject: "m < 16 \<Longrightarrow> n < 16 \<Longrightarrow> hex_digit m = hex_digit n \<Longrightarrow> m = n"
  by (auto simp: hex_digit_def dest!: arg_cong [where f = "of_char :: char \<Rightarrow> nat"] split: if_splits)

lemma of_char_inject: "(of_char c :: nat) = of_char d \<Longrightarrow> c = d"
  by (metis char_of_char)

lemma esc_char_inject: "esc_char c @ x = esc_char d @ y \<Longrightarrow> c = d \<and> x = y"
proof -
  assume eq: "esc_char c @ x = esc_char d @ y"
  have low: "c = d" if "hex_digit (of_char c div 16) = hex_digit (of_char d div 16)"
    "hex_digit (of_char c mod 16) = hex_digit (of_char d mod 16)"
    "of_char c < (32::nat)" "of_char d < (32::nat)"
  proof -
    have "(of_char c :: nat) div 16 = of_char d div 16"
      by (rule hex_digit_inject [OF _ _ that(1)]) (use that(3,4) in simp_all)
    moreover have "(of_char c :: nat) mod 16 = of_char d mod 16"
      by (rule hex_digit_inject [OF _ _ that(2)]) simp_all
    ultimately have "(of_char c :: nat) = of_char d" by (metis div_mult_mod_eq)
    then show ?thesis by (rule of_char_inject)
  qed
  from eq low show ?thesis
    by (auto simp: esc_char_def Let_def intro: of_char_inject split: if_splits)
qed

lemma esc_char_head: "\<exists>h t. esc_char c = h # t \<and> h \<noteq> CHR 0x22"
  by (auto simp: esc_char_def Let_def)

lemma esc_string_inject:
  "concat (map esc_char s) @ CHR 0x22 # r = concat (map esc_char s') @ CHR 0x22 # r' \<Longrightarrow>
   s = s' \<and> r = r'"
proof (induction s arbitrary: s')
  case Nil
  show ?case
  proof (cases s')
    case (Cons d s'')
    with Nil esc_char_head [of d] show ?thesis by auto
  qed (use Nil in simp)
next
  case (Cons c s)
  show ?case
  proof (cases s')
    case Nil
    with Cons.prems esc_char_head [of c] show ?thesis by auto
  next
    case (Cons d s'')
    with Cons.prems have "esc_char c @ (concat (map esc_char s) @ CHR 0x22 # r) =
        esc_char d @ (concat (map esc_char s'') @ CHR 0x22 # r')" by simp
    from esc_char_inject [OF this] Cons.IH [of s''] Cons show ?thesis by simp
  qed
qed

lemma json_string_inject: "json_string s @ r = json_string s' @ r' \<Longrightarrow> s = s' \<and> r = r'"
  by (rule esc_string_inject) (simp add: json_string_def)

section \<open>Values\<close>

definition stops :: "string \<Rightarrow> bool" where
  "stops r \<longleftrightarrow> r = [] \<or> \<not> num_char (hd r)"

lemma stops_Cons [simp]: "stops (c # r) \<longleftrightarrow> \<not> num_char c"
  by (simp add: stops_def)

lemma stops_Nil [simp]: "stops []"
  by (simp add: stops_def)

lemma delimiters_stop [simp]:
  "\<not> num_char (CHR '','')" "\<not> num_char (CHR '']'')" "\<not> num_char (CHR ''}'')"
  by (simp_all add: num_char_def is_digit_def)

lemma number_text_inject:
  assumes "\<forall>c \<in> set a. num_char c" "\<forall>c \<in> set b. num_char c" "a @ r = b @ s" "stops r" "stops s"
  shows "a = b \<and> r = s"
proof -
  have *: "takeWhile num_char (x @ t) = x" if "\<forall>c \<in> set x. num_char c" "stops t" for x t
    using that by (cases t) (auto simp: takeWhile_append2)
  have "a = b" using * [OF assms(1,4)] * [OF assms(2,5)] assms(3) by simp
  with assms(3) show ?thesis by simp
qed

definition is_number :: "json \<Rightarrow> bool" where
  "is_number v = (case v of JInt _ \<Rightarrow> True | JFloat _ \<Rightarrow> True | _ \<Rightarrow> False)"

lemma number_chars: "is_number v \<Longrightarrow> wf_numbers v \<Longrightarrow> \<forall>c \<in> set (json_stringify v). num_char c"
  by (cases v) (auto simp: is_number_def float_literal_def num_char_def dest: int_str_chars)

lemma number_not_Nil: "is_number v \<Longrightarrow> wf_numbers v \<Longrightarrow> json_stringify v \<noteq> []"
  by (cases v) (auto simp: is_number_def float_literal_def)

lemma number_cases: "is_number v \<Longrightarrow> (\<exists>i. v = JInt i) \<or> (\<exists>l. v = JFloat l)"
  by (cases v) (auto simp: is_number_def)

lemma number_value:
  assumes "is_number v" "is_number w" "wf_numbers v" "wf_numbers w"
    and "json_stringify v = json_stringify w"
  shows "v = w"
  using number_cases [OF assms(1)] number_cases [OF assms(2)] assms(3-5)
  by (auto dest: float_not_int simp: float_not_int [symmetric])

text \<open>The first character tells the kind of the value.\<close>

fun kind :: "json \<Rightarrow> nat" where
  "kind JNull = 0"
| "kind (JBool b) = (if b then 1 else 2)"
| "kind (JStr _) = 3"
| "kind (JArr _) = 4"
| "kind (JObj _) = 5"
| "kind _ = 6"

definition kind_char :: "char \<Rightarrow> nat" where
  "kind_char c = (if c = CHR ''n'' then 0 else if c = CHR ''t'' then 1 else if c = CHR ''f'' then 2
     else if c = CHR 0x22 then 3 else if c = CHR ''['' then 4 else if c = CHR ''{'' then 5 else 6)"

lemma not_digits [simp]:
  "\<not> is_digit (CHR ''n'')" "\<not> is_digit (CHR ''t'')" "\<not> is_digit (CHR ''f'')"
  "\<not> is_digit (CHR 0x22)" "\<not> is_digit (CHR ''['')" "\<not> is_digit (CHR ''{'')"
  "\<not> is_digit (CHR '']'')" "\<not> is_digit (CHR ''}'')"
  by (simp_all add: is_digit_def)

lemma num_char_kind: "num_char c \<Longrightarrow> kind_char c = 6 \<and> c \<noteq> CHR '']'' \<and> c \<noteq> CHR ''}''"
proof -
  assume "num_char c"
  moreover have "is_digit c \<Longrightarrow> c \<notin> {CHR ''n'', CHR ''t'', CHR ''f'', CHR 0x22, CHR ''['', CHR ''{'',
      CHR '']'', CHR ''}''}"
    using not_digits by blast
  ultimately show ?thesis unfolding num_char_def by (elim disjE) (simp_all add: kind_char_def)
qed

lemma kind_of_head:
  assumes "wf_numbers v"
  shows "\<exists>c t. json_stringify v = c # t \<and> kind_char c = kind v \<and> c \<noteq> CHR '']'' \<and> c \<noteq> CHR ''}''"
proof (cases "is_number v")
  case True
  then obtain c t where ct: "json_stringify v = c # t"
    using number_not_Nil [OF True assms] by (cases "json_stringify v") auto
  with number_chars [OF True assms] have "num_char c" by simp
  moreover have "kind v = 6" using number_cases [OF True] by auto
  ultimately show ?thesis using ct num_char_kind [of c] by simp
next
  case False
  then show ?thesis by (cases v) (auto simp: is_number_def kind_char_def json_string_def)
qed

lemma join_Cons: "join sep (x # xs) = x @ (if xs = [] then [] else sep @ join sep xs)"
  by (cases xs) auto

lemma join_inject:
  assumes elem: "\<And>x y r s. x \<in> set xs \<Longrightarrow> y \<in> set ys \<Longrightarrow> f x @ r = f y @ s \<Longrightarrow>
      stops r \<Longrightarrow> stops s \<Longrightarrow> x = y \<and> r = s"
    and head: "\<And>x. x \<in> set xs \<union> set ys \<Longrightarrow> \<exists>c t. f x = c # t \<and> c \<noteq> z"
    and z: "\<not> num_char z" "z \<noteq> CHR '',''"
    and eq: "join '','' (map f xs) @ z # r = join '','' (map f ys) @ z # s"
  shows "xs = ys \<and> r = s"
  using elem head eq
proof (induction xs arbitrary: ys)
  case Nil
  then show ?case
  proof (cases ys)
    case (Cons y ys')
    with Nil.prems(2) [of y] obtain c t where "f y = c # t" "c \<noteq> z" by auto
    with Nil.prems(3) Cons show ?thesis by (simp add: join_Cons)
  qed simp
next
  case (Cons x xs)
  show ?case
  proof (cases ys)
    case Nil
    from Cons.prems(2) [of x] obtain c t where "f x = c # t" "c \<noteq> z" by auto
    with Cons.prems(3) Nil show ?thesis by (simp add: join_Cons)
  next
    case ys: (Cons y ys')
    let ?r = "(if xs = [] then [] else '','' @ join '','' (map f xs)) @ z # r"
    let ?s = "(if ys' = [] then [] else '','' @ join '','' (map f ys')) @ z # s"
    have eq: "f x @ ?r = f y @ ?s" using Cons.prems(3) ys by (simp add: join_Cons split: if_splits)
    have r: "stops ?r" and s: "stops ?s" using z by auto
    have y: "y \<in> set ys" using ys by simp
    note xyrs = Cons.prems(1) [OF list.set_intros(1) y eq r s]
    then have xy: "x = y" and rs: "?r = ?s" by (rule conjunct1, rule conjunct2)
    from rs z(2) have "xs = [] \<longleftrightarrow> ys' = []" by (cases "xs = []"; cases "ys' = []") auto
    show ?thesis
    proof (cases "xs = []")
      case True
      with rs \<open>xs = [] \<longleftrightarrow> ys' = []\<close> xy ys show ?thesis by simp
    next
      case False
      with rs \<open>xs = [] \<longleftrightarrow> ys' = []\<close>
      have "join '','' (map f xs) @ z # r = join '','' (map f ys') @ z # s" by simp
      from Cons.IH [OF _ _ this] Cons.prems(1,2) ys have "xs = ys' \<and> r = s" by auto
      with xy ys show ?thesis by simp
    qed
  qed
qed

lemma property_inject:
  assumes "\<And>w r s. wf_numbers w \<Longrightarrow> json_stringify (snd p) @ r = json_stringify w @ s \<Longrightarrow>
      stops r \<Longrightarrow> stops s \<Longrightarrow> snd p = w \<and> r = s"
    and "wf_numbers (snd q)" "stops r" "stops s"
    and "(case p of (k, v) \<Rightarrow> json_string k @ '':'' @ json_stringify v) @ r =
         (case q of (k, v) \<Rightarrow> json_string k @ '':'' @ json_stringify v) @ s"
  shows "p = q \<and> r = s"
proof -
  obtain k v l w where pq: "p = (k, v)" "q = (l, w)" by (cases p, cases q)
  with assms(5) have "json_string k @ (CHR '':'' # json_stringify v @ r) =
      json_string l @ (CHR '':'' # json_stringify w @ s)" by simp
  from json_string_inject [OF this] assms(1) [of w r s] assms(2-4) pq show ?thesis by simp
qed

lemma json_stringify_inject_gen:
  "wf_numbers v \<Longrightarrow> wf_numbers w \<Longrightarrow> json_stringify v @ r = json_stringify w @ s \<Longrightarrow>
   stops r \<Longrightarrow> stops s \<Longrightarrow> v = w \<and> r = s"
proof (induction v arbitrary: w r s)
  case (JArr xs)
  from kind_of_head [OF JArr.prems(1)] kind_of_head [OF JArr.prems(2)] JArr.prems(3)
  have "kind w = 4" by auto
  then obtain ys where w: "w = JArr ys" by (cases w) (auto split: if_splits)
  have "xs = ys \<and> r = s"
  proof (rule join_inject [where f = json_stringify and z = "CHR '']''"])
    show "x = y \<and> r' = s'" if "x \<in> set xs" "y \<in> set ys"
      "json_stringify x @ r' = json_stringify y @ s'" "stops r'" "stops s'" for x y r' s'
      using JArr.IH [OF that(1)] JArr.prems(1,2) w that by auto
    show "\<exists>c t. json_stringify x = c # t \<and> c \<noteq> CHR '']''" if "x \<in> set xs \<union> set ys" for x
      using kind_of_head [of x] JArr.prems(1,2) w that by auto
  qed (use JArr.prems(3) w in simp_all)
  with w show ?case by simp
next
  case (JObj kvs)
  from kind_of_head [OF JObj.prems(1)] kind_of_head [OF JObj.prems(2)] JObj.prems(3)
  have "kind w = 5" by auto
  then obtain lws where w: "w = JObj lws" by (cases w) (auto split: if_splits)
  let ?f = "\<lambda>(k, v). json_string k @ '':'' @ json_stringify v"
  have "kvs = lws \<and> r = s"
  proof (rule join_inject [where f = ?f and z = "CHR ''}''"])
    show "p = q \<and> r' = s'" if "p \<in> set kvs" "q \<in> set lws" "?f p @ r' = ?f q @ s'"
      "stops r'" "stops s'" for p q r' s'
    proof (rule property_inject [OF _ _ that(4,5,3)])
      show "wf_numbers (snd q)" using JObj.prems(2) w that(2) by simp
      show "snd p = w' \<and> a = b" if "wf_numbers w'" "json_stringify (snd p) @ a = json_stringify w' @ b"
        "stops a" "stops b" for w' a b
        using JObj.IH [of p "snd p" w' a b] \<open>p \<in> set kvs\<close> JObj.prems(1) that
        by (cases p) auto
    qed
    show "\<exists>c t. ?f x = c # t \<and> c \<noteq> CHR ''}''" if "x \<in> set kvs \<union> set lws" for x
      by (cases x) (simp add: json_string_def)
  qed (use JObj.prems(3) w in simp_all)
  with w show ?case by simp
next
  case (JStr t)
  from kind_of_head [OF JStr.prems(1)] kind_of_head [OF JStr.prems(2)] JStr.prems(3)
  have "kind w = 3" by auto
  then obtain t' where w: "w = JStr t'" by (cases w) (auto split: if_splits)
  with JStr.prems(3) json_string_inject [of t r t' s] show ?case by simp
next
  case JNull
  from kind_of_head [OF JNull.prems(1)] kind_of_head [OF JNull.prems(2)] JNull.prems(3)
  have "kind w = 0" by auto
  then have "w = JNull" by (cases w) (auto split: if_splits)
  with JNull.prems(3) show ?case by simp
next
  case (JBool b)
  from kind_of_head [OF JBool.prems(1)] kind_of_head [OF JBool.prems(2)] JBool.prems(3)
  have "kind w = (if b then 1 else 2)" by auto
  then have "w = JBool b" by (cases w) (auto split: if_splits)
  with JBool.prems(3) show ?case by simp
next
  case (JInt i)
  have v: "is_number (JInt i)" by (simp add: is_number_def)
  from kind_of_head [OF JInt.prems(1)] kind_of_head [OF JInt.prems(2)] JInt.prems(3)
  have "kind w = 6" by auto
  then have w: "is_number w" by (cases w) (auto simp: is_number_def split: if_splits)
  from number_text_inject [OF number_chars [OF v JInt.prems(1)] number_chars [OF w JInt.prems(2)]
      JInt.prems(3-5)] number_value [OF v w JInt.prems(1,2)]
  show ?case by blast
next
  case (JFloat l)
  have v: "is_number (JFloat l)" by (simp add: is_number_def)
  from kind_of_head [OF JFloat.prems(1)] kind_of_head [OF JFloat.prems(2)] JFloat.prems(3)
  have "kind w = 6" by auto
  then have w: "is_number w" by (cases w) (auto simp: is_number_def split: if_splits)
  from number_text_inject [OF number_chars [OF v JFloat.prems(1)] number_chars [OF w JFloat.prems(2)]
      JFloat.prems(3-5)] number_value [OF v w JFloat.prems(1,2)]
  show ?case by blast
qed

lemma json_stringify_inject:
  assumes "wf_numbers v" "wf_numbers w"
  shows "json_stringify v = json_stringify w \<longleftrightarrow> v = w"
  using json_stringify_inject_gen [OF assms, of "[]" "[]"] by auto

lemma wf_numbers_canon [simp]: "wf_numbers (canon v) = wf_numbers v"
proof (induction v)
  case (JObj kvs)
  have "wf_numbers (canon (snd p)) = wf_numbers (snd p)" if "p \<in> set kvs" for p
    using JObj [OF that, of "snd p"] by (cases p) auto
  then show ?case by (auto simp: case_prod_beta)
qed auto

lemma stable_stringify_inject:
  assumes "wf_numbers v" "wf_numbers w"
  shows "stable_stringify v = stable_stringify w \<longleftrightarrow> canon v = canon w"
  using assms by (simp add: stable_stringify_canon json_stringify_inject)

end
