(* ===== verification/JsDate.thy ===== *)
theory JsDate
  imports Prelude
begin

text \<open>
  The arithmetic of JavaScript's \<open>Date\<close>, as the language specification defines it: a time
  value is the integer number of milliseconds since 1970-01-01T00:00:00Z, days are counted
  in the proleptic Gregorian calendar. Every date the program computes with lies within the
  range of time values (years up to 9999), so the \<open>NaN\<close> of an out-of-range date does not
  occur. \<open>date_utc\<close> is \<open>Date.UTC\<close>, \<open>utc_fields\<close> the \<open>getUTC..\<close> accessors and
  \<open>to_iso_string\<close> \<open>toISOString\<close>. The two theorems \<open>utc_fields_date_utc\<close> and
  \<open>date_utc_fields\<close> show that they are inverse to each other.
\<close>

definition ms_per_day :: int where
  "ms_per_day = 86400000"

definition day_from_year :: "int \<Rightarrow> int" where
  "day_from_year y = 365 * (y - 1970) + (y - 1969) div 4 - (y - 1901) div 100 + (y - 1601) div 400"

definition leap_year :: "int \<Rightarrow> bool" where
  "leap_year y \<longleftrightarrow> (y mod 4 = 0 \<and> y mod 100 \<noteq> 0) \<or> y mod 400 = 0"

definition days_in_year :: "int \<Rightarrow> int" where
  "days_in_year y = (if leap_year y then 366 else 365)"

text \<open>The year of a day: an estimate from the mean length of a year, off by at most one.\<close>

definition year_from_day :: "int \<Rightarrow> int" where
  "year_from_day n =
    (let y = 1970 + (n * 400) div 146097 in
     if n < day_from_year y then y - 1 else if day_from_year (y + 1) \<le> n then y + 1 else y)"

text \<open>Days of the year before month \<open>m\<close> (months count from 0).\<close>

definition month_start :: "bool \<Rightarrow> int \<Rightarrow> int" where
  "month_start leap m =
    (if m \<le> 0 then 0 else if m = 1 then 31
     else (if leap then 1 else 0) +
      (if m = 2 then 59 else if m = 3 then 90 else if m = 4 then 120 else if m = 5 then 151
       else if m = 6 then 181 else if m = 7 then 212 else if m = 8 then 243 else if m = 9 then 273
       else if m = 10 then 304 else if m = 11 then 334 else 365))"

definition month_from_day :: "bool \<Rightarrow> int \<Rightarrow> int" where
  "month_from_day leap d =
    (if d < month_start leap 1 then 0 else if d < month_start leap 2 then 1
     else if d < month_start leap 3 then 2 else if d < month_start leap 4 then 3
     else if d < month_start leap 5 then 4 else if d < month_start leap 6 then 5
     else if d < month_start leap 7 then 6 else if d < month_start leap 8 then 7
     else if d < month_start leap 9 then 8 else if d < month_start leap 10 then 9
     else if d < month_start leap 11 then 10 else 11)"

definition make_day :: "int \<Rightarrow> int \<Rightarrow> int \<Rightarrow> int" where
  "make_day y m dt =
    (let ym = y + m div 12 in day_from_year ym + month_start (leap_year ym) (m mod 12) + dt - 1)"

text \<open>\<open>Date.UTC\<close> takes the years 0 to 99 as 1900 to 1999.\<close>

definition date_utc :: "int \<Rightarrow> int \<Rightarrow> int \<Rightarrow> int \<Rightarrow> int \<Rightarrow> int \<Rightarrow> int" where
  "date_utc y m dt h mi s =
    (let fy = (if 0 \<le> y \<and> y \<le> 99 then 1900 + y else y) in
     make_day fy m dt * ms_per_day + h * 3600000 + mi * 60000 + s * 1000)"

record utc_fields =
  uf_year :: int
  uf_month :: int
  uf_date :: int
  uf_hours :: int
  uf_minutes :: int
  uf_seconds :: int
  uf_ms :: int

definition utc_fields :: "int \<Rightarrow> utc_fields" where
  "utc_fields t =
    (let n = t div ms_per_day; r = t mod ms_per_day; y = year_from_day n;
         d = n - day_from_year y; m = month_from_day (leap_year y) d in
     \<lparr>uf_year = y, uf_month = m, uf_date = d - month_start (leap_year y) m + 1,
      uf_hours = r div 3600000, uf_minutes = (r div 60000) mod 60,
      uf_seconds = (r div 1000) mod 60, uf_ms = r mod 1000\<rparr>)"

text \<open>\<open>getUTCDay\<close>: 0 is Sunday; 1970-01-01 was a Thursday.\<close>

definition utc_day :: "int \<Rightarrow> int" where
  "utc_day t = (t div ms_per_day + 4) mod 7"

definition to_iso_string :: "int \<Rightarrow> string" where
  "to_iso_string t =
    (let f = utc_fields t; y = uf_year f in
     (if 0 \<le> y \<and> y \<le> 9999 then pad_nat 4 (nat y)
      else (if y < 0 then ''-'' else ''+'') @ pad_nat 6 (nat \<bar>y\<bar>)) @ ''-'' @
     pad_nat 2 (nat (uf_month f + 1)) @ ''-'' @ pad_nat 2 (nat (uf_date f)) @ ''T'' @
     pad_nat 2 (nat (uf_hours f)) @ '':'' @ pad_nat 2 (nat (uf_minutes f)) @ '':'' @
     pad_nat 2 (nat (uf_seconds f)) @ ''.'' @ pad_nat 3 (nat (uf_ms f)) @ ''Z'')"

section \<open>The calendar\<close>

lemma div_step:
  fixes a k :: int
  assumes k: "0 < k"
  shows "(a + 1) div k = a div k + (if k dvd a + 1 then 1 else 0)"
proof (cases "a mod k = k - 1")
  case True
  have "a + 1 = k * (a div k) + a mod k + 1" by simp
  then have *: "a + 1 = k * (a div k + 1)" using True by (simp add: algebra_simps)
  show ?thesis unfolding * using k by simp
next
  case False
  have r: "0 \<le> a mod k + 1" "a mod k + 1 < k"
    using False k pos_mod_sign [OF k, of a] pos_mod_bound [OF k, of a] by linarith+
  have *: "a + 1 = k * (a div k) + (a mod k + 1)" by simp
  have "(a + 1) div k = a div k" by (rule int_div_pos_eq [OF * r])
  moreover have "(a + 1) mod k = a mod k + 1" by (rule int_mod_pos_eq [OF * r])
  then have "\<not> k dvd a + 1" using pos_mod_sign [OF k, of a] by (simp add: dvd_eq_mod_eq_0)
  ultimately show ?thesis by simp
qed

lemma dvd_shift: "(k::int) dvd c \<Longrightarrow> k dvd y - c \<longleftrightarrow> k dvd y"
  by (simp add: dvd_diff_left_iff)

lemma leap_year_dvd: "leap_year y \<longleftrightarrow> (4 dvd y \<and> \<not> 100 dvd y) \<or> 400 dvd y"
  by (simp add: leap_year_def dvd_eq_mod_eq_0)

lemma dvd_400: "(400::int) dvd y \<Longrightarrow> 100 dvd y" "(100::int) dvd y \<Longrightarrow> 4 dvd y"
  by (rule dvd_trans [of _ 400]; simp)(rule dvd_trans [of _ 100]; simp)

lemma day_from_year_step: "day_from_year (y + 1) = day_from_year y + days_in_year y"
proof -
  have 1: "(y + 1 - 1969) div 4 = (y - 1969) div 4 + (if 4 dvd y then 1 else 0)"
    using div_step [of 4 "y - 1969"] dvd_shift [of 4 1968 y] by (simp add: algebra_simps)
  have 2: "(y + 1 - 1901) div 100 = (y - 1901) div 100 + (if 100 dvd y then 1 else 0)"
    using div_step [of 100 "y - 1901"] dvd_shift [of 100 1900 y] by (simp add: algebra_simps)
  have 3: "(y + 1 - 1601) div 400 = (y - 1601) div 400 + (if 400 dvd y then 1 else 0)"
    using div_step [of 400 "y - 1601"] dvd_shift [of 400 1600 y] by (simp add: algebra_simps)
  show ?thesis
    unfolding day_from_year_def 1 2 3 days_in_year_def leap_year_dvd
    using dvd_400 [of y] by auto
qed

lemma days_in_year_pos: "0 < days_in_year y"
  by (simp add: days_in_year_def)

lemma day_from_year_less: "day_from_year y < day_from_year (y + 1)"
  using day_from_year_step [of y] days_in_year_pos [of y] by linarith

lemma day_from_year_mono: "y \<le> z \<Longrightarrow> day_from_year y \<le> day_from_year z"
proof (induction z rule: int_ge_induct)
  case (step z)
  then show ?case using day_from_year_less [of z] by linarith
qed simp

lemma div_bounds:
  fixes a k :: int
  assumes "0 < k"
  shows "k * (a div k) \<le> a" "a < k * (a div k) + k"
  using pos_mod_sign [OF assms, of a] pos_mod_bound [OF assms, of a] mult_div_mod_eq [of k a]
  by linarith+

lemmas div_bounds_num =
  div_bounds [of 4, simplified] div_bounds [of 100, simplified] div_bounds [of 400, simplified]
  div_bounds [of 146097, simplified] div_bounds [of 3600000, simplified]

lemma mean_year_arith:
  fixes y p q r :: int
  assumes "4 * p \<le> y - 1969" "y - 1969 < 4 * p + 4" "100 * q \<le> y - 1901"
    "y - 1901 < 100 * q + 100" "400 * r \<le> y - 1601" "y - 1601 < 400 * r + 400"
  shows "146097 * (y - 1970) - 800 \<le> 400 * (365 * (y - 1970) + p - q + r)"
    "400 * (365 * (y - 1970) + p - q + r) \<le> 146097 * (y - 1970) + 800"
  using assms by (simp_all add: algebra_simps)

lemma day_from_year_bounds:
  "146097 * (y - 1970) - 800 \<le> 400 * day_from_year y"
  "400 * day_from_year y \<le> 146097 * (y - 1970) + 800"
  unfolding day_from_year_def by (rule mean_year_arith; rule div_bounds_num)+

lemma year_estimate_arith:
  fixes n q a b :: int
  assumes "146097 * q \<le> n * 400" "n * 400 < 146097 * q + 146097"
    "400 * a \<le> 146097 * (1970 + q - 1 - 1970) + 800" "146097 * (1970 + q + 2 - 1970) - 800 \<le> 400 * b"
  shows "a \<le> n" "n < b"
  using assms by (simp_all add: algebra_simps)

lemma year_from_day_bounds:
  "day_from_year (year_from_day n) \<le> n \<and> n < day_from_year (year_from_day n + 1)"
proof -
  let ?y = "1970 + (n * 400) div 146097"
  note e = div_bounds_num(7,8) [of "n * 400"]
  have lo: "day_from_year (?y - 1) \<le> n" and hi: "n < day_from_year (?y + 2)"
    by (rule year_estimate_arith [OF e day_from_year_bounds(2) day_from_year_bounds(1)])+
  then show ?thesis by (auto simp: year_from_day_def Let_def)
qed

lemma year_from_day_unique:
  assumes "day_from_year y \<le> n" "n < day_from_year (y + 1)"
  shows "year_from_day n = y"
proof -
  let ?z = "year_from_day n"
  have "\<not> ?z < y" using day_from_year_mono [of "?z + 1" y] year_from_day_bounds [of n] assms by linarith
  moreover have "\<not> y < ?z" using day_from_year_mono [of "y + 1" ?z] year_from_day_bounds [of n] assms by linarith
  ultimately show ?thesis by linarith
qed

lemma month_start_0 [simp]: "month_start l 0 = 0"
  by (simp add: month_start_def)

lemma months_cover: "0 \<le> m \<Longrightarrow> m \<le> 11 \<Longrightarrow> m \<in> {0, 1, 2, 3, 4, 5, 6, 7, 8, 9, 10, 11}" for m :: int
  by simp presburger

lemma month_start_less: "0 \<le> m \<Longrightarrow> m \<le> 11 \<Longrightarrow> month_start l m < month_start l (m + 1)"
  by (drule (1) months_cover) (auto simp: month_start_def)

lemma month_from_day_bounds:
  assumes "0 \<le> d" "d < (if l then 366 else 365)"
  shows "0 \<le> month_from_day l d \<and> month_from_day l d \<le> 11 \<and>
    month_start l (month_from_day l d) \<le> d \<and> d < month_start l (month_from_day l d + 1)"
  using assms by (cases l) (simp_all add: month_from_day_def month_start_def)

lemma month_from_day_unique:
  assumes "0 \<le> m" "m \<le> 11" "month_start l m \<le> d" "d < month_start l (m + 1)"
  shows "month_from_day l d = m"
  using months_cover [OF assms(1,2)] assms(3,4)
  by (cases l) (auto simp: month_from_day_def month_start_def)

definition days_in_month_of :: "bool \<Rightarrow> int \<Rightarrow> int" where
  "days_in_month_of l m = month_start l (m + 1) - month_start l m"

lemma month_start_bound: "0 \<le> m \<Longrightarrow> m \<le> 11 \<Longrightarrow> month_start l (m + 1) \<le> (if l then 366 else 365)"
  by (drule (1) months_cover) (auto simp: month_start_def)

lemma make_day_fields:
  assumes "0 \<le> m" "m \<le> 11" "1 \<le> dt" "dt \<le> days_in_month_of (leap_year y) m"
  shows "year_from_day (make_day y m dt) = y"
    "month_from_day (leap_year y) (make_day y m dt - day_from_year y) = m"
    "make_day y m dt - day_from_year y - month_start (leap_year y) m + 1 = dt"
proof -
  have d: "make_day y m dt - day_from_year y = month_start (leap_year y) m + dt - 1"
    using assms(1,2) by (simp add: make_day_def)
  have s: "0 \<le> month_start (leap_year y) m"
    using months_cover [OF assms(1,2)] by (auto simp: month_start_def)
  show "year_from_day (make_day y m dt) = y"
    by (rule year_from_day_unique)
      (use d s assms(3,4) month_start_bound [OF assms(1,2), of "leap_year y"] in
        \<open>auto simp: day_from_year_step days_in_year_def days_in_month_of_def split: if_splits\<close>)
  show "month_from_day (leap_year y) (make_day y m dt - day_from_year y) = m"
    by (rule month_from_day_unique [OF assms(1,2)])
      (use d assms(3,4) in \<open>auto simp: days_in_month_of_def\<close>)
  show "make_day y m dt - day_from_year y - month_start (leap_year y) m + 1 = dt"
    using d by simp
qed

section \<open>\<open>Date.UTC\<close> and the accessors\<close>

lemma split_ms:
  fixes n h mi s :: int
  assumes "0 \<le> h" "h \<le> 23" "0 \<le> mi" "mi \<le> 59" "0 \<le> s" "s \<le> 59"
  defines "t \<equiv> n * ms_per_day + h * 3600000 + mi * 60000 + s * 1000"
  shows "t div ms_per_day = n" "t mod ms_per_day = h * 3600000 + mi * 60000 + s * 1000"
proof -
  have *: "t = ms_per_day * n + (h * 3600000 + mi * 60000 + s * 1000)" by (simp add: t_def)
  have r: "0 \<le> h * 3600000 + mi * 60000 + s * 1000" "h * 3600000 + mi * 60000 + s * 1000 < ms_per_day"
    using assms by (simp_all add: ms_per_day_def)
  show "t div ms_per_day = n" by (rule int_div_pos_eq [OF * r])
  show "t mod ms_per_day = h * 3600000 + mi * 60000 + s * 1000" by (rule int_mod_pos_eq [OF * r])
qed

definition valid_civil :: "int \<Rightarrow> int \<Rightarrow> int \<Rightarrow> int \<Rightarrow> int \<Rightarrow> int \<Rightarrow> bool" where
  "valid_civil y m dt h mi s \<longleftrightarrow> 0 \<le> m \<and> m \<le> 11 \<and> 1 \<le> dt \<and>
     dt \<le> days_in_month_of (leap_year y) m \<and> 0 \<le> h \<and> h \<le> 23 \<and> 0 \<le> mi \<and> mi \<le> 59 \<and> 0 \<le> s \<and> s \<le> 59"

lemma utc_fields_date_utc:
  assumes v: "valid_civil y m dt h mi s" and y: "100 \<le> y"
  shows "utc_fields (date_utc y m dt h mi s) =
    \<lparr>uf_year = y, uf_month = m, uf_date = dt, uf_hours = h, uf_minutes = mi, uf_seconds = s, uf_ms = 0\<rparr>"
proof -
  have t: "date_utc y m dt h mi s = make_day y m dt * ms_per_day + h * 3600000 + mi * 60000 + s * 1000"
    using y by (simp add: date_utc_def)
  note mf = make_day_fields [of m dt y]
  note sm = split_ms [of h mi s "make_day y m dt"]
  have h: "(h * 3600000 + mi * 60000 + s * 1000) div 3600000 = h"
    using v by (intro int_div_pos_eq [of _ _ _ "mi * 60000 + s * 1000"]) (auto simp: valid_civil_def)
  have "(h * 3600000 + mi * 60000 + s * 1000) div 60000 = h * 60 + mi"
    using v by (intro int_div_pos_eq [of _ _ _ "s * 1000"]) (auto simp: valid_civil_def)
  moreover have "(h * 60 + mi) mod 60 = mi"
    using v by (intro int_mod_pos_eq [of _ _ h]) (auto simp: valid_civil_def)
  moreover have "(h * 3600000 + mi * 60000 + s * 1000) div 1000 = 3600 * h + 60 * mi + s"
    by (intro int_div_pos_eq [of _ _ _ 0]) auto
  moreover have "(3600 * h + 60 * mi + s) mod 60 = s"
    using v by (intro int_mod_pos_eq [of _ _ "h * 60 + mi"]) (auto simp: valid_civil_def)
  moreover have "(h * 3600000 + mi * 60000 + s * 1000) mod 1000 = 0"
    by (intro int_mod_pos_eq [of _ _ "h * 3600 + mi * 60 + s"]) auto
  ultimately show ?thesis
    using v mf sm h unfolding t utc_fields_def Let_def by (simp add: valid_civil_def)
qed

lemma time_fields:
  assumes "0 \<le> r" "r < ms_per_day"
  shows "r = (r div 3600000) * 3600000 + ((r div 60000) mod 60) * 60000 + ((r div 1000) mod 60) * 1000 + r mod 1000"
    "0 \<le> r div 3600000" "r div 3600000 \<le> 23"
proof -
  have 1: "r = 1000 * (r div 1000) + r mod 1000" by simp
  have 2: "r div 1000 = 60 * (r div 1000 div 60) + (r div 1000) mod 60" by simp
  have 3: "r div 60000 = 60 * (r div 60000 div 60) + (r div 60000) mod 60" by simp
  have 4: "r div 1000 div 60 = r div 60000" "r div 60000 div 60 = r div 3600000"
    by (simp_all add: zdiv_zmult2_eq [symmetric])
  show "r = (r div 3600000) * 3600000 + ((r div 60000) mod 60) * 60000 + ((r div 1000) mod 60) * 1000 + r mod 1000"
    using 1 2 3 unfolding 4 by linarith
  show "0 \<le> r div 3600000" using assms(1) by simp
  show "r div 3600000 \<le> 23" using assms(2) div_bounds_num(9,10) [of r] by (simp add: ms_per_day_def)
qed

lemma utc_fields_valid:
  "valid_civil (uf_year (utc_fields t)) (uf_month (utc_fields t)) (uf_date (utc_fields t))
     (uf_hours (utc_fields t)) (uf_minutes (utc_fields t)) (uf_seconds (utc_fields t))"
proof -
  let ?n = "t div ms_per_day" and ?r = "t mod ms_per_day"
  let ?y = "year_from_day ?n"
  have "0 \<le> ?n - day_from_year ?y" "?n - day_from_year ?y < (if leap_year ?y then 366 else 365)"
    using year_from_day_bounds [of ?n] day_from_year_step [of ?y] by (auto simp: days_in_year_def)
  note m = month_from_day_bounds [OF this]
  have "0 \<le> ?r" "?r < ms_per_day" by (simp_all add: ms_per_day_def)
  note h = time_fields [OF this]
  have "x mod 60 \<le> 59" for x :: int by presburger
  then show ?thesis using m h(2,3)
    by (simp add: utc_fields_def Let_def valid_civil_def days_in_month_of_def)
qed

lemma date_utc_fields:
  assumes "100 \<le> uf_year (utc_fields t)"
  shows "date_utc (uf_year (utc_fields t)) (uf_month (utc_fields t)) (uf_date (utc_fields t))
     (uf_hours (utc_fields t)) (uf_minutes (utc_fields t)) (uf_seconds (utc_fields t)) +
     uf_ms (utc_fields t) = t"
proof -
  let ?n = "t div ms_per_day" and ?r = "t mod ms_per_day"
  let ?y = "year_from_day ?n"
  let ?m = "month_from_day (leap_year ?y) (?n - day_from_year ?y)"
  have v: "0 \<le> ?m" "?m \<le> 11" using utc_fields_valid [of t]
    by (simp_all add: utc_fields_def Let_def valid_civil_def)
  then have day: "make_day ?y ?m (?n - day_from_year ?y - month_start (leap_year ?y) ?m + 1) = ?n"
    by (simp add: make_day_def)
  have "0 \<le> ?r" "?r < ms_per_day" by (simp_all add: ms_per_day_def)
  from time_fields(1) [OF this] have r: "?r = ?r div 3600000 * 3600000 + ?r div 60000 mod 60 * 60000 +
      ?r div 1000 mod 60 * 1000 + ?r mod 1000" .
  have t: "t = ?n * ms_per_day + ?r" by simp
  have "date_utc (uf_year (utc_fields t)) (uf_month (utc_fields t)) (uf_date (utc_fields t))
     (uf_hours (utc_fields t)) (uf_minutes (utc_fields t)) (uf_seconds (utc_fields t)) +
     uf_ms (utc_fields t) = ?n * ms_per_day + (?r div 3600000 * 3600000 + ?r div 60000 mod 60 * 60000 +
      ?r div 1000 mod 60 * 1000 + ?r mod 1000)"
    using assms day by (simp add: utc_fields_def Let_def date_utc_def)
  with r t show ?thesis by linarith
qed

end
