(* ===== verification/ToriiTypes.thy ===== *)
theory ToriiTypes
  imports Json JsDate
begin

text \<open>
  Types that the components of the gateway (Torii) share: the agent principal, the exceptions
  the modelled code throws, and the width of a Postgres \<open>INTEGER\<close> column.
\<close>

record agent_principal =
  pr_agentId :: string
  pr_ownerId :: string
  pr_groups :: "string list"
  pr_bearerId :: string

datatype policy_decision = Allowed | Denied

datatype call_decision = DAllowed | DDenied | DApprovalRequired | DLinkingRequired

record torii_call_meta =
  cm_traceId :: string
  cm_decision :: "call_decision option"
  cm_durationMs :: "int option"

datatype lookup_reason = NotFound | Expired

text \<open>
  Exceptions. \<open>PgUnique\<close> names the violated index, \<open>PgOutOfRange\<close> is Postgres error
  22003 for an \<open>INTEGER\<close> column; \<open>Plain\<close> is any other \<open>Error\<close> with its message.
\<close>

datatype exn =
    McpTaskLookup lookup_reason
  | PolicyDeniedError string torii_call_meta
  | ToolNotFoundError string
  | BackendUnavailableError string string
  | LinkingRequiredError string string string string
  | GroupPolicyWriteError string nat
  | PgUnique string
  | PgForeignKey string
  | PgOutOfRange
  | Plain string

definition exn_message :: "exn \<Rightarrow> string" where
  "exn_message e = (case e of
      McpTaskLookup Expired \<Rightarrow> ''Failed to retrieve task: Task has expired''
    | McpTaskLookup NotFound \<Rightarrow> ''Failed to retrieve task: Task not found''
    | PolicyDeniedError tool _ \<Rightarrow> ''policy_denied: '' @ tool
    | ToolNotFoundError tool \<Rightarrow> ''Unknown tool: '' @ tool
    | BackendUnavailableError server reason \<Rightarrow>
        ''Backend \"'' @ server @ ''\" is unavailable: '' @ reason
    | LinkingRequiredError provider _ backend _ \<Rightarrow>
        ''OAuth connection required for provider \"'' @ provider @ ''\" (backend \"'' @ backend @ ''\")''
    | GroupPolicyWriteError msg _ \<Rightarrow> msg
    | PgUnique idx \<Rightarrow> ''duplicate key value violates unique constraint \"'' @ idx @ ''\"''
    | PgForeignKey idx \<Rightarrow> ''insert or update violates foreign key constraint \"'' @ idx @ ''\"''
    | PgOutOfRange \<Rightarrow> ''integer out of range''
    | Plain msg \<Rightarrow> msg)"

text \<open>
  \<open>isUniqueViolation(error, hint)\<close> of \<^verbatim>\<open>packages/postgres/src/errors.ts\<close>: a unique violation whose
  constraint or message mentions the hint.
\<close>

definition isUniqueViolation :: "exn \<Rightarrow> string \<Rightarrow> bool" where
  "isUniqueViolation e hint =
    (case e of PgUnique idx \<Rightarrow> str_includes hint (idx @ '' '' @ exn_message e) | _ \<Rightarrow> False)"

text \<open>A Postgres \<open>INTEGER\<close> holds 32 bits.\<close>

definition pg_int4 :: "int \<Rightarrow> bool" where
  "pg_int4 i \<longleftrightarrow> - (2 ^ 31) \<le> i \<and> i < 2 ^ 31"

definition pg_int4_opt :: "int option \<Rightarrow> bool" where
  "pg_int4_opt x = (case x of None \<Rightarrow> True | Some i \<Rightarrow> pg_int4 i)"

end
