(* ===== verification/McpTasks.thy ===== *)
theory McpTasks
  imports ToriiTypes
begin

text \<open>
  The MCP Tasks vocabulary: \<^verbatim>\<open>packages/shared/src/mcp-tasks.ts\<close> (statuses, wire tasks, result
  envelopes, the capability check and the schemas a backend's answer is parsed with) and
  \<^verbatim>\<open>apps/torii/src/tasks/types/mcp-task.ts\<close>, \<^verbatim>\<open>tasks/utils/to-mcp-task.ts\<close> (the stored task
  and its projections). \<open>z.string().datetime()\<close> is zod's own check and is the parameter
  \<open>is_datetime\<close> of the schema functions.
\<close>

section \<open>Statuses\<close>

datatype mcp_task_status = Working | InputRequired | Completed | Failed | Cancelled

definition isMcpTaskTerminalStatus :: "mcp_task_status \<Rightarrow> bool" where
  "isMcpTaskTerminalStatus s \<longleftrightarrow> s \<in> {Completed, Failed, Cancelled}"

lemma terminal_simps [simp]:
  "isMcpTaskTerminalStatus Completed" "isMcpTaskTerminalStatus Failed"
  "isMcpTaskTerminalStatus Cancelled" "\<not> isMcpTaskTerminalStatus Working"
  "\<not> isMcpTaskTerminalStatus InputRequired"
  by (simp_all add: isMcpTaskTerminalStatus_def)

fun status_str :: "mcp_task_status \<Rightarrow> string" where
  "status_str Working = ''working''"
| "status_str InputRequired = ''input_required''"
| "status_str Completed = ''completed''"
| "status_str Failed = ''failed''"
| "status_str Cancelled = ''cancelled''"

definition parse_status :: "string \<Rightarrow> mcp_task_status option" where
  "parse_status s =
    find (\<lambda>x. status_str x = s) [Working, InputRequired, Completed, Failed, Cancelled]"

lemma parse_status_str [simp]: "parse_status (status_str x) = Some x"
  by (cases x) (simp_all add: parse_status_def)

datatype mcp_tasks_method = TasksGet | TasksUpdate | TasksCancel

definition isMcpTasksMethod :: "string \<Rightarrow> mcp_tasks_method option" where
  "isMcpTasksMethod m =
    (if m = ''tasks/get'' then Some TasksGet
     else if m = ''tasks/update'' then Some TasksUpdate
     else if m = ''tasks/cancel'' then Some TasksCancel
     else None)"

definition mcp_tasks_extension_id :: string where
  "mcp_tasks_extension_id = ''io.modelcontextprotocol/tasks''"

text \<open>Only own properties of an object count (\<open>hasOwnProperty\<close>). An array has no such key.\<close>

definition clientDeclaresTasksExtension :: "json option \<Rightarrow> bool" where
  "clientDeclaresTasksExtension caps =
    (case caps of
       Some (JObj c) \<Rightarrow>
         (case map_of c ''extensions'' of
            Some (JObj e) \<Rightarrow> mcp_tasks_extension_id \<in> fst ` set e
          | _ \<Rightarrow> False)
     | _ \<Rightarrow> False)"

section \<open>Stored tasks\<close>

definition default_mcp_task_ttl_ms :: int where
  "default_mcp_task_ttl_ms = 24 * 60 * 60 * 1000"

definition default_mcp_task_poll_interval_ms :: int where
  "default_mcp_task_poll_interval_ms = 5000"

record stored_mcp_task =
  st_taskId :: string
  st_agentId :: string
  st_ownerId :: string
  st_requestMethod :: string
  st_status :: mcp_task_status
  st_statusMessage :: "string option"
  st_createdAtMs :: int
  st_lastUpdatedAtMs :: int
  st_ttlMs :: "int option"
  st_pollIntervalMs :: "int option"
  st_inputRequests :: "jobj option"
  st_satisfiedInputKeys :: "string list"
  st_result :: "jobj option"
  st_error :: "jobj option"
  st_backendServer :: "string option"
  st_backendTaskId :: "string option"

text \<open>
  \<open>ttlMs\<close> distinguishes an absent value (the default applies) from an explicit \<open>null\<close>
  (no expiry): \<open>None\<close> and \<open>Some None\<close>.
\<close>

record create_mcp_task_input =
  ci_agentId :: string
  ci_ownerId :: string
  ci_requestMethod :: "string option"
  ci_statusMessage :: "string option"
  ci_ttlMs :: "int option option"
  ci_pollIntervalMs :: "int option"
  ci_now :: "int option"

definition isMcpTaskExpired :: "stored_mcp_task \<Rightarrow> int \<Rightarrow> bool" where
  "isMcpTaskExpired r now =
    (case st_ttlMs r of None \<Rightarrow> False | Some ttl \<Rightarrow> st_createdAtMs r + ttl \<le> now)"

section \<open>Wire tasks\<close>

record mcp_task =
  mt_taskId :: string
  mt_status :: mcp_task_status
  mt_statusMessage :: "string option"
  mt_createdAt :: string
  mt_lastUpdatedAt :: string
  mt_ttlMs :: "int option"
  mt_pollIntervalMs :: "int option"

text \<open>The variant part of a detailed task.\<close>

datatype task_detail =
    DetailWorking
  | DetailInputRequired jobj
  | DetailCompleted jobj
  | DetailFailed jobj
  | DetailCancelled

record mcp_detailed_task = mcp_task +
  dt_detail :: task_detail

fun detail_status :: "task_detail \<Rightarrow> mcp_task_status" where
  "detail_status DetailWorking = Working"
| "detail_status (DetailInputRequired _) = InputRequired"
| "detail_status (DetailCompleted _) = Completed"
| "detail_status (DetailFailed _) = Failed"
| "detail_status DetailCancelled = Cancelled"

definition toMcpTask :: "stored_mcp_task \<Rightarrow> mcp_task" where
  "toMcpTask r =
    \<lparr>mt_taskId = st_taskId r, mt_status = st_status r, mt_statusMessage = st_statusMessage r,
     mt_createdAt = to_iso_string (st_createdAtMs r),
     mt_lastUpdatedAt = to_iso_string (st_lastUpdatedAtMs r),
     mt_ttlMs = st_ttlMs r, mt_pollIntervalMs = st_pollIntervalMs r\<rparr>"

definition toDetailedMcpTask :: "stored_mcp_task \<Rightarrow> mcp_detailed_task" where
  "toDetailedMcpTask r =
    mcp_task.extend (toMcpTask r)
      (mcp_detailed_task.fields
        (case st_status r of
           Working \<Rightarrow> DetailWorking
         | InputRequired \<Rightarrow> DetailInputRequired (or_else (st_inputRequests r) [])
         | Completed \<Rightarrow> DetailCompleted (or_else (st_result r) [])
         | Failed \<Rightarrow> DetailFailed (or_else (st_error r) [])
         | Cancelled \<Rightarrow> DetailCancelled))"

lemma toDetailedMcpTask_status [simp]:
  "mt_status (toDetailedMcpTask r) = st_status r"
  "detail_status (dt_detail (toDetailedMcpTask r)) = st_status r"
  "mt_taskId (toDetailedMcpTask r) = st_taskId r"
  by (simp_all add: toDetailedMcpTask_def toMcpTask_def mcp_task.defs mcp_detailed_task.defs
      split: mcp_task_status.splits)

section \<open>Envelopes\<close>

text \<open>
  The results of \<open>tools/call\<close> and \<open>tasks/get\<close> as JSON objects. In \<open>{ resultType, ...task }\<close>
  the task has no \<open>resultType\<close> of its own, so the literal stays.
\<close>

definition opt_field :: "string \<Rightarrow> json option \<Rightarrow> jobj" where
  "opt_field k v = (case v of None \<Rightarrow> [] | Some j \<Rightarrow> [(k, j)])"

definition null_or_int :: "int option \<Rightarrow> json" where
  "null_or_int x = (case x of None \<Rightarrow> JNull | Some i \<Rightarrow> JInt i)"

definition mcp_task_fields :: "('a) mcp_task_scheme \<Rightarrow> jobj" where
  "mcp_task_fields t =
    [(''taskId'', JStr (mt_taskId t)), (''status'', JStr (status_str (mt_status t)))] @
    opt_field ''statusMessage'' (map_option JStr (mt_statusMessage t)) @
    [(''createdAt'', JStr (mt_createdAt t)), (''lastUpdatedAt'', JStr (mt_lastUpdatedAt t)),
     (''ttlMs'', null_or_int (mt_ttlMs t))] @
    opt_field ''pollIntervalMs'' (map_option JInt (mt_pollIntervalMs t))"

definition detail_fields :: "task_detail \<Rightarrow> jobj" where
  "detail_fields d = (case d of
      DetailWorking \<Rightarrow> [] | DetailCancelled \<Rightarrow> []
    | DetailInputRequired q \<Rightarrow> [(''inputRequests'', JObj q)]
    | DetailCompleted q \<Rightarrow> [(''result'', JObj q)]
    | DetailFailed q \<Rightarrow> [(''error'', JObj q)])"

text \<open>\<open>toCreateTaskResult\<close>: the record is \<open>Result & Task\<close>, told apart by \<open>resultType\<close>.\<close>

record mcp_create_task_result = mcp_task +
  cr_resultType :: string

definition toCreateTaskResult :: "mcp_task \<Rightarrow> mcp_create_task_result" where
  "toCreateTaskResult t = mcp_task.extend t (mcp_create_task_result.fields ''task'')"

definition toGetTaskResult :: "mcp_detailed_task \<Rightarrow> jobj" where
  "toGetTaskResult t =
    (''resultType'', JStr ''complete'') # mcp_task_fields t @ detail_fields (dt_detail t)"

lemma toCreateTaskResult_simps [simp]:
  "cr_resultType (toCreateTaskResult t) = ''task''"
  "mt_taskId (toCreateTaskResult t) = mt_taskId t"
  "mt_status (toCreateTaskResult t) = mt_status t"
  by (simp_all add: toCreateTaskResult_def mcp_task.defs mcp_create_task_result.defs)

section \<open>Schemas\<close>

text \<open>
  \<open>safeParse\<close> of the object schemas: unknown properties are dropped, a missing or ill-typed
  one fails the parse. \<open>z.number().int()\<close> accepts integral numbers only.
\<close>

fun parse_opt_string :: "json option \<Rightarrow> string option option" where
  "parse_opt_string None = Some None"
| "parse_opt_string (Some (JStr s)) = Some (Some s)"
| "parse_opt_string _ = None"

fun parse_nullable_int :: "json option \<Rightarrow> int option option" where
  "parse_nullable_int (Some JNull) = Some None"
| "parse_nullable_int (Some (JInt i)) = Some (Some i)"
| "parse_nullable_int _ = None"

fun parse_opt_nonneg_int :: "json option \<Rightarrow> int option option" where
  "parse_opt_nonneg_int None = Some None"
| "parse_opt_nonneg_int (Some (JInt i)) = (if 0 \<le> i then Some (Some i) else None)"
| "parse_opt_nonneg_int _ = None"

definition parse_datetime :: "(string \<Rightarrow> bool) \<Rightarrow> json option \<Rightarrow> string option" where
  "parse_datetime is_datetime j =
    (case as_string j of Some s \<Rightarrow> if is_datetime s then Some s else None | None \<Rightarrow> None)"

definition mcpTaskSchema :: "(string \<Rightarrow> bool) \<Rightarrow> jobj \<Rightarrow> mcp_task option" where
  "mcpTaskSchema is_datetime o1 =
    (case (as_string (map_of o1 ''taskId''), parse_opt_string (map_of o1 ''statusMessage''),
           parse_datetime is_datetime (map_of o1 ''createdAt''),
           parse_datetime is_datetime (map_of o1 ''lastUpdatedAt''),
           parse_nullable_int (map_of o1 ''ttlMs''),
           parse_opt_nonneg_int (map_of o1 ''pollIntervalMs''),
           Option.bind (as_string (map_of o1 ''status'')) parse_status) of
       (Some tid, Some msg, Some c, Some u, Some ttl, Some poll, Some s) \<Rightarrow>
         if tid = [] then None
         else Some \<lparr>mt_taskId = tid, mt_status = s, mt_statusMessage = msg, mt_createdAt = c,
                    mt_lastUpdatedAt = u, mt_ttlMs = ttl, mt_pollIntervalMs = poll\<rparr>
     | _ \<Rightarrow> None)"

definition mcpCreateTaskResultSchema ::
    "(string \<Rightarrow> bool) \<Rightarrow> jobj \<Rightarrow> mcp_create_task_result option" where
  "mcpCreateTaskResultSchema is_datetime o1 =
    (if map_of o1 ''resultType'' = Some (JStr ''task'')
     then map_option toCreateTaskResult (mcpTaskSchema is_datetime o1) else None)"

fun parse_record :: "json option \<Rightarrow> jobj option" where
  "parse_record (Some (JObj kvs)) = Some kvs"
| "parse_record _ = None"

definition mcpDetailedTaskSchema :: "(string \<Rightarrow> bool) \<Rightarrow> jobj \<Rightarrow> mcp_detailed_task option" where
  "mcpDetailedTaskSchema is_datetime o1 =
    Option.bind (mcpTaskSchema is_datetime o1) (\<lambda>t.
      map_option (\<lambda>d. mcp_task.extend t (mcp_detailed_task.fields d))
        (case mt_status t of
           Working \<Rightarrow> Some DetailWorking
         | InputRequired \<Rightarrow> map_option DetailInputRequired (parse_record (map_of o1 ''inputRequests''))
         | Completed \<Rightarrow> map_option DetailCompleted (parse_record (map_of o1 ''result''))
         | Failed \<Rightarrow> map_option DetailFailed (parse_record (map_of o1 ''error''))
         | Cancelled \<Rightarrow> Some DetailCancelled))"

definition mcpGetTaskResultSchema :: "(string \<Rightarrow> bool) \<Rightarrow> jobj \<Rightarrow> mcp_detailed_task option" where
  "mcpGetTaskResultSchema is_datetime o1 =
    (if map_of o1 ''resultType'' = Some (JStr ''complete'')
     then mcpDetailedTaskSchema is_datetime o1 else None)"

text \<open>What the gateway answers to \<open>tasks/get\<close> is accepted by the schema it parses with.\<close>

lemma mcp_task_fields_parse:
  assumes "is_datetime (mt_createdAt t)" "is_datetime (mt_lastUpdatedAt t)" "mt_taskId t \<noteq> []"
    and "\<forall>i. mt_pollIntervalMs t = Some i \<longrightarrow> 0 \<le> i"
  shows "mcpTaskSchema is_datetime ((''resultType'', v) # mcp_task_fields t @ detail_fields d) =
    Some (mcp_task.truncate t)"
  using assms
  by (cases "mt_statusMessage t"; cases "mt_ttlMs t"; cases "mt_pollIntervalMs t"; cases d)
    (simp_all add: mcpTaskSchema_def mcp_task_fields_def detail_fields_def opt_field_def
      null_or_int_def parse_datetime_def mcp_task.defs)

lemma mcp_task_fields_detail:
  "map_of (toGetTaskResult t) ''inputRequests'' = map_of (detail_fields (dt_detail t)) ''inputRequests''"
  "map_of (toGetTaskResult t) ''result'' = map_of (detail_fields (dt_detail t)) ''result''"
  "map_of (toGetTaskResult t) ''error'' = map_of (detail_fields (dt_detail t)) ''error''"
  by (simp_all add: toGetTaskResult_def mcp_task_fields_def opt_field_def split: option.split)

lemma toGetTaskResult_roundtrip:
  assumes "is_datetime (mt_createdAt t)" "is_datetime (mt_lastUpdatedAt t)" "mt_taskId t \<noteq> []"
    and "\<forall>i. mt_pollIntervalMs t = Some i \<longrightarrow> 0 \<le> i"
    and "mt_status t = detail_status (dt_detail t)"
  shows "mcpGetTaskResultSchema is_datetime (toGetTaskResult t) = Some t"
proof -
  note base = mcp_task_fields_parse [OF assms(1-4), of "JStr ''complete''" "dt_detail t"]
  have t: "t = mcp_task.extend (mcp_task.truncate t) (mcp_detailed_task.fields (dt_detail t))"
    by (simp add: mcp_task.defs mcp_detailed_task.defs)
  have s: "mt_status (mcp_task.truncate t) = mt_status t" by (simp add: mcp_task.defs)
  have r: "map_of (toGetTaskResult t) ''resultType'' = Some (JStr ''complete'')"
    by (simp add: toGetTaskResult_def)
  have b: "mcpTaskSchema is_datetime (toGetTaskResult t) = Some (mcp_task.truncate t)"
    using base by (simp add: toGetTaskResult_def)
  have "mcpGetTaskResultSchema is_datetime (toGetTaskResult t) =
      Some (mcp_task.extend (mcp_task.truncate t) (mcp_detailed_task.fields (dt_detail t)))"
    using assms(5)
    by (cases "dt_detail t") (simp_all add: mcpGetTaskResultSchema_def mcpDetailedTaskSchema_def
      mcp_task_fields_detail detail_fields_def r b s)
  then show ?thesis by (simp only: t [symmetric])
qed

end
