(* ===== verification/CallTypes.thy ===== *)
theory CallTypes
  imports McpTasks
begin

text \<open>
  What a tool call is made of: arguments (\<^verbatim>\<open>apps/torii/src/policy/utils/approval-tool-args.ts\<close>),
  results and their classification (\<^verbatim>\<open>dispatch/utils/\<close>, \<^verbatim>\<open>policy/utils/approval-tool-results.ts\<close>,
  \<^verbatim>\<open>credentials/types/credential-resolution.ts\<close>), and the audit record of a call
  (\<^verbatim>\<open>trace/utils/build-call-trace.ts\<close>, \<^verbatim>\<open>trace/utils/derive-credential-ref.ts\<close>). A
  \<open>CallToolResult\<close> is a JSON object.
\<close>

section \<open>Arguments\<close>

definition torii_run_id_arg :: string where "torii_run_id_arg = ''_torii_run_id''"

definition torii_step_id_arg :: string where "torii_step_id_arg = ''_torii_step_id''"

record parsed_tool_arguments =
  pa_upstreamArgs :: jobj
  pa_runId :: "string option"
  pa_stepId :: "string option"

definition parseToolArguments :: "jobj option \<Rightarrow> parsed_tool_arguments" where
  "parseToolArguments args =
    (case args of
       None \<Rightarrow> \<lparr>pa_upstreamArgs = [], pa_runId = None, pa_stepId = None\<rparr>
     | Some a \<Rightarrow>
         \<lparr>pa_upstreamArgs = map_del torii_step_id_arg (map_del torii_run_id_arg a),
          pa_runId = as_string (map_of a torii_run_id_arg),
          pa_stepId = as_string (map_of a torii_step_id_arg)\<rparr>)"

text \<open>\<open>sha256\<close> is node's hash, a parameter.\<close>

definition hashToolParams :: "(string \<Rightarrow> string) \<Rightarrow> jobj \<Rightarrow> string" where
  "hashToolParams sha256 params = sha256 (stable_stringify (JObj params))"

section \<open>Results\<close>

fun truthy_json :: "json \<Rightarrow> bool" where
  "truthy_json JNull = False"
| "truthy_json (JBool b) = b"
| "truthy_json (JInt i) = (i \<noteq> 0)"
| "truthy_json (JFloat s) = True"
| "truthy_json (JStr s) = (s \<noteq> [])"
| "truthy_json (JArr xs) = True"
| "truthy_json (JObj kvs) = True"

definition truthy_prop :: "json option \<Rightarrow> bool" where
  "truthy_prop v = (case v of None \<Rightarrow> False | Some j \<Rightarrow> truthy_json j)"

text \<open>The own enumerable properties that \<open>{ ...v }\<close> copies from an arbitrary value.\<close>

definition indexed :: "json list \<Rightarrow> jobj" where
  "indexed xs = map (\<lambda>(i, v). (digits i, v)) (zip [0..<length xs] xs)"

definition spread_of :: "json option \<Rightarrow> jobj" where
  "spread_of v =
    (case v of
       Some (JObj kvs) \<Rightarrow> kvs
     | Some (JArr xs) \<Rightarrow> indexed xs
     | Some (JStr s) \<Rightarrow> indexed (map (\<lambda>c. JStr [c]) s)
     | _ \<Rightarrow> [])"

definition text_part :: "string \<Rightarrow> json" where
  "text_part s = JObj [(''type'', JStr ''text''), (''text'', JStr s)]"

definition approval_denied_payload :: "string option \<Rightarrow> jobj" where
  "approval_denied_payload reason =
    (''status'', JStr ''approval_denied'') #
      (if truthy_str reason then [(''reason'', JStr (or_else reason []))] else [])"

definition toApprovalDeniedToolResult :: "string option \<Rightarrow> jobj" where
  "toApprovalDeniedToolResult reason =
    [(''isError'', JBool False),
     (''content'', JArr [text_part (json_stringify (JObj (approval_denied_payload reason)))]),
     (''structuredContent'', JObj (approval_denied_payload reason))]"

text \<open>A JSON value survives \<open>JSON.parse(JSON.stringify(v))\<close>.\<close>

definition callToolResultToRecord :: "jobj \<Rightarrow> jobj" where
  "callToolResultToRecord result = result"

definition toLinkingRequiredToolResult :: "string \<Rightarrow> string \<Rightarrow> string \<Rightarrow> string \<Rightarrow> jobj" where
  "toLinkingRequiredToolResult provider ownerId backend linkUrl =
    [(''isError'', JBool True),
     (''content'', JArr [text_part (exn_message (LinkingRequiredError provider ownerId backend linkUrl))]),
     (''structuredContent'', JObj [(''code'', JStr ''linking_required''), (''provider'', JStr provider),
        (''ownerId'', JStr ownerId), (''backend'', JStr backend), (''linkUrl'', JStr linkUrl)])]"

datatype classified_result =
    CComplete jobj
  | CTask mcp_create_task_result
  | CInputRequired
  | CUnrecognized string

definition classifyBackendToolResult :: "(string \<Rightarrow> bool) \<Rightarrow> json \<Rightarrow> classified_result" where
  "classifyBackendToolResult is_datetime value =
    (case value of
       JObj r \<Rightarrow>
         (let resultType = map_of r ''resultType'' in
          if resultType = Some (JStr ''task'')
          then (case mcpCreateTaskResultSchema is_datetime r of
                  None \<Rightarrow> CUnrecognized ''task'' | Some t \<Rightarrow> CTask t)
          else if resultType = Some (JStr ''input_required'') then CInputRequired
          else if resultType = None \<or> resultType = Some (JStr ''complete'') then CComplete r
          else CUnrecognized (case resultType of Some (JStr s) \<Rightarrow> s | _ \<Rightarrow> ''invalid''))
     | _ \<Rightarrow> CUnrecognized ''invalid'')"

definition backend_input_required_message :: string where
  "backend_input_required_message =
    ''Backend returned resultType \"input_required\", which Torii does not relay''"

definition backend_task_input_required_message :: string where
  "backend_task_input_required_message = ''Backend task requires input, which Torii does not relay''"

definition unrecognizedBackendResultTypeMessage :: "string \<Rightarrow> string" where
  "unrecognizedBackendResultTypeMessage t =
    ''Backend returned unrecognised resultType \"'' @ t @ ''\"''"

definition backendTaskWithoutClientCapabilityMessage :: string where
  "backendTaskWithoutClientCapabilityMessage =
    ''Backend returned a task, but the client did not declare '' @ mcp_tasks_extension_id"

definition unsupportedBackendResultToolResult :: "string \<Rightarrow> jobj" where
  "unsupportedBackendResultToolResult message =
    [(''isError'', JBool True), (''content'', JArr [text_part message])]"

text \<open>
  \<open>result.content\<close> comes from the backend unchecked: a content that is neither absent nor an
  array, or a \<open>null\<close> in it, makes \<open>filter\<close> throw a \<open>TypeError\<close>.
\<close>

definition text_of_part :: "json \<Rightarrow> string option" where
  "text_of_part p =
    (if prop_of ''type'' p = Some (JStr ''text'') then as_string (prop_of ''text'' p) else None)"

definition formatBackendToolError :: "jobj \<Rightarrow> exn + string" where
  "formatBackendToolError result =
    (case map_of result ''content'' of
       Some (JArr parts) \<Rightarrow>
         if JNull \<in> set parts then Inl (Plain ''TypeError'')
         else (let messages = filter (\<lambda>t. t \<noteq> []) (map trim (List.map_filter text_of_part parts)) in
               Inr (if messages \<noteq> [] then join [char_of (10 :: nat)] messages
                    else ''backend returned error result''))
     | None \<Rightarrow> Inr ''backend returned error result''
     | Some JNull \<Rightarrow> Inr ''backend returned error result''
     | Some _ \<Rightarrow> Inl (Plain ''TypeError''))"

definition isParkedTaskResult :: "jobj \<Rightarrow> bool" where
  "isParkedTaskResult value \<longleftrightarrow> map_of value ''resultType'' = Some (JStr ''task'')"

fun decision_str :: "call_decision \<Rightarrow> string" where
  "decision_str DAllowed = ''allowed''"
| "decision_str DDenied = ''denied''"
| "decision_str DApprovalRequired = ''approval-required''"
| "decision_str DLinkingRequired = ''linking-required''"

definition meta_json :: "torii_call_meta \<Rightarrow> json" where
  "meta_json m = JObj ([(''traceId'', JStr (cm_traceId m))] @
     opt_field ''decision'' (map_option (JStr \<circ> decision_str) (cm_decision m)) @
     opt_field ''durationMs'' (map_option JInt (cm_durationMs m)))"

definition torii_call_meta_key :: string where
  "torii_call_meta_key = ''io.keidai/torii''"

definition withToriiCallMeta :: "jobj \<Rightarrow> torii_call_meta \<Rightarrow> jobj" where
  "withToriiCallMeta result meta =
    map_put ''_meta'' (JObj (map_put torii_call_meta_key (meta_json meta) (spread_of (map_of result ''_meta''))))
      (map_put ''resultType'' (JStr ''complete'') result)"

text \<open>The JSON of a \<open>CreateTaskResult\<close>.\<close>

definition create_task_json :: "mcp_create_task_result \<Rightarrow> jobj" where
  "create_task_json t = (''resultType'', JStr (cr_resultType t)) # mcp_task_fields t"

lemma parked_create_task [simp]: "isParkedTaskResult (create_task_json (toCreateTaskResult t))"
  by (simp add: isParkedTaskResult_def create_task_json_def)

lemma not_parked_meta [simp]: "\<not> isParkedTaskResult (withToriiCallMeta r m)"
  by (simp add: isParkedTaskResult_def withToriiCallMeta_def js_simps)

section \<open>Server configuration and the audit record\<close>

datatype credential_config =
    UserOauth string
  | ServiceKey string "string option"
  | NoCredential

text \<open>The only transport the types admit is \<open>http\<close>; the code checks for others all the same.\<close>

datatype transport = Http string | OtherTransport string

record server_config =
  sc_name :: string
  sc_transport :: transport
  sc_credential :: credential_config

definition deriveCredentialRef :: "server_config \<Rightarrow> string option \<Rightarrow> string" where
  "deriveCredentialRef server ownerId =
    (case sc_credential server of
       NoCredential \<Rightarrow> ''none''
     | ServiceKey k h \<Rightarrow> ''service_key:'' @ sc_name server
     | UserOauth provider \<Rightarrow>
         if truthy_str ownerId then provider @ '':'' @ or_else ownerId [] else provider @ '':unknown'')"

record call_trace_principal =
  cp_agentId :: string
  cp_ownerId :: string
  cp_bearerId :: string

definition toTracePrincipal :: "agent_principal option \<Rightarrow> call_trace_principal option" where
  "toTracePrincipal p =
    map_option (\<lambda>p. \<lparr>cp_agentId = pr_agentId p, cp_ownerId = pr_ownerId p, cp_bearerId = pr_bearerId p\<rparr>) p"

record trace_fields =
  tf_server :: string
  tf_tool :: string
  tf_principal :: "call_trace_principal option"
  tf_credentialRef :: "string option"
  tf_policyDecision :: policy_decision
  tf_durationMs :: "int option"
  tf_error :: "string option"
  tf_runId :: "string option"
  tf_stepId :: "string option"
  tf_taskId :: "string option"
  tf_backendTaskId :: "string option"

record call_trace = trace_fields +
  tf_traceId :: string
  tf_timestamp :: string

definition finalizeCallTrace :: "trace_fields \<Rightarrow> string \<Rightarrow> string \<Rightarrow> call_trace" where
  "finalizeCallTrace base traceId timestamp =
    trace_fields.extend
      (if tf_policyDecision base = Denied then base\<lparr>tf_durationMs := None\<rparr> else base)
      (call_trace.fields traceId timestamp)"

end
