(* ===== verification/TaskStore.thy ===== *)
theory TaskStore
  imports McpTasks
begin

text \<open>
  The gateway's task store, \<^verbatim>\<open>apps/torii/src/tasks/task-store.service.ts\<close>. The table
  \<open>mcp_tasks\<close> is a list of rows whose \<open>task_id\<close> is the primary key; each operation of
  \<open>TaskStoreService\<close> is a computation over it. \<open>JSONB\<close> columns hold JSON values, so
  writing and reading one back is the identity (Postgres does not keep the order of an
  object's keys, and nothing here depends on it). \<open>generateMcpTaskId\<close> and \<open>Date.now\<close>
  are arguments: the fresh id and the time. \<open>INTEGER\<close> columns reject values beyond 32 bits.

  The lemmas give the life cycle: \<open>tasks_wf\<close> is the table's invariant, \<open>task_step\<close> the
  abstract status machine every operation refines, and a terminal row never changes again.
\<close>

section \<open>Rows\<close>

record mcp_task_row =
  tr_task_id :: string
  tr_agent_id :: string
  tr_owner_id :: string
  tr_request_method :: string
  tr_status :: mcp_task_status
  tr_status_message :: "string option"
  tr_created_at :: int
  tr_last_updated_at :: int
  tr_ttl_ms :: "int option"
  tr_poll_interval_ms :: "int option"
  tr_input_requests :: "jobj option"
  tr_satisfied_input_keys :: "string list"
  tr_result :: "jobj option"
  tr_error :: "jobj option"
  tr_backend_server :: "string option"
  tr_backend_task_id :: "string option"

type_synonym task_table = "mcp_task_row list"
type_synonym 'a task_comp = "(task_table, exn, 'a) comp"

definition rowToRecord :: "mcp_task_row \<Rightarrow> stored_mcp_task" where
  "rowToRecord row =
    \<lparr>st_taskId = tr_task_id row, st_agentId = tr_agent_id row, st_ownerId = tr_owner_id row,
     st_requestMethod = tr_request_method row, st_status = tr_status row,
     st_statusMessage = tr_status_message row, st_createdAtMs = tr_created_at row,
     st_lastUpdatedAtMs = tr_last_updated_at row, st_ttlMs = tr_ttl_ms row,
     st_pollIntervalMs = tr_poll_interval_ms row, st_inputRequests = tr_input_requests row,
     st_satisfiedInputKeys = tr_satisfied_input_keys row, st_result = tr_result row,
     st_error = tr_error row, st_backendServer = tr_backend_server row,
     st_backendTaskId = tr_backend_task_id row\<rparr>"

definition getRecord :: "string \<Rightarrow> task_table \<Rightarrow> stored_mcp_task option" where
  "getRecord taskId db = map_option rowToRecord (tbl_find (\<lambda>r. tr_task_id r = taskId) db)"

text \<open>The columns \<open>save\<close> writes; identity, owner, creation time and TTL are never rewritten.\<close>

definition save_columns :: "stored_mcp_task \<Rightarrow> mcp_task_row \<Rightarrow> mcp_task_row" where
  "save_columns r row = row
    \<lparr>tr_status := st_status r, tr_status_message := st_statusMessage r,
     tr_last_updated_at := st_lastUpdatedAtMs r, tr_poll_interval_ms := st_pollIntervalMs r,
     tr_input_requests := st_inputRequests r, tr_satisfied_input_keys := st_satisfiedInputKeys r,
     tr_result := st_result r, tr_error := st_error r,
     tr_backend_server := st_backendServer r, tr_backend_task_id := st_backendTaskId r\<rparr>"

definition save :: "stored_mcp_task \<Rightarrow> unit task_comp" where
  "save r db =
    (if pg_int4_opt (st_pollIntervalMs r)
     then (Inr (), tbl_update (\<lambda>row. tr_task_id row = st_taskId r) (save_columns r) db)
     else (Inl PgOutOfRange, db))"

section \<open>Operations\<close>

definition createWorkingTask :: "string \<Rightarrow> int \<Rightarrow> create_mcp_task_input \<Rightarrow> mcp_task task_comp" where
  "createWorkingTask newId clock input db =
    (let now = or_else (ci_now input) clock;
         record =
           \<lparr>st_taskId = newId, st_agentId = ci_agentId input, st_ownerId = ci_ownerId input,
            st_requestMethod = or_else (ci_requestMethod input) ''tools/call'',
            st_status = Working, st_statusMessage = ci_statusMessage input,
            st_createdAtMs = now, st_lastUpdatedAtMs = now,
            st_ttlMs = (case ci_ttlMs input of None \<Rightarrow> Some default_mcp_task_ttl_ms | Some t \<Rightarrow> t),
            st_pollIntervalMs = Some (or_else (ci_pollIntervalMs input) default_mcp_task_poll_interval_ms),
            st_inputRequests = None, st_satisfiedInputKeys = [], st_result = None,
            st_error = None, st_backendServer = None, st_backendTaskId = None\<rparr>;
         row =
           \<lparr>tr_task_id = st_taskId record, tr_agent_id = st_agentId record,
            tr_owner_id = st_ownerId record, tr_request_method = st_requestMethod record,
            tr_status = st_status record, tr_status_message = st_statusMessage record,
            tr_created_at = st_createdAtMs record, tr_last_updated_at = st_lastUpdatedAtMs record,
            tr_ttl_ms = st_ttlMs record, tr_poll_interval_ms = st_pollIntervalMs record,
            tr_input_requests = None, tr_satisfied_input_keys = st_satisfiedInputKeys record,
            tr_result = None, tr_error = None, tr_backend_server = None,
            tr_backend_task_id = None\<rparr>
     in if \<not> pg_int4_opt (st_ttlMs record) \<or> \<not> pg_int4_opt (st_pollIntervalMs record)
        then (Inl PgOutOfRange, db)
        else if tbl_find (\<lambda>r. tr_task_id r = newId) db \<noteq> None
        then (Inl (PgUnique ''mcp_tasks_pkey''), db)
        else (Inr (toMcpTask record), db @ [row]))"

definition requireOwnedTask :: "string \<Rightarrow> string \<Rightarrow> int \<Rightarrow> stored_mcp_task task_comp" where
  "requireOwnedTask agentId taskId now db =
    (case getRecord taskId db of
       None \<Rightarrow> (Inl (McpTaskLookup NotFound), db)
     | Some r \<Rightarrow>
         if st_agentId r \<noteq> agentId then (Inl (McpTaskLookup NotFound), db)
         else if isMcpTaskExpired r now then (Inl (McpTaskLookup Expired), db)
         else (Inr r, db))"

definition getDetailedTask :: "string \<Rightarrow> string \<Rightarrow> int \<Rightarrow> mcp_detailed_task task_comp" where
  "getDetailedTask agentId taskId now =
    bindM (requireOwnedTask agentId taskId now) (\<lambda>r. returnM (toDetailedMcpTask r))"

record backend_origin =
  bo_server :: string
  bo_backendTaskId :: string
  bo_pollIntervalMs :: "int option"
  bo_statusMessage :: "string option"

definition attach_next :: "backend_origin \<Rightarrow> int \<Rightarrow> stored_mcp_task \<Rightarrow> stored_mcp_task" where
  "attach_next origin now r = r
    \<lparr>st_backendServer := Some (bo_server origin), st_backendTaskId := Some (bo_backendTaskId origin),
     st_pollIntervalMs := (case bo_pollIntervalMs origin of Some p \<Rightarrow> Some p | None \<Rightarrow> st_pollIntervalMs r),
     st_statusMessage := (case bo_statusMessage origin of Some m \<Rightarrow> Some m | None \<Rightarrow> st_statusMessage r),
     st_lastUpdatedAtMs := now\<rparr>"

definition attachBackendOrigin ::
    "string \<Rightarrow> backend_origin \<Rightarrow> int \<Rightarrow> stored_mcp_task option task_comp" where
  "attachBackendOrigin taskId origin now db =
    (case getRecord taskId db of
       None \<Rightarrow> (Inr None, db)
     | Some r \<Rightarrow>
         if isMcpTaskTerminalStatus (st_status r) then (Inr None, db)
         else bindM (save (attach_next origin now r)) (\<lambda>_. returnM (Some (attach_next origin now r))) db)"

text \<open>The loop over the response keys: \<open>outstanding\<close> shrinks while \<open>satisfied\<close> grows.\<close>

fun satisfy_keys :: "string list \<Rightarrow> jobj \<Rightarrow> string list \<Rightarrow> jobj \<times> string list" where
  "satisfy_keys [] outstanding satisfied = (outstanding, satisfied)"
| "satisfy_keys (key # keys) outstanding satisfied =
    (if \<not> in_object key outstanding \<or> key \<in> set satisfied
     then satisfy_keys keys outstanding satisfied
     else satisfy_keys keys (map_del key outstanding) (set_add key satisfied))"

definition input_response_next :: "jobj \<Rightarrow> int \<Rightarrow> stored_mcp_task \<Rightarrow> stored_mcp_task" where
  "input_response_next responses now r =
    (let (remaining, satisfied) = satisfy_keys (map fst responses)
           (or_else (st_inputRequests r) []) (set_of (st_satisfiedInputKeys r)) in
     r\<lparr>st_status := (if remaining = [] then Working else InputRequired),
       st_inputRequests := (if remaining = [] then None else Some remaining),
       st_satisfiedInputKeys := satisfied,
       st_lastUpdatedAtMs := now\<rparr>)"

definition applyInputResponses :: "string \<Rightarrow> string \<Rightarrow> jobj \<Rightarrow> int \<Rightarrow> unit task_comp" where
  "applyInputResponses agentId taskId responses now =
    bindM (requireOwnedTask agentId taskId now) (\<lambda>r.
      if st_status r \<noteq> InputRequired then returnM ()
      else save (input_response_next responses now r))"

definition requestCancel :: "string \<Rightarrow> string \<Rightarrow> int \<Rightarrow> unit task_comp" where
  "requestCancel agentId taskId now =
    bindM (requireOwnedTask agentId taskId now) (\<lambda>r.
      if isMcpTaskTerminalStatus (st_status r) then returnM ()
      else save (r\<lparr>st_status := Cancelled, st_inputRequests := None, st_lastUpdatedAtMs := now\<rparr>))"

definition key_used_message :: "string \<Rightarrow> string \<Rightarrow> string" where
  "key_used_message key taskId =
    ''inputRequests key '' @ [CHR 0x27] @ key @ [CHR 0x27] @ '' was already used on task '' @ taskId"

definition requireInput :: "string \<Rightarrow> jobj \<Rightarrow> int \<Rightarrow> stored_mcp_task option task_comp" where
  "requireInput taskId requests now db =
    (case getRecord taskId db of
       None \<Rightarrow> (Inr None, db)
     | Some r \<Rightarrow>
         if isMcpTaskTerminalStatus (st_status r) then (Inr None, db)
         else (case find (\<lambda>key. key \<in> set (st_satisfiedInputKeys r)) (map fst requests) of
             Some key \<Rightarrow> (Inl (Plain (key_used_message key taskId)), db)
           | None \<Rightarrow>
               let next = r\<lparr>st_status := InputRequired,
                     st_inputRequests := Some (spread (or_else (st_inputRequests r) []) requests),
                     st_lastUpdatedAtMs := now\<rparr>
               in bindM (save next) (\<lambda>_. returnM (Some next)) db))"

definition finish ::
    "string \<Rightarrow> mcp_task_status \<Rightarrow> jobj option \<Rightarrow> jobj option \<Rightarrow> int \<Rightarrow> stored_mcp_task option task_comp" where
  "finish taskId status result error now db =
    (case getRecord taskId db of
       None \<Rightarrow> (Inr None, db)
     | Some r \<Rightarrow>
         if isMcpTaskTerminalStatus (st_status r) then (Inr (Some r), db)
         else
           let next = r\<lparr>st_status := status, st_result := result, st_error := error,
                 st_inputRequests := None, st_lastUpdatedAtMs := now\<rparr>
           in bindM (save next) (\<lambda>_. returnM (Some next)) db)"

definition complete :: "string \<Rightarrow> jobj \<Rightarrow> int \<Rightarrow> stored_mcp_task option task_comp" where
  "complete taskId result now = finish taskId Completed (Some result) None now"

definition fail :: "string \<Rightarrow> jobj \<Rightarrow> int \<Rightarrow> stored_mcp_task option task_comp" where
  "fail taskId error now = finish taskId Failed None (Some error) now"

text \<open>The operations as data, to speak of histories of the store.\<close>

datatype task_op =
    CreateWorking string int create_mcp_task_input
  | Attach string backend_origin int
  | ApplyInput string string jobj int
  | RequestCancel string string int
  | RequireInput string jobj int
  | Complete string jobj int
  | Fail string jobj int

fun run_task_op :: "task_op \<Rightarrow> task_table \<Rightarrow> task_table" where
  "run_task_op (CreateWorking i clock c) db = snd (createWorkingTask i clock c db)"
| "run_task_op (Attach i origin now) db = snd (attachBackendOrigin i origin now db)"
| "run_task_op (ApplyInput a i rs now) db = snd (applyInputResponses a i rs now db)"
| "run_task_op (RequestCancel a i now) db = snd (requestCancel a i now db)"
| "run_task_op (RequireInput i rq now) db = snd (requireInput i rq now db)"
| "run_task_op (Complete i res now) db = snd (complete i res now db)"
| "run_task_op (Fail i err now) db = snd (fail i err now db)"

fun run_task_ops :: "task_op list \<Rightarrow> task_table \<Rightarrow> task_table" where
  "run_task_ops [] db = db"
| "run_task_ops (x # xs) db = run_task_ops xs (run_task_op x db)"

section \<open>Reading back what was written\<close>

definition same_identity :: "stored_mcp_task \<Rightarrow> mcp_task_row \<Rightarrow> bool" where
  "same_identity r row \<longleftrightarrow> st_taskId r = tr_task_id row \<and> st_agentId r = tr_agent_id row \<and>
     st_ownerId r = tr_owner_id row \<and> st_requestMethod r = tr_request_method row \<and>
     st_createdAtMs r = tr_created_at row \<and> st_ttlMs r = tr_ttl_ms row"

lemma save_columns_id [simp]:
  "tr_task_id (save_columns r row) = tr_task_id row"
  "tr_agent_id (save_columns r row) = tr_agent_id row"
  "tr_owner_id (save_columns r row) = tr_owner_id row"
  "tr_request_method (save_columns r row) = tr_request_method row"
  "tr_created_at (save_columns r row) = tr_created_at row"
  "tr_ttl_ms (save_columns r row) = tr_ttl_ms row"
  "tr_status (save_columns r row) = st_status r"
  by (simp_all add: save_columns_def)

lemma rowToRecord_simps [simp]:
  "st_taskId (rowToRecord row) = tr_task_id row"
  "st_agentId (rowToRecord row) = tr_agent_id row"
  "st_status (rowToRecord row) = tr_status row"
  "st_inputRequests (rowToRecord row) = tr_input_requests row"
  "st_satisfiedInputKeys (rowToRecord row) = tr_satisfied_input_keys row"
  "same_identity (rowToRecord row) row"
  by (simp_all add: rowToRecord_def same_identity_def)

lemma rowToRecord_save_columns: "same_identity r row \<Longrightarrow> rowToRecord (save_columns r row) = r"
  by (simp add: rowToRecord_def save_columns_def same_identity_def)

lemma getRecord_Some:
  "getRecord i db = Some r \<Longrightarrow> \<exists>row. tbl_find (\<lambda>x. tr_task_id x = i) db = Some row \<and>
     r = rowToRecord row \<and> tr_task_id row = i \<and> row \<in> set db"
  by (auto simp: getRecord_def dest: tbl_find_Some_in)

lemma find_save:
  "tbl_find (\<lambda>x. tr_task_id x = i) (snd (save r db)) =
    (if pg_int4_opt (st_pollIntervalMs r) \<and> i = st_taskId r
     then map_option (save_columns r) (tbl_find (\<lambda>x. tr_task_id x = i) db)
     else tbl_find (\<lambda>x. tr_task_id x = i) db)"
proof -
  have "tbl_find (\<lambda>x. tr_task_id x = i) (tbl_update (\<lambda>row. tr_task_id row = st_taskId r) (save_columns r) db) =
    map_option (\<lambda>row. if tr_task_id row = st_taskId r then save_columns r row else row)
      (tbl_find (\<lambda>x. tr_task_id x = i) db)"
    by (rule tbl_find_key_update [where key = tr_task_id]) simp
  moreover have "map_option (\<lambda>row. if tr_task_id row = st_taskId r then save_columns r row else row)
      (tbl_find (\<lambda>x. tr_task_id x = i) db) =
    (if i = st_taskId r then map_option (save_columns r) (tbl_find (\<lambda>x. tr_task_id x = i) db)
     else tbl_find (\<lambda>x. tr_task_id x = i) db)"
    by (cases "tbl_find (\<lambda>x. tr_task_id x = i) db") (auto dest: tbl_find_Some_in)
  ultimately show ?thesis by (cases "i = st_taskId r") (simp_all add: save_def)
qed

section \<open>One step of the table\<close>

text \<open>
  What any operation does to the table: nothing, a new working row, or a rewrite of the row
  it looked up, which was not terminal. The three shapes carry every proof below.
\<close>

definition fresh_row :: "mcp_task_row \<Rightarrow> bool" where
  "fresh_row row \<longleftrightarrow> tr_status row = Working \<and> tr_input_requests row = None \<and>
     tr_satisfied_input_keys row = [] \<and> tr_result row = None \<and> tr_error row = None \<and>
     tr_backend_server row = None \<and> tr_backend_task_id row = None \<and>
     pg_int4_opt (tr_poll_interval_ms row)"

inductive row_step :: "mcp_task_row \<Rightarrow> stored_mcp_task \<Rightarrow> bool" where
  attach: "\<not> isMcpTaskTerminalStatus (tr_status row) \<Longrightarrow>
    row_step row (attach_next origin now (rowToRecord row))"
| respond: "tr_status row = InputRequired \<Longrightarrow>
    row_step row (input_response_next responses now (rowToRecord row))"
| cancel: "\<not> isMcpTaskTerminalStatus (tr_status row) \<Longrightarrow>
    row_step row ((rowToRecord row)\<lparr>st_status := Cancelled, st_inputRequests := None, st_lastUpdatedAtMs := now\<rparr>)"
| ask: "\<not> isMcpTaskTerminalStatus (tr_status row) \<Longrightarrow>
    \<forall>key \<in> fst ` set requests. key \<notin> set (tr_satisfied_input_keys row) \<Longrightarrow>
    row_step row ((rowToRecord row)\<lparr>st_status := InputRequired,
      st_inputRequests := Some (spread (or_else (tr_input_requests row) []) requests),
      st_lastUpdatedAtMs := now\<rparr>)"
| finish: "\<not> isMcpTaskTerminalStatus (tr_status row) \<Longrightarrow>
    (status = Completed \<and> result \<noteq> None \<and> error = None) \<or>
    (status = Failed \<and> result = None \<and> error \<noteq> None) \<Longrightarrow>
    row_step row ((rowToRecord row)\<lparr>st_status := status, st_result := result, st_error := error,
      st_inputRequests := None, st_lastUpdatedAtMs := now\<rparr>)"

inductive_cases row_stepE: "row_step row r"

inductive table_step :: "task_table \<Rightarrow> task_table \<Rightarrow> bool" where
  stutter: "table_step db db"
| insert: "tbl_find (\<lambda>x. tr_task_id x = tr_task_id row) db = None \<Longrightarrow> fresh_row row \<Longrightarrow>
    table_step db (db @ [row])"
| rewrite: "tbl_find (\<lambda>x. tr_task_id x = i) db = Some row \<Longrightarrow> row_step row r \<Longrightarrow>
    table_step db (snd (save r db))"

lemma row_step_identity: "row_step row r \<Longrightarrow> same_identity r row"
  by (erule row_stepE)
    (auto simp: same_identity_def rowToRecord_def attach_next_def input_response_next_def Let_def
      split: prod.splits)

lemma row_step_nonterminal: "row_step row r \<Longrightarrow> \<not> isMcpTaskTerminalStatus (tr_status row)"
  by (erule row_stepE) auto

lemma table_step_create: "table_step db (snd (createWorkingTask i clock c db))"
  by (auto simp: createWorkingTask_def Let_def fresh_row_def intro!: table_step.stutter table_step.insert)

lemma table_step_save:
  "tbl_find (\<lambda>x. tr_task_id x = i) db = Some row \<Longrightarrow> row_step row r \<Longrightarrow>
   table_step db (snd (bindM (save r) (\<lambda>_. returnM v) db))"
proof -
  assume a: "tbl_find (\<lambda>x. tr_task_id x = i) db = Some row" "row_step row r"
  have "snd (bindM (save r) (\<lambda>_. returnM v) db) = snd (save r db)"
    by (auto simp: comp_simps split: prod.splits sum.splits)
  with table_step.rewrite [OF a] show ?thesis by simp
qed

lemma table_step_attach: "table_step db (snd (attachBackendOrigin i origin now db))"
  using table_step_save [OF _ row_step.attach]
  by (auto simp: attachBackendOrigin_def table_step.stutter dest!: getRecord_Some split: option.splits)

lemma requireOwnedTask_Inr:
  "requireOwnedTask a i now db = (Inr r, db') \<Longrightarrow> db' = db \<and> getRecord i db = Some r \<and>
     st_agentId r = a \<and> \<not> isMcpTaskExpired r now"
  by (auto simp: requireOwnedTask_def split: option.splits if_splits)

lemma requireOwnedTask_state [simp]: "snd (requireOwnedTask a i now db) = db"
  by (auto simp: requireOwnedTask_def split: option.splits)

lemma table_step_owned:
  assumes "\<And>r. getRecord i db = Some r \<Longrightarrow> table_step db (snd (k r db))"
  shows "table_step db (snd (bindM (requireOwnedTask a i now) k db))"
proof (cases "requireOwnedTask a i now db")
  case (Pair res db')
  then have "db' = db" by (metis requireOwnedTask_state snd_conv)
  with Pair assms requireOwnedTask_Inr [of a i now db] show ?thesis
    by (cases res) (auto simp: bindM_def table_step.stutter)
qed

lemma table_step_apply: "table_step db (snd (applyInputResponses a i rs now db))"
  unfolding applyInputResponses_def
  using table_step.rewrite [OF _ row_step.respond]
  by (intro table_step_owned) (auto simp: returnM_def table_step.stutter dest!: getRecord_Some)

lemma table_step_cancel: "table_step db (snd (requestCancel a i now db))"
  unfolding requestCancel_def
  using table_step.rewrite [OF _ row_step.cancel]
  by (intro table_step_owned) (auto simp: returnM_def table_step.stutter dest!: getRecord_Some)

lemma table_step_ask: "table_step db (snd (requireInput i rq now db))"
proof (cases "getRecord i db")
  case None
  then show ?thesis by (simp add: requireInput_def table_step.stutter)
next
  case (Some r)
  then obtain row where row: "tbl_find (\<lambda>x. tr_task_id x = i) db = Some row" "r = rowToRecord row"
    by (auto dest: getRecord_Some)
  show ?thesis
  proof (cases "isMcpTaskTerminalStatus (st_status r) \<or> (\<exists>k \<in> fst ` set rq. k \<in> set (st_satisfiedInputKeys r))")
    case True
    then have "isMcpTaskTerminalStatus (st_status r) \<or>
        find (\<lambda>key. key \<in> set (st_satisfiedInputKeys r)) (map fst rq) \<noteq> None"
      by (auto simp: find_None_iff)
    with Some show ?thesis by (auto simp: requireInput_def table_step.stutter)
  next
    case False
    then have "find (\<lambda>key. key \<in> set (st_satisfiedInputKeys r)) (map fst rq) = None"
      by (auto simp: find_None_iff)
    with False Some row table_step_save [OF row(1) row_step.ask] show ?thesis
      by (auto simp: requireInput_def Let_def)
  qed
qed

lemma table_step_finish:
  assumes "(status = Completed \<and> result \<noteq> None \<and> error = None) \<or>
    (status = Failed \<and> result = None \<and> error \<noteq> None)"
  shows "table_step db (snd (finish i status result error now db))"
  using table_step_save [OF _ row_step.finish [OF _ assms]]
  by (auto simp: finish_def Let_def table_step.stutter dest!: getRecord_Some split: option.splits)

lemma table_step_op: "table_step db (run_task_op x db)"
  by (cases x) (simp_all add: table_step_create table_step_attach table_step_apply table_step_cancel
      table_step_ask table_step_finish complete_def fail_def)

section \<open>The invariant\<close>

text \<open>
  A row agrees with its status: outstanding requests exactly while input is required, a
  result exactly when completed, an error exactly when failed; no key is both outstanding
  and satisfied; the two fields that name a backend task are set together.
\<close>

definition wf_row :: "mcp_task_row \<Rightarrow> bool" where
  "wf_row row \<longleftrightarrow>
     (tr_input_requests row \<noteq> None \<longleftrightarrow> tr_status row = InputRequired) \<and>
     (tr_result row \<noteq> None \<longleftrightarrow> tr_status row = Completed) \<and>
     (tr_error row \<noteq> None \<longleftrightarrow> tr_status row = Failed) \<and>
     distinct (map fst (or_else (tr_input_requests row) [])) \<and>
     distinct (tr_satisfied_input_keys row) \<and>
     fst ` set (or_else (tr_input_requests row) []) \<inter> set (tr_satisfied_input_keys row) = {} \<and>
     (tr_backend_server row = None \<longleftrightarrow> tr_backend_task_id row = None) \<and>
     pg_int4_opt (tr_poll_interval_ms row)"

definition tasks_wf :: "task_table \<Rightarrow> bool" where
  "tasks_wf db \<longleftrightarrow> distinct (map tr_task_id db) \<and> (\<forall>row \<in> set db. wf_row row)"

lemma in_object_own: "k \<in> fst ` set obj \<Longrightarrow> in_object k obj"
  by (simp add: in_object_def)

lemma satisfy_keys_spec:
  assumes "satisfy_keys ks out sat = (out', sat')" "distinct (map fst out)" "distinct sat"
    and "fst ` set out \<inter> set sat = {}"
  shows "out' = filter (\<lambda>(k, v). k \<notin> set ks) out \<and>
     set sat' = set sat \<union> (set ks \<inter> (fst ` set out \<union> set object_prototype_keys)) \<and> distinct sat'"
  using assms
proof (induction ks out sat rule: satisfy_keys.induct)
  case (1 out sat)
  then show ?case by (auto simp: filter_id_conv split_beta)
next
  case (2 key ks out sat)
  show ?case
  proof (cases "\<not> in_object key out \<or> key \<in> set sat")
    case True
    with "2.prems"(4) have nk: "key \<notin> fst ` set out" unfolding in_object_def by blast
    then have "filter (\<lambda>(k, v). k \<notin> set (key # ks)) out = filter (\<lambda>(k, v). k \<notin> set ks) out"
      by (intro filter_cong) (auto simp: image_iff)
    moreover have "key \<in> set sat \<or> key \<notin> set object_prototype_keys" using True by (auto simp: in_object_def)
    ultimately show ?thesis using "2.IH"(1) [OF True] "2.prems" True nk by auto
  next
    case False
    have d: "distinct (map fst (map_del key out))" "distinct (set_add key sat)"
      "fst ` set (map_del key out) \<inter> set (set_add key sat) = {}"
      using "2.prems"(2-4) by (auto simp: js_simps)
    have "filter (\<lambda>(k, v). k \<notin> set ks) (map_del key out) = filter (\<lambda>(k, v). k \<notin> set (key # ks)) out"
      by (auto simp: map_del_def intro!: filter_cong)
    moreover have "key \<in> fst ` set out \<union> set object_prototype_keys" using False by (auto simp: in_object_def)
    ultimately show ?thesis using "2.IH"(2) [OF False _ d] "2.prems"(1) False by (auto simp: js_simps)
  qed
qed

lemma distinct_spread: "distinct (map fst a) \<Longrightarrow> distinct (map fst (spread a b))"
proof (induction b arbitrary: a)
  case (Cons e b)
  obtain k v where "e = (k, v)" by (cases e)
  with Cons.IH [of "map_put k v a"] Cons.prems show ?case by (simp add: spread_def js_simps)
qed (simp add: spread_def)

lemma wf_row_simps:
  "wf_row (save_columns r row) \<longleftrightarrow>
     (st_inputRequests r \<noteq> None \<longleftrightarrow> st_status r = InputRequired) \<and>
     (st_result r \<noteq> None \<longleftrightarrow> st_status r = Completed) \<and>
     (st_error r \<noteq> None \<longleftrightarrow> st_status r = Failed) \<and>
     distinct (map fst (or_else (st_inputRequests r) [])) \<and>
     distinct (st_satisfiedInputKeys r) \<and>
     fst ` set (or_else (st_inputRequests r) []) \<inter> set (st_satisfiedInputKeys r) = {} \<and>
     (st_backendServer r = None \<longleftrightarrow> st_backendTaskId r = None) \<and>
     pg_int4_opt (st_pollIntervalMs r)"
  by (simp add: wf_row_def save_columns_def)

lemma rowToRecord_fields:
  "st_result (rowToRecord row) = tr_result row" "st_error (rowToRecord row) = tr_error row"
  "st_backendServer (rowToRecord row) = tr_backend_server row"
  "st_backendTaskId (rowToRecord row) = tr_backend_task_id row"
  by (simp_all add: rowToRecord_def)

lemma row_step_wf:
  "row_step row r \<Longrightarrow> wf_row row \<Longrightarrow> pg_int4_opt (st_pollIntervalMs r) \<Longrightarrow> wf_row (save_columns r row)"
proof (induction rule: row_step.induct)
  case (respond row responses now)
  obtain out sat where os: "satisfy_keys (map fst responses) (or_else (tr_input_requests row) [])
      (set_of (tr_satisfied_input_keys row)) = (out, sat)" by (cases "satisfy_keys (map fst responses)
      (or_else (tr_input_requests row) []) (set_of (tr_satisfied_input_keys row))")
  from respond.prems have d: "distinct (map fst (or_else (tr_input_requests row) []))"
    "fst ` set (or_else (tr_input_requests row) []) \<inter> set (tr_satisfied_input_keys row) = {}"
    by (auto simp: wf_row_def)
  from satisfy_keys_spec [OF os d(1)] d(2)
  have s: "out = filter (\<lambda>(k, v). k \<notin> fst ` set responses) (or_else (tr_input_requests row) [])"
    "set sat = set (tr_satisfied_input_keys row) \<union> (fst ` set responses \<inter>
       (fst ` set (or_else (tr_input_requests row) []) \<union> set object_prototype_keys))" "distinct sat"
    by (simp_all add: js_simps)
  have "distinct (map fst out)" unfolding s(1) using d(1) by (rule distinct_map_filter)
  moreover have "fst ` set out \<subseteq> fst ` set (or_else (tr_input_requests row) []) - fst ` set responses"
    unfolding s(1) by force
  then have "fst ` set out \<inter> set sat = {}" using d(2) unfolding s(2) by blast
  ultimately show ?case using respond s(3) unfolding wf_row_simps
    by (auto simp: input_response_next_def os rowToRecord_fields wf_row_def)
next
  case (ask row requests now)
  then show ?case unfolding wf_row_simps
    by (cases "tr_input_requests row")
      (auto simp: wf_row_def rowToRecord_fields js_simps intro!: distinct_spread)
qed (unfold wf_row_simps, auto simp: wf_row_def attach_next_def rowToRecord_fields split: option.splits)

lemma tasks_wf_step: "table_step db db' \<Longrightarrow> tasks_wf db \<Longrightarrow> tasks_wf db'"
proof (induction rule: table_step.induct)
  case (insert row db)
  then show ?case by (auto simp: tasks_wf_def tbl_simps fresh_row_def wf_row_def)
next
  case (rewrite i db row r)
  from rewrite(1) have row: "row \<in> set db" "tr_task_id row = i" by (auto dest: tbl_find_Some_in)
  have id: "st_taskId r = i" using row_step_identity [OF rewrite(2)] row by (simp add: same_identity_def)
  have unique: "x = row" if "x \<in> set db" "tr_task_id x = i" for x
    using distinct_key_unique [of tr_task_id db x row] that row rewrite(3) by (simp add: tasks_wf_def)
  have "pg_int4_opt (st_pollIntervalMs r) \<Longrightarrow> wf_row (save_columns r row)"
    using row_step_wf [OF rewrite(2)] rewrite(3) row by (simp add: tasks_wf_def)
  then show ?case
    using rewrite(3) unique id
    by (auto simp: tasks_wf_def save_def tbl_simps map_key_tbl_update [where key = tr_task_id])
qed simp

lemma run_task_ops_induct [consumes 1, case_names step]:
  assumes "P db" "\<And>db x. P db \<Longrightarrow> P (run_task_op x db)"
  shows "P (run_task_ops xs db)"
  using assms(1) by (induction xs arbitrary: db) (auto intro: assms(2))

lemma find_table_step_terminal:
  assumes "table_step db db'" "tbl_find (\<lambda>x. tr_task_id x = i) db = Some row"
    and "isMcpTaskTerminalStatus (tr_status row)"
  shows "tbl_find (\<lambda>x. tr_task_id x = i) db' = Some row"
  using assms
proof (induction rule: table_step.induct)
  case (rewrite j db row' r)
  from rewrite(1) have "tr_task_id row' = j" by (auto dest: tbl_find_Some_in)
  then have "st_taskId r = j" using row_step_identity [OF rewrite(2)] by (simp add: same_identity_def)
  with rewrite row_step_nonterminal [OF rewrite(2)] show ?case by (auto simp: find_save)
qed (auto simp: tbl_simps)

text \<open>Identity, owner, creation time and TTL of a task are fixed for its life.\<close>

lemma find_table_step_identity:
  assumes "table_step db db'" "tbl_find (\<lambda>x. tr_task_id x = i) db = Some row"
  shows "\<exists>row'. tbl_find (\<lambda>x. tr_task_id x = i) db' = Some row' \<and>
    tr_agent_id row' = tr_agent_id row \<and> tr_owner_id row' = tr_owner_id row \<and>
    tr_created_at row' = tr_created_at row \<and> tr_ttl_ms row' = tr_ttl_ms row"
  using assms
proof (induction rule: table_step.induct)
  case (rewrite j db row' r)
  then show ?case by (cases "i = st_taskId r") (auto simp: find_save)
qed (auto simp: tbl_simps)

section \<open>Properties\<close>

lemma run_owned:
  assumes "getRecord i db = Some r" "st_agentId r = a" "\<not> isMcpTaskExpired r now"
  shows "bindM (requireOwnedTask a i now) k db = k r db"
  using assms by (simp add: bindM_def requireOwnedTask_def)

definition same_task :: "stored_mcp_task \<Rightarrow> stored_mcp_task \<Rightarrow> bool" where
  "same_task r' r \<longleftrightarrow> st_taskId r' = st_taskId r \<and> st_agentId r' = st_agentId r \<and>
     st_ownerId r' = st_ownerId r \<and> st_requestMethod r' = st_requestMethod r \<and>
     st_createdAtMs r' = st_createdAtMs r \<and> st_ttlMs r' = st_ttlMs r"

lemma same_task_identity: "same_task r' (rowToRecord row) \<Longrightarrow> same_identity r' row"
  by (simp add: same_task_def same_identity_def rowToRecord_def)

lemma same_task_steps [simp]:
  "same_task (attach_next origin now r) r"
  "same_task (input_response_next responses now r) r"
  "same_task (r\<lparr>st_status := s, st_inputRequests := q, st_lastUpdatedAtMs := now\<rparr>) r"
  by (simp_all add: same_task_def attach_next_def input_response_next_def Let_def split: prod.split)

lemma input_response_next_fields [simp]:
  "st_taskId (input_response_next responses now r) = st_taskId r"
  "st_pollIntervalMs (input_response_next responses now r) = st_pollIntervalMs r"
  by (simp_all add: input_response_next_def Let_def split: prod.split)

lemma getRecord_save:
  assumes "getRecord i db = Some r" "st_taskId r' = i" "pg_int4_opt (st_pollIntervalMs r')"
    and "same_task r' r"
  shows "getRecord i (snd (save r' db)) = Some r'"
  using assms by (auto simp: getRecord_def find_save rowToRecord_save_columns dest: same_task_identity)

lemma wf_getRecord:
  assumes "tasks_wf db" "getRecord i db = Some r"
  shows "st_taskId r = i" "pg_int4_opt (st_pollIntervalMs r)"
    "distinct (map fst (or_else (st_inputRequests r) []))"
    "fst ` set (or_else (st_inputRequests r) []) \<inter> set (st_satisfiedInputKeys r) = {}"
    "st_status r = InputRequired \<Longrightarrow> st_inputRequests r \<noteq> None"
proof -
  from getRecord_Some [OF assms(2)] obtain row where
    row: "row \<in> set db" "r = rowToRecord row" "tr_task_id row = i" by blast
  have "wf_row row" using row(1) assms(1) by (simp add: tasks_wf_def)
  with row(2,3) show "st_taskId r = i" "pg_int4_opt (st_pollIntervalMs r)"
    "distinct (map fst (or_else (st_inputRequests r) []))"
    "fst ` set (or_else (st_inputRequests r) []) \<inter> set (st_satisfiedInputKeys r) = {}"
    "st_status r = InputRequired \<Longrightarrow> st_inputRequests r \<noteq> None"
    by (simp_all add: wf_row_def rowToRecord_def)
qed

definition example_create :: create_mcp_task_input where
  "example_create =
    \<lparr>ci_agentId = ''a1'', ci_ownerId = ''o1'', ci_requestMethod = None, ci_statusMessage = None,
     ci_ttlMs = None, ci_pollIntervalMs = None, ci_now = None\<rparr>"

definition example_tasks :: task_table where
  "example_tasks = snd (createWorkingTask ''t1'' 1000 example_create [])"

definition example_waiting :: task_table where
  "example_waiting = snd (requireInput ''t1'' [(''name'', JNull), (''age'', JNull)] 1500 example_tasks)"

lemmas example_defs =
  example_waiting_def example_tasks_def example_create_def createWorkingTask_def requireInput_def
  save_def save_columns_def getRecord_def rowToRecord_def comp_simps Let_def tbl_simps tbl_update_def
  pg_int4_opt_def pg_int4_def default_mcp_task_ttl_ms_def default_mcp_task_poll_interval_ms_def
  spread_def

lemma example_tasks_wf: "tasks_wf example_tasks" "tasks_wf example_waiting"
  by (simp_all add: example_defs tasks_wf_def wf_row_def)

text \<open>
  The table keeps its invariant through every history of operations, whatever their
  arguments and whether they succeed or throw: ids stay unique, outstanding requests, result
  and error agree with the status, no input key is both outstanding and satisfied.
\<close>

theorem task_history_keeps_wf: "tasks_wf db \<Longrightarrow> tasks_wf (run_task_ops ops db)"
  by (rule run_task_ops_induct) (blast intro: tasks_wf_step table_step_op)+

theorem task_history_keeps_wf_witness:
  "tasks_wf (run_task_ops [RequestCancel ''a1'' ''t1'' 2000, Complete ''t1'' [] 3000] example_tasks)"
  by (rule task_history_keeps_wf [OF example_tasks_wf(1)])

text \<open>
  C6. A task that has reached a terminal status (completed, failed or cancelled) is final: no
  later sequence of store operations changes any column of its row or removes it.
\<close>

theorem terminal_task_is_final:
  assumes "tbl_find (\<lambda>r. tr_task_id r = i) db = Some row" "isMcpTaskTerminalStatus (tr_status row)"
  shows "tbl_find (\<lambda>r. tr_task_id r = i) (run_task_ops ops db) = Some row"
  using assms(1)
  by (rule run_task_ops_induct) (blast intro: find_table_step_terminal assms(2) table_step_op)

theorem terminal_task_is_final_witness:
  "\<exists>row. tbl_find (\<lambda>r. tr_task_id r = ''t1'') (snd (complete ''t1'' [] 2000 example_tasks)) = Some row \<and>
     tbl_find (\<lambda>r. tr_task_id r = ''t1'')
       (run_task_ops [RequestCancel ''a1'' ''t1'' 2500, Fail ''t1'' [] 2600]
         (snd (complete ''t1'' [] 2000 example_tasks))) = Some row"
proof -
  have "\<exists>row. tbl_find (\<lambda>r. tr_task_id r = ''t1'') (snd (complete ''t1'' [] 2000 example_tasks)) = Some row \<and>
      isMcpTaskTerminalStatus (tr_status row)"
    by (simp add: example_defs complete_def finish_def)
  then show ?thesis using terminal_task_is_final by blast
qed

text \<open>
  An agent cannot read, answer or cancel a task of another agent, nor learn that it
  exists: every agent-facing operation on it fails with the same \<open>not_found\<close> as on an id
  that is not in the table, and leaves the table unchanged.
\<close>

theorem foreign_task_is_invisible:
  assumes "\<And>r. getRecord i db = Some r \<Longrightarrow> st_agentId r \<noteq> a"
  shows "getDetailedTask a i now db = (Inl (McpTaskLookup NotFound), db) \<and>
    applyInputResponses a i responses now db = (Inl (McpTaskLookup NotFound), db) \<and>
    requestCancel a i now db = (Inl (McpTaskLookup NotFound), db)"
  using assms
  by (simp_all add: getDetailedTask_def applyInputResponses_def requestCancel_def bindM_def
      requireOwnedTask_def split: option.split)

theorem foreign_task_is_invisible_witness:
  "requestCancel ''a2'' ''t1'' 2000 example_tasks = (Inl (McpTaskLookup NotFound), example_tasks)"
proof -
  have "st_agentId r \<noteq> ''a2''" if "getRecord ''t1'' example_tasks = Some r" for r
    using that by (auto simp: example_defs)
  from foreign_task_is_invisible [OF this] show ?thesis by blast
qed

text \<open>
  \<open>tasks/update\<close> removes exactly the answered keys from the outstanding requests and
  records them as satisfied; the task returns to \<open>working\<close> exactly when no request is left,
  and keeps waiting with the remaining ones otherwise.
\<close>

theorem input_responses_effect:
  assumes "tasks_wf db" "getRecord i db = Some r" "st_agentId r = a" "\<not> isMcpTaskExpired r now"
    and "st_status r = InputRequired" "st_inputRequests r = Some out"
  shows "\<exists>r'. getRecord i (snd (applyInputResponses a i responses now db)) = Some r' \<and>
     st_status r' = (if fst ` set out \<subseteq> fst ` set responses then Working else InputRequired) \<and>
     or_else (st_inputRequests r') [] = filter (\<lambda>(k, v). k \<notin> fst ` set responses) out \<and>
     set (st_satisfiedInputKeys r') = set (st_satisfiedInputKeys r) \<union>
       (fst ` set responses \<inter> (fst ` set out \<union> set object_prototype_keys))"
proof -
  let ?r' = "input_response_next responses now r"
  obtain rem sat where rs: "satisfy_keys (map fst responses) out (set_of (st_satisfiedInputKeys r)) = (rem, sat)"
    by (cases "satisfy_keys (map fst responses) out (set_of (st_satisfiedInputKeys r))")
  from satisfy_keys_spec [OF rs] wf_getRecord(3,4) [OF assms(1,2)] assms(6)
  have spec: "rem = filter (\<lambda>(k, v). k \<notin> fst ` set responses) out"
    "set sat = set (st_satisfiedInputKeys r) \<union>
      (fst ` set responses \<inter> (fst ` set out \<union> set object_prototype_keys))"
    by (simp_all add: js_simps)
  have empty: "rem = [] \<longleftrightarrow> fst ` set out \<subseteq> fst ` set responses"
    unfolding spec(1) filter_empty_conv by (auto simp only: image_subset_iff split_beta)
  have "snd (applyInputResponses a i responses now db) = snd (save ?r' db)"
    unfolding applyInputResponses_def run_owned [OF assms(2-4)] using assms(5) by simp
  moreover have "getRecord i (snd (save ?r' db)) = Some ?r'"
    by (rule getRecord_save [OF assms(2)])
      (use wf_getRecord(1,2) [OF assms(1,2)] in simp_all)
  ultimately show ?thesis
    using assms(6) empty spec by (intro exI [of _ ?r']) (auto simp: input_response_next_def rs)
qed

theorem input_responses_effect_witness:
  "\<exists>r'. getRecord ''t1'' (snd (applyInputResponses ''a1'' ''t1'' [(''age'', JInt 3)] 2000 example_waiting)) = Some r' \<and>
     st_status r' = InputRequired \<and> or_else (st_inputRequests r') [] = [(''name'', JNull)]"
proof -
  have "\<exists>r. getRecord ''t1'' example_waiting = Some r \<and> st_agentId r = ''a1'' \<and> \<not> isMcpTaskExpired r 2000 \<and>
      st_status r = InputRequired \<and> st_inputRequests r = Some [(''name'', JNull), (''age'', JNull)]"
    by (simp add: example_defs isMcpTaskExpired_def)
  then obtain r where r: "getRecord ''t1'' example_waiting = Some r" "st_agentId r = ''a1''"
    "\<not> isMcpTaskExpired r 2000" "st_status r = InputRequired"
    "st_inputRequests r = Some [(''name'', JNull), (''age'', JNull)]" by blast
  show ?thesis using input_responses_effect [OF example_tasks_wf(2) r, of "[(''age'', JInt 3)]"]
    by auto
qed

text \<open>
  The life of a new task: until its TTL has run out its agent finds it \<open>working\<close> under
  the fresh id, from then on it is gone for the agent; a task created with an explicit
  \<open>null\<close> TTL never expires.
\<close>

theorem created_task_lives_until_ttl:
  assumes "createWorkingTask i clock c db = (Inr t, db')"
  shows "fst (getDetailedTask (ci_agentId c) i now db') =
    (case (case ci_ttlMs c of None \<Rightarrow> Some default_mcp_task_ttl_ms | Some ttl \<Rightarrow> ttl) of
       Some ttl \<Rightarrow>
         if or_else (ci_now c) clock + ttl \<le> now then Inl (McpTaskLookup Expired)
         else Inr (mcp_task.extend t (mcp_detailed_task.fields DetailWorking))
     | None \<Rightarrow> Inr (mcp_task.extend t (mcp_detailed_task.fields DetailWorking)))"
proof -
  have n: "tbl_find (\<lambda>r. tr_task_id r = i) db = None"
    using assms by (simp add: createWorkingTask_def Let_def split: if_splits)
  from assms have db': "\<exists>row. db' = db @ [row] \<and> tr_task_id row = i \<and> t = toMcpTask (rowToRecord row) \<and>
      tr_agent_id row = ci_agentId c \<and> tr_status row = Working \<and>
      tr_created_at row = or_else (ci_now c) clock \<and>
      tr_ttl_ms row = (case ci_ttlMs c of None \<Rightarrow> Some default_mcp_task_ttl_ms | Some ttl \<Rightarrow> ttl)"
    by (auto simp: createWorkingTask_def Let_def rowToRecord_def toMcpTask_def split: if_splits)
  then obtain row where row: "db' = db @ [row]" "tr_task_id row = i" "t = toMcpTask (rowToRecord row)"
    "tr_agent_id row = ci_agentId c" "tr_status row = Working"
    "tr_created_at row = or_else (ci_now c) clock"
    "tr_ttl_ms row = (case ci_ttlMs c of None \<Rightarrow> Some default_mcp_task_ttl_ms | Some ttl \<Rightarrow> ttl)" by blast
  have g: "getRecord i db' = Some (rowToRecord row)"
    by (simp add: getRecord_def row(1,2) tbl_find_append tbl_find_Cons n)
  have e: "isMcpTaskExpired (rowToRecord row) now = (case tr_ttl_ms row of None \<Rightarrow> False
      | Some ttl \<Rightarrow> or_else (ci_now c) clock + ttl \<le> now)"
    by (cases "tr_ttl_ms row") (simp_all add: isMcpTaskExpired_def rowToRecord_def row(6))
  show ?thesis
    unfolding row(7) [symmetric]
    by (cases "tr_ttl_ms row")
      (simp_all add: getDetailedTask_def comp_simps requireOwnedTask_def g e row(3,4,5)
        toDetailedMcpTask_def)
qed

theorem created_task_lives_until_ttl_witness:
  "fst (getDetailedTask ''a1'' ''t1'' (1000 + default_mcp_task_ttl_ms) example_tasks) = Inl (McpTaskLookup Expired)"
proof -
  have "\<exists>t. createWorkingTask ''t1'' 1000 example_create [] = (Inr t, example_tasks)"
    by (simp add: example_defs)
  then obtain t where t: "createWorkingTask ''t1'' 1000 example_create [] = (Inr t, example_tasks)" ..
  show ?thesis using created_task_lives_until_ttl [OF t, of "1000 + default_mcp_task_ttl_ms"]
    by (simp add: example_create_def)
qed

text \<open>
  The read and the write of an operation are separate statements, and two handlers may
  interleave between them. When an agent's cancel runs after \<open>attachBackendOrigin\<close> has
  read the row and before it saves, the save overwrites the cancellation: the task that was
  reported cancelled is active again.
\<close>

theorem interleaved_attach_revives_cancelled_task:
  assumes "getRecord i db = Some r" "st_agentId r = a" "\<not> isMcpTaskExpired r now"
    and "\<not> isMcpTaskTerminalStatus (st_status r)" "tasks_wf db" "bo_pollIntervalMs origin = None"
  shows "(\<exists>c. getRecord i (snd (requestCancel a i now db)) = Some c \<and> st_status c = Cancelled) \<and>
    getRecord i (snd (save (attach_next origin now' r) (snd (requestCancel a i now db)))) =
      Some (attach_next origin now' r) \<and>
    st_status (attach_next origin now' r) = st_status r"
proof -
  let ?c = "r\<lparr>st_status := Cancelled, st_inputRequests := None, st_lastUpdatedAtMs := now\<rparr>"
  note wf = wf_getRecord(1,2) [OF assms(5,1)]
  have "snd (requestCancel a i now db) = snd (save ?c db)"
    unfolding requestCancel_def run_owned [OF assms(1-3)] using assms(4) by simp
  moreover have c: "getRecord i (snd (save ?c db)) = Some ?c"
    by (rule getRecord_save [OF assms(1)]) (use wf in simp_all)
  moreover have "getRecord i (snd (save (attach_next origin now' r) (snd (save ?c db)))) =
      Some (attach_next origin now' r)"
    by (rule getRecord_save [OF c])
      (use wf assms(6) in \<open>simp_all add: same_task_def attach_next_def\<close>)
  moreover have "st_status (attach_next origin now' r) = st_status r" by (simp add: attach_next_def)
  ultimately show ?thesis by simp
qed

definition example_origin :: backend_origin where
  "example_origin = \<lparr>bo_server = ''s'', bo_backendTaskId = ''b'', bo_pollIntervalMs = None, bo_statusMessage = None\<rparr>"

theorem interleaved_attach_revives_cancelled_task_witness:
  "\<exists>r. getRecord ''t1'' example_tasks = Some r \<and> st_status r = Working \<and>
     getRecord ''t1'' (snd (save (attach_next example_origin 2100 r)
       (snd (requestCancel ''a1'' ''t1'' 2000 example_tasks)))) = Some (attach_next example_origin 2100 r)"
proof -
  have "\<exists>r. getRecord ''t1'' example_tasks = Some r \<and> st_agentId r = ''a1'' \<and> \<not> isMcpTaskExpired r 2000 \<and>
      \<not> isMcpTaskTerminalStatus (st_status r) \<and> st_status r = Working"
    by (simp add: example_defs isMcpTaskExpired_def)
  then obtain r where r: "getRecord ''t1'' example_tasks = Some r" "st_agentId r = ''a1''"
    "\<not> isMcpTaskExpired r 2000" "\<not> isMcpTaskTerminalStatus (st_status r)" "st_status r = Working" by blast
  have "bo_pollIntervalMs example_origin = None" by (simp add: example_origin_def)
  from interleaved_attach_revives_cancelled_task [OF r(1-4) example_tasks_wf(1) this, of 2100] r
  show ?thesis by blast
qed

text \<open>
  A response key that names a property every JavaScript object inherits counts as
  outstanding although nothing asked for it: it is recorded as satisfied, and a later request
  under that key is refused.
\<close>

theorem prototype_key_is_recorded:
  assumes "key \<in> set object_prototype_keys" "key \<notin> fst ` set out" "distinct (map fst out)"
    and "distinct sat" "fst ` set out \<inter> set sat = {}"
  shows "key \<in> set (snd (satisfy_keys [key] out sat)) \<and> fst (satisfy_keys [key] out sat) = out"
proof -
  have f: "filter (\<lambda>(k, v). k \<notin> set [key]) out = out"
  proof (rule filter_True, rule ballI)
    fix p assume "p \<in> set out"
    then have "fst p \<noteq> key" using assms(2) by (metis image_eqI)
    then show "case p of (k, v) \<Rightarrow> k \<notin> set [key]" by (simp add: split_beta)
  qed
  obtain rem sat' where rs: "satisfy_keys [key] out sat = (rem, sat')" by (cases "satisfy_keys [key] out sat")
  from satisfy_keys_spec [OF rs assms(3-5)] assms(1) show ?thesis
    unfolding f rs by simp
qed

theorem prototype_key_is_recorded_witness:
  "''constructor'' \<in> set (snd (satisfy_keys [''constructor''] [(''name'', JNull)] []))"
  using prototype_key_is_recorded [of "''constructor''" "[(''name'', JNull)]" "[]"]
  by (simp add: object_prototype_keys_def)

text \<open>
  An agent can tell an id that does not exist from a task of its own that has expired:
  the two lookups fail with different reasons and different messages.
\<close>

theorem expired_and_unknown_are_told_apart:
  assumes "getRecord i db = Some r" "st_agentId r = a" "isMcpTaskExpired r now" "getRecord j db = None"
  shows "fst (getDetailedTask a i now db) = Inl (McpTaskLookup Expired) \<and>
    fst (getDetailedTask a j now db) = Inl (McpTaskLookup NotFound) \<and>
    exn_message (McpTaskLookup Expired) \<noteq> exn_message (McpTaskLookup NotFound)"
  using assms by (simp_all add: getDetailedTask_def requireOwnedTask_def comp_simps exn_message_def)

theorem expired_and_unknown_are_told_apart_witness:
  "fst (getDetailedTask ''a1'' ''t1'' 90000000 example_tasks) \<noteq> fst (getDetailedTask ''a1'' ''t2'' 90000000 example_tasks)"
proof -
  have "\<exists>r. getRecord ''t1'' example_tasks = Some r \<and> st_agentId r = ''a1'' \<and> isMcpTaskExpired r 90000000"
    and n: "getRecord ''t2'' example_tasks = None"
    by (simp_all add: example_defs isMcpTaskExpired_def)
  then obtain r where "getRecord ''t1'' example_tasks = Some r" "st_agentId r = ''a1''"
    "isMcpTaskExpired r 90000000" by blast
  from expired_and_unknown_are_told_apart [OF this n] show ?thesis by simp
qed

end
