(* ===== verification/Histories.thy ===== *)
theory Histories
  imports Prelude
begin

text \<open>
  Histories of operations on a shared store, and the two contracts that several stores of the
  program promise over every history: an invariant is kept (\<open>kept\<close>), and an operation that may
  succeed at most once does (\<open>once\<close>). A store provides its operations as one step function and
  interprets the locales on it.
\<close>

fun run_ops :: "('op \<Rightarrow> 's \<Rightarrow> 's) \<Rightarrow> 'op list \<Rightarrow> 's \<Rightarrow> 's" where
  "run_ops step [] s = s"
| "run_ops step (x # xs) s = run_ops step xs (step x s)"

text \<open>How many operations of a history satisfy \<open>P\<close> at the state they run in.\<close>

fun count_ops :: "('op \<Rightarrow> 's \<Rightarrow> 's) \<Rightarrow> ('op \<Rightarrow> 's \<Rightarrow> bool) \<Rightarrow> 'op list \<Rightarrow> 's \<Rightarrow> nat" where
  "count_ops step P [] s = 0"
| "count_ops step P (x # xs) s = (if P x s then 1 else 0) + count_ops step P xs (step x s)"

lemma run_ops_append: "run_ops step (xs @ ys) s = run_ops step ys (run_ops step xs s)"
  by (induction xs arbitrary: s) simp_all

locale kept =
  fixes step :: "'op \<Rightarrow> 's \<Rightarrow> 's"
    and ok :: "'op \<Rightarrow> bool"
    and I :: "'s \<Rightarrow> bool"
  assumes step_keeps: "I s \<Longrightarrow> ok x \<Longrightarrow> I (step x s)"
begin

lemma run_keeps: "I s \<Longrightarrow> \<forall>x \<in> set xs. ok x \<Longrightarrow> I (run_ops step xs s)"
  by (induction xs arbitrary: s) (auto intro: step_keeps)

end

text \<open>
  \<open>wins x s\<close>: the operation \<open>x\<close> succeeds in the state \<open>s\<close>; \<open>spent\<close>: nothing is left to win;
  \<open>I\<close>: the invariant of the store.
\<close>

locale once = kept step "\<lambda>_. True" I
  for step :: "'op \<Rightarrow> 's \<Rightarrow> 's" and I :: "'s \<Rightarrow> bool" +
  fixes spent :: "'s \<Rightarrow> bool" and wins :: "'op \<Rightarrow> 's \<Rightarrow> bool"
  assumes spent_stays: "I s \<Longrightarrow> spent s \<Longrightarrow> spent (step x s)"
    and win_spends: "I s \<Longrightarrow> wins x s \<Longrightarrow> spent (step x s)"
    and spent_blocks: "I s \<Longrightarrow> spent s \<Longrightarrow> \<not> wins x s"
begin

lemma keeps: "I s \<Longrightarrow> I (run_ops step xs s)"
  by (rule run_keeps) simp_all

lemma spent_run: "I s \<Longrightarrow> spent s \<Longrightarrow> spent (run_ops step xs s)"
  by (induction xs arbitrary: s) (auto intro: step_keeps spent_stays)

lemma none_after_spent: "I s \<Longrightarrow> spent s \<Longrightarrow> count_ops step wins xs s = 0"
  by (induction xs arbitrary: s) (auto intro: step_keeps spent_stays dest: spent_blocks)

lemma at_most_one: "I s \<Longrightarrow> count_ops step wins xs s \<le> 1"
proof (induction xs arbitrary: s)
  case (Cons x xs)
  then have "I (step x s)" by (auto intro: step_keeps)
  with Cons none_after_spent [of "step x s" xs] win_spends [of s x] show ?case
    by (cases "wins x s") simp_all
qed simp

end

end
