(* ===== verification/ApprovalStore.thy ===== *)
theory ApprovalStore
  imports Histories ToriiTypes
begin

text \<open>
  \<^verbatim>\<open>apps/torii/src/policy/approval-store.service.ts\<close>: the approvals of gated tool calls and the
  memory of recent rejections. The state is the pair of tables \<^verbatim>\<open>approvals\<close> and
  \<^verbatim>\<open>approval_rejections\<close> of \<^verbatim>\<open>storage/migrations/001_baseline.ts\<close>; a SQL statement is one
  atomic step on them. \<open>randomUUID()\<close> and \<open>Date.now()\<close> are the arguments \<open>uuid\<close> and \<open>clock\<close>.
  Rows with the same \<open>created_at\<close>, whose order \<open>ORDER BY created_at DESC\<close> leaves open, are
  listed in table order.
\<close>

datatype approval_status = APending | AApproved | ARejected | ACancelled

record approval_record =
  ap_id :: string
  ap_agentId :: string
  ap_ownerId :: string
  ap_toolName :: string
  ap_params :: jobj
  ap_paramsHash :: string
  ap_runId :: "string option"
  ap_stepId :: "string option"
  ap_taskId :: "string option"
  ap_status :: approval_status
  ap_rejectionReason :: "string option"
  ap_createdAt :: int
  ap_expiresAt :: int
  ap_decidedAt :: "int option"
  ap_usedAt :: "int option"

record rejected_params_entry =
  re_agentId :: string
  re_toolName :: string
  re_paramsHash :: string
  re_rejectionReason :: "string option"
  re_rejectedAt :: int

record approval_row =
  ar_id :: string
  ar_agent_id :: string
  ar_owner_id :: string
  ar_tool_name :: string
  ar_params :: jobj
  ar_params_hash :: string
  ar_run_id :: "string option"
  ar_step_id :: "string option"
  ar_task_id :: "string option"
  ar_status :: approval_status
  ar_rejection_reason :: "string option"
  ar_created_at :: int
  ar_expires_at :: int
  ar_decided_at :: "int option"
  ar_used_at :: "int option"

record rejection_row =
  rj_agent_id :: string
  rj_tool_name :: string
  rj_params_hash :: string
  rj_rejection_reason :: "string option"
  rj_rejected_at :: int

record approval_db =
  db_approvals :: "approval_row list"
  db_rejections :: "rejection_row list"

type_synonym 'a approval_comp = "(approval_db, exn, 'a) comp"

definition default_approval_ttl_ms :: int where
  "default_approval_ttl_ms = 24 * 60 * 60 * 1000"

definition rejection_suppression_ttl_ms :: int where
  "rejection_suppression_ttl_ms = 60 * 60 * 1000"

definition rowToApproval :: "approval_row \<Rightarrow> approval_record" where
  "rowToApproval row =
    \<lparr>ap_id = ar_id row, ap_agentId = ar_agent_id row, ap_ownerId = ar_owner_id row,
     ap_toolName = ar_tool_name row, ap_params = ar_params row, ap_paramsHash = ar_params_hash row,
     ap_runId = ar_run_id row, ap_stepId = ar_step_id row, ap_taskId = ar_task_id row,
     ap_status = ar_status row, ap_rejectionReason = ar_rejection_reason row,
     ap_createdAt = ar_created_at row, ap_expiresAt = ar_expires_at row,
     ap_decidedAt = ar_decided_at row, ap_usedAt = ar_used_at row\<rparr>"

section \<open>Creation and lookup\<close>

record create_approval_input =
  ai_principal :: agent_principal
  ai_toolName :: string
  ai_params :: jobj
  ai_paramsHash :: string
  ai_runId :: "string option"
  ai_stepId :: "string option"
  ai_taskId :: "string option"
  ai_now :: "int option"
  ai_ttlMs :: "int option"

definition new_approval :: "string \<Rightarrow> int \<Rightarrow> create_approval_input \<Rightarrow> approval_record" where
  "new_approval uuid clock inp =
    (let now = or_else (ai_now inp) clock in
     \<lparr>ap_id = uuid, ap_agentId = pr_agentId (ai_principal inp),
      ap_ownerId = pr_ownerId (ai_principal inp), ap_toolName = ai_toolName inp,
      ap_params = ai_params inp, ap_paramsHash = ai_paramsHash inp, ap_runId = ai_runId inp,
      ap_stepId = ai_stepId inp, ap_taskId = ai_taskId inp, ap_status = APending,
      ap_rejectionReason = None, ap_createdAt = now,
      ap_expiresAt = now + or_else (ai_ttlMs inp) default_approval_ttl_ms,
      ap_decidedAt = None, ap_usedAt = None\<rparr>)"

definition approval_to_row :: "approval_record \<Rightarrow> approval_row" where
  "approval_to_row r =
    \<lparr>ar_id = ap_id r, ar_agent_id = ap_agentId r, ar_owner_id = ap_ownerId r,
     ar_tool_name = ap_toolName r, ar_params = ap_params r, ar_params_hash = ap_paramsHash r,
     ar_run_id = ap_runId r, ar_step_id = ap_stepId r, ar_task_id = ap_taskId r,
     ar_status = ap_status r, ar_rejection_reason = None, ar_created_at = ap_createdAt r,
     ar_expires_at = ap_expiresAt r, ar_decided_at = None, ar_used_at = None\<rparr>"

text \<open>The primary key and the partial unique index on \<open>task_id\<close> refuse the insertion.\<close>

definition createPendingApproval ::
    "string \<Rightarrow> int \<Rightarrow> create_approval_input \<Rightarrow> approval_record approval_comp" where
  "createPendingApproval uuid clock inp db =
    (let r = new_approval uuid clock inp in
     if tbl_find (\<lambda>x. ar_id x = uuid) (db_approvals db) \<noteq> None
     then (Inl (PgUnique ''approvals_pkey''), db)
     else if ap_taskId r \<noteq> None \<and>
       tbl_find (\<lambda>x. ar_task_id x = ap_taskId r) (db_approvals db) \<noteq> None
     then (Inl (PgUnique ''idx_approvals_task_id''), db)
     else (Inr r, db\<lparr>db_approvals := db_approvals db @ [approval_to_row r]\<rparr>))"

definition getApproval :: "string \<Rightarrow> approval_db \<Rightarrow> approval_record option" where
  "getApproval i db = map_option rowToApproval (tbl_find (\<lambda>r. ar_id r = i) (db_approvals db))"

definition getApprovalByTaskId :: "string \<Rightarrow> approval_db \<Rightarrow> approval_record option" where
  "getApprovalByTaskId t db =
    map_option rowToApproval (tbl_find (\<lambda>r. ar_task_id r = Some t) (db_approvals db))"

definition runInTransaction :: "'a approval_comp \<Rightarrow> 'a approval_comp" where
  "runInTransaction body = atomicallyM body"

section \<open>Listing\<close>

record approval_view =
  av_id :: string
  av_agentId :: string
  av_ownerId :: string
  av_toolName :: string
  av_params :: jobj
  av_runId :: "string option"
  av_stepId :: "string option"
  av_status :: approval_status
  av_rejectionReason :: "string option"
  av_createdAt :: string
  av_expiresAt :: string
  av_decidedAt :: "string option"

definition toApprovalView :: "approval_record \<Rightarrow> approval_view" where
  "toApprovalView r =
    \<lparr>av_id = ap_id r, av_agentId = ap_agentId r, av_ownerId = ap_ownerId r,
     av_toolName = ap_toolName r, av_params = ap_params r, av_runId = ap_runId r,
     av_stepId = ap_stepId r, av_status = ap_status r, av_rejectionReason = ap_rejectionReason r,
     av_createdAt = to_iso_string (ap_createdAt r), av_expiresAt = to_iso_string (ap_expiresAt r),
     av_decidedAt = map_option to_iso_string (ap_decidedAt r)\<rparr>"

definition default_approval_list_limit :: int where
  "default_approval_list_limit = 200"

definition max_approval_list_limit :: int where
  "max_approval_list_limit = 200"

definition list_bound :: "int option \<Rightarrow> nat" where
  "list_bound limit = nat (min (max 1 (or_else limit default_approval_list_limit)) max_approval_list_limit)"

text \<open>An empty owner id is falsy in JavaScript: the owner condition is then left out.\<close>

definition list_matches :: "approval_status option \<Rightarrow> string option \<Rightarrow> approval_row \<Rightarrow> bool" where
  "list_matches status ownerId r \<longleftrightarrow>
     (case status of None \<Rightarrow> True | Some s \<Rightarrow> ar_status r = s) \<and>
     (if truthy_str ownerId then Some (ar_owner_id r) = ownerId else True)"

definition listed_rows ::
    "approval_status option \<Rightarrow> int option \<Rightarrow> string option \<Rightarrow> approval_row list \<Rightarrow> approval_row list" where
  "listed_rows status limit ownerId rows =
    take (list_bound limit) (sort_key (\<lambda>r. - ar_created_at r) (filter (list_matches status ownerId) rows))"

definition listApprovals ::
    "approval_status option \<Rightarrow> int option \<Rightarrow> string option \<Rightarrow> approval_db \<Rightarrow> approval_view list" where
  "listApprovals status limit ownerId db =
    map (toApprovalView \<circ> rowToApproval) (listed_rows status limit ownerId (db_approvals db))"

section \<open>Decisions\<close>

definition decide_columns :: "approval_status \<Rightarrow> string option \<Rightarrow> int \<Rightarrow> approval_row \<Rightarrow> approval_row" where
  "decide_columns status reason now r =
    r\<lparr>ar_status := status,
      ar_rejection_reason := (if status = ARejected then reason else None),
      ar_decided_at := Some now\<rparr>"

definition decidable_now :: "string \<Rightarrow> int \<Rightarrow> approval_row \<Rightarrow> bool" where
  "decidable_now i now r \<longleftrightarrow> ar_id r = i \<and> ar_status r = APending \<and> ar_expires_at r > now"

definition decidePending ::
    "string \<Rightarrow> approval_status \<Rightarrow> string option \<Rightarrow> int \<Rightarrow> approval_record option approval_comp" where
  "decidePending i status reason now db =
    (let hit = decidable_now i now;
         db' = db\<lparr>db_approvals := tbl_update hit (decide_columns status reason now) (db_approvals db)\<rparr>
     in if tbl_count hit (db_approvals db) = 0 then (Inr None, db') else (Inr (getApproval i db'), db'))"

definition approve :: "string \<Rightarrow> int \<Rightarrow> approval_record option approval_comp" where
  "approve i now = decidePending i AApproved None now"

definition cancel :: "string \<Rightarrow> int \<Rightarrow> approval_record option approval_comp" where
  "cancel i now = decidePending i ACancelled None now"

definition pruneRejections :: "int \<Rightarrow> unit approval_comp" where
  "pruneRejections now db =
    (Inr (), db\<lparr>db_rejections :=
       tbl_delete (\<lambda>r. rj_rejected_at r < now - rejection_suppression_ttl_ms) (db_rejections db)\<rparr>)"

definition same_call :: "string \<Rightarrow> string \<Rightarrow> string \<Rightarrow> rejection_row \<Rightarrow> bool" where
  "same_call a tool h r \<longleftrightarrow> rj_agent_id r = a \<and> rj_tool_name r = tool \<and> rj_params_hash r = h"

text \<open>\<open>INSERT .. ON CONFLICT (agent_id, tool_name, params_hash) DO UPDATE\<close>.\<close>

definition upsert_rejection :: "rejection_row \<Rightarrow> rejection_row list \<Rightarrow> rejection_row list" where
  "upsert_rejection x t =
    (let hit = same_call (rj_agent_id x) (rj_tool_name x) (rj_params_hash x) in
     if tbl_count hit t = 0 then t @ [x]
     else tbl_update hit (\<lambda>r. r\<lparr>rj_rejection_reason := rj_rejection_reason x,
                                rj_rejected_at := rj_rejected_at x\<rparr>) t)"

definition remember_rejection :: "approval_record \<Rightarrow> string option \<Rightarrow> int \<Rightarrow> unit approval_comp" where
  "remember_rejection r reason now db =
    (Inr (), db\<lparr>db_rejections := upsert_rejection
       \<lparr>rj_agent_id = ap_agentId r, rj_tool_name = ap_toolName r, rj_params_hash = ap_paramsHash r,
        rj_rejection_reason = reason, rj_rejected_at = now\<rparr> (db_rejections db)\<rparr>)"

definition reject :: "string \<Rightarrow> string option \<Rightarrow> int \<Rightarrow> approval_record option approval_comp" where
  "reject i reason now =
    bindM (decidePending i ARejected reason now) (\<lambda>record.
      case record of
        None \<Rightarrow> returnM None
      | Some r \<Rightarrow>
          bindM (remember_rejection r reason now) (\<lambda>_.
          bindM (pruneRejections now) (\<lambda>_. returnM (Some r))))"

section \<open>Use and recent rejections\<close>

definition unused :: "string \<Rightarrow> approval_row \<Rightarrow> bool" where
  "unused i r \<longleftrightarrow> ar_id r = i \<and> ar_used_at r = None"

definition markUsed :: "string \<Rightarrow> int \<Rightarrow> approval_record option approval_comp" where
  "markUsed i now db =
    (let db' = db\<lparr>db_approvals := tbl_update (unused i) (\<lambda>r. r\<lparr>ar_used_at := Some now\<rparr>) (db_approvals db)\<rparr>
     in if tbl_count (unused i) (db_approvals db) = 0 then (Inr None, db')
        else (Inr (getApproval i db'), db'))"

definition findRecentRejection ::
    "string \<Rightarrow> string \<Rightarrow> string \<Rightarrow> int \<Rightarrow> rejected_params_entry option approval_comp" where
  "findRecentRejection a tool h now =
    bindM (pruneRejections now) (\<lambda>_ db.
      (Inr (map_option (\<lambda>row. \<lparr>re_agentId = rj_agent_id row, re_toolName = rj_tool_name row,
              re_paramsHash = rj_params_hash row, re_rejectionReason = rj_rejection_reason row,
              re_rejectedAt = rj_rejected_at row\<rparr>)
         (tbl_find (\<lambda>r. same_call a tool h r \<and>
              rj_rejected_at r \<ge> now - rejection_suppression_ttl_ms) (db_rejections db))), db))"

section \<open>Histories\<close>

datatype approval_op =
    Create string int create_approval_input
  | Approve string int
  | Reject string "string option" int
  | Cancel string int
  | MarkUsed string int
  | FindRejection string string string int

fun run_approval_op :: "approval_op \<Rightarrow> approval_db \<Rightarrow> approval_db" where
  "run_approval_op (Create u c x) db = snd (createPendingApproval u c x db)"
| "run_approval_op (Approve i t) db = snd (approve i t db)"
| "run_approval_op (Reject i r t) db = snd (reject i r t db)"
| "run_approval_op (Cancel i t) db = snd (cancel i t db)"
| "run_approval_op (MarkUsed i t) db = snd (markUsed i t db)"
| "run_approval_op (FindRejection a n h t) db = snd (findRecentRejection a n h t db)"

abbreviation run_approvals :: "approval_op list \<Rightarrow> approval_db \<Rightarrow> approval_db" where
  "run_approvals \<equiv> run_ops run_approval_op"

section \<open>Steps\<close>

text \<open>
  What any operation does to the approvals: nothing, append a fresh pending row, or rewrite
  rows by a decision on a pending one that has not expired or by the first use.
\<close>

inductive approval_row_step :: "approval_row \<Rightarrow> approval_row \<Rightarrow> bool" where
  decide: "ar_status r = APending \<Longrightarrow> now < ar_expires_at r \<Longrightarrow> status \<noteq> APending \<Longrightarrow>
    approval_row_step r (decide_columns status reason now r)"
| use: "ar_used_at r = None \<Longrightarrow> approval_row_step r (r\<lparr>ar_used_at := Some now\<rparr>)"

inductive_cases approval_row_stepE: "approval_row_step r r'"

inductive approvals_step :: "approval_row list \<Rightarrow> approval_row list \<Rightarrow> bool" where
  stutter: "approvals_step t t"
| insert: "tbl_find (\<lambda>x. ar_id x = ap_id r) t = None \<Longrightarrow>
    (ap_taskId r \<noteq> None \<Longrightarrow> tbl_find (\<lambda>x. ar_task_id x = ap_taskId r) t = None) \<Longrightarrow>
    ap_status r = APending \<Longrightarrow> approvals_step t (t @ [approval_to_row r])"
| rewrite: "(\<And>r. ar_id (f r) = ar_id r) \<Longrightarrow> (\<And>r. ar_task_id (f r) = ar_task_id r) \<Longrightarrow>
    (\<And>r. r \<in> set t \<Longrightarrow> P r \<Longrightarrow> approval_row_step r (f r)) \<Longrightarrow> approvals_step t (tbl_update P f t)"

lemma decide_columns_fields [simp]:
  "ar_id (decide_columns s q n r) = ar_id r" "ar_task_id (decide_columns s q n r) = ar_task_id r"
  "ar_agent_id (decide_columns s q n r) = ar_agent_id r"
  "ar_tool_name (decide_columns s q n r) = ar_tool_name r"
  "ar_params_hash (decide_columns s q n r) = ar_params_hash r"
  "ar_params (decide_columns s q n r) = ar_params r"
  "ar_owner_id (decide_columns s q n r) = ar_owner_id r"
  "ar_status (decide_columns s q n r) = s" "ar_decided_at (decide_columns s q n r) = Some n"
  "ar_expires_at (decide_columns s q n r) = ar_expires_at r"
  "ar_used_at (decide_columns s q n r) = ar_used_at r"
  by (simp_all add: decide_columns_def)

lemma decidePending_db [simp]:
  "db_approvals (snd (decidePending i s q now db)) =
     tbl_update (decidable_now i now) (decide_columns s q now) (db_approvals db)"
  "db_rejections (snd (decidePending i s q now db)) = db_rejections db"
  by (simp_all add: decidePending_def Let_def)

lemma reject_eq:
  "snd (reject i q now db) =
    (case fst (decidePending i ARejected q now db) of
       Inr (Some r) \<Rightarrow> snd (pruneRejections now (snd (remember_rejection r q now
         (snd (decidePending i ARejected q now db)))))
     | _ \<Rightarrow> snd (decidePending i ARejected q now db))"
  by (simp add: reject_def comp_simps remember_rejection_def pruneRejections_def
      split: prod.split sum.split option.split)

lemma reject_db [simp]:
  "db_approvals (snd (reject i q now db)) =
     tbl_update (decidable_now i now) (decide_columns ARejected q now) (db_approvals db)"
  by (simp add: reject_eq remember_rejection_def pruneRejections_def split: sum.split option.split)

lemma reject_result: "fst (reject i q now db) = fst (decidePending i ARejected q now db)"
  by (simp add: reject_def comp_simps remember_rejection_def pruneRejections_def
      split: prod.split sum.split option.split)

lemma approvals_step_decide:
  "status \<noteq> APending \<Longrightarrow> approvals_step t (tbl_update (decidable_now i now) (decide_columns status q now) t)"
  by (rule approvals_step.rewrite) (auto simp: decidable_now_def intro: approval_row_step.decide)

lemma approvals_step_op: "approvals_step (db_approvals db) (db_approvals (run_approval_op x db))"
proof (cases x)
  case (Create u c inp)
  then show ?thesis
    by (auto simp: createPendingApproval_def Let_def new_approval_def
        intro!: approvals_step.stutter approvals_step.insert)
next
  case (MarkUsed i t)
  then show ?thesis
    by (auto simp: markUsed_def Let_def unused_def intro!: approvals_step.rewrite approval_row_step.use)
qed (simp_all add: approve_def cancel_def approvals_step_decide findRecentRejection_def comp_simps
  pruneRejections_def approvals_step.stutter)

lemma approvals_step_find:
  assumes "approvals_step t t'" "tbl_find (\<lambda>r. ar_id r = i) t = Some r"
  shows "\<exists>r'. tbl_find (\<lambda>r. ar_id r = i) t' = Some r' \<and> (r' = r \<or> approval_row_step r r')"
  using assms
proof (induction rule: approvals_step.induct)
  case (rewrite f t P)
  then have "r \<in> set t" using tbl_find_Some_in by fast
  with rewrite tbl_find_key_update [of ar_id f i P t] show ?case by auto
qed (auto simp: tbl_simps)

lemma approvals_step_in:
  assumes "approvals_step t t'" "r' \<in> set t'"
  shows "(\<exists>r \<in> set t. r' = r \<or> approval_row_step r r') \<or>
    (ar_status r' = APending \<and> tbl_find (\<lambda>x. ar_id x = ar_id r') t = None)"
  using assms
proof (induction rule: approvals_step.induct)
  case (rewrite f t P)
  then show ?case by (auto simp: tbl_simps split: if_splits)
qed (auto simp: approval_to_row_def)

lemma row_step_fixed:
  "approval_row_step r r' \<Longrightarrow> ar_id r' = ar_id r \<and> ar_task_id r' = ar_task_id r \<and>
     ar_agent_id r' = ar_agent_id r \<and> ar_owner_id r' = ar_owner_id r \<and> ar_params r' = ar_params r \<and>
     ar_tool_name r' = ar_tool_name r \<and> ar_params_hash r' = ar_params_hash r \<and>
     ar_expires_at r' = ar_expires_at r"
  by (erule approval_row_stepE) auto

lemma row_step_decided:
  "approval_row_step r r' \<Longrightarrow> ar_status r \<noteq> APending \<Longrightarrow> \<exists>u. r' = r\<lparr>ar_used_at := u\<rparr>"
  by (erule approval_row_stepE) auto

lemma row_step_used: "approval_row_step r r' \<Longrightarrow> ar_used_at r = Some u \<Longrightarrow> ar_used_at r' = Some u"
  by (erule approval_row_stepE) auto

section \<open>The invariant\<close>

definition wf_approval_row :: "approval_row \<Rightarrow> bool" where
  "wf_approval_row r \<longleftrightarrow>
     (ar_decided_at r = None \<longleftrightarrow> ar_status r = APending) \<and>
     (ar_rejection_reason r \<noteq> None \<longrightarrow> ar_status r = ARejected) \<and>
     (\<forall>d. ar_decided_at r = Some d \<longrightarrow> d < ar_expires_at r)"

definition approvals_wf :: "approval_db \<Rightarrow> bool" where
  "approvals_wf db \<longleftrightarrow>
     distinct (map ar_id (db_approvals db)) \<and>
     distinct (filter (\<lambda>t. t \<noteq> None) (map ar_task_id (db_approvals db))) \<and>
     (\<forall>r \<in> set (db_approvals db). wf_approval_row r) \<and>
     distinct (map (\<lambda>r. (rj_agent_id r, rj_tool_name r, rj_params_hash r)) (db_rejections db))"

lemma wf_approval_row_step: "approval_row_step r r' \<Longrightarrow> wf_approval_row r \<Longrightarrow> wf_approval_row r'"
  by (erule approval_row_stepE) (auto simp: wf_approval_row_def decide_columns_def)

lemma new_row_fields [simp]:
  "ar_id (approval_to_row r) = ap_id r" "ar_task_id (approval_to_row r) = ap_taskId r"
  "ar_status (approval_to_row r) = ap_status r"
  by (simp_all add: approval_to_row_def)

lemma approvals_step_wf:
  assumes "approvals_step t t'" "distinct (map ar_id t)" "\<forall>r \<in> set t. wf_approval_row r"
    and "distinct (filter (\<lambda>t. t \<noteq> None) (map ar_task_id t))"
  shows "distinct (map ar_id t') \<and> (\<forall>r \<in> set t'. wf_approval_row r) \<and>
    distinct (filter (\<lambda>t. t \<noteq> None) (map ar_task_id t'))"
  using assms
proof (induction rule: approvals_step.induct)
  case (insert r t)
  have "wf_approval_row (approval_to_row r)"
    using insert(3) by (simp add: wf_approval_row_def approval_to_row_def)
  moreover have "ap_id r \<notin> ar_id ` set t" using insert(1) by (auto simp: tbl_find_None)
  moreover have "ap_taskId r = None \<or> ap_taskId r \<notin> ar_task_id ` set t"
    using insert(2) unfolding tbl_find_None by (metis imageE)
  ultimately show ?case using insert(4-6) by auto
next
  case (rewrite f t P)
  have "map ar_id (tbl_update P f t) = map ar_id t" "map ar_task_id (tbl_update P f t) = map ar_task_id t"
    by (rule map_key_tbl_update, rule rewrite(1,2))+
  moreover have "wf_approval_row r" if "r \<in> set (tbl_update P f t)" for r
    using that wf_approval_row_step [OF rewrite(3)] rewrite(5) unfolding set_tbl_update by auto
  ultimately show ?case using rewrite(4,6) by simp
qed auto

definition rejections_distinct :: "rejection_row list \<Rightarrow> bool" where
  "rejections_distinct t \<longleftrightarrow> distinct (map (\<lambda>r. (rj_agent_id r, rj_tool_name r, rj_params_hash r)) t)"

lemma upsert_distinct: "rejections_distinct t \<Longrightarrow> rejections_distinct (upsert_rejection x t)"
  by (auto simp: rejections_distinct_def upsert_rejection_def Let_def same_call_def tbl_simps
      map_key_tbl_update [where key = "\<lambda>r. (rj_agent_id r, rj_tool_name r, rj_params_hash r)"])

lemma delete_distinct: "rejections_distinct t \<Longrightarrow> rejections_distinct (tbl_delete P t)"
  unfolding rejections_distinct_def by (rule distinct_map_tbl_delete)

lemma rejections_distinct_op:
  "rejections_distinct (db_rejections db) \<Longrightarrow> rejections_distinct (db_rejections (run_approval_op x db))"
proof (cases x)
  case (Reject i q t)
  assume "rejections_distinct (db_rejections db)"
  with Reject show ?thesis
    by (simp add: reject_eq remember_rejection_def pruneRejections_def upsert_distinct delete_distinct
        split: sum.split option.split)
qed (simp_all add: createPendingApproval_def Let_def approve_def cancel_def markUsed_def
  findRecentRejection_def comp_simps pruneRejections_def delete_distinct)

interpretation approval_invariant: kept run_approval_op "\<lambda>_. True" approvals_wf
proof
  fix db x
  assume "approvals_wf db"
  then show "approvals_wf (run_approval_op x db)"
    using approvals_step_wf [OF approvals_step_op [of db x]] rejections_distinct_op [of db x]
    unfolding approvals_wf_def rejections_distinct_def by blast
qed

section \<open>Winning a decision, winning the use\<close>

definition returned_some :: "('e + 'a option) \<times> 's \<Rightarrow> bool" where
  "returned_some res = (case fst res of Inr (Some _) \<Rightarrow> True | _ \<Rightarrow> False)"

fun decides :: "string \<Rightarrow> approval_op \<Rightarrow> approval_db \<Rightarrow> bool" where
  "decides i (Approve j t) db = (j = i \<and> returned_some (approve j t db))"
| "decides i (Reject j q t) db = (j = i \<and> returned_some (reject j q t db))"
| "decides i (Cancel j t) db = (j = i \<and> returned_some (cancel j t db))"
| "decides i _ db = False"

fun uses :: "string \<Rightarrow> approval_op \<Rightarrow> approval_db \<Rightarrow> bool" where
  "uses i (MarkUsed j t) db = (j = i \<and> returned_some (markUsed j t db))"
| "uses i _ db = False"

definition rows_of :: "string \<Rightarrow> approval_db \<Rightarrow> approval_row set" where
  "rows_of i db = {r \<in> set (db_approvals db). ar_id r = i}"

definition decided :: "string \<Rightarrow> approval_db \<Rightarrow> bool" where
  "decided i db \<longleftrightarrow> rows_of i db \<noteq> {} \<and> (\<forall>r \<in> rows_of i db. ar_status r \<noteq> APending)"

definition used_up :: "string \<Rightarrow> approval_db \<Rightarrow> bool" where
  "used_up i db \<longleftrightarrow> rows_of i db \<noteq> {} \<and> (\<forall>r \<in> rows_of i db. ar_used_at r \<noteq> None)"

lemma rows_of_op:
  assumes "rows_of i db \<noteq> {}" "r' \<in> rows_of i (run_approval_op x db)"
  shows "\<exists>r \<in> rows_of i db. r' = r \<or> approval_row_step r r'"
  using assms approvals_step_in [OF approvals_step_op [of db x], of r'] row_step_fixed
  by (fastforce simp: rows_of_def tbl_simps)

lemma rows_of_op_nonempty: "rows_of i db \<noteq> {} \<Longrightarrow> rows_of i (run_approval_op x db) \<noteq> {}"
proof -
  assume "rows_of i db \<noteq> {}"
  then obtain r where "tbl_find (\<lambda>r. ar_id r = i) (db_approvals db) = Some r"
    using tbl_find_None [of "\<lambda>r. ar_id r = i" "db_approvals db"] by (fastforce simp: rows_of_def)
  from approvals_step_find [OF approvals_step_op [of db x] this] show ?thesis
    by (auto simp: rows_of_def dest!: tbl_find_Some_in)
qed

lemma decidePending_some:
  assumes "returned_some (decidePending i s q now db)"
  shows "\<exists>r \<in> rows_of i db. ar_status r = APending \<and> now < ar_expires_at r"
  using assms tbl_count_0 [of "decidable_now i now" "db_approvals db"]
  by (auto simp: returned_some_def decidePending_def Let_def rows_of_def decidable_now_def split: if_splits)

lemma getApproval_after_update:
  assumes "r \<in> set t" "P r" "ar_id r = i" "\<And>r. ar_id (f r) = ar_id r"
  shows "\<exists>r'. getApproval i (db\<lparr>db_approvals := tbl_update P f t\<rparr>) = Some r'"
proof -
  have "tbl_find (\<lambda>r. ar_id r = i) t \<noteq> None" using assms(1,3) by (auto simp: tbl_find_None)
  then show ?thesis
    using tbl_find_key_update [of ar_id f i P t] assms(4) by (auto simp: getApproval_def)
qed


lemma returned_some_simps [simp]:
  "returned_some (Inr (Some x), s)" "\<not> returned_some (Inr None, s)" "\<not> returned_some (Inl e, s)"
  by (simp_all add: returned_some_def)

lemma decided_after:
  assumes "returned_some (decidePending i s q now db)" "s \<noteq> APending" "approvals_wf db"
  shows "decided i (snd (decidePending i s q now db))"
proof -
  from decidePending_some [OF assms(1)] obtain r where
    r: "r \<in> set (db_approvals db)" "ar_id r = i" "decidable_now i now r"
    by (auto simp: rows_of_def decidable_now_def)
  have all: "decidable_now i now x" if "x \<in> set (db_approvals db)" "ar_id x = i" for x
    using distinct_key_unique [of ar_id "db_approvals db" x r] that r assms(3)
    unfolding approvals_wf_def by metis
  have "decide_columns s q now r \<in> rows_of i (snd (decidePending i s q now db))"
    using r by (auto simp: rows_of_def tbl_simps)
  then have "rows_of i (snd (decidePending i s q now db)) \<noteq> {}" by blast
  moreover have "ar_status x \<noteq> APending" if "x \<in> rows_of i (snd (decidePending i s q now db))" for x
    using that all assms(2) by (auto simp: rows_of_def tbl_simps split: if_splits)
  ultimately show ?thesis by (simp add: decided_def)
qed

lemma decided_step: "decided i db \<Longrightarrow> decided i (run_approval_op x db)"
  using rows_of_op [of i db _ x] rows_of_op_nonempty [of i db x] row_step_decided
  unfolding decided_def by (metis approval_row.select_convs(10) approval_row.surjective approval_row.update_convs(15))

lemma used_up_step: "used_up i db \<Longrightarrow> used_up i (run_approval_op x db)"
  using rows_of_op [of i db _ x] rows_of_op_nonempty [of i db x] row_step_used
  unfolding used_up_def by (metis not_None_eq)

lemma returned_some_reject: "returned_some (reject i q t db) = returned_some (decidePending i ARejected q t db)"
  by (simp add: returned_some_def reject_result)

lemma decided_blocks: "decided i db \<Longrightarrow> \<not> decides i x db"
proof -
  assume d: "decided i db"
  have "\<not> returned_some (decidePending i s q now db)" for s q now
    using decidePending_some d by (fastforce simp: decided_def)
  then show ?thesis by (cases x) (simp_all add: approve_def cancel_def returned_some_reject)
qed

lemma decided_reject: "decided i (snd (reject j q t db)) = decided i (snd (decidePending j ARejected q t db))"
  by (simp add: decided_def rows_of_def)

lemma decides_spends: "approvals_wf db \<Longrightarrow> decides i x db \<Longrightarrow> decided i (run_approval_op x db)"
  by (cases x) (auto simp: approve_def cancel_def returned_some_reject decided_reject intro: decided_after)

lemma markUsed_some: "returned_some (markUsed i t db) \<Longrightarrow> \<exists>r \<in> rows_of i db. ar_used_at r = None"
  using tbl_count_0 [of "unused i" "db_approvals db"]
  by (auto simp: returned_some_def markUsed_def Let_def rows_of_def unused_def split: if_splits)

lemma used_up_after: "rows_of i db \<noteq> {} \<Longrightarrow> used_up i (snd (markUsed i t db))"
  by (auto simp: used_up_def rows_of_def markUsed_def Let_def tbl_simps unused_def)

lemma used_up_blocks: "used_up i db \<Longrightarrow> \<not> uses i x db"
  using markUsed_some by (cases x) (fastforce simp: used_up_def)+

lemma uses_spends: "uses i x db \<Longrightarrow> used_up i (run_approval_op x db)"
  using markUsed_some used_up_after by (cases x) fastforce+

text \<open>The two one-shot contracts of the store.\<close>

interpretation decision: once run_approval_op approvals_wf "decided i" "decides i" for i
  by unfold_locales (auto intro: decided_step decides_spends dest: decided_blocks)

interpretation execution: once run_approval_op approvals_wf "used_up i" "uses i" for i
  by unfold_locales (auto intro: used_up_step uses_spends dest: used_up_blocks)

section \<open>The memory of rejections\<close>

definition suppressed :: "string \<Rightarrow> string \<Rightarrow> string \<Rightarrow> int \<Rightarrow> approval_db \<Rightarrow> bool" where
  "suppressed a tool h t0 db \<longleftrightarrow> (\<exists>x \<in> set (db_rejections db). same_call a tool h x \<and> t0 \<le> rj_rejected_at x)"

text \<open>Operations whose clock lies in the hour after \<open>t0\<close>.\<close>

fun within_hour :: "int \<Rightarrow> approval_op \<Rightarrow> bool" where
  "within_hour t0 (Reject i q t) = (t0 \<le> t \<and> t \<le> t0 + rejection_suppression_ttl_ms)"
| "within_hour t0 (FindRejection a n h t) = (t \<le> t0 + rejection_suppression_ttl_ms)"
| "within_hour t0 _ = True"

lemma suppressed_prune:
  "suppressed a n h t0 db \<Longrightarrow> t \<le> t0 + rejection_suppression_ttl_ms \<Longrightarrow>
   suppressed a n h t0 (snd (pruneRejections t db))"
  by (fastforce simp: suppressed_def pruneRejections_def tbl_simps)

lemma upsert_keeps:
  assumes "x \<in> set t"
  shows "\<exists>x' \<in> set (upsert_rejection y t). (\<forall>a n h. same_call a n h x' = same_call a n h x) \<and>
    (x' = x \<or> rj_rejected_at x' = rj_rejected_at y) \<and>
    (same_call (rj_agent_id y) (rj_tool_name y) (rj_params_hash y) x \<longrightarrow> rj_rejected_at x' = rj_rejected_at y)"
proof -
  let ?hit = "same_call (rj_agent_id y) (rj_tool_name y) (rj_params_hash y)"
  let ?f = "\<lambda>r. if ?hit r then r\<lparr>rj_rejection_reason := rj_rejection_reason y,
    rj_rejected_at := rj_rejected_at y\<rparr> else r"
  have "?f x \<in> set (upsert_rejection y t)"
  proof (cases "tbl_count ?hit t = 0")
    case True
    then show ?thesis using assms by (auto simp: upsert_rejection_def tbl_count_0)
  next
    case False
    then show ?thesis using assms unfolding upsert_rejection_def Let_def by (auto simp: set_tbl_update)
  qed
  then show ?thesis by (rule bexI [rotated]) (simp add: same_call_def)
qed

lemma suppressed_upsert:
  assumes "\<exists>x \<in> set t. same_call a n h x \<and> t0 \<le> rj_rejected_at x" "t0 \<le> rj_rejected_at y"
  shows "\<exists>x \<in> set (upsert_rejection y t). same_call a n h x \<and> t0 \<le> rj_rejected_at x"
  using assms upsert_keeps [of _ t y] by metis

lemma upsert_in: "\<exists>x \<in> set (upsert_rejection y t).
  same_call (rj_agent_id y) (rj_tool_name y) (rj_params_hash y) x \<and> rj_rejected_at x = rj_rejected_at y"
proof (cases "tbl_count (same_call (rj_agent_id y) (rj_tool_name y) (rj_params_hash y)) t = 0")
  case False
  then obtain x where "x \<in> set t" "same_call (rj_agent_id y) (rj_tool_name y) (rj_params_hash y) x"
    by (auto simp: tbl_simps)
  then show ?thesis using upsert_keeps [of x t y] by metis
qed (auto simp: upsert_rejection_def same_call_def)

lemma suppressed_op:
  assumes "suppressed a n h t0 db" "within_hour t0 x"
  shows "suppressed a n h t0 (run_approval_op x db)"
proof (cases x)
  case (Reject i q t)
  have d: "suppressed a n h t0 (snd (decidePending i ARejected q t db))"
    using assms(1) by (simp add: suppressed_def)
  then have "suppressed a n h t0 (snd (remember_rejection r q t (snd (decidePending i ARejected q t db))))" for r
    using suppressed_upsert Reject assms(2) by (simp add: suppressed_def remember_rejection_def)
  with d Reject assms(2) show ?thesis
    by (auto simp: reject_eq intro: suppressed_prune split: sum.split option.split)
next
  case (FindRejection a' n' h' t)
  then have "run_approval_op x db = snd (pruneRejections t db)"
    by (simp add: findRecentRejection_def bindM_def pruneRejections_def)
  then show ?thesis using FindRejection assms by (simp add: suppressed_prune)
qed (use assms(1) in \<open>simp_all add: suppressed_def createPendingApproval_def Let_def approve_def
  cancel_def markUsed_def\<close>)

interpretation suppression: kept run_approval_op "within_hour t0" "suppressed a n h t0" for a n h t0
  by unfold_locales (rule suppressed_op)

lemma suppressed_found:
  assumes "suppressed a n h t0 db" "t \<le> t0 + rejection_suppression_ttl_ms"
  shows "\<exists>e. fst (findRecentRejection a n h t db) = Inr (Some e)"
proof -
  from assms obtain x where
    "x \<in> set (db_rejections (snd (pruneRejections t db)))" "same_call a n h x" "t - rejection_suppression_ttl_ms \<le> rj_rejected_at x"
    by (fastforce simp: suppressed_def pruneRejections_def tbl_simps)
  then have "tbl_find (\<lambda>r. same_call a n h r \<and> rj_rejected_at r \<ge> t - rejection_suppression_ttl_ms)
      (db_rejections (snd (pruneRejections t db))) \<noteq> None"
    unfolding tbl_find_None by blast
  then show ?thesis by (auto simp: findRecentRejection_def bindM_def pruneRejections_def)
qed

lemma suppressed_after_reject:
  assumes "fst (reject i q t0 db) = Inr (Some r)"
  shows "suppressed (ap_agentId r) (ap_toolName r) (ap_paramsHash r) t0 (snd (reject i q t0 db))"
proof -
  let ?db = "snd (decidePending i ARejected q t0 db)"
  have "suppressed (ap_agentId r) (ap_toolName r) (ap_paramsHash r) t0 (snd (remember_rejection r q t0 ?db))"
    using upsert_in [of "\<lparr>rj_agent_id = ap_agentId r, rj_tool_name = ap_toolName r,
      rj_params_hash = ap_paramsHash r, rj_rejection_reason = q, rj_rejected_at = t0\<rparr>" "db_rejections ?db"]
    by (auto simp: suppressed_def remember_rejection_def)
  from suppressed_prune [OF this, of t0] assms show ?thesis
    by (simp add: reject_eq reject_result rejection_suppression_ttl_ms_def)
qed

section \<open>Properties\<close>

definition example_input :: create_approval_input where
  "example_input =
    \<lparr>ai_principal = \<lparr>pr_agentId = ''a1'', pr_ownerId = ''o1'', pr_groups = [''g''], pr_bearerId = ''b''\<rparr>,
     ai_toolName = ''mail.send'', ai_params = [], ai_paramsHash = ''h'', ai_runId = None,
     ai_stepId = None, ai_taskId = Some ''t1'', ai_now = None, ai_ttlMs = None\<rparr>"

definition example_approvals :: approval_db where
  "example_approvals =
    snd (createPendingApproval ''p1'' 1000 example_input \<lparr>db_approvals = [], db_rejections = []\<rparr>)"

lemmas approval_example_defs =
  example_approvals_def example_input_def createPendingApproval_def new_approval_def
  approval_to_row_def Let_def tbl_simps default_approval_ttl_ms_def

lemma example_approvals_wf: "approvals_wf example_approvals"
  by (simp add: approval_example_defs approvals_wf_def wf_approval_row_def)

text \<open>
  Approvals keep their invariant through every history of operations: ids and task ids stay
  unique, an approval has a decision time exactly when it is no longer pending, the decision
  came before its expiry, and only a rejection carries a reason.
\<close>

theorem approval_history_keeps_wf: "approvals_wf db \<Longrightarrow> approvals_wf (run_approvals ops db)"
  by (rule approval_invariant.run_keeps) simp_all

theorem approval_history_keeps_wf_witness:
  "approvals_wf (run_approvals [Approve ''p1'' 2000, MarkUsed ''p1'' 3000] example_approvals)"
  by (rule approval_history_keeps_wf [OF example_approvals_wf])

text \<open>
  C5. An approval authorises at most one execution: in any history of operations on the store,
  by any number of callers, at most one \<open>markUsed\<close> of an approval succeeds.
\<close>

theorem approval_used_at_most_once:
  "approvals_wf db \<Longrightarrow> count_ops run_approval_op (uses i) ops db \<le> 1"
  by (rule execution.at_most_one)

theorem approval_used_at_most_once_witness:
  "count_ops run_approval_op (uses ''p1'') [Approve ''p1'' 2000, MarkUsed ''p1'' 3000, MarkUsed ''p1'' 3001]
     example_approvals \<le> 1"
  by (rule approval_used_at_most_once [OF example_approvals_wf])

text \<open>
  An approval is decided at most once: of all approvals, rejections and cancellations of it
  in any history, at most one succeeds.
\<close>

theorem approval_decided_at_most_once:
  "approvals_wf db \<Longrightarrow> count_ops run_approval_op (decides i) ops db \<le> 1"
  by (rule decision.at_most_one)

theorem approval_decided_at_most_once_witness:
  "count_ops run_approval_op (decides ''p1'') [Reject ''p1'' None 2000, Approve ''p1'' 2001] example_approvals \<le> 1"
  by (rule approval_decided_at_most_once [OF example_approvals_wf])

lemma decided_row_stays:
  assumes "tbl_find (\<lambda>r. ar_id r = i) (db_approvals db) = Some row" "ar_status row \<noteq> APending"
  shows "\<exists>u. tbl_find (\<lambda>r. ar_id r = i) (db_approvals (run_approvals ops db)) = Some (row\<lparr>ar_used_at := u\<rparr>) \<and>
    (ar_used_at row \<noteq> None \<longrightarrow> u = ar_used_at row)"
  using assms
proof (induction ops arbitrary: db row)
  case Nil
  then show ?case by (intro exI [of _ "ar_used_at row"]) simp
next
  case (Cons x ops)
  from approvals_step_find [OF approvals_step_op Cons.prems(1), of x] obtain row' where
    row': "tbl_find (\<lambda>r. ar_id r = i) (db_approvals (run_approval_op x db)) = Some row'"
    "row' = row \<or> approval_row_step row row'" by blast
  from row'(2) row_step_decided [OF _ Cons.prems(2), of row'] obtain u where
    u: "row' = row\<lparr>ar_used_at := u\<rparr>" by (metis approval_row.surjective approval_row.update_convs(15))
  have "ar_used_at row' = u" by (simp add: u)
  then have keep: "ar_used_at row \<noteq> None \<Longrightarrow> u = ar_used_at row"
    using row'(2) row_step_used [of row row'] by auto
  from Cons.IH [OF row'(1)] Cons.prems(2) u keep show ?case by auto
qed

text \<open>
  A decision is final: whatever runs afterwards, the row of a decided approval keeps every
  column except \<open>used_at\<close>, which is written at most once.
\<close>

theorem approval_decision_is_final:
  assumes "tbl_find (\<lambda>r. ar_id r = i) (db_approvals db) = Some row" "ar_status row \<noteq> APending"
  shows "\<exists>u. tbl_find (\<lambda>r. ar_id r = i) (db_approvals (run_approvals ops db)) = Some (row\<lparr>ar_used_at := u\<rparr>) \<and>
    (ar_used_at row \<noteq> None \<longrightarrow> u = ar_used_at row)"
  by (rule decided_row_stays [OF assms])

theorem approval_decision_is_final_witness:
  "\<exists>row. tbl_find (\<lambda>r. ar_id r = ''p1'') (db_approvals (snd (reject ''p1'' (Some ''no'') 2000 example_approvals))) = Some row \<and>
     (\<exists>u. tbl_find (\<lambda>r. ar_id r = ''p1'') (db_approvals (run_approvals [Approve ''p1'' 3000]
        (snd (reject ''p1'' (Some ''no'') 2000 example_approvals)))) = Some (row\<lparr>ar_used_at := u\<rparr>))"
proof -
  have "\<exists>row. tbl_find (\<lambda>r. ar_id r = ''p1'') (db_approvals (snd (reject ''p1'' (Some ''no'') 2000 example_approvals)))
      = Some row \<and> ar_status row \<noteq> APending"
    by (simp add: reject_db) (simp add: approval_example_defs tbl_update_def decidable_now_def)
  then show ?thesis using approval_decision_is_final by blast
qed

text \<open>
  When a decision takes effect: \<open>approve\<close> succeeds exactly on an approval that is pending
  and has not expired, and then the approval is read back as approved at that time with every
  other column as it was; otherwise it returns nothing and the store is unchanged.
\<close>

theorem approve_effect:
  assumes "approvals_wf db"
  shows "approve i now db =
    (case tbl_find (\<lambda>r. ar_id r = i) (db_approvals db) of
       Some row \<Rightarrow>
         if ar_status row = APending \<and> now < ar_expires_at row
         then (Inr (Some ((rowToApproval row)\<lparr>ap_status := AApproved, ap_rejectionReason := None,
                 ap_decidedAt := Some now\<rparr>)),
               db\<lparr>db_approvals := map (\<lambda>r. if ar_id r = i
                 then r\<lparr>ar_status := AApproved, ar_rejection_reason := None, ar_decided_at := Some now\<rparr> else r)
                 (db_approvals db)\<rparr>)
         else (Inr None, db)
     | None \<Rightarrow> (Inr None, db))"
proof (cases "tbl_find (\<lambda>r. ar_id r = i) (db_approvals db)")
  case None
  then have "\<forall>r \<in> set (db_approvals db). \<not> decidable_now i now r"
    by (auto simp: tbl_find_None decidable_now_def)
  with None show ?thesis
    by (simp add: approve_def decidePending_def Let_def tbl_count_0 tbl_update_none)
next
  case (Some row)
  then have row: "row \<in> set (db_approvals db)" "ar_id row = i" by (auto dest: tbl_find_Some_in)
  have unique: "x = row" if "x \<in> set (db_approvals db)" "ar_id x = i" for x
    using distinct_key_unique [of ar_id "db_approvals db" x row] that row assms
    unfolding approvals_wf_def by metis
  show ?thesis
  proof (cases "ar_status row = APending \<and> now < ar_expires_at row")
    case True
    have "tbl_update (decidable_now i now) (decide_columns AApproved None now) (db_approvals db) =
        map (\<lambda>r. if ar_id r = i then r\<lparr>ar_status := AApproved, ar_rejection_reason := None,
          ar_decided_at := Some now\<rparr> else r) (db_approvals db)"
      unfolding tbl_update_def
      by (rule map_cong) (use unique True in \<open>auto simp: decidable_now_def decide_columns_def\<close>)
    moreover have "tbl_count (decidable_now i now) (db_approvals db) \<noteq> 0"
      using row True unfolding tbl_count_0 by (auto simp: decidable_now_def)
    moreover have "tbl_find (\<lambda>r. ar_id r = i)
        (tbl_update (decidable_now i now) (decide_columns AApproved None now) (db_approvals db)) =
        Some (decide_columns AApproved None now row)"
      using tbl_find_key_update [of ar_id "decide_columns AApproved None now" i] Some True row
      by (simp add: decidable_now_def)
    ultimately show ?thesis using Some True
      by (simp add: approve_def decidePending_def Let_def getApproval_def rowToApproval_def decide_columns_def)
  next
    case False
    then have "\<forall>r \<in> set (db_approvals db). \<not> decidable_now i now r"
      using unique by (auto simp: decidable_now_def)
    with Some False show ?thesis
      by (simp add: approve_def decidePending_def Let_def tbl_count_0 tbl_update_none)
  qed
qed

theorem approve_effect_witness:
  "fst (approve ''p1'' (1000 + default_approval_ttl_ms) example_approvals) = Inr None"
  using approve_effect [OF example_approvals_wf, of "''p1''" "1000 + default_approval_ttl_ms"]
  by (simp add: approval_example_defs)

text \<open>
  A rejected call is suppressed for an hour: for as long as the clock stays within an hour
  of the rejection, whatever else the store is asked to do, the same agent asking for the same
  tool with the same parameters finds the rejection.
\<close>

theorem rejection_suppresses_for_an_hour:
  assumes "fst (reject i q t0 db) = Inr (Some r)" "\<forall>x \<in> set ops. within_hour t0 x"
    and "t \<le> t0 + rejection_suppression_ttl_ms"
  shows "\<exists>e. fst (findRecentRejection (ap_agentId r) (ap_toolName r) (ap_paramsHash r) t
    (run_approvals ops (snd (reject i q t0 db)))) = Inr (Some e)"
  by (rule suppressed_found [OF suppression.run_keeps [OF suppressed_after_reject [OF assms(1)] assms(2)] assms(3)])

theorem rejection_suppresses_for_an_hour_witness:
  "\<exists>e. fst (findRecentRejection ''a1'' ''mail.send'' ''h'' 3000000
     (run_approvals [FindRejection ''a2'' ''x'' ''y'' 2500000] (snd (reject ''p1'' None 2000 example_approvals)))) = Inr (Some e)"
proof -
  have "\<exists>r. fst (reject ''p1'' None 2000 example_approvals) = Inr (Some r) \<and> ap_agentId r = ''a1'' \<and>
      ap_toolName r = ''mail.send'' \<and> ap_paramsHash r = ''h''"
    by (simp add: reject_result approval_example_defs decidePending_def decidable_now_def tbl_update_def
        getApproval_def rowToApproval_def decide_columns_def)
  then obtain r where r: "fst (reject ''p1'' None 2000 example_approvals) = Inr (Some r)" "ap_agentId r = ''a1''"
    "ap_toolName r = ''mail.send''" "ap_paramsHash r = ''h''" by blast
  show ?thesis
    using rejection_suppresses_for_an_hour [OF r(1), of "[FindRejection ''a2'' ''x'' ''y'' 2500000]" 3000000] r(2-4)
    by (simp add: rejection_suppression_ttl_ms_def)
qed

text \<open>
  The listing: at most \<open>limit\<close> (and never more than 200) approvals, newest first, all of
  them of the asked status and, when a non-empty owner is asked for, of that owner; when fewer
  than the bound match, all of them are listed.
\<close>

theorem approval_listing:
  assumes "out = listed_rows status limit ownerId rows"
  shows "length out = min (list_bound limit) (length (filter (list_matches status ownerId) rows)) \<and>
    sorted_wrt (\<lambda>r s. ar_created_at s \<le> ar_created_at r) out \<and>
    set out \<subseteq> {r \<in> set rows. list_matches status ownerId r} \<and>
    (\<forall>r \<in> {r \<in> set rows. list_matches status ownerId r} - set out.
       length out = list_bound limit \<and> (\<forall>s \<in> set out. ar_created_at r \<le> ar_created_at s))"
proof (intro conjI ballI)
  let ?b = "list_bound limit"
  let ?s = "sort_key (\<lambda>r. - ar_created_at r) (filter (list_matches status ownerId) rows)"
  have out: "out = take ?b ?s" by (simp add: assms listed_rows_def)
  have sorted: "sorted_wrt (\<lambda>r s. ar_created_at s \<le> ar_created_at r) (take ?b ?s @ drop ?b ?s)"
    using sorted_sort_key [of "\<lambda>r. - ar_created_at r" "filter (list_matches status ownerId) rows"]
    by (simp add: sorted_wrt_map)
  show "length out = min ?b (length (filter (list_matches status ownerId) rows))" by (simp add: out)
  show "sorted_wrt (\<lambda>r s. ar_created_at s \<le> ar_created_at r) out"
    using sorted unfolding out sorted_wrt_append by blast
  show "set out \<subseteq> {r \<in> set rows. list_matches status ownerId r}"
    unfolding out using set_take_subset [of ?b ?s] by auto
  fix r assume r: "r \<in> {r \<in> set rows. list_matches status ownerId r} - set out"
  then have "r \<in> set (take ?b ?s @ drop ?b ?s)" by simp
  with r have d: "r \<in> set (drop ?b ?s)" unfolding out set_append by blast
  have "?b < length ?s" using d by (metis drop_all empty_iff empty_set leI)
  then show "length out = ?b" by (simp add: out)
  fix s assume "s \<in> set out"
  then show "ar_created_at r \<le> ar_created_at s"
    using sorted d unfolding sorted_wrt_append out by blast
qed

theorem approval_listing_witness:
  "length (listed_rows None (Some 1) None (db_approvals example_approvals)) = 1"
  using conjunct1 [OF approval_listing [OF refl, of None "Some 1" None "db_approvals example_approvals"]]
  by (simp add: approval_example_defs list_bound_def list_matches_def truthy_str_def max_approval_list_limit_def)

end
