(* ===== verification/Namespacing.thy ===== *)
theory Namespacing
  imports Prelude
begin

text \<open>
  Agent-facing tool names \<open>server.tool\<close>: \<^verbatim>\<open>apps/torii/src/catalog/utils/namespacing.ts\<close> (used by
  the catalog and the approval gate) and \<^verbatim>\<open>apps/torii/src/trace/utils/parse-namespaced-tool-name.ts\<close>
  (used by the dispatcher for policy and traces). The first is the regular expression
  \<^verbatim>\<open>/^([^.]+)\.(.+)$/\<close>, in which \<^verbatim>\<open>.\<close> matches no line terminator.
\<close>

definition line_terminator :: "char \<Rightarrow> bool" where
  "line_terminator c \<longleftrightarrow> c = char_of (10 :: nat) \<or> c = char_of (13 :: nat)"

definition namespaceTool :: "string \<Rightarrow> string \<Rightarrow> string" where
  "namespaceTool server bareName = server @ ''.'' @ bareName"

definition parseNamespacedTool :: "string \<Rightarrow> (string \<times> string) option" where
  "parseNamespacedTool s =
    (let server = takeWhile (\<lambda>c. c \<noteq> CHR ''.'') s; rest = dropWhile (\<lambda>c. c \<noteq> CHR ''.'') s in
     if server = [] \<or> rest = [] \<or> tl rest = [] \<or> (\<exists>c \<in> set (tl rest). line_terminator c) then None
     else Some (server, tl rest))"

definition parseNamespacedToolName :: "string \<Rightarrow> string \<times> string" where
  "parseNamespacedToolName s =
    (if CHR ''.'' \<notin> set s then (''unknown'', s)
     else (takeWhile (\<lambda>c. c \<noteq> CHR ''.'') s, tl (dropWhile (\<lambda>c. c \<noteq> CHR ''.'') s)))"

text \<open>A slug is a server name the connector registry admits: not empty and without a dot.\<close>

definition slug :: "string \<Rightarrow> bool" where
  "slug s \<longleftrightarrow> s \<noteq> [] \<and> CHR ''.'' \<notin> set s"

definition one_line :: "string \<Rightarrow> bool" where
  "one_line s \<longleftrightarrow> s \<noteq> [] \<and> (\<forall>c \<in> set s. \<not> line_terminator c)"

lemma split_at_dot:
  assumes "CHR ''.'' \<notin> set a"
  shows "takeWhile (\<lambda>c. c \<noteq> CHR ''.'') (a @ CHR ''.'' # b) = a"
    and "dropWhile (\<lambda>c. c \<noteq> CHR ''.'') (a @ CHR ''.'' # b) = CHR ''.'' # b"
  using assms by (induction a) auto

lemma parse_namespaceTool: "slug server \<Longrightarrow> one_line tool \<Longrightarrow>
  parseNamespacedTool (namespaceTool server tool) = Some (server, tool)"
  by (auto simp: parseNamespacedTool_def namespaceTool_def split_at_dot slug_def one_line_def Let_def)

lemma parseName_namespaceTool: "CHR ''.'' \<notin> set server \<Longrightarrow>
  parseNamespacedToolName (namespaceTool server tool) = (server, tool)"
  by (auto simp: parseNamespacedToolName_def namespaceTool_def split_at_dot)

lemma parse_Some_agree: "parseNamespacedTool s = Some p \<Longrightarrow> parseNamespacedToolName s = p"
  by (auto simp: parseNamespacedTool_def parseNamespacedToolName_def Let_def dropWhile_eq_Nil_conv
      split: if_splits)

lemma parse_Some_eq: "parseNamespacedTool s = Some (server, tool) \<longleftrightarrow>
  slug server \<and> one_line tool \<and> s = namespaceTool server tool"
proof
  assume a: "parseNamespacedTool s = Some (server, tool)"
  let ?w = "\<lambda>c. c \<noteq> CHR ''.''"
  from a have p: "server = takeWhile ?w s" "tool = tl (dropWhile ?w s)" "dropWhile ?w s \<noteq> []"
    "server \<noteq> []" "one_line tool"
    by (auto simp: parseNamespacedTool_def Let_def one_line_def split: if_splits)
  have "hd (dropWhile ?w s) = CHR ''.''" using hd_dropWhile [OF p(3)] by simp
  then have "dropWhile ?w s = CHR ''.'' # tool" using p(2,3) by (metis list.collapse)
  then have "s = server @ CHR ''.'' # tool" using p(1) by (metis takeWhile_dropWhile_id)
  moreover have "CHR ''.'' \<notin> set server" unfolding p(1) by (auto dest: set_takeWhileD)
  ultimately show "slug server \<and> one_line tool \<and> s = namespaceTool server tool"
    using p(4,5) by (simp add: slug_def namespaceTool_def)
qed (simp add: parse_namespaceTool)

section \<open>Properties\<close>

text \<open>
  The two parsers of tool names: a name built from a slug and a one-line tool name is read
  back by both, the catalog's parser accepts exactly the names so built, and whatever it
  accepts the dispatcher's parser reads the same way.
\<close>

theorem tool_name_parsers_agree:
  "(parseNamespacedTool s = Some (server, tool) \<longleftrightarrow>
     slug server \<and> one_line tool \<and> s = namespaceTool server tool) \<and>
   (parseNamespacedTool s = Some (server, tool) \<longrightarrow> parseNamespacedToolName s = (server, tool))"
  using parse_Some_eq parse_Some_agree by blast

theorem tool_name_parsers_agree_witness:
  "parseNamespacedToolName (namespaceTool ''mail'' ''v1.send'') = (''mail'', ''v1.send'')"
proof -
  have "slug ''mail'' \<and> one_line ''v1.send''" by (simp add: slug_def one_line_def line_terminator_def char_of_def)
  with tool_name_parsers_agree [of "namespaceTool ''mail'' ''v1.send''" "''mail''" "''v1.send''"]
  show ?thesis by blast
qed

text \<open>
  The two parsers disagree on a name whose tool part holds a line terminator: the catalog's
  rejects it, the dispatcher's still splits it at the first dot.
\<close>

theorem line_terminator_splits_parsers:
  assumes "slug server" "tool \<noteq> []" "\<exists>c \<in> set tool. line_terminator c"
  shows "parseNamespacedTool (namespaceTool server tool) = None \<and>
    parseNamespacedToolName (namespaceTool server tool) = (server, tool)"
proof -
  have "parseNamespacedTool (namespaceTool server tool) \<noteq> Some p" for p
    using assms parse_Some_agree [of "namespaceTool server tool" p] parseName_namespaceTool [of server tool]
      parse_Some_eq [of "namespaceTool server tool"] by (cases p) (auto simp: slug_def one_line_def)
  then have "parseNamespacedTool (namespaceTool server tool) = None" by (metis not_None_eq)
  then show ?thesis using assms(1) parseName_namespaceTool by (simp add: slug_def)
qed

theorem line_terminator_splits_parsers_witness:
  "parseNamespacedTool (namespaceTool ''mail'' (''send'' @ [char_of (10 :: nat)])) = None"
proof -
  have "slug ''mail''" "''send'' @ [char_of (10 :: nat)] \<noteq> []"
    "\<exists>c \<in> set (''send'' @ [char_of (10 :: nat)]). line_terminator c"
    by (simp_all add: slug_def line_terminator_def)
  from line_terminator_splits_parsers [OF this] show ?thesis by blast
qed

end
