(* ===== verification/GroupPolicy.thy ===== *)
theory GroupPolicy
  imports Namespacing ToriiTypes
begin

text \<open>
  Group policies: the types of \<^verbatim>\<open>apps/torii/src/policy/types/group-policy.ts\<close>, the evaluation of
  \<^verbatim>\<open>policy/utils/evaluate-policy.ts\<close>, the validation of \<^verbatim>\<open>policy/utils/assert-valid-group-servers.ts\<close>,
  the builder of \<^verbatim>\<open>policy/utils/build-group-policies.ts\<close> and the service
  \<^verbatim>\<open>policy/policy-enforcement.service.ts\<close>, whose log lines are part of its result.
\<close>

section \<open>Types\<close>

datatype policy_effect = Allow | Deny

record group_server_policy =
  gp_server :: string
  gp_default :: policy_effect
  gp_allow :: "string list"
  gp_deny :: "string list"
  gp_gated :: "string list"

record group_policy_snapshot =
  gs_name :: string
  gs_servers :: "group_server_policy list"

record group_policy = group_policy_snapshot +
  g_id :: string
  g_description :: string
  g_createdAt :: int
  g_updatedAt :: int
  g_ownerId :: "string option"

record policy_evaluation =
  pe_decision :: policy_decision
  pe_reason :: "string option"

section \<open>Evaluation\<close>

definition serverPolicyFor ::
    "'a group_policy_snapshot_scheme \<Rightarrow> string \<Rightarrow> group_server_policy option" where
  "serverPolicyFor g server = find (\<lambda>policy. gp_server policy = server) (gs_servers g)"

datatype ballot = Abstain | Vote policy_effect

definition vote :: "group_server_policy option \<Rightarrow> string \<Rightarrow> ballot" where
  "vote policy tool =
    (case policy of
       None \<Rightarrow> Abstain
     | Some p \<Rightarrow>
         if tool \<in> set (gp_deny p) then Vote Deny
         else if tool \<in> set (gp_allow p) then Vote Allow
         else Vote (gp_default p))"

definition groupGrantsTool :: "'a group_policy_snapshot_scheme \<Rightarrow> string \<Rightarrow> string \<Rightarrow> bool" where
  "groupGrantsTool g server tool \<longleftrightarrow> vote (serverPolicyFor g server) tool = Vote Allow"

text \<open>\<open>new Map(groups.map((group) => [group.name, group]))\<close>.\<close>

definition definitions_of ::
    "'a group_policy_snapshot_scheme list \<Rightarrow> (string \<times> 'a group_policy_snapshot_scheme) list" where
  "definitions_of groups = map_of_entries (map (\<lambda>g. (gs_name g, g)) groups)"

text \<open>The loop over the principal's groups; the state is \<open>(anyDeny, anyAllow)\<close>.\<close>

fun tally ::
    "(string \<times> 'a group_policy_snapshot_scheme) list \<Rightarrow> string \<Rightarrow> string \<Rightarrow> string list \<Rightarrow>
     bool \<times> bool \<Rightarrow> bool \<times> bool" where
  "tally defs server tool [] acc = acc"
| "tally defs server tool (name # names) (anyDeny, anyAllow) =
    (case map_of defs name of
       None \<Rightarrow> tally defs server tool names (anyDeny, anyAllow)
     | Some definition1 \<Rightarrow>
         (case vote (serverPolicyFor definition1 server) tool of
            Vote Deny \<Rightarrow> tally defs server tool names (True, anyAllow)
          | Vote Allow \<Rightarrow> tally defs server tool names (anyDeny, True)
          | Abstain \<Rightarrow> tally defs server tool names (anyDeny, anyAllow)))"

definition evaluatePolicy ::
    "agent_principal option \<Rightarrow> 'a group_policy_snapshot_scheme list \<Rightarrow> string \<Rightarrow> string \<Rightarrow> policy_evaluation" where
  "evaluatePolicy prin groups server tool =
    (let defs = definitions_of groups;
         principalGroups = (case prin of Some p \<Rightarrow> pr_groups p | None \<Rightarrow> []);
         unknownGroups = filter (\<lambda>name. name \<notin> fst ` set defs) principalGroups
     in if unknownGroups \<noteq> []
        then \<lparr>pe_decision = Denied, pe_reason = Some (''unknown_group: '' @ join '','' unknownGroups)\<rparr>
        else (case tally defs server tool principalGroups (False, False) of
            (anyDeny, anyAllow) \<Rightarrow>
              if anyDeny then \<lparr>pe_decision = Denied, pe_reason = Some ''policy denied''\<rparr>
              else if anyAllow then \<lparr>pe_decision = Allowed, pe_reason = None\<rparr>
              else \<lparr>pe_decision = Denied, pe_reason = Some ''policy denied''\<rparr>))"

definition isToolGrantedByAnyGroup ::
    "'a group_policy_snapshot_scheme list \<Rightarrow> string \<Rightarrow> string \<Rightarrow> bool" where
  "isToolGrantedByAnyGroup groups server tool \<longleftrightarrow> (\<exists>g \<in> set groups. groupGrantsTool g server tool)"

definition isGatedToolForGroups ::
    "agent_principal option \<Rightarrow> 'a group_policy_snapshot_scheme list \<Rightarrow> string \<Rightarrow> string \<Rightarrow> bool" where
  "isGatedToolForGroups prin groups server tool =
    (case prin of
       None \<Rightarrow> False
     | Some p \<Rightarrow>
         (let defs = definitions_of groups in
          \<exists>name \<in> set (pr_groups p).
            (case map_of defs name of
               None \<Rightarrow> False
             | Some d \<Rightarrow>
                 (case serverPolicyFor d server of
                    None \<Rightarrow> False
                  | Some policy \<Rightarrow> tool \<in> set (gp_gated policy)))))"

section \<open>Validation\<close>

fun duplicates_of :: "string list \<Rightarrow> string list \<Rightarrow> string list" where
  "duplicates_of seen [] = []"
| "duplicates_of seen (t # ts) = (if t \<in> set seen then [t] else []) @ duplicates_of (t # seen) ts"

definition duplicateToolsInList :: "string list \<Rightarrow> string \<Rightarrow> string \<Rightarrow> string list" where
  "duplicateToolsInList tools lst server =
    map (\<lambda>tool. ''duplicate tool \"'' @ tool @ ''\" in '' @ lst @ '' on server \"'' @ server @ ''\"'')
      (duplicates_of [] tools)"

definition overlap_message :: "string \<Rightarrow> string \<Rightarrow> string \<Rightarrow> string" where
  "overlap_message server tool lsts =
    ''overlapping tool lists on server \"'' @ server @ ''\": \"'' @ tool @ ''\" is in '' @ lsts"

definition overlappingTools :: "group_server_policy \<Rightarrow> string list" where
  "overlappingTools p =
    map (\<lambda>tool. overlap_message (gp_server p) tool ''allow and deny'')
      (filter (\<lambda>tool. tool \<in> set (gp_deny p)) (set_of (gp_allow p))) @
    map (\<lambda>tool. overlap_message (gp_server p) tool ''deny and gated'')
      (filter (\<lambda>tool. tool \<in> set (gp_gated p)) (set_of (gp_deny p)))"

fun server_errors :: "string list \<Rightarrow> string list \<Rightarrow> group_server_policy list \<Rightarrow> string list" where
  "server_errors knownServers seen [] = []"
| "server_errors knownServers seen (p # ps) =
    (if gp_server p \<in> set seen then [''duplicate server \"'' @ gp_server p @ ''\"''] else []) @
    (if gp_server p \<notin> set knownServers then [''unknown server \"'' @ gp_server p @ ''\"''] else []) @
    duplicateToolsInList (gp_allow p) ''allow'' (gp_server p) @
    duplicateToolsInList (gp_deny p) ''deny'' (gp_server p) @
    duplicateToolsInList (gp_gated p) ''gated'' (gp_server p) @
    overlappingTools p @
    server_errors knownServers (gp_server p # seen) ps"

definition assertValidGroupServers :: "group_server_policy list \<Rightarrow> string list \<Rightarrow> exn + unit" where
  "assertValidGroupServers servers knownServers =
    (let errors = server_errors knownServers [] servers in
     if errors \<noteq> [] then Inl (GroupPolicyWriteError (join ''; '' errors) 400) else Inr ())"

section \<open>Enforcement\<close>

datatype policy_log =
    UnknownGroup string string string "string option"
  | UnknownTool string string

text \<open>\<open>s.split(sep)\<close> on a one-character separator.\<close>

fun split_char :: "char \<Rightarrow> string \<Rightarrow> string list" where
  "split_char sep [] = [[]]"
| "split_char sep (c # cs) =
    (if c = sep then [] # split_char sep cs
     else (case split_char sep cs of p # ps \<Rightarrow> (c # p) # ps | [] \<Rightarrow> [[c]]))"

definition evaluate ::
    "'a group_policy_snapshot_scheme list \<Rightarrow> agent_principal option \<Rightarrow> string \<Rightarrow> string \<Rightarrow>
     policy_evaluation \<times> policy_log list" where
  "evaluate groups prin server tool =
    (let evaluation = evaluatePolicy prin groups server tool;
         reason = or_else (pe_reason evaluation) [] in
     (evaluation,
      if pe_decision evaluation = Denied \<and> take 14 reason = ''unknown_group:''
      then map (\<lambda>g. UnknownGroup g server tool (map_option pr_agentId prin))
             (filter (\<lambda>g. g \<noteq> []) (split_char CHR '','' (trim (drop 14 reason))))
      else []))"

definition isConfiguredGrant :: "'a group_policy_snapshot_scheme list \<Rightarrow> string \<Rightarrow> string \<Rightarrow> bool" where
  "isConfiguredGrant groups server tool = isToolGrantedByAnyGroup groups server tool"

definition warnUnknownPolicyTools ::
    "'a group_policy_snapshot_scheme list \<Rightarrow> string \<Rightarrow> string list \<Rightarrow> policy_log list" where
  "warnUnknownPolicyTools groups server backendToolNames =
    (let configured = set_of (concat (map (\<lambda>p. gp_allow p @ gp_deny p @ gp_gated p)
           (filter (\<lambda>p. gp_server p = server) (concat (map gs_servers groups))))) in
     map (\<lambda>tool. UnknownTool server tool) (filter (\<lambda>t. t \<notin> set backendToolNames) configured))"

section \<open>The builder\<close>

record group_permission_config =
  pc_server :: string
  pc_tools :: "string list"

record group_definition_config =
  gd_name :: string
  gd_description :: string
  gd_permissions :: "group_permission_config list"

definition agents_group_name :: string where
  "agents_group_name = ''agents''"

definition groupDefinitionToPolicy :: "string \<Rightarrow> int \<Rightarrow> group_definition_config \<Rightarrow> group_policy" where
  "groupDefinitionToPolicy uuid now g =
    \<lparr>gs_name = gd_name g,
     gs_servers = map (\<lambda>perm. \<lparr>gp_server = pc_server perm, gp_default = Deny,
       gp_allow = pc_tools perm, gp_deny = [], gp_gated = []\<rparr>) (gd_permissions g),
     g_id = uuid, g_description = gd_description g, g_createdAt = now, g_updatedAt = now,
     g_ownerId = None\<rparr>"

text \<open>Attaching a gated tool to the policies of a group; a missing server policy is appended.\<close>

fun attachGatedTool :: "string \<Rightarrow> string \<Rightarrow> group_server_policy list \<Rightarrow> group_server_policy list" where
  "attachGatedTool server tool [] =
    [\<lparr>gp_server = server, gp_default = Deny, gp_allow = [], gp_deny = [], gp_gated = [tool]\<rparr>]"
| "attachGatedTool server tool (p # ps) =
    (if gp_server p = server then p\<lparr>gp_gated := set_add tool (gp_gated p)\<rparr> # ps
     else p # attachGatedTool server tool ps)"

definition ensureAgentsGroup ::
    "string \<Rightarrow> int \<Rightarrow> (string \<times> group_policy) list \<Rightarrow> (string \<times> group_policy) list" where
  "ensureAgentsGroup uuid now groups =
    (if agents_group_name \<in> fst ` set groups then groups
     else map_put agents_group_name
       \<lparr>gs_name = agents_group_name, gs_servers = [], g_id = uuid, g_description = [],
        g_createdAt = now, g_updatedAt = now, g_ownerId = None\<rparr> groups)"

definition attach_to_agents ::
    "string \<Rightarrow> int \<Rightarrow> string \<Rightarrow> (string \<times> group_policy) list \<Rightarrow> (string \<times> group_policy) list" where
  "attach_to_agents uuid now namespaced groups =
    (case parseNamespacedTool namespaced of
       None \<Rightarrow> groups
     | Some (server, bareName) \<Rightarrow>
         map (\<lambda>(k, g). if k = agents_group_name
               then (k, g\<lparr>gs_servers := attachGatedTool server bareName (gs_servers g)\<rparr>) else (k, g))
           (ensureAgentsGroup uuid now groups))"

text \<open>
  \<open>uuids\<close> supplies the ids of the configured groups and \<open>uuid\<close> that of the agents group when
  it is created; the values of \<open>gatedTools\<close> come in key order.
\<close>

definition buildGroupPolicies ::
    "string list \<Rightarrow> string \<Rightarrow> int \<Rightarrow> group_definition_config list \<Rightarrow> string list list \<Rightarrow> group_policy list" where
  "buildGroupPolicies uuids uuid now groups gatedTools =
    map snd (fold (attach_to_agents uuid now) (concat gatedTools)
      (map_of_entries (map (\<lambda>(u, g). (gd_name g, groupDefinitionToPolicy u now g)) (zip uuids groups))))"

section \<open>What evaluation decides\<close>

text \<open>
  The reference: \<open>member groups p\<close> are the definitions the principal belongs to; a policy
  grants a tool that its deny list leaves out and its allow list or its default lets in.
\<close>

definition policy_grants :: "group_server_policy \<Rightarrow> string \<Rightarrow> bool" where
  "policy_grants p tool \<longleftrightarrow> tool \<notin> set (gp_deny p) \<and> (tool \<in> set (gp_allow p) \<or> gp_default p = Allow)"

definition policy_denies :: "group_server_policy \<Rightarrow> string \<Rightarrow> bool" where
  "policy_denies p tool \<longleftrightarrow> tool \<in> set (gp_deny p) \<or> (tool \<notin> set (gp_allow p) \<and> gp_default p = Deny)"

definition member_policies ::
    "'a group_policy_snapshot_scheme list \<Rightarrow> string list \<Rightarrow> string \<Rightarrow> group_server_policy set" where
  "member_policies groups names server =
    {p. \<exists>g \<in> set groups. gs_name g \<in> set names \<and> p \<in> set (gs_servers g) \<and> gp_server p = server}"

text \<open>What the tables behind the cache guarantee: unique names, one policy per server.\<close>

definition groups_wf :: "'a group_policy_snapshot_scheme list \<Rightarrow> bool" where
  "groups_wf groups \<longleftrightarrow> distinct (map gs_name groups) \<and>
     (\<forall>g \<in> set groups. distinct (map gp_server (gs_servers g)))"

lemma vote_Allow: "vote (Some p) tool = Vote Allow \<longleftrightarrow> policy_grants p tool"
  by (simp add: vote_def policy_grants_def)

lemma vote_Deny: "vote (Some p) tool = Vote Deny \<longleftrightarrow> policy_denies p tool"
  by (simp add: vote_def policy_denies_def)

lemma grants_or_denies: "policy_denies p tool \<longleftrightarrow> \<not> policy_grants p tool"
  by (cases "gp_default p") (auto simp: policy_denies_def policy_grants_def)

lemma lookup_definitions: "distinct (map gs_name groups) \<Longrightarrow>
  map_of (definitions_of groups) n = Some g \<longleftrightarrow> g \<in> set groups \<and> gs_name g = n"
  unfolding definitions_of_def map_of_entries_lookup
  by (subst map_of_eq_Some_iff) (auto simp: rev_map comp_def distinct_map inj_on_def)

lemma lookup_definitions_None: "map_of (definitions_of groups) n = None \<longleftrightarrow> n \<notin> gs_name ` set groups"
  unfolding definitions_of_def map_of_entries_lookup map_of_eq_None_iff by force

lemma keys_definitions: "fst ` set (definitions_of groups) = gs_name ` set groups"
proof -
  have "n \<in> fst ` set (definitions_of groups) \<longleftrightarrow> n \<in> gs_name ` set groups" for n
    using lookup_definitions_None [of groups n] map_of_eq_None_iff [of "definitions_of groups" n] by metis
  then show ?thesis by blast
qed

lemma serverPolicyFor_Some:
  assumes "distinct (map gp_server (gs_servers g))"
  shows "serverPolicyFor g server = Some p \<longleftrightarrow> p \<in> set (gs_servers g) \<and> gp_server p = server"
proof -
  have "serverPolicyFor g server = tbl_find (\<lambda>r. gp_server r = server) (gs_servers g)"
    by (simp add: serverPolicyFor_def tbl_find_def)
  then show ?thesis using tbl_find_key_in [OF assms, of p] by (auto dest: tbl_find_Some_in)
qed

lemma tally_spec:
  "tally defs server tool names (d, a) =
    (d \<or> (\<exists>n \<in> set names. \<exists>g. map_of defs n = Some g \<and> vote (serverPolicyFor g server) tool = Vote Deny),
     a \<or> (\<exists>n \<in> set names. \<exists>g. map_of defs n = Some g \<and> vote (serverPolicyFor g server) tool = Vote Allow))"
  by (induction defs server tool names "(d, a)" arbitrary: d a rule: tally.induct)
    (auto split: option.splits ballot.splits policy_effect.splits)

lemma votes_of_members:
  assumes "groups_wf groups"
  shows "(\<exists>n \<in> set names. \<exists>g. map_of (definitions_of groups) n = Some g \<and>
      vote (serverPolicyFor g server) tool = Vote e) \<longleftrightarrow>
    (\<exists>p \<in> member_policies groups names server. vote (Some p) tool = Vote e)"
proof
  assume "\<exists>n \<in> set names. \<exists>g. map_of (definitions_of groups) n = Some g \<and>
    vote (serverPolicyFor g server) tool = Vote e"
  then obtain g where g: "g \<in> set groups" "gs_name g \<in> set names" "vote (serverPolicyFor g server) tool = Vote e"
    using assms by (auto simp: groups_wf_def lookup_definitions)
  then obtain p where "serverPolicyFor g server = Some p" by (cases "serverPolicyFor g server") (auto simp: vote_def)
  with g assms show "\<exists>p \<in> member_policies groups names server. vote (Some p) tool = Vote e"
    by (intro bexI [of _ p]) (auto simp: member_policies_def groups_wf_def serverPolicyFor_Some)
next
  assume "\<exists>p \<in> member_policies groups names server. vote (Some p) tool = Vote e"
  then obtain g p where g: "g \<in> set groups" "gs_name g \<in> set names" "p \<in> set (gs_servers g)" "gp_server p = server"
    "vote (Some p) tool = Vote e" by (auto simp: member_policies_def)
  then have "serverPolicyFor g server = Some p" using assms by (simp add: groups_wf_def serverPolicyFor_Some)
  with g assms have "map_of (definitions_of groups) (gs_name g) = Some g \<and>
    vote (serverPolicyFor g server) tool = Vote e" by (simp add: groups_wf_def lookup_definitions)
  with g(2) show "\<exists>n \<in> set names. \<exists>g. map_of (definitions_of groups) n = Some g \<and>
    vote (serverPolicyFor g server) tool = Vote e" by blast
qed

lemma evaluatePolicy_Allowed:
  assumes "groups_wf groups"
  shows "pe_decision (evaluatePolicy (Some pr) groups server tool) = Allowed \<longleftrightarrow>
    set (pr_groups pr) \<subseteq> gs_name ` set groups \<and>
    (\<exists>p \<in> member_policies groups (pr_groups pr) server. policy_grants p tool) \<and>
    (\<forall>p \<in> member_policies groups (pr_groups pr) server. \<not> policy_denies p tool)"
  using votes_of_members [OF assms, of "pr_groups pr" server tool]
  by (auto simp: evaluatePolicy_def Let_def tally_spec keys_definitions filter_empty_conv vote_Allow
      vote_Deny grants_or_denies)

lemma evaluatePolicy_None: "pe_decision (evaluatePolicy None groups server tool) = Denied"
  by (simp add: evaluatePolicy_def Let_def)

lemma isGated_iff:
  assumes "groups_wf groups"
  shows "isGatedToolForGroups (Some pr) groups server tool \<longleftrightarrow>
    (\<exists>p \<in> member_policies groups (pr_groups pr) server. tool \<in> set (gp_gated p))"
proof
  assume "isGatedToolForGroups (Some pr) groups server tool"
  then obtain n g p where "n \<in> set (pr_groups pr)" "map_of (definitions_of groups) n = Some g"
    "serverPolicyFor g server = Some p" "tool \<in> set (gp_gated p)"
    by (auto simp: isGatedToolForGroups_def split: option.splits)
  with assms show "\<exists>p \<in> member_policies groups (pr_groups pr) server. tool \<in> set (gp_gated p)"
    by (intro bexI [of _ p]) (auto simp: member_policies_def groups_wf_def lookup_definitions serverPolicyFor_Some)
next
  assume "\<exists>p \<in> member_policies groups (pr_groups pr) server. tool \<in> set (gp_gated p)"
  then obtain g p where g: "g \<in> set groups" "gs_name g \<in> set (pr_groups pr)" "p \<in> set (gs_servers g)"
    "gp_server p = server" "tool \<in> set (gp_gated p)" by (auto simp: member_policies_def)
  with assms have "map_of (definitions_of groups) (gs_name g) = Some g" "serverPolicyFor g server = Some p"
    by (simp_all add: groups_wf_def lookup_definitions serverPolicyFor_Some)
  with g(2,5) show "isGatedToolForGroups (Some pr) groups server tool"
    unfolding isGatedToolForGroups_def Let_def option.case by (intro bexI [of _ "gs_name g"]) simp_all
qed

section \<open>What validation accepts\<close>

definition valid_policy :: "group_server_policy \<Rightarrow> bool" where
  "valid_policy p \<longleftrightarrow> distinct (gp_allow p) \<and> distinct (gp_deny p) \<and> distinct (gp_gated p) \<and>
     set (gp_allow p) \<inter> set (gp_deny p) = {} \<and> set (gp_deny p) \<inter> set (gp_gated p) = {}"

lemma duplicates_of_Nil: "duplicates_of seen ts = [] \<longleftrightarrow> distinct ts \<and> set ts \<inter> set seen = {}"
  by (induction seen ts rule: duplicates_of.induct) auto

lemma overlappingTools_Nil: "overlappingTools p = [] \<longleftrightarrow>
  set (gp_allow p) \<inter> set (gp_deny p) = {} \<and> set (gp_deny p) \<inter> set (gp_gated p) = {}"
  by (auto simp: overlappingTools_def filter_empty_conv js_simps)

lemma server_errors_Nil: "server_errors known seen ps = [] \<longleftrightarrow>
  distinct (map gp_server ps) \<and> gp_server ` set ps \<inter> set seen = {} \<and>
  gp_server ` set ps \<subseteq> set known \<and> (\<forall>p \<in> set ps. valid_policy p)"
  by (induction known seen ps rule: server_errors.induct)
    (auto simp: duplicateToolsInList_def duplicates_of_Nil overlappingTools_Nil valid_policy_def)

lemma valid_servers: "assertValidGroupServers servers known = Inr () \<longleftrightarrow>
  distinct (map gp_server servers) \<and> gp_server ` set servers \<subseteq> set known \<and> (\<forall>p \<in> set servers. valid_policy p)"
  by (simp add: assertValidGroupServers_def Let_def server_errors_Nil)

lemma evaluation_cong:
  assumes "set (map gs_name groups) = set (map gs_name groups')"
    and "groups_wf groups" "groups_wf groups'" "set groups = set groups'" "set (pr_groups p) = set (pr_groups p')"
  shows "pe_decision (evaluatePolicy (Some p) groups server tool) =
    pe_decision (evaluatePolicy (Some p') groups' server tool)"
proof -
  have "member_policies groups (pr_groups p) server = member_policies groups' (pr_groups p') server"
    using assms(4,5) by (simp add: member_policies_def)
  then have "pe_decision (evaluatePolicy (Some p) groups server tool) = Allowed \<longleftrightarrow>
      pe_decision (evaluatePolicy (Some p') groups' server tool) = Allowed"
    using assms by (simp add: evaluatePolicy_Allowed)
  then show ?thesis by (metis policy_decision.exhaust)
qed

section \<open>Properties\<close>

definition example_policy :: "string \<Rightarrow> string list \<Rightarrow> string list \<Rightarrow> group_server_policy" where
  "example_policy server allow deny =
    \<lparr>gp_server = server, gp_default = Deny, gp_allow = allow, gp_deny = deny, gp_gated = allow\<rparr>"

definition example_groups :: "group_policy_snapshot list" where
  "example_groups =
    [\<lparr>gs_name = ''g1'', gs_servers = [example_policy ''mail'' [''send''] []]\<rparr>,
     \<lparr>gs_name = ''g2'', gs_servers = [example_policy ''mail'' [] [''send'']]\<rparr>]"

definition example_agent :: "string list \<Rightarrow> agent_principal" where
  "example_agent gs = \<lparr>pr_agentId = ''a1'', pr_ownerId = ''o1'', pr_groups = gs, pr_bearerId = ''b''\<rparr>"

lemma example_groups_wf: "groups_wf example_groups"
  by (simp add: groups_wf_def example_groups_def)

text \<open>
  C3. Policy evaluation: a call is allowed exactly when every group of the principal is
  defined, some membership group with a policy for the server grants the tool, and no such
  group denies it; a call without a principal is denied.
\<close>

theorem evaluation_decides:
  assumes "groups_wf groups"
  shows "(pe_decision (evaluatePolicy (Some pr) groups server tool) = Allowed \<longleftrightarrow>
      set (pr_groups pr) \<subseteq> gs_name ` set groups \<and>
      (\<exists>p \<in> member_policies groups (pr_groups pr) server. policy_grants p tool) \<and>
      (\<forall>p \<in> member_policies groups (pr_groups pr) server. \<not> policy_denies p tool)) \<and>
    pe_decision (evaluatePolicy None groups server tool) = Denied"
  using evaluatePolicy_Allowed [OF assms] evaluatePolicy_None by blast

theorem evaluation_decides_witness:
  "pe_decision (evaluatePolicy (Some (example_agent [''g1''])) example_groups ''mail'' ''send'') = Allowed \<and>
   pe_decision (evaluatePolicy (Some (example_agent [''g1'', ''g2''])) example_groups ''mail'' ''send'') \<noteq> Allowed"
proof -
  have m: "member_policies example_groups (pr_groups (example_agent [''g1''])) ''mail'' =
      {example_policy ''mail'' [''send''] []}"
    "member_policies example_groups (pr_groups (example_agent [''g1'', ''g2''])) ''mail'' =
      {example_policy ''mail'' [''send''] [], example_policy ''mail'' [] [''send'']}"
    by (auto simp: member_policies_def example_groups_def example_policy_def example_agent_def)
  have names: "gs_name ` set example_groups = {''g1'', ''g2''}"
    "pr_groups (example_agent gs) = gs" for gs
    by (simp_all add: example_groups_def example_agent_def)
  have p: "policy_grants (example_policy ''mail'' [''send''] []) ''send''"
    "\<not> policy_denies (example_policy ''mail'' [''send''] []) ''send''"
    "policy_denies (example_policy ''mail'' [] [''send'']) ''send''"
    by (simp_all add: policy_grants_def policy_denies_def example_policy_def)
  have "pe_decision (evaluatePolicy (Some (example_agent [''g1''])) example_groups ''mail'' ''send'') = Allowed"
    by (rule iffD2 [OF conjunct1 [OF evaluation_decides [OF example_groups_wf]]])
      (simp add: m names(1) p, simp add: names(2))
  moreover have "pe_decision (evaluatePolicy (Some (example_agent [''g1'', ''g2''])) example_groups ''mail'' ''send'') \<noteq> Allowed"
    unfolding conjunct1 [OF evaluation_decides [OF example_groups_wf]] m by (simp add: p)
  ultimately show ?thesis by blast
qed

text \<open>
  Evaluation depends only on which groups are defined and which the principal is in: neither
  the order nor repetitions in either list change the decision.
\<close>

theorem evaluation_ignores_order:
  assumes "groups_wf groups" "groups_wf groups'" "set groups = set groups'"
    and "set (pr_groups p) = set (pr_groups p')"
  shows "pe_decision (evaluatePolicy (Some p) groups server tool) =
    pe_decision (evaluatePolicy (Some p') groups' server tool)"
  by (rule evaluation_cong) (use assms in simp_all)

theorem evaluation_ignores_order_witness:
  "pe_decision (evaluatePolicy (Some (example_agent [''g1'', ''g2''])) example_groups ''mail'' ''send'') =
   pe_decision (evaluatePolicy (Some (example_agent [''g2'', ''g1'', ''g2''])) (rev example_groups) ''mail'' ''send'')"
proof -
  have "groups_wf (rev example_groups)" by (simp add: groups_wf_def example_groups_def)
  then show ?thesis
    by (rule evaluation_ignores_order [OF example_groups_wf]) (auto simp: example_agent_def)
qed

text \<open>
  Validation of a write accepts exactly the lists of policies with one known server each,
  without repeated tools, and with no tool both allowed and denied or both denied and gated.
\<close>

theorem validation_accepts:
  "assertValidGroupServers servers known = Inr () \<longleftrightarrow>
     distinct (map gp_server servers) \<and> gp_server ` set servers \<subseteq> set known \<and>
     list_all (\<lambda>p. distinct (gp_allow p) \<and> distinct (gp_deny p) \<and> distinct (gp_gated p) \<and>
       set (gp_allow p) \<inter> set (gp_deny p) = {} \<and> set (gp_deny p) \<inter> set (gp_gated p) = {}) servers"
  by (simp add: valid_servers list_all_iff valid_policy_def)

end
