(* ===== verification/GroupRepository.thy ===== *)
theory GroupRepository
  imports GroupPolicy Histories
begin

text \<open>
  Where group policies live and how they are changed: the tables \<^verbatim>\<open>groups\<close> and
  \<^verbatim>\<open>group_server_policies\<close> behind \<^verbatim>\<open>apps/torii/src/policy/pg-group-policy-repository.service.ts\<close>,
  the in-memory cache of \<^verbatim>\<open>policy/group-policy-cache.service.ts\<close>, which evaluation reads, and
  the writes of \<^verbatim>\<open>policy/group-policy-management.service.ts\<close>, which refresh it. \<open>ORDER BY\<close> on
  text compares character codes (the \<open>C\<close> collation).
\<close>

section \<open>Tables\<close>

record group_row =
  gr_id :: string
  gr_name :: string
  gr_description :: string
  gr_owner_id :: "string option"
  gr_created_at :: int
  gr_updated_at :: int

record server_policy_row =
  sp_group_id :: string
  sp_server :: string
  sp_default_effect :: policy_effect
  sp_allow_tools :: "string list"
  sp_deny_tools :: "string list"
  sp_gated_tools :: "string list"

record group_db =
  gd_groups :: "group_row list"
  gd_policies :: "server_policy_row list"

type_synonym 'a group_comp = "(group_db, exn, 'a) comp"

definition rowToServerPolicy :: "server_policy_row \<Rightarrow> group_server_policy" where
  "rowToServerPolicy r =
    \<lparr>gp_server = sp_server r, gp_default = sp_default_effect r, gp_allow = sp_allow_tools r,
     gp_deny = sp_deny_tools r, gp_gated = sp_gated_tools r\<rparr>"

definition rowToGroup :: "group_row \<Rightarrow> group_server_policy list \<Rightarrow> group_policy" where
  "rowToGroup r servers =
    \<lparr>gs_name = gr_name r, gs_servers = servers, g_id = gr_id r, g_description = gr_description r,
     g_createdAt = gr_created_at r, g_updatedAt = gr_updated_at r, g_ownerId = gr_owner_id r\<rparr>"

definition policy_row :: "string \<Rightarrow> group_server_policy \<Rightarrow> server_policy_row" where
  "policy_row groupId p =
    \<lparr>sp_group_id = groupId, sp_server = gp_server p, sp_default_effect = gp_default p,
     sp_allow_tools = gp_allow p, sp_deny_tools = gp_deny p, sp_gated_tools = gp_gated p\<rparr>"

text \<open>One \<open>INSERT\<close> per policy, under the primary key and the foreign key of the table.\<close>

fun insertServerPolicies :: "string \<Rightarrow> group_server_policy list \<Rightarrow> unit group_comp" where
  "insertServerPolicies groupId [] db = (Inr (), db)"
| "insertServerPolicies groupId (p # ps) db =
    (if tbl_find (\<lambda>r. sp_group_id r = groupId \<and> sp_server r = gp_server p) (gd_policies db) \<noteq> None
     then (Inl (PgUnique ''group_server_policies_pkey''), db)
     else if tbl_find (\<lambda>r. gr_id r = groupId) (gd_groups db) = None
     then (Inl (PgForeignKey ''group_server_policies_group_id_fkey''), db)
     else insertServerPolicies groupId ps (db\<lparr>gd_policies := gd_policies db @ [policy_row groupId p]\<rparr>))"

section \<open>The repository\<close>

definition push_policy ::
    "server_policy_row \<Rightarrow> (string \<times> group_server_policy list) list \<Rightarrow>
     (string \<times> group_server_policy list) list" where
  "push_policy r m =
    map_put (sp_group_id r) (or_else (map_of m (sp_group_id r)) [] @ [rowToServerPolicy r]) m"

definition loadServersByGroupId ::
    "string list \<Rightarrow> group_db \<Rightarrow> (string \<times> group_server_policy list) list" where
  "loadServersByGroupId ids db =
    fold push_policy (sort_key sp_server (filter (\<lambda>r. sp_group_id r \<in> set ids) (gd_policies db))) []"

definition list_groups :: "group_db \<Rightarrow> group_policy list" where
  "list_groups db =
    (let rows = sort_key gr_name (gd_groups db);
         servers = loadServersByGroupId (map gr_id rows) db
     in map (\<lambda>r. rowToGroup r (or_else (map_of servers (gr_id r)) [])) rows)"

definition get_group :: "string \<Rightarrow> group_db \<Rightarrow> group_policy option" where
  "get_group i db =
    (case tbl_find (\<lambda>r. gr_id r = i) (gd_groups db) of
       None \<Rightarrow> None
     | Some r \<Rightarrow> Some (rowToGroup r (or_else (map_of (loadServersByGroupId [gr_id r] db) (gr_id r)) [])))"

record create_group_input =
  cg_name :: string
  cg_description :: string
  cg_servers :: "group_server_policy list"

record update_group_input =
  ug_description :: "string option"
  ug_servers :: "group_server_policy list option"

definition new_group :: "string \<Rightarrow> int \<Rightarrow> create_group_input \<Rightarrow> string option \<Rightarrow> group_policy" where
  "new_group uuid now inp owner =
    \<lparr>gs_name = cg_name inp, gs_servers = cg_servers inp, g_id = uuid, g_description = cg_description inp,
     g_createdAt = now, g_updatedAt = now, g_ownerId = owner\<rparr>"

definition insert_group_row :: "group_policy \<Rightarrow> unit group_comp" where
  "insert_group_row g db =
    (if tbl_find (\<lambda>r. gr_id r = g_id g) (gd_groups db) \<noteq> None then (Inl (PgUnique ''groups_pkey''), db)
     else if tbl_find (\<lambda>r. gr_name r = gs_name g) (gd_groups db) \<noteq> None
     then (Inl (PgUnique ''groups_name_key''), db)
     else (Inr (), db\<lparr>gd_groups := gd_groups db @
        [\<lparr>gr_id = g_id g, gr_name = gs_name g, gr_description = g_description g,
          gr_owner_id = g_ownerId g, gr_created_at = g_createdAt g, gr_updated_at = g_updatedAt g\<rparr>]\<rparr>))"

definition create_group ::
    "string \<Rightarrow> int \<Rightarrow> create_group_input \<Rightarrow> string option \<Rightarrow> group_policy group_comp" where
  "create_group uuid now inp owner =
    (let g = new_group uuid now inp owner in
     bindM (atomicallyM (bindM (insert_group_row g) (\<lambda>_. insertServerPolicies (g_id g) (gs_servers g))))
       (\<lambda>_. returnM g))"

definition updated_group :: "int \<Rightarrow> update_group_input \<Rightarrow> group_policy \<Rightarrow> group_policy" where
  "updated_group now inp existing =
    existing\<lparr>g_description := or_else (ug_description inp) (g_description existing),
      g_updatedAt := now, gs_servers := or_else (ug_servers inp) (gs_servers existing)\<rparr>"

definition update_group_row :: "string \<Rightarrow> string \<Rightarrow> int \<Rightarrow> unit group_comp" where
  "update_group_row i description now db =
    (Inr (), db\<lparr>gd_groups := tbl_update (\<lambda>r. gr_id r = i)
       (\<lambda>r. r\<lparr>gr_description := description, gr_updated_at := now\<rparr>) (gd_groups db)\<rparr>)"

definition delete_policies :: "string \<Rightarrow> unit group_comp" where
  "delete_policies i db = (Inr (), db\<lparr>gd_policies := tbl_delete (\<lambda>r. sp_group_id r = i) (gd_policies db)\<rparr>)"

definition update_group :: "string \<Rightarrow> int \<Rightarrow> update_group_input \<Rightarrow> group_policy option group_comp" where
  "update_group i now inp db =
    (case get_group i db of
       None \<Rightarrow> (Inr None, db)
     | Some existing \<Rightarrow>
         (let g = updated_group now inp existing in
          bindM (atomicallyM
            (bindM (update_group_row i (g_description g) now) (\<lambda>_.
               if ug_servers inp = None then returnM ()
               else bindM (delete_policies i) (\<lambda>_. insertServerPolicies i (gs_servers g)))))
            (\<lambda>_. returnM (Some g)) db))"

text \<open>\<open>ON DELETE CASCADE\<close> removes the policies with their group.\<close>

definition delete_group :: "string \<Rightarrow> bool group_comp" where
  "delete_group i db =
    (Inr (tbl_count (\<lambda>r. gr_id r = i) (gd_groups db) > 0),
     \<lparr>gd_groups = tbl_delete (\<lambda>r. gr_id r = i) (gd_groups db),
      gd_policies = tbl_delete (\<lambda>r. sp_group_id r = i \<and>
        tbl_find (\<lambda>g. gr_id g = i) (gd_groups db) \<noteq> None) (gd_policies db)\<rparr>)"

section \<open>Management and the cache\<close>

record group_view =
  gv_id :: string
  gv_name :: string
  gv_description :: string
  gv_createdAt :: string
  gv_updatedAt :: string
  gv_ownerId :: "string option"
  gv_servers :: "group_server_policy list"

definition toGroupView :: "group_policy \<Rightarrow> group_view" where
  "toGroupView g =
    \<lparr>gv_id = g_id g, gv_name = gs_name g, gv_description = g_description g,
     gv_createdAt = to_iso_string (g_createdAt g), gv_updatedAt = to_iso_string (g_updatedAt g),
     gv_ownerId = g_ownerId g, gv_servers = gs_servers g\<rparr>"

record group_world =
  gw_db :: group_db
  gw_cache :: "group_policy list"

type_synonym 'a manage_comp = "(group_world, exn, 'a) comp"

definition on_db :: "'a group_comp \<Rightarrow> 'a manage_comp" where
  "on_db m w = (case m (gw_db w) of (res, db) \<Rightarrow> (res, w\<lparr>gw_db := db\<rparr>))"

definition cache_replace :: "group_policy list \<Rightarrow> unit manage_comp" where
  "cache_replace groups w = (Inr (), w\<lparr>gw_cache := groups\<rparr>)"

definition refreshCache :: "unit manage_comp" where
  "refreshCache w = cache_replace (list_groups (gw_db w)) w"

definition assertValidServers :: "string list \<Rightarrow> group_server_policy list \<Rightarrow> unit manage_comp" where
  "assertValidServers known servers w = (assertValidGroupServers servers known, w)"

definition manage_list :: "group_world \<Rightarrow> group_view list" where
  "manage_list w = map toGroupView (list_groups (gw_db w))"

definition manage_get :: "string \<Rightarrow> group_world \<Rightarrow> group_view option" where
  "manage_get i w = map_option toGroupView (get_group i (gw_db w))"

definition manage_create ::
    "string list \<Rightarrow> string \<Rightarrow> int \<Rightarrow> create_group_input \<Rightarrow> string option \<Rightarrow> group_view manage_comp" where
  "manage_create known uuid now inp owner =
    bindM (assertValidServers known (cg_servers inp)) (\<lambda>_.
      catchM
        (bindM (on_db (create_group uuid now inp owner)) (\<lambda>created.
          bindM refreshCache (\<lambda>_. returnM (toGroupView created))))
        (\<lambda>e. if isUniqueViolation e ''name''
             then throwM (GroupPolicyWriteError ''group name already exists'' 409) else throwM e))"

definition manage_update ::
    "string list \<Rightarrow> string \<Rightarrow> int \<Rightarrow> update_group_input \<Rightarrow> group_view option manage_comp" where
  "manage_update known i now inp =
    bindM (case ug_servers inp of None \<Rightarrow> returnM () | Some ss \<Rightarrow> assertValidServers known ss) (\<lambda>_.
      bindM (on_db (update_group i now inp)) (\<lambda>updated.
        case updated of
          None \<Rightarrow> returnM None
        | Some g \<Rightarrow> bindM refreshCache (\<lambda>_. returnM (Some (toGroupView g)))))"

definition manage_delete :: "string \<Rightarrow> bool manage_comp" where
  "manage_delete i =
    bindM (on_db (delete_group i)) (\<lambda>deleted.
      if deleted then bindM refreshCache (\<lambda>_. returnM True) else returnM False)"

datatype manage_op =
    CreateGroup "string list" string int create_group_input "string option"
  | UpdateGroup "string list" string int update_group_input
  | DeleteGroup string

fun run_manage_op :: "manage_op \<Rightarrow> group_world \<Rightarrow> group_world" where
  "run_manage_op (CreateGroup k u t x q) w = snd (manage_create k u t x q w)"
| "run_manage_op (UpdateGroup k i t x) w = snd (manage_update k i t x w)"
| "run_manage_op (DeleteGroup i) w = snd (manage_delete i w)"

section \<open>The invariant of the tables\<close>

definition group_db_wf :: "group_db \<Rightarrow> bool" where
  "group_db_wf db \<longleftrightarrow> distinct (map gr_id (gd_groups db)) \<and> distinct (map gr_name (gd_groups db)) \<and>
     distinct (map (\<lambda>r. (sp_group_id r, sp_server r)) (gd_policies db)) \<and>
     sp_group_id ` set (gd_policies db) \<subseteq> gr_id ` set (gd_groups db)"

definition db_kept :: "group_db \<Rightarrow> group_db \<Rightarrow> bool" where
  "db_kept db db' \<longleftrightarrow> (group_db_wf db \<longrightarrow> group_db_wf db')"

lemma db_kept_order: "reflp db_kept" "transp db_kept"
  by (auto simp: db_kept_def reflp_def transp_def)

lemma insertServerPolicies_keeps: "preserves db_kept (insertServerPolicies i ps)"
proof (rule preservesI)
  fix db
  show "db_kept db (snd (insertServerPolicies i ps db))"
  proof (induction i ps db rule: insertServerPolicies.induct)
    case (2 i p ps db)
    let ?db = "db\<lparr>gd_policies := gd_policies db @ [policy_row i p]\<rparr>"
    show ?case
    proof (cases "tbl_find (\<lambda>r. sp_group_id r = i \<and> sp_server r = gp_server p) (gd_policies db) \<noteq> None \<or>
        tbl_find (\<lambda>r. gr_id r = i) (gd_groups db) = None")
      case True
      then show ?thesis by (auto simp: db_kept_def)
    next
      case False
      then obtain g where g: "g \<in> set (gd_groups db)" "gr_id g = i" by (auto dest: tbl_find_Some_in)
      have "(i, gp_server p) \<notin> (\<lambda>r. (sp_group_id r, sp_server r)) ` set (gd_policies db)"
        using False by (auto simp: tbl_find_None)
      then have "db_kept db ?db" using g by (auto simp: db_kept_def group_db_wf_def policy_row_def)
      moreover have "db_kept ?db (snd (insertServerPolicies i ps ?db))" using False by (intro "2.IH") auto
      ultimately have "db_kept db (snd (insertServerPolicies i ps ?db))"
        using db_kept_order(2) by (blast dest: transpD)
      then show ?thesis using False by auto
    qed
  qed (simp add: db_kept_def)
qed

lemma insert_group_row_keeps: "preserves db_kept (insert_group_row g)"
  by (rule preservesI) (auto simp: db_kept_def insert_group_row_def group_db_wf_def tbl_find_None)

lemma update_group_row_keeps: "preserves db_kept (update_group_row i d t)"
proof (rule preservesI)
  fix db
  have "map gr_id (gd_groups (snd (update_group_row i d t db))) = map gr_id (gd_groups db)"
    "map gr_name (gd_groups (snd (update_group_row i d t db))) = map gr_name (gd_groups db)"
    by (simp_all add: update_group_row_def map_key_tbl_update)
  moreover from this(1) have "gr_id ` set (gd_groups (snd (update_group_row i d t db))) = gr_id ` set (gd_groups db)"
    by (metis set_map)
  ultimately show "db_kept db (snd (update_group_row i d t db))"
    by (simp add: db_kept_def group_db_wf_def) (simp add: update_group_row_def)
qed

lemma delete_policies_keeps: "preserves db_kept (delete_policies i)"
  by (rule preservesI)
    (auto simp: db_kept_def delete_policies_def group_db_wf_def set_tbl_delete intro!: distinct_map_tbl_delete)

lemma delete_group_false_eq: "i \<notin> gr_id ` set (gd_groups db) \<Longrightarrow> snd (delete_group i db) = db"
proof -
  assume "i \<notin> gr_id ` set (gd_groups db)"
  then have "tbl_delete (\<lambda>r. gr_id r = i) (gd_groups db) = gd_groups db"
    "tbl_find (\<lambda>g. gr_id g = i) (gd_groups db) = None"
    unfolding tbl_delete_def filter_id_conv tbl_find_None by (metis imageI)+
  then show ?thesis by (simp add: delete_group_def tbl_delete_def)
qed

lemma delete_group_keeps: "preserves db_kept (delete_group i)"
proof (rule preservesI)
  fix db
  show "db_kept db (snd (delete_group i db))"
  proof (cases "i \<in> gr_id ` set (gd_groups db)")
    case True
    then have f: "tbl_find (\<lambda>g. gr_id g = i) (gd_groups db) \<noteq> None" unfolding tbl_find_None by blast
    let ?g = "tbl_delete (\<lambda>r. gr_id r = i) (gd_groups db)"
    let ?p = "tbl_delete (\<lambda>r. sp_group_id r = i) (gd_policies db)"
    have eq: "snd (delete_group i db) = \<lparr>gd_groups = ?g, gd_policies = ?p\<rparr>"
      using f by (simp add: delete_group_def)
    have "sp_group_id ` set ?p = sp_group_id ` set (gd_policies db) - {i}"
      "gr_id ` set ?g = gr_id ` set (gd_groups db) - {i}"
      by (auto simp: set_tbl_delete)
    then have "sp_group_id ` set ?p \<subseteq> gr_id ` set ?g"
      if "sp_group_id ` set (gd_policies db) \<subseteq> gr_id ` set (gd_groups db)"
      using that by (simp add: Diff_mono)
    then show ?thesis
      unfolding eq db_kept_def group_db_wf_def by (simp add: distinct_map_tbl_delete)
  qed (simp add: delete_group_false_eq db_kept_def)
qed

lemmas group_keeps =
  preserves_returnM [OF db_kept_order(1)] preserves_bindM [OF db_kept_order(2)]
  preserves_atomicallyM [OF db_kept_order(1)] insertServerPolicies_keeps insert_group_row_keeps
  update_group_row_keeps delete_policies_keeps delete_group_keeps

lemma create_group_keeps: "preserves db_kept (create_group u t x q)"
  unfolding create_group_def Let_def by (intro group_keeps)

lemma update_group_keeps: "preserves db_kept (update_group i t x)"
proof (rule preservesI)
  fix db
  show "db_kept db (snd (update_group i t x db))"
  proof (cases "get_group i db")
    case (Some g)
    have "preserves db_kept (bindM (atomicallyM (bindM (update_group_row i d t) (\<lambda>_.
        if ug_servers x = None then returnM ()
        else bindM (delete_policies i) (\<lambda>_. insertServerPolicies i ss)))) (\<lambda>_. returnM y))"
      for d ss and y :: "group_policy option"
      by (cases "ug_servers x") (auto intro!: group_keeps)
    then show ?thesis by (simp add: update_group_def Some Let_def preservesD)
  qed (simp add: update_group_def db_kept_def)
qed

text \<open>A failed write leaves the tables as they were.\<close>

lemma create_group_fails: "fst (create_group u t x q db) = Inl e \<Longrightarrow> snd (create_group u t x q db) = db"
  by (auto simp: create_group_def Let_def bindM_def [of "atomicallyM _"] atomicallyM_def returnM_def
      split: prod.splits sum.splits)

lemma update_group_fails: "fst (update_group i t x db) = Inl e \<Longrightarrow> snd (update_group i t x db) = db"
  by (auto simp: update_group_def Let_def bindM_def [of "atomicallyM _"] atomicallyM_def returnM_def
      split: prod.splits sum.splits option.splits)

lemma update_group_none: "fst (update_group i t x db) = Inr None \<Longrightarrow> snd (update_group i t x db) = db"
  by (auto simp: update_group_def Let_def bindM_def [of "atomicallyM _"] atomicallyM_def returnM_def
      split: prod.splits sum.splits option.splits)

lemma delete_group_false: "fst (delete_group i db) = Inr False \<Longrightarrow> snd (delete_group i db) = db"
  by (rule delete_group_false_eq) (auto simp: delete_group_def tbl_count_0)

section \<open>What is read back\<close>

definition servers_of :: "group_db \<Rightarrow> string \<Rightarrow> group_server_policy list" where
  "servers_of db i = map rowToServerPolicy (sort_key sp_server (filter (\<lambda>r. sp_group_id r = i) (gd_policies db)))"

lemma push_policies:
  "or_else (map_of (fold push_policy rows m) i) [] =
    or_else (map_of m i) [] @ map rowToServerPolicy (filter (\<lambda>r. sp_group_id r = i) rows)"
  by (induction rows arbitrary: m) (auto simp: push_policy_def js_simps)

lemma load_servers: "i \<in> set ids \<Longrightarrow>
  or_else (map_of (loadServersByGroupId ids db) i) [] = servers_of db i"
proof -
  assume i: "i \<in> set ids"
  show ?thesis
    unfolding loadServersByGroupId_def push_policies servers_of_def filter_sort filter_filter
    by (simp, rule arg_cong [where f = "\<lambda>x. map rowToServerPolicy (sort_key sp_server x)"], rule filter_cong)
      (use i in auto)
qed

lemma list_groups_eq: "list_groups db = map (\<lambda>r. rowToGroup r (servers_of db (gr_id r))) (sort_key gr_name (gd_groups db))"
  unfolding list_groups_def Let_def by (rule map_cong) (simp_all add: load_servers)

lemma get_group_eq: "get_group i db =
  map_option (\<lambda>r. rowToGroup r (servers_of db (gr_id r))) (tbl_find (\<lambda>r. gr_id r = i) (gd_groups db))"
  by (auto simp: get_group_def load_servers split: option.splits)

lemma servers_of_distinct:
  assumes "group_db_wf db"
  shows "distinct (map gp_server (servers_of db i))"
proof -
  have "inj_on sp_server {r \<in> set (gd_policies db). sp_group_id r = i}"
    using assms by (auto simp: group_db_wf_def distinct_map inj_on_def)
  moreover have "distinct (gd_policies db)" using assms by (auto simp: group_db_wf_def distinct_map)
  ultimately have "distinct (map sp_server (sort_key sp_server (filter (\<lambda>r. sp_group_id r = i) (gd_policies db))))"
    by (simp add: distinct_map)
  moreover have "gp_server \<circ> rowToServerPolicy = sp_server" by (auto simp: rowToServerPolicy_def)
  ultimately show ?thesis by (simp add: servers_of_def)
qed

lemma list_groups_wf: "group_db_wf db \<Longrightarrow> groups_wf (list_groups db)"
proof -
  assume wf: "group_db_wf db"
  have "distinct (map gr_name (sort_key gr_name (gd_groups db)))"
    using wf by (simp add: group_db_wf_def distinct_map)
  moreover have "map gs_name (list_groups db) = map gr_name (sort_key gr_name (gd_groups db))"
    by (simp add: list_groups_eq rowToGroup_def)
  ultimately show ?thesis
    using servers_of_distinct [OF wf] by (auto simp: groups_wf_def) (auto simp: list_groups_eq rowToGroup_def)
qed

section \<open>The cache follows the tables\<close>

definition coherent :: "group_world \<Rightarrow> bool" where
  "coherent w \<longleftrightarrow> group_db_wf (gw_db w) \<and> gw_cache w = list_groups (gw_db w)"

lemma on_db_result: "on_db m w = (fst (m (gw_db w)), w\<lparr>gw_db := snd (m (gw_db w))\<rparr>)"
  by (simp add: on_db_def split_beta)

lemma coherent_write:
  assumes "coherent w" "preserves db_kept m" "\<And>e. fst (m (gw_db w)) = Inl e \<Longrightarrow> snd (m (gw_db w)) = gw_db w"
    and "\<And>x. fst (m (gw_db w)) = Inr x \<Longrightarrow> \<not> changed x \<Longrightarrow> snd (m (gw_db w)) = gw_db w"
    and "\<And>x v. changed x \<Longrightarrow> \<exists>y. k x v = (y, snd (refreshCache v))"
    and "\<And>x v. \<not> changed x \<Longrightarrow> snd (k x v) = v"
  shows "coherent (snd (bindM (on_db m) k w))"
proof (cases "fst (m (gw_db w))")
  case (Inl e)
  then show ?thesis using assms(1) assms(3) [OF Inl] by (simp add: bindM_def on_db_result)
next
  case (Inr x)
  let ?v = "w\<lparr>gw_db := snd (m (gw_db w))\<rparr>"
  have kept: "group_db_wf (gw_db ?v)"
    using assms(1) preservesD [OF assms(2), of "gw_db w"] by (simp add: coherent_def db_kept_def)
  have eq: "snd (bindM (on_db m) k w) = snd (k x ?v)" by (simp add: bindM_def on_db_result Inr)
  show ?thesis
  proof (cases "changed x")
    case True
    then show ?thesis
      using assms(5) [OF True, of ?v] kept
      by (auto simp: eq refreshCache_def cache_replace_def coherent_def)
  next
    case False
    then show ?thesis using assms(1) assms(4) [OF Inr False] by (simp add: eq assms(6))
  qed
qed

lemma coherent_refresh_bind: "bindM refreshCache (\<lambda>_. returnM y) v = (Inr y, snd (refreshCache v))"
  by (simp add: comp_simps refreshCache_def cache_replace_def)

lemma coherent_op:
  assumes "coherent w"
  shows "coherent (run_manage_op x w)"
proof (cases x)
  case (CreateGroup known u t inp q)
  have "coherent (snd (bindM (on_db (create_group u t inp q)) (\<lambda>created.
      bindM refreshCache (\<lambda>_. returnM (toGroupView created))) w))"
    by (rule coherent_write [OF assms create_group_keeps, where changed = "\<lambda>_. True"])
      (auto simp: create_group_fails coherent_refresh_bind)
  then have "coherent (snd (catchM (bindM (on_db (create_group u t inp q)) (\<lambda>created.
      bindM refreshCache (\<lambda>_. returnM (toGroupView created)))) (\<lambda>e. if isUniqueViolation e ''name''
      then throwM (GroupPolicyWriteError ''group name already exists'' 409) else throwM e) w))"
    by (auto simp: catchM_def throwM_def split: prod.splits sum.splits)
  then show ?thesis using CreateGroup assms
    by (auto simp: manage_create_def bindM_def [of "assertValidServers _ _"] assertValidServers_def
        split: sum.splits)
next
  case (UpdateGroup known i t inp)
  have "coherent (snd (bindM (on_db (update_group i t inp)) (\<lambda>updated.
      case updated of None \<Rightarrow> returnM None
        | Some g \<Rightarrow> bindM refreshCache (\<lambda>_. returnM (Some (toGroupView g)))) w))"
    by (rule coherent_write [OF assms update_group_keeps, where changed = "\<lambda>x. x \<noteq> None"])
      (auto simp: update_group_fails update_group_none coherent_refresh_bind returnM_def)
  then show ?thesis using UpdateGroup assms
    by (cases "ug_servers inp")
      (auto simp: manage_update_def bindM_def [of "assertValidServers _ _"] bindM_def [of "returnM _"]
        assertValidServers_def returnM_def [of "()"] split: sum.splits)
next
  case (DeleteGroup i)
  have "coherent (snd (bindM (on_db (delete_group i)) (\<lambda>deleted.
      if deleted then bindM refreshCache (\<lambda>_. returnM True) else returnM False) w))"
    by (rule coherent_write [OF assms delete_group_keeps, where changed = "\<lambda>x. x"])
      (auto simp: delete_group_false coherent_refresh_bind returnM_def, simp add: delete_group_def)
  with DeleteGroup show ?thesis by (simp add: manage_delete_def)
qed

interpretation group_cache: kept run_manage_op "\<lambda>_. True" coherent
  by unfold_locales (rule coherent_op)

lemma insertServerPolicies_Inr: "fst (insertServerPolicies i ps db) = Inr () \<Longrightarrow>
  snd (insertServerPolicies i ps db) = db\<lparr>gd_policies := gd_policies db @ map (policy_row i) ps\<rparr>"
  by (induction i ps db rule: insertServerPolicies.induct) (auto split: if_splits)

lemma create_group_Inr:
  assumes "fst (create_group u t x q db) = Inr g"
  shows "g = new_group u t x q \<and> u \<notin> gr_id ` set (gd_groups db) \<and> cg_name x \<notin> gr_name ` set (gd_groups db) \<and>
    snd (create_group u t x q db) =
      \<lparr>gd_groups = gd_groups db @ [\<lparr>gr_id = u, gr_name = cg_name x, gr_description = cg_description x,
         gr_owner_id = q, gr_created_at = t, gr_updated_at = t\<rparr>],
       gd_policies = gd_policies db @ map (policy_row u) (cg_servers x)\<rparr>"
proof -
  let ?row = "\<lparr>gr_id = u, gr_name = cg_name x, gr_description = cg_description x, gr_owner_id = q,
    gr_created_at = t, gr_updated_at = t\<rparr>"
  let ?db = "db\<lparr>gd_groups := gd_groups db @ [?row]\<rparr>"
  have fresh: "u \<notin> gr_id ` set (gd_groups db)" "cg_name x \<notin> gr_name ` set (gd_groups db)"
    using assms by (auto simp: create_group_def Let_def comp_simps insert_group_row_def new_group_def
        tbl_find_None split: if_splits)
  have "tbl_find (\<lambda>r. gr_id r = u) (gd_groups db) = None" "tbl_find (\<lambda>r. gr_name r = cg_name x) (gd_groups db) = None"
    using fresh unfolding tbl_find_None by (metis imageI)+
  then have row: "insert_group_row (new_group u t x q) db = (Inr (), ?db)"
    by (simp add: insert_group_row_def new_group_def)
  have e: "create_group u t x q db = (case insertServerPolicies u (cg_servers x) ?db of
      (Inl e, _) \<Rightarrow> (Inl e, db) | (Inr _, s) \<Rightarrow> (Inr (new_group u t x q), s))"
    by (simp add: create_group_def Let_def comp_simps row split: prod.split sum.split)
      (simp add: new_group_def)
  with assms have i: "fst (insertServerPolicies u (cg_servers x) ?db) = Inr ()" "g = new_group u t x q"
    by (auto split: prod.splits sum.splits)
  have "snd (create_group u t x q db) = snd (insertServerPolicies u (cg_servers x) ?db)"
    using i(1) by (auto simp: e split: prod.splits sum.splits)
  then show ?thesis using i fresh insertServerPolicies_Inr [OF i(1)] by (cases db) simp
qed

lemma rowToServerPolicy_inverse [simp]: "rowToServerPolicy (policy_row i p) = p"
  by (simp add: rowToServerPolicy_def policy_row_def)

lemma created_servers:
  assumes "group_db_wf db" "fst (create_group u t x q db) = Inr g"
  shows "set (servers_of (snd (create_group u t x q db)) u) = set (cg_servers x)"
proof -
  note c = create_group_Inr [OF assms(2)]
  have "u \<notin> sp_group_id ` set (gd_policies db)" using assms(1) c by (auto simp: group_db_wf_def)
  then have "filter (\<lambda>r. sp_group_id r = u) (gd_policies db) = []"
    by (auto simp: filter_empty_conv)
  moreover have "filter (\<lambda>r. sp_group_id r = u) (map (policy_row u) ps) = map (policy_row u) ps" for ps
    by (induction ps) (simp_all add: policy_row_def)
  ultimately show ?thesis using c by (simp add: servers_of_def image_image)
qed

lemma manage_create_Inr:
  assumes "manage_create known u t x q w = (Inr v, w')"
  shows "assertValidGroupServers (cg_servers x) known = Inr () \<and>
    fst (create_group u t x q (gw_db w)) = Inr (new_group u t x q) \<and> v = toGroupView (new_group u t x q) \<and>
    gw_db w' = snd (create_group u t x q (gw_db w))"
proof -
  have "assertValidGroupServers (cg_servers x) known = Inr ()"
    using assms by (auto simp: manage_create_def bindM_def [of "assertValidServers _ _"]
        assertValidServers_def split: sum.splits)
  then have a: "catchM (bindM (on_db (create_group u t x q)) (\<lambda>created.
      bindM refreshCache (\<lambda>_. returnM (toGroupView created)))) (\<lambda>e. if isUniqueViolation e ''name''
      then throwM (GroupPolicyWriteError ''group name already exists'' 409) else throwM e) w = (Inr v, w')"
    using assms by (simp add: manage_create_def bindM_def [of "assertValidServers _ _"] assertValidServers_def)
  then have b: "bindM (on_db (create_group u t x q)) (\<lambda>created.
      bindM refreshCache (\<lambda>_. returnM (toGroupView created))) w = (Inr v, w')"
    by (auto simp: catchM_def throwM_def split: prod.splits sum.splits if_splits)
  then obtain g where g: "fst (create_group u t x q (gw_db w)) = Inr g"
    by (auto simp: bindM_def [of "on_db _"] on_db_result split: sum.splits)
  with b have "v = toGroupView g" "gw_db w' = snd (create_group u t x q (gw_db w))"
    by (auto simp: bindM_def [of "on_db _"] on_db_result coherent_refresh_bind refreshCache_def cache_replace_def)
  with g create_group_Inr [OF g] \<open>assertValidGroupServers (cg_servers x) known = Inr ()\<close> show ?thesis by simp
qed

section \<open>Properties\<close>

definition empty_groups :: group_world where
  "empty_groups = \<lparr>gw_db = \<lparr>gd_groups = [], gd_policies = []\<rparr>, gw_cache = []\<rparr>"

definition example_create_group :: create_group_input where
  "example_create_group = \<lparr>cg_name = ''g1'', cg_description = [],
    cg_servers = [example_policy ''mail'' [''send''] [''wipe'']]\<rparr>"

lemma empty_groups_coherent: "coherent empty_groups"
  by (simp add: coherent_def empty_groups_def group_db_wf_def list_groups_eq)

text \<open>
  C4. Every sequence of management writes, successful or not, keeps the tables consistent and
  the cache equal to what the tables hold; in particular the cache that evaluation reads always
  has unique group names and one policy per server.
\<close>

theorem cache_stays_coherent:
  "coherent w \<Longrightarrow> coherent (run_ops run_manage_op ops w) \<and> groups_wf (gw_cache (run_ops run_manage_op ops w))"
  using group_cache.run_keeps [of w ops] list_groups_wf by (simp add: coherent_def)

theorem cache_stays_coherent_witness:
  "groups_wf (gw_cache (run_ops run_manage_op
     [CreateGroup [''mail''] ''u1'' 5 example_create_group None, DeleteGroup ''u2''] empty_groups))"
  using cache_stays_coherent [OF empty_groups_coherent] by blast

text \<open>
  A created group is enforced at once: after \<open>create\<close> has returned, an agent whose only
  group is the new one may call a tool exactly when one of the policies of the request grants it.
\<close>

theorem created_group_is_enforced:
  assumes "coherent w" "manage_create known u t x q w = (Inr v, w')" "pr_groups pr = [cg_name x]"
  shows "pe_decision (evaluatePolicy (Some pr) (gw_cache w') server tool) = Allowed \<longleftrightarrow>
    (\<exists>p \<in> set (cg_servers x). gp_server p = server \<and> policy_grants p tool)"
proof -
  note c = manage_create_Inr [OF assms(2)]
  have coh: "coherent w'" using coherent_op [OF assms(1), of "CreateGroup known u t x q"] assms(2) by simp
  then have wf: "group_db_wf (gw_db w')" and cache: "gw_cache w' = list_groups (gw_db w')"
    by (simp_all add: coherent_def)
  from c have g: "fst (create_group u t x q (gw_db w)) = Inr (new_group u t x q)" by blast
  have wf0: "group_db_wf (gw_db w)" using assms(1) by (simp add: coherent_def)
  let ?row = "\<lparr>gr_id = u, gr_name = cg_name x, gr_description = cg_description x,
    gr_owner_id = q, gr_created_at = t, gr_updated_at = t\<rparr>"
  have rows: "set (gd_groups (gw_db w')) = insert ?row (set (gd_groups (gw_db w)))"
    "cg_name x \<notin> gr_name ` set (gd_groups (gw_db w))"
    using c create_group_Inr [OF g] by auto
  have servers: "set (servers_of (gw_db w') u) = set (cg_servers x)"
    using created_servers [OF wf0 g] c by simp
  have names: "gs_name ` set (list_groups (gw_db w')) = gr_name ` set (gd_groups (gw_db w'))"
    by (simp add: list_groups_eq image_image rowToGroup_def)
  have "p \<in> member_policies (list_groups (gw_db w')) [cg_name x] server \<longleftrightarrow>
      p \<in> set (cg_servers x) \<and> gp_server p = server" for p
  proof -
    have "gr_name g \<noteq> cg_name x" if "g \<in> set (gd_groups (gw_db w))" for g using rows(2) that by (metis imageI)
    then show ?thesis using rows(1) servers by (auto simp: member_policies_def list_groups_eq rowToGroup_def)
  qed
  then have m: "member_policies (list_groups (gw_db w')) [cg_name x] server =
      {p \<in> set (cg_servers x). gp_server p = server}" by blast
  have valid: "distinct (map gp_server (cg_servers x))" using c valid_servers by blast
  have "p = p'" if "p \<in> set (cg_servers x)" "p' \<in> set (cg_servers x)" "gp_server p = gp_server p'" for p p'
    using distinct_key_unique [OF valid that] .
  then show ?thesis
    unfolding cache evaluatePolicy_Allowed [OF list_groups_wf [OF wf]] assms(3) m names
    using rows(1) grants_or_denies by auto
qed

theorem created_group_is_enforced_witness:
  "\<exists>v w'. manage_create [''mail''] ''u1'' 5 example_create_group None empty_groups = (Inr v, w') \<and>
     pe_decision (evaluatePolicy (Some (example_agent [''g1''])) (gw_cache w') ''mail'' ''send'') = Allowed \<and>
     pe_decision (evaluatePolicy (Some (example_agent [''g1''])) (gw_cache w') ''mail'' ''wipe'') = Denied"
proof -
  have v: "assertValidGroupServers (cg_servers example_create_group) [''mail''] = Inr ()"
    by (simp add: valid_servers example_create_group_def example_policy_def valid_policy_def)
  have "\<exists>v w'. manage_create [''mail''] ''u1'' 5 example_create_group None empty_groups = (Inr v, w')"
    by (simp only: manage_create_def bindM_def [of "assertValidServers _ _"] assertValidServers_def v
        sum.case prod.case)
      (simp add: comp_simps on_db_result refreshCache_def cache_replace_def create_group_def Let_def
        insert_group_row_def new_group_def empty_groups_def tbl_simps example_create_group_def)
  then obtain v w' where vw: "manage_create [''mail''] ''u1'' 5 example_create_group None empty_groups = (Inr v, w')"
    by blast
  have a: "pr_groups (example_agent [''g1'']) = [cg_name example_create_group]"
    by (simp add: example_agent_def example_create_group_def)
  note e = created_group_is_enforced [OF empty_groups_coherent vw a]
  have "pe_decision (evaluatePolicy (Some (example_agent [''g1''])) (gw_cache w') ''mail'' ''send'') = Allowed"
    "pe_decision (evaluatePolicy (Some (example_agent [''g1''])) (gw_cache w') ''mail'' ''wipe'') \<noteq> Allowed"
    unfolding e by (simp_all add: example_create_group_def example_policy_def policy_grants_def)
  then show ?thesis using vw
    by (intro exI [of _ v] exI [of _ w'])
      (cases "pe_decision (evaluatePolicy (Some (example_agent [''g1''])) (gw_cache w') ''mail'' ''wipe'')"; simp)
qed

text \<open>
  A name that is taken: \<open>create\<close> with valid policies fails with status 409 and leaves tables
  and cache as they were.
\<close>

theorem duplicate_group_name_is_409:
  assumes "assertValidGroupServers (cg_servers x) known = Inr ()" "u \<notin> gr_id ` set (gd_groups (gw_db w))"
    and "cg_name x \<in> gr_name ` set (gd_groups (gw_db w))"
  shows "manage_create known u t x q w =
    (Inl (GroupPolicyWriteError ''group name already exists'' 409), w)"
proof -
  have "insert_group_row (new_group u t x q) (gw_db w) = (Inl (PgUnique ''groups_name_key''), gw_db w)"
    using assms(2,3) by (auto simp: insert_group_row_def new_group_def tbl_find_None)
  then have c: "create_group u t x q (gw_db w) = (Inl (PgUnique ''groups_name_key''), gw_db w)"
    by (simp add: create_group_def comp_simps Let_def)
  have "isUniqueViolation (PgUnique ''groups_name_key'') ''name''"
    by (simp add: isUniqueViolation_def exn_message_def)
  then show ?thesis
    by (simp add: manage_create_def assertValidServers_def assms(1) bindM_def catchM_def on_db_result c throwM_def)
qed

theorem duplicate_group_name_is_409_witness:
  "\<exists>w. manage_create [''mail''] ''u2'' 6 example_create_group None w =
     (Inl (GroupPolicyWriteError ''group name already exists'' 409), w)"
proof -
  let ?w = "\<lparr>gw_db = \<lparr>gd_groups = [\<lparr>gr_id = ''u1'', gr_name = ''g1'', gr_description = [], gr_owner_id = None,
    gr_created_at = 5, gr_updated_at = 5\<rparr>], gd_policies = []\<rparr>, gw_cache = []\<rparr>"
  have "assertValidGroupServers (cg_servers example_create_group) [''mail''] = Inr ()"
    by (simp add: valid_servers example_create_group_def example_policy_def valid_policy_def)
  then have "manage_create [''mail''] ''u2'' 6 example_create_group None ?w =
      (Inl (GroupPolicyWriteError ''group name already exists'' 409), ?w)"
    by (rule duplicate_group_name_is_409) (simp_all add: example_create_group_def)
  then show ?thesis by blast
qed

text \<open>
  Reading the tables for the cache and replacing the cache are two steps. When a deletion
  runs completely between the two steps of another write's refresh, the refresh puts the
  deleted group back: the cache goes on granting what the tables no longer hold.
\<close>

theorem interleaved_refresh_keeps_deleted_group:
  assumes "coherent w" "i \<in> gr_id ` set (gd_groups (gw_db w))"
    and "w' = snd (cache_replace (list_groups (gw_db w)) (snd (manage_delete i w)))"
  shows "i \<in> g_id ` set (gw_cache w') \<and> get_group i (gw_db w') = None"
proof -
  have f: "tbl_find (\<lambda>g. gr_id g = i) (gd_groups (gw_db w)) \<noteq> None"
    unfolding tbl_find_None using assms(2) by blast
  then have "fst (delete_group i (gw_db w)) = Inr True"
    by (auto simp: delete_group_def tbl_count_pos dest: tbl_find_Some_in)
  then have "gw_db w' = snd (delete_group i (gw_db w))"
    unfolding assms(3) by (simp add: manage_delete_def bindM_def [of "on_db _"] on_db_result
        coherent_refresh_bind refreshCache_def cache_replace_def)
  then have "get_group i (gw_db w') = None"
    by (simp add: get_group_eq delete_group_def tbl_find_None set_tbl_delete)
  moreover have "i \<in> g_id ` set (gw_cache w')"
    using assms(2) unfolding assms(3)
    by (simp add: cache_replace_def list_groups_eq image_image rowToGroup_def)
  ultimately show ?thesis by blast
qed

theorem interleaved_refresh_keeps_deleted_group_witness:
  "\<exists>w w'. w' = snd (cache_replace (list_groups (gw_db w)) (snd (manage_delete ''u1'' w))) \<and>
     ''u1'' \<in> g_id ` set (gw_cache w') \<and> get_group ''u1'' (gw_db w') = None"
proof -
  let ?db = "\<lparr>gd_groups = [\<lparr>gr_id = ''u1'', gr_name = ''g1'', gr_description = [], gr_owner_id = None,
    gr_created_at = 5, gr_updated_at = 5\<rparr>], gd_policies = []\<rparr>"
  let ?w = "\<lparr>gw_db = ?db, gw_cache = list_groups ?db\<rparr>"
  have "coherent ?w" by (simp add: coherent_def group_db_wf_def)
  then have "''u1'' \<in> g_id ` set (gw_cache (snd (cache_replace (list_groups (gw_db ?w)) (snd (manage_delete ''u1'' ?w))))) \<and>
      get_group ''u1'' (gw_db (snd (cache_replace (list_groups (gw_db ?w)) (snd (manage_delete ''u1'' ?w))))) = None"
    by (rule interleaved_refresh_keeps_deleted_group [OF _ _ refl]) simp
  then show ?thesis by blast
qed

end
