(* ===== verification/Gateway.thy ===== *)
theory Gateway
  imports CallTypes TaskStore ApprovalStore GroupRepository
begin

text \<open>
  The state that the request handlers of the gateway share, what they use from outside, and the
  approval gate, \<^verbatim>\<open>apps/torii/src/policy/approval-gate.service.ts\<close>.

  The world holds the task and approval tables, the policy cache, the audit trail, the log and
  the requests sent to backends; \<open>tw_ext\<close> is everything else (connections, credentials, the
  backends, the clock), of an arbitrary type, reached through the operations of \<open>torii_env\<close>:
  the tool catalog and the connection manager, the credential resolver, the HTTP client, the
  clock, the source of fresh ids and \<open>sha256\<close>. A handler is one sequence of steps on the world;
  appending to the audit trail succeeds.
\<close>

section \<open>The world\<close>

record backend_connection =
  bc_config :: server_config
  bc_failed :: bool
  bc_client :: "string option option"
  bc_error :: "string option"

text \<open>
  \<open>bc_failed\<close> is \<open>state === "failed"\<close>; \<open>bc_client\<close> is \<open>None\<close> for a null client and holds the
  negotiated protocol version otherwise.
\<close>

record catalog_tool =
  ct_server :: string
  ct_bareName :: string
  ct_inputSchema :: json

record resolved_credentials =
  rc_headers :: "(string \<times> string) list"
  rc_credentialRef :: "string option"

record backend_post =
  bp_url :: string
  bp_method :: string
  bp_params :: jobj
  bp_headers :: "(string \<times> string) list"
  bp_protocolVersion :: "string option"

record 'x torii_world =
  tw_tasks :: task_table
  tw_approvals :: approval_db
  tw_groups :: "group_policy list"
  tw_traces :: "call_trace list"
  tw_logs :: "policy_log list"
  tw_posts :: "backend_post list"
  tw_ext :: 'x

type_synonym ('x, 'a) tcomp = "('x torii_world, exn, 'a) comp"

record 'x torii_env =
  te_now :: "'x \<Rightarrow> int \<times> 'x"
  te_uuid :: "'x \<Rightarrow> string \<times> 'x"
  te_sha256 :: "string \<Rightarrow> string"
  te_is_datetime :: "string \<Rightarrow> bool"
  te_findTool :: "'x \<Rightarrow> string \<Rightarrow> catalog_tool option"
  te_get :: "'x \<Rightarrow> string \<Rightarrow> string option \<Rightarrow> backend_connection option"
  te_ensureConnected :: "string \<Rightarrow> string option \<Rightarrow> ('x, exn, backend_connection) comp"
  te_resolve :: "server_config \<Rightarrow> ('x, exn, resolved_credentials) comp"
  te_paramHeaders :: "json \<Rightarrow> jobj \<Rightarrow> exn + (string \<times> string) list"
  te_post :: "backend_post \<Rightarrow> ('x, exn, jobj) comp"

definition on_tasks :: "'a task_comp \<Rightarrow> ('x, 'a) tcomp" where
  "on_tasks m w = (case m (tw_tasks w) of (res, t) \<Rightarrow> (res, w\<lparr>tw_tasks := t\<rparr>))"

definition on_approvals :: "'a approval_comp \<Rightarrow> ('x, 'a) tcomp" where
  "on_approvals m w = (case m (tw_approvals w) of (res, t) \<Rightarrow> (res, w\<lparr>tw_approvals := t\<rparr>))"

definition on_ext :: "('x, exn, 'a) comp \<Rightarrow> ('x, 'a) tcomp" where
  "on_ext m w = (case m (tw_ext w) of (res, t) \<Rightarrow> (res, w\<lparr>tw_ext := t\<rparr>))"

definition nowM :: "'x torii_env \<Rightarrow> ('x, int) tcomp" where
  "nowM env = on_ext (\<lambda>x. case te_now env x of (t, x') \<Rightarrow> (Inr t, x'))"

definition uuidM :: "'x torii_env \<Rightarrow> ('x, string) tcomp" where
  "uuidM env = on_ext (\<lambda>x. case te_uuid env x of (t, x') \<Rightarrow> (Inr t, x'))"

text \<open>A database transaction: a throw rolls back both tables, not the world outside.\<close>

definition transactionM :: "('x, 'a) tcomp \<Rightarrow> ('x, 'a) tcomp" where
  "transactionM m w =
    (case m w of
       (Inl e, w') \<Rightarrow> (Inl e, w'\<lparr>tw_tasks := tw_tasks w, tw_approvals := tw_approvals w\<rparr>)
     | (Inr x, w') \<Rightarrow> (Inr x, w'))"

definition liftE :: "exn + 'a \<Rightarrow> ('x, 'a) tcomp" where
  "liftE r w = (r, w)"

text \<open>Sequencing after the elementary steps.\<close>

named_theorems step_simps "execution of elementary steps"

lemma bind_now [step_simps]: "bindM (nowM env) k w =
  k (fst (te_now env (tw_ext w))) (w\<lparr>tw_ext := snd (te_now env (tw_ext w))\<rparr>)"
  by (simp add: bindM_def nowM_def on_ext_def split_beta)

lemma bind_uuid [step_simps]: "bindM (uuidM env) k w =
  k (fst (te_uuid env (tw_ext w))) (w\<lparr>tw_ext := snd (te_uuid env (tw_ext w))\<rparr>)"
  by (simp add: bindM_def uuidM_def on_ext_def split_beta)

lemma bind_on_tasks [step_simps]: "bindM (on_tasks m) k w =
  (case fst (m (tw_tasks w)) of Inl e \<Rightarrow> (Inl e, w\<lparr>tw_tasks := snd (m (tw_tasks w))\<rparr>)
   | Inr x \<Rightarrow> k x (w\<lparr>tw_tasks := snd (m (tw_tasks w))\<rparr>))"
  by (auto simp: bindM_def on_tasks_def split_beta split: sum.split)

lemma bind_on_approvals [step_simps]: "bindM (on_approvals m) k w =
  (case fst (m (tw_approvals w)) of Inl e \<Rightarrow> (Inl e, w\<lparr>tw_approvals := snd (m (tw_approvals w))\<rparr>)
   | Inr x \<Rightarrow> k x (w\<lparr>tw_approvals := snd (m (tw_approvals w))\<rparr>))"
  by (auto simp: bindM_def on_approvals_def split_beta split: sum.split)

lemma bind_return [step_simps]: "bindM (returnM x) k w = k x w"
  by (simp add: bindM_def returnM_def)

section \<open>The approval gate\<close>

definition requiresApproval :: "agent_principal option \<Rightarrow> string \<Rightarrow> 'x torii_world \<Rightarrow> bool" where
  "requiresApproval pr toolName w =
    (case parseNamespacedTool toolName of
       None \<Rightarrow> False
     | Some (server, bareName) \<Rightarrow> isGatedToolForGroups pr (tw_groups w) server bareName)"

datatype gated_call_intercept =
    GateDenied jobj
  | GateParked mcp_create_task_result

definition park_call ::
    "'x torii_env \<Rightarrow> agent_principal \<Rightarrow> string \<Rightarrow> jobj \<Rightarrow> string option \<Rightarrow> string option \<Rightarrow> int \<Rightarrow>
     ('x, mcp_task) tcomp" where
  "park_call env pr toolName upstreamArgs runId stepId now =
    transactionM
      (bindM (uuidM env) (\<lambda>taskId.
       bindM (on_tasks (createWorkingTask taskId now
          \<lparr>ci_agentId = pr_agentId pr, ci_ownerId = pr_ownerId pr, ci_requestMethod = None,
           ci_statusMessage = Some (''Awaiting operator approval for '' @ toolName),
           ci_ttlMs = Some (Some default_mcp_task_ttl_ms), ci_pollIntervalMs = None,
           ci_now = Some now\<rparr>)) (\<lambda>created.
       bindM (uuidM env) (\<lambda>approvalId.
       bindM (on_approvals (createPendingApproval approvalId now
          \<lparr>ai_principal = pr, ai_toolName = toolName, ai_params = upstreamArgs,
           ai_paramsHash = hashToolParams (te_sha256 env) upstreamArgs, ai_runId = runId,
           ai_stepId = stepId, ai_taskId = Some (mt_taskId created), ai_now = Some now,
           ai_ttlMs = Some default_mcp_task_ttl_ms\<rparr>)) (\<lambda>_.
       returnM created)))))"

definition interceptGatedCall ::
    "'x torii_env \<Rightarrow> agent_principal \<Rightarrow> string \<Rightarrow> jobj \<Rightarrow> string option \<Rightarrow> string option \<Rightarrow>
     int option \<Rightarrow> ('x, gated_call_intercept) tcomp" where
  "interceptGatedCall env pr toolName upstreamArgs runId stepId nowOpt =
    bindM (case nowOpt of Some t \<Rightarrow> returnM t | None \<Rightarrow> nowM env) (\<lambda>t0.
    bindM (on_approvals (findRecentRejection (pr_agentId pr) toolName
             (hashToolParams (te_sha256 env) upstreamArgs) t0)) (\<lambda>suppressed.
    case suppressed of
      Some s \<Rightarrow> returnM (GateDenied (toApprovalDeniedToolResult (re_rejectionReason s)))
    | None \<Rightarrow>
        bindM (case nowOpt of Some t \<Rightarrow> returnM t | None \<Rightarrow> nowM env) (\<lambda>now.
        bindM (park_call env pr toolName upstreamArgs runId stepId now) (\<lambda>task.
        returnM (GateParked (toCreateTaskResult task))))))"

definition claimable :: "agent_principal \<Rightarrow> int \<Rightarrow> approval_record \<Rightarrow> bool" where
  "claimable pr now r \<longleftrightarrow> ap_agentId r = pr_agentId pr \<and> ap_status r = AApproved \<and> \<not> ap_expiresAt r \<le> now"

definition claimApprovedExecution ::
    "string \<Rightarrow> agent_principal \<Rightarrow> int \<Rightarrow> approval_record option approval_comp" where
  "claimApprovedExecution taskId pr now db =
    (case getApprovalByTaskId taskId db of
       None \<Rightarrow> (Inr None, db)
     | Some r \<Rightarrow> if claimable pr now r then markUsed (ap_id r) now db else (Inr None, db))"

definition cancelPendingForTask :: "string \<Rightarrow> int \<Rightarrow> unit approval_comp" where
  "cancelPendingForTask taskId now db =
    (case getApprovalByTaskId taskId db of
       None \<Rightarrow> (Inr (), db)
     | Some r \<Rightarrow>
         if ap_status r \<noteq> APending then (Inr (), db)
         else bindM (ApprovalStore.cancel (ap_id r) now) (\<lambda>_. returnM ()) db)"

section \<open>Frames\<close>

text \<open>
  \<open>frame P m\<close>: whatever \<open>m\<close> does, it keeps the part of the world that \<open>P\<close> reads.
\<close>

definition frame :: "('x torii_world \<Rightarrow> 'p) \<Rightarrow> ('x, 'a) tcomp \<Rightarrow> bool" where
  "frame P m \<longleftrightarrow> preserves (\<lambda>w w'. P w' = P w) m"

named_theorems frames "what a step of a handler leaves alone"

lemma frameD: "frame P m \<Longrightarrow> P (snd (m w)) = P w"
  by (simp add: frame_def preserves_def)

lemma frame_order: "reflp (\<lambda>w w'. P w' = P w)" "transp (\<lambda>w w'. P w' = P w)"
  by (simp_all add: reflp_def transp_def)

lemma frame_return [frames]: "frame P (returnM x)"
  unfolding frame_def by (intro preserves_returnM frame_order)

lemma frame_throw [frames]: "frame P (throwM x)"
  unfolding frame_def by (intro preserves_throwM frame_order)

lemma frame_bind [frames]: "frame P m \<Longrightarrow> (\<And>x. frame P (k x)) \<Longrightarrow> frame P (bindM m k)"
  unfolding frame_def by (intro preserves_bindM frame_order)

lemma frame_catch [frames]: "frame P m \<Longrightarrow> (\<And>e. frame P (h e)) \<Longrightarrow> frame P (catchM m h)"
  unfolding frame_def by (intro preserves_catchM frame_order)

lemma frame_liftE [frames]: "frame P (liftE r)"
  by (simp add: frame_def preserves_def liftE_def)

lemma frame_on_tasks [frames]: "(\<And>w t. P (w\<lparr>tw_tasks := t\<rparr>) = P w) \<Longrightarrow> frame P (on_tasks m)"
  by (simp add: frame_def preserves_def on_tasks_def split_beta)

lemma frame_on_approvals [frames]: "(\<And>w t. P (w\<lparr>tw_approvals := t\<rparr>) = P w) \<Longrightarrow> frame P (on_approvals m)"
  by (simp add: frame_def preserves_def on_approvals_def split_beta)

lemma frame_on_ext [frames]: "(\<And>w t. P (w\<lparr>tw_ext := t\<rparr>) = P w) \<Longrightarrow> frame P (on_ext m)"
  by (simp add: frame_def preserves_def on_ext_def split_beta)

lemma frame_now [frames]: "(\<And>w t. P (w\<lparr>tw_ext := t\<rparr>) = P w) \<Longrightarrow> frame P (nowM env)"
  unfolding nowM_def by (rule frame_on_ext)

lemma frame_uuid [frames]: "(\<And>w t. P (w\<lparr>tw_ext := t\<rparr>) = P w) \<Longrightarrow> frame P (uuidM env)"
  unfolding uuidM_def by (rule frame_on_ext)

lemma frame_transaction [frames]:
  assumes "frame P m" "\<And>w t. P (w\<lparr>tw_tasks := t\<rparr>) = P w" "\<And>w t. P (w\<lparr>tw_approvals := t\<rparr>) = P w"
  shows "frame P (transactionM m)"
proof -
  have "P (w'\<lparr>tw_tasks := t, tw_approvals := a\<rparr>) = P w'" for w' t a
    using assms(2,3) by metis
  then show ?thesis using frameD [OF assms(1)]
    by (auto simp: frame_def preserves_def transactionM_def split: prod.split sum.split)
      (metis snd_conv)+
qed

lemma frame_park [frames]:
  assumes "\<And>w t. P (w\<lparr>tw_tasks := t\<rparr>) = P w" "\<And>w t. P (w\<lparr>tw_approvals := t\<rparr>) = P w"
    "\<And>w t. P (w\<lparr>tw_ext := t\<rparr>) = P w"
  shows "frame P (park_call env pr n a r s t)"
  unfolding park_call_def by (intro frames assms)

lemma frame_intercept [frames]:
  assumes "\<And>w t. P (w\<lparr>tw_tasks := t\<rparr>) = P w" "\<And>w t. P (w\<lparr>tw_approvals := t\<rparr>) = P w"
    "\<And>w t. P (w\<lparr>tw_ext := t\<rparr>) = P w"
  shows "frame P (interceptGatedCall env pr n a r s t)"
  unfolding interceptGatedCall_def
  by (cases t) (auto intro!: frames assms split: option.split)

section \<open>What the gate promises\<close>

lemma task_row_unique:
  assumes "approvals_wf db" "tbl_find (\<lambda>r. ar_task_id r = Some t) (db_approvals db) = Some row"
    and "r \<in> set (db_approvals db)" "ar_id r = ar_id row"
  shows "r = row"
proof -
  have "row \<in> set (db_approvals db)" using assms(2) by (auto dest: tbl_find_Some_in)
  with assms(1,3,4) show ?thesis
    using distinct_key_unique [of ar_id "db_approvals db" r row] by (simp add: approvals_wf_def)
qed

lemma markUsed_db: "db_approvals (snd (markUsed i t db)) =
  tbl_update (unused i) (\<lambda>r. r\<lparr>ar_used_at := Some t\<rparr>) (db_approvals db)"
  by (simp add: markUsed_def Let_def)

lemma markUsed_none: "\<not> returned_some (markUsed i t db) \<Longrightarrow> fst (markUsed i t db) = Inr None"
  by (auto simp: returned_some_def markUsed_def Let_def split: if_splits option.splits)

lemma claim_spec:
  assumes "approvals_wf db" "claimApprovedExecution taskId pr now db = (Inr (Some r), db')"
  shows "\<exists>r0. getApprovalByTaskId taskId db = Some r0 \<and> claimable pr now r0 \<and> ap_usedAt r0 = None \<and>
    r = r0\<lparr>ap_usedAt := Some now\<rparr> \<and> used_up (ap_id r0) db'"
proof -
  from assms(2) obtain r0 where r0: "getApprovalByTaskId taskId db = Some r0" "claimable pr now r0"
    "markUsed (ap_id r0) now db = (Inr (Some r), db')"
    by (auto simp: claimApprovedExecution_def split: option.splits if_splits)
  then obtain row where row: "tbl_find (\<lambda>r. ar_task_id r = Some taskId) (db_approvals db) = Some row"
    "r0 = rowToApproval row" by (auto simp: getApprovalByTaskId_def)
  have id: "ap_id r0 = ar_id row" by (simp add: row(2) rowToApproval_def)
  have "returned_some (markUsed (ap_id r0) now db)" using r0(3) by simp
  from markUsed_some [OF this] obtain x where x: "x \<in> set (db_approvals db)" "ar_id x = ar_id row"
    "ar_used_at x = None" by (auto simp: rows_of_def id)
  then have "x = row" using task_row_unique [OF assms(1) row(1)] by blast
  with x have free: "row \<in> set (db_approvals db)" "ar_used_at row = None" by simp_all
  have "tbl_find (\<lambda>r. ar_id r = ar_id row) (db_approvals db) = Some row"
    using tbl_find_key_in [of ar_id "db_approvals db" row] assms(1) free(1) by (simp add: approvals_wf_def)
  then have "tbl_find (\<lambda>r. ar_id r = ar_id row) (db_approvals db') = Some (row\<lparr>ar_used_at := Some now\<rparr>)"
    using tbl_find_key_update [of ar_id "\<lambda>r. r\<lparr>ar_used_at := Some now\<rparr>" "ar_id row" "unused (ar_id row)"]
      markUsed_db [of "ap_id r0" now db] r0(3) free(2) by (simp add: id unused_def)
  moreover have "r = the (getApproval (ap_id r0) db')"
    using r0(3) by (auto simp: markUsed_def Let_def split: if_splits)
  ultimately have "r = r0\<lparr>ap_usedAt := Some now\<rparr>" by (simp add: id getApproval_def row(2) rowToApproval_def)
  moreover have "rows_of (ap_id r0) db \<noteq> {}" using free(1) by (auto simp: rows_of_def id)
  then have "used_up (ap_id r0) db'" using used_up_after [of "ap_id r0" db now] r0(3) by simp
  moreover have "ap_usedAt r0 = None" using free(2) by (simp add: row(2) rowToApproval_def)
  ultimately show ?thesis using r0(1,2) by blast
qed

text \<open>The approval of a task stays the approval of that task.\<close>

lemma approval_of_task_stays:
  assumes "approvals_wf db" "getApprovalByTaskId t db = Some r0"
    and "getApprovalByTaskId t (run_approvals ops db) = Some r1"
  shows "ap_id r1 = ap_id r0"
proof -
  obtain row where row: "tbl_find (\<lambda>r. ar_task_id r = Some t) (db_approvals db) = Some row" "ap_id r0 = ar_id row"
    using assms(2) by (auto simp: getApprovalByTaskId_def rowToApproval_def)
  have "ar_task_id row = Some t" "row \<in> set (db_approvals db)" using row(1) by (auto dest: tbl_find_Some_in)
  then have f0: "\<exists>x. tbl_find (\<lambda>r. ar_id r = ar_id row) (db_approvals db) = Some x \<and> ar_task_id x = Some t"
    using tbl_find_key_in [of ar_id "db_approvals db" row] assms(1) by (auto simp: approvals_wf_def)
  have "\<exists>x. tbl_find (\<lambda>r. ar_id r = ar_id row) (db_approvals (run_approvals os d)) = Some x \<and> ar_task_id x = Some t"
    if "\<exists>x. tbl_find (\<lambda>r. ar_id r = ar_id row) (db_approvals d) = Some x \<and> ar_task_id x = Some t" for os d
    using that
  proof (induction os arbitrary: d)
    case (Cons y os)
    then obtain x where x: "tbl_find (\<lambda>r. ar_id r = ar_id row) (db_approvals d) = Some x" "ar_task_id x = Some t"
      by blast
    from approvals_step_find [OF approvals_step_op x(1), of y] x(2) Cons.IH [of "run_approval_op y d"] show ?case
      by (auto dest: row_step_fixed)
  qed simp
  from this [OF f0, of ops] obtain x where x: "x \<in> set (db_approvals (run_approvals ops db))"
    "ar_id x = ar_id row" "ar_task_id x = Some t" by (auto dest!: tbl_find_Some_in)
  obtain y where y: "y \<in> set (db_approvals (run_approvals ops db))" "ar_task_id y = Some t" "ap_id r1 = ar_id y"
    using assms(3) by (auto simp: getApprovalByTaskId_def rowToApproval_def dest!: tbl_find_Some_in)
  have "approvals_wf (run_approvals ops db)" by (rule execution.keeps [OF assms(1)])
  then have "x = y"
    using distinct_some_unique [OF _ x(1) y(1) x(3) y(2)] by (simp add: approvals_wf_def del: not_None_eq)
  with x(2) y(3) row(2) show ?thesis by simp
qed

lemma park_call_Inr:
  assumes "park_call env pr tool args rid sid now w = (Inr t, w')"
  shows "\<exists>r s. getApprovalByTaskId (mt_taskId t) (tw_approvals w') = Some r \<and> ap_status r = APending \<and>
    ap_agentId r = pr_agentId pr \<and> ap_toolName r = tool \<and> ap_params r = args \<and>
    getRecord (mt_taskId t) (tw_tasks w') = Some s \<and> st_status s = Working \<and> st_agentId s = pr_agentId pr \<and>
    st_ttlMs s = Some default_mcp_task_ttl_ms \<and> ap_expiresAt r = st_createdAtMs s + default_mcp_task_ttl_ms"
proof -
  let ?i = "fst (te_uuid env (tw_ext w))"
  let ?j = "fst (te_uuid env (snd (te_uuid env (tw_ext w))))"
  let ?ci = "\<lparr>ci_agentId = pr_agentId pr, ci_ownerId = pr_ownerId pr, ci_requestMethod = None,
    ci_statusMessage = Some (''Awaiting operator approval for '' @ tool),
    ci_ttlMs = Some (Some default_mcp_task_ttl_ms), ci_pollIntervalMs = None, ci_now = Some now\<rparr>"
  let ?ai = "\<lambda>i. \<lparr>ai_principal = pr, ai_toolName = tool, ai_params = args,
    ai_paramsHash = hashToolParams (te_sha256 env) args, ai_runId = rid, ai_stepId = sid,
    ai_taskId = Some i, ai_now = Some now, ai_ttlMs = Some default_mcp_task_ttl_ms\<rparr>"
  obtain res t1 where c: "createWorkingTask ?i now ?ci (tw_tasks w) = (res, t1)"
    by (cases "createWorkingTask ?i now ?ci (tw_tasks w)")
  with assms have res: "res = Inr t"
    by (auto simp: park_call_def transactionM_def step_simps returnM_def split: prod.splits sum.splits)
  obtain res2 a1 where p: "createPendingApproval ?j now (?ai (mt_taskId t)) (tw_approvals w) = (res2, a1)"
    by (cases "createPendingApproval ?j now (?ai (mt_taskId t)) (tw_approvals w)")
  with assms c res obtain r0 where r0: "res2 = Inr r0" and w': "tw_tasks w' = t1" "tw_approvals w' = a1"
    by (auto simp: park_call_def transactionM_def step_simps returnM_def split: prod.splits sum.splits)
  from c res have t: "mt_taskId t = ?i" and g: "\<exists>s. getRecord ?i t1 = Some s \<and> st_status s = Working \<and>
      st_agentId s = pr_agentId pr \<and> st_ttlMs s = Some default_mcp_task_ttl_ms \<and> st_createdAtMs s = now"
    by (auto simp: createWorkingTask_def Let_def toMcpTask_def getRecord_def tbl_find_append tbl_find_Cons
        rowToRecord_def split: if_splits)
  from p r0 have "\<exists>r. getApprovalByTaskId (mt_taskId t) a1 = Some r \<and> ap_status r = APending \<and>
      ap_agentId r = pr_agentId pr \<and> ap_toolName r = tool \<and> ap_params r = args \<and>
      ap_expiresAt r = now + default_mcp_task_ttl_ms"
    by (auto simp: createPendingApproval_def Let_def new_approval_def getApprovalByTaskId_def
        tbl_find_append tbl_find_Cons approval_to_row_def rowToApproval_def split: if_splits)
  with g t show ?thesis unfolding w' by auto
qed

lemma park_call_Inl:
  "fst (park_call env pr tool args rid sid now w) = Inl e \<Longrightarrow>
   tw_tasks (snd (park_call env pr tool args rid sid now w)) = tw_tasks w \<and>
   tw_approvals (snd (park_call env pr tool args rid sid now w)) = tw_approvals w"
  by (auto simp: park_call_def transactionM_def split: prod.splits sum.splits)

lemma intercept_eq: "interceptGatedCall env pr tool args rid sid None w =
  (let t0 = fst (te_now env (tw_ext w)); x1 = snd (te_now env (tw_ext w));
       f = findRecentRejection (pr_agentId pr) tool (hashToolParams (te_sha256 env) args) t0 (tw_approvals w)
   in case fst f of
        Inl e \<Rightarrow> (Inl e, w\<lparr>tw_ext := x1, tw_approvals := snd f\<rparr>)
      | Inr (Some s) \<Rightarrow> (Inr (GateDenied (toApprovalDeniedToolResult (re_rejectionReason s))),
          w\<lparr>tw_ext := x1, tw_approvals := snd f\<rparr>)
      | Inr None \<Rightarrow> bindM (park_call env pr tool args rid sid (fst (te_now env x1)))
          (\<lambda>task. returnM (GateParked (toCreateTaskResult task)))
          (w\<lparr>tw_approvals := snd f, tw_ext := snd (te_now env x1)\<rparr>))"
  by (simp add: interceptGatedCall_def step_simps Let_def returnM_def [of "GateDenied _"] split: sum.split option.split)

lemma find_rejection_db: "db_approvals (snd (findRecentRejection a n h t db)) = db_approvals db"
  by (simp add: findRecentRejection_def bindM_def pruneRejections_def)

lemma find_rejection_ok: "fst (findRecentRejection a n h t db) \<noteq> Inl e"
  by (simp add: findRecentRejection_def bindM_def pruneRejections_def)

section \<open>Properties\<close>

definition example_connection :: backend_connection where
  "example_connection =
    \<lparr>bc_config = \<lparr>sc_name = ''mail'', sc_transport = Http ''http://mail'', sc_credential = NoCredential\<rparr>,
     bc_failed = False, bc_client = Some None, bc_error = None\<rparr>"

text \<open>An outside world whose clock stands at \<open>t\<close> and whose only backend answers \<open>reply\<close>.\<close>

definition example_env :: "int \<Rightarrow> jobj \<Rightarrow> nat torii_env" where
  "example_env t reply =
    \<lparr>te_now = (\<lambda>x. (t, x)), te_uuid = (\<lambda>x. (''u'' @ digits x, Suc x)), te_sha256 = (\<lambda>s. s),
     te_is_datetime = (\<lambda>s. True),
     te_findTool = (\<lambda>x n. Some \<lparr>ct_server = ''mail'', ct_bareName = ''send'', ct_inputSchema = JObj []\<rparr>),
     te_get = (\<lambda>x s q. Some example_connection), te_ensureConnected = (\<lambda>s q x. (Inr example_connection, x)),
     te_resolve = (\<lambda>c x. (Inr \<lparr>rc_headers = [], rc_credentialRef = None\<rparr>, x)),
     te_paramHeaders = (\<lambda>s a. Inr []), te_post = (\<lambda>p x. (Inr reply, x))\<rparr>"

definition example_world :: "approval_db \<Rightarrow> task_table \<Rightarrow> group_policy list \<Rightarrow> nat torii_world" where
  "example_world approvals tasks groups =
    \<lparr>tw_tasks = tasks, tw_approvals = approvals, tw_groups = groups, tw_traces = [], tw_logs = [],
     tw_posts = [], tw_ext = 0\<rparr>"

text \<open>
  C7. Claiming an approved execution: it succeeds only for a task whose approval belongs to the
  agent, is approved, has not expired and was not used; it hands out that very approval and
  leaves it used, so that every later claim of the task finds nothing.
\<close>

theorem claim_is_exclusive:
  assumes "approvals_wf db" "claimApprovedExecution taskId pr now db = (Inr (Some r), db')"
  shows "(\<exists>r0. getApprovalByTaskId taskId db = Some r0 \<and> ap_agentId r0 = pr_agentId pr \<and>
      ap_status r0 = AApproved \<and> now < ap_expiresAt r0 \<and> ap_usedAt r0 = None \<and>
      r = r0\<lparr>ap_usedAt := Some now\<rparr>) \<and>
    fst (claimApprovedExecution taskId pr' now' (run_approvals ops db')) = Inr None"
proof -
  from claim_spec [OF assms] obtain r0 where r0: "getApprovalByTaskId taskId db = Some r0"
    "claimable pr now r0" "ap_usedAt r0 = None" "r = r0\<lparr>ap_usedAt := Some now\<rparr>" "used_up (ap_id r0) db'" by blast
  have db': "db' = run_approval_op (MarkUsed (ap_id r0) now) db"
    using assms(2) r0(1,2) by (simp add: claimApprovedExecution_def)
  let ?d = "run_approvals ops db'"
  have wf': "approvals_wf db'" unfolding db' by (rule approval_invariant.step_keeps [OF assms(1)]) simp
  have used: "used_up (ap_id r0) ?d" by (rule execution.spent_run [OF wf' r0(5)])
  have wf: "approvals_wf ?d" by (rule execution.keeps [OF wf'])
  have "\<not> returned_some (markUsed (ap_id r1) now' ?d)" if "getApprovalByTaskId taskId ?d = Some r1" for r1
  proof -
    have "ap_id r1 = ap_id r0"
      using approval_of_task_stays [OF assms(1) r0(1), of "MarkUsed (ap_id r0) now # ops"] that by (simp add: db')
    then show ?thesis using used markUsed_some [of "ap_id r1" now' ?d] unfolding used_up_def by metis
  qed
  then have "fst (claimApprovedExecution taskId pr' now' ?d) = Inr None"
    by (auto simp: claimApprovedExecution_def intro: markUsed_none split: option.split)
  then show ?thesis using r0(1-4) by (auto simp: claimable_def)
qed

theorem claim_is_exclusive_witness:
  "\<exists>r db'. claimApprovedExecution ''t1'' (example_agent []) 3000 (snd (approve ''p1'' 2000 example_approvals)) =
       (Inr (Some r), db') \<and>
     fst (claimApprovedExecution ''t1'' (example_agent []) 3001 (run_approvals [] db')) = Inr None"
proof -
  have wf: "approvals_wf (snd (approve ''p1'' 2000 example_approvals))"
    using approval_invariant.step_keeps [OF example_approvals_wf, of "Approve ''p1'' 2000"] by simp
  have "\<exists>r db'. claimApprovedExecution ''t1'' (example_agent []) 3000 (snd (approve ''p1'' 2000 example_approvals)) =
      (Inr (Some r), db')"
    by (simp add: approval_example_defs approve_def decidePending_def decidable_now_def tbl_update_def
        claimApprovedExecution_def getApprovalByTaskId_def rowToApproval_def claimable_def example_agent_def
        markUsed_def unused_def getApproval_def decide_columns_def)
  then show ?thesis using claim_is_exclusive [OF wf] by blast
qed

text \<open>
  A gated call that the gate parks waits: under the returned task id there is a working task
  of the agent and a pending approval that holds exactly the tool and the arguments of the call,
  and the two expire at the same moment. If parking throws, neither of them is left behind.
\<close>

theorem gate_parks_atomically:
  "case interceptGatedCall env pr tool args rid sid None w of
     (Inr (GateParked t), w') \<Rightarrow>
       (\<exists>r s. getApprovalByTaskId (mt_taskId t) (tw_approvals w') = Some r \<and> ap_status r = APending \<and>
          ap_agentId r = pr_agentId pr \<and> ap_toolName r = tool \<and> ap_params r = args \<and>
          getRecord (mt_taskId t) (tw_tasks w') = Some s \<and> st_status s = Working \<and> st_agentId s = pr_agentId pr \<and>
          st_ttlMs s = Some default_mcp_task_ttl_ms \<and> ap_expiresAt r = st_createdAtMs s + default_mcp_task_ttl_ms)
   | (_, w') \<Rightarrow> tw_tasks w' = tw_tasks w \<and> db_approvals (tw_approvals w') = db_approvals (tw_approvals w)"
proof -
  let ?x = "snd (te_now env (tw_ext w))"
  define f where "f = findRecentRejection (pr_agentId pr) tool (hashToolParams (te_sha256 env) args)
    (fst (te_now env (tw_ext w))) (tw_approvals w)"
  have a: "db_approvals (snd f) = db_approvals (tw_approvals w)" by (simp add: f_def find_rejection_db)
  let ?w = "w\<lparr>tw_approvals := snd f, tw_ext := snd (te_now env ?x)\<rparr>"
  let ?p = "park_call env pr tool args rid sid (fst (te_now env ?x)) ?w"
  note i = intercept_eq [of env pr tool args rid sid w, folded f_def, unfolded Let_def, folded f_def]
  show ?thesis
  proof (cases "fst f")
    case (Inr s)
    show ?thesis
    proof (cases s)
      case None
      show ?thesis
      proof (cases "fst ?p")
        case (Inl e)
        then show ?thesis using park_call_Inl [OF Inl] a
          by (cases ?p) (simp add: i Inr None bindM_def)
      next
        case r: (Inr t)
        then show ?thesis using park_call_Inr [of env pr tool args rid sid "fst (te_now env ?x)" ?w t "snd ?p"]
          by (cases ?p) (simp add: i Inr None bindM_def r returnM_def)
      qed
    qed (simp add: i Inr a)
  qed (simp add: i a)
qed

text \<open>
  A call that an operator rejected is denied again: within an hour of the rejection, whatever
  the store was asked in between, the gate answers the same agent calling the same tool with the
  same arguments, in whatever key order, with a denial, and parks nothing.
\<close>

theorem rejected_call_is_denied_again:
  assumes "fst (reject i q t0 db) = Inr (Some r)" "\<forall>x \<in> set ops. within_hour t0 x"
    and "tw_approvals w = run_approvals ops (snd (reject i q t0 db))"
    and "ap_agentId r = pr_agentId pr" "ap_toolName r = tool"
    and "ap_paramsHash r = hashToolParams (te_sha256 env) args0" "canon (JObj args) = canon (JObj args0)"
    and "fst (te_now env (tw_ext w)) \<le> t0 + rejection_suppression_ttl_ms"
  shows "\<exists>reason. fst (interceptGatedCall env pr tool args rid sid None w) =
      Inr (GateDenied (toApprovalDeniedToolResult reason)) \<and>
    tw_tasks (snd (interceptGatedCall env pr tool args rid sid None w)) = tw_tasks w"
proof -
  have h: "hashToolParams (te_sha256 env) args = ap_paramsHash r"
    unfolding assms(6) hashToolParams_def stable_stringify_canon assms(7) ..
  have "suppressed (ap_agentId r) (ap_toolName r) (ap_paramsHash r) t0 (tw_approvals w)"
    unfolding assms(3) by (rule suppression.run_keeps [OF suppressed_after_reject [OF assms(1)] assms(2)])
  from suppressed_found [OF this assms(8)] obtain e where
    e: "fst (findRecentRejection (pr_agentId pr) tool (hashToolParams (te_sha256 env) args)
          (fst (te_now env (tw_ext w))) (tw_approvals w)) = Inr (Some e)"
    unfolding h assms(4,5) by blast
  show ?thesis unfolding intercept_eq Let_def e by auto
qed

theorem rejected_call_is_denied_again_witness:
  "\<exists>reason. fst (interceptGatedCall (example_env 3000 []) (example_agent []) ''mail.send''
       [(''b'', JInt 2), (''a'', JInt 1)] None None None
       (example_world (snd (reject ''p1'' None 2000 (snd (createPendingApproval ''p1'' 1000
         (example_input\<lparr>ai_params := [(''a'', JInt 1), (''b'', JInt 2)],
           ai_paramsHash := hashToolParams (\<lambda>s. s) [(''a'', JInt 1), (''b'', JInt 2)]\<rparr>)
         \<lparr>db_approvals = [], db_rejections = []\<rparr>)))) [] [])) = Inr (GateDenied (toApprovalDeniedToolResult reason))"
proof -
  let ?args = "[(''a'', JInt 1), (''b'', JInt 2)]"
  let ?db = "snd (createPendingApproval ''p1'' 1000 (example_input\<lparr>ai_params := ?args,
    ai_paramsHash := hashToolParams (\<lambda>s. s) ?args\<rparr>) \<lparr>db_approvals = [], db_rejections = []\<rparr>)"
  have "\<exists>r. fst (reject ''p1'' None 2000 ?db) = Inr (Some r) \<and> ap_agentId r = ''a1'' \<and>
      ap_toolName r = ''mail.send'' \<and> ap_paramsHash r = hashToolParams (\<lambda>s. s) ?args"
    by (simp add: reject_result approval_example_defs decidePending_def decidable_now_def tbl_update_def
        getApproval_def rowToApproval_def decide_columns_def)
  then obtain r where r: "fst (reject ''p1'' None 2000 ?db) = Inr (Some r)" "ap_agentId r = ''a1''"
    "ap_toolName r = ''mail.send''" "ap_paramsHash r = hashToolParams (\<lambda>s. s) ?args" by blast
  let ?w = "example_world (snd (reject ''p1'' None 2000 ?db)) [] []"
  have c: "canon (JObj [(''b'', JInt 2), (''a'', JInt 1)]) = canon (JObj ?args)" by simp
  have "\<exists>reason. fst (interceptGatedCall (example_env 3000 []) (example_agent []) ''mail.send''
      [(''b'', JInt 2), (''a'', JInt 1)] None None None ?w) = Inr (GateDenied (toApprovalDeniedToolResult reason)) \<and>
    tw_tasks (snd (interceptGatedCall (example_env 3000 []) (example_agent []) ''mail.send''
      [(''b'', JInt 2), (''a'', JInt 1)] None None None ?w)) = tw_tasks ?w"
    by (rule rejected_call_is_denied_again [OF r(1), where ops = "[]" and ?args0.0 = ?args])
      (simp_all add: r(2-4) example_world_def example_env_def example_agent_def c rejection_suppression_ttl_ms_def del: canon.simps)
  then show ?thesis by blast
qed

end
