(* ===== verification/ToolDispatch.thy ===== *)
theory ToolDispatch
  imports Gateway
begin

text \<open>
  \<^verbatim>\<open>apps/torii/src/dispatch/tool-dispatch.service.ts\<close>: a \<open>tools/call\<close> through policy, approval
  gate, backend connection and backend request, the inline execution of an approved call, the
  synchronisation of tasks that a backend originated, and cancellation upstream. \<open>pr\<close> is the
  principal of the request context, which \<open>getAgentPrincipal\<close> reads or throws.
\<close>

section \<open>Call context\<close>

record call_context =
  cx_namespacedName :: string
  cx_args :: parsed_tool_arguments
  cx_server :: string
  cx_tool :: string
  cx_agentPrincipal :: agent_principal
  cx_startedAt :: int
  cx_traceId :: string
  cx_timestamp :: string

definition getAgentPrincipal :: "agent_principal option \<Rightarrow> ('x, agent_principal) tcomp" where
  "getAgentPrincipal pr =
    (case pr of None \<Rightarrow> throwM (Plain ''AgentPrincipal not set on request context'')
     | Some p \<Rightarrow> returnM p)"

definition createCallContext ::
    "'x torii_env \<Rightarrow> agent_principal option \<Rightarrow> string \<Rightarrow> jobj option \<Rightarrow> ('x, call_context) tcomp" where
  "createCallContext env pr namespacedName args =
    bindM (uuidM env) (\<lambda>traceId.
    bindM (nowM env) (\<lambda>t.
    bindM (getAgentPrincipal pr) (\<lambda>p.
    bindM (nowM env) (\<lambda>startedAt.
      returnM \<lparr>cx_namespacedName = namespacedName, cx_args = parseToolArguments args,
        cx_server = fst (parseNamespacedToolName namespacedName),
        cx_tool = snd (parseNamespacedToolName namespacedName), cx_agentPrincipal = p,
        cx_startedAt = startedAt, cx_traceId = traceId, cx_timestamp = to_iso_string t\<rparr>))))"

definition cx_ownerId :: "call_context \<Rightarrow> string option" where
  "cx_ownerId ctx = Some (pr_ownerId (cx_agentPrincipal ctx))"

text \<open>\<open>ctx.emit\<close>: non-empty run and step ids of the call are added to the fields.\<close>

definition call_fields ::
    "call_context \<Rightarrow> string \<Rightarrow> string \<Rightarrow> string option \<Rightarrow> policy_decision \<Rightarrow> int option \<Rightarrow> string option \<Rightarrow>
     trace_fields" where
  "call_fields ctx server tool cred decision duration err =
    \<lparr>tf_server = server, tf_tool = tool, tf_principal = toTracePrincipal (Some (cx_agentPrincipal ctx)),
     tf_credentialRef = cred, tf_policyDecision = decision, tf_durationMs = duration, tf_error = err,
     tf_runId = (if truthy_str (pa_runId (cx_args ctx)) then pa_runId (cx_args ctx) else None),
     tf_stepId = (if truthy_str (pa_stepId (cx_args ctx)) then pa_stepId (cx_args ctx) else None),
     tf_taskId = None, tf_backendTaskId = None\<rparr>"

definition emit :: "call_context \<Rightarrow> trace_fields \<Rightarrow> ('x, unit) tcomp" where
  "emit ctx f w =
    (Inr (), w\<lparr>tw_traces := tw_traces w @ [finalizeCallTrace f (cx_traceId ctx) (cx_timestamp ctx)]\<rparr>)"

text \<open>\<open>durationMs: Date.now() - ctx.startedAt\<close>.\<close>

definition since_start :: "'x torii_env \<Rightarrow> call_context \<Rightarrow> ('x, int) tcomp" where
  "since_start env ctx = bindM (nowM env) (\<lambda>t. returnM (t - cx_startedAt ctx))"

section \<open>Policy and gate\<close>

definition evaluateM :: "call_context \<Rightarrow> ('x, policy_evaluation) tcomp" where
  "evaluateM ctx w =
    (case evaluate (tw_groups w) (Some (cx_agentPrincipal ctx)) (cx_server ctx) (cx_tool ctx) of
       (evaluation, logs) \<Rightarrow> (Inr evaluation, w\<lparr>tw_logs := tw_logs w @ logs\<rparr>))"

definition enforcePolicyOrThrow :: "call_context \<Rightarrow> ('x, unit) tcomp" where
  "enforcePolicyOrThrow ctx =
    bindM (evaluateM ctx) (\<lambda>evaluation.
      if pe_decision evaluation \<noteq> Denied then returnM ()
      else bindM (emit ctx (call_fields ctx (cx_server ctx) (cx_tool ctx) None Denied None
                   (Some (or_else (pe_reason evaluation) ''policy denied''))))
             (\<lambda>_. throwM (PolicyDeniedError (cx_namespacedName ctx)
                \<lparr>cm_traceId = cx_traceId ctx, cm_decision = Some DDenied, cm_durationMs = None\<rparr>)))"

definition intercept_result :: "gated_call_intercept \<Rightarrow> jobj" where
  "intercept_result i =
    (case i of GateParked t \<Rightarrow> create_task_json t | GateDenied r \<Rightarrow> r)"

definition tryHandleApprovalGate :: "'x torii_env \<Rightarrow> call_context \<Rightarrow> ('x, jobj option) tcomp" where
  "tryHandleApprovalGate env ctx w =
    (if \<not> requiresApproval (Some (cx_agentPrincipal ctx)) (cx_namespacedName ctx) w then (Inr None, w)
     else bindM (interceptGatedCall env (cx_agentPrincipal ctx) (cx_namespacedName ctx)
               (pa_upstreamArgs (cx_args ctx)) (pa_runId (cx_args ctx)) (pa_stepId (cx_args ctx)) None)
            (\<lambda>intercepted.
          bindM (since_start env ctx) (\<lambda>d.
          bindM (emit ctx (call_fields ctx (cx_server ctx) (cx_tool ctx) None Allowed (Some d) None))
            (\<lambda>_. returnM (Some (intercept_result intercepted))))) w)"

section \<open>The backend\<close>

record connected_backend_target =
  tg_entry :: catalog_tool
  tg_config :: server_config
  tg_client :: "string option"
  tg_credentialRef :: string

definition unavailable_trace ::
    "call_context \<Rightarrow> catalog_tool \<Rightarrow> backend_connection option \<Rightarrow> string \<Rightarrow> ('x, unit) tcomp" where
  "unavailable_trace ctx entry conn reason =
    emit ctx (call_fields ctx (ct_server entry) (ct_bareName entry)
      (map_option (\<lambda>c. deriveCredentialRef (bc_config c) (cx_ownerId ctx)) conn) Allowed None
      (Some (exn_message (BackendUnavailableError (ct_server entry) reason))))"

definition unavailable ::
    "call_context \<Rightarrow> catalog_tool \<Rightarrow> backend_connection option \<Rightarrow> string \<Rightarrow> ('x, 'a) tcomp" where
  "unavailable ctx entry conn reason =
    bindM (unavailable_trace ctx entry conn reason)
      (\<lambda>_. throwM (BackendUnavailableError (ct_server entry) reason))"

text \<open>What is left to check once there is a connection record; the client may still be null.\<close>

definition check_connection ::
    "call_context \<Rightarrow> catalog_tool \<Rightarrow> backend_connection \<Rightarrow> ('x, connected_backend_target) tcomp" where
  "check_connection ctx entry c =
    (if bc_failed c
     then unavailable ctx entry (Some c) (or_else (bc_error c) ''connection failed'')
     else (case bc_client c of
         None \<Rightarrow> unavailable ctx entry (Some c) ''not connected''
       | Some client \<Rightarrow> returnM
           \<lparr>tg_entry = entry, tg_config = bc_config c, tg_client = client,
            tg_credentialRef = deriveCredentialRef (bc_config c) (cx_ownerId ctx)\<rparr>))"

definition usable :: "backend_connection \<Rightarrow> bool" where
  "usable c \<longleftrightarrow> \<not> bc_failed c \<and> bc_client c \<noteq> None"

definition obtainConnection ::
    "'x torii_env \<Rightarrow> call_context \<Rightarrow> catalog_tool \<Rightarrow> backend_connection option \<Rightarrow> ('x, backend_connection) tcomp" where
  "obtainConnection env ctx entry conn =
    (let retry = catchM (on_ext (te_ensureConnected env (ct_server entry) (cx_ownerId ctx)))
           (\<lambda>e. unavailable ctx entry conn (exn_message e))
     in case conn of None \<Rightarrow> retry | Some c \<Rightarrow> if usable c then returnM c else retry)"

definition resolveConnectedBackend ::
    "'x torii_env \<Rightarrow> call_context \<Rightarrow> ('x, connected_backend_target) tcomp" where
  "resolveConnectedBackend env ctx w =
    (case te_findTool env (tw_ext w) (cx_namespacedName ctx) of
       None \<Rightarrow>
         bindM (emit ctx (call_fields ctx (cx_server ctx) (cx_tool ctx) None Allowed None
                  (Some (exn_message (ToolNotFoundError (cx_namespacedName ctx))))))
           (\<lambda>_. throwM (ToolNotFoundError (cx_namespacedName ctx))) w
     | Some entry \<Rightarrow>
         bindM (obtainConnection env ctx entry (te_get env (tw_ext w) (ct_server entry) (cx_ownerId ctx)))
           (check_connection ctx entry) w)"

definition backendHttpUrl :: "server_config \<Rightarrow> ('x, string) tcomp" where
  "backendHttpUrl config =
    (case sc_transport config of
       Http url \<Rightarrow> returnM url
     | OtherTransport t \<Rightarrow>
         throwM (Plain (''Unsupported transport type for server \"'' @ sc_name config @ ''\"'')))"

text \<open>Sending a request is recorded whether or not it is answered.\<close>

definition postM :: "'x torii_env \<Rightarrow> backend_post \<Rightarrow> ('x, jobj) tcomp" where
  "postM env p w = on_ext (te_post env p) (w\<lparr>tw_posts := tw_posts w @ [p]\<rparr>)"

definition merge_headers :: "(string \<times> string) list \<Rightarrow> (string \<times> string) list \<Rightarrow> (string \<times> string) list" where
  "merge_headers a b = foldl (\<lambda>m (k, v). map_put k v m) (map_of_entries a) b"

text \<open>
  \<open>postBackendCancel\<close>: every failure is swallowed. The owner is the given one or none.
\<close>

definition postBackendCancel :: "'x torii_env \<Rightarrow> string \<Rightarrow> string \<Rightarrow> string option \<Rightarrow> ('x, unit) tcomp" where
  "postBackendCancel env server backendTaskId ownerId =
    catchM
      (bindM (on_ext (te_ensureConnected env server ownerId)) (\<lambda>c.
        case (sc_transport (bc_config c), bc_client c) of
          (Http url, Some version) \<Rightarrow>
            bindM (on_ext (te_resolve env (bc_config c))) (\<lambda>resolved.
            bindM (postM env \<lparr>bp_url = url, bp_method = ''tasks/cancel'',
              bp_params = [(''taskId'', JStr backendTaskId)], bp_headers = rc_headers resolved,
              bp_protocolVersion = version\<rparr>) (\<lambda>_. returnM ()))
        | _ \<Rightarrow> returnM ()))
      (\<lambda>_. returnM ())"

record proxy_options =
  po_clientDeclaresTasks :: bool
  po_existingTaskId :: "string option"

definition allowed_meta :: "call_context \<Rightarrow> int option \<Rightarrow> torii_call_meta" where
  "allowed_meta ctx d = \<lparr>cm_traceId = cx_traceId ctx, cm_decision = Some DAllowed, cm_durationMs = d\<rparr>"

definition rejectBackendTask ::
    "'x torii_env \<Rightarrow> call_context \<Rightarrow> connected_backend_target \<Rightarrow> mcp_create_task_result \<Rightarrow> string \<Rightarrow>
     int \<Rightarrow> string \<Rightarrow> ('x, jobj) tcomp" where
  "rejectBackendTask env ctx target backendTask cred durationMs message =
    bindM (since_start env ctx) (\<lambda>d.
    bindM (emit ctx ((call_fields ctx (ct_server (tg_entry target)) (ct_bareName (tg_entry target)) (Some cred)
             Allowed (Some d) (Some message))\<lparr>tf_backendTaskId := Some (mt_taskId backendTask)\<rparr>)) (\<lambda>_.
    bindM (postBackendCancel env (ct_server (tg_entry target)) (mt_taskId backendTask) None) (\<lambda>_.
    returnM (withToriiCallMeta (unsupportedBackendResultToolResult message) (allowed_meta ctx (Some durationMs))))))"

definition adopted_input :: "agent_principal \<Rightarrow> string \<Rightarrow> mcp_create_task_result \<Rightarrow> create_mcp_task_input" where
  "adopted_input p message t =
    \<lparr>ci_agentId = pr_agentId p, ci_ownerId = pr_ownerId p, ci_requestMethod = None,
     ci_statusMessage = Some message, ci_ttlMs = Some (mt_ttlMs t),
     ci_pollIntervalMs = mt_pollIntervalMs t, ci_now = None\<rparr>"

text \<open>\<open>options.existingTaskId\<close> is tested for truthiness: an empty id counts as absent.\<close>

definition bind_origin ::
    "'x torii_env \<Rightarrow> call_context \<Rightarrow> connected_backend_target \<Rightarrow> mcp_create_task_result \<Rightarrow> proxy_options \<Rightarrow>
     ('x, stored_mcp_task option) tcomp" where
  "bind_origin env ctx target backendTask options =
    (let server = ct_server (tg_entry target);
         statusMessage = ''Waiting on '' @ server @ '' task'';
         origin = \<lparr>bo_server = server, bo_backendTaskId = mt_taskId backendTask,
           bo_pollIntervalMs = mt_pollIntervalMs backendTask, bo_statusMessage = Some statusMessage\<rparr>
     in if truthy_str (po_existingTaskId options)
        then bindM (nowM env) (\<lambda>t. on_tasks (attachBackendOrigin (or_else (po_existingTaskId options) []) origin t))
        else bindM (nowM env) (\<lambda>t0. bindM (uuidM env) (\<lambda>i.
          bindM (on_tasks (createWorkingTask i t0 (adopted_input (cx_agentPrincipal ctx) statusMessage backendTask)))
            (\<lambda>created. bindM (nowM env) (\<lambda>t. on_tasks (attachBackendOrigin (mt_taskId created) origin t))))))"

definition adopted ::
    "'x torii_env \<Rightarrow> call_context \<Rightarrow> connected_backend_target \<Rightarrow> mcp_create_task_result \<Rightarrow> string \<Rightarrow> int \<Rightarrow>
     stored_mcp_task option \<Rightarrow> ('x, jobj) tcomp" where
  "adopted env ctx target backendTask cred durationMs stored =
    (case stored of
       None \<Rightarrow> rejectBackendTask env ctx target backendTask cred durationMs
                 ''Failed to persist backend-originated task''
     | Some r \<Rightarrow>
         bindM (since_start env ctx) (\<lambda>d.
         bindM (emit ctx ((call_fields ctx (ct_server (tg_entry target)) (ct_bareName (tg_entry target)) (Some cred)
             Allowed (Some d) None)
             \<lparr>tf_taskId := Some (st_taskId r), tf_backendTaskId := Some (mt_taskId backendTask)\<rparr>))
           (\<lambda>_. returnM (create_task_json (toCreateTaskResult (toMcpTask r))))))"

definition adoptBackendTask ::
    "'x torii_env \<Rightarrow> call_context \<Rightarrow> connected_backend_target \<Rightarrow> mcp_create_task_result \<Rightarrow> proxy_options \<Rightarrow>
     string \<Rightarrow> int \<Rightarrow> ('x, jobj) tcomp" where
  "adoptBackendTask env ctx target backendTask options cred durationMs =
    (if \<not> po_clientDeclaresTasks options \<and> \<not> truthy_str (po_existingTaskId options)
     then rejectBackendTask env ctx target backendTask cred durationMs backendTaskWithoutClientCapabilityMessage
     else bindM (bind_origin env ctx target backendTask options) (adopted env ctx target backendTask cred durationMs))"

text \<open>
  The body of the \<open>try\<close> of \<open>proxyCallToBackend\<close> ends with a result, or with a backend task to
  adopt. The code returns the promise of \<open>adoptBackendTask\<close> without awaiting it, so what that
  throws is not caught here.
\<close>

datatype proxied = Settled jobj | Adopt mcp_create_task_result string int

definition settle_reply ::
    "'x torii_env \<Rightarrow> call_context \<Rightarrow> connected_backend_target \<Rightarrow> string \<Rightarrow> int \<Rightarrow> jobj \<Rightarrow> ('x, proxied) tcomp" where
  "settle_reply env ctx target cred durationMs raw =
    (let entry = tg_entry target;
         fields = (\<lambda>d err. call_fields ctx (ct_server entry) (ct_bareName entry) (Some cred) Allowed (Some d) err)
     in case classifyBackendToolResult (te_is_datetime env) (JObj raw) of
          CComplete value \<Rightarrow>
            bindM (since_start env ctx) (\<lambda>d.
            bindM (if truthy_prop (map_of value ''isError'')
                   then bindM (liftE (formatBackendToolError value)) (\<lambda>e. returnM (Some e)) else returnM None) (\<lambda>err.
            bindM (emit ctx (fields d err)) (\<lambda>_.
            returnM (Settled (withToriiCallMeta value (allowed_meta ctx (Some durationMs)))))))
        | CTask t \<Rightarrow> returnM (Adopt t cred durationMs)
        | CInputRequired \<Rightarrow>
            bindM (since_start env ctx) (\<lambda>d.
            bindM (emit ctx (fields d (Some backend_input_required_message))) (\<lambda>_.
            returnM (Settled (withToriiCallMeta (unsupportedBackendResultToolResult backend_input_required_message)
              (allowed_meta ctx (Some durationMs))))))
        | CUnrecognized rt \<Rightarrow>
            bindM (since_start env ctx) (\<lambda>d.
            bindM (emit ctx (fields d (Some (unrecognizedBackendResultTypeMessage rt)))) (\<lambda>_.
            returnM (Settled (withToriiCallMeta
              (unsupportedBackendResultToolResult (unrecognizedBackendResultTypeMessage rt))
              (allowed_meta ctx (Some durationMs)))))))"

definition call_post :: "call_context \<Rightarrow> connected_backend_target \<Rightarrow> string \<Rightarrow> (string \<times> string) list \<Rightarrow> backend_post" where
  "call_post ctx target url headers =
    \<lparr>bp_url = url, bp_method = ''tools/call'',
     bp_params = [(''name'', JStr (ct_bareName (tg_entry target))),
       (''arguments'', JObj (pa_upstreamArgs (cx_args ctx)))],
     bp_headers = headers, bp_protocolVersion = tg_client target\<rparr>"

definition send_call ::
    "'x torii_env \<Rightarrow> call_context \<Rightarrow> connected_backend_target \<Rightarrow> ('x, proxied) tcomp" where
  "send_call env ctx target =
    bindM (on_ext (te_resolve env (tg_config target))) (\<lambda>resolved.
    bindM (nowM env) (\<lambda>backendStarted.
    bindM (backendHttpUrl (tg_config target)) (\<lambda>url.
    bindM (liftE (te_paramHeaders env (ct_inputSchema (tg_entry target)) (pa_upstreamArgs (cx_args ctx)))) (\<lambda>ph.
    bindM (postM env (call_post ctx target url (merge_headers (rc_headers resolved) ph))) (\<lambda>raw.
    bindM (nowM env) (\<lambda>t.
      settle_reply env ctx target (or_else (rc_credentialRef resolved) (tg_credentialRef target))
        (max 0 (t - backendStarted)) raw))))))"

definition call_failed ::
    "'x torii_env \<Rightarrow> call_context \<Rightarrow> connected_backend_target \<Rightarrow> exn \<Rightarrow> ('x, proxied) tcomp" where
  "call_failed env ctx target e =
    (let fields = (\<lambda>d. call_fields ctx (ct_server (tg_entry target)) (ct_bareName (tg_entry target))
           (Some (tg_credentialRef target)) Allowed d (Some (exn_message e)))
     in case e of
          LinkingRequiredError provider ownerId backend linkUrl \<Rightarrow>
            bindM (emit ctx (fields None)) (\<lambda>_.
            returnM (Settled (withToriiCallMeta (toLinkingRequiredToolResult provider ownerId backend linkUrl)
              \<lparr>cm_traceId = cx_traceId ctx, cm_decision = Some DLinkingRequired, cm_durationMs = None\<rparr>)))
        | _ \<Rightarrow>
            bindM (since_start env ctx) (\<lambda>d.
            bindM (emit ctx (fields (Some d))) (\<lambda>_. throwM e)))"

definition proxyCallToBackend ::
    "'x torii_env \<Rightarrow> call_context \<Rightarrow> connected_backend_target \<Rightarrow> proxy_options \<Rightarrow> ('x, jobj) tcomp" where
  "proxyCallToBackend env ctx target options =
    bindM (catchM (send_call env ctx target) (call_failed env ctx target)) (\<lambda>p.
      case p of
        Settled r \<Rightarrow> returnM r
      | Adopt t cred d \<Rightarrow> adoptBackendTask env ctx target t options cred d)"

section \<open>The handlers\<close>

definition callTool ::
    "'x torii_env \<Rightarrow> agent_principal option \<Rightarrow> string \<Rightarrow> jobj option \<Rightarrow> bool \<Rightarrow> ('x, jobj) tcomp" where
  "callTool env pr namespacedName args clientDeclaresTasks =
    bindM (createCallContext env pr namespacedName args) (\<lambda>ctx.
    bindM (enforcePolicyOrThrow ctx) (\<lambda>_.
    bindM (tryHandleApprovalGate env ctx) (\<lambda>gated.
      case gated of
        Some r \<Rightarrow>
          returnM (if isParkedTaskResult r then r
            else withToriiCallMeta r
              \<lparr>cm_traceId = cx_traceId ctx, cm_decision = Some DApprovalRequired, cm_durationMs = None\<rparr>)
      | None \<Rightarrow>
          bindM (resolveConnectedBackend env ctx) (\<lambda>target.
            proxyCallToBackend env ctx target
              \<lparr>po_clientDeclaresTasks = clientDeclaresTasks, po_existingTaskId = None\<rparr>))))"

text \<open>The JSON-RPC code of an internal error.\<close>

definition internal_error :: "string \<Rightarrow> jobj" where
  "internal_error message = [(''code'', JInt (- 32603)), (''message'', JStr message)]"

definition approved_args :: "approval_record \<Rightarrow> jobj" where
  "approved_args r =
    (let a = (if truthy_str (ap_runId r) then map_put torii_run_id_arg (JStr (or_else (ap_runId r) [])) (ap_params r)
              else ap_params r)
     in if truthy_str (ap_stepId r) then map_put torii_step_id_arg (JStr (or_else (ap_stepId r) [])) a else a)"

definition run_approved ::
    "'x torii_env \<Rightarrow> agent_principal option \<Rightarrow> string \<Rightarrow> approval_record \<Rightarrow> ('x, unit) tcomp" where
  "run_approved env pr taskId claimed =
    bindM (createCallContext env pr (ap_toolName claimed) (Some (approved_args claimed))) (\<lambda>ctx.
      catchM
        (bindM (resolveConnectedBackend env ctx) (\<lambda>target.
         bindM (proxyCallToBackend env ctx target
            \<lparr>po_clientDeclaresTasks = True, po_existingTaskId = Some taskId\<rparr>) (\<lambda>result.
         if isParkedTaskResult result then returnM ()
         else bindM (nowM env) (\<lambda>t.
           bindM (on_tasks (complete taskId (callToolResultToRecord result) t)) (\<lambda>_. returnM ())))))
        (\<lambda>e. bindM (nowM env) (\<lambda>t.
           bindM (on_tasks (fail taskId (internal_error (exn_message e)) t)) (\<lambda>_. returnM ()))))"

definition executeApprovedTask ::
    "'x torii_env \<Rightarrow> agent_principal option \<Rightarrow> string \<Rightarrow> ('x, unit) tcomp" where
  "executeApprovedTask env pr taskId =
    bindM (getAgentPrincipal pr) (\<lambda>p.
    bindM (nowM env) (\<lambda>t.
    bindM (on_approvals (claimApprovedExecution taskId p t)) (\<lambda>claimed.
    case claimed of
      None \<Rightarrow> returnM ()
    | Some r \<Rightarrow>
        bindM (nowM env) (\<lambda>t2.
        bindM (on_tasks (getDetailedTask (pr_agentId p) taskId t2)) (\<lambda>stored.
          if mt_status stored \<noteq> Working then returnM ()
          else run_approved env pr taskId r)))))"

definition hasBackendOrigin :: "stored_mcp_task \<Rightarrow> bool" where
  "hasBackendOrigin t \<longleftrightarrow> st_backendServer t \<noteq> None \<and> st_backendTaskId t \<noteq> None"

definition findBackendOriginTask ::
    "'x torii_env \<Rightarrow> agent_principal option \<Rightarrow> string \<Rightarrow> ('x, stored_mcp_task option) tcomp" where
  "findBackendOriginTask env pr taskId =
    bindM (getAgentPrincipal pr) (\<lambda>p.
    catchM
      (bindM (nowM env) (\<lambda>t.
       bindM (on_tasks (requireOwnedTask (pr_agentId p) taskId t)) (\<lambda>stored.
         returnM (if hasBackendOrigin stored then Some stored else None))))
      (\<lambda>_. returnM None))"

definition abandonBackendTask :: "'x torii_env \<Rightarrow> stored_mcp_task \<Rightarrow> string \<Rightarrow> ('x, unit) tcomp" where
  "abandonBackendTask env stored message =
    bindM (nowM env) (\<lambda>t.
    bindM (on_tasks (complete (st_taskId stored)
       (callToolResultToRecord (unsupportedBackendResultToolResult message)) t)) (\<lambda>_.
    postBackendCancel env (or_else (st_backendServer stored) []) (or_else (st_backendTaskId stored) [])
      (Some (st_ownerId stored))))"

definition apply_backend_status ::
    "'x torii_env \<Rightarrow> string \<Rightarrow> stored_mcp_task \<Rightarrow> mcp_detailed_task \<Rightarrow> ('x, unit) tcomp" where
  "apply_backend_status env taskId stored backend =
    (case dt_detail backend of
       DetailWorking \<Rightarrow>
         bindM (nowM env) (\<lambda>t.
         bindM (on_tasks (attachBackendOrigin taskId
           \<lparr>bo_server = or_else (st_backendServer stored) [], bo_backendTaskId = or_else (st_backendTaskId stored) [],
            bo_pollIntervalMs = mt_pollIntervalMs backend, bo_statusMessage = st_statusMessage stored\<rparr> t))
           (\<lambda>_. returnM ()))
     | DetailInputRequired q \<Rightarrow> abandonBackendTask env stored backend_task_input_required_message
     | DetailCompleted r \<Rightarrow>
         bindM (nowM env) (\<lambda>t. bindM (on_tasks (complete taskId r t)) (\<lambda>_. returnM ()))
     | DetailFailed e \<Rightarrow>
         bindM (nowM env) (\<lambda>t. bindM (on_tasks (fail taskId e t)) (\<lambda>_. returnM ()))
     | DetailCancelled \<Rightarrow>
         bindM (nowM env) (\<lambda>t. on_tasks (requestCancel (st_agentId stored) taskId t)))"

definition fail_task :: "'x torii_env \<Rightarrow> string \<Rightarrow> string \<Rightarrow> ('x, unit) tcomp" where
  "fail_task env taskId message =
    bindM (nowM env) (\<lambda>t. bindM (on_tasks (fail taskId (internal_error message) t)) (\<lambda>_. returnM ()))"

text \<open>\<open>postBackendMcpJsonRpc\<close> inside \<open>try\<close>: the answer or the message of the error.\<close>

definition tryM :: "('x, 'a) tcomp \<Rightarrow> ('x, string + 'a) tcomp" where
  "tryM m w = (case m w of (Inl e, w') \<Rightarrow> (Inr (Inl (exn_message e)), w') | (Inr x, w') \<Rightarrow> (Inr (Inr x), w'))"

definition poll_backend ::
    "'x torii_env \<Rightarrow> string \<Rightarrow> stored_mcp_task \<Rightarrow> backend_connection \<Rightarrow> ('x, unit) tcomp" where
  "poll_backend env taskId stored c =
    (case (bc_client c, sc_transport (bc_config c)) of
       (Some version, Http url) \<Rightarrow>
         bindM (on_ext (te_resolve env (bc_config c))) (\<lambda>resolved.
         bindM (tryM (postM env \<lparr>bp_url = url, bp_method = ''tasks/get'',
             bp_params = [(''taskId'', JStr (or_else (st_backendTaskId stored) []))],
             bp_headers = rc_headers resolved, bp_protocolVersion = version\<rparr>)) (\<lambda>answer.
         case answer of
           Inl message \<Rightarrow> fail_task env taskId message
         | Inr raw \<Rightarrow>
             (case mcpGetTaskResultSchema (te_is_datetime env) raw of
                None \<Rightarrow> abandonBackendTask env stored (unrecognizedBackendResultTypeMessage
                          (or_else (as_string (map_of raw ''resultType'')) ''invalid''))
              | Some backend \<Rightarrow> apply_backend_status env taskId stored backend)))
     | _ \<Rightarrow> fail_task env taskId (''Backend \"'' @ or_else (st_backendServer stored) [] @ ''\" is unavailable''))"

definition syncBackendOriginatedTask ::
    "'x torii_env \<Rightarrow> agent_principal option \<Rightarrow> string \<Rightarrow> ('x, unit) tcomp" where
  "syncBackendOriginatedTask env pr taskId =
    bindM (findBackendOriginTask env pr taskId) (\<lambda>found.
    case found of
      None \<Rightarrow> returnM ()
    | Some stored \<Rightarrow>
        if isMcpTaskTerminalStatus (st_status stored) then returnM ()
        else bindM (on_ext (te_ensureConnected env (or_else (st_backendServer stored) [])
               (Some (st_ownerId stored)))) (poll_backend env taskId stored))"

definition syncNonTerminalTask :: "'x torii_env \<Rightarrow> agent_principal option \<Rightarrow> string \<Rightarrow> ('x, unit) tcomp" where
  "syncNonTerminalTask env pr taskId =
    bindM (executeApprovedTask env pr taskId) (\<lambda>_. syncBackendOriginatedTask env pr taskId)"

definition forwardBackendCancel :: "'x torii_env \<Rightarrow> agent_principal option \<Rightarrow> string \<Rightarrow> ('x, unit) tcomp" where
  "forwardBackendCancel env pr taskId =
    bindM (findBackendOriginTask env pr taskId) (\<lambda>found.
    case found of
      None \<Rightarrow> returnM ()
    | Some stored \<Rightarrow> postBackendCancel env (or_else (st_backendServer stored) [])
        (or_else (st_backendTaskId stored) []) (Some (st_ownerId stored)))"

definition cancelParkedTask :: "'x torii_env \<Rightarrow> agent_principal option \<Rightarrow> string \<Rightarrow> ('x, unit) tcomp" where
  "cancelParkedTask env pr taskId =
    bindM (nowM env) (\<lambda>t.
    bindM (on_approvals (cancelPendingForTask taskId t)) (\<lambda>_.
    forwardBackendCancel env pr taskId))"

section \<open>What a handler leaves alone\<close>

lemma frame_principal [frames]: "frame P (getAgentPrincipal pr)"
  by (cases pr) (auto simp: getAgentPrincipal_def intro: frames)

lemma frame_context [frames]: "(\<And>w t. P (w\<lparr>tw_ext := t\<rparr>) = P w) \<Longrightarrow> frame P (createCallContext env pr n a)"
  unfolding createCallContext_def by (intro frames)

lemma frame_emit [frames]: "(\<And>w t. P (w\<lparr>tw_traces := t\<rparr>) = P w) \<Longrightarrow> frame P (emit ctx f)"
  by (simp add: frame_def preserves_def emit_def)

lemma frame_since [frames]: "(\<And>w t. P (w\<lparr>tw_ext := t\<rparr>) = P w) \<Longrightarrow> frame P (since_start env ctx)"
  unfolding since_start_def by (intro frames)

lemma frame_evaluate [frames]: "(\<And>w t. P (w\<lparr>tw_logs := t\<rparr>) = P w) \<Longrightarrow> frame P (evaluateM ctx)"
  by (simp add: frame_def preserves_def evaluateM_def split_beta)

lemma frame_enforce [frames]:
  "(\<And>w t. P (w\<lparr>tw_logs := t\<rparr>) = P w) \<Longrightarrow> (\<And>w t. P (w\<lparr>tw_traces := t\<rparr>) = P w) \<Longrightarrow>
   frame P (enforcePolicyOrThrow ctx)"
  unfolding enforcePolicyOrThrow_def by (rule frame_bind) (auto intro!: frames)

lemma frame_unavailable [frames]:
  "(\<And>w t. P (w\<lparr>tw_traces := t\<rparr>) = P w) \<Longrightarrow> frame P (unavailable ctx entry c m)"
  unfolding unavailable_def unavailable_trace_def by (intro frames)

lemma frame_check [frames]:
  "(\<And>w t. P (w\<lparr>tw_traces := t\<rparr>) = P w) \<Longrightarrow> frame P (check_connection ctx entry c)"
  by (auto simp: check_connection_def intro!: frames split: option.split)

lemma frame_obtain [frames]:
  assumes "\<And>w t. P (w\<lparr>tw_traces := t\<rparr>) = P w" "\<And>w t. P (w\<lparr>tw_ext := t\<rparr>) = P w"
  shows "frame P (obtainConnection env ctx entry conn)"
  unfolding obtainConnection_def Let_def by (auto intro!: frames assms split: option.split)

lemma frame_resolve [frames]:
  fixes P :: "'x torii_world \<Rightarrow> 'p"
  assumes "\<And>w t. P (w\<lparr>tw_traces := t\<rparr>) = P w" "\<And>w t. P (w\<lparr>tw_ext := t\<rparr>) = P w"
  shows "frame P (resolveConnectedBackend env ctx)"
  unfolding frame_def
proof (rule preservesI)
  fix w
  have "frame P (bindM (emit ctx f) (\<lambda>_. throwM e :: ('x, connected_backend_target) tcomp))" for f e
    by (rule frame_bind) (rule frame_emit assms frame_throw)+
  moreover have "frame P (bindM (obtainConnection env ctx entry conn) (check_connection ctx entry))" for entry conn
    by (rule frame_bind) (rule frame_obtain frame_check assms)+
  ultimately show "P (snd (resolveConnectedBackend env ctx w)) = P w"
    unfolding resolveConnectedBackend_def by (simp add: frameD split: option.split)
qed

lemma frame_post [frames]:
  "(\<And>w t. P (w\<lparr>tw_posts := t\<rparr>) = P w) \<Longrightarrow> (\<And>w t. P (w\<lparr>tw_ext := t\<rparr>) = P w) \<Longrightarrow> frame P (postM env p)"
  using frame_on_ext [of P "te_post env p"] by (simp add: frame_def preserves_def postM_def)

lemma frame_url [frames]: "frame P (backendHttpUrl c)"
  by (auto simp: backendHttpUrl_def intro: frames split: transport.split)

text \<open>The \<open>tools/call\<close> requests among all requests sent to backends.\<close>

definition calls :: "'x torii_world \<Rightarrow> backend_post list" where
  "calls w = filter (\<lambda>p. bp_method p = ''tools/call'') (tw_posts w)"

lemma calls_simps [simp]:
  "calls (w\<lparr>tw_tasks := t\<rparr>) = calls w" "calls (w\<lparr>tw_approvals := a\<rparr>) = calls w"
  "calls (w\<lparr>tw_ext := x\<rparr>) = calls w" "calls (w\<lparr>tw_traces := tr\<rparr>) = calls w"
  "calls (w\<lparr>tw_logs := l\<rparr>) = calls w"
  by (simp_all add: calls_def)

lemma frame_calls_post [frames]: "bp_method p \<noteq> ''tools/call'' \<Longrightarrow> frame calls (postM env p)"
  by (simp add: frame_def preserves_def postM_def on_ext_def calls_def split_beta)

lemma frame_postCancel:
  assumes "\<And>p. bp_method p = ''tasks/cancel'' \<Longrightarrow> frame P (postM env p)" "\<And>w t. P (w\<lparr>tw_ext := t\<rparr>) = P w"
  shows "frame P (postBackendCancel env s b q)"
  unfolding postBackendCancel_def
  by (rule frame_catch, rule frame_bind)
    (auto intro!: frames assms split: transport.split option.split)

lemma frame_reject:
  assumes "\<And>p. bp_method p = ''tasks/cancel'' \<Longrightarrow> frame P (postM env p)" "\<And>w t. P (w\<lparr>tw_ext := t\<rparr>) = P w"
    and "\<And>w t. P (w\<lparr>tw_traces := t\<rparr>) = P w"
  shows "frame P (rejectBackendTask env ctx target t cred d m)"
  unfolding rejectBackendTask_def by (intro frames frame_postCancel assms)

lemma frame_bind_origin:
  assumes "\<And>w t. P (w\<lparr>tw_ext := t\<rparr>) = P w" "\<And>w t. P (w\<lparr>tw_tasks := t\<rparr>) = P w"
  shows "frame P (bind_origin env ctx target t opts)"
  unfolding bind_origin_def Let_def by (auto intro!: frames assms)

lemma frame_adopt:
  assumes "\<And>p. bp_method p = ''tasks/cancel'' \<Longrightarrow> frame P (postM env p)" "\<And>w t. P (w\<lparr>tw_ext := t\<rparr>) = P w"
    and "\<And>w t. P (w\<lparr>tw_traces := t\<rparr>) = P w" "\<And>w t. P (w\<lparr>tw_tasks := t\<rparr>) = P w"
  shows "frame P (adoptBackendTask env ctx target t opts cred d)"
proof -
  have "frame P (rejectBackendTask env ctx target t cred d m)" for m
    by (intro frame_reject assms)
  moreover have "frame P (adopted env ctx target t cred d stored)" for stored
    unfolding adopted_def using calculation
    by (auto intro!: frame_bind frame_since frame_emit frame_return assms split: option.split)
  ultimately show ?thesis
    unfolding adoptBackendTask_def by (auto intro!: frame_bind frame_bind_origin assms)
qed

lemma frame_settle [frames]:
  assumes "\<And>w t. P (w\<lparr>tw_ext := t\<rparr>) = P w" "\<And>w t. P (w\<lparr>tw_traces := t\<rparr>) = P w"
  shows "frame P (settle_reply env ctx target cred d raw)"
  unfolding settle_reply_def Let_def
  by (auto split: classified_result.split intro!: frames assms)

lemma frame_failed [frames]:
  assumes "\<And>w t. P (w\<lparr>tw_ext := t\<rparr>) = P w" "\<And>w t. P (w\<lparr>tw_traces := t\<rparr>) = P w"
  shows "frame P (call_failed env ctx target e)"
  unfolding call_failed_def Let_def by (auto split: exn.split intro!: frames assms)

section \<open>What a step returns\<close>

text \<open>The results that \<open>m\<close> can return.\<close>

definition returns :: "('a \<Rightarrow> bool) \<Rightarrow> ('s, 'e, 'a) comp \<Rightarrow> bool" where
  "returns Q m \<longleftrightarrow> (\<forall>s x. fst (m s) = Inr x \<longrightarrow> Q x)"

lemma returns_bind: "(\<And>x. returns Q (k x)) \<Longrightarrow> returns Q (bindM m k)"
  by (auto simp: returns_def bindM_def split: prod.splits sum.splits)

lemma returns_catch: "returns Q m \<Longrightarrow> (\<And>e. returns Q (h e)) \<Longrightarrow> returns Q (catchM m h)"
  by (auto simp: returns_def catchM_def split: prod.splits sum.splits) (metis fst_conv)+

lemma returns_return: "Q x \<Longrightarrow> returns Q (returnM x)"
  by (simp add: returns_def returnM_def)

lemma returns_throw: "returns Q (throwM e)"
  by (simp add: returns_def throwM_def)

lemma returns_check: "returns (\<lambda>t. tg_entry t = entry) (check_connection ctx entry c)"
  by (auto simp: returns_def check_connection_def unavailable_def bindM_def throwM_def returnM_def
      split: if_splits option.splits prod.splits sum.splits)

lemma returns_resolve:
  "returns (\<lambda>t. \<exists>x. te_findTool env x (cx_namespacedName ctx) = Some (tg_entry t)) (resolveConnectedBackend env ctx)"
  unfolding returns_def
proof (intro allI impI)
  fix w t
  assume r: "fst (resolveConnectedBackend env ctx w) = Inr t"
  then obtain entry where e: "te_findTool env (tw_ext w) (cx_namespacedName ctx) = Some entry"
    by (auto simp: resolveConnectedBackend_def bindM_def throwM_def split: option.splits prod.splits sum.splits)
  have "returns (\<lambda>t. tg_entry t = entry) (bindM (obtainConnection env ctx entry c) (check_connection ctx entry))" for c
    by (rule returns_bind returns_check)+
  then have "tg_entry t = entry" using r e unfolding returns_def resolveConnectedBackend_def by auto
  with e show "\<exists>x. te_findTool env x (cx_namespacedName ctx) = Some (tg_entry t)" by blast
qed

section \<open>At most one request per call\<close>

definition one_call :: "(jobj \<Rightarrow> bool) \<Rightarrow> ('x, 'a) tcomp \<Rightarrow> bool" where
  "one_call Q m \<longleftrightarrow> (\<forall>w. calls (snd (m w)) = calls w \<or>
     (\<exists>p. calls (snd (m w)) = calls w @ [p] \<and> Q (bp_params p)))"

lemma one_call_frame: "frame calls m \<Longrightarrow> one_call Q m"
  by (auto simp: one_call_def dest: frameD)

lemma one_callD: "one_call Q m \<Longrightarrow> calls (snd (m w)) = calls w \<or>
  (\<exists>p. calls (snd (m w)) = calls w @ [p] \<and> Q (bp_params p))"
  by (simp add: one_call_def)

lemma one_callI: "(\<And>w. calls (snd (m w)) = calls w \<or>
  (\<exists>p. calls (snd (m w)) = calls w @ [p] \<and> Q (bp_params p))) \<Longrightarrow> one_call Q m"
  by (simp add: one_call_def)

lemma one_call_bind_frame:
  assumes "frame calls m" "\<And>x. one_call Q (k x)"
  shows "one_call Q (bindM m k)"
proof (rule one_callI)
  fix w
  obtain r v where m: "m w = (r, v)" by (cases "m w")
  with frameD [OF assms(1), of w] have v: "calls v = calls w" by simp
  show "calls (snd (bindM m k w)) = calls w \<or> (\<exists>p. calls (snd (bindM m k w)) = calls w @ [p] \<and> Q (bp_params p))"
  proof (cases r)
    case (Inr x)
    then show ?thesis using one_callD [OF assms(2), of x v] by (simp add: bindM_def m v)
  qed (simp add: bindM_def m v)
qed

lemma one_call_frame_bind:
  assumes "one_call Q m" "\<And>x. frame calls (k x)"
  shows "one_call Q (bindM m k)"
proof (rule one_callI)
  fix w
  obtain r v where m: "m w = (r, v)" by (cases "m w")
  have "calls (snd (bindM m k w)) = calls v"
    using frameD [OF assms(2)] by (cases r) (simp_all add: bindM_def m)
  then show "calls (snd (bindM m k w)) = calls w \<or> (\<exists>p. calls (snd (bindM m k w)) = calls w @ [p] \<and> Q (bp_params p))"
    using one_callD [OF assms(1), of w] by (simp add: m)
qed

lemma one_call_catch:
  assumes "one_call Q m" "\<And>e. frame calls (h e)"
  shows "one_call Q (catchM m h)"
proof (rule one_callI)
  fix w
  obtain r v where m: "m w = (r, v)" by (cases "m w")
  have "calls (snd (catchM m h w)) = calls v"
    using frameD [OF assms(2)] by (cases r) (simp_all add: catchM_def m)
  then show "calls (snd (catchM m h w)) = calls w \<or> (\<exists>p. calls (snd (catchM m h w)) = calls w @ [p] \<and> Q (bp_params p))"
    using one_callD [OF assms(1), of w] by (simp add: m)
qed

lemma one_call_bind_returns:
  assumes "frame calls m" "returns R m" "\<And>x. R x \<Longrightarrow> one_call Q (k x)"
  shows "one_call Q (bindM m k)"
proof (rule one_callI)
  fix w
  obtain r v where m: "m w = (r, v)" by (cases "m w")
  with frameD [OF assms(1), of w] have v: "calls v = calls w" by simp
  show "calls (snd (bindM m k w)) = calls w \<or> (\<exists>p. calls (snd (bindM m k w)) = calls w @ [p] \<and> Q (bp_params p))"
  proof (cases r)
    case (Inr x)
    then have "R x" using assms(2) m unfolding returns_def by (metis fst_conv)
    then show ?thesis using one_callD [OF assms(3), of x v] Inr by (simp add: bindM_def m v)
  qed (simp add: bindM_def m v)
qed

text \<open>The parameters of the request for a call: its arguments, and the tool the catalog has under its name.\<close>

definition call_params :: "'x torii_env \<Rightarrow> string \<Rightarrow> jobj \<Rightarrow> jobj \<Rightarrow> bool" where
  "call_params env n args q \<longleftrightarrow> map_of q ''arguments'' = Some (JObj args) \<and>
     (\<exists>x entry. te_findTool env x n = Some entry \<and> map_of q ''name'' = Some (JStr (ct_bareName entry)))"

abbreviation ctx_params :: "'x torii_env \<Rightarrow> call_context \<Rightarrow> jobj \<Rightarrow> bool" where
  "ctx_params env ctx \<equiv> call_params env (cx_namespacedName ctx) (pa_upstreamArgs (cx_args ctx))"

abbreviation known_target :: "'x torii_env \<Rightarrow> call_context \<Rightarrow> connected_backend_target \<Rightarrow> bool" where
  "known_target env ctx t \<equiv> \<exists>x. te_findTool env x (cx_namespacedName ctx) = Some (tg_entry t)"

lemma one_call_send:
  assumes "known_target env ctx target"
  shows "one_call (ctx_params env ctx) (send_call env ctx target)"
proof -
  have post: "one_call (ctx_params env ctx) (postM env (call_post ctx target url hs))" for url hs
    using assms by (auto simp: one_call_def calls_def postM_def on_ext_def call_post_def call_params_def split_beta)
  have rest: "frame calls (bindM (nowM env) (\<lambda>t. settle_reply env ctx target cred (max 0 (t - b)) raw))"
    for cred b raw by (intro frames) simp_all
  have pre: "frame calls (on_ext m)" "frame calls (nowM env)" "frame calls (backendHttpUrl c)" "frame calls (liftE r)"
    for m :: "('a, exn, resolved_credentials) comp" and c and r :: "exn + (string \<times> string) list"
    by (intro frames; simp)+
  show ?thesis
    unfolding send_call_def
    by (rule one_call_bind_frame, rule pre, rule one_call_bind_frame, rule pre, rule one_call_bind_frame,
        rule pre, rule one_call_bind_frame, rule pre, rule one_call_frame_bind, rule post, rule rest)
qed

lemma one_call_proxy:
  assumes "known_target env ctx target"
  shows "one_call (ctx_params env ctx) (proxyCallToBackend env ctx target opts)"
  unfolding proxyCallToBackend_def
  by (rule one_call_frame_bind, rule one_call_catch, rule one_call_send, rule assms)
    (auto split: proxied.split intro!: frames frame_adopt)

section \<open>The first steps of a call\<close>

lemma bind_throw [step_simps]: "bindM (throwM e) k w = (Inl e, w)"
  by (simp add: bindM_def throwM_def)

lemma requiresApproval_world [simp]:
  "requiresApproval pr n (w\<lparr>tw_ext := x\<rparr>) = requiresApproval pr n w"
  "requiresApproval pr n (w\<lparr>tw_logs := l\<rparr>) = requiresApproval pr n w"
  by (simp_all add: requiresApproval_def split: option.split)

lemma context_None: "createCallContext env None n a w =
  (Inl (Plain ''AgentPrincipal not set on request context''),
   w\<lparr>tw_ext := snd (te_now env (snd (te_uuid env (tw_ext w))))\<rparr>)"
  by (simp add: createCallContext_def step_simps getAgentPrincipal_def)

lemma context_Some: "\<exists>ctx x. createCallContext env (Some p) n a w = (Inr ctx, w\<lparr>tw_ext := x\<rparr>) \<and>
  cx_namespacedName ctx = n \<and> cx_args ctx = parseToolArguments a \<and>
  cx_server ctx = fst (parseNamespacedToolName n) \<and> cx_tool ctx = snd (parseNamespacedToolName n) \<and>
  cx_agentPrincipal ctx = p"
  by (simp add: createCallContext_def step_simps getAgentPrincipal_def)
    (simp add: returnM_def, rule exI, rule refl)

definition policy_allows :: "agent_principal \<Rightarrow> string \<Rightarrow> 'x torii_world \<Rightarrow> bool" where
  "policy_allows p n w \<longleftrightarrow>
    pe_decision (evaluatePolicy (Some p) (tw_groups w) (fst (parseNamespacedToolName n))
      (snd (parseNamespacedToolName n))) = Allowed"

lemma enforce_eq: "enforcePolicyOrThrow ctx w =
  (let ev = evaluate (tw_groups w) (Some (cx_agentPrincipal ctx)) (cx_server ctx) (cx_tool ctx);
       v = w\<lparr>tw_logs := tw_logs w @ snd ev\<rparr>
   in if pe_decision (fst ev) \<noteq> Denied then (Inr (), v)
      else (Inl (PolicyDeniedError (cx_namespacedName ctx)
             \<lparr>cm_traceId = cx_traceId ctx, cm_decision = Some DDenied, cm_durationMs = None\<rparr>),
           v\<lparr>tw_traces := tw_traces w @ [finalizeCallTrace (call_fields ctx (cx_server ctx) (cx_tool ctx) None
              Denied None (Some (or_else (pe_reason (fst ev)) ''policy denied''))) (cx_traceId ctx) (cx_timestamp ctx)]\<rparr>))"
  by (simp add: enforcePolicyOrThrow_def evaluateM_def bindM_def emit_def throwM_def returnM_def Let_def split_beta)

lemma evaluate_decision: "pe_decision (fst (evaluate groups p s t)) = pe_decision (evaluatePolicy p groups s t)"
  by (simp add: evaluate_def Let_def)

lemma not_allowed: "d \<noteq> Allowed \<longleftrightarrow> d = Denied"
  by (cases d) simp_all

text \<open>A call up to the gate, given its context.\<close>

lemma gate_some:
  assumes "requiresApproval (Some (cx_agentPrincipal ctx)) (cx_namespacedName ctx) w"
  shows "fst (tryHandleApprovalGate env ctx w) \<noteq> Inr None"
  using assms
  by (auto simp: tryHandleApprovalGate_def bindM_def emit_def returnM_def split: prod.splits sum.splits)

lemma frame_calls_gate: "calls (snd (tryHandleApprovalGate env ctx w)) = calls w"
proof -
  have "frame calls (bindM (interceptGatedCall env p n a r s t) (\<lambda>i. bindM (since_start env ctx) (\<lambda>d.
      bindM (emit ctx (f d)) (\<lambda>_. returnM (Some (intercept_result i))))))" for p n a r s t f
    by (intro frames) simp_all
  then show ?thesis by (simp add: tryHandleApprovalGate_def frameD)
qed

lemma callTool_after_context:
  assumes "createCallContext env (Some p) n a w = (Inr ctx, w1)"
  shows "callTool env (Some p) n a cd w =
    bindM (enforcePolicyOrThrow ctx) (\<lambda>_. bindM (tryHandleApprovalGate env ctx) (\<lambda>gated.
      case gated of
        Some r \<Rightarrow> returnM (if isParkedTaskResult r then r else withToriiCallMeta r
            \<lparr>cm_traceId = cx_traceId ctx, cm_decision = Some DApprovalRequired, cm_durationMs = None\<rparr>)
      | None \<Rightarrow> bindM (resolveConnectedBackend env ctx) (\<lambda>target. proxyCallToBackend env ctx target
            \<lparr>po_clientDeclaresTasks = cd, po_existingTaskId = None\<rparr>))) w1"
  by (simp add: callTool_def bindM_def [of "createCallContext _ _ _ _"] assms)

lemma one_call_backend: "one_call (ctx_params env ctx)
  (bindM (resolveConnectedBackend env ctx) (\<lambda>target. proxyCallToBackend env ctx target opts))"
  by (rule one_call_bind_returns [OF _ returns_resolve one_call_proxy], rule frame_resolve) simp_all

lemma callTool_calls:
  assumes "calls (snd (callTool env pr n a cd w)) \<noteq> calls w"
  shows "\<exists>p q. pr = Some p \<and> policy_allows p n w \<and> \<not> requiresApproval (Some p) n w \<and>
    calls (snd (callTool env pr n a cd w)) = calls w @ [q] \<and>
    call_params env n (pa_upstreamArgs (parseToolArguments a)) (bp_params q)"
proof (cases pr)
  case None
  with assms show ?thesis by (simp add: callTool_def bindM_def context_None)
next
  case (Some p)
  obtain ctx x where c: "createCallContext env (Some p) n a w = (Inr ctx, w\<lparr>tw_ext := x\<rparr>)"
    "cx_namespacedName ctx = n" "cx_args ctx = parseToolArguments a"
    "cx_server ctx = fst (parseNamespacedToolName n)" "cx_tool ctx = snd (parseNamespacedToolName n)"
    "cx_agentPrincipal ctx = p" using context_Some [of env p n a w] by blast
  let ?w = "w\<lparr>tw_ext := x\<rparr>"
  let ?v = "?w\<lparr>tw_logs := tw_logs w @ snd (evaluate (tw_groups w) (Some p) (cx_server ctx) (cx_tool ctx))\<rparr>"
  note call = callTool_after_context [OF c(1), of cd]
  have allowed: "policy_allows p n w"
  proof (rule ccontr)
    assume "\<not> policy_allows p n w"
    then have "calls (snd (enforcePolicyOrThrow ctx ?w)) = calls w \<and> \<not> is_ok (fst (enforcePolicyOrThrow ctx ?w))"
      by (simp add: enforce_eq policy_allows_def not_allowed evaluate_decision c(4-6) Let_def)
    with assms show False unfolding Some call bindM_def [of "enforcePolicyOrThrow ctx"]
      by (cases "enforcePolicyOrThrow ctx ?w"; cases "fst (enforcePolicyOrThrow ctx ?w)") auto
  qed
  then have e: "enforcePolicyOrThrow ctx ?w = (Inr (), ?v)"
    by (simp add: enforce_eq policy_allows_def evaluate_decision c(4-6) Let_def)
  obtain g v where g: "tryHandleApprovalGate env ctx ?v = (g, v)" by (cases "tryHandleApprovalGate env ctx ?v")
  have gc: "calls v = calls w" using frame_calls_gate [of env ctx ?v] g by simp
  have call2: "callTool env pr n a cd w = (case g of Inl e \<Rightarrow> (Inl e, v) | Inr None \<Rightarrow>
      bindM (resolveConnectedBackend env ctx) (\<lambda>target. proxyCallToBackend env ctx target
            \<lparr>po_clientDeclaresTasks = cd, po_existingTaskId = None\<rparr>) v
     | Inr (Some r) \<Rightarrow> (Inr (if isParkedTaskResult r then r else withToriiCallMeta r
            \<lparr>cm_traceId = cx_traceId ctx, cm_decision = Some DApprovalRequired, cm_durationMs = None\<rparr>), v))"
    unfolding Some call bindM_def [of "enforcePolicyOrThrow ctx"] e
    by (auto simp: bindM_def [of "tryHandleApprovalGate env ctx"] g returnM_def split: sum.split option.split)
  have gN: "g = Inr None" using assms gc unfolding call2 by (auto split: sum.splits option.splits)
  then have ungated: "\<not> requiresApproval (Some p) n w"
    using gate_some [of ctx ?v env] g c(2,6) by auto
  have "calls (snd (callTool env pr n a cd w)) = calls v \<or> (\<exists>q. calls (snd (callTool env pr n a cd w)) = calls v @ [q] \<and>
      ctx_params env ctx (bp_params q))"
    unfolding call2 gN sum.case option.case by (rule one_callD [OF one_call_backend])
  then show ?thesis using assms allowed ungated Some by (auto simp: gc c(2,3))
qed

section \<open>Audit\<close>

text \<open>\<open>emits R m\<close>: \<open>m\<close> appends to the audit trail, as many records as \<open>R\<close> allows for its result.\<close>

definition emits :: "(exn + 'a \<Rightarrow> nat \<Rightarrow> bool) \<Rightarrow> ('x, 'a) tcomp \<Rightarrow> bool" where
  "emits R m \<longleftrightarrow> (\<forall>w. \<exists>ts. tw_traces (snd (m w)) = tw_traces w @ ts \<and> R (fst (m w)) (length ts))"

lemma emitsD: "emits R m \<Longrightarrow> \<exists>ts. tw_traces (snd (m w)) = tw_traces w @ ts \<and> R (fst (m w)) (length ts)"
  by (simp add: emits_def)

lemma emits_frame: "frame tw_traces m \<Longrightarrow> (\<And>r. R r 0) \<Longrightarrow> emits R m"
  by (auto simp: emits_def frameD)

lemma emits_emit: "(R (Inr ()) 1) \<Longrightarrow> emits R (emit ctx f)"
  by (auto simp: emits_def emit_def)

lemma emits_bind:
  assumes "emits R m" "\<And>x. emits (S x) (k x)" "\<And>e n. R (Inl e) n \<Longrightarrow> T (Inl e) n"
    and "\<And>x r i j. R (Inr x) i \<Longrightarrow> S x r j \<Longrightarrow> T r (i + j)"
  shows "emits T (bindM m k)"
  unfolding emits_def
proof
  fix w
  obtain r v where m: "m w = (r, v)" by (cases "m w")
  obtain ts where ts: "tw_traces v = tw_traces w @ ts" "R r (length ts)" using emitsD [OF assms(1), of w] m by auto
  show "\<exists>ts. tw_traces (snd (bindM m k w)) = tw_traces w @ ts \<and> T (fst (bindM m k w)) (length ts)"
  proof (cases r)
    case (Inl e)
    then show ?thesis using ts assms(3) by (auto simp: bindM_def m)
  next
    case (Inr x)
    obtain us where "tw_traces (snd (k x v)) = tw_traces v @ us" "S x (fst (k x v)) (length us)"
      using emitsD [OF assms(2)] by blast
    then show ?thesis using ts assms(4) [of x "length ts" "fst (k x v)" "length us"] Inr
      by (auto simp: bindM_def m)
  qed
qed

lemma emits_catch:
  assumes "emits R m" "\<And>e. emits S (h e)" "\<And>x n. R (Inr x) n \<Longrightarrow> T (Inr x) n"
    and "\<And>e r i j. R (Inl e) i \<Longrightarrow> S r j \<Longrightarrow> T r (i + j)"
  shows "emits T (catchM m h)"
  unfolding emits_def
proof
  fix w
  obtain r v where m: "m w = (r, v)" by (cases "m w")
  obtain ts where ts: "tw_traces v = tw_traces w @ ts" "R r (length ts)" using emitsD [OF assms(1), of w] m by auto
  show "\<exists>ts. tw_traces (snd (catchM m h w)) = tw_traces w @ ts \<and> T (fst (catchM m h w)) (length ts)"
  proof (cases r)
    case (Inr x)
    then show ?thesis using ts assms(3) by (auto simp: catchM_def m)
  next
    case (Inl e)
    obtain us where "tw_traces (snd (h e v)) = tw_traces v @ us" "S (fst (h e v)) (length us)"
      using emitsD [OF assms(2)] by blast
    then show ?thesis using ts assms(4) [of e "length ts" "fst (h e v)" "length us"] Inl
      by (auto simp: catchM_def m)
  qed
qed

text \<open>The contracts: \<open>one_each\<close> records always one, \<open>final\<close> at most one and one with a result.\<close>

definition one_each :: "exn + 'a \<Rightarrow> nat \<Rightarrow> bool" where
  "one_each r n \<longleftrightarrow> n = 1"

definition final :: "exn + 'a \<Rightarrow> nat \<Rightarrow> bool" where
  "final r n \<longleftrightarrow> n \<le> 1 \<and> (is_ok r \<longrightarrow> n = 1)"

definition on_throw :: "exn + 'a \<Rightarrow> nat \<Rightarrow> bool" where
  "on_throw r n \<longleftrightarrow> n = (if is_ok r then 0 else 1)"

definition proxied_count :: "exn + proxied \<Rightarrow> nat \<Rightarrow> bool" where
  "proxied_count r n \<longleftrightarrow> n = (case r of Inr (Settled _) \<Rightarrow> 1 | _ \<Rightarrow> 0)"

definition settled_count :: "exn + proxied \<Rightarrow> nat \<Rightarrow> bool" where
  "settled_count r n \<longleftrightarrow> n = (case r of Inr (Adopt _ _ _) \<Rightarrow> 0 | _ \<Rightarrow> 1)"

definition none :: "exn + 'a \<Rightarrow> nat \<Rightarrow> bool" where
  "none r n \<longleftrightarrow> n = 0"

lemmas counts = one_each_def final_def on_throw_def proxied_count_def settled_count_def none_def

lemma emits_none: "frame tw_traces m \<Longrightarrow> emits none m"
  by (rule emits_frame) (simp_all add: none_def)

lemma emits_then:
  assumes "frame tw_traces m" "\<And>x. emits R (k x)" "\<And>e. R (Inl e) 0"
  shows "emits R (bindM m k)"
  by (rule emits_bind [OF emits_none [OF assms(1)] assms(2)]) (simp_all add: none_def assms(3))

lemma emits_weaken: "emits R m \<Longrightarrow> (\<And>r n. R r n \<Longrightarrow> T r n) \<Longrightarrow> emits T m"
  unfolding emits_def by blast

lemma emits_return: "R (Inr x) 0 \<Longrightarrow> emits R (returnM x)"
  by (auto simp: emits_def returnM_def)

lemma emits_throw: "R (Inl e) 0 \<Longrightarrow> emits R (throwM e)"
  by (auto simp: emits_def throwM_def)

lemma bind_since [step_simps]: "bindM (since_start env ctx) k w =
  k (fst (te_now env (tw_ext w)) - cx_startedAt ctx) (w\<lparr>tw_ext := snd (te_now env (tw_ext w))\<rparr>)"
  by (simp add: bindM_def since_start_def nowM_def on_ext_def returnM_def split_beta)

lemma emits_since: "(\<And>d. emits R (k d)) \<Longrightarrow> emits R (bindM (since_start env ctx) k)"
  using emitsD [of R "k _" "_\<lparr>tw_ext := _\<rparr>"] by (auto simp: emits_def step_simps)

text \<open>One record, then a result or a throw.\<close>

lemma emit_return: "emits R (returnM x) \<Longrightarrow> (\<And>r n. r = Inr x \<Longrightarrow> T r 1) \<Longrightarrow> emits T (bindM (emit ctx f) (\<lambda>_. returnM x))"
  by (auto simp: emits_def bindM_def emit_def returnM_def)

lemma emit_return_one: "T (Inr x) 1 \<Longrightarrow> emits T (bindM (emit ctx f) (\<lambda>_. returnM x))"
  by (auto simp: emits_def bindM_def emit_def returnM_def)

lemma emit_throw_one: "T (Inl e) 1 \<Longrightarrow> emits T (bindM (emit ctx f) (\<lambda>_. throwM e))"
  by (auto simp: emits_def bindM_def emit_def throwM_def)

lemma emits_unavailable: "emits on_throw (unavailable ctx entry c m)"
  unfolding unavailable_def unavailable_trace_def by (rule emit_throw_one) (simp add: counts)

lemma emits_check: "emits on_throw (check_connection ctx entry c)"
  unfolding check_connection_def
  by (auto intro!: emits_unavailable emits_return split: option.split) (simp add: counts)

lemma emits_obtain: "emits on_throw (obtainConnection env ctx entry conn)"
proof -
  have "emits on_throw (catchM (on_ext (te_ensureConnected env (ct_server entry) (cx_ownerId ctx)))
      (\<lambda>e. unavailable ctx entry conn (exn_message e)))"
    by (rule emits_catch [OF emits_none emits_unavailable]) (auto simp: counts intro: frames)
  then show ?thesis
    unfolding obtainConnection_def Let_def
    by (auto intro!: emits_return split: option.split) (simp add: counts)
qed

lemma emits_resolve: "emits on_throw (resolveConnectedBackend env ctx)"
proof -
  have t: "emits on_throw (bindM (emit ctx f) (\<lambda>_. throwM e) :: ('a, connected_backend_target) tcomp)" for f e
    by (rule emit_throw_one) (simp add: counts)
  have o: "emits on_throw (bindM (obtainConnection env ctx entry conn) (check_connection ctx entry))" for entry conn
    by (rule emits_bind [OF emits_obtain emits_check]) (auto simp: counts)
  show ?thesis
    unfolding emits_def resolveConnectedBackend_def
    using emitsD [OF t] emitsD [OF o] by (auto split: option.split)
qed

lemma frame_traces_intros:
  "frame tw_traces (nowM env)" "frame tw_traces (uuidM env)" "frame tw_traces (since_start env ctx)"
  "frame tw_traces (on_ext m)" "frame tw_traces (backendHttpUrl c)" "frame tw_traces (liftE r)"
  "frame tw_traces (postM env p)" "frame tw_traces (on_tasks t)" "frame tw_traces (on_approvals a)"
  by (intro frames; simp)+

lemma emits_settle: "emits proxied_count (settle_reply env ctx target cred d raw)"
proof -
  have settled: "emits proxied_count (bindM (since_start env ctx) (\<lambda>d. bindM (emit ctx (f d)) (\<lambda>_. returnM (Settled r))))"
    for f r by (rule emits_then, rule frame_traces_intros, rule emit_return_one) (simp_all add: counts)
  have complete: "emits proxied_count (bindM (since_start env ctx) (\<lambda>d.
      bindM (if b then bindM (liftE x) (\<lambda>e. returnM (Some e)) else returnM None) (\<lambda>err.
      bindM (emit ctx (f d err)) (\<lambda>_. returnM (Settled r)))))" for f r b and x :: "exn + string"
    by (rule emits_then, rule frame_traces_intros, rule emits_then)
      (auto intro!: frame_bind frame_traces_intros frame_return emit_return_one simp: counts)
  show ?thesis
    unfolding settle_reply_def Let_def
    by (cases "classifyBackendToolResult (te_is_datetime env) (JObj raw)")
      (simp_all add: settled complete emits_return counts)
qed

lemma emits_send: "emits proxied_count (send_call env ctx target)"
  unfolding send_call_def
  by (rule emits_then, rule frame_traces_intros)+ (rule emits_settle | simp add: counts)+

lemma emits_failed: "emits settled_count (call_failed env ctx target e)"
proof -
  have "emits settled_count (bindM (since_start env ctx) (\<lambda>d. bindM (emit ctx (f d)) (\<lambda>_. throwM e)))" for f
    by (rule emits_since, rule emit_throw_one) (simp add: counts)
  then show ?thesis
    unfolding call_failed_def Let_def
    by (auto split: exn.split intro!: emit_return_one) (simp_all add: counts)
qed

lemma frame_traces_postCancel: "frame tw_traces (postBackendCancel env s b q)"
  by (rule frame_postCancel) (auto intro: frame_traces_intros)

lemma emits_reject: "emits one_each (rejectBackendTask env ctx target t cred d m)"
proof -
  have "emits one_each (bindM (emit ctx f) (\<lambda>_. bindM (postBackendCancel env s b q) (\<lambda>_. returnM x)))"
    for f s b q and x :: jobj
  proof -
    have p: "fst (bindM (postBackendCancel env s b q) (\<lambda>_. returnM x) w) = Inr x \<and>
        tw_traces (snd (bindM (postBackendCancel env s b q) (\<lambda>_. returnM x) w)) = tw_traces w" for w
      using frameD [OF frame_traces_postCancel, of env s b q w]
      by (auto simp: bindM_def returnM_def postBackendCancel_def [of env s b q] catchM_def split: prod.splits sum.splits)
    show ?thesis
      unfolding emits_def bindM_def [of "emit ctx f"] using p by (simp add: emit_def counts)
  qed
  then show ?thesis
    unfolding rejectBackendTask_def by (intro emits_since)
qed

lemma frame_traces_origin: "frame tw_traces (bind_origin env ctx target t opts)"
  by (rule frame_bind_origin) simp_all

lemma emits_adopted: "emits one_each (adopted env ctx target t cred d stored)"
  unfolding adopted_def
  by (auto split: option.split intro!: emits_reject emits_since emit_return_one) (simp_all add: counts)

lemma emits_adopt: "emits final (adoptBackendTask env ctx target t opts cred d)"
proof -
  have "emits final (rejectBackendTask env ctx target t cred d m)" for m
    by (rule emits_weaken [OF emits_reject]) (simp add: counts)
  moreover have "emits final (bindM (bind_origin env ctx target t opts) (adopted env ctx target t cred d))"
    by (rule emits_then [OF frame_traces_origin emits_weaken [OF emits_adopted]]) (auto simp: counts)
  ultimately show ?thesis by (simp add: adoptBackendTask_def)
qed

lemma emits_proxy: "emits final (proxyCallToBackend env ctx target opts)"
proof -
  have c: "emits settled_count (catchM (send_call env ctx target) (call_failed env ctx target))"
    by (rule emits_catch [OF emits_send emits_failed]) (auto simp: counts split: sum.splits proxied.splits)
  show ?thesis
    unfolding proxyCallToBackend_def
  proof (rule emits_bind [OF c, where S = "\<lambda>p. case p of Settled _ \<Rightarrow> none | Adopt _ _ _ \<Rightarrow> final"])
    show "emits (case p of Settled _ \<Rightarrow> none | Adopt _ _ _ \<Rightarrow> final)
        (case p of Settled r \<Rightarrow> returnM r | Adopt t cred d \<Rightarrow> adoptBackendTask env ctx target t opts cred d)" for p
      by (cases p) (simp_all add: emits_adopt emits_return none_def)
  qed (auto simp: counts split: proxied.splits)
qed

definition gate_count :: "exn + jobj option \<Rightarrow> nat \<Rightarrow> bool" where
  "gate_count r n \<longleftrightarrow> n = (case r of Inr (Some _) \<Rightarrow> 1 | _ \<Rightarrow> 0)"

lemma emits_gate: "emits gate_count (tryHandleApprovalGate env ctx)"
proof -
  have "frame tw_traces (interceptGatedCall env p n a r s t)" for p n a r s t by (rule frame_intercept) simp_all
  then have "emits gate_count (bindM (interceptGatedCall env p n a r s t) (\<lambda>i. bindM (since_start env ctx) (\<lambda>d.
      bindM (emit ctx (f d)) (\<lambda>_. returnM (Some (intercept_result i))))))" for p n a r s t f
    by (rule emits_then) (auto intro!: emits_since emit_return_one simp: gate_count_def)
  then show ?thesis
    unfolding emits_def tryHandleApprovalGate_def by (auto simp: gate_count_def [of "Inr None"])
qed

lemma emits_enforce: "emits on_throw (enforcePolicyOrThrow ctx)"
  by (auto simp: emits_def enforce_eq Let_def counts)

lemma emits_callTool: "emits final (callTool env pr n a cd)"
proof -
  have backend: "emits final (bindM (resolveConnectedBackend env ctx) (\<lambda>target. proxyCallToBackend env ctx target opts))"
    for ctx opts
    by (rule emits_bind [OF emits_resolve emits_proxy]) (auto simp: counts)
  have gate: "emits final (bindM (tryHandleApprovalGate env ctx) (\<lambda>gated. case gated of
      Some r \<Rightarrow> returnM (g ctx r)
    | None \<Rightarrow> bindM (resolveConnectedBackend env ctx) (\<lambda>target. proxyCallToBackend env ctx target opts)))"
    for ctx g opts
  proof (rule emits_bind [OF emits_gate, where S = "\<lambda>g. case g of Some _ \<Rightarrow> (\<lambda>r n. n = 0 \<and> is_ok r) | None \<Rightarrow> final"])
    show "emits (case g' of Some _ \<Rightarrow> (\<lambda>r n. n = 0 \<and> is_ok r) | None \<Rightarrow> final) (case g' of
        Some r \<Rightarrow> returnM (g ctx r)
      | None \<Rightarrow> bindM (resolveConnectedBackend env ctx) (\<lambda>target. proxyCallToBackend env ctx target opts))" for g'
      by (cases g') (auto intro!: emits_return backend)
  qed (auto simp: counts gate_count_def split: option.splits)
  have enforce: "emits final (bindM (enforcePolicyOrThrow ctx) (\<lambda>_. bindM (tryHandleApprovalGate env ctx) (\<lambda>gated. case gated of
      Some r \<Rightarrow> returnM (g ctx r)
    | None \<Rightarrow> bindM (resolveConnectedBackend env ctx) (\<lambda>target. proxyCallToBackend env ctx target opts))))"
    for ctx g opts
    by (rule emits_bind [OF emits_enforce gate]) (auto simp: counts)
  have "frame tw_traces (createCallContext env pr n a)" by (rule frame_context) simp
  then show ?thesis
    unfolding callTool_def
    by (rule emits_then) (auto intro!: enforce [where g = "\<lambda>ctx r. if isParkedTaskResult r then r else _ ctx r"] simp: counts)
qed

end
