(* ===== verification/DispatchSafety.thy ===== *)
theory DispatchSafety
  imports ToolDispatch
begin

text \<open>
  What \<^verbatim>\<open>apps/torii/src/dispatch/tool-dispatch.service.ts\<close> promises: no backend request without
  permission, no call without an audit record, no execution without an approval, no executed task
  left hanging.
\<close>

section \<open>Executing what was approved\<close>

lemma map_del_put [simp]: "map_del k (map_put k v m) = map_del k m"
  by (induction k v m rule: map_put.induct) (auto simp: map_del_def)

lemma map_del_comm: "map_del j (map_del k m) = map_del k (map_del j m)"
  by (simp add: map_del_def conj_commute)

lemma approved_upstream: "pa_upstreamArgs (parseToolArguments (Some (approved_args r))) =
  map_del torii_step_id_arg (map_del torii_run_id_arg (ap_params r))"
proof -
  have run: "map_del torii_step_id_arg (map_del torii_run_id_arg (map_put torii_step_id_arg v m)) =
      map_del torii_step_id_arg (map_del torii_run_id_arg m)" for v m
    by (subst (1 2) map_del_comm) simp
  show ?thesis by (simp add: parseToolArguments_def approved_args_def Let_def run)
qed

lemma frame_send [frames]:
  assumes "\<And>w t. P (w\<lparr>tw_ext := t\<rparr>) = P w" "\<And>w t. P (w\<lparr>tw_traces := t\<rparr>) = P w"
    "\<And>w t. P (w\<lparr>tw_posts := t\<rparr>) = P w"
  shows "frame P (send_call env ctx target)"
  unfolding send_call_def by (intro frames assms)

lemma frame_proxy:
  assumes "\<And>w t. P (w\<lparr>tw_ext := t\<rparr>) = P w" "\<And>w t. P (w\<lparr>tw_traces := t\<rparr>) = P w"
    "\<And>w t. P (w\<lparr>tw_posts := t\<rparr>) = P w" "\<And>w t. P (w\<lparr>tw_tasks := t\<rparr>) = P w"
  shows "frame P (proxyCallToBackend env ctx target opts)"
  unfolding proxyCallToBackend_def
  by (auto intro!: frames frame_adopt assms split: proxied.split)

definition execution_body ::
    "'x torii_env \<Rightarrow> string \<Rightarrow> call_context \<Rightarrow> ('x, unit) tcomp" where
  "execution_body env taskId ctx =
    bindM (resolveConnectedBackend env ctx) (\<lambda>target.
    bindM (proxyCallToBackend env ctx target
       \<lparr>po_clientDeclaresTasks = True, po_existingTaskId = Some taskId\<rparr>) (\<lambda>result.
    if isParkedTaskResult result then returnM ()
    else bindM (nowM env) (\<lambda>t.
      bindM (on_tasks (complete taskId (callToolResultToRecord result) t)) (\<lambda>_. returnM ()))))"

definition execution_failed :: "'x torii_env \<Rightarrow> string \<Rightarrow> exn \<Rightarrow> ('x, unit) tcomp" where
  "execution_failed env taskId e =
    bindM (nowM env) (\<lambda>t. bindM (on_tasks (fail taskId (internal_error (exn_message e)) t)) (\<lambda>_. returnM ()))"

lemma run_approved_eq: "run_approved env pr taskId claimed =
  bindM (createCallContext env pr (ap_toolName claimed) (Some (approved_args claimed)))
    (\<lambda>ctx. catchM (execution_body env taskId ctx) (execution_failed env taskId))"
  unfolding run_approved_def execution_body_def execution_failed_def ..

lemma one_call_execution: "one_call (ctx_params env ctx) (catchM (execution_body env taskId ctx) (execution_failed env taskId))"
proof -
  have "frame calls (execution_failed env taskId e)" for e
    unfolding execution_failed_def by (intro frames) simp_all
  moreover have "frame calls (if b then returnM () else bindM (nowM env) (\<lambda>t. bindM (on_tasks (m t)) (\<lambda>_. returnM ())))"
    for b and m :: "int \<Rightarrow> stored_mcp_task option task_comp"
    by (cases b) (auto intro!: frames)
  ultimately show ?thesis
    unfolding execution_body_def
    by (intro one_call_catch one_call_bind_returns [OF _ returns_resolve] one_call_frame_bind one_call_proxy
        frame_resolve) simp_all
qed

lemma frame_approvals_execution: "frame tw_approvals (catchM (execution_body env taskId ctx) (execution_failed env taskId))"
  unfolding execution_body_def execution_failed_def
  by (auto intro!: frames frame_proxy)

lemma execute_eq: "executeApprovedTask env (Some p) taskId w =
  (let t0 = fst (te_now env (tw_ext w)); x0 = snd (te_now env (tw_ext w));
       c = claimApprovedExecution taskId p t0 (tw_approvals w);
       v = w\<lparr>tw_approvals := snd c, tw_ext := x0\<rparr>;
       t1 = fst (te_now env x0); x1 = snd (te_now env x0);
       g = getDetailedTask (pr_agentId p) taskId t1 (tw_tasks w);
       u = w\<lparr>tw_approvals := snd c, tw_ext := x1, tw_tasks := snd g\<rparr>
   in case fst c of
        Inl e \<Rightarrow> (Inl e, v)
      | Inr None \<Rightarrow> (Inr (), v)
      | Inr (Some r) \<Rightarrow>
          (case fst g of Inl e \<Rightarrow> (Inl e, u)
           | Inr stored \<Rightarrow> if mt_status stored \<noteq> Working then (Inr (), u)
               else run_approved env (Some p) taskId r u))"
  by (simp add: executeApprovedTask_def getAgentPrincipal_def step_simps Let_def returnM_def [of "()"]
      split: sum.split option.split)

section \<open>Outcomes of the steps of an execution\<close>

definition unparked :: "proxied \<Rightarrow> bool" where
  "unparked p \<longleftrightarrow> (case p of Settled r \<Rightarrow> \<not> isParkedTaskResult r | Adopt _ _ _ \<Rightarrow> True)"

lemma send_unparked: "returns unparked (send_call env ctx target)"
  unfolding send_call_def settle_reply_def Let_def
  by (intro returns_bind) (auto intro!: returns_bind returns_return simp: unparked_def split: classified_result.split)

lemma failed_unparked: "returns unparked (call_failed env ctx target e)"
  unfolding call_failed_def Let_def
  by (cases e) (auto intro!: returns_bind returns_return returns_throw simp: unparked_def)

lemma reject_unparked: "returns (\<lambda>r. \<not> isParkedTaskResult r) (rejectBackendTask env ctx target t cred d m)"
  unfolding rejectBackendTask_def by (intro returns_bind returns_return) simp

definition settled :: "string \<Rightarrow> task_table \<Rightarrow> bool" where
  "settled i db \<longleftrightarrow> (\<exists>s. getRecord i db = Some s \<and> (isMcpTaskTerminalStatus (st_status s) \<or> hasBackendOrigin s))"

lemma finish_settles:
  assumes "tasks_wf db" "getRecord i db = Some r" "isMcpTaskTerminalStatus s"
  shows "settled i (snd (finish i s res err t db))"
proof (cases "isMcpTaskTerminalStatus (st_status r)")
  case True
  then show ?thesis using assms(2) by (simp add: finish_def settled_def)
next
  case False
  let ?r = "r\<lparr>st_status := s, st_result := res, st_error := err, st_inputRequests := None, st_lastUpdatedAtMs := t\<rparr>"
  have "getRecord i (snd (save ?r db)) = Some ?r"
    by (rule getRecord_save [OF assms(2)])
      (use wf_getRecord(1,2) [OF assms(1,2)] in \<open>simp_all add: same_task_def\<close>)
  moreover have "snd (finish i s res err t db) = snd (save ?r db)"
    using False assms(2) by (auto simp: finish_def Let_def comp_simps split: prod.splits sum.splits)
  ultimately show ?thesis using assms(3) by (auto simp: settled_def)
qed

lemma st_taskId_attach: "st_taskId (attach_next origin t r) = st_taskId r"
  by (simp add: attach_next_def)

lemma attach_outcome:
  assumes "tasks_wf db" "getRecord i db = Some r"
  shows "case attachBackendOrigin i origin t db of
     (Inr (Some s), db') \<Rightarrow> settled i db' | (_, db') \<Rightarrow> db' = db"
proof (cases "isMcpTaskTerminalStatus (st_status r)")
  case True
  then show ?thesis using assms(2) by (simp add: attachBackendOrigin_def)
next
  case False
  let ?r = "attach_next origin t r"
  show ?thesis
  proof (cases "pg_int4_opt (st_pollIntervalMs ?r)")
    case True
    have "getRecord i (snd (save ?r db)) = Some ?r"
      by (rule getRecord_save [OF assms(2)])
        (use wf_getRecord(1) [OF assms] True same_task_steps(1) in \<open>simp_all add: st_taskId_attach\<close>)
    then show ?thesis using False assms(2) True
      by (auto simp: attachBackendOrigin_def comp_simps save_def settled_def attach_next_def hasBackendOrigin_def)
  next
    case fail: False
    then show ?thesis using False assms(2)
      by (simp add: attachBackendOrigin_def comp_simps save_def)
  qed
qed

section \<open>Triples\<close>

text \<open>From a world in \<open>P\<close>, \<open>m\<close> ends with a result in \<open>Q\<close> or throws in \<open>E\<close>.\<close>

definition triple ::
    "('x torii_world \<Rightarrow> bool) \<Rightarrow> ('x, 'a) tcomp \<Rightarrow> ('a \<Rightarrow> 'x torii_world \<Rightarrow> bool) \<Rightarrow> ('x torii_world \<Rightarrow> bool) \<Rightarrow> bool" where
  "triple P m Q E \<longleftrightarrow> (\<forall>w. P w \<longrightarrow>
     (\<forall>x w'. m w = (Inr x, w') \<longrightarrow> Q x w') \<and> (\<forall>e w'. m w = (Inl e, w') \<longrightarrow> E w'))"

lemma triple_bind:
  assumes "triple P m R E" "\<And>x. triple (R x) (k x) Q E"
  shows "triple P (bindM m k) Q E"
  using assms unfolding triple_def bindM_def by (force split: prod.splits sum.splits)

lemma triple_catch:
  assumes "triple P m Q R" "\<And>e. triple R (h e) Q E"
  shows "triple P (catchM m h) Q E"
  using assms unfolding triple_def catchM_def by (force split: prod.splits sum.splits)

lemma triple_return: "triple (Q x) (returnM x) Q E"
  by (simp add: triple_def returnM_def)

lemma triple_conseq:
  "triple P m Q E \<Longrightarrow> (\<And>w. P' w \<Longrightarrow> P w) \<Longrightarrow> (\<And>x w. Q x w \<Longrightarrow> Q' x w) \<Longrightarrow> (\<And>w. E w \<Longrightarrow> E' w) \<Longrightarrow> triple P' m Q' E'"
  unfolding triple_def by blast

text \<open>A step that leaves the task table alone.\<close>

lemma triple_frame:
  assumes "frame tw_tasks m" "returns R m"
  shows "triple (\<lambda>w. P (tw_tasks w)) m (\<lambda>x w. R x \<and> P (tw_tasks w)) (\<lambda>w. P (tw_tasks w))"
  using frameD [OF assms(1)] assms(2) unfolding triple_def returns_def by (metis fst_conv snd_conv)

section \<open>An execution settles its task\<close>

definition live :: "string \<Rightarrow> task_table \<Rightarrow> bool" where
  "live i db \<longleftrightarrow> tasks_wf db \<and> (\<exists>r. getRecord i db = Some r)"

lemma finish_throws: "fst (finish i s res err t db) = Inl e \<Longrightarrow> snd (finish i s res err t db) = db"
  by (auto simp: finish_def Let_def comp_simps save_def split: prod.splits sum.splits option.splits if_splits)

lemma triple_finish:
  assumes "isMcpTaskTerminalStatus s"
  shows "triple (\<lambda>w. live i (tw_tasks w)) (bindM (nowM env) (\<lambda>t.
      bindM (on_tasks (finish i s res err t)) (\<lambda>_. returnM ())))
    (\<lambda>_ w. settled i (tw_tasks w)) (\<lambda>w. live i (tw_tasks w) \<and> settled i (tw_tasks w))"
proof -
  have "settled i (snd (finish i s res err t db)) \<and>
      (\<forall>e. fst (finish i s res err t db) = Inl e \<longrightarrow> live i (snd (finish i s res err t db)))" if l: "live i db" for t db
  proof -
    from l obtain r where "tasks_wf db" "getRecord i db = Some r" by (auto simp: live_def)
    from finish_settles [OF this assms] finish_throws l show ?thesis by metis
  qed
  then show ?thesis
    by (auto simp: triple_def step_simps returnM_def split: sum.splits)
qed

lemma triple_attach:
  "triple (\<lambda>w. live i (tw_tasks w)) (bindM (nowM env) (\<lambda>t. on_tasks (attachBackendOrigin i origin t)))
    (\<lambda>s w. case s of None \<Rightarrow> live i (tw_tasks w) | Some _ \<Rightarrow> settled i (tw_tasks w)) (\<lambda>w. live i (tw_tasks w))"
proof -
  have "(\<forall>x db'. attachBackendOrigin i origin t db = (Inr x, db') \<longrightarrow>
        (case x of None \<Rightarrow> live i db' | Some _ \<Rightarrow> settled i db')) \<and>
      (\<forall>e db'. attachBackendOrigin i origin t db = (Inl e, db') \<longrightarrow> live i db')" if l: "live i db" for t db
  proof -
    from l obtain r where "tasks_wf db" "getRecord i db = Some r" by (auto simp: live_def)
    from attach_outcome [OF this, of origin t] l show ?thesis
      by (auto split: option.split)
  qed
  then show ?thesis
    by (auto simp: triple_def step_simps on_tasks_def split: prod.splits)
qed


lemma live_resolve: "triple (\<lambda>w. live i (tw_tasks w)) (resolveConnectedBackend env ctx)
    (\<lambda>_ w. live i (tw_tasks w)) (\<lambda>w. live i (tw_tasks w))"
  using triple_frame [OF frame_resolve, where R = "\<lambda>_. True" and P = "live i"]
  by (simp add: returns_def)

definition outcome :: "string \<Rightarrow> jobj \<Rightarrow> 'x torii_world \<Rightarrow> bool" where
  "outcome i r w \<longleftrightarrow> (if isParkedTaskResult r then settled i (tw_tasks w) else live i (tw_tasks w))"

lemma live_reject: "triple (\<lambda>w. live i (tw_tasks w)) (rejectBackendTask env ctx target t cred d m)
    (outcome i) (\<lambda>w. live i (tw_tasks w))"
proof (rule triple_conseq [OF triple_frame [OF _ reject_unparked, where P = "live i"]])
  show "frame tw_tasks (rejectBackendTask env ctx target t cred d m)"
    by (rule frame_reject) (auto intro: frames)
qed (simp_all add: outcome_def)

lemma live_adopted: "triple (\<lambda>w. case s of None \<Rightarrow> live i (tw_tasks w) | Some _ \<Rightarrow> settled i (tw_tasks w))
    (adopted env ctx target t cred d s) (outcome i) (\<lambda>w. live i (tw_tasks w))"
proof (cases s)
  case None
  then show ?thesis by (simp add: adopted_def live_reject)
next
  case (Some r)
  then show ?thesis
    by (auto simp: adopted_def triple_def bind_since bindM_def [of "emit _ _"] emit_def returnM_def outcome_def)
qed

lemma live_adopt:
  assumes "i \<noteq> []"
  shows "triple (\<lambda>w. live i (tw_tasks w))
    (adoptBackendTask env ctx target t \<lparr>po_clientDeclaresTasks = True, po_existingTaskId = Some i\<rparr> cred d)
    (outcome i) (\<lambda>w. live i (tw_tasks w))"
  unfolding adoptBackendTask_def using assms
  by (auto simp: bind_origin_def Let_def truthy_str_def js_simps intro!: triple_bind [OF triple_attach live_adopted])

lemma live_proxy:
  assumes "i \<noteq> []"
  shows "triple (\<lambda>w. live i (tw_tasks w))
    (proxyCallToBackend env ctx target \<lparr>po_clientDeclaresTasks = True, po_existingTaskId = Some i\<rparr>)
    (outcome i) (\<lambda>w. live i (tw_tasks w))"
proof -
  have s: "frame tw_tasks (send_call env ctx target)" by (rule frame_send) simp_all
  have f: "frame tw_tasks (call_failed env ctx target e)" for e by (rule frame_failed) simp_all
  show ?thesis
    unfolding proxyCallToBackend_def
  proof (rule triple_bind [OF triple_catch [OF triple_frame [OF s send_unparked] triple_frame [OF f failed_unparked]]])
    show "triple (\<lambda>w. unparked p \<and> live i (tw_tasks w))
       (case p of Settled r \<Rightarrow> returnM r
        | Adopt t cred d \<Rightarrow> adoptBackendTask env ctx target t
            \<lparr>po_clientDeclaresTasks = True, po_existingTaskId = Some i\<rparr> cred d)
       (outcome i) (\<lambda>w. live i (tw_tasks w))" for p
    proof (cases p)
      case (Settled r)
      then show ?thesis by (auto simp: unparked_def outcome_def triple_def returnM_def)
    next
      case (Adopt t cred d)
      then show ?thesis by (simp add: unparked_def live_adopt [OF assms])
    qed
  qed
qed

lemma execution_settles:
  assumes "i \<noteq> []"
  shows "triple (\<lambda>w. live i (tw_tasks w)) (catchM (execution_body env i ctx) (execution_failed env i))
    (\<lambda>_ w. settled i (tw_tasks w)) (\<lambda>w. settled i (tw_tasks w))"
proof -
  have "triple (outcome i r) (if isParkedTaskResult r then returnM () else bindM (nowM env) (\<lambda>t.
      bindM (on_tasks (complete i (callToolResultToRecord r) t)) (\<lambda>_. returnM ())))
    (\<lambda>_ w. settled i (tw_tasks w)) (\<lambda>w. live i (tw_tasks w))" for r
  proof (cases "isParkedTaskResult r")
    case True
    then show ?thesis by (simp add: triple_def outcome_def returnM_def)
  next
    case False
    then show ?thesis
      unfolding complete_def
      by (auto simp: outcome_def intro: triple_conseq [OF triple_finish [of Completed i env "Some (callToolResultToRecord r)" None]])
  qed
  then have body: "triple (\<lambda>w. live i (tw_tasks w)) (execution_body env i ctx)
      (\<lambda>_ w. settled i (tw_tasks w)) (\<lambda>w. live i (tw_tasks w))"
    unfolding execution_body_def by (intro triple_bind [OF live_resolve] triple_bind [OF live_proxy [OF assms]])
  have "triple (\<lambda>w. live i (tw_tasks w)) (execution_failed env i e)
      (\<lambda>_ w. settled i (tw_tasks w)) (\<lambda>w. settled i (tw_tasks w))" for e
    unfolding execution_failed_def fail_def
    by (rule triple_conseq [OF triple_finish]) simp_all
  then show ?thesis by (rule triple_catch [OF body])
qed


section \<open>Properties\<close>

text \<open>One policy that grants \<open>mail.send\<close> and does not gate it, and one that gates it.\<close>

definition example_grant :: "string list \<Rightarrow> group_policy list" where
  "example_grant gated =
    [\<lparr>gs_name = ''g1'', gs_servers = [\<lparr>gp_server = ''mail'', gp_default = Deny, gp_allow = [''send''],
        gp_deny = [], gp_gated = gated\<rparr>], g_id = ''1'', g_description = [], g_createdAt = 0,
      g_updatedAt = 0, g_ownerId = None\<rparr>]"

text \<open>
  C1. No backend is asked to run a tool without permission: a call that sends a \<open>tools/call\<close>
  request sends exactly one, has a principal whose policy allows the tool, is not subject to
  approval, and sends the tool that the catalog has under that name with the arguments of the
  call less the run and step ids.
\<close>

theorem backend_call_was_permitted:
  assumes "calls (snd (callTool env pr n a cd w)) \<noteq> calls w"
  shows "\<exists>p q. pr = Some p \<and>
    pe_decision (evaluatePolicy (Some p) (tw_groups w) (fst (parseNamespacedToolName n))
      (snd (parseNamespacedToolName n))) = Allowed \<and>
    \<not> requiresApproval (Some p) n w \<and>
    calls (snd (callTool env pr n a cd w)) = calls w @ [q] \<and>
    call_params env n (pa_upstreamArgs (parseToolArguments a)) (bp_params q)"
  using callTool_calls [OF assms] unfolding policy_allows_def by blast

lemma example_permitted:
  "calls (snd (callTool (example_env 5 []) (Some (example_agent [''g1''])) ''mail.send'' None True
     (example_world \<lparr>db_approvals = [], db_rejections = []\<rparr> [] (example_grant [])))) \<noteq> []"
  by code_simp

theorem backend_call_was_permitted_witness:
  "\<exists>q. calls (snd (callTool (example_env 5 []) (Some (example_agent [''g1''])) ''mail.send'' None True
     (example_world \<lparr>db_approvals = [], db_rejections = []\<rparr> [] (example_grant [])))) = [q] \<and>
   call_params (example_env 5 []) ''mail.send'' [] (bp_params q)"
proof -
  have "calls (example_world a t g) = []" for a t g by (simp add: calls_def example_world_def)
  then show ?thesis
    using backend_call_was_permitted [of "example_env 5 []" "Some (example_agent [''g1''])" "''mail.send''" None True
      "example_world \<lparr>db_approvals = [], db_rejections = []\<rparr> [] (example_grant [])"] example_permitted
    by (auto simp: parseToolArguments_def)
qed

text \<open>
  C9. A denied call is contained: when policy evaluation denies the tool to the principal, the
  call throws \<open>PolicyDeniedError\<close>, nothing is sent to a backend, no task or approval is created,
  and the audit trail gets exactly one record, which says that it was denied, to whom and why,
  and carries no duration.
\<close>

theorem denied_call_is_contained:
  assumes "pe_decision (evaluatePolicy (Some p) (tw_groups w) (fst (parseNamespacedToolName n))
      (snd (parseNamespacedToolName n))) = Denied"
  shows "\<exists>meta w' tr. callTool env (Some p) n a cd w = (Inl (PolicyDeniedError n meta), w') \<and>
    tw_posts w' = tw_posts w \<and> tw_tasks w' = tw_tasks w \<and> tw_approvals w' = tw_approvals w \<and>
    tw_traces w' = tw_traces w @ [tr] \<and> tf_policyDecision tr = Denied \<and> tf_durationMs tr = None \<and>
    tf_principal tr = toTracePrincipal (Some p) \<and> tf_error tr \<noteq> None"
proof -
  obtain ctx x where c: "createCallContext env (Some p) n a w = (Inr ctx, w\<lparr>tw_ext := x\<rparr>)"
    "cx_namespacedName ctx = n" "cx_server ctx = fst (parseNamespacedToolName n)"
    "cx_tool ctx = snd (parseNamespacedToolName n)" "cx_agentPrincipal ctx = p"
    using context_Some [of env p n a w] by blast
  show ?thesis
    unfolding callTool_after_context [OF c(1)]
    by (simp add: bindM_def [of "enforcePolicyOrThrow ctx"] enforce_eq Let_def evaluate_decision c(2-5) assms
        finalizeCallTrace_def call_fields_def trace_fields.defs call_trace.defs)
qed

theorem denied_call_is_contained_witness:
  "\<exists>meta w'. callTool (example_env 5 []) (Some (example_agent [])) ''mail.send'' None True
     (example_world \<lparr>db_approvals = [], db_rejections = []\<rparr> [] (example_grant [])) =
       (Inl (PolicyDeniedError ''mail.send'' meta), w') \<and> tw_posts w' = []"
proof -
  have "pe_decision (evaluatePolicy (Some (example_agent [])) (tw_groups (example_world
      \<lparr>db_approvals = [], db_rejections = []\<rparr> [] (example_grant []))) (fst (parseNamespacedToolName ''mail.send''))
      (snd (parseNamespacedToolName ''mail.send''))) = Denied" by code_simp
  from denied_call_is_contained [OF this, of "example_env 5 []" None True] show ?thesis
    by (auto simp: example_world_def)
qed

text \<open>
  Every call is audited: a call that returns a result, whatever it is, has appended exactly one
  record to the audit trail, and a call that throws at most one; no record is ever changed.
\<close>

theorem every_call_is_audited:
  "case callTool env pr n a cd w of
     (Inr r, w') \<Rightarrow> \<exists>tr. tw_traces w' = tw_traces w @ [tr]
   | (Inl e, w') \<Rightarrow> \<exists>trs. tw_traces w' = tw_traces w @ trs \<and> length trs \<le> 1"
  using emitsD [OF emits_callTool, of env pr n a cd w]
  by (auto simp: final_def length_Suc_conv split: prod.split sum.split)


text \<open>
  C2. Nothing unapproved is executed: when polling a parked task sends a \<open>tools/call\<close> request,
  it sends exactly one, on behalf of the agent that an operator's unexpired, not yet used approval
  of this task names, for the tool and with the parameters of that approval; and the approval is
  used up afterwards.
\<close>

theorem executed_call_was_approved:
  assumes "approvals_wf (tw_approvals w)"
    and "calls (snd (executeApprovedTask env pr taskId w)) \<noteq> calls w"
  shows "\<exists>p r q. pr = Some p \<and> getApprovalByTaskId taskId (tw_approvals w) = Some r \<and>
    ap_agentId r = pr_agentId p \<and> ap_status r = AApproved \<and> ap_usedAt r = None \<and>
    fst (te_now env (tw_ext w)) < ap_expiresAt r \<and>
    calls (snd (executeApprovedTask env pr taskId w)) = calls w @ [q] \<and>
    call_params env (ap_toolName r)
      (map_del torii_step_id_arg (map_del torii_run_id_arg (ap_params r))) (bp_params q) \<and>
    used_up (ap_id r) (tw_approvals (snd (executeApprovedTask env pr taskId w)))"
proof (cases pr)
  case None
  then show ?thesis using assms(2)
    by (simp add: executeApprovedTask_def getAgentPrincipal_def bind_throw)
next
  case (Some p)
  define t0 where "t0 = fst (te_now env (tw_ext w))"
  define x0 where "x0 = snd (te_now env (tw_ext w))"
  define c where "c = claimApprovedExecution taskId p t0 (tw_approvals w)"
  define g where "g = getDetailedTask (pr_agentId p) taskId (fst (te_now env x0)) (tw_tasks w)"
  define u where "u = w\<lparr>tw_approvals := snd c, tw_ext := snd (te_now env x0), tw_tasks := snd g\<rparr>"
  note ex = execute_eq [of env p taskId w, unfolded Let_def, folded t0_def x0_def, folded c_def g_def, folded u_def]
  have cu: "calls u = calls w" by (simp add: u_def)
  obtain r1 where r1: "fst c = Inr (Some r1)"
    using assms(2) unfolding Some ex by (auto split: sum.splits option.splits)
  obtain stored where st: "fst g = Inr stored" "mt_status stored = Working"
    using assms(2) r1 unfolding Some ex by (auto simp: cu split: sum.splits if_splits)
  have run: "executeApprovedTask env pr taskId w = run_approved env (Some p) taskId r1 u"
    unfolding Some ex using r1 st by simp
  obtain r where r: "getApprovalByTaskId taskId (tw_approvals w) = Some r" "claimable p t0 r" "ap_usedAt r = None"
    "r1 = r\<lparr>ap_usedAt := Some t0\<rparr>" "used_up (ap_id r) (snd c)"
    using claim_spec [OF assms(1), of taskId p t0 r1 "snd c"] r1 unfolding c_def by (metis prod.collapse)
  obtain ctx x where ctx: "createCallContext env (Some p) (ap_toolName r1) (Some (approved_args r1)) u =
      (Inr ctx, u\<lparr>tw_ext := x\<rparr>)" "cx_namespacedName ctx = ap_toolName r1"
    "cx_args ctx = parseToolArguments (Some (approved_args r1))"
    using context_Some [of env p "ap_toolName r1" "Some (approved_args r1)" u] by blast
  have body: "executeApprovedTask env pr taskId w =
      catchM (execution_body env taskId ctx) (execution_failed env taskId) (u\<lparr>tw_ext := x\<rparr>)"
    unfolding run run_approved_eq by (simp add: bindM_def [of "createCallContext _ _ _ _"] ctx(1))
  have "tw_approvals (snd (executeApprovedTask env pr taskId w)) = snd c"
    unfolding body using frameD [OF frame_approvals_execution [of env taskId ctx], of "u\<lparr>tw_ext := x\<rparr>"]
    by (simp add: u_def)
  moreover have "\<exists>q. calls (snd (executeApprovedTask env pr taskId w)) = calls w @ [q] \<and> ctx_params env ctx (bp_params q)"
    using one_callD [OF one_call_execution [of env ctx taskId], of "u\<lparr>tw_ext := x\<rparr>"] assms(2) cu
    unfolding body by simp
  ultimately show ?thesis
    using r Some unfolding t0_def
    by (auto simp: claimable_def ctx(2,3) approved_upstream)
qed

definition example_approved :: "nat torii_world" where
  "example_approved = example_world (snd (approve ''p1'' 2000 example_approvals)) example_tasks []"

lemma example_approved_wf: "approvals_wf (tw_approvals example_approved)"
  using approval_invariant.step_keeps [OF example_approvals_wf, of "Approve ''p1'' 2000"]
  by (simp add: example_approved_def example_world_def)

lemma example_executes:
  "calls (snd (executeApprovedTask (example_env 3000 []) (Some (example_agent [])) ''t1'' example_approved)) \<noteq>
   calls example_approved"
  by (simp add: execute_eq Let_def example_approved_def example_world_def example_env_def example_agent_def
      approval_example_defs approve_def decidePending_def decidable_now_def tbl_update_def claimApprovedExecution_def
      getApprovalByTaskId_def rowToApproval_def claimable_def markUsed_def unused_def getApproval_def decide_columns_def
      getDetailedTask_def requireOwnedTask_def getRecord_def rowToRecord_def comp_simps example_defs
      isMcpTaskExpired_def toDetailedMcpTask_def toMcpTask_def mcp_task.defs)
    (simp add: run_approved_def createCallContext_def getAgentPrincipal_def comp_simps nowM_def uuidM_def
      on_ext_def on_tasks_def liftE_def postM_def emit_def since_start_def resolveConnectedBackend_def
      obtainConnection_def usable_def check_connection_def proxyCallToBackend_def send_call_def
      backendHttpUrl_def settle_reply_def classifyBackendToolResult_def truthy_prop_def example_connection_def
      calls_def call_post_def Let_def complete_def finish_def getRecord_def save_def tbl_simps rowToRecord_def
      pg_int4_opt_def pg_int4_def)
theorem executed_call_was_approved_witness:
  "\<exists>q. calls (snd (executeApprovedTask (example_env 3000 []) (Some (example_agent [])) ''t1'' example_approved)) = [q]"
proof -
  have "calls example_approved = []" by (simp add: calls_def example_approved_def example_world_def)
  then show ?thesis using executed_call_was_approved [OF example_approved_wf example_executes] by auto
qed




section \<open>Cancelling a parked task\<close>

lemma approval_by_task_id:
  assumes "approvals_wf db" "getApprovalByTaskId t db = Some r"
  shows "getApproval (ap_id r) db = Some r"
proof -
  obtain row where row: "tbl_find (\<lambda>r. ar_task_id r = Some t) (db_approvals db) = Some row" "r = rowToApproval row"
    using assms(2) by (auto simp: getApprovalByTaskId_def)
  then have "tbl_find (\<lambda>r. ar_id r = ar_id row) (db_approvals db) = Some row"
    using tbl_find_key_in [of ar_id "db_approvals db" row] assms(1) tbl_find_Some_in [OF row(1)]
    by (simp add: approvals_wf_def)
  then show ?thesis by (simp add: getApproval_def row(2) rowToApproval_def)
qed

lemma cancelled_not_claimable:
  assumes "approvals_wf db" "getApprovalByTaskId t db = Some r" "getApproval (ap_id r) db = Some r"
    and "ap_status r = ACancelled"
  shows "fst (claimApprovedExecution t p now (run_approvals ops db)) = Inr None"
proof -
  let ?d = "run_approvals ops db"
  have wf: "approvals_wf ?d" by (rule approval_invariant.run_keeps [OF assms(1)]) simp
  obtain row where row: "tbl_find (\<lambda>x. ar_id x = ap_id r) (db_approvals db) = Some row" "r = rowToApproval row"
    using assms(3) by (auto simp: getApproval_def)
  have "ar_status row = ACancelled" using assms(4) by (simp add: row(2) rowToApproval_def)
  then obtain u where u: "tbl_find (\<lambda>x. ar_id x = ap_id r) (db_approvals ?d) = Some (row\<lparr>ar_used_at := u\<rparr>)"
    using decided_row_stays [OF row(1), of ops] by auto
  have "\<not> claimable p now r1" if r1: "getApprovalByTaskId t ?d = Some r1" for r1
  proof -
    have "getApproval (ap_id r) ?d = Some r1"
      using approval_by_task_id [OF wf r1] approval_of_task_stays [OF assms(1,2) r1] by simp
    then show ?thesis using u \<open>ar_status row = ACancelled\<close>
      by (auto simp: getApproval_def rowToApproval_def claimable_def)
  qed
  then show ?thesis by (auto simp: claimApprovedExecution_def split: option.split)
qed

lemma frame_approvals_forward: "frame tw_approvals (forwardBackendCancel env pr i)"
proof -
  have c: "frame tw_approvals (postBackendCancel env s b q)" for s b q
    by (rule frame_postCancel) (auto intro: frames)
  have f: "frame tw_approvals (findBackendOriginTask env pr i)"
    unfolding findBackendOriginTask_def by (intro frames) simp_all
  show ?thesis
    unfolding forwardBackendCancel_def by (rule frame_bind [OF f]) (auto intro: frames c split: option.split)
qed

lemma cancel_pending_spec:
  assumes "approvals_wf db" "getApprovalByTaskId t db = Some r" "ap_status r = APending" "now < ap_expiresAt r"
  shows "\<exists>r'. getApprovalByTaskId t (snd (cancelPendingForTask t now db)) = Some r' \<and> ap_status r' = ACancelled \<and>
    fst (cancelPendingForTask t now db) = Inr ()"
proof -
  obtain row where row: "tbl_find (\<lambda>r. ar_task_id r = Some t) (db_approvals db) = Some row" "r = rowToApproval row"
    using assms(2) by (auto simp: getApprovalByTaskId_def)
  have "decidable_now (ar_id row) now row"
    using assms(3,4) by (simp add: row(2) rowToApproval_def decidable_now_def)
  then have "tbl_find (\<lambda>r. ar_task_id r = Some t) (tbl_update (decidable_now (ar_id row) now)
      (decide_columns ACancelled None now) (db_approvals db)) = Some (decide_columns ACancelled None now row)"
    using tbl_find_key_update [of ar_task_id "decide_columns ACancelled None now" "Some t"
        "decidable_now (ar_id row) now" "db_approvals db"] row(1) by (simp add: decide_columns_def)
  then show ?thesis
    using assms(2,3) by (auto simp: cancelPendingForTask_def ApprovalStore.cancel_def bindM_def returnM_def
        row(2) getApprovalByTaskId_def rowToApproval_def decide_columns_def decidePending_def Let_def
        split: prod.splits sum.splits)
qed

text \<open>
  A cancelled task is never executed: cancelling a task whose approval is pending withdraws the
  approval, whatever the backend answers, and no later claim of the task succeeds, not even after
  an operator tries to approve it.
\<close>

theorem cancelled_task_is_never_executed:
  assumes "approvals_wf (tw_approvals w)" "getApprovalByTaskId taskId (tw_approvals w) = Some r"
    and "ap_status r = APending" "fst (te_now env (tw_ext w)) < ap_expiresAt r"
  shows "fst (claimApprovedExecution taskId p now
    (run_approvals ops (tw_approvals (snd (cancelParkedTask env pr taskId w))))) = Inr None"
proof -
  let ?t = "fst (te_now env (tw_ext w))"
  let ?c = "snd (cancelPendingForTask taskId ?t (tw_approvals w))"
  obtain r' where r': "getApprovalByTaskId taskId ?c = Some r'" "ap_status r' = ACancelled"
    "fst (cancelPendingForTask taskId ?t (tw_approvals w)) = Inr ()"
    using cancel_pending_spec [OF assms] by blast
  have c: "?c = run_approval_op (Cancel (ap_id r) ?t) (tw_approvals w)"
    using assms(2,3) by (simp add: cancelPendingForTask_def bindM_def returnM_def split: prod.split sum.split)
  have wf: "approvals_wf ?c" unfolding c by (rule approval_invariant.step_keeps [OF assms(1)]) simp
  have "tw_approvals (snd (cancelParkedTask env pr taskId w)) = ?c"
    using frameD [OF frame_approvals_forward, of env pr taskId] r'(3) by (simp add: cancelParkedTask_def step_simps)
  then show ?thesis
    using cancelled_not_claimable [OF wf r'(1) approval_by_task_id [OF wf r'(1)] r'(2)] by simp
qed

theorem cancelled_task_is_never_executed_witness:
  "fst (claimApprovedExecution ''t1'' (example_agent []) 3000 (run_approvals [Approve ''p1'' 2500]
     (tw_approvals (snd (cancelParkedTask (example_env 2000 []) (Some (example_agent [])) ''t1''
       (example_world example_approvals example_tasks [])))))) = Inr None"
proof -
  have "\<exists>r. getApprovalByTaskId ''t1'' example_approvals = Some r \<and> ap_status r = APending \<and> 2000 < ap_expiresAt r"
    by (simp add: approval_example_defs getApprovalByTaskId_def rowToApproval_def)
  then obtain r where "getApprovalByTaskId ''t1'' example_approvals = Some r" "ap_status r = APending"
    "2000 < ap_expiresAt r" by blast
  then show ?thesis
    by (intro cancelled_task_is_never_executed [where r = r]) (simp_all add: example_world_def example_env_def example_approvals_wf)
qed

section \<open>A backend task that cannot be stored\<close>

text \<open>
  A backend task that cannot be stored is lost: \<open>mcp_tasks.ttl_ms\<close> is a 32-bit column, and when
  a backend answers a call with a task whose TTL does not fit, the insertion throws after the
  \<open>try\<close> of \<open>proxyCallToBackend\<close> has been left. The call throws a database error, the audit trail
  gets no record of a call that the backend did accept, and the backend task is not cancelled.
\<close>

theorem unstorable_backend_task_is_lost:
  assumes "send_call env ctx target w = (Inr (Adopt t cred d), w1)" "mt_ttlMs t = Some ttl" "2147483647 < ttl"
  shows "\<exists>w'. proxyCallToBackend env ctx target \<lparr>po_clientDeclaresTasks = True, po_existingTaskId = None\<rparr> w =
      (Inl PgOutOfRange, w') \<and>
    tw_traces w' = tw_traces w \<and> tw_posts w' = tw_posts w1 \<and> tw_tasks w' = tw_tasks w"
proof -
  obtain ts where ts: "tw_traces w1 = tw_traces w @ ts" "proxied_count (Inr (Adopt t cred d)) (length ts)"
    using emitsD [OF emits_send, of env ctx target w] assms(1) by auto
  have "tw_tasks w1 = tw_tasks w"
    using frameD [OF frame_send [where P = tw_tasks], of env ctx target w] assms(1) by simp
  moreover have "tw_traces w1 = tw_traces w" using ts by (simp add: proxied_count_def)
  ultimately show ?thesis using assms(2,3)
    by (simp add: proxyCallToBackend_def bindM_def [of "catchM _ _"] catchM_def assms(1) adoptBackendTask_def
        bind_origin_def Let_def truthy_str_def bindM_def [of "bindM _ _"] step_simps createWorkingTask_def adopted_input_def
        pg_int4_opt_def pg_int4_def)
qed


definition example_task_reply :: jobj where
  "example_task_reply =
    [(''resultType'', JStr ''task''), (''taskId'', JStr ''b1''), (''status'', JStr ''working''),
     (''createdAt'', JStr ''c''), (''lastUpdatedAt'', JStr ''l''), (''ttlMs'', JInt 2147483648)]"

definition example_context :: call_context where
  "example_context =
    \<lparr>cx_namespacedName = ''mail.send'', cx_args = \<lparr>pa_upstreamArgs = [], pa_runId = None, pa_stepId = None\<rparr>,
     cx_server = ''mail'', cx_tool = ''send'', cx_agentPrincipal = example_agent [], cx_startedAt = 5,
     cx_traceId = ''u0'', cx_timestamp = []\<rparr>"

definition example_target :: connected_backend_target where
  "example_target =
    \<lparr>tg_entry = \<lparr>ct_server = ''mail'', ct_bareName = ''send'', ct_inputSchema = JObj []\<rparr>,
     tg_config = bc_config example_connection, tg_client = None, tg_credentialRef = ''none''\<rparr>"

theorem unstorable_backend_task_is_lost_witness:
  "\<exists>w'. proxyCallToBackend (example_env 5 example_task_reply) example_context example_target
      \<lparr>po_clientDeclaresTasks = True, po_existingTaskId = None\<rparr>
      (example_world \<lparr>db_approvals = [], db_rejections = []\<rparr> [] []) = (Inl PgOutOfRange, w') \<and> tw_traces w' = []"
proof -
  let ?w = "example_world \<lparr>db_approvals = [], db_rejections = []\<rparr> [] []"
  have "\<exists>t cred d w1. send_call (example_env 5 example_task_reply) example_context example_target ?w =
      (Inr (Adopt t cred d), w1) \<and> mt_ttlMs t = Some 2147483648"
    by (simp add: send_call_def example_env_def step_simps bindM_def on_ext_def example_target_def
        example_connection_def backendHttpUrl_def returnM_def liftE_def postM_def settle_reply_def
        classifyBackendToolResult_def example_task_reply_def mcpCreateTaskResultSchema_def mcpTaskSchema_def
        toCreateTaskResult_def nowM_def js_simps parse_datetime_def parse_status_def Let_def
        mcp_task.defs mcp_create_task_result.defs)
  then obtain t cred d w1 where "send_call (example_env 5 example_task_reply) example_context example_target ?w =
      (Inr (Adopt t cred d), w1)" "mt_ttlMs t = Some 2147483648" by blast
  from unstorable_backend_task_is_lost [OF this] show ?thesis by (auto simp: example_world_def)
qed

end
