(* ===== verification/TaskSchedule.thy ===== *)
theory TaskSchedule
  imports JsDate JsonText
begin

text \<open>
  Schedules of tasks: \<^verbatim>\<open>packages/shared/src/task.ts\<close> (triggers, their validation and equality)
  and \<^verbatim>\<open>packages/shared/src/next-run-at.ts\<close> (when a schedule fires next).

  Instants are milliseconds since the epoch. What \<open>Intl.DateTimeFormat\<close> knows of time zones is a
  parameter: \<open>fmt zone t\<close> are the numeric parts that \<open>formatToParts\<close> shows for the instant \<open>t\<close>,
  and \<open>is_zone\<close> the names the constructor accepts.
\<close>

section \<open>Triggers\<close>

datatype weekday = Mon | Tue | Wed | Thu | Fri | Sat | Sun

definition weekdays :: "weekday list" where
  "weekdays = [Mon, Tue, Wed, Thu, Fri, Sat, Sun]"

datatype schedule_recurrence = Daily | Weekly "weekday list" | Monthly

record schedule_trigger =
  sc_timezone :: string
  sc_at :: string
  sc_recurrence :: "schedule_recurrence option"
  sc_paused :: "bool option"

datatype task_trigger = NowTrigger | ScheduleTrigger schedule_trigger

definition is_paused :: "schedule_trigger \<Rightarrow> bool" where
  "is_paused s \<longleftrightarrow> sc_paused s = Some True"

record civil_date_time =
  cv_year :: int
  cv_month :: int
  cv_day :: int
  cv_hour :: int
  cv_minute :: int

text \<open>\<open>LOCAL_DATE_TIME.exec\<close>: the five groups as numbers.\<close>

definition local_date_time :: "string \<Rightarrow> civil_date_time option" where
  "local_date_time s =
    (let num = (\<lambda>i n. int (digits_val (take n (drop i s)))) in
     if length s = 16 \<and> s ! 4 = CHR ''-'' \<and> s ! 7 = CHR ''-'' \<and> s ! 10 = CHR ''T'' \<and> s ! 13 = CHR '':'' \<and>
        list_all is_digit (take 4 s @ take 2 (drop 5 s) @ take 2 (drop 8 s) @ take 2 (drop 11 s) @ take 2 (drop 14 s))
     then Some \<lparr>cv_year = num 0 4, cv_month = num 5 2, cv_day = num 8 2, cv_hour = num 11 2, cv_minute = num 14 2\<rparr>
     else None)"

definition isValidLocalDateTime :: "string \<Rightarrow> bool" where
  "isValidLocalDateTime value =
    (case local_date_time value of
       None \<Rightarrow> False
     | Some c \<Rightarrow>
         if cv_hour c > 23 \<or> cv_minute c > 59 \<or> cv_month c < 1 \<or> cv_month c > 12 \<or> cv_day c < 1 then False
         else (let f = utc_fields (date_utc (cv_year c) (cv_month c - 1) (cv_day c) (cv_hour c) (cv_minute c) 0) in
           uf_year f = cv_year c \<and> uf_month f + 1 = cv_month c \<and> uf_date f = cv_day c \<and>
           uf_hours f = cv_hour c \<and> uf_minutes f = cv_minute c))"

text \<open>\<open>scheduleRecurrenceSchema\<close> and \<open>scheduleTriggerSchema\<close>: what a stored schedule satisfies.\<close>

definition valid_recurrence :: "schedule_recurrence \<Rightarrow> bool" where
  "valid_recurrence r = (case r of Weekly days \<Rightarrow> days \<noteq> [] \<and> distinct days | _ \<Rightarrow> True)"

definition valid_schedule :: "(string \<Rightarrow> bool) \<Rightarrow> schedule_trigger \<Rightarrow> bool" where
  "valid_schedule is_zone s \<longleftrightarrow> sc_timezone s \<noteq> [] \<and> is_zone (sc_timezone s) \<and>
     isValidLocalDateTime (sc_at s) \<and>
     (case sc_recurrence s of None \<Rightarrow> True | Some r \<Rightarrow> valid_recurrence r)"

definition same_freq :: "schedule_recurrence \<Rightarrow> schedule_recurrence \<Rightarrow> bool" where
  "same_freq l r = (case (l, r) of
     (Daily, Daily) \<Rightarrow> True | (Weekly _, Weekly _) \<Rightarrow> True | (Monthly, Monthly) \<Rightarrow> True | _ \<Rightarrow> False)"

fun recurrenceEqual :: "schedule_recurrence option \<Rightarrow> schedule_recurrence option \<Rightarrow> bool" where
  "recurrenceEqual None None = True"
| "recurrenceEqual None (Some r) = False"
| "recurrenceEqual (Some l) None = False"
| "recurrenceEqual (Some l) (Some r) =
    (if \<not> same_freq l r then False
     else case (l, r) of
       (Weekly ds, Weekly es) \<Rightarrow> if length ds \<noteq> length es then False else list_all (\<lambda>d. d \<in> set es) ds
     | _ \<Rightarrow> True)"

fun taskTriggersEqual :: "task_trigger \<Rightarrow> task_trigger \<Rightarrow> bool" where
  "taskTriggersEqual NowTrigger NowTrigger = True"
| "taskTriggersEqual (ScheduleTrigger l) (ScheduleTrigger r) \<longleftrightarrow>
     sc_timezone l = sc_timezone r \<and> sc_at l = sc_at r \<and> is_paused l = is_paused r \<and>
     recurrenceEqual (sc_recurrence l) (sc_recurrence r)"
| "taskTriggersEqual _ _ = False"

section \<open>Local time and instants\<close>

definition parseLocalDateTime :: "string \<Rightarrow> string + civil_date_time" where
  "parseLocalDateTime value =
    (case local_date_time value of None \<Rightarrow> Inl (''invalid local datetime: '' @ value) | Some c \<Rightarrow> Inr c)"

definition formatLocalDateTime :: "civil_date_time \<Rightarrow> string" where
  "formatLocalDateTime c =
    int_str (cv_year c) @ ''-'' @ pad_nat 2 (nat (cv_month c)) @ ''-'' @ pad_nat 2 (nat (cv_day c)) @ ''T'' @
    pad_nat 2 (nat (cv_hour c)) @ '':'' @ pad_nat 2 (nat (cv_minute c))"

record zone_parts = civil_date_time +
  cv_second :: int

type_synonym zone_format = "string \<Rightarrow> int \<Rightarrow> zone_parts"

definition partsInZone :: "zone_format \<Rightarrow> int \<Rightarrow> string \<Rightarrow> zone_parts" where
  "partsInZone fmt t zone = (let p = fmt zone t in if cv_hour p = 24 then p\<lparr>cv_hour := 0\<rparr> else p)"

definition offsetMs :: "zone_format \<Rightarrow> int \<Rightarrow> string \<Rightarrow> int" where
  "offsetMs fmt t zone =
    (let p = partsInZone fmt t zone in
     date_utc (cv_year p) (cv_month p - 1) (cv_day p) (cv_hour p) (cv_minute p) (cv_second p) - t)"

definition civil_utc :: "'a civil_date_time_scheme \<Rightarrow> int" where
  "civil_utc c = date_utc (cv_year c) (cv_month c - 1) (cv_day c) (cv_hour c) (cv_minute c) 0"

definition civil_to_utc :: "zone_format \<Rightarrow> civil_date_time \<Rightarrow> string \<Rightarrow> int" where
  "civil_to_utc fmt civil zone =
    (let utcGuess = civil_utc civil;
         instant1 = utcGuess - offsetMs fmt utcGuess zone
     in utcGuess - offsetMs fmt instant1 zone)"

definition zonedLocalToUtc :: "zone_format \<Rightarrow> string \<Rightarrow> string \<Rightarrow> string + int" where
  "zonedLocalToUtc fmt s zone =
    (case parseLocalDateTime s of Inl e \<Rightarrow> Inl e | Inr civil \<Rightarrow> Inr (civil_to_utc fmt civil zone))"

definition addUtcDays :: "civil_date_time \<Rightarrow> int \<Rightarrow> civil_date_time" where
  "addUtcDays c days =
    (let f = utc_fields (date_utc (cv_year c) (cv_month c - 1) (cv_day c + days) (cv_hour c) (cv_minute c) 0) in
     \<lparr>cv_year = uf_year f, cv_month = uf_month f + 1, cv_day = uf_date f, cv_hour = uf_hours f,
      cv_minute = uf_minutes f\<rparr>)"

definition daysInMonth :: "int \<Rightarrow> int \<Rightarrow> int" where
  "daysInMonth year month = uf_date (utc_fields (date_utc year month 0 0 0 0))"

definition weekdayOfCivilDate :: "civil_date_time \<Rightarrow> weekday" where
  "weekdayOfCivilDate c =
    weekdays ! nat ((utc_day (date_utc (cv_year c) (cv_month c - 1) (cv_day c) 0 0 0) + 6) mod 7)"

definition matchesRecurrence :: "civil_date_time \<Rightarrow> int \<Rightarrow> schedule_recurrence option \<Rightarrow> bool" where
  "matchesRecurrence civil atDay recurrence =
    (case recurrence of
       None \<Rightarrow> cv_day civil = atDay
     | Some Daily \<Rightarrow> True
     | Some (Weekly days) \<Rightarrow> weekdayOfCivilDate civil \<in> set days
     | Some Monthly \<Rightarrow> cv_day civil = min atDay (daysInMonth (cv_year civil) (cv_month civil)))"

definition isEligible :: "int \<Rightarrow> int \<Rightarrow> int \<Rightarrow> bool \<Rightarrow> bool" where
  "isEligible instant fromUtc atUtc after =
    (if instant < atUtc then False else if after then instant > fromUtc else instant \<ge> fromUtc)"

section \<open>The next run\<close>

text \<open>The day after, at the time of day of the schedule.\<close>

definition next_cursor :: "civil_date_time \<Rightarrow> civil_date_time \<Rightarrow> civil_date_time" where
  "next_cursor at cursor =
    (addUtcDays (cursor\<lparr>cv_hour := 0, cv_minute := 0\<rparr>) 1)\<lparr>cv_hour := cv_hour at, cv_minute := cv_minute at\<rparr>"

text \<open>The loop, with the number of rounds that are left.\<close>

fun search_run ::
    "nat \<Rightarrow> zone_format \<Rightarrow> string \<Rightarrow> schedule_recurrence option \<Rightarrow> civil_date_time \<Rightarrow> int \<Rightarrow> int \<Rightarrow> bool \<Rightarrow>
     civil_date_time \<Rightarrow> string + int option" where
  "search_run 0 fmt zone rec at atUtc fromUtc after cursor = Inr None"
| "search_run (Suc n) fmt zone rec at atUtc fromUtc after cursor =
    (let rest = search_run n fmt zone rec at atUtc fromUtc after (next_cursor at cursor) in
     if matchesRecurrence cursor (cv_day at) rec
     then (case zonedLocalToUtc fmt (formatLocalDateTime cursor) zone of
             Inl e \<Rightarrow> Inl e
           | Inr instant \<Rightarrow> if isEligible instant fromUtc atUtc after then Inr (Some instant) else rest)
     else rest)"

definition start_cursor :: "zone_format \<Rightarrow> string \<Rightarrow> civil_date_time \<Rightarrow> int \<Rightarrow> int \<Rightarrow> civil_date_time" where
  "start_cursor fmt zone at atUtc fromUtc =
    (let p = partsInZone fmt fromUtc zone in
     if fromUtc < atUtc then at
     else \<lparr>cv_year = cv_year p, cv_month = cv_month p, cv_day = cv_day p, cv_hour = cv_hour at, cv_minute = cv_minute at\<rparr>)"

definition nextRunAt :: "zone_format \<Rightarrow> task_trigger \<Rightarrow> int \<Rightarrow> bool \<Rightarrow> string + int option" where
  "nextRunAt fmt trigger fromUtc after =
    (case trigger of
       NowTrigger \<Rightarrow> Inr None
     | ScheduleTrigger s \<Rightarrow>
         if is_paused s then Inr None
         else (case parseLocalDateTime (sc_at s) of
           Inl e \<Rightarrow> Inl e
         | Inr at \<Rightarrow>
             (let atUtc = civil_to_utc fmt at (sc_timezone s) in
              case sc_recurrence s of
                None \<Rightarrow> Inr (if isEligible atUtc fromUtc atUtc after then Some atUtc else None)
              | Some r \<Rightarrow> search_run 400 fmt (sc_timezone s) (Some r) at atUtc fromUtc after
                            (start_cursor fmt (sc_timezone s) at atUtc fromUtc))))"

definition nextRunAtIso :: "zone_format \<Rightarrow> task_trigger \<Rightarrow> int \<Rightarrow> bool \<Rightarrow> string + string option" where
  "nextRunAtIso fmt trigger fromUtc after =
    (case nextRunAt fmt trigger fromUtc after of
       Inl e \<Rightarrow> Inl e | Inr next \<Rightarrow> Inr (map_option to_iso_string next))"

definition oneShotMustBeFutureError :: "zone_format \<Rightarrow> task_trigger \<Rightarrow> int \<Rightarrow> string + string option" where
  "oneShotMustBeFutureError fmt trigger now =
    (case trigger of
       NowTrigger \<Rightarrow> Inr None
     | ScheduleTrigger s \<Rightarrow>
         if is_paused s \<or> sc_recurrence s \<noteq> None then Inr None
         else (case zonedLocalToUtc fmt (sc_at s) (sc_timezone s) of
           Inl e \<Rightarrow> Inl e
         | Inr t \<Rightarrow> Inr (if t \<le> now then Some ''one-shot schedule must be in the future'' else None)))"

record schedule_update =
  su_nextRunAt :: "string option"
  su_resetScheduleState :: bool

definition nextRunAtAfterUpdate ::
    "zone_format \<Rightarrow> task_trigger \<Rightarrow> string option \<Rightarrow> task_trigger \<Rightarrow> int \<Rightarrow> string + schedule_update" where
  "nextRunAtAfterUpdate fmt existing existingNextRunAt merged now =
    (if taskTriggersEqual existing merged
     then Inr \<lparr>su_nextRunAt = existingNextRunAt, su_resetScheduleState = False\<rparr>
     else (case nextRunAtIso fmt merged now False of
       Inl e \<Rightarrow> Inl e | Inr next \<Rightarrow> Inr \<lparr>su_nextRunAt = next, su_resetScheduleState = True\<rparr>))"


section \<open>Civil days by number\<close>

definition civil_of :: "int \<Rightarrow> int \<Rightarrow> int \<Rightarrow> civil_date_time" where
  "civil_of n h mi =
    (let f = utc_fields (n * ms_per_day) in
     \<lparr>cv_year = uf_year f, cv_month = uf_month f + 1, cv_day = uf_date f, cv_hour = h, cv_minute = mi\<rparr>)"

definition midnight :: "int \<Rightarrow> utc_fields" where
  "midnight n = utc_fields (n * ms_per_day)"

lemma civil_of_fields [simp]:
  "cv_year (civil_of n h mi) = uf_year (midnight n)" "cv_month (civil_of n h mi) = uf_month (midnight n) + 1"
  "cv_day (civil_of n h mi) = uf_date (midnight n)" "cv_hour (civil_of n h mi) = h" "cv_minute (civil_of n h mi) = mi"
  by (simp_all add: civil_of_def midnight_def Let_def)

lemma civil_of_eq: "c = civil_of n h mi \<longleftrightarrow> cv_year c = uf_year (midnight n) \<and> cv_month c = uf_month (midnight n) + 1 \<and>
    cv_day c = uf_date (midnight n) \<and> cv_hour c = h \<and> cv_minute c = mi"
  for c :: civil_date_time
  by (auto simp: civil_of_def midnight_def Let_def)

lemma midnight_time [simp]: "uf_hours (midnight n) = 0" "uf_minutes (midnight n) = 0" "uf_seconds (midnight n) = 0"
    "uf_ms (midnight n) = 0"
  by (simp_all add: midnight_def utc_fields_def Let_def ms_per_day_def)

lemma uf_year_midnight: "uf_year (midnight n) = year_from_day n"
  by (simp add: midnight_def utc_fields_def Let_def ms_per_day_def)

lemma utc_fields_day: "uf_year (utc_fields t) = uf_year (midnight (t div ms_per_day))"
    "uf_month (utc_fields t) = uf_month (midnight (t div ms_per_day))"
    "uf_date (utc_fields t) = uf_date (midnight (t div ms_per_day))"
  by (simp_all add: midnight_def utc_fields_def Let_def ms_per_day_def)

lemma year_from_day_ge: "y \<le> year_from_day n \<longleftrightarrow> day_from_year y \<le> n"
proof
  assume "y \<le> year_from_day n"
  then show "day_from_year y \<le> n" using year_from_day_bounds [of n] day_from_year_mono by (meson order_trans)
next
  assume "day_from_year y \<le> n"
  then show "y \<le> year_from_day n"
    using year_from_day_bounds [of n] day_from_year_mono [of "year_from_day n + 1" y] by linarith
qed

lemma midnight_valid: "valid_civil (uf_year (midnight n)) (uf_month (midnight n)) (uf_date (midnight n)) 0 0 0"
  using utc_fields_valid [of "n * ms_per_day"] midnight_time [of n] by (simp add: midnight_def)

lemma make_day_midnight: "make_day (uf_year (midnight n)) (uf_month (midnight n)) k = n - uf_date (midnight n) + k"
proof -
  have "0 \<le> uf_month (midnight n)" "uf_month (midnight n) \<le> 11"
    using midnight_valid [of n] by (auto simp: valid_civil_def)
  then show ?thesis
    by (simp add: make_day_def midnight_def utc_fields_def Let_def ms_per_day_def)
qed

lemma civil_utc_civil_of:
  assumes "day_from_year 100 \<le> n"
  shows "civil_utc (civil_of n h mi) = n * ms_per_day + h * 3600000 + mi * 60000"
  using assms by (simp add: civil_utc_def date_utc_def make_day_midnight [unfolded uf_year_midnight] uf_year_midnight
      year_from_day_ge [symmetric])

lemma next_cursor_civil_of:
  assumes "day_from_year 100 \<le> n"
  shows "next_cursor at (civil_of n h mi) = civil_of (n + 1) (cv_hour at) (cv_minute at)"
proof -
  have "100 \<le> uf_year (midnight n)" using assms by (simp add: uf_year_midnight year_from_day_ge)
  then have "date_utc (uf_year (midnight n)) (uf_month (midnight n)) (uf_date (midnight n) + 1) 0 0 0 =
      (n + 1) * ms_per_day"
    by (simp add: date_utc_def make_day_midnight)
  then show ?thesis
    by (simp add: next_cursor_def addUtcDays_def civil_of_eq Let_def midnight_def [symmetric])
qed

lemma weekday_civil_of:
  assumes "day_from_year 100 \<le> n"
  shows "weekdayOfCivilDate (civil_of n h mi) = weekdays ! nat ((n + 3) mod 7)"
proof -
  have "date_utc (uf_year (midnight n)) (uf_month (midnight n)) (uf_date (midnight n)) 0 0 0 = n * ms_per_day"
    using civil_utc_civil_of [OF assms, of 0 0] by (simp add: civil_utc_def)
  moreover have "((n + 4) mod 7 + 6) mod 7 = (n + 3) mod 7" by presburger
  ultimately show ?thesis
    by (simp add: weekdayOfCivilDate_def utc_day_def ms_per_day_def)
qed

text \<open>A valid date is the date of its day number.\<close>

lemma midnight_make_day:
  assumes "0 \<le> m" "m \<le> 11" "1 \<le> dt" "dt \<le> days_in_month_of (leap_year y) m"
  shows "uf_year (midnight (make_day y m dt)) = y" "uf_month (midnight (make_day y m dt)) = m"
    "uf_date (midnight (make_day y m dt)) = dt"
  using make_day_fields [OF assms] by (simp_all add: midnight_def utc_fields_def Let_def ms_per_day_def)

lemma daysInMonth_eq:
  assumes "1 \<le> m" "m \<le> 12" "100 \<le> y"
  shows "daysInMonth y m = days_in_month_of (leap_year y) (m - 1)"
proof -
  let ?m = "m - 1"
  have m: "0 \<le> ?m" "?m \<le> 11" using assms by simp_all
  let ?d = "days_in_month_of (leap_year y) ?m"
  have d: "1 \<le> ?d" using month_start_less [OF m, of "leap_year y"] by (simp add: days_in_month_of_def)
  have "make_day y m 0 = make_day y ?m ?d"
  proof (cases "m = 12")
    case True
    have "day_from_year (y + 1) = day_from_year y + month_start (leap_year y) 12"
      by (simp add: day_from_year_step days_in_year_def month_start_def)
    then show ?thesis using True by (simp add: make_day_def days_in_month_of_def)
  next
    case False
    then have "m div 12 = 0" "m mod 12 = m" "?m div 12 = 0" "?m mod 12 = ?m" using assms(1,2) by simp_all
    then show ?thesis by (simp add: make_day_def days_in_month_of_def)
  qed
  then have "date_utc y m 0 0 0 0 = make_day y ?m ?d * ms_per_day"
    using assms(3) by (simp add: date_utc_def)
  then show ?thesis
    using midnight_make_day(3) [OF m d order_refl] by (simp add: daysInMonth_def midnight_def)
qed


section \<open>Local times as text\<close>

lemma zero_is_digit: "is_digit CHR ''0''"
  by (simp add: is_digit_def)

lemma digits_val_zeros: "digits_val (replicate k CHR ''0'' @ s) = digits_val s"
  by (induction k) (simp_all add: digits_val_def)

lemma digits_val_pad [simp]: "digits_val (pad_nat w n) = n"
  by (simp add: pad_nat_def digits_val_zeros digits_val_digits)

lemma pad_nat_digits: "list_all is_digit (pad_nat w n)"
  by (auto simp: pad_nat_def list_all_iff zero_is_digit dest: digits_are_digits)

lemma length_digits: "length (digits n) = (if n < 10 then 1 else Suc (length (digits (n div 10))))"
  by (simp add: digits.simps [of n])

lemma length_digits_2: "n < 100 \<Longrightarrow> length (digits n) \<le> 2"
  using length_digits [of n] length_digits [of "n div 10"] by (auto simp: less_mult_imp_div_less split: if_splits)

lemma length_pad_2: "n < 100 \<Longrightarrow> length (pad_nat 2 n) = 2"
  using length_digits_2 [of n] by (simp add: pad_nat_def)

lemma length_digits_4:
  assumes "1000 \<le> n" "n < 10000"
  shows "length (digits n) = 4"
proof -
  have "\<not> n < 10" "\<not> n div 10 < 10" "\<not> n div 10 div 10 < 10" "n div 10 div 10 div 10 < 10"
    using assms by linarith+
  then show ?thesis
    using length_digits [of n] length_digits [of "n div 10"] length_digits [of "n div 10 div 10"]
      length_digits [of "n div 10 div 10 div 10"] by simp
qed

lemma local_date_time_parts:
  assumes "length a = 4" "length b = 2" "length c = 2" "length e = 2" "length f = 2"
    and "list_all is_digit (a @ b @ c @ e @ f)"
  shows "local_date_time (a @ ''-'' @ b @ ''-'' @ c @ ''T'' @ e @ '':'' @ f) =
    Some \<lparr>cv_year = int (digits_val a), cv_month = int (digits_val b), cv_day = int (digits_val c),
      cv_hour = int (digits_val e), cv_minute = int (digits_val f)\<rparr>"
proof -
  obtain a1 a2 a3 a4 where a: "a = [a1, a2, a3, a4]" using assms(1) by (auto simp: length_Suc_conv eval_nat_numeral)
  have two: "\<exists>x y. s = [x, y]" if "length s = 2" for s :: string
    using that by (auto simp: length_Suc_conv eval_nat_numeral)
  obtain b1 b2 c1 c2 e1 e2 f1 f2 where r: "b = [b1, b2]" "c = [c1, c2]" "e = [e1, e2]" "f = [f1, f2]"
    using two assms(2-5) by metis
  show ?thesis using assms(6) by (simp add: a r local_date_time_def)
qed

definition printable :: "civil_date_time \<Rightarrow> bool" where
  "printable c \<longleftrightarrow> 1000 \<le> cv_year c \<and> cv_year c \<le> 9999 \<and> 0 \<le> cv_month c \<and> cv_month c \<le> 99 \<and>
     0 \<le> cv_day c \<and> cv_day c \<le> 99 \<and> 0 \<le> cv_hour c \<and> cv_hour c \<le> 99 \<and> 0 \<le> cv_minute c \<and> cv_minute c \<le> 99"

lemma parse_format:
  assumes "printable c"
  shows "parseLocalDateTime (formatLocalDateTime c) = Inr c"
proof -
  have "length (digits (nat (cv_year c))) = 4" using assms by (intro length_digits_4) (auto simp: printable_def)
  moreover have "list_all is_digit (digits (nat (cv_year c)) @ pad_nat 2 m @ pad_nat 2 d @ pad_nat 2 h @ pad_nat 2 i)"
    for m d h i using pad_nat_digits by (auto simp: list_all_iff dest: digits_are_digits)
  moreover have two: "length (pad_nat 2 (nat x)) = 2" if "0 \<le> x" "x \<le> 99" for x
    using that by (intro length_pad_2) linarith
  moreover have "formatLocalDateTime c = digits (nat (cv_year c)) @ ''-'' @ pad_nat 2 (nat (cv_month c)) @ ''-'' @
      pad_nat 2 (nat (cv_day c)) @ ''T'' @ pad_nat 2 (nat (cv_hour c)) @ '':'' @ pad_nat 2 (nat (cv_minute c))"
    using assms by (simp add: formatLocalDateTime_def int_str_def printable_def)
  ultimately have "local_date_time (formatLocalDateTime c) =
      Some \<lparr>cv_year = int (digits_val (digits (nat (cv_year c)))), cv_month = int (digits_val (pad_nat 2 (nat (cv_month c)))),
        cv_day = int (digits_val (pad_nat 2 (nat (cv_day c)))), cv_hour = int (digits_val (pad_nat 2 (nat (cv_hour c)))),
        cv_minute = int (digits_val (pad_nat 2 (nat (cv_minute c))))\<rparr>"
    using assms two by (simp only:) (rule local_date_time_parts; simp add: printable_def)
  also have "\<dots> = Some c" using assms by (simp add: digits_val_digits printable_def)
  finally have "local_date_time (formatLocalDateTime c) = Some c" .
  then show ?thesis by (simp add: parseLocalDateTime_def)
qed

section \<open>The search\<close>

definition day_instant :: "zone_format \<Rightarrow> string \<Rightarrow> civil_date_time \<Rightarrow> int \<Rightarrow> int" where
  "day_instant fmt zone at n = civil_to_utc fmt (civil_of n (cv_hour at) (cv_minute at)) zone"

definition day_matches :: "schedule_recurrence option \<Rightarrow> civil_date_time \<Rightarrow> int \<Rightarrow> bool" where
  "day_matches r at n \<longleftrightarrow> matchesRecurrence (civil_of n (cv_hour at) (cv_minute at)) (cv_day at) r"

definition printable_day :: "civil_date_time \<Rightarrow> int \<Rightarrow> bool" where
  "printable_day at n \<longleftrightarrow> day_from_year 1000 \<le> n \<and> n < day_from_year 10000 \<and>
     0 \<le> cv_hour at \<and> cv_hour at \<le> 23 \<and> 0 \<le> cv_minute at \<and> cv_minute at \<le> 59"

lemma printable_day:
  assumes "printable_day at n"
  shows "printable (civil_of n (cv_hour at) (cv_minute at))"
proof -
  have "1000 \<le> year_from_day n" "\<not> 10000 \<le> year_from_day n"
    using assms by (simp_all add: year_from_day_ge printable_day_def)
  moreover have "days_in_month_of l m \<le> 31" if "0 \<le> m" "m \<le> 11" for l m
    using months_cover [OF that] by (cases l) (auto simp: days_in_month_of_def month_start_def)
  from this [of "uf_month (midnight n)" "leap_year (uf_year (midnight n))"]
  have "uf_date (midnight n) \<le> 31" using midnight_valid [of n] by (simp add: valid_civil_def)
  ultimately show ?thesis using midnight_valid [of n] assms
    by (auto simp: printable_def printable_day_def uf_year_midnight valid_civil_def)
qed

lemma search_run_spec:
  assumes "\<forall>i < k. printable_day at (n + int i)"
  shows "(\<exists>i < k. day_matches r at (n + int i) \<and> isEligible (day_instant fmt zone at (n + int i)) from atUtc after \<and>
      (\<forall>j < i. \<not> (day_matches r at (n + int j) \<and> isEligible (day_instant fmt zone at (n + int j)) from atUtc after)) \<and>
      search_run k fmt zone r at atUtc from after (civil_of n (cv_hour at) (cv_minute at)) =
        Inr (Some (day_instant fmt zone at (n + int i)))) \<or>
    (\<forall>i < k. \<not> (day_matches r at (n + int i) \<and> isEligible (day_instant fmt zone at (n + int i)) from atUtc after)) \<and>
      search_run k fmt zone r at atUtc from after (civil_of n (cv_hour at) (cv_minute at)) = Inr None"
  using assms
proof (induction k arbitrary: n)
  case 0
  then show ?case by simp
next
  case (Suc k)
  let ?hit = "\<lambda>n. day_matches r at n \<and> isEligible (day_instant fmt zone at n) from atUtc after"
  let ?c = "\<lambda>n. civil_of n (cv_hour at) (cv_minute at)"
  have p: "printable_day at n" using Suc.prems by force
  then have "day_from_year 100 \<le> n"
    using day_from_year_mono [of 100 1000] by (simp add: printable_day_def)
  note next_c = next_cursor_civil_of [OF this, of at "cv_hour at" "cv_minute at"]
  have z: "zonedLocalToUtc fmt (formatLocalDateTime (?c n)) zone = Inr (day_instant fmt zone at n)"
    by (simp add: zonedLocalToUtc_def parse_format [OF printable_day [OF p]] day_instant_def)
  have step: "search_run (Suc k) fmt zone r at atUtc from after (?c n) =
      (if ?hit n then Inr (Some (day_instant fmt zone at n)) else search_run k fmt zone r at atUtc from after (?c (n + 1)))"
    by (simp add: z next_c Let_def day_matches_def)
  have shift: "n + 1 + int i = n + int (Suc i)" for i by simp
  have later: "\<forall>i<k. printable_day at (n + 1 + int i)"
    using Suc.prems unfolding shift by (metis Suc_less_eq)
  show ?case
  proof (cases "?hit n")
    case True
    then show ?thesis unfolding step by (intro disjI1 exI [of _ 0]) simp
  next
    case False
    from Suc.IH [OF later] show ?thesis
    proof (elim disjE exE conjE)
      fix i assume i: "i < k" "day_matches r at (n + 1 + int i)"
        "isEligible (day_instant fmt zone at (n + 1 + int i)) from atUtc after"
        "\<forall>j<i. \<not> ?hit (n + 1 + int j)"
        "search_run k fmt zone r at atUtc from after (?c (n + 1)) = Inr (Some (day_instant fmt zone at (n + 1 + int i)))"
      have "\<forall>j < Suc i. \<not> ?hit (n + int j)"
        using False i(4) unfolding shift by (auto simp: less_Suc_eq_0_disj)
      then show ?thesis using i False unfolding shift step by (intro disjI1 exI [of _ "Suc i"]) auto
    next
      assume "\<forall>i<k. \<not> ?hit (n + 1 + int i)" "search_run k fmt zone r at atUtc from after (?c (n + 1)) = Inr None"
      then show ?thesis using False unfolding shift step by (intro disjI2) (auto simp: less_Suc_eq_0_disj)
    qed
  qed
qed


section \<open>Every recurrence comes round\<close>

lemma daily_hit: "day_matches (Some Daily) at n"
  by (simp add: day_matches_def matchesRecurrence_def)

lemma weekday_index: "\<exists>k < 7. weekdays ! k = d"
proof -
  have "d \<in> set weekdays" by (cases d) (simp_all add: weekdays_def)
  moreover have "length weekdays = 7" by (simp add: weekdays_def)
  ultimately show ?thesis by (metis in_set_conv_nth)
qed

lemma weekly_hit:
  assumes "day_from_year 100 \<le> n" "days \<noteq> []"
  shows "\<exists>i < 7. day_matches (Some (Weekly days)) at (n + int i)"
proof -
  obtain d where d: "d \<in> set days" using assms(2) by (cases days) auto
  obtain k where k: "k < 7" "weekdays ! k = d" using weekday_index by blast
  let ?i = "nat ((int k - n - 3) mod 7)"
  have i: "int ?i = (int k - n - 3) mod 7" by simp
  have "(n + (int k - n - 3) mod 7 + 3) mod 7 = (n + (int k - n - 3) + 3) mod 7"
    using mod_add_right_eq [of "n + 3" "int k - n - 3" 7] by (simp add: algebra_simps)
  then have "(n + (int k - n - 3) mod 7 + 3) mod 7 = int k" using k(1) by simp
  then have "weekdayOfCivilDate (civil_of (n + int ?i) (cv_hour at) (cv_minute at)) = d"
    using weekday_civil_of [of "n + int ?i"] assms(1) k(2) by (simp add: i)
  then show ?thesis using d
    by (intro exI [of _ ?i]) (auto simp: day_matches_def matchesRecurrence_def nat_less_iff)
qed

text \<open>The day of the month at which a monthly schedule fires.\<close>

lemma monthly_match:
  assumes "0 \<le> m" "m \<le> 11" "1 \<le> cv_day at" "100 \<le> y"
  shows "day_matches (Some Monthly) at (make_day y m (min (cv_day at) (days_in_month_of (leap_year y) m)))"
proof -
  let ?t = "min (cv_day at) (days_in_month_of (leap_year y) m)"
  have "1 \<le> ?t" "?t \<le> days_in_month_of (leap_year y) m"
    using assms(3) month_start_less [OF assms(1,2), of "leap_year y"] by (auto simp: days_in_month_of_def)
  note f = midnight_make_day [OF assms(1,2) this]
  show ?thesis
    using daysInMonth_eq [of "m + 1" y] assms by (simp add: day_matches_def matchesRecurrence_def f)
qed

lemma days_in_month_bound: "0 \<le> m \<Longrightarrow> m \<le> 11 \<Longrightarrow> days_in_month_of l m \<le> 31"
  by (drule (1) months_cover, cases l) (auto simp: days_in_month_of_def month_start_def)

lemma next_month:
  assumes "0 \<le> m" "m \<le> 11"
  shows "make_day y m (days_in_month_of (leap_year y) m + k) =
    (if m = 11 then make_day (y + 1) 0 k else make_day y (m + 1) k)"
proof (cases "m = 11")
  case True
  have "day_from_year (y + 1) = day_from_year y + month_start (leap_year y) 12"
    by (simp add: day_from_year_step days_in_year_def month_start_def)
  then show ?thesis using True by (simp add: make_day_def days_in_month_of_def)
next
  case False
  then show ?thesis using assms by (simp add: make_day_def days_in_month_of_def)
qed

lemma monthly_hit:
  assumes n: "day_from_year 100 \<le> n" and a: "1 \<le> cv_day at"
  shows "\<exists>i < 62. day_matches (Some Monthly) at (n + int i)"
proof -
  define y m dd where ymd: "y = uf_year (midnight n)" "m = uf_month (midnight n)" "dd = uf_date (midnight n)"
  have m: "0 \<le> m" "m \<le> 11" and dd: "1 \<le> dd" "dd \<le> days_in_month_of (leap_year y) m"
    using midnight_valid [of n] by (simp_all add: valid_civil_def ymd)
  have y: "100 \<le> y" using n by (simp add: ymd uf_year_midnight year_from_day_ge)
  have day: "make_day y m k = n - dd + k" for k by (simp add: ymd make_day_midnight)
  let ?L = "days_in_month_of (leap_year y) m"
  let ?t = "min (cv_day at) ?L"
  show ?thesis
  proof (cases "dd \<le> ?t")
    case True
    have "day_matches (Some Monthly) at (n + int (nat (?t - dd)))"
      using monthly_match [OF m a y] True unfolding day by (simp add: algebra_simps)
    then show ?thesis using days_in_month_bound [OF m, of "leap_year y"] dd True
      by (intro exI [of _ "nat (?t - dd)"]) simp
  next
    case False
    define y' m' where ym: "y' = (if m = 11 then y + 1 else y)" "m' = (if m = 11 then 0 else m + 1)"
    have m': "0 \<le> m'" "m' \<le> 11" using m by (auto simp: ym)
    let ?t' = "min (cv_day at) (days_in_month_of (leap_year y') m')"
    have t': "1 \<le> ?t'" "?t' \<le> 31"
      using a month_start_less [OF m', of "leap_year y'"] days_in_month_bound [OF m', of "leap_year y'"]
      by (auto simp: days_in_month_of_def)
    have "make_day y' m' ?t' = n - dd + (?L + ?t')"
      using next_month [OF m, of y ?t'] unfolding day by (auto simp: ym)
    moreover have "day_matches (Some Monthly) at (make_day y' m' ?t')"
      by (rule monthly_match [OF m' a]) (use y in \<open>simp add: ym\<close>)
    moreover have "n + int (nat (?L - dd + ?t')) = n - dd + (?L + ?t')" using dd t' by linarith
    ultimately have "day_matches (Some Monthly) at (n + int (nat (?L - dd + ?t')))" by metis
    then show ?thesis using days_in_month_bound [OF m, of "leap_year y"] dd t'
      by (intro exI [of _ "nat (?L - dd + ?t')"]) simp
  qed
qed

lemma recurrence_hit:
  assumes "day_from_year 100 \<le> n" "1 \<le> cv_day at" "valid_recurrence r"
  shows "\<exists>i < 62. day_matches (Some r) at (n + int i)"
proof (cases r)
  case Daily
  then show ?thesis using daily_hit by (intro exI [of _ 0]) simp
next
  case (Weekly days)
  then show ?thesis using weekly_hit [OF assms(1), of days at] assms(3)
    by (force simp: valid_recurrence_def)
next
  case Monthly
  then show ?thesis using monthly_hit [OF assms(1,2)] by simp
qed


section \<open>Time zones\<close>

text \<open>
  What is relied on of \<open>Intl.DateTimeFormat\<close>: it shows the date and time of day of an instant
  shifted by the offset of the zone at that instant, and offsets are whole seconds, fewer than a day.
\<close>

definition shown_parts :: "int \<Rightarrow> zone_parts" where
  "shown_parts u =
    (let f = utc_fields u in
     \<lparr>cv_year = uf_year f, cv_month = uf_month f + 1, cv_day = uf_date f, cv_hour = uf_hours f,
      cv_minute = uf_minutes f, cv_second = uf_seconds f\<rparr>)"

definition zone_offset :: "zone_format \<Rightarrow> string \<Rightarrow> (int \<Rightarrow> int) \<Rightarrow> bool" where
  "zone_offset fmt zone off \<longleftrightarrow>
     (\<forall>t \<ge> day_from_year 1000 * ms_per_day. fmt zone t = shown_parts (t + off t) \<and> \<bar>off t\<bar> < ms_per_day \<and>
       off t mod 1000 = 0)"

lemma day_from_year_1000: "day_from_year 1000 = - 354285" "day_from_year 100 = - 683003"
  by (simp_all add: day_from_year_def)

lemma zone_offset_1000:
  assumes "zone_offset fmt zone off" "day_from_year 1000 * ms_per_day \<le> t"
  shows "fmt zone t = shown_parts (t + off t)" "- ms_per_day < off t" "off t < ms_per_day"
    "off t mod 1000 = 0"
  using assms by (auto simp: zone_offset_def abs_less_iff)

lemma partsInZone_eq:
  assumes "zone_offset fmt zone off" "day_from_year 1000 * ms_per_day \<le> t"
  shows "partsInZone fmt t zone = shown_parts (t + off t)"
  using utc_fields_valid [of "t + off t"]
  by (simp add: partsInZone_def zone_offset_1000(1) [OF assms] shown_parts_def Let_def valid_civil_def)

lemma shown_parts_utc:
  assumes "day_from_year 100 * ms_per_day \<le> u"
  shows "date_utc (cv_year (shown_parts u)) (cv_month (shown_parts u) - 1) (cv_day (shown_parts u))
    (cv_hour (shown_parts u)) (cv_minute (shown_parts u)) (cv_second (shown_parts u)) = u - u mod 1000"
proof -
  have "day_from_year 100 \<le> u div ms_per_day"
    using zdiv_mono1 [OF assms, of ms_per_day] by (simp add: ms_per_day_def)
  then have "100 \<le> uf_year (utc_fields u)"
    by (simp add: utc_fields_day uf_year_midnight year_from_day_ge)
  note d = date_utc_fields [OF this]
  have "uf_ms (utc_fields u) = u mod 1000"
    by (simp add: utc_fields_def Let_def ms_per_day_def mod_mod_cancel)
  with d show ?thesis unfolding shown_parts_def Let_def by simp
qed

lemma offsetMs_eq:
  assumes "zone_offset fmt zone off" "day_from_year 1000 * ms_per_day \<le> t"
  shows "offsetMs fmt t zone = off t - (t + off t) mod 1000"
proof -
  have "day_from_year 100 * ms_per_day \<le> t + off t"
    using zone_offset_1000(2) [OF assms] assms(2) by (simp add: day_from_year_1000 ms_per_day_def)
  from shown_parts_utc [OF this] show ?thesis
    unfolding offsetMs_def partsInZone_eq [OF assms] Let_def by linarith
qed

lemma offsetMs_bounds:
  assumes "zone_offset fmt zone off" "day_from_year 1000 * ms_per_day \<le> t"
  shows "- ms_per_day - 1000 < offsetMs fmt t zone" "offsetMs fmt t zone < ms_per_day"
proof -
  have "0 \<le> (t + off t) mod 1000" "(t + off t) mod 1000 < 1000" by simp_all
  then show "- ms_per_day - 1000 < offsetMs fmt t zone" "offsetMs fmt t zone < ms_per_day"
    using zone_offset_1000(2,3) [OF assms] offsetMs_eq [OF assms] by linarith+
qed

definition time_ok :: "civil_date_time \<Rightarrow> bool" where
  "time_ok at \<longleftrightarrow> 0 \<le> cv_hour at \<and> cv_hour at \<le> 23 \<and> 0 \<le> cv_minute at \<and> cv_minute at \<le> 59"

lemma day_instant_bounds:
  assumes z: "zone_offset fmt zone off" and n: "day_from_year 1001 \<le> n" and t: "time_ok at"
  shows "(n - 1) * ms_per_day < day_instant fmt zone at n" "day_instant fmt zone at n < (n + 3) * ms_per_day"
proof -
  let ?g = "n * ms_per_day + cv_hour at * 3600000 + cv_minute at * 60000"
  have y: "day_from_year 1001 = - 353920" by (simp add: day_from_year_def)
  then have "day_from_year 100 \<le> n" using n by (simp add: day_from_year_1000)
  then have g: "civil_utc (civil_of n (cv_hour at) (cv_minute at)) = ?g" by (rule civil_utc_civil_of)
  have tod: "n * ms_per_day \<le> ?g" "?g < n * ms_per_day + ms_per_day"
    using t by (auto simp: time_ok_def ms_per_day_def)
  have "day_from_year 1000 * ms_per_day + 3 * ms_per_day \<le> ?g"
    using tod(1) n y by (simp add: day_from_year_1000 ms_per_day_def)
  then have g1: "day_from_year 1000 * ms_per_day \<le> ?g" by (simp add: ms_per_day_def)
  have "day_from_year 1000 * ms_per_day \<le> ?g - offsetMs fmt ?g zone"
    using offsetMs_bounds(2) [OF z g1] \<open>day_from_year 1000 * ms_per_day + 3 * ms_per_day \<le> ?g\<close>
    by (simp add: ms_per_day_def)
  note o2 = offsetMs_bounds [OF z this]
  have i: "day_instant fmt zone at n = ?g - offsetMs fmt (?g - offsetMs fmt ?g zone) zone"
    by (simp add: day_instant_def civil_to_utc_def g Let_def)
  have e: "(n - 1) * ms_per_day = n * ms_per_day - ms_per_day" "(n + 3) * ms_per_day = n * ms_per_day + 3 * ms_per_day"
    by (simp_all add: algebra_simps)
  show "(n - 1) * ms_per_day < day_instant fmt zone at n" "day_instant fmt zone at n < (n + 3) * ms_per_day"
    unfolding i e using o2 tod by (simp_all add: ms_per_day_def)
qed

section \<open>Where the search starts\<close>

lemma valid_at:
  assumes "isValidLocalDateTime s"
  shows "\<exists>at. local_date_time s = Some at \<and> time_ok at \<and> 1 \<le> cv_day at \<and>
    at = civil_of (make_day (cv_year at) (cv_month at - 1) (cv_day at)) (cv_hour at) (cv_minute at)"
proof -
  obtain at where at: "local_date_time s = Some at" using assms by (auto simp: isValidLocalDateTime_def split: option.splits)
  let ?f = "utc_fields (date_utc (cv_year at) (cv_month at - 1) (cv_day at) (cv_hour at) (cv_minute at) 0)"
  have f: "uf_year ?f = cv_year at" "uf_month ?f + 1 = cv_month at" "uf_date ?f = cv_day at" "uf_hours ?f = cv_hour at"
    "uf_minutes ?f = cv_minute at"
    using assms at by (auto simp: isValidLocalDateTime_def Let_def split: if_splits)
  have m: "uf_month ?f = cv_month at - 1" using f(2) by simp
  have v: "valid_civil (cv_year at) (cv_month at - 1) (cv_day at) (cv_hour at) (cv_minute at) (uf_seconds ?f)"
    using utc_fields_valid [of "date_utc (cv_year at) (cv_month at - 1) (cv_day at) (cv_hour at) (cv_minute at) 0"]
    unfolding m f(1,3,4,5) .
  then have "at = civil_of (make_day (cv_year at) (cv_month at - 1) (cv_day at)) (cv_hour at) (cv_minute at)"
    using midnight_make_day [of "cv_month at - 1" "cv_day at" "cv_year at"] by (simp add: civil_of_eq valid_civil_def)
  then show ?thesis using at v by (auto simp: time_ok_def valid_civil_def)
qed

definition at_day :: "civil_date_time \<Rightarrow> int" where
  "at_day at = make_day (cv_year at) (cv_month at - 1) (cv_day at)"

text \<open>The number of the day at which the search starts.\<close>

definition start_day :: "(int \<Rightarrow> int) \<Rightarrow> civil_date_time \<Rightarrow> int \<Rightarrow> int \<Rightarrow> int" where
  "start_day off at atUtc fromUtc =
    (if fromUtc < atUtc then at_day at else (fromUtc + off fromUtc) div ms_per_day)"

lemma start_cursor_eq:
  assumes "zone_offset fmt zone off" "day_from_year 1000 * ms_per_day \<le> fromUtc"
    and "at = civil_of (at_day at) (cv_hour at) (cv_minute at)"
  shows "start_cursor fmt zone at atUtc fromUtc =
    civil_of (start_day off at atUtc fromUtc) (cv_hour at) (cv_minute at)"
  using assms(3) by (simp add: start_cursor_def start_day_def partsInZone_eq [OF assms(1,2)] shown_parts_def Let_def
      civil_of_eq utc_fields_day)


text \<open>The span of years in which the theorems hold: local times are printed with four digits of the year.\<close>

definition in_span :: "civil_date_time \<Rightarrow> int \<Rightarrow> bool" where
  "in_span at fromUtc \<longleftrightarrow> 1002 \<le> cv_year at \<and> cv_year at \<le> 9990 \<and>
     day_from_year 1002 * ms_per_day \<le> fromUtc \<and> fromUtc < day_from_year 9990 * ms_per_day"

lemma span_days: "day_from_year 1000 = - 354285" "day_from_year 1001 = - 353920" "day_from_year 1002 = - 353555"
    "day_from_year 9990 = 2929245" "day_from_year 9991 = 2929610" "day_from_year 10000 = 2932897"
  by (simp_all add: day_from_year_def)

lemma start_day_span:
  assumes z: "zone_offset fmt zone off" and s: "in_span at fromUtc"
    and a: "at = civil_of (at_day at) (cv_hour at) (cv_minute at)"
  shows "day_from_year 1001 \<le> start_day off at atUtc fromUtc" "start_day off at atUtc fromUtc \<le> day_from_year 9991"
proof -
  have "cv_year at = year_from_day (at_day at)" using a uf_year_midnight by (metis civil_of_fields(1))
  then have "day_from_year 1002 \<le> at_day at" "\<not> day_from_year 9991 \<le> at_day at"
    using s year_from_day_ge [of 1002 "at_day at"] year_from_day_ge [of 9991 "at_day at"] by (simp_all add: in_span_def)
  moreover have "day_from_year 1000 * ms_per_day \<le> fromUtc"
    using s by (simp add: in_span_def span_days ms_per_day_def)
  note o = zone_offset_1000(2,3) [OF z this]
  have "day_from_year 1001 \<le> (fromUtc + off fromUtc) div ms_per_day"
    using zdiv_mono1 [of "day_from_year 1001 * ms_per_day" "fromUtc + off fromUtc" ms_per_day] o(1) s
    by (simp add: in_span_def span_days ms_per_day_def)
  moreover have "(fromUtc + off fromUtc) div ms_per_day \<le> day_from_year 9991"
    using zdiv_mono1 [of "fromUtc + off fromUtc" "day_from_year 9991 * ms_per_day" ms_per_day] o(2) s
    by (simp add: in_span_def span_days ms_per_day_def)
  ultimately show "day_from_year 1001 \<le> start_day off at atUtc fromUtc" "start_day off at atUtc fromUtc \<le> day_from_year 9991"
    by (auto simp: start_day_def span_days)
qed

lemma start_day_near:
  assumes z: "zone_offset fmt zone off" and s: "in_span at fromUtc" and t: "time_ok at"
    and a: "at = civil_of (at_day at) (cv_hour at) (cv_minute at)"
  defines "atUtc \<equiv> day_instant fmt zone at (at_day at)"
  shows "max fromUtc atUtc < (start_day off at atUtc fromUtc + 3) * ms_per_day"
    "(start_day off at atUtc fromUtc - 1) * ms_per_day < max fromUtc atUtc"
proof -
  have "cv_year at = year_from_day (at_day at)" using a uf_year_midnight by (metis civil_of_fields(1))
  then have "day_from_year 1001 \<le> at_day at"
    using s year_from_day_ge [of 1001 "at_day at"] by (simp add: in_span_def)
  note i = day_instant_bounds [OF z this t, folded atUtc_def]
  have "day_from_year 1000 * ms_per_day \<le> fromUtc"
    using s by (simp add: in_span_def span_days ms_per_day_def)
  note o = zone_offset_1000(2,3) [OF z this]
  let ?d = "(fromUtc + off fromUtc) div ms_per_day"
  have d: "?d * ms_per_day \<le> fromUtc + off fromUtc" "fromUtc + off fromUtc < ?d * ms_per_day + ms_per_day"
    using div_bounds [of ms_per_day "fromUtc + off fromUtc"] by (simp_all add: ms_per_day_def)
  show "max fromUtc atUtc < (start_day off at atUtc fromUtc + 3) * ms_per_day"
    "(start_day off at atUtc fromUtc - 1) * ms_per_day < max fromUtc atUtc"
    using i d o by (auto simp: start_day_def algebra_simps max_def ms_per_day_def)
qed

lemma next_run_search:
  assumes s: "valid_schedule is_zone s" "\<not> is_paused s" "sc_recurrence s = Some r"
    and at: "local_date_time (sc_at s) = Some at"
    and z: "zone_offset fmt (sc_timezone s) off" and sp: "in_span at fromUtc"
  defines "atUtc \<equiv> day_instant fmt (sc_timezone s) at (at_day at)"
  shows "nextRunAt fmt (ScheduleTrigger s) fromUtc after =
      search_run 400 fmt (sc_timezone s) (Some r) at atUtc fromUtc after
        (civil_of (start_day off at atUtc fromUtc) (cv_hour at) (cv_minute at)) \<and>
    (\<forall>i < 400. printable_day at (start_day off at atUtc fromUtc + int i))"
proof -
  have v: "time_ok at" "at = civil_of (at_day at) (cv_hour at) (cv_minute at)"
    using valid_at [of "sc_at s"] s(1) at by (auto simp: valid_schedule_def at_day_def)
  have "civil_to_utc fmt at (sc_timezone s) = atUtc"
    unfolding atUtc_def day_instant_def using v(2) by simp
  moreover have "day_from_year 1000 * ms_per_day \<le> fromUtc"
    using sp by (simp add: in_span_def span_days ms_per_day_def)
  note start_cursor_eq [OF z this v(2)]
  ultimately show ?thesis
    using s(2,3) at start_day_span [OF z sp v(2), of atUtc] v(1)
    by (auto simp: nextRunAt_def parseLocalDateTime_def Let_def printable_day_def span_days time_ok_def)
qed

section \<open>Properties\<close>

lemma recurring_run_exists:
  assumes "valid_schedule is_zone s" "\<not> is_paused s" "sc_recurrence s = Some r"
    and "local_date_time (sc_at s) = Some at" "zone_offset fmt (sc_timezone s) off" "in_span at fromUtc"
  shows "\<exists>t. nextRunAt fmt (ScheduleTrigger s) fromUtc after = Inr (Some t) \<and>
    civil_to_utc fmt at (sc_timezone s) \<le> t \<and> fromUtc \<le> t \<and> (after \<longrightarrow> fromUtc < t) \<and>
    t < max fromUtc (civil_to_utc fmt at (sc_timezone s)) + 70 * ms_per_day"
proof -
  have v: "time_ok at" "at = civil_of (at_day at) (cv_hour at) (cv_minute at)" "1 \<le> cv_day at"
    using valid_at [of "sc_at s"] assms(1,4) by (auto simp: valid_schedule_def at_day_def)
  let ?u = "day_instant fmt (sc_timezone s) at (at_day at)"
  let ?n = "start_day off at ?u fromUtc"
  let ?i = "day_instant fmt (sc_timezone s) at"
  have u: "civil_to_utc fmt at (sc_timezone s) = ?u" unfolding day_instant_def using v(2) by simp
  have n: "day_from_year 1001 \<le> ?n" by (rule start_day_span(1) [OF assms(5,6) v(2)])
  note near = start_day_near [OF assms(5,6) v(1,2)]
  note bounds = day_instant_bounds [OF assms(5) _ v(1)]
  have "day_from_year 100 \<le> ?n + 4" using n by (simp add: span_days day_from_year_1000)
  moreover have "valid_recurrence r" using assms(1,3) by (simp add: valid_schedule_def)
  ultimately obtain k where k: "k < 62" "day_matches (Some r) at (?n + 4 + int k)" using recurrence_hit v(3) by blast
  have "(?n + 3) * ms_per_day < ?i (?n + 4 + int k)"
  proof -
    have "(?n + 3) * ms_per_day \<le> (?n + 4 + int k - 1) * ms_per_day"
      by (intro mult_right_mono) (simp_all add: ms_per_day_def)
    then show ?thesis using bounds(1) [of "?n + 4 + int k"] n by simp
  qed
  then have el: "isEligible (?i (?n + int (k + 4))) fromUtc ?u after"
    using near(1) by (simp add: isEligible_def algebra_simps)
  from next_run_search [OF assms] have run: "nextRunAt fmt (ScheduleTrigger s) fromUtc after =
      search_run 400 fmt (sc_timezone s) (Some r) at ?u fromUtc after (civil_of ?n (cv_hour at) (cv_minute at))"
    and pr: "\<forall>i < 400. printable_day at (?n + int i)" by auto
  have mk: "day_matches (Some r) at (?n + int (k + 4))" using k(2) by (simp add: algebra_simps)
  have "\<exists>i \<le> k + 4. isEligible (?i (?n + int i)) fromUtc ?u after \<and>
      nextRunAt fmt (ScheduleTrigger s) fromUtc after = Inr (Some (?i (?n + int i)))"
    using search_run_spec [OF pr, of "Some r" fmt "sc_timezone s" fromUtc ?u after]
  proof (elim disjE exE conjE)
    fix i
    assume i: "isEligible (?i (?n + int i)) fromUtc ?u after"
      "\<forall>j<i. \<not> (day_matches (Some r) at (?n + int j) \<and> isEligible (?i (?n + int j)) fromUtc ?u after)"
      "search_run 400 fmt (sc_timezone s) (Some r) at ?u fromUtc after (civil_of ?n (cv_hour at) (cv_minute at)) =
        Inr (Some (?i (?n + int i)))"
    then have "i \<le> k + 4" using el mk not_less by blast
    then show ?thesis using i(1,3) unfolding run by blast
  next
    assume "\<forall>i<400. \<not> (day_matches (Some r) at (?n + int i) \<and> isEligible (?i (?n + int i)) fromUtc ?u after)"
    moreover have "k + 4 < 400" using k(1) by simp
    ultimately show ?thesis using el mk by blast
  qed
  then obtain i where i: "i \<le> k + 4" "isEligible (?i (?n + int i)) fromUtc ?u after"
    "nextRunAt fmt (ScheduleTrigger s) fromUtc after = Inr (Some (?i (?n + int i)))" by blast
  have "?i (?n + int i) < (?n + int i + 3) * ms_per_day" by (rule bounds(2)) (use n in simp)
  also have "\<dots> \<le> (?n - 1 + 70) * ms_per_day"
    using i(1) k(1) by (intro mult_right_mono) (simp_all add: ms_per_day_def)
  also have "\<dots> < max fromUtc ?u + 70 * ms_per_day" using near(2) by (simp add: algebra_simps)
  finally show ?thesis using i(2,3) unfolding u
    by (intro exI [of _ "?i (?n + int i)"]) (auto simp: isEligible_def split: if_splits)
qed

text \<open>
  C14. A recurring schedule always has a next run: whatever valid schedule that is not paused, the
  search ends with an instant, at or after the instant asked for (strictly after it when the slot
  has just fired) and not before the first date of the schedule, and less than seventy days from
  the later of the two, so that the bound of 400 rounds is never reached.
\<close>

theorem recurring_schedule_always_fires:
  assumes "valid_schedule is_zone s" "\<not> is_paused s" "sc_recurrence s = Some r"
    and "local_date_time (sc_at s) = Some at" "zone_offset fmt (sc_timezone s) off" "in_span at fromUtc"
  shows "\<exists>t. nextRunAt fmt (ScheduleTrigger s) fromUtc after = Inr (Some t) \<and>
    civil_to_utc fmt at (sc_timezone s) \<le> t \<and> fromUtc \<le> t \<and> (after \<longrightarrow> fromUtc < t) \<and>
    t < max fromUtc (civil_to_utc fmt at (sc_timezone s)) + 70 * ms_per_day"
  by (rule recurring_run_exists [OF assms])

text \<open>Coordinated universal time, where the offset is zero.\<close>

definition utc_format :: zone_format where
  "utc_format zone t = shown_parts t"

lemma utc_format_offset: "zone_offset utc_format zone (\<lambda>_. 0)"
  by (simp add: zone_offset_def utc_format_def ms_per_day_def)

definition example_schedule :: "schedule_recurrence \<Rightarrow> schedule_trigger" where
  "example_schedule r = \<lparr>sc_timezone = ''UTC'', sc_at = ''2025-01-31T09:00'', sc_recurrence = Some r, sc_paused = None\<rparr>"

definition example_at :: civil_date_time where
  "example_at = \<lparr>cv_year = 2025, cv_month = 1, cv_day = 31, cv_hour = 9, cv_minute = 0\<rparr>"

lemma example_at: "local_date_time ''2025-01-31T09:00'' = Some example_at"
  by code_simp

lemma example_schedule_valid: "valid_recurrence r \<Longrightarrow> valid_schedule (\<lambda>_. True) (example_schedule r)"
proof -
  have "isValidLocalDateTime ''2025-01-31T09:00''" by code_simp
  then show "valid_recurrence r \<Longrightarrow> valid_schedule (\<lambda>_. True) (example_schedule r)"
    by (simp add: valid_schedule_def example_schedule_def)
qed

lemma example_span: "in_span example_at 1740000000000"
  by (simp add: in_span_def example_at_def span_days ms_per_day_def)

theorem recurring_schedule_always_fires_witness:
  "\<exists>t. nextRunAt utc_format (ScheduleTrigger (example_schedule Monthly)) 1740000000000 True = Inr (Some t) \<and>
     1740000000000 < t"
  using recurring_schedule_always_fires [OF example_schedule_valid _ _ _ utc_format_offset, of Monthly Monthly example_at 1740000000000 True]
    example_span example_at
  by (auto simp: valid_recurrence_def is_paused_def example_schedule_def)

text \<open>
  The next run is the first date of the recurrence that is due: it is the local time of the
  schedule on a date that matches the recurrence, and of the dates from the day of the instant
  asked for (or from the first date of the schedule when that is later) no earlier one that
  matches is still due.
\<close>

theorem next_run_is_first_match:
  assumes "valid_schedule is_zone s" "\<not> is_paused s" "sc_recurrence s = Some r"
    and "local_date_time (sc_at s) = Some at" "zone_offset fmt (sc_timezone s) off" "in_span at fromUtc"
    and "nextRunAt fmt (ScheduleTrigger s) fromUtc after = Inr (Some t)"
  shows "\<exists>n. t = day_instant fmt (sc_timezone s) at n \<and> day_matches (Some r) at n \<and>
    start_day off at (day_instant fmt (sc_timezone s) at (at_day at)) fromUtc \<le> n \<and>
    (\<forall>m. start_day off at (day_instant fmt (sc_timezone s) at (at_day at)) fromUtc \<le> m \<and> m < n \<and>
       day_matches (Some r) at m \<longrightarrow>
       \<not> isEligible (day_instant fmt (sc_timezone s) at m) fromUtc
           (day_instant fmt (sc_timezone s) at (at_day at)) after)"
proof -
  let ?u = "day_instant fmt (sc_timezone s) at (at_day at)"
  let ?n = "start_day off at ?u fromUtc"
  let ?hit = "\<lambda>m. day_matches (Some r) at m \<and> isEligible (day_instant fmt (sc_timezone s) at m) fromUtc ?u after"
  from next_run_search [OF assms(1-6)] have run: "nextRunAt fmt (ScheduleTrigger s) fromUtc after =
      search_run 400 fmt (sc_timezone s) (Some r) at ?u fromUtc after (civil_of ?n (cv_hour at) (cv_minute at))"
    and pr: "\<forall>i < 400. printable_day at (?n + int i)" by auto
  from search_run_spec [OF pr, of "Some r" fmt "sc_timezone s" fromUtc ?u after] assms(7) run
  obtain i where i: "?hit (?n + int i)" "\<forall>j<i. \<not> ?hit (?n + int j)"
    "t = day_instant fmt (sc_timezone s) at (?n + int i)" by auto
  have "\<not> ?hit m" if "?n \<le> m" "m < ?n + int i" for m
    using i(2) that by (metis add_left_cancel less_diff_eq nat_0_le of_nat_less_iff zle_iff_zadd add_less_cancel_left)
  then show ?thesis using i(1,3) by (intro exI [of _ "?n + int i"]) auto
qed

theorem next_run_is_first_match_witness:
  "\<exists>t n. nextRunAt utc_format (ScheduleTrigger (example_schedule Monthly)) 1740000000000 True = Inr (Some t) \<and>
     t = day_instant utc_format ''UTC'' example_at n \<and> day_matches (Some Monthly) example_at n"
proof -
  let ?s = "example_schedule Monthly"
  have s: "valid_schedule (\<lambda>_. True) ?s" "\<not> is_paused ?s" "sc_recurrence ?s = Some Monthly"
    "local_date_time (sc_at ?s) = Some example_at"
    using example_schedule_valid [of Monthly] example_at
    by (simp_all add: valid_recurrence_def is_paused_def example_schedule_def)
  have "\<exists>t. nextRunAt utc_format (ScheduleTrigger ?s) 1740000000000 True = Inr (Some t)"
    using recurring_run_exists [OF s utc_format_offset example_span] by blast
  then obtain t where t: "nextRunAt utc_format (ScheduleTrigger ?s) 1740000000000 True = Inr (Some t)" ..
  show ?thesis
    using next_run_is_first_match [OF s utc_format_offset example_span t] t by (auto simp: example_schedule_def)
qed

section \<open>Edits of a schedule\<close>

lemma recurrence_same_matches:
  assumes "recurrenceEqual l r" "\<forall>x. l = Some x \<longrightarrow> valid_recurrence x" "\<forall>x. r = Some x \<longrightarrow> valid_recurrence x"
  shows "matchesRecurrence c a l = matchesRecurrence c a r"
proof -
  have "set ds = set es" if "l = Some (Weekly ds)" "r = Some (Weekly es)" for ds es
  proof (rule card_subset_eq)
    show "set ds \<subseteq> set es" using assms(1) that by (auto simp: same_freq_def list_all_iff split: if_splits)
    have "length ds = length es" using assms(1) that by (auto simp: same_freq_def split: if_splits)
    then show "card (set ds) = card (set es)"
      using assms(2,3) that by (simp add: valid_recurrence_def distinct_card)
  qed simp
  then show ?thesis
  proof (cases "\<exists>ds es. l = Some (Weekly ds) \<and> r = Some (Weekly es)")
    case True
    then obtain ds es where "l = Some (Weekly ds)" "r = Some (Weekly es)" by blast
    then show ?thesis using \<open>\<And>ds es. l = Some (Weekly ds) \<Longrightarrow> r = Some (Weekly es) \<Longrightarrow> set ds = set es\<close>
      by (simp add: matchesRecurrence_def)
  next
    case False
    then have "l = r" using assms(1)
      by (cases l; cases r) (auto simp: same_freq_def split: schedule_recurrence.splits if_splits)
    then show ?thesis by simp
  qed
qed

lemma search_run_cong:
  "(\<And>c. matchesRecurrence c (cv_day at) l = matchesRecurrence c (cv_day at) r) \<Longrightarrow>
   search_run k fmt zone l at u from after c = search_run k fmt zone r at u from after c"
  by (induction k arbitrary: c) (simp_all add: Let_def)

lemma weekly_equal_sym:
  assumes "distinct ds" "distinct es" "length ds = length es" "list_all (\<lambda>d. d \<in> set es) ds"
  shows "list_all (\<lambda>d. d \<in> set ds) es"
proof -
  have "set ds = set es"
    using assms by (intro card_subset_eq) (auto simp: list_all_iff distinct_card)
  then show ?thesis by (simp add: list_all_iff)
qed

lemma recurrenceEqual_sym:
  assumes "recurrenceEqual l r" "\<forall>x. l = Some x \<longrightarrow> valid_recurrence x" "\<forall>x. r = Some x \<longrightarrow> valid_recurrence x"
  shows "recurrenceEqual r l"
  using assms weekly_equal_sym
  by (cases l; cases r)
    (auto simp: same_freq_def valid_recurrence_def split: schedule_recurrence.splits if_splits)

definition valid_trigger :: "(string \<Rightarrow> bool) \<Rightarrow> task_trigger \<Rightarrow> bool" where
  "valid_trigger is_zone t = (case t of NowTrigger \<Rightarrow> True | ScheduleTrigger s \<Rightarrow> valid_schedule is_zone s)"

lemma valid_trigger_recurrence:
  "valid_trigger is_zone (ScheduleTrigger s) \<Longrightarrow> \<forall>x. sc_recurrence s = Some x \<longrightarrow> valid_recurrence x"
  by (auto simp: valid_trigger_def valid_schedule_def)

text \<open>
  C15. Triggers that the gateway takes for equal have the same fire rules: for valid triggers the
  comparison is symmetric, and equal triggers have the same next run from every instant, so an
  edit that keeps the stored cursor keeps a cursor of the edited schedule.
\<close>

theorem equal_triggers_fire_alike:
  assumes "valid_trigger is_zone l" "valid_trigger is_zone r" "taskTriggersEqual l r"
  shows "taskTriggersEqual r l \<and> nextRunAt fmt l fromUtc after = nextRunAt fmt r fromUtc after"
proof (cases l)
  case NowTrigger
  then show ?thesis using assms(3) by (cases r) simp_all
next
  case l: (ScheduleTrigger s)
  then obtain s' where r: "r = ScheduleTrigger s'" using assms(3) by (cases r) auto
  have e: "recurrenceEqual (sc_recurrence s) (sc_recurrence s')" "sc_timezone s = sc_timezone s'" "sc_at s = sc_at s'"
    "is_paused s = is_paused s'" using assms(3) by (simp_all add: l r)
  note v = valid_trigger_recurrence [OF assms(1) [unfolded l]] valid_trigger_recurrence [OF assms(2) [unfolded r]]
  note m = recurrence_same_matches [OF e(1) v]
  have "nextRunAt fmt l fromUtc after = nextRunAt fmt r fromUtc after"
    using e search_run_cong [where l = "sc_recurrence s" and r = "sc_recurrence s'", OF m]
    by (cases "sc_recurrence s"; cases "sc_recurrence s'") (auto simp: l r nextRunAt_def Let_def split: sum.split)
  then show ?thesis using recurrenceEqual_sym [OF e(1) v] e(2-4) by (simp add: l r)
qed

theorem equal_triggers_fire_alike_witness:
  "nextRunAt utc_format (ScheduleTrigger (example_schedule (Weekly [Mon, Fri]))) 1740000000000 False =
   nextRunAt utc_format (ScheduleTrigger (example_schedule (Weekly [Fri, Mon]))) 1740000000000 False"
  using equal_triggers_fire_alike [of "\<lambda>_. True" "ScheduleTrigger (example_schedule (Weekly [Mon, Fri]))"
      "ScheduleTrigger (example_schedule (Weekly [Fri, Mon]))" utc_format 1740000000000 False]
    example_schedule_valid [of "Weekly [Mon, Fri]"] example_schedule_valid [of "Weekly [Fri, Mon]"]
  by (simp add: valid_trigger_def valid_recurrence_def example_schedule_def same_freq_def is_paused_def)

section \<open>Local times and instants\<close>

text \<open>
  A local time is converted to the instant at which the zone shows it: unless the offset of
  the zone changes between the estimate of the conversion and its result, the parts that the
  zone shows for the instant are the given date and time of day, with no seconds.
\<close>

theorem local_time_round_trip:
  assumes "local_date_time s = Some c" "isValidLocalDateTime s" "zone_offset fmt zone off"
    and "1002 \<le> cv_year c" "off (civil_utc c - off (civil_utc c)) = off (civil_to_utc fmt c zone)"
  shows "partsInZone fmt (civil_to_utc fmt c zone) zone = civil_date_time.extend c (zone_parts.fields 0)"
proof -
  have v: "time_ok c" "c = civil_of (at_day c) (cv_hour c) (cv_minute c)"
    using valid_at [OF assms(2)] assms(1) by (auto simp: at_day_def)
  have "cv_year c = year_from_day (at_day c)" using v(2) uf_year_midnight by (metis civil_of_fields(1))
  then have n: "day_from_year 1002 \<le> at_day c" using assms(4) year_from_day_ge [of 1002 "at_day c"] by simp
  define g where "g = civil_utc c"
  have g: "g = at_day c * ms_per_day + cv_hour c * 3600000 + cv_minute c * 60000"
    unfolding g_def using civil_utc_civil_of [of "at_day c" "cv_hour c" "cv_minute c"] v(2) n
    by (simp add: span_days day_from_year_1000)
  then have low: "day_from_year 1000 * ms_per_day + 3 * ms_per_day \<le> g"
    using v(1) n by (simp add: time_ok_def span_days ms_per_day_def)
  have ok: "day_from_year 1000 * ms_per_day \<le> g" "day_from_year 1000 * ms_per_day \<le> g - off t"
    if "day_from_year 1000 * ms_per_day \<le> t" for t
    using low zone_offset_1000(3) [OF assms(3) that] by (simp_all add: ms_per_day_def)
  have "1000 dvd g" unfolding g by (simp add: ms_per_day_def)
  moreover have dv: "1000 dvd off t" if "day_from_year 1000 * ms_per_day \<le> t" for t
    using zone_offset_1000(4) [OF assms(3) that] by (simp add: dvd_eq_mod_eq_0)
  ultimately have o: "offsetMs fmt t zone = off t" if "day_from_year 1000 * ms_per_day \<le> t" "1000 dvd t" for t
    using offsetMs_eq [OF assms(3) that(1)] that dv [OF that(1)] by simp
  have g1: "day_from_year 1000 * ms_per_day \<le> g" using low by (simp add: ms_per_day_def)
  let ?i = "g - off g"
  have i1: "day_from_year 1000 * ms_per_day \<le> ?i" "1000 dvd ?i" using ok(2) [OF g1] dv [OF g1] \<open>1000 dvd g\<close> by simp_all
  have u: "civil_to_utc fmt c zone = g - off ?i"
    by (simp add: civil_to_utc_def g_def [symmetric] Let_def o [OF g1 \<open>1000 dvd g\<close>] o [OF i1])
  have "off (g - off ?i) = off ?i" using assms(5) unfolding u g_def [symmetric] by simp
  then have s: "g - off ?i + off (g - off ?i) = g" by simp
  have f: "cv_year c = uf_year (midnight (at_day c))" "cv_month c = uf_month (midnight (at_day c)) + 1"
    "cv_day c = uf_date (midnight (at_day c))"
    using arg_cong [OF v(2), of cv_year] arg_cong [OF v(2), of cv_month] arg_cong [OF v(2), of cv_day] by simp_all
  have valid: "valid_civil (cv_year c) (cv_month c - 1) (cv_day c) (cv_hour c) (cv_minute c) 0"
    using midnight_valid [of "at_day c"] v(1) unfolding f by (simp add: valid_civil_def time_ok_def)
  have "utc_fields g = \<lparr>uf_year = cv_year c, uf_month = cv_month c - 1, uf_date = cv_day c, uf_hours = cv_hour c,
      uf_minutes = cv_minute c, uf_seconds = 0, uf_ms = 0\<rparr>"
    unfolding g_def civil_utc_def using assms(4) by (intro utc_fields_date_utc valid) simp
  then show ?thesis
    unfolding u partsInZone_eq [OF assms(3) ok(2) [OF i1(1)]] s shown_parts_def
    by (simp add: civil_date_time.defs zone_parts.defs)
qed


text \<open>A zone an hour ahead of UTC.\<close>

definition plus_one :: zone_format where
  "plus_one zone t = shown_parts (t + 3600000)"

theorem local_time_round_trip_witness:
  "partsInZone plus_one (civil_to_utc plus_one example_at ''+01:00'') ''+01:00'' =
     civil_date_time.extend example_at (zone_parts.fields 0)"
proof -
  have "zone_offset plus_one ''+01:00'' (\<lambda>_. 3600000)"
    by (simp add: zone_offset_def plus_one_def ms_per_day_def)
  moreover have "isValidLocalDateTime ''2025-01-31T09:00''"
    using example_schedule_valid [of Daily] by (simp add: valid_schedule_def example_schedule_def valid_recurrence_def)
  ultimately show ?thesis
    using local_time_round_trip [OF example_at] by (simp add: example_at_def)
qed

end
