(* ===== verification/RunTypes.thy ===== *)
theory RunTypes
  imports Complex_Main Json TaskSchedule
begin

text \<open>
  Runs of an agent: tasks and their limits (\<^verbatim>\<open>packages/shared/src/task.ts\<close>), outcomes
  (\<^verbatim>\<open>packages/shared/src/run.ts\<close>), steps (\<^verbatim>\<open>packages/shared/src/dto/runs.dto.ts\<close>) and the
  conversation that a continuation replays
  (\<^verbatim>\<open>apps/shaiden/src/runs/utils/conversation-history.ts\<close>). Instants are milliseconds; the texts
  that carry them are always \<open>toISOString\<close> of them.
\<close>

section \<open>Tasks\<close>

record task_limits =
  tl_max_iterations :: "int option"
  tl_timeout_seconds :: "int option"

record run_task =
  tk_goal :: string
  tk_trigger :: task_trigger
  tk_assignee :: string
  tk_limits :: "task_limits option"
  tk_modelId :: "string option"

definition default_task_limits :: task_limits where
  "default_task_limits = \<lparr>tl_max_iterations = Some 25, tl_timeout_seconds = Some 600\<rparr>"

definition resolveTaskLimits :: "run_task \<Rightarrow> task_limits" where
  "resolveTaskLimits t = or_else (tk_limits t) default_task_limits"

section \<open>Outcomes and steps\<close>

datatype failure_class = FPlatform | FAgent | FLimit | FHuman

datatype outcome_status = GoalMet | IterationExhausted | TimedOut | HumanReject | Stopped | RunFailed

record termination_outcome =
  to_status :: outcome_status
  to_reason :: "string option"
  to_failureClass :: "failure_class option"

datatype run_status = Running | RunCompleted

datatype tool_status = ToolOk | ToolError | ToolApprovalRequired

text \<open>What a model call reports: numbers are not rounded here.\<close>

record model_usage =
  mu_inputTokens :: "rat option"
  mu_outputTokens :: "rat option"
  mu_cost :: "rat option"
  mu_resolvedModelId :: "string option"

record tool_result_step =
  tr_toolName :: "string option"
  tr_toolCallId :: "string option"
  tr_outputPreview :: "string option"
  tr_toolStatus :: "tool_status option"
  tr_charCount :: "int option"
  tr_traceId :: "string option"
  tr_decision :: "string option"
  tr_durationMs :: "int option"

datatype step_body =
    ModelStep "string option" model_usage
  | OutputStep string
  | ToolDispatchStep "string option" "string option" "string option"
  | ToolResultStep tool_result_step
  | WaitingApprovalStep "string option" "string option" "string option"
  | UserMessageStep string
  | OutcomeStep outcome_status "string option" "failure_class option"

record run_step =
  rs_id :: string
  rs_timestamp :: int
  rs_body :: step_body

definition is_outcome :: "run_step \<Rightarrow> bool" where
  "is_outcome s = (case rs_body s of OutcomeStep _ _ _ \<Rightarrow> True | _ \<Rightarrow> False)"

definition createRunStep :: "string \<Rightarrow> string option \<Rightarrow> int \<Rightarrow> step_body \<Rightarrow> run_step" where
  "createRunStep uuid i t b = \<lparr>rs_id = or_else i uuid, rs_timestamp = t, rs_body = b\<rparr>"

definition isEligibleContinuationOutcome :: "termination_outcome option \<Rightarrow> bool" where
  "isEligibleContinuationOutcome outcome =
    (case outcome of
       None \<Rightarrow> False
     | Some out \<Rightarrow> to_status out \<in> {RunFailed, GoalMet, IterationExhausted, TimedOut, Stopped})"

text \<open>
  \<open>goal.replace(/\s+/g, " ").trim()\<close>, cut at 120 characters with an ellipsis (three bytes of UTF-8).
\<close>

fun squeeze :: "string \<Rightarrow> string" where
  "squeeze [] = []"
| "squeeze [c] = (if is_space c then '' '' else [c])"
| "squeeze (c # d # cs) =
    (if is_space c then (if is_space d then squeeze (d # cs) else CHR '' '' # squeeze (d # cs))
     else c # squeeze (d # cs))"

definition formatGoalPreview :: "string \<Rightarrow> string" where
  "formatGoalPreview goal =
    (let flattened = trim (squeeze goal) in
     if length flattened > 120 then take 120 flattened @ map char_of [226 :: nat, 128, 166] else flattened)"

section \<open>Conversations\<close>

datatype conversation_entry =
    UserEntry string
  | AssistantEntry string "json list"
  | ToolEntry string string string bool

fun isRecord :: "json \<Rightarrow> bool" where
  "isRecord (JObj _) = True"
| "isRecord (JArr _) = True"
| "isRecord _ = False"

fun is_str :: "json option \<Rightarrow> bool" where
  "is_str (Some (JStr _)) = True"
| "is_str _ = False"

definition isModelToolCall :: "json \<Rightarrow> bool" where
  "isModelToolCall value \<longleftrightarrow> isRecord value \<and> is_str (prop_of ''toolCallId'' value) \<and>
     is_str (prop_of ''toolName'' value) \<and>
     (case prop_of ''input'' value of None \<Rightarrow> False | Some i \<Rightarrow> isRecord i)"

definition parseConversationEntry :: "json \<Rightarrow> conversation_entry option" where
  "parseConversationEntry value =
    (case as_string (prop_of ''role'' value) of
       None \<Rightarrow> None
     | Some role \<Rightarrow>
         if role = ''user'' then map_option UserEntry (as_string (prop_of ''text'' value))
         else if role = ''assistant''
         then (case (as_string (prop_of ''text'' value), prop_of ''toolCalls'' value) of
                 (Some t, Some (JArr calls)) \<Rightarrow> if list_all isModelToolCall calls then Some (AssistantEntry t calls) else None
               | _ \<Rightarrow> None)
         else if role = ''tool''
         then (case (as_string (prop_of ''toolCallId'' value), as_string (prop_of ''toolName'' value),
                     as_string (prop_of ''output'' value)) of
                 (Some i, Some n, Some out) \<Rightarrow> Some (ToolEntry i n out (prop_of ''isError'' value = Some (JBool True)))
               | _ \<Rightarrow> None)
         else None)"

fun parse_entries :: "json list \<Rightarrow> conversation_entry list option" where
  "parse_entries [] = Some []"
| "parse_entries (j # js) =
    (case parseConversationEntry j of None \<Rightarrow> None | Some e \<Rightarrow> map_option (\<lambda>es. e # es) (parse_entries js))"

text \<open>\<open>parse_json\<close> is \<open>JSON.parse\<close>, needed for a column that holds the text of a history.\<close>

definition parseConversationHistory :: "(string \<Rightarrow> json option) \<Rightarrow> json option \<Rightarrow> conversation_entry list option" where
  "parseConversationHistory parse_json j =
    (let parsed = (case j of Some (JStr s) \<Rightarrow> if s = [] then None else parse_json s | _ \<Rightarrow> j) in
     case parsed of
       Some (JArr items) \<Rightarrow> if items = [] then None else parse_entries items
     | _ \<Rightarrow> None)"

fun entry_json :: "conversation_entry \<Rightarrow> json" where
  "entry_json (UserEntry t) = JObj [(''role'', JStr ''user''), (''text'', JStr t)]"
| "entry_json (AssistantEntry t calls) =
    JObj [(''role'', JStr ''assistant''), (''text'', JStr t), (''toolCalls'', JArr calls)]"
| "entry_json (ToolEntry i n out err) =
    JObj ([(''role'', JStr ''tool''), (''toolCallId'', JStr i), (''toolName'', JStr n), (''output'', JStr out)] @
      (if err then [(''isError'', JBool True)] else []))"

text \<open>The value whose text \<open>serializeConversationHistory\<close> writes into the \<open>JSONB\<close> column.\<close>

definition history_json :: "conversation_entry list \<Rightarrow> json" where
  "history_json history = JArr (map entry_json history)"

definition appendUserMessageToHistory :: "conversation_entry list \<Rightarrow> string \<Rightarrow> conversation_entry list" where
  "appendUserMessageToHistory history message = history @ [UserEntry message]"

definition valid_entry :: "conversation_entry \<Rightarrow> bool" where
  "valid_entry e = (case e of AssistantEntry _ calls \<Rightarrow> list_all isModelToolCall calls | _ \<Rightarrow> True)"

lemma parse_entry_json: "valid_entry e \<Longrightarrow> parseConversationEntry (entry_json e) = Some e"
  by (cases e) (simp_all add: parseConversationEntry_def valid_entry_def)

lemma parse_entries_json: "list_all valid_entry es \<Longrightarrow> parse_entries (map entry_json es) = Some es"
  by (induction es) (simp_all add: parse_entry_json)

lemma parse_entry_valid: "parseConversationEntry j = Some e \<Longrightarrow> valid_entry e"
  by (auto simp: parseConversationEntry_def valid_entry_def split: option.splits json.splits if_splits conversation_entry.split)

lemma parse_entries_valid: "parse_entries js = Some es \<Longrightarrow> list_all valid_entry es"
  by (induction js arbitrary: es) (auto dest: parse_entry_valid split: option.splits)

lemma parse_entries_Nil: "parse_entries js = Some [] \<longleftrightarrow> js = []"
  by (cases js) (auto split: option.splits)

lemma history_valid: "parseConversationHistory p j = Some h \<Longrightarrow> h \<noteq> [] \<and> list_all valid_entry h"
  by (auto simp: parseConversationHistory_def Let_def parse_entries_Nil dest: parse_entries_valid
      split: option.splits json.splits if_splits)

lemma history_round_trip: "h \<noteq> [] \<Longrightarrow> list_all valid_entry h \<Longrightarrow>
  parseConversationHistory p (Some (history_json h)) = Some h"
  by (simp add: parseConversationHistory_def history_json_def parse_entries_json)

end
