(* ===== verification/RunAttempt.thy ===== *)
theory RunAttempt
  imports RunTypes
begin

text \<open>
  What one attempt of a run used and how it ended: \<^verbatim>\<open>apps/shaiden/src/runs/attempt-fact.ts\<close> and
  \<^verbatim>\<open>apps/shaiden/src/runs/task-revision-hash.ts\<close>. \<open>loc\<close> is \<open>a.localeCompare(b) <= 0\<close> and
  \<open>sha256\<close> is node's hash.
\<close>

section \<open>Ordering\<close>

text \<open>\<open>Array.sort\<close> with a comparator: a stable sort.\<close>

fun insert_by :: "('a \<Rightarrow> 'a \<Rightarrow> bool) \<Rightarrow> 'a \<Rightarrow> 'a list \<Rightarrow> 'a list" where
  "insert_by le x [] = [x]"
| "insert_by le x (y # ys) = (if le x y then x # y # ys else y # insert_by le x ys)"

definition sort_by :: "('a \<Rightarrow> 'a \<Rightarrow> bool) \<Rightarrow> 'a list \<Rightarrow> 'a list" where
  "sort_by le xs = foldr (insert_by le) xs []"

type_synonym locale_le = "string \<Rightarrow> string \<Rightarrow> bool"

definition step_le :: "locale_le \<Rightarrow> run_step \<Rightarrow> run_step \<Rightarrow> bool" where
  "step_le loc l r \<longleftrightarrow> rs_timestamp l < rs_timestamp r \<or> (rs_timestamp l = rs_timestamp r \<and> loc (rs_id l) (rs_id r))"

definition orderedSteps :: "locale_le \<Rightarrow> run_step list \<Rightarrow> run_step list" where
  "orderedSteps loc steps = sort_by (step_le loc) steps"

section \<open>Facts\<close>

datatype attempt_kind = Initial | FollowUp

record prior_attempt =
  pv_attemptIndex :: int
  pv_kind :: attempt_kind
  pv_iterationsUsed :: int
  pv_activeMs :: int

record attempt_run_source =
  as_id :: string
  as_taskId :: string
  as_task :: run_task
  as_assignee :: string
  as_startedAt :: int
  as_modelId :: "string option"
  as_personaVersion :: "int option"
  as_agentOwnerId :: "string option"

record tool_attempt_counts =
  tc_calls :: nat
  tc_errors :: nat

record model_summary =
  ms_inputTokens :: "rat option"
  ms_outputTokens :: "rat option"
  ms_cost :: "rat option"
  ms_resolvedModelId :: "string option"
  ms_resolvedModelChanged :: bool

record attempt_fact =
  af_runId :: string
  af_attemptIndex :: int
  af_kind :: attempt_kind
  af_taskId :: string
  af_agentId :: string
  af_agentOwnerId :: "string option"
  af_modelId :: "string option"
  af_personaVersion :: "int option"
  af_taskRevisionHash :: string
  af_maxIterations :: "int option"
  af_timeoutSeconds :: "int option"
  af_startedAt :: int
  af_endedAt :: int
  af_activeMs :: int
  af_iterationsUsed :: int
  af_outcome :: outcome_status
  af_outcomeReason :: "string option"
  af_failureClass :: "failure_class option"
  af_toolCounts :: "(string \<times> tool_attempt_counts) list"
  af_denialCount :: nat
  af_linkingRequiredCount :: nat
  af_approvalRequestCount :: nat
  af_rejectionCount :: nat
  af_backfilled :: bool
  af_summary :: model_summary

definition taskRevisionHash :: "(string \<Rightarrow> string) \<Rightarrow> run_task \<Rightarrow> string" where
  "taskRevisionHash sha256 task =
    (let limits = resolveTaskLimits task; num = (\<lambda>x. case x of None \<Rightarrow> JNull | Some i \<Rightarrow> JInt i) in
     sha256 (json_stringify (JObj
       [(''goal'', JStr (tk_goal task)), (''max_iterations'', num (tl_max_iterations limits)),
        (''timeout_seconds'', num (tl_timeout_seconds limits)),
        (''modelId'', case tk_modelId task of None \<Rightarrow> JNull | Some m \<Rightarrow> JStr m)])))"

record attempt_segment =
  sg_segment :: "run_step list"
  sg_outcome :: run_step
  sg_hadPreviousOutcome :: bool
  sg_outcomeOrdinal :: nat

definition segmentEndingAt :: "locale_le \<Rightarrow> run_step list \<Rightarrow> string \<Rightarrow> string + attempt_segment" where
  "segmentEndingAt loc steps outcomeStepId =
    (let ordered = orderedSteps loc steps;
         before = takeWhile (\<lambda>s. rs_id s \<noteq> outcomeStepId) ordered
     in case drop (length before) ordered of
          [] \<Rightarrow> Inl (''outcome step '' @ outcomeStepId @ '' is not in the run log'')
        | outcome # _ \<Rightarrow>
            if \<not> is_outcome outcome then Inl (''step '' @ outcomeStepId @ '' is not an outcome'')
            else Inr \<lparr>sg_segment = rev (takeWhile (\<lambda>s. \<not> is_outcome s) (rev before)) @ [outcome], sg_outcome = outcome,
                   sg_hadPreviousOutcome = (\<exists>s \<in> set before. is_outcome s),
                   sg_outcomeOrdinal = length (filter is_outcome (before @ [outcome]))\<rparr>)"

text \<open>From the last follow-up on, of attempts in order.\<close>

definition since_reset :: "prior_attempt list \<Rightarrow> prior_attempt list" where
  "since_reset ordered =
    (let back = takeWhile (\<lambda>p. pv_kind p \<noteq> FollowUp) (rev ordered)
     in case drop (length back) (rev ordered) of [] \<Rightarrow> ordered | p # _ \<Rightarrow> p # rev back)"

definition by_index :: "prior_attempt \<Rightarrow> prior_attempt \<Rightarrow> bool" where
  "by_index l r \<longleftrightarrow> pv_attemptIndex l \<le> pv_attemptIndex r"

definition attemptsSinceBudgetReset :: "prior_attempt list \<Rightarrow> prior_attempt list" where
  "attemptsSinceBudgetReset previous = since_reset (sort_by by_index previous)"

definition bump :: "string option \<Rightarrow> (tool_attempt_counts \<Rightarrow> tool_attempt_counts) \<Rightarrow>
    (string \<times> tool_attempt_counts) list \<Rightarrow> (string \<times> tool_attempt_counts) list" where
  "bump toolName f counts =
    (let name = (if truthy_str toolName then or_else toolName [] else ''unknown'') in
     map_put name (f (or_else (map_of counts name) \<lparr>tc_calls = 0, tc_errors = 0\<rparr>)) counts)"

definition count_step :: "run_step \<Rightarrow> (string \<times> tool_attempt_counts) list \<Rightarrow> (string \<times> tool_attempt_counts) list" where
  "count_step s counts =
    (case rs_body s of
       ToolDispatchStep n _ _ \<Rightarrow> bump n (\<lambda>c. c\<lparr>tc_calls := tc_calls c + 1\<rparr>) counts
     | ToolResultStep r \<Rightarrow>
         if tr_toolStatus r = Some ToolError then bump (tr_toolName r) (\<lambda>c. c\<lparr>tc_errors := tc_errors c + 1\<rparr>) counts
         else counts
     | _ \<Rightarrow> counts)"

definition toolCounts :: "locale_le \<Rightarrow> run_step list \<Rightarrow> (string \<times> tool_attempt_counts) list" where
  "toolCounts loc steps = sort_by (\<lambda>l r. loc (fst l) (fst r)) (fold count_step steps [])"

definition is_waiting :: "run_step \<Rightarrow> bool" where
  "is_waiting s = (case rs_body s of WaitingApprovalStep _ _ _ \<Rightarrow> True | _ \<Rightarrow> False)"

definition is_model :: "run_step \<Rightarrow> bool" where
  "is_model s = (case rs_body s of ModelStep _ _ \<Rightarrow> True | _ \<Rightarrow> False)"

fun parked_ms :: "int \<Rightarrow> run_step list \<Rightarrow> int" where
  "parked_ms end [] = 0"
| "parked_ms end (s # ss) =
    (if is_waiting s then max 0 ((case ss of [] \<Rightarrow> end | n # _ \<Rightarrow> rs_timestamp n) - rs_timestamp s) else 0) +
    parked_ms end ss"

definition approximateActiveMs :: "run_step list \<Rightarrow> int \<Rightarrow> int \<Rightarrow> int" where
  "approximateActiveMs segment startedAt endedAt =
    max 0 (endedAt - startedAt - parked_ms endedAt (filter (\<lambda>s. \<not> is_outcome s) segment))"

definition addMeasured :: "rat option \<Rightarrow> rat option \<Rightarrow> rat option" where
  "addMeasured acc value =
    (case value of None \<Rightarrow> acc | Some v \<Rightarrow> if v < 0 then acc else Some (or_else acc 0 + v))"

definition model_usages :: "run_step list \<Rightarrow> model_usage list" where
  "model_usages steps = List.map_filter (\<lambda>s. case rs_body s of ModelStep _ u \<Rightarrow> Some u | _ \<Rightarrow> None) steps"

definition summarizeModelSteps :: "run_step list \<Rightarrow> model_summary" where
  "summarizeModelSteps steps =
    (let us = model_usages steps;
         resolved = List.map_filter (\<lambda>u. if truthy_str (mu_resolvedModelId u) then mu_resolvedModelId u else None) us
     in \<lparr>ms_inputTokens = foldl (\<lambda>t u. addMeasured t (mu_inputTokens u)) None us,
         ms_outputTokens = foldl (\<lambda>t u. addMeasured t (mu_outputTokens u)) None us,
         ms_cost = foldl (\<lambda>t u. addMeasured t (mu_cost u)) None us,
         ms_resolvedModelId = (if resolved = [] then None else Some (last resolved)),
         ms_resolvedModelChanged = (card (set resolved) > 1)\<rparr>)"

definition decision_count :: "string \<Rightarrow> run_step list \<Rightarrow> nat" where
  "decision_count d steps =
    length (filter (\<lambda>s. case rs_body s of ToolResultStep r \<Rightarrow> tr_decision r = Some d | _ \<Rightarrow> False) steps)"

record live_budget =
  lb_iterationsUsed :: int
  lb_activeElapsedMs :: int

definition resumes :: "attempt_kind \<Rightarrow> attempt_segment \<Rightarrow> prior_attempt list \<Rightarrow> bool" where
  "resumes k sg previous \<longleftrightarrow> k = Initial \<and> sg_hadPreviousOutcome sg \<and> previous \<noteq> []"

text \<open>The operator message that opens a follow-up.\<close>

definition follow_up_message :: "attempt_segment \<Rightarrow> run_step option" where
  "follow_up_message sg =
    (case sg_segment sg of
       opener # _ \<Rightarrow> (case rs_body opener of
         UserMessageStep _ \<Rightarrow> if sg_hadPreviousOutcome sg then Some opener else None | _ \<Rightarrow> None)
     | [] \<Rightarrow> None)"

definition attempt_usage ::
    "attempt_kind \<Rightarrow> attempt_segment \<Rightarrow> prior_attempt list \<Rightarrow> live_budget \<Rightarrow> int \<times> int" where
  "attempt_usage k sg previous live =
    (if resumes k sg previous
     then (let counted = attemptsSinceBudgetReset previous in
           (max 0 (lb_iterationsUsed live - sum_list (map pv_iterationsUsed counted)),
            max 0 (lb_activeElapsedMs live - sum_list (map pv_activeMs counted))))
     else (max 0 (lb_iterationsUsed live), max 0 (lb_activeElapsedMs live)))"

definition next_attempt_index :: "attempt_segment \<Rightarrow> prior_attempt list \<Rightarrow> int" where
  "next_attempt_index sg previous =
    max (foldl (\<lambda>m p. max m (pv_attemptIndex p)) 0 previous + 1) (int (sg_outcomeOrdinal sg))"

definition attempt_started :: "attempt_segment \<Rightarrow> int \<Rightarrow> int" where
  "attempt_started sg run_started =
    (case follow_up_message sg of
       Some m \<Rightarrow> rs_timestamp m
     | None \<Rightarrow>
         if sg_hadPreviousOutcome sg
         then (case filter (\<lambda>s. \<not> is_outcome s) (sg_segment sg) of
                 s # _ \<Rightarrow> rs_timestamp s | [] \<Rightarrow> rs_timestamp (sg_outcome sg))
         else run_started)"

definition buildAttemptFact ::
    "locale_le \<Rightarrow> (string \<Rightarrow> string) \<Rightarrow> attempt_run_source \<Rightarrow> run_step list \<Rightarrow> string \<Rightarrow> prior_attempt list \<Rightarrow>
     live_budget option \<Rightarrow> string + attempt_fact" where
  "buildAttemptFact loc sha256 run steps outcomeStepId previous liveBudget =
    (case segmentEndingAt loc steps outcomeStepId of
       Inl e \<Rightarrow> Inl e
     | Inr sg \<Rightarrow>
        (let kind = (if follow_up_message sg \<noteq> None then FollowUp else Initial);
             startedAt = attempt_started sg (as_startedAt run);
             limits = resolveTaskLimits (as_task run);
             usage = (case liveBudget of
               Some live \<Rightarrow> attempt_usage kind sg previous live
             | None \<Rightarrow> (int (length (filter is_model (sg_segment sg))),
                        approximateActiveMs (sg_segment sg) startedAt (rs_timestamp (sg_outcome sg))))
         in case rs_body (sg_outcome sg) of
              OutcomeStep status reason fc \<Rightarrow> Inr
                \<lparr>af_runId = as_id run, af_attemptIndex = next_attempt_index sg previous, af_kind = kind,
                 af_taskId = as_taskId run, af_agentId = as_assignee run, af_agentOwnerId = as_agentOwnerId run,
                 af_modelId = as_modelId run, af_personaVersion = as_personaVersion run,
                 af_taskRevisionHash = taskRevisionHash sha256 (as_task run),
                 af_maxIterations = tl_max_iterations limits, af_timeoutSeconds = tl_timeout_seconds limits,
                 af_startedAt = startedAt, af_endedAt = rs_timestamp (sg_outcome sg), af_activeMs = snd usage,
                 af_iterationsUsed = fst usage, af_outcome = status,
                 af_outcomeReason = (if truthy_str reason then reason else None), af_failureClass = fc,
                 af_toolCounts = toolCounts loc (sg_segment sg),
                 af_denialCount = decision_count ''denied'' (sg_segment sg),
                 af_linkingRequiredCount = decision_count ''linking-required'' (sg_segment sg),
                 af_approvalRequestCount = length (filter is_waiting (sg_segment sg)),
                 af_rejectionCount = (if status = HumanReject then 1 else 0),
                 af_backfilled = (liveBudget = None), af_summary = summarizeModelSteps (sg_segment sg)\<rparr>
            | _ \<Rightarrow> Inl (''step '' @ outcomeStepId @ '' is not an outcome'')))"

definition prior_of :: "attempt_fact \<Rightarrow> prior_attempt" where
  "prior_of f = \<lparr>pv_attemptIndex = af_attemptIndex f, pv_kind = af_kind f, pv_iterationsUsed = af_iterationsUsed f,
     pv_activeMs = af_activeMs f\<rparr>"


section \<open>The live budget\<close>

lemma insert_by_set [simp]: "set (insert_by le x xs) = insert x (set xs)"
  by (induction xs) auto

lemma sort_by_set [simp]: "set (sort_by le xs) = set xs"
  by (induction xs) (simp_all add: sort_by_def)

lemma sort_by_Nil [simp]: "sort_by le [] = []"
  by (simp add: sort_by_def)

text \<open>An element above all others goes last.\<close>

lemma insert_by_append:
  "le x y \<Longrightarrow> insert_by le x (ys @ [y]) = insert_by le x ys @ [y]"
  by (induction ys) auto

lemma sort_by_append_max:
  assumes "\<forall>x \<in> set xs. le x y"
  shows "sort_by le (xs @ [y]) = sort_by le xs @ [y]"
  using assms by (induction xs) (simp_all add: sort_by_def insert_by_append)

lemma since_reset_follow_up: "pv_kind p = FollowUp \<Longrightarrow> since_reset (ps @ [p]) = [p]"
  by (simp add: since_reset_def)

lemma since_reset_initial: "pv_kind p \<noteq> FollowUp \<Longrightarrow> since_reset (ps @ [p]) = since_reset ps @ [p]"
  by (simp add: since_reset_def Let_def split: list.split)

lemma foldl_max_ge:
  "m \<le> foldl (\<lambda>m p. max m (f p)) m xs" "x \<in> set xs \<Longrightarrow> f x \<le> foldl (\<lambda>m p. max m (f p)) m xs" for m :: int
proof (induction xs arbitrary: m)
  case (Cons y ys)
  { case 1 show ?case using Cons(1) [of "max m (f y)"] by simp }
  { case 2 then show ?case using Cons(1) [of "max m (f y)"] Cons(2) [of "max m (f y)"] by auto }
qed simp_all

lemma next_attempt_index_above: "p \<in> set ps \<Longrightarrow> pv_attemptIndex p < next_attempt_index sg ps"
  using foldl_max_ge(2) [of p ps pv_attemptIndex 0] by (simp add: next_attempt_index_def)

lemma built_fact:
  assumes "buildAttemptFact loc sha256 run steps i ps (Some live) = Inr f"
  shows "\<exists>sg. segmentEndingAt loc steps i = Inr sg \<and> af_attemptIndex f = next_attempt_index sg ps \<and>
    (af_iterationsUsed f, af_activeMs f) = attempt_usage (af_kind f) sg ps live"
  using assms by (auto simp: buildAttemptFact_def Let_def split: sum.splits step_body.splits)


definition example_run_task :: run_task where
  "example_run_task = \<lparr>tk_goal = ''g'', tk_trigger = NowTrigger, tk_assignee = ''a'', tk_limits = None, tk_modelId = None\<rparr>"

definition example_source :: attempt_run_source where
  "example_source = \<lparr>as_id = ''r'', as_taskId = ''t'', as_task = example_run_task, as_assignee = ''a'', as_startedAt = 0,
     as_modelId = None, as_personaVersion = None, as_agentOwnerId = None\<rparr>"

text \<open>A run that was stopped after two iterations, resumed, and reached its goal after five.\<close>

definition example_log :: "run_step list" where
  "example_log = [\<lparr>rs_id = ''s1'', rs_timestamp = 1, rs_body = OutcomeStep Stopped None None\<rparr>,
     \<lparr>rs_id = ''s2'', rs_timestamp = 2, rs_body = OutputStep ''x''\<rparr>,
     \<lparr>rs_id = ''s3'', rs_timestamp = 3, rs_body = OutcomeStep GoalMet None None\<rparr>]"

definition example_prior :: prior_attempt where
  "example_prior = \<lparr>pv_attemptIndex = 1, pv_kind = Initial, pv_iterationsUsed = 2, pv_activeMs = 100\<rparr>"


end
