(* ===== verification/RunRepo.thy ===== *)
theory RunRepo
  imports RunAttempt ToriiTypes Histories
begin

text \<open>
  The run repository, \<^verbatim>\<open>apps/shaiden/src/runs/pg-run-repository.ts\<close>, with
  \<^verbatim>\<open>apps/shaiden/src/runs/record-run-attempt.ts\<close>: runs, their steps, queued follow-ups and attempt
  facts, the park and the lease of a run, continuations and retention. A method is one or more
  statements on the tables; a transaction is \<open>atomicallyM\<close>. The clock and fresh ids are
  arguments. Weekly partitions, which only bound the age of steps, are left out.
\<close>

section \<open>Tables\<close>

record run_row =
  rr_id :: string
  rr_task_id :: string
  rr_task :: run_task
  rr_started_at :: int
  rr_assignee :: string
  rr_goal_preview :: string
  rr_status :: run_status
  rr_outcome :: "termination_outcome option"
  rr_step_count :: int
  rr_history :: "json option"
  rr_persona_version :: "int option"
  rr_persona :: "string option"
  rr_model_id :: "string option"
  rr_agent_owner_id :: "string option"
  rr_iterations_used :: int
  rr_active_elapsed_ms :: int
  rr_mcp_task_id :: "string option"
  rr_mcp_poll_interval_ms :: "int option"
  rr_next_poll_at :: "int option"
  rr_owner_id :: "string option"
  rr_lease_expires_at :: "int option"
  rr_updated_at :: int

record step_row =
  sp_run_id :: string
  sp_step :: run_step

record follow_up_row =
  fu_id :: string
  fu_run_id :: string
  fu_text :: string
  fu_created_at :: int

record run_db =
  rd_tasks :: "string list"
  rd_runs :: "run_row list"
  rd_steps :: "step_row list"
  rd_follow_ups :: "follow_up_row list"
  rd_attempts :: "attempt_fact list"
  rd_log :: "string list"

datatype run_exn = TaskAlreadyRunningError string | RunPg exn

type_synonym 'a run_comp = "(run_db, run_exn, 'a) comp"

text \<open>
  \<open>rv_id_le\<close> is the order of the database on ids, \<open>rv_loc\<close> the locale's; \<open>rv_parse\<close> is
  \<open>JSON.parse\<close>.
\<close>

record run_env =
  rv_id_le :: "string \<Rightarrow> string \<Rightarrow> bool"
  rv_loc :: locale_le
  rv_sha256 :: "string \<Rightarrow> string"
  rv_parse :: "string \<Rightarrow> json option"
  rv_retention :: nat

abbreviation on_runs :: "(run_row list \<Rightarrow> run_row list) \<Rightarrow> run_db \<Rightarrow> run_db" where
  "on_runs f db \<equiv> db\<lparr>rd_runs := f (rd_runs db)\<rparr>"

text \<open>\<open>UPDATE runs SET .. WHERE ..\<close>; the result is \<open>rowCount > 0\<close>.\<close>

definition update_runs :: "(run_row \<Rightarrow> bool) \<Rightarrow> (run_row \<Rightarrow> run_row) \<Rightarrow> bool run_comp" where
  "update_runs P f db = (Inr (tbl_count P (rd_runs db) > 0), on_runs (tbl_update P f) db)"

definition getRunRow :: "string \<Rightarrow> run_db \<Rightarrow> run_row option" where
  "getRunRow i db = tbl_find (\<lambda>r. rr_id r = i) (rd_runs db)"

definition listStepsForRun :: "run_env \<Rightarrow> string \<Rightarrow> run_db \<Rightarrow> run_step list" where
  "listStepsForRun env i db =
    sort_by (step_le (rv_id_le env)) (map sp_step (filter (\<lambda>s. sp_run_id s = i) (rd_steps db)))"

definition is_running :: "run_row \<Rightarrow> bool" where
  "is_running r \<longleftrightarrow> rr_status r = Running"

section \<open>Reports\<close>

record run_list_item =
  ri_id :: string
  ri_taskId :: string
  ri_startedAt :: int
  ri_assignee :: string
  ri_goalPreview :: string
  ri_status :: run_status
  ri_outcome :: "termination_outcome option"
  ri_stepCount :: int
  ri_activeElapsedMs :: int
  ri_personaVersion :: "int option"
  ri_persona :: "string option"
  ri_modelId :: "string option"
  ri_agentOwnerId :: "string option"

record run_report = run_list_item +
  rp_task :: run_task
  rp_steps :: "run_step list"

definition run_item :: "run_row \<Rightarrow> run_list_item" where
  "run_item r =
    \<lparr>ri_id = rr_id r, ri_taskId = rr_task_id r, ri_startedAt = rr_started_at r, ri_assignee = rr_assignee r,
     ri_goalPreview = rr_goal_preview r, ri_status = rr_status r, ri_outcome = rr_outcome r,
     ri_stepCount = rr_step_count r, ri_activeElapsedMs = max 0 (rr_active_elapsed_ms r),
     ri_personaVersion = rr_persona_version r, ri_persona = rr_persona r, ri_modelId = rr_model_id r,
     ri_agentOwnerId = (if truthy_str (rr_agent_owner_id r) then rr_agent_owner_id r else None)\<rparr>"

definition rowToRunReport :: "run_row \<Rightarrow> run_step list \<Rightarrow> run_report" where
  "rowToRunReport r steps = run_list_item.extend (run_item r) (run_report.fields (rr_task r) steps)"

definition get_run :: "run_env \<Rightarrow> string \<Rightarrow> run_report option run_comp" where
  "get_run env i db =
    (Inr (map_option (\<lambda>r. rowToRunReport r (listStepsForRun env i db)) (getRunRow i db)), db)"

text \<open>\<open>ORDER BY started_at .., id ..\<close>.\<close>

definition run_le :: "run_env \<Rightarrow> run_row \<Rightarrow> run_row \<Rightarrow> bool" where
  "run_le env l r \<longleftrightarrow> rr_started_at l < rr_started_at r \<or>
     (rr_started_at l = rr_started_at r \<and> rv_id_le env (rr_id l) (rr_id r))"

definition newest_first :: "run_env \<Rightarrow> run_row list \<Rightarrow> run_row list" where
  "newest_first env rows = sort_by (\<lambda>l r. run_le env r l) rows"

definition oldest_first :: "run_env \<Rightarrow> run_row list \<Rightarrow> run_row list" where
  "oldest_first env rows = sort_by (run_le env) rows"

definition list_runs :: "run_env \<Rightarrow> nat \<Rightarrow> string option \<Rightarrow> run_db \<Rightarrow> run_list_item list" where
  "list_runs env limit agentOwnerId db =
    map run_item (take limit (newest_first env
      (filter (\<lambda>r. if truthy_str agentOwnerId then rr_agent_owner_id r = agentOwnerId else True) (rd_runs db))))"

definition listRunningRuns :: "run_env \<Rightarrow> run_db \<Rightarrow> (string \<times> string \<times> int) list" where
  "listRunningRuns env db =
    map (\<lambda>r. (rr_id r, rr_task_id r, rr_started_at r)) (oldest_first env (filter is_running (rd_runs db)))"

definition listRunWatermarks :: "run_db \<Rightarrow> (string \<times> int) list" where
  "listRunWatermarks db = map (\<lambda>r. (rr_id r, rr_updated_at r)) (rd_runs db)"

section \<open>Creation and retention\<close>

record create_run_request =
  cq_id :: string
  cq_taskId :: string
  cq_task :: run_task
  cq_assignee :: string
  cq_goal :: string
  cq_startedAt :: "int option"
  cq_personaVersion :: "int option"
  cq_persona :: "string option"
  cq_modelId :: "string option"
  cq_agentOwnerId :: "string option"

definition new_run_row :: "create_run_request \<Rightarrow> int \<Rightarrow> run_row" where
  "new_run_row inp startedAt =
    \<lparr>rr_id = cq_id inp, rr_task_id = cq_taskId inp, rr_task = cq_task inp, rr_started_at = startedAt,
     rr_assignee = cq_assignee inp, rr_goal_preview = formatGoalPreview (cq_goal inp), rr_status = Running,
     rr_outcome = None, rr_step_count = 0, rr_history = None, rr_persona_version = cq_personaVersion inp,
     rr_persona = cq_persona inp, rr_model_id = cq_modelId inp, rr_agent_owner_id = cq_agentOwnerId inp,
     rr_iterations_used = 0, rr_active_elapsed_ms = 0, rr_mcp_task_id = None, rr_mcp_poll_interval_ms = None,
     rr_next_poll_at = None, rr_owner_id = None, rr_lease_expires_at = None, rr_updated_at = startedAt\<rparr>"

definition one_running_index :: string where
  "one_running_index = ''idx_runs_one_running_per_task''"

definition busy :: "string \<Rightarrow> run_db \<Rightarrow> bool" where
  "busy taskId db \<longleftrightarrow> (\<exists>r \<in> set (rd_runs db). rr_task_id r = taskId \<and> is_running r)"

definition insert_run :: "run_row \<Rightarrow> unit run_comp" where
  "insert_run row db =
    (if \<not> pg_int4_opt (rr_persona_version row) then (Inl (RunPg PgOutOfRange), db)
     else if getRunRow (rr_id row) db \<noteq> None then (Inl (RunPg (PgUnique ''runs_pkey'')), db)
     else if busy (rr_task_id row) db then (Inl (RunPg (PgUnique one_running_index)), db)
     else if rr_task_id row \<notin> set (rd_tasks db) then (Inl (RunPg (PgForeignKey ''runs_task_id_fkey'')), db)
     else (Inr (), on_runs (\<lambda>t. t @ [row]) db))"

definition trim_select :: "run_env \<Rightarrow> run_db \<Rightarrow> string list" where
  "trim_select env db =
    map rr_id (drop (rv_retention env) (newest_first env (filter (\<lambda>r. rr_status r = RunCompleted) (rd_runs db))))"

text \<open>The two deletions of a run; its follow-ups go with it.\<close>

definition trim_delete :: "string \<Rightarrow> run_db \<Rightarrow> run_db" where
  "trim_delete i db = db\<lparr>rd_steps := tbl_delete (\<lambda>s. sp_run_id s = i) (rd_steps db),
     rd_runs := tbl_delete (\<lambda>r. rr_id r = i) (rd_runs db),
     rd_follow_ups := tbl_delete (\<lambda>f. fu_run_id f = i) (rd_follow_ups db)\<rparr>"

definition trim_runs :: "run_env \<Rightarrow> unit run_comp" where
  "trim_runs env db = (Inr (), fold trim_delete (trim_select env db) db)"

definition create_run :: "run_env \<Rightarrow> create_run_request \<Rightarrow> int \<Rightarrow> run_report run_comp" where
  "create_run env inp now =
    (let row = new_run_row inp (or_else (cq_startedAt inp) now) in
     bindM (catchM (insert_run row)
         (\<lambda>e. throwM (case e of
            RunPg p \<Rightarrow> if isUniqueViolation p one_running_index then TaskAlreadyRunningError (cq_taskId inp) else e
          | _ \<Rightarrow> e))) (\<lambda>_.
     bindM (trim_runs env) (\<lambda>_.
     returnM (rowToRunReport row []))))"

section \<open>Steps and attempts\<close>

definition insertStep :: "string \<Rightarrow> run_step \<Rightarrow> unit run_comp" where
  "insertStep i s db =
    (if \<exists>x \<in> set (rd_steps db). rs_timestamp (sp_step x) = rs_timestamp s \<and> rs_id (sp_step x) = rs_id s
     then (Inl (RunPg (PgUnique ''run_steps_pkey'')), db)
     else if getRunRow i db = None then (Inl (RunPg (PgForeignKey ''run_steps_run_id_fkey'')), db)
     else (Inr (), db\<lparr>rd_steps := rd_steps db @ [\<lparr>sp_run_id = i, sp_step = s\<rparr>]\<rparr>))"

definition incrementStepCount :: "string \<Rightarrow> int \<Rightarrow> unit run_comp" where
  "incrementStepCount i now =
    bindM (update_runs (\<lambda>r. rr_id r = i) (\<lambda>r. r\<lparr>rr_step_count := rr_step_count r + 1, rr_updated_at := now\<rparr>))
      (\<lambda>_. returnM ())"

text \<open>\<open>payload_json - 'text' - 'inputPreview' - 'outputPreview'\<close>.\<close>

definition strip_previews :: "run_step \<Rightarrow> run_step" where
  "strip_previews s = s\<lparr>rs_body := (case rs_body s of
      ModelStep _ u \<Rightarrow> ModelStep None u
    | OutputStep _ \<Rightarrow> OutputStep []
    | ToolDispatchStep n i _ \<Rightarrow> ToolDispatchStep n i None
    | ToolResultStep r \<Rightarrow> ToolResultStep (r\<lparr>tr_outputPreview := None\<rparr>)
    | WaitingApprovalStep n a _ \<Rightarrow> WaitingApprovalStep n a None
    | UserMessageStep _ \<Rightarrow> UserMessageStep []
    | OutcomeStep a b c \<Rightarrow> OutcomeStep a b c)\<rparr>"

record attempt_source =
  ao_run :: attempt_run_source
  ao_steps :: "run_step list"
  ao_previous :: "prior_attempt list"
  ao_budget :: live_budget

definition prior_row :: "attempt_fact \<Rightarrow> prior_attempt" where
  "prior_row f = \<lparr>pv_attemptIndex = af_attemptIndex f, pv_kind = af_kind f,
     pv_iterationsUsed = max 0 (af_iterationsUsed f), pv_activeMs = max 0 (af_activeMs f)\<rparr>"

definition loadAttemptSource :: "run_env \<Rightarrow> string \<Rightarrow> run_db \<Rightarrow> attempt_source option" where
  "loadAttemptSource env i db =
    map_option (\<lambda>r.
      \<lparr>ao_run = \<lparr>as_id = rr_id r, as_taskId = rr_task_id r, as_task = rr_task r, as_assignee = rr_assignee r,
         as_startedAt = rr_started_at r, as_modelId = rr_model_id r, as_personaVersion = rr_persona_version r,
         as_agentOwnerId = rr_agent_owner_id r\<rparr>,
       ao_steps = map strip_previews (listStepsForRun env i db),
       ao_previous = sort_by by_index (map prior_row (filter (\<lambda>f. af_runId f = i) (rd_attempts db))),
       ao_budget = \<lparr>lb_iterationsUsed = max 0 (rr_iterations_used r), lb_activeElapsedMs = max 0 (rr_active_elapsed_ms r)\<rparr>\<rparr>)
     (getRunRow i db)"

definition insertRunAttempt :: "attempt_fact \<Rightarrow> run_db \<Rightarrow> string + run_db" where
  "insertRunAttempt f db =
    (if \<exists>x \<in> set (rd_attempts db). af_runId x = af_runId f \<and> af_attemptIndex x = af_attemptIndex f
     then Inl (exn_message (PgUnique ''run_attempts_run_id_attempt_index_key''))
     else if \<not> pg_int4 (af_attemptIndex f) \<or> \<not> pg_int4 (af_iterationsUsed f) then Inl (exn_message PgOutOfRange)
     else Inr (db\<lparr>rd_attempts := rd_attempts db @ [f]\<rparr>))"

definition recordRunAttempt :: "run_env \<Rightarrow> string \<Rightarrow> string \<Rightarrow> run_db \<Rightarrow> string + run_db" where
  "recordRunAttempt env i outcomeStepId db =
    (case loadAttemptSource env i db of
       None \<Rightarrow> Inr db
     | Some src \<Rightarrow>
        (case buildAttemptFact (rv_loc env) (rv_sha256 env) (ao_run src) (ao_steps src) outcomeStepId
                (ao_previous src) (Some (ao_budget src)) of
           Inl e \<Rightarrow> Inl e | Inr af \<Rightarrow> insertRunAttempt af db))"

text \<open>A failure rolls back to the savepoint and is logged.\<close>

definition recordAttempt :: "run_env \<Rightarrow> string \<Rightarrow> string \<Rightarrow> unit run_comp" where
  "recordAttempt env i outcomeStepId db =
    (case recordRunAttempt env i outcomeStepId db of
       Inl e \<Rightarrow> (Inr (), db\<lparr>rd_log := rd_log db @ [e]\<rparr>) | Inr db' \<Rightarrow> (Inr (), db'))"

definition appendStep :: "run_env \<Rightarrow> string \<Rightarrow> run_step \<Rightarrow> int \<Rightarrow> run_report option run_comp" where
  "appendStep env i s now db =
    (case getRunRow i db of
       None \<Rightarrow> (Inr None, db)
     | Some _ \<Rightarrow>
        bindM (atomicallyM
          (bindM (insertStep i s) (\<lambda>_.
           bindM (incrementStepCount i now) (\<lambda>_.
           if is_outcome s then recordAttempt env i (rs_id s) else returnM ()))))
        (\<lambda>_. get_run env i) db)"

definition complete_row :: "termination_outcome \<Rightarrow> int \<Rightarrow> run_row \<Rightarrow> run_row" where
  "complete_row outcome now r =
    r\<lparr>rr_status := RunCompleted, rr_outcome := Some outcome, rr_mcp_task_id := None,
      rr_mcp_poll_interval_ms := None, rr_next_poll_at := None, rr_owner_id := None,
      rr_lease_expires_at := None, rr_updated_at := now\<rparr>"

definition delete_follow_ups :: "string \<Rightarrow> unit run_comp" where
  "delete_follow_ups i db =
    (Inr (), db\<lparr>rd_follow_ups := tbl_delete (\<lambda>f. fu_run_id f = i) (rd_follow_ups db)\<rparr>)"

definition complete_run :: "run_env \<Rightarrow> string \<Rightarrow> termination_outcome \<Rightarrow> int \<Rightarrow> run_report option run_comp" where
  "complete_run env i outcome now db =
    (case getRunRow i db of
       None \<Rightarrow> (Inr None, db)
     | Some _ \<Rightarrow>
        bindM (update_runs (\<lambda>r. rr_id r = i) (complete_row outcome now)) (\<lambda>_.
        bindM (delete_follow_ups i) (\<lambda>_. get_run env i)) db)"

section \<open>History and budget\<close>

definition setConversationHistory :: "string \<Rightarrow> conversation_entry list \<Rightarrow> bool run_comp" where
  "setConversationHistory i history db =
    (case getRunRow i db of
       None \<Rightarrow> (Inr False, db)
     | Some _ \<Rightarrow>
        bindM (update_runs (\<lambda>r. rr_id r = i) (\<lambda>r. r\<lparr>rr_history := Some (history_json history)\<rparr>))
          (\<lambda>_. returnM True) db)"

definition getConversationHistory :: "run_env \<Rightarrow> string \<Rightarrow> run_db \<Rightarrow> conversation_entry list option" where
  "getConversationHistory env i db =
    (case getRunRow i db of None \<Rightarrow> None | Some r \<Rightarrow> parseConversationHistory (rv_parse env) (rr_history r))"

definition getRunBudget :: "string \<Rightarrow> run_db \<Rightarrow> live_budget option" where
  "getRunBudget i db =
    map_option (\<lambda>r. \<lparr>lb_iterationsUsed = rr_iterations_used r, lb_activeElapsedMs = rr_active_elapsed_ms r\<rparr>)
      (getRunRow i db)"

definition setRunBudget :: "string \<Rightarrow> live_budget \<Rightarrow> bool run_comp" where
  "setRunBudget i b db =
    (if \<not> pg_int4 (lb_iterationsUsed b) then (Inl (RunPg PgOutOfRange), db)
     else update_runs (\<lambda>r. rr_id r = i)
       (\<lambda>r. r\<lparr>rr_iterations_used := lb_iterationsUsed b, rr_active_elapsed_ms := lb_activeElapsedMs b\<rparr>) db)"

section \<open>Parked runs\<close>

definition setParkedMcpTask :: "string \<Rightarrow> string \<Rightarrow> int option \<Rightarrow> int \<Rightarrow> bool run_comp" where
  "setParkedMcpTask i mcpTaskId pollIntervalMs now db =
    (if \<not> pg_int4_opt pollIntervalMs then (Inl (RunPg PgOutOfRange), db)
     else update_runs (\<lambda>r. rr_id r = i \<and> is_running r)
       (\<lambda>r. r\<lparr>rr_mcp_task_id := Some mcpTaskId, rr_mcp_poll_interval_ms := pollIntervalMs, rr_updated_at := now\<rparr>) db)"

definition clearParkedMcpTask :: "string \<Rightarrow> int \<Rightarrow> bool run_comp" where
  "clearParkedMcpTask i now = update_runs (\<lambda>r. rr_id r = i)
     (\<lambda>r. r\<lparr>rr_mcp_task_id := None, rr_mcp_poll_interval_ms := None, rr_next_poll_at := None, rr_updated_at := now\<rparr>)"

definition setNextPollAt :: "string \<Rightarrow> int \<Rightarrow> bool run_comp" where
  "setNextPollAt i t = update_runs (\<lambda>r. rr_id r = i \<and> is_running r) (\<lambda>r. r\<lparr>rr_next_poll_at := Some t\<rparr>)"

record parked_mcp_task =
  pk_runId :: string
  pk_mcpTaskId :: string
  pk_pollIntervalMs :: "int option"
  pk_nextPollAt :: "int option"

definition parkedMcpTaskFromRow :: "run_row \<Rightarrow> parked_mcp_task" where
  "parkedMcpTaskFromRow r =
    \<lparr>pk_runId = rr_id r, pk_mcpTaskId = or_else (rr_mcp_task_id r) [], pk_pollIntervalMs = rr_mcp_poll_interval_ms r,
     pk_nextPollAt = rr_next_poll_at r\<rparr>"

definition is_parked :: "run_row \<Rightarrow> bool" where
  "is_parked r \<longleftrightarrow> is_running r \<and> rr_mcp_task_id r \<noteq> None"

definition getParkedMcpTask :: "string \<Rightarrow> run_db \<Rightarrow> parked_mcp_task option" where
  "getParkedMcpTask i db =
    map_option parkedMcpTaskFromRow (tbl_find (\<lambda>r. rr_id r = i \<and> rr_mcp_task_id r \<noteq> None) (rd_runs db))"

definition listParkedMcpTasks :: "run_env \<Rightarrow> run_db \<Rightarrow> parked_mcp_task list" where
  "listParkedMcpTasks env db = map parkedMcpTaskFromRow (oldest_first env (filter is_parked (rd_runs db)))"

text \<open>\<open>owner_id IS NULL OR lease_expires_at IS NULL OR lease_expires_at < now\<close>.\<close>

definition lease_free :: "int \<Rightarrow> run_row \<Rightarrow> bool" where
  "lease_free now r \<longleftrightarrow> rr_owner_id r = None \<or>
     (case rr_lease_expires_at r of None \<Rightarrow> True | Some e \<Rightarrow> e < now)"

definition poll_due :: "int \<Rightarrow> run_row \<Rightarrow> bool" where
  "poll_due now r \<longleftrightarrow> (case rr_next_poll_at r of None \<Rightarrow> True | Some t \<Rightarrow> t \<le> now)"

definition listClaimableParkedMcpTasks :: "run_env \<Rightarrow> int \<Rightarrow> run_db \<Rightarrow> parked_mcp_task list" where
  "listClaimableParkedMcpTasks env now db =
    map parkedMcpTaskFromRow
      (oldest_first env (filter (\<lambda>r. is_parked r \<and> lease_free now r \<and> poll_due now r) (rd_runs db)))"

definition insert_follow_up :: "string \<Rightarrow> string \<Rightarrow> string \<Rightarrow> int \<Rightarrow> unit run_comp" where
  "insert_follow_up uuid i message now db =
    (if \<exists>f \<in> set (rd_follow_ups db). fu_id f = uuid then (Inl (RunPg (PgUnique ''run_follow_ups_pkey'')), db)
     else (Inr (), db\<lparr>rd_follow_ups := rd_follow_ups db @
        [\<lparr>fu_id = uuid, fu_run_id = i, fu_text = message, fu_created_at = now\<rparr>]\<rparr>))"

definition enqueueParkedFollowUp ::
    "string \<Rightarrow> string \<Rightarrow> run_step \<Rightarrow> string \<Rightarrow> int \<Rightarrow> bool run_comp" where
  "enqueueParkedFollowUp i message s uuid now =
    atomicallyM (\<lambda>db.
      if \<not> (\<exists>r \<in> set (rd_runs db). rr_id r = i \<and> is_parked r) then (Inr False, db)
      else bindM (insert_follow_up uuid i message now) (\<lambda>_.
           bindM (insertStep i s) (\<lambda>_.
           bindM (incrementStepCount i now) (\<lambda>_. returnM True))) db)"

definition follow_up_le :: "run_env \<Rightarrow> follow_up_row \<Rightarrow> follow_up_row \<Rightarrow> bool" where
  "follow_up_le env l r \<longleftrightarrow> fu_created_at l < fu_created_at r \<or>
     (fu_created_at l = fu_created_at r \<and> rv_id_le env (fu_id l) (fu_id r))"

definition drainParkedFollowUps :: "run_env \<Rightarrow> string \<Rightarrow> conversation_entry list run_comp" where
  "drainParkedFollowUps env i db =
    (let mine = sort_by (follow_up_le env) (filter (\<lambda>f. fu_run_id f = i) (rd_follow_ups db)) in
     (Inr (map (UserEntry \<circ> fu_text) mine),
      if mine = [] then db else db\<lparr>rd_follow_ups := tbl_delete (\<lambda>f. fu_run_id f = i) (rd_follow_ups db)\<rparr>))"

section \<open>Leases\<close>

definition claimRun :: "string \<Rightarrow> string \<Rightarrow> int \<Rightarrow> int \<Rightarrow> bool run_comp" where
  "claimRun i ownerId leaseExpiresAt now =
    atomicallyM (update_runs (\<lambda>r. rr_id r = i \<and> is_running r \<and> lease_free now r)
      (\<lambda>r. r\<lparr>rr_owner_id := Some ownerId, rr_lease_expires_at := Some leaseExpiresAt\<rparr>))"

definition renewRunLease :: "string \<Rightarrow> string \<Rightarrow> int \<Rightarrow> bool run_comp" where
  "renewRunLease i ownerId leaseExpiresAt =
    update_runs (\<lambda>r. rr_id r = i \<and> rr_owner_id r = Some ownerId \<and> is_running r)
      (\<lambda>r. r\<lparr>rr_lease_expires_at := Some leaseExpiresAt\<rparr>)"

definition releaseRun :: "string \<Rightarrow> string \<Rightarrow> bool run_comp" where
  "releaseRun i ownerId =
    update_runs (\<lambda>r. rr_id r = i \<and> rr_owner_id r = Some ownerId)
      (\<lambda>r. r\<lparr>rr_owner_id := None, rr_lease_expires_at := None\<rparr>)"

section \<open>Continuations\<close>

datatype continuation_failure =
  RunNotFound | NotTerminal | IneligibleOutcome | MissingHistory | ConcurrentContinuation

text \<open>What is read first: the history to continue with, the message appended.\<close>

definition continuation_check ::
    "run_env \<Rightarrow> string \<Rightarrow> string option \<Rightarrow> run_db \<Rightarrow> continuation_failure + conversation_entry list" where
  "continuation_check env i message db =
    (case getRunRow i db of
       None \<Rightarrow> Inl RunNotFound
     | Some r \<Rightarrow>
        if rr_status r \<noteq> RunCompleted then Inl NotTerminal
        else if \<not> isEligibleContinuationOutcome (rr_outcome r) then Inl IneligibleOutcome
        else (case parseConversationHistory (rv_parse env) (rr_history r) of
                None \<Rightarrow> Inl MissingHistory
              | Some h \<Rightarrow> if h = [] then Inl MissingHistory
                  else Inr (if truthy_str message then appendUserMessageToHistory h (or_else message []) else h)))"

definition continue_row :: "conversation_entry list \<Rightarrow> bool \<Rightarrow> bool \<Rightarrow> int \<Rightarrow> run_row \<Rightarrow> run_row" where
  "continue_row history hasStep hasMessage now r =
    r\<lparr>rr_status := Running, rr_outcome := None, rr_history := Some (history_json history),
      rr_step_count := rr_step_count r + (if hasStep then 1 else 0),
      rr_iterations_used := (if hasMessage then 0 else rr_iterations_used r),
      rr_active_elapsed_ms := (if hasMessage then 0 else rr_active_elapsed_ms r), rr_updated_at := now\<rparr>"

text \<open>The update of a completed run to running is subject to the index of running runs.\<close>

definition reopen :: "string \<Rightarrow> (run_row \<Rightarrow> run_row) \<Rightarrow> bool run_comp" where
  "reopen i f db =
    (if \<exists>r \<in> set (rd_runs db). rr_id r = i \<and> rr_status r = RunCompleted \<and> busy (rr_task_id r) db
     then (Inl (RunPg (PgUnique one_running_index)), db)
     else update_runs (\<lambda>r. rr_id r = i \<and> rr_status r = RunCompleted) f db)"

definition continuation_write ::
    "string \<Rightarrow> conversation_entry list \<Rightarrow> run_step option \<Rightarrow> bool \<Rightarrow> int \<Rightarrow>
     (continuation_failure + conversation_entry list) run_comp" where
  "continuation_write i history userStep hasMessage now =
    atomicallyM
      (bindM (reopen i (continue_row history (userStep \<noteq> None) hasMessage now)) (\<lambda>hit.
       if \<not> hit then returnM (Inl ConcurrentContinuation)
       else bindM (case userStep of None \<Rightarrow> returnM () | Some s \<Rightarrow> insertStep i s) (\<lambda>_. returnM (Inr history))))"

definition beginContinuation ::
    "run_env \<Rightarrow> string \<Rightarrow> string option \<Rightarrow> run_step option \<Rightarrow> int \<Rightarrow>
     (continuation_failure + conversation_entry list) run_comp" where
  "beginContinuation env i message userStep now db =
    (case continuation_check env i message db of
       Inl e \<Rightarrow> (Inr (Inl e), db)
     | Inr history \<Rightarrow>
        continuation_write i history (if truthy_str message then userStep else None) (truthy_str message) now db)"

section \<open>Histories of operations\<close>

datatype run_op =
    OpCreate create_run_request int
  | OpAppend string run_step int
  | OpComplete string termination_outcome int
  | OpSetHistory string "conversation_entry list"
  | OpSetBudget string live_budget
  | OpPark string string "int option" int
  | OpUnpark string int
  | OpNextPoll string int
  | OpEnqueue string string run_step string int
  | OpDrain string
  | OpClaim string string int int
  | OpRenew string string int
  | OpRelease string string
  | OpContinue string "string option" "run_step option" int

fun run_run_op :: "run_env \<Rightarrow> run_op \<Rightarrow> run_db \<Rightarrow> run_db" where
  "run_run_op env (OpCreate inp now) db = snd (create_run env inp now db)"
| "run_run_op env (OpAppend i s now) db = snd (appendStep env i s now db)"
| "run_run_op env (OpComplete i out now) db = snd (complete_run env i out now db)"
| "run_run_op env (OpSetHistory i h) db = snd (setConversationHistory i h db)"
| "run_run_op env (OpSetBudget i b) db = snd (setRunBudget i b db)"
| "run_run_op env (OpPark i m p now) db = snd (setParkedMcpTask i m p now db)"
| "run_run_op env (OpUnpark i now) db = snd (clearParkedMcpTask i now db)"
| "run_run_op env (OpNextPoll i t) db = snd (setNextPollAt i t db)"
| "run_run_op env (OpEnqueue i msg s u now) db = snd (enqueueParkedFollowUp i msg s u now db)"
| "run_run_op env (OpDrain i) db = snd (drainParkedFollowUps env i db)"
| "run_run_op env (OpClaim i ow e now) db = snd (claimRun i ow e now db)"
| "run_run_op env (OpRenew i ow e) db = snd (renewRunLease i ow e db)"
| "run_run_op env (OpRelease i ow) db = snd (releaseRun i ow db)"
| "run_run_op env (OpContinue i msg s now) db = snd (beginContinuation env i msg s now db)"

end
