(* ===== verification/RunHistory.thy ===== *)
theory RunHistory
  imports RunRepo
begin

text \<open>
  What the run repository keeps over any history of its operations: the invariant of its tables
  and the exclusion of leases; what each operation does to one run.
\<close>

section \<open>The invariant of the tables\<close>

definition run_row_ok :: "run_row \<Rightarrow> bool" where
  "run_row_ok r \<longleftrightarrow> (if is_running r then rr_outcome r = None
     else rr_outcome r \<noteq> None \<and> rr_mcp_task_id r = None \<and> rr_mcp_poll_interval_ms r = None \<and>
       rr_next_poll_at r = None \<and> rr_owner_id r = None \<and> rr_lease_expires_at r = None)"

definition steps_of :: "string \<Rightarrow> run_db \<Rightarrow> step_row list" where
  "steps_of i db = filter (\<lambda>s. sp_run_id s = i) (rd_steps db)"

definition running_tasks :: "run_row list \<Rightarrow> string list" where
  "running_tasks rows = map rr_task_id (filter is_running rows)"

definition run_wf :: "run_db \<Rightarrow> bool" where
  "run_wf db \<longleftrightarrow> distinct (map rr_id (rd_runs db)) \<and> distinct (running_tasks (rd_runs db)) \<and>
     list_all run_row_ok (rd_runs db) \<and>
     list_all (\<lambda>r. rr_step_count r = int (length (steps_of (rr_id r) db))) (rd_runs db) \<and>
     list_all (\<lambda>s. \<exists>r \<in> set (rd_runs db). rr_id r = sp_run_id s) (rd_steps db) \<and>
     list_all (\<lambda>f. \<exists>r \<in> set (rd_runs db). rr_id r = fu_run_id f \<and> is_running r) (rd_follow_ups db)"

named_theorems run_simps "tables of the run repository"

lemma steps_of_simps [run_simps]:
  "steps_of i (rd_runs_update f db) = steps_of i db" "steps_of i (rd_follow_ups_update g db) = steps_of i db"
  "steps_of i (rd_attempts_update h db) = steps_of i db" "steps_of i (rd_log_update l db) = steps_of i db"
  by (simp_all add: steps_of_def)

lemma run_wf_frame [run_simps]:
  "run_wf (rd_attempts_update h db) = run_wf db" "run_wf (rd_log_update l db) = run_wf db"
  by (simp_all add: run_wf_def run_simps)

lemma busy_running_tasks: "busy t db \<longleftrightarrow> t \<in> set (running_tasks (rd_runs db))"
  by (auto simp: busy_def running_tasks_def)

lemma getRunRow_in: "getRunRow i db = Some r \<Longrightarrow> r \<in> set (rd_runs db) \<and> rr_id r = i"
  by (auto simp: getRunRow_def dest: tbl_find_Some_in)

lemma getRunRow_None: "getRunRow i db = None \<longleftrightarrow> (\<forall>r \<in> set (rd_runs db). rr_id r \<noteq> i)"
  by (simp add: getRunRow_def tbl_simps)

lemma getRunRow_unique: "run_wf db \<Longrightarrow> r \<in> set (rd_runs db) \<Longrightarrow> getRunRow (rr_id r) db = Some r"
  unfolding getRunRow_def by (rule tbl_find_key_in) (simp_all add: run_wf_def)

text \<open>An update that changes neither keys, status nor count.\<close>

definition quiet :: "(run_row \<Rightarrow> bool) \<Rightarrow> (run_row \<Rightarrow> run_row) \<Rightarrow> bool" where
  "quiet P f \<longleftrightarrow> (\<forall>r. rr_id (f r) = rr_id r \<and> rr_task_id (f r) = rr_task_id r \<and> rr_status (f r) = rr_status r \<and>
     rr_step_count (f r) = rr_step_count r \<and> (P r \<longrightarrow> run_row_ok r \<longrightarrow> run_row_ok (f r)))"

lemma map_tbl_update_same: "(\<And>r. g (f r) = g r) \<Longrightarrow> map g (tbl_update P f t) = map g t"
  by (induction t) (auto simp: tbl_update_def)

lemma running_tasks_quiet:
  "(\<And>r. rr_task_id (f r) = rr_task_id r) \<Longrightarrow> (\<And>r. rr_status (f r) = rr_status r) \<Longrightarrow>
    running_tasks (tbl_update P f t) = running_tasks t"
  by (induction t) (auto simp: tbl_update_def running_tasks_def is_running_def)

lemma ex_tbl_update: "(\<And>r. Q (f r) = Q r) \<Longrightarrow> (\<exists>r \<in> set (tbl_update P f t). Q r) = (\<exists>r \<in> set t. Q r)"
  by (auto simp: tbl_update_def)

lemma run_wf_quiet:
  assumes "run_wf db" "quiet P f"
  shows "run_wf (on_runs (tbl_update P f) db)"
proof -
  have f: "rr_id (f r) = rr_id r" "rr_task_id (f r) = rr_task_id r" "rr_status (f r) = rr_status r"
    "rr_step_count (f r) = rr_step_count r" "P r \<Longrightarrow> run_row_ok r \<Longrightarrow> run_row_ok (f r)" for r
    using assms(2) by (simp_all add: quiet_def)
  have "list_all run_row_ok (tbl_update P f (rd_runs db))"
    using assms(1) by (auto simp: run_wf_def list_all_iff tbl_simps intro: f(5))
  moreover have "list_all (\<lambda>r. rr_step_count r = int (length (steps_of (rr_id r) db))) (tbl_update P f (rd_runs db))"
    using assms(1) by (auto simp: run_wf_def list_all_iff tbl_simps f)
  ultimately show ?thesis
    using assms(1)
    by (simp add: run_wf_def run_simps map_tbl_update_same f running_tasks_quiet ex_tbl_update is_running_def)
qed

lemma update_runs_quiet: "run_wf db \<Longrightarrow> quiet P f \<Longrightarrow> run_wf (snd (update_runs P f db))"
  by (simp add: update_runs_def run_wf_quiet)

lemma quiet_history: "quiet P (\<lambda>r. r\<lparr>rr_history := h\<rparr>)"
  by (simp add: quiet_def run_row_ok_def is_running_def)

lemma quiet_budget: "quiet P (\<lambda>r. r\<lparr>rr_iterations_used := a, rr_active_elapsed_ms := b\<rparr>)"
  by (simp add: quiet_def run_row_ok_def is_running_def)

lemma quiet_lease: "(\<And>r. P r \<Longrightarrow> is_running r) \<Longrightarrow> quiet P (\<lambda>r. r\<lparr>rr_owner_id := x, rr_lease_expires_at := y\<rparr>)"
  by (auto simp: quiet_def run_row_ok_def is_running_def)

lemma quiet_renew: "(\<And>r. P r \<Longrightarrow> is_running r) \<Longrightarrow> quiet P (\<lambda>r. r\<lparr>rr_lease_expires_at := y\<rparr>)"
  by (auto simp: quiet_def run_row_ok_def is_running_def)

lemma quiet_poll: "(\<And>r. P r \<Longrightarrow> is_running r) \<Longrightarrow> quiet P (\<lambda>r. r\<lparr>rr_next_poll_at := y\<rparr>)"
  by (auto simp: quiet_def run_row_ok_def is_running_def)

lemma quiet_park: "(\<And>r. P r \<Longrightarrow> is_running r) \<Longrightarrow>
    quiet P (\<lambda>r. r\<lparr>rr_mcp_task_id := x, rr_mcp_poll_interval_ms := y, rr_updated_at := z\<rparr>)"
  by (auto simp: quiet_def run_row_ok_def is_running_def)

lemma quiet_unpark: "quiet P (\<lambda>r. r\<lparr>rr_mcp_task_id := None, rr_mcp_poll_interval_ms := None,
    rr_next_poll_at := None, rr_updated_at := z\<rparr>)"
  by (auto simp: quiet_def run_row_ok_def is_running_def)

lemma quiet_release: "quiet P (\<lambda>r. r\<lparr>rr_owner_id := None, rr_lease_expires_at := None\<rparr>)"
  by (auto simp: quiet_def run_row_ok_def is_running_def)

lemmas quiet_rules = quiet_history quiet_budget quiet_lease quiet_renew quiet_poll quiet_park quiet_unpark quiet_release

lemma quiet_ops_wf:
  assumes "run_wf db"
  shows "run_wf (snd (setConversationHistory i h db))" "run_wf (snd (setRunBudget i b db))"
    "run_wf (snd (setParkedMcpTask i m p now db))" "run_wf (snd (clearParkedMcpTask i now db))"
    "run_wf (snd (setNextPollAt i t db))" "run_wf (snd (claimRun i ow e now db))"
    "run_wf (snd (renewRunLease i ow e db))" "run_wf (snd (releaseRun i ow db))"
proof -
  note q = run_wf_quiet [OF assms]
  show "run_wf (snd (setConversationHistory i h db))"
    using assms by (auto simp: setConversationHistory_def comp_simps update_runs_def split: option.splits
        intro!: q quiet_rules)
  show "run_wf (snd (setRunBudget i b db))"
    using assms by (auto simp: setRunBudget_def update_runs_def intro!: q quiet_rules)
  show "run_wf (snd (setParkedMcpTask i m p now db))"
    using assms by (auto simp: setParkedMcpTask_def update_runs_def intro!: q quiet_park)
  show "run_wf (snd (clearParkedMcpTask i now db))"
    by (auto simp: clearParkedMcpTask_def update_runs_def intro!: q quiet_unpark)
  show "run_wf (snd (setNextPollAt i t db))"
    by (auto simp: setNextPollAt_def update_runs_def intro!: q quiet_poll)
  show "run_wf (snd (claimRun i ow e now db))"
    by (auto simp: claimRun_def comp_simps update_runs_def intro!: q quiet_lease)
  show "run_wf (snd (renewRunLease i ow e db))"
    by (auto simp: renewRunLease_def update_runs_def intro!: q quiet_renew)
  show "run_wf (snd (releaseRun i ow db))"
    by (auto simp: releaseRun_def update_runs_def intro!: q quiet_release)
qed

text \<open>Completion closes the run and drops what was queued for it.\<close>

lemma running_tasks_shrink:
  "(\<And>r. rr_task_id (f r) = rr_task_id r) \<Longrightarrow> (\<And>r. \<not> is_running (f r)) \<Longrightarrow>
    distinct (running_tasks t) \<Longrightarrow> distinct (running_tasks (tbl_update P f t)) \<and>
    set (running_tasks (tbl_update P f t)) \<subseteq> set (running_tasks t)"
  by (induction t) (auto simp: tbl_update_def running_tasks_def)

lemma complete_run_wf:
  assumes "run_wf db"
  shows "run_wf (snd (complete_run env i out now db))"
proof (cases "getRunRow i db")
  case None
  then show ?thesis using assms by (simp add: complete_run_def)
next
  case (Some r)
  let ?f = "complete_row out now"
  let ?t = "tbl_update (\<lambda>r. rr_id r = i) ?f (rd_runs db)"
  let ?fu = "tbl_delete (\<lambda>f. fu_run_id f = i) (rd_follow_ups db)"
  have f: "rr_id (?f r) = rr_id r" "rr_task_id (?f r) = rr_task_id r" "\<not> is_running (?f r)"
    "rr_step_count (?f r) = rr_step_count r" "run_row_ok (?f r)" for r
    by (simp_all add: complete_row_def run_row_ok_def is_running_def)
  have res: "snd (complete_run env i out now db) = on_runs (\<lambda>_. ?t) (db\<lparr>rd_follow_ups := ?fu\<rparr>)"
    by (simp add: complete_run_def Some comp_simps update_runs_def delete_follow_ups_def get_run_def)
  have 1: "map rr_id ?t = map rr_id (rd_runs db)" by (rule map_tbl_update_same) (rule f)
  have 2: "distinct (running_tasks ?t)"
    using running_tasks_shrink [of ?f "rd_runs db" "\<lambda>r. rr_id r = i"] f assms by (simp add: run_wf_def)
  have 3: "list_all run_row_ok ?t"
    using assms by (auto simp: run_wf_def list_all_iff tbl_simps f)
  have 4: "list_all (\<lambda>r. rr_step_count r = int (length (steps_of (rr_id r) db))) ?t"
    using assms by (auto simp: run_wf_def list_all_iff tbl_simps f)
  have 5: "list_all (\<lambda>s. \<exists>r \<in> set ?t. rr_id r = sp_run_id s) (rd_steps db)"
    using assms by (simp add: run_wf_def ex_tbl_update f)
  have keep: "r \<in> set ?t" if "r \<in> set (rd_runs db)" "rr_id r \<noteq> i" for r
    using that by (auto simp: tbl_simps image_iff)
  have 6: "list_all (\<lambda>x. \<exists>r \<in> set ?t. rr_id r = fu_run_id x \<and> is_running r) ?fu"
    unfolding list_all_iff
  proof
    fix x assume "x \<in> set ?fu"
    then have x: "x \<in> set (rd_follow_ups db)" "fu_run_id x \<noteq> i" by (simp_all add: tbl_simps)
    then obtain r where "r \<in> set (rd_runs db)" "rr_id r = fu_run_id x" "is_running r"
      using assms by (auto simp: run_wf_def list_all_iff)
    then show "\<exists>r \<in> set ?t. rr_id r = fu_run_id x \<and> is_running r" using keep [of r] x(2) by auto
  qed
  show ?thesis unfolding res using 1 2 3 4 5 6 assms by (simp add: run_wf_def run_simps)
qed

text \<open>Retention removes completed runs with all that refers to them.\<close>

lemma distinct_running_delete: "distinct (running_tasks t) \<Longrightarrow> distinct (running_tasks (tbl_delete P t))"
  by (induction t) (auto simp: running_tasks_def tbl_delete_def)

lemma steps_of_trim: "steps_of j (trim_delete i db) = (if j = i then [] else steps_of j db)"
  by (auto simp: steps_of_def trim_delete_def tbl_delete_def filter_empty_conv intro: filter_cong)

lemma trim_delete_wf:
  assumes "run_wf db" "\<And>r. r \<in> set (rd_runs db) \<Longrightarrow> rr_id r = i \<Longrightarrow> \<not> is_running r"
  shows "run_wf (trim_delete i db)"
proof -
  have 1: "distinct (map rr_id (tbl_delete (\<lambda>r. rr_id r = i) (rd_runs db)))"
    using assms(1) by (simp add: run_wf_def distinct_map_tbl_delete)
  have 3: "list_all (\<lambda>r. rr_step_count r = int (length (steps_of (rr_id r) (trim_delete i db)))) (rd_runs (trim_delete i db))"
    using assms(1) by (simp add: steps_of_trim run_wf_def list_all_iff) (simp add: trim_delete_def tbl_simps)
  have 4: "\<exists>r \<in> set (rd_runs (trim_delete i db)). rr_id r = sp_run_id s" if "s \<in> set (rd_steps (trim_delete i db))" for s
    using that assms(1) by (force simp: trim_delete_def tbl_simps run_wf_def list_all_iff)
  have 5: "\<exists>r \<in> set (rd_runs (trim_delete i db)). rr_id r = fu_run_id x \<and> is_running r"
    if "x \<in> set (rd_follow_ups (trim_delete i db))" for x
    using that assms(1) by (force simp: trim_delete_def tbl_simps run_wf_def list_all_iff)
  show ?thesis
    using assms(1) 1 3 4 5
    by (simp add: run_wf_def list_all_iff distinct_running_delete) (simp add: trim_delete_def distinct_running_delete tbl_simps)
qed

lemma trim_fold_wf:
  "run_wf db \<Longrightarrow> \<forall>i \<in> set ids. \<forall>r \<in> set (rd_runs db). rr_id r = i \<longrightarrow> \<not> is_running r \<Longrightarrow>
    run_wf (fold trim_delete ids db)"
proof (induction ids arbitrary: db)
  case (Cons i ids)
  have "run_wf (trim_delete i db)" using Cons.prems by (intro trim_delete_wf) auto
  moreover have "\<forall>i' \<in> set ids. \<forall>r \<in> set (rd_runs (trim_delete i db)). rr_id r = i' \<longrightarrow> \<not> is_running r"
    using Cons.prems(2) by (simp add: trim_delete_def tbl_simps)
  ultimately show ?case using Cons.IH by simp
qed simp

lemma trim_select_completed:
  "i \<in> set (trim_select env db) \<Longrightarrow> \<exists>r \<in> set (rd_runs db). rr_id r = i \<and> rr_status r = RunCompleted"
  by (auto simp: trim_select_def newest_first_def dest!: in_set_dropD)

lemma trim_runs_wf:
  assumes "run_wf db"
  shows "run_wf (snd (trim_runs env db))"
proof -
  have "\<not> is_running r" if "r \<in> set (rd_runs db)" "rr_id r \<in> set (trim_select env db)" for r
    using trim_select_completed [OF that(2)] that(1) getRunRow_unique [OF assms]
    by (auto simp: is_running_def) (metis option.inject run_status.distinct(1))
  then show ?thesis using assms by (auto simp: trim_runs_def intro!: trim_fold_wf)
qed

lemma insert_run_wf:
  assumes "run_wf db" "is_running row" "run_row_ok row" "rr_step_count row = 0"
  shows "run_wf (snd (insert_run row db))"
proof -
  have "steps_of (rr_id row) db = []" if "getRunRow (rr_id row) db = None"
    using that assms(1) by (force simp: getRunRow_None steps_of_def filter_empty_conv run_wf_def list_all_iff)
  then show ?thesis
    using assms by (auto simp: insert_run_def getRunRow_None run_wf_def busy_running_tasks run_simps list_all_iff)
      (auto simp: running_tasks_def)
qed

lemma create_run_wf:
  assumes "run_wf db"
  shows "run_wf (snd (create_run env inp now db))"
proof -
  let ?row = "new_run_row inp (or_else (cq_startedAt inp) now)"
  have "run_wf (snd (insert_run ?row db))"
    using assms by (rule insert_run_wf) (simp_all add: new_run_row_def is_running_def run_row_ok_def)
  then show ?thesis
    by (cases "insert_run ?row db") (auto simp: create_run_def Let_def comp_simps trim_runs_wf split: sum.splits prod.splits
        dest!: arg_cong [of "trim_runs env _" _ snd] intro: trim_runs_wf)
qed

text \<open>A step goes with the count of its run.\<close>

definition add_step :: "string \<Rightarrow> run_step \<Rightarrow> (run_row \<Rightarrow> run_row) \<Rightarrow> run_db \<Rightarrow> run_db" where
  "add_step i s f db = on_runs (tbl_update (\<lambda>r. rr_id r = i) f) (db\<lparr>rd_steps := rd_steps db @ [\<lparr>sp_run_id = i, sp_step = s\<rparr>]\<rparr>)"

lemma add_step_wf:
  assumes "run_wf db" "getRunRow i db \<noteq> None"
    and f: "\<And>r. rr_id (f r) = rr_id r" "\<And>r. rr_task_id (f r) = rr_task_id r" "\<And>r. rr_status (f r) = rr_status r"
      "\<And>r. rr_step_count (f r) = rr_step_count r + 1" "\<And>r. run_row_ok r \<Longrightarrow> run_row_ok (f r)"
  shows "run_wf (add_step i s f db)"
proof -
  let ?t = "tbl_update (\<lambda>r. rr_id r = i) f (rd_runs db)"
  have st: "steps_of j (add_step i s f db) = steps_of j db @ (if j = i then [\<lparr>sp_run_id = i, sp_step = s\<rparr>] else [])" for j
    by (simp add: add_step_def steps_of_def)
  have 1: "list_all run_row_ok ?t"
    using assms(1) by (auto simp: run_wf_def list_all_iff tbl_simps f)
  have 2: "list_all (\<lambda>r. rr_step_count r = int (length (steps_of (rr_id r) (add_step i s f db)))) ?t"
    using assms(1) by (auto simp: run_wf_def list_all_iff tbl_simps f st)
  have 3: "\<exists>r \<in> set ?t. rr_id r = i"
    using assms(2) by (simp add: ex_tbl_update f getRunRow_None)
  show ?thesis
    using assms(1) 1 2 3
    by (simp add: run_wf_def) (simp add: add_step_def map_tbl_update_same f running_tasks_quiet ex_tbl_update is_running_def)
qed

lemma counted_step:
  "bindM (insertStep i s) (\<lambda>_. bindM (incrementStepCount i now) k) db =
    (case insertStep i s db of
       (Inl e, db') \<Rightarrow> (Inl e, db')
     | (Inr _, _) \<Rightarrow> k () (add_step i s (\<lambda>r. r\<lparr>rr_step_count := rr_step_count r + 1, rr_updated_at := now\<rparr>) db))"
  by (simp add: comp_simps insertStep_def incrementStepCount_def update_runs_def add_step_def)

lemma add_counted_wf:
  "run_wf db \<Longrightarrow> getRunRow i db \<noteq> None \<Longrightarrow>
    run_wf (add_step i s (\<lambda>r. r\<lparr>rr_step_count := rr_step_count r + 1, rr_updated_at := now\<rparr>) db)"
  by (rule add_step_wf) (simp_all add: run_row_ok_def is_running_def)

lemma insertStep_ok: "insertStep i s db = (Inr u, db') \<Longrightarrow> getRunRow i db \<noteq> None"
  by (auto simp: insertStep_def split: if_splits)

lemma insertStep_fails: "insertStep i s db = (Inl e, db') \<Longrightarrow> db' = db"
  by (auto simp: insertStep_def split: if_splits)

lemma recordAttempt_frame [run_simps]:
  "rd_runs (snd (recordAttempt env i o' db)) = rd_runs db" "rd_steps (snd (recordAttempt env i o' db)) = rd_steps db"
  "rd_follow_ups (snd (recordAttempt env i o' db)) = rd_follow_ups db"
  "run_wf (snd (recordAttempt env i o' db)) = run_wf db" "fst (recordAttempt env i o' db) = Inr ()"
  by (auto simp: recordAttempt_def recordRunAttempt_def insertRunAttempt_def run_simps
      split: option.splits sum.splits if_splits)

lemma recordAttempt_pair: "recordAttempt env i o' db = (Inr (), snd (recordAttempt env i o' db))"
  by (simp add: prod_eq_iff run_simps)

lemma appendStep_wf:
  assumes "run_wf db"
  shows "run_wf (snd (appendStep env i s now db))"
proof (cases "getRunRow i db = None \<or> (\<exists>e db'. insertStep i s db = (Inl e, db'))")
  case True
  then show ?thesis
    using assms by (auto simp: appendStep_def bindM_def [of "atomicallyM _"] atomicallyM_def counted_step split: option.splits)
next
  case False
  then obtain u db' where ins: "insertStep i s db = (Inr u, db')" by (metis old.sum.exhaust surj_pair)
  let ?db = "add_step i s (\<lambda>r. r\<lparr>rr_step_count := rr_step_count r + 1, rr_updated_at := now\<rparr>) db"
  have wf: "run_wf ?db" using assms False by (intro add_counted_wf) auto
  obtain x where rec: "recordAttempt env i (rs_id s) ?db = (Inr (), x)" using recordAttempt_pair by blast
  have "snd (appendStep env i s now db) = (if is_outcome s then snd (recordAttempt env i (rs_id s) ?db) else ?db)"
    using False ins rec
    by (auto simp: appendStep_def bindM_def [of "atomicallyM _"] atomicallyM_def counted_step
        returnM_def get_run_def split: option.splits)
  then show ?thesis using wf by (simp add: run_simps)
qed

lemma enqueue_wf:
  assumes "run_wf db"
  shows "run_wf (snd (enqueueParkedFollowUp i msg s u now db))"
proof -
  let ?fu = "\<lparr>fu_id = u, fu_run_id = i, fu_text = msg, fu_created_at = now\<rparr>"
  have fu: "run_wf (db\<lparr>rd_follow_ups := rd_follow_ups db @ [?fu]\<rparr>)" if "\<exists>r \<in> set (rd_runs db). rr_id r = i \<and> is_parked r"
    using assms that by (auto simp: run_wf_def run_simps is_parked_def)
  show ?thesis
  proof (cases "(\<exists>r \<in> set (rd_runs db). rr_id r = i \<and> is_parked r) \<and> (\<forall>f \<in> set (rd_follow_ups db). fu_id f \<noteq> u)")
    case False
    then show ?thesis
      using assms by (auto simp: enqueueParkedFollowUp_def atomicallyM_def bindM_def insert_follow_up_def)
  next
    case True
    let ?db = "db\<lparr>rd_follow_ups := rd_follow_ups db @ [?fu]\<rparr>"
    have r: "getRunRow i ?db \<noteq> None" using True by (auto simp: getRunRow_None)
    have "snd (enqueueParkedFollowUp i msg s u now db) = (case insertStep i s ?db of (Inl e, _) \<Rightarrow> db
       | (Inr _, _) \<Rightarrow> add_step i s (\<lambda>r. r\<lparr>rr_step_count := rr_step_count r + 1, rr_updated_at := now\<rparr>) ?db)"
      using True by (auto simp: enqueueParkedFollowUp_def atomicallyM_def bindM_def [of "insert_follow_up _ _ _ _"]
          insert_follow_up_def counted_step returnM_def split: prod.splits sum.splits)
    then show ?thesis
      using add_counted_wf [OF _ r] fu True assms by (auto split: prod.splits sum.splits)
  qed
qed

lemma drain_wf: "run_wf db \<Longrightarrow> run_wf (snd (drainParkedFollowUps env i db))"
  by (auto simp: drainParkedFollowUps_def Let_def run_wf_def run_simps list_all_iff tbl_simps)

lemma running_tasks_reopen:
  assumes "\<And>r. rr_task_id (f r) = rr_task_id r" "\<And>r. is_running (f r)"
    and "distinct (running_tasks t)" "distinct (map rr_id t)"
    and "\<forall>r \<in> set t. rr_id r = i \<longrightarrow> \<not> is_running r \<longrightarrow> rr_task_id r \<notin> set (running_tasks t)"
  shows "distinct (running_tasks (tbl_update (\<lambda>r. rr_id r = i \<and> \<not> is_running r) f t))"
  using assms(3-5)
proof (induction t)
  case (Cons r t)
  show ?case
  proof (cases "rr_id r = i \<and> \<not> is_running r")
    case True
    then have "\<forall>x \<in> set t. rr_id x \<noteq> i" using Cons.prems(2) by (auto simp: image_iff)
    then have "tbl_update (\<lambda>r. rr_id r = i \<and> \<not> is_running r) f t = t" by (intro tbl_update_none) auto
    then show ?thesis using Cons.prems True by (simp add: tbl_update_def running_tasks_def assms(1,2))
  next
    case False
    have sub: "set (running_tasks (tbl_update P f t)) \<subseteq> set (running_tasks t) \<union> {rr_task_id x | x. x \<in> set t \<and> P x}" for P
      by (auto simp: running_tasks_def tbl_update_def assms(1) split: if_splits)
    have "distinct (running_tasks (tbl_update (\<lambda>r. rr_id r = i \<and> \<not> is_running r) f t))"
      using Cons by (auto simp: running_tasks_def split: if_splits)
    moreover have "rr_task_id r \<notin> set (running_tasks (tbl_update (\<lambda>r. rr_id r = i \<and> \<not> is_running r) f t))" if "is_running r"
      using sub [of "\<lambda>r. rr_id r = i \<and> \<not> is_running r"] Cons.prems(1,3) that by (auto simp: running_tasks_def)
    moreover have "tbl_update (\<lambda>r. rr_id r = i \<and> \<not> is_running r) f (r # t) =
        r # tbl_update (\<lambda>r. rr_id r = i \<and> \<not> is_running r) f t" using False by (auto simp: tbl_update_def)
    ultimately show ?thesis by (simp add: running_tasks_def)
  qed
qed (simp add: tbl_update_def running_tasks_def)

text \<open>Reopening a completed run, with the step of the message where there is one.\<close>

lemma reopen_wf:
  assumes wf: "run_wf db" and free: "\<not> (\<exists>r \<in> set (rd_runs db). rr_id r = i \<and> rr_status r = RunCompleted \<and> busy (rr_task_id r) db)"
  shows "run_wf (on_runs (tbl_update (\<lambda>r. rr_id r = i \<and> rr_status r = RunCompleted) (continue_row h False b now)) db)"
proof -
  let ?f = "continue_row h False b now"
  have c: "rr_status r = RunCompleted \<longleftrightarrow> \<not> is_running r" for r by (cases "rr_status r") (simp_all add: is_running_def)
  let ?t = "tbl_update (\<lambda>r. rr_id r = i \<and> \<not> is_running r) ?f (rd_runs db)"
  have f: "rr_id (?f r) = rr_id r" "rr_task_id (?f r) = rr_task_id r" "is_running (?f r)"
    "rr_step_count (?f r) = rr_step_count r" "run_row_ok (?f r)" for r
    by (simp_all add: continue_row_def run_row_ok_def is_running_def)
  have 1: "distinct (running_tasks ?t)"
    using wf free by (intro running_tasks_reopen) (auto simp: f run_wf_def c busy_running_tasks)
  have 2: "list_all run_row_ok ?t"
    using wf by (auto simp: run_wf_def list_all_iff tbl_simps f)
  have 3: "list_all (\<lambda>r. rr_step_count r = int (length (steps_of (rr_id r) db))) ?t"
    using wf by (auto simp: run_wf_def list_all_iff tbl_simps f)
  have keep: "\<exists>r' \<in> set ?t. rr_id r' = rr_id r \<and> (is_running r \<longrightarrow> is_running r')" if "r \<in> set (rd_runs db)" for r
    using that by (intro bexI [of _ "if rr_id r = i \<and> \<not> is_running r then ?f r else r"]) (auto simp: tbl_simps f)
  have 4: "list_all (\<lambda>x. \<exists>r \<in> set ?t. rr_id r = fu_run_id x \<and> is_running r) (rd_follow_ups db)"
    unfolding list_all_iff
  proof
    fix x assume "x \<in> set (rd_follow_ups db)"
    then obtain r where "r \<in> set (rd_runs db)" "rr_id r = fu_run_id x" "is_running r"
      using wf by (auto simp: run_wf_def list_all_iff)
    then show "\<exists>r \<in> set ?t. rr_id r = fu_run_id x \<and> is_running r" using keep [of r] by auto
  qed
  show ?thesis
    unfolding c using wf 1 2 3 4
    by (simp add: run_wf_def run_simps map_tbl_update_same f ex_tbl_update)
qed

lemma reopen_counted:
  assumes "\<forall>r \<in> set t. rr_id r = i \<longrightarrow> rr_status r = RunCompleted"
  shows "tbl_update (\<lambda>r. rr_id r = i \<and> rr_status r = RunCompleted) (continue_row h True b now) t =
    tbl_update (\<lambda>r. rr_id r = i) (\<lambda>r. r\<lparr>rr_step_count := rr_step_count r + 1\<rparr>)
      (tbl_update (\<lambda>r. rr_id r = i \<and> rr_status r = RunCompleted) (continue_row h False b now) t)"
  using assms by (induction t) (auto simp: tbl_update_def continue_row_def)

lemma continuation_write_wf:
  assumes "run_wf db"
  shows "run_wf (snd (continuation_write i h us b now db))"
proof (cases "fst (continuation_write i h us b now db)")
  case (Inl e)
  then show ?thesis
    using assms by (auto simp: continuation_write_def atomicallyM_def split: prod.splits sum.splits)
next
  case (Inr x)
  let ?P = "\<lambda>r. rr_id r = i \<and> rr_status r = RunCompleted"
  let ?db1 = "on_runs (tbl_update ?P (continue_row h False b now)) db"
  have free: "\<not> (\<exists>r \<in> set (rd_runs db). rr_id r = i \<and> rr_status r = RunCompleted \<and> busy (rr_task_id r) db)"
  proof
    assume "\<exists>r \<in> set (rd_runs db). rr_id r = i \<and> rr_status r = RunCompleted \<and> busy (rr_task_id r) db"
    with Inr show False by (simp add: continuation_write_def atomicallyM_def bindM_def reopen_def)
  qed
  have ro: "reopen i f db = update_runs ?P f db" for f by (simp only: reopen_def free if_False)
  note wf1 = reopen_wf [OF assms free, of h b now]
  show ?thesis
  proof (cases "\<exists>r \<in> set (rd_runs db). ?P r")
    case False
    then have "tbl_count ?P (rd_runs db) = 0" by (auto simp: tbl_simps)
    moreover have "tbl_update ?P f (rd_runs db) = rd_runs db" for f using False by (intro tbl_update_none) auto
    ultimately show ?thesis
      using assms by (simp add: continuation_write_def atomicallyM_def bindM_def ro update_runs_def returnM_def)
  next
    case True
    then have hit: "tbl_count ?P (rd_runs db) > 0" by (simp add: tbl_count_pos)
    obtain r0 where r0: "r0 \<in> set (rd_runs db)" "?P r0" using True by blast
    have comp: "\<forall>r \<in> set (rd_runs db). rr_id r = i \<longrightarrow> rr_status r = RunCompleted"
    proof (intro ballI impI)
      fix r assume "r \<in> set (rd_runs db)" "rr_id r = i"
      with r0 have "r = r0" using assms by (intro distinct_key_unique [of rr_id "rd_runs db"]) (simp_all add: run_wf_def)
      with r0 show "rr_status r = RunCompleted" by simp
    qed
    show ?thesis
    proof (cases us)
      case None
      then show ?thesis
        using hit wf1 by (simp add: continuation_write_def atomicallyM_def bindM_def ro update_runs_def returnM_def)
    next
      case (Some s)
      have "\<exists>r \<in> set (rd_runs ?db1). rr_id r = i" 
        by (simp add: ex_tbl_update continue_row_def del: ex_simps) (use r0 in blast)
      then have id: "getRunRow i ?db1 \<noteq> None" by (simp add: getRunRow_None)
      have "run_wf (add_step i s (\<lambda>r. r\<lparr>rr_step_count := rr_step_count r + 1\<rparr>) ?db1)"
        by (rule add_step_wf [OF wf1 id]) (simp_all add: run_row_ok_def is_running_def)
      moreover have "snd (continuation_write i h us b now db) = add_step i s (\<lambda>r. r\<lparr>rr_step_count := rr_step_count r + 1\<rparr>) ?db1"
        using Inr hit comp Some
        by (auto simp: continuation_write_def atomicallyM_def bindM_def ro update_runs_def returnM_def
            insertStep_def add_step_def reopen_counted split: if_splits)
      ultimately show ?thesis by simp
    qed
  qed
qed

lemma beginContinuation_wf: "run_wf db \<Longrightarrow> run_wf (snd (beginContinuation env i msg us now db))"
  by (auto simp: beginContinuation_def continuation_write_wf split: sum.splits)

lemma run_run_op_wf: "run_wf db \<Longrightarrow> run_wf (run_run_op env x db)"
  by (cases x) (simp_all add: create_run_wf appendStep_wf complete_run_wf quiet_ops_wf enqueue_wf drain_wf beginContinuation_wf)

interpretation runs: kept "run_run_op env" "\<lambda>_. True" run_wf for env
  by unfold_locales (rule run_run_op_wf)

section \<open>Examples\<close>

definition example_task :: run_task where
  "example_task = \<lparr>tk_goal = ''g'', tk_trigger = NowTrigger, tk_assignee = ''a'', tk_limits = None, tk_modelId = None\<rparr>"

definition example_request :: "string \<Rightarrow> create_run_request" where
  "example_request i = \<lparr>cq_id = i, cq_taskId = ''t'', cq_task = example_task, cq_assignee = ''a'', cq_goal = ''g'',
     cq_startedAt = None, cq_personaVersion = None, cq_persona = None, cq_modelId = None, cq_agentOwnerId = None\<rparr>"

definition example_env :: run_env where
  "example_env = \<lparr>rv_id_le = (\<le>), rv_loc = (\<le>), rv_sha256 = (\<lambda>s. s), rv_parse = (\<lambda>_. None), rv_retention = 0\<rparr>"

definition example_running :: run_row where
  "example_running = new_run_row (example_request ''r1'') 5"

definition example_completed :: run_row where
  "example_completed = (new_run_row (example_request ''r2'') 3)\<lparr>rr_status := RunCompleted,
     rr_outcome := Some \<lparr>to_status = GoalMet, to_reason = None, to_failureClass = None\<rparr>,
     rr_history := Some (history_json [UserEntry ''hi'']), rr_iterations_used := 4\<rparr>"

definition example_db :: "run_row list \<Rightarrow> run_db" where
  "example_db rows = \<lparr>rd_tasks = [''t''], rd_runs = rows, rd_steps = [], rd_follow_ups = [], rd_attempts = [], rd_log = []\<rparr>"

lemmas example_defs = example_running_def example_completed_def example_request_def example_db_def example_env_def
  new_run_row_def

lemma example_wf: "run_wf (example_db [example_running])" "run_wf (example_db [example_completed])"
  "run_wf (example_db [example_running, example_completed])" "run_wf (example_db [])"
  by (simp_all add: run_wf_def running_tasks_def run_row_ok_def is_running_def steps_of_def example_defs)

lemma example_rows: "getRunRow ''r1'' (example_db (example_running # rows)) = Some example_running"
  "getRunRow ''r2'' (example_db [example_completed]) = Some example_completed"
  "getRunRow ''r2'' (example_db [example_running, example_completed]) = Some example_completed"
  by (simp_all add: getRunRow_def example_db_def tbl_simps) (simp_all add: example_defs)



section \<open>What happens to one run\<close>

lemma getRunRow_update [run_simps]:
  assumes "\<And>r. rr_id (f r) = rr_id r"
  shows "getRunRow i (on_runs (tbl_update P f) db) = map_option (\<lambda>r. if P r then f r else r) (getRunRow i db)"
  unfolding getRunRow_def by (simp add: tbl_find_key_update assms)

lemma getRunRow_frame [run_simps]:
  "getRunRow i (rd_steps_update f db) = getRunRow i db" "getRunRow i (rd_follow_ups_update g db) = getRunRow i db"
  "getRunRow i (rd_attempts_update h db) = getRunRow i db" "getRunRow i (rd_log_update l db) = getRunRow i db"
  by (simp_all add: getRunRow_def)

lemma getRunRow_trim: "getRunRow i (trim_delete j db) = (if i = j then None else getRunRow i db)"
  by (auto simp: getRunRow_def trim_delete_def tbl_find_delete_other tbl_simps)

lemma getRunRow_trims: "getRunRow i (fold trim_delete ids db) = (if i \<in> set ids then None else getRunRow i db)"
  by (induction ids arbitrary: db) (auto simp: getRunRow_trim)

lemma trimmed_not_running:
  assumes "run_wf db" "getRunRow i db = Some r" "is_running r"
  shows "i \<notin> set (trim_select env db)"
proof
  assume "i \<in> set (trim_select env db)"
  then obtain r' where "r' \<in> set (rd_runs db)" "rr_id r' = i" "rr_status r' = RunCompleted"
    using trim_select_completed by blast
  with getRunRow_unique [OF assms(1) this(1)] assms(2,3) show False by (simp add: is_running_def)
qed

lemma create_row:
  assumes "run_wf db" "getRunRow i db = Some r"
  shows "getRunRow i (snd (create_run env inp now db)) = Some r \<or>
    \<not> is_running r \<and> getRunRow i (snd (create_run env inp now db)) = None"
proof -
  let ?row = "new_run_row inp (or_else (cq_startedAt inp) now)"
  let ?db = "snd (insert_run ?row db)"
  have 1: "getRunRow i ?db = Some r"
    using assms(2) by (auto simp: insert_run_def getRunRow_def tbl_simps)
  have 2: "run_wf ?db"
    using assms(1) by (rule insert_run_wf) (simp_all add: new_run_row_def is_running_def run_row_ok_def)
  have 3: "getRunRow i (snd (trim_runs env ?db)) = Some r \<or> \<not> is_running r \<and> getRunRow i (snd (trim_runs env ?db)) = None"
    using 1 trimmed_not_running [OF 2 1, of env] by (auto simp: trim_runs_def getRunRow_trims)
  obtain res db' where ins: "insert_run ?row db = (res, db')" by (cases "insert_run ?row db")
  show ?thesis
    using 1 3 unfolding ins by (cases res) (auto simp: create_run_def Let_def comp_simps ins trim_runs_def)
qed

lemma add_step_row [run_simps]:
  "(\<And>r. rr_id (f r) = rr_id r) \<Longrightarrow> getRunRow i (add_step j s f db) = map_option (\<lambda>r. if rr_id r = j then f r else r) (getRunRow i db)"
  by (simp add: add_step_def getRunRow_def tbl_find_key_update)

lemma recordAttempt_row [run_simps]: "getRunRow i (snd (recordAttempt env j o' db)) = getRunRow i db"
  by (simp add: getRunRow_def run_simps)

lemma append_row:
  assumes "getRunRow i db = Some r"
  shows "\<exists>n u. getRunRow i (snd (appendStep env j s now db)) = Some (r\<lparr>rr_step_count := n, rr_updated_at := u\<rparr>)"
proof -
  let ?f = "\<lambda>r. r\<lparr>rr_step_count := rr_step_count r + 1, rr_updated_at := now\<rparr>"
  have id: "r = r\<lparr>rr_step_count := rr_step_count r, rr_updated_at := rr_updated_at r\<rparr>" by simp
  obtain x where rec: "recordAttempt env j (rs_id s) (add_step j s ?f db) = (Inr (), x)" using recordAttempt_pair by blast
  have x: "getRunRow i x = Some (if rr_id r = j then ?f r else r)"
    using recordAttempt_row [of i env j "rs_id s" "add_step j s ?f db"] assms by (simp add: rec add_step_row)
  have "snd (appendStep env j s now db) \<in> {db, x, add_step j s ?f db}"
    by (auto simp: appendStep_def bindM_def [of "atomicallyM _"] atomicallyM_def counted_step returnM_def get_run_def rec
        split: option.splits prod.splits sum.splits)
  then have "getRunRow i (snd (appendStep env j s now db)) \<in> {Some r, Some (?f r)}"
    using x assms by (auto simp: add_step_row)
  then show ?thesis using id by (metis insertE singletonD)
qed

lemma enqueue_row:
  assumes "getRunRow i db = Some r"
  shows "\<exists>n u. getRunRow i (snd (enqueueParkedFollowUp j m s uuid now db)) = Some (r\<lparr>rr_step_count := n, rr_updated_at := u\<rparr>)"
proof -
  let ?f = "\<lambda>r. r\<lparr>rr_step_count := rr_step_count r + 1, rr_updated_at := now\<rparr>"
  let ?db = "rd_follow_ups_update (\<lambda>_. rd_follow_ups db @ [\<lparr>fu_id = uuid, fu_run_id = j, fu_text = m, fu_created_at = now\<rparr>]) db"
  have id: "r = r\<lparr>rr_step_count := rr_step_count r, rr_updated_at := rr_updated_at r\<rparr>" by simp
  have "snd (enqueueParkedFollowUp j m s uuid now db) \<in> {db, add_step j s ?f ?db}"
    by (auto simp: enqueueParkedFollowUp_def atomicallyM_def bindM_def [of "insert_follow_up _ _ _ _"]
        insert_follow_up_def counted_step returnM_def split: prod.splits sum.splits)
  then have "getRunRow i (snd (enqueueParkedFollowUp j m s uuid now db)) \<in> {Some r, Some (?f r)}"
    using assms by (auto simp: add_step_row getRunRow_frame)
  then show ?thesis using id by (metis insertE singletonD)
qed

lemma same_row:
  "\<exists>a c. (r :: run_row) = r\<lparr>rr_iterations_used := a, rr_active_elapsed_ms := c\<rparr>"
  "\<exists>a c u. (r :: run_row) = r\<lparr>rr_mcp_task_id := a, rr_mcp_poll_interval_ms := c, rr_updated_at := u\<rparr>"
  "\<exists>a c d u. (r :: run_row) = r\<lparr>rr_mcp_task_id := a, rr_mcp_poll_interval_ms := c, rr_next_poll_at := d, rr_updated_at := u\<rparr>"
  "\<exists>a. (r :: run_row) = r\<lparr>rr_next_poll_at := a\<rparr>"
  by (rule exI [of _ "rr_iterations_used r"] exI [of _ "rr_mcp_task_id r"] exI [of _ "rr_next_poll_at r"],
      (rule exI [of _ "rr_active_elapsed_ms r"] exI [of _ "rr_mcp_poll_interval_ms r"])?,
      (rule exI [of _ "rr_next_poll_at r"])?, (rule exI [of _ "rr_updated_at r"])?, simp)+

lemma plain_rows:
  assumes "getRunRow i db = Some r"
  shows
  "getRunRow i (snd (complete_run env j out now db)) = Some (if j = i then complete_row out now r else r)"
  "getRunRow i (snd (setConversationHistory j h db)) = Some (if j = i then r\<lparr>rr_history := Some (history_json h)\<rparr> else r)"
  "\<exists>a c. getRunRow i (snd (setRunBudget j b db)) = Some (r\<lparr>rr_iterations_used := a, rr_active_elapsed_ms := c\<rparr>)"
  "\<exists>a c u. getRunRow i (snd (setParkedMcpTask j m p now db)) =
     Some (r\<lparr>rr_mcp_task_id := a, rr_mcp_poll_interval_ms := c, rr_updated_at := u\<rparr>)"
  "\<exists>a c d u. getRunRow i (snd (clearParkedMcpTask j now db)) =
     Some (r\<lparr>rr_mcp_task_id := a, rr_mcp_poll_interval_ms := c, rr_next_poll_at := d, rr_updated_at := u\<rparr>)"
  "\<exists>a. getRunRow i (snd (setNextPollAt j t db)) = Some (r\<lparr>rr_next_poll_at := a\<rparr>)"
  "getRunRow i (snd (drainParkedFollowUps env j db)) = Some r"
  "getRunRow i (snd (claimRun j ow e now db)) = Some (if j = i \<and> is_running r \<and> lease_free now r
     then r\<lparr>rr_owner_id := Some ow, rr_lease_expires_at := Some e\<rparr> else r)"
  "getRunRow i (snd (renewRunLease j ow e db)) = Some (if j = i \<and> rr_owner_id r = Some ow \<and> is_running r
     then r\<lparr>rr_lease_expires_at := Some e\<rparr> else r)"
  "getRunRow i (snd (releaseRun j ow db)) = Some (if j = i \<and> rr_owner_id r = Some ow
     then r\<lparr>rr_owner_id := None, rr_lease_expires_at := None\<rparr> else r)"
proof -
  note i = getRunRow_in [OF assms]
  have a: "getRunRow i (on_runs (tbl_update P f) db) = Some (if P r then f r else r)" if "\<And>r. rr_id (f r) = rr_id r" for P f
    using getRunRow_update [of f, OF that] assms by simp
  show "getRunRow i (snd (setConversationHistory j h db)) = Some (if j = i then r\<lparr>rr_history := Some (history_json h)\<rparr> else r)"
    using i assms by (auto simp: setConversationHistory_def comp_simps update_runs_def a split: option.splits)
  show "getRunRow i (snd (complete_run env j out now db)) = Some (if j = i then complete_row out now r else r)"
    using i assms a [of "complete_row out now" "\<lambda>r. rr_id r = j"]
    by (auto simp: complete_run_def comp_simps update_runs_def delete_follow_ups_def get_run_def getRunRow_frame
        complete_row_def split: option.splits)
  show "\<exists>a c. getRunRow i (snd (setRunBudget j b db)) = Some (r\<lparr>rr_iterations_used := a, rr_active_elapsed_ms := c\<rparr>)"
    using i assms by (auto simp: setRunBudget_def update_runs_def a intro: same_row)
  show "\<exists>a c u. getRunRow i (snd (setParkedMcpTask j m p now db)) =
     Some (r\<lparr>rr_mcp_task_id := a, rr_mcp_poll_interval_ms := c, rr_updated_at := u\<rparr>)"
    using i assms by (auto simp: setParkedMcpTask_def update_runs_def a intro: same_row)
  show "\<exists>a c d u. getRunRow i (snd (clearParkedMcpTask j now db)) =
     Some (r\<lparr>rr_mcp_task_id := a, rr_mcp_poll_interval_ms := c, rr_next_poll_at := d, rr_updated_at := u\<rparr>)"
    using i assms by (auto simp: clearParkedMcpTask_def update_runs_def a intro: same_row)
  show "\<exists>a. getRunRow i (snd (setNextPollAt j t db)) = Some (r\<lparr>rr_next_poll_at := a\<rparr>)"
    using i assms by (auto simp: setNextPollAt_def update_runs_def a intro: same_row)
  show "getRunRow i (snd (drainParkedFollowUps env j db)) = Some r"
    using assms by (simp add: drainParkedFollowUps_def Let_def getRunRow_frame)
  show "getRunRow i (snd (claimRun j ow e now db)) = Some (if j = i \<and> is_running r \<and> lease_free now r
     then r\<lparr>rr_owner_id := Some ow, rr_lease_expires_at := Some e\<rparr> else r)"
    using i by (auto simp: claimRun_def comp_simps update_runs_def a)
  show "getRunRow i (snd (renewRunLease j ow e db)) = Some (if j = i \<and> rr_owner_id r = Some ow \<and> is_running r
     then r\<lparr>rr_lease_expires_at := Some e\<rparr> else r)"
    using i by (auto simp: renewRunLease_def update_runs_def a)
  show "getRunRow i (snd (releaseRun j ow db)) = Some (if j = i \<and> rr_owner_id r = Some ow
     then r\<lparr>rr_owner_id := None, rr_lease_expires_at := None\<rparr> else r)"
    using i by (auto simp: releaseRun_def update_runs_def a)
qed

lemma continuation_rows:
  assumes "getRunRow i db = Some r" "j \<noteq> i \<or> is_running r"
  shows "getRunRow i (snd (beginContinuation env j msg us now db)) = Some r"
proof -
  note ri = getRunRow_in [OF assms(1)]
  let ?P = "\<lambda>r. rr_id r = j \<and> rr_status r = RunCompleted"
  have a: "getRunRow i (on_runs (tbl_update ?P (continue_row h a b now)) db) = Some r" for h a b
    using assms ri by (subst getRunRow_update) (auto simp: continue_row_def is_running_def)
  have "getRunRow i (snd (continuation_write j h s b now db)) = Some r" for h s b
    using assms a by (auto simp: continuation_write_def comp_simps reopen_def update_runs_def insertStep_def getRunRow_frame
        split: option.splits sum.splits prod.splits if_splits)
  then show ?thesis
    using assms(1) by (simp add: beginContinuation_def split: sum.splits)
qed

section \<open>Leases\<close>

text \<open>
  Owner \<open>ow\<close> holds run \<open>i\<close> at least until \<open>e\<close>. \<open>honours\<close>: what workers do until then; only
  the owner completes or releases the run, and it renews for later than \<open>e\<close>.
\<close>

definition holds_lease :: "string \<Rightarrow> string \<Rightarrow> int \<Rightarrow> run_db \<Rightarrow> bool" where
  "holds_lease i ow e db = (case getRunRow i db of
     None \<Rightarrow> False
   | Some r \<Rightarrow> is_running r \<and> rr_owner_id r = Some ow \<and>
       (case rr_lease_expires_at r of None \<Rightarrow> False | Some t \<Rightarrow> e \<le> t))"

fun honours :: "string \<Rightarrow> string \<Rightarrow> int \<Rightarrow> run_op \<Rightarrow> bool" where
  "honours i ow e (OpComplete j _ _) \<longleftrightarrow> j \<noteq> i"
| "honours i ow e (OpRelease j ow') \<longleftrightarrow> j \<noteq> i \<or> ow' \<noteq> ow"
| "honours i ow e (OpRenew j ow' e') \<longleftrightarrow> j \<noteq> i \<or> ow' \<noteq> ow \<or> e \<le> e'"
| "honours i ow e (OpClaim j _ _ now) \<longleftrightarrow> j \<noteq> i \<or> now \<le> e"
| "honours i ow e _ \<longleftrightarrow> True"

lemma holds_leaseI: "getRunRow i db = Some r \<Longrightarrow> is_running r \<Longrightarrow> rr_owner_id r = Some ow \<Longrightarrow>
    rr_lease_expires_at r = Some t \<Longrightarrow> e \<le> t \<Longrightarrow> holds_lease i ow e db"
  by (simp add: holds_lease_def)

lemma holds_leaseE:
  assumes "holds_lease i ow e db"
  obtains r t where "getRunRow i db = Some r" "is_running r" "rr_owner_id r = Some ow"
    "rr_lease_expires_at r = Some t" "e \<le> t"
  using assms by (auto simp: holds_lease_def split: option.splits)

lemma lease_step:
  assumes "run_wf db" "holds_lease i ow e db" "honours i ow e x"
  shows "holds_lease i ow e (run_run_op env x db)"
proof -
  from assms(2) obtain r t where r: "getRunRow i db = Some r" "is_running r" "rr_owner_id r = Some ow"
    "rr_lease_expires_at r = Some t" "e \<le> t" by (rule holds_leaseE)
  note row = create_row [OF assms(1) r(1)] append_row [OF r(1)] enqueue_row [OF r(1)] plain_rows [OF r(1)]
    continuation_rows [OF r(1)]
  show ?thesis
  proof (cases x)
    case (OpCreate inp now)
    with row(1) [of env inp now] r show ?thesis by (simp add: holds_lease_def)
  next
    case (OpAppend j s now)
    with row(2) [of env j s now] r show ?thesis by (auto simp: holds_lease_def is_running_def)
  next
    case (OpEnqueue j m s u now)
    with row(3) [of j m s u now] r show ?thesis by (auto simp: holds_lease_def is_running_def)
  next
    case (OpComplete j out now)
    with row(4) [of env j out now] r assms(3) show ?thesis by (auto simp: holds_lease_def)
  next
    case (OpSetHistory j h)
    with row(5) [of j h] r show ?thesis by (auto simp: holds_lease_def is_running_def)
  next
    case (OpSetBudget j b)
    with row(6) [of j b] r show ?thesis by (auto simp: holds_lease_def is_running_def)
  next
    case (OpPark j m p now)
    with row(7) [of j m p now] r show ?thesis by (auto simp: holds_lease_def is_running_def)
  next
    case (OpUnpark j now)
    with row(8) [of j now] r show ?thesis by (auto simp: holds_lease_def is_running_def)
  next
    case (OpNextPoll j t)
    with row(9) [of j t] r show ?thesis by (auto simp: holds_lease_def is_running_def)
  next
    case (OpDrain j)
    with row(10) [of env j] r show ?thesis by (auto simp: holds_lease_def)
  next
    case (OpClaim j ow' e' now)
    with row(11) [of j ow' e' now] r assms(3) show ?thesis by (auto simp: holds_lease_def lease_free_def)
  next
    case (OpRenew j ow' e')
    with row(12) [of j ow' e'] r assms(3) show ?thesis by (auto simp: holds_lease_def is_running_def)
  next
    case (OpRelease j ow')
    with row(13) [of j ow'] r assms(3) show ?thesis by (auto simp: holds_lease_def)
  next
    case (OpContinue j m s now)
    with row(14) [of j env m s now] r show ?thesis by (auto simp: holds_lease_def)
  qed
qed

interpretation leases: kept "run_run_op env" "honours i ow e" "\<lambda>db. run_wf db \<and> holds_lease i ow e db" for env i ow e
  by unfold_locales (auto intro: run_run_op_wf lease_step)

lemma claim_holds:
  assumes "run_wf db" "fst (claimRun i ow e now db) = Inr True"
  shows "holds_lease i ow e (snd (claimRun i ow e now db))"
proof -
  obtain r where r: "r \<in> set (rd_runs db)" "rr_id r = i" "is_running r" "lease_free now r"
    using assms(2) by (auto simp: claimRun_def comp_simps update_runs_def tbl_count_pos)
  then have g: "getRunRow i db = Some r" using getRunRow_unique [OF assms(1) r(1)] by simp
  from plain_rows(8) [OF g, of i ow e now] r(3,4) show ?thesis by (simp add: holds_lease_def is_running_def)
qed



end
