(* ===== verification/Triples.thy ===== *)
theory Triples
  imports Prelude
begin

text \<open>
  Weakest preconditions of stateful computations. \<open>wp m Q E s\<close>: run from \<open>s\<close>, \<open>m\<close> returns
  into \<open>Q\<close> or throws into \<open>E\<close>. The equations in \<open>wp_simps\<close> compute it through the
  combinators; \<open>wp_mono\<close> puts the specification of a called operation in its place.
\<close>

definition wp :: "('s, 'e, 'a) comp \<Rightarrow> ('a \<Rightarrow> 's \<Rightarrow> bool) \<Rightarrow> ('e \<Rightarrow> 's \<Rightarrow> bool) \<Rightarrow> 's \<Rightarrow> bool" where
  "wp m Q E s = (case m s of (Inl e, s') \<Rightarrow> E e s' | (Inr x, s') \<Rightarrow> Q x s')"

named_theorems wp_simps "weakest preconditions of the combinators"

lemma wp_return [wp_simps]: "wp (returnM x) Q E = Q x"
  by (rule ext) (simp add: wp_def returnM_def)

lemma wp_throw [wp_simps]: "wp (throwM e) Q E = E e"
  by (rule ext) (simp add: wp_def throwM_def)

lemma wp_bind [wp_simps]: "wp (bindM m k) Q E = wp m (\<lambda>x. wp (k x) Q E) E"
  by (rule ext) (simp add: wp_def bindM_def split: prod.splits sum.splits)

lemma wp_catch [wp_simps]: "wp (catchM m h) Q E = wp m Q (\<lambda>e. wp (h e) Q E)"
  by (rule ext) (simp add: wp_def catchM_def split: prod.splits sum.splits)

lemma wp_mono:
  assumes "wp m Q E s" "\<And>x s. Q x s \<Longrightarrow> Q' x s" "\<And>e s. E e s \<Longrightarrow> E' e s"
  shows "wp m Q' E' s"
  using assms by (auto simp: wp_def split: prod.splits sum.splits)

text \<open>A computation that looks at the state to choose what to run.\<close>

lemma wp_at: "m s = m' s \<Longrightarrow> wp m' Q E s \<Longrightarrow> wp m Q E s"
  by (simp add: wp_def)

lemma wpI: "(\<And>x s'. m s = (Inr x, s') \<Longrightarrow> Q x s') \<Longrightarrow> (\<And>e s'. m s = (Inl e, s') \<Longrightarrow> E e s') \<Longrightarrow> wp m Q E s"
  by (auto simp: wp_def split: prod.splits sum.splits)

lemma wp_returnD: "wp m Q E s \<Longrightarrow> m s = (Inr x, s') \<Longrightarrow> Q x s'"
  by (simp add: wp_def)

lemma wp_throwD: "wp m Q E s \<Longrightarrow> m s = (Inl e, s') \<Longrightarrow> E e s'"
  by (simp add: wp_def)

lemma wp_conj: "wp m Q E s \<Longrightarrow> wp m Q' E' s \<Longrightarrow> wp m (\<lambda>x s. Q x s \<and> Q' x s) (\<lambda>e s. E e s \<and> E' e s) s"
  by (simp add: wp_def split: prod.splits sum.splits)

text \<open>\<open>try \<dots> finally f\<close> for an \<open>f\<close> that only changes the state.\<close>

definition finallyM :: "('s, 'e, 'a) comp \<Rightarrow> ('s \<Rightarrow> 's) \<Rightarrow> ('s, 'e, 'a) comp" where
  "finallyM m f s = (case m s of (r, s') \<Rightarrow> (r, f s'))"

lemma wp_finally [wp_simps]: "wp (finallyM m f) Q E = wp m (\<lambda>x s. Q x (f s)) (\<lambda>e s. E e (f s))"
  by (rule ext) (simp add: wp_def finallyM_def split: prod.splits sum.splits)

definition modifyM :: "('s \<Rightarrow> 's) \<Rightarrow> ('s, 'e, unit) comp" where
  "modifyM f s = (Inr (), f s)"

definition getsM :: "('s \<Rightarrow> 'a) \<Rightarrow> ('s, 'e, 'a) comp" where
  "getsM f s = (Inr (f s), s)"

lemma wp_modify [wp_simps]: "wp (modifyM f) Q E = (\<lambda>s. Q () (f s))"
  by (rule ext) (simp add: wp_def modifyM_def)

lemma wp_gets [wp_simps]: "wp (getsM f) Q E = (\<lambda>s. Q (f s) s)"
  by (rule ext) (simp add: wp_def getsM_def)

lemma wp_if [wp_simps]: "wp (if b then m else n) Q E = (if b then wp m Q E else wp n Q E)"
  by simp

end
