(* ===== verification/TaskLoop.thy ===== *)
theory TaskLoop
  imports Triples RunAttempt ToriiTypes
begin

text \<open>
  The agent loop, \<^verbatim>\<open>apps/shaiden/src/run/task-loop.ts\<close>, with \<^verbatim>\<open>pending-tool-calls.ts\<close>,
  \<^verbatim>\<open>step-assessment.ts\<close> and \<^verbatim>\<open>task-output.ts\<close> of the same directory. What the loop is given
  (the model, the dispatcher, the waiter, the callbacks, the clock and the stop signal) is a
  record of functions on a world \<open>'x\<close>; a \<open>Promise\<close> that rejects is a throw. The two loops that the
  code does not bound, the wait of a parked call and the iterations without a limit, run on fuel,
  and running out of it is the exception \<open>OutOfFuel\<close> that no \<open>catch\<close> of the code sees.
\<close>

section \<open>Assessments\<close>

datatype step_assessment_status = AssessGoalMet | AssessCannotComplete

record step_assessment =
  sa_status :: step_assessment_status
  sa_message :: string

definition parseStepAssessment :: "json option \<Rightarrow> step_assessment option" where
  "parseStepAssessment value =
    (case value of
       Some (JObj kvs) \<Rightarrow>
         (case (as_string (map_of kvs ''status''), as_string (map_of kvs ''message'')) of
            (Some st, Some m) \<Rightarrow>
              if st = ''goal_met'' then Some \<lparr>sa_status = AssessGoalMet, sa_message = m\<rparr>
              else if st = ''cannot_complete'' then Some \<lparr>sa_status = AssessCannotComplete, sa_message = m\<rparr>
              else None
          | _ \<Rightarrow> None)
     | _ \<Rightarrow> None)"

definition failed_outcome :: "string \<Rightarrow> failure_class \<Rightarrow> termination_outcome" where
  "failed_outcome reason c = \<lparr>to_status = RunFailed, to_reason = Some reason, to_failureClass = Some c\<rparr>"

definition plain_outcome :: "outcome_status \<Rightarrow> failure_class option \<Rightarrow> termination_outcome" where
  "plain_outcome st c = \<lparr>to_status = st, to_reason = None, to_failureClass = c\<rparr>"

definition mapTerminalAssessmentToOutcome :: "step_assessment option \<Rightarrow> termination_outcome" where
  "mapTerminalAssessmentToOutcome assessment =
    (case assessment of
       None \<Rightarrow> failed_outcome ''model returned no step assessment'' FAgent
     | Some a \<Rightarrow>
        (case sa_status a of
           AssessGoalMet \<Rightarrow> plain_outcome GoalMet None
         | AssessCannotComplete \<Rightarrow>
             (let reason = trim (sa_message a) in
              failed_outcome (if length reason > 0 then reason else ''agent reported cannot complete'') FAgent)))"

definition resolveModelStepAssessment ::
    "step_assessment option \<Rightarrow> json list \<Rightarrow> string \<Rightarrow> json list \<Rightarrow> step_assessment option" where
  "resolveModelStepAssessment assessment toriiToolCalls fallbackText continuingToolCalls =
    (if toriiToolCalls \<noteq> [] then None
     else case assessment of
       Some a \<Rightarrow> Some a
     | None \<Rightarrow>
        if continuingToolCalls \<noteq> [] then None
        else (let message = trim fallbackText in
              if length message > 0 then Some \<lparr>sa_status = AssessCannotComplete, sa_message = message\<rparr> else None))"

section \<open>Tool calls\<close>

definition report_task_output_tool :: string where
  "report_task_output_tool = ''report_task_output''"

definition execute_python_tool :: string where
  "execute_python_tool = ''execute_python''"

definition isHarnessLocalTool :: "string \<Rightarrow> bool" where
  "isHarnessLocalTool toolName \<longleftrightarrow> toolName = report_task_output_tool \<or> toolName = execute_python_tool"

text \<open>A \<open>ModelToolCall\<close> is kept as the object it is stored as; \<open>isModelToolCall\<close> says it has all fields.\<close>

definition call_id :: "json \<Rightarrow> string" where
  "call_id c = or_else (as_string (prop_of ''toolCallId'' c)) []"

definition call_tool :: "json \<Rightarrow> string" where
  "call_tool c = or_else (as_string (prop_of ''toolName'' c)) []"

fun answer_of :: "conversation_entry \<Rightarrow> string option" where
  "answer_of (ToolEntry i _ _ _) = Some i"
| "answer_of _ = None"

fun calls_of :: "conversation_entry \<Rightarrow> json list option" where
  "calls_of (AssistantEntry _ calls) = Some calls"
| "calls_of _ = None"

definition answered_ids :: "conversation_entry list \<Rightarrow> string set" where
  "answered_ids history = set (List.map_filter answer_of history)"

fun latest_calls :: "conversation_entry list \<Rightarrow> json list" where
  "latest_calls [] = []"
| "latest_calls (e # es) = (case calls_of e of Some calls \<Rightarrow> calls | None \<Rightarrow> latest_calls es)"

definition findUnansweredToolCalls :: "conversation_entry list \<Rightarrow> json list" where
  "findUnansweredToolCalls history =
    filter (\<lambda>c. call_id c \<notin> answered_ids history) (latest_calls (rev history))"

definition run_stopped_tool_output :: string where
  "run_stopped_tool_output = ''cancelled: run stopped''"

definition stopped_result :: "json \<Rightarrow> conversation_entry" where
  "stopped_result c = ToolEntry (call_id c) (call_tool c) run_stopped_tool_output True"

definition closeUnansweredToolCalls :: "conversation_entry list \<Rightarrow> conversation_entry list" where
  "closeUnansweredToolCalls history = history @ map stopped_result (findUnansweredToolCalls history)"

record approval_ref =
  aq_approvalId :: string
  aq_stepId :: "string option"
  aq_pollIntervalMs :: "int option"

record tool_dispatch_result =
  td_isError :: bool
  td_text :: string
  td_approvalRequired :: "approval_ref option"
  td_approvalDenied :: bool
  td_policyDenied :: bool
  td_meta :: "torii_call_meta option"
  td_hibernated :: bool

record model_step =
  mo_text :: string
  mo_toolCalls :: "json list"
  mo_assessment :: "step_assessment option"
  mo_usage :: model_usage

record approval_wait_context =
  wc_stepId :: "string option"
  wc_pollIntervalMs :: "int option"
  wc_call :: "json option"
  wc_hibernate :: bool

section \<open>The loop and what it is given\<close>

text \<open>Thrown values: the classes that some caller tells apart, and any other with its message.\<close>

datatype run_error =
    RunLeaseLost string
  | RunNotClaimed string
  | TaskCancelled string
  | PolicyDenied string "torii_call_meta option"
  | TaskAlreadyRunning string
  | TokenExchangeError string string
  | McpJsonRpcError int string "json option"
  | OtherError string

fun describeError :: "run_error \<Rightarrow> string" where
  "describeError (RunLeaseLost runId) = ''lost run lease for '' @ runId"
| "describeError (RunNotClaimed runId) = ''run '' @ runId @ '' is already claimed by another replica''"
| "describeError (TaskCancelled m) = m"
| "describeError (PolicyDenied m _) = m"
| "describeError (TaskAlreadyRunning _) = ''this task already has a running run''"
| "describeError (McpJsonRpcError _ m _) = m"
| "describeError (TokenExchangeError _ m) = m"
| "describeError (OtherError m) = m"

record 'x loop_deps =
  dp_callModel :: "conversation_entry list \<Rightarrow> ('x, run_error, model_step) comp"
  dp_dispatchToolCall :: "json \<Rightarrow> ('x, run_error, tool_dispatch_result) comp"
  dp_waitForApproval :: "(string \<Rightarrow> approval_wait_context \<Rightarrow> ('x, run_error, tool_dispatch_result) comp) option"
  dp_now :: "'x \<Rightarrow> int"
  dp_drain :: "('x, run_error, conversation_entry list) comp option"
  dp_onHistoryChanged :: "(conversation_entry list \<Rightarrow> ('x, run_error, unit) comp) option"
  dp_onBudgetChanged :: "(live_budget \<Rightarrow> ('x, run_error, unit) comp) option"
  dp_stopped :: "'x \<Rightarrow> bool"

record loop_start =
  ls_initialHistory :: "conversation_entry list"
  ls_limits :: task_limits
  ls_budget :: "live_budget option"
  ls_resumeParkedApproval :: "string option"

record 'x loop_state =
  lp_history :: "conversation_entry list"
  lp_iterationsUsed :: int
  lp_activeElapsedMs :: int
  lp_segmentStartedAt :: int
  lp_clockPaused :: bool
  lp_world :: 'x

datatype loop_outcome = LoopEnded termination_outcome | LoopParked

record task_loop_result =
  lr_outcome :: loop_outcome
  lr_history :: "conversation_entry list"
  lr_iterations :: int

datatype loop_exn = Thrown run_error | OutOfFuel

type_synonym ('x, 'a) loop_comp = "('x loop_state, loop_exn, 'a) comp"

definition outside :: "('x, run_error, 'a) comp \<Rightarrow> ('x, 'a) loop_comp" where
  "outside m s = (case m (lp_world s) of
     (Inl e, w) \<Rightarrow> (Inl (Thrown e), s\<lparr>lp_world := w\<rparr>) | (Inr x, w) \<Rightarrow> (Inr x, s\<lparr>lp_world := w\<rparr>))"

definition catch_thrown ::
    "('s, loop_exn, 'a) comp \<Rightarrow> (run_error \<Rightarrow> ('s, loop_exn, 'a) comp) \<Rightarrow> ('s, loop_exn, 'a) comp" where
  "catch_thrown m h = catchM m (\<lambda>e. case e of Thrown err \<Rightarrow> h err | OutOfFuel \<Rightarrow> throwM OutOfFuel)"

definition nowL :: "'x loop_deps \<Rightarrow> 'x loop_state \<Rightarrow> int" where
  "nowL deps s = dp_now deps (lp_world s)"

definition currentActiveElapsed :: "'x loop_deps \<Rightarrow> 'x loop_state \<Rightarrow> int" where
  "currentActiveElapsed deps s =
    (if lp_clockPaused s then lp_activeElapsedMs s
     else lp_activeElapsedMs s + max 0 (nowL deps s - lp_segmentStartedAt s))"

definition budgetSnapshot :: "'x loop_deps \<Rightarrow> 'x loop_state \<Rightarrow> live_budget" where
  "budgetSnapshot deps s =
    \<lparr>lb_iterationsUsed = lp_iterationsUsed s, lb_activeElapsedMs = max 0 (currentActiveElapsed deps s)\<rparr>"

definition pauseActiveClock :: "'x loop_deps \<Rightarrow> 'x loop_state \<Rightarrow> 'x loop_state" where
  "pauseActiveClock deps s =
    (if lp_clockPaused s then s
     else s\<lparr>lp_activeElapsedMs := lb_activeElapsedMs (budgetSnapshot deps s), lp_clockPaused := True\<rparr>)"

definition resumeActiveClock :: "'x loop_deps \<Rightarrow> 'x loop_state \<Rightarrow> 'x loop_state" where
  "resumeActiveClock deps s =
    (if \<not> lp_clockPaused s then s
     else s\<lparr>lp_segmentStartedAt := nowL deps s, lp_clockPaused := False\<rparr>)"

definition save_budget :: "'x loop_deps \<Rightarrow> ('x, unit) loop_comp" where
  "save_budget deps s =
    (case dp_onBudgetChanged deps of
       None \<Rightarrow> (Inr (), s) | Some f \<Rightarrow> outside (f (budgetSnapshot deps s)) s)"

definition checkpoint :: "'x loop_deps \<Rightarrow> ('x, unit) loop_comp" where
  "checkpoint deps =
    bindM (\<lambda>s. case dp_onHistoryChanged deps of
             None \<Rightarrow> (Inr (), s) | Some f \<Rightarrow> outside (f (lp_history s)) s) (\<lambda>_.
    save_budget deps)"

definition push :: "conversation_entry \<Rightarrow> 'x loop_state \<Rightarrow> 'x loop_state" where
  "push e s = s\<lparr>lp_history := lp_history s @ [e]\<rparr>"

definition drainPendingUserMessages :: "'x loop_deps \<Rightarrow> bool \<Rightarrow> ('x, unit) loop_comp" where
  "drainPendingUserMessages deps resetBudget =
    (case dp_drain deps of
       None \<Rightarrow> returnM ()
     | Some drain \<Rightarrow>
        bindM (outside drain) (\<lambda>pending.
        if pending = [] then returnM ()
        else
          bindM (modifyM (\<lambda>s. if resetBudget
              then s\<lparr>lp_iterationsUsed := 0, lp_activeElapsedMs := 0, lp_segmentStartedAt := nowL deps s,
                     lp_clockPaused := False\<rparr> else s)) (\<lambda>_.
          bindM (modifyM (\<lambda>s. s\<lparr>lp_history := lp_history s @ pending\<rparr>)) (\<lambda>_.
          checkpoint deps))))"

definition pushToolErrorResult :: "'x loop_deps \<Rightarrow> json \<Rightarrow> run_error \<Rightarrow> ('x, unit) loop_comp" where
  "pushToolErrorResult deps call e =
    bindM (modifyM (push (ToolEntry (call_id call) (call_tool call) (describeError e) True))) (\<lambda>_.
    checkpoint deps)"

definition stopRequested :: "'x loop_deps \<Rightarrow> 'x loop_state \<Rightarrow> bool" where
  "stopRequested deps s = dp_stopped deps (lp_world s)"

definition terminate :: "'x loop_deps \<Rightarrow> termination_outcome \<Rightarrow> int \<Rightarrow> ('x, task_loop_result) loop_comp" where
  "terminate deps outcome iterations =
    bindM (drainPendingUserMessages deps False) (\<lambda>_.
    bindM (save_budget deps) (\<lambda>_.
    getsM (\<lambda>s. \<lparr>lr_outcome = LoopEnded outcome, lr_history = lp_history s, lr_iterations = iterations\<rparr>)))"

definition stopNow :: "'x loop_deps \<Rightarrow> int \<Rightarrow> ('x, task_loop_result) loop_comp" where
  "stopNow deps iterations =
    bindM (modifyM (\<lambda>s. s\<lparr>lp_history := closeUnansweredToolCalls (lp_history s)\<rparr>)) (\<lambda>_.
    bindM (checkpoint deps) (\<lambda>_.
    terminate deps (plain_outcome Stopped None) iterations))"

definition waitForParkedResult ::
    "'x loop_deps \<Rightarrow> json \<Rightarrow> string \<Rightarrow> string option \<Rightarrow> int option \<Rightarrow> bool \<Rightarrow> ('x, tool_dispatch_result) loop_comp" where
  "waitForParkedResult deps call approvalId stepId pollIntervalMs hibernate =
    (case dp_waitForApproval deps of
       None \<Rightarrow> throwM (Thrown (OtherError
         (''tool call \"'' @ call_tool call @ ''\" requires approval but no waiter is configured'')))
     | Some wait \<Rightarrow>
        bindM (modifyM (pauseActiveClock deps)) (\<lambda>_.
        finallyM
          (bindM (checkpoint deps) (\<lambda>_.
           bindM (outside (wait approvalId
             \<lparr>wc_stepId = stepId, wc_pollIntervalMs = pollIntervalMs, wc_call = Some call, wc_hibernate = hibernate\<rparr>)) (\<lambda>result.
           if td_policyDenied result
           then throwM (Thrown (OtherError (''policy denied after approval resume: '' @ td_text result)))
           else returnM result)))
          (resumeActiveClock deps)))"

fun wait_loop :: "'x loop_deps \<Rightarrow> nat \<Rightarrow> json \<Rightarrow> tool_dispatch_result \<Rightarrow> ('x, tool_dispatch_result) loop_comp" where
  "wait_loop deps fuel call result =
    (case td_approvalRequired result of
       None \<Rightarrow> returnM result
     | Some a \<Rightarrow>
        bindM (getsM (stopRequested deps)) (\<lambda>stop.
        if stop then returnM result
        else (case fuel of
           0 \<Rightarrow> throwM OutOfFuel
         | Suc fuel' \<Rightarrow>
            bindM (waitForParkedResult deps call (aq_approvalId a) (aq_stepId a) (aq_pollIntervalMs a) True) (\<lambda>r.
            if td_hibernated r then returnM r else wait_loop deps fuel' call r))))"

declare wait_loop.simps [simp del]

definition resolveToolResult :: "'x loop_deps \<Rightarrow> nat \<Rightarrow> json \<Rightarrow> ('x, tool_dispatch_result) loop_comp" where
  "resolveToolResult deps fuel call =
    bindM (outside (dp_dispatchToolCall deps call)) (\<lambda>result. wait_loop deps fuel call result)"

definition appendToolResult :: "'x loop_deps \<Rightarrow> json \<Rightarrow> tool_dispatch_result \<Rightarrow> ('x, unit) loop_comp" where
  "appendToolResult deps call result =
    bindM (modifyM (push (ToolEntry (call_id call) (call_tool call) (td_text result) (td_isError result)))) (\<lambda>_.
    checkpoint deps)"

definition call_failed_outcome :: "json \<Rightarrow> run_error \<Rightarrow> termination_outcome" where
  "call_failed_outcome call e =
    failed_outcome (''tool call \"'' @ call_tool call @ ''\" failed: '' @ describeError e) FPlatform"

definition somehow :: "('x, 'a) loop_comp \<Rightarrow> ('x, 'a option) loop_comp" where
  "somehow m = bindM m (\<lambda>x. returnM (Some x))"

text \<open>\<open>Some r\<close>: the loop is over with result \<open>r\<close>.\<close>

definition dispatchCall :: "'x loop_deps \<Rightarrow> nat \<Rightarrow> json \<Rightarrow> int \<Rightarrow> ('x, task_loop_result option) loop_comp" where
  "dispatchCall deps fuel call iterations =
    bindM (catch_thrown (bindM (resolveToolResult deps fuel call) (\<lambda>r. returnM (Inr r)))
             (\<lambda>e. bindM (getsM (stopRequested deps)) (\<lambda>stop.
                if stop then bindM (stopNow deps iterations) (\<lambda>r. returnM (Inl r))
                else bindM (pushToolErrorResult deps call e) (\<lambda>_.
                     bindM (terminate deps (call_failed_outcome call e) iterations) (\<lambda>r. returnM (Inl r))))))
      (\<lambda>x. case x of
         Inl r \<Rightarrow> returnM (Some r)
       | Inr result \<Rightarrow>
          if td_hibernated result
          then getsM (\<lambda>s. Some \<lparr>lr_outcome = LoopParked, lr_history = lp_history s, lr_iterations = iterations\<rparr>)
          else bindM (getsM (stopRequested deps)) (\<lambda>stop.
               if stop then somehow (stopNow deps iterations)
               else bindM (appendToolResult deps call result) (\<lambda>_.
                    if td_approvalDenied result
                    then somehow (terminate deps (plain_outcome HumanReject (Some FHuman)) iterations)
                    else returnM None)))"

text \<open>The calls after the parked one of a resumed turn, and the calls of a turn.\<close>

fun dispatch_rest :: "'x loop_deps \<Rightarrow> nat \<Rightarrow> json list \<Rightarrow> int \<Rightarrow> ('x, task_loop_result option) loop_comp" where
  "dispatch_rest deps fuel [] iterations = returnM None"
| "dispatch_rest deps fuel (call # calls) iterations =
    bindM (dispatchCall deps fuel call iterations) (\<lambda>failed.
    case failed of Some r \<Rightarrow> returnM (Some r) | None \<Rightarrow> dispatch_rest deps fuel calls iterations)"

fun dispatch_turn :: "'x loop_deps \<Rightarrow> nat \<Rightarrow> json list \<Rightarrow> int \<Rightarrow> ('x, task_loop_result option) loop_comp" where
  "dispatch_turn deps fuel [] iterations = returnM None"
| "dispatch_turn deps fuel (call # calls) iterations =
    bindM (getsM (stopRequested deps)) (\<lambda>stop.
    if stop then somehow (stopNow deps iterations)
    else bindM (dispatchCall deps fuel call iterations) (\<lambda>failed.
         case failed of Some r \<Rightarrow> returnM (Some r) | None \<Rightarrow> dispatch_turn deps fuel calls iterations))"

definition no_pending_call :: "string \<Rightarrow> termination_outcome" where
  "no_pending_call approvalId =
    failed_outcome (''parked MCP task '' @ approvalId @ '' has no pending tool call in history'') FPlatform"

definition resumeParked :: "'x loop_deps \<Rightarrow> nat \<Rightarrow> string \<Rightarrow> ('x, task_loop_result option) loop_comp" where
  "resumeParked deps fuel approvalId =
    bindM (getsM (\<lambda>s. (findUnansweredToolCalls (lp_history s), lp_iterationsUsed s))) (\<lambda>(unanswered, used).
    case unanswered of
      [] \<Rightarrow> somehow (terminate deps (no_pending_call approvalId) used)
    | parkedCall # others \<Rightarrow>
        bindM (catch_thrown
            (bindM (waitForParkedResult deps parkedCall approvalId None None False) (\<lambda>r. returnM (Inr r)))
            (\<lambda>e. bindM (pushToolErrorResult deps parkedCall e) (\<lambda>_.
                 bindM (terminate deps (call_failed_outcome parkedCall e) used) (\<lambda>r. returnM (Inl r)))))
          (\<lambda>x. case x of
             Inl r \<Rightarrow> returnM (Some r)
           | Inr parkedResult \<Rightarrow>
              bindM (appendToolResult deps parkedCall parkedResult) (\<lambda>_.
              if td_approvalDenied parkedResult
              then somehow (terminate deps (plain_outcome HumanReject (Some FHuman)) used)
              else dispatch_rest deps fuel others used)))"

definition timed_out :: "'x loop_deps \<Rightarrow> int option \<Rightarrow> 'x loop_state \<Rightarrow> bool" where
  "timed_out deps timeoutMs s =
    (case timeoutMs of None \<Rightarrow> False | Some ms \<Rightarrow> ms \<le> currentActiveElapsed deps s)"

definition within_limit :: "int option \<Rightarrow> int \<Rightarrow> bool" where
  "within_limit maxIterations iteration = (case maxIterations of None \<Rightarrow> True | Some n \<Rightarrow> iteration \<le> n)"

text \<open>What happens with the answer of the model: the result of the run, or none to go on.\<close>

definition take_step :: "'x loop_deps \<Rightarrow> nat \<Rightarrow> model_step \<Rightarrow> int \<Rightarrow> ('x, task_loop_result option) loop_comp" where
  "take_step deps fuel step iteration =
    bindM (modifyM (\<lambda>s. push (AssistantEntry (mo_text step) (mo_toolCalls step)) (s\<lparr>lp_iterationsUsed := iteration\<rparr>))) (\<lambda>_.
    bindM (checkpoint deps) (\<lambda>_.
    bindM (getsM (stopRequested deps)) (\<lambda>stop.
    if stop then somehow (stopNow deps iteration)
    else if mo_toolCalls step = []
    then somehow (terminate deps (mapTerminalAssessmentToOutcome (mo_assessment step)) iteration)
    else bindM (dispatch_turn deps fuel (mo_toolCalls step) iteration) (\<lambda>failed.
      case failed of
        Some r \<Rightarrow> returnM (Some r)
      | None \<Rightarrow>
         if mo_assessment step \<noteq> None \<and> list_all (\<lambda>c. isHarnessLocalTool (call_tool c)) (mo_toolCalls step)
         then somehow (terminate deps (mapTerminalAssessmentToOutcome (mo_assessment step)) iteration)
         else bindM (checkpoint deps) (\<lambda>_. returnM None)))))"

definition model_failed :: "run_error \<Rightarrow> termination_outcome" where
  "model_failed e = failed_outcome (''model call failed: '' @ describeError e) FPlatform"

definition ask_model :: "'x loop_deps \<Rightarrow> int \<Rightarrow> ('x, task_loop_result + model_step) loop_comp" where
  "ask_model deps iteration =
    catch_thrown
      (bindM (\<lambda>s. outside (dp_callModel deps (lp_history s)) s) (\<lambda>step. returnM (Inr step)))
      (\<lambda>e. bindM (modifyM (\<lambda>s. s\<lparr>lp_iterationsUsed := iteration\<rparr>)) (\<lambda>_.
           bindM (terminate deps (model_failed e) iteration) (\<lambda>r. returnM (Inl r))))"

fun iterate :: "'x loop_deps \<Rightarrow> int option \<Rightarrow> int option \<Rightarrow> nat \<Rightarrow> nat \<Rightarrow> int \<Rightarrow> ('x, task_loop_result) loop_comp" where
  "iterate deps timeoutMs maxIterations calls fuel iteration s =
    (if \<not> within_limit maxIterations iteration
     then terminate deps (plain_outcome IterationExhausted (Some FLimit)) (lp_iterationsUsed s) s
     else (case fuel of
       0 \<Rightarrow> throwM OutOfFuel s
     | Suc fuel' \<Rightarrow>
        if timed_out deps timeoutMs s
        then terminate deps (plain_outcome TimedOut (Some FLimit)) (lp_iterationsUsed s) s
        else if stopRequested deps s then stopNow deps (lp_iterationsUsed s) s
        else bindM (drainPendingUserMessages deps False) (\<lambda>_.
             bindM (ask_model deps iteration) (\<lambda>answer.
             case answer of
               Inl r \<Rightarrow> returnM r
             | Inr step \<Rightarrow>
                bindM (take_step deps calls step iteration) (\<lambda>over.
                case over of
                  Some r \<Rightarrow> returnM r
                | None \<Rightarrow> iterate deps timeoutMs maxIterations calls fuel' (iteration + 1)))) s))"

declare iterate.simps [simp del]

lemma iterate_over: "\<not> within_limit maxI iteration \<Longrightarrow> iterate deps tm maxI calls fuel iteration s =
    terminate deps (plain_outcome IterationExhausted (Some FLimit)) (lp_iterationsUsed s) s"
  by (subst iterate.simps) simp

lemma iterate_no_fuel: "within_limit maxI iteration \<Longrightarrow> iterate deps tm maxI calls 0 iteration s = throwM OutOfFuel s"
  by (subst iterate.simps) simp

lemma iterate_timeout: "within_limit maxI iteration \<Longrightarrow> timed_out deps tm s \<Longrightarrow> iterate deps tm maxI calls (Suc fuel) iteration s =
    terminate deps (plain_outcome TimedOut (Some FLimit)) (lp_iterationsUsed s) s"
  by (subst iterate.simps) simp

lemma iterate_stop: "within_limit maxI iteration \<Longrightarrow> \<not> timed_out deps tm s \<Longrightarrow> stopRequested deps s \<Longrightarrow>
    iterate deps tm maxI calls (Suc fuel) iteration s = stopNow deps (lp_iterationsUsed s) s"
  by (subst iterate.simps) simp

lemma iterate_ask: "within_limit maxI iteration \<Longrightarrow> \<not> timed_out deps tm s \<Longrightarrow> \<not> stopRequested deps s \<Longrightarrow>
    iterate deps tm maxI calls (Suc fuel) iteration s =
    bindM (drainPendingUserMessages deps False) (\<lambda>_. bindM (ask_model deps iteration) (\<lambda>answer. case answer of Inl r \<Rightarrow> returnM r
        | Inr step \<Rightarrow> bindM (take_step deps calls step iteration) (\<lambda>over. case over of Some r \<Rightarrow> returnM r
            | None \<Rightarrow> iterate deps tm maxI calls fuel (iteration + 1)))) s"
  by (subst iterate.simps) simp

definition initial_state :: "'x loop_deps \<Rightarrow> loop_start \<Rightarrow> 'x \<Rightarrow> 'x loop_state" where
  "initial_state deps start w =
    \<lparr>lp_history = ls_initialHistory start,
     lp_iterationsUsed = (case ls_budget start of None \<Rightarrow> 0 | Some b \<Rightarrow> lb_iterationsUsed b),
     lp_activeElapsedMs = (case ls_budget start of None \<Rightarrow> 0 | Some b \<Rightarrow> lb_activeElapsedMs b),
     lp_segmentStartedAt = dp_now deps w, lp_clockPaused = False, lp_world = w\<rparr>"

text \<open>\<open>calls\<close> bounds the waits of one tool call, \<open>fuel\<close> the iterations.\<close>

definition run_loop :: "nat \<Rightarrow> nat \<Rightarrow> loop_start \<Rightarrow> 'x loop_deps \<Rightarrow> ('x, task_loop_result) loop_comp" where
  "run_loop calls fuel start deps =
    bindM (case ls_resumeParkedApproval start of
             None \<Rightarrow> returnM None | Some approvalId \<Rightarrow> resumeParked deps calls approvalId) (\<lambda>over.
    case over of
      Some r \<Rightarrow> returnM r
    | None \<Rightarrow>
       bindM (drainPendingUserMessages deps True) (\<lambda>_.
       bindM (getsM lp_iterationsUsed) (\<lambda>used.
       iterate deps (map_option (\<lambda>sec. sec * 1000) (tl_timeout_seconds (ls_limits start)))
         (tl_max_iterations (ls_limits start)) calls fuel (used + 1))))"

definition runTaskLoop ::
    "nat \<Rightarrow> nat \<Rightarrow> loop_start \<Rightarrow> 'x loop_deps \<Rightarrow> ('x, loop_exn, task_loop_result) comp" where
  "runTaskLoop calls fuel start deps w =
    (case run_loop calls fuel start deps (initial_state deps start w) of (r, s) \<Rightarrow> (r, lp_world s))"

end
