(* ===== verification/RunStore.thy ===== *)
theory RunStore
  imports RunHistory TaskLoop
begin

text \<open>
  What one process of the agent runtime holds and shares: the run store of
  \<^verbatim>\<open>apps/shaiden/src/runs/run-store.ts\<close>, which writes to the repository and fans every change out to
  the listeners of this process, and the stop controller of
  \<^verbatim>\<open>apps/shaiden/src/run/run-stop-controller.ts\<close>. \<open>sw_db\<close> is shared with the other processes, the
  other fields are of this process. \<open>sw_events\<close> are the reports handed to the listeners, oldest
  first; \<open>sw_lost\<close> are the runs whose heartbeat has found the lease lost; \<open>sw_outside\<close> is the rest
  of the world (the model, the gateway, the sandbox, the clock).
\<close>

section \<open>The process\<close>

record stop_controller =
  sc_requested :: "string list"
  sc_controllers :: "(string \<times> bool) list"

record 'y run_world =
  sw_db :: run_db
  sw_seen :: "(string \<times> int) list"
  sw_ready :: bool
  sw_events :: "run_report list"
  sw_stop :: stop_controller
  sw_lost :: "string list"
  sw_outside :: 'y

type_synonym ('y, 'a) world_comp = "('y run_world, run_error, 'a) comp"

definition db_error :: "run_exn \<Rightarrow> run_error" where
  "db_error e = (case e of
     TaskAlreadyRunningError taskId \<Rightarrow> TaskAlreadyRunning taskId | RunPg p \<Rightarrow> OtherError (exn_message p))"

definition on_db :: "'a run_comp \<Rightarrow> ('y, 'a) world_comp" where
  "on_db m w = (case m (sw_db w) of
     (Inl e, db) \<Rightarrow> (Inl (db_error e), w\<lparr>sw_db := db\<rparr>) | (Inr x, db) \<Rightarrow> (Inr x, w\<lparr>sw_db := db\<rparr>))"

section \<open>The run store\<close>

definition notifyUpdated :: "run_env \<Rightarrow> string \<Rightarrow> ('y, unit) world_comp" where
  "notifyUpdated env runId =
    bindM (on_db (get_run env runId)) (\<lambda>run.
    case run of None \<Rightarrow> returnM () | Some r \<Rightarrow> modifyM (\<lambda>w. w\<lparr>sw_events := sw_events w @ [r]\<rparr>))"

definition see_watermark :: "run_env \<Rightarrow> bool \<Rightarrow> string \<times> int \<Rightarrow> 'y run_world \<Rightarrow> 'y run_world" where
  "see_watermark env isFirst row w =
    (if map_of (sw_seen w) (fst row) = Some (snd row) then w
     else (let w' = w\<lparr>sw_seen := map_put (fst row) (snd row) (sw_seen w)\<rparr> in
           if isFirst then w' else snd (notifyUpdated env (fst row) w')))"

definition pollRemoteUpdates :: "run_env \<Rightarrow> ('y, unit) world_comp" where
  "pollRemoteUpdates env w =
    (let watermarks = listRunWatermarks (sw_db w); isFirst = \<not> sw_ready w in
     (Inr (), (fold (see_watermark env isFirst) watermarks w)\<lparr>sw_ready := True\<rparr>))"

definition projectRunListItem :: "run_report \<Rightarrow> run_list_item" where
  "projectRunListItem run = (run_list_item.truncate run)\<lparr>ri_stepCount := int (length (rp_steps run))\<rparr>"

definition store_createRun :: "run_env \<Rightarrow> create_run_request \<Rightarrow> int \<Rightarrow> ('y, run_list_item) world_comp" where
  "store_createRun env inp now =
    bindM (on_db (create_run env inp now)) (\<lambda>run.
    bindM (notifyUpdated env (ri_id run)) (\<lambda>_.
    returnM (projectRunListItem run)))"

definition notify_if :: "run_env \<Rightarrow> string \<Rightarrow> bool \<Rightarrow> ('y, unit) world_comp" where
  "notify_if env runId changed = (if changed then notifyUpdated env runId else returnM ())"

text \<open>\<open>uuid\<close> is what \<open>randomUUID\<close> of \<open>createRunStep\<close> gives; it is used when the step has no id.\<close>

definition store_appendStep ::
    "run_env \<Rightarrow> string \<Rightarrow> string \<Rightarrow> string option \<Rightarrow> int \<Rightarrow> step_body \<Rightarrow> ('y, run_report option) world_comp" where
  "store_appendStep env uuid runId i now body =
    bindM (on_db (appendStep env runId (createRunStep uuid i now body) now)) (\<lambda>run.
    bindM (notify_if env runId (run \<noteq> None)) (\<lambda>_. returnM run))"

definition store_completeRun ::
    "run_env \<Rightarrow> string \<Rightarrow> termination_outcome \<Rightarrow> int \<Rightarrow> ('y, run_report option) world_comp" where
  "store_completeRun env runId outcome now =
    bindM (on_db (complete_run env runId outcome now)) (\<lambda>run.
    bindM (notify_if env runId (run \<noteq> None)) (\<lambda>_. returnM run))"

definition store_enqueueParkedFollowUp ::
    "run_env \<Rightarrow> string \<Rightarrow> string \<Rightarrow> run_step \<Rightarrow> string \<Rightarrow> int \<Rightarrow> ('y, bool) world_comp" where
  "store_enqueueParkedFollowUp env runId message userMessageStep uuid now =
    bindM (on_db (enqueueParkedFollowUp runId message userMessageStep uuid now)) (\<lambda>queued.
    bindM (notify_if env runId queued) (\<lambda>_. returnM queued))"

definition store_beginContinuation ::
    "run_env \<Rightarrow> string \<Rightarrow> string option \<Rightarrow> run_step option \<Rightarrow> int \<Rightarrow>
     ('y, continuation_failure + conversation_entry list) world_comp" where
  "store_beginContinuation env runId message userMessageStep now =
    bindM (on_db (beginContinuation env runId message userMessageStep now)) (\<lambda>result.
    bindM (notify_if env runId (is_ok result)) (\<lambda>_. returnM result))"

section \<open>The stop controller\<close>

definition attach :: "string \<Rightarrow> stop_controller \<Rightarrow> stop_controller" where
  "attach runId c =
    (case map_of (sc_controllers c) runId of
       Some _ \<Rightarrow> c
     | None \<Rightarrow> c\<lparr>sc_controllers := map_put runId (runId \<in> set (sc_requested c)) (sc_controllers c)\<rparr>)"

definition requestStop :: "string \<Rightarrow> stop_controller \<Rightarrow> stop_controller" where
  "requestStop runId c =
    c\<lparr>sc_requested := set_add runId (sc_requested c),
      sc_controllers := (case map_of (sc_controllers c) runId of
        None \<Rightarrow> sc_controllers c | Some _ \<Rightarrow> map_put runId True (sc_controllers c))\<rparr>"

definition isStopRequested :: "string \<Rightarrow> stop_controller \<Rightarrow> bool" where
  "isStopRequested runId c \<longleftrightarrow> runId \<in> set (sc_requested c)"

definition release :: "string \<Rightarrow> stop_controller \<Rightarrow> stop_controller" where
  "release runId c =
    c\<lparr>sc_controllers := map_del runId (sc_controllers c), sc_requested := filter (\<lambda>r. r \<noteq> runId) (sc_requested c)\<rparr>"

text \<open>\<open>signal.aborted\<close> of the signal that \<open>attach\<close> returned.\<close>

definition aborted :: "string \<Rightarrow> stop_controller \<Rightarrow> bool" where
  "aborted runId c \<longleftrightarrow> map_of (sc_controllers c) runId = Some True"

section \<open>Leases\<close>

definition default_run_lease_ms :: int where
  "default_run_lease_ms = 15000"

definition leaseExpiresAt :: "int \<Rightarrow> int \<Rightarrow> int" where
  "leaseExpiresAt nowMs ttlMs = nowMs + ttlMs"

text \<open>One tick of the heartbeat of a run, every third of the lease: \<open>onLost\<close> is called once.\<close>

definition heartbeat_tick :: "string \<Rightarrow> string \<Rightarrow> int \<Rightarrow> int \<Rightarrow> 'y run_world \<Rightarrow> 'y run_world" where
  "heartbeat_tick runId replicaId leaseMs now w =
    (if runId \<in> set (sw_lost w) then w
     else (case renewRunLease runId replicaId (leaseExpiresAt now leaseMs) (sw_db w) of
       (Inl e, db) \<Rightarrow> w\<lparr>sw_db := db\<rparr>
     | (Inr ok, db) \<Rightarrow> (if ok then w\<lparr>sw_db := db\<rparr> else w\<lparr>sw_db := db, sw_lost := runId # sw_lost w\<rparr>)))"

section \<open>Facts\<close>

lemma on_db_frame:
  "sw_stop (snd (on_db m w)) = sw_stop w" "sw_lost (snd (on_db m w)) = sw_lost w"
  "sw_outside (snd (on_db m w)) = sw_outside w" "sw_db (snd (on_db m w)) = snd (m (sw_db w))"
  "sw_events (snd (on_db m w)) = sw_events w" "sw_seen (snd (on_db m w)) = sw_seen w"
  by (simp_all add: on_db_def split: prod.splits sum.splits)

lemma on_db_fst: "fst (on_db m w) = (case fst (m (sw_db w)) of Inl e \<Rightarrow> Inl (db_error e) | Inr x \<Rightarrow> Inr x)"
  by (simp add: on_db_def split: prod.splits sum.splits)

lemma notify_result: "notifyUpdated env i w = (Inr (), w\<lparr>sw_events := sw_events w @
    (case getRunRow i (sw_db w) of None \<Rightarrow> [] | Some r \<Rightarrow> [rowToRunReport r (listStepsForRun env i (sw_db w))])\<rparr>)"
  by (simp add: notifyUpdated_def on_db_def get_run_def comp_simps modifyM_def split: option.splits)

lemma notify_if_result: "\<exists>es. notify_if env i b w = (Inr (), w\<lparr>sw_events := es\<rparr>)"
proof (cases b)
  case False
  then have "notify_if env i b w = (Inr (), w\<lparr>sw_events := sw_events w\<rparr>)" by (simp add: notify_if_def returnM_def)
  then show ?thesis ..
qed (simp add: notify_if_def notify_result, blast)

text \<open>The operations with a notification do to the tables what the repository does.\<close>

lemma on_db_then: "(\<And>x v. sw_db (snd (k x v)) = sw_db v) \<Longrightarrow> sw_db (snd (bindM (on_db m) k w)) = snd (m (sw_db w))"
  using on_db_frame(4) [of m w] by (auto simp: bindM_def split: prod.splits sum.splits)

lemma notify_if_then: "sw_db (snd (bindM (notify_if env i b) (\<lambda>_. returnM x) w)) = sw_db w"
proof -
  obtain es where "notify_if env i b w = (Inr (), w\<lparr>sw_events := es\<rparr>)" using notify_if_result by blast
  then show ?thesis by (simp add: bindM_def returnM_def)
qed

lemma store_db:
  "sw_db (snd (store_createRun env inp now w)) = snd (create_run env inp now (sw_db w))"
  "sw_db (snd (store_appendStep env u i s now b w)) = snd (appendStep env i (createRunStep u s now b) now (sw_db w))"
  "sw_db (snd (store_completeRun env i out now w)) = snd (complete_run env i out now (sw_db w))"
  "sw_db (snd (store_enqueueParkedFollowUp env i m st u now w)) = snd (enqueueParkedFollowUp i m st u now (sw_db w))"
  "sw_db (snd (store_beginContinuation env i mo us now w)) = snd (beginContinuation env i mo us now (sw_db w))"
  unfolding store_createRun_def store_appendStep_def store_completeRun_def store_enqueueParkedFollowUp_def store_beginContinuation_def
  by (rule on_db_then, simp add: notify_if_then bindM_def [of "notifyUpdated _ _"] notify_result returnM_def)+

end
