(* ===== verification/HarnessTools.thy ===== *)
theory HarnessTools
  imports RunStore CallTypes Texts
begin

text \<open>
  How a run records its steps and dispatches the tool calls of the model:
  \<^verbatim>\<open>apps/shaiden/src/run/run-step-recording.ts\<close>, \<^verbatim>\<open>run-reporter.ts\<close>, \<^verbatim>\<open>task-output.ts\<close> and
  \<^verbatim>\<open>harness-tool-dispatch.ts\<close> of the same directory, and
  \<^verbatim>\<open>apps/shaiden/src/sandbox/execute-python.ts\<close>. The clock, fresh ids, the tools of the session and
  the sandbox are given; log lines are left out.
\<close>

section \<open>Recording steps\<close>

text \<open>\<open>previewOf\<close>; the ellipsis is three bytes.\<close>

definition previewOf :: "nat \<Rightarrow> string \<Rightarrow> string" where
  "previewOf maxLength value =
    (let flattened = trim (squeeze value) in
     if length flattened > maxLength then take maxLength flattened @ map char_of [226 :: nat, 128, 166] else flattened)"

record 'y process_env =
  hv_runs :: run_env
  hv_clock :: "'y run_world \<Rightarrow> int"
  hv_uuid :: "'y run_world \<Rightarrow> string \<times> 'y"

definition randomUUID :: "('y, 'z) process_env_scheme \<Rightarrow> ('y, string) world_comp" where
  "randomUUID env w = (Inr (fst (hv_uuid env w)), w\<lparr>sw_outside := snd (hv_uuid env w)\<rparr>)"

definition recordStep ::
    "('y, 'z) process_env_scheme \<Rightarrow> string \<Rightarrow> string option \<Rightarrow> step_body \<Rightarrow> ('y, unit) world_comp" where
  "recordStep env runId i body =
    bindM (getsM (hv_clock env)) (\<lambda>now.
    bindM (if i = None then randomUUID env else returnM []) (\<lambda>uuid.
    bindM (store_appendStep (hv_runs env) uuid runId i now body) (\<lambda>_.
    returnM ())))"

definition call_input :: "json \<Rightarrow> json" where
  "call_input c = or_else (prop_of ''input'' c) JNull"

definition recordToolDispatch :: "('y, 'z) process_env_scheme \<Rightarrow> string \<Rightarrow> json \<Rightarrow> ('y, unit) world_comp" where
  "recordToolDispatch env runId call =
    recordStep env runId None
      (ToolDispatchStep (Some (call_tool call)) (Some (call_id call))
        (Some (previewOf 200 (json_stringify (call_input call)))))"

definition result_decision :: "tool_dispatch_result \<Rightarrow> string option" where
  "result_decision result =
    (case Option.bind (td_meta result) cm_decision of
       Some d \<Rightarrow> Some (decision_str d)
     | None \<Rightarrow> if td_approvalRequired result \<noteq> None then Some ''approval-required'' else None)"

definition recordToolResult ::
    "('y, 'z) process_env_scheme \<Rightarrow> string \<Rightarrow> json \<Rightarrow> tool_dispatch_result \<Rightarrow> ('y, unit) world_comp" where
  "recordToolResult env runId call result =
    recordStep env runId None
      (ToolResultStep \<lparr>tr_toolName = Some (call_tool call), tr_toolCallId = Some (call_id call),
         tr_outputPreview = Some (previewOf (if td_isError result then 500 else 200) (td_text result)),
         tr_toolStatus = Some (if td_isError result then ToolError
           else if td_approvalRequired result \<noteq> None then ToolApprovalRequired else ToolOk),
         tr_charCount = Some (int (length (td_text result))),
         tr_traceId = (case td_meta result of None \<Rightarrow> None
           | Some m \<Rightarrow> if truthy_str (Some (cm_traceId m)) then Some (cm_traceId m) else None),
         tr_decision = result_decision result,
         tr_durationMs = Option.bind (td_meta result) cm_durationMs\<rparr>)"

section \<open>The deliverable of a task\<close>

definition task_output_max_length :: nat where
  "task_output_max_length = 10000"

definition parseTaskOutput :: "json \<Rightarrow> string option" where
  "parseTaskOutput value =
    (case value of
       JObj kvs \<Rightarrow>
         (case as_string (map_of kvs ''text'') of
            Some t \<Rightarrow> if 1 \<le> length t \<and> length t \<le> task_output_max_length then Some t else None
          | None \<Rightarrow> None)
     | _ \<Rightarrow> None)"

definition clipTaskOutput :: "string \<Rightarrow> string" where
  "clipTaskOutput t =
    (let trimmed = trim t in
     if length trimmed \<le> task_output_max_length then trimmed
     else take task_output_max_length trimmed @ map char_of [226 :: nat, 128, 166])"

definition recordTaskOutput :: "('y, 'z) process_env_scheme \<Rightarrow> string \<Rightarrow> string \<Rightarrow> ('y, unit) world_comp" where
  "recordTaskOutput env runId t = recordStep env runId None (OutputStep (clipTaskOutput t))"

section \<open>Python in the sandbox\<close>

record sandbox_request =
  sr_source :: string
  sr_timeoutSeconds :: "int option"

record sandbox_result =
  sx_exitCode :: int
  sx_stdout :: string
  sx_stderr :: string
  sx_timedOut :: bool
  sx_truncated :: bool

definition parse_timeout :: "json option \<Rightarrow> int option option" where
  "parse_timeout j = (case j of
     None \<Rightarrow> Some None
   | Some (JInt n) \<Rightarrow> if 1 \<le> n \<and> n \<le> 120 then Some (Some n) else None
   | Some _ \<Rightarrow> None)"

definition parseExecutePython :: "json \<Rightarrow> sandbox_request option" where
  "parseExecutePython value =
    (case value of
       JObj kvs \<Rightarrow>
         (case (as_string (map_of kvs ''source''), parse_timeout (map_of kvs ''timeoutSeconds'')) of
            (Some src, Some seconds) \<Rightarrow>
              if 1 \<le> length src \<and> length src \<le> 100000
              then Some \<lparr>sr_source = src, sr_timeoutSeconds = seconds\<rparr> else None
          | _ \<Rightarrow> None)
     | _ \<Rightarrow> None)"

definition plain_result :: "bool \<Rightarrow> string \<Rightarrow> tool_dispatch_result" where
  "plain_result err t = \<lparr>td_isError = err, td_text = t, td_approvalRequired = None, td_approvalDenied = False,
     td_policyDenied = False, td_meta = None, td_hibernated = False\<rparr>"

definition formatSandboxExecResult :: "sandbox_result \<Rightarrow> tool_dispatch_result" where
  "formatSandboxExecResult r =
    (let lines' = [if sx_timedOut r then ''timed out (exit '' @ int_str (sx_exitCode r) @ '')'' else ''exit '' @ int_str (sx_exitCode r)] @
         (if sx_stdout r \<noteq> [] then [sx_stdout r] else []) @ (if sx_stderr r \<noteq> [] then [sx_stderr r] else []) @
         (if sx_truncated r then [''[output truncated]''] else []) in
     plain_result (sx_timedOut r \<or> sx_exitCode r \<noteq> 0) (join [char_of (10 :: nat)] lines'))"

section \<open>Dispatch\<close>

text \<open>The regular expression \<open>/(^|\b)policy_denied\b/i\<close>.\<close>

definition is_word :: "char \<Rightarrow> bool" where
  "is_word c = (let n = of_char c :: nat in
     48 \<le> n \<and> n \<le> 57 \<or> 65 \<le> n \<and> n \<le> 90 \<or> 97 \<le> n \<and> n \<le> 122 \<or> n = 95)"

definition word_edge :: "string \<Rightarrow> bool" where
  "word_edge rest \<longleftrightarrow> (case rest of [] \<Rightarrow> True | c # _ \<Rightarrow> \<not> is_word c)"

fun mentions_from :: "bool \<Rightarrow> string \<Rightarrow> bool" where
  "mentions_from edge [] = False"
| "mentions_from edge (c # cs) =
    (edge \<and> map to_lower (take 13 (c # cs)) = ''policy_denied'' \<and> word_edge (drop 13 (c # cs)) \<or>
     mentions_from (\<not> is_word c) cs)"

definition mentions_policy_denied :: "string \<Rightarrow> bool" where
  "mentions_policy_denied t = mentions_from True t"

record 'y tool_env = "'y process_env" +
  hv_tools :: "string list"
  hv_callTool :: "string \<Rightarrow> jobj \<Rightarrow> ('y, tool_dispatch_result) world_comp"
  hv_exec :: "(sandbox_request \<Rightarrow> ('y, sandbox_result) world_comp) option"

definition task_output_call :: "('y, 'z) tool_env_scheme \<Rightarrow> string \<Rightarrow> json \<Rightarrow> ('y, tool_dispatch_result) world_comp" where
  "task_output_call env runId call =
    (case parseTaskOutput (call_input call) of
       None \<Rightarrow> returnM (plain_result True ''invalid report_task_output input'')
     | Some t \<Rightarrow>
        bindM (recordTaskOutput env runId t) (\<lambda>_.
        returnM (plain_result False ''Output recorded for the operator.'')))"

text \<open>Record a result and return it.\<close>

definition recorded ::
    "('y, 'z) process_env_scheme \<Rightarrow> string \<Rightarrow> json \<Rightarrow> tool_dispatch_result \<Rightarrow> ('y, tool_dispatch_result) world_comp" where
  "recorded env runId call result = bindM (recordToolResult env runId call result) (\<lambda>_. returnM result)"

definition refused_call ::
    "('y, 'z) process_env_scheme \<Rightarrow> string \<Rightarrow> json \<Rightarrow> string \<Rightarrow> ('y, tool_dispatch_result) world_comp" where
  "refused_call env runId call m =
    bindM (recordToolDispatch env runId call) (\<lambda>_. recorded env runId call (plain_result True m))"

text \<open>The \<open>try\<close> covers the call of the sandbox and the recording of its result.\<close>

definition python_call :: "('y, 'z) tool_env_scheme \<Rightarrow> string \<Rightarrow> json \<Rightarrow> ('y, tool_dispatch_result) world_comp" where
  "python_call env runId call =
    (case parseExecutePython (call_input call) of
       None \<Rightarrow> refused_call env runId call ''invalid execute_python input''
     | Some request \<Rightarrow>
        (case hv_exec env of
           None \<Rightarrow> refused_call env runId call ''execute_python is not configured''
         | Some exec \<Rightarrow>
            bindM (recordToolDispatch env runId call) (\<lambda>_.
            catchM
              (bindM (exec request) (\<lambda>r. recorded env runId call (formatSandboxExecResult r)))
              (\<lambda>e. recorded env runId call (plain_result True (describeError e))))))"

definition denied_result :: "run_error \<Rightarrow> tool_dispatch_result" where
  "denied_result e = (plain_result True (describeError e))
    \<lparr>td_policyDenied := (case e of PolicyDenied _ _ \<Rightarrow> True | _ \<Rightarrow> False),
     td_meta := (case e of PolicyDenied _ m \<Rightarrow> m | _ \<Rightarrow> None)\<rparr>"

definition after_call ::
    "('y, 'z) tool_env_scheme \<Rightarrow> string \<Rightarrow> json \<Rightarrow> string \<Rightarrow> tool_dispatch_result \<Rightarrow> ('y, tool_dispatch_result) world_comp" where
  "after_call env runId call stepId result =
    bindM (getsM (\<lambda>w. aborted runId (sw_stop w))) (\<lambda>stop.
    if stop then recorded env runId call (plain_result True run_stopped_tool_output)
    else (let result = (if td_isError result \<and> \<not> td_policyDenied result \<and> mentions_policy_denied (td_text result)
                        then result\<lparr>td_policyDenied := True\<rparr> else result) in
          bindM (recordToolResult env runId call result) (\<lambda>_.
          returnM (case td_approvalRequired result of
              None \<Rightarrow> result
            | Some a \<Rightarrow> result\<lparr>td_approvalRequired := Some (a\<lparr>aq_stepId := Some stepId\<rparr>)\<rparr>))))"

definition torii_call ::
    "('y, 'z) tool_env_scheme \<Rightarrow> string \<Rightarrow> json \<Rightarrow> string \<Rightarrow> ('y, tool_dispatch_result) world_comp" where
  "torii_call env runId call stepId =
    (let args = spread (spread_of (Some (call_input call)))
           [(torii_run_id_arg, JStr runId), (torii_step_id_arg, JStr stepId)] in
     bindM (recordToolDispatch env runId call) (\<lambda>_.
     bindM (catchM (bindM (hv_callTool env (call_tool call) args) (\<lambda>r. returnM (Inr r)))
              (\<lambda>e. case e of
                 TaskCancelled m \<Rightarrow> throwM e
               | _ \<Rightarrow> bindM (recorded env runId call (denied_result e)) (\<lambda>r. returnM (Inl r)))) (\<lambda>x.
     case x of Inl r \<Rightarrow> returnM r | Inr result \<Rightarrow> after_call env runId call stepId result)))"

text \<open>\<open>createHarnessToolDispatcher\<close>: the loop passes the stop signal and no ids.\<close>

definition dispatchToolCall ::
    "('y, 'z) tool_env_scheme \<Rightarrow> string \<Rightarrow> json \<Rightarrow> ('y, tool_dispatch_result) world_comp" where
  "dispatchToolCall env runId call =
    bindM (randomUUID env) (\<lambda>correlationStepId.
    if call_tool call = report_task_output_tool then task_output_call env runId call
    else if call_tool call = execute_python_tool then python_call env runId call
    else if call_tool call \<notin> set (hv_tools env) then refused_call env runId call ''tool is not available from Torii''
    else torii_call env runId call correlationStepId)"

end
