(* ===== verification/ToriiClient.thy ===== *)
theory ToriiClient
  imports HarnessTools Complex_Main
begin

text \<open>
  How a run talks to the gateway: \<^verbatim>\<open>apps/shaiden/src/mcp/parse-tool-result.ts\<close>,
  \<^verbatim>\<open>apps/shaiden/src/mcp/poll-mcp-task.ts\<close> and the session of
  \<^verbatim>\<open>apps/shaiden/src/mcp/torii-client.ts\<close>, with \<open>readToriiCallMeta\<close> of
  \<^verbatim>\<open>packages/shared/src/torii-mcp-meta.ts\<close>. The JSON-RPC request, the token, the sleep and the
  random number are given. Polling a task ends only when the gateway answers; it runs on fuel.
\<close>

section \<open>Results\<close>

text \<open>\<open>JSON.parse\<close>, the check of a date-time, and \<open>Math.trunc\<close> of a non-integral number.\<close>

record wire_env =
  we_parse :: "string \<Rightarrow> json option"
  we_datetime :: "string \<Rightarrow> bool"
  we_trunc :: "string \<Rightarrow> int option"

definition decision_of_str :: "string \<Rightarrow> call_decision option" where
  "decision_of_str s = find (\<lambda>d. decision_str d = s) [DAllowed, DDenied, DLinkingRequired, DApprovalRequired]"

definition read_duration :: "wire_env \<Rightarrow> json option \<Rightarrow> int option" where
  "read_duration env j =
    (case j of
       Some (JInt n) \<Rightarrow> if 0 \<le> n then Some n else None
     | Some (JFloat s) \<Rightarrow> (case we_trunc env s of Some n \<Rightarrow> if 0 \<le> n \<and> hd s \<noteq> CHR ''-'' then Some n else None | None \<Rightarrow> None)
     | _ \<Rightarrow> None)"

definition readToriiCallMeta :: "wire_env \<Rightarrow> json option \<Rightarrow> torii_call_meta option" where
  "readToriiCallMeta env value =
    (case value of
       Some (JObj r) \<Rightarrow>
         (case as_string (map_of r ''traceId'') of
            None \<Rightarrow> None
          | Some traceId \<Rightarrow> if traceId = [] then None else
              Some \<lparr>cm_traceId = traceId,
                    cm_decision = Option.bind (as_string (map_of r ''decision'')) decision_of_str,
                    cm_durationMs = read_duration env (map_of r ''durationMs'')\<rparr>)
     | _ \<Rightarrow> None)"

text \<open>\<open>String(value)\<close>.\<close>

fun js_string :: "json \<Rightarrow> string" where
  "js_string JNull = ''null''"
| "js_string (JBool b) = (if b then ''true'' else ''false'')"
| "js_string (JInt i) = int_str i"
| "js_string (JFloat s) = s"
| "js_string (JStr s) = s"
| "js_string (JArr xs) = join '','' (map (\<lambda>x. if x = JNull then [] else js_string x) xs)"
| "js_string (JObj _) = ''[object Object]''"

definition denial_prefix :: string where
  "denial_prefix = ''Human review denied this tool call. ''"

definition denial_suffix :: string where
  "denial_suffix = ''This denial is authoritative '' @ map char_of [226 :: nat, 128, 148] @
     '' do not retry this call or attempt the same action through a different tool.''"

definition formatApprovalDeniedForModel :: "json \<Rightarrow> string" where
  "formatApprovalDeniedForModel payload =
    (let reason = prop_of ''reason'' payload in
     if truthy_prop reason
     then denial_prefix @ ''Reason: '' @ js_string (or_else reason JNull) @ ''. '' @ denial_suffix
     else denial_prefix @ denial_suffix)"

definition isApprovalDeniedPayload :: "json \<Rightarrow> bool" where
  "isApprovalDeniedPayload v \<longleftrightarrow> prop_of ''status'' v = Some (JStr ''approval_denied'')"

definition enrichToolCallResult :: "wire_env \<Rightarrow> bool \<Rightarrow> string \<Rightarrow> tool_dispatch_result" where
  "enrichToolCallResult env isError t =
    (case we_parse env t of
       Some v \<Rightarrow> if isApprovalDeniedPayload v
         then (plain_result False (formatApprovalDeniedForModel v))\<lparr>td_approvalDenied := True\<rparr>
         else plain_result isError t
     | None \<Rightarrow> plain_result isError t)"

definition part_text :: "json \<Rightarrow> string" where
  "part_text part =
    (case (prop_of ''type'' part, prop_of ''text'' part) of
       (Some (JStr ty), Some v) \<Rightarrow> if ty = ''text'' then js_string v else json_stringify part
     | _ \<Rightarrow> json_stringify part)"

definition flattenToolContent :: "json option \<Rightarrow> string" where
  "flattenToolContent content =
    (case content of Some (JArr parts) \<Rightarrow> join [char_of (10 :: nat)] (map part_text parts) | _ \<Rightarrow> [])"

definition extractToriiCallMeta :: "wire_env \<Rightarrow> json option \<Rightarrow> torii_call_meta option" where
  "extractToriiCallMeta env meta =
    (case meta of Some m \<Rightarrow> readToriiCallMeta env (prop_of torii_call_meta_key m) | None \<Rightarrow> None)"

definition mapCallToolResponse :: "wire_env \<Rightarrow> jobj \<Rightarrow> tool_dispatch_result" where
  "mapCallToolResponse env response =
    (let result = enrichToolCallResult env (map_of response ''isError'' = Some (JBool True))
           (flattenToolContent (map_of response ''content''));
         withMeta = result\<lparr>td_meta := extractToriiCallMeta env (map_of response ''_meta'')\<rparr> in
     if td_isError withMeta \<and> mentions_policy_denied (td_text withMeta)
     then withMeta\<lparr>td_policyDenied := True\<rparr> else withMeta)"

definition mapTerminalMcpTaskToToolCallResult :: "wire_env \<Rightarrow> mcp_detailed_task \<Rightarrow> run_error + tool_dispatch_result" where
  "mapTerminalMcpTaskToToolCallResult env task =
    (case dt_detail task of
       DetailCancelled \<Rightarrow> Inl (TaskCancelled ''cancelled by operator'')
     | DetailFailed e \<Rightarrow>
        (case map_of e ''message'' of
           Some (JStr m) \<Rightarrow> Inr (plain_result True (if m \<noteq> [] then m else ''MCP task failed''))
         | _ \<Rightarrow> Inr (plain_result True ''MCP task failed''))
     | DetailCompleted r \<Rightarrow> Inr (mapCallToolResponse env r)
     | d \<Rightarrow> Inl (OtherError (''MCP task is not terminal: '' @ status_str (detail_status d))))"

definition tryMapTerminalCreateTaskResult :: "wire_env \<Rightarrow> jobj \<Rightarrow> (run_error + tool_dispatch_result) option" where
  "tryMapTerminalCreateTaskResult env response =
    map_option (mapTerminalMcpTaskToToolCallResult env)
      (mcpGetTaskResultSchema (we_datetime env) (map_put ''resultType'' (JStr ''complete'') response))"

section \<open>Polling\<close>

datatype parked_task_poll = PollTerminal | PollPending "int option" | PollFailed string

definition mcp_input_required_failure_reason :: string where
  "mcp_input_required_failure_reason = ''MCP task requires client input, which Shaiden does not support''"

definition parkedTaskPollFromGet :: "mcp_detailed_task \<Rightarrow> parked_task_poll" where
  "parkedTaskPollFromGet task =
    (let st = detail_status (dt_detail task) in
     if st = InputRequired then PollFailed mcp_input_required_failure_reason
     else if isMcpTaskTerminalStatus st then PollTerminal
     else PollPending (mt_pollIntervalMs task))"

definition isFatalMcpPollError :: "run_error \<Rightarrow> bool" where
  "isFatalMcpPollError e = (case e of McpJsonRpcError code _ _ \<Rightarrow> code \<notin> {-32700, -32603} | _ \<Rightarrow> False)"

definition parkedTaskPollFromError :: "run_error \<Rightarrow> int option \<Rightarrow> parked_task_poll" where
  "parkedTaskPollFromError e pollIntervalMs =
    (if isFatalMcpPollError e then PollFailed (describeError e) else PollPending pollIntervalMs)"

definition default_task_poll_interval_ms :: int where "default_task_poll_interval_ms = 5000"

definition max_task_poll_interval_ms :: int where "max_task_poll_interval_ms = 30000"

definition min_task_poll_interval_ms :: int where "min_task_poll_interval_ms = 50"

text \<open>\<open>random\<close> is what \<open>Math.random()\<close> gives; \<open>Math.round\<close> is the floor of the value plus a half.\<close>

definition nextTaskPollDelayMs :: "int option \<Rightarrow> rat \<Rightarrow> int" where
  "nextTaskPollDelayMs pollIntervalMs random =
    (let capped = min max_task_poll_interval_ms
           (max min_task_poll_interval_ms (or_else pollIntervalMs default_task_poll_interval_ms));
         jitter = 8 / 10 + random * (4 / 10) in
     \<lfloor>of_int capped * jitter + 1 / 2\<rfloor>)"

record 'x poll_env =
  po_getTask :: "('x, run_error, jobj) comp"
  po_sleep :: "int \<Rightarrow> 'x \<Rightarrow> 'x"
  po_random :: "'x \<Rightarrow> rat"

definition sleep_poll :: "'x poll_env \<Rightarrow> int option \<Rightarrow> 'x \<Rightarrow> 'x" where
  "sleep_poll env intervalMs x = po_sleep env (nextTaskPollDelayMs intervalMs (po_random env x)) x"

fun pollUntilTerminalMcpTask ::
    "wire_env \<Rightarrow> 'x poll_env \<Rightarrow> nat \<Rightarrow> int option \<Rightarrow> ('x, loop_exn, mcp_detailed_task) comp" where
  "pollUntilTerminalMcpTask wenv env 0 intervalMs x = (Inl OutOfFuel, x)"
| "pollUntilTerminalMcpTask wenv env (Suc fuel) intervalMs x =
    (case po_getTask env x of
       (Inl e, y) \<Rightarrow>
         if isFatalMcpPollError e then (Inl (Thrown e), y)
         else pollUntilTerminalMcpTask wenv env fuel intervalMs (sleep_poll env intervalMs y)
     | (Inr raw, y) \<Rightarrow>
         (case mcpGetTaskResultSchema (we_datetime wenv) raw of
            None \<Rightarrow> pollUntilTerminalMcpTask wenv env fuel intervalMs (sleep_poll env intervalMs y)
          | Some task \<Rightarrow>
             (let st = detail_status (dt_detail task) in
              if isMcpTaskTerminalStatus st then (Inr task, y)
              else if st = InputRequired then (Inl (Thrown (OtherError mcp_input_required_failure_reason)), y)
              else (let next = (case mt_pollIntervalMs task of None \<Rightarrow> intervalMs | Some n \<Rightarrow> Some n) in
                    pollUntilTerminalMcpTask wenv env fuel next (sleep_poll env next y)))))"

section \<open>The session\<close>

definition toToolCallError :: "wire_env \<Rightarrow> run_error \<Rightarrow> run_error" where
  "toToolCallError env e =
    (if mentions_policy_denied (describeError e)
     then PolicyDenied (describeError e)
       (case e of McpJsonRpcError _ _ (Some d) \<Rightarrow> readToriiCallMeta env (prop_of torii_call_meta_key d) | _ \<Rightarrow> None)
     else e)"

definition of_sum :: "'e + 'a \<Rightarrow> ('x, 'e, 'a) comp" where
  "of_sum r x = (r, x)"

definition pollMcpTask :: "wire_env \<Rightarrow> 'x poll_env \<Rightarrow> nat \<Rightarrow> int option \<Rightarrow> ('x, loop_exn, tool_dispatch_result) comp" where
  "pollMcpTask wenv env fuel pollIntervalMs =
    catchM
      (bindM (pollUntilTerminalMcpTask wenv env fuel pollIntervalMs) (\<lambda>terminal.
       of_sum (map_sum Thrown id (mapTerminalMcpTaskToToolCallResult wenv terminal))))
      (\<lambda>e. throwM (case e of Thrown err \<Rightarrow> Thrown (toToolCallError wenv err) | OutOfFuel \<Rightarrow> OutOfFuel))"

text \<open>
  \<open>applyToken\<close> obtains the token and refreshes the tools when their list is stale; \<open>post\<close> sends
  \<open>tools/call\<close>; \<open>poll\<close> is \<open>pollMcpTask\<close> of the session.
\<close>

record 'x session_env =
  se_applyToken :: "('x, run_error, unit) comp"
  se_post :: "string \<Rightarrow> jobj \<Rightarrow> ('x, run_error, jobj) comp"
  se_poll :: "string \<Rightarrow> int option \<Rightarrow> ('x, run_error, tool_dispatch_result) comp"

definition park_handle :: "mcp_create_task_result \<Rightarrow> tool_dispatch_result" where
  "park_handle created = (plain_result False (or_else (mt_statusMessage created) []))
     \<lparr>td_approvalRequired := Some \<lparr>aq_approvalId = mt_taskId created, aq_stepId = None,
        aq_pollIntervalMs = mt_pollIntervalMs created\<rparr>\<rparr>"

definition answer_call :: "wire_env \<Rightarrow> 'x session_env \<Rightarrow> jobj \<Rightarrow> ('x, run_error, tool_dispatch_result) comp" where
  "answer_call wenv env response =
    (if map_of response ''resultType'' = Some (JStr ''task'')
     then (case mcpCreateTaskResultSchema (we_datetime wenv) response of
         None \<Rightarrow> throwM (OtherError ''invalid CreateTaskResult'')
       | Some created \<Rightarrow>
          if isMcpTaskTerminalStatus (mt_status created)
          then (case tryMapTerminalCreateTaskResult wenv response of
                  Some r \<Rightarrow> of_sum r
                | None \<Rightarrow> se_poll env (mt_taskId created) (mt_pollIntervalMs created))
          else returnM (park_handle created))
     else returnM (mapCallToolResponse wenv response))"

definition session_callTool :: "wire_env \<Rightarrow> 'x session_env \<Rightarrow> string \<Rightarrow> jobj \<Rightarrow> ('x, run_error, tool_dispatch_result) comp" where
  "session_callTool wenv env name args =
    bindM (se_applyToken env) (\<lambda>_.
    catchM (bindM (se_post env name args) (answer_call wenv env)) (\<lambda>e. throwM (toToolCallError wenv e)))"

definition pollAssigneeMcpTask :: "wire_env \<Rightarrow> ('x, run_error, jobj) comp \<Rightarrow> int option \<Rightarrow> ('x, run_error, parked_task_poll) comp" where
  "pollAssigneeMcpTask wenv getTask pollIntervalMs =
    catchM
      (bindM getTask (\<lambda>raw. case mcpGetTaskResultSchema (we_datetime wenv) raw of
         None \<Rightarrow> throwM (OtherError ''invalid tasks/get result'')
       | Some task \<Rightarrow> returnM (parkedTaskPollFromGet task)))
      (\<lambda>e. returnM (parkedTaskPollFromError e pollIntervalMs))"

section \<open>Polling, proved\<close>

text \<open>
  Whatever interval the gateway suggests and whatever the random number, the wait before the
  next poll is between 40 milliseconds and 36 seconds, and within a fifth (and the rounding) of the
  suggested interval when that lies in the supported range.
\<close>

theorem poll_delay_bounds:
  assumes "0 \<le> random" "random \<le> 1"
  shows "40 \<le> nextTaskPollDelayMs iv random \<and> nextTaskPollDelayMs iv random \<le> 36000 \<and>
    (case iv of None \<Rightarrow> 4000 \<le> nextTaskPollDelayMs iv random \<and> nextTaskPollDelayMs iv random \<le> 6000
     | Some n \<Rightarrow> n < 50 \<or> 30000 < n \<or> 4 * n \<le> 5 * nextTaskPollDelayMs iv random + 3 \<and> 5 * nextTaskPollDelayMs iv random \<le> 6 * n + 3)"
proof -
  have key: "4 * c \<le> 5 * \<lfloor>of_int c * (8 / 10 + random * (4 / 10)) + 1 / 2\<rfloor> + 3 \<and>
      5 * \<lfloor>of_int c * (8 / 10 + random * (4 / 10)) + 1 / 2\<rfloor> \<le> 6 * c + 3" if "0 \<le> c" for c :: int
  proof -
    let ?v = "of_int c * (8 / 10 + random * (4 / 10)) + 1 / 2 :: rat"
    have "of_int c * random \<le> of_int c * 1" "0 \<le> of_int c * random"
      using that assms by (intro mult_left_mono mult_nonneg_nonneg; simp)+
    then have "8 / 10 * of_int c + 1 / 2 \<le> ?v" "?v \<le> 12 / 10 * of_int c + 1 / 2" by (simp_all add: algebra_simps)
    moreover have "of_int \<lfloor>?v\<rfloor> \<le> ?v" "?v < of_int \<lfloor>?v\<rfloor> + 1" by linarith+
    ultimately have "4 * of_int c < (5 * of_int \<lfloor>?v\<rfloor> + 3 :: rat)" "5 * of_int \<lfloor>?v\<rfloor> \<le> (6 * of_int c + 3 :: rat)" by linarith+
    then have "(of_int (4 * c) :: rat) < of_int (5 * \<lfloor>?v\<rfloor> + 3)" "(of_int (5 * \<lfloor>?v\<rfloor>) :: rat) \<le> of_int (6 * c + 3)"
      by simp_all
    then have "4 * c < 5 * \<lfloor>?v\<rfloor> + 3" "5 * \<lfloor>?v\<rfloor> \<le> 6 * c + 3" by (simp_all only: of_int_less_iff of_int_le_iff)
    then show ?thesis by (intro conjI) (erule less_imp_le, assumption)
  qed
  let ?c = "min 30000 (max 50 (or_else iv 5000))"
  have c: "50 \<le> ?c" "?c \<le> 30000" by auto
  have d: "nextTaskPollDelayMs iv random = \<lfloor>of_int ?c * (8 / 10 + random * (4 / 10)) + 1 / 2\<rfloor>"
    by (simp add: nextTaskPollDelayMs_def Let_def max_task_poll_interval_ms_def min_task_poll_interval_ms_def
        default_task_poll_interval_ms_def del: of_int_min of_int_max)
  have k: "4 * ?c \<le> 5 * nextTaskPollDelayMs iv random + 3" "5 * nextTaskPollDelayMs iv random \<le> 6 * ?c + 3"
    using key [of ?c] c unfolding d by simp_all
  show ?thesis using k c by (cases iv) (auto simp: min_def max_def split: if_splits)
qed

theorem poll_delay_bounds_witness:
  "40 \<le> nextTaskPollDelayMs (Some 1) (1 / 2) \<and> nextTaskPollDelayMs (Some 1) (1 / 2) \<le> 36000"
  using poll_delay_bounds [of "1 / 2" "Some 1"] by simp

text \<open>
  The sweep and the wait of a run agree on every answer of the gateway to \<open>tasks/get\<close>,
  errors, timeouts and malformed answers included: the sweep calls a parked task terminal exactly
  when a wait would return it, failed with a reason exactly when a wait would throw that message,
  and pending exactly when a wait would go on, with the same interval and delay.
\<close>

theorem sweep_agrees_with_wait:
  "case pollAssigneeMcpTask wenv (po_getTask env) iv x of
     (Inl e, y) \<Rightarrow> False
   | (Inr PollTerminal, y) \<Rightarrow>
       \<exists>task. pollUntilTerminalMcpTask wenv env (Suc fuel) iv x = (Inr task, y) \<and>
         isMcpTaskTerminalStatus (detail_status (dt_detail task))
   | (Inr (PollFailed reason), y) \<Rightarrow>
       \<exists>e. pollUntilTerminalMcpTask wenv env (Suc fuel) iv x = (Inl (Thrown e), y) \<and> describeError e = reason
   | (Inr (PollPending iv'), y) \<Rightarrow>
       (let next = (case iv' of None \<Rightarrow> iv | Some n \<Rightarrow> Some n) in
        pollUntilTerminalMcpTask wenv env (Suc fuel) iv x = pollUntilTerminalMcpTask wenv env fuel next
          (po_sleep env (nextTaskPollDelayMs next (po_random env y)) y))"
proof (cases "po_getTask env x")
  case (Pair r y)
  show ?thesis
  proof (cases r)
    case (Inl e)
    then show ?thesis using Pair
      by (simp add: pollAssigneeMcpTask_def comp_simps parkedTaskPollFromError_def sleep_poll_def Let_def split: option.split)
  next
    case (Inr raw)
    show ?thesis
    proof (cases "mcpGetTaskResultSchema (we_datetime wenv) raw")
      case None
      then show ?thesis using Pair Inr
        by (simp add: pollAssigneeMcpTask_def comp_simps parkedTaskPollFromError_def isFatalMcpPollError_def sleep_poll_def
            Let_def split: option.split)
    next
      case (Some task)
      then show ?thesis using Pair Inr
        by (cases "dt_detail task")
          (simp_all add: pollAssigneeMcpTask_def comp_simps parkedTaskPollFromGet_def Let_def sleep_poll_def isMcpTaskTerminalStatus_def)
    qed
  qed
qed

section \<open>What the gateway says about a call\<close>

lemma read_meta_round_trip:
  assumes "cm_traceId m \<noteq> []" "\<forall>d. cm_durationMs m = Some d \<longrightarrow> 0 \<le> d"
  shows "readToriiCallMeta env (Some (meta_json m)) = Some m"
  using assms
  by (cases "cm_decision m"; cases "cm_durationMs m"; cases "the (cm_decision m)")
    (simp_all add: readToriiCallMeta_def meta_json_def opt_field_def read_duration_def decision_of_str_def)

lemma denial_round_trip:
  assumes "we_parse env (json_stringify (JObj (approval_denied_payload reason))) = Some (JObj (approval_denied_payload reason))"
  shows "enrichToolCallResult env b (json_stringify (JObj (approval_denied_payload reason))) =
    (plain_result False (denial_prefix @ (if truthy_str reason then ''Reason: '' @ or_else reason [] @ ''. '' else []) @ denial_suffix))
      \<lparr>td_approvalDenied := True\<rparr>"
  using assms
  by (auto simp: enrichToolCallResult_def isApprovalDeniedPayload_def formatApprovalDeniedForModel_def
      approval_denied_payload_def truthy_prop_def truthy_str_def)

text \<open>
  What the gateway answers reaches the agent: when an operator denies a parked call, the result
  that Torii builds, with its reason and its call metadata, is read by the runtime as a denial (never
  as a tool error), with the reason in the text and with exactly the metadata that was sent. It holds
  of every reason and metadata, given a JSON parser that reads back the denial's text.
\<close>

theorem denial_reaches_agent:
  assumes "we_parse env (json_stringify (JObj (approval_denied_payload reason))) = Some (JObj (approval_denied_payload reason))"
    and "cm_traceId m \<noteq> []" "\<forall>d. cm_durationMs m = Some d \<longrightarrow> 0 \<le> d"
  shows "mapCallToolResponse env (withToriiCallMeta (toApprovalDeniedToolResult reason) m) =
    (plain_result False (denial_prefix @ (if truthy_str reason then ''Reason: '' @ or_else reason [] @ ''. '' else []) @ denial_suffix))
      \<lparr>td_approvalDenied := True, td_meta := Some m\<rparr>"
proof -
  let ?r = "withToriiCallMeta (toApprovalDeniedToolResult reason) m"
  let ?t = "json_stringify (JObj (approval_denied_payload reason))"
  have m: "extractToriiCallMeta env (map_of ?r ''_meta'') = Some m"
    using read_meta_round_trip [OF assms(2,3)]
    by (simp add: withToriiCallMeta_def js_simps extractToriiCallMeta_def)
  have c: "flattenToolContent (map_of ?r ''content'') = ?t"
    by (simp add: withToriiCallMeta_def js_simps toApprovalDeniedToolResult_def flattenToolContent_def part_text_def text_part_def
        del: json_stringify.simps)
  show ?thesis
    unfolding mapCallToolResponse_def Let_def m c denial_round_trip [OF assms(1)] by (simp add: plain_result_def)
qed

definition example_wire :: wire_env where
  "example_wire = \<lparr>we_parse = (\<lambda>t. if t = json_stringify (JObj (approval_denied_payload (Some ''no''))) then
     Some (JObj (approval_denied_payload (Some ''no''))) else None), we_datetime = (\<lambda>_. True), we_trunc = (\<lambda>_. None)\<rparr>"

theorem denial_reaches_agent_witness:
  "td_approvalDenied (mapCallToolResponse example_wire (withToriiCallMeta (toApprovalDeniedToolResult (Some ''no''))
     \<lparr>cm_traceId = ''t'', cm_decision = Some DDenied, cm_durationMs = Some 3\<rparr>))"
  by (subst denial_reaches_agent) (simp_all add: example_wire_def)

end
