(* ===== verification/Harness.thy ===== *)
theory Harness
  imports ToriiClient
begin

text \<open>
  Driving a run: \<^verbatim>\<open>apps/shaiden/src/run/harness.ts\<close> with \<^verbatim>\<open>parked-mcp-task-waiter.ts\<close>,
  \<^verbatim>\<open>run-completion.ts\<close>, \<^verbatim>\<open>resume-parked-runs.ts\<close>, \<^verbatim>\<open>resolve-model-id.ts\<close> and \<^verbatim>\<open>prompts.ts\<close> of the same
  directory. The model, the session with the gateway, the sandbox and the agent directory are
  computations on the world, which may change it as other processes do meanwhile, the tables
  included. \<open>hv_protocol\<close> is the fixed text of \<open>taskRuntimeProtocol\<close>.
\<close>

section \<open>The environment\<close>

record agent_definition =
  ad_persona :: string
  ad_personaVersion :: int
  ad_ownerId :: string
  ad_defaultModelId :: "string option"

record 'y harness_env = "'y tool_env" +
  hv_connect :: "('y, unit) world_comp"
  hv_model :: "string \<Rightarrow> string \<Rightarrow> conversation_entry list \<Rightarrow> ('y, model_step) world_comp"
  hv_poll :: "string \<Rightarrow> int option \<Rightarrow> ('y, tool_dispatch_result) world_comp"
  hv_deleteRun :: "(string \<Rightarrow> ('y, unit) world_comp) option"
  hv_agent :: "(string \<Rightarrow> ('y, agent_definition) world_comp) option"
  hv_apiKey :: "('y, string) world_comp"
  hv_platformModelId :: string
  hv_protocol :: string
  hv_replica :: string
  hv_leaseMs :: int

section \<open>Completion\<close>

definition outcome_body :: "termination_outcome \<Rightarrow> step_body" where
  "outcome_body outcome =
    OutcomeStep (to_status outcome) (if to_status outcome = RunFailed then to_reason outcome else None) (to_failureClass outcome)"

text \<open>A failed deletion of the workspace is left to the sweeper.\<close>

definition delete_workspace :: "'y harness_env \<Rightarrow> string \<Rightarrow> ('y, unit) world_comp" where
  "delete_workspace env runId =
    (case hv_deleteRun env of
       None \<Rightarrow> returnM () | Some delete \<Rightarrow> catchM (delete runId) (\<lambda>_. returnM ()))"

definition completeRunWithOutcomeStep :: "'y harness_env \<Rightarrow> string \<Rightarrow> termination_outcome \<Rightarrow> ('y, unit) world_comp" where
  "completeRunWithOutcomeStep env runId outcome =
    bindM (recordStep env runId None (outcome_body outcome)) (\<lambda>_.
    bindM (getsM (hv_clock env)) (\<lambda>now.
    bindM (store_completeRun (hv_runs env) runId outcome now) (\<lambda>_.
    delete_workspace env runId)))"

section \<open>Waiting for a parked call\<close>

text \<open>\<open>awaitUnlessAborted\<close>: the poll has been started when the signal is looked at.\<close>

definition awaitUnlessAborted :: "string \<Rightarrow> ('y, 'a) world_comp \<Rightarrow> ('y, 'a) world_comp" where
  "awaitUnlessAborted runId m w =
    (case m w of (r, w') \<Rightarrow> (if runId \<in> set (sw_lost w') then Inl (RunLeaseLost runId) else r, w'))"

definition renew_or_throw :: "'y harness_env \<Rightarrow> string \<Rightarrow> ('y, unit) world_comp" where
  "renew_or_throw env runId =
    bindM (getsM (hv_clock env)) (\<lambda>now.
    bindM (on_db (renewRunLease runId (hv_replica env) (leaseExpiresAt now (hv_leaseMs env)))) (\<lambda>ok.
    if ok then returnM () else throwM (RunLeaseLost runId)))"

definition set_parked :: "'y harness_env \<Rightarrow> string \<Rightarrow> string \<Rightarrow> approval_wait_context \<Rightarrow> ('y, int option) world_comp" where
  "set_parked env runId mcpTaskId context =
    bindM (getsM (\<lambda>w. case wc_pollIntervalMs context of
        Some n \<Rightarrow> Some n
      | None \<Rightarrow> Option.bind (getParkedMcpTask runId (sw_db w)) pk_pollIntervalMs)) (\<lambda>pollIntervalMs.
    bindM (getsM (hv_clock env)) (\<lambda>now.
    bindM (on_db (setParkedMcpTask runId mcpTaskId pollIntervalMs now)) (\<lambda>_.
    bindM (recordStep env runId (wc_stepId context)
      (WaitingApprovalStep (map_option call_tool (wc_call context)) (Some mcpTaskId) None)) (\<lambda>_.
    returnM pollIntervalMs))))"

definition hibernated_result :: tool_dispatch_result where
  "hibernated_result = (plain_result False [])\<lparr>td_hibernated := True\<rparr>"

definition parkedMcpTaskWaiter ::
    "'y harness_env \<Rightarrow> string \<Rightarrow> string \<Rightarrow> approval_wait_context \<Rightarrow> ('y, tool_dispatch_result) world_comp" where
  "parkedMcpTaskWaiter env runId mcpTaskId context =
    bindM (set_parked env runId mcpTaskId context) (\<lambda>pollIntervalMs.
    if wc_hibernate context
    then bindM (getsM (hv_clock env)) (\<lambda>now.
         bindM (on_db (setNextPollAt runId now)) (\<lambda>_. returnM hibernated_result))
    else bindM (awaitUnlessAborted runId (hv_poll env mcpTaskId pollIntervalMs)) (\<lambda>result.
         bindM (renew_or_throw env runId) (\<lambda>_.
         bindM (case wc_call context of
             Some call \<Rightarrow> if td_approvalDenied result then returnM () else recordToolResult env runId call result
           | None \<Rightarrow> returnM ()) (\<lambda>_.
         bindM (getsM (hv_clock env)) (\<lambda>now.
         bindM (on_db (clearParkedMcpTask runId now)) (\<lambda>_. returnM result))))))"

section \<open>What the loop is given\<close>

definition callModel ::
    "'y harness_env \<Rightarrow> string \<Rightarrow> string \<Rightarrow> string \<Rightarrow> conversation_entry list \<Rightarrow> ('y, model_step) world_comp" where
  "callModel env runId systemPrompt modelId history =
    bindM (hv_model env systemPrompt modelId history) (\<lambda>step.
    bindM (recordStep env runId None
      (ModelStep (if mo_text step = [] then None else Some (previewOf 500 (mo_text step))) (mo_usage step))) (\<lambda>_.
    returnM step))"

definition unitM :: "('s, 'e, 'a) comp \<Rightarrow> ('s, 'e, unit) comp" where
  "unitM m = bindM m (\<lambda>_. returnM ())"

definition harness_deps :: "'y harness_env \<Rightarrow> string \<Rightarrow> string \<Rightarrow> string \<Rightarrow> 'y run_world loop_deps" where
  "harness_deps env runId systemPrompt modelId =
    \<lparr>dp_callModel = callModel env runId systemPrompt modelId,
     dp_dispatchToolCall = dispatchToolCall env runId,
     dp_waitForApproval = Some (parkedMcpTaskWaiter env runId),
     dp_now = hv_clock env,
     dp_drain = Some (on_db (drainParkedFollowUps (hv_runs env) runId)),
     dp_onHistoryChanged = Some (\<lambda>h. unitM (on_db (setConversationHistory runId h))),
     dp_onBudgetChanged = Some (\<lambda>b. unitM (on_db (setRunBudget runId b))),
     dp_stopped = (\<lambda>w. aborted runId (sw_stop w))\<rparr>"

section \<open>Driving a run\<close>

record drive_input =
  di_runId :: string
  di_task :: run_task
  di_history :: "conversation_entry list"
  di_systemPrompt :: string
  di_modelId :: string

record harness_result =
  hr_outcome :: "termination_outcome option"
  hr_iterations :: int

type_synonym ('y, 'a) drive_comp = "('y run_world, loop_exn, 'a) comp"

definition thrown :: "('y, 'a) world_comp \<Rightarrow> ('y, 'a) drive_comp" where
  "thrown m w = (case m w of (Inl e, w') \<Rightarrow> (Inl (Thrown e), w') | (Inr x, w') \<Rightarrow> (Inr x, w'))"

definition finally_do :: "('y, 'a) drive_comp \<Rightarrow> ('y, unit) drive_comp \<Rightarrow> ('y, 'a) drive_comp" where
  "finally_do m cleanup w =
    (case m w of
       (Inl OutOfFuel, w') \<Rightarrow> (Inl OutOfFuel, w')
     | (r, w') \<Rightarrow> bindM cleanup (\<lambda>_ v. (r, v)) w')"

definition lost_lease :: "string \<Rightarrow> 'y run_world \<Rightarrow> bool" where
  "lost_lease runId w \<longleftrightarrow> runId \<in> set (sw_lost w)"

text \<open>What follows the loop.\<close>

definition finish_run :: "'y harness_env \<Rightarrow> string \<Rightarrow> task_loop_result \<Rightarrow> ('y, harness_result) world_comp" where
  "finish_run env runId r =
    bindM (getsM (lost_lease runId)) (\<lambda>lost.
    if lost then throwM (RunLeaseLost runId)
    else (case lr_outcome r of
       LoopParked \<Rightarrow>
         bindM (on_db (setConversationHistory runId (lr_history r))) (\<lambda>_.
         returnM \<lparr>hr_outcome = None, hr_iterations = lr_iterations r\<rparr>)
     | LoopEnded outcome \<Rightarrow>
         bindM (on_db (setConversationHistory runId (lr_history r))) (\<lambda>_.
         bindM (completeRunWithOutcomeStep env runId outcome) (\<lambda>_.
         returnM \<lparr>hr_outcome = Some outcome, hr_iterations = lr_iterations r\<rparr>))))"

text \<open>\<open>calls\<close> and \<open>fuel\<close> are those of the loop.\<close>

definition loop_start_of :: "drive_input \<Rightarrow> parked_mcp_task option \<Rightarrow> live_budget option \<Rightarrow> loop_start" where
  "loop_start_of inp parked budget =
    \<lparr>ls_initialHistory = di_history inp, ls_limits = resolveTaskLimits (di_task inp), ls_budget = budget,
     ls_resumeParkedApproval = map_option pk_mcpTaskId parked\<rparr>"

definition run_session ::
    "'y harness_env \<Rightarrow> nat \<Rightarrow> nat \<Rightarrow> drive_input \<Rightarrow> parked_mcp_task option \<Rightarrow> ('y, harness_result) drive_comp" where
  "run_session env calls fuel inp parked =
    (let runId = di_runId inp in
     bindM (thrown (hv_connect env)) (\<lambda>_.
     bindM (getsM (\<lambda>w. getRunBudget runId (sw_db w))) (\<lambda>budget.
     bindM (runTaskLoop calls fuel (loop_start_of inp parked budget)
       (harness_deps env runId (di_systemPrompt inp) (di_modelId inp))) (\<lambda>r.
     thrown (finish_run env runId r)))))"

fun isRunLeaseError :: "run_error \<Rightarrow> bool" where
  "isRunLeaseError (RunLeaseLost _) = True"
| "isRunLeaseError (RunNotClaimed _) = True"
| "isRunLeaseError _ = False"

definition describeTokenExchangeFailure :: "run_error \<Rightarrow> string" where
  "describeTokenExchangeFailure e =
    (case e of
       TokenExchangeError k m \<Rightarrow>
         if k = ''grant_denied'' then ''agent grant revoked: '' @ m
         else if k = ''unreachable'' then ''Fuda unreachable: '' @ m
         else ''token exchange failed ('' @ k @ ''): '' @ m
     | _ \<Rightarrow> describeError e)"

definition run_is_running :: "string \<Rightarrow> 'y run_world \<Rightarrow> bool" where
  "run_is_running runId w = (case getRunRow runId (sw_db w) of None \<Rightarrow> False | Some r \<Rightarrow> is_running r)"

definition fail_if_running :: "'y harness_env \<Rightarrow> string \<Rightarrow> string \<Rightarrow> ('y, unit) world_comp" where
  "fail_if_running env runId reason =
    bindM (getsM (run_is_running runId)) (\<lambda>running.
    if running then completeRunWithOutcomeStep env runId (failed_outcome reason FPlatform) else returnM ())"

definition drive_failed :: "'y harness_env \<Rightarrow> string \<Rightarrow> run_error \<Rightarrow> ('y, 'a) world_comp" where
  "drive_failed env runId e =
    bindM (getsM (lost_lease runId)) (\<lambda>lost.
    if isRunLeaseError e then throwM e
    else if lost then throwM (RunLeaseLost runId)
    else bindM (fail_if_running env runId (describeTokenExchangeFailure e)) (\<lambda>_. throwM e))"

definition end_drive :: "'y harness_env \<Rightarrow> string \<Rightarrow> ('y, unit) world_comp" where
  "end_drive env runId =
    bindM (modifyM (\<lambda>w. w\<lparr>sw_stop := release runId (sw_stop w)\<rparr>)) (\<lambda>_.
    bindM (getsM (lost_lease runId)) (\<lambda>lost.
    if lost then returnM () else unitM (on_db (releaseRun runId (hv_replica env)))))"

definition claim_for_drive :: "'y harness_env \<Rightarrow> string \<Rightarrow> ('y, unit) world_comp" where
  "claim_for_drive env runId =
    bindM (getsM (hv_clock env)) (\<lambda>now.
    bindM (on_db (claimRun runId (hv_replica env) (leaseExpiresAt now (hv_leaseMs env)) now)) (\<lambda>claimed.
    if claimed
    then modifyM (\<lambda>w. w\<lparr>sw_stop := attach runId (sw_stop w), sw_lost := filter (\<lambda>r. r \<noteq> runId) (sw_lost w)\<rparr>)
    else throwM (RunNotClaimed runId)))"

definition driveHarnessRun :: "'y harness_env \<Rightarrow> nat \<Rightarrow> nat \<Rightarrow> drive_input \<Rightarrow> ('y, harness_result) drive_comp" where
  "driveHarnessRun env calls fuel inp =
    (let runId = di_runId inp in
     bindM (getsM (\<lambda>w. getParkedMcpTask runId (sw_db w))) (\<lambda>parked.
     bindM (thrown (claim_for_drive env runId)) (\<lambda>_.
     finally_do
       (catch_thrown (run_session env calls fuel inp parked) (\<lambda>e. thrown (drive_failed env runId e)))
       (thrown (end_drive env runId)))))"

section \<open>Launch and resume\<close>

definition resolveModelId :: "string option \<Rightarrow> string option \<Rightarrow> string \<Rightarrow> string" where
  "resolveModelId taskModelId agentDefaultModelId platformModelId =
    (let t = trim (or_else taskModelId []); a = trim (or_else agentDefaultModelId []) in
     if t \<noteq> [] then t else if a \<noteq> [] then a else platformModelId)"

definition blank_line :: string where
  "blank_line = map char_of [10 :: nat, 10]"

definition systemPromptFromPersona :: "string \<Rightarrow> string \<Rightarrow> string" where
  "systemPromptFromPersona protocol persona = trim persona @ blank_line @ protocol"

definition taskSystemPrompt :: "string \<Rightarrow> string \<Rightarrow> string" where
  "taskSystemPrompt protocol agentId =
    systemPromptFromPersona protocol (''You are '' @ agentId @ '', an autonomous agent runtime worker.'')"

definition taskGoalPrompt :: "string \<Rightarrow> string" where
  "taskGoalPrompt goal = ''Task goal:'' @ [char_of (10 :: nat)] @ goal"

definition execute_python_protocol_note :: string where
  "execute_python_protocol_note = ''execute_python is available. Its workspace files persist until this run ends, including across an approval wait. Processes do not persist. It has no network.''"

definition withSandboxProtocol :: "bool \<Rightarrow> string \<Rightarrow> string" where
  "withSandboxProtocol sandbox systemPrompt =
    (if sandbox then systemPrompt @ blank_line @ execute_python_protocol_note else systemPrompt)"

definition resolvePersonaAtTaskStart :: "'y harness_env \<Rightarrow> string \<Rightarrow> ('y, string \<times> agent_definition option) world_comp" where
  "resolvePersonaAtTaskStart env assignee =
    (case hv_agent env of
       None \<Rightarrow> returnM (taskSystemPrompt (hv_protocol env) assignee, None)
     | Some getAgentDefinition \<Rightarrow>
        bindM (getAgentDefinition assignee) (\<lambda>d.
        returnM (systemPromptFromPersona (hv_protocol env) (ad_persona d), Some d)))"

definition launch_request :: "string \<Rightarrow> string \<Rightarrow> run_task \<Rightarrow> int \<Rightarrow> agent_definition option \<Rightarrow> string \<Rightarrow> create_run_request" where
  "launch_request runId taskId task startedAt d modelId =
    \<lparr>cq_id = runId, cq_taskId = taskId, cq_task = task, cq_assignee = tk_assignee task, cq_goal = tk_goal task,
     cq_startedAt = Some startedAt, cq_personaVersion = map_option ad_personaVersion d, cq_persona = map_option ad_persona d,
     cq_modelId = Some modelId,
     cq_agentOwnerId = (case d of None \<Rightarrow> None | Some x \<Rightarrow> if ad_ownerId x = [] then None else Some (ad_ownerId x))\<rparr>"

text \<open>The value is what the background \<open>driveHarnessRun\<close> is started with.\<close>

definition launchHarnessRun :: "'y harness_env \<Rightarrow> run_task \<Rightarrow> string \<Rightarrow> ('y, drive_input) world_comp" where
  "launchHarnessRun env task taskId =
    bindM (hv_apiKey env) (\<lambda>_.
    bindM (resolvePersonaAtTaskStart env (tk_assignee task)) (\<lambda>(systemPrompt, d).
    let modelId = resolveModelId (tk_modelId task) (Option.bind d ad_defaultModelId) (hv_platformModelId env);
        initialHistory = [UserEntry (taskGoalPrompt (tk_goal task))] in
    bindM (randomUUID env) (\<lambda>runId.
    bindM (getsM (hv_clock env)) (\<lambda>now.
    bindM (store_createRun (hv_runs env) (launch_request runId taskId task now d modelId) now) (\<lambda>_.
    bindM (on_db (setConversationHistory runId initialHistory)) (\<lambda>_.
    returnM \<lparr>di_runId = runId, di_task = task, di_history = initialHistory,
      di_systemPrompt = withSandboxProtocol (hv_exec env \<noteq> None) systemPrompt, di_modelId = modelId\<rparr>))))))"

definition startHarnessRun :: "'y harness_env \<Rightarrow> nat \<Rightarrow> nat \<Rightarrow> run_task \<Rightarrow> string \<Rightarrow> ('y, harness_result) drive_comp" where
  "startHarnessRun env calls fuel task taskId =
    bindM (thrown (launchHarnessRun env task taskId)) (driveHarnessRun env calls fuel)"

definition resolveSystemPromptForResume :: "'y harness_env \<Rightarrow> string \<Rightarrow> run_task \<Rightarrow> ('y, string) world_comp" where
  "resolveSystemPromptForResume env runId task =
    bindM (getsM (\<lambda>w. getRunRow runId (sw_db w))) (\<lambda>saved.
    let persona = Option.bind saved rr_persona in
    if truthy_str persona then returnM (systemPromptFromPersona (hv_protocol env) (or_else persona []))
    else if hv_agent env \<noteq> None
    then throwM (OtherError (''Run '' @ runId @ '' has no stamped persona; cannot resume with a Fuda-backed agent''))
    else returnM (taskSystemPrompt (hv_protocol env) (tk_assignee task)))"

definition resumeHarnessRun ::
    "'y harness_env \<Rightarrow> string \<Rightarrow> conversation_entry list \<Rightarrow> run_task \<Rightarrow> ('y, drive_input) world_comp" where
  "resumeHarnessRun env runId initialHistory task =
    bindM (resolveSystemPromptForResume env runId task) (\<lambda>systemPrompt.
    bindM (hv_apiKey env) (\<lambda>_.
    bindM (getsM (\<lambda>w. Option.bind (getRunRow runId (sw_db w)) rr_model_id)) (\<lambda>stamped.
    returnM \<lparr>di_runId = runId, di_task = task, di_history = initialHistory,
      di_systemPrompt = withSandboxProtocol (hv_exec env \<noteq> None) systemPrompt,
      di_modelId = (case stamped of Some m \<Rightarrow> m
        | None \<Rightarrow> resolveModelId (tk_modelId task) None (hv_platformModelId env))\<rparr>)))"

text \<open>\<open>done\<close> of a resumed run: the drive, and what its \<open>catch\<close> does.\<close>

definition resumed_run :: "'y harness_env \<Rightarrow> nat \<Rightarrow> nat \<Rightarrow> drive_input \<Rightarrow> ('y, harness_result) drive_comp" where
  "resumed_run env calls fuel inp =
    catch_thrown (driveHarnessRun env calls fuel inp) (\<lambda>e.
      if isRunLeaseError e then throwM (Thrown e)
      else bindM (thrown (fail_if_running env (di_runId inp) (''resume failed: '' @ describeError e))) (\<lambda>_.
           throwM (Thrown e)))"

section \<open>The sweep over parked runs\<close>

text \<open>One parked run: \<open>Some inp\<close> is a run that the sweep has resumed.\<close>

definition sweep_pending :: "'y harness_env \<Rightarrow> rat \<Rightarrow> int \<Rightarrow> parked_mcp_task \<Rightarrow> int option \<Rightarrow> ('y, drive_input option) world_comp" where
  "sweep_pending env random nowMs parked polled =
    (let iv = (case polled of Some n \<Rightarrow> Some n | None \<Rightarrow> pk_pollIntervalMs parked);
         delayMs = nextTaskPollDelayMs iv random in
     bindM (on_db (setNextPollAt (pk_runId parked) (nowMs + delayMs))) (\<lambda>_.
     bindM (case polled of
         None \<Rightarrow> returnM ()
       | Some n \<Rightarrow> bindM (getsM (hv_clock env)) (\<lambda>now.
           unitM (on_db (setParkedMcpTask (pk_runId parked) (pk_mcpTaskId parked) (Some n) now)))) (\<lambda>_.
     returnM None)))"

definition sweep_failed :: "'y harness_env \<Rightarrow> int \<Rightarrow> parked_mcp_task \<Rightarrow> string \<Rightarrow> ('y, drive_input option) world_comp" where
  "sweep_failed env nowMs parked reason =
    bindM (on_db (claimRun (pk_runId parked) (hv_replica env) (leaseExpiresAt nowMs (hv_leaseMs env)) nowMs)) (\<lambda>claimed.
    if \<not> claimed then returnM None
    else bindM (completeRunWithOutcomeStep env (pk_runId parked) (failed_outcome reason FPlatform)) (\<lambda>_. returnM None))"

definition sweep_terminal :: "'y harness_env \<Rightarrow> parked_mcp_task \<Rightarrow> run_task \<Rightarrow> ('y, drive_input option) world_comp" where
  "sweep_terminal env parked task =
    bindM (getsM (\<lambda>w. getConversationHistory (hv_runs env) (pk_runId parked) (sw_db w))) (\<lambda>history.
    case history of
      None \<Rightarrow> returnM None
    | Some h \<Rightarrow> bindM (resumeHarnessRun env (pk_runId parked) h task) (\<lambda>inp. returnM (Some inp)))"

definition sweep_one ::
    "'y harness_env \<Rightarrow> (parked_mcp_task \<Rightarrow> run_task \<Rightarrow> ('y, parked_task_poll) world_comp) \<Rightarrow>
     ('y run_world \<Rightarrow> rat) \<Rightarrow> int \<Rightarrow> parked_mcp_task \<Rightarrow> ('y, drive_input option) world_comp" where
  "sweep_one env pollParkedTask random nowMs parked =
    bindM (getsM (\<lambda>w. getRunRow (pk_runId parked) (sw_db w))) (\<lambda>run.
    case run of
      None \<Rightarrow> returnM None
    | Some r \<Rightarrow>
       if \<not> is_running r then returnM None
       else bindM (pollParkedTask parked (rr_task r)) (\<lambda>poll.
            case poll of
              PollPending polled \<Rightarrow>
                bindM (getsM random) (\<lambda>x. sweep_pending env x nowMs parked polled)
            | PollFailed reason \<Rightarrow> sweep_failed env nowMs parked reason
            | PollTerminal \<Rightarrow> sweep_terminal env parked (rr_task r)))"

fun sweep_all ::
    "'y harness_env \<Rightarrow> (parked_mcp_task \<Rightarrow> run_task \<Rightarrow> ('y, parked_task_poll) world_comp) \<Rightarrow>
     ('y run_world \<Rightarrow> rat) \<Rightarrow> int \<Rightarrow> parked_mcp_task list \<Rightarrow> ('y, drive_input list) world_comp" where
  "sweep_all env poll random nowMs [] = returnM []"
| "sweep_all env poll random nowMs (p # ps) =
    bindM (sweep_one env poll random nowMs p) (\<lambda>x.
    bindM (sweep_all env poll random nowMs ps) (\<lambda>xs.
    returnM (case x of None \<Rightarrow> xs | Some inp \<Rightarrow> inp # xs)))"

definition resumeParkedHarnessRuns ::
    "'y harness_env \<Rightarrow> (parked_mcp_task \<Rightarrow> run_task \<Rightarrow> ('y, parked_task_poll) world_comp) \<Rightarrow>
     ('y run_world \<Rightarrow> rat) \<Rightarrow> ('y, drive_input list) world_comp" where
  "resumeParkedHarnessRuns env poll random =
    bindM (getsM (\<lambda>w. (hv_clock env w, listClaimableParkedMcpTasks (hv_runs env) (hv_clock env w) (sw_db w)))) (\<lambda>(nowMs, parked).
    sweep_all env poll random nowMs parked)"

end
