(* ===== verification/LoopSafety.thy ===== *)
theory LoopSafety
  imports TaskLoop
begin

text \<open>
  What the agent loop guarantees: it ends within its limit, it leaves no tool call of a turn
  without an answer, and what is stored is what it returns. One verification of the loop inside
  the locale \<open>loop_world\<close>, whose laws say what the loop relies on: the callback that stores the
  history stores it, nothing else changes what is stored, and a drain yields user messages.
\<close>

section \<open>Unanswered calls\<close>

lemma latest_skip: "calls_of e = None \<Longrightarrow> latest_calls (rev (h @ [e])) = latest_calls (rev h)"
  by simp

lemma answered_snoc: "answered_ids (h @ [e]) = answered_ids h \<union> (case answer_of e of None \<Rightarrow> {} | Some i \<Rightarrow> {i})"
  by (auto simp: answered_ids_def List.map_filter_def split: option.splits)

lemma unanswered_tool:
  "findUnansweredToolCalls (h @ [ToolEntry i n out err]) = filter (\<lambda>c. call_id c \<noteq> i) (findUnansweredToolCalls h)"
  by (auto simp: findUnansweredToolCalls_def answered_snoc intro: filter_cong)

lemma unanswered_other:
  "calls_of e = None \<Longrightarrow> answer_of e = None \<Longrightarrow> findUnansweredToolCalls (h @ [e]) = findUnansweredToolCalls h"
  by (simp add: findUnansweredToolCalls_def answered_snoc)

lemma unanswered_messages:
  "\<forall>e \<in> set es. calls_of e = None \<and> answer_of e = None \<Longrightarrow> findUnansweredToolCalls (h @ es) = findUnansweredToolCalls h"
proof (induction es rule: rev_induct)
  case (snoc e es)
  then show ?case using unanswered_other [of e "h @ es"] by simp
qed simp

lemma unanswered_turn: "set (findUnansweredToolCalls (h @ [AssistantEntry t calls])) \<subseteq> set calls"
  by (auto simp: findUnansweredToolCalls_def)

lemma unanswered_results:
  "findUnansweredToolCalls (h @ map stopped_result cs) = filter (\<lambda>c. call_id c \<notin> call_id ` set cs) (findUnansweredToolCalls h)"
proof (induction cs rule: rev_induct)
  case (snoc c cs)
  have "findUnansweredToolCalls (h @ map stopped_result (cs @ [c])) =
      filter (\<lambda>x. call_id x \<noteq> call_id c) (findUnansweredToolCalls (h @ map stopped_result cs))"
    using unanswered_tool [of "h @ map stopped_result cs"] by (simp add: stopped_result_def [of c])
  then show ?case unfolding snoc by (auto intro: filter_cong)
qed simp

lemma unanswered_closed: "findUnansweredToolCalls (closeUnansweredToolCalls h) = []"
  by (auto simp: closeUnansweredToolCalls_def unanswered_results filter_empty_conv)

section \<open>Model turns\<close>

definition is_turn :: "conversation_entry \<Rightarrow> bool" where
  "is_turn e \<longleftrightarrow> calls_of e \<noteq> None"

definition turns :: "conversation_entry list \<Rightarrow> nat" where
  "turns h = length (filter is_turn h)"

lemma turns_append [simp]: "turns (h @ k) = turns h + turns k"
  by (simp add: turns_def)

lemma turns_simps [simp]: "turns [] = 0" "turns [ToolEntry i n out err] = 0" "turns [AssistantEntry t cs] = 1"
  by (simp_all add: turns_def is_turn_def)

lemma turns_none: "\<forall>e \<in> set es. calls_of e = None \<Longrightarrow> turns es = 0"
  by (simp add: turns_def is_turn_def)

lemma turns_results [simp]: "turns (map stopped_result cs) = 0"
  by (rule turns_none) (auto simp: stopped_result_def)

section \<open>The invariant\<close>

text \<open>\<open>care\<close>: whether unanswered calls are accounted for; a run may start with some.\<close>

definition loop_inv :: "bool \<Rightarrow> conversation_entry list \<Rightarrow> nat \<Rightarrow> json list \<Rightarrow> 'x loop_state \<Rightarrow> bool" where
  "loop_inv care h0 n cs s \<longleftrightarrow> prefix h0 (lp_history s) \<and> turns (lp_history s) \<le> turns h0 + n \<and>
     (care \<longrightarrow> set (findUnansweredToolCalls (lp_history s)) \<subseteq> set cs) \<and> 0 \<le> lp_iterationsUsed s"

named_theorems inv_simps "the invariant of the agent loop under updates of its state"

lemma loop_inv_frame [inv_simps]:
  "loop_inv care h0 n cs (lp_world_update f s) = loop_inv care h0 n cs s"
  "loop_inv care h0 n cs (lp_activeElapsedMs_update g s) = loop_inv care h0 n cs s"
  "loop_inv care h0 n cs (lp_segmentStartedAt_update g s) = loop_inv care h0 n cs s"
  "loop_inv care h0 n cs (lp_clockPaused_update b s) = loop_inv care h0 n cs s"
  by (simp_all add: loop_inv_def)

lemma inv_iterations: "loop_inv care h0 n cs s \<Longrightarrow> 0 \<le> v \<Longrightarrow> loop_inv care h0 n cs (s\<lparr>lp_iterationsUsed := v\<rparr>)"
  by (simp add: loop_inv_def)

lemma inv_tool: "loop_inv care h0 n (call # cs) s \<Longrightarrow> loop_inv care h0 n cs (push (ToolEntry (call_id call) t out err) s)"
  by (auto simp: loop_inv_def push_def unanswered_tool)

lemma inv_turn: "loop_inv care h0 n cs s \<Longrightarrow> loop_inv care h0 (Suc n) calls (push (AssistantEntry t calls) s)"
  using unanswered_turn by (auto simp: loop_inv_def push_def)

lemma inv_close: "loop_inv care h0 n cs s \<Longrightarrow> loop_inv care h0 n [] (s\<lparr>lp_history := closeUnansweredToolCalls (lp_history s)\<rparr>)"
  by (simp add: loop_inv_def unanswered_closed) (auto simp: closeUnansweredToolCalls_def)

lemma inv_messages: "loop_inv care h0 n cs s \<Longrightarrow> \<forall>e \<in> set es. calls_of e = None \<and> answer_of e = None \<Longrightarrow>
    loop_inv care h0 n cs (s\<lparr>lp_history := lp_history s @ es\<rparr>)"
  by (simp add: loop_inv_def unanswered_messages turns_none)

lemma inv_mono: "loop_inv care h0 n cs s \<Longrightarrow> n \<le> m \<Longrightarrow> set cs \<subseteq> set ds \<Longrightarrow> loop_inv care h0 m ds s"
  by (auto simp: loop_inv_def)

text \<open>A result: the history it returns is the one of the state, and what may be unanswered.\<close>

definition may_leave_calls :: "loop_outcome \<Rightarrow> bool" where
  "may_leave_calls out = (case out of LoopParked \<Rightarrow> True | LoopEnded o' \<Rightarrow> to_status o' \<in> {RunFailed, HumanReject})"

text \<open>How many answers of the model are left from an iteration on.\<close>

definition turns_left :: "int option \<Rightarrow> nat \<Rightarrow> int \<Rightarrow> nat" where
  "turns_left maxI fuel iteration = (case maxI of None \<Rightarrow> fuel | Some n \<Rightarrow> nat (n - iteration + 1))"

definition waiter_settles :: "'x loop_deps \<Rightarrow> bool" where
  "waiter_settles deps \<longleftrightarrow> (\<forall>wait a c w r w'. dp_waitForApproval deps = Some wait \<longrightarrow> wc_hibernate c \<longrightarrow>
     wait a c w = (Inr r, w') \<longrightarrow> td_hibernated r \<or> td_approvalRequired r = None)"

lemma waiter_settlesD: "waiter_settles deps \<Longrightarrow> dp_waitForApproval deps = Some wait \<Longrightarrow>
    wait a \<lparr>wc_stepId = st, wc_pollIntervalMs = iv, wc_call = c, wc_hibernate = True\<rparr> w = (Inr r, w') \<Longrightarrow>
    td_hibernated r \<or> td_approvalRequired r = None"
  unfolding waiter_settles_def by (metis approval_wait_context.select_convs(4))

definition leaves :: "('x \<Rightarrow> conversation_entry list \<Rightarrow> bool) \<Rightarrow> ('x, run_error, 'a) comp \<Rightarrow> bool" where
  "leaves saved m \<longleftrightarrow> (\<forall>w h. saved w h \<longrightarrow> saved (snd (m w)) h)"

locale loop_world =
  fixes deps :: "'x loop_deps"
    and saved :: "'x \<Rightarrow> conversation_entry list \<Rightarrow> bool"
    and care :: bool
  assumes stores: "dp_onHistoryChanged deps = Some f \<Longrightarrow> f h w = (Inr (), w') \<Longrightarrow> saved w' h"
    and unstored: "dp_onHistoryChanged deps = None \<Longrightarrow> saved w h"
    and model_leaves: "leaves saved (dp_callModel deps h)"
    and dispatch_leaves: "leaves saved (dp_dispatchToolCall deps c)"
    and wait_leaves: "dp_waitForApproval deps = Some wait \<Longrightarrow> leaves saved (wait a ctx)"
    and drain_leaves: "dp_drain deps = Some d \<Longrightarrow> leaves saved d"
    and budget_leaves: "dp_onBudgetChanged deps = Some g \<Longrightarrow> leaves saved (g b)"
    and drain_messages: "dp_drain deps = Some d \<Longrightarrow> d w = (Inr es, w') \<Longrightarrow>
      e \<in> set es \<Longrightarrow> calls_of e = None \<and> answer_of e = None"
begin

definition good :: "conversation_entry list \<Rightarrow> nat \<Rightarrow> json list \<Rightarrow> 'x loop_state \<Rightarrow> bool" where
  "good h0 n cs s \<longleftrightarrow> loop_inv care h0 n cs s \<and> saved (lp_world s) (lp_history s)"

definition result_ok :: "conversation_entry list \<Rightarrow> nat \<Rightarrow> task_loop_result \<Rightarrow> 'x loop_state \<Rightarrow> bool" where
  "result_ok h0 n r s \<longleftrightarrow> lr_history r = lp_history s \<and> saved (lp_world s) (lr_history r) \<and> prefix h0 (lr_history r) \<and>
     turns (lr_history r) \<le> turns h0 + n \<and> (care \<longrightarrow> may_leave_calls (lr_outcome r) \<or> findUnansweredToolCalls (lr_history r) = [])"

lemma good_inv: "good h0 n cs s \<Longrightarrow> loop_inv care h0 n cs s"
  by (simp add: good_def)

lemma good_frame [inv_simps]:
  "good h0 n cs (lp_activeElapsedMs_update g s) = good h0 n cs s"
  "good h0 n cs (lp_segmentStartedAt_update g s) = good h0 n cs s"
  "good h0 n cs (lp_clockPaused_update b s) = good h0 n cs s"
  by (simp_all add: good_def inv_simps)

lemma good_iterations: "good h0 n cs s \<Longrightarrow> 0 \<le> v \<Longrightarrow> good h0 n cs (s\<lparr>lp_iterationsUsed := v\<rparr>)"
  by (simp add: good_def inv_iterations)

lemma good_pause [inv_simps]: "good h0 n cs (pauseActiveClock deps s) = good h0 n cs s"
  by (simp add: pauseActiveClock_def inv_simps)

lemma good_resume [inv_simps]: "good h0 n cs (resumeActiveClock deps s) = good h0 n cs s"
  by (simp add: resumeActiveClock_def inv_simps)

lemma inv_resume [inv_simps]: "loop_inv care h0 n cs (resumeActiveClock deps s) = loop_inv care h0 n cs s"
  by (simp add: resumeActiveClock_def inv_simps)

lemma wp_outside:
  assumes "good h0 n cs s" "leaves saved m"
    and "\<And>x w. good h0 n cs (s\<lparr>lp_world := w\<rparr>) \<Longrightarrow> m (lp_world s) = (Inr x, w) \<Longrightarrow> Q x (s\<lparr>lp_world := w\<rparr>)"
    and "\<And>e w. good h0 n cs (s\<lparr>lp_world := w\<rparr>) \<Longrightarrow> m (lp_world s) = (Inl e, w) \<Longrightarrow> E (Thrown e) (s\<lparr>lp_world := w\<rparr>)"
  shows "wp (outside m) Q E s"
proof -
  have "saved (snd (m (lp_world s))) (lp_history s)" using assms(1,2) by (simp add: leaves_def good_def)
  then have "good h0 n cs (s\<lparr>lp_world := snd (m (lp_world s))\<rparr>)" using assms(1) by (simp add: good_def inv_simps)
  then show ?thesis
    using assms(3,4) by (cases "m (lp_world s)"; cases "fst (m (lp_world s))") (auto simp: wp_def outside_def)
qed

text \<open>Exceptions: \<open>tot\<close> says that there is enough fuel.\<close>

definition thrown_from :: "bool \<Rightarrow> ('x loop_state \<Rightarrow> bool) \<Rightarrow> loop_exn \<Rightarrow> 'x loop_state \<Rightarrow> bool" where
  "thrown_from tot P e s \<longleftrightarrow> (tot \<longrightarrow> e \<noteq> OutOfFuel) \<and> P s"

abbreviation escapes :: "bool \<Rightarrow> loop_exn \<Rightarrow> 'x loop_state \<Rightarrow> bool" where
  "escapes tot \<equiv> thrown_from tot (\<lambda>_. True)"

lemma thrown_simps [simp]: "thrown_from tot P (Thrown e) s = P s" "thrown_from tot P OutOfFuel s = (\<not> tot \<and> P s)"
  by (simp_all add: thrown_from_def)

lemma thrown_weaken: "thrown_from tot P e s \<Longrightarrow> escapes tot e s"
  by (simp add: thrown_from_def)

lemma save_budget_spec: "good h0 n cs s \<Longrightarrow> wp (save_budget deps) (\<lambda>_. good h0 n cs) (thrown_from tot (loop_inv care h0 n cs)) s"
proof (cases "dp_onBudgetChanged deps")
  case None
  assume "good h0 n cs s"
  then show ?thesis by (rule_tac wp_at [where m' = "returnM ()"]) (simp_all add: save_budget_def None returnM_def wp_simps)
next
  case (Some g)
  assume "good h0 n cs s"
  then show ?thesis
    by (rule_tac wp_at [where m' = "outside (g (budgetSnapshot deps s))"])
      (auto simp: save_budget_def Some intro!: wp_outside budget_leaves dest: good_inv)
qed

lemma checkpoint_spec:
  assumes "loop_inv care h0 n cs s"
  shows "wp (checkpoint deps) (\<lambda>_. good h0 n cs) (thrown_from tot (loop_inv care h0 n cs)) s"
proof (cases "dp_onHistoryChanged deps")
  case None
  then have "good h0 n cs s" using assms unstored by (simp add: good_def)
  then show ?thesis
    by (auto simp: checkpoint_def None wp_simps intro!: wp_at [where m' = "returnM ()"] save_budget_spec simp: returnM_def wp_return [unfolded returnM_def])
next
  case (Some f)
  have "wp (outside (f (lp_history s))) (\<lambda>_. good h0 n cs) (thrown_from tot (loop_inv care h0 n cs)) s"
    using assms stores [OF Some]
    by (cases "f (lp_history s) (lp_world s)"; cases "fst (f (lp_history s) (lp_world s))")
      (auto simp: wp_def outside_def good_def inv_simps)
  then have "wp (outside (f (lp_history s))) (\<lambda>_. wp (save_budget deps) (\<lambda>_. good h0 n cs) (thrown_from tot (loop_inv care h0 n cs)))
      (thrown_from tot (loop_inv care h0 n cs)) s"
    by (rule wp_mono) (auto intro: save_budget_spec)
  then show ?thesis
    unfolding checkpoint_def wp_bind by (rule_tac wp_at [where m' = "outside (f (lp_history s))"]) (simp add: Some)
qed

lemma drain_spec:
  assumes "good h0 n cs s"
  shows "wp (drainPendingUserMessages deps rb) (\<lambda>_. good h0 n cs) (escapes tot) s"
proof (cases "dp_drain deps")
  case None
  then show ?thesis using assms by (simp add: drainPendingUserMessages_def wp_simps)
next
  case (Some d)
  let ?reset = "\<lambda>s. if rb then s\<lparr>lp_iterationsUsed := 0, lp_activeElapsedMs := 0, lp_segmentStartedAt := nowL deps s,
    lp_clockPaused := False\<rparr> else s"
  have "wp (checkpoint deps) (\<lambda>_. good h0 n cs) (escapes tot) (?reset t\<lparr>lp_history := lp_history (?reset t) @ es\<rparr>)"
    if "good h0 n cs t" "\<forall>e \<in> set es. calls_of e = None \<and> answer_of e = None" for es t
  proof (rule wp_mono [OF checkpoint_spec])
    show "loop_inv care h0 n cs (?reset t\<lparr>lp_history := lp_history (?reset t) @ es\<rparr>)"
      using that by (intro inv_messages) (auto simp: inv_simps intro!: inv_iterations dest: good_inv)
  qed (auto dest: thrown_weaken)
  moreover have "\<forall>e \<in> set es. calls_of e = None \<and> answer_of e = None" if "d (lp_world s) = (Inr es, w)" for es w
    using drain_messages [OF Some that] by blast
  ultimately show ?thesis
    unfolding drainPendingUserMessages_def Some option.case wp_simps
    by (intro wp_outside [OF assms drain_leaves [OF Some]]) (auto simp: wp_simps)
qed

lemma terminate_spec:
  assumes "good h0 n cs s" "may_leave_calls (LoopEnded out) \<or> cs = []"
  shows "wp (terminate deps out iterations) (result_ok h0 n) (escapes tot) s"
proof -
  have "wp (save_budget deps) (\<lambda>_ s. result_ok h0 n \<lparr>lr_outcome = LoopEnded out, lr_history = lp_history s,
      lr_iterations = iterations\<rparr> s) (escapes tot) t" if "good h0 n cs t" for t
    by (rule wp_mono [OF save_budget_spec [OF that]])
      (use assms(2) in \<open>auto simp: result_ok_def good_def loop_inv_def dest: thrown_weaken\<close>)
  then show ?thesis
    unfolding terminate_def wp_simps by (intro wp_mono [OF drain_spec [OF assms(1)]])
qed

lemma stopNow_spec:
  assumes "loop_inv care h0 n cs s"
  shows "wp (stopNow deps iterations) (result_ok h0 n) (escapes tot) s"
proof -
  have "wp (checkpoint deps) (\<lambda>_. wp (terminate deps (plain_outcome Stopped None) iterations) (result_ok h0 n) (escapes tot))
      (escapes tot) (s\<lparr>lp_history := closeUnansweredToolCalls (lp_history s)\<rparr>)"
    by (rule wp_mono [OF checkpoint_spec [OF inv_close [OF assms]]]) (auto intro: terminate_spec dest: thrown_weaken)
  then show ?thesis unfolding stopNow_def wp_simps .
qed

lemma append_spec:
  assumes "loop_inv care h0 n (call # cs) s"
  shows "wp (appendToolResult deps call result) (\<lambda>_. good h0 n cs) (escapes tot) s"
  unfolding appendToolResult_def wp_simps
  by (rule wp_mono [OF checkpoint_spec [OF inv_tool [OF assms]]]) (auto dest: thrown_weaken)

lemma push_error_spec:
  assumes "loop_inv care h0 n (call # cs) s"
  shows "wp (pushToolErrorResult deps call e) (\<lambda>_. good h0 n cs) (escapes tot) s"
  unfolding pushToolErrorResult_def wp_simps
  by (rule wp_mono [OF checkpoint_spec [OF inv_tool [OF assms]]]) (auto dest: thrown_weaken)

lemma wait_spec:
  assumes "good h0 n cs s"
  shows "wp (waitForParkedResult deps call i st iv hib)
    (\<lambda>r s. good h0 n cs s \<and> (hib \<and> waiter_settles deps \<longrightarrow> td_hibernated r \<or> td_approvalRequired r = None))
    (thrown_from tot (loop_inv care h0 n cs)) s"
proof (cases "dp_waitForApproval deps")
  case None
  then show ?thesis using assms by (simp add: waitForParkedResult_def wp_simps good_inv)
next
  case (Some wait)
  let ?c = "\<lparr>wc_stepId = st, wc_pollIntervalMs = iv, wc_call = Some call, wc_hibernate = hib\<rparr>"
  let ?Q = "\<lambda>r s. good h0 n cs (resumeActiveClock deps s) \<and> (hib \<and> waiter_settles deps \<longrightarrow> td_hibernated r \<or> td_approvalRequired r = None)"
  let ?E = "\<lambda>e s. thrown_from tot (loop_inv care h0 n cs) e (resumeActiveClock deps s)"
  have "wp (outside (wait i ?c)) (\<lambda>result. wp (if td_policyDenied result
      then throwM (Thrown (OtherError (''policy denied after approval resume: '' @ td_text result))) else returnM result) ?Q ?E) ?E t"
    if "good h0 n cs t" for t
    using that Some
    by (intro wp_outside [OF that wait_leaves [OF Some]])
      (auto simp: wp_simps inv_simps good_inv dest!: waiter_settlesD)
  then have "wp (checkpoint deps) (\<lambda>_. wp (outside (wait i ?c)) (\<lambda>result. wp (if td_policyDenied result
      then throwM (Thrown (OtherError (''policy denied after approval resume: '' @ td_text result))) else returnM result) ?Q ?E) ?E)
      ?E (pauseActiveClock deps s)"
    by (intro wp_mono [OF checkpoint_spec [of h0 n cs]]) (use assms in \<open>auto simp: thrown_from_def inv_simps intro!: good_inv\<close>)
  then show ?thesis by (simp only: waitForParkedResult_def Some option.case wp_simps)
qed

lemma wait_loop_spec:
  assumes "good h0 n cs s" "tot \<Longrightarrow> waiter_settles deps \<and> (td_approvalRequired result = None \<or> 0 < fuel)"
  shows "wp (wait_loop deps fuel call result) (\<lambda>_. good h0 n cs) (thrown_from tot (loop_inv care h0 n cs)) s"
  using assms
proof (induction fuel arbitrary: result s)
  case 0
  then show ?case by (auto simp: wait_loop.simps wp_simps good_inv split: option.split)
next
  case (Suc fuel)
  have "wp (waitForParkedResult deps call i st iv True)
      (\<lambda>r. wp (if td_hibernated r then returnM r else wait_loop deps fuel call r) (\<lambda>_. good h0 n cs)
        (thrown_from tot (loop_inv care h0 n cs))) (thrown_from tot (loop_inv care h0 n cs)) s" for i st iv
    by (rule wp_mono [OF wait_spec [OF Suc.prems(1)]]) (use Suc in \<open>auto simp: wp_simps\<close>)
  then show ?case using Suc.prems(1) by (auto simp: wait_loop.simps wp_simps split: option.split)
qed

lemma resolve_spec:
  assumes "good h0 n cs s" "tot \<Longrightarrow> waiter_settles deps \<and> 0 < fuel"
  shows "wp (resolveToolResult deps fuel call) (\<lambda>_. good h0 n cs) (thrown_from tot (loop_inv care h0 n cs)) s"
  unfolding resolveToolResult_def wp_simps
  by (intro wp_outside [OF assms(1) dispatch_leaves]) (use assms(2) in \<open>auto intro!: wait_loop_spec intro: good_inv\<close>)

definition step_ok :: "conversation_entry list \<Rightarrow> nat \<Rightarrow> json list \<Rightarrow> task_loop_result option \<Rightarrow> 'x loop_state \<Rightarrow> bool" where
  "step_ok h0 n cs x s = (case x of Some r \<Rightarrow> result_ok h0 n r s | None \<Rightarrow> good h0 n cs s)"

lemma step_ok_simps [simp]: "step_ok h0 n cs (Some r) = result_ok h0 n r" "step_ok h0 n cs None = good h0 n cs"
  by (simp_all add: step_ok_def fun_eq_iff)

lemma somehow_spec: "wp m (result_ok h0 n) E s \<Longrightarrow> wp (somehow m) (step_ok h0 n cs) E s"
  by (simp add: somehow_def wp_simps)

lemma failed_leaves [simp]: "may_leave_calls (LoopEnded (call_failed_outcome call e))"
  "may_leave_calls (LoopEnded (plain_outcome HumanReject c))" "may_leave_calls (LoopEnded (no_pending_call i))"
  "may_leave_calls (LoopEnded (model_failed e))" "may_leave_calls LoopParked"
  by (simp_all add: may_leave_calls_def call_failed_outcome_def failed_outcome_def plain_outcome_def no_pending_call_def model_failed_def)

lemma dispatchCall_spec:
  assumes "good h0 n (call # cs) s" "tot \<Longrightarrow> waiter_settles deps \<and> 0 < fuel"
  shows "wp (dispatchCall deps fuel call iterations) (step_ok h0 n cs) (escapes tot) s"
proof -
  have err: "wp (pushToolErrorResult deps call e) (\<lambda>_. wp (terminate deps (call_failed_outcome call e) iterations)
      (result_ok h0 n) (escapes tot)) (escapes tot) t" if "loop_inv care h0 n (call # cs) t" for e t
    by (rule wp_mono [OF push_error_spec [OF that]]) (auto intro: terminate_spec)
  have app: "wp (appendToolResult deps call r) (\<lambda>_. wp (if td_approvalDenied r
      then somehow (terminate deps (plain_outcome HumanReject (Some FHuman)) iterations) else returnM None)
      (step_ok h0 n cs) (escapes tot)) (escapes tot) t" if "loop_inv care h0 n (call # cs) t" for r t
    by (rule wp_mono [OF append_spec [OF that]]) (auto simp: wp_simps intro!: somehow_spec terminate_spec)
  have "wp (resolveToolResult deps fuel call)
      (\<lambda>r s. if td_hibernated r then result_ok h0 n \<lparr>lr_outcome = LoopParked, lr_history = lp_history s, lr_iterations = iterations\<rparr> s
         else if stopRequested deps s then wp (stopNow deps iterations) (result_ok h0 n) (escapes tot) s
         else wp (appendToolResult deps call r) (\<lambda>_. wp (if td_approvalDenied r
            then somehow (terminate deps (plain_outcome HumanReject (Some FHuman)) iterations) else returnM None)
            (step_ok h0 n cs) (escapes tot)) (escapes tot) s)
      (\<lambda>e s. case e of OutOfFuel \<Rightarrow> \<not> tot
         | Thrown err \<Rightarrow> if stopRequested deps s then wp (stopNow deps iterations) (result_ok h0 n) (escapes tot) s
             else wp (pushToolErrorResult deps call err) (\<lambda>_. wp (terminate deps (call_failed_outcome call err) iterations)
                (result_ok h0 n) (escapes tot)) (escapes tot) s) s"
  proof (rule wp_mono [OF resolve_spec [OF assms]])
    fix r t assume "good h0 n (call # cs) t"
    then show "if td_hibernated r then result_ok h0 n \<lparr>lr_outcome = LoopParked, lr_history = lp_history t, lr_iterations = iterations\<rparr> t
         else if stopRequested deps t then wp (stopNow deps iterations) (result_ok h0 n) (escapes tot) t
         else wp (appendToolResult deps call r) (\<lambda>_. wp (if td_approvalDenied r
            then somehow (terminate deps (plain_outcome HumanReject (Some FHuman)) iterations) else returnM None)
            (step_ok h0 n cs) (escapes tot)) (escapes tot) t"
      using app [of t r] stopNow_spec [of h0 n "call # cs" t] by (auto simp: result_ok_def good_def loop_inv_def)
  next
    fix e t assume "thrown_from tot (loop_inv care h0 n (call # cs)) e t"
    then show "case e of OutOfFuel \<Rightarrow> \<not> tot
         | Thrown err \<Rightarrow> if stopRequested deps t then wp (stopNow deps iterations) (result_ok h0 n) (escapes tot) t
             else wp (pushToolErrorResult deps call err) (\<lambda>_. wp (terminate deps (call_failed_outcome call err) iterations)
                (result_ok h0 n) (escapes tot)) (escapes tot) t"
      using err [of t] stopNow_spec [of h0 n "call # cs" t] by (auto split: loop_exn.split)
  qed simp_all
  then show ?thesis
    unfolding dispatchCall_def catch_thrown_def wp_simps
    by (rule wp_mono) (auto simp: wp_simps somehow_def split: loop_exn.split_asm if_splits)
qed

lemma dispatch_rest_spec:
  assumes "good h0 n cs s" "tot \<Longrightarrow> waiter_settles deps \<and> 0 < fuel"
  shows "wp (dispatch_rest deps fuel cs iterations) (step_ok h0 n []) (escapes tot) s"
  using assms(1)
proof (induction cs arbitrary: s)
  case (Cons call cs)
  show ?case
    unfolding dispatch_rest.simps wp_simps
    by (rule wp_mono [OF dispatchCall_spec [OF Cons.prems assms(2)]])
      (auto simp: wp_simps step_ok_def intro!: Cons.IH split: option.splits)
qed (simp add: wp_simps)

lemma dispatch_turn_spec:
  assumes "good h0 n cs s" "tot \<Longrightarrow> waiter_settles deps \<and> 0 < fuel"
  shows "wp (dispatch_turn deps fuel cs iterations) (step_ok h0 n []) (escapes tot) s"
  using assms(1)
proof (induction cs arbitrary: s)
  case (Cons call cs)
  have "wp (dispatchCall deps fuel call iterations)
      (\<lambda>x. wp (case x of Some r \<Rightarrow> returnM (Some r) | None \<Rightarrow> dispatch_turn deps fuel cs iterations) (step_ok h0 n []) (escapes tot))
      (escapes tot) s"
    by (rule wp_mono [OF dispatchCall_spec [OF Cons.prems assms(2)]])
      (auto simp: wp_simps step_ok_def intro!: Cons.IH split: option.splits)
  then show ?case
    using somehow_spec [OF stopNow_spec [OF good_inv [OF Cons.prems]], where cs = "[]"]
    by (simp add: wp_simps)
qed (simp add: wp_simps)

lemma inv_keeps_result: "good h0 n cs s \<Longrightarrow> n \<le> m \<Longrightarrow> good h0 m cs s"
  by (auto simp: good_def intro: inv_mono)

lemma resume_spec:
  assumes "saved (lp_world s) (lp_history s)" "lp_history s = h0" "0 \<le> lp_iterationsUsed s"
    and "tot \<Longrightarrow> waiter_settles deps \<and> 0 < fuel"
  shows "wp (resumeParked deps fuel i) (step_ok h0 0 []) (escapes tot) s"
proof -
  let ?cs = "findUnansweredToolCalls h0"
  have g: "good h0 0 ?cs s" using assms(1-3) by (simp add: good_def loop_inv_def)
  show ?thesis
  proof (cases ?cs)
    case Nil
    then show ?thesis
      using g assms(2) by (auto simp: resumeParked_def wp_simps intro!: somehow_spec terminate_spec)
  next
    case (Cons call others)
    let ?used = "lp_iterationsUsed s"
    have err: "wp (pushToolErrorResult deps call e) (\<lambda>_. wp (terminate deps (call_failed_outcome call e) ?used)
        (result_ok h0 0) (escapes tot)) (escapes tot) t" if "loop_inv care h0 0 (call # others) t" for e t
      by (rule wp_mono [OF push_error_spec [OF that]]) (auto intro: terminate_spec)
    have app: "wp (appendToolResult deps call r) (\<lambda>_. wp (if td_approvalDenied r
        then somehow (terminate deps (plain_outcome HumanReject (Some FHuman)) ?used) else dispatch_rest deps fuel others ?used)
        (step_ok h0 0 []) (escapes tot)) (escapes tot) t" if "loop_inv care h0 0 (call # others) t" for r t
      by (rule wp_mono [OF append_spec [OF that]])
        (auto simp: wp_simps intro!: somehow_spec terminate_spec dispatch_rest_spec assms(4))
    have "wp (waitForParkedResult deps call i None None False)
        (\<lambda>r. wp (appendToolResult deps call r) (\<lambda>_. wp (if td_approvalDenied r
          then somehow (terminate deps (plain_outcome HumanReject (Some FHuman)) ?used) else dispatch_rest deps fuel others ?used)
          (step_ok h0 0 []) (escapes tot)) (escapes tot))
        (\<lambda>e. wp (case e of Thrown err \<Rightarrow> bindM (pushToolErrorResult deps call err) (\<lambda>_.
                 bindM (terminate deps (call_failed_outcome call err) ?used) (\<lambda>r. returnM (Inl r))) | OutOfFuel \<Rightarrow> throwM OutOfFuel)
           (\<lambda>x. wp (case x of Inl r \<Rightarrow> returnM (Some r) | Inr parkedResult \<Rightarrow>
              bindM (appendToolResult deps call parkedResult) (\<lambda>_.
              if td_approvalDenied parkedResult
              then somehow (terminate deps (plain_outcome HumanReject (Some FHuman)) ?used)
              else dispatch_rest deps fuel others ?used)) (step_ok h0 0 []) (escapes tot)) (escapes tot)) s"
    proof (rule wp_mono [OF wait_spec [OF g [unfolded Cons], where tot = tot]], goal_cases)
      case (1 r t)
      then have "loop_inv care h0 0 (call # others) t" using good_inv by blast
      then show ?case by (rule app)
    next
      case (2 e t)
      then show ?case using err [of t] by (cases e) (simp_all add: wp_bind wp_return wp_throw)
    qed
    then show ?thesis
      by (simp add: resumeParked_def catch_thrown_def wp_simps assms(2) Cons)
  qed
qed

lemma ask_model_spec:
  assumes "good h0 n cs s" "0 \<le> iteration"
  shows "wp (ask_model deps iteration) (\<lambda>x. case x of Inl r \<Rightarrow> result_ok h0 n r | Inr step \<Rightarrow> good h0 n cs) (escapes tot) s"
proof -
  have "wp (terminate deps (model_failed e) iteration) (result_ok h0 n) (escapes tot) (t\<lparr>lp_iterationsUsed := iteration\<rparr>)"
    if "good h0 n cs t" for e t using that assms(2) by (intro terminate_spec) (auto intro: good_iterations)
  then have "wp (outside (dp_callModel deps (lp_history s))) (\<lambda>step. good h0 n cs)
      (\<lambda>e t. case e of OutOfFuel \<Rightarrow> \<not> tot | Thrown err \<Rightarrow> wp (terminate deps (model_failed err) iteration) (result_ok h0 n) (escapes tot)
         (t\<lparr>lp_iterationsUsed := iteration\<rparr>)) s"
    by (intro wp_outside [OF assms(1) model_leaves]) auto
  then show ?thesis
    unfolding ask_model_def catch_thrown_def wp_simps
    by (rule_tac wp_at [where m' = "outside (dp_callModel deps (lp_history s))"])
      (auto elim!: wp_mono simp: wp_simps split: loop_exn.splits)
qed

lemma take_step_spec:
  assumes "good h0 n cs s" "0 \<le> iteration" "tot \<Longrightarrow> waiter_settles deps \<and> 0 < fuel"
  shows "wp (take_step deps fuel step iteration) (step_ok h0 (Suc n) []) (escapes tot) s"
proof -
  let ?N = "Suc n" and ?cs = "mo_toolCalls step"
  have turn: "loop_inv care h0 ?N ?cs (push (AssistantEntry (mo_text step) ?cs) (s\<lparr>lp_iterationsUsed := iteration\<rparr>))"
    by (rule inv_turn [of care h0 n cs]) (use assms(1,2) in \<open>auto intro: inv_iterations good_inv\<close>)
  have last: "wp (if mo_assessment step \<noteq> None \<and> list_all (\<lambda>c. isHarnessLocalTool (call_tool c)) ?cs
       then somehow (terminate deps (mapTerminalAssessmentToOutcome (mo_assessment step)) iteration)
       else bindM (checkpoint deps) (\<lambda>_. returnM None)) (step_ok h0 ?N []) (escapes tot) t" if "good h0 ?N [] t" for t
    using that by (auto simp: wp_simps intro!: somehow_spec terminate_spec wp_mono [OF checkpoint_spec [OF good_inv [OF that]]] dest: thrown_weaken)
  have rest: "wp (dispatch_turn deps fuel ?cs iteration) (\<lambda>failed. wp (case failed of Some r \<Rightarrow> returnM (Some r) | None \<Rightarrow>
       if mo_assessment step \<noteq> None \<and> list_all (\<lambda>c. isHarnessLocalTool (call_tool c)) ?cs
       then somehow (terminate deps (mapTerminalAssessmentToOutcome (mo_assessment step)) iteration)
       else bindM (checkpoint deps) (\<lambda>_. returnM None)) (step_ok h0 ?N []) (escapes tot)) (escapes tot) t" if "good h0 ?N ?cs t" for t
  proof (rule wp_mono [OF dispatch_turn_spec [OF that assms(3)]])
    fix x u assume "step_ok h0 ?N [] x u"
    then show "wp (case x of Some r \<Rightarrow> returnM (Some r) | None \<Rightarrow>
       if mo_assessment step \<noteq> None \<and> list_all (\<lambda>c. isHarnessLocalTool (call_tool c)) ?cs
       then somehow (terminate deps (mapTerminalAssessmentToOutcome (mo_assessment step)) iteration)
       else bindM (checkpoint deps) (\<lambda>_. returnM None)) (step_ok h0 ?N []) (escapes tot) u"
      using last by (cases x) (simp_all add: wp_return)
  qed simp_all
  show ?thesis
    unfolding take_step_def wp_bind wp_modify
  proof (rule wp_mono [OF checkpoint_spec [OF turn]], goal_cases)
    case (1 x t)
    consider "stopRequested deps t" | "\<not> stopRequested deps t" "?cs = []" | "\<not> stopRequested deps t" "?cs \<noteq> []" by blast
    then show ?case
    proof cases
      case a: 1
      show ?thesis
        by (simp only: wp_bind wp_gets a if_True) (rule somehow_spec [OF stopNow_spec [OF good_inv [OF 1]]])
    next
      case b: 2
      show ?thesis
        by (simp only: wp_bind wp_gets b if_True if_False simp_thms)
          (intro somehow_spec terminate_spec [of h0 ?N "[]"], use 1 b in simp_all)
    next
      case c: 3
      show ?thesis by (simp only: wp_bind wp_gets c if_False) (use rest [OF 1] in \<open>simp only: wp_bind\<close>)
    qed
  qed (rule thrown_weaken)
qed

lemma result_mono: "result_ok h0 n r s \<Longrightarrow> n \<le> m \<Longrightarrow> result_ok h0 m r s"
  by (auto simp: result_ok_def)

lemma iterate_spec:
  assumes "good h0 n [] s" "0 \<le> iteration"
    and "tot \<Longrightarrow> waiter_settles deps \<and> 0 < calls \<and> (\<exists>N. maxI = Some N \<and> nat (N - iteration + 1) \<le> fuel)"
  shows "wp (iterate deps tm maxI calls fuel iteration) (result_ok h0 (n + turns_left maxI fuel iteration)) (escapes tot) s"
  using assms
proof (induction fuel arbitrary: iteration n s)
  case 0
  show ?case
  proof (cases "within_limit maxI iteration")
    case True
    then have "\<not> tot" using 0 by (auto simp: within_limit_def)
    then show ?thesis
      by (intro wp_at [OF iterate_no_fuel [OF True]]) (simp add: wp_throw)
  next
    case False
    then show ?thesis
      by (intro wp_at [OF iterate_over] wp_mono [OF terminate_spec [OF 0(1)]]) (auto intro: result_mono)
  qed
next
  case (Suc fuel)
  let ?left = "turns_left maxI (Suc fuel) iteration"
  let ?E = "escapes tot"
  have finish: "wp (terminate deps out used) (result_ok h0 (n + ?left)) ?E s" for out used
    by (rule wp_mono [OF terminate_spec [OF Suc.prems(1)]]) (auto intro: result_mono)
  consider "\<not> within_limit maxI iteration" | "within_limit maxI iteration" "timed_out deps tm s"
    | "within_limit maxI iteration" "\<not> timed_out deps tm s" "stopRequested deps s"
    | "within_limit maxI iteration" "\<not> timed_out deps tm s" "\<not> stopRequested deps s" by blast
  then show ?case
  proof cases
    case 1
    then show ?thesis by (intro wp_at [OF iterate_over] finish)
  next
    case 2
    then show ?thesis by (intro wp_at [OF iterate_timeout] finish)
  next
    case 3
    then show ?thesis
      by (intro wp_at [OF iterate_stop] wp_mono [OF stopNow_spec [OF good_inv [OF Suc.prems(1)]]]) (auto intro: result_mono)
  next
    case 4
    have left: "Suc (turns_left maxI fuel (iteration + 1)) \<le> ?left"
      using 4(1) by (cases maxI) (auto simp: turns_left_def within_limit_def)
    have again: "wp (iterate deps tm maxI calls fuel (iteration + 1)) (result_ok h0 (n + ?left)) ?E t"
      if "good h0 (Suc n) [] t" for t
      by (rule wp_mono [OF Suc.IH [OF that]]) (use Suc.prems(2,3) 4(1) left in \<open>auto simp: within_limit_def intro: result_mono\<close>)
    have take: "wp (take_step deps calls step iteration) (\<lambda>over. wp (case over of Some r \<Rightarrow> returnM r
        | None \<Rightarrow> iterate deps tm maxI calls fuel (iteration + 1)) (result_ok h0 (n + ?left)) ?E) ?E t"
      if "good h0 n [] t" for step t
    proof (rule wp_mono [OF take_step_spec [OF that Suc.prems(2)]])
      show "tot \<Longrightarrow> waiter_settles deps \<and> 0 < calls" using Suc.prems(3) by blast
      fix x u assume "step_ok h0 (Suc n) [] x u"
      then show "wp (case x of Some r \<Rightarrow> returnM r | None \<Rightarrow> iterate deps tm maxI calls fuel (iteration + 1))
          (result_ok h0 (n + ?left)) ?E u"
        using again left by (cases x) (auto simp: wp_return intro: result_mono)
    qed simp_all
    have ask: "wp (ask_model deps iteration) (\<lambda>answer. wp (case answer of Inl r \<Rightarrow> returnM r
        | Inr step \<Rightarrow> bindM (take_step deps calls step iteration) (\<lambda>over. case over of Some r \<Rightarrow> returnM r
            | None \<Rightarrow> iterate deps tm maxI calls fuel (iteration + 1))) (result_ok h0 (n + ?left)) ?E) ?E t"
      if "good h0 n [] t" for t
    proof (rule wp_mono [OF ask_model_spec [OF that Suc.prems(2)]])
      fix x :: "task_loop_result + model_step" and u
      assume "(case x of Inl r \<Rightarrow> result_ok h0 n r | Inr step \<Rightarrow> good h0 n []) u"
      then show "wp (case x of Inl r \<Rightarrow> returnM r
        | Inr step \<Rightarrow> bindM (take_step deps calls step iteration) (\<lambda>over. case over of Some r \<Rightarrow> returnM r
            | None \<Rightarrow> iterate deps tm maxI calls fuel (iteration + 1))) (result_ok h0 (n + ?left)) ?E u"
        by (cases x) (auto simp: wp_return wp_bind intro: result_mono take)
    qed simp_all
    have "wp (drainPendingUserMessages deps False) (\<lambda>_. wp (ask_model deps iteration) (\<lambda>answer. wp (case answer of Inl r \<Rightarrow> returnM r
        | Inr step \<Rightarrow> bindM (take_step deps calls step iteration) (\<lambda>over. case over of Some r \<Rightarrow> returnM r
            | None \<Rightarrow> iterate deps tm maxI calls fuel (iteration + 1))) (result_ok h0 (n + ?left)) ?E) ?E) ?E s"
      by (rule wp_mono [OF drain_spec [OF Suc.prems(1)]]) (auto intro: ask)
    then show ?thesis by (rule_tac wp_at, rule_tac iterate_ask [OF 4]) (simp only: wp_bind)
  qed
qed

text \<open>The result of the whole loop, started from a history that is stored.\<close>

lemma run_loop_spec:
  assumes "saved (lp_world s) (lp_history s)" "lp_history s = h0" "0 \<le> lp_iterationsUsed s"
    and "care \<Longrightarrow> ls_resumeParkedApproval start = None \<Longrightarrow> findUnansweredToolCalls h0 = []"
    and "tot \<Longrightarrow> waiter_settles deps \<and> 0 < calls \<and> (\<exists>N. tl_max_iterations (ls_limits start) = Some N \<and> nat N \<le> fuel)"
  shows "wp (run_loop calls fuel start deps) (result_ok h0 (turns_left (tl_max_iterations (ls_limits start)) fuel 1)) (escapes tot) s"
proof -
  let ?maxI = "tl_max_iterations (ls_limits start)"
  let ?R = "result_ok h0 (turns_left ?maxI fuel 1)"
  let ?tm = "map_option (\<lambda>sec. sec * 1000) (tl_timeout_seconds (ls_limits start))"
  have go: "wp (iterate deps ?tm ?maxI calls fuel (lp_iterationsUsed t + 1)) ?R (escapes tot) t" if "good h0 0 [] t" for t
  proof (rule wp_mono [OF iterate_spec [OF that, where tot = tot]])
    have used: "0 \<le> lp_iterationsUsed t" using that by (simp add: good_def loop_inv_def)
    then show "0 \<le> lp_iterationsUsed t + 1" by simp
    show "tot \<Longrightarrow> waiter_settles deps \<and> 0 < calls \<and> (\<exists>N. ?maxI = Some N \<and> nat (N - (lp_iterationsUsed t + 1) + 1) \<le> fuel)"
      using assms(5) used by fastforce
    fix r u assume "result_ok h0 (0 + turns_left ?maxI fuel (lp_iterationsUsed t + 1)) r u"
    then show "?R r u" by (rule result_mono) (use used in \<open>auto simp: turns_left_def split: option.split\<close>)
  qed simp_all
  have after: "wp (bindM (drainPendingUserMessages deps True) (\<lambda>_. bindM (getsM lp_iterationsUsed) (\<lambda>used.
      iterate deps ?tm ?maxI calls fuel (used + 1)))) ?R (escapes tot) t" if "good h0 0 [] t" for t
    unfolding wp_bind by (rule wp_mono [OF drain_spec [OF that]]) (auto simp: wp_gets intro: go)
  have first: "wp (case ls_resumeParkedApproval start of None \<Rightarrow> returnM None | Some approvalId \<Rightarrow> resumeParked deps calls approvalId)
      (step_ok h0 0 []) (escapes tot) s"
  proof (cases "ls_resumeParkedApproval start")
    case None
    then show ?thesis using assms(1-4) by (simp add: wp_return good_def loop_inv_def)
  next
    case (Some i)
    then show ?thesis using resume_spec [OF assms(1,2,3)] assms(5) by simp
  qed
  show ?thesis
    unfolding run_loop_def wp_bind
  proof (rule wp_mono [OF first])
    fix x t assume "step_ok h0 0 [] x t"
    then show "wp (case x of Some r \<Rightarrow> returnM r | None \<Rightarrow>
        bindM (drainPendingUserMessages deps True) (\<lambda>_. bindM (getsM lp_iterationsUsed) (\<lambda>used.
          iterate deps ?tm ?maxI calls fuel (used + 1)))) ?R (escapes tot) t"
      using after by (cases x) (auto simp: wp_return intro: result_mono)
  qed simp_all
qed

end

end
