(* ===== verification/LoopParking.thy ===== *)
theory LoopParking
  imports LoopSafety
begin

text \<open>
  What the agent loop does to the world around it: whatever all the computations it is given keep,
  it keeps, and when it returns parked the world is as the waiter left it. Proved inside the locale
  \<open>loop_parking\<close>: \<open>D\<close> is kept by everything the loop calls, \<open>P\<close> holds when a tool call has
  been put to hibernation.
\<close>

definition holds_on :: "('x \<Rightarrow> bool) \<Rightarrow> 'x \<Rightarrow> 'x \<Rightarrow> bool" where
  "holds_on D w w' \<longleftrightarrow> (D w \<longrightarrow> D w')"

lemma holds_on_refl: "reflp (holds_on D)"
  by (rule reflpI) (simp add: holds_on_def)

lemma holds_on_trans: "transp (holds_on D)"
  by (rule transpI) (simp add: holds_on_def)

definition in_loop :: "('x \<Rightarrow> 'x \<Rightarrow> bool) \<Rightarrow> 'x loop_state \<Rightarrow> 'x loop_state \<Rightarrow> bool" where
  "in_loop R s t \<longleftrightarrow> R (lp_world s) (lp_world t)"

lemma in_loop_refl: "reflp R \<Longrightarrow> reflp (in_loop R)"
  by (simp add: reflp_def in_loop_def)

lemma in_loop_trans: "transp R \<Longrightarrow> transp (in_loop R)"
  by (rule transpI) (auto simp: in_loop_def dest: transpD)

lemma preserves_modifyM: "(\<And>s. R s (f s)) \<Longrightarrow> preserves R (modifyM f)"
  by (rule preservesI) (simp add: modifyM_def)

lemma preserves_getsM: "reflp R \<Longrightarrow> preserves R (getsM f)"
  by (rule preservesI) (simp add: getsM_def reflpD)

lemma preserves_finallyM:
  assumes "transp R" "preserves R m" "\<And>s. R s (f s)"
  shows "preserves R (finallyM m f)"
proof (rule preservesI)
  fix s
  show "R s (snd (finallyM m f s))"
    using transpD [OF assms(1) preservesD [OF assms(2), of s] assms(3)] by (cases "m s") (simp add: finallyM_def)
qed

lemma preserves_outside: "preserves R m \<Longrightarrow> preserves (in_loop R) (outside m)"
  unfolding preserves_def in_loop_def outside_def by (auto split: prod.splits sum.splits) (metis snd_conv)+

lemma preserves_at: "(\<And>s. \<exists>m'. preserves R m' \<and> m s = m' s) \<Longrightarrow> preserves R m"
  unfolding preserves_def by metis

locale loop_parking =
  fixes deps :: "'x loop_deps" and D :: "'x \<Rightarrow> bool" and P :: "'x \<Rightarrow> bool"
  assumes model_keeps: "preserves (holds_on D) (dp_callModel deps h)"
    and dispatch_keeps: "preserves (holds_on D) (dp_dispatchToolCall deps c)"
    and wait_keeps: "dp_waitForApproval deps = Some wait \<Longrightarrow> preserves (holds_on D) (wait a ctx)"
    and drain_keeps: "dp_drain deps = Some d \<Longrightarrow> preserves (holds_on D) d"
    and store_keeps: "dp_onHistoryChanged deps = Some f \<Longrightarrow> preserves (holds_on D) (f h)"
    and budget_keeps: "dp_onBudgetChanged deps = Some g \<Longrightarrow> preserves (holds_on D) (g b)"
    and wait_parks: "dp_waitForApproval deps = Some wait \<Longrightarrow> D w \<Longrightarrow> wait a ctx w = (Inr r, w') \<Longrightarrow>
      td_hibernated r \<Longrightarrow> P w'"
    and dispatch_parks: "D w \<Longrightarrow> dp_dispatchToolCall deps c w = (Inr r, w') \<Longrightarrow> td_hibernated r \<Longrightarrow> P w'"
begin

abbreviation L :: "'x loop_state \<Rightarrow> 'x loop_state \<Rightarrow> bool" where
  "L \<equiv> in_loop (holds_on D)"

lemma L_refl: "reflp L" and L_trans: "transp L"
  by (simp_all add: in_loop_refl in_loop_trans holds_on_refl holds_on_trans)

lemma L_same: "lp_world t = lp_world s \<Longrightarrow> L s t"
  by (simp add: in_loop_def holds_on_def)

lemma clock_world: "lp_world (pauseActiveClock deps s) = lp_world s" "lp_world (resumeActiveClock deps s) = lp_world s"
  by (simp_all add: pauseActiveClock_def resumeActiveClock_def)

lemmas L_intros = preserves_returnM [OF L_refl] preserves_throwM [OF L_refl] preserves_bindM [OF L_trans]
  preserves_catchM [OF L_trans] preserves_getsM [OF L_refl] preserves_finallyM [OF L_trans] preserves_modifyM

lemma outside_L: "preserves (holds_on D) m \<Longrightarrow> preserves L (outside m)"
  by (rule preserves_outside)

lemma save_budget_L: "preserves L (save_budget deps)"
proof (rule preserves_at)
  fix s
  show "\<exists>m'. preserves L m' \<and> save_budget deps s = m' s"
  proof (cases "dp_onBudgetChanged deps")
    case None
    then show ?thesis by (intro exI [of _ "returnM ()"]) (simp add: save_budget_def returnM_def L_intros)
  next
    case (Some g)
    then show ?thesis
      by (intro exI [of _ "outside (g (budgetSnapshot deps s))"]) (simp add: save_budget_def outside_L budget_keeps)
  qed
qed

lemma store_L: "preserves L (\<lambda>s. case dp_onHistoryChanged deps of None \<Rightarrow> (Inr (), s) | Some f \<Rightarrow> outside (f (lp_history s)) s)"
proof (rule preserves_at)
  fix s
  show "\<exists>m'. preserves L m' \<and> (case dp_onHistoryChanged deps of None \<Rightarrow> (Inr (), s) | Some f \<Rightarrow> outside (f (lp_history s)) s) = m' s"
  proof (cases "dp_onHistoryChanged deps")
    case None
    then show ?thesis by (intro exI [of _ "returnM ()"]) (simp add: returnM_def L_intros)
  next
    case (Some f)
    then show ?thesis by (intro exI [of _ "outside (f (lp_history s))"]) (simp add: outside_L store_keeps)
  qed
qed

lemma checkpoint_L: "preserves L (checkpoint deps)"
  unfolding checkpoint_def by (intro L_intros store_L save_budget_L)

lemma drain_L: "preserves L (drainPendingUserMessages deps b)"
proof (cases "dp_drain deps")
  case None
  then show ?thesis by (simp add: drainPendingUserMessages_def L_intros)
next
  case (Some d)
  have "preserves L (if es = [] then returnM () else bindM (modifyM f) (\<lambda>_. bindM (modifyM g) (\<lambda>_. checkpoint deps)))"
    if "\<And>s. lp_world (f s) = lp_world s" "\<And>s. lp_world (g s) = lp_world s" for es :: "conversation_entry list" and f g
    using that by (auto intro!: L_intros checkpoint_L L_same)
  then show ?thesis
    unfolding drainPendingUserMessages_def Some option.case
    by (intro L_intros outside_L drain_keeps [OF Some]) auto
qed

lemma terminate_L: "preserves L (terminate deps out n)"
  unfolding terminate_def by (intro L_intros drain_L save_budget_L)

lemma stopNow_L: "preserves L (stopNow deps n)"
  unfolding stopNow_def by (intro L_intros checkpoint_L terminate_L L_same) simp

lemma push_error_L: "preserves L (pushToolErrorResult deps call e)"
  unfolding pushToolErrorResult_def by (intro L_intros checkpoint_L L_same) (simp add: push_def)

lemma append_L: "preserves L (appendToolResult deps call r)"
  unfolding appendToolResult_def by (intro L_intros checkpoint_L L_same) (simp add: push_def)

text \<open>From here on both are carried: \<open>D\<close>, and \<open>P\<close> when the result says so.\<close>

definition parks :: "('a \<Rightarrow> bool) \<Rightarrow> 'a \<Rightarrow> 'x loop_state \<Rightarrow> bool" where
  "parks Q x s \<longleftrightarrow> D (lp_world s) \<and> (Q x \<longrightarrow> P (lp_world s))"

abbreviation fails :: "loop_exn \<Rightarrow> 'x loop_state \<Rightarrow> bool" where
  "fails e s \<equiv> D (lp_world s)"

lemma wp_L:
  assumes "preserves L m" "D (lp_world s)" "\<And>x t. m s = (Inr x, t) \<Longrightarrow> \<not> Q x"
  shows "wp m (parks Q) fails s"
  using preservesD [OF assms(1), of s] assms(2,3)
  by (intro wpI) (auto simp: parks_def in_loop_def holds_on_def)

lemma wp_L': "preserves L m \<Longrightarrow> D (lp_world s) \<Longrightarrow> wp m (\<lambda>_ s. D (lp_world s)) fails s"
  by (drule wp_L [where Q = "\<lambda>_. False"]) (auto simp: parks_def elim: wp_mono)

definition parked_result :: "task_loop_result \<Rightarrow> bool" where
  "parked_result r \<longleftrightarrow> lr_outcome r = LoopParked"

definition parked_option :: "task_loop_result option \<Rightarrow> bool" where
  "parked_option x = (case x of None \<Rightarrow> False | Some r \<Rightarrow> parked_result r)"

lemma terminate_ends: "terminate deps out n s = (Inr r, t) \<Longrightarrow> \<not> parked_result r"
  by (auto simp: terminate_def bindM_def getsM_def parked_result_def split: prod.splits sum.splits)

lemma stopNow_ends: "stopNow deps n s = (Inr r, t) \<Longrightarrow> \<not> parked_result r"
  by (auto simp: stopNow_def bindM_def dest: terminate_ends split: prod.splits sum.splits)

lemma terminate_parks: "D (lp_world s) \<Longrightarrow> wp (terminate deps out n) (parks parked_result) fails s"
  by (intro wp_L terminate_L) (auto dest: terminate_ends)

lemma stopNow_parks: "D (lp_world s) \<Longrightarrow> wp (stopNow deps n) (parks parked_result) fails s"
  by (intro wp_L stopNow_L) (auto dest: stopNow_ends)

lemma somehow_parks: "wp m (parks parked_result) fails s \<Longrightarrow> wp (somehow m) (parks parked_option) fails s"
  unfolding somehow_def wp_bind by (erule wp_mono) (auto simp: wp_return parks_def parked_option_def)

lemma wait_L: "preserves L (waitForParkedResult deps call a st iv hib)"
proof (cases "dp_waitForApproval deps")
  case None
  then show ?thesis by (simp add: waitForParkedResult_def L_intros)
next
  case (Some wait)
  show ?thesis
    unfolding waitForParkedResult_def Some option.case
    by (intro L_intros checkpoint_L outside_L wait_keeps [OF Some] L_same) (auto simp: clock_world intro!: L_intros)
qed

lemma wait_hibernates:
  assumes "D (lp_world s)"
  shows "wp (waitForParkedResult deps call a st iv hib) (parks td_hibernated) fails s"
proof (rule wpI)
  have D: "D (lp_world (snd (waitForParkedResult deps call a st iv hib s)))"
    using preservesD [OF wait_L, of s call a st iv hib] assms by (simp add: in_loop_def holds_on_def)
  then show "fails e t" if "waitForParkedResult deps call a st iv hib s = (Inl e, t)" for e t using that by simp
  show "parks td_hibernated r t" if run: "waitForParkedResult deps call a st iv hib s = (Inr r, t)" for r t
  proof -
    obtain wait where w: "dp_waitForApproval deps = Some wait"
      using run by (cases "dp_waitForApproval deps") (auto simp: waitForParkedResult_def throwM_def)
    obtain u where u: "checkpoint deps (pauseActiveClock deps s) = (Inr (), u)"
      and r: "wait a \<lparr>wc_stepId = st, wc_pollIntervalMs = iv, wc_call = Some call, wc_hibernate = hib\<rparr> (lp_world u) = (Inr r, lp_world t)"
      using run
      by (auto simp: waitForParkedResult_def w bindM_def modifyM_def finallyM_def throwM_def returnM_def outside_def
          clock_world split: prod.splits sum.splits if_splits)
    have "D (lp_world u)"
      using preservesD [OF checkpoint_L, of "pauseActiveClock deps s"] u assms by (simp add: in_loop_def holds_on_def clock_world)
    then show ?thesis using D wait_parks [OF w _ r] run by (simp add: parks_def)
  qed
qed

lemma wait_loop_parks:
  assumes "parks td_hibernated r s"
  shows "wp (wait_loop deps fuel call r) (parks td_hibernated) fails s"
  using assms
proof (induction fuel arbitrary: r s)
  case 0
  then show ?case
    by (subst wait_loop.simps) (auto simp: wp_simps parks_def split: option.splits)
next
  case (Suc fuel)
  show ?case
  proof (cases "td_approvalRequired r")
    case None
    then show ?thesis using Suc.prems by (subst wait_loop.simps) (simp add: wp_simps)
  next
    case (Some a)
    have D: "D (lp_world s)" using Suc.prems by (simp add: parks_def)
    have "wp (if td_hibernated x then returnM x else wait_loop deps fuel call x) (parks td_hibernated) fails t"
      if "parks td_hibernated x t" for x t
      using that Suc.IH by (simp add: wp_simps)
    then have "wp (waitForParkedResult deps call (aq_approvalId a) (aq_stepId a) (aq_pollIntervalMs a) True)
        (\<lambda>x. wp (if td_hibernated x then returnM x else wait_loop deps fuel call x) (parks td_hibernated) fails) fails s"
      by (intro wp_mono [OF wait_hibernates [OF D]])
    then show ?thesis using Suc.prems by (subst wait_loop.simps) (simp add: Some wp_gets wp_bind wp_return)
  qed
qed

lemma resolve_parks:
  assumes "D (lp_world s)"
  shows "wp (resolveToolResult deps fuel call) (parks td_hibernated) fails s"
proof -
  have L: "L s (snd (outside (dp_dispatchToolCall deps call) s))" by (rule preservesD [OF outside_L [OF dispatch_keeps]])
  have "wp (outside (dp_dispatchToolCall deps call)) (parks td_hibernated) fails s"
  proof (rule wpI)
    show "fails e t" if "outside (dp_dispatchToolCall deps call) s = (Inl e, t)" for e t
      using L that assms by (simp add: in_loop_def holds_on_def)
    show "parks td_hibernated r t" if run: "outside (dp_dispatchToolCall deps call) s = (Inr r, t)" for r t
    proof -
      have "dp_dispatchToolCall deps call (lp_world s) = (Inr r, lp_world t)"
        using run by (auto simp: outside_def split: prod.splits sum.splits)
      then show ?thesis using L run assms dispatch_parks [OF assms] by (simp add: in_loop_def holds_on_def parks_def)
    qed
  qed
  then show ?thesis
    unfolding resolveToolResult_def wp_bind by (rule wp_mono) (auto intro: wait_loop_parks)
qed

lemma wp_catch_thrown: "wp (catch_thrown m h) Q E s = wp m Q (\<lambda>e. wp (case e of Thrown err \<Rightarrow> h err | OutOfFuel \<Rightarrow> throwM OutOfFuel) Q E) s"
  by (simp add: catch_thrown_def wp_catch)

text \<open>A result, or the result of a call to go on with.\<close>

definition early :: "task_loop_result + tool_dispatch_result \<Rightarrow> bool" where
  "early x = (case x of Inl r \<Rightarrow> parked_result r | Inr d \<Rightarrow> td_hibernated d)"

lemma ended_early:
  assumes "wp m (parks parked_result) fails s"
  shows "wp (bindM m (\<lambda>r. returnM (Inl r))) (parks early) fails s"
  unfolding wp_bind by (rule wp_mono [OF assms]) (auto simp: wp_return parks_def early_def)

lemma failed_early:
  assumes "D (lp_world s)"
  shows "wp (bindM (pushToolErrorResult deps call e) (\<lambda>_. bindM (terminate deps out n) (\<lambda>r. returnM (Inl r)))) (parks early) fails s"
  unfolding wp_bind [of "pushToolErrorResult _ _ _"]
  by (rule wp_mono [OF wp_L' [OF push_error_L assms]]) (auto intro: ended_early terminate_parks)

lemma dispatchCall_parks:
  assumes "D (lp_world s)"
  shows "wp (dispatchCall deps fuel call n) (parks parked_option) fails s"
proof -
  have handler: "wp (case e of Thrown err \<Rightarrow> bindM (getsM (stopRequested deps)) (\<lambda>stop.
        if stop then bindM (stopNow deps n) (\<lambda>r. returnM (Inl r))
        else bindM (pushToolErrorResult deps call err) (\<lambda>_.
             bindM (terminate deps (call_failed_outcome call err) n) (\<lambda>r. returnM (Inl r))))
      | OutOfFuel \<Rightarrow> throwM OutOfFuel) (parks early) fails t" if "D (lp_world t)" for e t
    using that by (cases e) (auto simp: wp_throw wp_gets wp_bind [of "getsM _"] intro: ended_early failed_early stopNow_parks)
  have body: "wp (bindM (resolveToolResult deps fuel call) (\<lambda>r. returnM (Inr r :: task_loop_result + tool_dispatch_result)))
      (parks early) fails s"
    unfolding wp_bind by (rule wp_mono [OF resolve_parks [OF assms]]) (auto simp: wp_return parks_def early_def)
  have rest: "wp (case x of Inl r \<Rightarrow> returnM (Some r)
      | Inr result \<Rightarrow> if td_hibernated result
          then getsM (\<lambda>s. Some \<lparr>lr_outcome = LoopParked, lr_history = lp_history s, lr_iterations = n\<rparr>)
          else bindM (getsM (stopRequested deps)) (\<lambda>stop.
               if stop then somehow (stopNow deps n)
               else bindM (appendToolResult deps call result) (\<lambda>_.
                    if td_approvalDenied result
                    then somehow (terminate deps (plain_outcome HumanReject (Some FHuman)) n)
                    else returnM None))) (parks parked_option) fails t" if "parks early x t" for x t
  proof (cases x)
    case (Inl r)
    then show ?thesis using that by (simp add: wp_return parks_def early_def parked_option_def)
  next
    case (Inr result)
    have D: "D (lp_world t)" using that by (simp add: parks_def)
    have "wp (if td_approvalDenied result then somehow (terminate deps (plain_outcome HumanReject (Some FHuman)) n)
        else returnM None) (parks parked_option) fails u" if "D (lp_world u)" for u
      using that by (simp add: wp_if wp_return parks_def [of parked_option] parked_option_def somehow_parks terminate_parks)
    then have "wp (appendToolResult deps call result) (\<lambda>_. wp (if td_approvalDenied result
        then somehow (terminate deps (plain_outcome HumanReject (Some FHuman)) n) else returnM None) (parks parked_option) fails) fails t"
      by (intro wp_mono [OF wp_L' [OF append_L D]])
    then show ?thesis
      using that D Inr
      by (auto simp: wp_gets wp_bind [of "getsM _"] wp_bind [of "appendToolResult _ _ _"] parks_def [of early] early_def
          parks_def [of parked_option] parked_option_def parked_result_def intro: somehow_parks stopNow_parks)
  qed
  show ?thesis
    unfolding dispatchCall_def wp_bind [of "catch_thrown _ _"] wp_catch_thrown
    by (rule wp_mono [OF body]) (auto intro: rest handler wp_mono [OF handler])
qed

lemma next_parks:
  assumes "parks parked_option x t" "\<And>u. D (lp_world u) \<Longrightarrow> wp m (parks parked_option) fails u"
  shows "wp (case x of Some r \<Rightarrow> returnM (Some r) | None \<Rightarrow> m) (parks parked_option) fails t"
proof (cases x)
  case None
  moreover have "D (lp_world t)" using assms(1) by (simp add: parks_def)
  ultimately show ?thesis by (simp add: assms(2))
next
  case (Some r)
  then show ?thesis using assms(1) by (simp add: wp_return)
qed

lemma end_parks:
  assumes "parks parked_option x t" "\<And>u. D (lp_world u) \<Longrightarrow> wp m (parks parked_result) fails u"
  shows "wp (case x of Some r \<Rightarrow> returnM r | None \<Rightarrow> m) (parks parked_result) fails t"
proof (cases x)
  case None
  moreover have "D (lp_world t)" using assms(1) by (simp add: parks_def)
  ultimately show ?thesis by (simp add: assms(2))
next
  case (Some r)
  then show ?thesis using assms(1) by (simp add: wp_return parks_def parked_option_def)
qed

lemma rest_parks: "D (lp_world s) \<Longrightarrow> wp (dispatch_rest deps fuel calls n) (parks parked_option) fails s"
proof (induction calls arbitrary: s)
  case Nil
  then show ?case by (simp add: wp_return parks_def parked_option_def)
next
  case (Cons call calls)
  show ?case
    unfolding dispatch_rest.simps wp_bind
    by (rule wp_mono [OF dispatchCall_parks [OF Cons.prems]]) (auto intro: next_parks Cons.IH)
qed

lemma turn_parks: "D (lp_world s) \<Longrightarrow> wp (dispatch_turn deps fuel calls n) (parks parked_option) fails s"
proof (induction calls arbitrary: s)
  case Nil
  then show ?case by (simp add: wp_return parks_def parked_option_def)
next
  case (Cons call calls)
  have "wp (dispatchCall deps fuel call n) (\<lambda>x. wp (case x of Some r \<Rightarrow> returnM (Some r) | None \<Rightarrow> dispatch_turn deps fuel calls n)
      (parks parked_option) fails) fails s"
    by (rule wp_mono [OF dispatchCall_parks [OF Cons.prems]]) (auto intro: next_parks Cons.IH)
  then show ?case
    using Cons.prems by (simp add: wp_gets wp_bind somehow_parks stopNow_parks)
qed

lemma resume_parks:
  assumes "D (lp_world s)"
  shows "wp (resumeParked deps fuel a) (parks parked_option) fails s"
proof (cases "findUnansweredToolCalls (lp_history s)")
  case Nil
  then show ?thesis using assms by (simp add: resumeParked_def wp_bind wp_gets somehow_parks terminate_parks)
next
  case (Cons call others)
  let ?n = "lp_iterationsUsed s"
  have handler: "wp (case e of Thrown err \<Rightarrow> bindM (pushToolErrorResult deps call err) (\<lambda>_.
        bindM (terminate deps (call_failed_outcome call err) ?n) (\<lambda>r. returnM (Inl r)))
      | OutOfFuel \<Rightarrow> throwM OutOfFuel) (parks early) fails t" if "D (lp_world t)" for e t
    using that by (cases e) (auto simp: wp_throw intro: failed_early)
  have body: "wp (bindM (waitForParkedResult deps call a None None False) (\<lambda>r. returnM (Inr r :: task_loop_result + tool_dispatch_result)))
      (parks early) fails s"
    unfolding wp_bind by (rule wp_mono [OF wait_hibernates [OF assms]]) (auto simp: wp_return parks_def early_def)
  have rest: "wp (case x of Inl r \<Rightarrow> returnM (Some r)
      | Inr result \<Rightarrow> bindM (appendToolResult deps call result) (\<lambda>_.
          if td_approvalDenied result then somehow (terminate deps (plain_outcome HumanReject (Some FHuman)) ?n)
          else dispatch_rest deps fuel others ?n)) (parks parked_option) fails t" if "parks early x t" for x t
  proof (cases x)
    case (Inl r)
    then show ?thesis using that by (simp add: wp_return parks_def early_def parked_option_def)
  next
    case (Inr result)
    have D: "D (lp_world t)" using that by (simp add: parks_def)
    show ?thesis
      unfolding Inr sum.case wp_bind
      by (rule wp_mono [OF wp_L' [OF append_L D]]) (auto simp: somehow_parks terminate_parks rest_parks)
  qed
  have "wp (bindM (catch_thrown (bindM (waitForParkedResult deps call a None None False) (\<lambda>r. returnM (Inr r)))
      (\<lambda>e. bindM (pushToolErrorResult deps call e) (\<lambda>_.
           bindM (terminate deps (call_failed_outcome call e) ?n) (\<lambda>r. returnM (Inl r)))))
    (\<lambda>x. case x of Inl r \<Rightarrow> returnM (Some r)
      | Inr result \<Rightarrow> bindM (appendToolResult deps call result) (\<lambda>_.
          if td_approvalDenied result then somehow (terminate deps (plain_outcome HumanReject (Some FHuman)) ?n)
          else dispatch_rest deps fuel others ?n))) (parks parked_option) fails s"
    unfolding wp_bind [of "catch_thrown _ _"] wp_catch_thrown
    by (rule wp_mono [OF body]) (auto intro: rest handler wp_mono [OF handler])
  then show ?thesis by (simp add: resumeParked_def wp_bind [of "getsM _"] wp_gets Cons)
qed

lemma take_parks:
  assumes "D (lp_world s)"
  shows "wp (take_step deps fuel step n) (parks parked_option) fails s"
proof -
  have ended: "wp (somehow (terminate deps out n)) (parks parked_option) fails t" if "D (lp_world t)" for out t
    using that by (intro somehow_parks terminate_parks)
  have last: "wp (bindM (checkpoint deps) (\<lambda>_. returnM None)) (parks parked_option) fails t" if "D (lp_world t)" for t
    unfolding wp_bind by (rule wp_mono [OF wp_L' [OF checkpoint_L that]]) (simp_all add: wp_return parks_def parked_option_def)
  have turn: "wp (bindM (dispatch_turn deps fuel (mo_toolCalls step) n) (\<lambda>failed. case failed of
        Some r \<Rightarrow> returnM (Some r)
      | None \<Rightarrow>
         if mo_assessment step \<noteq> None \<and> list_all (\<lambda>c. isHarnessLocalTool (call_tool c)) (mo_toolCalls step)
         then somehow (terminate deps (mapTerminalAssessmentToOutcome (mo_assessment step)) n)
         else bindM (checkpoint deps) (\<lambda>_. returnM None))) (parks parked_option) fails t" if "D (lp_world t)" for t
    unfolding wp_bind [of "dispatch_turn _ _ _ _"]
  proof (rule wp_mono [OF turn_parks [OF that]])
    fix x u
    assume x: "parks parked_option x u"
    then have "D (lp_world u)" by (simp add: parks_def)
    then show "wp (case x of Some r \<Rightarrow> returnM (Some r)
      | None \<Rightarrow>
         if mo_assessment step \<noteq> None \<and> list_all (\<lambda>c. isHarnessLocalTool (call_tool c)) (mo_toolCalls step)
         then somehow (terminate deps (mapTerminalAssessmentToOutcome (mo_assessment step)) n)
         else bindM (checkpoint deps) (\<lambda>_. returnM None)) (parks parked_option) fails u"
      using x by (cases x) (auto simp: wp_return ended last)
  qed simp
  have "wp (checkpoint deps) (\<lambda>_ t. D (lp_world t)) fails
      (push (AssistantEntry (mo_text step) (mo_toolCalls step)) (s\<lparr>lp_iterationsUsed := n\<rparr>))"
    by (rule wp_L' [OF checkpoint_L]) (use assms in \<open>simp add: push_def\<close>)
  then show ?thesis
    unfolding take_step_def wp_simps
    by (rule wp_mono) (auto simp: ended somehow_parks stopNow_parks turn [unfolded wp_simps])
qed

lemma ask_parks:
  assumes "D (lp_world s)"
  shows "wp (ask_model deps n) (parks (\<lambda>x. case x of Inl r \<Rightarrow> parked_result r | Inr step \<Rightarrow> False)) fails s"
proof -
  let ?Q = "\<lambda>x :: task_loop_result + model_step. case x of Inl r \<Rightarrow> parked_result r | Inr step \<Rightarrow> False"
  have end': "wp (bindM (terminate deps out n) (\<lambda>r. returnM (Inl r))) (parks ?Q) fails t" if "D (lp_world t)" for out t
    unfolding wp_bind by (rule wp_mono [OF terminate_parks [OF that]]) (auto simp: wp_return parks_def)
  have model: "wp (outside (dp_callModel deps (lp_history s))) (\<lambda>_ t. D (lp_world t)) fails s"
    by (rule wp_L' [OF outside_L [OF model_keeps] assms])
  have "wp (\<lambda>s. outside (dp_callModel deps (lp_history s)) s) (\<lambda>step. parks ?Q (Inr step)) fails s"
    by (rule wp_at [where m' = "outside (dp_callModel deps (lp_history s))"]) (auto simp: parks_def intro: wp_mono [OF model])
  then show ?thesis
    unfolding ask_model_def wp_catch_thrown wp_bind wp_return
    by (rule wp_mono) (auto simp: wp_simps end' [unfolded wp_bind wp_return] split: loop_exn.split)
qed

lemma iterate_parks: "D (lp_world s) \<Longrightarrow> wp (iterate deps tm maxI calls fuel n) (parks parked_result) fails s"
proof (induction fuel arbitrary: n s)
  case 0
  show ?case
  proof (cases "within_limit maxI n")
    case True
    then show ?thesis using 0 by (intro wp_at [OF iterate_no_fuel]) (simp_all add: wp_throw)
  next
    case False
    then show ?thesis using 0 by (intro wp_at [OF iterate_over] terminate_parks)
  qed
next
  case (Suc fuel)
  have after: "wp (case over of Some r \<Rightarrow> returnM r | None \<Rightarrow> iterate deps tm maxI calls fuel (n + 1)) (parks parked_result) fails t"
    if "parks parked_option over t" for over t
    using that by (intro end_parks Suc.IH)
  have take: "wp (bindM (take_step deps calls step n) (\<lambda>over. case over of Some r \<Rightarrow> returnM r
      | None \<Rightarrow> iterate deps tm maxI calls fuel (n + 1))) (parks parked_result) fails t" if "D (lp_world t)" for step t
    unfolding wp_bind by (rule wp_mono [OF take_parks [OF that]]) (auto intro: after)
  have ask: "wp (bindM (ask_model deps n) (\<lambda>answer. case answer of Inl r \<Rightarrow> returnM r
      | Inr step \<Rightarrow> bindM (take_step deps calls step n) (\<lambda>over. case over of Some r \<Rightarrow> returnM r
          | None \<Rightarrow> iterate deps tm maxI calls fuel (n + 1)))) (parks parked_result) fails t" if "D (lp_world t)" for t
    unfolding wp_bind [of "ask_model _ _"]
    by (rule wp_mono [OF ask_parks [OF that]]) (auto simp: wp_return parks_def intro: take split: sum.split)
  consider "\<not> within_limit maxI n" | "within_limit maxI n" "timed_out deps tm s"
    | "within_limit maxI n" "\<not> timed_out deps tm s" "stopRequested deps s"
    | "within_limit maxI n" "\<not> timed_out deps tm s" "\<not> stopRequested deps s" by blast
  then show ?case
  proof cases
    case 4
    have "wp (drainPendingUserMessages deps False) (\<lambda>_. wp (bindM (ask_model deps n) (\<lambda>answer. case answer of Inl r \<Rightarrow> returnM r
      | Inr step \<Rightarrow> bindM (take_step deps calls step n) (\<lambda>over. case over of Some r \<Rightarrow> returnM r
          | None \<Rightarrow> iterate deps tm maxI calls fuel (n + 1)))) (parks parked_result) fails) fails s"
      by (rule wp_mono [OF wp_L' [OF drain_L Suc.prems]]) (auto intro: ask)
    then show ?thesis by (rule_tac wp_at, rule_tac iterate_ask [OF 4]) (simp only: wp_bind)
  qed (use Suc.prems in \<open>auto intro: wp_at [OF iterate_over] wp_at [OF iterate_timeout] wp_at [OF iterate_stop] terminate_parks stopNow_parks\<close>)
qed

lemma run_loop_parks:
  assumes "D (lp_world s)"
  shows "wp (run_loop calls fuel start deps) (parks parked_result) fails s"
proof -
  have first: "wp (case ls_resumeParkedApproval start of None \<Rightarrow> returnM None | Some approvalId \<Rightarrow> resumeParked deps calls approvalId)
      (parks parked_option) fails s"
    using assms by (auto simp: wp_return parks_def parked_option_def resume_parks split: option.split)
  have after: "wp (bindM (drainPendingUserMessages deps True) (\<lambda>_. bindM (getsM lp_iterationsUsed) (\<lambda>used.
      iterate deps tm maxI calls fuel (used + 1)))) (parks parked_result) fails t" if "D (lp_world t)" for t tm maxI
    unfolding wp_bind by (rule wp_mono [OF wp_L' [OF drain_L that]]) (auto simp: wp_gets iterate_parks)
  show ?thesis
    unfolding run_loop_def wp_bind [of "case_option _ _ _"]
    by (rule wp_mono [OF first]) (auto intro: end_parks after)
qed

end
section \<open>What the loop throws\<close>

text \<open>
  The loop catches what the model, the dispatch and the wait throw: what escapes comes from
  storing the history and the budget or from draining.
\<close>

definition only_throws :: "(run_error \<Rightarrow> bool) \<Rightarrow> ('s, loop_exn, 'a) comp \<Rightarrow> bool" where
  "only_throws G m \<longleftrightarrow> (\<forall>s e t. m s = (Inl (Thrown e), t) \<longrightarrow> G e)"

lemma only_throwsD: "only_throws G m \<Longrightarrow> m s = (Inl (Thrown e), t) \<Longrightarrow> G e"
  unfolding only_throws_def by blast

lemma only_throws_basic:
  "only_throws G (returnM x)" "only_throws G (modifyM f)" "only_throws G (getsM g)" "only_throws G (throwM OutOfFuel)"
  by (simp_all add: only_throws_def returnM_def modifyM_def getsM_def throwM_def)

lemma only_throws_bind:
  assumes "only_throws G m" "\<And>x. only_throws G (k x)"
  shows "only_throws G (bindM m k)"
  unfolding only_throws_def
proof (intro allI impI)
  fix s e t
  assume "bindM m k s = (Inl (Thrown e), t)"
  then consider u where "m s = (Inl (Thrown e), u)" | x u where "k x u = (Inl (Thrown e), t)"
    by (auto simp: bindM_def split: prod.splits sum.splits)
  then show "G e" using assms by cases (auto dest: only_throwsD)
qed

lemma only_throws_catch:
  assumes "\<And>e. only_throws G (h e)"
  shows "only_throws G (catch_thrown m h)"
  unfolding only_throws_def
proof (intro allI impI)
  fix s e t
  assume "catch_thrown m h s = (Inl (Thrown e), t)"
  then obtain e' u where "h e' u = (Inl (Thrown e), t)"
    by (auto simp: catch_thrown_def catchM_def throwM_def split: prod.splits sum.splits loop_exn.splits)
  then show "G e" using assms by (auto dest: only_throwsD)
qed

lemmas only_throws_intros = only_throws_basic only_throws_bind only_throws_catch

lemma only_throws_at: "(\<And>s. \<exists>m'. only_throws G m' \<and> m s = m' s) \<Longrightarrow> only_throws G m"
  unfolding only_throws_def by metis

locale loop_errors =
  fixes deps :: "'x loop_deps" and G :: "run_error \<Rightarrow> bool"
  assumes drain_throws: "dp_drain deps = Some d \<Longrightarrow> d w = (Inl e, w') \<Longrightarrow> G e"
    and store_throws: "dp_onHistoryChanged deps = Some f \<Longrightarrow> f h w = (Inl e, w') \<Longrightarrow> G e"
    and budget_throws: "dp_onBudgetChanged deps = Some g \<Longrightarrow> g b w = (Inl e, w') \<Longrightarrow> G e"
begin

lemma save_budget_G: "only_throws G (save_budget deps)"
  unfolding only_throws_def save_budget_def outside_def
  by (auto dest: budget_throws split: option.splits prod.splits sum.splits)

lemma checkpoint_G: "only_throws G (checkpoint deps)"
proof -
  have "only_throws G (\<lambda>s. case dp_onHistoryChanged deps of None \<Rightarrow> (Inr (), s) | Some f \<Rightarrow> outside (f (lp_history s)) s)"
    unfolding only_throws_def outside_def by (auto dest: store_throws split: option.splits prod.splits sum.splits)
  then show ?thesis unfolding checkpoint_def by (intro only_throws_intros save_budget_G)
qed

lemma drain_G: "only_throws G (drainPendingUserMessages deps b)"
proof (cases "dp_drain deps")
  case None
  then show ?thesis by (simp add: drainPendingUserMessages_def only_throws_intros)
next
  case (Some d)
  have "only_throws G (outside d)"
    unfolding only_throws_def outside_def by (auto dest: drain_throws [OF Some] split: prod.splits sum.splits)
  then show ?thesis
    unfolding drainPendingUserMessages_def Some option.case
    by (intro only_throws_intros) (auto intro!: only_throws_intros checkpoint_G)
qed

lemma terminate_G: "only_throws G (terminate deps out n)"
  unfolding terminate_def by (intro only_throws_intros drain_G save_budget_G)

lemma stopNow_G: "only_throws G (stopNow deps n)"
  unfolding stopNow_def by (intro only_throws_intros checkpoint_G terminate_G)

lemma push_error_G: "only_throws G (pushToolErrorResult deps call e)"
  unfolding pushToolErrorResult_def by (intro only_throws_intros checkpoint_G)

lemma append_G: "only_throws G (appendToolResult deps call r)"
  unfolding appendToolResult_def by (intro only_throws_intros checkpoint_G)

lemmas G_intros = only_throws_intros checkpoint_G drain_G terminate_G stopNow_G push_error_G append_G

lemma somehow_G: "only_throws G m \<Longrightarrow> only_throws G (somehow m)"
  unfolding somehow_def by (intro G_intros)

lemma dispatchCall_G: "only_throws G (dispatchCall deps fuel call n)"
  unfolding dispatchCall_def
  by (intro only_throws_intros) (auto intro!: G_intros somehow_G split: sum.split)

lemma dispatch_rest_G: "only_throws G (dispatch_rest deps fuel calls n)"
  by (induction calls) (auto intro!: only_throws_intros dispatchCall_G split: option.split)

lemma dispatch_turn_G: "only_throws G (dispatch_turn deps fuel calls n)"
  by (induction calls) (auto intro!: only_throws_intros dispatchCall_G somehow_G stopNow_G split: option.split)

lemma resume_G: "only_throws G (resumeParked deps fuel a)"
  unfolding resumeParked_def
  by (intro only_throws_intros) (auto intro!: G_intros somehow_G dispatch_rest_G split: sum.split list.split)

lemma take_G: "only_throws G (take_step deps fuel step n)"
  unfolding take_step_def
  by (intro only_throws_intros checkpoint_G) (auto intro!: G_intros somehow_G dispatch_turn_G split: option.split)

lemma ask_G: "only_throws G (ask_model deps n)"
  unfolding ask_model_def by (intro G_intros)

lemma iterate_G: "only_throws G (iterate deps tm maxI calls fuel n)"
proof (induction fuel arbitrary: n)
  case 0
  show ?case
  proof (rule only_throws_at)
    fix s
    show "\<exists>m'. only_throws G m' \<and> iterate deps tm maxI calls 0 n s = m' s"
    proof (cases "within_limit maxI n")
      case True
      show ?thesis by (rule exI [of _ "throwM OutOfFuel"]) (simp add: only_throws_basic iterate_no_fuel [OF True])
    next
      case False
      show ?thesis
        by (rule exI [of _ "terminate deps (plain_outcome IterationExhausted (Some FLimit)) (lp_iterationsUsed s)"])
          (simp add: terminate_G iterate_over [OF False])
    qed
  qed
next
  case (Suc fuel)
  have go: "only_throws G (bindM (drainPendingUserMessages deps False) (\<lambda>_. bindM (ask_model deps n) (\<lambda>answer. case answer of Inl r \<Rightarrow> returnM r
        | Inr step \<Rightarrow> bindM (take_step deps calls step n) (\<lambda>over. case over of Some r \<Rightarrow> returnM r
            | None \<Rightarrow> iterate deps tm maxI calls fuel (n + 1)))))"
    by (intro only_throws_intros drain_G ask_G) (auto intro!: only_throws_intros take_G Suc.IH split: sum.split option.split)
  show ?case
  proof (rule only_throws_at)
    fix s
    consider "\<not> within_limit maxI n" | "within_limit maxI n" "timed_out deps tm s"
      | "within_limit maxI n" "\<not> timed_out deps tm s" "stopRequested deps s"
      | "within_limit maxI n" "\<not> timed_out deps tm s" "\<not> stopRequested deps s" by blast
    then show "\<exists>m'. only_throws G m' \<and> iterate deps tm maxI calls (Suc fuel) n s = m' s"
    proof cases
      case 1
      show ?thesis
        by (rule exI [of _ "terminate deps (plain_outcome IterationExhausted (Some FLimit)) (lp_iterationsUsed s)"])
          (simp add: terminate_G iterate_over [OF 1])
    next
      case 2
      show ?thesis
        by (rule exI [of _ "terminate deps (plain_outcome TimedOut (Some FLimit)) (lp_iterationsUsed s)"])
          (simp add: terminate_G iterate_timeout [OF 2])
    next
      case 3
      show ?thesis by (rule exI [of _ "stopNow deps (lp_iterationsUsed s)"]) (simp add: stopNow_G iterate_stop [OF 3])
    next
      case 4
      show ?thesis by (rule exI, rule conjI, rule go, rule iterate_ask [OF 4])
    qed
  qed
qed

lemma run_loop_G: "only_throws G (run_loop calls fuel start deps)"
  unfolding run_loop_def
  by (intro only_throws_intros) (auto intro!: only_throws_intros resume_G drain_G iterate_G split: option.split)

end

end
