(* ===== verification/RunLifecycle.thy ===== *)
theory RunLifecycle
  imports RunHistory
begin

text \<open>
  The life of a run in the repository: creation and retention, continuation, the races of
  both, and the conversation that is stored with the run.
\<close>

section \<open>Creation and retention\<close>

definition total_le :: "('a \<Rightarrow> 'a \<Rightarrow> bool) \<Rightarrow> bool" where
  "total_le le \<longleftrightarrow> transp le \<and> (\<forall>a b. le a b \<or> le b a)"

lemma insert_by_sorted: "total_le le \<Longrightarrow> sorted_wrt le xs \<Longrightarrow> sorted_wrt le (insert_by le x xs)"
proof (induction xs)
  case (Cons y ys)
  have tr: "le a b \<Longrightarrow> le b c \<Longrightarrow> le a c" for a b c using Cons.prems(1) by (auto simp: total_le_def dest: transpD)
  have "le y x" if "\<not> le x y" using Cons.prems(1) that by (auto simp: total_le_def)
  then show ?case using Cons tr by auto
qed simp

lemma sort_by_sorted: "total_le le \<Longrightarrow> sorted_wrt le (sort_by le xs)"
  unfolding sort_by_def by (induction xs) (simp_all add: insert_by_sorted)

lemma total_run_le: "total_le (rv_id_le env) \<Longrightarrow> total_le (\<lambda>l r. run_le env r l)"
  unfolding total_le_def run_le_def transp_def by (smt (verit, best))

lemma trim_fold_runs: "rd_runs (fold trim_delete ids db) = filter (\<lambda>r. rr_id r \<notin> set ids) (rd_runs db)"
proof (induction ids arbitrary: db)
  case (Cons i ids)
  then show ?case by (auto simp: trim_delete_def tbl_delete_def intro: filter_cong)
qed simp

definition completed_rows :: "run_db \<Rightarrow> run_row list" where
  "completed_rows db = filter (\<lambda>r. rr_status r = RunCompleted) (rd_runs db)"

lemma survivors:
  assumes "run_wf db" "r \<in> set (completed_rows db)" "rr_id r \<notin> set (trim_select env db)"
  shows "r \<in> set (take (rv_retention env) (newest_first env (completed_rows db)))"
proof -
  let ?ns = "newest_first env (completed_rows db)"
  have "r \<in> set ?ns" using assms(2) by (simp add: newest_first_def)
  moreover have "r \<notin> set (drop (rv_retention env) ?ns)" using assms(3) by (auto simp: trim_select_def completed_rows_def)
  ultimately show ?thesis by (metis UnE append_take_drop_id set_append)
qed

lemma trim_bound:
  assumes "run_wf db"
  shows "length (completed_rows (snd (trim_runs env db))) \<le> rv_retention env"
proof -
  let ?c = "completed_rows (snd (trim_runs env db))"
  let ?top = "take (rv_retention env) (newest_first env (completed_rows db))"
  have "distinct (map rr_id (rd_runs db))" using assms by (simp add: run_wf_def)
  then have d: "distinct ?c" by (auto simp: completed_rows_def trim_runs_def trim_fold_runs dest!: distinct_map [THEN iffD1])
  have "set ?c \<subseteq> set ?top"
    using survivors [OF assms] by (auto simp: completed_rows_def trim_runs_def trim_fold_runs)
  then have "card (set ?c) \<le> card (set ?top)" by (intro card_mono) simp_all
  also have "\<dots> \<le> length ?top" by (rule card_length)
  also have "\<dots> \<le> rv_retention env" by simp
  finally show ?thesis using distinct_card [OF d] by simp
qed

lemma trim_oldest:
  assumes "run_wf db" "total_le (rv_id_le env)"
    and "i \<in> set (trim_select env db)" "r \<in> set (completed_rows (snd (trim_runs env db)))"
  shows "\<exists>old \<in> set (rd_runs db). rr_id old = i \<and> rr_status old = RunCompleted \<and> run_le env old r"
proof -
  let ?n = "rv_retention env" and ?ns = "newest_first env (completed_rows db)"
  have r: "r \<in> set (take ?n ?ns)"
    using survivors [OF assms(1), of r env] assms(4) by (auto simp: completed_rows_def trim_runs_def trim_fold_runs)
  obtain old where old: "old \<in> set (drop ?n ?ns)" "rr_id old = i"
    using assms(3) by (auto simp: trim_select_def completed_rows_def)
  have "sorted_wrt (\<lambda>l r. run_le env r l) (take ?n ?ns @ drop ?n ?ns)"
    using sort_by_sorted [OF total_run_le [OF assms(2)]] by (simp add: newest_first_def)
  then have "run_le env old r" using r old(1) unfolding sorted_wrt_append by blast
  moreover have "old \<in> set (completed_rows db)" using in_set_dropD [OF old(1)] by (simp add: newest_first_def)
  ultimately show ?thesis using old(2) by (auto simp: completed_rows_def)
qed

lemma insert_run_ok:
  "insert_run row db = (Inr u, db') \<Longrightarrow> db' = on_runs (\<lambda>t. t @ [row]) db"
  by (auto simp: insert_run_def split: if_splits)

lemma create_run_ok:
  assumes "create_run env inp now db = (Inr rep, db')"
  shows "\<exists>row db1. row = new_run_row inp (or_else (cq_startedAt inp) now) \<and> insert_run row db = (Inr (), db1) \<and>
    db1 = on_runs (\<lambda>t. t @ [row]) db \<and> db' = snd (trim_runs env db1) \<and> rep = rowToRunReport row []"
proof -
  let ?row = "new_run_row inp (or_else (cq_startedAt inp) now)"
  obtain db1 where ins: "insert_run ?row db = (Inr (), db1)"
    using assms by (cases "insert_run ?row db"; cases "fst (insert_run ?row db)") (auto simp: create_run_def Let_def comp_simps)
  then show ?thesis using assms insert_run_ok [OF ins] by (auto simp: create_run_def Let_def comp_simps trim_runs_def)
qed

text \<open>
  C13. Starting a run adds it and keeps every running run; afterwards at most the configured
  number of completed runs is left, and whatever retention removed was completed and no more
  recent than any completed run that stays.
\<close>

theorem creation_keeps_recent_runs:
  assumes "run_wf db" "total_le (rv_id_le env)" "create_run env inp now db = (Inr rep, db')"
  shows "getRunRow (cq_id inp) db' = Some (new_run_row inp (or_else (cq_startedAt inp) now)) \<and>
    (\<forall>r \<in> set (rd_runs db). is_running r \<longrightarrow> getRunRow (rr_id r) db' = Some r) \<and>
    length (completed_rows db') \<le> rv_retention env \<and>
    (\<forall>r \<in> set (rd_runs db). getRunRow (rr_id r) db' = Some r \<or> getRunRow (rr_id r) db' = None \<and>
       rr_status r = RunCompleted \<and> (\<forall>stay \<in> set (completed_rows db'). run_le env r stay))"
proof -
  obtain row db1 where row: "row = new_run_row inp (or_else (cq_startedAt inp) now)" "insert_run row db = (Inr (), db1)"
    "db1 = on_runs (\<lambda>t. t @ [row]) db" "db' = snd (trim_runs env db1)"
    using create_run_ok [OF assms(3)] by blast
  have run: "is_running row" "rr_id row = cq_id inp" by (simp_all add: row(1) new_run_row_def is_running_def)
  have wf1: "run_wf db1"
    using insert_run_wf [OF assms(1) run(1)] row by (simp add: new_run_row_def run_row_ok_def is_running_def)
  have get: "getRunRow i db' = (if i \<in> set (trim_select env db1) then None else getRunRow i db1)" for i
    by (simp add: row(4) trim_runs_def getRunRow_trims)
  have in1: "getRunRow (rr_id r) db1 = Some r" if "r \<in> set (rd_runs db) \<or> r = row" for r
    by (rule getRunRow_unique [OF wf1]) (use that row(3) in auto)
  have kept: "getRunRow (rr_id r) db' = Some r" if "r \<in> set (rd_runs db) \<or> r = row" "is_running r" for r
    using get trimmed_not_running [OF wf1 in1 [OF that(1)] that(2)] in1 [OF that(1)] by simp
  have old: "rr_status r = RunCompleted \<and> (\<forall>stay \<in> set (completed_rows db'). run_le env r stay)"
    if r: "r \<in> set (rd_runs db)" "rr_id r \<in> set (trim_select env db1)" for r
  proof -
    have same: "o' = r" if "o' \<in> set (rd_runs db1)" "rr_id o' = rr_id r" for o'
    proof (rule distinct_key_unique [OF _ that(1) _ that(2)])
      show "distinct (map rr_id (rd_runs db1))" using wf1 by (simp add: run_wf_def)
      show "r \<in> set (rd_runs db1)" unfolding row(3) using r(1) by simp
    qed
    obtain o1 where "o1 \<in> set (rd_runs db1)" "rr_id o1 = rr_id r" "rr_status o1 = RunCompleted"
      using trim_select_completed [OF r(2)] by blast
    then have "rr_status r = RunCompleted" using same by blast
    moreover have "run_le env r stay" if stays: "stay \<in> set (completed_rows db')" for stay
    proof -
      obtain o2 where "o2 \<in> set (rd_runs db1)" "rr_id o2 = rr_id r" "run_le env o2 stay"
        using trim_oldest [OF wf1 assms(2) r(2), of stay] stays unfolding row(4) by blast
      then show ?thesis using same by blast
    qed
    ultimately show ?thesis by blast
  qed
  have "getRunRow (cq_id inp) db' = Some row" using kept [of row] run by simp
  moreover have "length (completed_rows db') \<le> rv_retention env" unfolding row(4) by (rule trim_bound [OF wf1])
  moreover have "getRunRow (rr_id r) db' = Some r \<or> getRunRow (rr_id r) db' = None \<and>
       rr_status r = RunCompleted \<and> (\<forall>stay \<in> set (completed_rows db'). run_le env r stay)" if "r \<in> set (rd_runs db)" for r
    using get [of "rr_id r"] in1 [of r] old [OF that] that by (cases "rr_id r \<in> set (trim_select env db1)") simp_all
  ultimately show ?thesis using kept row(1) by blast
qed

theorem creation_keeps_recent_runs_witness:
  "getRunRow ''r2'' (snd (create_run example_env (example_request ''r3'') 6 (example_db [example_completed]))) = None \<and>
    length (completed_rows (snd (create_run example_env (example_request ''r3'') 6 (example_db [example_completed])))) \<le> 0"
proof -
  let ?r = "create_run example_env (example_request ''r3'') 6 (example_db [example_completed])"
  have t: "total_le (rv_id_le example_env)" by (auto simp: total_le_def example_env_def transp_def)
  have "\<exists>rep. fst ?r = Inr rep"
    by (simp add: create_run_def Let_def comp_simps insert_run_def trim_runs_def getRunRow_def busy_def is_running_def
        tbl_simps pg_int4_opt_def example_defs)
  then obtain rep where "?r = (Inr rep, snd ?r)" by (metis prod.collapse)
  note c = creation_keeps_recent_runs [OF example_wf(2) t this]
  have mem: "example_completed \<in> set (rd_runs (example_db [example_completed]))" by (simp add: example_db_def)
  have i: "rr_id example_completed = ''r2''" "rv_retention example_env = 0" by (simp_all add: example_defs)
  have "length (completed_rows (snd ?r)) \<le> rv_retention example_env" using c by blast
  then have "completed_rows (snd ?r) = []" unfolding i by simp
  moreover have "getRunRow ''r2'' (snd ?r) = Some example_completed \<or> getRunRow ''r2'' (snd ?r) = None"
    using bspec [OF c [THEN conjunct2, THEN conjunct2, THEN conjunct2] mem] unfolding i by (rule disj_forward) simp_all
  moreover have "getRunRow ''r2'' (snd ?r) \<noteq> Some example_completed" if "completed_rows (snd ?r) = []"
  proof
    have fin: "rr_status example_completed = RunCompleted" by (simp add: example_completed_def)
    assume "getRunRow ''r2'' (snd ?r) = Some example_completed"
    then have "example_completed \<in> set (completed_rows (snd ?r))"
      using getRunRow_in fin by (simp add: completed_rows_def)
    with that show False by simp
  qed
  ultimately show ?thesis by auto
qed

section \<open>Continuations\<close>

definition step_fresh :: "run_step option \<Rightarrow> run_db \<Rightarrow> bool" where
  "step_fresh us db = (case us of None \<Rightarrow> True
     | Some s \<Rightarrow> \<not> (\<exists>x \<in> set (rd_steps db). rs_timestamp (sp_step x) = rs_timestamp s \<and> rs_id (sp_step x) = rs_id s))"

definition message_step :: "string option \<Rightarrow> run_step option \<Rightarrow> run_step option" where
  "message_step msg us = (if truthy_str msg then us else None)"

definition can_continue :: "run_env \<Rightarrow> string option \<Rightarrow> run_step option \<Rightarrow> run_row \<Rightarrow> run_db \<Rightarrow> bool" where
  "can_continue env msg us r db \<longleftrightarrow> rr_status r = RunCompleted \<and> isEligibleContinuationOutcome (rr_outcome r) \<and>
     parseConversationHistory (rv_parse env) (rr_history r) \<noteq> None \<and> \<not> busy (rr_task_id r) db \<and>
     step_fresh (message_step msg us) db"

definition continued_history :: "run_env \<Rightarrow> string option \<Rightarrow> run_row \<Rightarrow> conversation_entry list" where
  "continued_history env msg r =
    the (parseConversationHistory (rv_parse env) (rr_history r)) @ (if truthy_str msg then [UserEntry (or_else msg [])] else [])"

definition continued_db :: "run_env \<Rightarrow> string option \<Rightarrow> run_step option \<Rightarrow> int \<Rightarrow> run_row \<Rightarrow> run_db \<Rightarrow> run_db" where
  "continued_db env msg us now r db =
    (let s = message_step msg us in
     (on_runs (tbl_update (\<lambda>x. rr_id x = rr_id r \<and> rr_status x = RunCompleted)
        (continue_row (continued_history env msg r) (s \<noteq> None) (truthy_str msg) now)) db)
     \<lparr>rd_steps := rd_steps db @ (case s of None \<Rightarrow> [] | Some x \<Rightarrow> [\<lparr>sp_run_id = rr_id r, sp_step = x\<rparr>])\<rparr>)"

lemma check_result:
  assumes "getRunRow i db = Some r" "rr_status r = RunCompleted" "isEligibleContinuationOutcome (rr_outcome r)"
    "parseConversationHistory (rv_parse env) (rr_history r) = Some h"
  shows "continuation_check env i msg db = Inr (continued_history env msg r)"
  using assms history_valid [OF assms(4)]
  by (simp add: continuation_check_def continued_history_def appendUserMessageToHistory_def)

lemma check_needs:
  assumes "getRunRow i db = Some r" "continuation_check env i msg db = Inr h"
  shows "rr_status r = RunCompleted \<and> isEligibleContinuationOutcome (rr_outcome r) \<and>
    parseConversationHistory (rv_parse env) (rr_history r) \<noteq> None"
  using assms by (auto simp: continuation_check_def split: if_splits option.splits)

lemma reopen_unfold:
  assumes "run_wf db" "getRunRow i db = Some r" "rr_status r = RunCompleted"
  shows "reopen i f db = (if busy (rr_task_id r) db then (Inl (RunPg (PgUnique one_running_index)), db)
    else (Inr True, on_runs (tbl_update (\<lambda>x. rr_id x = i \<and> rr_status x = RunCompleted) f) db))"
proof -
  note ri = getRunRow_in [OF assms(2)]
  have uniq: "x = r" if "x \<in> set (rd_runs db)" "rr_id x = i" for x
    using getRunRow_unique [OF assms(1) that(1)] that(2) assms(2) by simp
  have 1: "(\<exists>x \<in> set (rd_runs db). rr_id x = i \<and> rr_status x = RunCompleted \<and> busy (rr_task_id x) db) = busy (rr_task_id r) db"
    using uniq ri assms(3) by blast
  have 2: "\<exists>x \<in> set (rd_runs db). rr_id x = i \<and> rr_status x = RunCompleted" using ri assms(3) by blast
  show ?thesis unfolding reopen_def 1 update_runs_def tbl_count_pos using 2 by simp
qed

lemma write_result:
  assumes "run_wf db" "getRunRow i db = Some r" "rr_status r = RunCompleted"
  shows "continuation_write i h s b now db =
    (if busy (rr_task_id r) db then (Inl (RunPg (PgUnique one_running_index)), db)
     else if \<not> step_fresh s db then (Inl (RunPg (PgUnique ''run_steps_pkey'')), db)
     else (Inr (Inr h), (on_runs (tbl_update (\<lambda>x. rr_id x = i \<and> rr_status x = RunCompleted) (continue_row h (s \<noteq> None) b now)) db)
       \<lparr>rd_steps := rd_steps db @ (case s of None \<Rightarrow> [] | Some x \<Rightarrow> [\<lparr>sp_run_id = i, sp_step = x\<rparr>])\<rparr>))"
proof (cases s)
  case None
  then show ?thesis
    by (simp add: continuation_write_def comp_simps reopen_unfold [OF assms] step_fresh_def)
next
  case (Some x)
  let ?db = "on_runs (tbl_update (\<lambda>x. rr_id x = i \<and> rr_status x = RunCompleted) (continue_row h True b now)) db"
  have "getRunRow i ?db \<noteq> None"
    using assms(2) by (subst getRunRow_update) (simp_all add: continue_row_def)
  then obtain y where "getRunRow i ?db = Some y" by blast
  then show ?thesis
    using Some by (auto simp: continuation_write_def comp_simps reopen_unfold [OF assms] step_fresh_def insertStep_def)
qed

lemma continuation_result:
  assumes "run_wf db" "getRunRow i db = Some r" "can_continue env msg us r db"
  shows "beginContinuation env i msg us now db = (Inr (Inr (continued_history env msg r)), continued_db env msg us now r db)"
proof -
  from assms(3) obtain h where h: "parseConversationHistory (rv_parse env) (rr_history r) = Some h" by (auto simp: can_continue_def)
  have c: "rr_status r = RunCompleted" "isEligibleContinuationOutcome (rr_outcome r)" "\<not> busy (rr_task_id r) db"
    "step_fresh (message_step msg us) db" using assms(3) by (simp_all add: can_continue_def)
  show ?thesis
    using write_result [OF assms(1,2) c(1), of _ "message_step msg us" "truthy_str msg" now] c(3,4)
    by (simp add: beginContinuation_def check_result [OF assms(2) c(1,2) h] message_step_def [symmetric]
        continued_db_def [of env msg us now r db, unfolded Let_def conjunct2 [OF getRunRow_in [OF assms(2)]]])
qed

lemma continuation_refused:
  assumes "run_wf db" "getRunRow i db = Some r" "\<not> can_continue env msg us r db"
  shows "snd (beginContinuation env i msg us now db) = db \<and> (\<forall>h. fst (beginContinuation env i msg us now db) \<noteq> Inr (Inr h))"
proof (cases "continuation_check env i msg db")
  case (Inl e)
  then show ?thesis by (simp add: beginContinuation_def)
next
  case (Inr h)
  note n = check_needs [OF assms(2) Inr]
  then have "busy (rr_task_id r) db \<or> \<not> step_fresh (message_step msg us) db"
    using assms(3) by (auto simp: can_continue_def)
  then show ?thesis
    using write_result [OF assms(1,2) conjunct1 [OF n], of h "message_step msg us" "truthy_str msg" now]
    by (auto simp: beginContinuation_def Inr message_step_def [symmetric])
qed

lemma continued_row:
  assumes "getRunRow i db = Some r" "rr_status r = RunCompleted"
  shows "getRunRow j (continued_db env msg us now r db) = (if j = i
    then Some (continue_row (continued_history env msg r) (message_step msg us \<noteq> None) (truthy_str msg) now r) else getRunRow j db)"
proof -
  note ri = getRunRow_in [OF assms(1)]
  have "getRunRow j (continued_db env msg us now r db) = map_option (\<lambda>x. if rr_id x = rr_id r \<and> rr_status x = RunCompleted
      then continue_row (continued_history env msg r) (message_step msg us \<noteq> None) (truthy_str msg) now x else x) (getRunRow j db)"
    unfolding continued_db_def Let_def getRunRow_frame by (rule getRunRow_update) (simp add: continue_row_def)
  then show ?thesis using assms ri by (cases "getRunRow j db") (auto dest: getRunRow_in)
qed

lemma continued_history_valid:
  assumes "parseConversationHistory p (rr_history r) \<noteq> None" "p = rv_parse env"
  shows "continued_history env msg r \<noteq> [] \<and> list_all valid_entry (continued_history env msg r)"
  using assms history_valid by (auto simp: continued_history_def valid_entry_def)

text \<open>
  C12. A continuation succeeds exactly when the run is completed with an eligible outcome and a
  readable history, its task has no running run and the step of the message is new. It then
  reopens that run and no other: the run is running without outcome or lease, its history is the
  old one with the message at its end and is what the agent loop reads back, the step of the
  message is logged and counted, the budget starts afresh if there is a message and is kept if
  there is none, and a second continuation is refused. Otherwise nothing changes.
\<close>

theorem continuation_effect:
  assumes "run_wf db" "getRunRow i db = Some r"
  shows "let res = beginContinuation env i msg us now db; db' = snd res; h = continued_history env msg r in
    if can_continue env msg us r db
    then fst res = Inr (Inr h) \<and>
      (\<exists>r'. getRunRow i db' = Some r' \<and> is_running r' \<and> rr_outcome r' = None \<and> rr_owner_id r' = None \<and>
         rr_step_count r' = rr_step_count r + (if message_step msg us = None then 0 else 1) \<and>
         rr_iterations_used r' = (if truthy_str msg then 0 else rr_iterations_used r) \<and>
         rr_active_elapsed_ms r' = (if truthy_str msg then 0 else rr_active_elapsed_ms r)) \<and>
      (\<forall>j. j \<noteq> i \<longrightarrow> getRunRow j db' = getRunRow j db) \<and>
      map sp_step (steps_of i db') = map sp_step (steps_of i db) @ (case message_step msg us of None \<Rightarrow> [] | Some s \<Rightarrow> [s]) \<and>
      getConversationHistory env i db' = Some h \<and>
      beginContinuation env i msg2 us2 now2 db' = (Inr (Inl NotTerminal), db')
    else db' = db \<and> (\<forall>h. fst res \<noteq> Inr (Inr h))"
proof (cases "can_continue env msg us r db")
  case False
  then show ?thesis using continuation_refused [OF assms False, of now] by (simp add: Let_def)
next
  case True
  let ?db = "continued_db env msg us now r db" and ?h = "continued_history env msg r"
  have c: "rr_status r = RunCompleted" "parseConversationHistory (rv_parse env) (rr_history r) \<noteq> None"
    using True by (simp_all add: can_continue_def)
  note ri = getRunRow_in [OF assms(2)]
  have "run_row_ok r" using assms(1) ri by (auto simp: run_wf_def list_all_iff)
  then have own: "rr_owner_id r = None" using c(1) by (simp add: run_row_ok_def is_running_def)
  note row = continued_row [OF assms(2) c(1), of _ env msg us now]
  have hist: "getConversationHistory env i ?db = Some ?h"
    using history_round_trip continued_history_valid [OF c(2)] by (simp add: getConversationHistory_def row continue_row_def)
  have steps: "map sp_step (steps_of i ?db) = map sp_step (steps_of i db) @ (case message_step msg us of None \<Rightarrow> [] | Some s \<Rightarrow> [s])"
    using ri by (simp add: continued_db_def Let_def steps_of_def split: option.splits)
  have again: "beginContinuation env i msg2 us2 now2 ?db = (Inr (Inl NotTerminal), ?db)"
    by (simp add: beginContinuation_def continuation_check_def row continue_row_def)
  show ?thesis
    using True hist steps again own
    by (simp add: continuation_result [OF assms True] row) (simp add: continue_row_def is_running_def)
qed

theorem continuation_effect_witness:
  "fst (beginContinuation example_env ''r2'' (Some ''go'') (Some \<lparr>rs_id = ''s'', rs_timestamp = 9, rs_body = UserMessageStep ''go''\<rparr>) 9
      (example_db [example_completed])) = Inr (Inr [UserEntry ''hi'', UserEntry ''go''])"
proof -
  let ?s = "Some \<lparr>rs_id = ''s'', rs_timestamp = 9, rs_body = UserMessageStep ''go''\<rparr>"
  have p: "parseConversationHistory (rv_parse example_env) (rr_history example_completed) = Some [UserEntry ''hi'']"
    using history_round_trip [of "[UserEntry ''hi'']"] by (simp add: valid_entry_def example_completed_def)
  have can: "can_continue example_env (Some ''go'') ?s example_completed (example_db [example_completed])"
    by (simp add: can_continue_def p) (simp add: isEligibleContinuationOutcome_def busy_def is_running_def step_fresh_def
        message_step_def example_defs)
  from continuation_effect [OF example_wf(2) example_rows(2), of example_env "Some ''go''" ?s 9 None None 10] can
  show ?thesis by (simp add: Let_def continued_history_def p truthy_str_def)
qed

lemma create_busy:
  assumes "pg_int4_opt (cq_personaVersion inp)" "getRunRow (cq_id inp) db = None" "busy (cq_taskId inp) db"
  shows "create_run env inp now db = (Inl (TaskAlreadyRunningError (cq_taskId inp)), db)"
proof -
  have "isUniqueViolation (PgUnique one_running_index) one_running_index"
    by (simp add: isUniqueViolation_def exn_message_def one_running_index_def)
  then show ?thesis
    using assms by (simp add: create_run_def Let_def comp_simps insert_run_def new_run_row_def)
qed

text \<open>
  While its task has a running run, a completed run cannot be continued: the database error
  of the index of running runs reaches the caller as it is. Starting a run for the same task
  fails with TaskAlreadyRunningError, which callers map to a conflict. Neither changes anything.
\<close>

theorem continuation_of_busy_task_throws:
  assumes "run_wf db" "getRunRow i db = Some r" "rr_status r = RunCompleted"
    and "isEligibleContinuationOutcome (rr_outcome r)" "parseConversationHistory (rv_parse env) (rr_history r) = Some h"
    and "busy (rr_task_id r) db"
    and "cq_taskId inp = rr_task_id r" "getRunRow (cq_id inp) db = None" "pg_int4_opt (cq_personaVersion inp)"
  shows "beginContinuation env i msg us now db = (Inl (RunPg (PgUnique one_running_index)), db) \<and>
    create_run env inp now db = (Inl (TaskAlreadyRunningError (rr_task_id r)), db)"
proof -
  have "create_run env inp now db = (Inl (TaskAlreadyRunningError (rr_task_id r)), db)"
    using create_busy [of inp db env now] assms(6-9) by simp
  moreover have "beginContinuation env i msg us now db = (Inl (RunPg (PgUnique one_running_index)), db)"
    using write_result [OF assms(1-3)] assms(6)
    by (simp add: beginContinuation_def check_result [OF assms(2-5)])
  ultimately show ?thesis by blast
qed

theorem continuation_of_busy_task_throws_witness:
  "fst (beginContinuation example_env ''r2'' None None 9 (example_db [example_running, example_completed])) =
    Inl (RunPg (PgUnique one_running_index))"
proof -
  have p: "parseConversationHistory (rv_parse example_env) (rr_history example_completed) = Some [UserEntry ''hi'']"
    using history_round_trip [of "[UserEntry ''hi'']"] by (simp add: valid_entry_def example_completed_def)
  have "rr_status example_completed = RunCompleted" "isEligibleContinuationOutcome (rr_outcome example_completed)"
    "busy (rr_task_id example_completed) (example_db [example_running, example_completed])"
    "cq_taskId (example_request ''r3'') = rr_task_id example_completed"
    "getRunRow (cq_id (example_request ''r3'')) (example_db [example_running, example_completed]) = None"
    "pg_int4_opt (cq_personaVersion (example_request ''r3''))"
    by (simp_all add: isEligibleContinuationOutcome_def busy_def is_running_def getRunRow_def tbl_simps pg_int4_opt_def example_defs)
  from continuation_of_busy_task_throws [OF example_wf(3) example_rows(3) this(1,2) p this(3-6), of None None 9]
  show ?thesis by simp
qed

text \<open>
  C17. Retention selects the runs it will remove and then deletes them without a guard: a run
  that a user continues between the two is deleted while it is running, and its log with it.
\<close>

theorem interleaved_trim_deletes_running_run:
  assumes "run_wf db" "i \<in> set (trim_select env db)" "beginContinuation env i msg us now db = (Inr (Inr h), db')"
  shows "(\<exists>r. getRunRow i db' = Some r \<and> is_running r) \<and>
    (let after = fold trim_delete (trim_select env db) db' in getRunRow i after = None \<and> steps_of i after = [])"
proof -
  obtain r where r: "getRunRow i db = Some r" using assms(3)
    by (cases "getRunRow i db") (simp_all add: beginContinuation_def continuation_check_def)
  have can: "can_continue env msg us r db"
    using continuation_refused [OF assms(1) r, of env msg us now] assms(3) by auto
  then have c: "rr_status r = RunCompleted" by (simp add: can_continue_def)
  have "db' = continued_db env msg us now r db" using continuation_result [OF assms(1) r can, of now] assms(3) by simp
  then have run: "\<exists>r. getRunRow i db' = Some r \<and> is_running r"
    using continued_row [OF r c, of i] by (simp add: continue_row_def is_running_def)
  have gone: "steps_of i (fold trim_delete ids d) = []" if "i \<in> set ids \<or> steps_of i d = []" for ids d
    using that
  proof (induction ids arbitrary: d)
    case (Cons k ids)
    from Cons.IH [of "trim_delete k d"] Cons.prems show ?case by (auto simp: steps_of_trim)
  qed simp
  show ?thesis
    using run assms(2) gone [of "trim_select env db" db'] by (simp add: Let_def getRunRow_trims)
qed

theorem interleaved_trim_deletes_running_run_witness:
  "\<exists>db'. snd (beginContinuation example_env ''r2'' None None 9 (example_db [example_completed])) = db' \<and>
    getRunRow ''r2'' db' \<noteq> None \<and>
    getRunRow ''r2'' (fold trim_delete (trim_select example_env (example_db [example_completed])) db') = None"
proof -
  let ?res = "beginContinuation example_env ''r2'' None None 9 (example_db [example_completed])"
  have p: "parseConversationHistory (rv_parse example_env) (rr_history example_completed) = Some [UserEntry ''hi'']"
    using history_round_trip [of "[UserEntry ''hi'']"] by (simp add: valid_entry_def example_completed_def)
  have can: "can_continue example_env None None example_completed (example_db [example_completed])"
    by (simp add: can_continue_def p) (simp add: isEligibleContinuationOutcome_def busy_def is_running_def step_fresh_def
        message_step_def example_defs)
  have t: "''r2'' \<in> set (trim_select example_env (example_db [example_completed]))"
    by (simp add: trim_select_def newest_first_def sort_by_def example_defs)
  from interleaved_trim_deletes_running_run [OF example_wf(2) t continuation_result [OF example_wf(2) example_rows(2) can, of 9]]
  show ?thesis by (auto simp: Let_def continuation_result [OF example_wf(2) example_rows(2) can, of 9])
qed

section \<open>The stored conversation\<close>

fun leaves_history :: "string \<Rightarrow> run_op \<Rightarrow> bool" where
  "leaves_history i (OpSetHistory j _) \<longleftrightarrow> j \<noteq> i"
| "leaves_history i (OpContinue j _ _ _) \<longleftrightarrow> j \<noteq> i"
| "leaves_history i (OpCreate inp _) \<longleftrightarrow> cq_id inp \<noteq> i"
| "leaves_history i _ \<longleftrightarrow> True"

definition no_new_ids :: "run_db \<Rightarrow> run_db \<Rightarrow> bool" where
  "no_new_ids s t \<longleftrightarrow> rr_id ` set (rd_runs t) \<subseteq> rr_id ` set (rd_runs s)"

lemma no_new_refl_trans: "reflp no_new_ids" "transp no_new_ids"
  by (rule reflpI, simp add: no_new_ids_def) (rule transpI, auto simp: no_new_ids_def)

lemma ids_update:
  assumes "\<And>r. rr_id (f r) = rr_id r"
  shows "rr_id ` set (tbl_update P f t) = rr_id ` set t"
proof -
  have "map rr_id (tbl_update P f t) = map rr_id t" by (rule map_tbl_update_same) (rule assms)
  then show ?thesis by (metis list.set_map)
qed

lemma update_runs_ids: "(\<And>r. rr_id (f r) = rr_id r) \<Longrightarrow> preserves no_new_ids (update_runs P f)"
  by (rule preservesI) (simp add: no_new_ids_def update_runs_def ids_update)

lemma reopen_ids: "(\<And>r. rr_id (f r) = rr_id r) \<Longrightarrow> preserves no_new_ids (reopen i f)"
  by (rule preservesI) (simp add: no_new_ids_def reopen_def update_runs_def ids_update)

lemma insertStep_ids: "preserves no_new_ids (insertStep i s)"
  by (rule preservesI) (simp add: no_new_ids_def insertStep_def)

lemma recordAttempt_ids: "preserves no_new_ids (recordAttempt env i o')"
  by (rule preservesI) (simp add: no_new_ids_def run_simps)

lemma incrementStepCount_ids: "preserves no_new_ids (incrementStepCount i now)"
  unfolding incrementStepCount_def by (intro preserves_intros no_new_refl_trans update_runs_ids) simp

lemma insert_follow_up_ids: "preserves no_new_ids (insert_follow_up u i m now)"
  by (rule preservesI) (simp add: no_new_ids_def insert_follow_up_def)

lemma get_run_ids: "preserves no_new_ids (get_run env i)"
  by (rule preservesI) (simp add: no_new_ids_def get_run_def)

lemma delete_follow_ups_ids: "preserves no_new_ids (delete_follow_ups i)"
  by (rule preservesI) (simp add: no_new_ids_def delete_follow_ups_def)

lemmas ids_intros = preserves_intros no_new_refl_trans update_runs_ids reopen_ids insertStep_ids recordAttempt_ids
  incrementStepCount_ids insert_follow_up_ids get_run_ids delete_follow_ups_ids

lemma gone_stays: "preserves no_new_ids m \<Longrightarrow> getRunRow i db = None \<Longrightarrow> getRunRow i (snd (m db)) = None"
proof -
  assume "preserves no_new_ids m" and none: "getRunRow i db = None"
  then have "no_new_ids db (snd (m db))" by (simp add: preservesD)
  moreover have "getRunRow i d = None \<longleftrightarrow> i \<notin> rr_id ` set (rd_runs d)" for d by (auto simp: getRunRow_None)
  ultimately show ?thesis using none by (auto simp: no_new_ids_def)
qed

lemma plain_ids:
  "preserves no_new_ids (setRunBudget i b)" "preserves no_new_ids (setParkedMcpTask i m p now)"
  "preserves no_new_ids (clearParkedMcpTask i now)" "preserves no_new_ids (setNextPollAt i t)"
  "preserves no_new_ids (claimRun i ow e now)" "preserves no_new_ids (renewRunLease i ow e)"
  "preserves no_new_ids (releaseRun i ow)" "preserves no_new_ids (drainParkedFollowUps env i)"
  by (rule preservesI; simp add: no_new_ids_def setRunBudget_def setParkedMcpTask_def clearParkedMcpTask_def setNextPollAt_def claimRun_def
      renewRunLease_def releaseRun_def drainParkedFollowUps_def Let_def comp_simps update_runs_def ids_update)+

lemma log_ids:
  "preserves no_new_ids (appendStep env i s now)" "preserves no_new_ids (complete_run env i out now)"
  "preserves no_new_ids (setConversationHistory i h)" "preserves no_new_ids (enqueueParkedFollowUp i msg s u now)"
  "preserves no_new_ids (beginContinuation env i mo us now)"
proof -
  have "preserves no_new_ids (bindM (atomicallyM (bindM (insertStep i s) (\<lambda>_. bindM (incrementStepCount i now) (\<lambda>_.
      if is_outcome s then recordAttempt env i (rs_id s) else returnM ())))) (\<lambda>_. get_run env i))"
    by (intro ids_intros) (simp add: ids_intros)
  from preservesD [OF this] show "preserves no_new_ids (appendStep env i s now)"
    by (intro preservesI) (simp only: appendStep_def reflpD [OF no_new_refl_trans(1)] snd_conv split: option.split; simp)
  have "preserves no_new_ids (bindM (update_runs (\<lambda>r. rr_id r = i) (complete_row out now)) (\<lambda>_.
      bindM (delete_follow_ups i) (\<lambda>_. get_run env i)))"
    by (intro ids_intros) (simp add: complete_row_def)
  from preservesD [OF this] show "preserves no_new_ids (complete_run env i out now)"
    by (intro preservesI) (simp add: complete_run_def reflpD [OF no_new_refl_trans(1)] split: option.split)
  show "preserves no_new_ids (setConversationHistory i h)"
    by (rule preservesI) (simp add: no_new_ids_def setConversationHistory_def comp_simps update_runs_def ids_update split: option.splits)
  have "preserves no_new_ids (bindM (insert_follow_up u i msg now) (\<lambda>_. bindM (insertStep i s) (\<lambda>_.
      bindM (incrementStepCount i now) (\<lambda>_. returnM True))))"
    by (intro ids_intros)
  from preservesD [OF this] show "preserves no_new_ids (enqueueParkedFollowUp i msg s u now)"
    unfolding enqueueParkedFollowUp_def by (intro ids_intros preservesI) (simp add: reflpD [OF no_new_refl_trans(1)])
  have "preserves no_new_ids (continuation_write i hh ss b now)" for hh ss b
    unfolding continuation_write_def
    by (intro ids_intros) (auto simp: continue_row_def intro!: ids_intros split: option.splits)
  from preservesD [OF this] show "preserves no_new_ids (beginContinuation env i mo us now)"
    by (intro preservesI) (simp add: beginContinuation_def reflpD [OF no_new_refl_trans(1)] split: sum.split)
qed

lemma run_op_ids:
  assumes "leaves_history i x" "getRunRow i db = None"
  shows "getRunRow i (run_run_op env x db) = None"
proof (cases x)
  case (OpCreate inp now)
  let ?row = "new_run_row inp (or_else (cq_startedAt inp) now)"
  have "rr_id ?row \<noteq> i" using OpCreate assms(1) by (simp add: new_run_row_def)
  then have "getRunRow i (snd (insert_run ?row db)) = None" using assms(2) by (auto simp: insert_run_def getRunRow_None)
  then show ?thesis
    by (cases "insert_run ?row db"; cases "fst (insert_run ?row db)")
      (auto simp: OpCreate create_run_def Let_def comp_simps trim_runs_def getRunRow_trims)
qed (simp_all add: gone_stays assms(2) log_ids plain_ids)

text \<open>A run is gone, or its stored conversation is \<open>j\<close>.\<close>

definition stored_history :: "string \<Rightarrow> json \<Rightarrow> run_db \<Rightarrow> bool" where
  "stored_history i j db = (case getRunRow i db of None \<Rightarrow> True | Some r \<Rightarrow> rr_history r = Some j)"

lemma history_kept:
  assumes "stored_history i j db" "leaves_history i x"
  shows "stored_history i j (run_run_op env x db)"
proof (cases "getRunRow i db")
  case None
  then show ?thesis using run_op_ids [OF assms(2)] by (simp add: stored_history_def)
next
  case (Some r)
  show ?thesis
  proof (cases x)
    case (OpCreate inp now)
    let ?row = "new_run_row inp (or_else (cq_startedAt inp) now)"
    have "getRunRow i (snd (insert_run ?row db)) = Some r"
      using Some by (auto simp: insert_run_def getRunRow_def tbl_simps)
    then have "getRunRow i (run_run_op env x db) \<in> {None, Some r}"
      using Some
      by (cases "insert_run ?row db"; cases "fst (insert_run ?row db)")
        (auto simp: OpCreate create_run_def Let_def comp_simps trim_runs_def getRunRow_trims)
    then show ?thesis using assms(1) Some by (auto simp: stored_history_def)
  next
    case (OpAppend k s now)
    then show ?thesis using append_row [OF Some, of env k s now] assms(1) Some by (auto simp: stored_history_def)
  next
    case (OpEnqueue k m s u now)
    then show ?thesis using enqueue_row [OF Some, of k m s u now] assms(1) Some by (auto simp: stored_history_def)
  next
    case (OpSetBudget k b)
    then show ?thesis using plain_rows(3) [OF Some, of k b] assms(1) Some by (auto simp: stored_history_def)
  next
    case (OpPark k m p now)
    then show ?thesis using plain_rows(4) [OF Some, of k m p now] assms(1) Some by (auto simp: stored_history_def)
  next
    case (OpUnpark k now)
    then show ?thesis using plain_rows(5) [OF Some, of k now] assms(1) Some by (auto simp: stored_history_def)
  next
    case (OpNextPoll k t)
    then show ?thesis using plain_rows(6) [OF Some, of k t] assms(1) Some by (auto simp: stored_history_def)
  next
    case (OpContinue k m s now)
    then have "k \<noteq> i" using assms(2) by simp
    then show ?thesis using OpContinue continuation_rows [OF Some, of k env m s now] assms(1) Some by (auto simp: stored_history_def)
  qed (use plain_rows [OF Some] assms Some in \<open>auto simp: stored_history_def complete_row_def\<close>)
qed

interpretation conversations: kept "run_run_op env" "leaves_history i" "stored_history i j" for env i j
  by unfold_locales (rule history_kept)

text \<open>
  A conversation that is written to a run is read back as it was written, after any further
  operations that neither write its conversation nor continue it: parks, leases, follow-ups,
  completion and the retention of other runs, unless the run itself has been removed. It holds of
  every conversation whose assistant turns carry well-formed tool calls.
\<close>

theorem conversation_survives:
  assumes "run_wf db" "getRunRow i db = Some r" "h \<noteq> []" "list_all valid_entry h" "\<forall>x \<in> set xs. leaves_history i x"
  shows "let db' = run_ops (run_run_op env) xs (snd (setConversationHistory i h db)) in
    getRunRow i db' = None \<or> getConversationHistory env i db' = Some h"
proof -
  let ?db = "snd (setConversationHistory i h db)"
  have "stored_history i (history_json h) ?db"
    using plain_rows(2) [OF assms(2), of i h] by (simp add: stored_history_def)
  then have "stored_history i (history_json h) (run_ops (run_run_op env) xs ?db)"
    by (rule conversations.run_keeps) (rule assms(5))
  then show ?thesis
    using history_round_trip [OF assms(3,4)]
    by (auto simp: Let_def stored_history_def getConversationHistory_def split: option.splits)
qed

theorem conversation_survives_witness:
  "getConversationHistory example_env ''r1'' (run_ops (run_run_op example_env) [OpClaim ''r1'' ''w'' 9 7]
      (snd (setConversationHistory ''r1'' [UserEntry ''hi''] (example_db [example_running])))) = Some [UserEntry ''hi'']"
proof -
  let ?db = "snd (setConversationHistory ''r1'' [UserEntry ''hi''] (example_db [example_running]))"
  have v: "list_all valid_entry [UserEntry ''hi'']" by (simp add: valid_entry_def)
  have l: "\<forall>x \<in> set [OpClaim ''r1'' ''w'' 9 7]. leaves_history ''r1'' x" by simp
  have "getRunRow ''r1'' ?db \<noteq> None" using plain_rows(2) [OF example_rows(1), of "''r1''" "[UserEntry ''hi'']" "[]"] by simp
  then have "getRunRow ''r1'' (run_ops (run_run_op example_env) [OpClaim ''r1'' ''w'' 9 7] ?db) \<noteq> None"
    using plain_rows(8) by auto
  then show ?thesis
    using conversation_survives [OF example_wf(1) example_rows(1) _ v l, of example_env] by (auto simp: Let_def)
qed

end
