(* ===== verification/HarnessFrame.thy ===== *)
theory HarnessFrame
  imports Harness LoopParking RunLifecycle
begin

text \<open>
  What the steps of a harness do to the run tables, as histories of repository operations, and what
  such histories leave of the run that is driven. \<open>ops_rel env ok i\<close> relates two worlds when the
  tables of the second come from those of the first by operations that satisfy \<open>ok\<close>, and the
  heartbeat of run \<open>i\<close> has not found its lease lost.
\<close>

section \<open>Histories between two worlds\<close>

definition ops_rel :: "run_env \<Rightarrow> (run_op \<Rightarrow> bool) \<Rightarrow> string \<Rightarrow> 'y run_world \<Rightarrow> 'y run_world \<Rightarrow> bool" where
  "ops_rel env ok i w w' \<longleftrightarrow>
    (\<exists>xs. (\<forall>x \<in> set xs. ok x) \<and> sw_db w' = run_ops (run_run_op env) xs (sw_db w)) \<and> (lost_lease i w' \<longrightarrow> lost_lease i w)"

lemma ops_same: "sw_db w' = sw_db w \<Longrightarrow> (lost_lease i w' \<Longrightarrow> lost_lease i w) \<Longrightarrow> ops_rel env ok i w w'"
  unfolding ops_rel_def by (auto intro: exI [of _ "[]"])

lemma ops_refl: "reflp (ops_rel env ok i)"
  by (rule reflpI) (rule ops_same; simp)

lemma ops_trans: "transp (ops_rel env ok i)"
proof (rule transpI)
  fix u v w :: "'y run_world"
  assume "ops_rel env ok i u v" "ops_rel env ok i v w"
  then obtain xs ys where xs: "\<forall>x \<in> set xs. ok x" "sw_db v = run_ops (run_run_op env) xs (sw_db u)"
    and ys: "\<forall>x \<in> set ys. ok x" "sw_db w = run_ops (run_run_op env) ys (sw_db v)"
    and l: "lost_lease i v \<longrightarrow> lost_lease i u" "lost_lease i w \<longrightarrow> lost_lease i v" unfolding ops_rel_def by (elim conjE exE)
  show "ops_rel env ok i u w"
    unfolding ops_rel_def by (intro conjI exI [of _ "xs @ ys"]) (use xs ys l in \<open>auto simp: run_ops_append\<close>)
qed

lemma ops_relE:
  assumes "ops_rel env ok i w w'"
  obtains xs where "\<forall>x \<in> set xs. ok x" "sw_db w' = run_ops (run_run_op env) xs (sw_db w)"
  using assms unfolding ops_rel_def by (elim conjE exE)

lemma ops_mono: "ops_rel env ok i w w' \<Longrightarrow> (\<And>x. ok x \<Longrightarrow> ok' x) \<Longrightarrow> ops_rel env ok' i w w'"
  unfolding ops_rel_def by blast

lemma preserves_ops_mono: "preserves (ops_rel env ok i) m \<Longrightarrow> (\<And>x. ok x \<Longrightarrow> ok' x) \<Longrightarrow> preserves (ops_rel env ok' i) m"
  unfolding preserves_def by (blast intro: ops_mono)

lemmas ops_intros = preserves_returnM [OF ops_refl] preserves_throwM [OF ops_refl] preserves_bindM [OF ops_trans]
  preserves_catchM [OF ops_trans] preserves_getsM [OF ops_refl] preserves_modifyM

lemma on_db_ops:
  assumes "\<And>db. ok x \<and> snd (m db) = run_run_op env x db"
  shows "preserves (ops_rel env ok i) (on_db m)"
proof (rule preservesI)
  fix w
  show "ops_rel env ok i w (snd (on_db m w))"
    using assms [of "sw_db w"] unfolding ops_rel_def lost_lease_def
    by (intro conjI exI [of _ "[x]"]) (simp_all add: on_db_frame)
qed

lemma on_db_reads: "(\<And>db. snd (m db) = db) \<Longrightarrow> preserves (ops_rel env ok i) (on_db m)"
  by (rule preservesI, rule ops_same) (simp_all add: on_db_frame lost_lease_def)

lemma notify_ops: "preserves (ops_rel env ok i) (notifyUpdated env' j)"
  by (rule preservesI, rule ops_same) (simp_all add: notify_result lost_lease_def)

lemma notify_if_ops: "preserves (ops_rel env ok i) (notify_if env' j b)"
  by (simp add: notify_if_def notify_ops ops_intros)

lemma uuid_ops: "preserves (ops_rel env' ok i) (randomUUID env)"
  by (rule preservesI, rule ops_same) (simp_all add: randomUUID_def lost_lease_def)

lemma append_ops: "(\<And>s now. ok (OpAppend j s now)) \<Longrightarrow> preserves (ops_rel env ok i) (store_appendStep env u j si now b)"
  unfolding store_appendStep_def
  by (intro ops_intros notify_if_ops on_db_ops [where x = "OpAppend j (createRunStep u si now b) now"]) simp

lemma record_ops:
  assumes "\<And>s now. ok (OpAppend j s now)"
  shows "preserves (ops_rel (hv_runs env) ok i) (recordStep env j si b)"
proof -
  have "preserves (ops_rel (hv_runs env) ok i) (if si = None then randomUUID env else returnM [])"
    by (simp add: uuid_ops ops_intros)
  then show ?thesis unfolding recordStep_def by (intro ops_intros append_ops assms)
qed

section \<open>What others do while a run is driven\<close>

text \<open>
  \<open>meanwhile i ow\<close>: the operations of the rest of the system while \<open>ow\<close> drives run \<open>i\<close>: no
  takeover, and none of the writes that only the driver of the run performs. Follow-ups, steps,
  renewals and everything on other runs are free. \<open>drives i ow\<close>: also the writes of the driver
  during the loop.
\<close>

fun meanwhile :: "string \<Rightarrow> string \<Rightarrow> run_op \<Rightarrow> bool" where
  "meanwhile i ow (OpCreate inp _) \<longleftrightarrow> cq_id inp \<noteq> i"
| "meanwhile i ow (OpComplete j _ _) \<longleftrightarrow> j \<noteq> i"
| "meanwhile i ow (OpRelease j ow') \<longleftrightarrow> j \<noteq> i \<or> ow' \<noteq> ow"
| "meanwhile i ow (OpClaim j _ _ _) \<longleftrightarrow> j \<noteq> i"
| "meanwhile i ow (OpSetHistory j _) \<longleftrightarrow> j \<noteq> i"
| "meanwhile i ow (OpSetBudget j _) \<longleftrightarrow> j \<noteq> i"
| "meanwhile i ow (OpPark j _ _ _) \<longleftrightarrow> j \<noteq> i"
| "meanwhile i ow (OpUnpark j _) \<longleftrightarrow> j \<noteq> i"
| "meanwhile i ow (OpNextPoll j _) \<longleftrightarrow> j \<noteq> i"
| "meanwhile i ow (OpContinue j _ _ _) \<longleftrightarrow> j \<noteq> i"
| "meanwhile i ow _ \<longleftrightarrow> True"

fun drives :: "string \<Rightarrow> string \<Rightarrow> run_op \<Rightarrow> bool" where
  "drives i ow (OpComplete j _ _) \<longleftrightarrow> j \<noteq> i"
| "drives i ow (OpRelease j ow') \<longleftrightarrow> j \<noteq> i \<or> ow' \<noteq> ow"
| "drives i ow (OpClaim j _ _ _) \<longleftrightarrow> j \<noteq> i"
| "drives i ow _ \<longleftrightarrow> True"

definition drives_quietly :: "string \<Rightarrow> string \<Rightarrow> run_op \<Rightarrow> bool" where
  "drives_quietly i ow x \<longleftrightarrow> drives i ow x \<and> leaves_history i x"

lemma meanwhile_drives: "meanwhile i ow x \<Longrightarrow> drives i ow x"
  by (cases x) simp_all

lemma meanwhile_quietly: "meanwhile i ow x \<Longrightarrow> drives_quietly i ow x"
  by (cases x) (simp_all add: drives_quietly_def)

lemma quietly_drives: "drives_quietly i ow x \<Longrightarrow> drives i ow x"
  by (simp add: drives_quietly_def)

text \<open>What the others do changes nothing of the run but its count of steps, its time stamp and its lease.\<close>

definition same_run :: "run_row \<Rightarrow> run_row \<Rightarrow> bool" where
  "same_run r r' \<longleftrightarrow> (\<exists>n u e. r' = r\<lparr>rr_step_count := n, rr_updated_at := u, rr_lease_expires_at := e\<rparr>)"

lemma same_run_refl: "same_run r r"
  unfolding same_run_def
  by (rule exI [of _ "rr_step_count r"], rule exI [of _ "rr_updated_at r"], rule exI [of _ "rr_lease_expires_at r"]) simp

lemma same_run_trans: "same_run r s \<Longrightarrow> same_run s t \<Longrightarrow> same_run r t"
  unfolding same_run_def by (elim exE) (simp, blast)

lemma same_run_step: "same_run r (r\<lparr>rr_step_count := n, rr_updated_at := u\<rparr>)" "same_run r (r\<lparr>rr_lease_expires_at := e\<rparr>)"
proof -
  show "same_run r (r\<lparr>rr_step_count := n, rr_updated_at := u\<rparr>)"
    unfolding same_run_def by (rule exI [of _ n], rule exI [of _ u], rule exI [of _ "rr_lease_expires_at r"]) simp
  show "same_run r (r\<lparr>rr_lease_expires_at := e\<rparr>)"
    unfolding same_run_def by (rule exI [of _ "rr_step_count r"], rule exI [of _ "rr_updated_at r"], rule exI [of _ e]) simp
qed

lemma same_run_fields:
  assumes "same_run r r'"
  shows "is_running r' = is_running r" "rr_iterations_used r' = rr_iterations_used r" "rr_owner_id r' = rr_owner_id r"
    "rr_history r' = rr_history r" "rr_mcp_task_id r' = rr_mcp_task_id r" "rr_next_poll_at r' = rr_next_poll_at r"
  using assms by (auto simp: same_run_def is_running_def)

lemma meanwhile_row:
  assumes "run_wf db" "getRunRow i db = Some r" "meanwhile i ow x" "is_running r \<Longrightarrow> rr_owner_id r = Some ow"
  shows "(\<exists>r'. getRunRow i (run_run_op env x db) = Some r' \<and> same_run r r') \<or>
    \<not> is_running r \<and> getRunRow i (run_run_op env x db) = None"
proof -
  note row = create_row [OF assms(1,2)] append_row [OF assms(2)] enqueue_row [OF assms(2)] plain_rows [OF assms(2)]
    continuation_rows [OF assms(2)]
  have ro: "run_row_ok r" using assms(1,2) getRunRow_in by (auto simp: run_wf_def list_all_iff)
  have none: "rr_owner_id r = None" if "\<not> is_running r" using ro that by (simp add: run_row_ok_def)
  show ?thesis
  proof (cases x)
    case (OpCreate inp now)
    then show ?thesis using row(1) [of env inp now] same_run_refl by auto
  next
    case (OpAppend j s now)
    then show ?thesis using row(2) [of env j s now] same_run_step(1) by auto
  next
    case (OpEnqueue j m s u now)
    then show ?thesis using row(3) [of j m s u now] same_run_step(1) by auto
  next
    case (OpPark j m p now)
    then have "j \<noteq> i" using assms(3) by simp
    then have "getRunRow i (snd (setParkedMcpTask j m p now db)) = Some r"
      using assms(2) getRunRow_in [OF assms(2)] by (auto simp: setParkedMcpTask_def update_runs_def getRunRow_update)
    then show ?thesis using OpPark same_run_refl by auto
  next
    case (OpUnpark j now)
    then have "j \<noteq> i" using assms(3) by simp
    then have "getRunRow i (snd (clearParkedMcpTask j now db)) = Some r"
      using assms(2) getRunRow_in [OF assms(2)] by (auto simp: clearParkedMcpTask_def update_runs_def getRunRow_update)
    then show ?thesis using OpUnpark same_run_refl by auto
  next
    case (OpNextPoll j t)
    then have "j \<noteq> i" using assms(3) by simp
    then have "getRunRow i (snd (setNextPollAt j t db)) = Some r"
      using assms(2) getRunRow_in [OF assms(2)] by (auto simp: setNextPollAt_def update_runs_def getRunRow_update)
    then show ?thesis using OpNextPoll same_run_refl by auto
  next
    case (OpSetBudget j b)
    then have "j \<noteq> i" using assms(3) by simp
    then have "getRunRow i (snd (setRunBudget j b db)) = Some r"
      using assms(2) getRunRow_in [OF assms(2)] by (auto simp: setRunBudget_def update_runs_def getRunRow_update)
    then show ?thesis using OpSetBudget same_run_refl by auto
  next
    case (OpRelease j ow')
    then show ?thesis
      using assms(3,4) row(13) [of j ow'] none same_run_refl by (cases "is_running r") auto
  qed (use row assms(3) same_run_refl same_run_step(2) in auto)
qed

text \<open>The driver keeps the lease; a completed run stays completed.\<close>

definition driven_db :: "string \<Rightarrow> string \<Rightarrow> run_db \<Rightarrow> bool" where
  "driven_db i ow db \<longleftrightarrow> run_wf db \<and> (\<exists>e. holds_lease i ow e db)"

lemma holds_lease_mono: "holds_lease i ow e db \<Longrightarrow> e' \<le> e \<Longrightarrow> holds_lease i ow e' db"
  by (auto simp: holds_lease_def split: option.splits)

lemma driven_step:
  assumes "driven_db i ow db" "drives i ow x"
  shows "driven_db i ow (run_run_op env x db)"
proof -
  obtain e where e: "run_wf db" "holds_lease i ow e db" using assms(1) by (auto simp: driven_db_def)
  let ?e = "case x of OpRenew j ow' e' \<Rightarrow> min e e' | _ \<Rightarrow> e"
  have "holds_lease i ow ?e db" using e(2) by (rule holds_lease_mono) (simp split: run_op.split)
  moreover have "honours i ow ?e x" using assms(2) by (cases x) auto
  ultimately have "holds_lease i ow ?e (run_run_op env x db)" using lease_step [OF e(1)] by blast
  then show ?thesis using run_run_op_wf [OF e(1)] unfolding driven_db_def by blast
qed

interpretation driving: kept "run_run_op env" "drives i ow" "driven_db i ow" for env i ow
  by unfold_locales (rule driven_step)

definition over :: "string \<Rightarrow> run_db \<Rightarrow> bool" where
  "over i db \<longleftrightarrow> run_wf db \<and> (case getRunRow i db of None \<Rightarrow> True | Some r \<Rightarrow> \<not> is_running r)"

lemma over_step:
  assumes "over i db" "meanwhile i ow x"
  shows "over i (run_run_op env x db)"
proof (cases "getRunRow i db")
  case None
  have "leaves_history i x" using meanwhile_quietly [OF assms(2)] by (simp add: drives_quietly_def)
  then show ?thesis using assms(1) run_op_ids [OF _ None] run_run_op_wf by (simp add: over_def)
next
  case (Some r)
  then have "run_wf db" "\<not> is_running r" using assms(1) by (simp_all add: over_def)
  then show ?thesis
    using meanwhile_row [OF _ Some assms(2), of env] run_run_op_wf same_run_fields(1) by (auto simp: over_def)
qed

interpretation overs: kept "run_run_op env" "meanwhile i ow" "over i" for env i ow
  by unfold_locales (rule over_step)

lemma driven_rel: "ops_rel env (drives i ow) i w w' \<Longrightarrow> driven_db i ow (sw_db w) \<Longrightarrow> driven_db i ow (sw_db w')"
  by (erule ops_relE) (simp add: driving.run_keeps)

lemma over_rel: "ops_rel env (meanwhile i ow) i w w' \<Longrightarrow> over i (sw_db w) \<Longrightarrow> over i (sw_db w')"
  by (erule ops_relE) (simp add: overs.run_keeps)

lemma driven_row:
  assumes "driven_db i ow db"
  obtains r where "getRunRow i db = Some r" "is_running r" "rr_owner_id r = Some ow"
  using assms by (auto simp: driven_db_def elim: holds_leaseE)

lemma iterations_rel:
  assumes "ops_rel env (meanwhile i ow) i w w'" "driven_db i ow (sw_db w)"
  shows "map_option rr_iterations_used (getRunRow i (sw_db w')) = map_option rr_iterations_used (getRunRow i (sw_db w))"
proof -
  have "driven_db i ow (run_ops (run_run_op env) xs db) \<and>
      map_option rr_iterations_used (getRunRow i (run_ops (run_run_op env) xs db)) = map_option rr_iterations_used (getRunRow i db)"
    if "\<forall>x \<in> set xs. meanwhile i ow x" "driven_db i ow db" for xs db
    using that
  proof (induction xs arbitrary: db)
    case (Cons x xs)
    have x: "meanwhile i ow x" using Cons.prems by simp
    obtain r where r: "getRunRow i db = Some r" "is_running r" "rr_owner_id r = Some ow" using Cons.prems(2) by (rule driven_row)
    have wf: "run_wf db" using Cons.prems(2) by (simp add: driven_db_def)
    obtain r' where "getRunRow i (run_run_op env x db) = Some r'" "same_run r r'"
      using meanwhile_row [OF wf r(1) x, of env] r(2,3) by auto
    then show ?case
      using Cons.IH [of "run_run_op env x db"] Cons.prems driven_step [OF Cons.prems(2) meanwhile_drives [OF x], of env] r(1)
        same_run_fields(2) by simp
  qed simp
  then show ?thesis using assms unfolding ops_rel_def by fastforce
qed

section \<open>The stored conversation\<close>

lemma stored_rel: "ops_rel env (drives_quietly i ow) i w w' \<Longrightarrow> stored_history i j (sw_db w) \<Longrightarrow> stored_history i j (sw_db w')"
  by (erule ops_relE) (simp add: conversations.run_keeps drives_quietly_def)

end
