(* ===== verification/HarnessSafety.thy ===== *)
theory HarnessSafety
  imports HarnessFrame
begin

text \<open>
  What driving a run guarantees. The locales of the agent loop are interpreted on the harness, with
  the run repository behind its callbacks; from them follow the guarantees of the loop on a real
  run, and that a driven run never stays running without an owner.
\<close>

section \<open>What the harness relies on\<close>

text \<open>
  \<open>considerate\<close>: while a run is driven the rest of the system only does what it may (see
  \<open>meanwhile\<close>), during every call that leaves the process. \<open>proper\<close>: the session and the poll
  return results that the gateway's answers are mapped to, connecting fails with its own errors, and
  fresh ids are fresh.
\<close>

definition others :: "'y harness_env \<Rightarrow> string \<Rightarrow> 'y run_world \<Rightarrow> 'y run_world \<Rightarrow> bool" where
  "others env i = ops_rel (hv_runs env) (meanwhile i (hv_replica env)) i"

definition considerate :: "'y harness_env \<Rightarrow> string \<Rightarrow> bool" where
  "considerate env i \<longleftrightarrow>
     preserves (others env i) (hv_connect env) \<and> (\<forall>p m h. preserves (others env i) (hv_model env p m h)) \<and>
     (\<forall>n a. preserves (others env i) (hv_callTool env n a)) \<and>
     (\<forall>f r. hv_exec env = Some f \<longrightarrow> preserves (others env i) (f r)) \<and>
     (\<forall>t iv. preserves (others env i) (hv_poll env t iv)) \<and>
     (\<forall>f. hv_deleteRun env = Some f \<longrightarrow> preserves (others env i) (f i))"

definition fresh_ids :: "('y, 'z) process_env_scheme \<Rightarrow> bool" where
  "fresh_ids env \<longleftrightarrow> (\<forall>w. \<forall>s \<in> set (rd_steps (sw_db w)). rs_id (sp_step s) \<noteq> fst (hv_uuid env w))"

definition proper :: "'y harness_env \<Rightarrow> bool" where
  "proper env \<longleftrightarrow> fresh_ids env \<and>
     (\<forall>n a w r w'. hv_callTool env n a w = (Inr r, w') \<longrightarrow> \<not> td_hibernated r) \<and>
     (\<forall>t iv w r w'. hv_poll env t iv w = (Inr r, w') \<longrightarrow> \<not> td_hibernated r) \<and>
     (\<forall>w e w'. hv_connect env w = (Inl e, w') \<longrightarrow> \<not> isRunLeaseError e)"

section \<open>The operations of a harness\<close>

abbreviation quietly :: "'y harness_env \<Rightarrow> string \<Rightarrow> 'y run_world \<Rightarrow> 'y run_world \<Rightarrow> bool" where
  "quietly env i \<equiv> ops_rel (hv_runs env) (drives_quietly i (hv_replica env)) i"

lemma others_quietly: "preserves (others env i) m \<Longrightarrow> preserves (quietly env i) m"
  unfolding others_def by (erule preserves_ops_mono) (rule meanwhile_quietly)

lemma record_quietly: "preserves (quietly env i) (recordStep env i si b)"
  by (rule record_ops) (simp add: drives_quietly_def)

lemma recorded_quietly: "preserves (quietly env i) (recorded env i call r)"
  unfolding recorded_def recordToolResult_def by (intro ops_intros record_quietly)

lemma dispatch_record_quietly: "preserves (quietly env i) (recordToolDispatch env i call)"
  unfolding recordToolDispatch_def by (rule record_quietly)

lemmas quiet_steps = ops_intros record_quietly recorded_quietly dispatch_record_quietly

lemma refused_quietly: "preserves (quietly env i) (refused_call env i call m)"
  unfolding refused_call_def by (intro quiet_steps)

lemma dispatch_quietly:
  assumes "considerate env i"
  shows "preserves (quietly env i) (dispatchToolCall env i call)"
proof -
  have tool: "preserves (quietly env i) (hv_callTool env n a)" for n a
    using assms by (auto simp: considerate_def intro: others_quietly)
  have exec: "preserves (quietly env i) (f r)" if "hv_exec env = Some f" for f r
    using assms that by (auto simp: considerate_def intro: others_quietly)
  have out: "preserves (quietly env i) (task_output_call env i call)"
    unfolding task_output_call_def recordTaskOutput_def by (auto intro!: quiet_steps split: option.split)
  have python: "preserves (quietly env i) (python_call env i call)"
    unfolding python_call_def by (auto intro!: quiet_steps refused_quietly exec split: option.split)
  have after: "preserves (quietly env i) (after_call env i call st r)" for st r
    unfolding after_call_def Let_def recordToolResult_def by (intro quiet_steps) (auto intro!: quiet_steps)
  have torii: "preserves (quietly env i) (torii_call env i call st)" for st
    unfolding torii_call_def Let_def
    by (intro quiet_steps tool) (auto intro!: quiet_steps after split: run_error.split sum.split)
  show ?thesis
    unfolding dispatchToolCall_def
    by (intro quiet_steps uuid_ops) (auto intro: out python refused_quietly torii)
qed

lemma model_quietly:
  assumes "considerate env i"
  shows "preserves (quietly env i) (callModel env i p m h)"
proof -
  have "preserves (quietly env i) (hv_model env p m h)" using assms by (auto simp: considerate_def intro: others_quietly)
  then show ?thesis unfolding callModel_def by (intro quiet_steps)
qed

lemma set_parked_quietly: "preserves (quietly env i) (set_parked env i t c)"
proof -
  have "preserves (quietly env i) (on_db (setParkedMcpTask i t p now))" for p now
    by (rule on_db_ops [where x = "OpPark i t p now"]) (simp add: drives_quietly_def)
  then show ?thesis unfolding set_parked_def by (intro quiet_steps)
qed

lemma await_quietly: "preserves (quietly env i) m \<Longrightarrow> preserves (quietly env i) (awaitUnlessAborted i m)"
  unfolding preserves_def awaitUnlessAborted_def by (simp add: case_prod_beta)

lemma wait_quietly:
  assumes "considerate env i"
  shows "preserves (quietly env i) (parkedMcpTaskWaiter env i t c)"
proof -
  have poll: "preserves (quietly env i) (hv_poll env t iv)" for t iv
    using assms by (auto simp: considerate_def intro: others_quietly)
  have next': "preserves (quietly env i) (on_db (setNextPollAt i now))" for now
    by (rule on_db_ops [where x = "OpNextPoll i now"]) (simp add: drives_quietly_def)
  have clear: "preserves (quietly env i) (on_db (clearParkedMcpTask i now))" for now
    by (rule on_db_ops [where x = "OpUnpark i now"]) (simp add: drives_quietly_def)
  have "preserves (quietly env i) (on_db (renewRunLease i ow e))" for ow e
    by (rule on_db_ops [where x = "OpRenew i ow e"]) (simp add: drives_quietly_def)
  then have renew: "preserves (quietly env i) (renew_or_throw env i)"
    unfolding renew_or_throw_def by (intro quiet_steps) (auto intro!: quiet_steps)
  show ?thesis
    unfolding parkedMcpTaskWaiter_def
    by (intro quiet_steps set_parked_quietly)
      (auto intro!: quiet_steps await_quietly poll next' clear renew simp: recordToolResult_def split: option.split)
qed

lemma callbacks_quietly:
  "preserves (quietly env i) (on_db (drainParkedFollowUps (hv_runs env) i))"
  "preserves (quietly env i) (unitM (on_db (setRunBudget i b)))"
  "preserves (ops_rel (hv_runs env) (drives i (hv_replica env)) i) (unitM (on_db (setConversationHistory i h)))"
proof -
  show "preserves (quietly env i) (on_db (drainParkedFollowUps (hv_runs env) i))"
    by (rule on_db_ops [where x = "OpDrain i"]) (simp add: drives_quietly_def)
  show "preserves (quietly env i) (unitM (on_db (setRunBudget i b)))"
    unfolding unitM_def by (intro ops_intros on_db_ops [where x = "OpSetBudget i b"]) (simp add: drives_quietly_def)
  show "preserves (ops_rel (hv_runs env) (drives i (hv_replica env)) i) (unitM (on_db (setConversationHistory i h)))"
    unfolding unitM_def by (intro ops_intros on_db_ops [where x = "OpSetHistory i h"]) simp
qed

lemma quietly_drives': "preserves (quietly env i) m \<Longrightarrow> preserves (ops_rel (hv_runs env) (drives i (hv_replica env)) i) m"
  by (erule preserves_ops_mono) (rule quietly_drives)

section \<open>The conversation of a run\<close>

text \<open>The stored conversation of run \<open>i\<close> is \<open>h\<close>, as long as the system is considerate.\<close>

definition conversation_stored :: "'y harness_env \<Rightarrow> string \<Rightarrow> 'y run_world \<Rightarrow> conversation_entry list \<Rightarrow> bool" where
  "conversation_stored env i w h \<longleftrightarrow> (considerate env i \<longrightarrow> stored_history i (history_json h) (sw_db w))"

lemma quietly_leaves:
  assumes "considerate env i \<Longrightarrow> preserves (quietly env i) m"
  shows "leaves (conversation_stored env i) m"
  unfolding leaves_def conversation_stored_def
  using preservesD [OF assms] by (auto intro: stored_rel)

lemma set_history_stores: "stored_history i (history_json h) (snd (setConversationHistory i h db))"
proof (cases "getRunRow i db")
  case None
  then show ?thesis by (simp add: setConversationHistory_def stored_history_def)
next
  case (Some r)
  then show ?thesis using plain_rows(2) [OF Some, of i h] by (simp add: stored_history_def)
qed

lemma store_result: "unitM (on_db (setConversationHistory i h)) w = (Inr (), w\<lparr>sw_db := snd (setConversationHistory i h (sw_db w))\<rparr>)"
  by (simp add: unitM_def on_db_def setConversationHistory_def comp_simps update_runs_def split: option.split)

lemma drain_result: "on_db (drainParkedFollowUps env i) w = (Inr es, w') \<Longrightarrow> e \<in> set es \<Longrightarrow> \<exists>t. e = UserEntry t"
  by (auto simp: on_db_def drainParkedFollowUps_def Let_def)

interpretation talk: loop_world "harness_deps env i p m" "conversation_stored env i" True for env i p m
proof
  show "dp_onHistoryChanged (harness_deps env i p m) = Some f \<Longrightarrow> f h w = (Inr (), w') \<Longrightarrow> conversation_stored env i w' h" for f h w w'
    by (auto simp: harness_deps_def store_result conversation_stored_def set_history_stores)
qed (auto simp: harness_deps_def dest: drain_result intro!: quietly_leaves model_quietly dispatch_quietly wait_quietly callbacks_quietly)

interpretation steps: loop_world "harness_deps env i p m" "\<lambda>_ _. True" False for env i p m
  by unfold_locales (auto simp: harness_deps_def leaves_def dest: drain_result)

section \<open>Parking\<close>

definition driven :: "'y harness_env \<Rightarrow> string \<Rightarrow> 'y run_world \<Rightarrow> bool" where
  "driven env i w \<longleftrightarrow> driven_db i (hv_replica env) (sw_db w) \<and> \<not> lost_lease i w"

definition hibernating :: "'y harness_env \<Rightarrow> string \<Rightarrow> 'y run_world \<Rightarrow> bool" where
  "hibernating env i w \<longleftrightarrow> driven env i w \<and>
     (\<exists>r. getRunRow i (sw_db w) = Some r \<and> rr_mcp_task_id r \<noteq> None \<and> rr_next_poll_at r \<noteq> None)"

definition if_proper :: "'y harness_env \<Rightarrow> string \<Rightarrow> ('y run_world \<Rightarrow> bool) \<Rightarrow> 'y run_world \<Rightarrow> bool" where
  "if_proper env i Q w \<longleftrightarrow> (considerate env i \<longrightarrow> proper env \<longrightarrow> Q w)"

lemma driven_ops: "ops_rel (hv_runs env) (drives i (hv_replica env)) i w w' \<Longrightarrow> driven env i w \<Longrightarrow> driven env i w'"
  unfolding driven_def by (rule conjI) (blast dest: driven_rel, simp add: ops_rel_def)

lemma drives_keeps:
  assumes "considerate env i \<Longrightarrow> preserves (ops_rel (hv_runs env) (drives i (hv_replica env)) i) m"
  shows "preserves (holds_on (if_proper env i (driven env i))) m"
  using preservesD [OF assms] by (intro preservesI) (auto simp: holds_on_def if_proper_def intro: driven_ops)

lemma driven_after: "preserves (quietly env i) m \<Longrightarrow> driven env i w \<Longrightarrow> driven env i (snd (m w))"
  by (rule driven_ops [OF preservesD [OF quietly_drives']])

text \<open>A step leaves the park of a run alone.\<close>

lemma record_row:
  assumes "getRunRow i (sw_db w) = Some r"
  shows "\<exists>n u. getRunRow i (sw_db (snd (recordStep env j si b w))) = Some (r\<lparr>rr_step_count := n, rr_updated_at := u\<rparr>)"
proof -
  obtain v u where v: "(if si = None then randomUUID env else returnM []) w = (Inr u, v)" "sw_db v = sw_db w"
    by (cases "si = None") (auto simp: randomUUID_def returnM_def)
  have "sw_db (snd (recordStep env j si b w)) = sw_db (snd (store_appendStep (hv_runs env) u j si (hv_clock env w) b v))"
    by (cases "store_appendStep (hv_runs env) u j si (hv_clock env w) b v")
      (auto simp: recordStep_def bindM_def getsM_def v returnM_def split: sum.splits)
  then show ?thesis using append_row [OF assms] by (simp add: store_db v)
qed

lemma hibernates:
  assumes "driven env i w" "parkedMcpTaskWaiter env i t c w = (Inr r, w')" "wc_hibernate c" "considerate env i"
  shows "hibernating env i w'"
proof -
  obtain p u where set': "set_parked env i t c w = (Inr p, u)"
    and next': "snd (on_db (setNextPollAt i (hv_clock env u)) u) = w'"
    using assms(2,3)
    by (auto simp: parkedMcpTaskWaiter_def bindM_def getsM_def returnM_def split: prod.splits sum.splits)
  obtain r0 where r0: "getRunRow i (sw_db w) = Some r0" "is_running r0"
    using assms(1) by (auto simp: driven_def elim: driven_row)
  note i = getRunRow_in [OF r0(1)]
  let ?iv = "case wc_pollIntervalMs c of Some n \<Rightarrow> Some n | None \<Rightarrow> Option.bind (getParkedMcpTask i (sw_db w)) pk_pollIntervalMs"
  let ?db = "snd (setParkedMcpTask i t ?iv (hv_clock env w) (sw_db w))"
  have fits: "pg_int4_opt ?iv"
    by (rule ccontr) (use set' in \<open>auto simp: set_parked_def bindM_def getsM_def on_db_def setParkedMcpTask_def\<close>)
  then obtain b where pk: "setParkedMcpTask i t ?iv (hv_clock env w) (sw_db w) = (Inr b, ?db)"
    by (simp add: setParkedMcpTask_def update_runs_def)
  have u: "snd (recordStep env i (wc_stepId c) (WaitingApprovalStep (map_option call_tool (wc_call c)) (Some t) None)
      (w\<lparr>sw_db := ?db\<rparr>)) = u"
    using set' pk by (auto simp: set_parked_def bindM_def getsM_def returnM_def on_db_def split: prod.splits sum.splits)
  have "\<exists>x. getRunRow i ?db = Some x \<and> rr_mcp_task_id x = Some t"
    using r0 i fits by (auto simp: setParkedMcpTask_def update_runs_def getRunRow_update)
  then obtain x where x: "getRunRow i (sw_db u) = Some x" "rr_mcp_task_id x = Some t"
    using record_row [of i "w\<lparr>sw_db := ?db\<rparr>"] u by fastforce
  have du: "driven env i u" using driven_after [OF set_parked_quietly assms(1)] set' by (metis snd_conv)
  then obtain x' where "getRunRow i (sw_db u) = Some x'" "is_running x'" by (auto simp: driven_def elim: driven_row)
  then have run: "is_running x" using x by simp
  have "getRunRow i (sw_db w') = Some (x\<lparr>rr_next_poll_at := Some (hv_clock env u)\<rparr>)"
    using x(1) run getRunRow_in [OF x(1)]
    unfolding next' [symmetric] by (simp add: on_db_frame setNextPollAt_def update_runs_def getRunRow_update)
  moreover have "driven env i w'" using driven_after [OF wait_quietly [OF assms(4)] assms(1)] assms(2) by (metis snd_conv)
  ultimately show ?thesis using x(2) by (simp add: hibernating_def)
qed

text \<open>Results that are never hibernated.\<close>

definition yields :: "('a \<Rightarrow> bool) \<Rightarrow> ('s, 'e, 'a) comp \<Rightarrow> bool" where
  "yields Q m \<longleftrightarrow> (\<forall>w x w'. m w = (Inr x, w') \<longrightarrow> Q x)"

lemma yields_basic: "Q x \<Longrightarrow> yields Q (returnM x)" "yields Q (throwM e)"
  by (simp_all add: yields_def returnM_def throwM_def)

lemma yields_then:
  assumes "yields P m" "\<And>x. P x \<Longrightarrow> yields Q (k x)"
  shows "yields Q (bindM m k)"
  unfolding yields_def
proof (intro allI impI)
  fix w y w'
  assume "bindM m k w = (Inr y, w')"
  then obtain x v where "m w = (Inr x, v)" "k x v = (Inr y, w')" by (auto simp: bindM_def split: prod.splits sum.splits)
  then show "Q y" using assms unfolding yields_def by blast
qed

lemma yields_bind: "(\<And>x. yields Q (k x)) \<Longrightarrow> yields Q (bindM m k)"
  by (rule yields_then [where P = "\<lambda>_. True"]) (simp_all add: yields_def)

lemma yields_catch:
  assumes "yields Q m" "\<And>e. yields Q (h e)"
  shows "yields Q (catchM m h)"
  unfolding yields_def
proof (intro allI impI)
  fix w y w'
  assume "catchM m h w = (Inr y, w')"
  then consider "m w = (Inr y, w')" | e v where "h e v = (Inr y, w')" by (auto simp: catchM_def split: prod.splits sum.splits)
  then show "Q y" using assms unfolding yields_def by cases blast+
qed

lemmas yields_intros = yields_basic yields_bind yields_catch

abbreviation awake :: "tool_dispatch_result \<Rightarrow> bool" where
  "awake r \<equiv> \<not> td_hibernated r"

lemma recorded_awake: "awake r \<Longrightarrow> yields awake (recorded env i call r)"
  unfolding recorded_def by (intro yields_intros)

lemma plain_awake [simp]: "awake (plain_result b t)" "awake (formatSandboxExecResult r)" "awake (denied_result e)"
  by (simp_all add: plain_result_def formatSandboxExecResult_def denied_result_def Let_def)

lemma dispatch_awake:
  assumes "proper env"
  shows "yields awake (dispatchToolCall env i call)"
proof -
  have tool: "yields awake (hv_callTool env n a)" for n a using assms by (auto simp: proper_def yields_def)
  have refused: "yields awake (refused_call env i call m)" for m
    unfolding refused_call_def by (intro yields_intros recorded_awake) simp
  have out: "yields awake (task_output_call env i call)"
    unfolding task_output_call_def by (auto intro!: yields_intros split: option.split)
  have python: "yields awake (python_call env i call)"
    unfolding python_call_def by (auto intro!: yields_intros recorded_awake refused split: option.split)
  have after: "yields awake (after_call env i call st r)" if "awake r" for st r
    unfolding after_call_def Let_def
    by (intro yields_intros) (auto intro!: yields_intros recorded_awake simp: that split: option.split)
  have torii: "yields awake (torii_call env i call st)" for st
    unfolding torii_call_def Let_def
  proof (rule yields_bind)
    show "yields awake (bindM (catchM (bindM (hv_callTool env (call_tool call) args) (\<lambda>r. returnM (Inr r)))
        (\<lambda>e. case e of TaskCancelled m \<Rightarrow> throwM e
           | _ \<Rightarrow> bindM (recorded env i call (denied_result e)) (\<lambda>r. returnM (Inl r))))
      (\<lambda>x. case x of Inl r \<Rightarrow> returnM r | Inr result \<Rightarrow> after_call env i call st result))" for args
    proof (rule yields_then [where P = "case_sum awake awake"])
      show "yields (case_sum awake awake) (catchM (bindM (hv_callTool env (call_tool call) args) (\<lambda>r. returnM (Inr r)))
        (\<lambda>e. case e of TaskCancelled m \<Rightarrow> throwM e
           | _ \<Rightarrow> bindM (recorded env i call (denied_result e)) (\<lambda>r. returnM (Inl r))))"
        by (auto intro!: yields_catch yields_then [OF tool] yields_then [OF recorded_awake] yields_basic split: run_error.split)
    qed (auto intro: yields_basic after split: sum.splits)
  qed
  show ?thesis
    unfolding dispatchToolCall_def by (intro yields_bind) (auto intro: out python refused torii)
qed

lemma waiter_awake:
  assumes "proper env" "\<not> wc_hibernate c"
  shows "yields awake (parkedMcpTaskWaiter env i t c)"
proof -
  have poll: "yields awake (awaitUnlessAborted i (hv_poll env t iv))" for t iv
  proof -
    have "hv_poll env t iv w = (Inr r, w') \<Longrightarrow> awake r" for w r w' using assms(1) unfolding proper_def by blast
    then show ?thesis by (auto simp: yields_def awaitUnlessAborted_def split: prod.splits if_splits)
  qed
  show ?thesis
    unfolding parkedMcpTaskWaiter_def using assms(2)
    by (auto intro!: yields_bind yields_then [OF poll] yields_basic)
qed

interpretation parking: loop_parking "harness_deps env i p m" "if_proper env i (driven env i)" "if_proper env i (hibernating env i)"
  for env i p m
proof
  show "dp_waitForApproval (harness_deps env i p m) = Some wait \<Longrightarrow> if_proper env i (driven env i) w \<Longrightarrow>
      wait a ctx w = (Inr r, w') \<Longrightarrow> td_hibernated r \<Longrightarrow> if_proper env i (hibernating env i) w'" for wait w a ctx r w'
    using hibernates [of env i w a ctx r w'] waiter_awake [of env ctx i a]
    by (auto simp: harness_deps_def if_proper_def yields_def)
  show "if_proper env i (driven env i) w \<Longrightarrow> dp_dispatchToolCall (harness_deps env i p m) c w = (Inr r, w') \<Longrightarrow>
      td_hibernated r \<Longrightarrow> if_proper env i (hibernating env i) w'" for w c r w'
    using dispatch_awake [of env i c] by (auto simp: harness_deps_def if_proper_def yields_def)
qed (auto simp: harness_deps_def intro!: drives_keeps quietly_drives' model_quietly dispatch_quietly wait_quietly callbacks_quietly)

interpretation errors: loop_errors "harness_deps env i p m" "\<lambda>e. \<not> isRunLeaseError e" for env i p m
proof
  have db: "\<not> isRunLeaseError (db_error x)" for x by (simp add: db_error_def split: run_exn.split)
  have on: "on_db d w = (Inl e, w') \<Longrightarrow> \<not> isRunLeaseError e" for d :: "'z run_comp" and w e and w' :: "'a run_world"
    using db by (auto simp: on_db_def split: prod.splits sum.splits)
  show "dp_drain (harness_deps env i p m) = Some d \<Longrightarrow> d w = (Inl e, w') \<Longrightarrow> \<not> isRunLeaseError e" for d w e w'
    by (auto simp: harness_deps_def on_db_def drainParkedFollowUps_def Let_def)
  show "dp_onHistoryChanged (harness_deps env i p m) = Some f \<Longrightarrow> f h w = (Inl e, w') \<Longrightarrow> \<not> isRunLeaseError e" for f h w e w'
    by (auto simp: harness_deps_def store_result)
  show "dp_onBudgetChanged (harness_deps env i p m) = Some g \<Longrightarrow> g b w = (Inl e, w') \<Longrightarrow> \<not> isRunLeaseError e" for g b w e w'
    using db by (auto simp: harness_deps_def unitM_def bindM_def returnM_def on_db_def split: prod.splits sum.splits)
qed

end
