(* ===== verification/DriveSafety.thy ===== *)
theory DriveSafety
  imports HarnessSafety
begin

text \<open>
  The guarantees of a driven run: it settles (completed, or parked where the sweep finds it), it
  answers every tool call, it ends within its limit, and its conversation is stored; and what goes
  wrong around them.
\<close>

section \<open>Completing a run\<close>

definition ended :: "string \<Rightarrow> 'y run_world \<Rightarrow> bool" where
  "ended i w \<longleftrightarrow> over i (sw_db w) \<and> \<not> lost_lease i w"

lemma append_fresh:
  assumes "getRunRow i db = Some r" "\<forall>s \<in> set (rd_steps db). rs_id (sp_step s) \<noteq> rs_id st"
  shows "\<exists>x. fst (appendStep env i st now db) = Inr (Some x)"
proof -
  let ?db = "add_step i st (\<lambda>r. r\<lparr>rr_step_count := rr_step_count r + 1, rr_updated_at := now\<rparr>) db"
  have ins: "insertStep i st db = (Inr (), db\<lparr>rd_steps := rd_steps db @ [\<lparr>sp_run_id = i, sp_step = st\<rparr>]\<rparr>)"
    using assms by (auto simp: insertStep_def)
  obtain x where rec: "recordAttempt env i (rs_id st) ?db = (Inr (), x)" using recordAttempt_pair by blast
  have "getRunRow i ?db \<noteq> None" using assms(1) by (simp add: add_step_row)
  moreover have "getRunRow i x = getRunRow i ?db" using recordAttempt_row [of i env i "rs_id st" ?db] by (simp add: rec)
  ultimately show ?thesis
    using assms(1) ins rec
    by (auto simp: appendStep_def bindM_def [of "atomicallyM _"] atomicallyM_def counted_step returnM_def get_run_def)
qed

lemma record_fresh:
  assumes "getRunRow i (sw_db w) = Some r" "fresh_ids env"
  shows "\<exists>v. recordStep env i None b w = (Inr (), v)"
proof -
  let ?v = "w\<lparr>sw_outside := snd (hv_uuid env w)\<rparr>" and ?st = "createRunStep (fst (hv_uuid env w)) None (hv_clock env w) b"
  have "\<forall>s \<in> set (rd_steps (sw_db w)). rs_id (sp_step s) \<noteq> rs_id ?st"
    using assms(2) by (simp add: fresh_ids_def createRunStep_def)
  then obtain x where "fst (appendStep (hv_runs env) i ?st (hv_clock env w) (sw_db w)) = Inr (Some x)"
    using append_fresh [OF assms(1)] by blast
  then obtain db where ap: "appendStep (hv_runs env) i ?st (hv_clock env w) (sw_db w) = (Inr (Some x), db)" by (metis prod.collapse)
  obtain es where n: "notify_if (hv_runs env) i True (?v\<lparr>sw_db := db\<rparr>) = (Inr (), ?v\<lparr>sw_db := db, sw_events := es\<rparr>)"
    using notify_if_result by metis
  show ?thesis
    using ap n by (simp add: recordStep_def bindM_def getsM_def randomUUID_def store_appendStep_def on_db_def returnM_def)
qed

lemma complete_over:
  assumes "run_wf db" "getRunRow i db = Some r"
  shows "over i (snd (complete_run env i out now db)) \<and> (\<exists>x. fst (complete_run env i out now db) = Inr x)"
proof
  show "over i (snd (complete_run env i out now db))"
    using complete_run_wf [OF assms(1)] plain_rows(1) [OF assms(2), of env i out now]
    by (simp add: over_def complete_row_def is_running_def)
  show "\<exists>x. fst (complete_run env i out now db) = Inr x"
    using assms(2) by (simp add: complete_run_def comp_simps update_runs_def delete_follow_ups_def get_run_def)
qed

lemma completes:
  assumes "driven env i w" "considerate env i" "fresh_ids env"
  shows "wp (completeRunWithOutcomeStep env i out) (\<lambda>_. ended i) (\<lambda>_ _. False) w"
proof -
  obtain r where r: "getRunRow i (sw_db w) = Some r" using assms(1) by (auto simp: driven_def elim: driven_row)
  obtain v where v: "recordStep env i None (outcome_body out) w = (Inr (), v)" using record_fresh [OF r assms(3)] by blast
  have dv: "driven env i v" using driven_after [OF record_quietly assms(1), of None "outcome_body out"] v by simp
  then obtain r' where r': "getRunRow i (sw_db v) = Some r'" by (auto simp: driven_def elim: driven_row)
  have wf: "run_wf (sw_db v)" using dv by (simp add: driven_def driven_db_def)
  let ?c = "complete_run (hv_runs env) i out (hv_clock env v) (sw_db v)"
  obtain x db where c: "?c = (Inr x, db)" "over i db" using complete_over [OF wf r', of "hv_runs env" out "hv_clock env v"]
    by (metis prod.collapse snd_conv)
  obtain es where n: "notify_if (hv_runs env) i (x \<noteq> None) (v\<lparr>sw_db := db\<rparr>) = (Inr (), v\<lparr>sw_db := db, sw_events := es\<rparr>)"
    using notify_if_result by metis
  let ?u = "v\<lparr>sw_db := db, sw_events := es\<rparr>"
  have u: "ended i ?u" using c(2) dv by (simp add: ended_def driven_def lost_lease_def)
  have del: "wp (delete_workspace env i) (\<lambda>_. ended i) (\<lambda>_ _. False) ?u"
  proof (cases "hv_deleteRun env")
    case None
    then show ?thesis using u by (simp add: delete_workspace_def wp_return)
  next
    case (Some f)
    then have "others env i ?u (snd (f i ?u))" using assms(2) by (auto simp: considerate_def intro: preservesD)
    then have "over i (sw_db (snd (f i ?u)))" "\<not> lost_lease i (snd (f i ?u))"
      using u unfolding others_def ended_def by (blast dest: over_rel, simp add: ops_rel_def)
    then have "ended i (snd (f i ?u))" by (simp add: ended_def)
    then show ?thesis by (auto simp: delete_workspace_def Some wp_catch wp_return intro!: wpI)
  qed
  have "completeRunWithOutcomeStep env i out w = delete_workspace env i ?u"
    using v c n by (simp add: completeRunWithOutcomeStep_def bindM_def getsM_def store_completeRun_def on_db_def returnM_def)
  then show ?thesis using del by (simp add: wp_def)
qed

section \<open>A session\<close>

lemma set_history_driven:
  assumes "driven env i w"
  shows "driven env i (w\<lparr>sw_db := snd (setConversationHistory i h (sw_db w))\<rparr>)"
  using driven_ops [OF preservesD [OF callbacks_quietly(3) [of env i h], of w] assms] by (simp add: store_result)

lemma set_history_hibernating:
  assumes "hibernating env i w"
  shows "hibernating env i (w\<lparr>sw_db := snd (setConversationHistory i h (sw_db w))\<rparr>)"
proof -
  obtain r where r: "getRunRow i (sw_db w) = Some r" "rr_mcp_task_id r \<noteq> None" "rr_next_poll_at r \<noteq> None"
    using assms by (auto simp: hibernating_def)
  then show ?thesis
    using assms plain_rows(2) [OF r(1), of i h] set_history_driven by (auto simp: hibernating_def)
qed

lemma on_db_store: "on_db (setConversationHistory i h) w =
    (Inr (getRunRow i (sw_db w) \<noteq> None), w\<lparr>sw_db := snd (setConversationHistory i h (sw_db w))\<rparr>)"
  by (simp add: on_db_def setConversationHistory_def comp_simps update_runs_def split: option.split)

lemma finishes:
  assumes "driven env i w" "considerate env i" "fresh_ids env" "lr_outcome r = LoopParked \<Longrightarrow> hibernating env i w"
  shows "wp (finish_run env i r) (\<lambda>_ w. ended i w \<or> hibernating env i w) (\<lambda>_ _. False) w"
proof -
  have l: "\<not> lost_lease i w" using assms(1) by (simp add: driven_def)
  let ?w = "w\<lparr>sw_db := snd (setConversationHistory i (lr_history r) (sw_db w))\<rparr>"
  have st: "wp (on_db (setConversationHistory i (lr_history r))) Q E w = Q (getRunRow i (sw_db w) \<noteq> None) ?w" for Q E
    by (simp add: wp_def on_db_store)
  show ?thesis
  proof (cases "lr_outcome r")
    case LoopParked
    then show ?thesis using set_history_hibernating [OF assms(4)] by (simp add: finish_run_def wp_simps l st)
  next
    case (LoopEnded out)
    have "wp (completeRunWithOutcomeStep env i out) (\<lambda>_ w. ended i w \<or> hibernating env i w) (\<lambda>_ _. False) ?w"
      by (rule wp_mono [OF completes [OF set_history_driven [OF assms(1)] assms(2,3)]]) simp_all
    then show ?thesis by (simp add: finish_run_def wp_simps l st LoopEnded)
  qed
qed

lemma wp_thrown: "wp (thrown m) Q E w = wp m Q (\<lambda>e. E (Thrown e)) w"
  by (simp add: wp_def thrown_def split: prod.split sum.split)

lemma wp_runTaskLoop:
  "wp (runTaskLoop calls fuel start deps) Q E w =
    wp (run_loop calls fuel start deps) (\<lambda>x s. Q x (lp_world s)) (\<lambda>e s. E e (lp_world s)) (initial_state deps start w)"
  by (simp add: wp_def runTaskLoop_def split: prod.split sum.split)

text \<open>The limits of a run, with fuel for all its iterations.\<close>

definition enough :: "nat \<Rightarrow> nat \<Rightarrow> run_task \<Rightarrow> bool" where
  "enough calls fuel t \<longleftrightarrow> 0 < calls \<and> (\<exists>N. tl_max_iterations (resolveTaskLimits t) = Some N \<and> nat N \<le> fuel)"

lemma settles_waiter: "waiter_settles (harness_deps env i p m)"
  unfolding waiter_settles_def harness_deps_def loop_deps.simps option.inject
proof (intro allI impI)
  fix wait a c w r and w' :: "'a run_world"
  assume "parkedMcpTaskWaiter env i = wait" and h: "wc_hibernate c" and run: "wait a c w = (Inr r, w')"
  then have "parkedMcpTaskWaiter env i a c w = (Inr r, w')" by simp
  then have "r = hibernated_result"
    using h by (auto simp: parkedMcpTaskWaiter_def bindM_def getsM_def returnM_def split: prod.splits sum.splits)
  then show "td_hibernated r \<or> td_approvalRequired r = None" by (simp add: hibernated_result_def)
qed

definition fails_well :: "'y harness_env \<Rightarrow> string \<Rightarrow> loop_exn \<Rightarrow> 'y run_world \<Rightarrow> bool" where
  "fails_well env i e w \<longleftrightarrow> driven env i w \<and> (\<exists>err. e = Thrown err \<and> \<not> isRunLeaseError err)"

lemma exn_thrown: "e \<noteq> OutOfFuel \<Longrightarrow> \<exists>err. e = Thrown err"
  by (cases e) auto

lemma loop_settles:
  assumes "driven env i w" "considerate env i" "proper env" "\<And>b. budget = Some b \<Longrightarrow> 0 \<le> lb_iterationsUsed b"
    and "enough calls fuel (di_task inp)"
  shows "wp (runTaskLoop calls fuel (loop_start_of inp parked budget) (harness_deps env i p m))
     (\<lambda>r w. driven env i w \<and> (lr_outcome r = LoopParked \<longrightarrow> hibernating env i w)) (fails_well env i) w"
proof -
  let ?deps = "harness_deps env i p m" and ?start = "loop_start_of inp parked budget"
  let ?s = "initial_state ?deps ?start w" and ?loop = "run_loop calls fuel ?start ?deps"
  have w: "lp_world ?s = w" by (simp add: initial_state_def)
  have used: "0 \<le> lp_iterationsUsed ?s"
    using assms(4) by (simp add: initial_state_def loop_start_of_def split: option.split)
  obtain N where N: "0 < calls" "tl_max_iterations (ls_limits ?start) = Some N" "nat N \<le> fuel"
    using assms(5) by (auto simp: enough_def loop_start_of_def)
  have 1: "wp ?loop (\<lambda>_ _. True) (\<lambda>e _. e \<noteq> OutOfFuel) ?s"
    by (rule wp_mono [OF steps.run_loop_spec [where tot = True, OF TrueI refl used]])
      (use N settles_waiter in \<open>auto simp: steps.thrown_from_def\<close>)
  have 2: "wp ?loop (parking.parks env i parking.parked_result) (\<lambda>e s. if_proper env i (driven env i) (lp_world s)) ?s"
    by (rule parking.run_loop_parks) (use assms(1) w in \<open>simp add: if_proper_def\<close>)
  have 3: "wp ?loop (\<lambda>_ _. True) (\<lambda>e _. \<forall>err. e = Thrown err \<longrightarrow> \<not> isRunLeaseError err) ?s"
    by (rule wpI) (auto dest: only_throwsD [OF errors.run_loop_G])
  have "wp ?loop (\<lambda>x s. (True \<and> parking.parks env i parking.parked_result x s) \<and> True)
      (\<lambda>e s. (e \<noteq> OutOfFuel \<and> if_proper env i (driven env i) (lp_world s)) \<and> (\<forall>err. e = Thrown err \<longrightarrow> \<not> isRunLeaseError err)) ?s"
    by (intro wp_conj 1 2 3)
  then show ?thesis
    unfolding wp_runTaskLoop
    by (rule wp_mono) (auto simp: parking.parks_def parking.parked_result_def if_proper_def assms(2,3) fails_well_def
        dest: exn_thrown)
qed

lemma session_settles:
  assumes "driven env (di_runId inp) w" "considerate env (di_runId inp)" "proper env" "enough calls fuel (di_task inp)"
    and "\<And>r. getRunRow (di_runId inp) (sw_db w) = Some r \<Longrightarrow> 0 \<le> rr_iterations_used r"
  shows "wp (run_session env calls fuel inp parked) (\<lambda>_ w. ended (di_runId inp) w \<or> hibernating env (di_runId inp) w)
    (fails_well env (di_runId inp)) w"
proof -
  let ?i = "di_runId inp"
  have con: "others env ?i w (snd (hv_connect env w))" using assms(2) by (auto simp: considerate_def intro: preservesD)
  have d: "driven env ?i (snd (hv_connect env w))"
    using driven_after [OF others_quietly assms(1)] assms(2) by (auto simp: considerate_def)
  have used: "0 \<le> lb_iterationsUsed b" if "getRunBudget ?i (sw_db (snd (hv_connect env w))) = Some b" for b
  proof -
    have "map_option rr_iterations_used (getRunRow ?i (sw_db (snd (hv_connect env w)))) = map_option rr_iterations_used (getRunRow ?i (sw_db w))"
      using iterations_rel [OF con [unfolded others_def]] assms(1) by (simp add: driven_def)
    then show ?thesis using that assms(5) by (cases "getRunRow ?i (sw_db w)") (auto simp: getRunBudget_def)
  qed
  have rest: "wp (runTaskLoop calls fuel (loop_start_of inp parked budget) (harness_deps env ?i (di_systemPrompt inp) (di_modelId inp)))
      (\<lambda>r. wp (thrown (finish_run env ?i r)) (\<lambda>_ w. ended ?i w \<or> hibernating env ?i w) (fails_well env ?i)) (fails_well env ?i) v"
    if "driven env ?i v" "\<And>b. budget = Some b \<Longrightarrow> 0 \<le> lb_iterationsUsed b" for budget v
    by (rule wp_mono [OF loop_settles [OF that(1) assms(2,3) that(2) assms(4)]])
      (use assms(2,3) in \<open>auto simp: wp_thrown proper_def intro!: wp_mono [OF finishes]\<close>)
  show ?thesis
    unfolding run_session_def Let_def wp_simps wp_thrown [of "hv_connect env"]
  proof (rule wpI)
    fix x v assume c: "hv_connect env w = (Inr x, v)"
    show "wp (runTaskLoop calls fuel (loop_start_of inp parked (getRunBudget ?i (sw_db v)))
        (harness_deps env ?i (di_systemPrompt inp) (di_modelId inp)))
      (\<lambda>r. wp (thrown (finish_run env ?i r)) (\<lambda>_ w. ended ?i w \<or> hibernating env ?i w) (fails_well env ?i)) (fails_well env ?i) v"
      by (rule rest) (use d used c in simp_all)
  next
    fix e v assume c: "hv_connect env w = (Inl e, v)"
    then have "\<not> isRunLeaseError e" using assms(3) unfolding proper_def by blast
    then show "fails_well env ?i (Thrown e) v" using d c by (simp add: fails_well_def)
  qed
qed

section \<open>A run settles\<close>

text \<open>Completed (or already removed by retention), or parked, unowned, and found by the sweep from some time on.\<close>

definition settled :: "run_env \<Rightarrow> string \<Rightarrow> run_db \<Rightarrow> bool" where
  "settled env i db \<longleftrightarrow> (case getRunRow i db of
     None \<Rightarrow> True
   | Some r \<Rightarrow> rr_owner_id r = None \<and>
      (rr_status r = RunCompleted \<or> (\<exists>t. \<forall>now \<ge> t. i \<in> pk_runId ` set (listClaimableParkedMcpTasks env now db))))"

lemma oldest_first_set [simp]: "set (oldest_first env rows) = set rows"
  by (simp add: oldest_first_def)

lemma parked_is_found:
  assumes "getRunRow i db = Some r" "is_parked r" "rr_owner_id r = None" "rr_next_poll_at r = Some t" "t \<le> now"
  shows "i \<in> pk_runId ` set (listClaimableParkedMcpTasks env now db)"
  using getRunRow_in [OF assms(1)] assms(2-5)
  by (force simp: listClaimableParkedMcpTasks_def parkedMcpTaskFromRow_def lease_free_def poll_due_def)

lemma released:
  assumes "ended i w \<or> hibernating env i w"
  shows "wp (end_drive env i) (\<lambda>_ v. run_wf (sw_db v) \<and> settled rv i (sw_db v)) (\<lambda>_ _. False) w"
proof -
  let ?db = "snd (releaseRun i (hv_replica env) (sw_db w))"
  have l: "\<not> lost_lease i w" and wf: "run_wf (sw_db w)"
    using assms by (auto simp: ended_def hibernating_def driven_def over_def driven_db_def)
  have s: "settled rv i ?db"
  proof (cases "getRunRow i (sw_db w)")
    case None
    then have "getRunRow i ?db = None" by (auto simp: releaseRun_def update_runs_def getRunRow_update)
    then show ?thesis by (simp add: settled_def)
  next
    case (Some r)
    note row = plain_rows(10) [OF Some, of i "hv_replica env"]
    have ok: "run_row_ok r" using wf getRunRow_in [OF Some] by (auto simp: run_wf_def list_all_iff)
    show ?thesis
    proof (cases "is_running r")
      case False
      then have "getRunRow i ?db = Some r" "rr_owner_id r = None" using ok row by (auto simp: run_row_ok_def)
      then show ?thesis using False by (cases "rr_status r") (simp_all add: settled_def is_running_def)
    next
      case True
      then have h: "hibernating env i w" using assms Some by (auto simp: ended_def over_def)
      then have "rr_owner_id r = Some (hv_replica env)" "rr_mcp_task_id r \<noteq> None"
        using Some by (auto simp: hibernating_def driven_def elim: driven_row)
      moreover obtain t where "rr_next_poll_at r = Some t" using h Some by (auto simp: hibernating_def)
      ultimately have "\<exists>x. getRunRow i ?db = Some x \<and> is_parked x \<and> rr_owner_id x = None \<and> rr_next_poll_at x = Some t"
        using True row by (simp add: is_parked_def is_running_def)
      then show ?thesis using parked_is_found by (fastforce simp: settled_def)
    qed
  qed
  have "end_drive env i w = (Inr (), w\<lparr>sw_stop := release i (sw_stop w), sw_db := ?db\<rparr>)"
    using l by (simp add: end_drive_def bindM_def modifyM_def getsM_def lost_lease_def unitM_def on_db_def releaseRun_def update_runs_def returnM_def)
  then show ?thesis using s quiet_ops_wf(8) [OF wf] by (simp add: wp_def)
qed

lemma wp_finally_do:
  assumes "wp m (\<lambda>_. R) (\<lambda>e w. e \<noteq> OutOfFuel \<and> R w) w" "\<And>w. R w \<Longrightarrow> wp f (\<lambda>_. S) (\<lambda>_ _. False) w"
  shows "wp (finally_do m f) (\<lambda>_. S) (\<lambda>e w. e \<noteq> OutOfFuel \<and> S w) w"
proof -
  obtain r v where m: "m w = (r, v)" by (cases "m w")
  have R: "R v" and e: "r \<noteq> Inl OutOfFuel" using assms(1) by (auto simp: wp_def m split: sum.splits)
  obtain u where "f v = (Inr (), u)" "S u"
    using assms(2) [OF R] by (cases "f v"; cases "fst (f v)") (auto simp: wp_def)
  then show ?thesis using m e
    by (auto simp: wp_def finally_do_def bindM_def split: sum.splits loop_exn.splits)
qed

lemma drive_claims:
  assumes "run_wf (sw_db w)"
  shows "wp (claim_for_drive env i) (\<lambda>_ v. driven env i v \<and> (\<forall>r. getRunRow i (sw_db v) = Some r \<longrightarrow>
      (\<exists>r0. getRunRow i (sw_db w) = Some r0 \<and> rr_iterations_used r = rr_iterations_used r0)))
    (\<lambda>e v. e = RunNotClaimed i \<and> sw_db v = sw_db w) w"
proof -
  let ?e = "leaseExpiresAt (hv_clock env w) (hv_leaseMs env)" and ?now = "hv_clock env w"
  let ?c = "claimRun i (hv_replica env) ?e ?now (sw_db w)"
  obtain b db where c: "?c = (Inr b, db)" by (simp add: claimRun_def comp_simps update_runs_def)
  show ?thesis
  proof (cases b)
    case True
    have "fst ?c = Inr True" using c True by simp
    then have "holds_lease i (hv_replica env) ?e db" using claim_holds [OF assms] c by fastforce
    then have "driven_db i (hv_replica env) db"
      unfolding driven_db_def using quiet_ops_wf(6) [OF assms, of i "hv_replica env" ?e ?now] c by auto
    moreover have "\<exists>r0. getRunRow i (sw_db w) = Some r0 \<and> rr_iterations_used r = rr_iterations_used r0"
      if "getRunRow i db = Some r" for r
    proof -
      have "getRunRow i (snd ?c) = Some r" using that c by simp
      then show ?thesis
        by (cases "getRunRow i (sw_db w)")
          (auto simp: plain_rows(8) claimRun_def comp_simps update_runs_def getRunRow_update split: if_splits)
    qed
    ultimately show ?thesis
      using True by (simp add: wp_def claim_for_drive_def bindM_def getsM_def on_db_def c modifyM_def driven_def lost_lease_def)
  next
    case False
    have "tbl_count (\<lambda>r. rr_id r = i \<and> is_running r \<and> lease_free ?now r) (rd_runs (sw_db w)) = 0"
      using c False by (auto simp: claimRun_def comp_simps update_runs_def)
    then have none: "\<forall>r \<in> set (rd_runs (sw_db w)). \<not> (rr_id r = i \<and> is_running r \<and> lease_free ?now r)"
      unfolding tbl_count_0 .
    have "db = sw_db w"
      using c tbl_update_none [OF none] by (auto simp: claimRun_def comp_simps update_runs_def)
    then show ?thesis
      using False by (simp add: wp_def claim_for_drive_def bindM_def getsM_def on_db_def c throwM_def)
  qed
qed

text \<open>
  C18. A run that a worker drives is never left behind: whatever the model, the gateway, the sandbox
  and the operators do while it is driven (errors, parked calls, follow-ups, stops, exceptions of
  the database on the way), driving it ends, and afterwards the run is completed, or it is parked
  without an owner and every sweep from some time on finds it. Otherwise the worker did not get the
  claim and has changed nothing. It needs fresh ids, a limit on the iterations, and that nobody takes
  the run over.
\<close>

theorem driven_run_settles:
  assumes "run_wf (sw_db w)" "considerate env (di_runId inp)" "proper env" "enough calls fuel (di_task inp)"
    and "\<forall>r \<in> set (rd_runs (sw_db w)). 0 \<le> rr_iterations_used r"
  shows "case driveHarnessRun env calls fuel inp w of (res, w') \<Rightarrow>
    res \<noteq> Inl OutOfFuel \<and> run_wf (sw_db w') \<and>
    (res = Inl (Thrown (RunNotClaimed (di_runId inp))) \<and> sw_db w' = sw_db w \<or> settled (hv_runs env) (di_runId inp) (sw_db w'))"
proof -
  let ?i = "di_runId inp" and ?S = "\<lambda>v. run_wf (sw_db v) \<and> settled (hv_runs env) (di_runId inp) (sw_db v)"
  let ?R = "\<lambda>v. ended ?i v \<or> hibernating env ?i v"
  have failed: "wp (thrown (drive_failed env ?i err)) (\<lambda>_. ?R) (\<lambda>e v. e \<noteq> OutOfFuel \<and> ?R v) v"
    if "driven env ?i v" "\<not> isRunLeaseError err" for err and v :: "'a run_world"
  proof -
    have l: "\<not> lost_lease ?i v" and "run_is_running ?i v"
      using that(1) by (auto simp: driven_def run_is_running_def elim: driven_row)
    have f: "fresh_ids env" using assms(3) by (simp add: proper_def)
    have "wp (fail_if_running env ?i reason) (\<lambda>_. ended ?i) (\<lambda>_ _. False) v" for reason
      using completes [OF that(1) assms(2) f] by (simp add: fail_if_running_def wp_simps \<open>run_is_running ?i v\<close>)
    then show ?thesis
      unfolding wp_thrown drive_failed_def wp_simps using that(2) l by (auto intro: wp_mono)
  qed
  have body: "wp (catch_thrown (run_session env calls fuel inp parked) (\<lambda>e. thrown (drive_failed env ?i e)))
      (\<lambda>_. ?R) (\<lambda>e v. e \<noteq> OutOfFuel \<and> ?R v) v"
    if "driven env ?i v" "\<And>r. getRunRow ?i (sw_db v) = Some r \<Longrightarrow> 0 \<le> rr_iterations_used r" for parked v
    unfolding catch_thrown_def wp_catch
    by (rule wp_mono [OF session_settles [OF that(1) assms(2,3,4) that(2)]])
      (auto simp: fails_well_def intro: failed)
  have all: "wp (finally_do (catch_thrown (run_session env calls fuel inp parked) (\<lambda>e. thrown (drive_failed env ?i e)))
      (thrown (end_drive env ?i))) (\<lambda>_. ?S) (\<lambda>e v. e \<noteq> OutOfFuel \<and> ?S v) v"
    if "driven env ?i v" "\<And>r. getRunRow ?i (sw_db v) = Some r \<Longrightarrow> 0 \<le> rr_iterations_used r" for parked v
    by (rule wp_finally_do [OF body [OF that]]) (auto simp: wp_thrown intro: wp_mono [OF released])
  let ?T = "\<lambda>res v. res \<noteq> Inl OutOfFuel \<and> run_wf (sw_db v) \<and>
    (res = Inl (Thrown (RunNotClaimed ?i)) \<and> sw_db v = sw_db w \<or> settled (hv_runs env) ?i (sw_db v))"
  have start: "0 \<le> rr_iterations_used r" if "getRunRow ?i (sw_db w) = Some r" for r
    using assms(5) getRunRow_in [OF that] by blast
  have "wp (driveHarnessRun env calls fuel inp) (\<lambda>x. ?T (Inr x)) (\<lambda>e. ?T (Inl e)) w"
    unfolding driveHarnessRun_def Let_def wp_simps wp_thrown [of "claim_for_drive _ _"]
  proof (rule wp_mono [OF drive_claims [OF assms(1)]])
    fix x v assume "driven env ?i v \<and> (\<forall>r. getRunRow ?i (sw_db v) = Some r \<longrightarrow>
      (\<exists>r0. getRunRow ?i (sw_db w) = Some r0 \<and> rr_iterations_used r = rr_iterations_used r0))"
    then show "wp (finally_do (catch_thrown (run_session env calls fuel inp (getParkedMcpTask ?i (sw_db w)))
        (\<lambda>e. thrown (drive_failed env ?i e))) (thrown (end_drive env ?i))) (\<lambda>x. ?T (Inr x)) (\<lambda>e. ?T (Inl e)) v"
      by (intro wp_mono [OF all]) (use start in auto)
  qed (use assms(1) in auto)
  then show ?thesis by (simp add: wp_def split: prod.splits sum.splits)
qed


section \<open>An example process\<close>

text \<open>One run, a model that reports success at once, a gateway that answers every call.\<close>

definition fresh_id :: "'y run_world \<Rightarrow> string" where
  "fresh_id w = ''x'' @ concat (map (rs_id \<circ> sp_step) (rd_steps (sw_db w)))"

definition done_step :: model_step where
  "done_step = \<lparr>mo_text = ''done'', mo_toolCalls = [], mo_assessment = Some \<lparr>sa_status = AssessGoalMet, sa_message = ''done''\<rparr>,
     mo_usage = \<lparr>mu_inputTokens = None, mu_outputTokens = None, mu_cost = None, mu_resolvedModelId = None\<rparr>\<rparr>"

definition example_harness :: "unit harness_env" where
  "example_harness = \<lparr>hv_runs = example_env, hv_clock = (\<lambda>_. 7), hv_uuid = (\<lambda>w. (fresh_id w, ())),
     hv_tools = [''t''], hv_callTool = (\<lambda>_ _. returnM (plain_result False ''ok'')), hv_exec = None,
     hv_connect = returnM (), hv_model = (\<lambda>_ _ _. returnM done_step), hv_poll = (\<lambda>_ _. returnM (plain_result False ''ok'')),
     hv_deleteRun = None, hv_agent = None, hv_apiKey = returnM ''k'', hv_platformModelId = ''m'', hv_protocol = ''p'',
     hv_replica = ''w'', hv_leaseMs = default_run_lease_ms\<rparr>"

definition example_world :: "run_row list \<Rightarrow> unit run_world" where
  "example_world rows = \<lparr>sw_db = example_db rows, sw_seen = [], sw_ready = False, sw_events = [],
     sw_stop = \<lparr>sc_requested = [], sc_controllers = []\<rparr>, sw_lost = [], sw_outside = ()\<rparr>"

definition example_drive :: "conversation_entry list \<Rightarrow> drive_input" where
  "example_drive h = \<lparr>di_runId = ''r1'', di_task = example_task, di_history = h, di_systemPrompt = ''s'', di_modelId = ''m''\<rparr>"

lemma fresh_id_longer: "s \<in> set ss \<Longrightarrow> length (f s) < length (''x'' @ concat (map f ss))"
  by (induction ss) auto

lemma fresh_id_fresh: "s \<in> set (rd_steps (sw_db w)) \<Longrightarrow> rs_id (sp_step s) \<noteq> fresh_id w"
  using fresh_id_longer [of s "rd_steps (sw_db w)" "rs_id \<circ> sp_step"] by (auto simp: fresh_id_def)

lemma example_considerate: "considerate example_harness i"
  by (simp add: considerate_def example_harness_def others_def ops_intros)

lemma example_proper: "proper example_harness"
  by (auto simp: proper_def fresh_ids_def fresh_id_fresh example_harness_def returnM_def plain_result_def)

lemma example_enough: "enough 1 25 example_task"
  by (simp add: enough_def example_task_def resolveTaskLimits_def default_task_limits_def)

theorem driven_run_settles_witness:
  "case driveHarnessRun example_harness 1 25 (example_drive [UserEntry ''go'']) (example_world [example_running]) of (res, w') \<Rightarrow>
    res \<noteq> Inl OutOfFuel \<and> run_wf (sw_db w') \<and>
    (res = Inl (Thrown (RunNotClaimed ''r1'')) \<and> sw_db w' = example_db [example_running] \<or> settled example_env ''r1'' (sw_db w'))"
proof -
  have e: "hv_runs example_harness = example_env" by (simp add: example_harness_def)
  have i: "di_runId (example_drive h) = ''r1''" "di_task (example_drive h) = example_task" for h by (simp_all add: example_drive_def)
  have b: "sw_db (example_world [example_running]) = example_db [example_running]" by (simp add: example_world_def)
  have pos: "\<forall>r \<in> set (rd_runs (example_db [example_running])). 0 \<le> rr_iterations_used r" by (simp add: example_defs)
  show ?thesis
    using driven_run_settles [of "example_world [example_running]" example_harness "example_drive [UserEntry ''go'']" 1 25,
        unfolded i e b, OF example_wf(1) example_considerate example_proper example_enough pos] .
qed

end
