(* ===== verification/RunGuarantees.thy ===== *)
theory RunGuarantees
  imports DriveSafety
begin

text \<open>
  What an agent run guarantees while it lasts: it ends within its limit, its conversation is stored
  and its tool calls are answered; and what goes wrong at its edges: a failed call leaves the other
  calls of its turn open, and a stop request that comes too late stops the next continuation.
\<close>

section \<open>The loop on a run\<close>

text \<open>
  C19. An agent loop with a limit always ends: whatever the model answers, whatever tools it calls
  and however often they park or fail, and whatever follow-ups arrive, the loop returns or throws
  with as many rounds of fuel as the limit allows and one round per parked call, and the
  conversation has grown by at most as many model turns as the limit.
\<close>

theorem loop_ends_within_limit:
  assumes "tl_max_iterations (ls_limits start) = Some n" "nat n \<le> fuel" "0 < calls"
    and "\<forall>b. ls_budget start = Some b \<longrightarrow> 0 \<le> lb_iterationsUsed b"
  shows "case runTaskLoop calls fuel start (harness_deps env i prompt model) w of
      (Inl e, w') \<Rightarrow> e \<noteq> OutOfFuel
    | (Inr r, w') \<Rightarrow> prefix (ls_initialHistory start) (lr_history r) \<and>
        turns (lr_history r) \<le> turns (ls_initialHistory start) + nat n"
proof -
  let ?deps = "harness_deps env i prompt model" and ?h = "ls_initialHistory start"
  let ?s = "initial_state ?deps start w"
  have "wp (run_loop calls fuel start ?deps)
      (\<lambda>r _. prefix ?h (lr_history r) \<and> turns (lr_history r) \<le> turns ?h + nat n) (\<lambda>e _. e \<noteq> OutOfFuel) ?s"
  proof (rule wp_mono [OF steps.run_loop_spec [where tot = True and ?h0.0 = ?h]])
    show "0 \<le> lp_iterationsUsed ?s" using assms(4) by (simp add: initial_state_def split: option.split)
  qed (use assms settles_waiter in \<open>auto simp: initial_state_def steps.result_ok_def steps.thrown_from_def turns_left_def\<close>)
  then show ?thesis by (simp add: wp_def runTaskLoop_def split: prod.splits sum.splits)
qed

theorem loop_ends_within_limit_witness:
  "case runTaskLoop 1 25 (loop_start_of (example_drive [UserEntry ''go'']) None None)
       (harness_deps example_harness ''r1'' ''s'' ''m'') (example_world []) of
     (Inl e, _) \<Rightarrow> e \<noteq> OutOfFuel | (Inr r, _) \<Rightarrow> turns (lr_history r) \<le> 25"
proof -
  let ?start = "loop_start_of (example_drive [UserEntry ''go'']) None None"
  have n: "tl_max_iterations (ls_limits ?start) = Some 25"
    by (simp add: loop_start_of_def example_drive_def example_task_def resolveTaskLimits_def default_task_limits_def)
  have h: "ls_initialHistory ?start = [UserEntry ''go'']" by (simp add: loop_start_of_def example_drive_def)
  have b: "\<forall>b. ls_budget ?start = Some b \<longrightarrow> 0 \<le> lb_iterationsUsed b" by (simp add: loop_start_of_def)
  have t: "turns [UserEntry ''go''] = 0" by (rule turns_none) simp
  have c: "nat 25 \<le> (25 :: nat)" "0 < (1 :: nat)" by simp_all
  show ?thesis
    using loop_ends_within_limit [OF n c b, of example_harness "''r1''" "''s''" "''m''" "example_world []"]
    unfolding h t by (simp split: prod.splits sum.splits)
qed

text \<open>
  When the loop of a run returns, the conversation stored for the run is the one it returns, it
  extends the conversation the loop started from, and every tool call of its last turn has an
  answer, unless the run parked, failed or was rejected; stopping a run answers its open calls. The
  others may do anything meanwhile but write this run's conversation.
\<close>

theorem finished_conversation_is_stored:
  assumes "considerate env i" "stored_history i (history_json (ls_initialHistory start)) (sw_db w)"
    and "ls_resumeParkedApproval start = None \<Longrightarrow> findUnansweredToolCalls (ls_initialHistory start) = []"
    and "\<forall>b. ls_budget start = Some b \<longrightarrow> 0 \<le> lb_iterationsUsed b"
  shows "case runTaskLoop calls fuel start (harness_deps env i prompt model) w of
      (Inl e, w') \<Rightarrow> True
    | (Inr r, w') \<Rightarrow> stored_history i (history_json (lr_history r)) (sw_db w') \<and>
        prefix (ls_initialHistory start) (lr_history r) \<and>
        (may_leave_calls (lr_outcome r) \<or> findUnansweredToolCalls (lr_history r) = [])"
proof -
  let ?deps = "harness_deps env i prompt model" and ?h = "ls_initialHistory start"
  let ?s = "initial_state ?deps start w"
  have "wp (run_loop calls fuel start ?deps) (\<lambda>r s. stored_history i (history_json (lr_history r)) (sw_db (lp_world s)) \<and>
      prefix ?h (lr_history r) \<and> (may_leave_calls (lr_outcome r) \<or> findUnansweredToolCalls (lr_history r) = [])) (\<lambda>_ _. True) ?s"
  proof (rule wp_mono [OF talk.run_loop_spec [where tot = False and env = env and i = i and ?h0.0 = ?h]])
    show "0 \<le> lp_iterationsUsed ?s" using assms(4) by (simp add: initial_state_def split: option.split)
  qed (use assms(1-3) in \<open>auto simp: initial_state_def conversation_stored_def talk.result_ok_def\<close>)
  then show ?thesis by (simp add: wp_def runTaskLoop_def split: prod.splits sum.splits)
qed

theorem finished_conversation_is_stored_witness:
  "case runTaskLoop 1 25 (loop_start_of (example_drive [UserEntry ''go'']) None None)
       (harness_deps example_harness ''r1'' ''s'' ''m'') (example_world [example_running\<lparr>rr_history := Some (history_json [UserEntry ''go''])\<rparr>]) of
     (Inl e, _) \<Rightarrow> True
   | (Inr r, w') \<Rightarrow> may_leave_calls (lr_outcome r) \<or> findUnansweredToolCalls (lr_history r) = []"
proof -
  let ?start = "loop_start_of (example_drive [UserEntry ''go'']) None None"
  let ?w = "example_world [example_running\<lparr>rr_history := Some (history_json [UserEntry ''go''])\<rparr>]"
  have h: "ls_initialHistory ?start = [UserEntry ''go'']" by (simp add: loop_start_of_def example_drive_def)
  have b: "\<forall>b. ls_budget ?start = Some b \<longrightarrow> 0 \<le> lb_iterationsUsed b" by (simp add: loop_start_of_def)
  have u: "findUnansweredToolCalls (ls_initialHistory ?start) = []" by (simp add: h findUnansweredToolCalls_def)
  have st: "stored_history ''r1'' (history_json (ls_initialHistory ?start)) (sw_db ?w)"
    by (simp add: h stored_history_def example_world_def example_defs getRunRow_def tbl_find_Cons)
  show ?thesis
    using finished_conversation_is_stored [OF example_considerate st u b, of 1 25 "''s''" "''m''"]
    by (simp split: prod.splits sum.splits)
qed

section \<open>A failed call\<close>

lemma outside_history: "lp_history (snd (outside m s)) = lp_history s"
  by (simp add: outside_def split: prod.splits sum.splits)

lemma checkpoint_history: "lp_history (snd (checkpoint deps s)) = lp_history s" "lp_history (snd (save_budget deps s)) = lp_history s"
proof -
  show b: "lp_history (snd (save_budget deps s)) = lp_history s" for s
    by (simp add: save_budget_def outside_history split: option.split)
  define first where "first t = (case dp_onHistoryChanged deps of None \<Rightarrow> (Inr (), t) | Some f \<Rightarrow> outside (f (lp_history t)) t)" for t
  have f: "lp_history (snd (first s)) = lp_history s"
    unfolding first_def by (simp add: outside_history split: option.split)
  have "checkpoint deps = bindM first (\<lambda>_. save_budget deps)"
    by (simp add: checkpoint_def first_def [abs_def])
  then show "lp_history (snd (checkpoint deps s)) = lp_history s"
    using f b by (cases "first s"; cases "fst (first s)") (auto simp: bindM_def)
qed

text \<open>The open calls after the end of a failed run: follow-ups that are drained answer none.\<close>

definition leaves_open :: "json list \<Rightarrow> 'x loop_state \<Rightarrow> bool" where
  "leaves_open cs s \<longleftrightarrow> findUnansweredToolCalls (lp_history s) = cs"

lemma checkpoint_open: "leaves_open cs s \<Longrightarrow> wp (checkpoint deps) (\<lambda>_. leaves_open cs) (\<lambda>_ _. True) s"
  "leaves_open cs s \<Longrightarrow> wp (save_budget deps) (\<lambda>_. leaves_open cs) (\<lambda>_ _. True) s"
  using checkpoint_history [of deps s] by (auto simp: leaves_open_def intro!: wpI)

lemma wp_outside_world:
  assumes "\<And>x v. m (lp_world s) = (Inr x, v) \<Longrightarrow> Q x (s\<lparr>lp_world := v\<rparr>)"
    and "\<And>e v. m (lp_world s) = (Inl e, v) \<Longrightarrow> E (Thrown e) (s\<lparr>lp_world := v\<rparr>)"
  shows "wp (outside m) Q E s"
  using assms by (auto simp: wp_def outside_def split: prod.splits sum.splits)

lemma drain_open:
  assumes "leaves_open cs s"
  shows "wp (drainPendingUserMessages (harness_deps env i p m) False) (\<lambda>_. leaves_open cs) (\<lambda>_ _. True) s"
proof -
  let ?deps = "harness_deps env i p m"
  have drain: "dp_drain ?deps = Some (on_db (drainParkedFollowUps (hv_runs env) i))" by (simp add: harness_deps_def)
  have after: "wp (checkpoint ?deps) (\<lambda>_. leaves_open cs) (\<lambda>_ _. True) (s\<lparr>lp_world := v, lp_history := lp_history s @ es\<rparr>)"
    if "on_db (drainParkedFollowUps (hv_runs env) i) (lp_world s) = (Inr es, v)" for es v
  proof (rule checkpoint_open)
    have "\<forall>e \<in> set es. calls_of e = None \<and> answer_of e = None" using drain_result [OF that] by fastforce
    then show "leaves_open cs (s\<lparr>lp_world := v, lp_history := lp_history s @ es\<rparr>)"
      using assms by (simp add: leaves_open_def unanswered_messages)
  qed
  show ?thesis
    unfolding drainPendingUserMessages_def drain option.case wp_bind
    by (rule wp_outside_world) (use assms after in \<open>auto simp: wp_simps leaves_open_def\<close>)
qed

lemma terminate_open:
  assumes "leaves_open cs s"
  shows "wp (terminate (harness_deps env i p m) out n)
    (\<lambda>r _. lr_outcome r = LoopEnded out \<and> findUnansweredToolCalls (lr_history r) = cs) (\<lambda>_ _. True) s"
proof -
  have "wp (save_budget (harness_deps env i p m)) (\<lambda>_ s. lr_outcome \<lparr>lr_outcome = LoopEnded out, lr_history = lp_history s,
      lr_iterations = n\<rparr> = LoopEnded out \<and> findUnansweredToolCalls (lr_history \<lparr>lr_outcome = LoopEnded out, lr_history = lp_history s,
      lr_iterations = n\<rparr>) = cs) (\<lambda>_ _. True) t" if "leaves_open cs t" for t
    by (rule wp_mono [OF checkpoint_open(2) [OF that]]) (simp_all add: leaves_open_def)
  then show ?thesis
    unfolding terminate_def wp_simps by (intro wp_mono [OF drain_open [OF assms]])
qed

text \<open>
  C20. When dispatching a call of a turn throws (the database fails while a step is recorded, or the
  gateway reports the call cancelled), the run fails with that call answered and every later call of
  the turn left open; the outcome may be continued, and the follow-up then sends the model a
  conversation with calls that have no result.
\<close>

theorem failed_call_leaves_others_open:
  assumes "dispatchToolCall env i call (lp_world s) = (Inl e, v)"
    and "\<not> aborted i (sw_stop (lp_world s))" "\<not> aborted i (sw_stop v)"
  shows "case dispatch_turn (harness_deps env i prompt model) calls (call # later) n s of
      (Inl err, s') \<Rightarrow> True
    | (Inr x, s') \<Rightarrow> (\<exists>r. x = Some r \<and> lr_outcome r = LoopEnded (call_failed_outcome call e) \<and>
        isEligibleContinuationOutcome (Some (call_failed_outcome call e)) \<and>
        findUnansweredToolCalls (appendUserMessageToHistory (lr_history r) message) =
          filter (\<lambda>c. call_id c \<noteq> call_id call) (findUnansweredToolCalls (lp_history s)))"
proof -
  let ?deps = "harness_deps env i prompt model" and ?s = "s\<lparr>lp_world := v\<rparr>"
  let ?cs = "filter (\<lambda>c. call_id c \<noteq> call_id call) (findUnansweredToolCalls (lp_history s))"
  let ?out = "call_failed_outcome call e"
  have resolve: "resolveToolResult ?deps calls call s = (Inl (Thrown e), ?s)"
    using assms(1) by (simp add: resolveToolResult_def bindM_def outside_def harness_deps_def)
  have stop: "stopRequested ?deps s = False" "stopRequested ?deps ?s = False"
    using assms(2,3) by (simp_all add: stopRequested_def harness_deps_def)
  have "leaves_open ?cs (push (ToolEntry (call_id call) (call_tool call) (describeError e) True) ?s)"
    by (simp add: leaves_open_def push_def unanswered_tool)
  then have "wp (checkpoint ?deps) (\<lambda>_. leaves_open ?cs) (\<lambda>_ _. True)
      (push (ToolEntry (call_id call) (call_tool call) (describeError e) True) ?s)"
    by (rule checkpoint_open)
  then have "wp (pushToolErrorResult ?deps call e) (\<lambda>_. wp (terminate ?deps ?out n) (\<lambda>r _. lr_outcome r = LoopEnded ?out \<and>
      findUnansweredToolCalls (lr_history r) = ?cs) (\<lambda>_ _. True)) (\<lambda>_ _. True) ?s"
    unfolding pushToolErrorResult_def wp_simps by (rule wp_mono) (auto intro: terminate_open)
  then have "wp (dispatchCall ?deps calls call n) (\<lambda>x _. \<exists>r. x = Some r \<and> lr_outcome r = LoopEnded ?out \<and>
      findUnansweredToolCalls (lr_history r) = ?cs) (\<lambda>_ _. True) s"
    unfolding dispatchCall_def catch_thrown_def wp_simps wp_def [of "resolveToolResult _ _ _"] resolve
    by (simp add: wp_simps stop)
  then have "wp (dispatch_turn ?deps calls (call # later) n) (\<lambda>x _. \<exists>r. x = Some r \<and> lr_outcome r = LoopEnded ?out \<and>
      findUnansweredToolCalls (lr_history r) = ?cs) (\<lambda>_ _. True) s"
    unfolding dispatch_turn.simps wp_simps stop if_False
    by (rule wp_mono) (auto simp: wp_simps)
  then show ?thesis
    by (auto simp: wp_def isEligibleContinuationOutcome_def call_failed_outcome_def failed_outcome_def
        appendUserMessageToHistory_def unanswered_other split: prod.splits sum.splits)
qed

definition example_call :: "string \<Rightarrow> json" where
  "example_call i = JObj [(''toolCallId'', JStr i), (''toolName'', JStr ''t''), (''input'', JObj [])]"

definition cancelling_harness :: "unit harness_env" where
  "cancelling_harness = example_harness\<lparr>hv_callTool := \<lambda>_ _. throwM (TaskCancelled ''gone'')\<rparr>"

lemma no_run_no_step: "recordStep (cancelling_harness\<lparr>hv_tools := ts\<rparr>) i si b (example_world []) = (Inr (), example_world [])"
  by (cases "si = None") (simp_all add: recordStep_def comp_simps getsM_def store_appendStep_def on_db_def appendStep_def notify_if_def
      cancelling_harness_def example_harness_def example_world_def randomUUID_def insertStep_def example_defs getRunRow_def tbl_simps)

lemma cancelled_call: "dispatchToolCall cancelling_harness ''r1'' (example_call i) (example_world []) =
    (Inl (TaskCancelled ''gone''), example_world [])"
proof -
  note step = no_run_no_step [of "hv_tools cancelling_harness", simplified]
  have "randomUUID cancelling_harness (example_world []) = (Inr (fresh_id (example_world [])), example_world [])"
    by (simp add: randomUUID_def cancelling_harness_def example_harness_def example_world_def)
  moreover have "hv_tools cancelling_harness = [''t'']" "hv_callTool cancelling_harness = (\<lambda>_ _. throwM (TaskCancelled ''gone''))"
    by (simp_all add: cancelling_harness_def example_harness_def)
  ultimately show ?thesis
    by (simp add: dispatchToolCall_def bindM_def torii_call_def Let_def recordToolDispatch_def step catchM_def throwM_def
        example_call_def call_tool_def report_task_output_tool_def execute_python_tool_def)
qed

theorem failed_call_leaves_others_open_witness:
  "case dispatch_turn (harness_deps cancelling_harness ''r1'' ''s'' ''m'') 1 [example_call ''a'', example_call ''b''] 1
       (initial_state (harness_deps cancelling_harness ''r1'' ''s'' ''m'')
         \<lparr>ls_initialHistory = [AssistantEntry [] [example_call ''a'', example_call ''b'']],
            ls_limits = default_task_limits, ls_budget = None, ls_resumeParkedApproval = None\<rparr> (example_world [])) of
     (Inl err, s') \<Rightarrow> True
   | (Inr x, s') \<Rightarrow> (\<exists>r. x = Some r \<and>
       findUnansweredToolCalls (appendUserMessageToHistory (lr_history r) ''go on'') = [example_call ''b''])"
proof -
  let ?deps = "harness_deps cancelling_harness ''r1'' ''s'' ''m''"
  let ?s = "initial_state ?deps \<lparr>ls_initialHistory = [AssistantEntry [] [example_call ''a'', example_call ''b'']],
            ls_limits = default_task_limits, ls_budget = None, ls_resumeParkedApproval = None\<rparr> (example_world [])"
  have d: "dispatchToolCall cancelling_harness ''r1'' (example_call ''a'') (lp_world ?s) =
      (Inl (TaskCancelled ''gone''), example_world [])" by (simp add: initial_state_def cancelled_call)
  have a: "\<not> aborted ''r1'' (sw_stop (lp_world ?s))" "\<not> aborted ''r1'' (sw_stop (example_world []))"
    by (simp_all add: initial_state_def aborted_def example_world_def)
  have u: "filter (\<lambda>c. call_id c \<noteq> call_id (example_call ''a'')) (findUnansweredToolCalls (lp_history ?s)) = [example_call ''b'']"
    by (simp add: initial_state_def findUnansweredToolCalls_def answered_ids_def call_id_def example_call_def List.map_filter_def)
  show ?thesis
    using failed_call_leaves_others_open [OF d a, where prompt = "''s''" and model = "''m''" and calls = 1 and
        later = "[example_call ''b'']" and n = 1 and message = "''go on''"]
    unfolding u by (auto split: prod.splits sum.splits)
qed

section \<open>A late stop\<close>

lemma attach_aborted: "map_of (sc_controllers c) i = None \<Longrightarrow> aborted i (attach i (requestStop i c))"
  by (simp add: aborted_def attach_def requestStop_def map_of_map_put set_set_add)

text \<open>The loop of a stopped run takes no turn.\<close>

definition halted :: "string \<Rightarrow> nat \<Rightarrow> 'y run_world loop_state \<Rightarrow> bool" where
  "halted i k s \<longleftrightarrow> aborted i (sw_stop (lp_world s)) \<and> turns (lp_history s) = k"

lemma on_db_stop: "on_db m w = (x, w') \<Longrightarrow> sw_stop w' = sw_stop w"
  using on_db_frame(1) [of m w] by simp

lemma unitM_stop: "unitM (on_db m) w = (x, w') \<Longrightarrow> sw_stop w' = sw_stop w"
  by (auto simp: unitM_def bindM_def returnM_def dest: on_db_stop split: prod.splits sum.splits)

lemma halted_outside: "(\<And>x v. m (lp_world s) = (x, v) \<Longrightarrow> sw_stop v = sw_stop (lp_world s)) \<Longrightarrow> halted i k s \<Longrightarrow>
    wp (outside m) (\<lambda>_. halted i k) (\<lambda>_ _. True) s"
  by (rule wp_outside_world) (simp_all add: halted_def)

lemma halted_budget: "halted i k s \<Longrightarrow> wp (save_budget (harness_deps env i p m)) (\<lambda>_. halted i k) (\<lambda>_ _. True) s"
  by (rule wp_at [where m' = "outside (unitM (on_db (setRunBudget i (budgetSnapshot (harness_deps env i p m) s))))"])
    (auto simp: save_budget_def harness_deps_def intro: halted_outside unitM_stop)

lemma halted_checkpoint:
  assumes "halted i k s"
  shows "wp (checkpoint (harness_deps env i p m)) (\<lambda>_. halted i k) (\<lambda>_ _. True) s"
proof -
  have h: "dp_onHistoryChanged (harness_deps env i p m) = Some (\<lambda>h. unitM (on_db (setConversationHistory i h)))"
    by (simp add: harness_deps_def)
  have "wp (outside (unitM (on_db (setConversationHistory i (lp_history s))))) (\<lambda>_. halted i k) (\<lambda>_ _. True) s"
    using assms by (auto intro: halted_outside unitM_stop)
  then have "wp (\<lambda>s. outside (unitM (on_db (setConversationHistory i (lp_history s)))) s) (\<lambda>_. halted i k) (\<lambda>_ _. True) s"
    by (rule wp_at [rotated]) simp
  then show ?thesis
    unfolding checkpoint_def h option.case wp_bind by (rule wp_mono) (auto intro: halted_budget)
qed

lemma halted_drain:
  assumes "halted i k s"
  shows "wp (drainPendingUserMessages (harness_deps env i p m) rb) (\<lambda>_. halted i k) (\<lambda>_ _. True) s"
proof -
  let ?deps = "harness_deps env i p m" and ?d = "on_db (drainParkedFollowUps (hv_runs env) i)"
  have drain: "dp_drain ?deps = Some ?d" by (simp add: harness_deps_def)
  have after: "wp (checkpoint ?deps) (\<lambda>_. halted i k) (\<lambda>_ _. True) t"
    if "?d (lp_world s) = (Inr es, v)" "lp_world t = v" "lp_history t = lp_history s @ es" for es v t
  proof (rule halted_checkpoint)
    have "\<forall>e \<in> set es. calls_of e = None" using drain_result [OF that(1)] by fastforce
    then show "halted i k t"
      using assms on_db_stop [OF that(1)] that(2,3) by (simp add: halted_def turns_none)
  qed
  show ?thesis
    unfolding drainPendingUserMessages_def drain option.case wp_bind
  proof (rule wp_outside_world)
    fix es v assume d: "?d (lp_world s) = (Inr es, v)"
    have "halted i k (s\<lparr>lp_world := v\<rparr>)" using assms on_db_stop [OF d] by (simp add: halted_def)
    then show "wp (if es = [] then returnM () else bindM (modifyM (\<lambda>s. if rb then s\<lparr>lp_iterationsUsed := 0, lp_activeElapsedMs := 0,
        lp_segmentStartedAt := nowL ?deps s, lp_clockPaused := False\<rparr> else s)) (\<lambda>_.
        bindM (modifyM (\<lambda>s. s\<lparr>lp_history := lp_history s @ es\<rparr>)) (\<lambda>_. checkpoint ?deps))) (\<lambda>_. halted i k) (\<lambda>_ _. True)
        (s\<lparr>lp_world := v\<rparr>)"
      by (cases "es = []"; cases rb) (simp_all add: wp_simps after [OF d])
  qed simp
qed

lemma halted_terminate:
  assumes "halted i k s"
  shows "wp (terminate (harness_deps env i p m) out n) (\<lambda>r _. lr_outcome r = LoopEnded out \<and> turns (lr_history r) = k) (\<lambda>_ _. True) s"
  unfolding terminate_def wp_simps
  by (rule wp_mono [OF halted_drain [OF assms]], rule wp_mono [OF halted_budget]) (auto simp: halted_def)

text \<open>
  A stop request that finds no drive of the run in its process (the run has just ended, or
  another replica drives it) is accepted all the same and stays: the next time this process drives
  the run, a follow-up or a resume, the loop ends before the model is asked.
\<close>

theorem late_stop_ends_next_run:
  assumes "map_of (sc_controllers c) i = None" "sw_stop w = attach i (requestStop i c)"
    and "ls_resumeParkedApproval start = None"
  shows "case runTaskLoop calls (Suc fuel) start (harness_deps env i prompt model) w of
      (Inl e, w') \<Rightarrow> True
    | (Inr r, w') \<Rightarrow> turns (lr_history r) = turns (ls_initialHistory start) \<and>
        lr_outcome r \<in> {LoopEnded (plain_outcome Stopped None), LoopEnded (plain_outcome TimedOut (Some FLimit)),
          LoopEnded (plain_outcome IterationExhausted (Some FLimit))}"
proof -
  let ?deps = "harness_deps env i prompt model" and ?k = "turns (ls_initialHistory start)"
  let ?s = "initial_state ?deps start w" and ?tm = "map_option (\<lambda>sec. sec * 1000) (tl_timeout_seconds (ls_limits start))"
  let ?maxI = "tl_max_iterations (ls_limits start)"
  let ?Q = "\<lambda>r (_ :: 'a run_world loop_state). turns (lr_history r) = ?k \<and>
        lr_outcome r \<in> {LoopEnded (plain_outcome Stopped None), LoopEnded (plain_outcome TimedOut (Some FLimit)),
          LoopEnded (plain_outcome IterationExhausted (Some FLimit))}"
  have start: "halted i ?k ?s" using attach_aborted [OF assms(1)] assms(2) by (simp add: halted_def initial_state_def)
  have ends: "wp (terminate ?deps (plain_outcome st cl) n) ?Q (\<lambda>_ _. True) s"
    if "halted i ?k s" "(st, cl) \<in> {(Stopped, None), (TimedOut, Some FLimit), (IterationExhausted, Some FLimit)}" for s st cl n
    by (rule wp_mono [OF halted_terminate [OF that(1)]]) (use that(2) in auto)
  have stop: "wp (stopNow ?deps n) ?Q (\<lambda>_ _. True) s" if "halted i ?k s" for s n
  proof -
    have "halted i ?k (s\<lparr>lp_history := closeUnansweredToolCalls (lp_history s)\<rparr>)"
      using that by (simp add: halted_def closeUnansweredToolCalls_def)
    from halted_checkpoint [OF this] show ?thesis
      unfolding stopNow_def wp_simps by (rule wp_mono) (rule ends, assumption, simp_all)
  qed
  have loop: "wp (iterate ?deps ?tm ?maxI calls (Suc fuel) n) ?Q (\<lambda>_ _. True) s" if h: "halted i ?k s" for n s
  proof -
    have "stopRequested ?deps s" using h by (simp add: stopRequested_def harness_deps_def halted_def)
    then consider "\<not> within_limit ?maxI n" | "within_limit ?maxI n" "timed_out ?deps ?tm s"
      | "within_limit ?maxI n" "\<not> timed_out ?deps ?tm s" "stopRequested ?deps s" by blast
    then show ?thesis
    proof cases
      case 1
      then show ?thesis by (intro wp_at [OF iterate_over] ends [OF h]) simp_all
    next
      case 2
      then show ?thesis by (intro wp_at [OF iterate_timeout] ends [OF h]) simp_all
    next
      case 3
      then show ?thesis by (intro wp_at [OF iterate_stop] stop [OF h])
    qed
  qed
  have "wp (run_loop calls (Suc fuel) start ?deps) ?Q (\<lambda>_ _. True) ?s"
    unfolding run_loop_def assms(3) option.case wp_simps
    by (rule wp_mono [OF halted_drain [OF start]], rule loop, assumption, simp_all)
  then show ?thesis by (simp add: wp_def runTaskLoop_def split: prod.splits sum.splits)
qed

theorem late_stop_ends_next_run_witness:
  "case runTaskLoop 1 25 (loop_start_of (example_drive [UserEntry ''go'']) None None) (harness_deps example_harness ''r1'' ''s'' ''m'')
       ((example_world [])\<lparr>sw_stop := attach ''r1'' (requestStop ''r1'' \<lparr>sc_requested = [], sc_controllers = []\<rparr>)\<rparr>) of
     (Inl e, w') \<Rightarrow> True | (Inr r, w') \<Rightarrow> turns (lr_history r) = 0"
proof -
  let ?start = "loop_start_of (example_drive [UserEntry ''go'']) None None"
  let ?c = "\<lparr>sc_requested = [], sc_controllers = []\<rparr>"
  have c: "map_of (sc_controllers ?c) ''r1'' = None" by simp
  have s: "sw_stop ((example_world [])\<lparr>sw_stop := attach ''r1'' (requestStop ''r1'' ?c)\<rparr>) = attach ''r1'' (requestStop ''r1'' ?c)"
    by simp
  have r: "ls_resumeParkedApproval ?start = None" by (simp add: loop_start_of_def)
  have t: "turns (ls_initialHistory ?start) = 0" by (simp add: loop_start_of_def example_drive_def turns_def is_turn_def)
  show ?thesis
    using late_stop_ends_next_run [OF c s r, of 1 24 example_harness "''s''" "''m''"] unfolding t
    by (auto split: prod.splits sum.splits)
qed

end
