(* ===== verification/TaskSchema.thy ===== *)
theory TaskSchema
  imports RunTypes
begin

text \<open>
  The schema of tasks, \<open>taskSchema\<close> of \<^verbatim>\<open>packages/shared/src/task.ts\<close>: what a request body must be
  to become a task, and what every stored task satisfies. \<open>is_zone\<close> are the time zones that
  \<open>Intl.DateTimeFormat\<close> accepts.
\<close>

section \<open>Model ids\<close>

definition is_alnum :: "char \<Rightarrow> bool" where
  "is_alnum c = (let n = of_char c :: nat in 48 \<le> n \<and> n \<le> 57 \<or> 65 \<le> n \<and> n \<le> 90 \<or> 97 \<le> n \<and> n \<le> 122)"

definition author_char :: "char \<Rightarrow> bool" where
  "author_char c \<longleftrightarrow> is_alnum c \<or> c \<in> set ''._:-''"

definition slug_char :: "char \<Rightarrow> bool" where
  "slug_char c \<longleftrightarrow> is_alnum c \<or> c \<in> set ''._:@/-''"

definition matches_part :: "(char \<Rightarrow> bool) \<Rightarrow> string \<Rightarrow> bool" where
  "matches_part ok s = (case s of [] \<Rightarrow> False | c # cs \<Rightarrow> is_alnum c \<and> list_all ok cs)"

definition drop_tilde :: "string \<Rightarrow> string" where
  "drop_tilde s = (case s of c # cs \<Rightarrow> if c = CHR ''~'' then cs else s | [] \<Rightarrow> [])"

text \<open>
  \<open>/^~?[A-Za-z0-9][A-Za-z0-9._:-]*\/[A-Za-z0-9][A-Za-z0-9._:@/-]*$/\<close>: no author character is a
  slash, so the author ends at the first one.
\<close>

definition is_model_id :: "string \<Rightarrow> bool" where
  "is_model_id s =
    (let t = drop_tilde s; slash = CHR ''/'';
         author = takeWhile (\<lambda>c. c \<noteq> slash) t; rest = dropWhile (\<lambda>c. c \<noteq> slash) t in
     3 \<le> length s \<and> length s \<le> 200 \<and> matches_part author_char author \<and> rest \<noteq> [] \<and> matches_part slug_char (tl rest))"

definition openRouterModelIdSchema :: "string \<Rightarrow> string option" where
  "openRouterModelIdSchema s = (let t = trim s in if is_model_id t then Some t else None)"

section \<open>Tasks\<close>

definition max_safe_integer :: int where
  "max_safe_integer = 9007199254740991"

definition valid_limit :: "int option \<Rightarrow> bool" where
  "valid_limit l = (case l of None \<Rightarrow> True | Some n \<Rightarrow> 0 < n \<and> n \<le> max_safe_integer)"

definition valid_limits :: "task_limits \<Rightarrow> bool" where
  "valid_limits l \<longleftrightarrow> valid_limit (tl_max_iterations l) \<and> valid_limit (tl_timeout_seconds l)"

definition all_some :: "('a \<Rightarrow> bool) \<Rightarrow> 'a option \<Rightarrow> bool" where
  "all_some P x = (case x of None \<Rightarrow> True | Some v \<Rightarrow> P v)"

lemma all_some_simps [simp]: "all_some P None" "all_some P (Some v) = P v"
  by (simp_all add: all_some_def)

definition valid_task :: "(string \<Rightarrow> bool) \<Rightarrow> run_task \<Rightarrow> bool" where
  "valid_task is_zone t \<longleftrightarrow> tk_goal t \<noteq> [] \<and> valid_trigger is_zone (tk_trigger t) \<and> tk_assignee t \<noteq> [] \<and>
     all_some valid_limits (tk_limits t) \<and> all_some (\<lambda>m. openRouterModelIdSchema m = Some m) (tk_modelId t)"

text \<open>\<open>taskSchema.parse\<close> of a value of the right shape: the model id is trimmed.\<close>

definition parse_task_value :: "(string \<Rightarrow> bool) \<Rightarrow> run_task \<Rightarrow> run_task option" where
  "parse_task_value is_zone t =
    (let t' = t\<lparr>tk_modelId := map_option trim (tk_modelId t)\<rparr> in if valid_task is_zone t' then Some t' else None)"

lemma model_id_trimmed: "openRouterModelIdSchema m = Some x \<Longrightarrow> trim x = x"
  by (auto simp: openRouterModelIdSchema_def Let_def split: if_splits)

lemma parse_valid: "valid_task is_zone t \<Longrightarrow> parse_task_value is_zone t = Some t"
proof -
  assume v: "valid_task is_zone t"
  then have "map_option trim (tk_modelId t) = tk_modelId t"
    by (cases "tk_modelId t") (auto simp: valid_task_def dest: model_id_trimmed)
  then show ?thesis using v by (simp add: parse_task_value_def)
qed

lemma parsed_valid: "parse_task_value is_zone t = Some t' \<Longrightarrow> valid_task is_zone t'"
  by (auto simp: parse_task_value_def Let_def split: if_splits)

section \<open>Request bodies\<close>

definition weekday_str :: "weekday \<Rightarrow> string" where
  "weekday_str d = (case d of Mon \<Rightarrow> ''mon'' | Tue \<Rightarrow> ''tue'' | Wed \<Rightarrow> ''wed'' | Thu \<Rightarrow> ''thu'' | Fri \<Rightarrow> ''fri''
     | Sat \<Rightarrow> ''sat'' | Sun \<Rightarrow> ''sun'')"

definition parse_weekday :: "json \<Rightarrow> weekday option" where
  "parse_weekday j = (case j of JStr s \<Rightarrow> find (\<lambda>d. weekday_str d = s) weekdays | _ \<Rightarrow> None)"

fun parse_all :: "('a \<Rightarrow> 'b option) \<Rightarrow> 'a list \<Rightarrow> 'b list option" where
  "parse_all f [] = Some []"
| "parse_all f (x # xs) =
    (case f x of None \<Rightarrow> None | Some y \<Rightarrow> (case parse_all f xs of None \<Rightarrow> None | Some ys \<Rightarrow> Some (y # ys)))"

definition scheduleRecurrenceSchema :: "json \<Rightarrow> schedule_recurrence option" where
  "scheduleRecurrenceSchema j =
    (let freq = as_string (prop_of ''freq'' j) in
     if freq = Some ''daily'' then Some Daily
     else if freq = Some ''monthly'' then Some Monthly
     else if freq = Some ''weekly''
     then (case prop_of ''days'' j of
             Some (JArr ds) \<Rightarrow>
               (case parse_all parse_weekday ds of
                  Some days \<Rightarrow> if days \<noteq> [] \<and> distinct days then Some (Weekly days) else None
                | None \<Rightarrow> None)
           | _ \<Rightarrow> None)
     else None)"

text \<open>An optional property: absent, or parsed.\<close>

definition parse_optional :: "(json \<Rightarrow> 'a option) \<Rightarrow> json option \<Rightarrow> 'a option option" where
  "parse_optional f j = (case j of None \<Rightarrow> Some None | Some v \<Rightarrow> map_option Some (f v))"

definition parse_bool :: "json \<Rightarrow> bool option" where
  "parse_bool j = (case j of JBool b \<Rightarrow> Some b | _ \<Rightarrow> None)"

definition scheduleTriggerSchema :: "(string \<Rightarrow> bool) \<Rightarrow> json \<Rightarrow> schedule_trigger option" where
  "scheduleTriggerSchema is_zone j =
    (case (as_string (prop_of ''timezone'' j), as_string (prop_of ''at'' j),
           parse_optional scheduleRecurrenceSchema (prop_of ''recurrence'' j),
           parse_optional parse_bool (prop_of ''paused'' j)) of
       (Some z, Some local, Some r, Some p) \<Rightarrow>
         if z \<noteq> [] \<and> is_zone z \<and> isValidLocalDateTime local
         then Some \<lparr>sc_timezone = z, sc_at = local, sc_recurrence = r, sc_paused = p\<rparr> else None
     | _ \<Rightarrow> None)"

definition taskTriggerSchema :: "(string \<Rightarrow> bool) \<Rightarrow> json \<Rightarrow> task_trigger option" where
  "taskTriggerSchema is_zone j =
    (let ty = as_string (prop_of ''type'' j) in
     if ty = Some ''now'' then Some NowTrigger
     else if ty = Some ''schedule'' then map_option ScheduleTrigger (scheduleTriggerSchema is_zone j)
     else None)"

definition taskLimitSchema :: "json option \<Rightarrow> int option option" where
  "taskLimitSchema j =
    (case j of Some JNull \<Rightarrow> Some None | Some (JInt n) \<Rightarrow> if valid_limit (Some n) then Some (Some n) else None | _ \<Rightarrow> None)"

definition taskLimitsSchema :: "json \<Rightarrow> task_limits option" where
  "taskLimitsSchema j =
    (case (taskLimitSchema (prop_of ''max_iterations'' j), taskLimitSchema (prop_of ''timeout_seconds'' j)) of
       (Some i, Some s) \<Rightarrow> Some \<lparr>tl_max_iterations = i, tl_timeout_seconds = s\<rparr> | _ \<Rightarrow> None)"

definition nonempty_string :: "json \<Rightarrow> string option" where
  "nonempty_string j = (case j of JStr s \<Rightarrow> if s = [] then None else Some s | _ \<Rightarrow> None)"

definition parse_model_id :: "json \<Rightarrow> string option" where
  "parse_model_id j = (case j of JStr s \<Rightarrow> openRouterModelIdSchema s | _ \<Rightarrow> None)"

definition taskSchema :: "(string \<Rightarrow> bool) \<Rightarrow> json \<Rightarrow> run_task option" where
  "taskSchema is_zone j =
    (case (Option.bind (prop_of ''goal'' j) nonempty_string, Option.bind (prop_of ''trigger'' j) (taskTriggerSchema is_zone),
           Option.bind (prop_of ''assignee'' j) nonempty_string, parse_optional taskLimitsSchema (prop_of ''limits'' j),
           parse_optional parse_model_id (prop_of ''modelId'' j)) of
       (Some g, Some t, Some a, Some l, Some m) \<Rightarrow>
         Some \<lparr>tk_goal = g, tk_trigger = t, tk_assignee = a, tk_limits = l, tk_modelId = m\<rparr>
     | _ \<Rightarrow> None)"

text \<open>The body of a PATCH: every field optional, a null model id clears the override.\<close>

record task_patch =
  tp_goal :: "string option"
  tp_trigger :: "task_trigger option"
  tp_assignee :: "string option"
  tp_limits :: "task_limits option"
  tp_modelId :: "string option option"

definition parse_nullable_model_id :: "json \<Rightarrow> string option option" where
  "parse_nullable_model_id j = (case j of JNull \<Rightarrow> Some None | _ \<Rightarrow> map_option Some (parse_model_id j))"

definition taskPatchSchema :: "(string \<Rightarrow> bool) \<Rightarrow> json \<Rightarrow> task_patch option" where
  "taskPatchSchema is_zone j =
    (if \<not> is_object j then None
     else case (parse_optional nonempty_string (prop_of ''goal'' j), parse_optional (taskTriggerSchema is_zone) (prop_of ''trigger'' j),
           parse_optional nonempty_string (prop_of ''assignee'' j), parse_optional taskLimitsSchema (prop_of ''limits'' j),
           parse_optional parse_nullable_model_id (prop_of ''modelId'' j)) of
       (Some g, Some t, Some a, Some l, Some m) \<Rightarrow>
         Some \<lparr>tp_goal = g, tp_trigger = t, tp_assignee = a, tp_limits = l, tp_modelId = m\<rparr>
     | _ \<Rightarrow> None)"

section \<open>What passes the schema is valid\<close>

lemma recurrence_valid: "scheduleRecurrenceSchema j = Some r \<Longrightarrow> valid_recurrence r"
  by (auto simp: scheduleRecurrenceSchema_def Let_def valid_recurrence_def split: if_splits option.splits json.splits)

lemma optionalD: "parse_optional f j = Some (Some v) \<Longrightarrow> \<exists>x. f x = Some v"
  by (auto simp: parse_optional_def split: option.splits)

lemma trigger_valid: "taskTriggerSchema is_zone j = Some t \<Longrightarrow> valid_trigger is_zone t"
  by (auto simp: taskTriggerSchema_def scheduleTriggerSchema_def Let_def valid_trigger_def valid_schedule_def
      split: if_splits option.splits dest!: optionalD intro: recurrence_valid)

lemma limits_valid: "taskLimitsSchema j = Some l \<Longrightarrow> valid_limits l"
  by (auto simp: taskLimitsSchema_def taskLimitSchema_def valid_limits_def valid_limit_def split: option.splits json.splits if_splits)

lemma model_id_valid: "parse_model_id j = Some m \<Longrightarrow> openRouterModelIdSchema m = Some m"
  by (auto simp: parse_model_id_def openRouterModelIdSchema_def Let_def split: json.splits if_splits)

lemma nonempty_valid: "nonempty_string j = Some s \<Longrightarrow> s \<noteq> []"
  by (auto simp: nonempty_string_def split: json.splits if_splits)

lemma task_valid:
  assumes "taskSchema is_zone j = Some t"
  shows "valid_task is_zone t"
proof -
  obtain g tr a l m where p: "Option.bind (prop_of ''goal'' j) nonempty_string = Some g"
    "Option.bind (prop_of ''trigger'' j) (taskTriggerSchema is_zone) = Some tr"
    "Option.bind (prop_of ''assignee'' j) nonempty_string = Some a"
    "parse_optional taskLimitsSchema (prop_of ''limits'' j) = Some l"
    "parse_optional parse_model_id (prop_of ''modelId'' j) = Some m"
    and t: "t = \<lparr>tk_goal = g, tk_trigger = tr, tk_assignee = a, tk_limits = l, tk_modelId = m\<rparr>"
    using assms by (auto simp: taskSchema_def split: option.splits)
  have "g \<noteq> []" "a \<noteq> []" "valid_trigger is_zone tr"
    using p(1-3) by (auto simp: bind_eq_Some_conv dest: nonempty_valid trigger_valid)
  moreover have "all_some valid_limits l" using p(4) by (cases l) (auto dest: optionalD limits_valid)
  moreover have "all_some (\<lambda>m. openRouterModelIdSchema m = Some m) m" using p(5) by (cases m) (auto dest: optionalD model_id_valid)
  ultimately show ?thesis by (simp add: t valid_task_def)
qed

definition valid_patch :: "(string \<Rightarrow> bool) \<Rightarrow> task_patch \<Rightarrow> bool" where
  "valid_patch is_zone p \<longleftrightarrow> all_some (\<lambda>g. g \<noteq> []) (tp_goal p) \<and> all_some (valid_trigger is_zone) (tp_trigger p) \<and>
     all_some (\<lambda>a. a \<noteq> []) (tp_assignee p) \<and> all_some valid_limits (tp_limits p) \<and>
     all_some (all_some (\<lambda>m. openRouterModelIdSchema m = Some m)) (tp_modelId p)"

lemma patch_valid:
  assumes "taskPatchSchema is_zone j = Some p"
  shows "valid_patch is_zone p"
proof -
  obtain g tr a l m where q: "parse_optional nonempty_string (prop_of ''goal'' j) = Some g"
    "parse_optional (taskTriggerSchema is_zone) (prop_of ''trigger'' j) = Some tr"
    "parse_optional nonempty_string (prop_of ''assignee'' j) = Some a"
    "parse_optional taskLimitsSchema (prop_of ''limits'' j) = Some l"
    "parse_optional parse_nullable_model_id (prop_of ''modelId'' j) = Some m"
    and p: "p = \<lparr>tp_goal = g, tp_trigger = tr, tp_assignee = a, tp_limits = l, tp_modelId = m\<rparr>"
    using assms by (auto simp: taskPatchSchema_def split: option.splits if_splits)
  have "all_some (\<lambda>g. g \<noteq> []) g" using q(1) by (cases g) (auto dest: optionalD nonempty_valid)
  moreover have "all_some (valid_trigger is_zone) tr" using q(2) by (cases tr) (auto dest: optionalD trigger_valid)
  moreover have "all_some (\<lambda>a. a \<noteq> []) a" using q(3) by (cases a) (auto dest: optionalD nonempty_valid)
  moreover have "all_some valid_limits l" using q(4) by (cases l) (auto dest: optionalD limits_valid)
  moreover have "all_some (all_some (\<lambda>m. openRouterModelIdSchema m = Some m)) m"
    using q(5) by (cases m; cases "the m")
      (auto dest!: optionalD simp: parse_nullable_model_id_def split: json.splits dest: model_id_valid)
  ultimately show ?thesis by (simp add: p valid_patch_def)
qed

end
