(* ===== verification/TaskRepo.thy ===== *)
theory TaskRepo
  imports TaskSchema RunAttempt ToriiTypes Histories
begin

text \<open>
  The tasks and their schedules: \<^verbatim>\<open>apps/shaiden/src/tasks/pg-task-repository.ts\<close>, the table
  \<open>tasks\<close> and the operations of \<open>PgTaskRepository\<close> on it, one SQL statement or two each. Instants
  are milliseconds; the clock, fresh ids, the time zones and the order of ids are given.
\<close>

section \<open>The table\<close>

record task_row =
  tw_id :: string
  tw_task :: run_task
  tw_created_at :: int
  tw_updated_at :: int
  tw_archived_at :: "int option"
  tw_next_run_at :: "int option"
  tw_claim_until :: "int option"
  tw_start_attempts :: int
  tw_failed_at :: "int option"
  tw_error :: "string option"

record task_env =
  te_fmt :: zone_format
  te_is_zone :: "string \<Rightarrow> bool"
  te_id_le :: "string \<Rightarrow> string \<Rightarrow> bool"

type_synonym 'a task_comp = "(task_row list, exn, 'a) comp"

text \<open>\<open>SavedTask\<close>: the task with its metadata.\<close>

record saved_task =
  sv_id :: string
  sv_task :: run_task
  sv_createdAt :: int
  sv_updatedAt :: int
  sv_archivedAt :: "int option"
  sv_nextRunAt :: "int option"
  sv_scheduleFailedAt :: "int option"
  sv_scheduleError :: "string option"

definition invalid_task :: exn where
  "invalid_task = Plain ''invalid task''"

definition rowToSavedTask :: "task_env \<Rightarrow> task_row \<Rightarrow> exn + saved_task" where
  "rowToSavedTask env r =
    (let t = tw_task r in
     case parse_task_value (te_is_zone env) (t\<lparr>tk_modelId := if truthy_str (tk_modelId t) then tk_modelId t else None\<rparr>) of
       None \<Rightarrow> Inl invalid_task
     | Some t' \<Rightarrow> Inr \<lparr>sv_id = tw_id r, sv_task = t', sv_createdAt = tw_created_at r, sv_updatedAt = tw_updated_at r,
         sv_archivedAt = tw_archived_at r, sv_nextRunAt = tw_next_run_at r, sv_scheduleFailedAt = tw_failed_at r,
         sv_scheduleError = (if tw_failed_at r = None then None else tw_error r)\<rparr>)"

definition of_result :: "'e + 'a \<Rightarrow> ('s, 'e, 'a) comp" where
  "of_result r s = (r, s)"

fun rows_to_tasks :: "task_env \<Rightarrow> task_row list \<Rightarrow> exn + saved_task list" where
  "rows_to_tasks env [] = Inr []"
| "rows_to_tasks env (r # rs) =
    (case rowToSavedTask env r of
       Inl e \<Rightarrow> Inl e
     | Inr t \<Rightarrow> (case rows_to_tasks env rs of Inl e \<Rightarrow> Inl e | Inr ts \<Rightarrow> Inr (t # ts)))"

definition update_tasks :: "(task_row \<Rightarrow> bool) \<Rightarrow> (task_row \<Rightarrow> task_row) \<Rightarrow> bool task_comp" where
  "update_tasks P f t = (Inr (tbl_count P t > 0), tbl_update P f t)"

definition task_row_of :: "string \<Rightarrow> task_row list \<Rightarrow> task_row option" where
  "task_row_of i t = tbl_find (\<lambda>r. tw_id r = i) t"

section \<open>Reading and writing tasks\<close>

text \<open>\<open>nextRunAtIso\<close> throws on a local time it cannot parse.\<close>

definition next_run :: "task_env \<Rightarrow> task_trigger \<Rightarrow> int \<Rightarrow> bool \<Rightarrow> exn + int option" where
  "next_run env trigger now after = map_sum Plain id (nextRunAt (te_fmt env) trigger now after)"

definition new_task_row :: "string \<Rightarrow> run_task \<Rightarrow> int option \<Rightarrow> int \<Rightarrow> task_row" where
  "new_task_row i t next now =
    \<lparr>tw_id = i, tw_task = t, tw_created_at = now, tw_updated_at = now, tw_archived_at = None, tw_next_run_at = next,
     tw_claim_until = None, tw_start_attempts = 0, tw_failed_at = None, tw_error = None\<rparr>"

definition insert_task :: "task_row \<Rightarrow> unit task_comp" where
  "insert_task row t =
    (if task_row_of (tw_id row) t \<noteq> None then (Inl (PgUnique ''tasks_pkey''), t) else (Inr (), t @ [row]))"

definition create_task :: "task_env \<Rightarrow> string \<Rightarrow> run_task \<Rightarrow> int \<Rightarrow> saved_task task_comp" where
  "create_task env uuid task now =
    bindM (of_result (next_run env (tk_trigger task) now False)) (\<lambda>slot.
    bindM (insert_task (new_task_row uuid task slot now)) (\<lambda>_.
    returnM \<lparr>sv_id = uuid, sv_task = task, sv_createdAt = now, sv_updatedAt = now, sv_archivedAt = None,
      sv_nextRunAt = slot, sv_scheduleFailedAt = None, sv_scheduleError = None\<rparr>))"

definition get_task :: "task_env \<Rightarrow> string \<Rightarrow> saved_task option task_comp" where
  "get_task env i t =
    (case task_row_of i t of
       None \<Rightarrow> (Inr None, t)
     | Some r \<Rightarrow> (map_sum id Some (rowToSavedTask env r), t))"

definition task_le :: "task_env \<Rightarrow> task_row \<Rightarrow> task_row \<Rightarrow> bool" where
  "task_le env l r \<longleftrightarrow> tw_updated_at r < tw_updated_at l \<or>
     (tw_updated_at l = tw_updated_at r \<and> te_id_le env (tw_id r) (tw_id l))"

definition list_tasks :: "task_env \<Rightarrow> nat \<Rightarrow> saved_task list task_comp" where
  "list_tasks env limit t =
    (rows_to_tasks env (take limit (sort_by (task_le env) (filter (\<lambda>r. tw_archived_at r = None) t))), t)"

text \<open>\<open>nextRunAtAfterUpdate\<close> on instants: the next run, and whether the schedule starts afresh.\<close>

definition next_cursor_after_update ::
    "task_env \<Rightarrow> task_trigger \<Rightarrow> int option \<Rightarrow> task_trigger \<Rightarrow> int \<Rightarrow> exn + int option \<times> bool" where
  "next_cursor_after_update env existing existingNextRunAt merged now =
    (if taskTriggersEqual existing merged then Inr (existingNextRunAt, False)
     else map_sum id (\<lambda>n. (n, True)) (next_run env merged now False))"

definition merge_task :: "run_task \<Rightarrow> task_patch \<Rightarrow> run_task" where
  "merge_task existing p =
    (let modelId = (case tp_modelId p of None \<Rightarrow> tk_modelId existing | Some m \<Rightarrow> m) in
     \<lparr>tk_goal = or_else (tp_goal p) (tk_goal existing), tk_trigger = or_else (tp_trigger p) (tk_trigger existing),
      tk_assignee = or_else (tp_assignee p) (tk_assignee existing),
      tk_limits = (case tp_limits p of None \<Rightarrow> tk_limits existing | Some l \<Rightarrow> Some l),
      tk_modelId = (if truthy_str modelId then modelId else None)\<rparr>)"

definition rewrite_row :: "run_task \<Rightarrow> int option \<Rightarrow> bool \<Rightarrow> int \<Rightarrow> task_row \<Rightarrow> task_row" where
  "rewrite_row merged slot reset now r =
    r\<lparr>tw_task := merged, tw_updated_at := now, tw_next_run_at := slot,
      tw_claim_until := (if reset then None else tw_claim_until r),
      tw_start_attempts := (if reset then 0 else tw_start_attempts r),
      tw_failed_at := (if reset then None else tw_failed_at r), tw_error := (if reset then None else tw_error r)\<rparr>"

text \<open>The write of an update, from what was read before.\<close>

definition update_write :: "task_env \<Rightarrow> saved_task \<Rightarrow> task_patch \<Rightarrow> int \<Rightarrow> saved_task option task_comp" where
  "update_write env existing p now =
    bindM (case parse_task_value (te_is_zone env) (merge_task (sv_task existing) p) of
        None \<Rightarrow> throwM invalid_task | Some m \<Rightarrow> returnM m) (\<lambda>merged.
    bindM (of_result (next_cursor_after_update env (tk_trigger (sv_task existing)) (sv_nextRunAt existing) (tk_trigger merged) now))
      (\<lambda>(slot, reset).
    bindM (update_tasks (\<lambda>r. tw_id r = sv_id existing) (rewrite_row merged slot reset now)) (\<lambda>_.
    returnM (Some (existing\<lparr>sv_task := merged, sv_updatedAt := now, sv_nextRunAt := slot,
      sv_scheduleFailedAt := (if reset then None else sv_scheduleFailedAt existing),
      sv_scheduleError := (if reset \<or> sv_scheduleFailedAt existing = None then None else sv_scheduleError existing)\<rparr>)))))"

definition update_task :: "task_env \<Rightarrow> string \<Rightarrow> task_patch \<Rightarrow> int \<Rightarrow> saved_task option task_comp" where
  "update_task env taskId p now =
    bindM (get_task env taskId) (\<lambda>existing.
    case existing of None \<Rightarrow> returnM None | Some e \<Rightarrow> update_write env e p now)"

definition archived_row :: "int \<Rightarrow> task_row \<Rightarrow> task_row" where
  "archived_row now r = r\<lparr>tw_archived_at := Some now, tw_updated_at := now, tw_next_run_at := None, tw_claim_until := None,
     tw_start_attempts := 0, tw_failed_at := None, tw_error := None\<rparr>"

definition archive :: "string \<Rightarrow> int \<Rightarrow> bool task_comp" where
  "archive taskId now = update_tasks (\<lambda>r. tw_id r = taskId \<and> tw_archived_at r = None) (archived_row now)"

text \<open>The runs of a task reference it: \<open>hasRuns\<close> says whether there are any.\<close>

definition delete_task :: "(string \<Rightarrow> bool) \<Rightarrow> string \<Rightarrow> bool task_comp" where
  "delete_task hasRuns taskId t =
    (if task_row_of taskId t \<noteq> None \<and> hasRuns taskId then (Inl (PgForeignKey ''runs_task_id_fkey''), t)
     else (Inr (task_row_of taskId t \<noteq> None), tbl_delete (\<lambda>r. tw_id r = taskId) t))"

section \<open>The schedule\<close>

definition max_schedule_start_attempts :: int where
  "max_schedule_start_attempts = 2"

definition due_row :: "int \<Rightarrow> task_row \<Rightarrow> bool" where
  "due_row now r \<longleftrightarrow> (case tw_next_run_at r of None \<Rightarrow> False | Some t \<Rightarrow> t \<le> now) \<and> tw_archived_at r = None \<and>
     tw_failed_at r = None \<and> (case tw_claim_until r of None \<Rightarrow> True | Some c \<Rightarrow> c \<le> now)"

definition due_le :: "task_env \<Rightarrow> task_row \<Rightarrow> task_row \<Rightarrow> bool" where
  "due_le env l r \<longleftrightarrow> or_else (tw_next_run_at l) 0 < or_else (tw_next_run_at r) 0 \<or>
     (or_else (tw_next_run_at l) 0 = or_else (tw_next_run_at r) 0 \<and> te_id_le env (tw_id l) (tw_id r))"

definition select_due :: "task_env \<Rightarrow> int \<Rightarrow> nat \<Rightarrow> task_row list \<Rightarrow> task_row list" where
  "select_due env now limit t = take limit (sort_by (due_le env) (filter (due_row now) t))"

text \<open>The rows are locked when they are selected; the order of \<open>RETURNING\<close> is the one of the selection.\<close>

definition claimDueTasks :: "task_env \<Rightarrow> int \<Rightarrow> int \<Rightarrow> nat \<Rightarrow> saved_task list task_comp" where
  "claimDueTasks env now claimUntil limit t =
    (let due = select_due env now limit t; claim = (\<lambda>r. r\<lparr>tw_claim_until := Some claimUntil\<rparr>) in
     (rows_to_tasks env (map claim due), tbl_update (\<lambda>r. tw_id r \<in> tw_id ` set due) claim t))"

definition setNextRunAt :: "string \<Rightarrow> int option \<Rightarrow> bool task_comp" where
  "setNextRunAt taskId slot = update_tasks (\<lambda>r. tw_id r = taskId) (\<lambda>r. r\<lparr>tw_next_run_at := slot\<rparr>)"

definition active_task :: "string \<Rightarrow> task_row \<Rightarrow> bool" where
  "active_task taskId r \<longleftrightarrow> tw_id r = taskId \<and> tw_archived_at r = None"

definition success_row :: "int option \<Rightarrow> task_row \<Rightarrow> task_row" where
  "success_row slot r = r\<lparr>tw_next_run_at := slot, tw_claim_until := None, tw_start_attempts := 0,
     tw_failed_at := None, tw_error := None\<rparr>"

definition recordScheduleSuccess :: "string \<Rightarrow> int option \<Rightarrow> bool task_comp" where
  "recordScheduleSuccess taskId slot = update_tasks (active_task taskId) (success_row slot)"

datatype start_failure_outcome = StartRetry | StartFailed | StartMissing

definition failure_row :: "string \<Rightarrow> int \<Rightarrow> int \<Rightarrow> task_row \<Rightarrow> task_row" where
  "failure_row e retryUntil now r =
    (let last = tw_start_attempts r + 1 \<ge> max_schedule_start_attempts in
     r\<lparr>tw_start_attempts := tw_start_attempts r + 1,
       tw_claim_until := (if last then None else Some retryUntil),
       tw_next_run_at := (if last then None else tw_next_run_at r),
       tw_failed_at := (if last then Some now else tw_failed_at r),
       tw_error := (if last then Some e else tw_error r)\<rparr>)"

definition recordScheduleStartFailure :: "string \<Rightarrow> string \<Rightarrow> int \<Rightarrow> int \<Rightarrow> start_failure_outcome task_comp" where
  "recordScheduleStartFailure taskId e retryUntil now t =
    (let t' = tbl_update (active_task taskId) (failure_row e retryUntil now) t in
     (Inr (case tbl_find (active_task taskId) t' of
         None \<Rightarrow> StartMissing | Some r \<Rightarrow> if tw_failed_at r \<noteq> None then StartFailed else StartRetry), t'))"

definition deferScheduleClaim :: "string \<Rightarrow> int option \<Rightarrow> bool task_comp" where
  "deferScheduleClaim taskId claimUntil = update_tasks (active_task taskId) (\<lambda>r. r\<lparr>tw_claim_until := claimUntil\<rparr>)"

text \<open>\<open>GREATEST(next_run_at, schedule_claim_until)\<close>.\<close>

definition wake_at :: "task_row \<Rightarrow> int option" where
  "wake_at r = (case tw_next_run_at r of
     None \<Rightarrow> None | Some t \<Rightarrow> Some (case tw_claim_until r of None \<Rightarrow> t | Some c \<Rightarrow> max t c))"

definition scheduled_row :: "task_row \<Rightarrow> bool" where
  "scheduled_row r \<longleftrightarrow> tw_next_run_at r \<noteq> None \<and> tw_archived_at r = None \<and> tw_failed_at r = None"

definition peekMinNextRunAt :: "task_row list \<Rightarrow> int option" where
  "peekMinNextRunAt t =
    (case List.map_filter wake_at (filter scheduled_row t) of [] \<Rightarrow> None | n # ns \<Rightarrow> Some (fold min ns n))"

section \<open>Histories\<close>

datatype task_write =
    TwCreate string run_task int
  | TwUpdate string task_patch int
  | TwArchive string int
  | TwDelete string
  | TwClaim int int nat
  | TwSetNext string "int option"
  | TwSuccess string "int option"
  | TwFailure string string int int
  | TwDefer string "int option"

fun run_task_write :: "task_env \<Rightarrow> (string \<Rightarrow> bool) \<Rightarrow> task_write \<Rightarrow> task_row list \<Rightarrow> task_row list" where
  "run_task_write env hasRuns (TwCreate i task now) t = snd (create_task env i task now t)"
| "run_task_write env hasRuns (TwUpdate i p now) t = snd (update_task env i p now t)"
| "run_task_write env hasRuns (TwArchive i now) t = snd (archive i now t)"
| "run_task_write env hasRuns (TwDelete i) t = snd (delete_task hasRuns i t)"
| "run_task_write env hasRuns (TwClaim now until limit) t = snd (claimDueTasks env now until limit t)"
| "run_task_write env hasRuns (TwSetNext i n) t = snd (setNextRunAt i n t)"
| "run_task_write env hasRuns (TwSuccess i n) t = snd (recordScheduleSuccess i n t)"
| "run_task_write env hasRuns (TwFailure i e retry now) t = snd (recordScheduleStartFailure i e retry now t)"
| "run_task_write env hasRuns (TwDefer i c) t = snd (deferScheduleClaim i c t)"

section \<open>Stored tasks are valid\<close>

definition tasks_ok :: "task_env \<Rightarrow> task_row list \<Rightarrow> bool" where
  "tasks_ok env t \<longleftrightarrow> list_all (\<lambda>r. valid_task (te_is_zone env) (tw_task r)) t \<and> distinct (map tw_id t)"

fun creates_valid :: "task_env \<Rightarrow> task_write \<Rightarrow> bool" where
  "creates_valid env (TwCreate i t now) = valid_task (te_is_zone env) t"
| "creates_valid env _ = True"

lemma valid_model_id: "valid_task is_zone t \<Longrightarrow> (if truthy_str (tk_modelId t) then tk_modelId t else None) = tk_modelId t"
  by (cases "tk_modelId t") (auto simp: valid_task_def openRouterModelIdSchema_def is_model_id_def truthy_str_def Let_def split: if_splits)

lemma valid_row_saved:
  assumes "valid_task (te_is_zone env) (tw_task r)"
  shows "rowToSavedTask env r = Inr \<lparr>sv_id = tw_id r, sv_task = tw_task r, sv_createdAt = tw_created_at r,
    sv_updatedAt = tw_updated_at r, sv_archivedAt = tw_archived_at r, sv_nextRunAt = tw_next_run_at r,
    sv_scheduleFailedAt = tw_failed_at r, sv_scheduleError = (if tw_failed_at r = None then None else tw_error r)\<rparr>"
  using parse_valid [OF assms] by (simp add: rowToSavedTask_def Let_def valid_model_id [OF assms])

lemma tasks_ok_row: "tasks_ok env t \<Longrightarrow> r \<in> set t \<Longrightarrow> valid_task (te_is_zone env) (tw_task r)"
  by (simp add: tasks_ok_def list_all_iff)

lemma task_row_of_in: "task_row_of i t = Some r \<Longrightarrow> r \<in> set t \<and> tw_id r = i"
  unfolding task_row_of_def by (rule tbl_find_Some_in)

text \<open>What an update of rows by id leaves.\<close>

lemma tasks_ok_update:
  assumes "tasks_ok env t" "\<And>r. tw_id (f r) = tw_id r"
    and "\<And>r. r \<in> set t \<Longrightarrow> P r \<Longrightarrow> valid_task (te_is_zone env) (tw_task (f r))"
  shows "tasks_ok env (tbl_update P f t)"
  using assms map_key_tbl_update [of tw_id f P t]
  by (auto simp: tasks_ok_def list_all_iff tbl_simps)

lemma tasks_ok_write:
  assumes "tasks_ok env t" "creates_valid env x"
  shows "tasks_ok env (run_task_write env hasRuns x t)"
proof (cases x)
  case (TwCreate i task now)
  show ?thesis
  proof (cases "next_run env (tk_trigger task) now False")
    case (Inl e)
    then show ?thesis using assms(1) TwCreate by (simp add: create_task_def of_result_def comp_simps)
  next
    case (Inr n)
    then show ?thesis
      using assms TwCreate
      by (auto simp: create_task_def of_result_def comp_simps insert_task_def tasks_ok_def new_task_row_def task_row_of_def tbl_simps)
  qed
next
  case (TwUpdate i p now)
  show ?thesis
  proof (cases "task_row_of i t")
    case None
    then show ?thesis using assms(1) TwUpdate by (simp add: update_task_def get_task_def comp_simps)
  next
    case (Some r)
    obtain e where e: "rowToSavedTask env r = Inr e" using valid_row_saved tasks_ok_row [OF assms(1)] task_row_of_in [OF Some] by blast
    show ?thesis
    proof (cases "parse_task_value (te_is_zone env) (merge_task (sv_task e) p)")
      case None
      then show ?thesis using assms(1) TwUpdate Some e by (simp add: update_task_def update_write_def get_task_def comp_simps)
    next
      case m: (Some m)
      then show ?thesis
        using assms(1) TwUpdate Some e parsed_valid [OF m]
        by (auto simp: update_task_def update_write_def get_task_def comp_simps of_result_def update_tasks_def rewrite_row_def
            split: sum.split intro!: tasks_ok_update)
    qed
  qed
next
  case (TwDelete i)
  then show ?thesis
    using assms(1) by (auto simp: delete_task_def tasks_ok_def list_all_iff tbl_simps intro: distinct_map_tbl_delete)
qed (use assms(1) in \<open>auto simp: archive_def update_tasks_def archived_row_def claimDueTasks_def Let_def setNextRunAt_def
      recordScheduleSuccess_def success_row_def recordScheduleStartFailure_def failure_row_def deferScheduleClaim_def
      intro!: tasks_ok_update dest: tasks_ok_row\<close>)

interpretation tasks: kept "run_task_write env hasRuns" "creates_valid env" "tasks_ok env" for env hasRuns
  by unfold_locales (rule tasks_ok_write)

text \<open>
  C21. Every stored task satisfies the schema that the runtime checks it with: after any history of
  writes whose created tasks passed the schema of the API, whatever patches were applied, reading a
  task never throws and yields a valid task.
\<close>

theorem stored_tasks_are_valid:
  assumes "tasks_ok env t" "\<forall>x \<in> set xs. creates_valid env x"
  shows "case fst (get_task env i (run_ops (run_task_write env hasRuns) xs t)) of
      Inl e \<Rightarrow> False
    | Inr found \<Rightarrow> (case found of None \<Rightarrow> task_row_of i (run_ops (run_task_write env hasRuns) xs t) = None
        | Some s \<Rightarrow> valid_task (te_is_zone env) (sv_task s))"
proof -
  have ok: "tasks_ok env (run_ops (run_task_write env hasRuns) xs t)" using tasks.run_keeps [OF assms] .
  show ?thesis
  proof (cases "task_row_of i (run_ops (run_task_write env hasRuns) xs t)")
    case (Some r)
    then have "valid_task (te_is_zone env) (tw_task r)" using tasks_ok_row [OF ok] task_row_of_in by blast
    then show ?thesis by (simp add: get_task_def Some valid_row_saved)
  qed (simp add: get_task_def)
qed

definition example_task_env :: task_env where
  "example_task_env = \<lparr>te_fmt = utc_format, te_is_zone = (\<lambda>z. z = ''UTC''), te_id_le = (\<le>)\<rparr>"

definition example_now_task :: run_task where
  "example_now_task = \<lparr>tk_goal = ''g'', tk_trigger = NowTrigger, tk_assignee = ''a'', tk_limits = None, tk_modelId = None\<rparr>"

lemma example_now_task_valid: "valid_task is_zone example_now_task"
  by (simp add: valid_task_def example_now_task_def valid_trigger_def)

theorem stored_tasks_are_valid_witness:
  "case fst (get_task example_task_env ''1'' (run_ops (run_task_write example_task_env (\<lambda>_. False))
      [TwCreate ''1'' example_now_task 3, TwArchive ''1'' 4] [])) of
     Inl e \<Rightarrow> False | Inr found \<Rightarrow> (case found of None \<Rightarrow> False | Some s \<Rightarrow> valid_task (\<lambda>z. z = ''UTC'') (sv_task s))"
proof -
  let ?xs = "[TwCreate ''1'' example_now_task 3, TwArchive ''1'' 4]"
  have a: "tasks_ok example_task_env []" "\<forall>x \<in> set ?xs. creates_valid example_task_env x"
    by (simp_all add: tasks_ok_def example_now_task_valid)
  have r: "task_row_of ''1'' (run_ops (run_task_write example_task_env (\<lambda>_. False)) ?xs []) \<noteq> None"
    by (simp add: create_task_def of_result_def comp_simps next_run_def nextRunAt_def example_now_task_def insert_task_def
        task_row_of_def tbl_simps new_task_row_def archive_def update_tasks_def tbl_update_def archived_row_def)
  show ?thesis
    using stored_tasks_are_valid [OF a, of "''1''" "\<lambda>_. False"] r
    by (simp add: example_task_env_def split: sum.splits option.splits)
qed

section \<open>When a schedule is due\<close>

lemma fold_min_le: "fold min ns n \<le> (m :: int) \<longleftrightarrow> n \<le> m \<or> (\<exists>x \<in> set ns. x \<le> m)"
  by (induction ns arbitrary: n) (auto simp: min_le_iff_disj)

lemma wake_due: "scheduled_row r \<Longrightarrow> due_row now r \<longleftrightarrow> (\<exists>w. wake_at r = Some w \<and> w \<le> now)"
  by (auto simp: scheduled_row_def due_row_def wake_at_def split: option.splits)

lemma due_scheduled: "due_row now r \<Longrightarrow> scheduled_row r"
  by (auto simp: due_row_def scheduled_row_def split: option.splits)

lemma set_map_filter_wake: "set (List.map_filter f xs) = {y. \<exists>x \<in> set xs. f x = Some y}"
  by (force simp: List.map_filter_def)

lemma peek_due: "(\<exists>r \<in> set t. due_row now r) \<longleftrightarrow> (\<exists>m. peekMinNextRunAt t = Some m \<and> m \<le> now)"
proof -
  let ?ws = "List.map_filter wake_at (filter scheduled_row t)"
  have ws: "set ?ws = {w. \<exists>r \<in> set t. scheduled_row r \<and> wake_at r = Some w}"
    by (auto simp: set_map_filter_wake)
  have "(\<exists>r \<in> set t. due_row now r) \<longleftrightarrow> (\<exists>w \<in> set ?ws. w \<le> now)"
    unfolding ws using wake_due due_scheduled by blast
  also have "\<dots> \<longleftrightarrow> (\<exists>m. peekMinNextRunAt t = Some m \<and> m \<le> now)"
    by (cases ?ws) (simp_all add: peekMinNextRunAt_def fold_min_le)
  finally show ?thesis .
qed

lemma select_due_set: "r \<in> set (select_due env now limit t) \<Longrightarrow> r \<in> set t \<and> due_row now r"
  by (auto simp: select_due_def dest: in_set_takeD)

lemma select_due_some:
  assumes "0 < limit" "\<exists>r \<in> set t. due_row now r"
  shows "select_due env now limit t \<noteq> []"
proof -
  have "filter (due_row now) t \<noteq> []" using assms(2) by (auto simp: filter_empty_conv)
  then have "sort_by (due_le env) (filter (due_row now) t) \<noteq> []"
    by (metis sort_by_set set_empty)
  then show ?thesis using assms(1) by (simp add: select_due_def)
qed

end
