(* ===== verification/ScheduleDispatcher.thy ===== *)
theory ScheduleDispatcher
  imports TaskRepo DriveSafety
begin

text \<open>
  The scheduler of the agent runtime: \<^verbatim>\<open>apps/shaiden/src/schedule/schedule-dispatcher.ts\<close>. A tick
  claims the tasks that are due, starts a run for each and moves its schedule on, then sleeps until
  the next task may be due. \<open>de_start\<close> starts a run; \<open>harness_start\<close> is how \<^verbatim>\<open>index.ts\<close> starts it.
\<close>

section \<open>The process\<close>

record 'y schedule_world =
  sd_tasks :: "task_row list"
  sd_world :: "'y run_world"

type_synonym ('y, 'a) sched_comp = "('y schedule_world, run_error, 'a) comp"

definition on_tasks :: "'a task_comp \<Rightarrow> ('y, 'a) sched_comp" where
  "on_tasks m w = (case m (sd_tasks w) of
     (Inl e, t) \<Rightarrow> (Inl (OtherError (exn_message e)), w\<lparr>sd_tasks := t\<rparr>) | (Inr x, t) \<Rightarrow> (Inr x, w\<lparr>sd_tasks := t\<rparr>))"

definition on_world :: "('y, 'a) world_comp \<Rightarrow> ('y, 'a) sched_comp" where
  "on_world m w = (case m (sd_world w) of (r, u) \<Rightarrow> (r, w\<lparr>sd_world := u\<rparr>))"

record 'y dispatch_env =
  de_tasks :: task_env
  de_runs :: run_env
  de_start :: "run_task \<Rightarrow> string \<Rightarrow> ('y, unit) sched_comp"
  de_clock :: "'y schedule_world \<Rightarrow> int"
  de_claimMs :: int
  de_claimLimit :: nat
  de_maxSleepMs :: int
  de_dueWakeMs :: int

definition default_schedule_max_sleep_ms :: int where "default_schedule_max_sleep_ms = 30000"
definition default_schedule_claim_ms :: int where "default_schedule_claim_ms = 30000"
definition default_schedule_due_wake_ms :: int where "default_schedule_due_wake_ms = 50"
definition default_schedule_claim_limit :: nat where "default_schedule_claim_limit = 10"

definition harness_start :: "'y harness_env \<Rightarrow> run_task \<Rightarrow> string \<Rightarrow> ('y, unit) sched_comp" where
  "harness_start env task taskId = bindM (on_world (launchHarnessRun env task taskId)) (\<lambda>_. returnM ())"

section \<open>How long to sleep\<close>

definition scheduleSleepMs :: "int option \<Rightarrow> int \<Rightarrow> int \<Rightarrow> int \<Rightarrow> int" where
  "scheduleSleepMs minNextRunAt nowMs maxSleepMs dueWakeMs =
    (case minNextRunAt of
       None \<Rightarrow> maxSleepMs
     | Some t \<Rightarrow> (let dueIn = t - nowMs in if dueIn \<le> 0 then dueWakeMs else min dueIn maxSleepMs))"

section \<open>Firing a claimed task\<close>

definition savedTaskToTask :: "saved_task \<Rightarrow> run_task" where
  "savedTaskToTask s =
    (let t = sv_task s in t\<lparr>tk_modelId := if truthy_str (tk_modelId t) then tk_modelId t else None\<rparr>)"

definition runningCoversSlot :: "int option \<Rightarrow> int option \<Rightarrow> bool" where
  "runningCoversSlot startedAt slot =
    (case (slot, startedAt) of (Some s, Some r) \<Rightarrow> r \<ge> s | _ \<Rightarrow> True)"

text \<open>\<open>advance\<close>, with the next slot worked out beforehand.\<close>

definition advance_slot :: "string \<Rightarrow> int option \<Rightarrow> ('y, unit) sched_comp" where
  "advance_slot taskId nextAfterFire =
    bindM (on_tasks (recordScheduleSuccess taskId nextAfterFire)) (\<lambda>_. returnM ())"

definition start_claimed :: "'y dispatch_env \<Rightarrow> saved_task \<Rightarrow> int option \<Rightarrow> int \<Rightarrow> ('y, bool) sched_comp" where
  "start_claimed env current nextAfterFire now =
    catchM
      (bindM (de_start env (savedTaskToTask current) (sv_id current)) (\<lambda>_.
       bindM (advance_slot (sv_id current) nextAfterFire) (\<lambda>_.
       returnM True)))
      (\<lambda>e. case e of
         TaskAlreadyRunning _ \<Rightarrow> bindM (advance_slot (sv_id current) nextAfterFire) (\<lambda>_. returnM False)
       | _ \<Rightarrow> bindM (on_tasks (recordScheduleStartFailure (sv_id current) (describeError e) (now + de_claimMs env) now))
                (\<lambda>_. returnM False))"

definition fireClaimedTask :: "'y dispatch_env \<Rightarrow> saved_task \<Rightarrow> int option \<Rightarrow> int \<Rightarrow> ('y, bool) sched_comp" where
  "fireClaimedTask env saved runningStartedAt now =
    bindM (on_tasks (get_task (de_tasks env) (sv_id saved))) (\<lambda>found.
    case found of
      None \<Rightarrow> returnM False
    | Some current \<Rightarrow>
        if sv_archivedAt current \<noteq> None \<or> sv_scheduleFailedAt current \<noteq> None then returnM False
        else if (case sv_nextRunAt current of None \<Rightarrow> True | Some t \<Rightarrow> t > now)
        then bindM (on_tasks (deferScheduleClaim (sv_id current) None)) (\<lambda>_. returnM False)
        else bindM (on_tasks (of_result (next_run (de_tasks env) (tk_trigger (sv_task current)) now True))) (\<lambda>nextAfterFire.
          if runningStartedAt \<noteq> None
          then (if runningCoversSlot runningStartedAt (sv_nextRunAt current)
                then bindM (advance_slot (sv_id current) nextAfterFire) (\<lambda>_. returnM False)
                else bindM (on_tasks (deferScheduleClaim (sv_id current) (Some (now + de_claimMs env)))) (\<lambda>_. returnM False))
          else start_claimed env current nextAfterFire now))"

section \<open>A tick\<close>

text \<open>\<open>new Map(running.map(...))\<close>: the last run of a task wins; at most one runs.\<close>

definition running_map :: "run_env \<Rightarrow> run_db \<Rightarrow> string \<rightharpoonup> int" where
  "running_map env db = map_of (rev (map (\<lambda>(i, taskId, startedAt). (taskId, startedAt)) (listRunningRuns env db)))"

fun fire_all :: "'y dispatch_env \<Rightarrow> int \<Rightarrow> (string \<rightharpoonup> int) \<Rightarrow> saved_task list \<Rightarrow> ('y, nat) sched_comp" where
  "fire_all env now running [] = returnM 0"
| "fire_all env now running (saved # rest) =
    bindM (fireClaimedTask env saved (running (sv_id saved)) now) (\<lambda>fired.
    if fired then bindM (fire_all env now (running(sv_id saved \<mapsto> now)) rest) (\<lambda>n. returnM (Suc n))
    else fire_all env now running rest)"

definition fireDueScheduledTasks :: "'y dispatch_env \<Rightarrow> ('y, nat) sched_comp" where
  "fireDueScheduledTasks env =
    bindM (getsM (de_clock env)) (\<lambda>now.
    bindM (on_tasks (claimDueTasks (de_tasks env) now (now + de_claimMs env) (de_claimLimit env))) (\<lambda>due.
    bindM (getsM (\<lambda>w. running_map (de_runs env) (sw_db (sd_world w)))) (\<lambda>running.
    fire_all env now running due)))"

text \<open>One round of the loop of \<open>startScheduleDispatcher\<close>: how long it sleeps afterwards.\<close>

definition dispatcher_tick :: "'y dispatch_env \<Rightarrow> ('y, int) sched_comp" where
  "dispatcher_tick env =
    catchM
      (bindM (fireDueScheduledTasks env) (\<lambda>_.
       bindM (getsM (de_clock env)) (\<lambda>now.
       bindM (getsM (\<lambda>w. peekMinNextRunAt (sd_tasks w))) (\<lambda>minNext.
       returnM (scheduleSleepMs minNext now (de_maxSleepMs env) (de_dueWakeMs env))))))
      (\<lambda>_. returnM (de_maxSleepMs env))"

section \<open>The loop and its sleep\<close>

text \<open>\<open>WakeableSleep\<close>: the running timer, and whether a caller waits on it.\<close>

record wakeable_sleep =
  ws_timer :: "int option"
  ws_waiting :: bool

definition sleep_fire :: "wakeable_sleep \<Rightarrow> wakeable_sleep" where
  "sleep_fire s = s\<lparr>ws_timer := None, ws_waiting := False\<rparr>"

text \<open>A wait of no time is over at once: its microtask runs before any timer or request.\<close>

definition sleep_wait :: "int \<Rightarrow> wakeable_sleep \<Rightarrow> wakeable_sleep" where
  "sleep_wait ms s =
    (let s' = s\<lparr>ws_timer := None, ws_waiting := True\<rparr> in
     if ms \<le> 0 then sleep_fire s' else s'\<lparr>ws_timer := Some ms\<rparr>)"

text \<open>\<open>dr_pending\<close>: a tick has ended and the loop is about to sleep that long.\<close>

record 'y dispatcher =
  dr_stopped :: bool
  dr_pending :: "int option"
  dr_sleep :: wakeable_sleep
  dr_world :: "'y schedule_world"

definition initial_dispatcher :: "'y schedule_world \<Rightarrow> 'y dispatcher" where
  "initial_dispatcher w =
    \<lparr>dr_stopped = False, dr_pending = None, dr_sleep = \<lparr>ws_timer = None, ws_waiting = False\<rparr>, dr_world = w\<rparr>"

definition dispatcher_notify :: "'y dispatcher \<Rightarrow> 'y dispatcher" where
  "dispatcher_notify d = d\<lparr>dr_sleep := sleep_fire (dr_sleep d)\<rparr>"

definition dispatcher_stop :: "'y dispatcher \<Rightarrow> 'y dispatcher" where
  "dispatcher_stop d = d\<lparr>dr_stopped := True, dr_sleep := sleep_fire (dr_sleep d)\<rparr>"

text \<open>What can happen to a dispatcher, the changes of the world by others included.\<close>

inductive dispatcher_step :: "'y dispatch_env \<Rightarrow> 'y dispatcher \<Rightarrow> 'y dispatcher \<Rightarrow> bool" for env where
  Tick: "dispatcher_step env d (d\<lparr>dr_world := w, dr_pending := Some delay\<rparr>)"
    if "\<not> dr_stopped d" "dr_pending d = None" "\<not> ws_waiting (dr_sleep d)"
      "dispatcher_tick env (dr_world d) = (Inr delay, w)"
| Sleep: "dispatcher_step env d (d\<lparr>dr_pending := None, dr_sleep := sleep_wait delay (dr_sleep d)\<rparr>)"
    if "\<not> dr_stopped d" "dr_pending d = Some delay"
| Return: "dispatcher_step env d (d\<lparr>dr_pending := None\<rparr>)" if "dr_stopped d"
| Timer: "dispatcher_step env d (d\<lparr>dr_sleep := sleep_fire (dr_sleep d)\<rparr>)" if "ws_timer (dr_sleep d) \<noteq> None"
| Notify: "dispatcher_step env d (dispatcher_notify d)"
| Stop: "dispatcher_step env d (dispatcher_stop d)"
| Others: "dispatcher_step env d (d\<lparr>dr_world := w\<rparr>)"

section \<open>The sleep does not pass a task\<close>

text \<open>
  The dispatcher never sleeps past a task: the sleep after a tick is positive and bounded; if a
  task is due it is the short wake-up delay, otherwise nothing becomes due before the sleep ends,
  and a sleep below the bound ends exactly when a task becomes due.
\<close>

theorem sleep_never_passes_due:
  fixes t :: "task_row list" and now :: int
  assumes "0 < wake" "wake \<le> maxSleep"
  defines "d \<equiv> scheduleSleepMs (peekMinNextRunAt t) now maxSleep wake"
  shows "0 < d \<and> d \<le> maxSleep \<and>
    (if \<exists>r \<in> set t. due_row now r then d = wake
     else (\<forall>r \<in> set t. \<forall>u < now + d. \<not> due_row u r) \<and> (d = maxSleep \<or> (\<exists>r \<in> set t. due_row (now + d) r)))"
proof (cases "peekMinNextRunAt t")
  case None
  then have "\<not> (\<exists>r \<in> set t. due_row u r)" for u by (simp add: peek_due)
  then show ?thesis using assms(1,2) None by (auto simp: d_def scheduleSleepMs_def)
next
  case (Some m)
  then have due: "(\<exists>r \<in> set t. due_row u r) \<longleftrightarrow> m \<le> u" for u by (simp add: peek_due)
  show ?thesis
  proof (cases "m \<le> now")
    case True
    then show ?thesis using assms(1,2) Some due [of now] by (simp add: d_def scheduleSleepMs_def)
  next
    case False
    then have d: "d = min (m - now) maxSleep" using Some by (simp add: d_def scheduleSleepMs_def)
    have "\<not> (\<exists>r \<in> set t. due_row u r)" if "u < now + d" for u using that d unfolding due by simp
    moreover have "d = maxSleep \<or> (\<exists>r \<in> set t. due_row (now + d) r)" unfolding due using d by auto
    ultimately show ?thesis using assms(1,2) False d due [of now] by auto
  qed
qed

definition example_due_row :: task_row where
  "example_due_row = (new_task_row ''1'' example_now_task (Some 5000) 0)"

theorem sleep_never_passes_due_witness:
  "scheduleSleepMs (peekMinNextRunAt [example_due_row]) 1000 30000 50 = 4000 \<and>
    (if \<exists>r \<in> set [example_due_row]. due_row 1000 r then False
     else \<not> due_row 4999 example_due_row \<and> due_row 5000 example_due_row)"
  using sleep_never_passes_due [where wake = 50 and maxSleep = 30000 and t = "[example_due_row]" and now = 1000]
  by (simp add: example_due_row_def new_task_row_def due_row_def peekMinNextRunAt_def scheduled_row_def wake_at_def scheduleSleepMs_def)

section \<open>A claim excludes the other dispatchers\<close>

text \<open>What may happen to a claimed task until its claim ends without ending the claim.\<close>

fun leaves_claim :: "string \<Rightarrow> int \<Rightarrow> task_write \<Rightarrow> bool" where
  "leaves_claim i until (TwClaim now _ _) = (now < until)"
| "leaves_claim i until (TwCreate _ _ _) = True"
| "leaves_claim i until (TwSetNext _ _) = True"
| "leaves_claim i until (TwUpdate j _ _) = (j \<noteq> i)"
| "leaves_claim i until (TwArchive j _) = (j \<noteq> i)"
| "leaves_claim i until (TwDelete j) = (j \<noteq> i)"
| "leaves_claim i until (TwSuccess j _) = (j \<noteq> i)"
| "leaves_claim i until (TwFailure j _ _ _) = (j \<noteq> i)"
| "leaves_claim i until (TwDefer j _) = (j \<noteq> i)"

definition claimed_until :: "string \<Rightarrow> int \<Rightarrow> task_row list \<Rightarrow> bool" where
  "claimed_until i until t \<longleftrightarrow> i \<in> tw_id ` set t \<and> (\<forall>r \<in> set t. tw_id r = i \<longrightarrow> tw_claim_until r = Some until)"

lemma claimed_update:
  assumes "claimed_until i until t" "\<And>r. tw_id (f r) = tw_id r"
    and "\<And>r. r \<in> set t \<Longrightarrow> P r \<Longrightarrow> tw_id r = i \<Longrightarrow> tw_claim_until (f r) = Some until"
  shows "claimed_until i until (tbl_update P f t)"
proof -
  have "tw_id ` set (tbl_update P f t) = tw_id ` set t"
    using map_key_tbl_update [of tw_id f P t] assms(2) by (metis list.set_map)
  then show ?thesis using assms(1,3) by (auto simp: claimed_until_def tbl_simps assms(2))
qed

lemma claimed_not_due: "claimed_until i until t \<Longrightarrow> now < until \<Longrightarrow> r \<in> set (select_due env now limit t) \<Longrightarrow> tw_id r \<noteq> i"
  by (auto simp: claimed_until_def due_row_def dest!: select_due_set)

lemma claimed_write:
  assumes "claimed_until i until t" "leaves_claim i until x"
  shows "claimed_until i until (run_task_write env hasRuns x t)"
proof (cases x)
  case (TwCreate j task now)
  then show ?thesis using assms(1)
    by (auto simp: create_task_def of_result_def comp_simps insert_task_def claimed_until_def new_task_row_def task_row_of_def
        tbl_simps split: sum.split)
next
  case (TwUpdate j p now)
  have j: "tw_id e \<noteq> i" if "task_row_of j t = Some e" for e
    using task_row_of_in [OF that] assms(2) TwUpdate by auto
  show ?thesis
    using assms TwUpdate j
    by (auto simp: update_task_def update_write_def get_task_def comp_simps of_result_def update_tasks_def rewrite_row_def
        rowToSavedTask_def Let_def split: sum.split option.split prod.split intro!: claimed_update)
next
  case (TwDelete j)
  then show ?thesis using assms by (auto simp: delete_task_def claimed_until_def tbl_simps)
next
  case (TwClaim now u limit)
  then show ?thesis
    using assms claimed_not_due [OF assms(1), of now] by (fastforce simp: claimDueTasks_def Let_def intro!: claimed_update)
qed (use assms in \<open>auto simp: archive_def update_tasks_def archived_row_def setNextRunAt_def active_task_def
      recordScheduleSuccess_def success_row_def recordScheduleStartFailure_def failure_row_def deferScheduleClaim_def Let_def
      claimed_until_def[of _ _ t] intro!: claimed_update\<close>)

interpretation claim: kept "run_task_write env hasRuns" "leaves_claim i until" "claimed_until i until" for env hasRuns i until
  by unfold_locales (rule claimed_write)

lemma rows_to_tasks_ids: "rows_to_tasks env rs = Inr ts \<Longrightarrow> map sv_id ts = map tw_id rs"
  by (induction rs arbitrary: ts) (auto simp: rowToSavedTask_def Let_def split: sum.splits option.splits)

lemma claim_claims:
  assumes "fst (claimDueTasks env now until limit t) = Inr claimed" "s \<in> set claimed"
  shows "claimed_until (sv_id s) until (snd (claimDueTasks env now until limit t))"
proof -
  let ?c = "\<lambda>r. r\<lparr>tw_claim_until := Some until\<rparr>" and ?due = "select_due env now limit t"
  have "map sv_id claimed = map tw_id (map ?c ?due)"
    using assms(1) rows_to_tasks_ids [of env "map ?c ?due"] by (simp add: claimDueTasks_def Let_def)
  also have "\<dots> = map tw_id ?due" by simp
  finally have m: "sv_id s \<in> tw_id ` set ?due" using assms(2) by (metis image_eqI list.set_map)
  then obtain r where r: "r \<in> set ?due" "tw_id r = sv_id s" by auto
  let ?t = "tbl_update (\<lambda>r. tw_id r \<in> tw_id ` set ?due) ?c t"
  have "tw_id ` set ?t = tw_id ` set t"
    using map_key_tbl_update [of tw_id ?c "\<lambda>r. tw_id r \<in> tw_id ` set ?due" t] by (metis (no_types, lifting) list.set_map
        task_row.select_convs(1) task_row.surjective task_row.update_convs(7))
  moreover have "tw_claim_until x = Some until" if "x \<in> set ?t" "tw_id x = sv_id s" for x
    using that m by (auto simp: tbl_simps split: if_splits)
  ultimately have "claimed_until (sv_id s) until ?t"
    using r(2) select_due_set [OF r(1)] by (metis (no_types, lifting) claimed_until_def image_eqI)
  then show ?thesis by (simp add: claimDueTasks_def Let_def)
qed

text \<open>
  C23. A claimed task belongs to its claimer until the claim ends: whatever other tasks and other
  dispatchers do meanwhile, no claim at an earlier time hands it out again.
\<close>

theorem claimed_task_is_not_claimed_again:
  assumes "fst (claimDueTasks env now until limit t) = Inr claimed" "s \<in> set claimed"
    and "\<forall>x \<in> set xs. leaves_claim (sv_id s) until x"
    and "now' < until"
    and "fst (claimDueTasks env now' until' limit'
      (run_ops (run_task_write env hasRuns) xs (snd (claimDueTasks env now until limit t)))) = Inr claimed'"
  shows "sv_id s \<notin> sv_id ` set claimed'"
proof -
  let ?t = "run_ops (run_task_write env hasRuns) xs (snd (claimDueTasks env now until limit t))"
  have "claimed_until (sv_id s) until ?t"
    using claim.run_keeps [OF claim_claims [OF assms(1,2)] assms(3)] .
  then have "sv_id s \<notin> tw_id ` set (select_due env now' limit' ?t)"
    by (auto dest: claimed_not_due [OF _ assms(4)])
  moreover have "map sv_id claimed' = map tw_id (select_due env now' limit' ?t)"
    using assms(5) rows_to_tasks_ids by (fastforce simp: claimDueTasks_def Let_def)
  ultimately show ?thesis by (metis list.set_map)
qed

theorem claimed_task_is_not_claimed_again_witness:
  "\<exists>s c. fst (claimDueTasks example_task_env 5000 35000 10 [example_due_row]) = Inr [s] \<and>
     fst (claimDueTasks example_task_env 6000 36000 10
       (run_ops (run_task_write example_task_env (\<lambda>_. False)) [TwArchive ''2'' 5500]
         (snd (claimDueTasks example_task_env 5000 35000 10 [example_due_row])))) = Inr c \<and> sv_id s \<notin> sv_id ` set c"
proof -
  let ?t = "[example_due_row]"
  let ?u = "run_ops (run_task_write example_task_env (\<lambda>_. False)) [TwArchive ''2'' 5500]
    (snd (claimDueTasks example_task_env 5000 35000 10 ?t))"
  note row_simps = claimDueTasks_def Let_def select_due_def due_row_def example_due_row_def new_task_row_def sort_by_def
  have v: "valid_task z example_now_task" for z by (rule example_now_task_valid)
  obtain s where s: "fst (claimDueTasks example_task_env 5000 35000 10 ?t) = Inr [s]" "sv_id s = ''1''"
    using valid_row_saved [of example_task_env "example_due_row\<lparr>tw_claim_until := Some 35000\<rparr>"] v
    by (auto simp: row_simps)
  have c: "fst (claimDueTasks example_task_env 6000 36000 10 ?u) = Inr []"
    by (simp add: row_simps tbl_update_def archive_def update_tasks_def)
  have "sv_id s \<notin> sv_id ` set []"
    using claimed_task_is_not_claimed_again [OF s(1) _ _ _ c] s(2) by simp
  then show ?thesis using s c by blast
qed

section \<open>The loop never stalls\<close>

lemmas sleeper_simps = sleep_wait_def sleep_fire_def dispatcher_notify_def dispatcher_stop_def Let_def

text \<open>A running dispatcher that waits has a timer, no longer than the longest sleep.\<close>

definition awake_or_timed :: "int \<Rightarrow> 'y dispatcher \<Rightarrow> bool" where
  "awake_or_timed longest d \<longleftrightarrow>
    (ws_waiting (dr_sleep d) \<longleftrightarrow> ws_timer (dr_sleep d) \<noteq> None) \<and>
    (\<forall>ms. ws_timer (dr_sleep d) = Some ms \<longrightarrow> 0 < ms \<and> ms \<le> longest) \<and>
    (\<forall>ms. dr_pending d = Some ms \<longrightarrow> 0 < ms \<and> ms \<le> longest \<and> \<not> ws_waiting (dr_sleep d))"

lemma sleep_bounds:
  "0 < wake \<Longrightarrow> wake \<le> longest \<Longrightarrow> 0 < scheduleSleepMs m now longest wake \<and> scheduleSleepMs m now longest wake \<le> longest"
  by (auto simp: scheduleSleepMs_def Let_def split: option.split)

lemma tick_delay:
  assumes "0 < de_dueWakeMs env" "de_dueWakeMs env \<le> de_maxSleepMs env"
  shows "\<exists>delay w'. dispatcher_tick env w = (Inr delay, w') \<and> 0 < delay \<and> delay \<le> de_maxSleepMs env"
  using assms sleep_bounds [OF assms]
  by (auto simp: dispatcher_tick_def comp_simps getsM_def split: prod.split sum.split)

lemma awake_step:
  assumes "0 < de_dueWakeMs env" "de_dueWakeMs env \<le> de_maxSleepMs env"
    and "dispatcher_step env d d'" "awake_or_timed (de_maxSleepMs env) d"
  shows "awake_or_timed (de_maxSleepMs env) d'"
  using assms(3)
proof (cases rule: dispatcher_step.cases)
  case (Tick delay w)
  then show ?thesis using assms(4) tick_delay [OF assms(1,2), of "dr_world d"] by (auto simp: awake_or_timed_def)
qed (use assms(4) in \<open>auto simp: awake_or_timed_def sleeper_simps\<close>)

text \<open>
  The scheduler never stalls: in every reachable state of a dispatcher that was not stopped,
  either a tick can run, or the loop is about to sleep, or it sleeps on a timer no longer than the
  longest sleep, whatever ticks, notifications and other processes did before.
\<close>

theorem dispatcher_never_stalls:
  assumes "0 < de_dueWakeMs env" "de_dueWakeMs env \<le> de_maxSleepMs env"
    and "(dispatcher_step env)\<^sup>*\<^sup>* (initial_dispatcher w) d" "\<not> dr_stopped d"
  shows "(\<exists>delay w'. dispatcher_step env d (d\<lparr>dr_world := w', dr_pending := Some delay\<rparr>)) \<or>
    (\<exists>delay. dr_pending d = Some delay \<and> dispatcher_step env d (d\<lparr>dr_pending := None, dr_sleep := sleep_wait delay (dr_sleep d)\<rparr>)) \<or>
    (\<exists>ms. ws_timer (dr_sleep d) = Some ms \<and> 0 < ms \<and> ms \<le> de_maxSleepMs env \<and>
      dispatcher_step env d (d\<lparr>dr_sleep := sleep_fire (dr_sleep d)\<rparr>))"
proof -
  have ok: "awake_or_timed (de_maxSleepMs env) d"
    using assms(3)
  proof (induction rule: rtranclp_induct)
    case (step d d')
    show ?case using awake_step [OF assms(1,2) step.hyps(2) step.IH] .
  qed (simp add: awake_or_timed_def initial_dispatcher_def)
  then consider "ws_timer (dr_sleep d) \<noteq> None" | "dr_pending d \<noteq> None" | "dr_pending d = None" "\<not> ws_waiting (dr_sleep d)"
    by (auto simp: awake_or_timed_def)
  then show ?thesis
  proof cases
    case 1
    then show ?thesis using ok dispatcher_step.Timer [of d env] by (auto simp: awake_or_timed_def)
  next
    case 2
    then show ?thesis using dispatcher_step.Sleep [OF assms(4)] by auto
  next
    case 3
    then show ?thesis using dispatcher_step.Tick [OF assms(4) 3] tick_delay [OF assms(1,2), of "dr_world d"] by blast
  qed
qed

definition example_dispatch :: "(run_task \<Rightarrow> string \<Rightarrow> (unit, unit) sched_comp) \<Rightarrow> unit dispatch_env" where
  "example_dispatch start = \<lparr>de_tasks = example_task_env\<lparr>te_is_zone := \<lambda>_. True\<rparr>, de_runs = example_env, de_start = start,
     de_clock = (\<lambda>_. 1740000000000), de_claimMs = default_schedule_claim_ms, de_claimLimit = default_schedule_claim_limit,
     de_maxSleepMs = default_schedule_max_sleep_ms, de_dueWakeMs = default_schedule_due_wake_ms\<rparr>"

definition example_sched :: "task_row list \<Rightarrow> unit schedule_world" where
  "example_sched t = \<lparr>sd_tasks = t, sd_world = example_world []\<rparr>"

lemmas schedule_defaults = default_schedule_claim_ms_def default_schedule_claim_limit_def default_schedule_max_sleep_ms_def
  default_schedule_due_wake_ms_def

theorem dispatcher_never_stalls_witness:
  "\<exists>ms w. dispatcher_step (example_dispatch (\<lambda>_ _. returnM ())) (initial_dispatcher (example_sched []))
     ((initial_dispatcher w)\<lparr>dr_pending := Some ms\<rparr>)"
  using dispatcher_never_stalls [of "example_dispatch (\<lambda>_ _. returnM ())" "example_sched []" "initial_dispatcher (example_sched [])"]
  by (auto simp: example_dispatch_def schedule_defaults initial_dispatcher_def)

section \<open>What firing does to the schedule\<close>

lemma search_run_after:
  "search_run n fmt zone r local atUtc fromUtc True cursor = Inr (Some t) \<Longrightarrow> fromUtc < t"
  by (induction n arbitrary: cursor) (auto simp: Let_def isEligible_def split: if_splits sum.splits)

lemma nextRunAt_after: "nextRunAt fmt trigger fromUtc True = Inr (Some t) \<Longrightarrow> fromUtc < t"
  by (auto simp: nextRunAt_def Let_def isEligible_def split: task_trigger.splits if_splits sum.splits option.splits
      dest: search_run_after)

lemma next_run_after: "next_run env trigger now True = Inr (Some t) \<Longrightarrow> now < t"
  by (auto simp: next_run_def map_sum_def split: sum.splits dest: nextRunAt_after)

definition start_outcome_row :: "run_error + unit \<Rightarrow> int option \<Rightarrow> int \<Rightarrow> int \<Rightarrow> task_row \<Rightarrow> task_row" where
  "start_outcome_row res slot retryUntil now r =
    (case res of
       Inr _ \<Rightarrow> success_row slot r
     | Inl (TaskAlreadyRunning _) \<Rightarrow> success_row slot r
     | Inl e \<Rightarrow> failure_row (describeError e) retryUntil now r)"

lemma outcome_row_spent:
  assumes "now < until" "\<And>t. slot = Some t \<Longrightarrow> now < t"
  shows "\<not> due_row now (start_outcome_row res slot until now r)"
  using assms
  by (cases slot) (auto simp: start_outcome_row_def due_row_def success_row_def failure_row_def Let_def
      split: sum.split run_error.split option.split)

lemma get_valid:
  assumes "tasks_ok env t" "task_row_of i t = Some r"
  shows "get_task env i t = (Inr (Some \<lparr>sv_id = i, sv_task = tw_task r, sv_createdAt = tw_created_at r,
    sv_updatedAt = tw_updated_at r, sv_archivedAt = tw_archived_at r, sv_nextRunAt = tw_next_run_at r,
    sv_scheduleFailedAt = tw_failed_at r, sv_scheduleError = (if tw_failed_at r = None then None else tw_error r)\<rparr>), t)"
  using task_row_of_in [OF assms(2)] tasks_ok_row [OF assms(1)]
  by (simp add: get_task_def assms(2) valid_row_saved)

text \<open>
  C22. Firing a claimed task of which no run is running starts it once, with the task as it is
  stored, and spends the slot: after a start, or when another run turned out to be running, the
  schedule moves on to its next slot, strictly later; after a failure it is retried once and then
  stopped; either way the task is not due any more and no other task changed.
\<close>

theorem firing_spends_the_slot:
  assumes "tasks_ok (de_tasks env) (sd_tasks w)" "task_row_of (sv_id saved) (sd_tasks w) = Some r"
    and "due_row now (r\<lparr>tw_claim_until := None\<rparr>)" "0 < de_claimMs env"
    and "next_run (de_tasks env) (tk_trigger (tw_task r)) now True = Inr slot"
    and "de_start env (tw_task r) (sv_id saved) w = (res, w1)" "sd_tasks w1 = sd_tasks w"
  defines "r' \<equiv> start_outcome_row res slot (now + de_claimMs env) now r"
  shows "fireClaimedTask env saved None now w =
      (Inr (\<not> isl res), w1\<lparr>sd_tasks := tbl_update (\<lambda>x. x = r) (\<lambda>_. r') (sd_tasks w)\<rparr>) \<and>
    \<not> due_row now r'"
proof -
  have r: "r \<in> set (sd_tasks w)" "tw_id r = sv_id saved" using task_row_of_in [OF assms(2)] by auto
  have d: "distinct (map tw_id (sd_tasks w))" using assms(1) by (simp add: tasks_ok_def)
  have due: "tw_archived_at r = None" "tw_failed_at r = None" "\<exists>t. tw_next_run_at r = Some t \<and> t \<le> now"
    using assms(3) by (auto simp: due_row_def split: option.splits)
  have only: "active_task (sv_id saved) x \<longleftrightarrow> x = r" if "x \<in> set (sd_tasks w)" for x
    using that r d due(1) inj_onD [of tw_id "set (sd_tasks w)" x r] by (auto simp: active_task_def distinct_map)
  have upd: "tbl_update (active_task (sv_id saved)) f (sd_tasks w) = tbl_update (\<lambda>x. x = r) (\<lambda>_. f r) (sd_tasks w)" for f
    using only by (auto simp: tbl_update_def)
  have m: "savedTaskToTask \<lparr>sv_id = i, sv_task = tw_task r, sv_createdAt = c, sv_updatedAt = u, sv_archivedAt = a,
    sv_nextRunAt = n, sv_scheduleFailedAt = fa, sv_scheduleError = e\<rparr> = tw_task r" for i c u a n fa e
    using valid_model_id [OF tasks_ok_row [OF assms(1) r(1)]] by (simp add: savedTaskToTask_def Let_def)
  have "\<not> due_row now r'"
    unfolding r'_def using assms(4,5) next_run_after by (intro outcome_row_spent) auto
  moreover have "fireClaimedTask env saved None now w =
      (Inr (\<not> isl res), w1\<lparr>sd_tasks := tbl_update (\<lambda>x. x = r) (\<lambda>_. r') (sd_tasks w)\<rparr>)"
    using due assms(5-7) get_valid [OF assms(1,2)]
    by (auto simp: fireClaimedTask_def comp_simps on_tasks_def start_claimed_def m of_result_def advance_slot_def
        recordScheduleSuccess_def recordScheduleStartFailure_def update_tasks_def upd Let_def r'_def start_outcome_row_def
        split: sum.split run_error.split)
  ultimately show ?thesis by simp
qed

definition example_one_shot :: task_row where
  "example_one_shot = new_task_row ''1'' (example_now_task\<lparr>tk_trigger := ScheduleTrigger
     \<lparr>sc_timezone = ''UTC'', sc_at = ''2025-01-31T09:00'', sc_recurrence = None, sc_paused = None\<rparr>\<rparr>) (Some 1738314000000) 0"

lemma one_shot_spent: "next_run (example_task_env\<lparr>te_is_zone := z\<rparr>) (tk_trigger (tw_task example_one_shot)) 1740000000000 True = Inr None"
proof -
  have "nextRunAt utc_format (ScheduleTrigger \<lparr>sc_timezone = ''UTC'', sc_at = ''2025-01-31T09:00'', sc_recurrence = None,
      sc_paused = None\<rparr>) 1740000000000 True = Inr None" by code_simp
  then show ?thesis by (simp add: next_run_def example_task_env_def example_one_shot_def new_task_row_def)
qed

lemma one_shot_ok: "tasks_ok (example_task_env\<lparr>te_is_zone := \<lambda>_. True\<rparr>) [example_one_shot]"
  using example_now_task_valid [of "\<lambda>_. True"] example_schedule_valid [of Daily]
  by (auto simp: tasks_ok_def valid_task_def example_one_shot_def new_task_row_def valid_trigger_def valid_schedule_def
      example_schedule_def valid_recurrence_def)

lemma one_shot_row: "task_row_of ''1'' [example_one_shot] = Some example_one_shot" "tw_id example_one_shot = ''1''"
  "due_row 1740000000000 (example_one_shot\<lparr>tw_claim_until := None\<rparr>)"
  by (simp_all add: task_row_of_def tbl_simps example_one_shot_def new_task_row_def due_row_def)

definition example_saved :: saved_task where
  "example_saved = \<lparr>sv_id = ''1'', sv_task = tw_task example_one_shot, sv_createdAt = 0, sv_updatedAt = 0,
     sv_archivedAt = None, sv_nextRunAt = Some 1738314000000, sv_scheduleFailedAt = None, sv_scheduleError = None\<rparr>"

theorem firing_spends_the_slot_witness:
  "\<exists>w1. fireClaimedTask (example_dispatch (\<lambda>_ _. throwM (OtherError ''no key''))) example_saved None 1740000000000
      (example_sched [example_one_shot]) = (Inr False, w1) \<and>
     map tw_start_attempts (sd_tasks w1) = [1] \<and> map tw_claim_until (sd_tasks w1) = [Some 1740000030000]"
proof -
  let ?env = "example_dispatch (\<lambda>_ _. throwM (OtherError ''no key''))" and ?w = "example_sched [example_one_shot]"
  have "fireClaimedTask ?env example_saved None 1740000000000 ?w = (Inr False, ?w\<lparr>sd_tasks := tbl_update (\<lambda>x. x = example_one_shot)
      (\<lambda>_. start_outcome_row (Inl (OtherError ''no key'')) None (1740000000000 + de_claimMs ?env) 1740000000000 example_one_shot)
      [example_one_shot]\<rparr>)"
    using firing_spends_the_slot [where env = ?env and w = ?w and saved = example_saved and r = example_one_shot
        and now = 1740000000000 and slot = None and res = "Inl (OtherError ''no key'')" and ?w1.0 = ?w]
      one_shot_ok one_shot_row one_shot_spent
    by (simp add: example_dispatch_def example_sched_def example_saved_def schedule_defaults comp_simps)
  then show ?thesis
    by (simp add: tbl_update_def start_outcome_row_def failure_row_def max_schedule_start_attempts_def example_one_shot_def
        new_task_row_def example_dispatch_def schedule_defaults Let_def)
qed

text \<open>
  C24. An edit of the schedule that completes while the run is being started is overwritten: the
  next slot was worked out from the old trigger before the start, and recording the success writes
  it over the slot that the edit stored, so the task carries its new trigger with the old one's
  next run.
\<close>

theorem edit_during_start_is_overwritten:
  assumes "tasks_ok (de_tasks env) (sd_tasks w)" "task_row_of (sv_id saved) (sd_tasks w) = Some r"
    and "due_row now (r\<lparr>tw_claim_until := None\<rparr>)"
    and "next_run (de_tasks env) (tk_trigger (tw_task r)) now True = Inr slot"
    and "parse_task_value (te_is_zone (de_tasks env)) (merge_task (tw_task r) p) = Some m"
    and "\<not> taskTriggersEqual (tk_trigger (tw_task r)) (tk_trigger m)"
    and "next_run (de_tasks env) (tk_trigger m) now' False = Inr edited"
    and "de_start env = (\<lambda>_ i. bindM (on_tasks (update_task (de_tasks env) i p now')) (\<lambda>_. returnM ()))"
  shows "task_row_of (sv_id saved) (sd_tasks (snd (de_start env (tw_task r) (sv_id saved) w))) =
      Some (rewrite_row m edited True now' r) \<and>
    (\<exists>w' r'. fireClaimedTask env saved None now w = (Inr True, w') \<and>
      task_row_of (sv_id saved) (sd_tasks w') = Some r' \<and> tw_task r' = m \<and> tw_next_run_at r' = slot)"
proof -
  have r: "r \<in> set (sd_tasks w)" "tw_id r = sv_id saved" using task_row_of_in [OF assms(2)] by auto
  have due: "tw_archived_at r = None" "tw_failed_at r = None" "\<exists>t. tw_next_run_at r = Some t \<and> t \<le> now"
    using assms(3) by (auto simp: due_row_def split: option.splits)
  let ?t = "tbl_update (\<lambda>x. tw_id x = sv_id saved) (rewrite_row m edited True now') (sd_tasks w)"
  have start: "de_start env task (sv_id saved) w = (Inr (), w\<lparr>sd_tasks := ?t\<rparr>)" for task
    using get_valid [OF assms(1,2)] assms(5-7)
    by (simp add: assms(8) comp_simps on_tasks_def update_task_def update_write_def next_cursor_after_update_def of_result_def
        update_tasks_def)
  have row: "task_row_of (sv_id saved) ?t = Some (rewrite_row m edited True now' r)"
    using assms(2) r(2) tbl_find_key_update [of tw_id "rewrite_row m edited True now'" "sv_id saved"]
    by (simp add: task_row_of_def rewrite_row_def)
  have row': "task_row_of (sv_id saved) (tbl_update (active_task (sv_id saved)) (success_row slot) ?t) =
      Some (success_row slot (rewrite_row m edited True now' r))"
    using row r(2) due(1) tbl_find_key_update [of tw_id "success_row slot" "sv_id saved" "active_task (sv_id saved)"]
    by (simp add: task_row_of_def success_row_def active_task_def rewrite_row_def)
  have "fireClaimedTask env saved None now w =
      (Inr True, w\<lparr>sd_tasks := tbl_update (active_task (sv_id saved)) (success_row slot) ?t\<rparr>)"
    using due assms(4) get_valid [OF assms(1,2)]
    by (auto simp: fireClaimedTask_def comp_simps on_tasks_def start_claimed_def start of_result_def advance_slot_def
        recordScheduleSuccess_def update_tasks_def)
  then show ?thesis using row row' start by (simp add: success_row_def rewrite_row_def)
qed

definition daily_patch :: task_patch where
  "daily_patch = \<lparr>tp_goal = None, tp_trigger = Some (ScheduleTrigger (example_schedule Daily)), tp_assignee = None,
     tp_limits = None, tp_modelId = None\<rparr>"

theorem edit_during_start_is_overwritten_witness:
  "\<exists>w' r'. fireClaimedTask (example_dispatch (\<lambda>_ i. bindM (on_tasks (update_task (example_task_env\<lparr>te_is_zone := \<lambda>_. True\<rparr>) i
        daily_patch 1740000000000)) (\<lambda>_. returnM ()))) example_saved None 1740000000000 (example_sched [example_one_shot]) = (Inr True, w') \<and>
     task_row_of ''1'' (sd_tasks w') = Some r' \<and> tk_trigger (tw_task r') = ScheduleTrigger (example_schedule Daily) \<and>
     tw_next_run_at r' = None"
proof -
  let ?te = "example_task_env\<lparr>te_is_zone := \<lambda>_. True\<rparr>"
  let ?env = "example_dispatch (\<lambda>_ i. bindM (on_tasks (update_task ?te i daily_patch 1740000000000)) (\<lambda>_. returnM ()))"
  let ?m = "merge_task (tw_task example_one_shot) daily_patch"
  have trigger: "tk_trigger ?m = ScheduleTrigger (example_schedule Daily)" by (simp add: merge_task_def daily_patch_def Let_def)
  have "valid_task (\<lambda>_. True) ?m"
    using tasks_ok_row [OF one_shot_ok] example_schedule_valid [of Daily]
    by (auto simp: valid_task_def merge_task_def daily_patch_def Let_def example_one_shot_def new_task_row_def example_now_task_def
        valid_trigger_def valid_recurrence_def truthy_str_def)
  then have m: "parse_task_value (te_is_zone (de_tasks ?env)) ?m = Some ?m"
    by (simp add: example_dispatch_def parse_valid)
  obtain t where "nextRunAt utc_format (ScheduleTrigger (example_schedule Daily)) 1740000000000 False = Inr (Some t)"
    using recurring_run_exists [OF example_schedule_valid _ _ _ utc_format_offset, of Daily Daily example_at 1740000000000 False]
      example_span example_at
    by (auto simp: valid_recurrence_def is_paused_def example_schedule_def)
  then have n: "next_run (de_tasks ?env) (tk_trigger ?m) 1740000000000 False = Inr (Some t)"
    by (simp add: next_run_def trigger example_dispatch_def example_task_env_def)
  have ne: "\<not> taskTriggersEqual (tk_trigger (tw_task example_one_shot)) (tk_trigger ?m)"
    unfolding trigger by (simp add: example_one_shot_def new_task_row_def example_schedule_def)
  show ?thesis
    using edit_during_start_is_overwritten [where env = ?env and w = "example_sched [example_one_shot]" and saved = example_saved
        and r = example_one_shot and now = 1740000000000 and slot = None and p = daily_patch and m = ?m
        and now' = 1740000000000 and edited = "Some t"]
      one_shot_ok one_shot_row one_shot_spent m ne n trigger
    by (auto simp: example_dispatch_def example_sched_def example_saved_def)
qed

end
