(* ===== verification/Operators.thy ===== *)
theory Operators
  imports Texts Json
begin

text \<open>
  Operators, the people who sign in: \<^verbatim>\<open>packages/shared/src/operator-context.ts\<close>, by which the
  backends learn who is calling, \<^verbatim>\<open>operator-guards.ts\<close>, \<^verbatim>\<open>operators.ts\<close>, the allow list, and
  the headers that the server of \<^verbatim>\<open>apps/keidai-ui/server/create-server.ts\<close> and
  \<^verbatim>\<open>upstream/fetch-management-api.ts\<close> forward. \<open>is_email\<close> is the check of \<open>z.string().email()\<close>.
\<close>

section \<open>The operator of a request\<close>

datatype operator_role = Admin | Member

record operator_context =
  oc_ownerId :: string
  oc_role :: operator_role

datatype header_value = HOne string | HMany "string list"

type_synonym headers = "(string \<times> header_value) list"

definition operator_owner_header :: string where "operator_owner_header = ''x-keidai-operator-owner''"
definition operator_role_header :: string where "operator_role_header = ''x-keidai-operator-role''"
definition operator_context_header_prefix :: string where "operator_context_header_prefix = ''x-keidai-operator-''"

lemmas header_names = operator_owner_header_def operator_role_header_def operator_context_header_prefix_def

definition headerValue :: "header_value option \<Rightarrow> string option" where
  "headerValue v = (case v of
     None \<Rightarrow> None
   | Some (HOne s) \<Rightarrow> nonempty (trim s)
   | Some (HMany xs) \<Rightarrow> (case xs of [] \<Rightarrow> None | x # _ \<Rightarrow> nonempty (trim x)))"

definition parse_role :: "string option \<Rightarrow> operator_role option" where
  "parse_role r = (if r = Some ''admin'' then Some Admin else if r = Some ''member'' then Some Member else None)"

definition role_str :: "operator_role \<Rightarrow> string" where
  "role_str r = (case r of Admin \<Rightarrow> ''admin'' | Member \<Rightarrow> ''member'')"

definition readOperatorContext :: "headers \<Rightarrow> operator_context option" where
  "readOperatorContext hs =
    (case (headerValue (map_of hs operator_owner_header), parse_role (headerValue (map_of hs operator_role_header))) of
       (Some ownerId, Some role) \<Rightarrow> Some \<lparr>oc_ownerId = ownerId, oc_role = role\<rparr>
     | _ \<Rightarrow> None)"

definition stripOperatorContextHeaders :: "headers \<Rightarrow> headers" where
  "stripOperatorContextHeaders hs = filter (\<lambda>(k, v). \<not> starts_with operator_context_header_prefix (lower k)) hs"

definition operatorContextHeaders :: "operator_context \<Rightarrow> headers" where
  "operatorContextHeaders op =
    [(operator_owner_header, HOne (oc_ownerId op)), (operator_role_header, HOne (role_str (oc_role op)))]"

text \<open>\<open>AdminOnly\<close>: whether the handler runs; otherwise the guard has answered 403.\<close>

definition AdminOnly :: "headers \<Rightarrow> bool" where
  "AdminOnly hs = (case readOperatorContext hs of None \<Rightarrow> False | Some op \<Rightarrow> oc_role op = Admin)"

section \<open>What the server in front forwards\<close>

definition readForwardedHeader :: "header_value option \<Rightarrow> string option" where
  "readForwardedHeader v = (case v of
     None \<Rightarrow> None
   | Some (HOne s) \<Rightarrow> nonempty (trim (before_char CHR '','' s))
   | Some (HMany xs) \<Rightarrow> (case xs of [] \<Rightarrow> None | x # _ \<Rightarrow> nonempty (trim (before_char CHR '','' x))))"

definition present :: "string \<Rightarrow> string option \<Rightarrow> headers" where
  "present k v = (case v of None \<Rightarrow> [] | Some x \<Rightarrow> if x = [] then [] else [(k, HOne x)])"

text \<open>\<open>request.headers\<close> are those of the client, \<open>hs\<close> those the proxy is about to send.\<close>

definition forwardOperatorEdgeHeaders ::
    "headers \<Rightarrow> operator_context option \<Rightarrow> headers \<Rightarrow> string option \<Rightarrow> headers" where
  "forwardOperatorEdgeHeaders request op hs bffServiceToken =
    (let host = (case readForwardedHeader (map_of request ''x-forwarded-host'') of
           Some h \<Rightarrow> Some h
         | None \<Rightarrow> (case map_of request ''host'' of Some (HOne h) \<Rightarrow> Some h | _ \<Rightarrow> None));
         proto = or_else (readForwardedHeader (map_of request ''x-forwarded-proto'')) ''http'' in
     merged (merged (merged (merged (stripOperatorContextHeaders hs)
       (present ''x-forwarded-host'' host))
       [(''x-forwarded-proto'', HOne proto)])
       (case op of None \<Rightarrow> [] | Some p \<Rightarrow> operatorContextHeaders p))
       (case bffServiceToken of None \<Rightarrow> []
        | Some t \<Rightarrow> if t = [] then [] else [(''authorization'', HOne (''Bearer '' @ t))]))"

definition skipped_header :: "string \<Rightarrow> bool" where
  "skipped_header k \<longleftrightarrow> k \<in> {''authorization'', ''host'', ''accept'', ''content-length''}"

definition copied_headers :: "headers \<Rightarrow> headers" where
  "copied_headers hs = List.map_filter (\<lambda>(k, v).
     case v of HOne s \<Rightarrow> if skipped_header (lower k) then None else Some (lower k, HOne s) | HMany _ \<Rightarrow> None)
     (stripOperatorContextHeaders hs)"

text \<open>The headers of a request of \<open>fetchManagementApiJson\<close>; \<open>hasBody\<close>: a body is sent.\<close>

definition management_headers :: "string option \<Rightarrow> operator_context option \<Rightarrow> headers option \<Rightarrow> bool \<Rightarrow> headers" where
  "management_headers bffServiceToken op hs hasBody =
    merged (merged (merged (merged [(''accept'', HOne ''application/json'')]
      (case hs of None \<Rightarrow> [] | Some h \<Rightarrow> copied_headers h))
      (case bffServiceToken of None \<Rightarrow> []
       | Some t \<Rightarrow> if t = [] then [] else [(''authorization'', HOne (''Bearer '' @ t))]))
      (case op of None \<Rightarrow> [] | Some p \<Rightarrow> operatorContextHeaders p))
      (if hasBody then [(''content-type'', HOne ''application/json'')] else [])"

section \<open>The allow list\<close>

record operator_entry =
  oe_owner_id :: string
  oe_google_sub :: "string option"
  oe_google_email :: "string option"
  oe_role :: "operator_role option"

datatype operators_error = InvalidShape | Duplicates "string list"

definition trimmed_opt :: "string option \<Rightarrow> string option" where
  "trimmed_opt x = (case x of None \<Rightarrow> None | Some s \<Rightarrow> nonempty (trim s))"

text \<open>An optional string of a strict object that passes a check.\<close>

definition opt_string :: "(string \<Rightarrow> bool) \<Rightarrow> json option \<Rightarrow> string option option" where
  "opt_string ok j = (case j of
     None \<Rightarrow> Some None | Some (JStr s) \<Rightarrow> if ok s then Some (Some s) else None | Some _ \<Rightarrow> None)"

definition operatorEntrySchema :: "(string \<Rightarrow> bool) \<Rightarrow> json \<Rightarrow> operator_entry option" where
  "operatorEntrySchema is_email j =
    (case j of
       JObj kvs \<Rightarrow>
         if \<not> fst ` set kvs \<subseteq> {''owner_id'', ''google_sub'', ''google_email'', ''role''} then None
         else (case (prop_of ''owner_id'' j, opt_string (\<lambda>s. s \<noteq> []) (prop_of ''google_sub'' j),
                 opt_string is_email (prop_of ''google_email'' j),
                 opt_string (\<lambda>s. parse_role (Some s) \<noteq> None) (prop_of ''role'' j)) of
             (Some (JStr i), Some sub, Some email, Some role) \<Rightarrow>
               if i \<noteq> [] \<and> (trimmed_opt sub \<noteq> None \<or> trimmed_opt email \<noteq> None)
               then Some \<lparr>oe_owner_id = i, oe_google_sub = sub, oe_google_email = email, oe_role = parse_role role\<rparr>
               else None
           | _ \<Rightarrow> None)
     | _ \<Rightarrow> None)"

fun all_entries :: "('a \<Rightarrow> 'b option) \<Rightarrow> 'a list \<Rightarrow> 'b list option" where
  "all_entries f [] = Some []"
| "all_entries f (x # xs) =
    (case f x of None \<Rightarrow> None | Some y \<Rightarrow> map_option ((#) y) (all_entries f xs))"

definition operatorsFileSchema :: "(string \<Rightarrow> bool) \<Rightarrow> json \<Rightarrow> operator_entry list option" where
  "operatorsFileSchema is_email j =
    (case j of
       JObj kvs \<Rightarrow>
         if \<not> fst ` set kvs \<subseteq> {''operators''} then None
         else (case prop_of ''operators'' j of
             Some (JArr es) \<Rightarrow> if es = [] then None else all_entries (operatorEntrySchema is_email) es
           | _ \<Rightarrow> None)
     | _ \<Rightarrow> None)"

definition quoted_dup :: "nat \<Rightarrow> string \<Rightarrow> string \<Rightarrow> string" where
  "quoted_dup i what v =
    ''operators.'' @ digits i @ ''.'' @ what @ '': duplicate '' @ what @ '' \"'' @ v @ ''\"''"

definition dup_error :: "nat \<Rightarrow> string \<Rightarrow> string option \<Rightarrow> string list \<Rightarrow> string list" where
  "dup_error i what v seen = (case v of None \<Rightarrow> [] | Some x \<Rightarrow> if x \<in> set seen then [quoted_dup i what x] else [])"

definition seen_with :: "string option \<Rightarrow> string list \<Rightarrow> string list" where
  "seen_with v seen = (case v of None \<Rightarrow> seen | Some x \<Rightarrow> set_add x seen)"

definition email_key :: "operator_entry \<Rightarrow> string option" where
  "email_key e = map_option lower (trimmed_opt (oe_google_email e))"

text \<open>The loop of \<open>uniquenessErrors\<close>, with the values seen so far.\<close>

fun uniqueness_loop :: "nat \<Rightarrow> string list \<Rightarrow> string list \<Rightarrow> string list \<Rightarrow> operator_entry list \<Rightarrow> string list" where
  "uniqueness_loop i owners subs emails [] = []"
| "uniqueness_loop i owners subs emails (e # es) =
    (let sub = trimmed_opt (oe_google_sub e); email = email_key e in
     dup_error i ''owner_id'' (Some (oe_owner_id e)) owners @ dup_error i ''google_sub'' sub subs @
     dup_error i ''google_email'' email emails @
     uniqueness_loop (Suc i) (seen_with (Some (oe_owner_id e)) owners) (seen_with sub subs) (seen_with email emails) es)"

definition uniquenessErrors :: "operator_entry list \<Rightarrow> string list" where
  "uniquenessErrors es = uniqueness_loop 0 [] [] [] es"

definition normalize_entry :: "operator_entry \<Rightarrow> operator_entry" where
  "normalize_entry e = e\<lparr>oe_google_sub := trimmed_opt (oe_google_sub e), oe_google_email := email_key e\<rparr>"

definition parseOperatorsDocument :: "(string \<Rightarrow> bool) \<Rightarrow> json \<Rightarrow> operators_error + operator_entry list" where
  "parseOperatorsDocument is_email document =
    (case operatorsFileSchema is_email document of
       None \<Rightarrow> Inl InvalidShape
     | Some es \<Rightarrow>
         (let normalized = map normalize_entry es; errors = uniquenessErrors normalized in
          if errors \<noteq> [] then Inl (Duplicates errors) else Inr normalized))"

record operator_claims =
  cl_googleSub :: string
  cl_email :: string

definition resolveOwnerIdFromOperators :: "operator_entry list \<Rightarrow> operator_claims \<Rightarrow> string option" where
  "resolveOwnerIdFromOperators es claims =
    (case find (\<lambda>e. truthy_str (oe_google_sub e) \<and> oe_google_sub e = Some (cl_googleSub claims)) es of
       Some e \<Rightarrow> Some (oe_owner_id e)
     | None \<Rightarrow>
         (let email = lower (trim (cl_email claims)) in
          if email = [] then None
          else map_option oe_owner_id (find (\<lambda>e. truthy_str (oe_google_email e) \<and> oe_google_email e = Some email) es)))"

definition isOperatorInRegistry :: "operator_entry list \<Rightarrow> operator_claims \<Rightarrow> bool" where
  "isOperatorInRegistry es claims \<longleftrightarrow> resolveOwnerIdFromOperators es claims \<noteq> None"

definition ownerIdsFromOperators :: "operator_entry list \<Rightarrow> string list" where
  "ownerIdsFromOperators es = map oe_owner_id es"

datatype reconcile_mode = Additive | Strict

definition resolveOperatorsReconcileMode :: "string option \<Rightarrow> reconcile_mode" where
  "resolveOperatorsReconcileMode v =
    (if map_option (\<lambda>s. lower (trim s)) v = Some ''strict'' then Strict else Additive)"

section \<open>A client cannot choose its operator\<close>

lemma stripped_lookup:
  assumes "starts_with operator_context_header_prefix (lower k)"
  shows "map_of (stripOperatorContextHeaders hs) k = None"
  using assms by (auto simp: stripOperatorContextHeaders_def map_of_eq_None_iff)

lemma context_header_names [simp]:
  "starts_with operator_context_header_prefix (lower operator_owner_header)"
  "starts_with operator_context_header_prefix (lower operator_role_header)"
  by (simp_all add: header_names starts_with_def lower_def to_lower_def)

lemma copied_lookup:
  assumes "starts_with operator_context_header_prefix k"
  shows "map_of (rev (copied_headers hs)) k = None"
  using assms
  by (auto simp: copied_headers_def stripOperatorContextHeaders_def map_of_eq_None_iff List.map_filter_def image_iff
      split: header_value.splits if_splits prod.splits)

lemma parse_role_str [simp]: "parse_role (Some (role_str r)) = Some r"
  by (cases r) (simp_all add: parse_role_def role_str_def)

lemma role_value [simp]: "headerValue (Some (HOne (role_str r))) = Some (role_str r)"
  by (cases r) (simp_all add: headerValue_def role_str_def trim_def is_space_def)

text \<open>The context that a backend reads when the operator is \<open>op\<close>.\<close>

definition announced :: "operator_context option \<Rightarrow> operator_context option" where
  "announced op = (case op of None \<Rightarrow> None
     | Some p \<Rightarrow> if trim (oc_ownerId p) = [] then None else Some (p\<lparr>oc_ownerId := trim (oc_ownerId p)\<rparr>))"

lemma present_lookup: "k' \<noteq> k \<Longrightarrow> map_of (rev (present k v)) k' = None"
  by (auto simp: present_def split: option.splits)

lemma announced_context: "readOperatorContext hs = announced op"
  if "map_of hs operator_owner_header = map_option (\<lambda>p. HOne (oc_ownerId p)) op"
    "map_of hs operator_role_header = map_option (\<lambda>p. HOne (role_str (oc_role p))) op"
  using that
  by (cases op) (auto simp: readOperatorContext_def announced_def headerValue_def [of None] headerValue_def [of "Some (HOne (oc_ownerId _))"]
      parse_role_def [of None])

definition context_header :: "string \<Rightarrow> bool" where
  "context_header k \<longleftrightarrow> k = operator_owner_header \<or> k = operator_role_header"

lemma context_header_simps [simp]: "context_header operator_owner_header" "context_header operator_role_header"
  by (simp_all add: context_header_def)

lemma context_header_other:
  assumes "context_header k"
  shows "k \<notin> {''x-forwarded-host'', ''x-forwarded-proto'', ''authorization'', ''accept'', ''content-type''}"
    "starts_with operator_context_header_prefix k" "starts_with operator_context_header_prefix (lower k)"
  using assms by (auto simp: context_header_def) (auto simp: header_names starts_with_def)

lemma merged_skip: "map_of (rev b) k = None \<Longrightarrow> map_of (merged a b) k = map_of a k"
  by (simp add: js_simps)

lemma merged_base: "map_of a k = None \<Longrightarrow> map_of (merged a b) k = map_of (rev b) k"
  by (simp add: js_simps split: option.split)

lemma op_lookup:
  "map_of (rev (case op of None \<Rightarrow> [] | Some p \<Rightarrow> operatorContextHeaders p)) operator_owner_header =
    map_option (\<lambda>p. HOne (oc_ownerId p)) op"
  "map_of (rev (case op of None \<Rightarrow> [] | Some p \<Rightarrow> operatorContextHeaders p)) operator_role_header =
    map_option (\<lambda>p. HOne (role_str (oc_role p))) op"
  by (cases op; simp add: operatorContextHeaders_def header_names)+

lemma token_lookup: "k \<noteq> ''authorization'' \<Longrightarrow>
  map_of (rev (case bffServiceToken of None \<Rightarrow> [] | Some t \<Rightarrow> if t = [] then [] else [(''authorization'', HOne (''Bearer '' @ t))])) k = None"
  by (cases bffServiceToken) simp_all

lemma forward_lookup:
  assumes "context_header k"
  shows "map_of (forwardOperatorEdgeHeaders request op hs tok) k =
    map_of (rev (case op of None \<Rightarrow> [] | Some p \<Rightarrow> operatorContextHeaders p)) k"
proof -
  note other = context_header_other [OF assms]
  have base: "map_of (merged (merged (stripOperatorContextHeaders hs) (present ''x-forwarded-host'' h)) [(''x-forwarded-proto'', HOne q)]) k = None" for h q
    using other(1) by (subst merged_skip; simp add: present_lookup merged_skip stripped_lookup [OF other(3)])
  show ?thesis
    unfolding forwardOperatorEdgeHeaders_def Let_def
    using other(1) by (subst merged_skip [OF token_lookup]; simp add: merged_base [OF base])
qed

lemma management_lookup:
  assumes "context_header k"
  shows "map_of (management_headers tok op (Some hs) hasBody) k =
    map_of (rev (case op of None \<Rightarrow> [] | Some p \<Rightarrow> operatorContextHeaders p)) k"
proof -
  note other = context_header_other [OF assms]
  have base: "map_of (merged (merged [(''accept'', HOne ''application/json'')] (copied_headers hs)) b) k = map_of (rev b) k" for b
    using other(1) by (intro merged_base, subst merged_skip) (simp_all add: copied_lookup [OF other(2)])
  show ?thesis
    unfolding management_headers_def option.case
    using other(1) by (subst merged_skip, simp) (subst merged_base; simp add: base token_lookup)
qed

text \<open>
  The operator that a backend acts for is the one signed in at the server in front of it,
  whatever headers the client sent, in whatever spelling: on proxied requests and on the requests
  that server makes itself, and it is nobody when nobody is signed in.
\<close>

theorem client_cannot_choose_operator:
  "readOperatorContext (forwardOperatorEdgeHeaders request op hs bffServiceToken) = announced op \<and>
   readOperatorContext (management_headers bffServiceToken op (Some hs) hasBody) = announced op"
  by (intro conjI announced_context)
    (simp_all add: forward_lookup management_lookup op_lookup)

section \<open>The allow list identifies operators\<close>

lemma loop_distinct:
  assumes "uniqueness_loop i owners subs emails es = []"
  shows "distinct (map oe_owner_id es) \<and> set (map oe_owner_id es) \<inter> set owners = {} \<and>
    distinct (List.map_filter (trimmed_opt \<circ> oe_google_sub) es) \<and>
    set (List.map_filter (trimmed_opt \<circ> oe_google_sub) es) \<inter> set subs = {} \<and>
    distinct (List.map_filter email_key es) \<and> set (List.map_filter email_key es) \<inter> set emails = {}"
  using assms
proof (induction es arbitrary: i owners subs emails)
  case (Cons e es)
  note IH = Cons.IH [of "Suc i" "seen_with (Some (oe_owner_id e)) owners" "seen_with (trimmed_opt (oe_google_sub e)) subs"
      "seen_with (email_key e) emails"]
  show ?case
    using Cons.prems IH
    by (cases "trimmed_opt (oe_google_sub e)"; cases "email_key e")
      (auto simp: Let_def dup_error_def seen_with_def js_simps List.map_filter_simps split: if_splits)
qed (simp add: List.map_filter_simps)

lemma trimmed_idem: "trimmed_opt (trimmed_opt x) = trimmed_opt x"
  by (cases x) (simp_all add: trimmed_opt_def nonempty_def)

lemma space_lower: "is_space (to_lower c) = is_space c"
  by (auto simp: is_space_def to_lower_def Let_def)

lemma dropWhile_lower: "dropWhile is_space (map to_lower s) = map to_lower (dropWhile is_space s)"
  by (induction s) (simp_all add: space_lower)

lemma trim_lower: "trim (lower s) = lower (trim s)"
  by (simp add: trim_def lower_def dropWhile_lower rev_map)

lemma email_key_normalized: "email_key (normalize_entry e) = oe_google_email (normalize_entry e)"
  by (auto simp: email_key_def normalize_entry_def trimmed_opt_def nonempty_def trim_lower split: option.split)

lemma sub_normalized: "trimmed_opt (oe_google_sub (normalize_entry e)) = oe_google_sub (normalize_entry e)"
  by (simp add: normalize_entry_def trimmed_idem)

lemma normalized_truthy:
  "truthy_str (oe_google_sub (normalize_entry e)) \<longleftrightarrow> oe_google_sub (normalize_entry e) \<noteq> None"
  "truthy_str (oe_google_email (normalize_entry e)) \<longleftrightarrow> oe_google_email (normalize_entry e) \<noteq> None"
  by (auto simp: normalize_entry_def email_key_def trimmed_opt_def truthy_str_def nonempty_def split: option.splits)

lemma map_filter_eq: "(\<And>x. x \<in> set xs \<Longrightarrow> f x = g x) \<Longrightarrow> List.map_filter f xs = List.map_filter g xs"
  by (induction xs) (auto simp: List.map_filter_simps split: option.split)

lemma find_unique_key:
  assumes "distinct (List.map_filter key es)" "e \<in> set es" "key e = Some k"
  shows "find (\<lambda>x. key x = Some k) es = Some e"
  using assms by (induction es) (auto simp: List.map_filter_def image_iff split: if_splits option.splits)

text \<open>
  The allow list names every operator once: in a document that is accepted owner ids, Google
  accounts and addresses are unique, an entry's account resolves to that entry's owner whatever
  address comes with it, and its address (in any case and with surrounding space) does when the
  account is in no entry.
\<close>

theorem allow_list_identifies_operators:
  assumes "parseOperatorsDocument is_email document = Inr es" "e \<in> set es"
  shows "distinct (ownerIdsFromOperators es) \<and>
    (oe_google_sub e = Some (cl_googleSub claims) \<longrightarrow> resolveOwnerIdFromOperators es claims = Some (oe_owner_id e)) \<and>
    (oe_google_email e = Some (lower (trim (cl_email claims))) \<and> (\<forall>x \<in> set es. oe_google_sub x \<noteq> Some (cl_googleSub claims)) \<longrightarrow>
      resolveOwnerIdFromOperators es claims = Some (oe_owner_id e))"
proof -
  obtain raw where raw: "es = map normalize_entry raw" "uniqueness_loop 0 [] [] [] es = []"
    using assms(1) by (auto simp: parseOperatorsDocument_def uniquenessErrors_def Let_def split: option.splits if_splits)
  have truthy: "truthy_str (oe_google_sub x) \<longleftrightarrow> oe_google_sub x \<noteq> None" "truthy_str (oe_google_email x) \<longleftrightarrow> oe_google_email x \<noteq> None"
    "trimmed_opt (oe_google_sub x) = oe_google_sub x" "email_key x = oe_google_email x" if "x \<in> set es" for x
    using that raw(1) normalized_truthy sub_normalized email_key_normalized by auto
  have cong: "List.map_filter (trimmed_opt \<circ> oe_google_sub) es = List.map_filter oe_google_sub es"
    "List.map_filter email_key es = List.map_filter oe_google_email es"
    using truthy(3,4) by (auto intro!: map_filter_eq)
  have d: "distinct (map oe_owner_id es)" "distinct (List.map_filter oe_google_sub es)" "distinct (List.map_filter oe_google_email es)"
    using loop_distinct [OF raw(2)] unfolding cong by auto
  have sub: "find (\<lambda>x. truthy_str (oe_google_sub x) \<and> oe_google_sub x = Some k) es = find (\<lambda>x. oe_google_sub x = Some k) es" for k
    using truthy(1) by (intro find_cong) auto
  have email: "find (\<lambda>x. truthy_str (oe_google_email x) \<and> oe_google_email x = Some k) es = find (\<lambda>x. oe_google_email x = Some k) es" for k
    using truthy(2) by (intro find_cong) auto
  have "lower (trim (cl_email claims)) \<noteq> []" if "oe_google_email e = Some (lower (trim (cl_email claims)))"
    using truthy(2) [OF assms(2)] that by (auto simp: truthy_str_def)
  then show ?thesis
    using d(1) find_unique_key [OF d(2) assms(2)] find_unique_key [OF d(3) assms(2)]
    by (auto simp: ownerIdsFromOperators_def resolveOwnerIdFromOperators_def sub email Let_def split: option.split dest: tbl_find_Some_in [unfolded tbl_find_def])
qed

definition example_operators :: json where
  "example_operators = JObj [(''operators'', JArr
    [JObj [(''owner_id'', JStr ''ann''), (''google_sub'', JStr ''1'')],
     JObj [(''owner_id'', JStr ''bob''), (''google_email'', JStr '' Bob@x.org ''), (''role'', JStr ''admin'')]])]"

theorem allow_list_identifies_operators_witness:
  "\<exists>es. parseOperatorsDocument (\<lambda>_. True) example_operators = Inr es \<and>
     resolveOwnerIdFromOperators es \<lparr>cl_googleSub = ''2'', cl_email = ''BOB@x.org''\<rparr> = Some ''bob''"
proof -
  let ?bob = "\<lparr>oe_owner_id = ''bob'', oe_google_sub = None, oe_google_email = Some ''bob@x.org'', oe_role = Some Admin\<rparr>"
  let ?es = "[\<lparr>oe_owner_id = ''ann'', oe_google_sub = Some ''1'', oe_google_email = None, oe_role = None\<rparr>, ?bob]"
  have p: "parseOperatorsDocument (\<lambda>_. True) example_operators = Inr ?es" by code_simp
  have "oe_google_email ?bob = Some (lower (trim ''BOB@x.org''))" by code_simp
  then show ?thesis
    using p allow_list_identifies_operators [OF p, of ?bob "\<lparr>cl_googleSub = ''2'', cl_email = ''BOB@x.org''\<rparr>"] by simp
qed

end
