(* ===== verification/FudaStore.thy ===== *)
theory FudaStore
  imports Operators RunAttempt Histories
begin

text \<open>
  The tables of Fuda, the registry of identities, and the statements on them:
  \<^verbatim>\<open>apps/fuda/src/owners/pg-owner-repository.ts\<close>, \<^verbatim>\<open>agents/pg-agent-repository.ts\<close> and
  \<^verbatim>\<open>bearers/pg-bearer-repository.ts\<close>. A statement is one step, and so is a transaction; what other
  processes do between two statements of a handler is the list \<open>fw_others\<close> of the world. Instants
  are milliseconds, \<open>loc\<close> is the collation of the database.
\<close>

section \<open>Tables\<close>

datatype owner_status = ActiveOwner | DisabledOwner

record owner_row =
  ow_id :: string
  ow_created_at :: int
  ow_updated_at :: int
  ow_status :: owner_status
  ow_role :: operator_role
  ow_idp_issuer :: "string option"
  ow_idp_sub :: "string option"
  ow_email :: "string option"
  ow_display_name :: "string option"
  ow_picture_url :: "string option"

record owner_identity =
  oi_issuer :: string
  oi_sub :: string
  oi_email :: string
  oi_displayName :: "string option"
  oi_pictureUrl :: "string option"

record agent_row =
  ag_id :: string
  ag_slug :: string
  ag_name :: string
  ag_owner_id :: string
  ag_groups :: "string list"
  ag_default_model_id :: "string option"
  ag_emoji :: "string option"
  ag_persona_version :: int
  ag_created_at :: int
  ag_updated_at :: int

record persona_row =
  pv_agent_id :: string
  pv_version :: int
  pv_content :: string
  pv_created_at :: int

record bearer_row =
  br_id :: string
  br_display_name :: string

record fuda_db =
  fb_owners :: "owner_row list"
  fb_agents :: "agent_row list"
  fb_personas :: "persona_row list"
  fb_bearers :: "bearer_row list"
  fb_grants :: "(string \<times> string) list"

text \<open>Errors of the driver carry the constraint and its detail.\<close>

datatype fuda_exn =
    UniqueViolation string string
  | ForeignKeyViolation string
  | FudaError string

type_synonym 'a fuda_stmt = "(fuda_db, fuda_exn, 'a) comp"

definition key_detail :: "string \<Rightarrow> string \<Rightarrow> string" where
  "key_detail columns vals = ''Key ('' @ columns @ '')=('' @ vals @ '') already exists.''"

definition isUniqueViolation :: "fuda_exn \<Rightarrow> string option \<Rightarrow> bool" where
  "isUniqueViolation e hint =
    (case e of
       UniqueViolation c detail \<Rightarrow>
         (case hint of None \<Rightarrow> True
          | Some h \<Rightarrow> str_includes h (c @ '' '' @ detail @ '' duplicate key value violates unique constraint \"'' @ c @ ''\"''))
     | _ \<Rightarrow> False)"

definition isForeignKeyViolation :: "fuda_exn \<Rightarrow> bool" where
  "isForeignKeyViolation e = (case e of ForeignKeyViolation _ \<Rightarrow> True | _ \<Rightarrow> False)"

section \<open>Owners\<close>

definition owner_of :: "string \<Rightarrow> fuda_db \<Rightarrow> owner_row option" where
  "owner_of i db = tbl_find (\<lambda>r. ow_id r = i) (fb_owners db)"

definition has_idp :: "string \<Rightarrow> string \<Rightarrow> owner_row \<Rightarrow> bool" where
  "has_idp issuer sub r \<longleftrightarrow> ow_idp_issuer r = Some issuer \<and> ow_idp_sub r = Some sub"

definition getByIdp :: "string \<Rightarrow> string \<Rightarrow> fuda_db \<Rightarrow> owner_row option" where
  "getByIdp issuer sub db = tbl_find (has_idp issuer sub) (fb_owners db)"

definition getUnboundByEmail :: "string \<Rightarrow> fuda_db \<Rightarrow> owner_row option" where
  "getUnboundByEmail email db =
    (case sort_by (\<lambda>l r. ow_created_at l \<le> ow_created_at r)
        (filter (\<lambda>r. map_option lower (ow_email r) = Some (lower email) \<and> ow_idp_sub r = None) (fb_owners db)) of
       [] \<Rightarrow> None | r # _ \<Rightarrow> Some r)"

definition list_owners :: "locale_le \<Rightarrow> fuda_db \<Rightarrow> owner_row list" where
  "list_owners loc db = sort_by (\<lambda>l r. loc (ow_id l) (ow_id r)) (fb_owners db)"

definition isActiveAdmin :: "owner_row \<Rightarrow> bool" where
  "isActiveAdmin r \<longleftrightarrow> ow_status r = ActiveOwner \<and> ow_role r = Admin"

definition countActiveAdmins :: "fuda_db \<Rightarrow> nat" where
  "countActiveAdmins db = tbl_count isActiveAdmin (fb_owners db)"

definition seeded_owner :: "string \<Rightarrow> operator_role \<Rightarrow> int \<Rightarrow> owner_row" where
  "seeded_owner i role now =
    \<lparr>ow_id = i, ow_created_at = now, ow_updated_at = now, ow_status = ActiveOwner, ow_role = role, ow_idp_issuer = None,
     ow_idp_sub = None, ow_email = None, ow_display_name = None, ow_picture_url = None\<rparr>"

definition insert_owner_if_missing :: "string \<Rightarrow> operator_role \<Rightarrow> int \<Rightarrow> unit fuda_stmt" where
  "insert_owner_if_missing i role now db =
    (Inr (), if owner_of i db = None then db\<lparr>fb_owners := fb_owners db @ [seeded_owner i role now]\<rparr> else db)"

definition update_owners :: "(owner_row \<Rightarrow> bool) \<Rightarrow> (owner_row \<Rightarrow> owner_row) \<Rightarrow> fuda_db \<Rightarrow> fuda_db" where
  "update_owners P f db = db\<lparr>fb_owners := tbl_update P f (fb_owners db)\<rparr>"

definition set_owner_role :: "string \<Rightarrow> operator_role \<Rightarrow> int \<Rightarrow> unit fuda_stmt" where
  "set_owner_role i role now db =
    (Inr (), update_owners (\<lambda>r. ow_id r = i \<and> ow_role r \<noteq> role) (\<lambda>r. r\<lparr>ow_role := role, ow_updated_at := now\<rparr>) db)"

definition setEmailIfAbsent :: "string \<Rightarrow> string \<Rightarrow> int \<Rightarrow> unit fuda_stmt" where
  "setEmailIfAbsent i email now db =
    (Inr (), update_owners (\<lambda>r. ow_id r = i \<and> ow_email r = None) (\<lambda>r. r\<lparr>ow_email := Some email, ow_updated_at := now\<rparr>) db)"

definition provisioned_owner :: "string \<Rightarrow> owner_identity \<Rightarrow> operator_role \<Rightarrow> int \<Rightarrow> owner_row" where
  "provisioned_owner i idn role now =
    \<lparr>ow_id = i, ow_created_at = now, ow_updated_at = now, ow_status = ActiveOwner, ow_role = role,
     ow_idp_issuer = Some (oi_issuer idn), ow_idp_sub = Some (oi_sub idn), ow_email = Some (oi_email idn),
     ow_display_name = oi_displayName idn, ow_picture_url = oi_pictureUrl idn\<rparr>"

definition idp_taken :: "owner_identity \<Rightarrow> fuda_exn" where
  "idp_taken idn = UniqueViolation ''owners_idp_identity_key'' (key_detail ''idp_issuer, idp_sub'' (oi_issuer idn @ '', '' @ oi_sub idn))"

definition insertProvisioned :: "string \<Rightarrow> owner_identity \<Rightarrow> operator_role \<Rightarrow> int \<Rightarrow> owner_row fuda_stmt" where
  "insertProvisioned i idn role now db =
    (if owner_of i db \<noteq> None then (Inl (UniqueViolation ''owners_pkey'' (key_detail ''owner_id'' i)), db)
     else if getByIdp (oi_issuer idn) (oi_sub idn) db \<noteq> None then (Inl (idp_taken idn), db)
     else (Inr (provisioned_owner i idn role now), db\<lparr>fb_owners := fb_owners db @ [provisioned_owner i idn role now]\<rparr>))"

text \<open>\<open>COALESCE(new, old)\<close>.\<close>

definition identified :: "owner_identity \<Rightarrow> int \<Rightarrow> owner_row \<Rightarrow> owner_row" where
  "identified idn now r =
    r\<lparr>ow_idp_issuer := Some (oi_issuer idn), ow_idp_sub := Some (oi_sub idn), ow_email := Some (oi_email idn),
      ow_display_name := (case oi_displayName idn of None \<Rightarrow> ow_display_name r | n \<Rightarrow> n),
      ow_picture_url := (case oi_pictureUrl idn of None \<Rightarrow> ow_picture_url r | p \<Rightarrow> p), ow_updated_at := now\<rparr>"

definition updateIdentity :: "string \<Rightarrow> owner_identity \<Rightarrow> int \<Rightarrow> owner_row option fuda_stmt" where
  "updateIdentity i idn now db =
    (case owner_of i db of
       None \<Rightarrow> (Inr None, db)
     | Some r \<Rightarrow>
         if (\<exists>x \<in> set (fb_owners db). ow_id x \<noteq> i \<and> has_idp (oi_issuer idn) (oi_sub idn) x) then (Inl (idp_taken idn), db)
         else (Inr (Some (identified idn now r)), update_owners (\<lambda>r. ow_id r = i) (identified idn now) db))"

definition write_owner :: "string \<Rightarrow> owner_status \<Rightarrow> operator_role \<Rightarrow> int \<Rightarrow> owner_row option fuda_stmt" where
  "write_owner i status role now db =
    (let f = (\<lambda>r. r\<lparr>ow_status := status, ow_role := role, ow_updated_at := now\<rparr>) in
     (Inr (map_option f (owner_of i db)), update_owners (\<lambda>r. ow_id r = i) f db))"

definition delete_owner_row :: "string \<Rightarrow> bool fuda_stmt" where
  "delete_owner_row i db =
    (Inr (owner_of i db \<noteq> None), db\<lparr>fb_owners := tbl_delete (\<lambda>r. ow_id r = i) (fb_owners db)\<rparr>)"

section \<open>Agents\<close>

record create_agent_input =
  ca_id :: "string option"
  ca_slug :: string
  ca_name :: string
  ca_ownerId :: string
  ca_groups :: "string list"
  ca_persona :: string
  ca_defaultModelId :: "string option"
  ca_emoji :: "string option"

definition get_agent :: "string \<Rightarrow> fuda_db \<Rightarrow> agent_row option" where
  "get_agent i db = tbl_find (\<lambda>r. ag_id r = i) (fb_agents db)"

definition getBySlug :: "string \<Rightarrow> fuda_db \<Rightarrow> agent_row option" where
  "getBySlug slug db = tbl_find (\<lambda>r. ag_slug r = slug) (fb_agents db)"

definition list_agents :: "locale_le \<Rightarrow> fuda_db \<Rightarrow> agent_row list" where
  "list_agents loc db = sort_by (\<lambda>l r. loc (ag_slug l) (ag_slug r)) (fb_agents db)"

definition new_agent :: "create_agent_input \<Rightarrow> string \<Rightarrow> int \<Rightarrow> agent_row" where
  "new_agent input i now =
    \<lparr>ag_id = i, ag_slug = ca_slug input, ag_name = ca_name input, ag_owner_id = ca_ownerId input, ag_groups = ca_groups input,
     ag_default_model_id = ca_defaultModelId input, ag_emoji = ca_emoji input, ag_persona_version = 1,
     ag_created_at = now, ag_updated_at = now\<rparr>"

definition create_agent :: "create_agent_input \<Rightarrow> string \<Rightarrow> int \<Rightarrow> agent_row fuda_stmt" where
  "create_agent input uuid now db =
    (let i = or_else (ca_id input) uuid; a = new_agent input i now in
     if get_agent i db \<noteq> None then (Inl (UniqueViolation ''agents_pkey'' (key_detail ''id'' i)), db)
     else if getBySlug (ca_slug input) db \<noteq> None
     then (Inl (UniqueViolation ''agents_slug_key'' (key_detail ''slug'' (ca_slug input))), db)
     else (Inr a, db\<lparr>fb_agents := fb_agents db @ [a],
       fb_personas := fb_personas db @ [\<lparr>pv_agent_id = i, pv_version = 1, pv_content = ca_persona input, pv_created_at = now\<rparr>]\<rparr>))"

text \<open>What the single-column updates write.\<close>

datatype agent_change =
    SetName string
  | SetGroups "string list"
  | SetDefaultModel "string option"
  | SetEmoji "string option"

fun change_agent :: "agent_change \<Rightarrow> agent_row \<Rightarrow> agent_row" where
  "change_agent (SetName n) r = r\<lparr>ag_name := n\<rparr>"
| "change_agent (SetGroups g) r = r\<lparr>ag_groups := g\<rparr>"
| "change_agent (SetDefaultModel m) r = r\<lparr>ag_default_model_id := m\<rparr>"
| "change_agent (SetEmoji e) r = r\<lparr>ag_emoji := e\<rparr>"

definition update_agents :: "(agent_row \<Rightarrow> bool) \<Rightarrow> (agent_row \<Rightarrow> agent_row) \<Rightarrow> fuda_db \<Rightarrow> fuda_db" where
  "update_agents P f db = db\<lparr>fb_agents := tbl_update P f (fb_agents db)\<rparr>"

definition write_agent :: "string \<Rightarrow> agent_change \<Rightarrow> int \<Rightarrow> unit fuda_stmt" where
  "write_agent i c now db = (Inr (), update_agents (\<lambda>r. ag_id r = i) (\<lambda>r. (change_agent c r)\<lparr>ag_updated_at := now\<rparr>) db)"

definition persona_of :: "string \<Rightarrow> int \<Rightarrow> fuda_db \<Rightarrow> persona_row option" where
  "persona_of i v db = tbl_find (\<lambda>p. pv_agent_id p = i \<and> pv_version p = v) (fb_personas db)"

definition appendPersona :: "string \<Rightarrow> string \<Rightarrow> int \<Rightarrow> persona_row option fuda_stmt" where
  "appendPersona i content now db =
    (case get_agent i db of
       None \<Rightarrow> (Inr None, db)
     | Some a \<Rightarrow>
         (let v = ag_persona_version a + 1;
              p = \<lparr>pv_agent_id = i, pv_version = v, pv_content = content, pv_created_at = now\<rparr> in
          if persona_of i v db \<noteq> None then (Inl (UniqueViolation ''persona_versions_pkey'' (key_detail ''agent_id, version'' (i @ '', '' @ digits (nat v)))), db)
          else (Inr (Some p), update_agents (\<lambda>r. ag_id r = i) (\<lambda>r. r\<lparr>ag_persona_version := v, ag_updated_at := now\<rparr>)
                 (db\<lparr>fb_personas := fb_personas db @ [p]\<rparr>))))"

definition list_personas :: "string \<Rightarrow> fuda_db \<Rightarrow> persona_row list" where
  "list_personas i db = sort_by (\<lambda>l r. pv_version r \<le> pv_version l) (filter (\<lambda>p. pv_agent_id p = i) (fb_personas db))"

definition delete_agent :: "string \<Rightarrow> bool fuda_stmt" where
  "delete_agent i db =
    (if get_agent i db = None then (Inr False, db)
     else (Inr True, db\<lparr>fb_agents := tbl_delete (\<lambda>r. ag_id r = i) (fb_agents db),
       fb_personas := tbl_delete (\<lambda>p. pv_agent_id p = i) (fb_personas db),
       fb_grants := tbl_delete (\<lambda>g. snd g = i) (fb_grants db)\<rparr>))"

section \<open>Bearers\<close>

definition get_bearer :: "string \<Rightarrow> fuda_db \<Rightarrow> bearer_row option" where
  "get_bearer i db = tbl_find (\<lambda>r. br_id r = i) (fb_bearers db)"

definition list_bearers :: "locale_le \<Rightarrow> fuda_db \<Rightarrow> bearer_row list" where
  "list_bearers loc db = sort_by (\<lambda>l r. loc (br_id l) (br_id r)) (fb_bearers db)"

definition create_bearer :: "string \<Rightarrow> string \<Rightarrow> bearer_row fuda_stmt" where
  "create_bearer i name db =
    (if get_bearer i db \<noteq> None then (Inl (UniqueViolation ''bearers_pkey'' (key_detail ''bearer_id'' i)), db)
     else (let b = \<lparr>br_id = i, br_display_name = name\<rparr> in (Inr b, db\<lparr>fb_bearers := fb_bearers db @ [b]\<rparr>)))"

definition rename_bearer :: "string \<Rightarrow> string \<Rightarrow> unit fuda_stmt" where
  "rename_bearer i name db =
    (Inr (), db\<lparr>fb_bearers := tbl_update (\<lambda>r. br_id r = i) (\<lambda>r. r\<lparr>br_display_name := name\<rparr>) (fb_bearers db)\<rparr>)"

definition hasGrant :: "string \<Rightarrow> string \<Rightarrow> fuda_db \<Rightarrow> bool" where
  "hasGrant b a db \<longleftrightarrow> (b, a) \<in> set (fb_grants db)"

definition insert_grant :: "bool \<Rightarrow> string \<Rightarrow> string \<Rightarrow> (string \<times> string) fuda_stmt" where
  "insert_grant ifMissing b a db =
    (if hasGrant b a db
     then (if ifMissing then Inr (b, a)
           else Inl (UniqueViolation ''bearer_agent_grants_pkey'' (key_detail ''bearer_id, agent_id'' (b @ '', '' @ a))), db)
     else if get_bearer b db = None then (Inl (ForeignKeyViolation ''bearer_agent_grants_bearer_id_fkey''), db)
     else if get_agent a db = None then (Inl (ForeignKeyViolation ''bearer_agent_grants_agent_id_fkey''), db)
     else (Inr (b, a), db\<lparr>fb_grants := fb_grants db @ [(b, a)]\<rparr>))"

definition revoke :: "string \<Rightarrow> string \<Rightarrow> bool fuda_stmt" where
  "revoke b a db = (Inr (hasGrant b a db), db\<lparr>fb_grants := tbl_delete (\<lambda>g. g = (b, a)) (fb_grants db)\<rparr>)"

definition listGrantsForBearer :: "locale_le \<Rightarrow> string \<Rightarrow> fuda_db \<Rightarrow> (string \<times> string) list" where
  "listGrantsForBearer loc b db = sort_by (\<lambda>l r. loc (snd l) (snd r)) (filter (\<lambda>g. fst g = b) (fb_grants db))"

definition listGrantsForAgent :: "locale_le \<Rightarrow> string \<Rightarrow> fuda_db \<Rightarrow> (string \<times> string) list" where
  "listGrantsForAgent loc a db = sort_by (\<lambda>l r. loc (fst l) (fst r)) (filter (\<lambda>g. snd g = a) (fb_grants db))"

definition delete_bearer :: "string \<Rightarrow> bool fuda_stmt" where
  "delete_bearer i db =
    (if get_bearer i db = None then (Inr False, db)
     else (Inr True, db\<lparr>fb_grants := tbl_delete (\<lambda>g. fst g = i) (fb_grants db),
       fb_bearers := tbl_delete (\<lambda>r. br_id r = i) (fb_bearers db)\<rparr>))"

section \<open>Writes, and what others do\<close>

datatype fuda_write =
    FwInsertOwner string operator_role int
  | FwSetRole string operator_role int
  | FwSetEmail string string int
  | FwProvision string owner_identity operator_role int
  | FwIdentity string owner_identity int
  | FwWriteOwner string owner_status operator_role int
  | FwDeleteOwner string
  | FwCreateAgent create_agent_input string int
  | FwWriteAgent string agent_change int
  | FwAppendPersona string string int
  | FwDeleteAgent string
  | FwCreateBearer string string
  | FwRenameBearer string string
  | FwGrant bool string string
  | FwRevoke string string
  | FwDeleteBearer string

fun run_fuda :: "fuda_write \<Rightarrow> fuda_db \<Rightarrow> fuda_db" where
  "run_fuda (FwInsertOwner i r now) db = snd (insert_owner_if_missing i r now db)"
| "run_fuda (FwSetRole i r now) db = snd (set_owner_role i r now db)"
| "run_fuda (FwSetEmail i e now) db = snd (setEmailIfAbsent i e now db)"
| "run_fuda (FwProvision i idn r now) db = snd (insertProvisioned i idn r now db)"
| "run_fuda (FwIdentity i idn now) db = snd (updateIdentity i idn now db)"
| "run_fuda (FwWriteOwner i s r now) db = snd (write_owner i s r now db)"
| "run_fuda (FwDeleteOwner i) db = snd (delete_owner_row i db)"
| "run_fuda (FwCreateAgent input u now) db = snd (create_agent input u now db)"
| "run_fuda (FwWriteAgent i c now) db = snd (write_agent i c now db)"
| "run_fuda (FwAppendPersona i c now) db = snd (appendPersona i c now db)"
| "run_fuda (FwDeleteAgent i) db = snd (delete_agent i db)"
| "run_fuda (FwCreateBearer i n) db = snd (create_bearer i n db)"
| "run_fuda (FwRenameBearer i n) db = snd (rename_bearer i n db)"
| "run_fuda (FwGrant m b a) db = snd (insert_grant m b a db)"
| "run_fuda (FwRevoke b a) db = snd (revoke b a db)"
| "run_fuda (FwDeleteBearer i) db = snd (delete_bearer i db)"

text \<open>\<open>fw_others\<close>: what the other processes write before each of the next statements.\<close>

record fuda_world =
  fw_db :: fuda_db
  fw_others :: "fuda_write list list"

type_synonym 'a fuda_comp = "(fuda_world, fuda_exn, 'a) comp"

definition interfere :: "fuda_world \<Rightarrow> fuda_world" where
  "interfere w = \<lparr>fw_db = run_ops run_fuda (case fw_others w of [] \<Rightarrow> [] | xs # _ \<Rightarrow> xs) (fw_db w), fw_others = tl (fw_others w)\<rparr>"

definition stmt :: "'a fuda_stmt \<Rightarrow> 'a fuda_comp" where
  "stmt m w = (let w' = interfere w in case m (fw_db w') of (r, db) \<Rightarrow> (r, w'\<lparr>fw_db := db\<rparr>))"

definition query :: "(fuda_db \<Rightarrow> 'a) \<Rightarrow> 'a fuda_comp" where
  "query f = stmt (\<lambda>db. (Inr (f db), db))"

section \<open>The tables stay consistent\<close>

definition idp_key :: "owner_row \<Rightarrow> (string \<times> string) option" where
  "idp_key r = (case (ow_idp_issuer r, ow_idp_sub r) of (Some i, Some s) \<Rightarrow> Some (i, s) | _ \<Rightarrow> None)"

definition owners_wf :: "owner_row list \<Rightarrow> bool" where
  "owners_wf t \<longleftrightarrow> distinct (map ow_id t) \<and>
     (\<forall>r \<in> set t. \<forall>s \<in> set t. \<forall>k. idp_key r = Some k \<longrightarrow> idp_key s = Some k \<longrightarrow> r = s)"

definition personas_of :: "string \<Rightarrow> persona_row list \<Rightarrow> int set" where
  "personas_of i ps = pv_version ` {p \<in> set ps. pv_agent_id p = i}"

text \<open>The personas of an agent are its versions from the first to the current one.\<close>

definition agents_wf :: "agent_row list \<Rightarrow> persona_row list \<Rightarrow> bool" where
  "agents_wf t ps \<longleftrightarrow> distinct (map ag_id t) \<and> distinct (map ag_slug t) \<and>
     distinct (map (\<lambda>p. (pv_agent_id p, pv_version p)) ps) \<and>
     (\<forall>p \<in> set ps. pv_agent_id p \<in> ag_id ` set t) \<and>
     (\<forall>a \<in> set t. 1 \<le> ag_persona_version a \<and> personas_of (ag_id a) ps = {1..ag_persona_version a})"

definition grants_wf :: "agent_row list \<Rightarrow> bearer_row list \<Rightarrow> (string \<times> string) list \<Rightarrow> bool" where
  "grants_wf t bs gs \<longleftrightarrow> distinct (map br_id bs) \<and> distinct gs \<and>
     (\<forall>g \<in> set gs. fst g \<in> br_id ` set bs \<and> snd g \<in> ag_id ` set t)"

definition fuda_wf :: "fuda_db \<Rightarrow> bool" where
  "fuda_wf db \<longleftrightarrow> owners_wf (fb_owners db) \<and> agents_wf (fb_agents db) (fb_personas db) \<and>
     grants_wf (fb_agents db) (fb_bearers db) (fb_grants db)"

lemma has_idp_key: "has_idp i s r \<longleftrightarrow> idp_key r = Some (i, s)"
  by (auto simp: has_idp_def idp_key_def split: option.splits)

lemma owners_wfI:
  assumes "distinct (map ow_id t)"
    and "\<And>r s k. r \<in> set t \<Longrightarrow> s \<in> set t \<Longrightarrow> idp_key r = Some k \<Longrightarrow> idp_key s = Some k \<Longrightarrow> r = s"
  shows "owners_wf t"
  using assms unfolding owners_wf_def by blast

lemma owners_wfD: "owners_wf t \<Longrightarrow> r \<in> set t \<Longrightarrow> s \<in> set t \<Longrightarrow> idp_key r = Some k \<Longrightarrow> idp_key s = Some k \<Longrightarrow> r = s"
  unfolding owners_wf_def by blast

lemma owners_wf_distinct: "owners_wf t \<Longrightarrow> distinct (map ow_id t)"
  by (simp add: owners_wf_def)

lemma owners_wf_append:
  assumes "owners_wf t" "ow_id r \<notin> ow_id ` set t" "idp_key r = None \<or> (\<forall>x \<in> set t. idp_key x \<noteq> idp_key r)"
  shows "owners_wf (t @ [r])"
proof (rule owners_wfI)
  show "distinct (map ow_id (t @ [r]))" using assms(2) owners_wf_distinct [OF assms(1)] by simp
  have free: "idp_key x \<noteq> Some k" if "x \<in> set t" "idp_key r = Some k" for x k using assms(3) that by force
  fix x y k
  assume "x \<in> set (t @ [r])" "y \<in> set (t @ [r])" "idp_key x = Some k" "idp_key y = Some k"
  then show "x = y" using owners_wfD [OF assms(1), of x y k] free [of x k] free [of y k] by auto
qed

lemma owners_wf_update:
  assumes "owners_wf t" "\<And>r. ow_id (f r) = ow_id r" "\<And>r. r \<in> set t \<Longrightarrow> P r \<Longrightarrow> idp_key (f r) = idp_key r"
  shows "owners_wf (tbl_update P f t)"
proof (rule owners_wfI)
  show "distinct (map ow_id (tbl_update P f t))"
    using owners_wf_distinct [OF assms(1)] map_key_tbl_update [of ow_id f P t] assms(2) by simp
  fix r s k
  assume r: "r \<in> set (tbl_update P f t)" and s: "s \<in> set (tbl_update P f t)" and k: "idp_key r = Some k" "idp_key s = Some k"
  obtain r0 where r0: "r0 \<in> set t" "r = (if P r0 then f r0 else r0)" using r by (auto simp: tbl_simps)
  obtain s0 where s0: "s0 \<in> set t" "s = (if P s0 then f s0 else s0)" using s by (auto simp: tbl_simps)
  have "idp_key r = idp_key r0" "idp_key s = idp_key s0" using r0 s0 assms(3) by auto
  then have "r0 = s0" using owners_wfD [OF assms(1) r0(1) s0(1)] k by metis
  then show "r = s" using r0 s0 by simp
qed

lemma provisioned_keys: "ow_id (provisioned_owner i idn r now) = i"
  "idp_key (provisioned_owner i idn r now) = Some (oi_issuer idn, oi_sub idn)"
  by (simp_all add: provisioned_owner_def idp_key_def)

lemma seeded_keys: "ow_id (seeded_owner i r now) = i" "idp_key (seeded_owner i r now) = None"
  by (simp_all add: seeded_owner_def idp_key_def)

lemma idp_key_identified: "idp_key (identified idn now r) = Some (oi_issuer idn, oi_sub idn)"
  by (simp add: idp_key_def identified_def)

lemma identified_id [simp]: "ow_id (identified idn now r) = ow_id r"
  "ow_status (identified idn now r) = ow_status r" "ow_role (identified idn now r) = ow_role r"
  by (simp_all add: identified_def)

lemma owners_wf_identity:
  assumes "owners_wf t" "\<not> (\<exists>x \<in> set t. ow_id x \<noteq> i \<and> has_idp (oi_issuer idn) (oi_sub idn) x)"
  shows "owners_wf (tbl_update (\<lambda>r. ow_id r = i) (identified idn now) t)"
proof (rule owners_wfI)
  have d: "distinct (map ow_id t)" by (rule owners_wf_distinct [OF assms(1)])
  then show "distinct (map ow_id (tbl_update (\<lambda>r. ow_id r = i) (identified idn now) t))"
    using map_key_tbl_update [of ow_id "identified idn now" "\<lambda>r. ow_id r = i" t] by simp
  let ?f = "\<lambda>r. if ow_id r = i then identified idn now r else r"
  fix r s k
  assume r: "r \<in> set (tbl_update (\<lambda>r. ow_id r = i) (identified idn now) t)"
    and s: "s \<in> set (tbl_update (\<lambda>r. ow_id r = i) (identified idn now) t)" and k: "idp_key r = Some k" "idp_key s = Some k"
  obtain r0 where r0: "r0 \<in> set t" "r = ?f r0" using r by (auto simp: tbl_simps)
  obtain s0 where s0: "s0 \<in> set t" "s = ?f s0" using s by (auto simp: tbl_simps)
  have free: "idp_key x \<noteq> Some (oi_issuer idn, oi_sub idn)" if "x \<in> set t" "ow_id x \<noteq> i" for x
    using assms(2) that unfolding has_idp_key by blast
  have eq: "idp_key x = Some k \<Longrightarrow> idp_key (identified idn now y) = Some k \<Longrightarrow> idp_key x = Some (oi_issuer idn, oi_sub idn)" for x y
    by (simp add: idp_key_identified)
  show "r = s"
  proof (cases "ow_id r0 = i"; cases "ow_id s0 = i")
    assume "ow_id r0 = i" "ow_id s0 = i"
    then show ?thesis using r0 s0 distinct_key_unique [OF d r0(1) s0(1)] by simp
  next
    assume "ow_id r0 \<noteq> i" "ow_id s0 \<noteq> i"
    then show ?thesis using r0 s0 k owners_wfD [OF assms(1) r0(1) s0(1)] by simp
  qed (use r0 s0 k free eq in auto)
qed

lemma owners_wf_delete: "owners_wf t \<Longrightarrow> owners_wf (tbl_delete P t)"
  by (rule owners_wfI) (auto simp: tbl_simps intro: distinct_map_tbl_delete owners_wf_distinct dest: owners_wfD)

lemma grants_wf_agents: "grants_wf t bs gs \<Longrightarrow> ag_id ` set t \<subseteq> ag_id ` set t' \<Longrightarrow> grants_wf t' bs gs"
  by (auto simp: grants_wf_def)

lemma agents_wf_update:
  assumes "agents_wf t ps" "\<And>r. ag_id (f r) = ag_id r" "\<And>r. ag_slug (f r) = ag_slug r" "\<And>r. ag_persona_version (f r) = ag_persona_version r"
  shows "agents_wf (tbl_update P f t) ps"
proof -
  have ids: "map ag_id (tbl_update P f t) = map ag_id t" "map ag_slug (tbl_update P f t) = map ag_slug t"
    using assms(2,3) by (simp_all add: map_key_tbl_update)
  then have "ag_id ` set (tbl_update P f t) = ag_id ` set t" by (metis list.set_map)
  moreover have "1 \<le> ag_persona_version x \<and> personas_of (ag_id x) ps = {1..ag_persona_version x}"
    if x: "x \<in> set (tbl_update P f t)" for x
  proof -
    obtain y where "y \<in> set t" "x = (if P y then f y else y)" using x by (auto simp: tbl_simps)
    then show ?thesis using assms by (cases "P y") (simp_all add: agents_wf_def)
  qed
  ultimately show ?thesis using assms(1) ids by (simp add: agents_wf_def)
qed

lemma agent_ids_update: "(\<And>r. ag_id (f r) = ag_id r) \<Longrightarrow> ag_id ` set (tbl_update P f t) = ag_id ` set t"
  using map_key_tbl_update [of ag_id f P t] by (metis list.set_map)

lemma no_personas: "agents_wf t ps \<Longrightarrow> i \<notin> ag_id ` set t \<Longrightarrow> personas_of i ps = {}"
  by (auto simp: agents_wf_def personas_of_def)

lemma personas_append: "personas_of i (ps @ [p]) = (if pv_agent_id p = i then insert (pv_version p) (personas_of i ps) else personas_of i ps)"
  by (auto simp: personas_of_def)

lemma agents_wf_create:
  assumes "agents_wf t ps" "ag_id a \<notin> ag_id ` set t" "ag_slug a \<notin> ag_slug ` set t" "ag_persona_version a = 1"
    and "pv_agent_id p = ag_id a" "pv_version p = 1"
  shows "agents_wf (t @ [a]) (ps @ [p])"
  using assms no_personas [OF assms(1,2)]
  unfolding agents_wf_def by (force simp: personas_append)

lemma agents_wf_persona:
  assumes "agents_wf t ps" "a \<in> set t" "pv_agent_id p = ag_id a" "pv_version p = ag_persona_version a + 1"
  shows "agents_wf (tbl_update (\<lambda>r. ag_id r = ag_id a) (\<lambda>r. r\<lparr>ag_persona_version := ag_persona_version a + 1, ag_updated_at := now\<rparr>) t) (ps @ [p])"
proof -
  let ?f = "\<lambda>r. r\<lparr>ag_persona_version := ag_persona_version a + 1, ag_updated_at := now\<rparr>"
  let ?t = "tbl_update (\<lambda>r. ag_id r = ag_id a) ?f t"
  have d: "distinct (map ag_id t)" and pers: "personas_of (ag_id a) ps = {1..ag_persona_version a}" "1 \<le> ag_persona_version a"
    using assms(1,2) by (auto simp: agents_wf_def)
  have one: "x = a" if "x \<in> set t" "ag_id x = ag_id a" for x by (rule distinct_key_unique [OF d that(1) assms(2) that(2)])
  have "pv_version p \<notin> personas_of (ag_id a) ps" using pers assms(4) by simp
  then have "(pv_agent_id p, pv_version p) \<notin> (\<lambda>p. (pv_agent_id p, pv_version p)) ` set ps"
    using assms(3) by (auto simp: personas_of_def)
  then have keys: "distinct (map (\<lambda>p. (pv_agent_id p, pv_version p)) (ps @ [p]))"
    using assms(1) by (simp add: agents_wf_def)
  have ids: "map ag_id ?t = map ag_id t" "map ag_slug ?t = map ag_slug t" by (rule map_key_tbl_update, simp)+
  have "1 \<le> ag_persona_version x \<and> personas_of (ag_id x) (ps @ [p]) = {1..ag_persona_version x}" if x: "x \<in> set ?t" for x
  proof -
    obtain y where y: "y \<in> set t" "x = (if ag_id y = ag_id a then ?f y else y)" using x by (auto simp: tbl_simps)
    have "{1..ag_persona_version a + 1} = insert (ag_persona_version a + 1) {1..ag_persona_version a}" using pers(2) by auto
    then show ?thesis
      using y assms(1,3,4) pers by (cases "ag_id y = ag_id a") (auto simp: personas_append agents_wf_def)
  qed
  moreover have "\<forall>q \<in> set (ps @ [p]). pv_agent_id q \<in> ag_id ` set ?t"
    using assms(1-3) ids(1) by (metis (no_types, lifting) agents_wf_def image_eqI list.set_map set_ConsD rotate1.simps(2) set_rotate1)
  ultimately show ?thesis
    using keys ids d assms(1) by (simp add: agents_wf_def)
qed

lemma agents_wf_delete:
  assumes "agents_wf t ps"
  shows "agents_wf (tbl_delete (\<lambda>r. ag_id r = i) t) (tbl_delete (\<lambda>p. pv_agent_id p = i) ps)"
proof -
  have "personas_of j (tbl_delete (\<lambda>p. pv_agent_id p = i) ps) = personas_of j ps" if "j \<noteq> i" for j
    using that by (auto simp: personas_of_def tbl_simps)
  then show ?thesis using assms by (auto simp: agents_wf_def tbl_simps intro: distinct_map_tbl_delete)
qed

lemma get_agent_None: "get_agent i db = None \<longleftrightarrow> i \<notin> ag_id ` set (fb_agents db)"
  by (auto simp: get_agent_def tbl_simps)

lemma get_agent_Some: "get_agent i db = Some a \<Longrightarrow> a \<in> set (fb_agents db) \<and> ag_id a = i"
  unfolding get_agent_def by (rule tbl_find_Some_in)

lemma owner_of_None: "owner_of i db = None \<longleftrightarrow> i \<notin> ow_id ` set (fb_owners db)"
  by (auto simp: owner_of_def tbl_simps)

lemma owner_of_Some: "owner_of i db = Some r \<Longrightarrow> r \<in> set (fb_owners db) \<and> ow_id r = i"
  unfolding owner_of_def by (rule tbl_find_Some_in)

lemma getByIdp_None: "getByIdp i s db = None \<longleftrightarrow> (\<forall>r \<in> set (fb_owners db). idp_key r \<noteq> Some (i, s))"
  by (simp add: getByIdp_def tbl_simps has_idp_key)

lemma change_agent_keeps [simp]: "ag_id (change_agent c r) = ag_id r" "ag_slug (change_agent c r) = ag_slug r"
  "ag_persona_version (change_agent c r) = ag_persona_version r" "ag_owner_id (change_agent c r) = ag_owner_id r"
  by (cases c; simp)+

lemma owner_update_wf:
  assumes "fuda_wf db" "\<And>r. ow_id (f r) = ow_id r" "\<And>r. idp_key (f r) = idp_key r"
  shows "fuda_wf (update_owners P f db)"
  using assms owners_wf_update [of "fb_owners db" f P] by (simp add: fuda_wf_def update_owners_def)

lemma idp_key_cong [simp]: "idp_key (r\<lparr>ow_role := x, ow_updated_at := n\<rparr>) = idp_key r"
  "idp_key (r\<lparr>ow_email := e, ow_updated_at := n\<rparr>) = idp_key r"
  "idp_key (r\<lparr>ow_role := x\<rparr>) = idp_key r" "idp_key (r\<lparr>ow_email := e\<rparr>) = idp_key r"
  "idp_key (r\<lparr>ow_updated_at := n\<rparr>) = idp_key r" "idp_key (r\<lparr>ow_status := st\<rparr>) = idp_key r"
  by (simp_all add: idp_key_def)

lemma fuda_write_wf:
  assumes "fuda_wf db"
  shows "fuda_wf (run_fuda x db)"
proof (cases x)
  case (FwProvision i idn r now)
  then show ?thesis
    using assms
    by (auto simp: fuda_wf_def insertProvisioned_def owner_of_None getByIdp_None provisioned_keys intro!: owners_wf_append)
next
  case (FwInsertOwner i r now)
  then show ?thesis
    using assms
    by (auto simp: fuda_wf_def insert_owner_if_missing_def owner_of_None seeded_keys intro!: owners_wf_append)
next
  case (FwIdentity i idn now)
  then show ?thesis
    using assms by (auto simp: fuda_wf_def updateIdentity_def update_owners_def split: option.split intro!: owners_wf_identity)
next
  case (FwCreateAgent input u now)
  have "getBySlug (ca_slug input) db = None \<longleftrightarrow> ca_slug input \<notin> ag_slug ` set (fb_agents db)"
    by (auto simp: getBySlug_def tbl_simps image_iff)
  then show ?thesis
    using assms FwCreateAgent
    by (auto simp: fuda_wf_def create_agent_def Let_def get_agent_None new_agent_def intro!: agents_wf_create intro: grants_wf_agents)
next
  case (FwAppendPersona i c now)
  show ?thesis
  proof (cases "get_agent i db")
    case (Some a)
    have "grants_wf (fb_agents db) (fb_bearers db) (fb_grants db) \<Longrightarrow>
      grants_wf (tbl_update (\<lambda>r. ag_id r = i) (\<lambda>r. r\<lparr>ag_persona_version := v, ag_updated_at := now\<rparr>) (fb_agents db)) (fb_bearers db) (fb_grants db)" for v
      by (erule grants_wf_agents) (simp add: agent_ids_update)
    then show ?thesis
      using assms FwAppendPersona Some get_agent_Some [OF Some] agents_wf_persona [of "fb_agents db" "fb_personas db" a _ now]
      by (auto simp: fuda_wf_def appendPersona_def Let_def update_agents_def)
  qed (use assms FwAppendPersona in \<open>simp add: appendPersona_def\<close>)
next
  case (FwWriteAgent i c now)
  have "grants_wf (fb_agents db) bs gs \<Longrightarrow> grants_wf (tbl_update (\<lambda>r. ag_id r = i) (\<lambda>r. (change_agent c r)\<lparr>ag_updated_at := now\<rparr>) (fb_agents db)) bs gs" for bs gs
    by (erule grants_wf_agents) (simp add: agent_ids_update)
  then show ?thesis
    using assms FwWriteAgent by (auto simp: fuda_wf_def write_agent_def update_agents_def intro!: agents_wf_update)
next
  case (FwDeleteAgent i)
  have "grants_wf (fb_agents db) (fb_bearers db) (fb_grants db) \<Longrightarrow>
    grants_wf (tbl_delete (\<lambda>r. ag_id r = i) (fb_agents db)) (fb_bearers db) (tbl_delete (\<lambda>g. snd g = i) (fb_grants db))"
    by (fastforce simp: grants_wf_def tbl_delete_def image_iff)
  then show ?thesis using assms FwDeleteAgent by (auto simp: fuda_wf_def delete_agent_def intro: agents_wf_delete)
next
  case (FwGrant m b a)
  then show ?thesis
    using assms by (auto simp: fuda_wf_def insert_grant_def grants_wf_def hasGrant_def get_agent_None get_bearer_def tbl_simps image_iff)
next
  case (FwDeleteBearer i)
  then show ?thesis
    using assms by (fastforce simp: fuda_wf_def delete_bearer_def grants_wf_def tbl_delete_def image_iff distinct_map_filter)
next
  case (FwRenameBearer i n)
  have m: "map br_id (tbl_update (\<lambda>r. br_id r = i) (\<lambda>r. r\<lparr>br_display_name := n\<rparr>) (fb_bearers db)) = map br_id (fb_bearers db)"
    by (rule map_key_tbl_update) simp
  then have "br_id ` set (tbl_update (\<lambda>r. br_id r = i) (\<lambda>r. r\<lparr>br_display_name := n\<rparr>) (fb_bearers db)) = br_id ` set (fb_bearers db)"
    by (metis list.set_map)
  then show ?thesis using assms FwRenameBearer m by (simp add: fuda_wf_def rename_bearer_def grants_wf_def)
next
  case (FwSetRole i r now)
  then show ?thesis using assms by (auto simp: set_owner_role_def intro!: owner_update_wf)
next
  case (FwSetEmail i e now)
  then show ?thesis using assms by (auto simp: setEmailIfAbsent_def intro!: owner_update_wf)
next
  case (FwWriteOwner i s r now)
  then show ?thesis using assms by (auto simp: write_owner_def Let_def intro!: owner_update_wf)
next
  case (FwDeleteOwner i)
  then show ?thesis using assms by (simp add: fuda_wf_def delete_owner_row_def owners_wf_delete)
next
  case (FwCreateBearer i n)
  then show ?thesis
    using assms by (auto simp: fuda_wf_def create_bearer_def Let_def get_bearer_def grants_wf_def tbl_simps)
next
  case (FwRevoke b a)
  then show ?thesis using assms by (simp add: fuda_wf_def revoke_def grants_wf_def tbl_delete_def)
qed

interpretation fuda: kept run_fuda "\<lambda>_. True" fuda_wf
  by unfold_locales (rule fuda_write_wf)

end
