(* ===== verification/FudaOwners.thy ===== *)
theory FudaOwners
  imports FudaStore TaskSchema Triples
begin

text \<open>
  The owners of Fuda: \<^verbatim>\<open>apps/fuda/src/owners\<close>, with \<^verbatim>\<open>resolve-or-provision-owner.ts\<close> (what a login
  does), \<^verbatim>\<open>delete-owner.ts\<close>, \<^verbatim>\<open>reconcile-owners.ts\<close>, \<^verbatim>\<open>apply-operators-file.ts\<close> and
  \<^verbatim>\<open>owners-management-api.controller.ts\<close>. \<open>wipe\<close> is Torii's deletion of the grants of an owner.
\<close>

section \<open>Owner ids\<close>

definition id_char :: "char \<Rightarrow> bool" where
  "id_char c = (let n = of_char c :: nat in 48 \<le> n \<and> n \<le> 57 \<or> 97 \<le> n \<and> n \<le> 122)"

text \<open>\<open>replace(/[^a-z0-9]+/g, "-")\<close>, \<open>inRun\<close> when the character before was replaced.\<close>

fun dash_runs :: "bool \<Rightarrow> string \<Rightarrow> string" where
  "dash_runs inRun [] = []"
| "dash_runs inRun (c # cs) =
    (if id_char c then c # dash_runs False cs
     else if inRun then dash_runs True cs else CHR ''-'' # dash_runs True cs)"

definition strip_dashes :: "string \<Rightarrow> string" where
  "strip_dashes s = (let p = (\<lambda>c. c = CHR ''-'') in rev (dropWhile p (rev (dropWhile p s))))"

definition deriveOwnerId :: "string \<Rightarrow> string" where
  "deriveOwnerId email =
    (let normalized = strip_dashes (dash_runs False (lower (trim (before_char CHR ''@'' email)))) in
     if normalized = [] then ''user'' else normalized)"

text \<open>The candidates \<open>base-2\<close> to \<open>base-999\<close>.\<close>

fun allocate_loop :: "nat \<Rightarrow> nat \<Rightarrow> string \<Rightarrow> string fuda_comp" where
  "allocate_loop 0 k base = throwM (FudaError (''exhausted owner id candidates for \"'' @ base @ ''\"''))"
| "allocate_loop (Suc n) k base =
    (let candidate = base @ ''-'' @ digits k in
     bindM (query (owner_of candidate)) (\<lambda>found.
     if found = None then returnM candidate else allocate_loop n (Suc k) base))"

definition allocateOwnerId :: "string \<Rightarrow> string fuda_comp" where
  "allocateOwnerId base =
    bindM (query (owner_of base)) (\<lambda>found.
    if found = None then returnM base else allocate_loop 998 2 base)"

section \<open>Login\<close>

record login_input =
  li_identity :: owner_identity
  li_ownerId :: "string option"
  li_role :: "operator_role option"

datatype login_result = LoginOk owner_row | LoginDisabled owner_row

definition identityOf :: "login_input \<Rightarrow> owner_identity" where
  "identityOf input =
    (let idn = li_identity input in
     idn\<lparr>oi_displayName := (if truthy_str (oi_displayName idn) then oi_displayName idn else None),
       oi_pictureUrl := (if truthy_str (oi_pictureUrl idn) then oi_pictureUrl idn else None)\<rparr>)"

definition canBind :: "owner_row \<Rightarrow> owner_identity \<Rightarrow> bool" where
  "canBind r idn \<longleftrightarrow>
    (if \<not> truthy_str (ow_idp_issuer r) \<and> \<not> truthy_str (ow_idp_sub r) then True
     else has_idp (oi_issuer idn) (oi_sub idn) r)"

definition disappeared :: "string \<Rightarrow> fuda_exn" where
  "disappeared i = FudaError (''owner \"'' @ i @ ''\" disappeared during login'')"

text \<open>What both ways to an existing owner end with.\<close>

definition refresh_login :: "owner_row \<Rightarrow> owner_identity \<Rightarrow> int \<Rightarrow> login_result fuda_comp" where
  "refresh_login r idn now =
    (if ow_status r = DisabledOwner then returnM (LoginDisabled r)
     else bindM (stmt (updateIdentity (ow_id r) idn now)) (\<lambda>updated.
       case updated of None \<Rightarrow> throwM (disappeared (ow_id r)) | Some u \<Rightarrow> returnM (LoginOk u)))"

definition bindOrReject :: "owner_row \<Rightarrow> owner_identity \<Rightarrow> int \<Rightarrow> login_result option fuda_comp" where
  "bindOrReject r idn now =
    (if \<not> canBind r idn then returnM None
     else bindM (refresh_login r idn now) (\<lambda>res. returnM (Some res)))"

definition roleForNewOwner :: "operator_role option \<Rightarrow> operator_role fuda_comp" where
  "roleForNewOwner hinted =
    (if hinted = Some Admin then returnM Admin
     else bindM (query countActiveAdmins) (\<lambda>n. returnM (if n = 0 then Admin else Member)))"

definition insertProvisionedOwner :: "string \<Rightarrow> owner_identity \<Rightarrow> operator_role option \<Rightarrow> int \<Rightarrow> owner_row fuda_comp" where
  "insertProvisionedOwner i idn hinted now =
    bindM (roleForNewOwner hinted) (\<lambda>role. stmt (insertProvisioned i idn role now))"

definition resolveExistingByIdp :: "owner_identity \<Rightarrow> int \<Rightarrow> login_result option fuda_comp" where
  "resolveExistingByIdp idn now =
    bindM (query (getByIdp (oi_issuer idn) (oi_sub idn))) (\<lambda>byIdp.
    case byIdp of
      None \<Rightarrow> returnM None
    | Some r \<Rightarrow> bindM (refresh_login r idn now) (\<lambda>res. returnM (Some res)))"

text \<open>The catch after an insert: only a unique violation goes on.\<close>

definition if_raced :: "fuda_exn \<Rightarrow> 'a fuda_comp \<Rightarrow> 'a fuda_comp" where
  "if_raced e m = (if isUniqueViolation e None then m else throwM e)"

definition resolve_hinted :: "string \<Rightarrow> owner_identity \<Rightarrow> operator_role option \<Rightarrow> int \<Rightarrow> login_result option fuda_comp" where
  "resolve_hinted i idn role now =
    bindM (query (owner_of i)) (\<lambda>hinted.
    case hinted of
      Some r \<Rightarrow> bindOrReject r idn now
    | None \<Rightarrow>
        catchM (bindM (insertProvisionedOwner i idn role now) (\<lambda>c. returnM (Some (LoginOk c))))
          (\<lambda>e. if_raced e
            (bindM (resolveExistingByIdp idn now) (\<lambda>raced.
             case raced of
               Some res \<Rightarrow> returnM (Some res)
             | None \<Rightarrow> bindM (query (owner_of i)) (\<lambda>r. case r of None \<Rightarrow> returnM None | Some r' \<Rightarrow> bindOrReject r' idn now)))))"

definition resolve_by_email :: "owner_identity \<Rightarrow> int \<Rightarrow> login_result option fuda_comp" where
  "resolve_by_email idn now =
    bindM (query (getUnboundByEmail (oi_email idn))) (\<lambda>byEmail.
    case byEmail of None \<Rightarrow> returnM None | Some r \<Rightarrow> bindOrReject r idn now)"

fun provision_loop :: "nat \<Rightarrow> string \<Rightarrow> owner_identity \<Rightarrow> operator_role option \<Rightarrow> int \<Rightarrow> login_result fuda_comp" where
  "provision_loop 0 base idn role now = throwM (FudaError (''exhausted owner id retries for \"'' @ base @ ''\"''))"
| "provision_loop (Suc n) base idn role now =
    bindM (allocateOwnerId base) (\<lambda>candidate.
    catchM (bindM (insertProvisionedOwner candidate idn role now) (\<lambda>c. returnM (LoginOk c)))
      (\<lambda>e. if_raced e
        (bindM (resolveExistingByIdp idn now) (\<lambda>raced.
         case raced of Some res \<Rightarrow> returnM res | None \<Rightarrow> provision_loop n base idn role now))))"

definition resolveOrProvisionOwner :: "login_input \<Rightarrow> int \<Rightarrow> login_result fuda_comp" where
  "resolveOrProvisionOwner input now =
    (let idn = identityOf input in
     bindM (resolveExistingByIdp idn now) (\<lambda>existing.
     case existing of
       Some res \<Rightarrow> returnM res
     | None \<Rightarrow>
         bindM (if truthy_str (li_ownerId input) then resolve_hinted (or_else (li_ownerId input) []) idn (li_role input) now
                else resolve_by_email idn now) (\<lambda>bound.
         case bound of
           Some res \<Rightarrow> returnM res
         | None \<Rightarrow> provision_loop 5 (deriveOwnerId (oi_email (li_identity input))) idn (li_role input) now)))"

section \<open>Deleting and seeding owners\<close>

definition upsert_owner :: "string \<Rightarrow> operator_role option \<Rightarrow> int \<Rightarrow> owner_row fuda_comp" where
  "upsert_owner i role now =
    bindM (stmt (insert_owner_if_missing i (or_else role Member) now)) (\<lambda>_.
    bindM (case role of None \<Rightarrow> returnM () | Some r \<Rightarrow> stmt (set_owner_role i r now)) (\<lambda>_.
    bindM (query (owner_of i)) (\<lambda>created.
    case created of
      None \<Rightarrow> throwM (FudaError (''failed to upsert owner \"'' @ i @ ''\"''))
    | Some r \<Rightarrow> returnM r)))"

record delete_owner_result =
  do_agentsDeleted :: nat
  do_oauthGrantsWiped :: bool
  do_tokensDeleted :: int
  do_pendingLinksDeleted :: int

type_synonym grant_wipe = "string \<Rightarrow> (int \<times> int) fuda_comp"

fun delete_agents_of :: "string \<Rightarrow> agent_row list \<Rightarrow> nat fuda_comp" where
  "delete_agents_of i [] = returnM 0"
| "delete_agents_of i (a # rest) =
    (if ag_owner_id a \<noteq> i then delete_agents_of i rest
     else bindM (stmt (delete_agent (ag_id a))) (\<lambda>ok.
       bindM (delete_agents_of i rest) (\<lambda>n. returnM (if ok then Suc n else n))))"

definition deleteOwner :: "locale_le \<Rightarrow> grant_wipe option \<Rightarrow> string \<Rightarrow> delete_owner_result option fuda_comp" where
  "deleteOwner loc wipe i =
    bindM (query (owner_of i)) (\<lambda>existing.
    if existing = None then returnM None
    else bindM (case wipe of None \<Rightarrow> returnM (0, 0) | Some f \<Rightarrow> f i) (\<lambda>(tokens, links).
      bindM (query (list_agents loc)) (\<lambda>agents.
      bindM (delete_agents_of i agents) (\<lambda>n.
      bindM (stmt (delete_owner_row i)) (\<lambda>ok.
      returnM (if ok then Some \<lparr>do_agentsDeleted = n, do_oauthGrantsWiped = (wipe \<noteq> None), do_tokensDeleted = tokens,
        do_pendingLinksDeleted = links\<rparr> else None))))))"

record reconcile_result =
  rc_ownersUpserted :: nat
  rc_ownersDeleted :: nat
  rc_agentsDeleted :: nat

fun upsert_all :: "string list \<Rightarrow> int \<Rightarrow> nat fuda_comp" where
  "upsert_all [] now = returnM 0"
| "upsert_all (i # rest) now =
    bindM (query (owner_of i)) (\<lambda>before.
    bindM (upsert_owner i None now) (\<lambda>_.
    bindM (upsert_all rest now) (\<lambda>n. returnM (if before = None then Suc n else n))))"

fun delete_absent :: "locale_le \<Rightarrow> string list \<Rightarrow> owner_row list \<Rightarrow> (nat \<times> nat) fuda_comp" where
  "delete_absent loc desired [] = returnM (0, 0)"
| "delete_absent loc desired (r # rs) =
    (if ow_id r \<in> set desired then delete_absent loc desired rs
     else bindM (deleteOwner loc None (ow_id r)) (\<lambda>deleted.
       bindM (delete_absent loc desired rs) (\<lambda>(owners, agents).
       returnM (case deleted of None \<Rightarrow> (owners, agents) | Some d \<Rightarrow> (Suc owners, do_agentsDeleted d + agents)))))"

definition reconcileOwners :: "locale_le \<Rightarrow> string list \<Rightarrow> int \<Rightarrow> reconcile_result fuda_comp" where
  "reconcileOwners loc desiredIds now =
    (let desired = set_of desiredIds in
     bindM (upsert_all desired now) (\<lambda>upserted.
     bindM (query (list_owners loc)) (\<lambda>existing.
     bindM (delete_absent loc desired existing) (\<lambda>(owners, agents).
     returnM \<lparr>rc_ownersUpserted = upserted, rc_ownersDeleted = owners, rc_agentsDeleted = agents\<rparr>))))"

definition seed_role :: "operator_entry \<Rightarrow> owner_row option \<Rightarrow> operator_role option fuda_comp" where
  "seed_role e before =
    (if oe_role e = None \<and> before = None
     then bindM (query countActiveAdmins) (\<lambda>n. returnM (if n = 0 then Some Admin else None))
     else returnM (oe_role e))"

fun seedOperators :: "operator_entry list \<Rightarrow> int \<Rightarrow> nat fuda_comp" where
  "seedOperators [] now = returnM 0"
| "seedOperators (e # es) now =
    bindM (query (owner_of (oe_owner_id e))) (\<lambda>before.
    bindM (seed_role e before) (\<lambda>role.
    bindM (upsert_owner (oe_owner_id e) role now) (\<lambda>_.
    bindM (if truthy_str (oe_google_email e)
           then stmt (setEmailIfAbsent (oe_owner_id e) (or_else (oe_google_email e) []) now) else returnM ()) (\<lambda>_.
    bindM (seedOperators es now) (\<lambda>n.
    returnM (if before = None then Suc n else n))))))"

text \<open>\<open>es\<close> are the entries of the file, when a path is configured.\<close>

definition applyOperatorsFile ::
    "locale_le \<Rightarrow> operator_entry list option \<Rightarrow> reconcile_mode \<Rightarrow> int \<Rightarrow> reconcile_result option fuda_comp" where
  "applyOperatorsFile loc file mode now =
    (case file of
       None \<Rightarrow> returnM None
     | Some es \<Rightarrow>
         bindM (seedOperators es now) (\<lambda>seeded.
         if mode = Strict
         then bindM (reconcileOwners loc (ownerIdsFromOperators es) now) (\<lambda>res.
           returnM (Some (res\<lparr>rc_ownersUpserted := seeded\<rparr>)))
         else returnM (Some \<lparr>rc_ownersUpserted = seeded, rc_ownersDeleted = 0, rc_agentsDeleted = 0\<rparr>)))"

section \<open>The management API\<close>

datatype owner_body =
    ErrorBody string
  | DisabledBody string
  | OwnerBody owner_row
  | OwnersBody "owner_row list"
  | DeletedBody string delete_owner_result
  | CleanupFailedBody fuda_exn

type_synonym owner_reply = "nat \<times> owner_body"

definition forbidden :: owner_reply where "forbidden = (403, ErrorBody ''Forbidden'')"
definition owner_not_found :: owner_reply where "owner_not_found = (404, ErrorBody ''owner not found'')"

definition last_admin_error :: string where
  "last_admin_error = ''cannot remove or demote the last active admin''"

definition resolveOrProvisionOwnerBodySchema :: "(string \<Rightarrow> bool) \<Rightarrow> json \<Rightarrow> login_input option" where
  "resolveOrProvisionOwnerBodySchema is_email j =
    (case j of
       JObj kvs \<Rightarrow>
         if \<not> fst ` set kvs \<subseteq> {''idpIssuer'', ''idpSub'', ''email'', ''displayName'', ''pictureUrl'', ''ownerId'', ''role''} then None
         else (case (Option.bind (prop_of ''idpIssuer'' j) nonempty_string, Option.bind (prop_of ''idpSub'' j) nonempty_string,
                 opt_string is_email (prop_of ''email'' j), opt_string (\<lambda>s. s \<noteq> []) (prop_of ''displayName'' j),
                 opt_string (\<lambda>s. s \<noteq> []) (prop_of ''pictureUrl'' j), opt_string (\<lambda>s. s \<noteq> []) (prop_of ''ownerId'' j),
                 opt_string (\<lambda>s. parse_role (Some s) \<noteq> None) (prop_of ''role'' j)) of
             (Some issuer, Some sub, Some (Some email), Some name, Some picture, Some i, Some role) \<Rightarrow>
               Some \<lparr>li_identity = \<lparr>oi_issuer = issuer, oi_sub = sub, oi_email = email, oi_displayName = name, oi_pictureUrl = picture\<rparr>,
                 li_ownerId = i, li_role = parse_role role\<rparr>
           | _ \<Rightarrow> None)
     | _ \<Rightarrow> None)"

definition parse_owner_status :: "string option \<Rightarrow> owner_status option" where
  "parse_owner_status s = (if s = Some ''active'' then Some ActiveOwner else if s = Some ''disabled'' then Some DisabledOwner else None)"

definition updateOwnerBodySchema :: "json \<Rightarrow> (owner_status option \<times> operator_role option) option" where
  "updateOwnerBodySchema j =
    (case j of
       JObj kvs \<Rightarrow>
         if \<not> fst ` set kvs \<subseteq> {''status'', ''role''} then None
         else (case (opt_string (\<lambda>s. parse_owner_status (Some s) \<noteq> None) (prop_of ''status'' j),
                 opt_string (\<lambda>s. parse_role (Some s) \<noteq> None) (prop_of ''role'' j)) of
             (Some status, Some role) \<Rightarrow>
               if status = None \<and> role = None then None else Some (parse_owner_status status, parse_role role)
           | _ \<Rightarrow> None)
     | _ \<Rightarrow> None)"

definition handle_login :: "(string \<Rightarrow> bool) \<Rightarrow> json \<Rightarrow> int \<Rightarrow> owner_reply fuda_comp" where
  "handle_login is_email body now =
    (case resolveOrProvisionOwnerBodySchema is_email body of
       None \<Rightarrow> returnM (400, ErrorBody ''invalid owner'')
     | Some input \<Rightarrow>
         bindM (resolveOrProvisionOwner input now) (\<lambda>res.
         returnM (case res of LoginOk r \<Rightarrow> (200, OwnerBody r) | LoginDisabled r \<Rightarrow> (403, DisabledBody (ow_id r)))))"

definition handle_list_owners :: "locale_le \<Rightarrow> headers \<Rightarrow> owner_reply fuda_comp" where
  "handle_list_owners loc hs =
    (if \<not> AdminOnly hs then returnM forbidden
     else bindM (query (list_owners loc)) (\<lambda>rs. returnM (200, OwnersBody rs)))"

definition handle_get_owner :: "headers \<Rightarrow> string \<Rightarrow> owner_reply fuda_comp" where
  "handle_get_owner hs i =
    (if \<not> AdminOnly hs then returnM forbidden
     else bindM (query (owner_of i)) (\<lambda>r. returnM (case r of None \<Rightarrow> owner_not_found | Some r' \<Rightarrow> (200, OwnerBody r'))))"

definition removesLastActiveAdmin :: "owner_row \<Rightarrow> (owner_status \<times> operator_role) option \<Rightarrow> bool fuda_comp" where
  "removesLastActiveAdmin r nxt =
    (if \<not> isActiveAdmin r then returnM False
     else if nxt = Some (ActiveOwner, Admin) then returnM False
     else bindM (query countActiveAdmins) (\<lambda>n. returnM (n \<le> 1)))"

text \<open>\<open>PgOwnerRepository.update\<close> reads the row, then writes both columns.\<close>

definition update_owner :: "string \<Rightarrow> owner_status option \<Rightarrow> operator_role option \<Rightarrow> int \<Rightarrow> owner_row option fuda_comp" where
  "update_owner i status role now =
    bindM (query (owner_of i)) (\<lambda>existing.
    case existing of
      None \<Rightarrow> returnM None
    | Some r \<Rightarrow> stmt (write_owner i (or_else status (ow_status r)) (or_else role (ow_role r)) now))"

definition handle_update_owner :: "headers \<Rightarrow> string \<Rightarrow> json \<Rightarrow> int \<Rightarrow> owner_reply fuda_comp" where
  "handle_update_owner hs i body now =
    (if \<not> AdminOnly hs then returnM forbidden
     else case updateOwnerBodySchema body of
       None \<Rightarrow> returnM (400, ErrorBody ''invalid owner update'')
     | Some (status, role) \<Rightarrow>
         bindM (query (owner_of i)) (\<lambda>existing.
         case existing of
           None \<Rightarrow> returnM owner_not_found
         | Some r \<Rightarrow>
             (let status' = or_else status (ow_status r); role' = or_else role (ow_role r) in
              bindM (removesLastActiveAdmin r (Some (status', role'))) (\<lambda>last.
              if last then returnM (409, ErrorBody last_admin_error)
              else bindM (update_owner i (Some status') (Some role') now) (\<lambda>u.
                returnM (case u of None \<Rightarrow> owner_not_found | Some u' \<Rightarrow> (200, OwnerBody u')))))))"

definition handle_remove_owner :: "locale_le \<Rightarrow> grant_wipe option \<Rightarrow> headers \<Rightarrow> string \<Rightarrow> owner_reply fuda_comp" where
  "handle_remove_owner loc wipe hs i =
    (if \<not> AdminOnly hs then returnM forbidden
     else bindM (query (owner_of i)) (\<lambda>existing.
       case existing of
         None \<Rightarrow> returnM owner_not_found
       | Some r \<Rightarrow>
           bindM (removesLastActiveAdmin r None) (\<lambda>last.
           if last then returnM (409, ErrorBody last_admin_error)
           else catchM
             (bindM (deleteOwner loc wipe i) (\<lambda>deleted.
              returnM (case deleted of None \<Rightarrow> owner_not_found | Some d \<Rightarrow> (200, DeletedBody i d))))
             (\<lambda>e. returnM (502, CleanupFailedBody e)))))"

section \<open>Statements among the writes of others\<close>

definition others_do :: "(fuda_write \<Rightarrow> bool) \<Rightarrow> fuda_world \<Rightarrow> bool" where
  "others_do ok w \<longleftrightarrow> (\<forall>xs \<in> set (fw_others w). \<forall>x \<in> set xs. ok x)"

definition steady_world :: "(fuda_write \<Rightarrow> bool) \<Rightarrow> (fuda_db \<Rightarrow> bool) \<Rightarrow> fuda_world \<Rightarrow> bool" where
  "steady_world ok I w \<longleftrightarrow> I (fw_db w) \<and> others_do ok w"

lemma interfere_alone [simp]: "fw_others w = [] \<Longrightarrow> interfere w = w"
  by (cases w) (simp add: interfere_def)

lemma others_interfere: "others_do ok w \<Longrightarrow> others_do ok (interfere w)"
  by (cases "fw_others w") (auto simp: others_do_def interfere_def)

lemma wp_stmt: "wp (stmt m) Q E w = (let w' = interfere w in
  case m (fw_db w') of (Inl e, db) \<Rightarrow> E e (w'\<lparr>fw_db := db\<rparr>) | (Inr x, db) \<Rightarrow> Q x (w'\<lparr>fw_db := db\<rparr>))"
  by (auto simp: wp_def stmt_def Let_def split: prod.splits sum.splits)

lemma wp_query: "wp (query f) Q E w = Q (f (fw_db (interfere w))) (interfere w)"
  by (simp add: query_def wp_stmt Let_def)

locale steady = kept run_fuda ok I for ok :: "fuda_write \<Rightarrow> bool" and I :: "fuda_db \<Rightarrow> bool"
begin

lemma steady_interfere: "steady_world ok I w \<Longrightarrow> steady_world ok I (interfere w)"
  using run_keeps [of "fw_db w" "case fw_others w of [] \<Rightarrow> [] | xs # _ \<Rightarrow> xs"] others_interfere [of ok w]
  by (cases "fw_others w") (auto simp: steady_world_def others_do_def interfere_def)

lemma steady_query: "steady_world ok I w \<Longrightarrow> (\<And>w'. steady_world ok I w' \<Longrightarrow> Q (f (fw_db w')) w') \<Longrightarrow> wp (query f) Q E w"
  by (simp add: wp_query steady_interfere)

lemma steady_stmt:
  assumes "steady_world ok I w" "\<And>db. snd (m db) = run_fuda x db" "ok x"
    and "\<And>r w' db. steady_world ok I w' \<Longrightarrow> I db \<Longrightarrow> m db = (Inr r, fw_db w') \<Longrightarrow> Q r w'"
    and "\<And>e w' db. steady_world ok I w' \<Longrightarrow> I db \<Longrightarrow> m db = (Inl e, fw_db w') \<Longrightarrow> E e w'"
  shows "wp (stmt m) Q E w"
proof -
  let ?w = "interfere w"
  have w: "steady_world ok I ?w" by (rule steady_interfere [OF assms(1)])
  then have db: "I (fw_db ?w)" by (simp add: steady_world_def)
  obtain r db' where m: "m (fw_db ?w) = (r, db')" by (cases "m (fw_db ?w)")
  then have "db' = run_fuda x (fw_db ?w)" using assms(2) by (metis snd_conv)
  then have w': "steady_world ok I (?w\<lparr>fw_db := db'\<rparr>)"
    using w step_keeps [OF db assms(3)] by (simp add: steady_world_def others_do_def)
  show ?thesis
    using m assms(4) [OF w' db] assms(5) [OF w' db] by (cases r) (simp_all add: wp_stmt Let_def)
qed

end

section \<open>Logins\<close>

definition login_owner :: "login_result \<Rightarrow> owner_row" where
  "login_owner res = (case res of LoginOk r \<Rightarrow> r | LoginDisabled r \<Rightarrow> r)"

text \<open>A login that succeeded has stored its row, bound to the subject.\<close>

definition logged_in :: "owner_identity \<Rightarrow> login_result \<Rightarrow> fuda_db \<Rightarrow> bool" where
  "logged_in idn res db \<longleftrightarrow>
    (case res of LoginOk r \<Rightarrow> r \<in> set (fb_owners db) \<and> has_idp (oi_issuer idn) (oi_sub idn) r | LoginDisabled r \<Rightarrow> True)"

lemma identified_idp: "has_idp (oi_issuer idn) (oi_sub idn) (identified idn now r)"
  by (simp add: has_idp_def identified_def)

lemma identity_written:
  assumes "updateIdentity i idn now db = (Inr (Some u), db')"
  shows "u \<in> set (fb_owners db') \<and> has_idp (oi_issuer idn) (oi_sub idn) u \<and> ow_id u = i"
  using assms owner_of_Some [of i db] identified_idp
  by (auto simp: updateIdentity_def update_owners_def tbl_simps split: option.splits if_splits)

lemma provision_written:
  assumes "insertProvisioned i idn role now db = (Inr u, db')"
  shows "u \<in> set (fb_owners db') \<and> has_idp (oi_issuer idn) (oi_sub idn) u"
  using assms by (auto simp: insertProvisioned_def provisioned_owner_def has_idp_def split: if_splits)

locale logins = steady +
  assumes ok_identity: "ok (FwIdentity i idn now)"
    and ok_provision: "ok (FwProvision i idn role now)"
begin

lemma refresh_steady:
  assumes "steady_world ok I w"
  shows "wp (refresh_login r idn now) (\<lambda>res w'. steady_world ok I w' \<and> logged_in idn res (fw_db w')) (\<lambda>_. steady_world ok I) w"
  using assms
  by (auto simp: refresh_login_def wp_simps logged_in_def dest: identity_written split: option.splits
      intro!: steady_stmt [where x = "FwIdentity (ow_id r) idn now"] ok_identity)

lemma bind_steady:
  assumes "steady_world ok I w"
  shows "wp (bindOrReject r idn now) (\<lambda>res w'. steady_world ok I w' \<and> (\<forall>x. res = Some x \<longrightarrow> logged_in idn x (fw_db w')))
    (\<lambda>_. steady_world ok I) w"
  using assms by (auto simp: bindOrReject_def wp_simps intro: wp_mono [OF refresh_steady])

lemma existing_steady:
  assumes "steady_world ok I w"
  shows "wp (resolveExistingByIdp idn now) (\<lambda>res w'. steady_world ok I w' \<and> (\<forall>x. res = Some x \<longrightarrow> logged_in idn x (fw_db w')))
    (\<lambda>_. steady_world ok I) w"
  unfolding resolveExistingByIdp_def wp_simps
  by (rule steady_query [OF assms]) (auto simp: wp_simps split: option.split intro: wp_mono [OF refresh_steady])

lemma insert_steady:
  assumes "steady_world ok I w"
  shows "wp (insertProvisionedOwner i idn hinted now) (\<lambda>r w'. steady_world ok I w' \<and> logged_in idn (LoginOk r) (fw_db w'))
    (\<lambda>_. steady_world ok I) w"
proof -
  have "wp (roleForNewOwner hinted) (\<lambda>_. steady_world ok I) (\<lambda>_. steady_world ok I) w"
    using assms by (auto simp: roleForNewOwner_def wp_simps intro!: steady_query)
  then show ?thesis
    unfolding insertProvisionedOwner_def wp_simps
    by (rule wp_mono)
      (auto simp: logged_in_def dest: provision_written intro!: steady_stmt [where x = "FwProvision i idn _ now"] ok_provision)
qed

text \<open>A step that, when it yields a result, has logged in.\<close>

lemma hinted_steady:
  assumes "steady_world ok I w"
  shows "wp (resolve_hinted i idn role now) (\<lambda>res w'. steady_world ok I w' \<and> (\<forall>x. res = Some x \<longrightarrow> logged_in idn x (fw_db w')))
    (\<lambda>_. steady_world ok I) w"
proof -
  let ?Q = "\<lambda>res w'. steady_world ok I w' \<and> (\<forall>x. res = Some x \<longrightarrow> logged_in idn x (fw_db w'))"
  have again: "wp (bindM (query (owner_of i)) (\<lambda>r. case r of None \<Rightarrow> returnM None | Some r' \<Rightarrow> bindOrReject r' idn now)) ?Q
    (\<lambda>_. steady_world ok I) w" if "steady_world ok I w" for w
    unfolding wp_simps by (rule steady_query [OF that]) (auto simp: wp_simps split: option.split intro: bind_steady)
  have raced: "wp (if_raced e (bindM (resolveExistingByIdp idn now) (\<lambda>raced. case raced of Some res \<Rightarrow> returnM (Some res)
      | None \<Rightarrow> bindM (query (owner_of i)) (\<lambda>r. case r of None \<Rightarrow> returnM None | Some r' \<Rightarrow> bindOrReject r' idn now)))) ?Q
    (\<lambda>_. steady_world ok I) w" if "steady_world ok I w" for e w
    using again by (auto simp: if_raced_def wp_bind wp_return wp_throw that split: option.split intro!: wp_mono [OF existing_steady [OF that]])
  have insert: "wp (catchM (bindM (insertProvisionedOwner i idn role now) (\<lambda>c. returnM (Some (LoginOk c))))
      (\<lambda>e. if_raced e (bindM (resolveExistingByIdp idn now) (\<lambda>raced. case raced of Some res \<Rightarrow> returnM (Some res)
      | None \<Rightarrow> bindM (query (owner_of i)) (\<lambda>r. case r of None \<Rightarrow> returnM None | Some r' \<Rightarrow> bindOrReject r' idn now))))) ?Q
    (\<lambda>_. steady_world ok I) w" if "steady_world ok I w" for w
    unfolding wp_catch wp_bind wp_return
    by (rule wp_mono [OF insert_steady [OF that]]) (auto intro: raced [unfolded wp_bind wp_return])
  show ?thesis
    unfolding resolve_hinted_def wp_bind
    by (rule steady_query [OF assms]) (auto split: option.split intro: bind_steady insert)
qed

lemma email_steady:
  assumes "steady_world ok I w"
  shows "wp (resolve_by_email idn now) (\<lambda>res w'. steady_world ok I w' \<and> (\<forall>x. res = Some x \<longrightarrow> logged_in idn x (fw_db w')))
    (\<lambda>_. steady_world ok I) w"
  unfolding resolve_by_email_def wp_bind
  by (rule steady_query [OF assms]) (auto simp: wp_return split: option.split intro: bind_steady)

lemma allocate_loop_steady:
  "steady_world ok I w \<Longrightarrow> wp (allocate_loop n k base) (\<lambda>_. steady_world ok I) (\<lambda>_. steady_world ok I) w"
proof (induction n arbitrary: k w)
  case (Suc n)
  show ?case
    unfolding allocate_loop.simps Let_def wp_bind
    by (rule steady_query [OF Suc.prems]) (auto simp: wp_return intro: Suc.IH)
qed (simp add: wp_throw)

lemma allocate_steady: "steady_world ok I w \<Longrightarrow> wp (allocateOwnerId base) (\<lambda>_. steady_world ok I) (\<lambda>_. steady_world ok I) w"
  unfolding allocateOwnerId_def wp_bind by (rule steady_query) (auto simp: wp_return intro: allocate_loop_steady)

lemma provision_steady:
  "steady_world ok I w \<Longrightarrow> wp (provision_loop n base idn role now)
    (\<lambda>res w'. steady_world ok I w' \<and> logged_in idn res (fw_db w')) (\<lambda>_. steady_world ok I) w"
proof (induction n arbitrary: w)
  case (Suc n)
  have raced: "wp (if_raced e (bindM (resolveExistingByIdp idn now) (\<lambda>raced. case raced of Some res \<Rightarrow> returnM res
      | None \<Rightarrow> provision_loop n base idn role now))) (\<lambda>res w'. steady_world ok I w' \<and> logged_in idn res (fw_db w'))
      (\<lambda>_. steady_world ok I) v" if "steady_world ok I v" for e v
    using Suc.IH by (auto simp: if_raced_def wp_bind wp_return wp_throw that split: option.split intro!: wp_mono [OF existing_steady [OF that]])
  have insert: "wp (catchM (bindM (insertProvisionedOwner candidate idn role now) (\<lambda>c. returnM (LoginOk c)))
      (\<lambda>e. if_raced e (bindM (resolveExistingByIdp idn now) (\<lambda>raced. case raced of Some res \<Rightarrow> returnM res
      | None \<Rightarrow> provision_loop n base idn role now)))) (\<lambda>res w'. steady_world ok I w' \<and> logged_in idn res (fw_db w'))
      (\<lambda>_. steady_world ok I) v" if "steady_world ok I v" for candidate v
    unfolding wp_catch wp_bind wp_return
    by (rule wp_mono [OF insert_steady [OF that]]) (auto intro: raced [unfolded wp_bind wp_return])
  show ?case
    unfolding provision_loop.simps wp_bind
    by (rule wp_mono [OF allocate_steady [OF Suc.prems]]) (auto intro: insert)
qed (simp add: wp_throw)

lemma resolve_steady:
  assumes "steady_world ok I w"
  shows "wp (resolveOrProvisionOwner input now)
    (\<lambda>res w'. steady_world ok I w' \<and> logged_in (identityOf input) res (fw_db w')) (\<lambda>_. steady_world ok I) w"
proof -
  let ?Q = "\<lambda>res w'. steady_world ok I w' \<and> logged_in (identityOf input) res (fw_db w')"
  let ?m = "if truthy_str (li_ownerId input) then resolve_hinted (or_else (li_ownerId input) []) (identityOf input) (li_role input) now
    else resolve_by_email (identityOf input) now"
  let ?k = "\<lambda>bound. case bound of Some res \<Rightarrow> returnM res
    | None \<Rightarrow> provision_loop 5 (deriveOwnerId (oi_email (li_identity input))) (identityOf input) (li_role input) now"
  have m: "wp ?m (\<lambda>res w'. steady_world ok I w' \<and> (\<forall>x. res = Some x \<longrightarrow> logged_in (identityOf input) x (fw_db w')))
      (\<lambda>_. steady_world ok I) v" if "steady_world ok I v" for v
    using hinted_steady [OF that] email_steady [OF that] by simp
  have k: "wp (bindM ?m ?k) ?Q (\<lambda>_. steady_world ok I) v" if "steady_world ok I v" for v
    unfolding wp_bind
    by (rule wp_mono [OF m [OF that]]) (auto simp: wp_return split: option.split intro: provision_steady)
  show ?thesis
    unfolding resolveOrProvisionOwner_def Let_def
  proof (subst wp_bind, rule wp_mono [OF existing_steady [OF assms]])
    fix x v
    assume x: "steady_world ok I v \<and> (\<forall>res. x = Some res \<longrightarrow> logged_in (identityOf input) res (fw_db v))"
    show "wp (case x of Some res \<Rightarrow> returnM res | None \<Rightarrow> bindM ?m ?k) ?Q (\<lambda>_. steady_world ok I) v"
    proof (cases x)
      case None
      then show ?thesis using k x by (simp only: option.case)
    qed (use x in \<open>simp add: wp_return\<close>)
  qed
qed

end

interpretation any_login: logins "\<lambda>_. True" fuda_wf
  by unfold_locales (simp_all add: fuda_write_wf)

text \<open>What binds a subject to its owner, and the writes that leave the binding alone.\<close>

definition bound :: "string \<Rightarrow> string \<Rightarrow> string \<Rightarrow> fuda_db \<Rightarrow> bool" where
  "bound i issuer sub db \<longleftrightarrow> fuda_wf db \<and> (\<exists>r \<in> set (fb_owners db). ow_id r = i \<and> has_idp issuer sub r)"

fun keeps_binding :: "string \<Rightarrow> string \<Rightarrow> string \<Rightarrow> fuda_write \<Rightarrow> bool" where
  "keeps_binding i issuer sub (FwDeleteOwner j) = (j \<noteq> i)"
| "keeps_binding i issuer sub (FwIdentity j idn now) = (j = i \<longrightarrow> oi_issuer idn = issuer \<and> oi_sub idn = sub)"
| "keeps_binding i issuer sub _ = True"

lemma bound_update:
  assumes "\<exists>r \<in> set t. ow_id r = i \<and> has_idp issuer sub r"
    and "\<And>r. P r \<Longrightarrow> ow_id r = i \<Longrightarrow> has_idp issuer sub r \<Longrightarrow> ow_id (f r) = i \<and> has_idp issuer sub (f r)"
  shows "\<exists>r \<in> set (tbl_update P f t). ow_id r = i \<and> has_idp issuer sub r"
proof -
  obtain r where r: "r \<in> set t" "ow_id r = i" "has_idp issuer sub r" using assms(1) by blast
  then have "(if P r then f r else r) \<in> set (tbl_update P f t)" by (auto simp: tbl_simps)
  then show ?thesis using r assms(2) by (cases "P r") auto
qed

lemma bound_write:
  assumes "bound i issuer sub db" "keeps_binding i issuer sub x"
  shows "bound i issuer sub (run_fuda x db)"
proof -
  have wf: "fuda_wf (run_fuda x db)" and b: "\<exists>r \<in> set (fb_owners db). ow_id r = i \<and> has_idp issuer sub r"
    using assms(1) fuda_write_wf by (auto simp: bound_def)
  have "\<exists>r \<in> set (fb_owners (run_fuda x db)). ow_id r = i \<and> has_idp issuer sub r"
  proof (cases x)
      case (FwIdentity j idn now)
    show ?thesis
    proof (cases "owner_of j db")
      case (Some o')
      have "\<exists>r \<in> set (tbl_update (\<lambda>r. ow_id r = j) (identified idn now) (fb_owners db)). ow_id r = i \<and> has_idp issuer sub r"
        using FwIdentity assms(2) identified_idp [of idn now] by (intro bound_update [OF b]) auto
      then show ?thesis using b FwIdentity Some by (simp add: updateIdentity_def update_owners_def)
    qed (use b FwIdentity in \<open>simp add: updateIdentity_def\<close>)
  next
    case (FwSetRole j r now)
    then show ?thesis using b by (simp add: set_owner_role_def update_owners_def, intro bound_update) (auto simp: has_idp_def)
  next
    case (FwSetEmail j e now)
    then show ?thesis using b by (simp add: setEmailIfAbsent_def update_owners_def, intro bound_update) (auto simp: has_idp_def)
  next
    case (FwWriteOwner j s r now)
    then show ?thesis using b by (simp add: write_owner_def Let_def update_owners_def, intro bound_update) (auto simp: has_idp_def)
  qed (use b assms(2) in \<open>auto simp: insert_owner_if_missing_def insertProvisioned_def delete_owner_row_def tbl_simps create_agent_def
        Let_def write_agent_def update_agents_def appendPersona_def delete_agent_def create_bearer_def rename_bearer_def
        insert_grant_def revoke_def delete_bearer_def split: option.splits\<close>)
  then show ?thesis using wf by (simp add: bound_def)
qed

interpretation binding: steady "keeps_binding i issuer sub" "bound i issuer sub" for i issuer sub
  by unfold_locales (rule bound_write)

lemma bound_found:
  assumes "bound i issuer sub db"
  shows "\<exists>r. getByIdp issuer sub db = Some r \<and> ow_id r = i"
proof -
  obtain r where r: "r \<in> set (fb_owners db)" "ow_id r = i" "has_idp issuer sub r" and wf: "owners_wf (fb_owners db)"
    using assms by (auto simp: bound_def fuda_wf_def)
  then obtain s where s: "getByIdp issuer sub db = Some s" using getByIdp_None [of issuer sub db] by (auto simp: has_idp_key)
  then have "s \<in> set (fb_owners db)" "has_idp issuer sub s" unfolding getByIdp_def by (auto dest: tbl_find_Some_in)
  then have "s = r" using r owners_wfD [OF wf] by (simp add: has_idp_key)
  then show ?thesis using s r(2) by blast
qed

lemma bound_identity:
  assumes "bound i (oi_issuer idn) (oi_sub idn) db"
  shows "\<exists>u. fst (updateIdentity i idn now db) = Inr (Some u) \<and> ow_id u = i"
proof -
  obtain r where r: "r \<in> set (fb_owners db)" "ow_id r = i" "has_idp (oi_issuer idn) (oi_sub idn) r" and wf: "owners_wf (fb_owners db)"
    using assms by (auto simp: bound_def fuda_wf_def)
  have "x = r" if "x \<in> set (fb_owners db)" "has_idp (oi_issuer idn) (oi_sub idn) x" for x
    using owners_wfD [OF wf that(1) r(1)] that(2) r(3) by (simp add: has_idp_key)
  then have "\<not> (\<exists>x \<in> set (fb_owners db). ow_id x \<noteq> i \<and> has_idp (oi_issuer idn) (oi_sub idn) x)" using r(2) by blast
  moreover obtain s where "owner_of i db = Some s" using owner_of_None [of i db] r by (cases "owner_of i db") auto
  moreover from this have "ow_id s = i" by (auto dest: owner_of_Some)
  ultimately show ?thesis by (simp add: updateIdentity_def)
qed

lemma bound_login:
  assumes "steady_world (keeps_binding i (oi_issuer idn) (oi_sub idn)) (bound i (oi_issuer idn) (oi_sub idn)) w"
  shows "wp (resolveExistingByIdp idn now) (\<lambda>res w'. \<exists>x. res = Some x \<and> ow_id (login_owner x) = i) (\<lambda>e w'. False) w"
proof -
  let ?W = "steady_world (keeps_binding i (oi_issuer idn) (oi_sub idn)) (bound i (oi_issuer idn) (oi_sub idn))"
  have refresh: "wp (refresh_login r idn now) (\<lambda>res w'. ow_id (login_owner res) = i) (\<lambda>e w'. False) v" if "?W v" "ow_id r = i" for r v
  proof (cases "ow_status r = DisabledOwner")
    case False
    show ?thesis
      unfolding refresh_login_def if_not_P [OF False] wp_bind that(2)
    proof (rule binding.steady_stmt [OF that(1), where x = "FwIdentity i idn now"])
      fix r' w' db
      assume "updateIdentity i idn now db = (Inr r', fw_db w')" "bound i (oi_issuer idn) (oi_sub idn) db"
      then obtain u where "r' = Some u" "ow_id u = i" using bound_identity [of i idn db now] by auto
      then show "wp (case r' of None \<Rightarrow> throwM (disappeared i) | Some u \<Rightarrow> returnM (LoginOk u))
          (\<lambda>res w'. ow_id (login_owner res) = i) (\<lambda>e w'. False) w'"
        by (simp add: wp_return login_owner_def)
    next
      fix e w' db
      assume "updateIdentity i idn now db = (Inl e, fw_db w')" "bound i (oi_issuer idn) (oi_sub idn) db"
      then show False using bound_identity [of i idn db now] by auto
    qed simp_all
  qed (use that in \<open>simp add: refresh_login_def wp_return login_owner_def\<close>)
  show ?thesis
    unfolding resolveExistingByIdp_def wp_bind
  proof (rule binding.steady_query [OF assms])
    fix w'
    assume w': "?W w'"
    then obtain r where "getByIdp (oi_issuer idn) (oi_sub idn) (fw_db w') = Some r" "ow_id r = i"
      using bound_found [of i "oi_issuer idn" "oi_sub idn" "fw_db w'"] by (auto simp: steady_world_def)
    then show "wp (case getByIdp (oi_issuer idn) (oi_sub idn) (fw_db w') of None \<Rightarrow> returnM None
        | Some r \<Rightarrow> bindM (refresh_login r idn now) (\<lambda>res. returnM (Some res)))
        (\<lambda>res w'. \<exists>x. res = Some x \<and> ow_id (login_owner x) = i) (\<lambda>e w'. False) w'"
      by (simp add: wp_bind wp_return) (rule wp_mono [OF refresh [OF w']], simp_all)
  qed
qed


definition example_login :: "string \<Rightarrow> login_input" where
  "example_login email = \<lparr>li_identity = \<lparr>oi_issuer = ''g'', oi_sub = ''1'', oi_email = email, oi_displayName = None, oi_pictureUrl = None\<rparr>,
     li_ownerId = None, li_role = None\<rparr>"

definition empty_fuda :: fuda_db where
  "empty_fuda = \<lparr>fb_owners = [], fb_agents = [], fb_personas = [], fb_bearers = [], fb_grants = []\<rparr>"

lemma empty_fuda_wf: "fuda_wf empty_fuda"
  by (simp add: fuda_wf_def empty_fuda_def owners_wf_def agents_wf_def grants_wf_def)

lemma example_first_login:
  "resolveOrProvisionOwner (example_login ''Ann@x'') 5 \<lparr>fw_db = empty_fuda, fw_others = []\<rparr> =
    (Inr (LoginOk (provisioned_owner ''ann'' (identityOf (example_login ''Ann@x'')) Admin 5)),
     \<lparr>fw_db = empty_fuda\<lparr>fb_owners := [provisioned_owner ''ann'' (identityOf (example_login ''Ann@x'')) Admin 5]\<rparr>, fw_others = []\<rparr>)"
proof -
  have "deriveOwnerId ''Ann@x'' = ''ann''" by code_simp
  then show ?thesis
    by (simp add: resolveOrProvisionOwner_def Let_def comp_simps resolveExistingByIdp_def query_def stmt_def getByIdp_def empty_fuda_def
        tbl_simps resolve_by_email_def getUnboundByEmail_def example_login_def truthy_str_def numeral_eq_Suc allocateOwnerId_def
        owner_of_def insertProvisionedOwner_def roleForNewOwner_def countActiveAdmins_def tbl_count_def insertProvisioned_def)
qed


section \<open>Requests served one at a time\<close>

datatype owners_request =
    LoginRequest json
  | ListOwners headers
  | GetOwner headers string
  | UpdateOwner headers string json
  | RemoveOwner headers string

record owners_api =
  oa_is_email :: "string \<Rightarrow> bool"
  oa_loc :: locale_le
  oa_wipe :: "grant_wipe option"

fun serve_owners :: "owners_api \<Rightarrow> int \<Rightarrow> owners_request \<Rightarrow> owner_reply fuda_comp" where
  "serve_owners api now (LoginRequest body) = handle_login (oa_is_email api) body now"
| "serve_owners api now (ListOwners hs) = handle_list_owners (oa_loc api) hs"
| "serve_owners api now (GetOwner hs i) = handle_get_owner hs i"
| "serve_owners api now (UpdateOwner hs i body) = handle_update_owner hs i body now"
| "serve_owners api now (RemoveOwner hs i) = handle_remove_owner (oa_loc api) (oa_wipe api) hs i"

definition serve_alone :: "owners_api \<Rightarrow> int \<times> owners_request \<Rightarrow> fuda_db \<Rightarrow> fuda_db" where
  "serve_alone api x db = fw_db (snd (serve_owners api (fst x) (snd x) \<lparr>fw_db = db, fw_others = []\<rparr>))"

lemma query_alone: "fw_others w = [] \<Longrightarrow> query f w = (Inr (f (fw_db w)), w)"
  by (simp add: query_def stmt_def Let_def)

lemma stmt_alone: "fw_others w = [] \<Longrightarrow> stmt m w = (case m (fw_db w) of (r, db) \<Rightarrow> (r, w\<lparr>fw_db := db\<rparr>))"
  by (simp add: stmt_def Let_def)

lemmas alone = query_alone stmt_alone comp_simps

definition delete_agents_db :: "string \<Rightarrow> agent_row list \<Rightarrow> fuda_db \<Rightarrow> fuda_db" where
  "delete_agents_db i as db = fold (\<lambda>a db. if ag_owner_id a = i then snd (delete_agent (ag_id a) db) else db) as db"

lemma delete_agents_alone:
  "fw_others w = [] \<Longrightarrow> \<exists>n. delete_agents_of i as w = (Inr n, w\<lparr>fw_db := delete_agents_db i as (fw_db w)\<rparr>)"
proof (induction as arbitrary: w)
  case (Cons a as)
  show ?case
  proof (cases "ag_owner_id a = i")
    case True
    have "fst (delete_agent (ag_id a) (fw_db w)) = Inr (get_agent (ag_id a) (fw_db w) \<noteq> None)"
      by (simp add: delete_agent_def)
    then obtain db' where b: "delete_agent (ag_id a) (fw_db w) = (Inr (get_agent (ag_id a) (fw_db w) \<noteq> None), db')"
      by (metis prod.collapse)
    have "fw_others (w\<lparr>fw_db := db'\<rparr>) = []" using Cons.prems by simp
    from Cons.IH [OF this] obtain n where "delete_agents_of i as (w\<lparr>fw_db := db'\<rparr>) =
      (Inr n, w\<lparr>fw_db := delete_agents_db i as db'\<rparr>)" by auto
    then show ?thesis using Cons.prems True by (simp add: alone b delete_agents_db_def)
  qed (use Cons in \<open>simp add: delete_agents_db_def\<close>)
qed (simp add: comp_simps delete_agents_db_def)

lemma tbl_delete_none: "\<forall>r \<in> set t. \<not> P r \<Longrightarrow> tbl_delete P t = t"
  by (simp add: tbl_delete_def)

lemma tbl_delete_cong: "(\<And>r. r \<in> set t \<Longrightarrow> P r = Q r) \<Longrightarrow> tbl_delete P t = tbl_delete Q t"
  by (simp add: tbl_delete_def cong: filter_cong)

lemma tbl_delete_delete: "tbl_delete P (tbl_delete Q t) = tbl_delete (\<lambda>r. P r \<or> Q r) t"
  by (simp add: tbl_delete_def conj_commute)

lemma delete_agent_rows:
  "fb_agents (snd (delete_agent j db)) = tbl_delete (\<lambda>a. ag_id a = j) (fb_agents db)"
  "fb_owners (snd (delete_agent j db)) = fb_owners db"
  by (auto simp: delete_agent_def get_agent_None intro!: tbl_delete_none [symmetric])

lemma delete_agents_rows:
  "fb_agents (delete_agents_db i as db) = tbl_delete (\<lambda>a. \<exists>x \<in> set as. ag_owner_id x = i \<and> ag_id x = ag_id a) (fb_agents db) \<and>
   fb_owners (delete_agents_db i as db) = fb_owners db"
proof (induction as arbitrary: db)
  case (Cons a as)
  let ?db = "if ag_owner_id a = i then snd (delete_agent (ag_id a) db) else db"
  have "delete_agents_db i (a # as) db = delete_agents_db i as ?db" by (simp add: delete_agents_db_def)
  then show ?case
    using Cons.IH [of ?db] by (auto simp: delete_agent_rows tbl_delete_delete intro!: tbl_delete_cong)
qed (simp add: delete_agents_db_def tbl_delete_def)

lemma deleteOwner_alone:
  assumes "fw_others w = []" "fuda_wf (fw_db w)" "\<And>f. wipe = Some f \<Longrightarrow> snd (f i w) = w"
  shows "\<exists>r w'. deleteOwner loc wipe i w = (r, w') \<and>
    (w' = w \<or> (\<exists>db. w' = w\<lparr>fw_db := db\<rparr> \<and> fb_owners db = tbl_delete (\<lambda>o'. ow_id o' = i) (fb_owners (fw_db w)) \<and>
       fb_agents db = tbl_delete (\<lambda>a. ag_owner_id a = i) (fb_agents (fw_db w)))) \<and>
    (wipe = None \<longrightarrow> (\<exists>x. r = Inr x) \<and> fb_owners (fw_db w') = tbl_delete (\<lambda>o'. ow_id o' = i) (fb_owners (fw_db w)) \<and>
       (owner_of i (fw_db w) \<noteq> None \<longrightarrow> fb_agents (fw_db w') = tbl_delete (\<lambda>a. ag_owner_id a = i) (fb_agents (fw_db w))))"
proof (cases "owner_of i (fw_db w)")
  case None
  then have "tbl_delete (\<lambda>o'. ow_id o' = i) (fb_owners (fw_db w)) = fb_owners (fw_db w)"
    by (auto simp: owner_of_None intro!: tbl_delete_none)
  then show ?thesis using None assms(1) by (simp add: deleteOwner_def alone)
next
  case (Some r)
  let ?as = "list_agents loc (fw_db w)"
  let ?db = "delete_agents_db i ?as (fw_db w)"
  have d: "distinct (map ag_id (fb_agents (fw_db w)))" using assms(2) by (simp add: fuda_wf_def agents_wf_def)
  have "(\<exists>x \<in> set ?as. ag_owner_id x = i \<and> ag_id x = ag_id a) \<longleftrightarrow> ag_owner_id a = i" if "a \<in> set (fb_agents (fw_db w))" for a
    using that distinct_key_unique [OF d _ that] by (auto simp: list_agents_def)
  then have rows: "fb_agents ?db = tbl_delete (\<lambda>a. ag_owner_id a = i) (fb_agents (fw_db w))" "fb_owners ?db = fb_owners (fw_db w)"
    using delete_agents_rows [of i ?as "fw_db w"] by (auto intro!: tbl_delete_cong)
  obtain n where n: "delete_agents_of i ?as w = (Inr n, w\<lparr>fw_db := ?db\<rparr>)" using delete_agents_alone [OF assms(1)] by blast
  have owned: "owner_of i ?db = owner_of i (fw_db w)" by (simp add: owner_of_def rows(2))
  show ?thesis
  proof (cases wipe)
    case None
    then show ?thesis
      using Some assms(1) n rows owned
      by (auto simp: deleteOwner_def alone delete_owner_row_def
          intro!: exI [of _ "?db\<lparr>fb_owners := tbl_delete (\<lambda>r. ow_id r = i) (fb_owners (fw_db w))\<rparr>"])
  next
    case (Some f)
    obtain res where "f i w = (res, w)" using assms(3) [OF Some] by (metis prod.collapse)
    then show ?thesis
      using Some \<open>owner_of i (fw_db w) = Some r\<close> assms(1) n rows owned
      by (cases res) (auto simp: deleteOwner_def alone delete_owner_row_def
          intro!: exI [of _ "?db\<lparr>fb_owners := tbl_delete (\<lambda>r. ow_id r = i) (fb_owners (fw_db w))\<rparr>"])
  qed
qed

section \<open>The last administrator\<close>

lemma has_admin: "0 < countActiveAdmins db \<longleftrightarrow> (\<exists>r \<in> set (fb_owners db). isActiveAdmin r)"
  unfolding countActiveAdmins_def by (rule tbl_count_pos)

text \<open>Another administrator than the owner \<open>i\<close>.\<close>

definition other_admin :: "string \<Rightarrow> fuda_db \<Rightarrow> bool" where
  "other_admin i db \<longleftrightarrow> (\<exists>r \<in> set (fb_owners db). isActiveAdmin r \<and> ow_id r \<noteq> i)"

lemma two_admins:
  assumes "fuda_wf db" "1 < countActiveAdmins db"
  shows "other_admin i db"
proof (rule ccontr)
  assume no: "\<not> other_admin i db"
  let ?as = "filter isActiveAdmin (fb_owners db)"
  have "distinct (map ow_id ?as)" using assms(1) by (simp add: fuda_wf_def owners_wf_def distinct_map_filter)
  moreover have "set (map ow_id ?as) \<subseteq> {i}" using no by (auto simp: other_admin_def)
  ultimately have "length (map ow_id ?as) \<le> 1" by (metis card_mono distinct_card finite.emptyI finite.insertI is_singletonI is_singleton_altdef)
  then show False using assms(2) by (simp add: countActiveAdmins_def tbl_count_def)
qed

lemma other_admin_delete:
  "other_admin i db \<Longrightarrow> fb_owners db' = tbl_delete (\<lambda>r. ow_id r = i) (fb_owners db) \<Longrightarrow> 0 < countActiveAdmins db'"
  by (auto simp: other_admin_def has_admin tbl_simps)

lemma other_admin_write: "other_admin i db \<Longrightarrow> 0 < countActiveAdmins (snd (write_owner i status role now db))"
  by (auto simp: other_admin_def has_admin write_owner_def Let_def update_owners_def tbl_simps)

lemma admin_update:
  assumes "\<exists>r \<in> set t. isActiveAdmin r" "\<And>r. isActiveAdmin r \<Longrightarrow> isActiveAdmin (f r)"
  shows "\<exists>r \<in> set (tbl_update P f t). isActiveAdmin r"
proof -
  obtain r where r: "r \<in> set t" "isActiveAdmin r" using assms(1) by blast
  then have "(if P r then f r else r) \<in> set (tbl_update P f t)" by (auto simp: tbl_simps)
  then show ?thesis using r(2) assms(2) by (cases "P r") auto
qed

lemma only_admin:
  assumes "0 < countActiveAdmins db" "owner_of i db = Some r" "\<not> isActiveAdmin r" "fuda_wf db"
  shows "other_admin i db"
proof -
  obtain a where a: "a \<in> set (fb_owners db)" "isActiveAdmin a" using assms(1) has_admin by blast
  moreover have "ow_id a \<noteq> i"
    using a assms(2-4) owner_of_Some [OF assms(2)] distinct_key_unique [of ow_id "fb_owners db" a r]
    by (auto simp: fuda_wf_def owners_wf_def)
  ultimately show ?thesis by (auto simp: other_admin_def)
qed

text \<open>What the two handlers that can take the role away check and write.\<close>

definition may_remove :: "string \<Rightarrow> fuda_db \<Rightarrow> bool" where
  "may_remove i db \<longleftrightarrow> (\<exists>r. owner_of i db = Some r \<and> (isActiveAdmin r \<longrightarrow> 1 < countActiveAdmins db))"

lemma may_remove_other: "may_remove i db \<Longrightarrow> fuda_wf db \<Longrightarrow> 0 < countActiveAdmins db \<Longrightarrow> other_admin i db"
  using two_admins only_admin unfolding may_remove_def by blast

lemma update_alone:
  assumes "fw_others w = []"
  shows "fw_db (snd (handle_update_owner hs i body now w)) = fw_db w \<or>
    (\<exists>status role. fw_db (snd (handle_update_owner hs i body now w)) = snd (write_owner i status role now (fw_db w)) \<and>
      (may_remove i (fw_db w) \<or> owner_of i (fw_db w) \<noteq> None \<and> status = ActiveOwner \<and> role = Admin))"
proof (cases "\<exists>r status role. AdminOnly hs \<and> updateOwnerBodySchema body = Some (status, role) \<and> owner_of i (fw_db w) = Some r")
  case True
  then obtain r status role where r: "AdminOnly hs" "updateOwnerBodySchema body = Some (status, role)" "owner_of i (fw_db w) = Some r" by blast
  show ?thesis
    using r assms
    by (auto simp: handle_update_owner_def alone Let_def removesLastActiveAdmin_def update_owner_def may_remove_def
        write_owner_def not_le split: option.split)
qed (use assms in \<open>auto simp: handle_update_owner_def alone split: option.split prod.split\<close>)

lemma delete_agents_wf: "fuda_wf db \<Longrightarrow> fuda_wf (delete_agents_db i as db)"
proof (induction as arbitrary: db)
  case (Cons a as)
  then show ?case
    using fuda_write_wf [of db "FwDeleteAgent (ag_id a)"] by (simp add: delete_agents_db_def)
qed (simp add: delete_agents_db_def)

lemma deleteOwner_wf:
  assumes "fw_others w = []" "fuda_wf (fw_db w)" "\<And>f. wipe = Some f \<Longrightarrow> snd (f i w) = w"
  shows "fuda_wf (fw_db (snd (deleteOwner loc wipe i w)))"
proof -
  obtain n where n: "delete_agents_of i (list_agents loc (fw_db w)) w =
      (Inr n, w\<lparr>fw_db := delete_agents_db i (list_agents loc (fw_db w)) (fw_db w)\<rparr>)"
    using delete_agents_alone [OF assms(1)] by blast
  have "fuda_wf (snd (delete_owner_row i (delete_agents_db i (list_agents loc (fw_db w)) (fw_db w))))"
    using fuda_write_wf [OF delete_agents_wf [OF assms(2)], of "FwDeleteOwner i"] by simp
  then have fin: "fuda_wf (fb_owners_update (\<lambda>_. tbl_delete (\<lambda>r. ow_id r = i) (fb_owners db)) db)"
    if "db = delete_agents_db i (list_agents loc (fw_db w)) (fw_db w)" for db
    using that by (simp add: delete_owner_row_def)
  show ?thesis
  proof (cases wipe)
    case None
    then show ?thesis using assms(1,2) n fin by (simp add: deleteOwner_def alone delete_owner_row_def)
  next
    case (Some f)
    obtain res where "f i w = (res, w)" using assms(3) [OF Some] by (metis prod.collapse)
    then show ?thesis
      using Some assms(1,2) n fin by (cases res) (auto simp: deleteOwner_def alone delete_owner_row_def)
  qed
qed

lemma remove_wf:
  assumes "fw_others w = []" "fuda_wf (fw_db w)" "\<And>f v. wipe = Some f \<Longrightarrow> snd (f i v) = v"
  shows "fuda_wf (fw_db (snd (handle_remove_owner loc wipe hs i w)))"
proof -
  obtain res w' where d: "deleteOwner loc wipe i w = (res, w')" "fuda_wf (fw_db w')"
    using deleteOwner_wf [OF assms(1,2), of wipe i loc] assms(3) by (cases "deleteOwner loc wipe i w") auto
  then show ?thesis
    using assms(1,2)
    by (cases res) (auto simp: handle_remove_owner_def alone removesLastActiveAdmin_def split: option.split)
qed

lemma remove_alone:
  assumes "fw_others w = []" "fuda_wf (fw_db w)" "\<And>f v. wipe = Some f \<Longrightarrow> snd (f i v) = v"
  shows "fw_db (snd (handle_remove_owner loc wipe hs i w)) = fw_db w \<or>
    fb_owners (fw_db (snd (handle_remove_owner loc wipe hs i w))) = tbl_delete (\<lambda>r. ow_id r = i) (fb_owners (fw_db w)) \<and>
      may_remove i (fw_db w)"
proof (cases "AdminOnly hs \<and> may_remove i (fw_db w)")
  case True
  then obtain r where r: "AdminOnly hs" "owner_of i (fw_db w) = Some r" "isActiveAdmin r \<longrightarrow> 1 < countActiveAdmins (fw_db w)"
    by (auto simp: may_remove_def)
  obtain res w' where d: "deleteOwner loc wipe i w = (res, w')"
    "w' = w \<or> (\<exists>db. w' = w\<lparr>fw_db := db\<rparr> \<and> fb_owners db = tbl_delete (\<lambda>o'. ow_id o' = i) (fb_owners (fw_db w)))"
    using deleteOwner_alone [OF assms(1,2), of wipe i loc] assms(3) by metis
  have "snd (handle_remove_owner loc wipe hs i w) = w'"
    using r d(1) assms(1)
    by (cases res) (auto simp: handle_remove_owner_def alone removesLastActiveAdmin_def not_le split: option.split)
  then show ?thesis using d(2) True by auto
next
  case False
  then show ?thesis
    using assms(1)
    by (auto simp: handle_remove_owner_def alone removesLastActiveAdmin_def may_remove_def not_less split: option.split)
qed

lemma write_owner_admins: "owner_of i db \<noteq> None \<Longrightarrow> 0 < countActiveAdmins (snd (write_owner i ActiveOwner Admin now db))"
proof -
  assume "owner_of i db \<noteq> None"
  then obtain r where r: "r \<in> set (fb_owners db)" "ow_id r = i" using owner_of_Some by fastforce
  then have "r\<lparr>ow_status := ActiveOwner, ow_role := Admin, ow_updated_at := now\<rparr> \<in> set (fb_owners (snd (write_owner i ActiveOwner Admin now db)))"
    by (auto simp: write_owner_def Let_def update_owners_def tbl_simps)
  then show ?thesis unfolding has_admin by (rule bexI [rotated]) (simp add: isActiveAdmin_def)
qed

fun login_write :: "fuda_write \<Rightarrow> bool" where
  "login_write (FwIdentity i idn now) = True"
| "login_write (FwProvision i idn role now) = True"
| "login_write _ = False"

definition administered :: "fuda_db \<Rightarrow> bool" where
  "administered db \<longleftrightarrow> fuda_wf db \<and> 0 < countActiveAdmins db"

lemma login_write_administered: "administered db \<Longrightarrow> login_write x \<Longrightarrow> administered (run_fuda x db)"
proof (cases x)
  case (FwIdentity i idn now)
  assume a: "administered db"
  then have "\<exists>r \<in> set (tbl_update (\<lambda>r. ow_id r = i) (identified idn now) (fb_owners db)). isActiveAdmin r"
    by (intro admin_update) (auto simp: administered_def has_admin isActiveAdmin_def)
  then show ?thesis
    using a FwIdentity fuda_write_wf [of db x]
    by (auto simp: administered_def has_admin updateIdentity_def update_owners_def split: option.split if_splits)
next
  case (FwProvision i idn role now)
  assume "administered db"
  then show ?thesis
    using FwProvision fuda_write_wf [of db x] by (auto simp: administered_def has_admin insertProvisioned_def)
qed simp_all

interpretation admin_login: logins login_write administered
  by unfold_locales (auto intro: login_write_administered)

lemma login_alone:
  assumes "fw_others w = []" "administered (fw_db w)"
  shows "administered (fw_db (snd (handle_login is_email body now w)))"
proof -
  have w: "steady_world login_write administered w" using assms by (simp add: steady_world_def others_do_def)
  have "wp (handle_login is_email body now) (\<lambda>_. steady_world login_write administered) (\<lambda>_. steady_world login_write administered) w"
    using w by (auto simp: handle_login_def wp_simps split: option.split intro: wp_mono [OF admin_login.resolve_steady])
  then show ?thesis by (auto simp: wp_def steady_world_def split: prod.splits sum.splits)
qed

lemma serve_administered:
  assumes "administered db" "\<And>f i v. oa_wipe api = Some f \<Longrightarrow> snd (f i v) = v"
  shows "administered (serve_alone api x db)"
proof -
  let ?w = "\<lparr>fw_db = db, fw_others = []\<rparr>"
  have wf: "fuda_wf db" and n: "0 < countActiveAdmins db" using assms(1) by (auto simp: administered_def)
  show ?thesis
  proof (cases "snd x")
    case (LoginRequest body)
    then show ?thesis using login_alone [of ?w] assms(1) by (simp add: serve_alone_def)
  next
    case (ListOwners hs)
    then show ?thesis using assms(1) by (simp add: serve_alone_def handle_list_owners_def alone)
  next
    case (GetOwner hs i)
    then show ?thesis using assms(1) by (simp add: serve_alone_def handle_get_owner_def alone split: option.split)
  next
    case (UpdateOwner hs i body)
    consider "serve_alone api x db = db"
      | status role where "serve_alone api x db = run_fuda (FwWriteOwner i status role (fst x)) db"
          "may_remove i db \<or> owner_of i db \<noteq> None \<and> status = ActiveOwner \<and> role = Admin"
      using update_alone [of ?w hs i body "fst x"] UpdateOwner by (auto simp: serve_alone_def)
    then show ?thesis
    proof cases
      case (2 status role)
      have "0 < countActiveAdmins (run_fuda (FwWriteOwner i status role (fst x)) db)"
        using 2(2) write_owner_admins [of i db] other_admin_write [OF may_remove_other [OF _ wf n]] by auto
      then show ?thesis using 2(1) fuda_write_wf [OF wf, of "FwWriteOwner i status role (fst x)"] by (simp add: administered_def)
    qed (use assms(1) in simp)
  next
    case (RemoveOwner hs i)
    let ?db = "serve_alone api x db"
    have r: "?db = db \<or> fb_owners ?db = tbl_delete (\<lambda>r. ow_id r = i) (fb_owners db) \<and> may_remove i db"
      using remove_alone [of ?w "oa_wipe api" i "oa_loc api" hs] RemoveOwner wf assms(2) by (auto simp: serve_alone_def)
    have "fuda_wf ?db" using remove_wf [of ?w "oa_wipe api" i "oa_loc api" hs] RemoveOwner wf assms(2) by (simp add: serve_alone_def)
    then show ?thesis
      using r assms(1) other_admin_delete [OF may_remove_other [OF _ wf n], of i ?db] by (auto simp: administered_def)
  qed
qed

definition keeps_database :: "owners_api \<Rightarrow> bool" where
  "keeps_database api \<longleftrightarrow> (case oa_wipe api of None \<Rightarrow> True | Some f \<Rightarrow> \<forall>i w. snd (f i w) = w)"

interpretation owners_api: kept "serve_alone api" "\<lambda>_. keeps_database api" administered for api
  by unfold_locales (rule serve_administered, simp_all add: keeps_database_def)

text \<open>
  C35. The workspace always has an administrator: requests to the API for owners that are served one
  after the other, logins included, whoever sends them, never leave a workspace with an active
  administrator without one (the deletion of Torii's grants does not touch Fuda's tables).
\<close>

theorem workspace_keeps_an_admin:
  assumes "fuda_wf db" "0 < countActiveAdmins db" "keeps_database api"
  shows "0 < countActiveAdmins (run_ops (serve_alone api) xs db)"
proof -
  have "administered (run_ops (serve_alone api) xs db)"
    by (rule owners_api.run_keeps) (use assms in \<open>simp_all add: administered_def\<close>)
  then show ?thesis by (simp add: administered_def)
qed

definition example_admin :: "string \<Rightarrow> owner_row" where
  "example_admin i = seeded_owner i Admin 1"

definition admin_headers :: headers where
  "admin_headers = operatorContextHeaders \<lparr>oc_ownerId = ''ann'', oc_role = Admin\<rparr>"

definition demote :: json where
  "demote = JObj [(''role'', JStr ''member'')]"

definition example_owners_api :: owners_api where
  "example_owners_api = \<lparr>oa_is_email = (\<lambda>_. True), oa_loc = (\<lambda>_ _. True), oa_wipe = None\<rparr>"

lemma admin_headers_admin: "AdminOnly admin_headers"
  by (simp add: AdminOnly_def readOperatorContext_def admin_headers_def operatorContextHeaders_def header_names headerValue_def
      parse_role_def role_str_def trim_def is_space_def)

lemma demote_parses: "updateOwnerBodySchema demote = Some (None, Some Member)"
  by (simp add: updateOwnerBodySchema_def demote_def opt_string_def parse_role_def parse_owner_status_def)

theorem workspace_keeps_an_admin_witness:
  "0 < countActiveAdmins (run_ops (serve_alone example_owners_api)
     [(5, UpdateOwner admin_headers ''ann'' demote), (6, RemoveOwner admin_headers ''bob''), (7, UpdateOwner admin_headers ''bob'' demote)]
     (empty_fuda\<lparr>fb_owners := [example_admin ''ann'', example_admin ''bob'']\<rparr>))"
  by (rule workspace_keeps_an_admin)
    (simp_all add: example_admin_def seeded_owner_def empty_fuda_def fuda_wf_def owners_wf_def agents_wf_def grants_wf_def idp_key_def
      countActiveAdmins_def tbl_count_def isActiveAdmin_def keeps_database_def example_owners_api_def)

text \<open>
  Two demotions that run at the same time lock the workspace out: each counts the
  administrators before the other writes, so each is allowed, although either request alone leaves
  one administrator and a second one would then have been refused.
\<close>

theorem interleaved_demotions_lock_out:
  fixes now :: int and b :: owner_row
  assumes "fb_owners db = [a, b]" "ow_id a \<noteq> ow_id b" "isActiveAdmin a" "isActiveAdmin b" "AdminOnly hs"
  defines "other \<equiv> FwWriteOwner (ow_id b) ActiveOwner Member now"
  shows "fw_db (snd (handle_update_owner hs (ow_id b) demote now \<lparr>fw_db = db, fw_others = []\<rparr>)) = run_fuda other db \<and>
    countActiveAdmins (run_fuda other db) = 1 \<and>
    (\<exists>u w'. handle_update_owner hs (ow_id a) demote now \<lparr>fw_db = db, fw_others = [[], [], [], [other]]\<rparr> = (Inr (200, OwnerBody u), w') \<and>
      countActiveAdmins (fw_db w') = 0)"
  using assms(1-5)
  by (auto simp: other_def handle_update_owner_def demote_parses comp_simps query_def stmt_def interfere_def Let_def owner_of_def
      tbl_simps removesLastActiveAdmin_def countActiveAdmins_def tbl_count_def isActiveAdmin_def update_owner_def write_owner_def
      update_owners_def tbl_update_def)

theorem interleaved_demotions_lock_out_witness:
  "\<exists>u w'. handle_update_owner admin_headers ''ann'' demote 7 \<lparr>fw_db = empty_fuda\<lparr>fb_owners := [example_admin ''ann'', example_admin ''bob'']\<rparr>,
      fw_others = [[], [], [], [FwWriteOwner ''bob'' ActiveOwner Member 7]]\<rparr> = (Inr (200, OwnerBody u), w') \<and> countActiveAdmins (fw_db w') = 0"
  using interleaved_demotions_lock_out [where db = "empty_fuda\<lparr>fb_owners := [example_admin ''ann'', example_admin ''bob'']\<rparr>"
      and a = "example_admin ''ann''" and b = "example_admin ''bob''" and hs = admin_headers and now = 7]
    admin_headers_admin
  by (simp add: empty_fuda_def example_admin_def seeded_owner_def isActiveAdmin_def)

section \<open>Reconciliation with the operators file\<close>

lemma insert_by_distinct: "distinct (map f (insert_by le x ys)) \<longleftrightarrow> f x \<notin> f ` set ys \<and> distinct (map f ys)"
  by (induction ys) auto

lemma sort_by_distinct: "distinct (map f (sort_by le xs)) \<longleftrightarrow> distinct (map f xs)"
  by (induction xs) (simp_all add: sort_by_def insert_by_distinct sort_by_set [unfolded sort_by_def])

lemma upsert_alone:
  assumes "fw_others w = []"
  shows "\<exists>r db. upsert_owner i role now w = (Inr r, w\<lparr>fw_db := db\<rparr>) \<and> ow_id ` set (fb_owners db) = insert i (ow_id ` set (fb_owners (fw_db w))) \<and>
    fb_agents db = fb_agents (fw_db w) \<and> (fuda_wf (fw_db w) \<longrightarrow> fuda_wf db)"
proof -
  let ?db1 = "run_fuda (FwInsertOwner i (or_else role Member) now) (fw_db w)"
  let ?db2 = "case role of None \<Rightarrow> ?db1 | Some r \<Rightarrow> run_fuda (FwSetRole i r now) ?db1"
  have ids1: "ow_id ` set (fb_owners ?db1) = insert i (ow_id ` set (fb_owners (fw_db w)))"
    using owner_of_None [of i "fw_db w"] by (auto simp: insert_owner_if_missing_def seeded_owner_def)
  have "map ow_id (tbl_update P (\<lambda>r. r\<lparr>ow_role := x, ow_updated_at := now\<rparr>) t) = map ow_id t" for P x and t :: "owner_row list"
    by (rule map_key_tbl_update) simp
  then have "ow_id ` set (tbl_update P (\<lambda>r. r\<lparr>ow_role := x, ow_updated_at := now\<rparr>) t) = ow_id ` set t" for P x and t :: "owner_row list"
    by (metis list.set_map)
  then have ids2: "ow_id ` set (fb_owners ?db2) = insert i (ow_id ` set (fb_owners (fw_db w)))"
    using ids1 by (cases role) (simp_all add: set_owner_role_def update_owners_def)
  then obtain r where r: "owner_of i ?db2 = Some r" using owner_of_None [of i ?db2] by (cases "owner_of i ?db2") auto
  have "fb_agents ?db2 = fb_agents (fw_db w)"
    by (cases role) (simp_all add: set_owner_role_def update_owners_def insert_owner_if_missing_def)
  moreover have "fuda_wf (fw_db w) \<Longrightarrow> fuda_wf ?db2"
    using fuda_write_wf by (cases role) (simp_all only: option.case)
  moreover have "upsert_owner i role now w = (Inr r, w\<lparr>fw_db := ?db2\<rparr>)"
    using assms r by (cases role) (auto simp: upsert_owner_def alone insert_owner_if_missing_def set_owner_role_def)
  ultimately show ?thesis using ids2 by blast
qed

lemma upsert_all_alone:
  "fw_others w = [] \<Longrightarrow> \<exists>n db. upsert_all ids now w = (Inr n, w\<lparr>fw_db := db\<rparr>) \<and>
    ow_id ` set (fb_owners db) = set ids \<union> ow_id ` set (fb_owners (fw_db w)) \<and> fb_agents db = fb_agents (fw_db w) \<and>
    (fuda_wf (fw_db w) \<longrightarrow> fuda_wf db)"
proof (induction ids arbitrary: w)
  case (Cons i ids)
  obtain r db where r: "upsert_owner i None now w = (Inr r, w\<lparr>fw_db := db\<rparr>)"
    "ow_id ` set (fb_owners db) = insert i (ow_id ` set (fb_owners (fw_db w)))" "fb_agents db = fb_agents (fw_db w)"
    "fuda_wf (fw_db w) \<longrightarrow> fuda_wf db" using upsert_alone [OF Cons.prems] by metis
  have "fw_others (w\<lparr>fw_db := db\<rparr>) = []" using Cons.prems by simp
  from Cons.IH [OF this] obtain n db' where "upsert_all ids now (w\<lparr>fw_db := db\<rparr>) = (Inr n, w\<lparr>fw_db := db'\<rparr>)"
    "ow_id ` set (fb_owners db') = set ids \<union> ow_id ` set (fb_owners db)" "fb_agents db' = fb_agents db" "fuda_wf db \<longrightarrow> fuda_wf db'"
    by auto
  then show ?case using r Cons.prems by (auto simp: alone)
qed (auto simp: comp_simps intro!: exI [of _ "fw_db _"])

lemma seed_alone:
  "fw_others w = [] \<Longrightarrow> \<exists>n db. seedOperators es now w = (Inr n, w\<lparr>fw_db := db\<rparr>) \<and>
    ow_id ` set (fb_owners db) = oe_owner_id ` set es \<union> ow_id ` set (fb_owners (fw_db w)) \<and> fb_agents db = fb_agents (fw_db w) \<and>
    (fuda_wf (fw_db w) \<longrightarrow> fuda_wf db)"
proof (induction es arbitrary: w)
  case (Cons e es)
  let ?i = "oe_owner_id e"
  have "\<exists>role. seed_role e (owner_of ?i (fw_db w)) w = (Inr role, w)" using Cons.prems by (auto simp: seed_role_def alone)
  then obtain role where role: "seed_role e (owner_of ?i (fw_db w)) w = (Inr role, w)" by blast
  obtain r db where r: "upsert_owner ?i role now w = (Inr r, w\<lparr>fw_db := db\<rparr>)"
    "ow_id ` set (fb_owners db) = insert ?i (ow_id ` set (fb_owners (fw_db w)))" "fb_agents db = fb_agents (fw_db w)"
    "fuda_wf (fw_db w) \<longrightarrow> fuda_wf db" using upsert_alone [OF Cons.prems] by metis
  let ?db = "if truthy_str (oe_google_email e) then run_fuda (FwSetEmail ?i (or_else (oe_google_email e) []) now) db else db"
  have "map ow_id (tbl_update P (\<lambda>r. r\<lparr>ow_email := x, ow_updated_at := now\<rparr>) t) = map ow_id t" for P x and t :: "owner_row list"
    by (rule map_key_tbl_update) simp
  then have "ow_id ` set (tbl_update P (\<lambda>r. r\<lparr>ow_email := x, ow_updated_at := now\<rparr>) t) = ow_id ` set t" for P x and t :: "owner_row list"
    by (metis list.set_map)
  then have db: "ow_id ` set (fb_owners ?db) = ow_id ` set (fb_owners db)" "fb_agents ?db = fb_agents db" "fuda_wf db \<Longrightarrow> fuda_wf ?db"
    using fuda_write_wf [of db "FwSetEmail ?i (or_else (oe_google_email e) []) now"] by (simp_all add: setEmailIfAbsent_def update_owners_def)
  have "fw_others (w\<lparr>fw_db := ?db\<rparr>) = []" using Cons.prems by simp
  from Cons.IH [OF this] obtain n db' where "seedOperators es now (w\<lparr>fw_db := ?db\<rparr>) = (Inr n, w\<lparr>fw_db := db'\<rparr>)"
    "ow_id ` set (fb_owners db') = oe_owner_id ` set es \<union> ow_id ` set (fb_owners ?db)" "fb_agents db' = fb_agents ?db" "fuda_wf ?db \<longrightarrow> fuda_wf db'"
    by auto
  then have "\<exists>n. seedOperators (e # es) now w = (Inr n, w\<lparr>fw_db := db'\<rparr>)"
    using r(1) role Cons.prems by (auto simp: alone setEmailIfAbsent_def split: if_splits)
  then show ?case using r db \<open>ow_id ` set (fb_owners db') = _\<close> \<open>fb_agents db' = _\<close> \<open>fuda_wf ?db \<longrightarrow> _\<close> by auto
qed (auto simp: comp_simps intro!: exI [of _ "fw_db _"])

lemma delete_absent_alone:
  "fw_others w = [] \<Longrightarrow> fuda_wf (fw_db w) \<Longrightarrow> ow_id ` set rs \<subseteq> ow_id ` set (fb_owners (fw_db w)) \<Longrightarrow> distinct (map ow_id rs) \<Longrightarrow>
   \<exists>n db. delete_absent loc desired rs w = (Inr n, w\<lparr>fw_db := db\<rparr>) \<and> fuda_wf db \<and>
     fb_owners db = tbl_delete (\<lambda>r. ow_id r \<in> ow_id ` set rs - set desired) (fb_owners (fw_db w)) \<and>
     fb_agents db = tbl_delete (\<lambda>a. ag_owner_id a \<in> ow_id ` set rs - set desired) (fb_agents (fw_db w))"
proof (induction rs arbitrary: w)
  case (Cons r rs)
  show ?case
  proof (cases "ow_id r \<in> set desired")
    case True
    from Cons.IH [OF Cons.prems(1,2)] Cons.prems(3,4) obtain n db where "delete_absent loc desired rs w = (Inr n, w\<lparr>fw_db := db\<rparr>)" "fuda_wf db"
      "fb_owners db = tbl_delete (\<lambda>r. ow_id r \<in> ow_id ` set rs - set desired) (fb_owners (fw_db w))"
      "fb_agents db = tbl_delete (\<lambda>a. ag_owner_id a \<in> ow_id ` set rs - set desired) (fb_agents (fw_db w))" by auto
    then show ?thesis using True by (auto intro!: tbl_delete_cong)
  next
    case False
    have ex: "owner_of (ow_id r) (fw_db w) \<noteq> None" using Cons.prems(3) by (auto simp: owner_of_None)
    have wf: "fuda_wf (fw_db (snd (deleteOwner loc None (ow_id r) w)))" using deleteOwner_wf [OF Cons.prems(1,2), of None] by simp
    obtain x w1 where d: "deleteOwner loc None (ow_id r) w = (Inr x, w1)" "w1 = w\<lparr>fw_db := fw_db w1\<rparr>"
      "fb_owners (fw_db w1) = tbl_delete (\<lambda>o'. ow_id o' = ow_id r) (fb_owners (fw_db w))"
      "fb_agents (fw_db w1) = tbl_delete (\<lambda>a. ag_owner_id a = ow_id r) (fb_agents (fw_db w))"
      using deleteOwner_alone [OF Cons.prems(1,2), of None "ow_id r" loc] ex by force
    have w1: "fw_others w1 = []" using d(2) Cons.prems(1) by (metis fuda_world.select_convs(2) fuda_world.surjective fuda_world.update_convs(1))
    have sub: "ow_id ` set rs \<subseteq> ow_id ` set (fb_owners (fw_db w1))"
    proof
      fix i assume i: "i \<in> ow_id ` set rs"
      then have "i \<in> ow_id ` set (fb_owners (fw_db w))" using Cons.prems(3) by auto
      moreover have "i \<noteq> ow_id r" using i Cons.prems(4) by (metis distinct.simps(2) list.set_map list.simps(9))
      ultimately show "i \<in> ow_id ` set (fb_owners (fw_db w1))" unfolding d(3) set_tbl_delete by blast
    qed
    from Cons.IH [OF w1 _ sub] wf d(1) Cons.prems(4)
    obtain n db where n: "delete_absent loc desired rs w1 = (Inr n, w1\<lparr>fw_db := db\<rparr>)" "fuda_wf db"
      "fb_owners db = tbl_delete (\<lambda>r. ow_id r \<in> ow_id ` set rs - set desired) (fb_owners (fw_db w1))"
      "fb_agents db = tbl_delete (\<lambda>a. ag_owner_id a \<in> ow_id ` set rs - set desired) (fb_agents (fw_db w1))" by auto
    have "w1\<lparr>fw_db := db\<rparr> = w\<lparr>fw_db := db\<rparr>" by (subst d(2)) simp
    then have "\<exists>n. delete_absent loc desired (r # rs) w = (Inr n, w\<lparr>fw_db := db\<rparr>)"
      using False d(1) n(1) by (auto simp: comp_simps split: prod.split)
    moreover have "fb_owners db = tbl_delete (\<lambda>x. ow_id x \<in> ow_id ` set (r # rs) - set desired) (fb_owners (fw_db w))"
      "fb_agents db = tbl_delete (\<lambda>a. ag_owner_id a \<in> ow_id ` set (r # rs) - set desired) (fb_agents (fw_db w))"
      using False by (auto simp: n(3,4) d(3,4) tbl_delete_delete intro!: tbl_delete_cong)
    ultimately show ?thesis using n(2) by blast
  qed
qed (auto simp: comp_simps tbl_delete_def intro!: exI [of _ "fw_db _"])

text \<open>
  Strict reconciliation makes the registry follow the operators file: it always completes, the
  owners are then exactly those the file names, the agents of the owners it removed are gone and
  every other agent stays as it was.
\<close>

theorem strict_reconcile_matches_file:
  assumes "fuda_wf db"
  shows "\<exists>res w'. applyOperatorsFile loc (Some es) Strict now \<lparr>fw_db = db, fw_others = []\<rparr> = (Inr (Some res), w') \<and>
    set (map ow_id (fb_owners (fw_db w'))) = set (ownerIdsFromOperators es) \<and>
    fb_agents (fw_db w') = filter (\<lambda>a. ag_owner_id a \<in> ow_id ` set (fb_owners db) \<longrightarrow> ag_owner_id a \<in> set (ownerIdsFromOperators es)) (fb_agents db)"
proof -
  let ?w = "\<lparr>fw_db = db, fw_others = []\<rparr>" and ?ids = "ownerIdsFromOperators es"
  obtain n1 db1 where s1: "seedOperators es now ?w = (Inr n1, ?w\<lparr>fw_db := db1\<rparr>)"
    "ow_id ` set (fb_owners db1) = set ?ids \<union> ow_id ` set (fb_owners db)" "fb_agents db1 = fb_agents db" "fuda_wf db1"
    using seed_alone [of ?w es now] assms by (auto simp: ownerIdsFromOperators_def)
  let ?w1 = "?w\<lparr>fw_db := db1\<rparr>"
  obtain n2 db2 where s2: "upsert_all (set_of ?ids) now ?w1 = (Inr n2, ?w1\<lparr>fw_db := db2\<rparr>)"
    "ow_id ` set (fb_owners db2) = set ?ids \<union> ow_id ` set (fb_owners db)" "fb_agents db2 = fb_agents db" "fuda_wf db2"
    using upsert_all_alone [of ?w1 "set_of ?ids" now] s1 by (auto simp: js_simps)
  let ?w2 = "?w\<lparr>fw_db := db2\<rparr>" and ?rs = "list_owners loc db2"
  have "distinct (map ow_id ?rs)" using s2(4) by (simp add: list_owners_def sort_by_distinct fuda_wf_def owners_wf_def)
  then obtain n3 db3 where s3: "delete_absent loc (set_of ?ids) ?rs ?w2 = (Inr n3, ?w2\<lparr>fw_db := db3\<rparr>)"
    "fb_owners db3 = tbl_delete (\<lambda>r. ow_id r \<in> ow_id ` set (fb_owners db2) - set ?ids) (fb_owners db2)"
    "fb_agents db3 = tbl_delete (\<lambda>a. ag_owner_id a \<in> ow_id ` set (fb_owners db2) - set ?ids) (fb_agents db2)"
    using delete_absent_alone [of ?w2 ?rs loc "set_of ?ids"] s2(4) by (auto simp: js_simps list_owners_def)
  have "\<exists>res. applyOperatorsFile loc (Some es) Strict now ?w = (Inr (Some res), ?w\<lparr>fw_db := db3\<rparr>)"
    using s1(1) s2(1) s3(1) by (auto simp: applyOperatorsFile_def reconcileOwners_def alone Let_def split: prod.split)
  moreover have "set (map ow_id (fb_owners db3)) = set ?ids" using s2(2) by (auto simp: s3(2) tbl_simps image_iff)
  moreover have "fb_agents db3 = filter (\<lambda>a. ag_owner_id a \<in> ow_id ` set (fb_owners db) \<longrightarrow> ag_owner_id a \<in> set ?ids) (fb_agents db)"
    unfolding s3(3) s2(2,3) tbl_delete_def by (auto intro!: filter_cong)
  ultimately show ?thesis by auto
qed

theorem strict_reconcile_matches_file_witness:
  "\<exists>res w'. applyOperatorsFile (\<lambda>_ _. True) (Some []) Strict 9
      \<lparr>fw_db = empty_fuda\<lparr>fb_owners := [example_admin ''ann'', example_admin ''bob'']\<rparr>, fw_others = []\<rparr> = (Inr (Some res), w') \<and>
    fb_owners (fw_db w') = []"
  using strict_reconcile_matches_file
    [where db = "empty_fuda\<lparr>fb_owners := [example_admin ''ann'', example_admin ''bob'']\<rparr>" and loc = "\<lambda>_ _. True" and es = "[]" and now = 9]
  by (auto simp: example_admin_def seeded_owner_def empty_fuda_def fuda_wf_def owners_wf_def agents_wf_def grants_wf_def idp_key_def
      ownerIdsFromOperators_def)

end
