(* ===== verification/FudaAgents.thy ===== *)
theory FudaAgents
  imports FudaOwners
begin

text \<open>
  The agents of Fuda: the management API for agents and bearers, the definition that the runtime
  reads, the platform bearer, and the exchange of a subject token for an agent token. Whether a
  string is one emoji, the validation of subject tokens and the signing of tokens are parameters.
\<close>

section \<open>Replies and request bodies\<close>

record served_definition =
  df_name :: string
  df_slug :: string
  df_persona :: string
  df_personaVersion :: int
  df_ownerId :: string
  df_defaultModelId :: "string option"

type_synonym management_agent = "agent_row \<times> string"

datatype fuda_body =
    FailureBody string
  | UnknownOwnerBody string
  | AgentBody management_agent
  | AgentsBody "management_agent list"
  | AvailableBody bool
  | PersonasBody "persona_row list"
  | DefinitionBody served_definition
  | BearerBody bearer_row
  | BearersBody "bearer_row list"
  | BearerGrantsBody bearer_row "(string \<times> string) list"
  | GrantBody "string \<times> string"
  | GrantsBody "(string \<times> string) list"
  | TokenBody string nat
  | EmptyBody

type_synonym fuda_reply = "nat \<times> fuda_body"

definition agent_not_found :: fuda_reply where "agent_not_found = (404, FailureBody ''agent not found'')"
definition bearer_not_found :: fuda_reply where "bearer_not_found = (404, FailureBody ''bearer not found'')"
definition agent_forbidden :: fuda_reply where "agent_forbidden = (403, FailureBody ''Forbidden'')"

definition agentEmojiSchema :: "(string \<Rightarrow> bool) \<Rightarrow> json \<Rightarrow> string option" where
  "agentEmojiSchema isSingleEmoji j =
    (case j of JStr s \<Rightarrow> (let t = trim s in if utf16_length t \<le> 32 \<and> isSingleEmoji t then Some t else None) | _ \<Rightarrow> None)"

definition nullable :: "(json \<Rightarrow> 'a option) \<Rightarrow> json \<Rightarrow> 'a option option" where
  "nullable f j = (case j of JNull \<Rightarrow> Some None | _ \<Rightarrow> map_option Some (f j))"

definition string_array :: "json \<Rightarrow> string list option" where
  "string_array j = (case j of JArr xs \<Rightarrow> parse_all nonempty_string xs | _ \<Rightarrow> None)"

text \<open>\<open>.nullable().optional()\<close>: for the repository an absent value and null are the same.\<close>

definition nullish :: "'a option option \<Rightarrow> 'a option" where
  "nullish v = (case v of Some (Some x) \<Rightarrow> Some x | _ \<Rightarrow> None)"

definition createAgentBodySchema :: "(string \<Rightarrow> bool) \<Rightarrow> json \<Rightarrow> create_agent_input option" where
  "createAgentBodySchema isSingleEmoji j =
    (case (parse_optional nonempty_string (prop_of ''id'' j), Option.bind (prop_of ''slug'' j) nonempty_string,
           Option.bind (prop_of ''name'' j) nonempty_string, Option.bind (prop_of ''ownerId'' j) nonempty_string,
           parse_optional string_array (prop_of ''groups'' j), Option.bind (prop_of ''persona'' j) nonempty_string,
           parse_optional (nullable parse_model_id) (prop_of ''defaultModelId'' j),
           parse_optional (nullable (agentEmojiSchema isSingleEmoji)) (prop_of ''emoji'' j)) of
       (Some i, Some slug, Some name, Some ownerId, Some groups, Some persona, Some m, Some e) \<Rightarrow>
         Some \<lparr>ca_id = i, ca_slug = slug, ca_name = name, ca_ownerId = ownerId, ca_groups = or_else groups [],
           ca_persona = persona, ca_defaultModelId = nullish m, ca_emoji = nullish e\<rparr>
     | _ \<Rightarrow> None)"

record update_agent_input =
  up_name :: "string option"
  up_groups :: "string list option"
  up_persona :: "string option"
  up_defaultModelId :: "string option option"
  up_emoji :: "string option option"
  up_slug :: "json option"
  up_ownerId :: "json option"

definition updateAgentBodySchema :: "(string \<Rightarrow> bool) \<Rightarrow> json \<Rightarrow> update_agent_input option" where
  "updateAgentBodySchema isSingleEmoji j =
    (case j of
       JObj kvs \<Rightarrow>
         if \<not> fst ` set kvs \<subseteq> {''name'', ''groups'', ''persona'', ''defaultModelId'', ''emoji'', ''slug'', ''ownerId''} then None
         else (case (parse_optional nonempty_string (prop_of ''name'' j), parse_optional string_array (prop_of ''groups'' j),
                 parse_optional nonempty_string (prop_of ''persona'' j),
                 parse_optional (nullable parse_model_id) (prop_of ''defaultModelId'' j),
                 parse_optional (nullable (agentEmojiSchema isSingleEmoji)) (prop_of ''emoji'' j)) of
             (Some n, Some g, Some p, Some m, Some e) \<Rightarrow>
               Some \<lparr>up_name = n, up_groups = g, up_persona = p, up_defaultModelId = m, up_emoji = e,
                 up_slug = prop_of ''slug'' j, up_ownerId = prop_of ''ownerId'' j\<rparr>
           | _ \<Rightarrow> None)
     | _ \<Rightarrow> None)"

section \<open>The agents API\<close>

definition platform_bearer_id :: string where "platform_bearer_id = ''shaiden-runner''"

definition toManagementAgent :: "agent_row \<Rightarrow> management_agent option fuda_comp" where
  "toManagementAgent r =
    bindM (query (get_agent (ag_id r))) (\<lambda>agent.
    case agent of
      None \<Rightarrow> returnM None
    | Some a \<Rightarrow>
        bindM (query (persona_of (ag_id r) (ag_persona_version a))) (\<lambda>p.
        returnM (map_option (\<lambda>p. (r, pv_content p)) p)))"

fun toManagementAgents :: "agent_row list \<Rightarrow> management_agent list fuda_comp" where
  "toManagementAgents [] = returnM []"
| "toManagementAgents (r # rs) =
    bindM (toManagementAgent r) (\<lambda>a.
    bindM (toManagementAgents rs) (\<lambda>as.
    returnM (case a of None \<Rightarrow> as | Some a' \<Rightarrow> a' # as)))"

definition forceAgentOwner :: "json \<Rightarrow> operator_context option \<Rightarrow> json" where
  "forceAgentOwner body operator =
    (case operator of
       None \<Rightarrow> body
     | Some oc \<Rightarrow>
         (case body of
            JObj kvs \<Rightarrow> JObj (map_put ''ownerId'' (JStr (oc_ownerId oc)) kvs)
          | _ \<Rightarrow> JObj [(''ownerId'', JStr (oc_ownerId oc))]))"

definition canMutateAgent :: "operator_context option \<Rightarrow> string \<Rightarrow> bool" where
  "canMutateAgent operator ownerId =
    (case operator of None \<Rightarrow> True | Some oc \<Rightarrow> oc_role oc = Admin \<or> oc_ownerId oc = ownerId)"

definition handle_list_agents :: "locale_le \<Rightarrow> fuda_reply fuda_comp" where
  "handle_list_agents loc =
    bindM (query (list_agents loc)) (\<lambda>rs.
    bindM (toManagementAgents rs) (\<lambda>as. returnM (200, AgentsBody as)))"

definition handle_slug_availability :: "string \<Rightarrow> fuda_reply fuda_comp" where
  "handle_slug_availability slug = bindM (query (getBySlug slug)) (\<lambda>r. returnM (200, AvailableBody (r = None)))"

definition create_failure :: "fuda_exn \<Rightarrow> fuda_reply fuda_comp" where
  "create_failure e =
    (if isUniqueViolation e (Some ''slug'') then returnM (409, FailureBody ''agent slug already exists'')
     else if isUniqueViolation e (Some ''agents_pkey'') then returnM (409, FailureBody ''agent id already exists'')
     else throwM e)"

definition handle_create_agent ::
    "(string \<Rightarrow> bool) \<Rightarrow> headers \<Rightarrow> json \<Rightarrow> string \<Rightarrow> int \<Rightarrow> fuda_reply fuda_comp" where
  "handle_create_agent isSingleEmoji hs body uuid now =
    (case createAgentBodySchema isSingleEmoji (forceAgentOwner body (readOperatorContext hs)) of
       None \<Rightarrow> returnM (400, FailureBody ''invalid agent'')
     | Some input \<Rightarrow>
         bindM (query (owner_of (ca_ownerId input))) (\<lambda>r.
         if r = None then returnM (400, UnknownOwnerBody (ca_ownerId input))
         else catchM
           (bindM (stmt (create_agent input uuid now)) (\<lambda>created.
            bindM (stmt (insert_grant True platform_bearer_id (ag_id created))) (\<lambda>_.
            bindM (toManagementAgent created) (\<lambda>agent.
            returnM (case agent of None \<Rightarrow> (500, FailureBody ''agent created without persona'') | Some a \<Rightarrow> (201, AgentBody a))))))
           create_failure))"

definition handle_get_agent :: "string \<Rightarrow> fuda_reply fuda_comp" where
  "handle_get_agent i =
    bindM (query (get_agent i)) (\<lambda>r.
    bindM (case r of None \<Rightarrow> returnM None | Some r' \<Rightarrow> toManagementAgent r') (\<lambda>agent.
    returnM (case agent of None \<Rightarrow> agent_not_found | Some a \<Rightarrow> (200, AgentBody a))))"

definition handle_list_personas :: "string \<Rightarrow> fuda_reply fuda_comp" where
  "handle_list_personas i =
    bindM (query (get_agent i)) (\<lambda>r.
    if r = None then returnM agent_not_found
    else bindM (query (get_agent i)) (\<lambda>r'.
      if r' = None then returnM (200, PersonasBody [])
      else bindM (query (list_personas i)) (\<lambda>ps. returnM (200, PersonasBody ps))))"

text \<open>\<open>updateName\<close>, \<open>updateGroups\<close>, \<open>updateDefaultModel\<close> and \<open>updateEmoji\<close>.\<close>

definition update_agent :: "string \<Rightarrow> agent_change \<Rightarrow> int \<Rightarrow> agent_row option fuda_comp" where
  "update_agent i c now =
    bindM (query (get_agent i)) (\<lambda>existing.
    case existing of
      None \<Rightarrow> returnM None
    | Some r \<Rightarrow> bindM (stmt (write_agent i c now)) (\<lambda>_. returnM (Some ((change_agent c r)\<lparr>ag_updated_at := now\<rparr>))))"

definition when_given :: "'a option \<Rightarrow> ('a \<Rightarrow> 'b fuda_comp) \<Rightarrow> unit fuda_comp" where
  "when_given v f = (case v of None \<Rightarrow> returnM () | Some x \<Rightarrow> bindM (f x) (\<lambda>_. returnM ()))"

definition apply_agent_update :: "string \<Rightarrow> update_agent_input \<Rightarrow> int \<Rightarrow> unit fuda_comp" where
  "apply_agent_update i u now =
    bindM (when_given (up_name u) (\<lambda>n. update_agent i (SetName n) now)) (\<lambda>_.
    bindM (when_given (up_groups u) (\<lambda>g. update_agent i (SetGroups g) now)) (\<lambda>_.
    bindM (when_given (up_persona u) (\<lambda>p. stmt (appendPersona i p now))) (\<lambda>_.
    bindM (when_given (up_defaultModelId u) (\<lambda>m. update_agent i (SetDefaultModel m) now)) (\<lambda>_.
    when_given (up_emoji u) (\<lambda>e. update_agent i (SetEmoji e) now)))))"

definition handle_update_agent ::
    "(string \<Rightarrow> bool) \<Rightarrow> headers \<Rightarrow> string \<Rightarrow> json \<Rightarrow> int \<Rightarrow> fuda_reply fuda_comp" where
  "handle_update_agent isSingleEmoji hs i body now =
    (case updateAgentBodySchema isSingleEmoji body of
       None \<Rightarrow> returnM (400, FailureBody ''invalid agent update'')
     | Some u \<Rightarrow>
         if up_slug u \<noteq> None then returnM (400, FailureBody ''slug is immutable'')
         else if up_ownerId u \<noteq> None then returnM (400, FailureBody ''ownerId is immutable'')
         else bindM (query (get_agent i)) (\<lambda>existing.
           case existing of
             None \<Rightarrow> returnM agent_not_found
           | Some r \<Rightarrow>
               if \<not> canMutateAgent (readOperatorContext hs) (ag_owner_id r) then returnM agent_forbidden
               else bindM (apply_agent_update i u now) (\<lambda>_. handle_get_agent i)))"

definition handle_delete_agent :: "headers \<Rightarrow> string \<Rightarrow> fuda_reply fuda_comp" where
  "handle_delete_agent hs i =
    bindM (query (get_agent i)) (\<lambda>existing.
    case existing of
      None \<Rightarrow> returnM agent_not_found
    | Some r \<Rightarrow>
        if \<not> canMutateAgent (readOperatorContext hs) (ag_owner_id r) then returnM agent_forbidden
        else bindM (stmt (delete_agent i)) (\<lambda>ok.
          returnM (if ok then (204, EmptyBody) else agent_not_found)))"

section \<open>The definition of an agent\<close>

definition getCurrentPersona :: "string \<Rightarrow> persona_row option fuda_comp" where
  "getCurrentPersona i =
    bindM (query (get_agent i)) (\<lambda>agent.
    case agent of None \<Rightarrow> returnM None | Some a \<Rightarrow> query (persona_of i (ag_persona_version a)))"

definition handle_definition :: "string \<Rightarrow> fuda_reply fuda_comp" where
  "handle_definition i =
    bindM (query (get_agent i)) (\<lambda>agent.
    case agent of
      None \<Rightarrow> returnM agent_not_found
    | Some a \<Rightarrow>
        bindM (getCurrentPersona i) (\<lambda>persona.
        returnM (case persona of
            None \<Rightarrow> agent_not_found
          | Some p \<Rightarrow> (200, DefinitionBody \<lparr>df_name = ag_name a, df_slug = ag_slug a, df_persona = pv_content p,
              df_personaVersion = pv_version p, df_ownerId = ag_owner_id a,
              df_defaultModelId = (if truthy_str (ag_default_model_id a) then ag_default_model_id a else None)\<rparr>))))"

section \<open>Bearers and grants\<close>

definition createBearerBodySchema :: "json \<Rightarrow> (string \<times> string) option" where
  "createBearerBodySchema j =
    (case (Option.bind (prop_of ''bearerId'' j) nonempty_string, Option.bind (prop_of ''displayName'' j) nonempty_string) of
       (Some i, Some n) \<Rightarrow> Some (i, n) | _ \<Rightarrow> None)"

definition updateBearerBodySchema :: "json \<Rightarrow> string option" where
  "updateBearerBodySchema j =
    (case j of JObj kvs \<Rightarrow> if fst ` set kvs \<subseteq> {''displayName''} then Option.bind (prop_of ''displayName'' j) nonempty_string else None
     | _ \<Rightarrow> None)"

definition createGrantBodySchema :: "json \<Rightarrow> string option" where
  "createGrantBodySchema j = Option.bind (prop_of ''agentId'' j) nonempty_string"

definition handle_list_bearers :: "locale_le \<Rightarrow> fuda_reply fuda_comp" where
  "handle_list_bearers loc = bindM (query (list_bearers loc)) (\<lambda>bs. returnM (200, BearersBody bs))"

definition handle_create_bearer :: "json \<Rightarrow> fuda_reply fuda_comp" where
  "handle_create_bearer body =
    (case createBearerBodySchema body of
       None \<Rightarrow> returnM (400, FailureBody ''invalid bearer'')
     | Some (i, n) \<Rightarrow>
         catchM (bindM (stmt (create_bearer i n)) (\<lambda>b. returnM (201, BearerBody b)))
           (\<lambda>e. if isUniqueViolation e (Some ''bearer_id'') then returnM (409, FailureBody ''bearer already exists'') else throwM e))"

definition handle_get_bearer :: "locale_le \<Rightarrow> string \<Rightarrow> fuda_reply fuda_comp" where
  "handle_get_bearer loc i =
    bindM (query (get_bearer i)) (\<lambda>b.
    case b of
      None \<Rightarrow> returnM bearer_not_found
    | Some b' \<Rightarrow> bindM (query (listGrantsForBearer loc i)) (\<lambda>gs. returnM (200, BearerGrantsBody b' gs)))"

definition updateDisplayName :: "string \<Rightarrow> string \<Rightarrow> bearer_row option fuda_comp" where
  "updateDisplayName i n =
    bindM (query (get_bearer i)) (\<lambda>b.
    if b = None then returnM None
    else bindM (stmt (rename_bearer i n)) (\<lambda>_. returnM (Some \<lparr>br_id = i, br_display_name = n\<rparr>)))"

definition handle_update_bearer :: "string \<Rightarrow> json \<Rightarrow> fuda_reply fuda_comp" where
  "handle_update_bearer i body =
    (case updateBearerBodySchema body of
       None \<Rightarrow> returnM (400, FailureBody ''invalid bearer update'')
     | Some n \<Rightarrow>
         bindM (updateDisplayName i n) (\<lambda>b. returnM (case b of None \<Rightarrow> bearer_not_found | Some b' \<Rightarrow> (200, BearerBody b'))))"

definition handle_delete_bearer :: "string \<Rightarrow> fuda_reply fuda_comp" where
  "handle_delete_bearer i =
    (if i = platform_bearer_id then returnM (409, FailureBody ''platform bearer cannot be deleted'')
     else bindM (stmt (delete_bearer i)) (\<lambda>ok. returnM (if ok then (204, EmptyBody) else bearer_not_found)))"

definition handle_grant :: "string \<Rightarrow> json \<Rightarrow> fuda_reply fuda_comp" where
  "handle_grant i body =
    (case createGrantBodySchema body of
       None \<Rightarrow> returnM (400, FailureBody ''invalid grant'')
     | Some agentId \<Rightarrow>
         bindM (query (get_bearer i)) (\<lambda>b.
         if b = None then returnM bearer_not_found
         else bindM (query (get_agent agentId)) (\<lambda>a.
           if a = None then returnM agent_not_found
           else catchM (bindM (stmt (insert_grant False i agentId)) (\<lambda>g. returnM (201, GrantBody g)))
             (\<lambda>e. if isUniqueViolation e None then returnM (409, FailureBody ''grant already exists'')
                  else if isForeignKeyViolation e then returnM agent_not_found else throwM e))))"

definition handle_revoke :: "string \<Rightarrow> string \<Rightarrow> fuda_reply fuda_comp" where
  "handle_revoke i agentId =
    bindM (query (get_bearer i)) (\<lambda>b.
    if b = None then returnM bearer_not_found
    else bindM (stmt (revoke i agentId)) (\<lambda>ok.
      returnM (if ok then (204, EmptyBody) else (404, FailureBody ''grant not found''))))"

definition handle_agent_grants :: "locale_le \<Rightarrow> string \<Rightarrow> fuda_reply fuda_comp" where
  "handle_agent_grants loc i =
    bindM (query (get_agent i)) (\<lambda>a.
    if a = None then returnM agent_not_found
    else bindM (query (listGrantsForAgent loc i)) (\<lambda>gs. returnM (200, GrantsBody gs)))"

text \<open>At the start of the service: the platform bearer exists and may act for every agent.\<close>

fun ensure_grants :: "agent_row list \<Rightarrow> nat fuda_comp" where
  "ensure_grants [] = returnM 0"
| "ensure_grants (a # as) =
    bindM (query (hasGrant platform_bearer_id (ag_id a))) (\<lambda>granted.
    if granted then ensure_grants as
    else bindM (stmt (insert_grant True platform_bearer_id (ag_id a))) (\<lambda>_.
      bindM (ensure_grants as) (\<lambda>n. returnM (Suc n))))"

definition ensurePlatformBearer :: "locale_le \<Rightarrow> (bool \<times> nat) fuda_comp" where
  "ensurePlatformBearer loc =
    bindM (query (get_bearer platform_bearer_id)) (\<lambda>existing.
    bindM (if existing = None then bindM (stmt (create_bearer platform_bearer_id platform_bearer_id)) (\<lambda>_. returnM True)
           else returnM False) (\<lambda>created.
    bindM (query (list_agents loc)) (\<lambda>agents.
    bindM (ensure_grants agents) (\<lambda>n. returnM (created, n)))))"

section \<open>The exchange of tokens\<close>

datatype token_audience = Torii | Sandbox

record token_exchange_body =
  tx_subject_token :: string
  tx_agent_id :: "string option"
  tx_audience :: "token_audience option"

definition audience_str :: "token_audience \<Rightarrow> string" where
  "audience_str a = (case a of Torii \<Rightarrow> ''torii'' | Sandbox \<Rightarrow> ''shaiden-sandbox'')"

definition parse_audience :: "json \<Rightarrow> token_audience option" where
  "parse_audience j = (case j of JStr s \<Rightarrow> find (\<lambda>a. audience_str a = s) [Torii, Sandbox] | _ \<Rightarrow> None)"

definition tokenExchangeBodySchema :: "json \<Rightarrow> token_exchange_body option" where
  "tokenExchangeBodySchema j =
    (case (Option.bind (prop_of ''subject_token'' j) nonempty_string, parse_optional nonempty_string (prop_of ''agent_id'' j),
           parse_optional parse_audience (prop_of ''audience'' j)) of
       (Some t, Some a, Some aud) \<Rightarrow>
         (let audience = or_else aud Torii in
          if audience = Torii \<and> a = None then None
          else if audience = Sandbox \<and> a \<noteq> None then None
          else Some \<lparr>tx_subject_token = t, tx_agent_id = a, tx_audience = aud\<rparr>)
     | _ \<Rightarrow> None)"

definition token_exchange_ttl_seconds :: nat where "token_exchange_ttl_seconds = 300"

datatype token_claims =
    AgentClaims (agent_claim: string) (owner_claim: string) (groups_claim: "string list") (bearer_claim: string)
  | BearerClaims (bearer_claim: string)

record jwt_request =
  jr_issuer :: string
  jr_audience :: string
  jr_expiresInSeconds :: nat
  jr_claims :: token_claims

datatype subject_result = SubjectBearer string | SubjectInvalid | SubjectFailed fuda_exn

record token_service =
  ts_subjects :: "(string \<Rightarrow> subject_result) option"
  ts_issuer :: string
  ts_signJwt :: "jwt_request \<Rightarrow> fuda_exn + string"

definition issue_token :: "token_service \<Rightarrow> token_audience \<Rightarrow> token_claims \<Rightarrow> fuda_reply fuda_comp" where
  "issue_token ts audience claims =
    (case ts_signJwt ts \<lparr>jr_issuer = ts_issuer ts, jr_audience = audience_str audience,
        jr_expiresInSeconds = token_exchange_ttl_seconds, jr_claims = claims\<rparr> of
       Inl e \<Rightarrow> throwM e | Inr token \<Rightarrow> returnM (200, TokenBody token token_exchange_ttl_seconds))"

definition exchange_for_agent :: "token_service \<Rightarrow> string \<Rightarrow> string option \<Rightarrow> fuda_reply fuda_comp" where
  "exchange_for_agent ts bearerId agentId =
    (case agentId of
       None \<Rightarrow> returnM (400, FailureBody ''agent_id is required'')
     | Some i \<Rightarrow>
         bindM (query (get_agent i)) (\<lambda>agent.
         case agent of
           None \<Rightarrow> returnM agent_not_found
         | Some a \<Rightarrow>
             bindM (query (hasGrant bearerId i)) (\<lambda>granted.
             if \<not> granted then returnM (403, FailureBody ''bearer not granted for agent'')
             else issue_token ts Torii (AgentClaims (ag_id a) (ag_owner_id a) (ag_groups a) bearerId))))"

definition handle_token :: "token_service \<Rightarrow> json \<Rightarrow> fuda_reply fuda_comp" where
  "handle_token ts body =
    (case tokenExchangeBodySchema body of
       None \<Rightarrow> returnM (400, FailureBody ''invalid token exchange request'')
     | Some x \<Rightarrow>
         (case ts_subjects ts of
            None \<Rightarrow> returnM (500, FailureBody ''subject token validator not configured'')
          | Some validate \<Rightarrow>
              (case validate (tx_subject_token x) of
                 SubjectInvalid \<Rightarrow> returnM (401, FailureBody ''invalid subject token'')
               | SubjectFailed e \<Rightarrow> throwM e
               | SubjectBearer bearerId \<Rightarrow>
                   if or_else (tx_audience x) Torii = Sandbox then issue_token ts Sandbox (BearerClaims bearerId)
                   else exchange_for_agent ts bearerId (tx_agent_id x))))"

end
