(* ===== verification/FudaAccess.thy ===== *)
theory FudaAccess
  imports FudaAgents
begin

text \<open>
  Who may act for an agent and who may change one: tokens need a grant, a revoked grant stays
  revoked, members change their own agents only, personas are never rewritten, and every agent has
  a definition.
\<close>

section \<open>Tokens and grants\<close>

definition agent_token :: "token_service \<Rightarrow> string \<Rightarrow> agent_row \<Rightarrow> jwt_request" where
  "agent_token ts b a = \<lparr>jr_issuer = ts_issuer ts, jr_audience = ''torii'', jr_expiresInSeconds = 300,
     jr_claims = AgentClaims (ag_id a) (ag_owner_id a) (ag_groups a) b\<rparr>"

definition sandbox_token :: "token_service \<Rightarrow> string \<Rightarrow> jwt_request" where
  "sandbox_token ts b = \<lparr>jr_issuer = ts_issuer ts, jr_audience = ''shaiden-sandbox'', jr_expiresInSeconds = 300, jr_claims = BearerClaims b\<rparr>"

lemma issue_token_returns:
  "issue_token ts aud claims w = (Inr (200, TokenBody token n), w') \<Longrightarrow>
   n = 300 \<and> ts_signJwt ts \<lparr>jr_issuer = ts_issuer ts, jr_audience = audience_str aud, jr_expiresInSeconds = 300, jr_claims = claims\<rparr> = Inr token"
  by (auto simp: issue_token_def comp_simps token_exchange_ttl_seconds_def split: sum.splits)

lemma query_runs: "query f w = (Inr (f (fw_db (interfere w))), interfere w)"
  by (simp add: query_def stmt_def Let_def)

text \<open>
  C36. A token is issued only to a bearer that the subject token proves: either a sandbox token that
  names the bearer alone, or a token for the agent of the request, with the owner and the groups of
  its row, when a grant of that agent to that bearer is in the table at the moment it is asked for.
  Both live for 300 seconds. Other processes may write between the two queries.
\<close>

theorem agent_token_needs_grant:
  assumes "handle_token ts body w = (Inr (200, TokenBody token n), w')"
  shows "n = 300 \<and> (\<exists>validate x b. ts_subjects ts = Some validate \<and> tokenExchangeBodySchema body = Some x \<and>
    validate (tx_subject_token x) = SubjectBearer b \<and>
    (tx_audience x = Some Sandbox \<and> ts_signJwt ts (sandbox_token ts b) = Inr token \<or>
     (\<exists>a. tx_agent_id x = Some (ag_id a) \<and> a \<in> set (fb_agents (fw_db (interfere w))) \<and>
        (b, ag_id a) \<in> set (fb_grants (fw_db (interfere (interfere w)))) \<and> ts_signJwt ts (agent_token ts b a) = Inr token)))"
proof -
  obtain x validate b where x: "tokenExchangeBodySchema body = Some x" "ts_subjects ts = Some validate"
    "validate (tx_subject_token x) = SubjectBearer b"
    using assms by (auto simp: handle_token_def comp_simps split: option.splits subject_result.splits)
  show ?thesis
  proof (cases "or_else (tx_audience x) Torii = Sandbox")
    case True
    then have "tx_audience x = Some Sandbox" by (cases "tx_audience x") auto
    moreover have "issue_token ts Sandbox (BearerClaims b) w = (Inr (200, TokenBody token n), w')"
      using assms x True by (simp add: handle_token_def)
    ultimately show ?thesis using x issue_token_returns by (fastforce simp: sandbox_token_def audience_str_def)
  next
    case False
    have e: "exchange_for_agent ts b (tx_agent_id x) w = (Inr (200, TokenBody token n), w')"
      using assms x False by (simp add: handle_token_def)
    then obtain i a where a: "tx_agent_id x = Some i" "get_agent i (fw_db (interfere w)) = Some a"
      "hasGrant b i (fw_db (interfere (interfere w)))"
      "issue_token ts Torii (AgentClaims (ag_id a) (ag_owner_id a) (ag_groups a) b) (interfere (interfere w)) = (Inr (200, TokenBody token n), w')"
      by (auto simp: exchange_for_agent_def comp_simps query_runs agent_not_found_def split: option.splits if_splits)
    then have "a \<in> set (fb_agents (fw_db (interfere w)))" "i = ag_id a" using get_agent_Some by blast+
    moreover have "n = 300" "ts_signJwt ts (agent_token ts b a) = Inr token"
      using issue_token_returns [OF a(4)] by (simp_all add: agent_token_def audience_str_def)
    ultimately show ?thesis using x a by (auto simp: hasGrant_def)
  qed
qed

definition grants_pair :: "string \<Rightarrow> string \<Rightarrow> fuda_write \<Rightarrow> bool" where
  "grants_pair b i x \<longleftrightarrow> (\<exists>m. x = FwGrant m b i)"

definition withheld :: "string \<Rightarrow> string \<Rightarrow> fuda_db \<Rightarrow> bool" where
  "withheld b i db \<longleftrightarrow> (b, i) \<notin> set (fb_grants db)"

lemma withheld_write: "withheld b i db \<Longrightarrow> \<not> grants_pair b i x \<Longrightarrow> withheld b i (run_fuda x db)"
  by (cases x) (auto simp: withheld_def grants_pair_def insert_owner_if_missing_def set_owner_role_def setEmailIfAbsent_def
      insertProvisioned_def updateIdentity_def write_owner_def Let_def delete_owner_row_def create_agent_def write_agent_def
      update_agents_def update_owners_def appendPersona_def delete_agent_def create_bearer_def rename_bearer_def insert_grant_def
      revoke_def delete_bearer_def tbl_simps split: option.splits)

interpretation withheld: steady "\<lambda>x. \<not> grants_pair b i x" "withheld b i" for b i
  by unfold_locales (rule withheld_write)

text \<open>
  A revoked grant is gone: after a bearer's grant for an agent was revoked, and until it is
  granted again, an exchange of that bearer's subject token for a token of the agent answers 403 (or
  404, when the agent was deleted), whatever else is written in between and during the exchange.
\<close>

theorem revoked_bearer_is_refused:
  assumes "ts_subjects ts = Some validate" "tokenExchangeBodySchema body = Some x" "validate (tx_subject_token x) = SubjectBearer b"
    and "tx_agent_id x = Some i"
    and "\<forall>y \<in> set ys. \<not> grants_pair b i y" "\<forall>zs \<in> set later. \<forall>z \<in> set zs. \<not> grants_pair b i z"
  shows "fst (handle_token ts body \<lparr>fw_db = run_ops run_fuda ys (snd (revoke b i db)), fw_others = later\<rparr>) \<in>
    {Inr (403, FailureBody ''bearer not granted for agent''), Inr (404, FailureBody ''agent not found'')}"
proof -
  let ?w = "\<lparr>fw_db = run_ops run_fuda ys (snd (revoke b i db)), fw_others = later\<rparr>"
  have torii: "or_else (tx_audience x) Torii \<noteq> Sandbox"
    using assms(2,4) by (auto simp: tokenExchangeBodySchema_def Let_def split: option.splits if_splits)
  have "withheld b i (snd (revoke b i db))" by (simp add: withheld_def revoke_def tbl_simps)
  then have w: "steady_world (\<lambda>y. \<not> grants_pair b i y) (withheld b i) ?w"
    using assms(5,6) withheld.run_keeps by (simp add: steady_world_def others_do_def)
  have "\<not> hasGrant b i (fw_db (interfere (interfere ?w)))"
    using withheld.steady_interfere [OF withheld.steady_interfere [OF w]] by (simp add: steady_world_def withheld_def hasGrant_def)
  then show ?thesis
    using assms(1-4) torii
    by (auto simp: handle_token_def exchange_for_agent_def comp_simps query_runs agent_not_found_def split: option.split)
qed

definition example_subjects :: "string \<Rightarrow> subject_result" where
  "example_subjects s = (if s = ''sa'' then SubjectBearer ''shaiden-runner'' else SubjectInvalid)"

definition example_tokens :: token_service where
  "example_tokens = \<lparr>ts_subjects = Some example_subjects, ts_issuer = ''fuda'', ts_signJwt = (\<lambda>r. Inr (jr_audience r @ ''!'' @ bearer_claim (jr_claims r)))\<rparr>"

definition example_exchange :: json where
  "example_exchange = JObj [(''subject_token'', JStr ''sa''), (''agent_id'', JStr ''a1'')]"

definition example_agent :: agent_row where
  "example_agent = \<lparr>ag_id = ''a1'', ag_slug = ''scout'', ag_name = ''Scout'', ag_owner_id = ''ann'', ag_groups = [''ops''],
     ag_default_model_id = None, ag_emoji = None, ag_persona_version = 1, ag_created_at = 1, ag_updated_at = 1\<rparr>"

definition example_fuda :: fuda_db where
  "example_fuda = empty_fuda\<lparr>fb_agents := [example_agent],
     fb_personas := [\<lparr>pv_agent_id = ''a1'', pv_version = 1, pv_content = ''You scout.'', pv_created_at = 1\<rparr>],
     fb_bearers := [\<lparr>br_id = ''shaiden-runner'', br_display_name = ''shaiden-runner''\<rparr>], fb_grants := [(''shaiden-runner'', ''a1'')]\<rparr>"

lemma example_exchange_parses:
  "tokenExchangeBodySchema example_exchange = Some \<lparr>tx_subject_token = ''sa'', tx_agent_id = Some ''a1'', tx_audience = None\<rparr>"
  by (simp add: example_exchange_def tokenExchangeBodySchema_def nonempty_string_def parse_optional_def)

lemma example_subject: "ts_subjects example_tokens = Some example_subjects" "example_subjects ''sa'' = SubjectBearer ''shaiden-runner''"
  by (simp_all add: example_tokens_def example_subjects_def)

lemma example_fuda_wf: "fuda_wf example_fuda"
  by (auto simp: fuda_wf_def example_fuda_def empty_fuda_def owners_wf_def agents_wf_def grants_wf_def example_agent_def personas_of_def)

lemma example_token: "fst (handle_token example_tokens example_exchange \<lparr>fw_db = example_fuda, fw_others = []\<rparr>) =
    Inr (200, TokenBody ''torii!shaiden-runner'' 300)"
  by (simp add: handle_token_def example_exchange_parses example_tokens_def example_subjects_def exchange_for_agent_def comp_simps query_runs get_agent_def
      tbl_simps example_fuda_def example_agent_def empty_fuda_def hasGrant_def issue_token_def audience_str_def token_exchange_ttl_seconds_def)

theorem agent_token_needs_grant_witness:
  "\<exists>a. a \<in> set (fb_agents example_fuda) \<and> (''shaiden-runner'', ag_id a) \<in> set (fb_grants example_fuda) \<and>
    ts_signJwt example_tokens (agent_token example_tokens ''shaiden-runner'' a) = Inr ''torii!shaiden-runner''"
proof -
  obtain w' where "handle_token example_tokens example_exchange \<lparr>fw_db = example_fuda, fw_others = []\<rparr> =
      (Inr (200, TokenBody ''torii!shaiden-runner'' 300), w')"
    using example_token by (cases "handle_token example_tokens example_exchange \<lparr>fw_db = example_fuda, fw_others = []\<rparr>") auto
  from agent_token_needs_grant [OF this] show ?thesis
    unfolding example_exchange_parses example_subject by (auto simp: example_subject)
qed

theorem revoked_bearer_is_refused_witness:
  "fst (handle_token example_tokens example_exchange
      \<lparr>fw_db = run_ops run_fuda [FwGrant True ''other'' ''a1''] (snd (revoke ''shaiden-runner'' ''a1'' example_fuda)),
       fw_others = [[FwRenameBearer ''shaiden-runner'' ''Runner'']]\<rparr>) \<in>
    {Inr (403, FailureBody ''bearer not granted for agent''), Inr (404, FailureBody ''agent not found'')}"
  by (rule revoked_bearer_is_refused [OF example_subject(1) example_exchange_parses]) (simp_all add: example_subject grants_pair_def)

section \<open>Agents of others\<close>

datatype agents_request =
    CreateAgent headers json string
  | UpdateAgent headers string json
  | DeleteAgent headers string

fun agents_headers :: "agents_request \<Rightarrow> headers" where
  "agents_headers (CreateAgent hs body uuid) = hs"
| "agents_headers (UpdateAgent hs i body) = hs"
| "agents_headers (DeleteAgent hs i) = hs"

fun serve_agents :: "(string \<Rightarrow> bool) \<Rightarrow> int \<Rightarrow> agents_request \<Rightarrow> fuda_reply fuda_comp" where
  "serve_agents isEmoji now (CreateAgent hs body uuid) = handle_create_agent isEmoji hs body uuid now"
| "serve_agents isEmoji now (UpdateAgent hs i body) = handle_update_agent isEmoji hs i body now"
| "serve_agents isEmoji now (DeleteAgent hs i) = handle_delete_agent hs i"

definition serve_agents_alone :: "(string \<Rightarrow> bool) \<Rightarrow> int \<times> agents_request \<Rightarrow> fuda_db \<Rightarrow> fuda_db" where
  "serve_agents_alone isEmoji x db = fw_db (snd (serve_agents isEmoji (fst x) (snd x) \<lparr>fw_db = db, fw_others = []\<rparr>))"

text \<open>The request of a signed-in member who is not the owner \<open>o\<close>.\<close>

definition by_other_member :: "string \<Rightarrow> int \<times> agents_request \<Rightarrow> bool" where
  "by_other_member ow x \<longleftrightarrow> (\<exists>oc. readOperatorContext (agents_headers (snd x)) = Some oc \<and> oc_role oc = Member \<and> oc_ownerId oc \<noteq> ow)"

definition agents_of :: "string \<Rightarrow> fuda_db \<Rightarrow> agent_row list" where
  "agents_of ow db = filter (\<lambda>a. ag_owner_id a = ow) (fb_agents db)"

text \<open>What is stored for the agents \<open>as\<close>.\<close>

definition personas_for :: "agent_row list \<Rightarrow> fuda_db \<Rightarrow> persona_row list" where
  "personas_for as db = filter (\<lambda>p. pv_agent_id p \<in> ag_id ` set as) (fb_personas db)"

definition grants_for :: "agent_row list \<Rightarrow> fuda_db \<Rightarrow> (string \<times> string) list" where
  "grants_for as db = filter (\<lambda>g. snd g \<in> ag_id ` set as) (fb_grants db)"

text \<open>
  Writes about the agent \<open>i\<close>, and the invariant that they keep: what is stored for the agents
  \<open>as\<close> of the owner \<open>ow\<close>, none of which is \<open>i\<close>.
\<close>

fun writes_about :: "string \<Rightarrow> string \<Rightarrow> fuda_write \<Rightarrow> bool" where
  "writes_about ow i (FwCreateAgent input u now) = (or_else (ca_id input) u = i \<and> ca_ownerId input \<noteq> ow)"
| "writes_about ow i (FwWriteAgent j c now) = (j = i)"
| "writes_about ow i (FwAppendPersona j c now) = (j = i)"
| "writes_about ow i (FwDeleteAgent j) = (j = i)"
| "writes_about ow i (FwGrant m b j) = (j = i)"
| "writes_about ow i _ = False"

definition set_aside :: "string \<Rightarrow> agent_row list \<Rightarrow> persona_row list \<Rightarrow> (string \<times> string) list \<Rightarrow> fuda_db \<Rightarrow> bool" where
  "set_aside ow as ps gs db \<longleftrightarrow> fuda_wf db \<and> agents_of ow db = as \<and> personas_for as db = ps \<and> grants_for as db = gs"

lemma filter_update_other:
  "(\<And>r. r \<in> set t \<Longrightarrow> P r \<Longrightarrow> \<not> Q r \<and> \<not> Q (f r)) \<Longrightarrow> filter Q (tbl_update P f t) = filter Q t"
  by (induction t) (auto simp: tbl_update_def)

lemma filter_delete_other: "(\<And>r. r \<in> set t \<Longrightarrow> Q r \<Longrightarrow> \<not> P r) \<Longrightarrow> filter Q (tbl_delete P t) = filter Q t"
  by (auto simp: tbl_delete_def intro!: filter_cong)

lemma change_agent_owner [simp]: "ag_owner_id (change_agent c r) = ag_owner_id r"
  by (cases c) simp_all

lemma set_aside_write:
  assumes "set_aside ow as ps gs db \<and> i \<notin> ag_id ` set as" "writes_about ow i x"
  shows "set_aside ow as ps gs (run_fuda x db) \<and> i \<notin> ag_id ` set as"
proof -
  have wf: "fuda_wf (run_fuda x db)" using assms(1) fuda_write_wf by (simp add: set_aside_def)
  have mine: "\<forall>a \<in> set (fb_agents db). ag_id a = i \<longrightarrow> ag_owner_id a \<noteq> ow"
    using assms(1) by (auto simp: set_aside_def agents_of_def)
  have "agents_of ow (run_fuda x db) = agents_of ow db"
    using assms mine
    by (cases x) (auto simp: agents_of_def create_agent_def Let_def new_agent_def write_agent_def update_agents_def appendPersona_def
        delete_agent_def insert_grant_def intro!: filter_update_other filter_delete_other split: option.split)
  moreover have "personas_for as (run_fuda x db) = personas_for as db"
    using assms
    by (cases x) (auto simp: personas_for_def create_agent_def Let_def write_agent_def update_agents_def appendPersona_def
        delete_agent_def insert_grant_def intro!: filter_delete_other split: option.split)
  moreover have "grants_for as (run_fuda x db) = grants_for as db"
    using assms
    by (cases x) (auto simp: grants_for_def create_agent_def Let_def write_agent_def update_agents_def appendPersona_def
        delete_agent_def insert_grant_def intro!: filter_delete_other split: option.split)
  ultimately show ?thesis using assms(1) wf by (simp add: set_aside_def)
qed

interpretation aside: steady "writes_about ow i" "\<lambda>db. set_aside ow as ps gs db \<and> i \<notin> ag_id ` set as" for ow i as ps gs
  by unfold_locales (rule set_aside_write)

text \<open>A world where nobody else writes, and the agents are set aside.\<close>

definition aside_world :: "string \<Rightarrow> string \<Rightarrow> agent_row list \<Rightarrow> persona_row list \<Rightarrow> (string \<times> string) list \<Rightarrow> fuda_world \<Rightarrow> bool" where
  "aside_world ow i as ps gs = steady_world (writes_about ow i) (\<lambda>db. set_aside ow as ps gs db \<and> i \<notin> ag_id ` set as)"

lemma aside_query: "aside_world ow i as ps gs w \<Longrightarrow> (\<And>w'. aside_world ow i as ps gs w' \<Longrightarrow> Q (f (fw_db w')) w') \<Longrightarrow> wp (query f) Q E w"
  unfolding aside_world_def by (rule aside.steady_query)

lemma aside_stmt:
  assumes "aside_world ow i as ps gs w" "\<And>db. snd (m db) = run_fuda x db" "writes_about ow i x"
    and "\<And>r w'. aside_world ow i as ps gs w' \<Longrightarrow> Q r w'" "\<And>e w'. aside_world ow i as ps gs w' \<Longrightarrow> E e w'"
  shows "wp (stmt m) Q E w"
  using assms(1,4,5) unfolding aside_world_def by (rule aside.steady_stmt [OF _ assms(2,3)])

lemma aside_update:
  assumes "aside_world ow i as ps gs w" "\<And>r w'. aside_world ow i as ps gs w' \<Longrightarrow> Q r w'" "\<And>e w'. aside_world ow i as ps gs w' \<Longrightarrow> E e w'"
  shows "wp (update_agent i c now) Q E w"
  unfolding update_agent_def wp_bind
  by (rule aside_query [OF assms(1)])
    (auto simp: wp_simps intro!: assms(2,3) aside_stmt [where x = "FwWriteAgent i c now" and ow = ow and i = i and as = as and ps = ps and gs = gs]
      split: option.split)

lemma aside_given:
  assumes "aside_world ow i as ps gs w" "\<And>w'. aside_world ow i as ps gs w' \<Longrightarrow> Q () w'" "\<And>e w'. aside_world ow i as ps gs w' \<Longrightarrow> E e w'"
    and "\<And>x. v = Some x \<Longrightarrow> wp (f x) (\<lambda>_. aside_world ow i as ps gs) (\<lambda>_. aside_world ow i as ps gs) w"
  shows "wp (when_given v f) Q E w"
proof (cases v)
  case (Some x)
  show ?thesis
    unfolding when_given_def Some option.case wp_bind wp_return
    by (rule wp_mono [OF assms(4) [OF Some]]) (auto intro: assms(2,3))
qed (simp add: when_given_def wp_return assms(1,2))

lemma aside_persona:
  "aside_world ow i as ps gs w \<Longrightarrow> wp (stmt (appendPersona i p now)) (\<lambda>_. aside_world ow i as ps gs) (\<lambda>_. aside_world ow i as ps gs) w"
  by (rule aside_stmt [where x = "FwAppendPersona i p now"]) simp_all

lemma aside_apply:
  "aside_world ow i as ps gs w \<Longrightarrow> wp (apply_agent_update i u now) (\<lambda>_. aside_world ow i as ps gs) (\<lambda>_. aside_world ow i as ps gs) w"
  unfolding apply_agent_update_def wp_bind
  by (intro aside_given aside_update aside_persona | assumption)+

lemma aside_management:
  "aside_world ow i as ps gs w \<Longrightarrow> wp (toManagementAgent r) (\<lambda>_. aside_world ow i as ps gs) (\<lambda>_. aside_world ow i as ps gs) w"
  unfolding toManagementAgent_def wp_bind
  by (rule aside_query, assumption) (auto simp: wp_simps intro!: aside_query split: option.split)

lemma aside_get:
  "aside_world ow i as ps gs w \<Longrightarrow> wp (handle_get_agent j) (\<lambda>_. aside_world ow i as ps gs) (\<lambda>_. aside_world ow i as ps gs) w"
  unfolding handle_get_agent_def wp_bind
  by (rule aside_query, assumption) (auto simp: wp_simps intro: aside_management split: option.split)

lemma forced_owner:
  "createAgentBodySchema isEmoji (forceAgentOwner body (Some oc)) = Some input \<Longrightarrow> ca_ownerId input = oc_ownerId oc"
  by (auto simp: createAgentBodySchema_def forceAgentOwner_def nonempty_string_def js_simps split: json.splits option.splits if_splits)

lemma aside_alone: "set_aside ow as ps gs db \<Longrightarrow> i \<notin> ag_id ` set as \<Longrightarrow> aside_world ow i as ps gs \<lparr>fw_db = db, fw_others = []\<rparr>"
  by (simp add: aside_world_def steady_world_def others_do_def)

lemma aside_end:
  assumes "wp m (\<lambda>_. aside_world ow i as ps gs) (\<lambda>_. aside_world ow i as ps gs) w"
  shows "set_aside ow as ps gs (fw_db (snd (m w)))"
  using assms by (auto simp: wp_def aside_world_def steady_world_def split: prod.splits sum.splits)

lemma aside_create:
  assumes "aside_world ow (or_else (ca_id input) uuid) as ps gs w" "ca_ownerId input \<noteq> ow"
  shows "wp (catchM
      (bindM (stmt (create_agent input uuid now)) (\<lambda>created.
       bindM (stmt (insert_grant True platform_bearer_id (ag_id created))) (\<lambda>_.
       bindM (toManagementAgent created) (\<lambda>agent.
       returnM (case agent of None \<Rightarrow> (500, FailureBody ''agent created without persona'') | Some a \<Rightarrow> (201, AgentBody a))))))
      create_failure) (\<lambda>_. aside_world ow (or_else (ca_id input) uuid) as ps gs) (\<lambda>_. aside_world ow (or_else (ca_id input) uuid) as ps gs) w"
proof -
  let ?i = "or_else (ca_id input) uuid"
  let ?A = "aside_world ow ?i as ps gs"
  have fail: "wp (create_failure e) (\<lambda>_. ?A) (\<lambda>_. ?A) v" if "?A v" for e v
    using that by (simp add: create_failure_def wp_simps)
  have grant: "wp (stmt (insert_grant True platform_bearer_id ?i)) (\<lambda>_. ?A) (\<lambda>_. ?A) v" if "?A v" for v
    by (rule aside_stmt [OF that, where x = "FwGrant True platform_bearer_id ?i"]) simp_all
  have manage: "wp (toManagementAgent r) (\<lambda>_. ?A) (\<lambda>_. ?A) v" if "?A v" for r v
    by (rule aside_management [OF that])
  have created: "wp (stmt (insert_grant True platform_bearer_id (ag_id r)))
      (\<lambda>_. wp (toManagementAgent r) (\<lambda>_. ?A) (\<lambda>e. wp (create_failure e) (\<lambda>_. ?A) (\<lambda>_. ?A)))
      (\<lambda>e. wp (create_failure e) (\<lambda>_. ?A) (\<lambda>_. ?A)) v" if "?A v" "ag_id r = ?i" for r v
    unfolding that(2) by (rule wp_mono [OF grant [OF that(1)]]) (auto intro: fail wp_mono [OF manage])
  have made: "ag_id r = ?i" if "create_agent input uuid now db = (Inr r, db')" for r db db'
    using that by (auto simp: create_agent_def Let_def new_agent_def split: if_splits)
  show ?thesis
    unfolding wp_catch wp_bind wp_return
  proof (rule aside.steady_stmt [OF assms(1) [unfolded aside_world_def], folded aside_world_def])
    show "snd (create_agent input uuid now db) = run_fuda (FwCreateAgent input uuid now) db" for db by simp
    show "writes_about ow ?i (FwCreateAgent input uuid now)" using assms(2) by simp
  qed (auto intro: created fail dest: made)
qed

lemma member_owns:
  assumes "set_aside ow as ps gs db" "get_agent i db = Some r" "ag_owner_id r \<noteq> ow"
  shows "i \<notin> ag_id ` set as"
proof
  assume "i \<in> ag_id ` set as"
  then obtain a where a: "a \<in> set (fb_agents db)" "ag_owner_id a = ow" "ag_id a = i" using assms(1) by (auto simp: set_aside_def agents_of_def)
  moreover have "distinct (map ag_id (fb_agents db))" using assms(1) by (simp add: set_aside_def fuda_wf_def agents_wf_def)
  ultimately have "a = r" using get_agent_Some [OF assms(2)] distinct_key_unique by metis
  then show False using a(2) assms(3) by simp
qed

lemma create_set_aside:
  assumes "set_aside ow as ps gs db" "readOperatorContext hs = Some oc" "oc_ownerId oc \<noteq> ow"
  shows "set_aside ow as ps gs (serve_agents_alone isEmoji (now, CreateAgent hs body uuid) db)"
proof (cases "createAgentBodySchema isEmoji (forceAgentOwner body (Some oc))")
  case (Some input)
  let ?i = "or_else (ca_id input) uuid" and ?w = "\<lparr>fw_db = db, fw_others = []\<rparr>"
  have owner: "ca_ownerId input \<noteq> ow" using forced_owner [OF Some] assms(3) by simp
  show ?thesis
  proof (cases "get_agent ?i db")
    case None
    then have i: "?i \<notin> ag_id ` set as" using assms(1) by (auto simp: set_aside_def agents_of_def get_agent_None)
    from aside_create [OF aside_alone [OF assms(1) i] owner]
    have "wp (handle_create_agent isEmoji hs body uuid now) (\<lambda>_. aside_world ow ?i as ps gs) (\<lambda>_. aside_world ow ?i as ps gs) ?w"
      using assms(2) Some aside_alone [OF assms(1) i] by (simp add: handle_create_agent_def wp_bind wp_query wp_return wp_if)
    from aside_end [OF this] show ?thesis by (simp add: serve_agents_alone_def)
  next
    case (Some a)
    have "create_agent input uuid now db = (Inl (UniqueViolation ''agents_pkey'' (key_detail ''id'' ?i)), db)"
      using Some by (simp add: create_agent_def Let_def)
    then have "snd (handle_create_agent isEmoji hs body uuid now ?w) = ?w"
      using assms(2) \<open>createAgentBodySchema isEmoji (forceAgentOwner body (Some oc)) = Some input\<close>
      by (simp add: handle_create_agent_def alone create_failure_def)
    then show ?thesis using assms(1) by (simp add: serve_agents_alone_def)
  qed
qed (use assms in \<open>simp add: serve_agents_alone_def handle_create_agent_def alone\<close>)

lemma update_set_aside:
  assumes "set_aside ow as ps gs db" "readOperatorContext hs = Some oc" "oc_role oc = Member" "oc_ownerId oc \<noteq> ow"
  shows "set_aside ow as ps gs (serve_agents_alone isEmoji (now, UpdateAgent hs i body) db)"
proof (cases "\<exists>u r. updateAgentBodySchema isEmoji body = Some u \<and> up_slug u = None \<and> up_ownerId u = None \<and>
    get_agent i db = Some r \<and> ag_owner_id r = oc_ownerId oc")
  case True
  then obtain u r where u: "updateAgentBodySchema isEmoji body = Some u" "up_slug u = None" "up_ownerId u = None"
    "get_agent i db = Some r" "ag_owner_id r = oc_ownerId oc" by blast
  let ?w = "\<lparr>fw_db = db, fw_others = []\<rparr>"
  have w: "aside_world ow i as ps gs ?w" using aside_alone [OF assms(1) member_owns [OF assms(1) u(4)]] u(5) assms(4) by simp
  have "wp (bindM (apply_agent_update i u now) (\<lambda>_. handle_get_agent i)) (\<lambda>_. aside_world ow i as ps gs) (\<lambda>_. aside_world ow i as ps gs) ?w"
    unfolding wp_bind by (rule wp_mono [OF aside_apply [OF w]]) (auto intro: aside_get)
  then have "wp (handle_update_agent isEmoji hs i body now) (\<lambda>_. aside_world ow i as ps gs) (\<lambda>_. aside_world ow i as ps gs) ?w"
    using u assms(2) by (simp add: handle_update_agent_def canMutateAgent_def wp_bind wp_query)
  from aside_end [OF this] show ?thesis by (simp add: serve_agents_alone_def)
next
  case False
  then have "snd (handle_update_agent isEmoji hs i body now \<lparr>fw_db = db, fw_others = []\<rparr>) = \<lparr>fw_db = db, fw_others = []\<rparr>"
    using assms(2,3) by (auto simp: handle_update_agent_def alone canMutateAgent_def split: option.split)
  then show ?thesis using assms(1) by (simp add: serve_agents_alone_def)
qed

lemma delete_set_aside:
  assumes "set_aside ow as ps gs db" "readOperatorContext hs = Some oc" "oc_role oc = Member" "oc_ownerId oc \<noteq> ow"
  shows "set_aside ow as ps gs (serve_agents_alone isEmoji (now, DeleteAgent hs i) db)"
proof (cases "\<exists>r. get_agent i db = Some r \<and> ag_owner_id r = oc_ownerId oc")
  case True
  then have "i \<notin> ag_id ` set as" using member_owns [OF assms(1)] assms(4) by metis
  then have "set_aside ow as ps gs (run_fuda (FwDeleteAgent i) db)"
    using set_aside_write [where x = "FwDeleteAgent i" and i = i] assms(1) by simp
  then show ?thesis
    using True assms(2) by (auto simp: serve_agents_alone_def handle_delete_agent_def alone canMutateAgent_def delete_agent_def)
next
  case False
  then have "snd (handle_delete_agent hs i \<lparr>fw_db = db, fw_others = []\<rparr>) = \<lparr>fw_db = db, fw_others = []\<rparr>"
    using assms(2,3) by (auto simp: handle_delete_agent_def alone canMutateAgent_def split: option.split)
  then show ?thesis using assms(1) by (simp add: serve_agents_alone_def)
qed

lemma serve_set_aside:
  assumes "set_aside ow as ps gs db" "by_other_member ow x"
  shows "set_aside ow as ps gs (serve_agents_alone isEmoji x db)"
proof -
  obtain now req where x: "x = (now, req)" by (cases x)
  then show ?thesis
    using assms by (cases req) (auto simp: by_other_member_def intro: create_set_aside update_set_aside delete_set_aside)
qed

interpretation agents_api: kept "serve_agents_alone isEmoji" "by_other_member ow" "set_aside ow as ps gs" for isEmoji ow as ps gs
  by unfold_locales (rule serve_set_aside)

text \<open>
  Members change their own agents only: whatever signed-in members other than an owner ask of
  the agents API, creating, changing and deleting agents in any order, the agents of that owner,
  their personas and the grants for them stay as they are.
\<close>

theorem members_leave_foreign_agents:
  assumes "fuda_wf db" "\<forall>x \<in> set xs. by_other_member ow x"
  shows "agents_of ow (run_ops (serve_agents_alone isEmoji) xs db) = agents_of ow db \<and>
    personas_for (agents_of ow db) (run_ops (serve_agents_alone isEmoji) xs db) = personas_for (agents_of ow db) db \<and>
    grants_for (agents_of ow db) (run_ops (serve_agents_alone isEmoji) xs db) = grants_for (agents_of ow db) db"
  using agents_api.run_keeps [of ow "agents_of ow db" _ _ db xs isEmoji] assms by (auto simp: set_aside_def)

definition member_headers :: "string \<Rightarrow> headers" where
  "member_headers i = operatorContextHeaders \<lparr>oc_ownerId = i, oc_role = Member\<rparr>"

theorem members_leave_foreign_agents_witness:
  "agents_of ''ann'' (run_ops (serve_agents_alone (\<lambda>_. False))
      [(5, DeleteAgent (member_headers ''bob'') ''a1''), (6, UpdateAgent (member_headers ''bob'') ''a1'' (JObj [(''name'', JStr ''Mine'')])),
       (7, CreateAgent (member_headers ''bob'') (JObj [(''ownerId'', JStr ''ann'')]) ''u'')] example_fuda) = [example_agent]"
proof -
  have "readOperatorContext (member_headers ''bob'') = Some \<lparr>oc_ownerId = ''bob'', oc_role = Member\<rparr>"
    by (simp add: readOperatorContext_def member_headers_def operatorContextHeaders_def header_names headerValue_def
        parse_role_def role_str_def trim_def is_space_def)
  then have "agents_of ''ann'' (run_ops (serve_agents_alone (\<lambda>_. False))
      [(5, DeleteAgent (member_headers ''bob'') ''a1''), (6, UpdateAgent (member_headers ''bob'') ''a1'' (JObj [(''name'', JStr ''Mine'')])),
       (7, CreateAgent (member_headers ''bob'') (JObj [(''ownerId'', JStr ''ann'')]) ''u'')] example_fuda) = agents_of ''ann'' example_fuda"
    by (intro members_leave_foreign_agents [OF example_fuda_wf, THEN conjunct1]) (simp add: by_other_member_def)
  also have "\<dots> = [example_agent]" by (simp add: agents_of_def example_fuda_def example_agent_def)
  finally show ?thesis .
qed

section \<open>Personas and definitions\<close>

definition holds_persona :: "string \<Rightarrow> int \<Rightarrow> persona_row \<Rightarrow> fuda_db \<Rightarrow> bool" where
  "holds_persona i v p db \<longleftrightarrow> fuda_wf db \<and> persona_of i v db = Some p"

definition deletes_agent :: "string \<Rightarrow> fuda_write \<Rightarrow> bool" where
  "deletes_agent i x \<longleftrightarrow> x = FwDeleteAgent i"

lemma tbl_find_delete: "(\<And>r. P r \<Longrightarrow> \<not> Q r) \<Longrightarrow> tbl_find P (tbl_delete Q t) = tbl_find P t"
  by (induction t) (auto simp: tbl_find_def tbl_delete_def)

lemma persona_write:
  assumes "holds_persona i v p db" "\<not> deletes_agent i x"
  shows "holds_persona i v p (run_fuda x db)"
proof -
  have "persona_of i v (run_fuda x db) = Some p"
  proof (cases x)
    case (FwDeleteAgent j)
    then have "j \<noteq> i" using assms(2) by (simp add: deletes_agent_def)
    then have "tbl_find (\<lambda>p. pv_agent_id p = i \<and> pv_version p = v) (tbl_delete (\<lambda>p. pv_agent_id p = j) (fb_personas db)) =
        tbl_find (\<lambda>p. pv_agent_id p = i \<and> pv_version p = v) (fb_personas db)" by (intro tbl_find_delete) auto
    then show ?thesis using assms(1) FwDeleteAgent by (simp add: holds_persona_def persona_of_def delete_agent_def)
  qed (use assms(1) in \<open>auto simp: holds_persona_def persona_of_def insert_owner_if_missing_def set_owner_role_def setEmailIfAbsent_def
      insertProvisioned_def updateIdentity_def write_owner_def Let_def delete_owner_row_def create_agent_def write_agent_def
      update_agents_def update_owners_def appendPersona_def create_bearer_def rename_bearer_def insert_grant_def
      revoke_def delete_bearer_def tbl_find_append split: option.splits\<close>)
  then show ?thesis using assms(1) fuda_write_wf by (simp add: holds_persona_def)
qed

interpretation personas: kept run_fuda "\<lambda>x. \<not> deletes_agent i x" "holds_persona i v p" for i v p
  by unfold_locales (rule persona_write)

text \<open>
  Personas are append-only: a version of an agent's persona, once written, reads the same after
  any other writes, as long as the agent is not deleted.
\<close>

theorem personas_are_never_rewritten:
  assumes "fuda_wf db" "persona_of i v db = Some p" "\<forall>x \<in> set xs. \<not> deletes_agent i x"
  shows "persona_of i v (run_ops run_fuda xs db) = Some p"
  using personas.run_keeps [of i v p db xs] assms by (simp add: holds_persona_def)

theorem personas_are_never_rewritten_witness:
  "persona_of ''a1'' 1 (run_ops run_fuda [FwAppendPersona ''a1'' ''New.'' 7, FwWriteAgent ''a1'' (SetName ''S'') 8] example_fuda) =
    Some \<lparr>pv_agent_id = ''a1'', pv_version = 1, pv_content = ''You scout.'', pv_created_at = 1\<rparr>"
  by (rule personas_are_never_rewritten [OF example_fuda_wf])
    (simp_all add: example_fuda_def empty_fuda_def persona_of_def tbl_simps deletes_agent_def)

lemma current_persona:
  assumes "fuda_wf db" "get_agent i db = Some a"
  shows "\<exists>p. persona_of i (ag_persona_version a) db = Some p \<and> pv_version p = ag_persona_version a"
proof -
  have a: "a \<in> set (fb_agents db)" "ag_id a = i" using get_agent_Some [OF assms(2)] by blast+
  then have "ag_persona_version a \<in> personas_of i (fb_personas db)" using assms(1) by (auto simp: fuda_wf_def agents_wf_def)
  then obtain q where "q \<in> set (fb_personas db)" "pv_agent_id q = i" "pv_version q = ag_persona_version a" by (auto simp: personas_of_def)
  then have "persona_of i (ag_persona_version a) db \<noteq> None" unfolding persona_of_def tbl_find_None by blast
  then show ?thesis unfolding persona_of_def by (auto dest: tbl_find_Some_in)
qed

text \<open>
  The runtime always finds the definition of an agent: after any history of writes the request
  answers 404 exactly when there is no such agent, and otherwise 200 with the row of the agent and
  the current version of its persona.
\<close>

theorem every_agent_has_a_definition:
  assumes "fuda_wf db"
  shows "case get_agent i (run_ops run_fuda xs db) of
      None \<Rightarrow> fst (handle_definition i \<lparr>fw_db = run_ops run_fuda xs db, fw_others = []\<rparr>) = Inr (404, FailureBody ''agent not found'')
    | Some a \<Rightarrow> \<exists>p. persona_of i (ag_persona_version a) (run_ops run_fuda xs db) = Some p \<and>
        fst (handle_definition i \<lparr>fw_db = run_ops run_fuda xs db, fw_others = []\<rparr>) =
          Inr (200, DefinitionBody \<lparr>df_name = ag_name a, df_slug = ag_slug a, df_persona = pv_content p,
            df_personaVersion = ag_persona_version a, df_ownerId = ag_owner_id a,
            df_defaultModelId = (if truthy_str (ag_default_model_id a) then ag_default_model_id a else None)\<rparr>)"
proof -
  let ?db = "run_ops run_fuda xs db"
  have wf: "fuda_wf ?db" by (rule fuda.run_keeps [OF assms]) simp
  show ?thesis
  proof (cases "get_agent i ?db")
    case (Some a)
    then obtain p where "persona_of i (ag_persona_version a) ?db = Some p" "pv_version p = ag_persona_version a"
      using current_persona [OF wf] by blast
    then show ?thesis using Some by (simp add: handle_definition_def getCurrentPersona_def alone)
  qed (simp add: handle_definition_def alone agent_not_found_def)
qed

theorem every_agent_has_a_definition_witness:
  "\<exists>p. persona_of ''a1'' 2 (run_ops run_fuda [FwAppendPersona ''a1'' ''New.'' 7] example_fuda) = Some p \<and> pv_content p = ''New.''"
  using every_agent_has_a_definition [OF example_fuda_wf, of "''a1''" "[FwAppendPersona ''a1'' ''New.'' 7]"]
  by (simp add: example_fuda_def empty_fuda_def example_agent_def get_agent_def persona_of_def tbl_simps appendPersona_def
      update_agents_def tbl_update_def Let_def)

section \<open>The platform bearer\<close>

lemma ensure_grants_alone:
  assumes "fw_others w = []" "get_bearer platform_bearer_id (fw_db w) \<noteq> None" "\<forall>a \<in> set as. get_agent (ag_id a) (fw_db w) \<noteq> None"
  shows "\<exists>n gs. ensure_grants as w = (Inr n, w\<lparr>fw_db := (fw_db w)\<lparr>fb_grants := gs\<rparr>\<rparr>) \<and>
    set gs = set (fb_grants (fw_db w)) \<union> (\<lambda>a. (platform_bearer_id, ag_id a)) ` set as"
  using assms
proof (induction as arbitrary: w)
  case Nil
  then show ?case by (auto simp: comp_simps intro!: exI [of _ "fb_grants (fw_db w)"])
next
  case (Cons a as)
  let ?g = "(platform_bearer_id, ag_id a)"
  show ?case
  proof (cases "hasGrant platform_bearer_id (ag_id a) (fw_db w)")
    case True
    from Cons.IH [OF Cons.prems(1,2)] Cons.prems(3)
    obtain n gs where "ensure_grants as w = (Inr n, w\<lparr>fw_db := (fw_db w)\<lparr>fb_grants := gs\<rparr>\<rparr>)"
      "set gs = set (fb_grants (fw_db w)) \<union> (\<lambda>a. (platform_bearer_id, ag_id a)) ` set as" by auto
    then show ?thesis using True Cons.prems(1) by (auto simp: alone hasGrant_def)
  next
    case False
    let ?db = "(fw_db w)\<lparr>fb_grants := fb_grants (fw_db w) @ [?g]\<rparr>"
    have ins: "insert_grant True platform_bearer_id (ag_id a) (fw_db w) = (Inr ?g, ?db)"
      using False Cons.prems(2,3) by (simp add: insert_grant_def)
    have same: "get_bearer i ?db = get_bearer i (fw_db w)" "get_agent j ?db = get_agent j (fw_db w)" for i j
      by (simp_all add: get_bearer_def get_agent_def)
    from Cons.IH [of "w\<lparr>fw_db := ?db\<rparr>"] Cons.prems
    obtain n gs where "ensure_grants as (w\<lparr>fw_db := ?db\<rparr>) = (Inr n, w\<lparr>fw_db := (fw_db w)\<lparr>fb_grants := gs\<rparr>\<rparr>)"
      "set gs = set (fb_grants ?db) \<union> (\<lambda>a. (platform_bearer_id, ag_id a)) ` set as" by (auto simp: same)
    then show ?thesis using False Cons.prems(1) by (auto simp: alone ins)
  qed
qed

text \<open>
  After the start of Fuda the runtime can act for every agent: once the platform bearer has been
  ensured, exchanging a subject token that proves it for a token of any agent in the table succeeds,
  and nothing but the bearer and its grants has changed.
\<close>

theorem platform_bearer_serves_every_agent:
  assumes "fuda_wf db" "a \<in> set (fb_agents db)"
    and "ts_subjects ts = Some validate" "tokenExchangeBodySchema body = Some x" "validate (tx_subject_token x) = SubjectBearer ''shaiden-runner''"
    and "tx_agent_id x = Some (ag_id a)" "ts_signJwt ts (agent_token ts ''shaiden-runner'' a) = Inr token"
  shows "\<exists>res w. ensurePlatformBearer loc \<lparr>fw_db = db, fw_others = []\<rparr> = (Inr res, w) \<and>
    fst (handle_token ts body w) = Inr (200, TokenBody token 300) \<and>
    fb_agents (fw_db w) = fb_agents db \<and> fb_owners (fw_db w) = fb_owners db \<and> fb_personas (fw_db w) = fb_personas db \<and>
    set (fb_grants (fw_db w)) = set (fb_grants db) \<union> (\<lambda>r. (''shaiden-runner'', ag_id r)) ` set (fb_agents db)"
proof -
  let ?w = "\<lparr>fw_db = db, fw_others = []\<rparr>" and ?as = "list_agents loc db"
  let ?db = "if get_bearer platform_bearer_id db = None then snd (create_bearer platform_bearer_id platform_bearer_id db) else db"
  have b: "get_bearer platform_bearer_id ?db \<noteq> None" "fb_agents ?db = fb_agents db" "fb_owners ?db = fb_owners db"
    "fb_personas ?db = fb_personas db" "fb_grants ?db = fb_grants db"
    by (auto simp: create_bearer_def Let_def get_bearer_def tbl_simps)
  have "\<forall>r \<in> set ?as. get_agent (ag_id r) ?db \<noteq> None" unfolding get_agent_None b(2) by (simp add: list_agents_def)
  with ensure_grants_alone [of "?w\<lparr>fw_db := ?db\<rparr>" ?as] b(1)
  obtain n gs where n: "ensure_grants ?as (?w\<lparr>fw_db := ?db\<rparr>) = (Inr n, ?w\<lparr>fw_db := ?db\<lparr>fb_grants := gs\<rparr>\<rparr>)"
    "set gs = set (fb_grants db) \<union> (\<lambda>r. (platform_bearer_id, ag_id r)) ` set (fb_agents db)"
    using b(5) by (auto simp: list_agents_def)
  let ?v = "?w\<lparr>fw_db := ?db\<lparr>fb_grants := gs\<rparr>\<rparr>"
  have e: "\<exists>res. ensurePlatformBearer loc ?w = (Inr res, ?v)"
    using n(1) b(2) by (auto simp: ensurePlatformBearer_def alone create_bearer_def Let_def list_agents_def split: if_splits)
  have "distinct (map ag_id (fb_agents db))" using assms(1) by (simp add: fuda_wf_def agents_wf_def)
  then have "get_agent (ag_id a) (fw_db ?v) = Some a"
    using assms(2) b(2) by (simp add: get_agent_def tbl_find_key_in)
  moreover have "hasGrant ''shaiden-runner'' (ag_id a) (fw_db ?v)" using n(2) assms(2) by (simp add: hasGrant_def platform_bearer_id_def)
  moreover have "or_else (tx_audience x) Torii \<noteq> Sandbox"
    using assms(4,6) by (auto simp: tokenExchangeBodySchema_def Let_def split: option.splits if_splits)
  ultimately have "fst (handle_token ts body ?v) = Inr (200, TokenBody token 300)"
    using assms(3-7) by (simp add: handle_token_def exchange_for_agent_def alone issue_token_def agent_token_def audience_str_def
        token_exchange_ttl_seconds_def)
  then show ?thesis using e b n(2) by (auto simp: platform_bearer_id_def)
qed

theorem platform_bearer_serves_every_agent_witness:
  "\<exists>res w. ensurePlatformBearer (\<lambda>_ _. True) \<lparr>fw_db = example_fuda\<lparr>fb_grants := []\<rparr>, fw_others = []\<rparr> = (Inr res, w) \<and>
    fst (handle_token example_tokens example_exchange w) = Inr (200, TokenBody ''torii!shaiden-runner'' 300)"
proof -
  have wf: "fuda_wf (example_fuda\<lparr>fb_grants := []\<rparr>)" using example_fuda_wf by (simp add: fuda_wf_def grants_wf_def)
  have a: "example_agent \<in> set (fb_agents (example_fuda\<lparr>fb_grants := []\<rparr>))" by (simp add: example_fuda_def)
  show ?thesis
    using platform_bearer_serves_every_agent [OF wf a example_subject(1) example_exchange_parses,
        where token = "''torii!shaiden-runner''" and loc = "\<lambda>_ _. True"]
    by (auto simp: example_subject example_agent_def agent_token_def example_tokens_def)
qed

end
