(* ===== verification/SubjectTokens.thy ===== *)
theory SubjectTokens
  imports FudaAccess Namespacing
begin

text \<open>
  The validators of subject tokens and their configuration from the environment. The verification of
  a Kubernetes token (signature, issuer, audience, expiry) is a parameter that yields the
  \<open>sub\<close> claim of the payload.
\<close>

type_synonym environment = "string \<Rightarrow> string option"

definition comma_parts :: "string \<Rightarrow> string list" where
  "comma_parts raw = filter (\<lambda>p. p \<noteq> []) (map trim (split_on (CHR '','') raw))"

section \<open>Shared secrets\<close>

fun static_loop :: "string list \<Rightarrow> string list \<Rightarrow> string + string list" where
  "static_loop tokens [] = Inr tokens"
| "static_loop tokens (t # ts) =
    (if CHR ''='' \<in> set t
     then Inl ''Invalid FUDA_STATIC_SUBJECT_TOKEN entry: expected the shared secret (not secret=bearer_id)''
     else if t \<in> set tokens then Inl ''Duplicate token in FUDA_STATIC_SUBJECT_TOKEN''
     else static_loop (tokens @ [t]) ts)"

text \<open>An error, nothing when the variable is unset, or the accepted tokens.\<close>

definition parseStaticSubjectTokens :: "string option \<Rightarrow> string + string list option" where
  "parseStaticSubjectTokens raw =
    (case raw of
       None \<Rightarrow> Inr None
     | Some s \<Rightarrow>
         if trim s = [] then Inr None
         else let parts = comma_parts s in
           if parts = [] then Inl ''FUDA_STATIC_SUBJECT_TOKEN must list at least one subject token''
           else map_sum id Some (static_loop [] parts))"

definition static_validate :: "string list \<Rightarrow> string \<Rightarrow> subject_result" where
  "static_validate tokens subjectToken =
    (let token = trim subjectToken in
     if token = [] then SubjectInvalid
     else if token \<notin> set tokens then SubjectInvalid
     else SubjectBearer platform_bearer_id)"

section \<open>Service accounts of Kubernetes\<close>

definition registryKey :: "string \<Rightarrow> string \<Rightarrow> string" where
  "registryKey namespace name = ''k8s_service_account:'' @ namespace @ ''/'' @ name"

text \<open>\<^verbatim>\<open>/^system:serviceaccount:(?<namespace>[^:]+):(?<name>.+)$/\<close>\<close>

definition parseK8sSaSubject :: "string \<Rightarrow> (string \<times> string) option" where
  "parseK8sSaSubject subject =
    (let p = ''system:serviceaccount:''; r = drop (length p) subject;
         namespace = takeWhile (\<lambda>c. c \<noteq> CHR '':'') r; rest = dropWhile (\<lambda>c. c \<noteq> CHR '':'') r in
     if \<not> starts_with p subject \<or> namespace = [] \<or> rest = [] \<or> tl rest = [] \<or> (\<exists>c \<in> set (tl rest). line_terminator c) then None
     else Some (namespace, tl rest))"

definition k8s_entry :: "string \<Rightarrow> string + string" where
  "k8s_entry part =
    (let namespace = takeWhile (\<lambda>c. c \<noteq> CHR ''/'') part; name = tl (dropWhile (\<lambda>c. c \<noteq> CHR ''/'') part) in
     if CHR ''='' \<in> set part
     then Inl ''Invalid FUDA_K8S_SA_OIDC_SUBJECTS entry: expected namespace/serviceAccount (not namespace/serviceAccount=bearer_id)''
     else if CHR ''/'' \<notin> set part \<or> namespace = [] \<or> name = []
     then Inl ''Invalid FUDA_K8S_SA_OIDC_SUBJECTS entry: expected namespace/serviceAccount''
     else Inr (registryKey namespace name))"

fun k8s_loop :: "string list \<Rightarrow> string list \<Rightarrow> string + string list" where
  "k8s_loop subjects [] = Inr subjects"
| "k8s_loop subjects (p # ps) =
    (case k8s_entry p of
       Inl e \<Rightarrow> Inl e
     | Inr key \<Rightarrow> if key \<in> set subjects then Inl ''Duplicate subject in FUDA_K8S_SA_OIDC_SUBJECTS'' else k8s_loop (subjects @ [key]) ps)"

definition parseK8sSaSubjects :: "string option \<Rightarrow> string + string list option" where
  "parseK8sSaSubjects raw =
    (case raw of
       None \<Rightarrow> Inr None
     | Some s \<Rightarrow>
         if trim s = [] then Inr None
         else let parts = comma_parts s in
           if parts = [] then Inl ''FUDA_K8S_SA_OIDC_SUBJECTS must list at least one namespace/serviceAccount entry''
           else map_sum id Some (k8s_loop [] parts))"

record k8s_config =
  kc_issuer :: string
  kc_audience :: string
  kc_jwksUri :: string
  kc_jwksBearerTokenFile :: "string option"
  kc_subjects :: "string list"

text \<open>
  \<open>verify issuer audience token\<close>: the \<open>sub\<close> of the verified payload, when the payload has one;
  \<open>None\<close>: the verification failed. Every failure becomes a validation error.
\<close>

type_synonym jwt_verify = "string \<Rightarrow> string \<Rightarrow> string \<Rightarrow> json option option"

definition k8s_validate :: "jwt_verify \<Rightarrow> k8s_config \<Rightarrow> string \<Rightarrow> subject_result" where
  "k8s_validate verify c subjectToken =
    (case verify (kc_issuer c) (kc_audience c) subjectToken of
       Some (Some (JStr sub)) \<Rightarrow>
         (case parseK8sSaSubject sub of
            None \<Rightarrow> SubjectInvalid
          | Some (namespace, name) \<Rightarrow>
              if registryKey namespace name \<notin> set (kc_subjects c) then SubjectInvalid else SubjectBearer platform_bearer_id)
     | _ \<Rightarrow> SubjectInvalid)"

definition readEnv :: "environment \<Rightarrow> string \<Rightarrow> string option" where
  "readEnv env name = Option.bind (env name) (\<lambda>v. nonempty (trim v))"

definition tryResolveK8sSaOidcSubjectConfig :: "environment \<Rightarrow> string + k8s_config option" where
  "tryResolveK8sSaOidcSubjectConfig env =
    (let issuer = readEnv env ''FUDA_K8S_SA_OIDC_ISSUER''; audience = readEnv env ''FUDA_K8S_SA_OIDC_AUDIENCE'';
         jwksUri = readEnv env ''FUDA_K8S_SA_OIDC_JWKS_URI'' in
     case parseK8sSaSubjects (env ''FUDA_K8S_SA_OIDC_SUBJECTS'') of
       Inl e \<Rightarrow> Inl e
     | Inr subjects \<Rightarrow>
         if issuer = None \<and> audience = None \<and> jwksUri = None \<and> subjects = None then Inr None
         else (case (audience, jwksUri, subjects) of
             (Some a, Some u, Some s) \<Rightarrow>
               Inr (Some \<lparr>kc_issuer = or_else issuer [], kc_audience = a, kc_jwksUri = u,
                 kc_jwksBearerTokenFile = readEnv env ''FUDA_K8S_SA_OIDC_JWKS_BEARER_TOKEN_FILE'', kc_subjects = s\<rparr>)
           | _ \<Rightarrow> Inl ''K8s SA OIDC is partially configured; set FUDA_K8S_SA_OIDC_AUDIENCE, FUDA_K8S_SA_OIDC_JWKS_URI, and FUDA_K8S_SA_OIDC_SUBJECTS together (FUDA_K8S_SA_OIDC_ISSUER is optional and discovered in-cluster when omitted)''))"

section \<open>The choice of the validator\<close>

datatype validator_config = StaticConfig "string list" | K8sConfig k8s_config

definition rejectRemovedMappingEnv :: "environment \<Rightarrow> string + unit" where
  "rejectRemovedMappingEnv env =
    (if readEnv env ''FUDA_STATIC_SUBJECT_MAPPINGS'' \<noteq> None then Inl ''FUDA_STATIC_SUBJECT_MAPPINGS is removed; set FUDA_STATIC_SUBJECT_TOKEN to the shared secret (comma-list for rotation). Allowed subjects resolve to shaiden-runner''
     else if readEnv env ''FUDA_K8S_SA_OIDC_SUBJECT_MAPPINGS'' \<noteq> None then Inl ''FUDA_K8S_SA_OIDC_SUBJECT_MAPPINGS is removed; set FUDA_K8S_SA_OIDC_SUBJECTS to namespace/serviceAccount (no =bearer_id). Allowed subjects resolve to shaiden-runner''
     else Inr ())"

definition tryResolveSubjectTokenValidatorConfig :: "environment \<Rightarrow> string + validator_config option" where
  "tryResolveSubjectTokenValidatorConfig env =
    (case rejectRemovedMappingEnv env of
       Inl e \<Rightarrow> Inl e
     | Inr _ \<Rightarrow>
         (case parseStaticSubjectTokens (env ''FUDA_STATIC_SUBJECT_TOKEN'') of
            Inl e \<Rightarrow> Inl e
          | Inr tokens \<Rightarrow>
              (case tryResolveK8sSaOidcSubjectConfig env of
                 Inl e \<Rightarrow> Inl e
               | Inr k8s \<Rightarrow>
                   if tokens \<noteq> None \<and> k8s \<noteq> None then Inl ''Ambiguous subject token validator configuration: set either FUDA_STATIC_SUBJECT_TOKEN or FUDA_K8S_SA_OIDC_* , not both''
                   else Inr (case tokens of Some ts \<Rightarrow> Some (StaticConfig ts) | None \<Rightarrow> map_option K8sConfig k8s))))"

definition resolveSubjectTokenValidatorConfig :: "environment \<Rightarrow> string + validator_config" where
  "resolveSubjectTokenValidatorConfig env =
    (case tryResolveSubjectTokenValidatorConfig env of
       Inl e \<Rightarrow> Inl e
     | Inr None \<Rightarrow> Inl ''No subject token validator configured; set FUDA_STATIC_SUBJECT_TOKEN (or FUDA_K8S_SA_OIDC_* together)''
     | Inr (Some c) \<Rightarrow> Inr c)"

definition createSubjectTokenValidator :: "jwt_verify \<Rightarrow> validator_config \<Rightarrow> string \<Rightarrow> subject_result" where
  "createSubjectTokenValidator verify config =
    (case config of StaticConfig tokens \<Rightarrow> static_validate tokens | K8sConfig c \<Rightarrow> k8s_validate verify c)"

section \<open>The accepted subjects are those of the environment\<close>

lemma static_loop_tokens: "static_loop ts ps = Inr us \<Longrightarrow> us = ts @ ps"
  by (induction ps arbitrary: ts) (fastforce split: if_splits)+

lemma map_sum_Inr: "map_sum id f x = Inr y \<longleftrightarrow> (\<exists>z. x = Inr z \<and> y = f z)"
  by (cases x) auto

definition service_account_key :: "string \<Rightarrow> string" where
  "service_account_key p = ''k8s_service_account:'' @ p"

lemma parse_static: "parseStaticSubjectTokens raw = Inr (Some ts) \<Longrightarrow> ts = comma_parts (or_else raw [])"
  by (auto simp: parseStaticSubjectTokens_def Let_def map_sum_Inr split: option.splits if_splits dest!: static_loop_tokens)

lemma k8s_entry_key: "k8s_entry p = Inr key \<Longrightarrow> key = service_account_key p"
proof -
  assume e: "k8s_entry p = Inr key"
  then have "CHR ''/'' \<in> set p" by (auto simp: k8s_entry_def Let_def split: if_splits)
  then have "dropWhile (\<lambda>c. c \<noteq> CHR ''/'') p = CHR ''/'' # tl (dropWhile (\<lambda>c. c \<noteq> CHR ''/'') p)"
    by (induction p) auto
  then have "p = takeWhile (\<lambda>c. c \<noteq> CHR ''/'') p @ CHR ''/'' # tl (dropWhile (\<lambda>c. c \<noteq> CHR ''/'') p)"
    by (metis takeWhile_dropWhile_id)
  then show ?thesis using e by (auto simp: k8s_entry_def Let_def registryKey_def service_account_key_def split: if_splits)
qed

lemma k8s_loop_keys: "k8s_loop ks ps = Inr us \<Longrightarrow> us = ks @ map service_account_key ps"
  by (induction ps arbitrary: ks) (fastforce split: if_splits sum.splits dest: k8s_entry_key)+

lemma parse_k8s: "parseK8sSaSubjects raw = Inr (Some ks) \<Longrightarrow> ks = map service_account_key (comma_parts (or_else raw []))"
  by (auto simp: parseK8sSaSubjects_def Let_def map_sum_Inr split: option.splits if_splits dest!: k8s_loop_keys)

lemma k8s_resolved:
  "tryResolveK8sSaOidcSubjectConfig env = Inr (Some c) \<Longrightarrow>
   parseK8sSaSubjects (env ''FUDA_K8S_SA_OIDC_SUBJECTS'') = Inr (Some (kc_subjects c))"
  by (auto simp: tryResolveK8sSaOidcSubjectConfig_def Let_def split: sum.splits if_splits option.splits)

lemma parse_subject:
  assumes "CHR '':'' \<notin> set ns" "ns \<noteq> []" "one_line name"
  shows "parseK8sSaSubject (''system:serviceaccount:'' @ ns @ '':'' @ name) = Some (ns, name)"
proof -
  have "takeWhile (\<lambda>c. c \<noteq> CHR '':'') (ns @ CHR '':'' # name) = ns" "dropWhile (\<lambda>c. c \<noteq> CHR '':'') (ns @ CHR '':'' # name) = CHR '':'' # name"
    using assms(1) by (induction ns) auto
  then show ?thesis using assms(2,3) by (simp add: parseK8sSaSubject_def Let_def starts_with_def one_line_def)
qed


definition example_env :: environment where
  "example_env = map_of [(''FUDA_STATIC_SUBJECT_TOKEN'', ''s1, s2'')]"


end
