(* ===== verification/UiAuth.thy ===== *)
theory UiAuth
  imports FudaAccess
begin

text \<open>
  The server in front of the services: cookies and sessions, the login of an operator, the cached
  view of Fuda's owners, the gates on paths, and what the proxy sends to a service. Sealing and
  unsealing of cookies, percent-decoding, URL parsing and the router that matches a path are
  parameters.
\<close>

section \<open>Paths\<close>

definition pathname_of :: "string \<Rightarrow> string" where
  "pathname_of url = before_char (CHR ''?'') url"

definition upper_letter :: "char \<Rightarrow> char" where
  "upper_letter c = (let n = of_char c :: nat in if 97 \<le> n \<and> n \<le> 122 then char_of (n - 32) else c)"

definition upper_method :: "string \<Rightarrow> string" where
  "upper_method s = map upper_letter s"

definition wantsApi :: "string \<Rightarrow> bool" where
  "wantsApi url \<longleftrightarrow> pathname_of url = ''/api'' \<or> starts_with ''/api/'' (pathname_of url)"

definition isPublicApiPath :: "string \<Rightarrow> bool" where
  "isPublicApiPath url \<longleftrightarrow> pathname_of url = ''/api/session''"

definition isAgentCreatePath :: "string \<Rightarrow> bool" where
  "isAgentCreatePath url \<longleftrightarrow> pathname_of url \<in> {''/'', '''', ''/api/agents''}"

definition isInternalOnlyToriiPath :: "string \<Rightarrow> bool" where
  "isInternalOnlyToriiPath url \<longleftrightarrow>
    pathname_of url = ''/oauth/grants'' \<or> starts_with ''/oauth/grants/'' (pathname_of url) \<or>
    pathname_of url = ''/api/oauth/grants'' \<or> starts_with ''/api/oauth/grants/'' (pathname_of url)"

text \<open>The last segments of a path, last first: the two regular expressions look at three of them.\<close>

definition segments :: "string \<Rightarrow> string list" where
  "segments p = rev (split_on (CHR ''/'') p)"

definition reconnect_path :: "string \<Rightarrow> bool" where
  "reconnect_path p = (case segments p of a # b # c # _ \<Rightarrow> a = ''reconnect'' \<and> b \<noteq> [] \<and> c = ''connections'' | _ \<Rightarrow> False)"

definition oauth_connection_path :: "string \<Rightarrow> bool" where
  "oauth_connection_path p = (case segments p of a # b # c # _ \<Rightarrow> a \<noteq> [] \<and> b = ''connections'' \<and> c = ''oauth'' | _ \<Rightarrow> False)"

definition isSessionOwnerQueryRequest :: "string \<Rightarrow> string \<Rightarrow> bool" where
  "isSessionOwnerQueryRequest httpMethod url =
    (let p = pathname_of url; m = upper_method httpMethod in
     if m = ''POST''
     then starts_with ''/oauth/initiate/'' p \<or> starts_with ''/api/oauth/initiate/'' p \<or>
       p = ''/connections/reconnect'' \<or> p = ''/api/connections/reconnect'' \<or> reconnect_path p
     else if m = ''GET''
     then p \<in> {''/oauth/connections'', ''/api/oauth/connections'', ''/connections'', ''/api/connections'',
       ''/connections/events'', ''/api/connections/events''}
     else if m = ''DELETE'' then oauth_connection_path p
     else False)"

definition ends_with :: "string \<Rightarrow> string \<Rightarrow> bool" where
  "ends_with e s \<longleftrightarrow> starts_with (rev e) (rev s)"

definition isBlockedBrowserOperatorRoute :: "string \<Rightarrow> string \<Rightarrow> bool" where
  "isBlockedBrowserOperatorRoute httpMethod url =
    (let p = pathname_of url in
     upper_method httpMethod = ''POST'' \<and>
     (p = ''/api/owners/resolve-or-provision'' \<or> p = ''/resolve-or-provision'' \<or> ends_with ''/owners/resolve-or-provision'' p))"

definition isBearerMutation :: "string \<Rightarrow> bool" where
  "isBearerMutation httpMethod \<longleftrightarrow> upper_method httpMethod \<in> {''POST'', ''PATCH'', ''DELETE''}"

definition forceSessionOwnerOnAgentCreateBody :: "json \<Rightarrow> string \<Rightarrow> json" where
  "forceSessionOwnerOnAgentCreateBody body ownerId =
    (case body of JObj kvs \<Rightarrow> JObj (map_put ''ownerId'' (JStr ownerId) kvs) | _ \<Rightarrow> JObj [(''ownerId'', JStr ownerId)])"

section \<open>The service token\<close>

definition isBffServiceTokenProtectedPath :: "string \<Rightarrow> bool" where
  "isBffServiceTokenProtectedPath url =
    (let path = pathname_of url in if path = ''/api/health'' then False else path = ''/api'' \<or> starts_with ''/api/'' path)"

definition extractBearerCredential :: "header_value option \<Rightarrow> string option" where
  "extractBearerCredential authorization =
    (case (case authorization of None \<Rightarrow> None | Some (HOne s) \<Rightarrow> Some s | Some (HMany xs) \<Rightarrow> (case xs of [] \<Rightarrow> None | x # _ \<Rightarrow> Some x)) of
       None \<Rightarrow> None
     | Some header \<Rightarrow> if \<not> starts_with ''Bearer '' header then None else nonempty (trim (drop (length ''Bearer '') header)))"

text \<open>Whether the service handles the request; otherwise it has answered 401.\<close>

definition authorizeBffServiceToken :: "string option \<Rightarrow> header_value option \<Rightarrow> string \<Rightarrow> bool" where
  "authorizeBffServiceToken expectedToken authorization url =
    (if \<not> truthy_str expectedToken then True
     else if \<not> isBffServiceTokenProtectedPath url then True
     else extractBearerCredential authorization = expectedToken)"

section \<open>Cookies\<close>

definition cookie_entry :: "(string \<Rightarrow> string option) \<Rightarrow> (string \<times> string) list \<Rightarrow> string \<Rightarrow> (string \<times> string) list" where
  "cookie_entry decode cookies part =
    (let t = trim part; name = takeWhile (\<lambda>c. c \<noteq> CHR ''='') t in
     if t = [] \<or> CHR ''='' \<notin> set t \<or> name = [] then cookies
     else (case decode (trim (tl (dropWhile (\<lambda>c. c \<noteq> CHR ''='') t))) of
         None \<Rightarrow> cookies | Some v \<Rightarrow> map_put (trim name) v cookies))"

definition parseCookieHeader :: "(string \<Rightarrow> string option) \<Rightarrow> string \<Rightarrow> (string \<times> string) list" where
  "parseCookieHeader decode header = (if header = [] then [] else foldl (cookie_entry decode) [] (split_on (CHR '';'') header))"

definition readCookie :: "(string \<Rightarrow> string option) \<Rightarrow> headers \<Rightarrow> string \<Rightarrow> string option" where
  "readCookie decode hs name =
    (case map_of hs ''cookie'' of Some (HOne header) \<Rightarrow> map_of (parseCookieHeader decode header) name | _ \<Rightarrow> None)"

section \<open>Sessions\<close>

record operator_principal =
  op_googleSub :: string
  op_email :: string
  op_ownerId :: string
  op_role :: operator_role
  op_name :: "string option"
  op_picture :: "string option"

record owner_access =
  ax_active :: bool
  ax_role :: operator_role

text \<open>
  \<open>au_unseal\<close>: the payload of a sealed cookie that is genuine and has not expired. The two checks of
  an owner run in a state of type \<open>'s\<close>, where they may fail.
\<close>

record 's auth_config =
  au_operators :: "operator_entry list"
  au_decode :: "string \<Rightarrow> string option"
  au_unseal :: "string \<Rightarrow> json option"
  au_getOwnerAccess :: "(string \<Rightarrow> ('s, fuda_exn, owner_access) comp) option"
  au_isOwnerActive :: "(string \<Rightarrow> ('s, fuda_exn, bool) comp) option"

definition operator_session_cookie :: string where "operator_session_cookie = ''keidai_operator_session''"

definition session_payload :: "operator_principal \<Rightarrow> json" where
  "session_payload p = JObj ([(''googleSub'', JStr (op_googleSub p)), (''email'', JStr (op_email p)), (''ownerId'', JStr (op_ownerId p)),
     (''role'', JStr (role_str (op_role p)))]
     @ (case op_name p of Some n \<Rightarrow> if n = [] then [] else [(''name'', JStr n)] | None \<Rightarrow> [])
     @ (case op_picture p of Some n \<Rightarrow> if n = [] then [] else [(''picture'', JStr n)] | None \<Rightarrow> []))"

definition live_access :: "'s auth_config \<Rightarrow> string \<Rightarrow> operator_role \<Rightarrow> ('s, fuda_exn, operator_role option) comp" where
  "live_access cfg ownerId sealed =
    (case au_getOwnerAccess cfg of
       Some f \<Rightarrow>
         catchM (bindM (f ownerId) (\<lambda>access. returnM (if ax_active access then Some (ax_role access) else None))) (\<lambda>_. returnM None)
     | None \<Rightarrow>
         (case au_isOwnerActive cfg of
            Some f \<Rightarrow> catchM (bindM (f ownerId) (\<lambda>active. returnM (if active then Some sealed else None))) (\<lambda>_. returnM None)
          | None \<Rightarrow> returnM (Some sealed)))"

definition readOperatorSession :: "'s auth_config \<Rightarrow> headers \<Rightarrow> ('s, fuda_exn, operator_principal option) comp" where
  "readOperatorSession cfg hs =
    (case readCookie (au_decode cfg) hs operator_session_cookie of
       None \<Rightarrow> returnM None
     | Some raw \<Rightarrow>
         if raw = [] then returnM None
         else (case au_unseal cfg raw of
             None \<Rightarrow> returnM None
           | Some payload \<Rightarrow>
               (case (as_string (prop_of ''googleSub'' payload), as_string (prop_of ''email'' payload), as_string (prop_of ''ownerId'' payload)) of
                  (Some sub, Some email, Some ownerId) \<Rightarrow>
                    if au_operators cfg \<noteq> [] \<and> \<not> isOperatorInRegistry (au_operators cfg) \<lparr>cl_googleSub = sub, cl_email = email\<rparr>
                    then returnM None
                    else bindM (live_access cfg ownerId (if as_string (prop_of ''role'' payload) = Some ''admin'' then Admin else Member)) (\<lambda>role.
                      returnM (case role of
                          None \<Rightarrow> None
                        | Some r \<Rightarrow> Some \<lparr>op_googleSub = sub, op_email = email, op_ownerId = ownerId, op_role = r,
                            op_name = as_string (prop_of ''name'' payload), op_picture = as_string (prop_of ''picture'' payload)\<rparr>))
                | _ \<Rightarrow> returnM None)))"

section \<open>Fuda's owners, as the server sees them\<close>

text \<open>
  The cache of owner accesses with its expiries, the registry behind Fuda's API, and the clock. A
  lookup that is in flight is shared by the callers; here lookups run one after the other.
\<close>

record owner_client =
  cw_cache :: "(string \<times> (owner_access \<times> int)) list"
  cw_fuda :: fuda_db
  cw_now :: int

definition default_owner_active_cache_ttl_ms :: int where "default_owner_active_cache_ttl_ms = 5000"

definition rememberAccess :: "int \<Rightarrow> string \<Rightarrow> owner_access \<Rightarrow> owner_client \<Rightarrow> owner_client" where
  "rememberAccess ttl ownerId access w =
    (if ttl \<le> 0 then w else w\<lparr>cw_cache := map_put ownerId (access, cw_now w + ttl) (cw_cache w)\<rparr>)"

text \<open>The lookup presents the server itself, as an administrator.\<close>

definition bff_operator :: operator_context where
  "bff_operator = \<lparr>oc_ownerId = ''keidai-bff'', oc_role = Admin\<rparr>"

definition get_owner_response :: "string \<Rightarrow> fuda_db \<Rightarrow> fuda_exn + owner_reply" where
  "get_owner_response ownerId db = fst (handle_get_owner (operatorContextHeaders bff_operator) ownerId \<lparr>fw_db = db, fw_others = []\<rparr>)"

definition fetchOwnerAccess :: "int \<Rightarrow> string \<Rightarrow> (owner_client, fuda_exn, owner_access) comp" where
  "fetchOwnerAccess ttl ownerId w =
    (let missing = \<lparr>ax_active = False, ax_role = Member\<rparr> in
     case get_owner_response ownerId (cw_fuda w) of
       Inl e \<Rightarrow> (Inl e, w)
     | Inr (status, body) \<Rightarrow>
         if status = 404 then (Inr missing, rememberAccess ttl ownerId missing w)
         else if status \<noteq> 200 then (Inl (FudaError ''Fuda owner lookup failed''), w)
         else (let access = (case body of
                   OwnerBody r \<Rightarrow> \<lparr>ax_active = (ow_status r = ActiveOwner), ax_role = ow_role r\<rparr> | _ \<Rightarrow> missing) in
               (Inr access, rememberAccess ttl ownerId access w)))"

definition loadOwnerAccess :: "int \<Rightarrow> string \<Rightarrow> (owner_client, fuda_exn, owner_access) comp" where
  "loadOwnerAccess ttl ownerId w =
    (case (if 0 < ttl then map_of (cw_cache w) ownerId else None) of
       Some (access, expiresAt) \<Rightarrow> if cw_now w < expiresAt then (Inr access, w) else fetchOwnerAccess ttl ownerId w
     | None \<Rightarrow> fetchOwnerAccess ttl ownerId w)"

section \<open>Logins\<close>

record oidc_claims =
  od_googleSub :: string
  od_email :: string
  od_name :: "string option"
  od_picture :: "string option"
  od_hd :: "string option"

record login_policy =
  lp_domains :: "string list"
  lp_issuer :: string
  lp_google :: bool
  lp_operators :: "operator_entry list"

datatype provision_result = Provisioned string "operator_role option" | ProvisionDisabled

datatype login_resolution =
    LoginAs (la_ownerId: string) (la_role: operator_role) (la_email: string) (la_name: "string option") (la_picture: "string option")
  | LoginForbidden
  | LoginOwnerDisabled

definition emailDomain :: "string \<Rightarrow> string" where
  "emailDomain email = (case split_on (CHR ''@'') email of a # d # _ \<Rightarrow> lower (trim d) | _ \<Rightarrow> [])"

definition matchingOperator :: "operator_entry list \<Rightarrow> oidc_claims \<Rightarrow> operator_entry option" where
  "matchingOperator es claims =
    (case find (\<lambda>e. truthy_str (oe_google_sub e) \<and> oe_google_sub e = Some (od_googleSub claims)) es of
       Some e \<Rightarrow> Some e
     | None \<Rightarrow> find (\<lambda>e. truthy_str (oe_google_email e) \<and> oe_google_email e = Some (lower (trim (od_email claims)))) es)"

definition domain_refused :: "login_policy \<Rightarrow> oidc_claims \<Rightarrow> bool" where
  "domain_refused lp claims \<longleftrightarrow> lp_domains lp \<noteq> [] \<and>
    (emailDomain (od_email claims) = [] \<or> emailDomain (od_email claims) \<notin> set (lp_domains lp) \<or>
     lp_google lp \<and> (case od_hd claims of None \<Rightarrow> True | Some d \<Rightarrow> lower (trim d) = [] \<or> lower (trim d) \<notin> set (lp_domains lp)))"

definition claims_of :: "oidc_claims \<Rightarrow> operator_claims" where
  "claims_of c = \<lparr>cl_googleSub = od_googleSub c, cl_email = od_email c\<rparr>"

definition truthy_opt :: "string option \<Rightarrow> string option" where
  "truthy_opt s = (if truthy_str s then s else None)"

definition resolveLoginOwner ::
    "login_policy \<Rightarrow> (login_input \<Rightarrow> ('s, fuda_exn, provision_result) comp) option \<Rightarrow> oidc_claims \<Rightarrow> ('s, fuda_exn, login_resolution) comp" where
  "resolveLoginOwner lp provisionOwner claims =
    (let allowlist = lp_operators lp \<noteq> []; hintedRole = Option.bind (matchingOperator (lp_operators lp) claims) oe_role;
         resolved = resolveOwnerIdFromOperators (lp_operators lp) (claims_of claims);
         done = (\<lambda>ownerId role. LoginAs ownerId role (od_email claims) (truthy_opt (od_name claims)) (truthy_opt (od_picture claims))) in
     if domain_refused lp claims then returnM LoginForbidden
     else if allowlist \<and> \<not> isOperatorInRegistry (lp_operators lp) (claims_of claims) then returnM LoginForbidden
     else (case provisionOwner of
         Some f \<Rightarrow>
           bindM (f \<lparr>li_identity = \<lparr>oi_issuer = lp_issuer lp, oi_sub = od_googleSub claims, oi_email = od_email claims,
               oi_displayName = truthy_opt (od_name claims), oi_pictureUrl = truthy_opt (od_picture claims)\<rparr>,
             li_ownerId = truthy_opt (if allowlist then resolved else None), li_role = hintedRole\<rparr>) (\<lambda>r.
           returnM (case r of
               ProvisionDisabled \<Rightarrow> LoginOwnerDisabled
             | Provisioned ownerId role \<Rightarrow> done ownerId (or_else role (or_else hintedRole Member))))
       | None \<Rightarrow>
           returnM (if truthy_str resolved then done (or_else resolved []) (or_else hintedRole Member) else LoginForbidden)))"

section \<open>The callback of a login\<close>

definition operator_oidc_state_cookie :: string where "operator_oidc_state_cookie = ''keidai_oidc_state''"

record oidc_pending_state =
  ps_state :: string
  ps_codeVerifier :: string

definition readOidcPendingState :: "'s auth_config \<Rightarrow> headers \<Rightarrow> oidc_pending_state option" where
  "readOidcPendingState cfg hs =
    (case readCookie (au_decode cfg) hs operator_oidc_state_cookie of
       None \<Rightarrow> None
     | Some raw \<Rightarrow>
         if raw = [] then None
         else (case au_unseal cfg raw of
             None \<Rightarrow> None
           | Some payload \<Rightarrow>
               (case (as_string (prop_of ''state'' payload), as_string (prop_of ''codeVerifier'' payload)) of
                  (Some st, Some v) \<Rightarrow> Some \<lparr>ps_state = st, ps_codeVerifier = v\<rparr> | _ \<Rightarrow> None)))"

record callback_query =
  cq_error :: "string option"
  cq_code :: "string option"
  cq_state :: "string option"

text \<open>
  Every reply clears the state cookie; \<open>SignedIn\<close> also sets the session cookie that seals its
  principal. \<open>exchange\<close>: the exchange of the code for verified claims at the identity provider.
\<close>

datatype callback_reply = AuthError string | ForbiddenPage string | DisabledPage string | SignedIn operator_principal

definition principal_of :: "oidc_claims \<Rightarrow> login_resolution \<Rightarrow> operator_principal" where
  "principal_of c r = \<lparr>op_googleSub = od_googleSub c, op_email = od_email c, op_ownerId = la_ownerId r, op_role = la_role r,
     op_name = truthy_opt (la_name r), op_picture = truthy_opt (la_picture r)\<rparr>"

definition handle_callback ::
    "'s auth_config \<Rightarrow> login_policy \<Rightarrow> (login_input \<Rightarrow> ('s, fuda_exn, provision_result) comp) option
     \<Rightarrow> (string \<Rightarrow> string \<Rightarrow> oidc_claims option) \<Rightarrow> headers \<Rightarrow> callback_query \<Rightarrow> ('s, fuda_exn, callback_reply) comp" where
  "handle_callback cfg lp provisionOwner exchange hs q =
    (if truthy_str (cq_error q) then returnM (AuthError (or_else (cq_error q) []))
     else if \<not> truthy_str (cq_code q) \<or> \<not> truthy_str (cq_state q) then returnM (AuthError ''missing_code'')
     else (case readOidcPendingState cfg hs of
         None \<Rightarrow> returnM (AuthError ''invalid_state'')
       | Some pending \<Rightarrow>
           if Some (ps_state pending) \<noteq> cq_state q then returnM (AuthError ''invalid_state'')
           else (case exchange (or_else (cq_code q) []) (ps_codeVerifier pending) of
               None \<Rightarrow> returnM (AuthError ''token_exchange'')
             | Some claims \<Rightarrow>
                 catchM
                   (bindM (resolveLoginOwner lp provisionOwner claims) (\<lambda>r.
                    returnM (case r of
                        LoginForbidden \<Rightarrow> ForbiddenPage (od_email claims)
                      | LoginOwnerDisabled \<Rightarrow> DisabledPage (od_email claims)
                      | LoginAs _ _ _ _ _ \<Rightarrow> SignedIn (principal_of claims r))))
                   (\<lambda>_. returnM (AuthError ''owner_provision'')))))"

section \<open>The proxy\<close>

datatype backend = ToriiBackend | FudaBackend | ShaidenBackend

text \<open>The mounts, with the path a mounted prefix is rewritten to.\<close>

definition operator_api_routes :: "(string \<times> backend \<times> string) list" where
  "operator_api_routes =
    [(''/oauth/callback'', ToriiBackend, ''/oauth/callback''), (''/api/shaiden/health'', ShaidenBackend, ''/api/health''),
     (''/api/tasks'', ShaidenBackend, ''/api/tasks''), (''/api/runs'', ShaidenBackend, ''/api/runs''),
     (''/api/openrouter'', ShaidenBackend, ''/api/openrouter''), (''/api/fuda/health'', FudaBackend, ''/api/health''),
     (''/api/agents'', FudaBackend, ''/api/agents''), (''/api/bearers'', FudaBackend, ''/api/bearers''),
     (''/api/owners'', FudaBackend, ''/api/owners''), (''/api/traces'', ToriiBackend, ''/api/traces''), (''/api'', ToriiBackend, ''/api'')]"

record bff_request =
  bq_method :: string
  bq_url :: string
  bq_headers :: headers
  bq_body :: json

record upstream_request =
  ur_backend :: backend
  ur_prefix :: string
  ur_url :: string
  ur_headers :: headers
  ur_body :: json

datatype bff_reply = Refused nat string | Forwarded upstream_request

text \<open>
  \<open>route\<close>: the mount that the router matches for a request (its decoding of the path and the
  precedence of prefixes are the router's); \<open>force_owner\<close>: \<open>forceSessionOwnerQuery\<close>, which the URL
  parser computes.
\<close>

record bff_config =
  bf_route :: "string \<Rightarrow> (string \<times> backend \<times> string) option"
  bf_force_owner :: "string \<Rightarrow> string \<Rightarrow> string"
  bf_serviceToken :: "string option"

text \<open>\<open>onRequest\<close>: the session of a request for the API.\<close>

definition session_gate :: "'s auth_config \<Rightarrow> bff_request \<Rightarrow> ('s, fuda_exn, bff_reply + operator_principal option) comp" where
  "session_gate cfg q =
    (if \<not> wantsApi (bq_url q) \<or> isPublicApiPath (bq_url q) then returnM (Inr None)
     else bindM (readOperatorSession cfg (bq_headers q)) (\<lambda>p.
       returnM (case p of None \<Rightarrow> Inl (Refused 401 ''Unauthorized'') | Some p' \<Rightarrow> Inr (Some p'))))"

definition enforceSessionOwnerOnAgentProxy :: "operator_principal option \<Rightarrow> bff_request \<Rightarrow> bff_reply + bff_request" where
  "enforceSessionOwnerOnAgentProxy p q =
    (if bq_method q \<noteq> ''POST'' \<or> \<not> isAgentCreatePath (bq_url q) then Inr q
     else (case map_option op_ownerId p of
         None \<Rightarrow> Inr q
       | Some ownerId \<Rightarrow>
           if ownerId = [] then Inr q
           else if \<not> is_object (bq_body q) then Inl (Refused 400 ''Invalid JSON body'')
           else Inr (q\<lparr>bq_body := forceSessionOwnerOnAgentCreateBody (bq_body q) ownerId\<rparr>)))"

definition enforceSessionOwnerOnToriiApiProxy ::
    "(string \<Rightarrow> string \<Rightarrow> string) \<Rightarrow> operator_principal option \<Rightarrow> bff_request \<Rightarrow> bff_reply + bff_request" where
  "enforceSessionOwnerOnToriiApiProxy force_owner p q =
    (if isInternalOnlyToriiPath (bq_url q) then Inl (Refused 403 ''Forbidden'')
     else if \<not> isSessionOwnerQueryRequest (bq_method q) (bq_url q) then Inr q
     else (case map_option op_ownerId p of
         None \<Rightarrow> Inr q
       | Some ownerId \<Rightarrow> if ownerId = [] then Inr q else Inr (q\<lparr>bq_url := force_owner (bq_url q) ownerId\<rparr>)))"

text \<open>The \<open>preHandler\<close> of a mount, when operators sign in.\<close>

definition pre_handler :: "bff_config \<Rightarrow> string \<Rightarrow> operator_principal option \<Rightarrow> bff_request \<Rightarrow> bff_reply + bff_request" where
  "pre_handler bf mount p q =
    (if mount = ''/api/owners'' \<and> isBlockedBrowserOperatorRoute (bq_method q) (bq_url q) then Inl (Refused 403 ''Forbidden'')
     else if mount = ''/api/bearers'' \<and> isBearerMutation (bq_method q) then Inl (Refused 403 ''Forbidden'')
     else if mount = ''/api'' then enforceSessionOwnerOnToriiApiProxy (bf_force_owner bf) p q
     else if mount = ''/api/agents'' then enforceSessionOwnerOnAgentProxy p q
     else Inr q)"

definition context_of :: "operator_principal \<Rightarrow> operator_context" where
  "context_of p = \<lparr>oc_ownerId = op_ownerId p, oc_role = op_role p\<rparr>"

definition rewrite_prefix :: "string \<Rightarrow> string \<Rightarrow> string \<Rightarrow> string" where
  "rewrite_prefix mount target url = (if starts_with mount url then target @ drop (length mount) url else url)"

definition proxy_request :: "bff_config \<Rightarrow> operator_principal option \<Rightarrow> bff_request \<Rightarrow> bff_reply" where
  "proxy_request bf p q =
    (case bf_route bf (bq_url q) of
       None \<Rightarrow> Refused 404 ''Not Found''
     | Some (mount, backend, target) \<Rightarrow>
         (case pre_handler bf mount p q of
            Inl r \<Rightarrow> r
          | Inr q' \<Rightarrow>
              Forwarded \<lparr>ur_backend = backend, ur_prefix = mount, ur_url = rewrite_prefix mount target (bq_url q'),
                ur_headers = forwardOperatorEdgeHeaders (bq_headers q) (map_option context_of p) (bq_headers q)
                  (if mount = ''/oauth/callback'' then None else bf_serviceToken bf),
                ur_body = bq_body q'\<rparr>))"

definition bff_handle :: "'s auth_config \<Rightarrow> bff_config \<Rightarrow> bff_request \<Rightarrow> ('s, fuda_exn, bff_reply) comp" where
  "bff_handle cfg bf q =
    bindM (session_gate cfg q) (\<lambda>g.
    returnM (case g of Inl r \<Rightarrow> r | Inr p \<Rightarrow> proxy_request bf p q))"

section \<open>The gates\<close>

lemma pre_handler_refuses: "pre_handler bf mount p q = Inl r \<Longrightarrow> \<exists>n s. r = Refused n s"
  by (auto simp: pre_handler_def enforceSessionOwnerOnToriiApiProxy_def enforceSessionOwnerOnAgentProxy_def split: if_splits option.splits)


text \<open>
  The gates compare the path as it was sent, the router the decoded path: a request without any
  session for a path with a percent-encoded letter of \<open>/api\<close>, which a decoding router still matches
  to the mount of the agents, is forwarded to Fuda with the service token and without an operator.
  Fuda's own gate accepts it, with or without the token, and its handlers take it for an internal
  call that may change every agent.
\<close>

theorem encoded_path_skips_the_gates:
  assumes "bf_route bf ''/%61pi/agents/a1'' = Some (''/api/agents'', FudaBackend, ''/api/agents'')"
    and "bq_url q = ''/%61pi/agents/a1''" "map_of (bq_headers q) ''cookie'' = None"
  shows "\<exists>u. bff_handle cfg bf q w = (Inr (Forwarded u), w) \<and> ur_backend u = FudaBackend \<and> ur_url u = bq_url q \<and>
    readOperatorContext (ur_headers u) = None \<and> canMutateAgent (readOperatorContext (ur_headers u)) ownerId \<and>
    authorizeBffServiceToken token (map_of (ur_headers u) ''authorization'') (ur_url u)"
proof -
  have path: "pathname_of (bq_url q) = ''/%61pi/agents/a1''" "\<not> wantsApi (bq_url q)" "\<not> isAgentCreatePath (bq_url q)"
    "\<not> isBffServiceTokenProtectedPath (bq_url q)" "\<not> starts_with ''/api/agents'' (bq_url q)"
    using assms(2) by (simp_all add: pathname_of_def before_char_def wantsApi_def isAgentCreatePath_def isBffServiceTokenProtectedPath_def
        starts_with_def)
  have "bff_handle cfg bf q w = (Inr (proxy_request bf None q), w)"
    using path(2) by (simp add: bff_handle_def session_gate_def comp_simps)
  moreover have "\<exists>u. proxy_request bf None q = Forwarded u \<and> ur_backend u = FudaBackend \<and> ur_url u = bq_url q \<and>
      readOperatorContext (ur_headers u) = announced None"
    using assms(1,2) path(3,5)
    by (simp add: proxy_request_def pre_handler_def enforceSessionOwnerOnAgentProxy_def rewrite_prefix_def client_cannot_choose_operator)
  ultimately show ?thesis
    using path(4) by (auto simp: announced_def canMutateAgent_def authorizeBffServiceToken_def)
qed

section \<open>Sessions follow Fuda\<close>

datatype session_step = ClockTick nat | VisitSession headers | FudaWrites "fuda_write list"

definition live_config :: "owner_client auth_config \<Rightarrow> bool" where
  "live_config cfg \<longleftrightarrow> au_getOwnerAccess cfg = Some (loadOwnerAccess default_owner_active_cache_ttl_ms)"

fun session_run :: "owner_client auth_config \<Rightarrow> session_step \<Rightarrow> owner_client \<Rightarrow> owner_client" where
  "session_run cfg (ClockTick n) w = w\<lparr>cw_now := cw_now w + int n\<rparr>"
| "session_run cfg (VisitSession hs) w = snd (readOperatorSession cfg hs w)"
| "session_run cfg (FudaWrites xs) w = w\<lparr>cw_fuda := run_ops run_fuda xs (cw_fuda w)\<rparr>"

definition fuda_access :: "fuda_db \<Rightarrow> string \<Rightarrow> owner_access" where
  "fuda_access db i = (case owner_of i db of None \<Rightarrow> \<lparr>ax_active = False, ax_role = Member\<rparr>
     | Some r \<Rightarrow> \<lparr>ax_active = (ow_status r = ActiveOwner), ax_role = ow_role r\<rparr>)"

lemma bff_is_admin: "AdminOnly (operatorContextHeaders bff_operator)"
  by (simp add: AdminOnly_def readOperatorContext_def bff_operator_def operatorContextHeaders_def header_names headerValue_def
      parse_role_def role_str_def trim_def is_space_def)

lemma fetch_access: "fetchOwnerAccess ttl i w = (Inr (fuda_access (cw_fuda w) i), rememberAccess ttl i (fuda_access (cw_fuda w) i) w)"
  by (cases "owner_of i (cw_fuda w)")
    (simp_all add: fetchOwnerAccess_def get_owner_response_def handle_get_owner_def bff_is_admin alone fuda_access_def
      owner_not_found_def Let_def)

text \<open>
  Every cached access is what Fuda says now, or expires at most the lifetime after \<open>t\<close>; none lives
  longer than its lifetime.
\<close>

definition fresh_cache :: "int \<Rightarrow> int \<Rightarrow> owner_client \<Rightarrow> bool" where
  "fresh_cache ttl t w \<longleftrightarrow> (\<forall>i a e. map_of (cw_cache w) i = Some (a, e) \<longrightarrow> e \<le> cw_now w + ttl \<and> (e \<le> t + ttl \<or> a = fuda_access (cw_fuda w) i))"

lemma fresh_remember: "fresh_cache ttl t w \<Longrightarrow> fresh_cache ttl t (rememberAccess ttl i (fuda_access (cw_fuda w) i) w)"
  by (auto simp: fresh_cache_def rememberAccess_def js_simps)

lemma load_fresh: "fresh_cache ttl t w \<Longrightarrow> fresh_cache ttl t (snd (loadOwnerAccess ttl i w))"
  by (auto simp: loadOwnerAccess_def fetch_access fresh_remember split: option.split)

lemma load_frame: "cw_now (snd (loadOwnerAccess ttl i w)) = cw_now w \<and> cw_fuda (snd (loadOwnerAccess ttl i w)) = cw_fuda w"
  by (auto simp: loadOwnerAccess_def fetch_access rememberAccess_def split: option.split)

lemma load_returns: "\<exists>a. loadOwnerAccess ttl i w = (Inr a, snd (loadOwnerAccess ttl i w))"
  by (auto simp: loadOwnerAccess_def fetch_access split: option.split)

lemma live_access_runs:
  assumes "live_config cfg" "loadOwnerAccess 5000 i w = (Inr a, w')"
  shows "live_access cfg i r w = (Inr (if ax_active a then Some (ax_role a) else None), w')"
  using assms by (simp add: live_access_def live_config_def comp_simps default_owner_active_cache_ttl_ms_def)

lemma read_session_state:
  assumes "live_config cfg"
  shows "\<exists>i. snd (readOperatorSession cfg hs w) = w \<or> snd (readOperatorSession cfg hs w) = snd (loadOwnerAccess 5000 i w)"
proof -
  define P where "P w' \<longleftrightarrow> (\<exists>i. w' = w \<or> w' = snd (loadOwnerAccess 5000 i w))" for w'
  have live: "wp (live_access cfg i r) (\<lambda>_ w'. P w') (\<lambda>_ w'. P w') w" for i r
  proof -
    obtain a where l: "loadOwnerAccess 5000 i w = (Inr a, snd (loadOwnerAccess 5000 i w))" using load_returns by blast
    show ?thesis using live_access_runs [OF assms l, of r] by (auto simp: wp_def P_def)
  qed
  have "wp (readOperatorSession cfg hs) (\<lambda>_ w'. P w') (\<lambda>_ w'. P w') w"
    using live by (auto simp: readOperatorSession_def wp_simps P_def split: option.split)
  then have "P (snd (readOperatorSession cfg hs w))" by (auto simp: wp_def split: prod.splits sum.splits)
  then show ?thesis by (auto simp: P_def)
qed

lemma read_session_fresh: "live_config cfg \<Longrightarrow> fresh_cache 5000 t w \<Longrightarrow> fresh_cache 5000 t (snd (readOperatorSession cfg hs w))"
  using read_session_state [of cfg hs w] load_fresh by fastforce

lemma read_session_frame:
  "live_config cfg \<Longrightarrow> cw_now (snd (readOperatorSession cfg hs w)) = cw_now w \<and> cw_fuda (snd (readOperatorSession cfg hs w)) = cw_fuda w"
  using read_session_state [of cfg hs w] load_frame by fastforce

lemma fresh_step:
  assumes "live_config cfg" "fresh_cache 5000 (cw_now w) w"
  shows "fresh_cache 5000 (cw_now (session_run cfg x w)) (session_run cfg x w)"
proof (cases x)
  case (VisitSession hs)
  then show ?thesis using read_session_fresh [OF assms] read_session_frame [OF assms(1)] by simp
qed (use assms(2) in \<open>fastforce simp: fresh_cache_def\<close>)+

lemma fresh_history:
  "live_config cfg \<Longrightarrow> fresh_cache 5000 (cw_now w) w \<Longrightarrow>
   fresh_cache 5000 (cw_now (run_ops (session_run cfg) xs w)) (run_ops (session_run cfg) xs w)"
  by (induction xs arbitrary: w) (simp_all add: fresh_step)

fun elapsed_ms :: "session_step list \<Rightarrow> int" where
  "elapsed_ms [] = 0"
| "elapsed_ms (ClockTick n # xs) = int n + elapsed_ms xs"
| "elapsed_ms (_ # xs) = elapsed_ms xs"

fun writes_fuda :: "session_step \<Rightarrow> bool" where
  "writes_fuda (FudaWrites xs) = True"
| "writes_fuda _ = False"

lemma fresh_quiet:
  assumes "live_config cfg" "fresh_cache 5000 t w" "\<forall>y \<in> set ys. \<not> writes_fuda y"
  shows "fresh_cache 5000 t (run_ops (session_run cfg) ys w) \<and> cw_now (run_ops (session_run cfg) ys w) = cw_now w + elapsed_ms ys"
  using assms(2,3)
proof (induction ys arbitrary: w)
  case (Cons y ys)
  show ?case
  proof (cases y)
    case (ClockTick n)
    have "fresh_cache 5000 t (w\<lparr>cw_now := cw_now w + int n\<rparr>)" using Cons.prems(1) by (fastforce simp: fresh_cache_def)
    from Cons.IH [OF this] Cons.prems(2) ClockTick show ?thesis by simp
  next
    case (VisitSession hs)
    from Cons.IH [OF read_session_fresh [OF assms(1) Cons.prems(1)]] Cons.prems(2) VisitSession
    show ?thesis using read_session_frame [OF assms(1)] by simp
  qed (use Cons.prems(2) in simp)
qed simp

lemma fresh_load:
  assumes "fresh_cache 5000 t w" "t + 5000 \<le> cw_now w"
  shows "fst (loadOwnerAccess 5000 i w) = Inr (fuda_access (cw_fuda w) i)"
  using assms by (fastforce simp: fresh_cache_def loadOwnerAccess_def fetch_access split: option.split)

text \<open>
  A session follows Fuda's registry within five seconds: whatever sessions were read and
  whatever was written in Fuda before, once five seconds have passed since the last write, the
  session of a genuine cookie is refused when its owner is gone or disabled, and otherwise carries
  the owner's role of that moment, not the one sealed in the cookie.
\<close>

theorem sessions_follow_fuda:
  fixes cfg :: "owner_client auth_config"
  defines "after \<equiv> \<lambda>xs ys w. run_ops (session_run cfg) ys (run_ops (session_run cfg) xs w)"
  assumes "live_config cfg" "cw_cache w = []" "\<forall>y \<in> set ys. \<not> writes_fuda y" "5000 \<le> elapsed_ms ys"
    and "readCookie (au_decode cfg) hs ''keidai_operator_session'' = Some raw" "raw \<noteq> []" "au_unseal cfg raw = Some (session_payload p)"
    and "au_operators cfg = []"
  shows "fst (readOperatorSession cfg hs (after xs ys w)) =
    Inr (case owner_of (op_ownerId p) (cw_fuda (after xs ys w)) of
        None \<Rightarrow> None
      | Some r \<Rightarrow> if ow_status r = ActiveOwner then Some (p\<lparr>op_role := ow_role r, op_name := truthy_opt (op_name p), op_picture := truthy_opt (op_picture p)\<rparr>) else None)"
proof -
  let ?v = "run_ops (session_run cfg) xs w" and ?w = "after xs ys w"
  have "fresh_cache 5000 (cw_now ?v) ?v" using fresh_history [OF assms(2)] assms(3) by (simp add: fresh_cache_def)
  from fresh_quiet [OF assms(2) this assms(4)]
  have "fresh_cache 5000 (cw_now ?v) ?w" "cw_now ?v + 5000 \<le> cw_now ?w" using assms(5) by (simp_all add: after_def)
  then obtain w' where l: "loadOwnerAccess 5000 (op_ownerId p) ?w = (Inr (fuda_access (cw_fuda ?w) (op_ownerId p)), w')"
    using fresh_load by (metis prod.collapse)
  have payload: "as_string (prop_of ''googleSub'' (session_payload p)) = Some (op_googleSub p)"
    "as_string (prop_of ''email'' (session_payload p)) = Some (op_email p)"
    "as_string (prop_of ''ownerId'' (session_payload p)) = Some (op_ownerId p)"
    "as_string (prop_of ''name'' (session_payload p)) = truthy_opt (op_name p)"
    "as_string (prop_of ''picture'' (session_payload p)) = truthy_opt (op_picture p)"
    by (auto simp: session_payload_def truthy_opt_def truthy_str_def split: option.split)
  show ?thesis
    using live_access_runs [OF assms(2) l] assms(6-9) payload
    by (cases "owner_of (op_ownerId p) (cw_fuda ?w)")
      (simp_all add: readOperatorSession_def operator_session_cookie_def comp_simps fuda_access_def)
qed

definition example_principal :: operator_principal where
  "example_principal = \<lparr>op_googleSub = ''1'', op_email = ''ann@x'', op_ownerId = ''ann'', op_role = Admin, op_name = None, op_picture = None\<rparr>"

definition example_auth :: "owner_client auth_config" where
  "example_auth = \<lparr>au_operators = [], au_decode = Some, au_unseal = (\<lambda>s. if s = ''c'' then Some (session_payload example_principal) else None),
     au_getOwnerAccess = Some (loadOwnerAccess default_owner_active_cache_ttl_ms), au_isOwnerActive = None\<rparr>"

definition example_cookie :: headers where
  "example_cookie = [(''cookie'', HOne ''keidai_operator_session=c'')]"

definition example_client :: owner_client where
  "example_client = \<lparr>cw_cache = [], cw_fuda = empty_fuda\<lparr>fb_owners := [example_admin ''ann'']\<rparr>, cw_now = 0\<rparr>"

lemma example_auth_simps:
  "live_config example_auth" "au_operators example_auth = []" "au_decode example_auth = Some"
  "au_unseal example_auth ''c'' = Some (session_payload example_principal)"
  by (simp_all add: example_auth_def live_config_def)

lemma example_cookie_read: "readCookie Some example_cookie ''keidai_operator_session'' = Some ''c''"
  by (simp add: readCookie_def example_cookie_def parseCookieHeader_def cookie_entry_def trim_def is_space_def Let_def)

theorem sessions_follow_fuda_witness:
  "fst (readOperatorSession example_auth example_cookie (run_ops (session_run example_auth) [ClockTick 5000]
      (run_ops (session_run example_auth) [VisitSession example_cookie, FudaWrites [FwWriteOwner ''ann'' ActiveOwner Member 7]] example_client))) =
    Inr (Some (example_principal\<lparr>op_role := Member\<rparr>))"
proof -
  let ?w = "run_ops (session_run example_auth) [ClockTick 5000]
      (run_ops (session_run example_auth) [VisitSession example_cookie, FudaWrites [FwWriteOwner ''ann'' ActiveOwner Member 7]] example_client)"
  have db: "cw_fuda ?w = run_fuda (FwWriteOwner ''ann'' ActiveOwner Member 7) (cw_fuda example_client)"
    using read_session_frame [OF example_auth_simps(1), of example_cookie example_client] by simp
  have "owner_of ''ann'' (cw_fuda ?w) = Some ((example_admin ''ann'')\<lparr>ow_role := Member, ow_updated_at := 7\<rparr>)"
    unfolding db by (simp add: example_client_def empty_fuda_def write_owner_def owner_of_def Let_def update_owners_def tbl_simps tbl_update_def
        example_admin_def seeded_owner_def)
  then show ?thesis
    using sessions_follow_fuda [OF example_auth_simps(1), of example_client "[ClockTick 5000]" example_cookie "''c''" example_principal
        "[VisitSession example_cookie, FudaWrites [FwWriteOwner ''ann'' ActiveOwner Member 7]]"]
    by (simp add: example_auth_simps example_cookie_read example_client_def example_principal_def example_admin_def seeded_owner_def
        truthy_opt_def truthy_str_def)
qed

definition example_bff :: bff_config where
  "example_bff = \<lparr>bf_route = (\<lambda>url. if url = ''/api/agents'' \<or> url = ''/%61pi/agents/a1'' then Some (''/api/agents'', FudaBackend, ''/api/agents'') else None),
     bf_force_owner = (\<lambda>url i. url @ ''?owner='' @ i), bf_serviceToken = Some ''t''\<rparr>"

theorem encoded_path_skips_the_gates_witness:
  "\<exists>u. bff_handle example_auth example_bff \<lparr>bq_method = ''DELETE'', bq_url = ''/%61pi/agents/a1'', bq_headers = [], bq_body = JNull\<rparr> example_client =
      (Inr (Forwarded u), example_client) \<and> canMutateAgent (readOperatorContext (ur_headers u)) ''ann'' \<and>
    authorizeBffServiceToken (Some ''t'') (map_of (ur_headers u) ''authorization'') (ur_url u)"
proof -
  have route: "bf_route example_bff ''/%61pi/agents/a1'' = Some (''/api/agents'', FudaBackend, ''/api/agents'')"
    by (simp add: example_bff_def)
  show ?thesis
    using encoded_path_skips_the_gates [OF route, of "\<lparr>bq_method = ''DELETE'', bq_url = ''/%61pi/agents/a1'', bq_headers = [], bq_body = JNull\<rparr>"
        example_auth example_client "''ann''" "Some ''t''"]
    by (simp del: ex_simps) blast
qed


section \<open>Who may sign in\<close>

text \<open>
  Only allowed accounts sign in: a login that succeeds has an address in an allowed domain (and
  with Google a hosted domain among them) when domains are configured, and is in the allow list when
  there is one; without provisioning its owner is the one the list names.
\<close>

theorem only_allowed_accounts_sign_in:
  assumes "resolveLoginOwner lp provisionOwner claims w = (Inr (LoginAs i role email name picture), w')"
  shows "(lp_domains lp = [] \<or> emailDomain (od_email claims) \<in> set (lp_domains lp) \<and>
      (\<not> lp_google lp \<or> (\<exists>d. od_hd claims = Some d \<and> lower (trim d) \<in> set (lp_domains lp)))) \<and>
    (lp_operators lp = [] \<or> (\<exists>j. resolveOwnerIdFromOperators (lp_operators lp) (claims_of claims) = Some j \<and>
      (provisionOwner = None \<or> i = j \<or> (\<exists>f input v. provisionOwner = Some f \<and> li_ownerId input = truthy_opt (Some j) \<and>
        oi_sub (li_identity input) = od_googleSub claims \<and> fst (f input w) = Inr (Provisioned i v))))) \<and>
    (provisionOwner \<noteq> None \<or> resolveOwnerIdFromOperators (lp_operators lp) (claims_of claims) = Some i)"
proof -
  have d: "\<not> domain_refused lp claims"
    using assms by (auto simp: resolveLoginOwner_def Let_def comp_simps split: if_splits)
  have domains: "lp_domains lp = [] \<or> emailDomain (od_email claims) \<in> set (lp_domains lp) \<and>
      (\<not> lp_google lp \<or> (\<exists>d. od_hd claims = Some d \<and> lower (trim d) \<in> set (lp_domains lp)))"
    using d by (auto simp: domain_refused_def split: option.splits)
  have listed: "lp_operators lp = [] \<or> (\<exists>j. resolveOwnerIdFromOperators (lp_operators lp) (claims_of claims) = Some j)"
    using assms d by (auto simp: resolveLoginOwner_def Let_def comp_simps isOperatorInRegistry_def split: if_splits)
  show ?thesis
  proof (cases provisionOwner)
    case None
    then have "resolveOwnerIdFromOperators (lp_operators lp) (claims_of claims) = Some i"
      using assms d by (auto simp: resolveLoginOwner_def Let_def comp_simps truthy_str_def split: if_splits option.splits)
    then show ?thesis using domains None by auto
  next
    case (Some f)
    show ?thesis
    proof (cases "lp_operators lp = []")
      case False
      then obtain j where j: "resolveOwnerIdFromOperators (lp_operators lp) (claims_of claims) = Some j" using listed by blast
      let ?input = "\<lparr>li_identity = \<lparr>oi_issuer = lp_issuer lp, oi_sub = od_googleSub claims, oi_email = od_email claims,
          oi_displayName = truthy_opt (od_name claims), oi_pictureUrl = truthy_opt (od_picture claims)\<rparr>,
        li_ownerId = truthy_opt (Some j), li_role = Option.bind (matchingOperator (lp_operators lp) claims) oe_role\<rparr>"
      have "\<exists>v. fst (f ?input w) = Inr (Provisioned i v)"
        using assms d j False Some
        by (auto simp: resolveLoginOwner_def Let_def comp_simps split: if_splits prod.splits sum.splits provision_result.splits)
      then have "\<exists>input v. li_ownerId input = truthy_opt (Some j) \<and> oi_sub (li_identity input) = od_googleSub claims \<and> fst (f input w) = Inr (Provisioned i v)"
        by (intro exI [of _ ?input]) simp
      then show ?thesis using domains Some j by auto
    qed (use domains Some in auto)
  qed
qed

text \<open>
  A browser signs in only with the login it started: a session is set only when the browser
  carries the sealed cookie of a pending login whose state is the one that came back, the code was
  exchanged with that login's verifier, and the account that the exchange proved may sign in. Every
  other callback ends without a session.
\<close>

theorem session_needs_own_login:
  assumes "handle_callback cfg lp provisionOwner exchange hs q w = (Inr (SignedIn p), w')"
  shows "\<exists>raw payload verifier claims r. readCookie (au_decode cfg) hs ''keidai_oidc_state'' = Some raw \<and> au_unseal cfg raw = Some payload \<and>
    as_string (prop_of ''state'' payload) = cq_state q \<and> as_string (prop_of ''codeVerifier'' payload) = Some verifier \<and>
    exchange (or_else (cq_code q) []) verifier = Some claims \<and> \<not> domain_refused lp claims \<and>
    (lp_operators lp = [] \<or> isOperatorInRegistry (lp_operators lp) (claims_of claims)) \<and>
    fst (resolveLoginOwner lp provisionOwner claims w) = Inr r \<and> p = principal_of claims r"
proof -
  obtain pending claims where pending: "readOidcPendingState cfg hs = Some pending" "Some (ps_state pending) = cq_state q"
    "exchange (or_else (cq_code q) []) (ps_codeVerifier pending) = Some claims"
    using assms by (auto simp: handle_callback_def comp_simps split: if_splits option.splits)
  have "\<exists>r. fst (resolveLoginOwner lp provisionOwner claims w) = Inr r \<and> p = principal_of claims r \<and> r \<noteq> LoginForbidden"
    using assms pending
    by (auto simp: handle_callback_def comp_simps split: if_splits prod.splits sum.splits login_resolution.splits)
  then obtain r where r: "fst (resolveLoginOwner lp provisionOwner claims w) = Inr r" "p = principal_of claims r" "r \<noteq> LoginForbidden" by blast
  have "\<not> domain_refused lp claims" "lp_operators lp = [] \<or> isOperatorInRegistry (lp_operators lp) (claims_of claims)"
    using r(1,3) by (auto simp: resolveLoginOwner_def Let_def comp_simps split: if_splits)
  moreover obtain raw payload where "readCookie (au_decode cfg) hs ''keidai_oidc_state'' = Some raw" "au_unseal cfg raw = Some payload"
    "as_string (prop_of ''state'' payload) = Some (ps_state pending)" "as_string (prop_of ''codeVerifier'' payload) = Some (ps_codeVerifier pending)"
    using pending(1) by (auto simp: readOidcPendingState_def operator_oidc_state_cookie_def split: option.splits if_splits)
  ultimately show ?thesis using pending(2,3) r by auto
qed

definition example_pending :: "unit auth_config" where
  "example_pending = \<lparr>au_operators = [], au_decode = Some,
     au_unseal = (\<lambda>s. if s = ''c'' then Some (JObj [(''state'', JStr ''s''), (''codeVerifier'', JStr ''v'')]) else None),
     au_getOwnerAccess = None, au_isOwnerActive = None\<rparr>"

theorem session_needs_own_login_witness:
  "\<exists>verifier claims. (if verifier = ''v'' then Some \<lparr>od_googleSub = ''1'', od_email = ''ann@x'', od_name = None, od_picture = None, od_hd = None\<rparr>
      else None) = Some claims \<and> od_googleSub claims = ''1''"
proof -
  let ?lp = "\<lparr>lp_domains = [], lp_issuer = ''i'', lp_google = False, lp_operators = []\<rparr>"
  let ?ex = "\<lambda>code verifier. if verifier = ''v'' then Some \<lparr>od_googleSub = ''1'', od_email = ''ann@x'', od_name = None, od_picture = None, od_hd = None\<rparr> else None"
  let ?prov = "Some (\<lambda>input. returnM (Provisioned ''ann'' (Some Admin)))"
  let ?hs = "[(''cookie'', HOne ''keidai_oidc_state=c'')]" and ?q = "\<lparr>cq_error = None, cq_code = Some ''k'', cq_state = Some ''s''\<rparr>"
  have cookie: "readCookie Some ?hs ''keidai_oidc_state'' = Some ''c''"
    by (simp add: readCookie_def parseCookieHeader_def cookie_entry_def trim_def is_space_def Let_def)
  have "handle_callback example_pending ?lp ?prov ?ex ?hs ?q () =
      (Inr (SignedIn \<lparr>op_googleSub = ''1'', op_email = ''ann@x'', op_ownerId = ''ann'', op_role = Admin, op_name = None, op_picture = None\<rparr>), ())"
    by (simp add: handle_callback_def truthy_str_def readOidcPendingState_def operator_oidc_state_cookie_def cookie example_pending_def comp_simps
        resolveLoginOwner_def Let_def domain_refused_def truthy_opt_def principal_of_def)
  from session_needs_own_login [OF this] show ?thesis by (auto simp: principal_of_def split: if_splits)
qed

end
