(* ===== verification/HttpInput.thy ===== *)
theory HttpInput
  imports Complex_Main Operators JsonText
begin

text \<open>
  What the routes of the agent runtime read from a request: \<open>Number\<close> of a query parameter that is
  given once, and the limit of a listing (\<^verbatim>\<open>parseRunListLimit\<close> and \<^verbatim>\<open>parseTaskListLimit\<close> of
  \<^verbatim>\<open>apps/shaiden/src/http\<close>). Numbers are not rounded to doubles.
\<close>

section \<open>Number of a text\<close>

definition digit_value :: "char \<Rightarrow> nat option" where
  "digit_value c = (let n = of_char c :: nat in
     if 48 \<le> n \<and> n \<le> 57 then Some (n - 48)
     else if 97 \<le> n \<and> n \<le> 102 then Some (n - 87)
     else if 65 \<le> n \<and> n \<le> 70 then Some (n - 55) else None)"

fun radix_value :: "nat \<Rightarrow> nat \<Rightarrow> string \<Rightarrow> nat option" where
  "radix_value b acc [] = Some acc"
| "radix_value b acc (c # cs) =
    (case digit_value c of None \<Rightarrow> None | Some d \<Rightarrow> if d < b then radix_value b (b * acc + d) cs else None)"

definition unsigned_value :: "string \<Rightarrow> nat option" where
  "unsigned_value s = (if s = [] then None else radix_value 10 0 s)"

definition drop_sign :: "string \<Rightarrow> bool \<times> string" where
  "drop_sign s = (case s of [] \<Rightarrow> (False, [])
     | c # cs \<Rightarrow> if c = CHR ''-'' then (True, cs) else if c = CHR ''+'' then (False, cs) else (False, s))"

definition signed_value :: "string \<Rightarrow> int option" where
  "signed_value s = (case drop_sign s of (neg, ds) \<Rightarrow>
     map_option (\<lambda>n. if neg then - int n else int n) (unsigned_value ds))"

definition decimal_value :: "string \<Rightarrow> rat option" where
  "decimal_value s =
    (let m = takeWhile (\<lambda>c. c \<noteq> CHR ''e'' \<and> c \<noteq> CHR ''E'') s; e = drop (length m) s;
         whole = takeWhile (\<lambda>c. c \<noteq> CHR ''.'') m; frac = drop (Suc (length whole)) m in
     case (unsigned_value (whole @ frac), if e = [] then Some 0 else signed_value (tl e)) of
       (Some n, Some k) \<Rightarrow> Some (of_nat n * power_int 10 (k - int (length frac)))
     | _ \<Rightarrow> None)"

text \<open>The largest finite double is below this; \<open>None\<close> stands for what is not finite.\<close>

definition double_overflow :: rat where
  "double_overflow = 2 ^ 1024 - 2 ^ 970"

definition js_number :: "string \<Rightarrow> rat option" where
  "js_number s =
    (let t = trim s in
     if t = [] then Some 0
     else (case t of
       c # d # ds \<Rightarrow>
         (let b = (if c \<noteq> CHR ''0'' then 10 else if d \<in> {CHR ''x'', CHR ''X''} then 16
            else if d \<in> {CHR ''o'', CHR ''O''} then 8 else if d \<in> {CHR ''b'', CHR ''B''} then 2 else (10 :: nat)) in
          if b \<noteq> 10 then (if ds = [] then None else map_option of_nat (radix_value b 0 ds))
          else (case drop_sign t of (neg, u) \<Rightarrow>
            Option.bind (decimal_value u) (\<lambda>x.
              if x < double_overflow then Some (if neg then - x else x) else None)))
     | _ \<Rightarrow> map_option of_nat (unsigned_value t)))"

section \<open>The limit of a listing\<close>

definition list_limit :: "int \<Rightarrow> int \<Rightarrow> string option \<Rightarrow> rat" where
  "list_limit standard maximum limit =
    (case limit of
       None \<Rightarrow> min (max 1 (of_int standard)) (of_int maximum)
     | Some s \<Rightarrow> (case js_number s of
         None \<Rightarrow> of_int standard
       | Some x \<Rightarrow> min (max 1 x) (of_int maximum)))"

text \<open>\<open>LIMIT $1\<close> takes a \<open>bigint\<close>: the database refuses the text of any other number.\<close>

definition sql_limit :: "rat \<Rightarrow> nat option" where
  "sql_limit x = (case quotient_of x of (p, q) \<Rightarrow> if q = 1 then Some (nat p) else None)"

lemma list_limit_bounds:
  assumes "1 \<le> standard" "standard \<le> maximum"
  shows "1 \<le> list_limit standard maximum limit \<and> list_limit standard maximum limit \<le> of_int maximum"
proof -
  have "(1::rat) \<le> of_int standard" "(of_int standard :: rat) \<le> of_int maximum" using assms by simp_all
  then show ?thesis unfolding list_limit_def by (auto split: option.split)
qed

lemma sql_limit_int: "sql_limit (of_int i) = Some (nat i)"
  by (simp add: sql_limit_def)

lemma sql_limit_value: "sql_limit x = Some n \<Longrightarrow> 0 \<le> x \<Longrightarrow> x = of_nat n"
proof -
  assume a: "sql_limit x = Some n" "0 \<le> x"
  then have "snd (quotient_of x) = 1" "n = nat (fst (quotient_of x))"
    by (auto simp: sql_limit_def split: prod.splits if_splits)
  then have "x = of_int (fst (quotient_of x))" using quotient_of_div [of x "fst (quotient_of x)" 1]
    by (metis div_by_1 of_int_1 prod.collapse)
  then show "x = of_nat n" using a(2) \<open>n = _\<close> by (metis of_int_0_le_iff of_nat_nat)
qed

end
