(* ===== verification/RunsApi.thy ===== *)
theory RunsApi
  imports Harness HttpInput
begin

text \<open>
  What operators do to runs: the routes of \<^verbatim>\<open>apps/shaiden/src/http/runs-api.controller.ts\<close>
  with their messages (\<^verbatim>\<open>http/utils/follow-up-message.ts\<close>), the verdicts on attempts
  (\<^verbatim>\<open>runs/attempt-verdict.ts\<close>) and the log shown for a run whose steps have aged out
  (\<^verbatim>\<open>runs/utils/present-run-report.ts\<close>). A handler that rejects is answered with 500 by the
  server; the stream of events is the \<open>sw_events\<close> of the run store and has no route here.
\<close>

section \<open>The log of a run whose steps have aged out\<close>

text \<open>\<open>clip\<close> is \<open>previewOf\<close>; \<open>timestampAt\<close> of an instant is that instant.\<close>

definition history_id :: "string \<Rightarrow> nat \<Rightarrow> string" where
  "history_id runId index = runId @ '':history:'' @ digits index"

definition history_step :: "int \<Rightarrow> string \<Rightarrow> step_body \<Rightarrow> run_step" where
  "history_step timestamp i body = \<lparr>rs_id = i, rs_timestamp = timestamp, rs_body = body\<rparr>"

definition no_usage :: model_usage where
  "no_usage = \<lparr>mu_inputTokens = None, mu_outputTokens = None, mu_cost = None, mu_resolvedModelId = None\<rparr>"

definition assistant_steps :: "int \<Rightarrow> string \<Rightarrow> string \<Rightarrow> json list \<Rightarrow> run_step list" where
  "assistant_steps timestamp i txt toolCalls =
    (if txt \<noteq> [] \<or> toolCalls \<noteq> []
     then [history_step timestamp (i @ '':model'') (ModelStep (map_option (previewOf 500) (nonempty txt)) no_usage)] else []) @
    map (\<lambda>call. history_step timestamp (i @ '':dispatch:'' @ call_id call)
      (ToolDispatchStep (Some (call_tool call)) (Some (call_id call))
        (Some (previewOf 200 (json_stringify (call_input call)))))) toolCalls"

definition result_step :: "int \<Rightarrow> string \<Rightarrow> string \<Rightarrow> string \<Rightarrow> string \<Rightarrow> bool \<Rightarrow> run_step" where
  "result_step timestamp i toolCallId toolName output isError =
    history_step timestamp (i @ '':result'')
      (ToolResultStep \<lparr>tr_toolName = Some toolName, tr_toolCallId = Some toolCallId,
         tr_outputPreview = Some (previewOf (if isError then 500 else 200) output),
         tr_toolStatus = Some (if isError then ToolError else ToolOk), tr_charCount = Some (int (length output)),
         tr_traceId = None, tr_decision = None, tr_durationMs = None\<rparr>)"

text \<open>\<open>userMessages\<close> counts the messages of the user so far; the first one is the goal.\<close>

fun history_steps :: "string \<Rightarrow> int \<Rightarrow> nat \<Rightarrow> nat \<Rightarrow> conversation_entry list \<Rightarrow> run_step list" where
  "history_steps runId timestamp index userMessages [] = []"
| "history_steps runId timestamp index userMessages (UserEntry txt # entries) =
    (if userMessages = 0 then [] else [history_step timestamp (history_id runId index) (UserMessageStep txt)]) @
    history_steps runId timestamp (Suc index) (Suc userMessages) entries"
| "history_steps runId timestamp index userMessages (AssistantEntry txt toolCalls # entries) =
    assistant_steps timestamp (history_id runId index) txt toolCalls @
    history_steps runId timestamp (Suc index) userMessages entries"
| "history_steps runId timestamp index userMessages (ToolEntry toolCallId toolName output isError # entries) =
    result_step timestamp (history_id runId index) toolCallId toolName output isError #
    history_steps runId timestamp (Suc index) userMessages entries"

definition outcomeStep :: "string \<Rightarrow> int \<Rightarrow> termination_outcome option \<Rightarrow> run_step list" where
  "outcomeStep runId timestamp outcome =
    (case outcome of None \<Rightarrow> []
     | Some out \<Rightarrow> [history_step timestamp (runId @ '':history:outcome'') (outcome_body out)])"

definition stepsFromConversationHistory :: "run_report \<Rightarrow> conversation_entry list \<Rightarrow> run_step list" where
  "stepsFromConversationHistory run history =
    history_steps (ri_id run) (ri_startedAt run) 0 0 history @ outcomeStep (ri_id run) (ri_startedAt run) (ri_outcome run)"

definition presentRunReport :: "run_report \<Rightarrow> conversation_entry list option \<Rightarrow> run_report" where
  "presentRunReport run history =
    (if rp_steps run \<noteq> [] \<or> ri_stepCount run = 0 then run
     else (case history of
       None \<Rightarrow> run
     | Some h \<Rightarrow>
        if h = [] then run
        else (let steps = stepsFromConversationHistory run h in if steps = [] then run else run\<lparr>rp_steps := steps\<rparr>)))"

section \<open>Verdicts on attempts\<close>

datatype attempt_verdict = VerdictUp | VerdictDown

text \<open>The verdict columns of a row of \<open>run_attempts\<close>; a row without an entry has none set.\<close>

record verdict_cols =
  vc_verdict :: "attempt_verdict option"
  vc_note :: "string option"
  vc_by :: "string option"
  vc_at :: "int option"

type_synonym verdict_table = "((string \<times> int) \<times> verdict_cols) list"

definition no_verdict :: verdict_cols where
  "no_verdict = \<lparr>vc_verdict = None, vc_note = None, vc_by = None, vc_at = None\<rparr>"

record run_attempt_summary =
  as_attemptIndex :: int
  as_outcome :: outcome_status
  as_outcomeReason :: "string option"
  as_endedAt :: int
  as_verdict :: verdict_cols

definition verdict_cols_of :: "verdict_table \<Rightarrow> string \<Rightarrow> int \<Rightarrow> verdict_cols" where
  "verdict_cols_of vs runId index = or_else (map_of vs (runId, index)) no_verdict"

definition toSummary :: "verdict_table \<Rightarrow> attempt_fact \<Rightarrow> run_attempt_summary" where
  "toSummary vs r =
    \<lparr>as_attemptIndex = af_attemptIndex r, as_outcome = af_outcome r, as_outcomeReason = af_outcomeReason r,
     as_endedAt = af_endedAt r, as_verdict = verdict_cols_of vs (af_runId r) (af_attemptIndex r)\<rparr>"

definition attempts_of_run :: "string \<Rightarrow> run_db \<Rightarrow> attempt_fact list" where
  "attempts_of_run runId db = filter (\<lambda>a. af_runId a = runId) (rd_attempts db)"

definition listRunAttempts :: "string \<Rightarrow> run_db \<Rightarrow> verdict_table \<Rightarrow> run_attempt_summary list" where
  "listRunAttempts runId db vs =
    map (toSummary vs) (sort_by (\<lambda>l r. af_attemptIndex l \<le> af_attemptIndex r) (attempts_of_run runId db))"

definition attemptOwnerId :: "string \<Rightarrow> run_db \<Rightarrow> string option option" where
  "attemptOwnerId runId db =
    (case attempts_of_run runId db of [] \<Rightarrow> None | a # _ \<Rightarrow> Some (af_agentOwnerId a))"

text \<open>\<open>UPDATE run_attempts SET operator_verdict .. RETURNING ..\<close>.\<close>

definition write_verdict ::
    "string \<Rightarrow> int \<Rightarrow> verdict_cols \<Rightarrow> run_db \<Rightarrow> verdict_table \<Rightarrow> run_attempt_summary option \<times> verdict_table" where
  "write_verdict runId index cols db vs =
    (case filter (\<lambda>a. af_attemptIndex a = index) (attempts_of_run runId db) of
       [] \<Rightarrow> (None, vs)
     | a # _ \<Rightarrow> (let vs' = map_put (runId, index) cols vs in (Some (toSummary vs' a), vs')))"

definition setAttemptVerdict ::
    "string \<Rightarrow> int \<Rightarrow> attempt_verdict \<Rightarrow> string option \<Rightarrow> string \<Rightarrow> int \<Rightarrow>
     run_db \<Rightarrow> verdict_table \<Rightarrow> run_attempt_summary option \<times> verdict_table" where
  "setAttemptVerdict runId index verdict note operatorId verdictAt =
    write_verdict runId index
      \<lparr>vc_verdict = Some verdict, vc_note = note, vc_by = Some operatorId, vc_at = Some verdictAt\<rparr>"

definition clearAttemptVerdict ::
    "string \<Rightarrow> int \<Rightarrow> run_db \<Rightarrow> verdict_table \<Rightarrow> run_attempt_summary option \<times> verdict_table" where
  "clearAttemptVerdict runId index = write_verdict runId index no_verdict"

definition attempt_verdict_note_max_length :: nat where "attempt_verdict_note_max_length = 2000"

definition attemptVerdictSchema :: "json \<Rightarrow> attempt_verdict option" where
  "attemptVerdictSchema j =
    (if j = JStr ''up'' then Some VerdictUp else if j = JStr ''down'' then Some VerdictDown else None)"

definition verdict_note :: "json \<Rightarrow> string option" where
  "verdict_note j = (case j of
     JStr s \<Rightarrow> if utf16_length s \<le> attempt_verdict_note_max_length then Some s else None | _ \<Rightarrow> None)"

definition setAttemptVerdictRequestSchema :: "json \<Rightarrow> (attempt_verdict \<times> string option) option" where
  "setAttemptVerdictRequestSchema j =
    (case (Option.bind (prop_of ''verdict'' j) attemptVerdictSchema,
           (case prop_of ''note'' j of None \<Rightarrow> Some None | Some n \<Rightarrow> map_option Some (verdict_note n))) of
       (Some v, Some n) \<Rightarrow> Some (v, n) | _ \<Rightarrow> None)"

section \<open>Messages\<close>

definition follow_up_message_max_length :: nat where "follow_up_message_max_length = 10000"

definition normalizeFollowUpMessage :: "json \<Rightarrow> string option" where
  "normalizeFollowUpMessage input =
    (case as_string (prop_of ''message'' input) of
       None \<Rightarrow> None
     | Some s \<Rightarrow>
        (let trimmed = trim s in
         if trimmed = [] \<or> follow_up_message_max_length < utf16_length trimmed then None else Some trimmed))"

datatype conflict_reason = Refused continuation_failure | LostHandle | NotRunning | WaitingApproval | NotStopped

definition followUpConflictMessage :: "conflict_reason \<Rightarrow> string" where
  "followUpConflictMessage reason = (case reason of
     Refused NotTerminal \<Rightarrow> ''run is still active''
   | Refused IneligibleOutcome \<Rightarrow> ''run outcome cannot be continued''
   | Refused MissingHistory \<Rightarrow> ''run has no persisted conversation history''
   | Refused ConcurrentContinuation \<Rightarrow> ''run continuation already in progress''
   | LostHandle \<Rightarrow> ''run is not accepting follow-up messages''
   | _ \<Rightarrow> ''follow-up is not allowed for this run'')"

definition stopConflictMessage :: "conflict_reason \<Rightarrow> string" where
  "stopConflictMessage reason = (case reason of
     NotRunning \<Rightarrow> ''run is not running''
   | WaitingApproval \<Rightarrow> ''stop is not allowed while waiting for approval; reject the gated call instead''
   | _ \<Rightarrow> ''run cannot be stopped'')"

definition resumeConflictMessage :: "conflict_reason \<Rightarrow> string" where
  "resumeConflictMessage reason = (case reason of
     NotStopped \<Rightarrow> ''run is not stopped''
   | Refused NotTerminal \<Rightarrow> ''run is still active''
   | Refused MissingHistory \<Rightarrow> ''run has no persisted conversation history''
   | Refused ConcurrentContinuation \<Rightarrow> ''run continuation already in progress''
   | _ \<Rightarrow> ''run cannot be resumed'')"

section \<open>Who may see and change a run\<close>

definition memberOwnerId :: "operator_context option \<Rightarrow> string option" where
  "memberOwnerId operator = (case operator of
     Some oc \<Rightarrow> if oc_role oc = Member then Some (oc_ownerId oc) else None | None \<Rightarrow> None)"

definition runVisibleToOperator :: "run_report \<Rightarrow> operator_context option \<Rightarrow> bool" where
  "runVisibleToOperator run operator = (case operator of
     None \<Rightarrow> True | Some oc \<Rightarrow> oc_role oc = Admin \<or> ri_agentOwnerId run = Some (oc_ownerId oc))"

datatype run_action = Continue | Stop

definition canMutateRun :: "run_report \<Rightarrow> operator_context option \<Rightarrow> run_action \<Rightarrow> bool" where
  "canMutateRun run operator action = (case operator of
     None \<Rightarrow> True
   | Some oc \<Rightarrow> ri_agentOwnerId run = Some (oc_ownerId oc) \<or> (action = Stop \<and> oc_role oc = Admin))"

section \<open>The routes\<close>

text \<open>
  \<open>aw_others\<close> is what other processes and other requests do before each of the next awaited
  statements; \<open>aw_launched\<close> are the drives that have been started, oldest first.
\<close>

record 'y api_world =
  aw_world :: "'y run_world"
  aw_verdicts :: verdict_table
  aw_launched :: "drive_input list"
  aw_others :: "('y run_world \<times> verdict_table \<Rightarrow> 'y run_world \<times> verdict_table) list"

type_synonym ('y, 'a) api_comp = "('y api_world, run_error, 'a) comp"

definition api_interfere :: "'y api_world \<Rightarrow> 'y api_world" where
  "api_interfere w =
    (case (case aw_others w of [] \<Rightarrow> (aw_world w, aw_verdicts w) | f # _ \<Rightarrow> f (aw_world w, aw_verdicts w)) of
       (rw, vs) \<Rightarrow> w\<lparr>aw_world := rw, aw_verdicts := vs, aw_others := tl (aw_others w)\<rparr>)"

definition awaiting :: "('y, 'a) world_comp \<Rightarrow> ('y, 'a) api_comp" where
  "awaiting m w = (let w' = api_interfere w in case m (aw_world w') of (r, rw) \<Rightarrow> (r, w'\<lparr>aw_world := rw\<rparr>))"

definition at_once :: "('y, 'a) world_comp \<Rightarrow> ('y, 'a) api_comp" where
  "at_once m w = (case m (aw_world w) of (r, rw) \<Rightarrow> (r, w\<lparr>aw_world := rw\<rparr>))"

definition on_verdicts :: "(run_db \<Rightarrow> verdict_table \<Rightarrow> 'a \<times> verdict_table) \<Rightarrow> ('y, 'a) api_comp" where
  "on_verdicts m w = (let w' = api_interfere w in
     case m (sw_db (aw_world w')) (aw_verdicts w') of (r, vs) \<Rightarrow> (Inr r, w'\<lparr>aw_verdicts := vs\<rparr>))"

datatype runs_body =
    FailedBody string
  | RunIdBody string
  | ReportBody run_report
  | RunsBody "run_list_item list"
  | AttemptsBody "run_attempt_summary list"
  | AttemptBody run_attempt_summary

type_synonym runs_reply = "nat \<times> runs_body"

definition run_not_found :: runs_reply where "run_not_found = (404, FailedBody ''run not found'')"
definition attempt_not_found :: runs_reply where "attempt_not_found = (404, FailedBody ''attempt not found'')"
definition run_forbidden :: runs_reply where "run_forbidden = (403, FailedBody ''Forbidden'')"

definition read_run :: "'y harness_env \<Rightarrow> string \<Rightarrow> ('y, run_report option) api_comp" where
  "read_run env runId = awaiting (on_db (get_run (hv_runs env) runId))"

definition presentRun :: "'y harness_env \<Rightarrow> run_report \<Rightarrow> ('y, run_report) api_comp" where
  "presentRun env run =
    (if rp_steps run \<noteq> [] \<or> ri_stepCount run = 0 then returnM run
     else bindM (awaiting (getsM (\<lambda>w. getConversationHistory (hv_runs env) (ri_id run) (sw_db w)))) (\<lambda>history.
          returnM (presentRunReport run history)))"

definition get_run_route :: "'y harness_env \<Rightarrow> string \<Rightarrow> headers \<Rightarrow> ('y, runs_reply) api_comp" where
  "get_run_route env runId hs =
    bindM (read_run env runId) (\<lambda>run.
    case run of
      None \<Rightarrow> returnM run_not_found
    | Some r \<Rightarrow>
       if \<not> runVisibleToOperator r (readOperatorContext hs) then returnM run_not_found
       else bindM (presentRun env r) (\<lambda>shown. returnM (200, ReportBody shown)))"

definition parseRunListLimit :: "string option \<Rightarrow> rat" where
  "parseRunListLimit limit = list_limit 50 200 limit"

definition list_runs_route :: "'y harness_env \<Rightarrow> string option \<Rightarrow> headers \<Rightarrow> ('y, runs_reply) api_comp" where
  "list_runs_route env limit hs =
    awaiting (\<lambda>w. (case sql_limit (parseRunListLimit limit) of
       None \<Rightarrow> (Inl (OtherError ''invalid input syntax for type bigint''), w)
     | Some n \<Rightarrow> (Inr (200, RunsBody (list_runs (hv_runs env) n (memberOwnerId (readOperatorContext hs)) (sw_db w))), w)))"

text \<open>\<open>createRunStep(createUserMessageStep(message))\<close>, evaluated before the statement is sent.\<close>

definition user_message_step :: "'y harness_env \<Rightarrow> string \<Rightarrow> ('y, run_step) world_comp" where
  "user_message_step env message =
    bindM (getsM (hv_clock env)) (\<lambda>now.
    bindM (randomUUID env) (\<lambda>uuid.
    returnM (createRunStep uuid None now (UserMessageStep message))))"

definition launchContinuation ::
    "'y harness_env \<Rightarrow> run_report \<Rightarrow> string \<Rightarrow> conversation_entry list \<Rightarrow> ('y, runs_reply) api_comp" where
  "launchContinuation env run runId history =
    bindM (awaiting (resumeHarnessRun env runId history (rp_task run))) (\<lambda>drive.
    bindM (modifyM (\<lambda>w. w\<lparr>aw_launched := aw_launched w @ [drive]\<rparr>)) (\<lambda>_.
    returnM (202, RunIdBody runId)))"

definition begin_continuation ::
    "'y harness_env \<Rightarrow> string \<Rightarrow> string option \<Rightarrow> run_step option \<Rightarrow>
     ('y, continuation_failure + conversation_entry list) api_comp" where
  "begin_continuation env runId message userStep =
    awaiting (bindM (getsM (hv_clock env)) (\<lambda>now. store_beginContinuation (hv_runs env) runId message userStep now))"

definition handleFollowUp :: "'y harness_env \<Rightarrow> run_report \<Rightarrow> string \<Rightarrow> string \<Rightarrow> ('y, runs_reply) api_comp" where
  "handleFollowUp env run runId message =
    (if ri_status run = Running
     then bindM (at_once (user_message_step env message)) (\<lambda>s.
          bindM (awaiting (bindM (randomUUID env) (\<lambda>uuid. bindM (getsM (hv_clock env)) (\<lambda>now.
            store_enqueueParkedFollowUp (hv_runs env) runId message s uuid now)))) (\<lambda>queued.
          returnM (if queued then (202, RunIdBody runId) else (409, FailedBody (followUpConflictMessage LostHandle)))))
     else if \<not> isEligibleContinuationOutcome (ri_outcome run)
     then returnM (409, FailedBody (followUpConflictMessage (Refused IneligibleOutcome)))
     else bindM (at_once (user_message_step env message)) (\<lambda>s.
          bindM (begin_continuation env runId (Some message) (Some s)) (\<lambda>continuation.
          case continuation of
            Inl reason \<Rightarrow> returnM (409, FailedBody (followUpConflictMessage (Refused reason)))
          | Inr history \<Rightarrow> launchContinuation env run runId history)))"

definition handleStop :: "'y harness_env \<Rightarrow> run_report \<Rightarrow> string \<Rightarrow> ('y, runs_reply) api_comp" where
  "handleStop env run runId =
    (if ri_status run \<noteq> Running then returnM (409, FailedBody (stopConflictMessage NotRunning))
     else bindM (awaiting (getsM (\<lambda>w. getParkedMcpTask runId (sw_db w)))) (\<lambda>parked.
       if parked \<noteq> None then returnM (409, FailedBody (stopConflictMessage WaitingApproval))
       else bindM (at_once (modifyM (\<lambda>w. w\<lparr>sw_stop := requestStop runId (sw_stop w)\<rparr>))) (\<lambda>_.
            returnM (202, RunIdBody runId))))"

definition handleResume :: "'y harness_env \<Rightarrow> run_report \<Rightarrow> string \<Rightarrow> ('y, runs_reply) api_comp" where
  "handleResume env run runId =
    (if ri_status run = Running then returnM (409, FailedBody (resumeConflictMessage (Refused NotTerminal)))
     else if map_option to_status (ri_outcome run) \<noteq> Some Stopped
     then returnM (409, FailedBody (resumeConflictMessage NotStopped))
     else bindM (begin_continuation env runId None None) (\<lambda>continuation.
          case continuation of
            Inl reason \<Rightarrow> returnM (409, FailedBody (resumeConflictMessage (Refused reason)))
          | Inr history \<Rightarrow> launchContinuation env run runId history))"

text \<open>What the three routes that change a run do first.\<close>

definition with_run ::
    "'y harness_env \<Rightarrow> string \<Rightarrow> headers \<Rightarrow> run_action \<Rightarrow> (run_report \<Rightarrow> ('y, runs_reply) api_comp) \<Rightarrow>
     ('y, runs_reply) api_comp" where
  "with_run env runId hs action k =
    bindM (read_run env runId) (\<lambda>run.
    case run of
      None \<Rightarrow> returnM run_not_found
    | Some r \<Rightarrow> if \<not> canMutateRun r (readOperatorContext hs) action then returnM run_forbidden else k r)"

definition follow_up_route :: "'y harness_env \<Rightarrow> string \<Rightarrow> json \<Rightarrow> headers \<Rightarrow> ('y, runs_reply) api_comp" where
  "follow_up_route env runId body hs =
    (case normalizeFollowUpMessage body of
       None \<Rightarrow> returnM (400, FailedBody ''invalid follow-up message'')
     | Some message \<Rightarrow> with_run env runId hs Continue (\<lambda>r. handleFollowUp env r runId message))"

definition stop_route :: "'y harness_env \<Rightarrow> string \<Rightarrow> headers \<Rightarrow> ('y, runs_reply) api_comp" where
  "stop_route env runId hs = with_run env runId hs Stop (\<lambda>r. handleStop env r runId)"

definition resume_route :: "'y harness_env \<Rightarrow> string \<Rightarrow> headers \<Rightarrow> ('y, runs_reply) api_comp" where
  "resume_route env runId hs = with_run env runId hs Continue (\<lambda>r. handleResume env r runId)"

section \<open>The routes of attempts\<close>

datatype verdict_access = AccessOk | AccessMissing | AccessForbidden

definition verdictAccess :: "'y harness_env \<Rightarrow> string \<Rightarrow> headers \<Rightarrow> ('y, verdict_access) api_comp" where
  "verdictAccess env runId hs =
    (let operator = readOperatorContext hs in
     bindM (read_run env runId) (\<lambda>run.
     bindM (case run of
        Some r \<Rightarrow> returnM (Some (ri_agentOwnerId r))
      | None \<Rightarrow> awaiting (getsM (\<lambda>w. attemptOwnerId runId (sw_db w)))) (\<lambda>ownerId.
     returnM
       (if run = None \<and> ownerId = None then AccessMissing
        else (case operator of
          None \<Rightarrow> AccessOk
        | Some oc \<Rightarrow>
           if oc_role oc = Admin then AccessOk
           else if truthy_str (Option.bind ownerId id) \<and> Option.bind ownerId id = Some (oc_ownerId oc) then AccessOk
           else AccessForbidden)))))"

definition parseVerdictTarget :: "string \<Rightarrow> string \<Rightarrow> (string \<times> int) option" where
  "parseVerdictTarget runId attemptIndex =
    (if runId = [] \<or> attemptIndex = [] \<or> hd attemptIndex = CHR ''0'' \<or> \<not> list_all is_digit attemptIndex then None
     else (let index = digits_val attemptIndex in if 2147483647 < index then None else Some (runId, int index)))"

definition attempts_route :: "'y harness_env \<Rightarrow> string \<Rightarrow> headers \<Rightarrow> ('y, runs_reply) api_comp" where
  "attempts_route env runId hs =
    bindM (verdictAccess env runId hs) (\<lambda>access.
    if access \<noteq> AccessOk then returnM run_not_found
    else on_verdicts (\<lambda>db vs. ((200, AttemptsBody (listRunAttempts runId db vs)), vs)))"

definition answer_verdict :: "run_attempt_summary option \<Rightarrow> runs_reply" where
  "answer_verdict updated = (case updated of None \<Rightarrow> attempt_not_found | Some a \<Rightarrow> (200, AttemptBody a))"

text \<open>\<open>write\<close> is given the operator and the instant.\<close>

definition verdict_route ::
    "'y harness_env \<Rightarrow> (string \<times> int) option \<Rightarrow> headers \<Rightarrow>
     (string \<Rightarrow> int \<Rightarrow> operator_context \<Rightarrow> int \<Rightarrow> run_db \<Rightarrow> verdict_table \<Rightarrow> run_attempt_summary option \<times> verdict_table) \<Rightarrow>
     ('y, runs_reply) api_comp" where
  "verdict_route env target hs write =
    (case target of
       None \<Rightarrow> returnM (400, FailedBody ''invalid attempt'')
     | Some (runId, index) \<Rightarrow>
        (case readOperatorContext hs of
           None \<Rightarrow> returnM (401, FailedBody ''operator required'')
         | Some oc \<Rightarrow>
            bindM (verdictAccess env runId hs) (\<lambda>access.
            if access = AccessMissing then returnM attempt_not_found
            else if access = AccessForbidden then returnM run_forbidden
            else bindM (at_once (getsM (hv_clock env))) (\<lambda>now.
                 bindM (on_verdicts (write runId index oc now)) (\<lambda>updated.
                 returnM (answer_verdict updated))))))"

definition put_verdict_route :: "'y harness_env \<Rightarrow> string \<Rightarrow> string \<Rightarrow> json \<Rightarrow> headers \<Rightarrow> ('y, runs_reply) api_comp" where
  "put_verdict_route env runId attemptIndex body hs =
    (if parseVerdictTarget runId attemptIndex = None then returnM (400, FailedBody ''invalid attempt'')
     else (case setAttemptVerdictRequestSchema body of
       None \<Rightarrow> returnM (400, FailedBody ''invalid verdict'')
     | Some (verdict, note) \<Rightarrow>
        verdict_route env (parseVerdictTarget runId attemptIndex) hs
          (\<lambda>runId index oc now. setAttemptVerdict runId index verdict
             (Option.bind (map_option trim note) nonempty) (oc_ownerId oc) now)))"

definition delete_verdict_route :: "'y harness_env \<Rightarrow> string \<Rightarrow> string \<Rightarrow> headers \<Rightarrow> ('y, runs_reply) api_comp" where
  "delete_verdict_route env runId attemptIndex hs =
    verdict_route env (parseVerdictTarget runId attemptIndex) hs (\<lambda>runId index oc now. clearAttemptVerdict runId index)"

end
