(* ===== verification/RunControl.thy ===== *)
theory RunControl
  imports RunsApi RunLifecycle DriveSafety
begin

text \<open>
  What the routes of \<open>RunsApi\<close> guarantee: operators act on their own runs only, an accepted
  follow-up reaches the run, a stop reaches the loop, a launch that fails leaves the run without
  anyone to drive it, verdicts are read back, and the rebuilt log shows the conversation.
\<close>

section \<open>Running the routes\<close>

lemma interfere_none: "aw_others w = [] \<Longrightarrow> api_interfere w = w"
  by (simp add: api_interfere_def)

lemma awaiting_result: "awaiting m w =
  (fst (m (aw_world (api_interfere w))), (api_interfere w)\<lparr>aw_world := snd (m (aw_world (api_interfere w)))\<rparr>)"
  by (simp add: awaiting_def Let_def split: prod.splits)

lemma at_once_result: "at_once m w = (fst (m (aw_world w)), w\<lparr>aw_world := snd (m (aw_world w))\<rparr>)"
  by (simp add: at_once_def split: prod.splits)

lemma bindM_split: "bindM m k w = (case fst (m w) of Inl e \<Rightarrow> (Inl e, snd (m w)) | Inr x \<Rightarrow> k x (snd (m w)))"
  by (cases "m w") (simp add: bindM_def split: sum.split)

definition report_of :: "'y harness_env \<Rightarrow> string \<Rightarrow> 'y api_world \<Rightarrow> run_report option" where
  "report_of env i w = map_option (\<lambda>r. rowToRunReport r (listStepsForRun (hv_runs env) i (sw_db (aw_world w))))
     (getRunRow i (sw_db (aw_world w)))"

lemma read_run_result: "read_run env i w = (Inr (report_of env i (api_interfere w)), api_interfere w)"
  by (simp add: read_run_def awaiting_result on_db_def get_run_def report_of_def)

lemma report_fields:
  "ri_agentOwnerId (rowToRunReport r ss) = (if truthy_str (rr_agent_owner_id r) then rr_agent_owner_id r else None)"
  "ri_status (rowToRunReport r ss) = rr_status r" "ri_outcome (rowToRunReport r ss) = rr_outcome r"
  "rp_task (rowToRunReport r ss) = rr_task r" "ri_id (rowToRunReport r ss) = rr_id r"
  by (simp_all add: rowToRunReport_def run_item_def run_list_item.defs run_report.defs)

lemma with_run_result: "with_run env i hs action k w =
  (case report_of env i (api_interfere w) of
     None \<Rightarrow> (Inr run_not_found, api_interfere w)
   | Some r \<Rightarrow> if canMutateRun r (readOperatorContext hs) action then k r (api_interfere w)
       else (Inr run_forbidden, api_interfere w))"
  by (simp add: with_run_def bindM_split read_run_result returnM_def split: option.splits)

section \<open>Foreign runs\<close>

lemma foreign_mutation:
  assumes "readOperatorContext hs = Some oc" "rr_agent_owner_id r \<noteq> Some (oc_ownerId oc)"
  shows "canMutateRun (rowToRunReport r ss) (Some oc) Continue = False"
    and "canMutateRun (rowToRunReport r ss) (Some oc) Stop \<longleftrightarrow> oc_role oc = Admin"
    and "runVisibleToOperator (rowToRunReport r ss) (Some oc) \<longleftrightarrow> oc_role oc = Admin"
  using assms(2) by (auto simp: canMutateRun_def runVisibleToOperator_def report_fields)


section \<open>Follow-ups\<close>

lemma enqueued:
  assumes "enqueueParkedFollowUp i m s u now db = (Inr True, db')"
  shows "\<exists>f \<in> set (rd_follow_ups db'). fu_run_id f = i \<and> fu_text f = m"
  using assms
  by (auto simp: enqueueParkedFollowUp_def comp_simps insert_follow_up_def insertStep_def incrementStepCount_def
      update_runs_def split: if_splits sum.splits prod.splits option.splits)

lemma begun:
  assumes "fst (beginContinuation env i (Some m) us now db) = Inr (Inr h)" "m \<noteq> []"
  shows "last h = UserEntry m \<and> h \<noteq> []"
  using assms
  by (auto simp: beginContinuation_def continuation_write_def continuation_check_def comp_simps appendUserMessageToHistory_def
      truthy_str_def split: if_splits sum.splits prod.splits option.splits)

lemma on_db_ok: "on_db m w = (Inr x, w') \<longleftrightarrow> (\<exists>db. m (sw_db w) = (Inr x, db) \<and> w' = w\<lparr>sw_db := db\<rparr>)"
  by (auto simp: on_db_def split: prod.splits sum.splits)

lemma resumed_input:
  assumes "resumeHarnessRun env i h t w = (Inr d, w')"
  shows "di_runId d = i \<and> di_history d = h \<and> di_task d = t"
  using assms by (auto simp: resumeHarnessRun_def bindM_def returnM_def split: prod.splits sum.splits)

lemma launched:
  assumes "launchContinuation env run i h w = (Inr reply, w')"
  shows "reply = (202, RunIdBody i) \<and> (\<exists>d. aw_launched w' = aw_launched (api_interfere w) @ [d] \<and> di_runId d = i \<and>
     di_history d = h \<and> di_task d = rp_task run)"
proof -
  let ?w = "api_interfere w"
  obtain x w1 where m: "resumeHarnessRun env i h (rp_task run) (aw_world ?w) = (x, w1)" by fastforce
  show ?thesis
  proof (cases x)
    case (Inl e)
    then show ?thesis using assms by (simp add: launchContinuation_def bindM_split awaiting_result m)
  next
    case (Inr d)
    then show ?thesis using assms resumed_input [OF m [unfolded Inr]]
      by (auto simp: launchContinuation_def bindM_split awaiting_result m modifyM_def returnM_def)
  qed
qed

lemma interfere_launched: "aw_launched (api_interfere w) = aw_launched w"
  by (simp add: api_interfere_def split: prod.splits)

lemma store_queued:
  assumes "store_enqueueParkedFollowUp env i m s u now w = (Inr True, w')"
  shows "\<exists>f \<in> set (rd_follow_ups (sw_db w')). fu_run_id f = i \<and> fu_text f = m"
proof -
  obtain x db where e: "enqueueParkedFollowUp i m s u now (sw_db w) = (x, db)" by fastforce
  obtain q where q: "x = Inr q" using assms
    by (cases x) (simp_all add: store_enqueueParkedFollowUp_def bindM_split on_db_fst on_db_frame e)
  obtain es where n: "notify_if env i q (w\<lparr>sw_db := db\<rparr>) = (Inr (), w\<lparr>sw_db := db, sw_events := es\<rparr>)"
    using notify_if_result [of env i q "w\<lparr>sw_db := db\<rparr>"] by auto
  have w': "w' = w\<lparr>sw_db := db, sw_events := es\<rparr> \<and> q = True" using assms
    by (simp add: store_enqueueParkedFollowUp_def bindM_def on_db_def e q n returnM_def)
  then show ?thesis using enqueued [of i m s u now "sw_db w" db] e q by simp
qed

lemma queued_follow_up:
  assumes "awaiting (bindM (randomUUID env) (\<lambda>uuid. bindM (getsM (hv_clock env)) (\<lambda>now.
      store_enqueueParkedFollowUp (hv_runs env) i m s uuid now))) w = (Inr True, w')"
  shows "(\<exists>f \<in> set (rd_follow_ups (sw_db (aw_world w'))). fu_run_id f = i \<and> fu_text f = m) \<and> aw_launched w' = aw_launched w"
proof -
  let ?w = "api_interfere w"
  let ?u = "fst (hv_uuid env (aw_world ?w))" and ?v = "(aw_world ?w)\<lparr>sw_outside := snd (hv_uuid env (aw_world ?w))\<rparr>"
  have r: "store_enqueueParkedFollowUp (hv_runs env) i m s ?u (hv_clock env ?v) ?v = (Inr True, aw_world w')"
    "aw_launched w' = aw_launched ?w"
    using assms by (auto simp: awaiting_result bindM_split randomUUID_def getsM_def prod_eq_iff)
  show ?thesis using store_queued [OF r(1)] r(2) interfere_launched by metis
qed

lemma store_begun:
  assumes "store_beginContinuation env i (Some m) us now w = (Inr (Inr h), w')" "m \<noteq> []"
  shows "last h = UserEntry m"
proof -
  obtain x db where e: "beginContinuation env i (Some m) us now (sw_db w) = (x, db)" by fastforce
  obtain q where q: "x = Inr q" using assms(1)
    by (cases x) (simp_all add: store_beginContinuation_def bindM_split on_db_fst on_db_frame e)
  have "q = Inr h" using assms(1) notify_if_result [of env i "is_ok q" "w\<lparr>sw_db := db\<rparr>"]
    by (auto simp: store_beginContinuation_def bindM_def on_db_def e q returnM_def)
  then show ?thesis using begun [of env i m us now "sw_db w" h] e q assms(2) by simp
qed

lemma begin_last:
  assumes "begin_continuation env i (Some m) us w = (Inr (Inr h), w')" "m \<noteq> []"
  shows "last h = UserEntry m \<and> aw_launched w' = aw_launched w"
  using assms store_begun [of "hv_runs env" i m us "hv_clock env (aw_world (api_interfere w))" "aw_world (api_interfere w)" h]
  by (auto simp: begin_continuation_def awaiting_result bindM_split getsM_def interfere_launched prod_eq_iff)

lemma message_step_result: "\<exists>s rw. at_once (user_message_step env m) w = (Inr s, w\<lparr>aw_world := rw\<rparr>)"
  by (simp add: at_once_result user_message_step_def bindM_split getsM_def randomUUID_def returnM_def) (rule exI, rule refl)

lemma followed_up:
  assumes "handleFollowUp env run i m w = (Inr (202, reply), w')" "m \<noteq> []"
  shows "reply = RunIdBody i \<and>
    ((\<exists>f \<in> set (rd_follow_ups (sw_db (aw_world w'))). fu_run_id f = i \<and> fu_text f = m) \<and> aw_launched w' = aw_launched w \<or>
     (\<exists>d. aw_launched w' = aw_launched w @ [d] \<and> di_runId d = i \<and> last (di_history d) = UserEntry m))"
proof -
  obtain s rw where s: "at_once (user_message_step env m) w = (Inr s, w\<lparr>aw_world := rw\<rparr>)" using message_step_result by blast
  let ?w = "w\<lparr>aw_world := rw\<rparr>"
  show ?thesis
  proof (cases "ri_status run = Running")
    case True
    let ?m = "awaiting (bindM (randomUUID env) (\<lambda>uuid. bindM (getsM (hv_clock env)) (\<lambda>now.
      store_enqueueParkedFollowUp (hv_runs env) i m s uuid now)))"
    obtain x w1 where x: "?m ?w = (x, w1)" by fastforce
    with True assms(1) have "x = Inr True \<and> w1 = w' \<and> reply = RunIdBody i"
      by (cases x) (auto simp: handleFollowUp_def bindM_def s returnM_def split: if_splits)
    then show ?thesis using queued_follow_up [of env i m s ?w w'] x by simp
  next
    case False
    with assms(1) have el: "isEligibleContinuationOutcome (ri_outcome run)"
      by (cases "isEligibleContinuationOutcome (ri_outcome run)") (simp_all add: handleFollowUp_def returnM_def)
    obtain x w1 where x: "begin_continuation env i (Some m) (Some s) ?w = (x, w1)" by fastforce
    obtain h where h: "x = Inr (Inr h)" using False assms(1) el
      by (cases x) (auto simp: handleFollowUp_def bindM_def s x returnM_def split: sum.splits)
    have l: "launchContinuation env run i h w1 = (Inr (202, reply), w')"
      using False assms(1) el by (simp add: handleFollowUp_def bindM_def s x h)
    show ?thesis using begin_last [OF x [unfolded h] assms(2)] launched [OF l] interfere_launched [of w1] by auto
  qed
qed

text \<open>
  An accepted follow-up is never lost, whatever else happens between the statements: when the
  route answers 202, either the message waits in the queue of the parked run, or the run has just
  been launched again, once and for its own task, with a conversation that ends in the message.
\<close>

theorem accepted_follow_up_is_delivered:
  assumes "follow_up_route env runId body hs w = (Inr (202, reply), w')"
  shows "reply = RunIdBody runId \<and> (\<exists>message. normalizeFollowUpMessage body = Some message \<and>
    ((\<exists>f \<in> set (rd_follow_ups (sw_db (aw_world w'))). fu_run_id f = runId \<and> fu_text f = message) \<and>
       aw_launched w' = aw_launched w \<or>
     (\<exists>d. aw_launched w' = aw_launched w @ [d] \<and> di_runId d = runId \<and> last (di_history d) = UserEntry message)))"
proof -
  obtain m where m: "normalizeFollowUpMessage body = Some m"
    using assms by (cases "normalizeFollowUpMessage body") (simp_all add: follow_up_route_def returnM_def)
  then have "m \<noteq> []" by (auto simp: normalizeFollowUpMessage_def Let_def split: option.splits if_splits)
  obtain r where r: "report_of env runId (api_interfere w) = Some r" "handleFollowUp env r runId m (api_interfere w) = (Inr (202, reply), w')"
    using assms m by (auto simp: follow_up_route_def with_run_result run_not_found_def run_forbidden_def split: option.splits if_splits)
  show ?thesis using followed_up [OF r(2) \<open>m \<noteq> []\<close>] m interfere_launched [of w] by simp
qed

definition example_api :: "run_row list \<Rightarrow> unit api_world" where
  "example_api rows = \<lparr>aw_world = example_world rows, aw_verdicts = [], aw_launched = [], aw_others = []\<rparr>"

theorem accepted_follow_up_is_delivered_witness:
  "let w' = snd (follow_up_route example_harness ''r2'' (JObj [(''message'', JStr '' go on '')]) [] (example_api [example_completed])) in
   (\<exists>f \<in> set (rd_follow_ups (sw_db (aw_world w'))). fu_run_id f = ''r2'' \<and> fu_text f = ''go on'') \<or>
   (\<exists>d. aw_launched w' = [d] \<and> di_runId d = ''r2'' \<and> last (di_history d) = UserEntry ''go on'')"
proof -
  let ?b = "JObj [(''message'', JStr '' go on '')]"
  let ?m = "follow_up_route example_harness ''r2'' ?b [] (example_api [example_completed])"
  have r: "?m = (Inr (202, RunIdBody ''r2''), snd ?m)" by (rule prod_eqI, code_simp, simp)
  have n: "normalizeFollowUpMessage ?b = Some ''go on''" by code_simp
  show ?thesis using accepted_follow_up_is_delivered [OF r] by (auto simp: n Let_def example_api_def)
qed

section \<open>A launch that fails\<close>

lemma begin_result:
  assumes "aw_others w = []" "run_wf (sw_db (aw_world w))" "getRunRow i (sw_db (aw_world w)) = Some r"
    "can_continue (hv_runs env) msg us r (sw_db (aw_world w))"
  shows "\<exists>rw. begin_continuation env i msg us w = (Inr (Inr (continued_history (hv_runs env) msg r)), w\<lparr>aw_world := rw\<rparr>) \<and>
    sw_db rw = continued_db (hv_runs env) msg us (hv_clock env (aw_world w)) r (sw_db (aw_world w)) \<and>
    sw_stop rw = sw_stop (aw_world w)"
proof -
  let ?e = "hv_runs env" and ?w = "aw_world w" and ?now = "hv_clock env (aw_world w)"
  let ?h = "continued_history ?e msg r" and ?db = "continued_db ?e msg us ?now r (sw_db ?w)"
  have b: "beginContinuation ?e i msg us ?now (sw_db ?w) = (Inr (Inr ?h), ?db)"
    by (rule continuation_result [OF assms(2-4)])
  obtain es where n: "notify_if ?e i True (?w\<lparr>sw_db := ?db\<rparr>) = (Inr (), ?w\<lparr>sw_db := ?db, sw_events := es\<rparr>)"
    using notify_if_result [of ?e i True "?w\<lparr>sw_db := ?db\<rparr>"] by auto
  have "store_beginContinuation ?e i msg us ?now ?w = (Inr (Inr ?h), ?w\<lparr>sw_db := ?db, sw_events := es\<rparr>)"
    by (simp add: store_beginContinuation_def bindM_def on_db_def b n returnM_def is_ok_def)
  then show ?thesis
    by (simp add: begin_continuation_def awaiting_result interfere_none [OF assms(1)] bindM_def getsM_def)
       (rule exI, rule conjI [OF refl], simp)
qed

lemma reopened_row:
  assumes "run_wf db" "getRunRow i db = Some r" "rr_status r = RunCompleted"
    "x \<in> set (rd_runs (continued_db env msg us now r db))" "rr_id x = i"
  shows "is_running x \<and> rr_owner_id x = None \<and> rr_mcp_task_id x = None \<and> rr_task_id x = rr_task_id r \<and>
    rr_agent_owner_id x = rr_agent_owner_id r"
proof -
  note ri = getRunRow_in [OF assms(2)]
  have ok: "run_row_ok r" using assms(1) ri by (auto simp: run_wf_def list_all_iff)
  obtain y where y: "y \<in> set (rd_runs db)" "rr_id y = i" "x = (if rr_id y = rr_id r \<and> rr_status y = RunCompleted
      then continue_row (continued_history env msg r) (message_step msg us \<noteq> None) (truthy_str msg) now y else y)"
    using assms(4,5) by (auto simp: continued_db_def Let_def tbl_simps continue_row_def split: if_splits)
  then have "y = r" using getRunRow_unique [OF assms(1) y(1)] assms(2) by simp
  then show ?thesis using y(3) assms(3) ok by (simp add: continue_row_def is_running_def run_row_ok_def)
qed

lemma not_parked:
  assumes "\<And>x. x \<in> set (rd_runs db) \<Longrightarrow> rr_id x = i \<Longrightarrow> rr_mcp_task_id x = None"
  shows "getParkedMcpTask i db = None" "i \<notin> pk_runId ` set (listClaimableParkedMcpTasks env now db)"
    "enqueueParkedFollowUp i m s u now db = (Inr False, db)"
  using assms
  by (auto simp: getParkedMcpTask_def tbl_find_None listClaimableParkedMcpTasks_def oldest_first_def parkedMcpTaskFromRow_def
      is_parked_def enqueueParkedFollowUp_def atomicallyM_def)

lemma mutate: "canMutateRun (rowToRunReport r ss) op act = canMutateRun (rowToRunReport r []) op act"
  by (simp add: canMutateRun_def report_fields split: option.split)

lemma orphaned_state:
  assumes "aw_others w = []" "run_wf (sw_db (aw_world w))" "getRunRow runId (sw_db (aw_world w)) = Some r"
    "map_option to_status (rr_outcome r) = Some Stopped"
    "can_continue (hv_runs env) None None r (sw_db (aw_world w))"
    "canMutateRun (rowToRunReport r []) (readOperatorContext hs) Continue"
    "\<And>h t v. resumeHarnessRun env runId h t v = (Inl e, v)"
  shows "\<exists>rw. resume_route env runId hs w = (Inl e, w\<lparr>aw_world := rw\<rparr>) \<and>
    sw_db rw = continued_db (hv_runs env) None None (hv_clock env (aw_world w)) r (sw_db (aw_world w))"
proof -
  let ?h = "continued_history (hv_runs env) None r"
  note i = interfere_none [OF assms(1)]
  have st: "rr_status r = RunCompleted" using assms(5) by (simp add: can_continue_def)
  have rep: "report_of env runId w = Some (rowToRunReport r (listStepsForRun (hv_runs env) runId (sw_db (aw_world w))))"
    using assms(3) by (simp add: report_of_def)
  obtain rw where b: "begin_continuation env runId None None w = (Inr (Inr ?h), w\<lparr>aw_world := rw\<rparr>)"
    "sw_db rw = continued_db (hv_runs env) None None (hv_clock env (aw_world w)) r (sw_db (aw_world w))"
    using begin_result [OF assms(1-3,5)] by blast
  have l: "launchContinuation env q runId ?h (w\<lparr>aw_world := rw\<rparr>) = (Inl e, w\<lparr>aw_world := rw\<rparr>)" for q
    using interfere_none [of "w\<lparr>aw_world := rw\<rparr>"] assms(1,7) by (simp add: launchContinuation_def bindM_split awaiting_result)
  have "resume_route env runId hs w = (Inl e, w\<lparr>aw_world := rw\<rparr>)"
    by (simp add: resume_route_def with_run_result i rep mutate [of r "(listStepsForRun (hv_runs env) runId (sw_db (aw_world w)))"] assms(6) handleResume_def report_fields st assms(4)
        bindM_def b(1) l)
  then show ?thesis using b(2) by blast
qed

text \<open>
  A continuation is committed before its launch is known to succeed: if launching fails, for
  instance because no API key can be resolved, the request fails and the run stays running with
  no owner and nothing parked. No drive has been started, the sweep never finds the run, further
  follow-ups and resumes are refused, and no other run of the task can start.
\<close>

theorem failed_launch_orphans_run:
  assumes "aw_others w = []" "run_wf (sw_db (aw_world w))" "getRunRow runId (sw_db (aw_world w)) = Some r"
    "map_option to_status (rr_outcome r) = Some Stopped"
    "can_continue (hv_runs env) None None r (sw_db (aw_world w))"
    "canMutateRun (rowToRunReport r []) (readOperatorContext hs) Continue"
    "\<And>h t v. resumeHarnessRun env runId h t v = (Inl e, v)"
    "normalizeFollowUpMessage body \<noteq> None"
    "cq_taskId inp = rr_task_id r" "getRunRow (cq_id inp) (sw_db (aw_world w)) = None" "pg_int4_opt (cq_personaVersion inp)"
  shows "case resume_route env runId hs w of (res, w') \<Rightarrow>
    res = Inl e \<and> aw_launched w' = aw_launched w \<and>
    (\<exists>r'. getRunRow runId (sw_db (aw_world w')) = Some r' \<and> is_running r' \<and> rr_owner_id r' = None) \<and>
    runId \<notin> pk_runId ` set (listClaimableParkedMcpTasks (hv_runs env) now (sw_db (aw_world w'))) \<and>
    fst (follow_up_route env runId body hs w') = Inr (409, FailedBody ''run is not accepting follow-up messages'') \<and>
    resume_route env runId hs w' = (Inr (409, FailedBody ''run is still active''), w') \<and>
    fst (create_run (hv_runs env) inp now (sw_db (aw_world w'))) = Inl (TaskAlreadyRunningError (rr_task_id r))"
proof -
  let ?db = "continued_db (hv_runs env) None None (hv_clock env (aw_world w)) r (sw_db (aw_world w))"
  obtain rw where w': "resume_route env runId hs w = (Inl e, w\<lparr>aw_world := rw\<rparr>)" "sw_db rw = ?db"
    using orphaned_state [OF assms(1-7)] by blast
  let ?w = "w\<lparr>aw_world := rw\<rparr>"
  have st: "rr_status r = RunCompleted" using assms(5) by (simp add: can_continue_def)
  note re = reopened_row [OF assms(2,3) st]
  have idle: "x \<in> set (rd_runs ?db) \<Longrightarrow> rr_id x = runId \<Longrightarrow> rr_mcp_task_id x = None" for x using re by blast
  obtain r' where r': "getRunRow runId ?db = Some r'" using continued_row [OF assms(3) st] by simp
  note rr = re [OF conjunct1 [OF getRunRow_in [OF r']] conjunct2 [OF getRunRow_in [OF r']]]
  have rep: "report_of env runId ?w = Some (rowToRunReport r' (listStepsForRun (hv_runs env) runId ?db))"
    using r' by (simp add: report_of_def w'(2))
  have can: "canMutateRun (rowToRunReport r' ss) (readOperatorContext hs) Continue" for ss
    using assms(6) rr by (auto simp: canMutateRun_def report_fields split: option.splits if_splits)
  have run: "rr_status r' = Running" using rr by (simp add: is_running_def)
  note i = interfere_none [of "?w", simplified, OF assms(1)]
  obtain m where m: "normalizeFollowUpMessage body = Some m" using assms(8) by blast
  obtain s v where s: "at_once (user_message_step env m) ?w = (Inr s, ?w\<lparr>aw_world := v\<rparr>)" and v: "sw_db v = ?db"
    by (simp add: at_once_result user_message_step_def bindM_split getsM_def randomUUID_def returnM_def w'(2))
  have f: "fst (follow_up_route env runId body hs ?w) = Inr (409, FailedBody ''run is not accepting follow-up messages'')"
    using assms(1)
    by (simp add: follow_up_route_def m with_run_result i rep can handleFollowUp_def report_fields run
        bindM_split s awaiting_result interfere_none randomUUID_def getsM_def store_enqueueParkedFollowUp_def on_db_fst
        on_db_frame v not_parked(3) [OF idle] notify_if_def returnM_def followUpConflictMessage_def)
  have re2: "resume_route env runId hs ?w = (Inr (409, FailedBody ''run is still active''), ?w)"
    by (simp add: resume_route_def with_run_result i rep can handleResume_def report_fields run returnM_def
        resumeConflictMessage_def)
  have busy: "busy (rr_task_id r) ?db" using getRunRow_in [OF r'] rr by (auto simp: busy_def)
  have new: "getRunRow (cq_id inp) ?db = None" using continued_row [OF assms(3) st] assms(3,10) by auto
  show ?thesis
    using w' r' rr f re2 not_parked(2) [OF idle] create_busy [OF assms(11) new] busy assms(9) by auto
qed

definition keyless_harness :: "unit harness_env" where
  "keyless_harness = example_harness\<lparr>hv_apiKey := throwM (OtherError ''no key'')\<rparr>"

definition example_stopped :: run_row where
  "example_stopped = example_completed\<lparr>rr_outcome := Some \<lparr>to_status = Stopped, to_reason = None, to_failureClass = None\<rparr>\<rparr>"

theorem failed_launch_orphans_run_witness:
  "fst (resume_route keyless_harness ''r2'' [] (example_api [example_stopped])) = Inl (OtherError ''no key'') \<and>
   resume_route keyless_harness ''r2'' [] (snd (resume_route keyless_harness ''r2'' [] (example_api [example_stopped]))) =
     (Inr (409, FailedBody ''run is still active''), snd (resume_route keyless_harness ''r2'' [] (example_api [example_stopped])))"
proof -
  let ?w = "example_api [example_stopped]"
  have e: "hv_runs keyless_harness = example_env" by (simp add: keyless_harness_def example_harness_def)
  have db: "sw_db (aw_world ?w) = example_db [example_stopped]" by (simp add: example_api_def example_world_def)
  have wf: "run_wf (example_db [example_stopped])"
    by (simp add: run_wf_def running_tasks_def run_row_ok_def is_running_def steps_of_def example_stopped_def example_defs)
  have row: "getRunRow ''r2'' (example_db [example_stopped]) = Some example_stopped"
    by (simp add: getRunRow_def example_db_def tbl_simps) (simp add: example_stopped_def example_defs)
  have p: "parseConversationHistory (rv_parse example_env) (rr_history example_stopped) = Some [UserEntry ''hi'']"
    using history_round_trip [of "[UserEntry ''hi'']"] by (simp add: valid_entry_def example_stopped_def example_completed_def)
  have can: "can_continue example_env None None example_stopped (example_db [example_stopped])"
    by (simp add: can_continue_def p) (simp add: isEligibleContinuationOutcome_def busy_def is_running_def step_fresh_def
        message_step_def truthy_str_def example_stopped_def example_defs)
  have fails: "resumeHarnessRun keyless_harness ''r2'' h t v = (Inl (OtherError ''no key''), v)" for h t v
    by (cases "truthy_str (Option.bind (getRunRow ''r2'' (sw_db v)) rr_persona)")
      (simp_all add: resumeHarnessRun_def resolveSystemPromptForResume_def bindM_def getsM_def returnM_def throwM_def Let_def
        keyless_harness_def example_harness_def)
  have "pg_int4_opt (cq_personaVersion (example_request ''r3''))" "getRunRow (cq_id (example_request ''r3'')) (example_db [example_stopped]) = None"
    "cq_taskId (example_request ''r3'') = rr_task_id example_stopped"
    "map_option to_status (rr_outcome example_stopped) = Some Stopped" "aw_others ?w = []"
    "canMutateRun (rowToRunReport example_stopped []) (readOperatorContext []) Continue"
    "normalizeFollowUpMessage (JObj [(''message'', JStr ''x'')]) \<noteq> None"
    by (simp_all add: pg_int4_opt_def getRunRow_def tbl_simps example_stopped_def example_defs example_api_def canMutateRun_def
        readOperatorContext_def headerValue_def normalizeFollowUpMessage_def trim_def utf16_length_def utf16_units_def is_space_def
        follow_up_message_max_length_def)
  from failed_launch_orphans_run [where env = keyless_harness and now = 0, OF this(5), unfolded e db, OF wf row this(4) can this(6) fails this(7,3,2,1)]
  show ?thesis by (auto split: prod.splits)
qed

section \<open>Stopping\<close>

text \<open>
  A stop is accepted exactly for a run that is running and does not wait for an approval, by
  someone who may stop it; it then reaches the agent loop of this process: the run is marked and
  its signal, if the loop has attached one, is aborted. The tables never change. A run that waits
  for an approval cannot be stopped.
\<close>

theorem stop_reaches_the_loop:
  assumes "aw_others w = []" "getRunRow runId (sw_db (aw_world w)) = Some r"
    "canMutateRun (rowToRunReport r []) (readOperatorContext hs) Stop"
  shows "case stop_route env runId hs w of (res, w') \<Rightarrow>
    sw_db (aw_world w') = sw_db (aw_world w) \<and> aw_launched w' = aw_launched w \<and>
    (if rr_status r \<noteq> Running then res = Inr (409, FailedBody ''run is not running'') \<and> w' = w
     else if getParkedMcpTask runId (sw_db (aw_world w)) \<noteq> None
     then res = Inr (409, FailedBody ''stop is not allowed while waiting for approval; reject the gated call instead'') \<and> w' = w
     else res = Inr (202, RunIdBody runId) \<and> isStopRequested runId (sw_stop (aw_world w')) \<and>
       (map_of (sc_controllers (sw_stop (aw_world w))) runId \<noteq> None \<longrightarrow> aborted runId (sw_stop (aw_world w'))) \<and>
       (\<forall>i. i \<noteq> runId \<longrightarrow> isStopRequested i (sw_stop (aw_world w')) = isStopRequested i (sw_stop (aw_world w)) \<and>
          aborted i (sw_stop (aw_world w')) = aborted i (sw_stop (aw_world w))))"
proof -
  note i = interfere_none [OF assms(1)]
  have rep: "report_of env runId w = Some (rowToRunReport r (listStepsForRun (hv_runs env) runId (sw_db (aw_world w))))"
    using assms(2) by (simp add: report_of_def)
  have route: "stop_route env runId hs w = handleStop env (rowToRunReport r (listStepsForRun (hv_runs env) runId (sw_db (aw_world w)))) runId w"
    by (simp add: stop_route_def with_run_result i rep mutate [of r "(listStepsForRun (hv_runs env) runId (sw_db (aw_world w)))"] assms(3))
  show ?thesis
    by (auto simp: route handleStop_def report_fields returnM_def stopConflictMessage_def bindM_split awaiting_result i getsM_def
        at_once_result modifyM_def requestStop_def isStopRequested_def aborted_def set_add_def js_simps split: option.splits)
qed

theorem stop_reaches_the_loop_witness:
  "fst (stop_route example_harness ''r1'' [] (example_api [example_running])) = Inr (202, RunIdBody ''r1'') \<and>
   isStopRequested ''r1'' (sw_stop (aw_world (snd (stop_route example_harness ''r1'' [] (example_api [example_running])))))"
proof -
  have "aw_others (example_api [example_running]) = []" by (simp add: example_api_def)
  moreover have "getRunRow ''r1'' (sw_db (aw_world (example_api [example_running]))) = Some example_running"
    using example_rows(1) by (simp add: example_api_def example_world_def)
  moreover have "canMutateRun (rowToRunReport example_running []) (readOperatorContext []) Stop"
    by (simp add: canMutateRun_def readOperatorContext_def headerValue_def)
  moreover have "rr_status example_running = Running" "getParkedMcpTask ''r1'' (sw_db (aw_world (example_api [example_running]))) = None"
    by (simp_all add: getParkedMcpTask_def tbl_simps example_api_def example_world_def example_defs)
  ultimately show ?thesis
    using stop_reaches_the_loop [where env = example_harness and runId = "''r1''"] by (fastforce split: prod.splits)
qed

section \<open>Verdicts\<close>

lemma map_of_put: "map_of (map_put k v m) k' = (if k' = k then Some v else map_of m k')"
  by (induction k v m rule: map_put.induct) auto

definition with_verdict :: "int \<Rightarrow> verdict_cols \<Rightarrow> run_attempt_summary \<Rightarrow> run_attempt_summary" where
  "with_verdict index cols a = (if as_attemptIndex a = index then a\<lparr>as_verdict := cols\<rparr> else a)"

lemma listed_after_write:
  "listRunAttempts i db (map_put (i, index) cols vs) = map (with_verdict index cols) (listRunAttempts i db vs)"
  by (auto simp: listRunAttempts_def attempts_of_run_def with_verdict_def toSummary_def verdict_cols_of_def map_of_put)

lemma listed_elsewhere: "j \<noteq> i \<Longrightarrow> listRunAttempts j db (map_put (i, index) cols vs) = listRunAttempts j db vs"
  by (auto simp: listRunAttempts_def attempts_of_run_def toSummary_def verdict_cols_of_def map_of_put)

lemma access_result: "aw_others w = [] \<Longrightarrow> \<exists>x. verdictAccess env i hs w = (Inr x, w)"
  by (cases "report_of env i w")
    (simp_all add: verdictAccess_def Let_def bindM_split read_run_result interfere_none awaiting_result getsM_def returnM_def)

lemma write_verdict_some:
  "write_verdict i index cols db vs = (Some a, vs') \<Longrightarrow> vs' = map_put (i, index) cols vs"
  by (auto simp: write_verdict_def Let_def split: list.splits)

text \<open>
  A verdict that was accepted is the one that is read back: afterwards the attempts of the
  run are listed as before except that the judged attempt carries the verdict, the trimmed note
  (an empty one counts as none), the operator who gave it and the time; the attempts of every
  other run are listed as before, and runs and launches are untouched.
\<close>

theorem accepted_verdict_is_listed:
  assumes "aw_others w = []"
    "put_verdict_route env runId attemptIndex body hs w = (Inr (200, reply), w')"
  shows "\<exists>index v remark oc. parseVerdictTarget runId attemptIndex = Some (runId, index) \<and>
     setAttemptVerdictRequestSchema body = Some (v, remark) \<and> readOperatorContext hs = Some oc \<and>
     (\<forall>j. listRunAttempts j (sw_db (aw_world w')) (aw_verdicts w') =
       map (if j = runId then with_verdict index \<lparr>vc_verdict = Some v, vc_note = Option.bind (map_option trim remark) nonempty,
              vc_by = Some (oc_ownerId oc), vc_at = Some (hv_clock env (aw_world w))\<rparr> else id)
         (listRunAttempts j (sw_db (aw_world w)) (aw_verdicts w))) \<and>
     aw_world w' = aw_world w \<and> aw_launched w' = aw_launched w"
proof -
  obtain index where t: "parseVerdictTarget runId attemptIndex = Some (runId, index)"
    using assms(2) by (cases "parseVerdictTarget runId attemptIndex")
      (auto simp: put_verdict_route_def returnM_def parseVerdictTarget_def Let_def split: if_splits)
  obtain v remark where b: "setAttemptVerdictRequestSchema body = Some (v, remark)"
    using assms(2) t by (cases "setAttemptVerdictRequestSchema body") (auto simp: put_verdict_route_def returnM_def)
  obtain oc where oc: "readOperatorContext hs = Some oc"
    using assms(2) t b by (cases "readOperatorContext hs") (auto simp: put_verdict_route_def verdict_route_def returnM_def)
  let ?cols = "\<lparr>vc_verdict = Some v, vc_note = Option.bind (map_option trim remark) nonempty,
    vc_by = Some (oc_ownerId oc), vc_at = Some (hv_clock env (aw_world w))\<rparr>"
  obtain acc where acc: "verdictAccess env runId hs w = (Inr acc, w)" using access_result [OF assms(1)] by blast
  obtain u vs where u: "write_verdict runId index ?cols (sw_db (aw_world w)) (aw_verdicts w) = (u, vs)" by fastforce
  have ok: "acc = AccessOk" using assms(2)
    by (cases acc) (simp_all add: put_verdict_route_def t b verdict_route_def oc bindM_split acc returnM_def
        attempt_not_found_def run_forbidden_def)
  have "(Inr (200, reply), w') = (Inr (answer_verdict u), w\<lparr>aw_verdicts := vs\<rparr>)"
    using assms(2)
    by (simp add: put_verdict_route_def t b verdict_route_def oc bindM_split acc ok at_once_result getsM_def on_verdicts_def
        setAttemptVerdict_def interfere_none [OF assms(1)] returnM_def u)
  then have w': "w' = w\<lparr>aw_verdicts := vs\<rparr>" and "u \<noteq> None"
    by simp (cases u; use \<open>_ = (Inr (answer_verdict u), _)\<close> in \<open>simp add: answer_verdict_def attempt_not_found_def\<close>)
  then have "vs = map_put (runId, index) ?cols (aw_verdicts w)" using write_verdict_some u by blast
  then show ?thesis using t b oc w' listed_after_write listed_elsewhere by (auto intro!: exI [of _ index])
qed

definition example_fact :: attempt_fact where
  "example_fact = \<lparr>af_runId = ''r2'', af_attemptIndex = 1, af_kind = Initial, af_taskId = ''t'', af_agentId = ''a'',
     af_agentOwnerId = None, af_modelId = None, af_personaVersion = None, af_taskRevisionHash = ''h'', af_maxIterations = None,
     af_timeoutSeconds = None, af_startedAt = 3, af_endedAt = 5, af_activeMs = 2, af_iterationsUsed = 1, af_outcome = GoalMet,
     af_outcomeReason = None, af_failureClass = None, af_toolCounts = [], af_denialCount = 0, af_linkingRequiredCount = 0,
     af_approvalRequestCount = 0, af_rejectionCount = 0, af_backfilled = False,
     af_summary = \<lparr>ms_inputTokens = None, ms_outputTokens = None, ms_cost = None, ms_resolvedModelId = None,
       ms_resolvedModelChanged = False\<rparr>\<rparr>"

definition judged_api :: "unit api_world" where
  "judged_api = (example_api [example_completed])\<lparr>aw_world := (example_world [example_completed])
     \<lparr>sw_db := (example_db [example_completed])\<lparr>rd_attempts := [example_fact]\<rparr>\<rparr>\<rparr>"

definition example_headers :: "string \<Rightarrow> string \<Rightarrow> headers" where
  "example_headers owner role = [(operator_owner_header, HOne owner), (operator_role_header, HOne role)]"

theorem accepted_verdict_is_listed_witness:
  "listRunAttempts ''r2'' (sw_db (aw_world judged_api)) (aw_verdicts (snd (put_verdict_route example_harness ''r2'' ''1''
     (JObj [(''verdict'', JStr ''up''), (''note'', JStr '' '')]) (example_headers ''ann'' ''admin'') judged_api))) =
   [(toSummary [] example_fact)\<lparr>as_verdict := \<lparr>vc_verdict = Some VerdictUp, vc_note = None, vc_by = Some ''ann'', vc_at = Some 7\<rparr>\<rparr>]"
proof -
  let ?b = "JObj [(''verdict'', JStr ''up''), (''note'', JStr '' '')]"
  let ?m = "put_verdict_route example_harness ''r2'' ''1'' ?b (example_headers ''ann'' ''admin'') judged_api"
  have t: "parseVerdictTarget ''r2'' ''1'' = Some (''r2'', 1)"
    by (simp add: parseVerdictTarget_def is_digit_def digits_val_def)
  have b: "setAttemptVerdictRequestSchema ?b = Some (VerdictUp, Some '' '')"
    by (simp add: setAttemptVerdictRequestSchema_def attemptVerdictSchema_def verdict_note_def utf16_length_def utf16_units_def
        attempt_verdict_note_max_length_def)
  have h: "readOperatorContext (example_headers ''ann'' ''admin'') = Some \<lparr>oc_ownerId = ''ann'', oc_role = Admin\<rparr>" by code_simp
  have v: "aw_others judged_api = []" "aw_verdicts judged_api = []" "sw_db (aw_world judged_api) =
      (example_db [example_completed])\<lparr>rd_attempts := [example_fact]\<rparr>" "hv_clock example_harness w = 7" for w
    by (simp_all add: judged_api_def example_api_def example_world_def example_harness_def)
  have row: "getRunRow ''r2'' ((example_db [example_completed])\<lparr>rd_attempts := [example_fact]\<rparr>) = Some example_completed"
    using example_rows(2) by (simp add: getRunRow_def)
  have acc: "verdictAccess example_harness ''r2'' (example_headers ''ann'' ''admin'') judged_api = (Inr AccessOk, judged_api)"
    by (simp add: verdictAccess_def Let_def bindM_split read_run_result interfere_none v returnM_def report_of_def row h)
  have att: "attempts_of_run ''r2'' ((example_db [example_completed])\<lparr>rd_attempts := [example_fact]\<rparr>) = [example_fact]"
    by (simp add: attempts_of_run_def example_fact_def)
  have l: "listRunAttempts ''r2'' ((example_db [example_completed])\<lparr>rd_attempts := [example_fact]\<rparr>) [] = [toSummary [] example_fact]"
    by (simp add: listRunAttempts_def att sort_by_def)
  have n: "nonempty (trim '' '') = None" by (simp add: trim_def is_space_def)
  have "af_attemptIndex example_fact = 1" by (simp add: example_fact_def)
  then obtain reply where r: "?m = (Inr (200, reply), snd ?m)"
    by (simp add: put_verdict_route_def t b verdict_route_def h bindM_split acc at_once_result getsM_def on_verdicts_def
        setAttemptVerdict_def interfere_none v returnM_def write_verdict_def att Let_def answer_verdict_def)
  show ?thesis
    using accepted_verdict_is_listed [OF v(1) r] n
    by (auto simp: t b h v l with_verdict_def) (simp add: toSummary_def example_fact_def)
qed

section \<open>The rebuilt log\<close>

definition shown_messages :: "run_step list \<Rightarrow> string list" where
  "shown_messages steps = List.map_filter (\<lambda>s. case rs_body s of UserMessageStep t \<Rightarrow> Some t | _ \<Rightarrow> None) steps"

definition shown_calls :: "run_step list \<Rightarrow> (string \<times> string) list" where
  "shown_calls steps = List.map_filter
     (\<lambda>s. case rs_body s of ToolDispatchStep (Some n) (Some i) _ \<Rightarrow> Some (i, n) | _ \<Rightarrow> None) steps"

definition shown_results :: "run_step list \<Rightarrow> (string \<times> bool) list" where
  "shown_results steps = List.map_filter (\<lambda>s. case rs_body s of
     ToolResultStep r \<Rightarrow> map_option (\<lambda>i. (i, tr_toolStatus r = Some ToolError)) (tr_toolCallId r) | _ \<Rightarrow> None) steps"

definition messages_of :: "conversation_entry list \<Rightarrow> string list" where
  "messages_of h = List.map_filter (\<lambda>e. case e of UserEntry t \<Rightarrow> Some t | _ \<Rightarrow> None) h"

definition entry_calls :: "conversation_entry list \<Rightarrow> (string \<times> string) list" where
  "entry_calls h = concat (map (\<lambda>e. case e of AssistantEntry _ calls \<Rightarrow> map (\<lambda>c. (call_id c, call_tool c)) calls | _ \<Rightarrow> []) h)"

definition results_of :: "conversation_entry list \<Rightarrow> (string \<times> bool) list" where
  "results_of h = List.map_filter (\<lambda>e. case e of ToolEntry i _ _ bad \<Rightarrow> Some (i, bad) | _ \<Rightarrow> None) h"

lemmas shown_defs = shown_messages_def shown_calls_def shown_results_def messages_of_def entry_calls_def results_of_def
  history_step_def assistant_steps_def result_step_def

lemma map_filter_append: "List.map_filter f (xs @ ys) = List.map_filter f xs @ List.map_filter f ys"
  by (simp add: List.map_filter_def)

lemma shown_dispatches:
  "List.map_filter (\<lambda>s. case rs_body s of UserMessageStep t \<Rightarrow> Some t | _ \<Rightarrow> None) (assistant_steps t i x calls) = []"
  "List.map_filter (\<lambda>s. case rs_body s of ToolDispatchStep (Some n) (Some i) _ \<Rightarrow> Some (i, n) | _ \<Rightarrow> None)
     (assistant_steps t i x calls) = map (\<lambda>c. (call_id c, call_tool c)) calls"
  "List.map_filter (\<lambda>s. case rs_body s of
     ToolResultStep r \<Rightarrow> map_option (\<lambda>i. (i, tr_toolStatus r = Some ToolError)) (tr_toolCallId r) | _ \<Rightarrow> None)
     (assistant_steps t i x calls) = []"
  by (induction calls) (auto simp: assistant_steps_def history_step_def List.map_filter_def)

lemma history_shown:
  "shown_messages (history_steps i t k n h) = (if n = 0 then tl (messages_of h) else messages_of h) \<and>
   shown_calls (history_steps i t k n h) = entry_calls h \<and> shown_results (history_steps i t k n h) = results_of h"
proof (induction i t k n h rule: history_steps.induct)
  case (2 i t k n x h)
  then show ?case by (simp add: shown_defs map_filter_append List.map_filter_simps)
qed (simp_all add: shown_defs [unfolded assistant_steps_def [abs_def]] map_filter_append shown_dispatches List.map_filter_simps)

text \<open>
  When the steps of a run have aged out, the log shown instead is faithful to its
  conversation: every message of the user but the first, which is the goal, every tool call and
  every tool result with its success appear exactly once and in their order, and the log ends
  with the outcome of the run if it has one. A run whose steps are still there is shown as it is.
\<close>

theorem rebuilt_log_follows_conversation:
  assumes "ri_stepCount run \<noteq> 0" "h \<noteq> []"
  shows "if rp_steps run \<noteq> [] then presentRunReport run (Some h) = run
    else let steps = rp_steps (presentRunReport run (Some h)) in
      shown_messages steps = tl (messages_of h) \<and> shown_calls steps = entry_calls h \<and> shown_results steps = results_of h \<and>
      (case ri_outcome run of None \<Rightarrow> True | Some out \<Rightarrow> steps \<noteq> [] \<and> rs_body (last steps) = outcome_body out) \<and>
      run_list_item.truncate (presentRunReport run (Some h)) = run_list_item.truncate run"
proof (cases "rp_steps run")
  case (Cons s ss)
  then show ?thesis by (simp add: presentRunReport_def)
next
  case Nil
  let ?hs = "history_steps (ri_id run) (ri_startedAt run) 0 0 h"
  let ?os = "outcomeStep (ri_id run) (ri_startedAt run) (ri_outcome run)"
  have o1: "shown_messages ?os = []" "shown_calls ?os = []" "shown_results ?os = []"
    by (auto simp: outcomeStep_def shown_defs outcome_body_def List.map_filter_simps split: option.splits)
  have app: "shown_messages (xs @ ys) = shown_messages xs @ shown_messages ys" "shown_calls (xs @ ys) = shown_calls xs @ shown_calls ys"
    "shown_results (xs @ ys) = shown_results xs @ shown_results ys" for xs ys
    by (simp_all add: shown_messages_def shown_calls_def shown_results_def map_filter_append)
  have steps: "rp_steps (presentRunReport run (Some h)) = ?hs @ ?os"
    using Nil assms by (simp add: presentRunReport_def stepsFromConversationHistory_def Let_def)
  have rest: "run_list_item.truncate (presentRunReport run (Some h)) = run_list_item.truncate run"
    by (simp add: presentRunReport_def Let_def run_list_item.truncate_def)
  show ?thesis
    using Nil rest history_shown [of "ri_id run" "ri_startedAt run" 0 0 h]
    by (simp add: steps Let_def app o1) (auto simp: outcomeStep_def history_step_def split: option.split)
qed

theorem rebuilt_log_follows_conversation_witness:
  "shown_messages (rp_steps (presentRunReport ((rowToRunReport example_completed [])\<lparr>ri_stepCount := 3\<rparr>)
     (Some [UserEntry ''goal'', UserEntry ''more'']))) = [''more'']"
  using rebuilt_log_follows_conversation
    [of "(rowToRunReport example_completed [])\<lparr>ri_stepCount := 3\<rparr>" "[UserEntry ''goal'', UserEntry ''more'']"]
  by (simp add: Let_def messages_of_def List.map_filter_simps rowToRunReport_def run_list_item.defs run_report.defs)


end
