(* ===== verification/FudaClient.thy ===== *)
theory FudaClient
  imports FudaAgents HttpInput Triples
begin

text \<open>
  How the runtime asks Fuda: the HTTP client of
  \<^verbatim>\<open>packages/shared/src/clients/fuda/http-fuda-client.ts\<close> with its errors (\<^verbatim>\<open>types.ts\<close>), and the
  providers that cache agent and sandbox tokens (\<^verbatim>\<open>apps/shaiden/src/fuda\<close>). The network is a
  parameter: it is handed a request and gives what \<open>fetch\<close> gives, or the message of its error;
  \<open>parse_json\<close> is \<open>JSON.parse\<close>. The abort of a request that lasts too long is such an error.
\<close>

section \<open>Requests and errors\<close>

record http_request =
  hr_method :: string
  hr_url :: string
  hr_body :: "json option"

text \<open>The body is absent when reading it fails.\<close>

datatype http_outcome = FetchFailed string | Answered nat "string option"

datatype token_failure = InvalidSubject | GrantDenied | TokenAgentNotFound | InvalidRequest | TokenUnreachable | TokenUnexpected

datatype definition_failure = DefinitionNotFound | DefinitionUnreachable | DefinitionUnexpected

datatype client_error =
    ExchangeFailed token_failure string
  | DefinitionFailed definition_failure string
  | ClientError string

type_synonym ('n, 'a) client_comp = "('n, client_error, 'a) comp"

record 'n client_env =
  ce_baseUrl :: string
  ce_fetch :: "http_request \<Rightarrow> 'n \<Rightarrow> http_outcome \<times> 'n"
  ce_parse :: "string \<Rightarrow> json option"

definition trimTrailingSlash :: "string \<Rightarrow> string" where
  "trimTrailingSlash url = rev (dropWhile (\<lambda>c. c = CHR ''/'') (rev url))"

definition url_unreserved :: "char \<Rightarrow> bool" where
  "url_unreserved c \<longleftrightarrow> (let n = of_char c :: nat in
     (48 \<le> n \<and> n \<le> 57) \<or> (65 \<le> n \<and> n \<le> 90) \<or> (97 \<le> n \<and> n \<le> 122)) \<or> c \<in> set ''-_.!~*()'' \<or> c = CHR 0x27"

definition upper_hex :: "nat \<Rightarrow> char" where
  "upper_hex n = char_of (if n < 10 then 48 + n else 55 + n)"

definition encodeURIComponent :: "string \<Rightarrow> string" where
  "encodeURIComponent s = concat (map (\<lambda>c. if url_unreserved c then [c]
     else [CHR ''%'', upper_hex (of_char c div 16), upper_hex (of_char c mod 16)]) s)"

definition kindForTokenStatus :: "nat \<Rightarrow> string \<Rightarrow> token_failure" where
  "kindForTokenStatus status errorText =
    (if status = 401 then InvalidSubject
     else if status = 403 then GrantDenied
     else if status = 404 then TokenAgentNotFound
     else if status = 400 then InvalidRequest
     else if str_includes ''bearer not granted'' errorText then GrantDenied
     else TokenUnexpected)"

definition text_or :: "string \<Rightarrow> string \<Rightarrow> string" where
  "text_or s d = (if s = [] then d else s)"

definition messageForTokenKind :: "token_failure \<Rightarrow> nat \<Rightarrow> string \<Rightarrow> string" where
  "messageForTokenKind failure status errorText =
    (case failure of
       InvalidSubject \<Rightarrow> ''Fuda rejected subject token''
     | GrantDenied \<Rightarrow> ''Fuda denied agent grant (bearer not granted for agent)''
     | TokenAgentNotFound \<Rightarrow> ''Fuda agent not found''
     | InvalidRequest \<Rightarrow> ''Fuda rejected token exchange request: '' @ text_or errorText (digits status)
     | _ \<Rightarrow> ''Fuda token exchange failed ('' @ digits status @ ''): '' @ text_or errorText ''unknown error'')"

definition kindForDefinitionStatus :: "nat \<Rightarrow> definition_failure" where
  "kindForDefinitionStatus status = (if status = 404 then DefinitionNotFound else DefinitionUnexpected)"

definition messageForDefinitionKind :: "definition_failure \<Rightarrow> nat \<Rightarrow> string \<Rightarrow> string" where
  "messageForDefinitionKind failure status errorText =
    (case failure of
       DefinitionNotFound \<Rightarrow> ''Fuda agent not found''
     | DefinitionUnreachable \<Rightarrow> ''Fuda unreachable while fetching agent definition: '' @ errorText
     | DefinitionUnexpected \<Rightarrow> ''Fuda agent definition fetch failed ('' @ digits status @ ''): '' @ text_or errorText ''unknown error'')"

definition readErrorText :: "(string \<Rightarrow> json option) \<Rightarrow> string option \<Rightarrow> string" where
  "readErrorText parse_json body =
    (let raw = or_else body [] in
     if raw = [] then []
     else (case as_string (Option.bind (parse_json raw) (prop_of ''error'')) of Some e \<Rightarrow> e | None \<Rightarrow> raw))"

definition response_ok :: "nat \<Rightarrow> bool" where
  "response_ok status \<longleftrightarrow> 200 \<le> status \<and> status < 300"

definition fetchWithTimeout :: "'n client_env \<Rightarrow> http_request \<Rightarrow> ('n, http_outcome) client_comp" where
  "fetchWithTimeout env req n = (case ce_fetch env req n of (out, n') \<Rightarrow> (Inr out, n'))"

text \<open>\<open>response.json()\<close>; a body that is \<open>null\<close> is then asked for its properties.\<close>

definition response_json :: "'n client_env \<Rightarrow> client_error \<Rightarrow> string option \<Rightarrow> client_error + json" where
  "response_json env invalid body =
    (case Option.bind body (ce_parse env) of
       None \<Rightarrow> Inl invalid
     | Some j \<Rightarrow> if j = JNull then Inl (ClientError ''Cannot read properties of null'') else Inr j)"

fun json_number :: "json option \<Rightarrow> rat option" where
  "json_number (Some (JInt i)) = Some (of_int i)"
| "json_number (Some (JFloat s)) = js_number s"
| "json_number _ = None"

section \<open>The exchange of tokens\<close>

record exchange_input =
  xi_subjectToken :: string
  xi_agentId :: "string option"
  xi_audience :: "token_audience option"

record exchanged_token =
  xt_accessToken :: string
  xt_expiresIn :: rat

definition exchange_body :: "exchange_input \<Rightarrow> json" where
  "exchange_body inp = JObj ([(''subject_token'', JStr (xi_subjectToken inp))] @
     (if truthy_str (xi_agentId inp) then [(''agent_id'', JStr (or_else (xi_agentId inp) []))] else []) @
     (case xi_audience inp of None \<Rightarrow> [] | Some a \<Rightarrow> [(''audience'', JStr (audience_str a))]))"

definition invalid_token_body :: client_error where
  "invalid_token_body = ExchangeFailed TokenUnexpected ''Fuda token exchange returned an invalid response body''"

definition read_token :: "json \<Rightarrow> client_error + exchanged_token" where
  "read_token body =
    (case (as_string (prop_of ''access_token'' body), json_number (prop_of ''expires_in'' body)) of
       (Some token, Some expires) \<Rightarrow>
         if token = [] \<or> expires \<le> 0 then Inl invalid_token_body
         else Inr \<lparr>xt_accessToken = token, xt_expiresIn = expires\<rparr>
     | _ \<Rightarrow> Inl invalid_token_body)"

definition exchange_answer :: "'n client_env \<Rightarrow> http_outcome \<Rightarrow> client_error + exchanged_token" where
  "exchange_answer env out =
    (case out of
       FetchFailed e \<Rightarrow> Inl (ExchangeFailed TokenUnreachable (''Fuda unreachable during token exchange: '' @ e))
     | Answered status body \<Rightarrow>
         if \<not> response_ok status
         then (let errorText = readErrorText (ce_parse env) body; failure = kindForTokenStatus status errorText in
               Inl (ExchangeFailed failure (messageForTokenKind failure status errorText)))
         else (case response_json env invalid_token_body body of Inl e \<Rightarrow> Inl e | Inr j \<Rightarrow> read_token j))"

definition of_answer :: "client_error + 'a \<Rightarrow> ('n, 'a) client_comp" where
  "of_answer r n = (r, n)"

definition exchangeToken :: "'n client_env \<Rightarrow> exchange_input \<Rightarrow> ('n, exchanged_token) client_comp" where
  "exchangeToken env inp =
    (let audience = or_else (xi_audience inp) Torii in
     if audience = Torii \<and> \<not> truthy_str (xi_agentId inp)
     then throwM (ExchangeFailed InvalidRequest ''agent_id is required for audience torii'')
     else if audience = Sandbox \<and> truthy_str (xi_agentId inp)
     then throwM (ExchangeFailed InvalidRequest ''agent_id is not accepted for audience shaiden-sandbox'')
     else bindM (fetchWithTimeout env \<lparr>hr_method = ''POST'', hr_url = trimTrailingSlash (ce_baseUrl env) @ ''/token'',
            hr_body = Some (exchange_body inp)\<rparr>) (\<lambda>out. of_answer (exchange_answer env out)))"

section \<open>The definition of an agent\<close>

definition invalid_definition_body :: client_error where
  "invalid_definition_body = DefinitionFailed DefinitionUnexpected ''Fuda agent definition returned an invalid response body''"

definition filled :: "json option \<Rightarrow> string option" where
  "filled j = Option.bind (as_string j) nonempty"

definition whole_number :: "json option \<Rightarrow> int option" where
  "whole_number j = Option.bind (json_number j) (\<lambda>x. case quotient_of x of (p, q) \<Rightarrow> if q = 1 then Some p else None)"

definition read_definition :: "json \<Rightarrow> client_error + served_definition" where
  "read_definition body =
    (case (filled (prop_of ''name'' body), filled (prop_of ''slug'' body), filled (prop_of ''persona'' body),
           whole_number (prop_of ''personaVersion'' body), filled (prop_of ''ownerId'' body)) of
       (Some name, Some slug, Some persona, Some version, Some owner) \<Rightarrow>
         if version < 1 then Inl invalid_definition_body
         else Inr \<lparr>df_name = name, df_slug = slug, df_persona = persona, df_personaVersion = version, df_ownerId = owner,
           df_defaultModelId = filled (prop_of ''defaultModelId'' body)\<rparr>
     | _ \<Rightarrow> Inl invalid_definition_body)"

definition definition_answer :: "'n client_env \<Rightarrow> http_outcome \<Rightarrow> client_error + served_definition" where
  "definition_answer env out =
    (case out of
       FetchFailed e \<Rightarrow> Inl (DefinitionFailed DefinitionUnreachable (messageForDefinitionKind DefinitionUnreachable 0 e))
     | Answered status body \<Rightarrow>
         if \<not> response_ok status
         then (let errorText = readErrorText (ce_parse env) body; failure = kindForDefinitionStatus status in
               Inl (DefinitionFailed failure (messageForDefinitionKind failure status errorText)))
         else (case response_json env invalid_definition_body body of Inl e \<Rightarrow> Inl e | Inr j \<Rightarrow> read_definition j))"

definition getAgentDefinition :: "'n client_env \<Rightarrow> string \<Rightarrow> ('n, served_definition) client_comp" where
  "getAgentDefinition env agentId =
    bindM (fetchWithTimeout env \<lparr>hr_method = ''GET'',
        hr_url = trimTrailingSlash (ce_baseUrl env) @ ''/agents/'' @ encodeURIComponent agentId, hr_body = None\<rparr>)
      (\<lambda>out. of_answer (definition_answer env out))"

section \<open>The providers of tokens\<close>

record cached_token =
  ct_accessToken :: string
  ct_expiresAtMs :: rat

definition default_refresh_skew_ms :: int where "default_refresh_skew_ms = 30000"

text \<open>
  \<open>pv_request\<close> is what the provider exchanges a subject token for: the agent of the run, or the
  audience of the sandbox.
\<close>

record 'n provider_env =
  po_exchange :: "exchange_input \<Rightarrow> ('n, exchanged_token) client_comp"
  po_subject :: "('n, string) client_comp"
  po_request :: "string \<Rightarrow> exchange_input"
  po_clock :: "'n \<Rightarrow> int"
  po_skewMs :: int

definition agent_request :: "string \<Rightarrow> string \<Rightarrow> exchange_input" where
  "agent_request agentId subjectToken = \<lparr>xi_subjectToken = subjectToken, xi_agentId = Some agentId, xi_audience = None\<rparr>"

definition sandbox_request_input :: "string \<Rightarrow> exchange_input" where
  "sandbox_request_input subjectToken = \<lparr>xi_subjectToken = subjectToken, xi_agentId = None, xi_audience = Some Sandbox\<rparr>"

record 'n provider_world =
  pw_cached :: "cached_token option"
  pw_network :: 'n

definition on_network :: "('n, 'a) client_comp \<Rightarrow> ('n provider_world, client_error, 'a) comp" where
  "on_network m w = (case m (pw_network w) of (r, n) \<Rightarrow> (r, w\<lparr>pw_network := n\<rparr>))"

definition isUsable :: "cached_token \<Rightarrow> int \<Rightarrow> bool" where
  "isUsable token now \<longleftrightarrow> of_int now < ct_expiresAtMs token"

definition needsRefresh :: "int \<Rightarrow> cached_token option \<Rightarrow> int \<Rightarrow> bool" where
  "needsRefresh skewMs token now =
    (case token of None \<Rightarrow> True | Some t \<Rightarrow> of_int now \<ge> ct_expiresAtMs t - of_int skewMs)"

definition mint :: "'n provider_env \<Rightarrow> int \<Rightarrow> ('n provider_world, client_error, string) comp" where
  "mint env now =
    bindM (on_network (po_subject env)) (\<lambda>subjectToken.
    bindM (on_network (po_exchange env (po_request env subjectToken))) (\<lambda>minted.
    bindM (modifyM (\<lambda>w. w\<lparr>pw_cached := Some \<lparr>ct_accessToken = xt_accessToken minted,
        ct_expiresAtMs = of_int now + xt_expiresIn minted * 1000\<rparr>\<rparr>)) (\<lambda>_.
    returnM (xt_accessToken minted))))"

fun is_unreachable :: "client_error \<Rightarrow> bool" where
  "is_unreachable (ExchangeFailed TokenUnreachable _) = True"
| "is_unreachable _ = False"

definition ensureToken :: "'n provider_env \<Rightarrow> bool \<Rightarrow> ('n provider_world, client_error, string) comp" where
  "ensureToken env force w =
    (let now = po_clock env (pw_network w) in
     case pw_cached w of
       Some c \<Rightarrow>
         if \<not> force \<and> \<not> needsRefresh (po_skewMs env) (Some c) now then returnM (ct_accessToken c) w
         else catchM (mint env now)
                (\<lambda>e w'. case pw_cached w' of
                   Some c' \<Rightarrow> if isUsable c' now \<and> is_unreachable e then (Inr (ct_accessToken c'), w') else (Inl e, w')
                 | None \<Rightarrow> (Inl e, w')) w
     | None \<Rightarrow> mint env now w)"

end
