(* ===== verification/FudaLink.thy ===== *)
theory FudaLink
  imports FudaClient FudaAccess
begin

text \<open>
  The runtime's client of \<open>FudaClient\<close> and the server of \<open>FudaAgents\<close> put together: what a
  request of the one becomes in the other, and what the cached tokens of a run are worth after a
  grant was revoked.
\<close>

section \<open>The server behind HTTP\<close>

text \<open>The bodies that the two routes used by the runtime send.\<close>

definition definition_json :: "served_definition \<Rightarrow> json" where
  "definition_json d = JObj ([(''name'', JStr (df_name d)), (''slug'', JStr (df_slug d)), (''persona'', JStr (df_persona d)),
     (''personaVersion'', JInt (df_personaVersion d)), (''ownerId'', JStr (df_ownerId d))] @
     (case df_defaultModelId d of None \<Rightarrow> [] | Some m \<Rightarrow> [(''defaultModelId'', JStr m)]))"

fun sent_json :: "fuda_body \<Rightarrow> json" where
  "sent_json (FailureBody e) = JObj [(''error'', JStr e)]"
| "sent_json (DefinitionBody d) = definition_json d"
| "sent_json (TokenBody t n) = JObj [(''access_token'', JStr t), (''token_type'', JStr ''Bearer''), (''expires_in'', JInt (int n))]"
| "sent_json _ = JNull"

definition sent :: "(fuda_exn + fuda_reply) \<times> fuda_world \<Rightarrow> http_outcome \<times> fuda_world" where
  "sent r = (case r of
     (Inr (status, body), w) \<Rightarrow> (Answered status (Some (json_stringify (sent_json body))), w)
   | (Inl _, w) \<Rightarrow> (Answered 500 (Some (json_stringify (JObj [(''error'', JStr ''Internal Server Error'')]))), w))"

fun decodeURIComponent :: "string \<Rightarrow> string option" where
  "decodeURIComponent [] = Some []"
| "decodeURIComponent (c # cs) =
    (if c \<noteq> CHR ''%'' then map_option (\<lambda>r. c # r) (decodeURIComponent cs)
     else (case cs of
       a # b # rest \<Rightarrow>
         (case (digit_value a, digit_value b) of
            (Some x, Some y) \<Rightarrow> map_option (\<lambda>r. char_of (16 * x + y) # r) (decodeURIComponent rest)
          | _ \<Rightarrow> None)
     | _ \<Rightarrow> None))"

definition serve :: "token_service \<Rightarrow> string \<Rightarrow> http_request \<Rightarrow> fuda_world \<Rightarrow> http_outcome \<times> fuda_world" where
  "serve ts base req w =
    (let agents = base @ ''/agents/'' in
     if hr_method req = ''POST'' \<and> hr_url req = base @ ''/token'' then sent (handle_token ts (or_else (hr_body req) JNull) w)
     else if hr_method req = ''GET'' \<and> starts_with agents (hr_url req)
     then (case decodeURIComponent (drop (length agents) (hr_url req)) of
             None \<Rightarrow> (Answered 400 None, w) | Some i \<Rightarrow> sent (handle_definition i w))
     else (Answered 404 None, w))"

section \<open>Ids in paths\<close>

lemma digit_of_hex: "n < 16 \<Longrightarrow> digit_value (upper_hex n) = Some n"
  by (auto simp: digit_value_def upper_hex_def Let_def)

lemma decode_encode: "decodeURIComponent (encodeURIComponent s) = Some s"
proof (induction s)
  case (Cons c s)
  have b: "(of_char c :: nat) < 256" by simp
  then have h: "digit_value (upper_hex (of_char c div 16)) = Some (of_char c div 16)"
    "digit_value (upper_hex (of_char c mod 16)) = Some (of_char c mod 16)"
    by (simp_all add: digit_of_hex less_mult_imp_div_less)
  have u: "url_unreserved c \<Longrightarrow> c \<noteq> CHR ''%''" by (auto simp: url_unreserved_def)
  have v: "char_of (16 * (of_char c div 16) + of_char c mod (16 :: nat)) = c" by simp
  from Cons u h v show ?case by (simp add: encodeURIComponent_def)
qed (simp add: encodeURIComponent_def)

section \<open>Requests across the wire\<close>

text \<open>The client of a base URL without a trailing slash, talking to the server, with a parser that reads what is written.\<close>

definition linked :: "token_service \<Rightarrow> (string \<Rightarrow> json option) \<Rightarrow> string \<Rightarrow> fuda_world client_env" where
  "linked ts parse_json base = \<lparr>ce_baseUrl = base, ce_fetch = serve ts (trimTrailingSlash base), ce_parse = parse_json\<rparr>"

text \<open>\<open>JSON.parse\<close> reads the body of this reply back.\<close>

definition reads_back :: "(string \<Rightarrow> json option) \<Rightarrow> (fuda_exn + fuda_reply) \<times> fuda_world \<Rightarrow> bool" where
  "reads_back parse_json r = (case fst r of
     Inl _ \<Rightarrow> True | Inr (status, body) \<Rightarrow> parse_json (json_stringify (sent_json body)) = Some (sent_json body))"

lemma definition_fetch:
  "ce_fetch (linked ts p base) \<lparr>hr_method = ''GET'', hr_url = trimTrailingSlash base @ ''/agents/'' @ encodeURIComponent i,
     hr_body = None\<rparr> w = sent (handle_definition i w)"
  using decode_encode [of i] by (simp add: linked_def serve_def Let_def starts_with_def)

lemma token_fetch:
  "ce_fetch (linked ts p base) \<lparr>hr_method = ''POST'', hr_url = trimTrailingSlash base @ ''/token'', hr_body = Some b\<rparr> w =
     sent (handle_token ts b w)"
  by (simp add: linked_def serve_def Let_def)

lemma json_stringify_obj: "json_stringify (JObj kvs) \<noteq> []"
  by simp

lemma read_definition_json:
  assumes "df_name d \<noteq> []" "df_slug d \<noteq> []" "df_persona d \<noteq> []" "df_ownerId d \<noteq> []" "1 \<le> df_personaVersion d"
    "df_defaultModelId d \<noteq> Some []"
  shows "read_definition (definition_json d) = Inr d"
  using assms by (cases "df_defaultModelId d")
    (auto simp: read_definition_def definition_json_def filled_def whole_number_def split: prod.splits)

lemma linked_env: "ce_baseUrl (linked ts p base) = base" "ce_parse (linked ts p base) = p"
  by (simp_all add: linked_def)

lemma get_unfold: "getAgentDefinition (linked ts p base) i w =
  (case sent (handle_definition i w) of (out, w') \<Rightarrow> (definition_answer (linked ts p base) out, w'))"
  unfolding getAgentDefinition_def bindM_def fetchWithTimeout_def of_answer_def linked_env definition_fetch
  by (simp split: prod.splits)

lemma definition_received:
  assumes "reads_back p (handle_definition i w)" "fst (handle_definition i w) = Inr (status, body)"
  shows "fst (getAgentDefinition (linked ts p base) i w) =
    (if response_ok status
     then (if sent_json body = JNull then Inl (ClientError ''Cannot read properties of null'') else read_definition (sent_json body))
     else Inl (let e = readErrorText p (Some (json_stringify (sent_json body))) in
       DefinitionFailed (kindForDefinitionStatus status) (messageForDefinitionKind (kindForDefinitionStatus status) status e)))"
  using assms
  by (cases "handle_definition i w")
    (auto simp: get_unfold sent_def definition_answer_def linked_env reads_back_def Let_def response_json_def
      json_stringify_obj simp del: json_stringify.simps split: sum.splits)


section \<open>Cached tokens\<close>

lemma exchange_positive:
  assumes "exchangeToken env inp n = (Inr x, n')"
  shows "0 < xt_expiresIn x"
  using assms
  by (auto simp: exchangeToken_def Let_def bindM_def fetchWithTimeout_def of_answer_def exchange_answer_def throwM_def read_token_def
      split: if_splits prod.splits http_outcome.splits sum.splits option.splits)

lemma mint_result:
  assumes "mint env now w = (Inr t, w')" "\<forall>inp n x n'. po_exchange env inp n = (Inr x, n') \<longrightarrow> 0 < xt_expiresIn x"
  shows "\<exists>c. pw_cached w' = Some c \<and> ct_accessToken c = t \<and> of_int now < ct_expiresAtMs c"
proof -
  obtain sub n1 where s: "po_subject env (pw_network w) = (Inr sub, n1)"
    using assms(1) by (cases "po_subject env (pw_network w)") (auto simp: mint_def bindM_def on_network_def split: sum.splits prod.splits)
  obtain x n2 where x: "po_exchange env (po_request env sub) n1 = (Inr x, n2)"
    using assms(1) by (cases "po_exchange env (po_request env sub) n1")
      (auto simp: mint_def bindM_def on_network_def s split: sum.splits prod.splits)
  have "0 < xt_expiresIn x" using assms(2) x by blast
  then show ?thesis
    using assms(1) by (auto simp: mint_def bindM_def on_network_def s x modifyM_def returnM_def)
qed

lemma mint_fails: "mint env now w = (Inl e, w') \<Longrightarrow> pw_cached w' = pw_cached w"
  by (auto simp: mint_def bindM_def on_network_def modifyM_def returnM_def split: sum.splits prod.splits)

text \<open>
  Whatever the network does, a token that the provider hands out has not expired: it is the
  one in the cache, whose lifetime as Fuda stated it, counted from before the request was sent,
  is not over. A token from the cache is only handed out when it was not to be renewed, or when
  renewing failed because Fuda could not be reached.
\<close>

theorem handed_out_token_is_current:
  assumes "po_exchange env = exchangeToken net" "0 \<le> po_skewMs env" "ensureToken env force w = (Inr t, w')"
  shows "\<exists>c. pw_cached w' = Some c \<and> ct_accessToken c = t \<and> of_int (po_clock env (pw_network w)) < ct_expiresAtMs c \<and>
    (pw_cached w = Some c \<and> \<not> force \<and> \<not> needsRefresh (po_skewMs env) (Some c) (po_clock env (pw_network w)) \<or>
     mint env (po_clock env (pw_network w)) w = (Inr t, w') \<or>
     pw_cached w = Some c \<and> (\<exists>e w1. mint env (po_clock env (pw_network w)) w = (Inl e, w1) \<and> is_unreachable e))"
proof -
  let ?now = "po_clock env (pw_network w)"
  have pos: "\<forall>inp n x n'. po_exchange env inp n = (Inr x, n') \<longrightarrow> 0 < xt_expiresIn x"
    using exchange_positive assms(1) by metis
  note m = mint_result [OF _ pos, of ?now w t w']
  obtain r w1 where r: "mint env ?now w = (r, w1)" by fastforce
  show ?thesis
  proof (cases "pw_cached w")
    case None
    then show ?thesis using assms(3) m by (auto simp: ensureToken_def Let_def)
  next
    case (Some c)
    show ?thesis
    proof (cases "\<not> force \<and> \<not> needsRefresh (po_skewMs env) (Some c) ?now")
      case True
      then have "of_int ?now < ct_expiresAtMs c"
        using assms(2) by (simp add: needsRefresh_def)
      then show ?thesis using True Some assms(3) by (auto simp: ensureToken_def Let_def returnM_def)
    next
      case False
      then have "catchM (mint env ?now) (\<lambda>e w'. case pw_cached w' of
          Some c' \<Rightarrow> if isUsable c' ?now \<and> is_unreachable e then (Inr (ct_accessToken c'), w') else (Inl e, w')
        | None \<Rightarrow> (Inl e, w')) w = (Inr t, w')"
        using assms(3) Some unfolding ensureToken_def Let_def by (simp split: if_splits)
      then show ?thesis
        using m Some mint_fails [of env ?now w _ w1] r
        by (cases r) (auto simp: catchM_def isUsable_def split: if_splits)
    qed
  qed
qed

lemma agent_body:
  assumes "i \<noteq> []" "s \<noteq> []"
  shows "tokenExchangeBodySchema (exchange_body (agent_request i s)) =
    Some \<lparr>tx_subject_token = s, tx_agent_id = Some i, tx_audience = None\<rparr>"
  using assms by (simp add: exchange_body_def agent_request_def truthy_str_def tokenExchangeBodySchema_def nonempty_string_def
      parse_optional_def)

lemma exchange_unfold:
  assumes "i \<noteq> []"
  shows "exchangeToken (linked ts p base) (agent_request i s) w =
    (case sent (handle_token ts (exchange_body (agent_request i s)) w) of (out, w') \<Rightarrow> (exchange_answer (linked ts p base) out, w'))"
proof -
  have g: "truthy_str (xi_agentId (agent_request i s))" "or_else (xi_audience (agent_request i s)) Torii = Torii"
    using assms by (simp_all add: agent_request_def truthy_str_def)
  show ?thesis
    unfolding exchangeToken_def Let_def g bindM_def fetchWithTimeout_def of_answer_def linked_env token_fetch
    by (simp add: g split: prod.splits)
qed

text \<open>
  A revoked grant ends the use of the tokens minted under it: four and a half minutes after
  the revocation at the latest (a token lives five, and is renewed half a minute early) the
  provider of a run answers with Fuda's refusal instead of a token, whatever is written in
  Fuda meanwhile short of granting again, and although a cached token is still at hand.
\<close>

theorem revoked_grant_ends_token_use:
  fixes p :: "string \<Rightarrow> json option"
  assumes "po_exchange env = exchangeToken (linked ts p base)" "po_request env = agent_request i" "i \<noteq> []"
    "\<forall>n. po_subject env n = (Inr s, n)" "s \<noteq> []" "ts_subjects ts = Some validate" "validate s = SubjectBearer b"
    "po_skewMs env = default_refresh_skew_ms"
    "\<forall>y \<in> set ys. \<not> grants_pair b i y" "\<forall>zs \<in> set later. \<forall>z \<in> set zs. \<not> grants_pair b i z"
    "pw_network w = \<lparr>fw_db = run_ops run_fuda ys (snd (revoke b i db)), fw_others = later\<rparr>"
    "case pw_cached w of None \<Rightarrow> True | Some c \<Rightarrow> ct_expiresAtMs c \<le> of_int (revokedAt + 1000 * int token_exchange_ttl_seconds)"
    "revokedAt + 270000 \<le> po_clock env (pw_network w)"
  shows "fst (ensureToken env force w) \<in>
    {Inl (ExchangeFailed GrantDenied ''Fuda denied agent grant (bearer not granted for agent)''),
     Inl (ExchangeFailed TokenAgentNotFound ''Fuda agent not found'')}"
proof -
  let ?now = "po_clock env (pw_network w)"
  let ?refusals = "{ExchangeFailed GrantDenied ''Fuda denied agent grant (bearer not granted for agent)'',
    ExchangeFailed TokenAgentNotFound ''Fuda agent not found''}"
  have req: "or_else (xi_agentId (agent_request i s)) [] = i" by (simp add: agent_request_def)
  have x: "tx_subject_token \<lparr>tx_subject_token = s, tx_agent_id = Some i, tx_audience = None\<rparr> = s"
    "tx_agent_id \<lparr>tx_subject_token = s, tx_agent_id = Some i, tx_audience = None\<rparr> = Some i" by simp_all
  obtain r v where h: "handle_token ts (exchange_body (agent_request i s)) (pw_network w) = (r, v)" by fastforce
  have r: "r \<in> {Inr (403, FailureBody ''bearer not granted for agent''), Inr (404, FailureBody ''agent not found'')}"
    using revoked_bearer_is_refused [where db = db, OF assms(6) agent_body [OF assms(3,5)], unfolded x, OF assms(7) refl assms(9,10)] h [unfolded assms(11)]
    by simp
  obtain e where e: "exchangeToken (linked ts p base) (agent_request i s) (pw_network w) = (Inl e, v)" "e \<in> ?refusals"
    using r by (auto simp: exchange_unfold [OF assms(3)] h sent_def exchange_answer_def response_ok_def Let_def kindForTokenStatus_def
        messageForTokenKind_def simp del: json_stringify.simps)
  have m: "mint env ?now w = (Inl e, w\<lparr>pw_network := v\<rparr>)"
    using e(1) by (simp add: mint_def bindM_def on_network_def assms(1,2,4))
  have hard: "\<not> is_unreachable e" using e(2) by auto
  show ?thesis
  proof (cases "pw_cached w")
    case None
    then show ?thesis using m e(2) by (auto simp: ensureToken_def Let_def)
  next
    case (Some c)
    have "ct_expiresAtMs c \<le> of_int (revokedAt + 300000)" using assms(12) Some by (simp add: token_exchange_ttl_seconds_def)
    also have "\<dots> \<le> of_int ?now + of_int (po_skewMs env)"
      using assms(13) by (simp add: assms(8) default_refresh_skew_ms_def flip: of_int_add)
    finally have "needsRefresh (po_skewMs env) (Some c) ?now" by (simp add: needsRefresh_def)
    then have "ensureToken env force w = catchM (mint env ?now) (\<lambda>e w'. case pw_cached w' of
        Some c' \<Rightarrow> if isUsable c' ?now \<and> is_unreachable e then (Inr (ct_accessToken c'), w') else (Inl e, w')
      | None \<Rightarrow> (Inl e, w')) w"
      unfolding ensureToken_def Let_def using Some by simp
    then show ?thesis using m hard e(2) Some by (auto simp: catchM_def)
  qed
qed

section \<open>Examples\<close>

definition lookup_parser :: "json list \<Rightarrow> string \<Rightarrow> json option" where
  "lookup_parser js s = find (\<lambda>j. json_stringify j = s) js"

definition scout_definition :: served_definition where
  "scout_definition = \<lparr>df_name = ''Scout'', df_slug = ''scout'', df_persona = ''You scout.'', df_personaVersion = 1,
     df_ownerId = ''ann'', df_defaultModelId = None\<rparr>"


definition example_provider :: "(string \<Rightarrow> json option) \<Rightarrow> fuda_world provider_env" where
  "example_provider p = \<lparr>po_exchange = exchangeToken (linked example_tokens p ''http://fuda''), po_subject = returnM ''sa'',
     po_request = agent_request ''a1'', po_clock = (\<lambda>_. 300000), po_skewMs = default_refresh_skew_ms\<rparr>"

theorem revoked_grant_ends_token_use_witness:
  "fst (ensureToken (example_provider (\<lambda>_. None)) False
     \<lparr>pw_cached = Some \<lparr>ct_accessToken = ''old'', ct_expiresAtMs = 310000\<rparr>,
      pw_network = \<lparr>fw_db = snd (revoke ''shaiden-runner'' ''a1'' example_fuda), fw_others = []\<rparr>\<rparr>) \<in>
   {Inl (ExchangeFailed GrantDenied ''Fuda denied agent grant (bearer not granted for agent)''),
    Inl (ExchangeFailed TokenAgentNotFound ''Fuda agent not found'')}"
  by (rule revoked_grant_ends_token_use [where ys = "[]" and revokedAt = 20000 and later = "[]" and s = "''sa''" and
        base = "''http://fuda''" and p = "\<lambda>_. None", OF _ _ _ _ _ example_subject])
    (simp_all add: example_provider_def returnM_def token_exchange_ttl_seconds_def)

text \<open>The network that answers every exchange with a token of five minutes.\<close>

definition minting_network :: "unit client_env" where
  "minting_network = \<lparr>ce_baseUrl = ''http://fuda'', ce_fetch = (\<lambda>_ n. (Answered 200 (Some ''t''), n)),
     ce_parse = (\<lambda>_. Some (JObj [(''access_token'', JStr ''t''), (''expires_in'', JInt 300)]))\<rparr>"

definition minting_provider :: "unit provider_env" where
  "minting_provider = \<lparr>po_exchange = exchangeToken minting_network, po_subject = returnM ''sa'',
     po_request = agent_request ''a1'', po_clock = (\<lambda>_. 1000), po_skewMs = default_refresh_skew_ms\<rparr>"

theorem handed_out_token_is_current_witness:
  "\<exists>c. pw_cached (snd (ensureToken minting_provider True \<lparr>pw_cached = None, pw_network = ()\<rparr>)) = Some c \<and>
     ct_accessToken c = ''t'' \<and> 1000 < ct_expiresAtMs c"
proof -
  let ?w = "\<lparr>pw_cached = None, pw_network = ()\<rparr>"
  have "fst (ensureToken minting_provider True ?w) = Inr ''t''"
    by (simp add: ensureToken_def Let_def mint_def bindM_def on_network_def minting_provider_def returnM_def exchangeToken_def
        agent_request_def truthy_str_def fetchWithTimeout_def minting_network_def of_answer_def exchange_answer_def response_ok_def
        response_json_def read_token_def modifyM_def)
  then have "ensureToken minting_provider True ?w = (Inr ''t'', snd (ensureToken minting_provider True ?w))"
    by (metis prod.collapse)
  from handed_out_token_is_current [OF _ _ this, of minting_network] show ?thesis
    by (auto simp: minting_provider_def default_refresh_skew_ms_def)
qed

end
