(* ===== verification/TasksApi.thy ===== *)
theory TasksApi
  imports ScheduleDispatcher FudaClient HttpInput
begin

text \<open>
  What operators do to tasks: the routes of \<^verbatim>\<open>apps/shaiden/src/http/tasks-api.controller.ts\<close>.
  The client of Fuda works on the outside of the process; starting a run is given, as it is to the
  controller. A handler that rejects is answered with 500 by the server.
\<close>

section \<open>The state of the routes\<close>

text \<open>
  \<open>xw_others\<close> is what other requests, replicas and the dispatcher do before each of the next
  awaited statements; \<open>xw_wakes\<close> counts the calls of \<open>onScheduleChanged\<close>, \<open>xw_started\<close> are the runs
  started by the routes, oldest first.
\<close>

record 'y tasks_world =
  xw_state :: "'y schedule_world"
  xw_wakes :: nat
  xw_started :: "(string \<times> string) list"
  xw_others :: "('y schedule_world \<Rightarrow> 'y schedule_world) list"

type_synonym ('y, 'a) tasks_comp = "('y tasks_world, run_error, 'a) comp"

datatype start_exn = StartAgent definition_failure string | StartRun run_error

record 'y tasks_env =
  xa_tasks :: task_env
  xa_runs :: run_env
  xa_fuda :: "(string \<Rightarrow> ('y, served_definition) client_comp) option"
  xa_start :: "run_task \<Rightarrow> string \<Rightarrow> ('y schedule_world, start_exn, string) comp"
  xa_clock :: "'y schedule_world \<Rightarrow> int"
  xa_uuid :: "'y schedule_world \<Rightarrow> string"

definition tasks_interfere :: "'y tasks_world \<Rightarrow> 'y tasks_world" where
  "tasks_interfere w = w\<lparr>xw_state := (case xw_others w of [] \<Rightarrow> xw_state w | f # _ \<Rightarrow> f (xw_state w)),
     xw_others := tl (xw_others w)\<rparr>"

definition await_sched :: "('y schedule_world, 'e, 'a) comp \<Rightarrow> ('y tasks_world, 'e, 'a) comp" where
  "await_sched m w = (let w' = tasks_interfere w in case m (xw_state w') of (r, s) \<Rightarrow> (r, w'\<lparr>xw_state := s\<rparr>))"

definition clock_now :: "'y tasks_env \<Rightarrow> ('y, int) tasks_comp" where
  "clock_now env = getsM (\<lambda>w. xa_clock env (xw_state w))"

definition schedule_changed :: "('y, unit) tasks_comp" where
  "schedule_changed = modifyM (\<lambda>w. w\<lparr>xw_wakes := Suc (xw_wakes w)\<rparr>)"

datatype tasks_body =
    TaskFailed string
  | TaskBody saved_task
  | TasksBody "saved_task list"
  | StartedBody string string
  | NothingBody

type_synonym tasks_reply = "nat \<times> tasks_body"

definition task_not_found :: tasks_reply where "task_not_found = (404, TaskFailed ''task not found'')"
definition task_archived :: tasks_reply where "task_archived = (409, TaskFailed ''task is archived'')"
definition invalid_task_reply :: tasks_reply where "invalid_task_reply = (400, TaskFailed ''invalid task'')"

section \<open>Who may use an agent\<close>

datatype definition_phase = CreationPhase | StartPhase

definition phase_str :: "definition_phase \<Rightarrow> string" where
  "phase_str phase = (case phase of CreationPhase \<Rightarrow> ''creation'' | StartPhase \<Rightarrow> ''start'')"

definition describeAgentDefinitionFailure :: "definition_failure \<Rightarrow> string \<Rightarrow> definition_phase \<Rightarrow> tasks_reply" where
  "describeAgentDefinitionFailure failure message phase =
    (case failure of
       DefinitionNotFound \<Rightarrow> (422, TaskFailed ''unknown agent'')
     | DefinitionUnreachable \<Rightarrow> (503, TaskFailed (''Fuda unreachable at task '' @ phase_str phase @ '': '' @ message))
     | DefinitionUnexpected \<Rightarrow> (502, TaskFailed (''failed to fetch agent definition: '' @ message)))"

fun client_message :: "client_error \<Rightarrow> string" where
  "client_message (ExchangeFailed _ m) = m"
| "client_message (DefinitionFailed _ m) = m"
| "client_message (ClientError m) = m"

definition outside :: "('y, 'a) client_comp \<Rightarrow> ('y schedule_world, client_error, 'a) comp" where
  "outside m w = (case m (sw_outside (sd_world w)) of
     (r, y) \<Rightarrow> (r, w\<lparr>sd_world := (sd_world w)\<lparr>sw_outside := y\<rparr>\<rparr>))"

text \<open>\<open>Inr None\<close> is the owner \<open>null\<close> of a controller without a client.\<close>

definition assigneeOwner :: "'y tasks_env \<Rightarrow> string \<Rightarrow> ('y, tasks_reply + string option) tasks_comp" where
  "assigneeOwner env assignee =
    (case xa_fuda env of
       None \<Rightarrow> returnM (Inr None)
     | Some getDefinition \<Rightarrow> (\<lambda>w. (case await_sched (outside (getDefinition assignee)) w of
         (Inr d, w') \<Rightarrow> (Inr (Inr (Some (df_ownerId d))), w')
       | (Inl (DefinitionFailed failure message), w') \<Rightarrow>
           (Inr (Inl (describeAgentDefinitionFailure failure message CreationPhase)), w')
       | (Inl e, w') \<Rightarrow> (Inr (Inl (502, TaskFailed (''failed to fetch agent definition: '' @ client_message e))), w'))))"

definition authorizeOwnAssignee ::
    "'y tasks_env \<Rightarrow> string \<Rightarrow> operator_context option \<Rightarrow> ('y, tasks_reply option) tasks_comp" where
  "authorizeOwnAssignee env assignee operator =
    bindM (assigneeOwner env assignee) (\<lambda>resolved.
    returnM (case resolved of
      Inl e \<Rightarrow> Some e
    | Inr ownerId \<Rightarrow>
        (case operator of
           None \<Rightarrow> None
         | Some oc \<Rightarrow> if ownerId \<noteq> Some (oc_ownerId oc) then Some (403, TaskFailed ''Forbidden'') else None)))"

definition authorizeExistingTask ::
    "'y tasks_env \<Rightarrow> string \<Rightarrow> operator_context option \<Rightarrow> ('y, tasks_reply option) tasks_comp" where
  "authorizeExistingTask env assignee operator =
    (case operator of
       None \<Rightarrow> returnM None
     | Some oc \<Rightarrow> if oc_role oc = Admin then returnM None else authorizeOwnAssignee env assignee operator)"

section \<open>Starting a run\<close>

text \<open>\<open>taskSchema.parse\<close> of the saved fields; it throws when they are not a task.\<close>

definition saved_to_task :: "'y tasks_env \<Rightarrow> saved_task \<Rightarrow> ('y, run_task) tasks_comp" where
  "saved_to_task env saved =
    (case parse_task_value (te_is_zone (xa_tasks env)) (savedTaskToTask saved) of
       None \<Rightarrow> throwM (OtherError ''invalid task'') | Some t \<Rightarrow> returnM t)"

definition getRunningRunForTask :: "'y tasks_env \<Rightarrow> string \<Rightarrow> ('y, bool) tasks_comp" where
  "getRunningRunForTask env taskId =
    await_sched (getsM (\<lambda>w. \<exists>r \<in> set (listRunningRuns (xa_runs env) (sw_db (sd_world w))). fst (snd r) = taskId))"

definition has_runs :: "run_db \<Rightarrow> string \<Rightarrow> bool" where
  "has_runs db taskId \<longleftrightarrow> (\<exists>r \<in> set (rd_runs db). rr_task_id r = taskId)"

definition start_failed :: "start_exn \<Rightarrow> tasks_reply" where
  "start_failed e =
    (case e of
       StartAgent failure message \<Rightarrow> describeAgentDefinitionFailure failure message StartPhase
     | StartRun x \<Rightarrow>
        (case x of
           TaskAlreadyRunning _ \<Rightarrow> (409, TaskFailed (describeError x))
         | _ \<Rightarrow> (500, TaskFailed (''task start failed: '' @ describeError x))))"

text \<open>The \<open>try\<close> around \<open>startTaskRun\<close>.\<close>

definition try_start :: "'y tasks_env \<Rightarrow> run_task \<Rightarrow> string \<Rightarrow> bool \<Rightarrow> ('y, tasks_reply) tasks_comp" where
  "try_start env task taskId deleteTaskOnStartFailure w =
    (case await_sched (xa_start env task taskId) w of
       (Inr runId, w') \<Rightarrow> (Inr (202, StartedBody runId taskId), w'\<lparr>xw_started := xw_started w' @ [(runId, taskId)]\<rparr>)
     | (Inl e, w') \<Rightarrow>
         bindM (if deleteTaskOnStartFailure
                then await_sched (\<lambda>s. on_tasks (delete_task (has_runs (sw_db (sd_world s))) taskId) s) else returnM True)
           (\<lambda>_. returnM (start_failed e)) w')"

definition startRunForTask ::
    "'y tasks_env \<Rightarrow> saved_task \<Rightarrow> string \<Rightarrow> operator_context option \<Rightarrow> bool \<Rightarrow> ('y, tasks_reply) tasks_comp" where
  "startRunForTask env saved taskId operator deleteTaskOnStartFailure =
    bindM (saved_to_task env saved) (\<lambda>task.
    bindM (authorizeOwnAssignee env (tk_assignee task) operator) (\<lambda>assigneeError.
    case assigneeError of
      Some e \<Rightarrow> returnM e
    | None \<Rightarrow>
       bindM (getRunningRunForTask env taskId) (\<lambda>running.
       if running then returnM (409, TaskFailed ''this task already has a running run'')
       else try_start env task taskId deleteTaskOnStartFailure)))"

text \<open>What the controller is given: launching a run; \<open>AgentDefinitionError\<close> is one of the errors of the harness here.\<close>

definition harness_start_run :: "'y harness_env \<Rightarrow> run_task \<Rightarrow> string \<Rightarrow> ('y schedule_world, start_exn, string) comp" where
  "harness_start_run env task taskId w =
    (case on_world (launchHarnessRun env task taskId) w of
       (Inl e, w') \<Rightarrow> (Inl (StartRun e), w') | (Inr d, w') \<Rightarrow> (Inr (di_runId d), w'))"

section \<open>The routes\<close>

definition read_task :: "'y tasks_env \<Rightarrow> string \<Rightarrow> ('y, saved_task option) tasks_comp" where
  "read_task env taskId = await_sched (on_tasks (get_task (xa_tasks env) taskId))"

definition parseTaskListLimit :: "string option \<Rightarrow> rat" where
  "parseTaskListLimit limit = list_limit 200 200 limit"

definition list_tasks_route :: "'y tasks_env \<Rightarrow> string option \<Rightarrow> ('y, tasks_reply) tasks_comp" where
  "list_tasks_route env limit =
    (case sql_limit (parseTaskListLimit limit) of
       None \<Rightarrow> throwM (OtherError ''invalid input syntax for type bigint'')
     | Some n \<Rightarrow> bindM (await_sched (on_tasks (list_tasks (xa_tasks env) n))) (\<lambda>ts. returnM (200, TasksBody ts)))"

text \<open>The check of a one-shot trigger; it throws on a local time it cannot parse.\<close>

definition future_check :: "'y tasks_env \<Rightarrow> task_trigger \<Rightarrow> ('y, string option) tasks_comp" where
  "future_check env trigger =
    bindM (clock_now env) (\<lambda>now.
    case oneShotMustBeFutureError (te_fmt (xa_tasks env)) trigger now of
      Inl e \<Rightarrow> throwM (OtherError e) | Inr r \<Rightarrow> returnM r)"

definition insert_new_task :: "'y tasks_env \<Rightarrow> run_task \<Rightarrow> ('y, saved_task) tasks_comp" where
  "insert_new_task env task =
    await_sched (\<lambda>s. on_tasks (create_task (xa_tasks env) (xa_uuid env s) task (xa_clock env s)) s)"

definition create_task_route :: "'y tasks_env \<Rightarrow> json \<Rightarrow> headers \<Rightarrow> ('y, tasks_reply) tasks_comp" where
  "create_task_route env body hs =
    (case taskSchema (te_is_zone (xa_tasks env)) body of
       None \<Rightarrow> returnM invalid_task_reply
     | Some task \<Rightarrow>
        bindM (authorizeOwnAssignee env (tk_assignee task) (readOperatorContext hs)) (\<lambda>assigneeError.
        case assigneeError of
          Some e \<Rightarrow> returnM e
        | None \<Rightarrow>
           bindM (future_check env (tk_trigger task)) (\<lambda>scheduleError.
           case scheduleError of
             Some e \<Rightarrow> returnM (400, TaskFailed e)
           | None \<Rightarrow>
              bindM (insert_new_task env task) (\<lambda>saved.
              bindM schedule_changed (\<lambda>_. returnM (201, TaskBody saved))))))"

definition get_task_route :: "'y tasks_env \<Rightarrow> string \<Rightarrow> ('y, tasks_reply) tasks_comp" where
  "get_task_route env taskId =
    bindM (read_task env taskId) (\<lambda>task.
    returnM (case task of None \<Rightarrow> task_not_found | Some t \<Rightarrow> (200, TaskBody t)))"

text \<open>What follows the checks of the body in the handler of PATCH.\<close>

definition write_patch :: "'y tasks_env \<Rightarrow> string \<Rightarrow> task_patch \<Rightarrow> ('y, tasks_reply) tasks_comp" where
  "write_patch env taskId patch =
    bindM (await_sched (\<lambda>s. on_tasks (update_task (xa_tasks env) taskId patch (xa_clock env s)) s)) (\<lambda>updated.
    case updated of
      None \<Rightarrow> returnM task_not_found
    | Some t \<Rightarrow> bindM schedule_changed (\<lambda>_. returnM (200, TaskBody t)))"

definition checked_patch :: "'y tasks_env \<Rightarrow> saved_task \<Rightarrow> task_patch \<Rightarrow> ('y, string option) tasks_comp" where
  "checked_patch env existing patch =
    (case tp_trigger patch of
       None \<Rightarrow> returnM None
     | Some trigger \<Rightarrow>
        if taskTriggersEqual trigger (tk_trigger (sv_task existing)) then returnM None else future_check env trigger)"

definition patch_task_route :: "'y tasks_env \<Rightarrow> string \<Rightarrow> json \<Rightarrow> headers \<Rightarrow> ('y, tasks_reply) tasks_comp" where
  "patch_task_route env taskId body hs =
    bindM (read_task env taskId) (\<lambda>found.
    case found of
      None \<Rightarrow> returnM task_not_found
    | Some existing \<Rightarrow>
       if sv_archivedAt existing \<noteq> None then returnM task_archived
       else bindM (authorizeExistingTask env (tk_assignee (sv_task existing)) (readOperatorContext hs)) (\<lambda>existingError.
       case existingError of
         Some e \<Rightarrow> returnM e
       | None \<Rightarrow>
          (case taskPatchSchema (te_is_zone (xa_tasks env)) body of
             None \<Rightarrow> returnM (400, TaskFailed ''invalid task update'')
           | Some patch \<Rightarrow>
              bindM (case tp_assignee patch of
                  None \<Rightarrow> returnM None | Some a \<Rightarrow> authorizeOwnAssignee env a (readOperatorContext hs)) (\<lambda>assigneeError.
              case assigneeError of
                Some e \<Rightarrow> returnM e
              | None \<Rightarrow>
                 bindM (checked_patch env existing patch) (\<lambda>scheduleError.
                 case scheduleError of
                   Some e \<Rightarrow> returnM (400, TaskFailed e) | None \<Rightarrow> write_patch env taskId patch)))))"

definition archive_task_route :: "'y tasks_env \<Rightarrow> string \<Rightarrow> headers \<Rightarrow> ('y, tasks_reply) tasks_comp" where
  "archive_task_route env taskId hs =
    bindM (read_task env taskId) (\<lambda>found.
    case found of
      None \<Rightarrow> returnM task_not_found
    | Some existing \<Rightarrow>
       bindM (authorizeExistingTask env (tk_assignee (sv_task existing)) (readOperatorContext hs)) (\<lambda>existingError.
       case existingError of
         Some e \<Rightarrow> returnM e
       | None \<Rightarrow>
          bindM (await_sched (\<lambda>s. on_tasks (archive taskId (xa_clock env s)) s)) (\<lambda>ok.
          if \<not> ok then returnM task_not_found
          else bindM schedule_changed (\<lambda>_. returnM (204, NothingBody)))))"

definition run_task_route :: "'y tasks_env \<Rightarrow> string \<Rightarrow> headers \<Rightarrow> ('y, tasks_reply) tasks_comp" where
  "run_task_route env taskId hs =
    bindM (read_task env taskId) (\<lambda>found.
    case found of
      None \<Rightarrow> returnM task_not_found
    | Some saved \<Rightarrow>
       if sv_archivedAt saved \<noteq> None then returnM task_archived
       else startRunForTask env saved taskId (readOperatorContext hs) False)"

definition run_now_route :: "'y tasks_env \<Rightarrow> json \<Rightarrow> headers \<Rightarrow> ('y, tasks_reply) tasks_comp" where
  "run_now_route env body hs =
    (case taskSchema (te_is_zone (xa_tasks env)) body of
       None \<Rightarrow> returnM invalid_task_reply
     | Some task \<Rightarrow>
        if tk_trigger task \<noteq> NowTrigger then returnM (400, TaskFailed ''scheduled tasks are started by the scheduler'')
        else bindM (authorizeOwnAssignee env (tk_assignee task) (readOperatorContext hs)) (\<lambda>assigneeError.
        case assigneeError of
          Some e \<Rightarrow> returnM e
        | None \<Rightarrow>
           bindM (insert_new_task env task) (\<lambda>saved.
           startRunForTask env saved (sv_id saved) (readOperatorContext hs) True)))"

section \<open>Whose agents run\<close>

definition owned_by :: "'y tasks_env \<Rightarrow> operator_context \<Rightarrow> string \<Rightarrow> bool" where
  "owned_by env oc assignee \<longleftrightarrow>
    (\<exists>getDefinition y d. xa_fuda env = Some getDefinition \<and> fst (getDefinition assignee y) = Inr d \<and> df_ownerId d = oc_ownerId oc)"

lemma own_assignee:
  "wp (authorizeOwnAssignee env a (Some oc))
    (\<lambda>r _. case r of None \<Rightarrow> owned_by env oc a | Some e \<Rightarrow> fst e \<notin> {200, 201, 202, 204}) (\<lambda>_ _. False) w"
proof (cases "xa_fuda env")
  case None
  then show ?thesis by (simp add: wp_def authorizeOwnAssignee_def assigneeOwner_def bindM_def returnM_def)
next
  case (Some get)
  let ?w = "tasks_interfere w"
  obtain r y where g: "get a (sw_outside (sd_world (xw_state ?w))) = (r, y)" by fastforce
  have own: "r = Inr d \<Longrightarrow> df_ownerId d = oc_ownerId oc \<Longrightarrow> owned_by env oc a" for d
    using Some g unfolding owned_by_def by (metis fst_conv)
  show ?thesis
    by (auto simp: wp_def authorizeOwnAssignee_def assigneeOwner_def Some bindM_def returnM_def await_sched_def outside_def
        Let_def g describeAgentDefinitionFailure_def own split: sum.split client_error.split definition_failure.split)
qed

lemma started_own:
  "wp (startRunForTask env saved taskId (Some oc) del)
    (\<lambda>r _. fst r = 202 \<longrightarrow> (\<exists>task runId s. snd r = StartedBody runId taskId \<and>
      parse_task_value (te_is_zone (xa_tasks env)) (savedTaskToTask saved) = Some task \<and>
      fst (xa_start env task taskId s) = Inr runId \<and> owned_by env oc (tk_assignee task))) (\<lambda>_ _. True) w"
proof (cases "parse_task_value (te_is_zone (xa_tasks env)) (savedTaskToTask saved)")
  case None
  then show ?thesis by (simp add: startRunForTask_def saved_to_task_def wp_simps)
next
  case (Some task)
  have failed: "fst (start_failed e) \<noteq> 202" for e
    by (auto simp: start_failed_def describeAgentDefinitionFailure_def split: start_exn.split definition_failure.split run_error.split)
  have started: "wp (try_start env task taskId del)
      (\<lambda>r _. fst r = 202 \<longrightarrow> (\<exists>runId s. snd r = StartedBody runId taskId \<and> fst (xa_start env task taskId s) = Inr runId))
      (\<lambda>_ _. True) v" for v
  proof -
    obtain x s where x: "xa_start env task taskId (xw_state (tasks_interfere v)) = (x, s)" by fastforce
    show ?thesis
    proof (cases x)
      case (Inr runId)
      have "\<exists>s. fst (xa_start env task taskId s) = Inr runId" using x Inr by (metis fst_conv)
      then show ?thesis by (auto simp: wp_def try_start_def await_sched_def Let_def x Inr)
    next
      case (Inl e)
      then show ?thesis using failed [of e]
        by (auto simp: wp_def try_start_def await_sched_def Let_def x bindM_def returnM_def split: prod.splits sum.splits)
    qed
  qed
  show ?thesis
    unfolding startRunForTask_def saved_to_task_def Some wp_simps option.case
  proof (rule wp_mono [OF own_assignee [of env "tk_assignee task" oc w]], goal_cases)
    case (1 r v)
    then show ?case
    proof (cases r)
      case None
      then have o: "owned_by env oc (tk_assignee task)" using 1 by simp
      have *: "wp (getRunningRunForTask env taskId) (\<lambda>x s. True) (\<lambda>_ _. True) v"
        by (rule wpI) simp_all
      show ?thesis
        unfolding None option.case wp_simps
        by (rule wp_mono [OF *]) (auto simp: wp_simps intro!: wp_mono [OF started] o)
    qed (use 1 in \<open>simp add: wp_simps\<close>)
  qed simp
qed

definition started_for :: "'y tasks_env \<Rightarrow> operator_context \<Rightarrow> tasks_body \<Rightarrow> bool" where
  "started_for env oc reply \<longleftrightarrow> (\<exists>task taskId runId s. reply = StartedBody runId taskId \<and>
     fst (xa_start env task taskId s) = Inr runId \<and> owned_by env oc (tk_assignee task))"

lemma started_for_spec:
  "wp (startRunForTask env saved taskId (Some oc) del) (\<lambda>r _. fst r = 202 \<longrightarrow> started_for env oc (snd r)) (\<lambda>_ _. True) w"
  by (rule wp_mono [OF started_own]) (auto simp: started_for_def)

lemma wp_any: "wp m (\<lambda>_ _. True) (\<lambda>_ _. True) s"
  by (rule wpI) simp_all

lemma run_route_spec:
  assumes "readOperatorContext hs = Some oc"
  shows "wp (run_task_route env taskId hs) (\<lambda>r _. fst r = 202 \<longrightarrow> started_for env oc (snd r)) (\<lambda>_ _. True) w"
  unfolding run_task_route_def assms wp_simps
  by (rule wp_mono [OF wp_any]) (auto simp: wp_simps task_not_found_def task_archived_def started_for_spec split: option.split)

lemma run_now_spec:
  assumes "readOperatorContext hs = Some oc"
  shows "wp (run_now_route env body hs) (\<lambda>r _. fst r = 202 \<longrightarrow> started_for env oc (snd r)) (\<lambda>_ _. True) w"
proof (cases "taskSchema (te_is_zone (xa_tasks env)) body")
  case None
  then show ?thesis by (simp add: run_now_route_def wp_simps invalid_task_reply_def)
next
  case (Some task)
  have ins: "wp (insert_new_task env task) (\<lambda>saved s. wp (startRunForTask env saved (sv_id saved) (Some oc) True)
      (\<lambda>r _. fst r = 202 \<longrightarrow> started_for env oc (snd r)) (\<lambda>_ _. True) s) (\<lambda>_ _. True) s" for s
    by (rule wp_mono [OF wp_any]) (simp_all add: started_for_spec)
  show ?thesis
    unfolding run_now_route_def Some assms wp_simps option.case
    by (auto intro!: wp_mono [OF own_assignee] simp: wp_simps ins split: option.splits)
qed

lemma create_route_spec:
  assumes "readOperatorContext hs = Some oc"
  shows "wp (create_task_route env body hs)
    (\<lambda>r _. fst r = 201 \<longrightarrow> (\<exists>saved. snd r = TaskBody saved \<and> owned_by env oc (tk_assignee (sv_task saved)))) (\<lambda>_ _. True) w"
proof (cases "taskSchema (te_is_zone (xa_tasks env)) body")
  case None
  then show ?thesis by (simp add: create_task_route_def wp_simps invalid_task_reply_def)
next
  case (Some task)
  have ins: "wp (insert_new_task env task) (\<lambda>saved s. sv_task saved = task) (\<lambda>_ _. True) s" for s
    by (rule wpI) (auto simp: insert_new_task_def await_sched_def Let_def on_tasks_def create_task_def bindM_def returnM_def of_result_def
        split: prod.splits sum.splits)
  have check: "wp (future_check env t) (\<lambda>_ _. True) (\<lambda>_ _. True) s" for t s by (rule wp_any)
  show ?thesis
    unfolding create_task_route_def Some assms wp_simps option.case
  proof (rule wp_mono [OF own_assignee [of env "tk_assignee task" oc w]], goal_cases)
    case (1 r v)
    show ?case
    proof (cases r)
      case None
      then have "owned_by env oc (tk_assignee task)" using 1 by simp
      then show ?thesis
        by (auto simp: None wp_simps schedule_changed_def intro!: wp_mono [OF check] wp_mono [OF ins] split: option.split)
    qed (use 1 in \<open>simp add: wp_simps\<close>)
  qed simp
qed

text \<open>
  An operator, admins included, can only put agents of their own to work: whatever else
  happens meanwhile, a run that a request starts is of a task whose agent Fuda said is owned by
  that operator, and so is the agent of a task that a request creates.
\<close>

theorem operators_run_own_agents:
  assumes "readOperatorContext hs = Some oc"
  shows "(\<forall>reply w'. run_task_route env taskId hs w = (Inr (202, reply), w') \<longrightarrow> started_for env oc reply) \<and>
    (\<forall>reply w'. run_now_route env body hs w = (Inr (202, reply), w') \<longrightarrow> started_for env oc reply) \<and>
    (\<forall>saved w'. create_task_route env body hs w = (Inr (201, TaskBody saved), w') \<longrightarrow>
       owned_by env oc (tk_assignee (sv_task saved)))"
  using wp_returnD [OF run_route_spec [OF assms]] wp_returnD [OF run_now_spec [OF assms]]
    wp_returnD [OF create_route_spec [OF assms]]
  by fastforce

section \<open>A start that is refused late\<close>

lemma schema_saved:
  assumes "taskSchema z body = Some task" "sv_task s = task"
  shows "parse_task_value z (savedTaskToTask s) = Some task"
proof -
  have v: "valid_task z task" by (rule task_valid [OF assms(1)])
  have m: "openRouterModelIdSchema [] = None" by (simp add: openRouterModelIdSchema_def is_model_id_def Let_def trim_def)
  have "savedTaskToTask s = task"
    using v m assms(2) by (cases "tk_modelId task") (auto simp: savedTaskToTask_def Let_def truthy_str_def valid_task_def all_some_def)
  then show ?thesis using parse_valid [OF v] by simp
qed

lemma assignee_step:
  assumes "xw_others w = []" "xa_fuda env = Some get" "get a (sw_outside (sd_world (xw_state w))) = (r, y)"
  shows "authorizeOwnAssignee env a (Some oc) w = (Inr (case r of
      Inr d \<Rightarrow> if df_ownerId d \<noteq> oc_ownerId oc then Some (403, TaskFailed ''Forbidden'') else None
    | Inl (DefinitionFailed failure message) \<Rightarrow> Some (describeAgentDefinitionFailure failure message CreationPhase)
    | Inl e \<Rightarrow> Some (502, TaskFailed (''failed to fetch agent definition: '' @ client_message e))),
    w\<lparr>xw_state := (xw_state w)\<lparr>sd_world := (sd_world (xw_state w))\<lparr>sw_outside := y\<rparr>\<rparr>\<rparr>)"
proof -
  have i: "tasks_interfere w = w" using assms(1) by (simp add: tasks_interfere_def)
  show ?thesis
    by (simp add: authorizeOwnAssignee_def assigneeOwner_def assms(2,3) bindM_def await_sched_def Let_def i outside_def returnM_def
        split: sum.split client_error.split)
qed

text \<open>
  A task that is created to be run at once is not always cleaned up: the owner of its agent is
  checked again after it was saved, and when Fuda cannot be reached for that second check the
  request fails with 503 while the task stays in the table, although no run was started.
\<close>

theorem refused_run_leaves_its_task:
  fixes w :: "'y tasks_world"
  assumes "xw_others w = []" "xa_fuda env = Some get" "taskSchema (te_is_zone (xa_tasks env)) body = Some task"
    "tk_trigger task = NowTrigger" "readOperatorContext hs = Some oc"
    "get (tk_assignee task) (sw_outside (sd_world (xw_state w))) = (Inr d, y)" "df_ownerId d = oc_ownerId oc"
    "get (tk_assignee task) y = (Inl (DefinitionFailed DefinitionUnreachable message), z)"
    "\<forall>s. xa_uuid env s = i" "task_row_of i (sd_tasks (xw_state w)) = None"
  shows "case run_now_route env body hs w of (res, w') \<Rightarrow>
    res = Inr (503, TaskFailed (''Fuda unreachable at task creation: '' @ message)) \<and>
    map_option tw_task (task_row_of i (sd_tasks (xw_state w'))) = Some task \<and> xw_started w' = xw_started w"
proof -
  let ?s1 = "(xw_state w)\<lparr>sd_world := (sd_world (xw_state w))\<lparr>sw_outside := y\<rparr>\<rparr>"
  let ?w1 = "w\<lparr>xw_state := ?s1\<rparr>" and ?now = "xa_clock env ?s1"
  have a1: "authorizeOwnAssignee env (tk_assignee task) (Some oc) w = (Inr None, ?w1)"
    using assignee_step [OF assms(1,2,6), of oc] assms(7) by simp
  let ?row = "new_task_row i task None ?now"
  let ?saved = "\<lparr>sv_id = i, sv_task = task, sv_createdAt = ?now, sv_updatedAt = ?now, sv_archivedAt = None,
      sv_nextRunAt = None, sv_scheduleFailedAt = None, sv_scheduleError = None\<rparr>"
  let ?w2 = "?w1\<lparr>xw_state := ?s1\<lparr>sd_tasks := sd_tasks ?s1 @ [?row]\<rparr>\<rparr>"
  have new: "task_row_of i (sd_tasks ?s1) = None" "tw_id ?row = i" using assms(10) by (simp_all add: new_task_row_def)
  have next_none: "next_run e NowTrigger t b = Inr None" for e t b by (simp add: next_run_def nextRunAt_def)
  have a2: "insert_new_task env task ?w1 = (Inr ?saved, ?w2)"
    using assms(1,4,9) new
    by (simp add: insert_new_task_def await_sched_def Let_def tasks_interfere_def on_tasks_def create_task_def bindM_def
        of_result_def next_none insert_task_def returnM_def)
  have others: "xw_others ?w2 = []" "sw_outside (sd_world (xw_state ?w2)) = y" using assms(1) by simp_all
  have a3: "authorizeOwnAssignee env (tk_assignee task) (Some oc) ?w2 =
      (Inr (Some (503, TaskFailed (''Fuda unreachable at task creation: '' @ message))),
       ?w2\<lparr>xw_state := (xw_state ?w2)\<lparr>sd_world := (sd_world (xw_state ?w2))\<lparr>sw_outside := z\<rparr>\<rparr>\<rparr>)"
    using assignee_step [OF others(1) assms(2), of "tk_assignee task" "Inl (DefinitionFailed DefinitionUnreachable message)" z oc]
      assms(8) others(2) by (simp add: describeAgentDefinitionFailure_def phase_str_def)
  have s: "saved_to_task env ?saved = returnM task"
    by (simp add: saved_to_task_def schema_saved [OF assms(3)])
  have row: "task_row_of i (sd_tasks (xw_state w) @ [?row]) = Some ?row" "tw_task ?row = task"
    using new by (simp_all add: task_row_of_def tbl_find_append tbl_find_Cons) (simp add: new_task_row_def)
  then show ?thesis
    by (simp add: run_now_route_def assms(3,4,5) bindM_def a1 a2 [simplified] startRunForTask_def s returnM_def a3 [simplified] row)
qed

section \<open>Examples\<close>

definition owned_definition :: "string \<Rightarrow> served_definition" where
  "owned_definition owner = \<lparr>df_name = ''Scout'', df_slug = ''scout'', df_persona = ''You scout.'', df_personaVersion = 1,
     df_ownerId = owner, df_defaultModelId = None\<rparr>"

text \<open>Fuda answers the first question and cannot be reached afterwards.\<close>

definition flaky_fuda :: "string \<Rightarrow> (nat, served_definition) client_comp" where
  "flaky_fuda a n = (if n = 0 then Inr (owned_definition ''ann'')
     else Inl (DefinitionFailed DefinitionUnreachable ''gone''), Suc n)"

definition flaky_env :: "nat tasks_env" where
  "flaky_env = \<lparr>xa_tasks = example_task_env, xa_runs = example_env, xa_fuda = Some flaky_fuda,
     xa_start = (\<lambda>_ _. returnM ''r''), xa_clock = (\<lambda>_. 5), xa_uuid = (\<lambda>_. ''t1'')\<rparr>"

definition tasks_start :: "'y \<Rightarrow> task_row list \<Rightarrow> 'y tasks_world" where
  "tasks_start y rows = \<lparr>xw_state = \<lparr>sd_tasks = rows, sd_world = \<lparr>sw_db = example_db [], sw_seen = [], sw_ready = False,
     sw_events = [], sw_stop = \<lparr>sc_requested = [], sc_controllers = []\<rparr>, sw_lost = [], sw_outside = y\<rparr>\<rparr>,
     xw_wakes = 0, xw_started = [], xw_others = []\<rparr>"

definition ann_headers :: headers where
  "ann_headers = [(operator_owner_header, HOne ''ann''), (operator_role_header, HOne ''admin'')]"

definition now_body :: json where
  "now_body = JObj [(''goal'', JStr ''g''), (''trigger'', JObj [(''type'', JStr ''now'')]), (''assignee'', JStr ''a1'')]"

lemma ann_operator: "readOperatorContext ann_headers = Some \<lparr>oc_ownerId = ''ann'', oc_role = Admin\<rparr>"
  by code_simp

lemma now_task: "taskSchema z now_body = Some \<lparr>tk_goal = ''g'', tk_trigger = NowTrigger, tk_assignee = ''a1'', tk_limits = None, tk_modelId = None\<rparr>"
  by (simp add: taskSchema_def now_body_def nonempty_string_def taskTriggerSchema_def parse_optional_def)

theorem refused_run_leaves_its_task_witness:
  "fst (run_now_route flaky_env now_body ann_headers (tasks_start 0 [])) =
     Inr (503, TaskFailed ''Fuda unreachable at task creation: gone'') \<and>
   map_option tw_task (task_row_of ''t1'' (sd_tasks (xw_state (snd (run_now_route flaky_env now_body ann_headers (tasks_start 0 []))))))
     = Some \<lparr>tk_goal = ''g'', tk_trigger = NowTrigger, tk_assignee = ''a1'', tk_limits = None, tk_modelId = None\<rparr>"
proof -
  let ?t = "\<lparr>tk_goal = ''g'', tk_trigger = NowTrigger, tk_assignee = ''a1'', tk_limits = None, tk_modelId = None\<rparr>"
  have e: "xw_others (tasks_start (0 :: nat) []) = []" "xa_fuda flaky_env = Some flaky_fuda" "tk_trigger ?t = NowTrigger"
    "flaky_fuda (tk_assignee ?t) (sw_outside (sd_world (xw_state (tasks_start 0 [])))) = (Inr (owned_definition ''ann''), 1)"
    "df_ownerId (owned_definition ''ann'') = oc_ownerId \<lparr>oc_ownerId = ''ann'', oc_role = Admin\<rparr>"
    "flaky_fuda (tk_assignee ?t) 1 = (Inl (DefinitionFailed DefinitionUnreachable ''gone''), 2)"
    "\<forall>s. xa_uuid flaky_env s = ''t1''" "task_row_of ''t1'' (sd_tasks (xw_state (tasks_start (0 :: nat) []))) = None"
    by (simp_all add: tasks_start_def flaky_env_def flaky_fuda_def owned_definition_def task_row_of_def tbl_simps)
  from refused_run_leaves_its_task [OF e(1,2) now_task e(3) ann_operator e(4-8)] show ?thesis by (auto split: prod.splits)
qed

definition steady_env :: "nat tasks_env" where
  "steady_env = flaky_env\<lparr>xa_fuda := Some (\<lambda>a. returnM (owned_definition ''ann''))\<rparr>"

theorem operators_run_own_agents_witness:
  "\<exists>reply. fst (run_now_route steady_env now_body ann_headers (tasks_start 0 [])) = Inr (202, reply) \<and>
     started_for steady_env \<lparr>oc_ownerId = ''ann'', oc_role = Admin\<rparr> reply"
proof -
  have "fst (run_now_route steady_env now_body ann_headers (tasks_start 0 [])) = Inr (202, StartedBody ''r'' ''t1'')"
    by code_simp
  then have "run_now_route steady_env now_body ann_headers (tasks_start 0 []) =
      (Inr (202, StartedBody ''r'' ''t1''), snd (run_now_route steady_env now_body ann_headers (tasks_start 0 [])))"
    by (metis prod.collapse)
  then have "started_for steady_env \<lparr>oc_ownerId = ''ann'', oc_role = Admin\<rparr> (StartedBody ''r'' ''t1'')"
    using operators_run_own_agents [OF ann_operator, of steady_env "''t1''" "tasks_start 0 []" now_body] by blast
  then show ?thesis using \<open>fst _ = _\<close> by blast
qed

end
