(* ===== verification/Stats.thy ===== *)
theory Stats
  imports RunsApi TaskRepo
begin

text \<open>
  Statistics over the attempts of runs: \<^verbatim>\<open>apps/shaiden/src/stats\<close> (the intervals, the aggregates
  and the queries) and the routes of \<^verbatim>\<open>apps/shaiden/src/http/stats-api.controller.ts\<close>. Numbers are
  real or rational and not rounded. One request is answered from one state of the tables; the keys
  of the tool counts come in the order the database gives them.
\<close>

section \<open>The interval of a proportion\<close>

definition z_95 :: real where "z_95 = 1.959963984540054"

definition wilsonInterval :: "real \<Rightarrow> nat \<Rightarrow> nat \<Rightarrow> real \<times> real" where
  "wilsonInterval z successes eligible =
    (if eligible = 0 then (0, 0)
     else (let n = real eligible; p = real (min successes eligible) / n; z2 = z * z; denominator = 1 + z2 / n;
               center = (p + z2 / (2 * n)) / denominator;
               margin = z * sqrt (p * (1 - p) / n + z2 / (4 * n * n)) / denominator
           in (max 0 (center - margin), min 1 (center + margin))))"

definition min_rate_sample :: nat where "min_rate_sample = 10"

record stats_proportion =
  sn_successes :: nat
  sn_eligible :: nat
  sn_rate :: "real option"
  sn_low :: "real option"
  sn_high :: "real option"

definition proportion :: "nat \<Rightarrow> nat \<Rightarrow> stats_proportion" where
  "proportion successes eligible =
    (if eligible < min_rate_sample
     then \<lparr>sn_successes = successes, sn_eligible = eligible, sn_rate = None, sn_low = None, sn_high = None\<rparr>
     else (case wilsonInterval z_95 successes eligible of (low, high) \<Rightarrow>
       \<lparr>sn_successes = successes, sn_eligible = eligible, sn_rate = Some (real successes / real eligible),
        sn_low = Some low, sn_high = Some high\<rparr>))"

definition leads :: "stats_proportion list \<Rightarrow> nat \<Rightarrow> bool" where
  "leads ps i = (case sn_low (ps ! i) of
     None \<Rightarrow> False
   | Some low \<Rightarrow> 1 < length ps \<and>
      list_all (\<lambda>j. j = i \<or> (case sn_high (ps ! j) of None \<Rightarrow> False | Some high \<Rightarrow> high < low)) [0..<length ps])"

text \<open>A group is its key, its proportion, and whether it leads; other groups are told apart by position.\<close>

definition withLeading :: "('k \<times> stats_proportion) list \<Rightarrow> ('k \<times> stats_proportion \<times> bool) list" where
  "withLeading groups = map (\<lambda>i. (fst (groups ! i), snd (groups ! i), leads (map snd groups) i)) [0..<length groups]"

section \<open>Rows\<close>

record attempt_stats_row =
  sr_fact :: attempt_fact
  sr_verdict :: "attempt_verdict option"
  sr_retained :: bool

definition isPlatform :: "attempt_stats_row \<Rightarrow> bool" where
  "isPlatform row \<longleftrightarrow> af_failureClass (sr_fact row) = Some FPlatform"

definition isSuccess :: "attempt_stats_row \<Rightarrow> bool" where
  "isSuccess row \<longleftrightarrow> af_outcome (sr_fact row) = GoalMet"

text \<open>\<open>Map\<close> from the keys of the rows, in the order of their first row, to the rows of the key.\<close>

definition bucket :: "('r \<Rightarrow> 'k) \<Rightarrow> 'r \<Rightarrow> ('k \<times> 'r list) list \<Rightarrow> ('k \<times> 'r list) list" where
  "bucket key row m = map_put (key row) (or_else (map_of m (key row)) [] @ [row]) m"

definition buckets :: "('r \<Rightarrow> 'k) \<Rightarrow> 'r list \<Rightarrow> ('k \<times> 'r list) list" where
  "buckets key rows = fold (bucket key) rows []"

definition percentile :: "rat list \<Rightarrow> rat \<Rightarrow> rat option" where
  "percentile values p =
    (if values = [] then None
     else (let sorted = sort values; index = (of_nat (length sorted) - 1) * p; lower = nat \<lfloor>index\<rfloor>; upper = nat \<lceil>index\<rceil>;
               low = (if lower < length sorted then sorted ! lower else 0);
               high = (if upper < length sorted then sorted ! upper else low)
           in Some (if lower = upper then low else low * (of_nat upper - index) + high * (index - of_nat lower))))"

record stats_percentiles =
  sq_limitedAttempts :: nat
  sq_p50 :: "rat option"
  sq_p90 :: "rat option"
  sq_cappedShare :: "rat option"

definition ratio :: "nat \<Rightarrow> nat \<Rightarrow> rat" where "ratio a b = of_nat a / of_nat b"

definition limitStats ::
    "attempt_stats_row list \<Rightarrow> (attempt_stats_row \<Rightarrow> int option) \<Rightarrow> (attempt_stats_row \<Rightarrow> rat) \<Rightarrow> stats_percentiles option" where
  "limitStats rows limitOf usedOf =
    (let limited = filter (\<lambda>row. limitOf row \<noteq> None) rows in
     if limited = [] then None
     else (let capped = length (filter (\<lambda>row. of_int (or_else (limitOf row) 0) \<le> usedOf row) limited) in
       Some \<lparr>sq_limitedAttempts = length limited, sq_p50 = percentile (map usedOf limited) (1 / 2),
         sq_p90 = percentile (map usedOf limited) (9 / 10),
         sq_cappedShare = (if min_rate_sample \<le> length limited then Some (ratio capped (length limited)) else None)\<rparr>))"

record stats_usage =
  su_attemptsWithTokens :: nat
  su_attemptsWithCost :: nat
  su_inputTokensPerAttempt :: "rat option"
  su_outputTokensPerAttempt :: "rat option"
  su_costPerAttempt :: "rat option"

definition mean :: "rat list \<Rightarrow> rat option" where
  "mean values = (if values = [] then None else Some (sum_list values / of_nat (length values)))"

definition usageOf :: "attempt_stats_row list \<Rightarrow> stats_usage" where
  "usageOf rows =
    (let summary = af_summary \<circ> sr_fact;
         withTokens = filter (\<lambda>row. ms_inputTokens (summary row) \<noteq> None \<or> ms_outputTokens (summary row) \<noteq> None) rows;
         withCost = filter (\<lambda>row. ms_cost (summary row) \<noteq> None) rows in
     \<lparr>su_attemptsWithTokens = length withTokens, su_attemptsWithCost = length withCost,
      su_inputTokensPerAttempt = mean (map (\<lambda>row. or_else (ms_inputTokens (summary row)) 0) withTokens),
      su_outputTokensPerAttempt = mean (map (\<lambda>row. or_else (ms_outputTokens (summary row)) 0) withTokens),
      su_costPerAttempt = mean (map (\<lambda>row. or_else (ms_cost (summary row)) 0) withCost)\<rparr>)"

record stats_verdict =
  sx_withVerdict :: nat
  sx_coverage :: "rat option"
  sx_operatorConfirmedSuccess :: "stats_proportion option"
  sx_disagreementCount :: nat

definition verdict_coverage_floor :: rat where "verdict_coverage_floor = 2 / 10"

definition verdictOf :: "attempt_stats_row list \<Rightarrow> attempt_stats_row list \<Rightarrow> stats_verdict" where
  "verdictOf rows eligible =
    (let withVerdict = length (filter (\<lambda>row. sr_verdict row \<noteq> None) rows);
         coverage = (if min_rate_sample \<le> length rows then Some (ratio withVerdict (length rows)) else None);
         confirmed = length (filter (\<lambda>row. isSuccess row \<and> sr_verdict row = Some VerdictUp) eligible);
         showConfirmed = (case coverage of None \<Rightarrow> False | Some c \<Rightarrow> verdict_coverage_floor \<le> c \<and> min_rate_sample \<le> length eligible) in
     \<lparr>sx_withVerdict = withVerdict, sx_coverage = coverage,
      sx_operatorConfirmedSuccess = (if showConfirmed then Some (proportion confirmed (length eligible)) else None),
      sx_disagreementCount = length (filter (\<lambda>row. isSuccess row \<and> sr_verdict row = Some VerdictDown) rows)\<rparr>)"

definition groupProportion :: "attempt_stats_row list \<Rightarrow> stats_proportion" where
  "groupProportion rows =
    (let eligible = filter (\<lambda>row. \<not> isPlatform row) rows in proportion (length (filter isSuccess eligible)) (length eligible))"

definition grouped :: "(attempt_stats_row \<Rightarrow> 'k) \<Rightarrow> attempt_stats_row list \<Rightarrow> ('k \<times> stats_proportion \<times> bool) list" where
  "grouped key rows = withLeading (map (\<lambda>(k, rs). (k, groupProportion rs)) (buckets key rows))"

section \<open>Statistics of a task\<close>

record failure_reason =
  fr_count :: nat
  fr_runId :: string
  fr_retained :: bool

definition count_reason :: "attempt_stats_row \<Rightarrow> (string \<times> failure_reason) list \<Rightarrow> (string \<times> failure_reason) list" where
  "count_reason row m =
    (case af_outcomeReason (sr_fact row) of
       None \<Rightarrow> m
     | Some reason \<Rightarrow>
        if reason = [] \<or> isSuccess row then m
        else (let current = or_else (map_of m reason)
                \<lparr>fr_count = 0, fr_runId = af_runId (sr_fact row), fr_retained = sr_retained row\<rparr>;
                counted = current\<lparr>fr_count := Suc (fr_count current)\<rparr> in
              map_put reason (if sr_retained row then counted\<lparr>fr_runId := af_runId (sr_fact row), fr_retained := True\<rparr>
                else counted) m))"

definition most_first :: "('a \<Rightarrow> nat) \<Rightarrow> 'a list \<Rightarrow> 'a list" where
  "most_first count xs = sort_key (\<lambda>x. - int (count x)) xs"

definition failureReasons :: "attempt_stats_row list \<Rightarrow> (string \<times> failure_reason) list" where
  "failureReasons rows = take 8 (most_first (fr_count \<circ> snd) (fold count_reason rows []))"

record tool_profile =
  tf_attemptsUsing :: nat
  tf_calls :: nat
  tf_errors :: nat

definition profile_tool :: "string \<times> tool_attempt_counts \<Rightarrow> (string \<times> tool_profile) list \<Rightarrow> (string \<times> tool_profile) list" where
  "profile_tool entry m =
    (case entry of (toolName, counts) \<Rightarrow>
      (let current = or_else (map_of m toolName) \<lparr>tf_attemptsUsing = 0, tf_calls = 0, tf_errors = 0\<rparr> in
       map_put toolName \<lparr>tf_attemptsUsing = tf_attemptsUsing current + (if 0 < tc_calls counts then 1 else 0),
         tf_calls = tf_calls current + tc_calls counts, tf_errors = tf_errors current + tc_errors counts\<rparr> m))"

definition tool_totals :: "attempt_stats_row list \<Rightarrow> (string \<times> tool_profile) list" where
  "tool_totals rows = fold profile_tool (concat (map (\<lambda>row. af_toolCounts (sr_fact row)) rows)) []"

record stats_tool_profile =
  tg_toolName :: string
  tg_profile :: tool_profile
  tg_attemptShare :: "rat option"
  tg_callsPerAttempt :: "rat option"
  tg_errorRate :: "rat option"

definition toolProfile :: "attempt_stats_row list \<Rightarrow> stats_tool_profile list" where
  "toolProfile rows =
    most_first (tf_calls \<circ> tg_profile) (map (\<lambda>(toolName, t).
      \<lparr>tg_toolName = toolName, tg_profile = t,
       tg_attemptShare = (if min_rate_sample \<le> length rows then Some (ratio (tf_attemptsUsing t) (length rows)) else None),
       tg_callsPerAttempt = (if rows = [] then None else Some (ratio (tf_calls t) (length rows))),
       tg_errorRate = (if min_rate_sample \<le> tf_calls t then Some (ratio (tf_errors t) (tf_calls t)) else None)\<rparr>)
      (tool_totals rows))"

record task_stats =
  ks_attemptCount :: nat
  ks_platformFailureCount :: nat
  ks_outcomes :: "((outcome_status \<times> failure_class option) \<times> nat) list"
  ks_byAgentModel :: "((string \<times> string) \<times> stats_proportion \<times> bool) list"
  ks_failureReasons :: "(string \<times> failure_reason) list"
  ks_tools :: "stats_tool_profile list"
  ks_iterations :: "stats_percentiles option"
  ks_timeouts :: "stats_percentiles option"
  ks_duration :: "rat option \<times> rat option"
  ks_approvalsPerAttempt :: "rat option"
  ks_rejectionRate :: "rat option"
  ks_usage :: stats_usage
  ks_verdict :: stats_verdict

definition outcome_key :: "attempt_stats_row \<Rightarrow> outcome_status \<times> failure_class option" where
  "outcome_key row = (af_outcome (sr_fact row), af_failureClass (sr_fact row))"

text \<open>The empty model id is shown as absent.\<close>

definition agent_model_key :: "attempt_stats_row \<Rightarrow> string \<times> string" where
  "agent_model_key row = (af_agentId (sr_fact row), or_else (af_modelId (sr_fact row)) [])"

definition outcome_counts :: "attempt_stats_row list \<Rightarrow> ((outcome_status \<times> failure_class option) \<times> nat) list" where
  "outcome_counts rows = most_first snd (map (\<lambda>(k, rs). (k, length rs)) (buckets outcome_key rows))"

definition buildTaskStats :: "attempt_stats_row list \<Rightarrow> task_stats" where
  "buildTaskStats rows =
    (let approvals = sum_list (map (af_approvalRequestCount \<circ> sr_fact) rows);
         rejections = sum_list (map (af_rejectionCount \<circ> sr_fact) rows);
         active = map (\<lambda>row. of_int (af_activeMs (sr_fact row))) rows in
     \<lparr>ks_attemptCount = length rows, ks_platformFailureCount = length (filter isPlatform rows),
      ks_outcomes = outcome_counts rows, ks_byAgentModel = grouped agent_model_key rows,
      ks_failureReasons = failureReasons rows, ks_tools = toolProfile rows,
      ks_iterations = limitStats rows (af_maxIterations \<circ> sr_fact) (\<lambda>row. of_int (af_iterationsUsed (sr_fact row))),
      ks_timeouts = limitStats rows (af_timeoutSeconds \<circ> sr_fact) (\<lambda>row. of_int (af_activeMs (sr_fact row)) / 1000),
      ks_duration = (percentile active (1 / 2), percentile active (9 / 10)),
      ks_approvalsPerAttempt = (if rows = [] then None else Some (ratio approvals (length rows))),
      ks_rejectionRate = (if min_rate_sample \<le> length rows \<and> 0 < approvals then Some (ratio rejections approvals) else None),
      ks_usage = usageOf rows, ks_verdict = verdictOf rows (filter (\<lambda>row. \<not> isPlatform row) rows)\<rparr>)"

section \<open>Statistics of an agent\<close>

text \<open>The Monday, in UTC, of the week of an instant.\<close>

definition weekStart :: "int \<Rightarrow> string" where
  "weekStart t =
    (let days = t div 86400000; day = (days + 4) mod 7; mondayOffset = (if day = 0 then - 6 else 1 - day) in
     take 10 (to_iso_string (t + 86400000 * mondayOffset)))"

definition weekly :: "locale_le \<Rightarrow> attempt_stats_row list \<Rightarrow> (string \<times> nat \<times> nat) list" where
  "weekly loc rows =
    sort_by (\<lambda>l r. loc (fst l) (fst r))
      (map (\<lambda>(week, rs). (week, length rs, length (filter (\<lambda>row. isSuccess row \<and> \<not> isPlatform row) rs)))
        (buckets (\<lambda>row. weekStart (af_startedAt (sr_fact row))) rows))"

record agent_stats =
  gs_attemptCount :: nat
  gs_platformFailureCount :: nat
  gs_byTask :: "(string \<times> stats_proportion \<times> bool) list"
  gs_byPersonaVersion :: "(int option \<times> stats_proportion \<times> bool) list"
  gs_byModel :: "(string \<times> stats_proportion \<times> bool) list"
  gs_tools :: "(string \<times> nat \<times> nat) list"
  gs_weekly :: "(string \<times> nat \<times> nat) list"
  gs_usage :: stats_usage
  gs_verdict :: stats_verdict

definition buildAgentStats :: "locale_le \<Rightarrow> attempt_stats_row list \<Rightarrow> agent_stats" where
  "buildAgentStats loc rows =
    \<lparr>gs_attemptCount = length rows, gs_platformFailureCount = length (filter isPlatform rows),
     gs_byTask = sort_key (\<lambda>(_, p, _). or_else (sn_rate p) 1) (grouped (af_taskId \<circ> sr_fact) rows),
     gs_byPersonaVersion = grouped (af_personaVersion \<circ> sr_fact) rows,
     gs_byModel = grouped (\<lambda>row. or_else (af_modelId (sr_fact row)) []) rows,
     gs_tools = most_first (fst \<circ> snd) (map (\<lambda>(n, t). (n, tf_calls t, tf_errors t)) (tool_totals rows)),
     gs_weekly = weekly loc rows, gs_usage = usageOf rows,
     gs_verdict = verdictOf rows (filter (\<lambda>row. \<not> isPlatform row) rows)\<rparr>"

section \<open>Queries\<close>

datatype stats_kind = KindOnly attempt_kind | KindAll

record stats_query =
  st_taskId :: "string option"
  st_agentId :: "string option"
  st_ownerId :: "string option"
  st_since :: "int option"
  st_kind :: stats_kind
  st_taskRevisionHash :: "string option"
  st_personaVersion :: "int option"

record stats_state =
  ss_runs :: run_db
  ss_verdicts :: verdict_table
  ss_tasks :: "task_row list"

definition wanted :: "'a option \<Rightarrow> 'a option \<Rightarrow> bool" where
  "wanted w v \<longleftrightarrow> w = None \<or> w = v"

definition stats_match :: "stats_query \<Rightarrow> attempt_fact \<Rightarrow> bool" where
  "stats_match q a \<longleftrightarrow> wanted (st_taskId q) (Some (af_taskId a)) \<and> wanted (st_agentId q) (Some (af_agentId a)) \<and>
     wanted (st_ownerId q) (af_agentOwnerId a) \<and> (case st_since q of None \<Rightarrow> True | Some t \<Rightarrow> t \<le> af_startedAt a) \<and>
     (case st_kind q of KindAll \<Rightarrow> True | KindOnly k \<Rightarrow> af_kind a = k) \<and>
     wanted (st_taskRevisionHash q) (Some (af_taskRevisionHash a)) \<and> wanted (st_personaVersion q) (af_personaVersion a)"

definition toAttemptRow :: "stats_state \<Rightarrow> attempt_fact \<Rightarrow> attempt_stats_row" where
  "toAttemptRow s a = \<lparr>sr_fact = a, sr_verdict = vc_verdict (verdict_cols_of (ss_verdicts s) (af_runId a) (af_attemptIndex a)),
     sr_retained = (getRunRow (af_runId a) (ss_runs s) \<noteq> None)\<rparr>"

definition queryAttemptStats :: "stats_query \<Rightarrow> stats_state \<Rightarrow> attempt_stats_row list" where
  "queryAttemptStats q s = map (toAttemptRow s) (sort_key af_startedAt (filter (stats_match q) (rd_attempts (ss_runs s))))"

definition attemptOwners :: "string option \<Rightarrow> string option \<Rightarrow> stats_state \<Rightarrow> string option list" where
  "attemptOwners taskId agentId s = remdups (map af_agentOwnerId
     (filter (\<lambda>a. wanted taskId (Some (af_taskId a)) \<and> wanted agentId (Some (af_agentId a))) (rd_attempts (ss_runs s))))"

definition currentPersonaVersion :: "string \<Rightarrow> stats_state \<Rightarrow> int option" where
  "currentPersonaVersion agentId s =
    (case List.map_filter af_personaVersion (filter (\<lambda>a. af_agentId a = agentId) (rd_attempts (ss_runs s))) of
       [] \<Rightarrow> None | v # vs \<Rightarrow> Some (fold max vs v))"

section \<open>The routes\<close>

text \<open>\<open>window in WINDOWS\<close> is also true for what an object inherits; those have no number of days.\<close>

datatype stats_window = Days int | AllDays | NotDays

record stats_filters =
  sf_window :: stats_window
  sf_currentOnly :: bool
  sf_kind :: stats_kind

definition parse_window :: "string \<Rightarrow> stats_window option" where
  "parse_window s =
    (if s = ''7d'' then Some (Days 7) else if s = ''30d'' then Some (Days 30) else if s = ''90d'' then Some (Days 90)
     else if s = ''all'' then Some AllDays else if s \<in> set object_prototype_keys then Some NotDays else None)"

definition parse_kind :: "string \<Rightarrow> stats_kind option" where
  "parse_kind s = (if s = ''initial'' then Some (KindOnly Initial) else if s = ''follow_up'' then Some (KindOnly FollowUp)
     else if s = ''all'' then Some KindAll else None)"

definition parseFilters :: "(string \<times> string) list \<Rightarrow> stats_filters option" where
  "parseFilters query =
    (let scope = or_else (map_of query ''scope'') ''current'' in
     case (parse_window (or_else (map_of query ''window'') ''30d''), parse_kind (or_else (map_of query ''kind'') ''initial'')) of
       (Some w, Some k) \<Rightarrow>
         if scope \<noteq> ''current'' \<and> scope \<noteq> ''all'' then None
         else Some \<lparr>sf_window = w, sf_currentOnly = (scope = ''current''), sf_kind = k\<rparr>
     | _ \<Rightarrow> None)"

record stats_env =
  sv_runs :: run_env
  sv_tasks :: task_env

datatype stats_body = StatsFailed string | TaskStatsBody task_stats | AgentStatsBody agent_stats

type_synonym stats_reply = "string + (nat \<times> stats_body)"

text \<open>The value \<open>Inl\<close> is a handler that rejects, answered with 500.\<close>

definition hiddenFromMember :: "operator_context option \<Rightarrow> string option \<Rightarrow> string option \<Rightarrow> stats_state \<Rightarrow> bool" where
  "hiddenFromMember operator taskId agentId s =
    (case memberOwnerId operator of
       None \<Rightarrow> False
     | Some o' \<Rightarrow> (let owners = attemptOwners taskId agentId s in owners \<noteq> [] \<and> Some o' \<notin> set owners))"

definition window_start :: "stats_window \<Rightarrow> int \<Rightarrow> string + int option" where
  "window_start w now = (case w of
     AllDays \<Rightarrow> Inr None | Days d \<Rightarrow> Inr (Some (now - d * 86400000)) | NotDays \<Rightarrow> Inl ''Invalid time value'')"

definition queryFor ::
    "stats_env \<Rightarrow> operator_context option \<Rightarrow> stats_filters \<Rightarrow> int \<Rightarrow> (string \<times> run_task) option \<Rightarrow> string \<Rightarrow> stats_state \<Rightarrow>
     string + stats_query" where
  "queryFor env operator filters now task agentId s =
    (case window_start (sf_window filters) now of
       Inl e \<Rightarrow> Inl e
     | Inr since \<Rightarrow> Inr
        \<lparr>st_taskId = map_option fst task, st_agentId = (if task = None then Some agentId else None),
         st_ownerId = memberOwnerId operator, st_since = since, st_kind = sf_kind filters,
         st_taskRevisionHash = (if sf_currentOnly filters
           then map_option (\<lambda>t. taskRevisionHash (rv_sha256 (sv_runs env)) (snd t)) task else None),
         st_personaVersion = (if sf_currentOnly filters then currentPersonaVersion agentId s else None)\<rparr>)"

definition task_stats_route ::
    "stats_env \<Rightarrow> string \<Rightarrow> (string \<times> string) list \<Rightarrow> headers \<Rightarrow> int \<Rightarrow> stats_state \<Rightarrow> stats_reply" where
  "task_stats_route env taskId query hs now s =
    (case parseFilters query of
       None \<Rightarrow> Inr (400, StatsFailed ''invalid stats filters'')
     | Some filters \<Rightarrow>
        (case fst (get_task (sv_tasks env) taskId (ss_tasks s)) of
           Inl e \<Rightarrow> Inl (exn_message e)
         | Inr None \<Rightarrow> Inr (404, StatsFailed ''task not found'')
         | Inr (Some saved) \<Rightarrow>
            if hiddenFromMember (readOperatorContext hs) (Some taskId) None s then Inr (404, StatsFailed ''task not found'')
            else map_sum id (\<lambda>q. (200, TaskStatsBody (buildTaskStats (queryAttemptStats q s))))
              (queryFor env (readOperatorContext hs) filters now (Some (taskId, sv_task saved)) (tk_assignee (sv_task saved)) s)))"

text \<open>The rows whose task still has the revision they ran; reading a task may throw.\<close>

definition current_hash :: "stats_env \<Rightarrow> stats_state \<Rightarrow> string \<Rightarrow> exn + string option" where
  "current_hash env s taskId =
    map_sum id (map_option (\<lambda>t. taskRevisionHash (rv_sha256 (sv_runs env)) (sv_task t)))
      (fst (get_task (sv_tasks env) taskId (ss_tasks s)))"

fun keepCurrentTaskRevisions :: "stats_env \<Rightarrow> stats_state \<Rightarrow> attempt_stats_row list \<Rightarrow> string + attempt_stats_row list" where
  "keepCurrentTaskRevisions env s [] = Inr []"
| "keepCurrentTaskRevisions env s (row # rows) =
    (case current_hash env s (af_taskId (sr_fact row)) of
       Inl e \<Rightarrow> Inl (exn_message e)
     | Inr h \<Rightarrow> map_sum id (\<lambda>rest. if h = Some (af_taskRevisionHash (sr_fact row)) then row # rest else rest)
         (keepCurrentTaskRevisions env s rows))"

definition agent_stats_route ::
    "stats_env \<Rightarrow> string \<Rightarrow> (string \<times> string) list \<Rightarrow> headers \<Rightarrow> int \<Rightarrow> stats_state \<Rightarrow> stats_reply" where
  "agent_stats_route env agentId query hs now s =
    (case parseFilters query of
       None \<Rightarrow> Inr (400, StatsFailed ''invalid stats filters'')
     | Some filters \<Rightarrow>
        if hiddenFromMember (readOperatorContext hs) None (Some agentId) s then Inr (404, StatsFailed ''agent not found'')
        else (case queryFor env (readOperatorContext hs) filters now None agentId s of
           Inl e \<Rightarrow> Inl e
         | Inr q \<Rightarrow>
            (let rows = queryAttemptStats q s in
             map_sum id (\<lambda>current. (200, AgentStatsBody (buildAgentStats (rv_loc (sv_runs env)) current)))
               (if sf_currentOnly filters then keepCurrentTaskRevisions env s rows else Inr rows))))"

end
