(* ===== verification/StatsFacts.thy ===== *)
theory StatsFacts
  imports Stats RunControl "HOL-Library.Multiset"
begin

text \<open>
  Properties of the statistics: the interval of a proportion, the group that leads, the counts of
  a task, what a member's statistics may depend on, and the windows the routes accept.
\<close>

section \<open>The interval\<close>

lemma wilson_radicand:
  fixes p n z :: real
  assumes "0 < n"
  shows "(z * z / n * (p - 1 / 2))\<^sup>2 + z * z * (p * (1 - p) / n) * (1 + z * z / n) =
    z * z * (p * (1 - p) / n + z * z / (4 * n * n))"
proof -
  have "(p - 1 / 2)\<^sup>2 = 1 / 4 - p * (1 - p)"
    by (simp add: power2_eq_square algebra_simps)
  then have "(z * z / n * (p - 1 / 2))\<^sup>2 = (z * z / n) * (z * z / n) * (1 / 4 - p * (1 - p))"
    by (simp add: power_mult_distrib power2_eq_square)
  then show ?thesis
    using assms by (simp add: field_simps)
qed

lemma wilson_deviation:
  fixes p n z :: real
  assumes "0 < n" "0 \<le> p" "p \<le> 1" "0 \<le> z"
  shows "\<bar>z * z / n * (p - 1 / 2)\<bar> \<le> z * sqrt (p * (1 - p) / n + z * z / (4 * n * n))"
proof (rule power2_le_imp_le)
  have "0 \<le> p * (1 - p) / n + z * z / (4 * n * n)"
    using assms by (intro add_nonneg_nonneg divide_nonneg_pos mult_nonneg_nonneg) auto
  then have "(z * sqrt (p * (1 - p) / n + z * z / (4 * n * n)))\<^sup>2 = z * z * (p * (1 - p) / n + z * z / (4 * n * n))"
    by (simp add: power_mult_distrib power2_eq_square)
  moreover have "0 \<le> z * z * (p * (1 - p) / n) * (1 + z * z / n)"
    using assms by (intro mult_nonneg_nonneg divide_nonneg_pos add_nonneg_nonneg) auto
  ultimately show "\<bar>z * z / n * (p - 1 / 2)\<bar>\<^sup>2 \<le> (z * sqrt (p * (1 - p) / n + z * z / (4 * n * n)))\<^sup>2"
    using wilson_radicand [of n z p] assms(1) unfolding power2_abs by linarith
next
  have "0 \<le> p * (1 - p) / n + z * z / (4 * n * n)"
    using assms by (intro add_nonneg_nonneg divide_nonneg_pos mult_nonneg_nonneg) auto
  then show "0 \<le> z * sqrt (p * (1 - p) / n + z * z / (4 * n * n))"
    using assms by simp
qed

lemma wilson_around:
  fixes p n z :: real
  assumes "0 < n" "0 \<le> p" "p \<le> 1" "0 \<le> z"
  defines "D \<equiv> 1 + z * z / n" and "m \<equiv> z * sqrt (p * (1 - p) / n + z * z / (4 * n * n))"
  shows "(p + z * z / (2 * n)) / D - m / D \<le> p" "p \<le> (p + z * z / (2 * n)) / D + m / D"
proof -
  have D: "0 < D"
    using assms(1) by (simp add: D_def add_pos_nonneg)
  have d: "\<bar>z * z / n * (p - 1 / 2)\<bar> \<le> m"
    unfolding m_def by (rule wilson_deviation [OF assms(1-4)])
  have e: "p * D = p + z * z / (2 * n) + z * z / n * (p - 1 / 2)"
    using assms(1) by (simp add: D_def field_simps)
  have d': "- m \<le> z * z / n * (p - 1 / 2)" "z * z / n * (p - 1 / 2) \<le> m"
    using d by (simp_all only: abs_le_iff minus_le_iff)
  have "p + z * z / (2 * n) - m \<le> p * D"
    unfolding e using d' by (simp only: diff_conv_add_uminus add_left_mono)
  then show "(p + z * z / (2 * n)) / D - m / D \<le> p"
    using D by (simp add: diff_divide_distrib [symmetric] pos_divide_le_eq)
  have "p * D \<le> p + z * z / (2 * n) + m"
    unfolding e using d' by (simp only: add_left_mono)
  then show "p \<le> (p + z * z / (2 * n)) / D + m / D"
    using D by (simp add: add_divide_distrib [symmetric] pos_le_divide_eq)
qed

lemma wilson_encloses:
  assumes "successes \<le> eligible" "0 < eligible" "0 \<le> z" "wilsonInterval z successes eligible = (low, high)"
  shows "0 \<le> low" "low \<le> real successes / real eligible" "real successes / real eligible \<le> high" "high \<le> 1"
proof -
  let ?n = "real eligible" and ?p = "real successes / real eligible"
  have p: "0 \<le> ?p" "?p \<le> 1" "0 < ?n" "min successes eligible = successes"
    using assms(1,2) by auto
  have "low = max 0 ((?p + z * z / (2 * ?n)) / (1 + z * z / ?n) -
      z * sqrt (?p * (1 - ?p) / ?n + z * z / (4 * ?n * ?n)) / (1 + z * z / ?n))"
    and "high = min 1 ((?p + z * z / (2 * ?n)) / (1 + z * z / ?n) +
      z * sqrt (?p * (1 - ?p) / ?n + z * z / (4 * ?n * ?n)) / (1 + z * z / ?n))"
    using assms(2,4) p(4) by (simp_all add: wilsonInterval_def Let_def)
  then show "0 \<le> low" "low \<le> ?p" "?p \<le> high" "high \<le> 1"
    using wilson_around [OF p(3,1,2) assms(3)] p(1,2) by simp_all
qed

lemma z_95_nonneg: "0 \<le> z_95"
  by (simp add: z_95_def)

lemma interval_bounds:
  shows "(sn_eligible (groupProportion rows) < 10 \<and> sn_rate (groupProportion rows) = None \<and>
      sn_low (groupProportion rows) = None \<and> sn_high (groupProportion rows) = None) \<or>
    (10 \<le> sn_eligible (groupProportion rows) \<and> (\<exists>low rate high. sn_low (groupProportion rows) = Some low \<and>
       sn_rate (groupProportion rows) = Some rate \<and> sn_high (groupProportion rows) = Some high \<and>
       0 \<le> low \<and> low \<le> rate \<and> rate \<le> high \<and> high \<le> 1 \<and>
       rate * real (sn_eligible (groupProportion rows)) = real (sn_successes (groupProportion rows))))"
proof -
  let ?e = "filter (\<lambda>row. \<not> isPlatform row) rows"
  let ?s = "length (filter isSuccess ?e)"
  obtain low high where w: "wilsonInterval z_95 ?s (length ?e) = (low, high)"
    by (cases "wilsonInterval z_95 ?s (length ?e)")
  show ?thesis
  proof (cases "length ?e < 10")
    case True
    then show ?thesis by (simp add: groupProportion_def Let_def proportion_def min_rate_sample_def del: length_filter_conv_card)
  next
    case False
    then have "0 < length ?e" by linarith
    then show ?thesis
      using wilson_encloses [OF length_filter_le _ z_95_nonneg w] w False
      by (simp add: groupProportion_def Let_def proportion_def min_rate_sample_def)
  qed
qed

text \<open>
  The 95 percent interval shown with a rate lies within 0 and 1 and contains the rate, whatever
  the number of successes; a rate is shown exactly from ten eligible attempts on.
\<close>
theorem interval_contains_rate:
  fixes rows :: "attempt_stats_row list"
  defines "p \<equiv> groupProportion rows"
  shows "(sn_eligible p < 10 \<and> sn_rate p = None \<and> sn_low p = None \<and> sn_high p = None) \<or>
    (10 \<le> sn_eligible p \<and> (\<exists>low rate high. sn_low p = Some low \<and> sn_rate p = Some rate \<and> sn_high p = Some high \<and>
       0 \<le> low \<and> low \<le> rate \<and> rate \<le> high \<and> high \<le> 1 \<and> rate * real (sn_eligible p) = real (sn_successes p)))"
  unfolding p_def by (rule interval_bounds)

section \<open>Groups and the one that leads\<close>

lemma bucket_map_put_member: "(k, v) \<in> set (map_put j x m) \<Longrightarrow> (k = j \<and> v = x) \<or> (k, v) \<in> set m"
  by (induction j x m rule: map_put.induct) (auto split: if_splits)

lemma bucket_keys: "distinct (map fst m) \<Longrightarrow> distinct (map fst (fold (bucket key) rows m))"
  by (induction rows arbitrary: m) (simp_all add: bucket_def distinct_map_put)

lemma bucket_keys_distinct [simp]: "distinct (map fst (buckets key rows))"
  by (simp add: buckets_def bucket_keys)

lemma sum_map_put:
  fixes g :: "'v \<Rightarrow> nat"
  assumes "distinct (map fst m)" "g (or_else (map_of m k) e) = c" "g e = 0" "g x = c + d"
  shows "sum_list (map (g \<circ> snd) (map_put k x m)) = sum_list (map (g \<circ> snd) m) + d"
  using assms
proof (induction k x m rule: map_put.induct)
  case (1 k v)
  then show ?case by simp
next
  case (2 k v k' v' m)
  then show ?case by (cases "k' = k") auto
qed

lemma buckets_additive:
  fixes g :: "'r list \<Rightarrow> nat"
  assumes "\<And>xs x. g (xs @ [x]) = g xs + g [x]" "g [] = 0"
  shows "sum_list (map (g \<circ> snd) (buckets key rows)) = g rows"
proof -
  have "distinct (map fst m) \<Longrightarrow> sum_list (map (g \<circ> snd) (fold (bucket key) rows m)) =
      sum_list (map (g \<circ> snd) m) + sum_list (map (\<lambda>r. g [r]) rows)" for m
  proof (induction rows arbitrary: m)
    case (Cons r rows)
    have "sum_list (map (g \<circ> snd) (bucket key r m)) = sum_list (map (g \<circ> snd) m) + g [r]"
      unfolding bucket_def by (rule sum_map_put [OF Cons.prems refl, where e = "[]"]) (simp_all add: assms)
    moreover have "distinct (map fst (bucket key r m))"
      unfolding bucket_def by (rule distinct_map_put [OF Cons.prems])
    ultimately show ?case using Cons.IH [of "bucket key r m"] by (simp add: comp_def)
  qed simp
  moreover have "sum_list (map (\<lambda>r. g [r]) xs) = g xs" for xs
    by (induction xs rule: rev_induct) (simp_all add: assms)
  ultimately show ?thesis by (simp add: buckets_def)
qed

lemma buckets_length: "sum_list (map (length \<circ> snd) (buckets key rows)) = length rows"
  by (rule buckets_additive) simp_all

lemma withLeading_projection: "map (\<lambda>(k, p, l). (k, p)) (withLeading groups) = groups"
  by (simp add: withLeading_def comp_def map_nth)

lemma withLeading_nth:
  "length (withLeading groups) = length groups"
  "i < length groups \<Longrightarrow> withLeading groups ! i = (fst (groups ! i), snd (groups ! i), leads (map snd groups) i)"
  by (simp_all add: withLeading_def)

lemma leads_above:
  assumes "leads ps i" "j < length ps" "j \<noteq> i"
  obtains low high where "sn_low (ps ! i) = Some low" "sn_high (ps ! j) = Some high" "high < low"
proof -
  obtain low where l: "sn_low (ps ! i) = Some low"
    using assms(1) by (auto simp: leads_def split: option.splits)
  then have "j = i \<or> (case sn_high (ps ! j) of None \<Rightarrow> False | Some high \<Rightarrow> high < low)"
    using assms(1,2) by (simp add: leads_def list_all_iff)
  then show thesis using that [OF l] assms(3) by (auto split: option.splits)
qed

lemma leading_pair:
  assumes "\<forall>x \<in> set ps. x \<in> range groupProportion" "leads ps i" "i < length ps" "j < length ps" "j \<noteq> i"
  shows "\<not> leads ps j"
    "\<exists>mine theirs. sn_rate (ps ! i) = Some mine \<and> sn_rate (ps ! j) = Some theirs \<and> theirs < mine"
proof -
  obtain ri rj where r: "ps ! i = groupProportion ri" "ps ! j = groupProportion rj"
    using assms(1,3,4) by (metis nth_mem rangeE)
  obtain low high where lh: "sn_low (ps ! i) = Some low" "sn_high (ps ! j) = Some high" "high < low"
    using leads_above [OF assms(2,4,5)] .
  obtain r1 h1 where a: "sn_rate (ps ! i) = Some r1" "sn_high (ps ! i) = Some h1" "low \<le> r1" "r1 \<le> h1"
    using interval_bounds [of ri] lh(1) by (auto simp: r)
  obtain l2 r2 where b: "sn_low (ps ! j) = Some l2" "sn_rate (ps ! j) = Some r2" "l2 \<le> r2" "r2 \<le> high"
    using interval_bounds [of rj] lh(2) by (auto simp: r)
  show "\<exists>mine theirs. sn_rate (ps ! i) = Some mine \<and> sn_rate (ps ! j) = Some theirs \<and> theirs < mine"
    using a b lh(3) by auto
  show "\<not> leads ps j"
  proof
    assume "leads ps j"
    then obtain low' high' where "sn_low (ps ! j) = Some low'" "sn_high (ps ! i) = Some high'" "high' < low'"
      using leads_above [of ps j i] assms(3,5) by blast
    then show False using a b lh(3) by simp
  qed
qed

text \<open>
  At most one group of an agent's or a task's attempts leads, it leads only when there is
  another group, and its success rate is above the rate of every other group.
\<close>
theorem leading_group_is_best:
  fixes key :: "attempt_stats_row \<Rightarrow> 'k"
  defines "lead \<equiv> \<lambda>g :: 'k \<times> stats_proportion \<times> bool. snd (snd g)" and "rate \<equiv> \<lambda>g :: 'k \<times> stats_proportion \<times> bool. sn_rate (fst (snd g))"
  assumes "i < length (grouped key rows)" "lead (grouped key rows ! i)"
  shows "2 \<le> length (grouped key rows) \<and>
    (\<forall>j < length (grouped key rows). j \<noteq> i \<longrightarrow> \<not> lead (grouped key rows ! j) \<and>
       (\<exists>mine other. rate (grouped key rows ! i) = Some mine \<and> rate (grouped key rows ! j) = Some other \<and> other < mine))"
proof -
  let ?g = "map (\<lambda>(k, rs). (k, groupProportion rs)) (buckets key rows)"
  let ?ps = "map snd ?g"
  have n: "length (grouped key rows) = length ?ps" by (simp add: grouped_def withLeading_nth)
  have el: "lead (grouped key rows ! x) = leads ?ps x" "rate (grouped key rows ! x) = sn_rate (?ps ! x)"
    if "x < length ?ps" for x
    using withLeading_nth(2) [of x ?g] that by (simp_all add: grouped_def lead_def rate_def)
  have ps: "\<forall>x \<in> set ?ps. x \<in> range groupProportion" by auto
  have i: "i < length ?ps" "leads ?ps i" using assms(3,4) el(1) [of i] n by simp_all
  have "1 < length ?ps" using i(2) by (simp add: leads_def split: option.splits)
  then show ?thesis using leading_pair [OF ps i(2,1)] el i(1) unfolding n by auto
qed

definition example_attempt :: "string \<Rightarrow> outcome_status \<Rightarrow> attempt_fact" where
  "example_attempt agent outcome = \<lparr>af_runId = ''r1'', af_attemptIndex = 1, af_kind = Initial, af_taskId = ''t'', af_agentId = agent,
     af_agentOwnerId = Some ''ann'', af_modelId = None, af_personaVersion = Some 2, af_taskRevisionHash = ''h'',
     af_maxIterations = Some 3, af_timeoutSeconds = None, af_startedAt = 86400000 * 4, af_endedAt = 86400000 * 4 + 7,
     af_activeMs = 7, af_iterationsUsed = 1, af_outcome = outcome, af_outcomeReason = Some ''done'', af_failureClass = None,
     af_toolCounts = [], af_denialCount = 0, af_linkingRequiredCount = 0, af_approvalRequestCount = 0, af_rejectionCount = 0,
     af_backfilled = False, af_summary = \<lparr>ms_inputTokens = None, ms_outputTokens = None, ms_cost = None,
       ms_resolvedModelId = None, ms_resolvedModelChanged = False\<rparr>\<rparr>"

definition example_row :: "string \<Rightarrow> outcome_status \<Rightarrow> attempt_stats_row" where
  "example_row agent outcome = \<lparr>sr_fact = example_attempt agent outcome, sr_verdict = None, sr_retained = True\<rparr>"

definition two_agents :: "attempt_stats_row list" where
  "two_agents = replicate 10 (example_row ''a'' GoalMet) @ replicate 10 (example_row ''b'' IterationExhausted)"

lemma two_agents_groups:
  "map (\<lambda>(k, rs). (k, groupProportion rs)) (buckets agent_model_key two_agents) =
   [((''a'', []), proportion 10 10), ((''b'', []), proportion 0 10)]"
proof -
  have "buckets agent_model_key two_agents = [((''a'', []), replicate 10 (example_row ''a'' GoalMet)),
      ((''b'', []), replicate 10 (example_row ''b'' IterationExhausted))]"
    by code_simp
  moreover have "length (filter isSuccess (filter (\<lambda>row. \<not> isPlatform row) (replicate 10 (example_row a x)))) =
      (if x = GoalMet then 10 else 0)"
    "length (filter (\<lambda>row. \<not> isPlatform row) (replicate 10 (example_row a x))) = 10" for a x
    by (simp_all add: isPlatform_def isSuccess_def example_row_def example_attempt_def)
  ultimately show ?thesis by (simp add: groupProportion_def Let_def)
qed

lemma over_common:
  fixes w :: real
  assumes "0 \<le> w"
  shows "(1 + w / 20) / (1 + w / 10) = (20 + w) / (20 + 2 * w)" "1 / (1 + w / 10) = 20 / (20 + 2 * w)"
    "w / 20 / (1 + w / 10) = w / (20 + 2 * w)" "w / 10 / (1 + w / 10) = 2 * w / (20 + 2 * w)"
    "(20 + w) / (20 + 2 * w) - w / (20 + 2 * w) = 20 / (20 + 2 * w)" "(20 + w) / (20 + 2 * w) + w / (20 + 2 * w) = 1"
    "w / (20 + 2 * w) + w / (20 + 2 * w) = 2 * w / (20 + 2 * w)"
proof -
  have "0 < 20 + 2 * w" "0 < 1 + w / 10" using assms by (simp_all add: add_pos_nonneg)
  then show "(1 + w / 20) / (1 + w / 10) = (20 + w) / (20 + 2 * w)" "1 / (1 + w / 10) = 20 / (20 + 2 * w)"
    "w / 20 / (1 + w / 10) = w / (20 + 2 * w)" "w / 10 / (1 + w / 10) = 2 * w / (20 + 2 * w)"
    by (subst frac_eq_eq; simp add: algebra_simps)+
  show "(20 + w) / (20 + 2 * w) - w / (20 + 2 * w) = 20 / (20 + 2 * w)"
    by (simp add: diff_divide_distrib [symmetric] del: diff_divide_distrib)
  show "(20 + w) / (20 + 2 * w) + w / (20 + 2 * w) = 1"
    using \<open>0 < 20 + 2 * w\<close> by (simp only: add_divide_distrib [symmetric]) simp
  show "w / (20 + 2 * w) + w / (20 + 2 * w) = 2 * w / (20 + 2 * w)"
    by (simp only: add_divide_distrib [symmetric] mult_2)
qed

lemma wilson_extremes:
  assumes "0 \<le> z"
  shows "wilsonInterval z 10 10 = (max 0 (1 / (1 + z * z / 10)), 1)"
    "wilsonInterval z 0 10 = (0, min 1 (z * z / 10 / (1 + z * z / 10)))"
proof -
  have r: "z * sqrt (z * z / 400) = z * z / 20"
    using assms by (simp add: real_sqrt_divide real_sqrt_mult)
  have "wilsonInterval z 10 10 =
      (max 0 ((1 + z * z / 20) / (1 + z * z / 10) - z * sqrt (z * z / 400) / (1 + z * z / 10)),
       min 1 ((1 + z * z / 20) / (1 + z * z / 10) + z * sqrt (z * z / 400) / (1 + z * z / 10)))"
    "wilsonInterval z 0 10 =
      (max 0 (z * z / 20 / (1 + z * z / 10) - z * sqrt (z * z / 400) / (1 + z * z / 10)),
       min 1 (z * z / 20 / (1 + z * z / 10) + z * sqrt (z * z / 400) / (1 + z * z / 10)))"
    by (simp_all add: wilsonInterval_def Let_def)
  then show "wilsonInterval z 10 10 = (max 0 (1 / (1 + z * z / 10)), 1)"
    "wilsonInterval z 0 10 = (0, min 1 (z * z / 10 / (1 + z * z / 10)))"
    unfolding r over_common [OF zero_le_square [of z]] by simp_all
qed

lemma two_agents_interval:
  "sn_low (proportion 10 10) = Some (1 / (1 + z_95 * z_95 / 10))" "sn_rate (proportion 10 10) = Some 1"
  "sn_high (proportion 0 10) = Some (z_95 * z_95 / 10 / (1 + z_95 * z_95 / 10))" "sn_rate (proportion 0 10) = Some 0"
  by (simp_all add: proportion_def min_rate_sample_def wilson_extremes [OF z_95_nonneg]) (simp_all add: z_95_def)

theorem leading_group_is_best_witness:
  "map (\<lambda>(k, p, l). (fst k, sn_rate p, l)) (grouped agent_model_key two_agents) =
     [(''a'', Some 1, True), (''b'', Some 0, False)]"
proof -
  have g: "grouped agent_model_key two_agents = [((''a'', []), proportion 10 10, True),
      ((''b'', []), proportion 0 10, leads [proportion 10 10, proportion 0 10] 1)]"
    by (simp add: grouped_def two_agents_groups withLeading_def upt_rec leads_def two_agents_interval)
       (simp add: z_95_def)
  have "\<not> snd (snd (grouped agent_model_key two_agents ! 1))"
    using leading_group_is_best [of 0 agent_model_key two_agents] unfolding g by force
  then show ?thesis by (simp add: g two_agents_interval)
qed

section \<open>Counts\<close>

lemma most_first_mset [simp]: "mset (most_first c xs) = mset xs"
  by (simp add: most_first_def)

lemma most_first_sum: "sum_list (map f (most_first c xs)) = (sum_list (map f xs) :: nat)"
  by (metis most_first_mset mset_map sum_mset_sum_list)

lemma most_first_distinct: "distinct (map f (most_first c xs)) = distinct (map f xs)"
  by (metis most_first_mset mset_eq_imp_distinct_iff mset_map)

lemma most_first_order: "sorted_wrt (\<lambda>x y. c y \<le> c x) (most_first c xs)"
proof -
  have "sorted (map (\<lambda>x. - int (c x)) (most_first c xs))"
    by (simp add: most_first_def)
  then show ?thesis by (simp add: sorted_wrt_map)
qed

lemma eligible_of_group: "sn_eligible (groupProportion rows) = length (filter (\<lambda>row. \<not> isPlatform row) rows)"
  by (simp add: groupProportion_def Let_def proportion_def split: prod.split)

lemma grouped_eligible:
  "sum_list (map (\<lambda>(k, p, l). sn_eligible p) (grouped key rows)) = length (filter (\<lambda>row. \<not> isPlatform row) rows)"
proof -
  have "sum_list (map (\<lambda>(k, p, l). sn_eligible p) (grouped key rows)) =
      sum_list (map (sn_eligible \<circ> snd) (map (\<lambda>(k, p, l). (k, p)) (grouped key rows)))"
    unfolding map_map by (intro arg_cong [where f = sum_list] map_cong) auto
  also have "\<dots> = sum_list (map ((\<lambda>rs. length (filter (\<lambda>row. \<not> isPlatform row) rs)) \<circ> snd) (buckets key rows))"
    by (simp add: grouped_def withLeading_projection comp_def case_prod_beta eligible_of_group)
  also have "\<dots> = length (filter (\<lambda>row. \<not> isPlatform row) rows)"
    by (rule buckets_additive) simp_all
  finally show ?thesis .
qed

text \<open>
  The statistics of a task count every attempt once: the counts by outcome have distinct keys,
  come with the largest first and add up to the number of attempts, and the attempts judged in the
  groups by agent and model, with those failed by the platform, are all attempts.
\<close>
theorem task_stats_count_every_attempt:
  fixes rows :: "attempt_stats_row list"
  defines "s \<equiv> buildTaskStats rows"
  shows "sum_list (map snd (ks_outcomes s)) = length rows \<and> distinct (map fst (ks_outcomes s)) \<and>
    sorted_wrt (\<lambda>x y. snd y \<le> snd x) (ks_outcomes s) \<and>
    distinct (map fst (ks_byAgentModel s)) \<and>
    sum_list (map (\<lambda>(k, p, l). sn_eligible p) (ks_byAgentModel s)) + ks_platformFailureCount s = length rows"
proof -
  let ?m = "map (\<lambda>(k, rs). (k, length rs)) (buckets outcome_key rows)"
  have o: "ks_outcomes s = most_first snd ?m" "ks_byAgentModel s = grouped agent_model_key rows"
    "ks_platformFailureCount s = length (filter isPlatform rows)"
    by (simp_all add: s_def buildTaskStats_def Let_def outcome_counts_def)
  have sums: "sum_list (map snd ?m) = length rows"
    using buckets_length [of outcome_key rows] by (simp add: comp_def case_prod_beta)
  have keys: "map fst (map (\<lambda>(k, rs). (k, f rs)) m) = map fst m" for f :: "'x \<Rightarrow> 'y" and m :: "('z \<times> 'x) list"
    by (simp add: comp_def case_prod_beta)
  have "map fst (grouped agent_model_key rows) = map fst (map (\<lambda>(k, p, l). (k, p)) (grouped agent_model_key rows))"
    by (simp add: comp_def case_prod_beta)
  also have "\<dots> = map fst (buckets agent_model_key rows)"
    unfolding grouped_def withLeading_projection by (rule keys)
  finally have g: "distinct (map fst (grouped agent_model_key rows))" by simp
  show ?thesis
    using g unfolding o most_first_sum most_first_distinct sums keys grouped_eligible
    using most_first_order [of snd ?m] sum_length_filter_compl [of isPlatform rows] by simp
qed

section \<open>Percentiles\<close>

lemma interpolated:
  fixes low high t :: rat
  assumes "low \<le> high" "0 \<le> t" "t \<le> 1"
  shows "low \<le> low * (1 - t) + high * t" "low * (1 - t) + high * t \<le> high"
proof -
  have "0 \<le> (high - low) * t" "0 \<le> (high - low) * (1 - t)" using assms by simp_all
  then show "low \<le> low * (1 - t) + high * t" "low * (1 - t) + high * t \<le> high"
    by (simp_all add: algebra_simps)
qed

lemma ceiling_gap:
  fixes x :: rat
  assumes "nat \<lfloor>x\<rfloor> \<noteq> nat \<lceil>x\<rceil>" "0 \<le> x"
  shows "nat \<lceil>x\<rceil> = Suc (nat \<lfloor>x\<rfloor>)" "of_nat (nat \<lfloor>x\<rfloor>) \<le> x" "x \<le> of_nat (nat \<lfloor>x\<rfloor>) + 1"
proof -
  have f: "0 \<le> \<lfloor>x\<rfloor>" using assms(2) by simp
  have "\<lceil>x\<rceil> \<le> \<lfloor>x\<rfloor> + 1" "\<lfloor>x\<rfloor> \<le> \<lceil>x\<rceil>" by linarith+
  then have c: "\<lceil>x\<rceil> = \<lfloor>x\<rfloor> + 1" using assms(1) by (cases "\<lceil>x\<rceil> = \<lfloor>x\<rfloor>") linarith+
  then show "nat \<lceil>x\<rceil> = Suc (nat \<lfloor>x\<rfloor>)" using f by (simp only: Suc_nat_eq_nat_zadd1 add.commute)
  have "of_nat (nat \<lfloor>x\<rfloor>) = (of_int \<lfloor>x\<rfloor> :: rat)" using f by simp
  then show "of_nat (nat \<lfloor>x\<rfloor>) \<le> x" "x \<le> of_nat (nat \<lfloor>x\<rfloor>) + 1" by linarith+
qed

lemma percentile_unfold:
  assumes "vs \<noteq> []" "(of_nat (length vs) - 1) * p = x" "nat \<lfloor>x\<rfloor> < length vs" "nat \<lceil>x\<rceil> < length vs"
  shows "percentile vs p = Some (if nat \<lfloor>x\<rfloor> = nat \<lceil>x\<rceil> then sort vs ! nat \<lfloor>x\<rfloor>
     else sort vs ! nat \<lfloor>x\<rfloor> * (of_nat (nat \<lceil>x\<rceil>) - x) + sort vs ! nat \<lceil>x\<rceil> * (x - of_nat (nat \<lfloor>x\<rfloor>)))"
  unfolding percentile_def Let_def length_sort assms(2) using assms(1,3,4) by simp

lemma index_in_range:
  fixes x :: rat
  assumes "0 \<le> x" "x \<le> of_nat n - 1" "0 < n"
  shows "nat \<lfloor>x\<rfloor> < n" "nat \<lceil>x\<rceil> < n"
proof -
  have "\<lceil>x\<rceil> \<le> int n - 1" unfolding ceiling_le_iff using assms(2) by simp
  moreover have "\<lfloor>x\<rfloor> \<le> \<lceil>x\<rceil>" by linarith
  ultimately show "nat \<lfloor>x\<rfloor> < n" "nat \<lceil>x\<rceil> < n" using assms(3) by linarith+
qed

lemma sorted_pair:
  assumes "i \<le> j" "j < length vs"
  shows "sort vs ! i \<le> sort vs ! j" "sort vs ! i \<in> set vs" "sort vs ! j \<in> set vs"
  using assms nth_mem [of i "sort vs"] nth_mem [of j "sort vs"] by (auto intro: sorted_nth_mono)

lemma scaled:
  fixes a p :: rat
  assumes "1 \<le> a" "0 \<le> p" "p \<le> 1"
  shows "0 \<le> (a - 1) * p" "(a - 1) * p \<le> a - 1"
  using assms by (simp_all add: mult_left_le)

text \<open>
  A percentile of attempts is at least the least and at most the greatest value, and exists
  exactly when there is a value.
\<close>
theorem percentile_between_values:
  assumes "0 \<le> p" "p \<le> 1"
  shows "case percentile vs p of None \<Rightarrow> vs = [] | Some v \<Rightarrow> \<exists>low \<in> set vs. \<exists>high \<in> set vs. low \<le> v \<and> v \<le> high"
proof (cases "vs = []")
  case True
  then show ?thesis by (simp add: percentile_def)
next
  case False
  then have n: "(1::rat) \<le> of_nat (length vs)" "0 < length vs" by (cases vs; simp)+
  obtain x where xd: "(of_nat (length vs) - 1) * p = x" by blast
  have x: "0 \<le> x" "x \<le> of_nat (length vs) - 1"
    using scaled [OF n(1) assms] unfolding xd by simp_all
  let ?i = "nat \<lfloor>x\<rfloor>" and ?j = "nat \<lceil>x\<rceil>"
  have r: "?i < length vs" "?j < length vs" using index_in_range [OF x n(2)] by simp_all
  have v: "percentile vs p = Some (if ?i = ?j then sort vs ! ?i
      else sort vs ! ?i * (of_nat ?j - x) + sort vs ! ?j * (x - of_nat ?i))"
    by (rule percentile_unfold [OF False xd r])
  show ?thesis
  proof (cases "?i = ?j")
    case True
    then show ?thesis using v sorted_pair [OF le_refl r(1)] by auto
  next
    case gap: False
    have c: "?j = Suc ?i" "of_nat ?i \<le> x" "x \<le> of_nat ?i + 1" using ceiling_gap [OF gap x(1)] by simp_all
    then have e: "of_nat ?j - x = 1 - (x - of_nat ?i)" by (simp del: of_nat_nat)
    have s: "sort vs ! ?i \<le> sort vs ! ?j" "sort vs ! ?i \<in> set vs" "sort vs ! ?j \<in> set vs"
      by (rule sorted_pair; use c(1) r in simp)+
    have t: "0 \<le> x - of_nat ?i" "x - of_nat ?i \<le> 1" using c(2,3) by (simp_all del: of_nat_nat add: algebra_simps)
    show ?thesis
      using interpolated [OF s(1) t] s(2,3) gap unfolding v e by auto
  qed
qed

lemma example_percentile: "percentile [4, 1, 10] (9 / 10) = Some (44 / 5)"
  by code_simp

theorem percentile_between_values_witness:
  "percentile [4, 1, 10] (9 / 10) = Some (44 / 5) \<and> (\<exists>low \<in> {4, 1, 10}. \<exists>high \<in> {4, 1, 10}. low \<le> (44 / 5 :: rat) \<and> (44 / 5 :: rat) \<le> high)"
  using percentile_between_values [of "9 / 10" "[4, 1, 10]"] unfolding example_percentile by simp

section \<open>Whose attempts a member sees\<close>

definition own_attempts :: "string \<Rightarrow> stats_state \<Rightarrow> attempt_fact list" where
  "own_attempts ownerId s = filter (\<lambda>a. af_agentOwnerId a = Some ownerId) (rd_attempts (ss_runs s))"

text \<open>Two states that agree on the attempts of an owner, and on the saved tasks.\<close>

definition same_for_owner :: "string \<Rightarrow> stats_state \<Rightarrow> stats_state \<Rightarrow> bool" where
  "same_for_owner ownerId s s' \<longleftrightarrow> own_attempts ownerId s = own_attempts ownerId s' \<and> ss_tasks s = ss_tasks s' \<and>
     list_all (\<lambda>a. toAttemptRow s a = toAttemptRow s' a) (own_attempts ownerId s)"

lemma owned_query:
  assumes "st_ownerId q = Some ownerId"
  shows "filter (stats_match q) (rd_attempts (ss_runs s)) = filter (stats_match q) (own_attempts ownerId s)"
  unfolding own_attempts_def filter_filter
  by (rule filter_cong [OF refl]) (use assms in \<open>auto simp: stats_match_def wanted_def\<close>)

lemma same_query:
  assumes "same_for_owner ownerId s s'" "st_ownerId q = Some ownerId"
  shows "queryAttemptStats q s = queryAttemptStats q s'"
proof -
  have own: "own_attempts ownerId s = own_attempts ownerId s'"
    and rows: "a \<in> set (own_attempts ownerId s') \<Longrightarrow> toAttemptRow s a = toAttemptRow s' a" for a
    using assms(1) by (simp_all add: same_for_owner_def list_all_iff)
  show ?thesis
    unfolding queryAttemptStats_def owned_query [OF assms(2)] own
    by (rule map_cong [OF refl]) (rule rows, simp)
qed

lemma owner_of_query: "queryFor env operator filters now task agentId s = Inr q \<Longrightarrow> st_ownerId q = memberOwnerId operator"
  by (auto simp: queryFor_def split: sum.splits)

lemma same_queryFor:
  "currentPersonaVersion agentId s = currentPersonaVersion agentId s' \<Longrightarrow>
   queryFor env operator filters now task agentId s = queryFor env operator filters now task agentId s'"
  by (simp add: queryFor_def split: sum.split)

lemma keep_current_same: "ss_tasks s = ss_tasks s' \<Longrightarrow> keepCurrentTaskRevisions env s rows = keepCurrentTaskRevisions env s' rows"
  by (induction rows) (simp_all add: current_hash_def split: sum.split)

lemma member_with_attempts_sees:
  assumes "memberOwnerId operator = Some ownerId" "a \<in> set (own_attempts ownerId s)"
    "wanted taskId (Some (af_taskId a))" "wanted agentId (Some (af_agentId a))"
  shows "\<not> hiddenFromMember operator taskId agentId s"
  using assms by (auto simp: hiddenFromMember_def Let_def attemptOwners_def own_attempts_def image_iff intro: exI [of _ a])

text \<open>
  What other owners' attempts are does not reach a member: with an attempt of their own at the
  agent, a member is answered the same in any two states that agree on their own attempts, the saved
  tasks and the agent's current persona version.
\<close>
theorem member_statistics_are_own:
  assumes "readOperatorContext hs = Some \<lparr>oc_ownerId = ownerId, oc_role = Member\<rparr>"
    and "same_for_owner ownerId s s'" "currentPersonaVersion agentId s = currentPersonaVersion agentId s'"
    and "a \<in> set (own_attempts ownerId s)" "af_agentId a = agentId"
  shows "agent_stats_route env agentId query hs now s = agent_stats_route env agentId query hs now s'"
proof -
  let ?op = "Some \<lparr>oc_ownerId = ownerId, oc_role = Member\<rparr>"
  have m: "memberOwnerId ?op = Some ownerId" by (simp add: memberOwnerId_def)
  have a': "a \<in> set (own_attempts ownerId s')" and t: "ss_tasks s = ss_tasks s'"
    using assms(2,4) by (simp_all add: same_for_owner_def)
  have h: "\<not> hiddenFromMember ?op None (Some agentId) s" "\<not> hiddenFromMember ?op None (Some agentId) s'"
    using member_with_attempts_sees [OF m assms(4)] member_with_attempts_sees [OF m a'] assms(5) by (simp_all add: wanted_def)
  have q: "queryAttemptStats q s = queryAttemptStats q s'" if "queryFor env ?op filters now None agentId s' = Inr q" for q filters
    using same_query [OF assms(2)] owner_of_query [OF that] m by simp
  show ?thesis
    by (auto simp: agent_stats_route_def assms(1) h Let_def same_queryFor [OF assms(3)] keep_current_same [OF t] q
        split: option.split sum.split)
qed

definition example_stats_env :: stats_env where
  "example_stats_env = \<lparr>sv_runs = example_env, sv_tasks = example_task_env\<rparr>"

definition example_stats :: "attempt_fact list \<Rightarrow> stats_state" where
  "example_stats attempts = \<lparr>ss_runs = (example_db [])\<lparr>rd_attempts := attempts\<rparr>, ss_verdicts = [], ss_tasks = []\<rparr>"

definition foreign_attempt :: attempt_fact where
  "foreign_attempt = (example_attempt ''a'' RunFailed)\<lparr>af_runId := ''r9'', af_agentOwnerId := Some ''bob''\<rparr>"

theorem member_statistics_are_own_witness:
  "agent_stats_route example_stats_env ''a'' [] (example_headers ''ann'' ''member'') 7
     (example_stats [example_attempt ''a'' GoalMet, foreign_attempt]) =
   agent_stats_route example_stats_env ''a'' [] (example_headers ''ann'' ''member'') 7
     (example_stats [example_attempt ''a'' GoalMet])"
proof (rule member_statistics_are_own [where ownerId = "''ann''" and a = "example_attempt ''a'' GoalMet"])
  show "readOperatorContext (example_headers ''ann'' ''member'') = Some \<lparr>oc_ownerId = ''ann'', oc_role = Member\<rparr>"
    by code_simp
  let ?s = "example_stats [example_attempt ''a'' GoalMet, foreign_attempt]" and ?s' = "example_stats [example_attempt ''a'' GoalMet]"
  show "same_for_owner ''ann'' ?s ?s'"
    by (simp add: same_for_owner_def own_attempts_def example_stats_def toAttemptRow_def foreign_attempt_def
        example_attempt_def getRunRow_def)
  show "currentPersonaVersion ''a'' ?s = currentPersonaVersion ''a'' ?s'"
    by (simp add: currentPersonaVersion_def example_stats_def foreign_attempt_def example_attempt_def List.map_filter_def)
  show "example_attempt ''a'' GoalMet \<in> set (own_attempts ''ann'' ?s)" "af_agentId (example_attempt ''a'' GoalMet) = ''a''"
    by (simp_all add: own_attempts_def example_stats_def example_attempt_def)
qed

section \<open>The window of the statistics\<close>

text \<open>
  A window named like an inherited property of an object passes the check of the filters and
  makes the route fail instead of answering 400, at any time, for any operator who may see the agent.
\<close>
theorem inherited_window_fails:
  assumes "window \<in> {''constructor'', ''toString'', ''valueOf'', ''hasOwnProperty''}"
    and "\<not> hiddenFromMember (readOperatorContext hs) None (Some agentId) s"
  shows "agent_stats_route env agentId [(''window'', window)] hs now s = Inl ''Invalid time value'' \<and>
    agent_stats_route env agentId [(''window'', ''forever'')] hs now s = Inr (400, StatsFailed ''invalid stats filters'')"
proof -
  have w: "parse_window window = Some NotDays" "parse_window ''forever'' = None"
    using assms(1) by (auto simp: parse_window_def object_prototype_keys_def)
  have p: "parseFilters [(''window'', window)] = Some \<lparr>sf_window = NotDays, sf_currentOnly = True, sf_kind = KindOnly Initial\<rparr>"
    "parseFilters [(''window'', ''forever'')] = None"
    by (simp_all add: parseFilters_def w parse_kind_def Let_def)
  show ?thesis
    by (simp add: agent_stats_route_def p assms(2) queryFor_def window_start_def)
qed

theorem inherited_window_fails_witness:
  "agent_stats_route example_stats_env ''a'' [(''window'', ''constructor'')] [] 7 (example_stats []) = Inl ''Invalid time value'' \<and>
   agent_stats_route example_stats_env ''a'' [(''window'', ''forever'')] [] 7 (example_stats []) =
     Inr (400, StatsFailed ''invalid stats filters'')"
  by (rule inherited_window_fails)
     (simp_all add: hiddenFromMember_def memberOwnerId_def readOperatorContext_def headerValue_def)

end
