(* ===== verification/Connectors.thy ===== *)
theory Connectors
  imports CallTypes TaskSchema Texts
begin

text \<open>
  Connectors, the backends an operator adds to the gateway: the records
  (\<^verbatim>\<open>packages/shared/src/connector.ts\<close>), what they become at run time
  (\<^verbatim>\<open>apps/torii/src/connectors/utils/connector-config.ts\<close>), the registry in memory
  (\<^verbatim>\<open>connector-registry.service.ts\<close>), the bodies of the API (\<^verbatim>\<open>types/connector-api.ts\<close>) and the
  catalog's shapes. The check of a URL by \<open>zod\<close> is a parameter. Instants are milliseconds.
\<close>

section \<open>Records\<close>

datatype auth_mode = AuthUserOauth | AuthServiceKey | AuthNone

datatype registration_origin = OriginDcr | OriginManual | OriginCimd

record oauth_override =
  oo_providerKey :: "string option"
  oo_issuer :: "string option"
  oo_tokenUrl :: "string option"
  oo_authorizeUrl :: "string option"
  oo_scopes :: "string list option"
  oo_clientId :: "string option"
  oo_clientSecret :: "string option"
  oo_registrationEndpoint :: "string option"
  oo_authorizeParams :: "(string \<times> string) list option"

record connector =
  kn_slug :: string
  kn_displayName :: string
  kn_url :: string
  kn_authMode :: auth_mode
  kn_enabled :: bool
  kn_catalogId :: "string option"
  kn_catalogVersion :: "string option"
  kn_icon :: "string option"
  kn_serviceKeyRef :: "string option"
  kn_serviceKeyHeader :: "string option"
  kn_resolvedServiceKey :: "string option"
  kn_oauth :: "oauth_override option"
  kn_createdAt :: int
  kn_updatedAt :: int

record oauth_provider =
  op_token_url :: string
  op_authorize_url :: "string option"
  op_client_id :: "string option"
  op_client_secret :: "string option"
  op_scopes :: "string list"
  op_registration_endpoint :: "string option"
  op_authorize_params :: "(string \<times> string) list option"

section \<open>What a connector becomes\<close>

definition override_of :: "connector \<Rightarrow> (oauth_override \<Rightarrow> 'a option) \<Rightarrow> 'a option" where
  "override_of c f = Option.bind (kn_oauth c) f"

definition provider_key :: "connector \<Rightarrow> string" where
  "provider_key c = or_else (override_of c oo_providerKey) (kn_slug c)"

text \<open>An empty string counts as an absent header.\<close>

definition toCredentialConfig :: "connector \<Rightarrow> credential_config" where
  "toCredentialConfig c = (case kn_authMode c of
     AuthNone \<Rightarrow> NoCredential
   | AuthServiceKey \<Rightarrow> ServiceKey (or_else (kn_resolvedServiceKey c) []) (Option.bind (kn_serviceKeyHeader c) nonempty)
   | AuthUserOauth \<Rightarrow> UserOauth (provider_key c))"

definition toServerConfig :: "connector \<Rightarrow> server_config" where
  "toServerConfig c = \<lparr>sc_name = kn_slug c, sc_transport = Http (kn_url c), sc_credential = toCredentialConfig c\<rparr>"

definition provider_of :: "connector \<Rightarrow> oauth_provider" where
  "provider_of c =
    \<lparr>op_token_url = or_else (override_of c oo_tokenUrl) (or_else (override_of c oo_issuer) (kn_url c)),
     op_authorize_url = override_of c oo_authorizeUrl, op_client_id = override_of c oo_clientId,
     op_client_secret = override_of c oo_clientSecret, op_scopes = or_else (override_of c oo_scopes) [],
     op_registration_endpoint = override_of c oo_registrationEndpoint,
     op_authorize_params = override_of c oo_authorizeParams\<rparr>"

text \<open>\<open>if (providers[key]) continue\<close> also sees what an object inherits.\<close>

definition add_provider :: "connector \<Rightarrow> (string \<times> oauth_provider) list \<Rightarrow> (string \<times> oauth_provider) list" where
  "add_provider c m =
    (if kn_authMode c \<noteq> AuthUserOauth \<or> provider_key c \<in> fst ` set m \<or> provider_key c \<in> set object_prototype_keys then m
     else m @ [(provider_key c, provider_of c)])"

definition oauthProvidersFromConnectors :: "connector list \<Rightarrow> (string \<times> oauth_provider) list" where
  "oauthProvidersFromConnectors cs = fold add_provider cs []"

section \<open>The registry\<close>

definition listEnabled :: "connector list \<Rightarrow> connector list" where
  "listEnabled cs = filter kn_enabled cs"

definition find_connector :: "string \<Rightarrow> connector list \<Rightarrow> connector option" where
  "find_connector slug cs = find (\<lambda>c. kn_slug c = slug) cs"

definition listServers :: "connector list \<Rightarrow> server_config list" where
  "listServers cs = map toServerConfig (listEnabled cs)"

definition getServer :: "string \<Rightarrow> connector list \<Rightarrow> server_config option" where
  "getServer slug cs = (case find_connector slug cs of
     None \<Rightarrow> None | Some c \<Rightarrow> if kn_enabled c then Some (toServerConfig c) else None)"

text \<open>A provider is named by the slug of its connector or by the key of its tokens.\<close>

definition connector_of_provider :: "string \<Rightarrow> connector list \<Rightarrow> connector option" where
  "connector_of_provider p cs = (case find_connector p cs of
     Some c \<Rightarrow> Some c | None \<Rightarrow> find (\<lambda>c. override_of c oo_providerKey = Some p) cs)"

definition knownProviderNames :: "connector list \<Rightarrow> string list" where
  "knownProviderNames cs = rev (remdups (rev (map provider_key (filter (\<lambda>c. kn_authMode c = AuthUserOauth) cs))))"

section \<open>Bodies\<close>

definition strict_object :: "string list \<Rightarrow> json \<Rightarrow> bool" where
  "strict_object keys j = (case j of JObj kvs \<Rightarrow> fst ` set kvs \<subseteq> set keys | _ \<Rightarrow> False)"

definition is_lower_letter :: "char \<Rightarrow> bool" where
  "is_lower_letter c \<longleftrightarrow> 97 \<le> (of_char c :: nat) \<and> (of_char c :: nat) \<le> 122"

definition connector_char :: "char \<Rightarrow> bool" where
  "connector_char c \<longleftrightarrow> is_lower_letter c \<or> (48 \<le> (of_char c :: nat) \<and> (of_char c :: nat) \<le> 57) \<or> c = CHR ''_'' \<or> c = CHR ''-''"

definition connector_slug :: "string \<Rightarrow> bool" where
  "connector_slug s = (case s of [] \<Rightarrow> False | c # cs \<Rightarrow> is_lower_letter c \<and> length cs \<le> 63 \<and> list_all connector_char cs)"

definition slug_schema :: "json \<Rightarrow> string option" where
  "slug_schema j = (case j of JStr s \<Rightarrow> if connector_slug s then Some s else None | _ \<Rightarrow> None)"

definition strings_schema :: "json \<Rightarrow> string list option" where
  "strings_schema j = (case j of JArr xs \<Rightarrow> parse_all (\<lambda>x. as_string (Some x)) xs | _ \<Rightarrow> None)"

definition string_record_schema :: "json \<Rightarrow> (string \<times> string) list option" where
  "string_record_schema j = (case j of
     JObj kvs \<Rightarrow> parse_all (\<lambda>(k, v). map_option (Pair k) (as_string (Some v))) kvs | _ \<Rightarrow> None)"

definition text_field :: "string \<Rightarrow> json \<Rightarrow> string option option" where
  "text_field k j = parse_optional nonempty_string (prop_of k j)"

record oauth_body =
  ob_issuer :: "string option"
  ob_authorizeUrl :: "string option"
  ob_tokenUrl :: "string option"
  ob_scopes :: "string list option"
  ob_clientId :: "string option"
  ob_clientSecret :: "string option"
  ob_authorizeParams :: "(string \<times> string) list option"

definition oauthBodySchema :: "json \<Rightarrow> oauth_body option" where
  "oauthBodySchema j =
    (if \<not> strict_object [''issuer'', ''authorizeUrl'', ''tokenUrl'', ''scopes'', ''clientId'', ''clientSecret'', ''authorizeParams''] j
     then None
     else (case (text_field ''issuer'' j, text_field ''authorizeUrl'' j, text_field ''tokenUrl'' j,
             parse_optional strings_schema (prop_of ''scopes'' j), text_field ''clientId'' j, text_field ''clientSecret'' j,
             parse_optional string_record_schema (prop_of ''authorizeParams'' j)) of
         (Some i, Some a, Some t, Some sc, Some c, Some s, Some p) \<Rightarrow>
           Some \<lparr>ob_issuer = i, ob_authorizeUrl = a, ob_tokenUrl = t, ob_scopes = sc, ob_clientId = c, ob_clientSecret = s,
             ob_authorizeParams = p\<rparr>
       | _ \<Rightarrow> None))"

record create_connector =
  cc_slug :: string
  cc_displayName :: string
  cc_url :: string
  cc_authMode :: auth_mode
  cc_icon :: "string option"
  cc_serviceKey :: "string option"
  cc_serviceKeyHeader :: "string option"
  cc_serviceKeyEnvRef :: "string option"
  cc_oauth :: "oauth_body option"

definition auth_mode_schema :: "json \<Rightarrow> auth_mode option" where
  "auth_mode_schema j = (if j = JStr ''user_oauth'' then Some AuthUserOauth else if j = JStr ''service_key'' then Some AuthServiceKey
     else if j = JStr ''none'' then Some AuthNone else None)"

definition url_schema :: "(string \<Rightarrow> bool) \<Rightarrow> json \<Rightarrow> string option" where
  "url_schema is_url j = (case j of JStr s \<Rightarrow> if is_url s then Some s else None | _ \<Rightarrow> None)"

definition createConnectorBodySchema :: "(string \<Rightarrow> bool) \<Rightarrow> json \<Rightarrow> create_connector option" where
  "createConnectorBodySchema is_url j =
    (if \<not> strict_object [''slug'', ''displayName'', ''url'', ''authMode'', ''icon'', ''serviceKey'', ''serviceKeyHeader'',
         ''serviceKeyEnvRef'', ''oauth''] j then None
     else (case (Option.bind (prop_of ''slug'' j) slug_schema, Option.bind (prop_of ''displayName'' j) nonempty_string,
             Option.bind (prop_of ''url'' j) (url_schema is_url), Option.bind (prop_of ''authMode'' j) auth_mode_schema,
             text_field ''icon'' j, text_field ''serviceKey'' j, text_field ''serviceKeyHeader'' j, text_field ''serviceKeyEnvRef'' j,
             parse_optional oauthBodySchema (prop_of ''oauth'' j)) of
         (Some s, Some d, Some u, Some a, Some i, Some k, Some h, Some e, Some oa) \<Rightarrow>
           Some \<lparr>cc_slug = s, cc_displayName = d, cc_url = u, cc_authMode = a, cc_icon = i, cc_serviceKey = k,
             cc_serviceKeyHeader = h, cc_serviceKeyEnvRef = e, cc_oauth = oa\<rparr>
       | _ \<Rightarrow> None))"

text \<open>In a patch a field is absent, null (\<open>Some None\<close>) or given.\<close>

record update_connector =
  uc_displayName :: "string option"
  uc_url :: "string option"
  uc_enabled :: "bool option"
  uc_icon :: "string option option"
  uc_serviceKey :: "string option option"
  uc_serviceKeyHeader :: "string option option"
  uc_serviceKeyEnvRef :: "string option"
  uc_oauth :: "oauth_body option option"

definition or_null :: "(json \<Rightarrow> 'a option) \<Rightarrow> json \<Rightarrow> 'a option option" where
  "or_null f j = (if j = JNull then Some None else map_option Some (f j))"

definition updateConnectorBodySchema :: "(string \<Rightarrow> bool) \<Rightarrow> json \<Rightarrow> update_connector option" where
  "updateConnectorBodySchema is_url j =
    (if \<not> strict_object [''displayName'', ''url'', ''enabled'', ''icon'', ''serviceKey'', ''serviceKeyHeader'', ''serviceKeyEnvRef'',
         ''oauth''] j then None
     else (case (text_field ''displayName'' j, parse_optional (url_schema is_url) (prop_of ''url'' j),
             parse_optional parse_bool (prop_of ''enabled'' j), parse_optional (or_null nonempty_string) (prop_of ''icon'' j),
             parse_optional (or_null nonempty_string) (prop_of ''serviceKey'' j),
             parse_optional (or_null nonempty_string) (prop_of ''serviceKeyHeader'' j), text_field ''serviceKeyEnvRef'' j,
             parse_optional (or_null oauthBodySchema) (prop_of ''oauth'' j)) of
         (Some d, Some u, Some en, Some i, Some k, Some h, Some e, Some oa) \<Rightarrow>
           Some \<lparr>uc_displayName = d, uc_url = u, uc_enabled = en, uc_icon = i, uc_serviceKey = k, uc_serviceKeyHeader = h,
             uc_serviceKeyEnvRef = e, uc_oauth = oa\<rparr>
       | _ \<Rightarrow> None))"

record install_catalog =
  ic_catalogId :: string
  ic_slug :: "string option"
  ic_serviceKey :: "string option"
  ic_serviceKeyEnvRef :: "string option"
  ic_oauthClient :: "(string \<times> string) option"

definition oauth_client_schema :: "json \<Rightarrow> (string \<times> string) option" where
  "oauth_client_schema j =
    (if \<not> strict_object [''clientId'', ''clientSecret''] j then None
     else (case (Option.bind (prop_of ''clientId'' j) nonempty_string, Option.bind (prop_of ''clientSecret'' j) nonempty_string) of
         (Some c, Some s) \<Rightarrow> Some (c, s) | _ \<Rightarrow> None))"

definition installCatalogBodySchema :: "json \<Rightarrow> install_catalog option" where
  "installCatalogBodySchema j =
    (if \<not> strict_object [''catalogId'', ''slug'', ''serviceKey'', ''serviceKeyEnvRef'', ''oauthClient''] j then None
     else (case (Option.bind (prop_of ''catalogId'' j) nonempty_string, parse_optional slug_schema (prop_of ''slug'' j),
             text_field ''serviceKey'' j, text_field ''serviceKeyEnvRef'' j, parse_optional oauth_client_schema (prop_of ''oauthClient'' j)) of
         (Some c, Some s, Some k, Some e, Some oc) \<Rightarrow>
           Some \<lparr>ic_catalogId = c, ic_slug = s, ic_serviceKey = k, ic_serviceKeyEnvRef = e, ic_oauthClient = oc\<rparr>
       | _ \<Rightarrow> None))"

section \<open>The catalog\<close>

datatype catalog_setup =
    Discovered
  | ByoOauth string string string "string list" "(string \<times> string) list option"
  | ApiKey "string option"

text \<open>\<open>ByoOauth issuer authorizeUrl tokenUrl scopes params\<close>; the texts an entry shows are left out.\<close>

record catalog_entry =
  ke_id :: string
  ke_displayName :: string
  ke_icon :: string
  ke_url :: string
  ke_authMode :: auth_mode
  ke_setup :: catalog_setup

definition google_byo :: "string list \<Rightarrow> catalog_setup" where
  "google_byo scopes = ByoOauth ''https://accounts.google.com'' ''https://accounts.google.com/o/oauth2/v2/auth''
     ''https://oauth2.googleapis.com/token'' scopes (Some [(''access_type'', ''offline''), (''prompt'', ''consent'')])"

text \<open>Every entry of the catalog authenticates users with OAuth.\<close>

definition oauth_entry :: "string \<Rightarrow> string \<Rightarrow> string \<Rightarrow> string \<Rightarrow> catalog_setup \<Rightarrow> catalog_entry" where
  "oauth_entry i name icon url setup =
    \<lparr>ke_id = i, ke_displayName = name, ke_icon = icon, ke_url = url, ke_authMode = AuthUserOauth, ke_setup = setup\<rparr>"

definition connector_catalog :: "catalog_entry list" where
  "connector_catalog =
   [oauth_entry ''gmail'' ''Gmail'' ''gmail'' ''https://gmailmcp.googleapis.com/mcp/v1''
     (google_byo [''https://www.googleapis.com/auth/gmail.readonly'', ''https://www.googleapis.com/auth/gmail.compose'']),
    oauth_entry ''google-calendar'' ''Google Calendar'' ''googlecalendar'' ''https://calendarmcp.googleapis.com/mcp/v1''
     (google_byo [''https://www.googleapis.com/auth/calendar'']),
    oauth_entry ''google-drive'' ''Google Drive'' ''googledrive'' ''https://drivemcp.googleapis.com/mcp/v1''
     (google_byo [''https://www.googleapis.com/auth/drive.readonly'', ''https://www.googleapis.com/auth/drive.file'']),
    oauth_entry ''slack'' ''Slack'' ''slack'' ''https://mcp.slack.com/mcp''
     (ByoOauth ''https://mcp.slack.com''
      ''https://slack.com/oauth/v2_user/authorize''
      ''https://slack.com/api/oauth.v2.user.access''
      [''search:read.public'', ''search:read.private'', ''search:read.users'', ''channels:history'', ''channels:read'', ''chat:write'', ''users:read''] None),
    oauth_entry ''notion'' ''Notion'' ''notion'' ''https://mcp.notion.com/mcp'' Discovered,
    oauth_entry ''hubspot'' ''HubSpot'' ''hubspot'' ''https://mcp.hubspot.com''
     (ByoOauth ''https://mcp.hubspot.com''
      ''https://mcp.hubspot.com/oauth/authorize/user''
      ''https://mcp.hubspot.com/oauth/v3/token''
      [] None),
    oauth_entry ''stripe'' ''Stripe'' ''stripe'' ''https://mcp.stripe.com'' Discovered,
    oauth_entry ''airtable'' ''Airtable'' ''airtable'' ''https://mcp.airtable.com/mcp'' Discovered,
    oauth_entry ''zapier'' ''Zapier'' ''zapier'' ''https://mcp.zapier.com/api/v1/connect'' Discovered,
    oauth_entry ''fireflies'' ''Fireflies'' ''fireflies'' ''https://api.fireflies.ai/mcp'' Discovered,
    oauth_entry ''dropbox'' ''Dropbox'' ''dropbox'' ''https://mcp.dropbox.com/mcp''
     (ByoOauth ''https://www.dropbox.com''
      ''https://www.dropbox.com/oauth2/authorize''
      ''https://api.dropbox.com/oauth2/token''
      [''account_info.read'', ''files.metadata.read'', ''files.content.read'', ''files.content.write'', ''sharing.read'', ''sharing.write'', ''file_requests.read'', ''file_requests.write''] (Some [(''token_access_type'', ''offline'')])),
    oauth_entry ''posthog'' ''PostHog'' ''posthog'' ''https://mcp.posthog.com/mcp'' Discovered,
    oauth_entry ''linear'' ''Linear'' ''linear'' ''https://mcp.linear.app/mcp'' Discovered,
    oauth_entry ''asana'' ''Asana'' ''asana'' ''https://mcp.asana.com/mcp'' Discovered,
    oauth_entry ''atlassian'' ''Atlassian'' ''atlassian'' ''https://mcp.atlassian.com/v1/mcp'' Discovered,
    oauth_entry ''github'' ''GitHub'' ''github'' ''https://api.githubcopilot.com/mcp/''
     (ByoOauth ''https://github.com/login/oauth''
      ''https://github.com/login/oauth/authorize''
      ''https://github.com/login/oauth/access_token''
      [''repo'', ''read:user''] None)]"

definition getCatalogEntry :: "string \<Rightarrow> catalog_entry option" where
  "getCatalogEntry i = find (\<lambda>e. ke_id e = i) connector_catalog"

definition connector_catalog_version :: string where "connector_catalog_version = ''5''"


definition no_oauth_body :: oauth_body where
  "no_oauth_body = \<lparr>ob_issuer = None, ob_authorizeUrl = None, ob_tokenUrl = None, ob_scopes = None, ob_clientId = None,
     ob_clientSecret = None, ob_authorizeParams = None\<rparr>"

definition oauthFromCatalog :: "catalog_entry \<Rightarrow> (string \<times> string) option \<Rightarrow> oauth_body option" where
  "oauthFromCatalog entry client =
    (case ke_setup entry of
       ByoOauth i a t sc p \<Rightarrow> Some \<lparr>ob_issuer = Some i, ob_authorizeUrl = Some a, ob_tokenUrl = Some t, ob_scopes = Some sc,
         ob_clientId = map_option fst client, ob_clientSecret = map_option snd client, ob_authorizeParams = p\<rparr>
     | _ \<Rightarrow> map_option (\<lambda>(c, s). no_oauth_body\<lparr>ob_clientId := Some c, ob_clientSecret := Some s\<rparr>) client)"

definition oauthFromBody :: "oauth_body option \<Rightarrow> oauth_override option" where
  "oauthFromBody body = map_option (\<lambda>b.
     \<lparr>oo_providerKey = None, oo_issuer = (case ob_issuer b of None \<Rightarrow> ob_tokenUrl b | i \<Rightarrow> i), oo_tokenUrl = ob_tokenUrl b,
      oo_authorizeUrl = ob_authorizeUrl b, oo_scopes = ob_scopes b, oo_clientId = ob_clientId b, oo_clientSecret = ob_clientSecret b,
      oo_registrationEndpoint = None, oo_authorizeParams = ob_authorizeParams b\<rparr>) body"

end
