(* ===== verification/Connections.thy ===== *)
theory Connections
  imports Connectors Triples Histories
begin

text \<open>
  The connections of the gateway to its backends:
  \<^verbatim>\<open>apps/torii/src/connections/connection-manager.service.ts\<close> and what is shown of them
  (\<^verbatim>\<open>connection-read.service.ts\<close>, \<^verbatim>\<open>utils/project-connections-api.ts\<close>). A client is of an arbitrary
  type; the handshake, which runs under the owner of an agent principal, and the closing of a client
  are parameters. What the other operations of the process write during an \<open>await\<close> is \<open>cm_others\<close>;
  operations started together run one after the other. An eviction visits the servers known when it
  begins.
\<close>

section \<open>State\<close>

datatype connection_state = Connecting | Connected | ConnFailed

record 'c connection =
  cn_config :: server_config
  cn_state :: connection_state
  cn_client :: "'c option"
  cn_error :: "string option"

datatype 'c conn_write =
    PutBase string "'c connection"
  | DelBase string
  | PutUser string string "'c connection"
  | DelUser string string
  | DelServer string
  | PutRegistry "connector list"

record ('c, 'x) conn_world =
  cm_registry :: "connector list"
  cm_base :: "(string \<times> 'c connection) list"
  cm_users :: "(string \<times> (string \<times> 'c connection) list) list"
  cm_events :: "('c connection \<times> string option) list"
  cm_others :: "'c conn_write list list"
  cm_ext :: 'x

record ('c, 'x) conn_env =
  me_connect :: "server_config \<Rightarrow> string option \<Rightarrow> 'x \<Rightarrow> (string + 'c) \<times> 'x"
  me_close :: "'c \<Rightarrow> 'x \<Rightarrow> string option \<times> 'x"

type_synonym ('c, 'x, 'a) conn_comp = "(('c, 'x) conn_world, string, 'a) comp"

definition drop_key :: "string \<Rightarrow> (string \<times> 'v) list \<Rightarrow> (string \<times> 'v) list" where
  "drop_key k m = filter (\<lambda>p. fst p \<noteq> k) m"

definition owner_map :: "string \<Rightarrow> ('c, 'x) conn_world \<Rightarrow> (string \<times> 'c connection) list" where
  "owner_map name w = or_else (map_of (cm_users w) name) []"

fun apply_write :: "'c conn_write \<Rightarrow> ('c, 'x) conn_world \<Rightarrow> ('c, 'x) conn_world" where
  "apply_write (PutBase n c) w = w\<lparr>cm_base := map_put n c (cm_base w)\<rparr>"
| "apply_write (DelBase n) w = w\<lparr>cm_base := drop_key n (cm_base w)\<rparr>"
| "apply_write (PutUser n o' c) w = w\<lparr>cm_users := map_put n (map_put o' c (owner_map n w)) (cm_users w)\<rparr>"
| "apply_write (DelUser n o') w =
    (if map_of (cm_users w) n = None then w else w\<lparr>cm_users := map_put n (drop_key o' (owner_map n w)) (cm_users w)\<rparr>)"
| "apply_write (DelServer n) w = w\<lparr>cm_users := drop_key n (cm_users w)\<rparr>"
| "apply_write (PutRegistry cs) w = w\<lparr>cm_registry := cs\<rparr>"

definition awaitM :: "('c, 'x, unit) conn_comp" where
  "awaitM w = (Inr (), (run_ops apply_write (case cm_others w of [] \<Rightarrow> [] | xs # _ \<Rightarrow> xs) w)\<lparr>cm_others := tl (cm_others w)\<rparr>)"

definition emitM :: "'c connection \<Rightarrow> string option \<Rightarrow> ('c, 'x, unit) conn_comp" where
  "emitM c o' = modifyM (\<lambda>w. w\<lparr>cm_events := cm_events w @ [(c, o')]\<rparr>)"

definition writeM :: "'c conn_write \<Rightarrow> ('c, 'x, unit) conn_comp" where
  "writeM x = modifyM (apply_write x)"

definition setConnection :: "string \<Rightarrow> 'c connection \<Rightarrow> ('c, 'x, unit) conn_comp" where
  "setConnection name c = bindM (writeM (PutBase name c)) (\<lambda>_. emitM c None)"

definition setUserConnection :: "string \<Rightarrow> string \<Rightarrow> 'c connection \<Rightarrow> ('c, 'x, unit) conn_comp" where
  "setUserConnection name o' c = bindM (writeM (PutUser name o' c)) (\<lambda>_. emitM c (Some o'))"

definition is_user_oauth :: "server_config \<Rightarrow> bool" where
  "is_user_oauth s \<longleftrightarrow> (case sc_credential s of UserOauth _ \<Rightarrow> True | _ \<Rightarrow> False)"

definition connecting :: "server_config \<Rightarrow> 'c connection" where
  "connecting s = \<lparr>cn_config = s, cn_state = Connecting, cn_client = None, cn_error = None\<rparr>"

definition connected :: "server_config \<Rightarrow> 'c option \<Rightarrow> 'c connection" where
  "connected s c = \<lparr>cn_config = s, cn_state = Connected, cn_client = c, cn_error = None\<rparr>"

definition conn_failed :: "server_config \<Rightarrow> string \<Rightarrow> 'c connection" where
  "conn_failed s e = \<lparr>cn_config = s, cn_state = ConnFailed, cn_client = None, cn_error = Some e\<rparr>"

definition no_principal :: string where "no_principal = ''AgentPrincipal not set on request context''"

definition ensureUnscopedBaseline :: "server_config \<Rightarrow> ('c, 'x, unit) conn_comp" where
  "ensureUnscopedBaseline s w =
    (if map_of (cm_base w) (sc_name s) = None then writeM (PutBase (sc_name s) (conn_failed s no_principal)) w else (Inr (), w))"

section \<open>Connecting\<close>

text \<open>The result of a handshake under an owner; closing returns the error it ends with.\<close>

definition connectM :: "('c, 'x) conn_env \<Rightarrow> server_config \<Rightarrow> string option \<Rightarrow> ('c, 'x, string + 'c) conn_comp" where
  "connectM env s o' = bindM (\<lambda>w. case me_connect env s o' (cm_ext w) of (r, x) \<Rightarrow> (Inr r, w\<lparr>cm_ext := x\<rparr>))
     (\<lambda>r. bindM awaitM (\<lambda>_. returnM r))"

definition closeM :: "('c, 'x) conn_env \<Rightarrow> 'c \<Rightarrow> ('c, 'x, string option) conn_comp" where
  "closeM env c = bindM (\<lambda>w. case me_close env c (cm_ext w) of (r, x) \<Rightarrow> (Inr r, w\<lparr>cm_ext := x\<rparr>))
     (\<lambda>r. bindM awaitM (\<lambda>_. returnM r))"

text \<open>\<open>await existing.client.close()\<close>: a rejection is not caught.\<close>

definition closeOrThrow :: "('c, 'x) conn_env \<Rightarrow> 'c connection option \<Rightarrow> ('c, 'x, unit) conn_comp" where
  "closeOrThrow env existing = (case Option.bind existing cn_client of
     None \<Rightarrow> returnM ()
   | Some c \<Rightarrow> bindM (closeM env c) (\<lambda>r. case r of None \<Rightarrow> returnM () | Some e \<Rightarrow> throwM e))"

fun closeEach :: "('c, 'x) conn_env \<Rightarrow> 'c list \<Rightarrow> ('c, 'x, unit) conn_comp" where
  "closeEach env [] = returnM ()"
| "closeEach env (c # cs) = bindM (closeM env c) (\<lambda>_. closeEach env cs)"

definition clients_of :: "(string \<times> 'c connection) list \<Rightarrow> 'c list" where
  "clients_of m = List.map_filter (cn_client \<circ> snd) m"

text \<open>\<open>amb\<close>: the owner of the principal in whose context the code runs.\<close>

definition connectServer ::
    "('c, 'x) conn_env \<Rightarrow> string option \<Rightarrow> server_config \<Rightarrow> string option \<Rightarrow> ('c, 'x, unit) conn_comp" where
  "connectServer env amb s owner =
    (let scoped = is_user_oauth s \<and> owner \<noteq> None; o' = or_else owner [];
         put = (\<lambda>c. if scoped then setUserConnection (sc_name s) o' c else setConnection (sc_name s) c) in
     bindM (connectM env s (if scoped \<and> amb \<noteq> owner then owner else amb)) (\<lambda>r.
     case r of
       Inl e \<Rightarrow> put (conn_failed s e)
     | Inr client \<Rightarrow>
         if scoped then put (connected s (Some client))
         else if is_user_oauth s then bindM (closeM env client) (\<lambda>_. put (connected s None))
         else put (connected s (Some client))))"

text \<open>Operations started together: all run, and the first error is thrown.\<close>

fun run_all :: "('s, 'e, unit) comp list \<Rightarrow> ('s, 'e, unit) comp" where
  "run_all [] = returnM ()"
| "run_all (m # ms) = (\<lambda>s. case m s of
     (Inr _, s') \<Rightarrow> run_all ms s' | (Inl e, s') \<Rightarrow> (Inl e, snd (run_all ms s')))"

definition announce :: "string option \<Rightarrow> server_config \<Rightarrow> ('c, 'x, unit) conn_comp" where
  "announce amb s = (case amb of
     Some o' \<Rightarrow> if is_user_oauth s
       then bindM (ensureUnscopedBaseline s) (\<lambda>_. setUserConnection (sc_name s) o' (connecting s))
       else setConnection (sc_name s) (connecting s)
   | None \<Rightarrow> setConnection (sc_name s) (connecting s))"

definition connectAll :: "('c, 'x) conn_env \<Rightarrow> string option \<Rightarrow> ('c, 'x, unit) conn_comp" where
  "connectAll env amb w =
    (let servers = listServers (cm_registry w) in
     bindM (run_all (map (announce amb) servers)) (\<lambda>_. run_all (map (\<lambda>s. connectServer env amb s amb) servers)) w)"

definition reconnect ::
    "('c, 'x) conn_env \<Rightarrow> string option \<Rightarrow> string \<Rightarrow> string option \<Rightarrow> ('c, 'x, unit) conn_comp" where
  "reconnect env amb name owner w =
    (case getServer name (cm_registry w) of
       None \<Rightarrow> (Inl (''Unknown server: '' @ name), w)
     | Some s \<Rightarrow>
         (case (if is_user_oauth s then (case owner of None \<Rightarrow> amb | _ \<Rightarrow> owner) else None) of
            Some o' \<Rightarrow>
              bindM (ensureUnscopedBaseline s) (\<lambda>_.
              bindM (\<lambda>w. closeOrThrow env (map_of (owner_map name w) o') w) (\<lambda>_.
              bindM (setUserConnection name o' (connecting s)) (\<lambda>_.
              connectServer env amb s (Some o')))) w
          | None \<Rightarrow>
              bindM (\<lambda>w. closeOrThrow env (map_of (cm_base w) name) w) (\<lambda>_.
              bindM (setConnection name (connecting s)) (\<lambda>_.
              connectServer env amb s None)) w))"

definition reconnectAll :: "('c, 'x) conn_env \<Rightarrow> string option \<Rightarrow> string option \<Rightarrow> ('c, 'x, unit) conn_comp" where
  "reconnectAll env amb owner w =
    run_all (map (\<lambda>s. reconnect env amb (sc_name s) owner) (listServers (cm_registry w))) w"

section \<open>What a caller is given\<close>

definition known_config :: "string \<Rightarrow> ('c, 'x) conn_world \<Rightarrow> server_config option" where
  "known_config name w =
    (case map_of (cm_base w) name of
       Some b \<Rightarrow> Some (cn_config b)
     | None \<Rightarrow> (case owner_map name w of (_, c) # _ \<Rightarrow> Some (cn_config c) | [] \<Rightarrow> getServer name (cm_registry w)))"

definition get_connection :: "string option \<Rightarrow> string \<Rightarrow> string option \<Rightarrow> ('c, 'x) conn_world \<Rightarrow> 'c connection option" where
  "get_connection amb name owner w =
    (let base = map_of (cm_base w) name in
     case known_config name w of
       None \<Rightarrow> None
     | Some config \<Rightarrow>
         if \<not> is_user_oauth config then base
         else (case (case owner of None \<Rightarrow> amb | _ \<Rightarrow> owner) of
             Some o' \<Rightarrow>
               (case map_of (owner_map name w) o' of
                  Some c \<Rightarrow> Some c
                | None \<Rightarrow> Some \<lparr>cn_config = config, cn_state = (case base of None \<Rightarrow> ConnFailed | Some b \<Rightarrow> cn_state b),
                    cn_client = None,
                    cn_error = (case base of
                      None \<Rightarrow> Some no_principal
                    | Some b \<Rightarrow> if cn_state b = Connected then None
                        else Some (or_else (cn_error b) no_principal))\<rparr>)
           | None \<Rightarrow>
               (case base of
                  Some b \<Rightarrow> Some \<lparr>cn_config = cn_config b, cn_state = cn_state b, cn_client = None, cn_error = cn_error b\<rparr>
                | None \<Rightarrow> if owner_map name w = [] then None else Some (conn_failed config no_principal))))"

definition known_names :: "('c, 'x) conn_world \<Rightarrow> string list" where
  "known_names w = rev (remdups (rev (map fst (cm_base w) @ map fst (cm_users w))))"

definition list_connections :: "string option \<Rightarrow> string option \<Rightarrow> ('c, 'x) conn_world \<Rightarrow> 'c connection list" where
  "list_connections amb owner w = List.map_filter (\<lambda>n. get_connection amb n owner w) (known_names w)"

definition is_live :: "'c connection \<Rightarrow> bool" where
  "is_live c \<longleftrightarrow> cn_state c = Connected \<and> cn_client c \<noteq> None"

definition ensureConnected ::
    "('c, 'x) conn_env \<Rightarrow> string option \<Rightarrow> string \<Rightarrow> string option \<Rightarrow> ('c, 'x, 'c connection) conn_comp" where
  "ensureConnected env amb name owner w =
    (let o' = (case owner of None \<Rightarrow> amb | _ \<Rightarrow> owner); again =
         bindM (reconnect env amb name o') (\<lambda>_ w. case get_connection amb name o' w of
           Some c \<Rightarrow> (Inr c, w) | None \<Rightarrow> (Inl (''Unknown server: '' @ name), w)) in
     case get_connection amb name o' w of
       Some c \<Rightarrow> if is_live c then (Inr c, w) else again w
     | None \<Rightarrow> again w)"

definition ensureUserOAuthConnected :: "('c, 'x) conn_env \<Rightarrow> string option \<Rightarrow> string option \<Rightarrow> ('c, 'x, unit) conn_comp" where
  "ensureUserOAuthConnected env amb owner w =
    (let o' = (case owner of None \<Rightarrow> amb | _ \<Rightarrow> owner);
         targets = filter (\<lambda>c. is_user_oauth (cn_config c) \<and> \<not> is_live c) (list_connections amb o' w) in
     run_all (map (\<lambda>c. bindM (ensureConnected env amb (sc_name (cn_config c)) o') (\<lambda>_. returnM ())) targets) w)"

section \<open>Eviction, reconciliation, the end\<close>

definition provider_matches :: "server_config \<Rightarrow> string option \<Rightarrow> bool" where
  "provider_matches s provider = (case sc_credential s of
     UserOauth p \<Rightarrow> (case provider of None \<Rightarrow> True | Some q \<Rightarrow> q = [] \<or> p = q) | _ \<Rightarrow> False)"

definition notify_fallback :: "string option \<Rightarrow> string \<Rightarrow> string \<Rightarrow> ('c, 'x, unit) conn_comp" where
  "notify_fallback amb name o' w = (case get_connection amb name (Some o') w of None \<Rightarrow> (Inr (), w) | Some c \<Rightarrow> emitM c (Some o') w)"

definition evict_server ::
    "('c, 'x) conn_env \<Rightarrow> string option \<Rightarrow> string \<Rightarrow> string option \<Rightarrow> string \<Rightarrow> ('c, 'x, unit) conn_comp" where
  "evict_server env amb o' provider name w =
    (case map_of (owner_map name w) o' of
       None \<Rightarrow> (Inr (), w)
     | Some existing \<Rightarrow>
         if \<not> provider_matches (or_else (getServer name (cm_registry w)) (cn_config existing)) provider then (Inr (), w)
         else bindM (writeM (DelUser name o')) (\<lambda>_.
              bindM (case cn_client existing of None \<Rightarrow> returnM None | Some c \<Rightarrow> closeM env c) (\<lambda>_.
              notify_fallback amb name o')) w)"

definition evictOwnerConnections ::
    "('c, 'x) conn_env \<Rightarrow> string option \<Rightarrow> string \<Rightarrow> string option \<Rightarrow> ('c, 'x, unit) conn_comp" where
  "evictOwnerConnections env amb o' provider w =
    run_all (map (evict_server env amb o' provider) (map fst (cm_users w))) w"

definition closeAllUserConnectionsForServer :: "('c, 'x) conn_env \<Rightarrow> string \<Rightarrow> ('c, 'x, unit) conn_comp" where
  "closeAllUserConnectionsForServer env name w =
    (if map_of (cm_users w) name = None then (Inr (), w)
     else bindM (closeEach env (clients_of (owner_map name w))) (\<lambda>_. writeM (DelServer name)) w)"

definition remove_backend :: "('c, 'x) conn_env \<Rightarrow> string \<Rightarrow> ('c, 'x, unit) conn_comp" where
  "remove_backend env name w =
    bindM (closeOrThrow env (map_of (cm_base w) name)) (\<lambda>_.
    bindM (writeM (DelBase name)) (\<lambda>_.
    closeAllUserConnectionsForServer env name)) w"

definition adjust_backend :: "('c, 'x) conn_env \<Rightarrow> string option \<Rightarrow> server_config \<Rightarrow> ('c, 'x, unit) conn_comp" where
  "adjust_backend env amb s w =
    (case map_of (cm_base w) (sc_name s) of
       None \<Rightarrow> bindM (setConnection (sc_name s) (connecting s)) (\<lambda>_. connectServer env amb s None) w
     | Some current \<Rightarrow>
         if sc_transport (cn_config current) \<noteq> sc_transport s \<or> sc_credential (cn_config current) \<noteq> sc_credential s
         then bindM (closeAllUserConnectionsForServer env (sc_name s)) (\<lambda>_. reconnect env amb (sc_name s) None) w
         else (Inr (), w))"

text \<open>A \<open>for\<close> over awaited steps: the first error ends it.\<close>

fun run_seq :: "('s, 'e, unit) comp list \<Rightarrow> ('s, 'e, unit) comp" where
  "run_seq [] = returnM ()"
| "run_seq (m # ms) = bindM m (\<lambda>_. run_seq ms)"

definition reconcile :: "('c, 'x) conn_env \<Rightarrow> string option \<Rightarrow> ('c, 'x, unit) conn_comp" where
  "reconcile env amb w =
    (let desired = listServers (cm_registry w) in
     bindM (run_seq (map (remove_backend env) (filter (\<lambda>n. n \<notin> sc_name ` set desired) (known_names w)))) (\<lambda>_.
     run_seq (map (adjust_backend env amb) desired)) w)"

definition closeAll :: "('c, 'x) conn_env \<Rightarrow> ('c, 'x, unit) conn_comp" where
  "closeAll env w =
    (let cs = clients_of (cm_base w) @ concat (map (clients_of \<circ> snd) (cm_users w)) in
     closeEach env cs (w\<lparr>cm_users := map (\<lambda>(n, _). (n, [])) (cm_users w)\<rparr>))"

section \<open>What the UI is shown\<close>

definition rebroadcast_server :: "string option \<Rightarrow> string option \<Rightarrow> string \<Rightarrow> ('c, 'x, unit) conn_comp" where
  "rebroadcast_server amb o' name w =
    (case get_connection amb name o' w of
       None \<Rightarrow> (Inr (), w)
     | Some c \<Rightarrow>
         if \<not> is_user_oauth (cn_config c) then emitM c None w
         else (case o' of
             Some i \<Rightarrow> emitM c (Some i) w
           | None \<Rightarrow> bindM (emitM c None) (\<lambda>_. run_seq (map (\<lambda>(i, u). emitM u (Some i)) (owner_map name w))) w))"

definition rebroadcast :: "string option \<Rightarrow> string option \<Rightarrow> string option \<Rightarrow> ('c, 'x, unit) conn_comp" where
  "rebroadcast amb name owner w =
    run_seq (map (rebroadcast_server amb (case owner of None \<Rightarrow> amb | _ \<Rightarrow> owner))
      (case name of Some n \<Rightarrow> [n] | None \<Rightarrow> known_names w)) w"

record connection_status =
  cs_name :: string
  cs_state :: connection_state
  cs_error :: "string option"
  cs_toolCount :: "nat option"

definition projectPublicConnection :: "'c connection \<Rightarrow> connection_status" where
  "projectPublicConnection c =
    \<lparr>cs_name = sc_name (cn_config c), cs_state = cn_state c,
     cs_error = map_option (\<lambda>e. if e = no_principal then ''Could not resolve OAuth credentials for gateway connections'' else e)
       (cn_error c),
     cs_toolCount = None\<rparr>"

text \<open>\<open>toolCount name\<close>: how many tools the catalog holds of a server.\<close>

definition projectConnection :: "(string \<Rightarrow> nat) \<Rightarrow> 'c connection \<Rightarrow> connection_status" where
  "projectConnection toolCount c =
    (if cn_state c \<noteq> Connected then projectPublicConnection c
     else (projectPublicConnection c)\<lparr>cs_toolCount := Some (toolCount (sc_name (cn_config c)))\<rparr>)"

definition listConnections ::
    "(string \<Rightarrow> nat) \<Rightarrow> string option \<Rightarrow> string option \<Rightarrow> ('c, 'x) conn_world \<Rightarrow> connection_status list" where
  "listConnections toolCount amb owner w = map (projectConnection toolCount) (list_connections amb owner w)"

text \<open>What a subscriber with an owner is told of a notification.\<close>

definition subscribed :: "(string \<Rightarrow> nat) \<Rightarrow> string option \<Rightarrow> 'c connection \<times> string option \<Rightarrow> connection_status option" where
  "subscribed toolCount owner e = (case e of (c, o') \<Rightarrow>
     if is_user_oauth (cn_config c) \<and> owner \<noteq> None \<and> o' \<noteq> owner then None else Some (projectConnection toolCount c))"

end
