(* ===== verification/CredentialStore.thy ===== *)
theory CredentialStore
  imports Connections RunAttempt
begin

text \<open>
  The tables of the gateway for credentials and connectors, and the statements on them:
  \<^verbatim>\<open>apps/torii/src/credentials/pg-*.service.ts\<close>, \<^verbatim>\<open>secrets/pg-secret-repository.service.ts\<close>,
  \<^verbatim>\<open>secrets/secret-store.ts\<close> and \<^verbatim>\<open>connectors/pg-connector-repository.service.ts\<close>, with the foreign
  keys and checks of \<^verbatim>\<open>storage/migrations\<close>. A statement is one step; what other requests and
  replicas write before it is the list \<open>kw_others\<close> of the world. JSON columns hold the values they
  encode. The sealing of a secret, the environment, the clock and fresh ids are parameters.
\<close>

section \<open>Tables\<close>

record oauth_token =
  ot_accessToken :: string
  ot_refreshToken :: "string option"
  ot_expiresAt :: "int option"

datatype link_status = LinkPending | LinkCompleted | LinkFailed

record pending_link =
  pk_linkId :: string
  pk_ownerId :: string
  pk_provider :: string
  pk_codeVerifier :: "string option"
  pk_redirectUri :: string
  pk_uiOrigin :: "string option"
  pk_status :: link_status
  pk_error :: "string option"
  pk_createdAt :: int

record provider_client =
  ci_clientId :: string
  ci_clientSecret :: "string option"
  ci_redirectUri :: "string option"

record client_registration =
  rg_issuer :: string
  rg_clientId :: string
  rg_clientSecretRef :: "string option"
  rg_redirectUri :: "string option"
  rg_origin :: registration_origin
  rg_scopes :: "string list"
  rg_createdAt :: int
  rg_updatedAt :: int

datatype secret_kind = SealedSecret | EnvRefSecret

record stored_secret =
  se_id :: string
  se_kind :: secret_kind
  se_payload :: string
  se_hint :: "string option"
  se_createdAt :: int

record discovery_row =
  dy_issuer :: string
  dy_authorizationServerUrl :: string
  dy_serverMetadata :: "jobj option"
  dy_resourceMetadata :: "jobj option"
  dy_fetchedAt :: int

record cred_db =
  kd_tokens :: "((string \<times> string) \<times> oauth_token) list"
  kd_links :: "pending_link list"
  kd_clients :: "(string \<times> provider_client) list"
  kd_registrations :: "client_registration list"
  kd_secrets :: "stored_secret list"
  kd_connectors :: "connector list"
  kd_discovery :: "(string \<times> discovery_row) list"

text \<open>
  \<open>SdkError\<close>: an error of the OAuth library with its code; \<open>RefreshError\<close> tells whether it is
  terminal; \<open>PgDuplicate\<close> names the constraint.
\<close>

datatype cred_exn =
    CredError string
  | SdkError string string
  | RefreshError string bool
  | LinkingRequired string string string string
  | NoCredentials string
  | ConnectorWriteError string nat
  | PgDuplicate string

type_synonym 'a cred_stmt = "(cred_db, cred_exn, 'a) comp"

section \<open>Tokens\<close>

definition set_token :: "string \<Rightarrow> string \<Rightarrow> oauth_token \<Rightarrow> cred_db \<Rightarrow> cred_db" where
  "set_token ownerId provider token db = db\<lparr>kd_tokens := map_put (ownerId, provider) token (kd_tokens db)\<rparr>"

definition get_token :: "string \<Rightarrow> string \<Rightarrow> cred_db \<Rightarrow> oauth_token option" where
  "get_token ownerId provider db = map_of (kd_tokens db) (ownerId, provider)"

definition delete_token :: "string \<Rightarrow> string \<Rightarrow> bool cred_stmt" where
  "delete_token ownerId provider db =
    (Inr (get_token ownerId provider db \<noteq> None), db\<lparr>kd_tokens := filter (\<lambda>e. fst e \<noteq> (ownerId, provider)) (kd_tokens db)\<rparr>)"

definition list_tokens :: "string \<Rightarrow> cred_db \<Rightarrow> (string \<times> oauth_token) list" where
  "list_tokens ownerId db = map (\<lambda>((_, p), t). (p, t)) (filter (\<lambda>e. fst (fst e) = ownerId) (kd_tokens db))"

definition token_owners :: "cred_db \<Rightarrow> string list" where
  "token_owners db = remdups (map (fst \<circ> fst) (kd_tokens db))"

definition delete_tokens_of :: "string \<Rightarrow> nat cred_stmt" where
  "delete_tokens_of ownerId db =
    (Inr (length (filter (\<lambda>e. fst (fst e) = ownerId) (kd_tokens db))),
     db\<lparr>kd_tokens := filter (\<lambda>e. fst (fst e) \<noteq> ownerId) (kd_tokens db)\<rparr>)"

section \<open>Pending links\<close>

definition create_link :: "pending_link \<Rightarrow> unit cred_stmt" where
  "create_link l db =
    (if pk_linkId l \<in> pk_linkId ` set (kd_links db) then (Inl (PgDuplicate ''pending_oauth_links_pkey''), db)
     else (Inr (), db\<lparr>kd_links := kd_links db @ [l]\<rparr>))"

definition get_link :: "string \<Rightarrow> cred_db \<Rightarrow> pending_link option" where
  "get_link i db = tbl_find (\<lambda>l. pk_linkId l = i) (kd_links db)"

definition update_link :: "pending_link \<Rightarrow> cred_db \<Rightarrow> cred_db" where
  "update_link l db = db\<lparr>kd_links := tbl_update (\<lambda>r. pk_linkId r = pk_linkId l) (\<lambda>_. l) (kd_links db)\<rparr>"

definition latest_link :: "string \<Rightarrow> string \<Rightarrow> cred_db \<Rightarrow> pending_link option" where
  "latest_link ownerId provider db =
    (case sort_by (\<lambda>l r. pk_createdAt r \<le> pk_createdAt l)
        (filter (\<lambda>l. pk_ownerId l = ownerId \<and> pk_provider l = provider) (kd_links db)) of
       [] \<Rightarrow> None | l # _ \<Rightarrow> Some l)"

definition link_owners :: "cred_db \<Rightarrow> string list" where
  "link_owners db = remdups (map pk_ownerId (kd_links db))"

definition delete_links_of :: "string \<Rightarrow> nat cred_stmt" where
  "delete_links_of ownerId db =
    (Inr (tbl_count (\<lambda>l. pk_ownerId l = ownerId) (kd_links db)),
     db\<lparr>kd_links := tbl_delete (\<lambda>l. pk_ownerId l = ownerId) (kd_links db)\<rparr>)"

section \<open>Clients, registrations, discovery\<close>

definition get_client :: "string \<Rightarrow> cred_db \<Rightarrow> provider_client option" where
  "get_client provider db = map_of (kd_clients db) provider"

definition set_client :: "string \<Rightarrow> provider_client \<Rightarrow> cred_db \<Rightarrow> cred_db" where
  "set_client provider c db = db\<lparr>kd_clients := map_put provider c (kd_clients db)\<rparr>"

text \<open>Empty columns read as absent.\<close>

definition rowToRegistration :: "client_registration \<Rightarrow> client_registration" where
  "rowToRegistration r = r\<lparr>rg_clientSecretRef := Option.bind (rg_clientSecretRef r) nonempty,
     rg_redirectUri := Option.bind (rg_redirectUri r) nonempty\<rparr>"

definition get_registration :: "string \<Rightarrow> cred_db \<Rightarrow> client_registration option" where
  "get_registration issuer db = map_option rowToRegistration (tbl_find (\<lambda>r. rg_issuer r = issuer) (kd_registrations db))"

definition upsert_registration :: "client_registration \<Rightarrow> cred_db \<Rightarrow> cred_db" where
  "upsert_registration r db =
    (if rg_issuer r \<in> rg_issuer ` set (kd_registrations db)
     then db\<lparr>kd_registrations := tbl_update (\<lambda>x. rg_issuer x = rg_issuer r) (\<lambda>x. r\<lparr>rg_createdAt := rg_createdAt x\<rparr>) (kd_registrations db)\<rparr>
     else db\<lparr>kd_registrations := kd_registrations db @ [r]\<rparr>)"

definition get_discovery :: "string \<Rightarrow> cred_db \<Rightarrow> discovery_row option" where
  "get_discovery resource db = map_of (kd_discovery db) resource"

definition set_discovery :: "string \<Rightarrow> discovery_row \<Rightarrow> cred_db \<Rightarrow> cred_db" where
  "set_discovery resource r db = db\<lparr>kd_discovery := map_put resource r (kd_discovery db)\<rparr>"

section \<open>Secrets\<close>

definition get_secret :: "string \<Rightarrow> cred_db \<Rightarrow> stored_secret option" where
  "get_secret i db = map_option (\<lambda>s. s\<lparr>se_hint := Option.bind (se_hint s) nonempty\<rparr>) (tbl_find (\<lambda>s. se_id s = i) (kd_secrets db))"

definition insert_secret :: "stored_secret \<Rightarrow> unit cred_stmt" where
  "insert_secret s db =
    (if se_id s \<in> se_id ` set (kd_secrets db) then (Inl (PgDuplicate ''secrets_pkey''), db)
     else (Inr (), db\<lparr>kd_secrets := kd_secrets db @ [s]\<rparr>))"

text \<open>\<open>ON DELETE SET NULL\<close> clears the references to a deleted secret.\<close>

definition delete_secret :: "string \<Rightarrow> cred_db \<Rightarrow> cred_db" where
  "delete_secret i db =
    db\<lparr>kd_secrets := tbl_delete (\<lambda>s. se_id s = i) (kd_secrets db),
       kd_connectors := tbl_update (\<lambda>c. kn_serviceKeyRef c = Some i) (\<lambda>c. c\<lparr>kn_serviceKeyRef := None\<rparr>) (kd_connectors db),
       kd_registrations := tbl_update (\<lambda>r. rg_clientSecretRef r = Some i) (\<lambda>r. r\<lparr>rg_clientSecretRef := None\<rparr>) (kd_registrations db)\<rparr>"

definition hintForSecret :: "string \<Rightarrow> string" where
  "hintForSecret v = (if length v \<le> 4 then ''****'' else ''...'' @ drop (length v - 4) v)"

text \<open>The bullets and the ellipsis of a hint are written in ASCII.\<close>

section \<open>Connectors\<close>

text \<open>What the table holds: no client secret, no resolved key.\<close>

definition stripSecret :: "oauth_override \<Rightarrow> oauth_override" where
  "stripSecret o' = o'\<lparr>oo_clientSecret := None\<rparr>"

definition rowToConnector :: "connector \<Rightarrow> connector" where
  "rowToConnector c = c\<lparr>kn_catalogId := Option.bind (kn_catalogId c) nonempty, kn_catalogVersion := Option.bind (kn_catalogVersion c) nonempty,
     kn_icon := Option.bind (kn_icon c) nonempty, kn_serviceKeyRef := Option.bind (kn_serviceKeyRef c) nonempty,
     kn_serviceKeyHeader := Option.bind (kn_serviceKeyHeader c) nonempty, kn_resolvedServiceKey := None,
     kn_oauth := map_option stripSecret (kn_oauth c)\<rparr>"

text \<open>\<open>loc\<close>: the collation of the database.\<close>

definition list_connectors :: "locale_le \<Rightarrow> cred_db \<Rightarrow> connector list" where
  "list_connectors loc db = map rowToConnector (sort_by (\<lambda>l r. loc (kn_displayName l) (kn_displayName r)) (kd_connectors db))"

definition get_connector :: "string \<Rightarrow> cred_db \<Rightarrow> connector option" where
  "get_connector slug db = map_option rowToConnector (tbl_find (\<lambda>c. kn_slug c = slug) (kd_connectors db))"

text \<open>The reference to a secret that does not exist violates the foreign key.\<close>

definition ref_ok :: "string option \<Rightarrow> cred_db \<Rightarrow> bool" where
  "ref_ok r db = (case r of None \<Rightarrow> True | Some i \<Rightarrow> i \<in> se_id ` set (kd_secrets db))"

definition dangling_ref :: cred_exn where
  "dangling_ref = CredError ''insert or update on table \"connectors\" violates foreign key constraint \"connectors_service_key_ref_fkey\"''"

definition insert_connector_row :: "connector \<Rightarrow> unit cred_stmt" where
  "insert_connector_row c db =
    (if kn_slug c \<in> kn_slug ` set (kd_connectors db) then (Inl (PgDuplicate ''connectors_pkey''), db)
     else if \<not> ref_ok (kn_serviceKeyRef c) db then (Inl dangling_ref, db)
     else (Inr (), db\<lparr>kd_connectors := kd_connectors db @ [c]\<rparr>))"

definition update_connector_row :: "string \<Rightarrow> (connector \<Rightarrow> connector) \<Rightarrow> unit cred_stmt" where
  "update_connector_row slug f db =
    (if \<exists>c \<in> set (kd_connectors db). kn_slug c = slug \<and> \<not> ref_ok (kn_serviceKeyRef (f c)) db then (Inl dangling_ref, db)
     else (Inr (), db\<lparr>kd_connectors := tbl_update (\<lambda>c. kn_slug c = slug) f (kd_connectors db)\<rparr>))"

definition delete_connector_row :: "string \<Rightarrow> bool cred_stmt" where
  "delete_connector_row slug db =
    (Inr (\<exists>c \<in> set (kd_connectors db). kn_slug c = slug), db\<lparr>kd_connectors := tbl_delete (\<lambda>c. kn_slug c = slug) (kd_connectors db)\<rparr>)"

section \<open>The world of a request\<close>

datatype cred_write =
    SetToken string string oauth_token
  | DeleteToken string string
  | DeleteTokensOf string
  | CreateLink pending_link
  | UpdateLink pending_link
  | DeleteLinksOf string
  | SetClient string provider_client
  | UpsertRegistration client_registration
  | InsertSecret stored_secret
  | DeleteSecret string
  | SetDiscovery string discovery_row
  | InsertConnector connector
  | UpdateConnector string "connector \<Rightarrow> connector"
  | DeleteConnector string

fun run_cred :: "cred_write \<Rightarrow> cred_db \<Rightarrow> cred_db" where
  "run_cred (SetToken o' p t) db = set_token o' p t db"
| "run_cred (DeleteToken o' p) db = snd (delete_token o' p db)"
| "run_cred (DeleteTokensOf o') db = snd (delete_tokens_of o' db)"
| "run_cred (CreateLink l) db = snd (create_link l db)"
| "run_cred (UpdateLink l) db = update_link l db"
| "run_cred (DeleteLinksOf o') db = snd (delete_links_of o' db)"
| "run_cred (SetClient p c) db = set_client p c db"
| "run_cred (UpsertRegistration r) db = upsert_registration r db"
| "run_cred (InsertSecret s) db = snd (insert_secret s db)"
| "run_cred (DeleteSecret i) db = delete_secret i db"
| "run_cred (SetDiscovery k r) db = set_discovery k r db"
| "run_cred (InsertConnector c) db = snd (insert_connector_row c db)"
| "run_cred (UpdateConnector s f) db = snd (update_connector_row s f db)"
| "run_cred (DeleteConnector s) db = snd (delete_connector_row s db)"

text \<open>\<open>kw_inflight\<close>: the refreshes other requests of the process have started, and what they end with.\<close>

record ('c, 'x) cred_world =
  kw_db :: cred_db
  kw_others :: "cred_write list list"
  kw_inflight :: "(string \<times> (cred_exn + oauth_token)) list"
  kw_conns :: "('c, 'x) conn_world"

type_synonym ('c, 'x, 'a) cred_comp = "(('c, 'x) cred_world, cred_exn, 'a) comp"

definition others_write :: "('c, 'x) cred_world \<Rightarrow> ('c, 'x) cred_world" where
  "others_write w = w\<lparr>kw_db := run_ops run_cred (case kw_others w of [] \<Rightarrow> [] | xs # _ \<Rightarrow> xs) (kw_db w), kw_others := tl (kw_others w)\<rparr>"

definition cstmt :: "'a cred_stmt \<Rightarrow> ('c, 'x, 'a) cred_comp" where
  "cstmt m w = (let w' = others_write w in case m (kw_db w') of (r, db) \<Rightarrow> (r, w'\<lparr>kw_db := db\<rparr>))"

definition cquery :: "(cred_db \<Rightarrow> 'a) \<Rightarrow> ('c, 'x, 'a) cred_comp" where
  "cquery f = cstmt (\<lambda>db. (Inr (f db), db))"

definition cwrite :: "(cred_db \<Rightarrow> cred_db) \<Rightarrow> ('c, 'x, unit) cred_comp" where
  "cwrite f = cstmt (\<lambda>db. (Inr (), f db))"

text \<open>What is outside: the state \<open>'x\<close> is shared with the connections.\<close>

definition on_ext :: "('x \<Rightarrow> (cred_exn + 'a) \<times> 'x) \<Rightarrow> ('c, 'x, 'a) cred_comp" where
  "on_ext f w = (case f (cm_ext (kw_conns w)) of (r, x) \<Rightarrow> (r, w\<lparr>kw_conns := (kw_conns w)\<lparr>cm_ext := x\<rparr>\<rparr>))"

definition on_conns :: "('c, 'x, 'a) conn_comp \<Rightarrow> ('c, 'x, 'a) cred_comp" where
  "on_conns m w = (case m (kw_conns w) of (r, c) \<Rightarrow> (map_sum CredError id r, w\<lparr>kw_conns := c\<rparr>))"

definition registryM :: "('c, 'x, connector list) cred_comp" where
  "registryM w = (Inr (cm_registry (kw_conns w)), w)"

record ('c, 'x) secret_env =
  ve_loc :: locale_le
  ve_now :: "'x \<Rightarrow> int \<times> 'x"
  ve_uuid :: "'x \<Rightarrow> string \<times> 'x"
  ve_seal :: "string \<Rightarrow> 'x \<Rightarrow> (cred_exn + string) \<times> 'x"
  ve_unseal :: "string \<Rightarrow> cred_exn + string"
  ve_variable :: "string \<Rightarrow> string option"
  ve_conn :: "('c, 'x) conn_env"

definition cnowM :: "('c, 'x, 'm) secret_env_scheme \<Rightarrow> ('c, 'x, int) cred_comp" where
  "cnowM env = on_ext (\<lambda>x. case ve_now env x of (t, x') \<Rightarrow> (Inr t, x'))"

definition cuuidM :: "('c, 'x, 'm) secret_env_scheme \<Rightarrow> ('c, 'x, string) cred_comp" where
  "cuuidM env = on_ext (\<lambda>x. case ve_uuid env x of (i, x') \<Rightarrow> (Inr i, x'))"

definition liftC :: "cred_exn + 'a \<Rightarrow> ('c, 'x, 'a) cred_comp" where
  "liftC r w = (r, w)"

definition resolveSecretPayload :: "('c, 'x, 'm) secret_env_scheme \<Rightarrow> stored_secret \<Rightarrow> cred_exn + string" where
  "resolveSecretPayload env s = (case se_kind s of
     EnvRefSecret \<Rightarrow> (case ve_variable env (se_payload s) of
        None \<Rightarrow> Inl (CredError (''Missing environment variable: '' @ se_payload s)) | Some v \<Rightarrow> Inr v)
   | SealedSecret \<Rightarrow> ve_unseal env (se_payload s))"

definition createSealedSecret :: "('c, 'x, 'm) secret_env_scheme \<Rightarrow> string \<Rightarrow> ('c, 'x, stored_secret) cred_comp" where
  "createSealedSecret env v =
    bindM (cuuidM env) (\<lambda>i. bindM (on_ext (ve_seal env v)) (\<lambda>p. bindM (cnowM env) (\<lambda>t.
    returnM \<lparr>se_id = i, se_kind = SealedSecret, se_payload = p, se_hint = Some (hintForSecret v), se_createdAt = t\<rparr>)))"

definition createEnvRefSecret :: "('c, 'x, 'm) secret_env_scheme \<Rightarrow> string \<Rightarrow> ('c, 'x, stored_secret) cred_comp" where
  "createEnvRefSecret env name =
    bindM (cuuidM env) (\<lambda>i. bindM (cnowM env) (\<lambda>t.
    returnM \<lparr>se_id = i, se_kind = EnvRefSecret, se_payload = name, se_hint = Some name, se_createdAt = t\<rparr>))"

section \<open>The registry is loaded from the table\<close>

definition hydrate :: "('c, 'x, 'm) secret_env_scheme \<Rightarrow> connector \<Rightarrow> ('c, 'x, connector) cred_comp" where
  "hydrate env row =
    (case kn_serviceKeyRef row of
       None \<Rightarrow> returnM row
     | Some i \<Rightarrow> bindM (cquery (get_secret i)) (\<lambda>s.
         case s of
           None \<Rightarrow> returnM row
         | Some s' \<Rightarrow> bindM (liftC (resolveSecretPayload env s')) (\<lambda>v. returnM (row\<lparr>kn_resolvedServiceKey := Some v\<rparr>))))"

fun hydrate_all :: "('c, 'x, 'm) secret_env_scheme \<Rightarrow> connector list \<Rightarrow> ('c, 'x, connector list) cred_comp" where
  "hydrate_all env [] = returnM []"
| "hydrate_all env (r # rs) = bindM (hydrate env r) (\<lambda>c. bindM (hydrate_all env rs) (\<lambda>cs. returnM (c # cs)))"

definition replace_registry :: "connector list \<Rightarrow> ('c, 'x, unit) cred_comp" where
  "replace_registry cs = modifyM (\<lambda>w. w\<lparr>kw_conns := (kw_conns w)\<lparr>cm_registry := cs\<rparr>\<rparr>)"

definition loadIntoRegistry :: "('c, 'x, 'm) secret_env_scheme \<Rightarrow> ('c, 'x, unit) cred_comp" where
  "loadIntoRegistry env =
    bindM (cquery (list_connectors (ve_loc env))) (\<lambda>rows. bindM (hydrate_all env rows) replace_registry)"

end
