(* ===== verification/OAuthLinks.thy ===== *)
theory OAuthLinks
  imports CredentialStore Operators
begin

text \<open>
  How an owner links an account of a backend to the gateway, and how its tokens are kept:
  \<^verbatim>\<open>apps/torii/src/credentials/oauth-link.service.ts\<close>, \<^verbatim>\<open>oauth-token-lifecycle.service.ts\<close>,
  \<^verbatim>\<open>oauth-connection-read.service.ts\<close>, \<^verbatim>\<open>reconcile-oauth-grants.ts\<close>, \<^verbatim>\<open>resolvers\<close>,
  \<^verbatim>\<open>utils\<close> and the routes of \<^verbatim>\<open>oauth-api.controller.ts\<close>. The OAuth library (discovery,
  registration, authorization, exchange, refresh), URLs, base64 and JSON parsing are parameters; log
  lines are left out.
\<close>

section \<open>What is outside\<close>

record js_url =
  ju_origin :: string
  ju_pathname :: string
  ju_rest :: string

definition url_href :: "js_url \<Rightarrow> string" where
  "url_href u = ju_origin u @ ju_pathname u @ ju_rest u"

record oauth_server =
  os_issuer :: string
  os_authorizationServerUrl :: string
  os_metadata :: jobj
  os_resource :: "string option"

type_synonym client_information = "string \<times> string option"

record discovered_server =
  dd_authorizationServerUrl :: string
  dd_metadata :: "jobj option"
  dd_resourceMetadata :: "jobj option"

record sdk_tokens =
  xt_access_token :: string
  xt_refresh_token :: "string option"
  xt_expires_in :: "int option"

record auth_request =
  aq_server :: oauth_server
  aq_client :: client_information
  aq_redirectUri :: string
  aq_state :: string
  aq_scope :: "string option"

record register_request =
  gq_server :: oauth_server
  gq_redirectUri :: string
  gq_clientName :: string
  gq_scope :: "string option"

record exchange_request =
  xq_server :: oauth_server
  xq_client :: client_information
  xq_code :: string
  xq_codeVerifier :: string
  xq_redirectUri :: string

record refresh_request =
  fq_server :: oauth_server
  fq_client :: client_information
  fq_refreshToken :: string

record ('c, 'x) oauth_env = "('c, 'x) secret_env" +
  vo_url :: "string \<Rightarrow> js_url option"
  vo_query :: "(string \<times> string) list \<Rightarrow> string"
  vo_set_params :: "string \<Rightarrow> (string \<times> string) list \<Rightarrow> cred_exn + string"
  vo_discover :: "string \<Rightarrow> 'x \<Rightarrow> (cred_exn + discovered_server) \<times> 'x"
  vo_start :: "auth_request \<Rightarrow> 'x \<Rightarrow> (cred_exn + (string \<times> string)) \<times> 'x"
  vo_register :: "register_request \<Rightarrow> 'x \<Rightarrow> (cred_exn + client_information) \<times> 'x"
  vo_exchange :: "exchange_request \<Rightarrow> 'x \<Rightarrow> (cred_exn + sdk_tokens) \<times> 'x"
  vo_refresh :: "refresh_request \<Rightarrow> 'x \<Rightarrow> (cred_exn + sdk_tokens) \<times> 'x"
  vo_decode :: "string \<Rightarrow> string + json"
  vo_encode :: "string \<Rightarrow> string"
  vo_json_text :: "json \<Rightarrow> string"
  vo_gateway_url :: "string option"
  vo_listen_url :: string

text \<open>
  \<open>vo_decode\<close>: the JSON value of base64url text, or the message of the error; \<open>vo_encode\<close>: base64url;
  \<open>vo_json_text\<close>: a value that is not a string, where the code uses it as one.
\<close>

definition cred_message :: "cred_exn \<Rightarrow> string" where
  "cred_message e = (case e of CredError m \<Rightarrow> m | SdkError _ m \<Rightarrow> m | RefreshError m _ \<Rightarrow> m
     | LinkingRequired p _ b _ \<Rightarrow> ''OAuth connection required for provider \"'' @ p @ ''\" (backend \"'' @ b @ ''\")''
     | NoCredentials m \<Rightarrow> m | ConnectorWriteError m _ \<Rightarrow> m
     | PgDuplicate c \<Rightarrow> ''duplicate key value violates unique constraint \"'' @ c @ ''\"'')"

section \<open>The state parameter\<close>

record link_state =
  ls_ownerId :: json
  ls_provider :: json
  ls_linkId :: "json option"

text \<open>The state the gateway issues holds strings.\<close>

definition encodeOAuthLinkState :: "('c, 'x) oauth_env \<Rightarrow> string \<Rightarrow> string \<Rightarrow> string \<Rightarrow> string" where
  "encodeOAuthLinkState env ownerId provider linkId = vo_encode env (json_stringify
     (JObj [(''ownerId'', JStr ownerId), (''provider'', JStr provider), (''linkId'', JStr linkId)]))"

fun truthy_json :: "json \<Rightarrow> bool" where
  "truthy_json JNull = False"
| "truthy_json (JBool b) = b"
| "truthy_json (JInt i) = (i \<noteq> 0)"
| "truthy_json (JStr s) = (s \<noteq> [])"
| "truthy_json _ = True"

definition truthy_of :: "json option \<Rightarrow> json option" where
  "truthy_of v = (case v of None \<Rightarrow> None | Some j \<Rightarrow> if truthy_json j then Some j else None)"

definition decodeOAuthLinkState :: "('c, 'x) oauth_env \<Rightarrow> string \<Rightarrow> string + link_state" where
  "decodeOAuthLinkState env state =
    (case (case vo_decode env state of
        Inl e \<Rightarrow> Inl e
      | Inr JNull \<Rightarrow> Inl ''Cannot read properties of null (reading 'ownerId')''
      | Inr j \<Rightarrow> (case (truthy_of (prop_of ''ownerId'' j), truthy_of (prop_of ''provider'' j)) of
            (Some o', Some p) \<Rightarrow> Inr \<lparr>ls_ownerId = o', ls_provider = p, ls_linkId = truthy_of (prop_of ''linkId'' j)\<rparr>
          | _ \<Rightarrow> Inl ''state payload missing ownerId or provider'')) of
       Inl m \<Rightarrow> Inl (''OAuth callback state validation failed: '' @ m)
     | Inr s \<Rightarrow> Inr s)"

definition text_of :: "('c, 'x) oauth_env \<Rightarrow> json \<Rightarrow> string" where
  "text_of env j = (case j of JStr s \<Rightarrow> s | _ \<Rightarrow> vo_json_text env j)"

section \<open>The authorization server of a connector\<close>

definition strip_slash :: "string \<Rightarrow> string" where
  "strip_slash s = (if s \<noteq> [] \<and> last s = CHR ''/'' then butlast s else s)"

definition buildOAuthCallbackRedirectUri :: "string \<Rightarrow> string \<Rightarrow> string" where
  "buildOAuthCallbackRedirectUri baseUrl provider = strip_slash baseUrl @ ''/oauth/callback/'' @ provider"

definition has_ending :: "string \<Rightarrow> string \<Rightarrow> bool" where
  "has_ending e s \<longleftrightarrow> starts_with (rev e) (rev s)"

definition authorize_path :: "js_url \<Rightarrow> string \<Rightarrow> string" where
  "authorize_path u ending = url_href (u\<lparr>ju_pathname := take (length (ju_pathname u) - length ending) (ju_pathname u) @ ''authorize''\<rparr>)"

definition parse_url :: "('c, 'x) oauth_env \<Rightarrow> string \<Rightarrow> cred_exn + js_url" where
  "parse_url env s = (case vo_url env s of None \<Rightarrow> Inl (CredError ''Invalid URL'') | Some u \<Rightarrow> Inr u)"

definition sdk_deriveAuthorizeUrl :: "('c, 'x) oauth_env \<Rightarrow> string \<Rightarrow> cred_exn + string" where
  "sdk_deriveAuthorizeUrl env tokenUrl =
    (case parse_url env tokenUrl of
       Inl e \<Rightarrow> Inl e
     | Inr u \<Rightarrow> if has_ending ''/access_token'' (ju_pathname u) then Inr (authorize_path u ''access_token'')
         else if has_ending ''/token'' (ju_pathname u) then Inr (authorize_path u ''token'')
         else Inl (CredError (''Cannot derive authorize URL from token_url: '' @ tokenUrl)))"

definition override_metadata :: "string \<Rightarrow> string \<Rightarrow> string \<Rightarrow> string option \<Rightarrow> jobj" where
  "override_metadata issuer authorize token registration =
    [(''issuer'', JStr issuer), (''authorization_endpoint'', JStr authorize), (''token_endpoint'', JStr token)] @
    (case Option.bind registration nonempty of None \<Rightarrow> [] | Some r \<Rightarrow> [(''registration_endpoint'', JStr r)]) @
    [(''response_types_supported'', JArr [JStr ''code'']),
     (''grant_types_supported'', JArr [JStr ''authorization_code'', JStr ''refresh_token'']),
     (''code_challenge_methods_supported'', JArr [JStr ''S256''])]"

definition metadataFromOverride :: "('c, 'x) oauth_env \<Rightarrow> oauth_override \<Rightarrow> cred_exn + jobj option" where
  "metadataFromOverride env oauth =
    (case Option.bind (oo_tokenUrl oauth) nonempty of
       None \<Rightarrow> Inr None
     | Some tokenUrl \<Rightarrow>
         (case (case oo_authorizeUrl oauth of Some a \<Rightarrow> Inr a | None \<Rightarrow> sdk_deriveAuthorizeUrl env tokenUrl) of
            Inl e \<Rightarrow> Inl e
          | Inr authorize \<Rightarrow>
              (case (case oo_issuer oauth of Some i \<Rightarrow> Inr i | None \<Rightarrow> map_sum id ju_origin (parse_url env authorize)) of
                 Inl e \<Rightarrow> Inl e
               | Inr issuer \<Rightarrow> Inr (Some (override_metadata issuer authorize tokenUrl (oo_registrationEndpoint oauth))))))"

definition text_in :: "jobj \<Rightarrow> string \<Rightarrow> string option" where
  "text_in m k = Option.bind (as_string (map_of m k)) nonempty"

definition discovery_ttl_ms :: int where "discovery_ttl_ms = 24 * 60 * 60 * 1000"

definition usable_metadata :: "jobj option \<Rightarrow> jobj option" where
  "usable_metadata m = (case m of
     Some md \<Rightarrow> if text_in md ''authorization_endpoint'' \<noteq> None \<and> text_in md ''token_endpoint'' \<noteq> None then Some md else None
   | None \<Rightarrow> None)"

definition resource_url :: "('c, 'x) oauth_env \<Rightarrow> jobj option \<Rightarrow> cred_exn + string option" where
  "resource_url env md = (case Option.bind md (\<lambda>m. text_in m ''resource'') of
     None \<Rightarrow> Inr None | Some r \<Rightarrow> map_sum id (Some \<circ> url_href) (parse_url env r))"

definition from_cache :: "('c, 'x) oauth_env \<Rightarrow> discovery_row \<Rightarrow> jobj \<Rightarrow> cred_exn + oauth_server" where
  "from_cache env r md = map_sum id (\<lambda>res. \<lparr>os_issuer = dy_issuer r, os_authorizationServerUrl = dy_authorizationServerUrl r,
     os_metadata = md, os_resource = res\<rparr>) (resource_url env (dy_resourceMetadata r))"

definition discover_server :: "('c, 'x) oauth_env \<Rightarrow> connector \<Rightarrow> ('c, 'x, oauth_server) cred_comp" where
  "discover_server env c =
    bindM (on_ext (vo_discover env (kn_url c))) (\<lambda>d.
    case usable_metadata (dd_metadata d) of
      None \<Rightarrow> throwM (CredError (''Could not discover OAuth metadata for \"'' @ kn_slug c @
        ''\". Provide authorize/token URLs or BYO client credentials.''))
    | Some md \<Rightarrow>
        bindM (cnowM env) (\<lambda>t.
        bindM (cwrite (set_discovery (kn_url c) \<lparr>dy_issuer = or_else (text_in md ''issuer'') [],
          dy_authorizationServerUrl = dd_authorizationServerUrl d, dy_serverMetadata = Some md,
          dy_resourceMetadata = dd_resourceMetadata d, dy_fetchedAt = t\<rparr>)) (\<lambda>_.
        bindM (liftC (resource_url env (dd_resourceMetadata d))) (\<lambda>res.
        returnM \<lparr>os_issuer = or_else (text_in md ''issuer'') [], os_authorizationServerUrl = dd_authorizationServerUrl d,
          os_metadata = md, os_resource = res\<rparr>))))"

definition resolveOAuthServer :: "('c, 'x) oauth_env \<Rightarrow> connector \<Rightarrow> ('c, 'x, oauth_server) cred_comp" where
  "resolveOAuthServer env c =
    bindM (liftC (case kn_oauth c of None \<Rightarrow> Inr None | Some o' \<Rightarrow> metadataFromOverride env o')) (\<lambda>override.
    case override of
      Some md \<Rightarrow> (let issuer = or_else (as_string (map_of md ''issuer'')) [] in
        returnM \<lparr>os_issuer = issuer, os_authorizationServerUrl = issuer, os_metadata = md, os_resource = None\<rparr>)
    | None \<Rightarrow>
        bindM (cquery (get_discovery (kn_url c))) (\<lambda>cached.
        case Option.bind cached (\<lambda>r. map_option (Pair r) (usable_metadata (dy_serverMetadata r))) of
          None \<Rightarrow> discover_server env c
        | Some (r, md) \<Rightarrow>
            bindM (cnowM env) (\<lambda>t.
            if t - dy_fetchedAt r < discovery_ttl_ms then liftC (from_cache env r md) else discover_server env c)))"

section \<open>The client of the gateway at a server\<close>

definition clientInformationFrom :: "string \<Rightarrow> string option \<Rightarrow> client_information" where
  "clientInformationFrom clientId clientSecret = (clientId, Option.bind clientSecret nonempty)"

definition registered_secret :: "('c, 'x) oauth_env \<Rightarrow> client_registration \<Rightarrow> ('c, 'x, string option) cred_comp" where
  "registered_secret env row = (case rg_clientSecretRef row of
     None \<Rightarrow> returnM None
   | Some i \<Rightarrow> bindM (cquery (get_secret i)) (\<lambda>s. case s of
       None \<Rightarrow> returnM None | Some s' \<Rightarrow> bindM (liftC (resolveSecretPayload env s')) (\<lambda>v. returnM (Some v))))"

definition link_loadIssuerClient ::
    "('c, 'x) oauth_env \<Rightarrow> string \<Rightarrow> string \<Rightarrow> ('c, 'x, client_information option) cred_comp" where
  "link_loadIssuerClient env issuer redirectUri =
    bindM (cquery (get_registration issuer)) (\<lambda>row. case row of
      None \<Rightarrow> returnM None
    | Some r \<Rightarrow>
        if rg_redirectUri r \<noteq> None \<and> rg_redirectUri r \<noteq> Some redirectUri then returnM None
        else bindM (registered_secret env r) (\<lambda>secret. returnM (Some (clientInformationFrom (rg_clientId r) secret))))"

definition persist_secret :: "('c, 'x) oauth_env \<Rightarrow> string \<Rightarrow> string option \<Rightarrow> ('c, 'x, string option) cred_comp" where
  "persist_secret env issuer clientSecret =
    (case Option.bind clientSecret nonempty of
       None \<Rightarrow> returnM None
     | Some v \<Rightarrow>
         bindM (cquery (get_registration issuer)) (\<lambda>existing.
         bindM (createSealedSecret env v) (\<lambda>s.
         bindM (cstmt (insert_secret s)) (\<lambda>_.
         bindM (case Option.bind existing rg_clientSecretRef of None \<Rightarrow> returnM () | Some i \<Rightarrow> cwrite (delete_secret i)) (\<lambda>_.
         returnM (Some (se_id s)))))))"

definition saved_registration :: "string \<Rightarrow> ('c, 'x, unit) cred_comp" where
  "saved_registration issuer = bindM (cquery (get_registration issuer)) (\<lambda>r. case r of
     None \<Rightarrow> throwM (CredError (''Failed to upsert OAuth registration for '' @ issuer)) | Some _ \<Rightarrow> returnM ())"

definition persistRegisteredClient ::
    "('c, 'x) oauth_env \<Rightarrow> string \<Rightarrow> string \<Rightarrow> client_information \<Rightarrow> string \<Rightarrow> string list \<Rightarrow> ('c, 'x, unit) cred_comp" where
  "persistRegisteredClient env provider issuer client redirectUri scopes =
    bindM (cwrite (set_client provider \<lparr>ci_clientId = fst client, ci_clientSecret = Option.bind (snd client) nonempty,
      ci_redirectUri = Some redirectUri\<rparr>)) (\<lambda>_.
    bindM (persist_secret env issuer (snd client)) (\<lambda>ref.
    bindM (cnowM env) (\<lambda>t.
    bindM (cwrite (upsert_registration \<lparr>rg_issuer = issuer, rg_clientId = fst client, rg_clientSecretRef = ref,
      rg_redirectUri = Some redirectUri, rg_origin = OriginDcr, rg_scopes = scopes, rg_createdAt = t, rg_updatedAt = t\<rparr>)) (\<lambda>_.
    saved_registration issuer))))"

definition register_client ::
    "('c, 'x) oauth_env \<Rightarrow> string \<Rightarrow> connector \<Rightarrow> oauth_server \<Rightarrow> string \<Rightarrow> ('c, 'x, client_information) cred_comp" where
  "register_client env provider c server redirectUri =
    (if text_in (os_metadata server) ''registration_endpoint'' = None
     then throwM (CredError (''OAuth provider \"'' @ provider @ ''\" needs client credentials. Paste a client ID and secret, or use a server that supports dynamic client registration.''))
     else bindM (on_ext (vo_register env \<lparr>gq_server = server, gq_redirectUri = redirectUri,
            gq_clientName = ''Torii ('' @ provider @ '')'', gq_scope = map_option (join '' '') (override_of c oo_scopes)\<rparr>)) (\<lambda>r.
          bindM (persistRegisteredClient env provider (os_issuer server) (clientInformationFrom (fst r) (snd r)) redirectUri
            (or_else (override_of c oo_scopes) [])) (\<lambda>_.
          returnM (clientInformationFrom (fst r) (snd r)))))"

text \<open>Credentials of the connector count when both are given.\<close>

definition own_client :: "connector \<Rightarrow> client_information option" where
  "own_client c = (case (Option.bind (override_of c oo_clientId) nonempty, Option.bind (override_of c oo_clientSecret) nonempty) of
     (Some i, Some s) \<Rightarrow> Some (i, Some s) | _ \<Rightarrow> None)"

definition ensureClient ::
    "('c, 'x) oauth_env \<Rightarrow> string \<Rightarrow> connector \<Rightarrow> oauth_server \<Rightarrow> string \<Rightarrow> ('c, 'x, client_information) cred_comp" where
  "ensureClient env provider c server redirectUri =
    (case own_client c of
       Some i \<Rightarrow> returnM i
     | None \<Rightarrow>
         bindM (link_loadIssuerClient env (os_issuer server) redirectUri) (\<lambda>fromIssuer. case fromIssuer of
           Some i \<Rightarrow> returnM i
         | None \<Rightarrow>
             bindM (cquery (get_client provider)) (\<lambda>existing. case existing of
               Some e \<Rightarrow> if ci_redirectUri e = Some redirectUri
                 then returnM (clientInformationFrom (ci_clientId e) (ci_clientSecret e))
                 else register_client env provider c server redirectUri
             | None \<Rightarrow> register_client env provider c server redirectUri)))"

section \<open>Linking\<close>

definition find_provider :: "string \<Rightarrow> ('c, 'x, connector option) cred_comp" where
  "find_provider provider = bindM registryM (\<lambda>cs. returnM (connector_of_provider provider cs))"

definition resolveConnector :: "('c, 'x) oauth_env \<Rightarrow> string \<Rightarrow> ('c, 'x, connector option) cred_comp" where
  "resolveConnector env provider =
    bindM (find_provider provider) (\<lambda>found. case found of
      Some c \<Rightarrow> returnM (Some c)
    | None \<Rightarrow> bindM (loadIntoRegistry env) (\<lambda>_. find_provider provider))"

definition resolveOAuthOwnerId :: "string option \<Rightarrow> cred_exn + string" where
  "resolveOAuthOwnerId flag = (case Option.bind flag nonempty of
     Some o' \<Rightarrow> Inr o' | None \<Rightarrow> Inl (CredError ''owner query parameter is required''))"

definition appendAuthorizeParams :: "('c, 'x) oauth_env \<Rightarrow> string \<Rightarrow> (string \<times> string) list option \<Rightarrow> cred_exn + string" where
  "appendAuthorizeParams env url params = (case params of
     None \<Rightarrow> Inr url | Some ps \<Rightarrow> if ps = [] then Inr url else vo_set_params env url ps)"

definition unknown_provider :: "string \<Rightarrow> connector list \<Rightarrow> cred_exn" where
  "unknown_provider provider cs = CredError (''Unknown OAuth provider \"'' @ provider @ ''\". Defined providers: '' @
     or_else (nonempty (join '', '' (knownProviderNames cs))) ''(none)'')"

record initiated =
  in_authorizationUrl :: string
  in_linkId :: string
  in_redirectUri :: string

definition begin_link ::
    "('c, 'x) oauth_env \<Rightarrow> string \<Rightarrow> connector \<Rightarrow> string \<Rightarrow> string \<Rightarrow> string option \<Rightarrow> ('c, 'x, initiated) cred_comp" where
  "begin_link env provider c ownerId redirectUri uiOrigin =
    bindM (resolveOAuthServer env c) (\<lambda>server.
    bindM (ensureClient env provider c server redirectUri) (\<lambda>client.
    bindM (cuuidM env) (\<lambda>linkId.
    bindM (on_ext (vo_start env \<lparr>aq_server = server, aq_client = client, aq_redirectUri = redirectUri,
      aq_state = encodeOAuthLinkState env ownerId provider linkId,
      aq_scope = (case or_else (override_of c oo_scopes) [] of [] \<Rightarrow> None | scopes \<Rightarrow> Some (join '' '' scopes))\<rparr>)) (\<lambda>(url, verifier).
    bindM (liftC (appendAuthorizeParams env url (override_of c oo_authorizeParams))) (\<lambda>authorizationUrl.
    bindM (cnowM env) (\<lambda>t.
    bindM (cstmt (create_link \<lparr>pk_linkId = linkId, pk_ownerId = ownerId, pk_provider = provider, pk_codeVerifier = Some verifier,
      pk_redirectUri = redirectUri, pk_uiOrigin = Option.bind uiOrigin nonempty, pk_status = LinkPending, pk_error = None,
      pk_createdAt = t\<rparr>)) (\<lambda>_.
    returnM \<lparr>in_authorizationUrl = authorizationUrl, in_linkId = linkId, in_redirectUri = redirectUri\<rparr>)))))))"

definition initiate ::
    "('c, 'x) oauth_env \<Rightarrow> string \<Rightarrow> string \<Rightarrow> string option \<Rightarrow> string option \<Rightarrow> ('c, 'x, initiated) cred_comp" where
  "initiate env provider baseUrl owner uiOrigin =
    bindM (resolveConnector env provider) (\<lambda>found. case found of
      None \<Rightarrow> bindM registryM (\<lambda>cs. throwM (unknown_provider provider cs))
    | Some c \<Rightarrow>
        bindM (liftC (resolveOAuthOwnerId owner)) (\<lambda>ownerId.
        begin_link env provider c ownerId (buildOAuthCallbackRedirectUri baseUrl provider) uiOrigin))"

section \<open>The callback\<close>

record oauth_callback_query =
  cq_code :: "string option"
  cq_state :: "string option"
  cq_error :: "string option"
  cq_error_description :: "string option"

record callback_page =
  qp_uiOrigin :: "string option"
  qp_linkId :: "string option"
  qp_provider :: string
  qp_success :: bool
  qp_error :: "string option"

record callback_result =
  qr_success :: bool
  qr_error :: "string option"
  qr_page :: "callback_page option"

definition markLinkFailed :: "string option \<Rightarrow> string \<Rightarrow> ('c, 'x, unit) cred_comp" where
  "markLinkFailed linkId message =
    (case Option.bind linkId nonempty of
       None \<Rightarrow> returnM ()
     | Some i \<Rightarrow> bindM (cquery (get_link i)) (\<lambda>link. case link of
         None \<Rightarrow> returnM ()
       | Some l \<Rightarrow> cwrite (update_link (l\<lparr>pk_status := LinkFailed, pk_error := Some message\<rparr>))))"

definition callbackFailure :: "string \<Rightarrow> string option \<Rightarrow> ('c, 'x, string) cred_comp" where
  "callbackFailure e linkId = bindM (markLinkFailed linkId e) (\<lambda>_. returnM e)"

definition callbackPageFromPendingLink :: "pending_link \<Rightarrow> bool \<Rightarrow> string option \<Rightarrow> callback_page" where
  "callbackPageFromPendingLink l success e =
    \<lparr>qp_uiOrigin = pk_uiOrigin l, qp_linkId = Some (pk_linkId l), qp_provider = pk_provider l, qp_success = success,
     qp_error = Option.bind e nonempty\<rparr>"

definition bare_page :: "string \<Rightarrow> string option \<Rightarrow> string \<Rightarrow> callback_page" where
  "bare_page provider linkId e =
    \<lparr>qp_uiOrigin = None, qp_linkId = linkId, qp_provider = provider, qp_success = False, qp_error = nonempty e\<rparr>"

definition link_of_state :: "('c, 'x) oauth_env \<Rightarrow> link_state \<Rightarrow> string option" where
  "link_of_state env s = map_option (text_of env) (ls_linkId s)"

definition callbackPageFromState ::
    "('c, 'x) oauth_env \<Rightarrow> string \<Rightarrow> string option \<Rightarrow> string \<Rightarrow> ('c, 'x, callback_page) cred_comp" where
  "callbackPageFromState env provider state e =
    (case map_option (decodeOAuthLinkState env) (Option.bind state nonempty) of
       Some (Inr s) \<Rightarrow>
         (case link_of_state env s of
            None \<Rightarrow> returnM (bare_page provider None e)
          | Some i \<Rightarrow> bindM (cquery (get_link i)) (\<lambda>link. returnM (case link of
              None \<Rightarrow> bare_page provider (Some i) e
            | Some l \<Rightarrow> callbackPageFromPendingLink l False (Some e))))
     | _ \<Rightarrow> returnM (bare_page provider None e))"

definition failLatestLink ::
    "('c, 'x) oauth_env \<Rightarrow> string \<Rightarrow> string option \<Rightarrow> string \<Rightarrow> ('c, 'x, callback_page) cred_comp" where
  "failLatestLink env provider state message =
    (case map_option (decodeOAuthLinkState env) (Option.bind state nonempty) of
       Some (Inr s) \<Rightarrow>
         bindM (if ls_provider s = JStr provider then markLinkFailed (link_of_state env s) message else returnM ()) (\<lambda>_.
         callbackPageFromState env provider state message)
     | _ \<Rightarrow> returnM (bare_page provider None message \<lparr>qp_error := Some message\<rparr>))"

text \<open>The pending link and the code, or the error to show.\<close>

definition resolveCallbackContext ::
    "('c, 'x) oauth_env \<Rightarrow> string \<Rightarrow> oauth_callback_query \<Rightarrow> ('c, 'x, string + (string \<times> pending_link)) cred_comp" where
  "resolveCallbackContext env provider q =
    (case (Option.bind (cq_code q) nonempty, Option.bind (cq_state q) nonempty) of
       (Some code, Some state) \<Rightarrow>
         (case decodeOAuthLinkState env state of
            Inl e \<Rightarrow> returnM (Inl e)
          | Inr s \<Rightarrow>
              if ls_provider s \<noteq> JStr provider
              then bindM (callbackFailure (''OAuth callback provider \"'' @ text_of env (ls_provider s) @ ''\" does not match \"'' @
                     provider @ ''\"'') (link_of_state env s)) (\<lambda>e. returnM (Inl e))
              else (case link_of_state env s of
                  None \<Rightarrow> returnM (Inl ''OAuth callback has no matching pending link'')
                | Some i \<Rightarrow> bindM (cquery (get_link i)) (\<lambda>link. case link of
                    None \<Rightarrow> returnM (Inl ''OAuth callback has no matching pending link'')
                  | Some l \<Rightarrow>
                      if pk_status l \<noteq> LinkPending
                      then returnM (Inl (''OAuth link is already '' @
                        (if pk_status l = LinkCompleted then ''completed'' else ''failed'')))
                      else if ls_ownerId s \<noteq> JStr (pk_ownerId l)
                      then bindM (callbackFailure ''OAuth callback owner does not match pending link'' (Some (pk_linkId l)))
                        (\<lambda>e. returnM (Inl e))
                      else returnM (Inr (code, l)))))
     | _ \<Rightarrow> returnM (Inl ''OAuth callback missing code or state''))"

definition toStoredOAuthToken :: "sdk_tokens \<Rightarrow> string option \<Rightarrow> int \<Rightarrow> cred_exn + oauth_token" where
  "toStoredOAuthToken t previous now =
    (if xt_access_token t = [] then Inl (CredError ''OAuth token response did not include access_token'')
     else Inr \<lparr>ot_accessToken = xt_access_token t,
       ot_refreshToken = (case xt_refresh_token t of None \<Rightarrow> previous | r \<Rightarrow> r),
       ot_expiresAt = map_option (\<lambda>s. now + s * 1000) (xt_expires_in t)\<rparr>)"

definition exchange_code ::
    "('c, 'x) oauth_env \<Rightarrow> string \<Rightarrow> connector \<Rightarrow> string \<Rightarrow> pending_link \<Rightarrow> ('c, 'x, unit) cred_comp" where
  "exchange_code env provider c code l =
    bindM (resolveOAuthServer env c) (\<lambda>server.
    bindM (ensureClient env provider c server (pk_redirectUri l)) (\<lambda>client.
    bindM (on_ext (vo_exchange env \<lparr>xq_server = server, xq_client = client, xq_code = code,
      xq_codeVerifier = or_else (pk_codeVerifier l) [], xq_redirectUri = pk_redirectUri l\<rparr>)) (\<lambda>tokens.
    bindM (cnowM env) (\<lambda>t.
    bindM (liftC (toStoredOAuthToken tokens None t)) (\<lambda>token.
    bindM (cwrite (set_token (pk_ownerId l) provider token)) (\<lambda>_.
    cwrite (update_link (l\<lparr>pk_status := LinkCompleted\<rparr>))))))))"

definition exchangeAndStoreToken ::
    "('c, 'x) oauth_env \<Rightarrow> string \<Rightarrow> string \<Rightarrow> pending_link \<Rightarrow> ('c, 'x, callback_result) cred_comp" where
  "exchangeAndStoreToken env provider code l =
    bindM (resolveConnector env provider) (\<lambda>found. case found of
      None \<Rightarrow> bindM (callbackFailure (''Unknown OAuth provider \"'' @ provider @ ''\"'') (Some (pk_linkId l)))
        (\<lambda>e. returnM \<lparr>qr_success = False, qr_error = Some e, qr_page = None\<rparr>)
    | Some c \<Rightarrow>
        catchM
          (bindM (exchange_code env provider c code l) (\<lambda>_.
           returnM \<lparr>qr_success = True, qr_error = None, qr_page = Some (callbackPageFromPendingLink l True None)\<rparr>))
          (\<lambda>e. bindM (callbackFailure (cred_message e) (Some (pk_linkId l))) (\<lambda>m.
           returnM \<lparr>qr_success = False, qr_error = Some m, qr_page = Some (callbackPageFromPendingLink l False (Some m))\<rparr>)))"

definition completeCallback ::
    "('c, 'x) oauth_env \<Rightarrow> string \<Rightarrow> oauth_callback_query \<Rightarrow> ('c, 'x, callback_result) cred_comp" where
  "completeCallback env provider q =
    (case Option.bind (cq_error q) nonempty of
       Some err \<Rightarrow>
         (let e = or_else (cq_error_description q) err in
          bindM (failLatestLink env provider (cq_state q) e) (\<lambda>page.
          returnM \<lparr>qr_success = False, qr_error = Some e, qr_page = Some page\<rparr>))
     | None \<Rightarrow>
         bindM (resolveCallbackContext env provider q) (\<lambda>r. case r of
           Inl e \<Rightarrow> bindM (callbackPageFromState env provider (cq_state q) e) (\<lambda>page.
             returnM \<lparr>qr_success = False, qr_error = Some e, qr_page = Some page\<rparr>)
         | Inr (code, l) \<Rightarrow> exchangeAndStoreToken env provider code l))"

definition unlink :: "('c, 'x) oauth_env \<Rightarrow> string \<Rightarrow> string option \<Rightarrow> ('c, 'x, bool) cred_comp" where
  "unlink env provider owner =
    bindM (resolveConnector env provider) (\<lambda>found. case found of
      None \<Rightarrow> throwM (CredError (''Unknown OAuth provider \"'' @ provider @ ''\"''))
    | Some _ \<Rightarrow>
        bindM (liftC (resolveOAuthOwnerId owner)) (\<lambda>ownerId.
        bindM (cstmt (delete_token ownerId provider)) (\<lambda>removed.
        bindM (if removed then on_conns (evictOwnerConnections (ve_conn env) None ownerId (Some provider)) else returnM ()) (\<lambda>_.
        returnM removed))))"

section \<open>Tokens that are used\<close>

definition word_char :: "char \<Rightarrow> bool" where
  "word_char c \<longleftrightarrow> connector_char c \<and> c \<noteq> CHR ''-'' \<or> (65 \<le> (of_char c :: nat) \<and> (of_char c :: nat) \<le> 90)"

text \<open>\<open>/\bw\b/\<close>; the flag tells whether a word character comes before.\<close>

fun has_word :: "string \<Rightarrow> bool \<Rightarrow> string \<Rightarrow> bool" where
  "has_word w prev [] = False"
| "has_word w prev (c # cs) =
    ((\<not> prev \<and> starts_with w (c # cs) \<and> (case drop (length w) (c # cs) of [] \<Rightarrow> True | d # _ \<Rightarrow> \<not> word_char d)) \<or>
     has_word w (word_char c) cs)"

definition terminal_codes :: "string list" where
  "terminal_codes = [''invalid_grant'', ''invalid_client'', ''unauthorized_client'']"

definition terminal_text :: "string \<Rightarrow> bool" where
  "terminal_text s \<longleftrightarrow> list_ex (\<lambda>c. str_includes c s) terminal_codes \<or> has_word ''400'' False s \<or> has_word ''401'' False s"

definition isTerminalOAuthFailure :: "cred_exn \<Rightarrow> bool" where
  "isTerminalOAuthFailure e = (case e of
     SdkError code m \<Rightarrow> code \<in> set terminal_codes \<or> terminal_text (code @ '' '' @ m)
   | _ \<Rightarrow> terminal_text ('' '' @ cred_message e))"

definition isExpired :: "oauth_token \<Rightarrow> int \<Rightarrow> bool" where
  "isExpired t now \<longleftrightarrow> (case ot_expiresAt t of None \<Rightarrow> False | Some e \<Rightarrow> e \<le> now)"

definition refreshLockKey :: "string \<Rightarrow> string \<Rightarrow> string" where
  "refreshLockKey ownerId provider = ownerId @ '':'' @ provider"

text \<open>The client that refreshes: the connector's own, the one registered at the issuer, or the provider's.\<close>

definition refresh_client ::
    "('c, 'x) oauth_env \<Rightarrow> string \<Rightarrow> connector \<Rightarrow> string \<Rightarrow> ('c, 'x, client_information option) cred_comp" where
  "refresh_client env provider c issuer =
    (case own_client c of
       Some i \<Rightarrow> returnM (Some i)
     | None \<Rightarrow>
         bindM (cquery (get_registration issuer)) (\<lambda>row. case row of
           Some r \<Rightarrow> bindM (registered_secret env r) (\<lambda>secret.
             returnM (if rg_clientId r = [] then None else Some (clientInformationFrom (rg_clientId r) secret)))
         | None \<Rightarrow> bindM (cquery (get_client provider)) (\<lambda>legacy. returnM (case legacy of
             None \<Rightarrow> None
           | Some l \<Rightarrow> if ci_clientId l = [] then None else Some (clientInformationFrom (ci_clientId l) (ci_clientSecret l))))))"

definition refresh_at_server ::
    "('c, 'x) oauth_env \<Rightarrow> string \<Rightarrow> string \<Rightarrow> connector \<Rightarrow> string \<Rightarrow> ('c, 'x, oauth_token) cred_comp" where
  "refresh_at_server env ownerId provider c refreshToken =
    bindM (resolveOAuthServer env c) (\<lambda>server.
    bindM (refresh_client env provider c (os_issuer server)) (\<lambda>client. case client of
      None \<Rightarrow> throwM (RefreshError (''No OAuth client is registered for \"'' @ provider @ ''\"'') True)
    | Some i \<Rightarrow>
        bindM (on_ext (vo_refresh env \<lparr>fq_server = server, fq_client = i, fq_refreshToken = refreshToken\<rparr>)) (\<lambda>tokens.
        bindM (cnowM env) (\<lambda>t.
        bindM (liftC (toStoredOAuthToken tokens (Some refreshToken) t)) (\<lambda>token.
        bindM (cwrite (set_token ownerId provider token)) (\<lambda>_. returnM token))))))"

definition as_refresh_error :: "cred_exn \<Rightarrow> cred_exn" where
  "as_refresh_error e = (case e of RefreshError _ _ \<Rightarrow> e | _ \<Rightarrow> RefreshError (cred_message e) (isTerminalOAuthFailure e))"

definition performRefresh ::
    "('c, 'x) oauth_env \<Rightarrow> string \<Rightarrow> string \<Rightarrow> oauth_token \<Rightarrow> ('c, 'x, oauth_token) cred_comp" where
  "performRefresh env ownerId provider stale =
    bindM (find_provider provider) (\<lambda>found. case found of
      None \<Rightarrow> throwM (CredError (''user_oauth provider \"'' @ provider @ ''\" is not defined''))
    | Some c \<Rightarrow>
        (case Option.bind (ot_refreshToken stale) nonempty of
           None \<Rightarrow> throwM (RefreshError ''Cannot refresh OAuth token without refresh_token'' True)
         | Some rt \<Rightarrow> catchM (refresh_at_server env ownerId provider c rt) (\<lambda>e. throwM (as_refresh_error e))))"

definition refreshWithSingleFlight ::
    "('c, 'x) oauth_env \<Rightarrow> string \<Rightarrow> string \<Rightarrow> oauth_token \<Rightarrow> ('c, 'x, oauth_token) cred_comp" where
  "refreshWithSingleFlight env ownerId provider stale w =
    (case map_of (kw_inflight w) (refreshLockKey ownerId provider) of
       Some r \<Rightarrow> (r, w)
     | None \<Rightarrow> performRefresh env ownerId provider stale w)"

definition getValidToken :: "('c, 'x) oauth_env \<Rightarrow> string \<Rightarrow> string \<Rightarrow> ('c, 'x, oauth_token option) cred_comp" where
  "getValidToken env ownerId provider =
    bindM (cquery (get_token ownerId provider)) (\<lambda>token. case token of
      None \<Rightarrow> returnM None
    | Some t \<Rightarrow>
        bindM (cnowM env) (\<lambda>now.
        if \<not> isExpired t now then returnM (Some t)
        else if Option.bind (ot_refreshToken t) nonempty = None then returnM None
        else bindM (refreshWithSingleFlight env ownerId provider t) (\<lambda>t'. returnM (Some t'))))"

section \<open>Credentials of a call\<close>

record call_credentials =
  cd_headers :: "(string \<times> string) list"
  cd_ref :: string

definition deriveAuthorizeUrl :: "('c, 'x) oauth_env \<Rightarrow> string \<Rightarrow> cred_exn + string" where
  "deriveAuthorizeUrl env tokenUrl =
    (case parse_url env tokenUrl of
       Inl e \<Rightarrow> Inl e
     | Inr u \<Rightarrow> if \<not> has_ending ''/access_token'' (ju_pathname u)
         then Inl (CredError (''Cannot derive authorize URL from token_url: '' @ tokenUrl))
         else Inr (authorize_path u ''access_token''))"

text \<open>\<open>params.set\<close> of a key that is already there replaces it.\<close>

definition buildOAuthLinkUrl ::
    "('c, 'x) oauth_env \<Rightarrow> oauth_provider \<Rightarrow> string \<Rightarrow> string \<Rightarrow> string \<Rightarrow> cred_exn + string" where
  "buildOAuthLinkUrl env p providerName ownerId redirectUri =
    (case (case Option.bind (op_authorize_url p) nonempty of Some a \<Rightarrow> Inr a | None \<Rightarrow> deriveAuthorizeUrl env (op_token_url p)) of
       Inl e \<Rightarrow> Inl e
     | Inr authorizeUrl \<Rightarrow>
         (case Option.bind (op_client_id p) nonempty of
            None \<Rightarrow> Inl (CredError ''OAuth client_id is required to build an authorize URL'')
          | Some clientId \<Rightarrow> Inr (authorizeUrl @ ''?'' @ vo_query env (merged
              ([(''client_id'', clientId), (''response_type'', ''code''),
                (''state'', vo_encode env (json_stringify (JObj [(''ownerId'', JStr ownerId), (''provider'', JStr providerName)])))] @
               (if op_scopes p = [] then [] else [(''scope'', join '' '' (op_scopes p))]) @ [(''redirect_uri'', redirectUri)])
              (or_else (op_authorize_params p) [])))))"

definition configured_base :: "('c, 'x) oauth_env \<Rightarrow> string option" where
  "configured_base env = Option.bind (vo_gateway_url env) (\<lambda>s. map_option strip_slash (nonempty (trim s)))"

definition readRequestBaseUrl :: "headers \<Rightarrow> string" where
  "readRequestBaseUrl hs = or_else (readForwardedHeader (map_of hs ''x-forwarded-proto'')) ''http'' @ ''://'' @
     or_else (readForwardedHeader (map_of hs ''x-forwarded-host''))
       (or_else (case map_of hs ''host'' of Some (HOne h) \<Rightarrow> Some h | _ \<Rightarrow> None) ''127.0.0.1'')"

definition resolveGatewayBaseUrl :: "('c, 'x) oauth_env \<Rightarrow> headers option \<Rightarrow> string" where
  "resolveGatewayBaseUrl env request = (case configured_base env of
     Some b \<Rightarrow> b | None \<Rightarrow> (case request of Some hs \<Rightarrow> readRequestBaseUrl hs | None \<Rightarrow> vo_listen_url env))"

definition linkingRequiredError ::
    "('c, 'x) oauth_env \<Rightarrow> connector list \<Rightarrow> string \<Rightarrow> string \<Rightarrow> string \<Rightarrow> cred_exn" where
  "linkingRequiredError env cs provider ownerId backend =
    (let redirectUri = buildOAuthCallbackRedirectUri (resolveGatewayBaseUrl env None) provider in
     LinkingRequired provider ownerId backend
       (case map_of (oauthProvidersFromConnectors cs) provider of
          None \<Rightarrow> redirectUri
        | Some p \<Rightarrow>
            if Option.bind (op_client_id p) nonempty = None then redirectUri
            else (case buildOAuthLinkUrl env p provider ownerId redirectUri of Inl _ \<Rightarrow> redirectUri | Inr u \<Rightarrow> u)))"

text \<open>The owner is that of the agent principal of the call.\<close>

definition resolve_user_oauth ::
    "('c, 'x) oauth_env \<Rightarrow> string option \<Rightarrow> server_config \<Rightarrow> string \<Rightarrow> ('c, 'x, call_credentials) cred_comp" where
  "resolve_user_oauth env amb server provider =
    (case amb of
       None \<Rightarrow> throwM (NoCredentials ''no agent principal'')
     | Some ownerId \<Rightarrow>
         bindM (catchM (getValidToken env ownerId provider) (\<lambda>e. case e of
           RefreshError _ True \<Rightarrow> returnM None
         | _ \<Rightarrow> throwM e)) (\<lambda>token. case token of
           None \<Rightarrow> bindM registryM (\<lambda>cs. throwM (linkingRequiredError env cs provider ownerId (sc_name server)))
         | Some t \<Rightarrow> returnM \<lparr>cd_headers = [(''Authorization'', ''Bearer '' @ ot_accessToken t)], cd_ref = provider @ '':'' @ ownerId\<rparr>))"

definition resolve_credentials ::
    "('c, 'x) oauth_env \<Rightarrow> string option \<Rightarrow> server_config \<Rightarrow> ('c, 'x, call_credentials) cred_comp" where
  "resolve_credentials env amb server =
    (case sc_credential server of
       NoCredential \<Rightarrow> returnM \<lparr>cd_headers = [], cd_ref = ''none''\<rparr>
     | ServiceKey key h \<Rightarrow> returnM \<lparr>cd_headers = (case Option.bind h nonempty of
           Some name \<Rightarrow> [(name, key)] | None \<Rightarrow> [(''Authorization'', ''Bearer '' @ key)]), cd_ref = ''service_key:'' @ sc_name server\<rparr>
     | UserOauth provider \<Rightarrow> resolve_user_oauth env amb server provider)"

end
