(* ===== verification/OAuthApi.thy ===== *)
theory OAuthApi
  imports OAuthLinks
begin

text \<open>
  The routes of OAuth links and what they answer: \<^verbatim>\<open>apps/torii/src/credentials/oauth-api.controller.ts\<close>,
  \<^verbatim>\<open>oauth-connection-read.service.ts\<close>, \<^verbatim>\<open>utils/project-oauth-connections.ts\<close>,
  \<^verbatim>\<open>utils/oauth-callback-html.ts\<close>, and the reconciliation of grants with the operators file,
  \<^verbatim>\<open>reconcile-oauth-grants.ts\<close> and \<^verbatim>\<open>apply-operators-file.ts\<close>.
\<close>

section \<open>Connections of an owner\<close>

datatype oauth_status = StatusPending | StatusFailed | StatusNotLinked | StatusExpired | StatusLinked

definition deriveOAuthLinkStatus :: "oauth_token option \<Rightarrow> pending_link option \<Rightarrow> int \<Rightarrow> oauth_status \<times> string option" where
  "deriveOAuthLinkStatus token link now =
    (case link of
       Some l \<Rightarrow> if pk_status l = LinkPending then (StatusPending, None)
         else if pk_status l = LinkFailed then (StatusFailed, pk_error l)
         else (case token of None \<Rightarrow> (StatusNotLinked, None) | Some t \<Rightarrow>
           if isExpired t now \<and> Option.bind (ot_refreshToken t) nonempty = None then (StatusExpired, None) else (StatusLinked, None))
     | None \<Rightarrow> (case token of None \<Rightarrow> (StatusNotLinked, None) | Some t \<Rightarrow>
         if isExpired t now \<and> Option.bind (ot_refreshToken t) nonempty = None then (StatusExpired, None) else (StatusLinked, None)))"

record oauth_connection =
  ok_provider :: string
  ok_ownerId :: string
  ok_status :: oauth_status
  ok_scopes :: "string list"
  ok_expiresAt :: "int option"
  ok_error :: "string option"

definition projectOAuthConnectionStatus ::
    "string \<Rightarrow> string \<Rightarrow> string list \<Rightarrow> oauth_token option \<Rightarrow> pending_link option \<Rightarrow> int \<Rightarrow> oauth_connection" where
  "projectOAuthConnectionStatus ownerId provider scopes token link now =
    (case deriveOAuthLinkStatus token link now of (status, e) \<Rightarrow>
      \<lparr>ok_provider = provider, ok_ownerId = ownerId, ok_status = status, ok_scopes = scopes,
       ok_expiresAt = Option.bind token ot_expiresAt, ok_error = Option.bind e nonempty\<rparr>)"

definition project_provider ::
    "('c, 'x) oauth_env \<Rightarrow> string \<Rightarrow> (string \<times> oauth_token) list \<Rightarrow> string \<times> oauth_provider \<Rightarrow> ('c, 'x, oauth_connection) cred_comp" where
  "project_provider env ownerId grants entry =
    bindM (cquery (latest_link ownerId (fst entry))) (\<lambda>latest.
    bindM (cnowM env) (\<lambda>now.
    returnM (projectOAuthConnectionStatus ownerId (fst entry) (op_scopes (snd entry)) (map_of (rev grants) (fst entry))
      (case latest of Some l \<Rightarrow> if pk_status l = LinkCompleted then None else Some l | None \<Rightarrow> None) now)))"

fun project_providers ::
    "('c, 'x) oauth_env \<Rightarrow> string \<Rightarrow> (string \<times> oauth_token) list \<Rightarrow> (string \<times> oauth_provider) list \<Rightarrow>
     ('c, 'x, oauth_connection list) cred_comp" where
  "project_providers env ownerId grants [] = returnM []"
| "project_providers env ownerId grants (e # es) =
    bindM (project_provider env ownerId grants e) (\<lambda>c. bindM (project_providers env ownerId grants es) (\<lambda>cs. returnM (c # cs)))"

definition listOAuthConnections :: "('c, 'x) oauth_env \<Rightarrow> string option \<Rightarrow> ('c, 'x, oauth_connection list) cred_comp" where
  "listOAuthConnections env owner =
    bindM registryM (\<lambda>cs.
    bindM (liftC (resolveOAuthOwnerId owner)) (\<lambda>ownerId.
    bindM (cquery (list_tokens ownerId)) (\<lambda>grants.
    project_providers env ownerId grants (oauthProvidersFromConnectors cs))))"

section \<open>The page of the callback\<close>

definition html_char :: "char \<Rightarrow> string" where
  "html_char c = (if c = CHR ''&'' then ''&amp;'' else if c = CHR ''<'' then ''&lt;'' else if c = CHR ''>'' then ''&gt;''
     else if c = CHR 0x22 then ''&quot;'' else [c])"

definition escapeHtml :: "string \<Rightarrow> string" where
  "escapeHtml s = concat (map html_char s)"

definition notify_payload :: "callback_page \<Rightarrow> json" where
  "notify_payload p = JObj ([(''type'', JStr ''torii-oauth-link''), (''status'', JStr (if qp_success p then ''success'' else ''error'')),
     (''linkId'', case qp_linkId p of None \<Rightarrow> JNull | Some i \<Rightarrow> JStr i), (''provider'', JStr (qp_provider p))] @
     (case Option.bind (qp_error p) nonempty of None \<Rightarrow> [] | Some e \<Rightarrow> [(''error'', JStr e)]))"

definition newline :: string where "newline = [CHR 0x0A]"

definition buildCallbackNotifyScript :: "callback_page \<Rightarrow> string" where
  "buildCallbackNotifyScript p =
    (case Option.bind (qp_uiOrigin p) nonempty of
       None \<Rightarrow> []
     | Some origin \<Rightarrow> join newline
        [''<script>'', ''(function () {'', ''  var payload = '' @ json_stringify (notify_payload p) @ '';'', ''  if (window.opener) {'',
         ''    window.opener.postMessage(payload, '' @ json_string origin @ '');'', ''  }'',
         ''  window.setTimeout(function () { window.close(); }, 150);'', ''})();'', ''</script>''])"

definition callback_html :: "string \<Rightarrow> string \<Rightarrow> string" where
  "callback_html paragraph script = join newline
    [''<!DOCTYPE html>'', ''<html lang=\"en\">'', ''<head><meta charset=\"utf-8\"><title>Torii OAuth</title></head>'', ''<body>'',
     ''  <p>'' @ paragraph @ ''</p>'', ''  '' @ script, ''</body>'', ''</html>'']"

text \<open>The ellipsis of the page is written in ASCII.\<close>

definition oauthCallbackSuccessHtml :: "callback_page \<Rightarrow> string" where
  "oauthCallbackSuccessHtml p = callback_html ''Authorization complete. Returning to Torii...'' (buildCallbackNotifyScript p)"

definition oauthCallbackErrorHtml :: "string \<Rightarrow> callback_page \<Rightarrow> string" where
  "oauthCallbackErrorHtml message p = callback_html (''Authorization failed: '' @ escapeHtml message)
     (buildCallbackNotifyScript (p\<lparr>qp_success := False, qp_error := Some message\<rparr>))"

section \<open>Routes\<close>

datatype oauth_answer =
    OAuthError string
  | InitiatedBody initiated
  | GrantsDeleted string nat nat
  | ConnectionsBody "oauth_connection list"
  | NoBody
  | HtmlBody string

type_synonym oauth_reply = "nat \<times> oauth_answer"

definition readOwnerQuery :: "(string \<times> string) list \<Rightarrow> string option" where
  "readOwnerQuery query = Option.bind (map_of query ''owner'') (nonempty \<circ> trim)"

definition readUiOrigin :: "headers \<Rightarrow> string option" where
  "readUiOrigin hs = (case map_of hs ''x-torii-ui-origin'' of Some (HOne s) \<Rightarrow> nonempty (trim s) | _ \<Rightarrow> None)"

definition or_bad_request :: "('c, 'x, oauth_reply) cred_comp \<Rightarrow> ('c, 'x, oauth_reply) cred_comp" where
  "or_bad_request m = catchM m (\<lambda>e. returnM (400, OAuthError (cred_message e)))"

definition initiate_route ::
    "('c, 'x) oauth_env \<Rightarrow> string \<Rightarrow> (string \<times> string) list \<Rightarrow> headers \<Rightarrow> ('c, 'x, oauth_reply) cred_comp" where
  "initiate_route env provider query hs =
    or_bad_request (bindM (initiate env provider (resolveGatewayBaseUrl env (Some hs)) (readOwnerQuery query) (readUiOrigin hs))
      (\<lambda>r. returnM (200, InitiatedBody r)))"

definition delete_grants_route :: "('c, 'x) oauth_env \<Rightarrow> string \<Rightarrow> ('c, 'x, oauth_reply) cred_comp" where
  "delete_grants_route env param =
    (case nonempty (trim param) of
       None \<Rightarrow> returnM (400, OAuthError ''ownerId is required'')
     | Some ownerId \<Rightarrow>
         bindM (cstmt (delete_tokens_of ownerId)) (\<lambda>n.
         bindM (cstmt (delete_links_of ownerId)) (\<lambda>k.
         bindM (on_conns (evictOwnerConnections (ve_conn env) None ownerId None)) (\<lambda>_.
         returnM (200, GrantsDeleted ownerId n k)))))"

definition list_connections_route :: "('c, 'x) oauth_env \<Rightarrow> (string \<times> string) list \<Rightarrow> ('c, 'x, oauth_reply) cred_comp" where
  "list_connections_route env query =
    or_bad_request (bindM (listOAuthConnections env (readOwnerQuery query)) (\<lambda>cs. returnM (200, ConnectionsBody cs)))"

definition unlink_route :: "('c, 'x) oauth_env \<Rightarrow> string \<Rightarrow> (string \<times> string) list \<Rightarrow> ('c, 'x, oauth_reply) cred_comp" where
  "unlink_route env provider query =
    or_bad_request (bindM (unlink env provider (readOwnerQuery query)) (\<lambda>removed.
      returnM (if removed then (204, NoBody) else (404, OAuthError ''No OAuth grant found for provider''))))"

definition callback_query_of :: "(string \<times> string) list \<Rightarrow> oauth_callback_query" where
  "callback_query_of query = \<lparr>cq_code = map_of query ''code'', cq_state = map_of query ''state'', cq_error = map_of query ''error'',
     cq_error_description = map_of query ''error_description''\<rparr>"

definition handleCallback :: "('c, 'x) oauth_env \<Rightarrow> string \<Rightarrow> (string \<times> string) list \<Rightarrow> ('c, 'x, oauth_reply) cred_comp" where
  "handleCallback env provider query =
    bindM (completeCallback env provider (callback_query_of query)) (\<lambda>r.
    returnM (if qr_success r
      then (200, HtmlBody (oauthCallbackSuccessHtml (or_else (qr_page r)
        \<lparr>qp_uiOrigin = None, qp_linkId = None, qp_provider = provider, qp_success = True, qp_error = None\<rparr>)))
      else (let e = or_else (qr_error r) ''Authorization failed'' in
        (400, HtmlBody (oauthCallbackErrorHtml e (or_else (qr_page r)
          \<lparr>qp_uiOrigin = None, qp_linkId = None, qp_provider = provider, qp_success = False, qp_error = Some e\<rparr>))))))"

section \<open>Reconciliation with the operators file\<close>

record reconciled_grants =
  rd_tokensDeleted :: nat
  rd_pendingLinksDeleted :: nat
  rd_wipedOwnerIds :: "string list"

fun wipe_owners :: "string list \<Rightarrow> nat \<Rightarrow> nat \<Rightarrow> ('c, 'x, nat \<times> nat) cred_comp" where
  "wipe_owners [] n k = returnM (n, k)"
| "wipe_owners (o' # os) n k =
    bindM (cstmt (delete_tokens_of o')) (\<lambda>a. bindM (cstmt (delete_links_of o')) (\<lambda>b. wipe_owners os (n + a) (k + b)))"

text \<open>\<open>sort()\<close> compares code units; on the identifiers of owners that is the order of bytes.\<close>

fun byte_le :: "string \<Rightarrow> string \<Rightarrow> bool" where
  "byte_le [] b = True"
| "byte_le (c # cs) [] = False"
| "byte_le (c # cs) (d # ds) = ((of_char c :: nat) < of_char d \<or> c = d \<and> byte_le cs ds)"

definition reconcileOAuthGrants :: "string list \<Rightarrow> ('c, 'x, reconciled_grants) cred_comp" where
  "reconcileOAuthGrants desired =
    bindM (cquery token_owners) (\<lambda>ts.
    bindM (cquery link_owners) (\<lambda>ls.
    (let stale = filter (\<lambda>o'. o' \<notin> set desired) (remdups (ts @ ls)) in
     bindM (wipe_owners stale 0 0) (\<lambda>(n, k).
     returnM \<lparr>rd_tokensDeleted = n, rd_pendingLinksDeleted = k, rd_wipedOwnerIds = sort_by byte_le stale\<rparr>))))"

text \<open>\<open>strict\<close>: the mode; \<open>file\<close>: the identifiers listed in the file, when a path is set.\<close>

definition apply_operators_to_grants :: "bool \<Rightarrow> string list option \<Rightarrow> ('c, 'x, reconciled_grants option) cred_comp" where
  "apply_operators_to_grants strict file =
    (case file of
       None \<Rightarrow> returnM None
     | Some ids \<Rightarrow>
         if strict then bindM (reconcileOAuthGrants ids) (\<lambda>r. returnM (Some r))
         else returnM (Some \<lparr>rd_tokensDeleted = 0, rd_pendingLinksDeleted = 0, rd_wipedOwnerIds = []\<rparr>))"

end
