(* ===== verification/ConnectionSafety.thy ===== *)
theory ConnectionSafety
  imports Connections
begin

text \<open>
  What the connection manager guarantees: clients of user connections are never shared between
  owners, whatever the handshakes return and whatever runs during the awaits, and an eviction
  leaves nothing of an owner behind.
\<close>

section \<open>The invariant\<close>

definition base_ok :: "'c connection \<Rightarrow> bool" where
  "base_ok c \<longleftrightarrow> (is_user_oauth (cn_config c) \<longrightarrow> cn_client c = None)"

definition user_ok :: "(string option \<Rightarrow> 'c \<Rightarrow> bool) \<Rightarrow> string \<Rightarrow> 'c connection \<Rightarrow> bool" where
  "user_ok issued o' c \<longleftrightarrow> is_user_oauth (cn_config c) \<and> (\<forall>k. cn_client c = Some k \<longrightarrow> issued (Some o') k)"

fun write_ok :: "(string option \<Rightarrow> 'c \<Rightarrow> bool) \<Rightarrow> 'c conn_write \<Rightarrow> bool" where
  "write_ok issued (PutBase n c) = base_ok c"
| "write_ok issued (PutUser n o' c) = user_ok issued o' c"
| "write_ok issued _ = True"

definition conns_ok :: "(string option \<Rightarrow> 'c \<Rightarrow> bool) \<Rightarrow> ('c, 'x) conn_world \<Rightarrow> bool" where
  "conns_ok issued w \<longleftrightarrow> (\<forall>c \<in> snd ` set (cm_base w). base_ok c) \<and>
     (\<forall>m \<in> snd ` set (cm_users w). \<forall>p \<in> set m. user_ok issued (fst p) (snd p)) \<and>
     (\<forall>ws \<in> set (cm_others w). \<forall>x \<in> set ws. write_ok issued x)"

text \<open>A handshake under an owner yields a client issued to that owner.\<close>

definition connect_issues :: "('c, 'x) conn_env \<Rightarrow> (string option \<Rightarrow> 'c \<Rightarrow> bool) \<Rightarrow> bool" where
  "connect_issues env issued \<longleftrightarrow> (\<forall>s o' x c. fst (me_connect env s o' x) = Inr c \<longrightarrow> issued o' c)"

definition conn_keeps :: "(string option \<Rightarrow> 'c \<Rightarrow> bool) \<Rightarrow> ('c, 'x, 'a) conn_comp \<Rightarrow> bool" where
  "conn_keeps issued m \<longleftrightarrow> (\<forall>w. conns_ok issued w \<longrightarrow> conns_ok issued (snd (m w)))"

named_theorems conn_intros "computations that keep the connections apart"

lemma conn_keepsI: "(\<And>w. conns_ok issued w \<Longrightarrow> conns_ok issued (snd (m w))) \<Longrightarrow> conn_keeps issued m"
  by (simp add: conn_keeps_def)

lemma conn_keepsD: "conn_keeps issued m \<Longrightarrow> conns_ok issued w \<Longrightarrow> conns_ok issued (snd (m w))"
  by (simp add: conn_keeps_def)

lemma keeps_return [conn_intros]: "conn_keeps issued (returnM x)" "conn_keeps issued (throwM e)"
  by (simp_all add: conn_keeps_def returnM_def throwM_def)

lemma keeps_bind [conn_intros]:
  assumes "conn_keeps issued m" "\<And>x. conn_keeps issued (k x)"
  shows "conn_keeps issued (bindM m k)"
proof (rule conn_keepsI)
  fix w :: "('a, 'b) conn_world" assume w: "conns_ok issued w"
  show "conns_ok issued (snd (bindM m k w))"
    using conn_keepsD [OF assms(1) w] conn_keepsD [OF assms(2)] by (auto simp: bindM_def split: prod.split sum.split)
qed

text \<open>A computation that looks at the state first; it may assume that the connections are apart.\<close>

lemma keeps_at: "(\<And>w. conns_ok issued w \<Longrightarrow> conn_keeps issued (f w)) \<Longrightarrow> conn_keeps issued (\<lambda>w. f w w)"
  by (simp add: conn_keeps_def)

lemma keeps_run_all:
  assumes "\<And>m. m \<in> set ms \<Longrightarrow> conn_keeps issued m"
  shows "conn_keeps issued (run_all ms)"
  using assms
proof (induction ms)
  case Nil
  then show ?case by (simp add: conn_intros)
next
  case (Cons m ms)
  show ?case
  proof (rule conn_keepsI)
    fix w :: "('a, 'b) conn_world" assume w: "conns_ok issued w"
    have "conns_ok issued (snd (m w))" using Cons.prems w by (simp add: conn_keeps_def)
    moreover have "conn_keeps issued (run_all ms)" using Cons by simp
    ultimately show "conns_ok issued (snd (run_all (m # ms) w))" by (auto simp: conn_keeps_def split: prod.split sum.split)
  qed
qed

lemma keeps_run_seq: "(\<And>m. m \<in> set ms \<Longrightarrow> conn_keeps issued m) \<Longrightarrow> conn_keeps issued (run_seq ms)"
  by (induction ms) (simp_all add: conn_intros)

section \<open>The writes keep it\<close>

lemma map_put_members: "p \<in> set (map_put k v m) \<Longrightarrow> p = (k, v) \<or> p \<in> set m"
  by (induction k v m rule: map_put.induct) (auto split: if_splits)

lemma owner_map_member: "p \<in> set (owner_map n w) \<Longrightarrow> \<exists>m \<in> snd ` set (cm_users w). p \<in> set m"
  by (cases "map_of (cm_users w) n") (force simp: owner_map_def dest: map_of_SomeD)+

lemma write_keeps: "conns_ok issued w \<Longrightarrow> write_ok issued x \<Longrightarrow> conns_ok issued (apply_write x w)"
proof (induction x w rule: apply_write.induct)
  case (1 n c w)
  then show ?case by (auto simp: conns_ok_def dest!: map_put_members)
next
  case (2 n w)
  then show ?case by (auto simp: conns_ok_def drop_key_def)
next
  case (3 n o' c w)
  then have "\<forall>p \<in> set (map_put o' c (owner_map n w)). user_ok issued (fst p) (snd p)"
    by (auto simp: conns_ok_def dest!: map_put_members owner_map_member)
  with 3 show ?case by (auto simp: conns_ok_def dest!: map_put_members)
next
  case (4 n o' w)
  then have "\<forall>p \<in> set (drop_key o' (owner_map n w)). user_ok issued (fst p) (snd p)"
    by (force simp: conns_ok_def drop_key_def dest!: owner_map_member)
  with 4 show ?case by (force simp: conns_ok_def dest!: map_put_members)
next
  case (5 n w)
  then show ?case by (force simp: conns_ok_def drop_key_def)
next
  case (6 cs w)
  then show ?case by (simp add: conns_ok_def)
qed

lemma writes_keep: "conns_ok issued w \<Longrightarrow> \<forall>x \<in> set xs. write_ok issued x \<Longrightarrow> conns_ok issued (run_ops apply_write xs w)"
  by (induction xs arbitrary: w) (simp_all add: write_keeps)

lemma others_unchanged [simp]: "cm_others (apply_write x w) = cm_others w"
  by (induction x w rule: apply_write.induct) simp_all

lemma run_others_unchanged [simp]: "cm_others (run_ops apply_write xs w) = cm_others w"
  by (induction xs arbitrary: w) simp_all

lemma keeps_await [conn_intros]: "conn_keeps issued awaitM"
proof (rule conn_keepsI)
  fix w :: "('a, 'b) conn_world" assume w: "conns_ok issued w"
  have "conns_ok issued (run_ops apply_write (case cm_others w of [] \<Rightarrow> [] | xs # _ \<Rightarrow> xs) w)"
    by (rule writes_keep [OF w]) (use w in \<open>cases "cm_others w"; simp add: conns_ok_def\<close>)
  then show "conns_ok issued (snd (awaitM w))"
    by (auto simp: awaitM_def conns_ok_def dest: list.set_sel(2) [rotated]) (metis list.sel(2) list.set_sel(2))
qed

lemma keeps_write [conn_intros]: "write_ok issued x \<Longrightarrow> conn_keeps issued (writeM x)"
  by (simp add: conn_keeps_def writeM_def modifyM_def write_keeps)

lemma keeps_emit [conn_intros]: "conn_keeps issued (emitM c o')"
  by (simp add: conn_keeps_def emitM_def modifyM_def conns_ok_def)

lemma keeps_set [conn_intros]:
  "base_ok c \<Longrightarrow> conn_keeps issued (setConnection n c)"
  "user_ok issued o' c \<Longrightarrow> conn_keeps issued (setUserConnection n o' c)"
  by (auto simp: setConnection_def setUserConnection_def intro!: conn_intros)

lemma connection_ok [simp]:
  "base_ok (connecting s)" "base_ok (conn_failed s e)" "base_ok (connected s None)"
  "\<not> is_user_oauth s \<Longrightarrow> base_ok (connected s (Some k))"
  "user_ok issued o' (connecting s) = is_user_oauth s" "user_ok issued o' (conn_failed s e) = is_user_oauth s"
  "user_ok issued o' (connected s (Some k)) = (is_user_oauth s \<and> issued (Some o') k)"
  by (auto simp: base_ok_def user_ok_def connecting_def conn_failed_def connected_def)

lemma keeps_baseline [conn_intros]: "conn_keeps issued (ensureUnscopedBaseline s)"
  unfolding ensureUnscopedBaseline_def
  by (rule conn_keepsI) (simp add: conn_keepsD [OF keeps_write])

lemma keeps_ext [conn_intros]: "conn_keeps issued (\<lambda>w. case f (cm_ext w) of (r, x) \<Rightarrow> (Inr r, w\<lparr>cm_ext := x\<rparr>))"
  by (auto simp: conn_keeps_def conns_ok_def split: prod.split)

lemma keeps_close [conn_intros]: "conn_keeps issued (closeM env c)" "conn_keeps issued (closeOrThrow env e)"
  "conn_keeps issued (closeEach env cs)"
proof -
  show c: "conn_keeps issued (closeM env c)" for c
    unfolding closeM_def by (intro conn_intros)
  show "conn_keeps issued (closeOrThrow env e)"
    unfolding closeOrThrow_def by (auto intro!: conn_intros c split: option.split)
  show "conn_keeps issued (closeEach env cs)"
    by (induction cs) (auto intro!: conn_intros c)
qed

lemma keeps_close_at [conn_intros]: "conn_keeps issued (\<lambda>w. closeOrThrow env (e w) w)"
  by (rule conn_keepsI) (rule conn_keepsD [OF keeps_close(2)])

section \<open>The operations keep it\<close>

lemma keeps_connected:
  assumes "connect_issues env issued" "\<And>c. issued o' c \<Longrightarrow> conn_keeps issued (k (Inr c))" "\<And>e. conn_keeps issued (k (Inl e))"
  shows "conn_keeps issued (bindM (connectM env s o') k)"
proof (rule conn_keepsI)
  fix w :: "('a, 'b) conn_world" assume w: "conns_ok issued w"
  obtain r x where r: "me_connect env s o' (cm_ext w) = (r, x)" by (cases "me_connect env s o' (cm_ext w)")
  have k: "conn_keeps issued (k r)"
    using assms r by (cases r) (auto simp: connect_issues_def, metis fst_conv)
  have a: "conns_ok issued (snd (awaitM (w\<lparr>cm_ext := x\<rparr>)))"
    by (rule conn_keepsD [OF keeps_await]) (use w in \<open>simp add: conns_ok_def\<close>)
  show "conns_ok issued (snd (bindM (connectM env s o') k w))"
    using conn_keepsD [OF k a] by (simp add: connectM_def bindM_def r awaitM_def returnM_def)
qed

lemma keeps_connectServer [conn_intros]:
  assumes "connect_issues env issued"
  shows "conn_keeps issued (connectServer env amb s owner)"
  unfolding connectServer_def Let_def
  by (rule keeps_connected [OF assms]) (cases owner; auto intro!: conn_intros split: if_splits)+

lemma keeps_announce [conn_intros]: "conn_keeps issued (announce amb s)"
  unfolding announce_def by (auto intro!: conn_intros split: option.split)

lemma keeps_connectAll:
  assumes "connect_issues env issued"
  shows "conn_keeps issued (connectAll env amb)"
  unfolding connectAll_def Let_def
  by (rule keeps_at) (auto intro!: keeps_bind keeps_run_all keeps_announce keeps_connectServer assms)

lemma keeps_reconnect [conn_intros]:
  assumes "connect_issues env issued"
  shows "conn_keeps issued (reconnect env amb name owner)"
proof (rule conn_keepsI)
  fix w :: "('a, 'b) conn_world" assume w: "conns_ok issued w"
  have u: "conn_keeps issued (bindM (ensureUnscopedBaseline s) (\<lambda>_.
      bindM (\<lambda>w. closeOrThrow env (map_of (owner_map name w) o') w) (\<lambda>_.
      bindM (setUserConnection name o' (connecting s)) (\<lambda>_. connectServer env amb s (Some o')))))" if "is_user_oauth s" for s o'
    using that by (intro keeps_bind keeps_baseline keeps_connectServer [OF assms] keeps_set keeps_close_at) simp
  have b: "conn_keeps issued (bindM (\<lambda>w. closeOrThrow env (map_of (cm_base w) name) w) (\<lambda>_.
      bindM (setConnection name (connecting s)) (\<lambda>_. connectServer env amb s None)))" for s
    by (intro keeps_bind keeps_connectServer [OF assms] keeps_set keeps_close_at) simp
  show "conns_ok issued (snd (reconnect env amb name owner w))"
  proof (cases "getServer name (cm_registry w)")
    case None
    then show ?thesis using w by (simp add: reconnect_def)
  next
    case (Some s)
    show ?thesis
    proof (cases "if is_user_oauth s then (case owner of None \<Rightarrow> amb | _ \<Rightarrow> owner) else None")
      case None
      then show ?thesis using conn_keepsD [OF b w, of s] Some by (simp add: reconnect_def)
    next
      case (Some o')
      then have "is_user_oauth s" by (simp split: if_splits)
      then show ?thesis using conn_keepsD [OF u w, of s o'] Some \<open>getServer name (cm_registry w) = Some s\<close>
        by (simp add: reconnect_def)
    qed
  qed
qed

lemma keeps_ensureConnected [conn_intros]:
  assumes "connect_issues env issued"
  shows "conn_keeps issued (ensureConnected env amb name owner)"
proof -
  have "conn_keeps issued (bindM (reconnect env amb name o') (\<lambda>_ w. case get_connection amb name o' w of
      Some c \<Rightarrow> (Inr c, w) | None \<Rightarrow> (Inl e, w)))" for o' e
    by (intro keeps_bind keeps_reconnect [OF assms]) (auto simp: conn_keeps_def split: option.split)
  then show ?thesis
    unfolding ensureConnected_def Let_def conn_keeps_def by (auto split: option.split)
qed

lemma keeps_ensureUser:
  assumes "connect_issues env issued"
  shows "conn_keeps issued (ensureUserOAuthConnected env amb owner)"
  unfolding ensureUserOAuthConnected_def Let_def
  by (rule keeps_at) (auto intro!: keeps_run_all keeps_bind keeps_ensureConnected keeps_return assms)

lemma keeps_notify [conn_intros]: "conn_keeps issued (notify_fallback amb name o')"
  unfolding notify_fallback_def by (rule conn_keepsI) (auto intro: conn_keepsD keeps_emit split: option.split)

lemma keeps_evict: "conn_keeps issued (evictOwnerConnections env amb o' provider)"
proof -
  have e: "conn_keeps issued (evict_server env amb o' provider name)" for name
  proof (rule conn_keepsI)
    fix w :: "('a, 'b) conn_world" assume w: "conns_ok issued w"
    have k: "conn_keeps issued (bindM (writeM (DelUser name o')) (\<lambda>_.
        bindM (case cl of None \<Rightarrow> returnM None | Some c \<Rightarrow> closeM env c) (\<lambda>_. notify_fallback amb name o')))" for cl
      by (intro keeps_bind keeps_write keeps_notify) (auto intro: conn_intros split: option.split)
    show "conns_ok issued (snd (evict_server env amb o' provider name w))"
      unfolding evict_server_def
      by (cases "map_of (owner_map name w) o'") (simp_all add: w conn_keepsD [OF k w, simplified])
  qed
  show ?thesis
    unfolding evictOwnerConnections_def by (rule keeps_at) (auto intro!: keeps_run_all e)
qed

lemma keeps_closeServer [conn_intros]: "conn_keeps issued (closeAllUserConnectionsForServer env name)"
proof (rule conn_keepsI)
  fix w :: "('a, 'b) conn_world" assume w: "conns_ok issued w"
  have "conn_keeps issued (bindM (closeEach env cs) (\<lambda>_. writeM (DelServer name)))" for cs
    by (intro keeps_bind keeps_close keeps_write) simp
  then show "conns_ok issued (snd (closeAllUserConnectionsForServer env name w))"
    unfolding closeAllUserConnectionsForServer_def using w by (auto dest: conn_keepsD)
qed

lemma keeps_remove: "conn_keeps issued (remove_backend env name)"
  unfolding remove_backend_def by (rule keeps_at) (intro keeps_bind keeps_close keeps_write keeps_closeServer, simp)

lemma keeps_adjust:
  assumes "connect_issues env issued"
  shows "conn_keeps issued (adjust_backend env amb s)"
proof (rule conn_keepsI)
  fix w :: "('a, 'b) conn_world" assume w: "conns_ok issued w"
  have "conn_keeps issued (bindM (setConnection (sc_name s) (connecting s)) (\<lambda>_. connectServer env amb s None))"
    "conn_keeps issued (bindM (closeAllUserConnectionsForServer env (sc_name s)) (\<lambda>_. reconnect env amb (sc_name s) None))"
    by (intro keeps_bind keeps_set keeps_connectServer [OF assms] keeps_closeServer keeps_reconnect [OF assms]; simp)+
  then show "conns_ok issued (snd (adjust_backend env amb s w))"
    unfolding adjust_backend_def using w by (auto dest: conn_keepsD split: option.split)
qed

lemma keeps_reconcile:
  assumes "connect_issues env issued"
  shows "conn_keeps issued (reconcile env amb)"
  unfolding reconcile_def Let_def
  by (rule keeps_at) (auto intro!: keeps_bind keeps_run_seq keeps_remove keeps_adjust assms)

lemma keeps_closeAll: "conn_keeps issued (closeAll env)"
proof (rule conn_keepsI)
  fix w :: "('a, 'b) conn_world" assume w: "conns_ok issued w"
  then have "conns_ok issued (w\<lparr>cm_users := map (\<lambda>(n, _). (n, [])) (cm_users w)\<rparr>)"
    by (auto simp: conns_ok_def)
  then show "conns_ok issued (snd (closeAll env w))"
    unfolding closeAll_def Let_def by (rule conn_keepsD [OF keeps_close(3)])
qed

section \<open>Any history\<close>

text \<open>\<open>amb\<close> of an operation: the owner of the principal it runs for.\<close>

datatype conn_op =
    ConnectAll "string option"
  | Reconnect "string option" string "string option"
  | ReconnectAll "string option" "string option"
  | Reconcile "string option"
  | EnsureConnected "string option" string "string option"
  | EnsureUserConnected "string option" "string option"
  | EvictOwner "string option" string "string option"
  | CloseAll
  | ReplaceRegistry "connector list"

fun run_conn :: "('c, 'x) conn_env \<Rightarrow> conn_op \<Rightarrow> ('c, 'x) conn_world \<Rightarrow> ('c, 'x) conn_world" where
  "run_conn env (ConnectAll amb) w = snd (connectAll env amb w)"
| "run_conn env (Reconnect amb n o') w = snd (reconnect env amb n o' w)"
| "run_conn env (ReconnectAll amb o') w = snd (reconnectAll env amb o' w)"
| "run_conn env (Reconcile amb) w = snd (reconcile env amb w)"
| "run_conn env (EnsureConnected amb n o') w = snd (ensureConnected env amb n o' w)"
| "run_conn env (EnsureUserConnected amb o') w = snd (ensureUserOAuthConnected env amb o' w)"
| "run_conn env (EvictOwner amb o' p) w = snd (evictOwnerConnections env amb o' p w)"
| "run_conn env CloseAll w = snd (closeAll env w)"
| "run_conn env (ReplaceRegistry cs) w = w\<lparr>cm_registry := cs\<rparr>"

lemma run_conn_keeps:
  assumes "connect_issues env issued" "conns_ok issued w"
  shows "conns_ok issued (run_conn env x w)"
proof -
  have "conn_keeps issued (reconnectAll env amb o')" for amb o'
    unfolding reconnectAll_def by (rule keeps_at) (auto intro!: keeps_run_all keeps_reconnect assms(1))
  note k = this keeps_connectAll [OF assms(1)] keeps_reconnect [OF assms(1)] keeps_reconcile [OF assms(1)]
    keeps_ensureConnected [OF assms(1)] keeps_ensureUser [OF assms(1)] keeps_evict keeps_closeAll
  show ?thesis
    using assms(2) by (cases x) (simp_all add: k [THEN conn_keepsD], simp add: conns_ok_def)
qed

lemma run_conns_keep:
  "connect_issues env issued \<Longrightarrow> conns_ok issued w \<Longrightarrow> conns_ok issued (run_ops (run_conn env) xs w)"
  by (induction xs arbitrary: w) (simp_all add: run_conn_keeps)

definition conn_start :: "connector list \<Rightarrow> 'c conn_write list list \<Rightarrow> 'x \<Rightarrow> ('c, 'x) conn_world" where
  "conn_start cs others x =
    \<lparr>cm_registry = cs, cm_base = [], cm_users = [], cm_events = [], cm_others = others, cm_ext = x\<rparr>"

text \<open>
  C30. Whatever the handshakes return and whatever other operations write during the awaits, a client
  handed out for a backend with user credentials is one whose handshake ran for the owner that the
  caller names, or that the caller's principal has when none is named.
\<close>
theorem user_connections_stay_apart:
  assumes "connect_issues env issued" "\<forall>ws \<in> set others. list_all (write_ok issued) ws"
    and "get_connection amb name owner (run_ops (run_conn env) xs (conn_start cs others x)) = Some c"
    and "is_user_oauth (cn_config c)" "cn_client c = Some k"
  shows "\<exists>o'. (case owner of None \<Rightarrow> amb | Some i \<Rightarrow> Some i) = Some o' \<and> issued (Some o') k"
proof -
  let ?w = "run_ops (run_conn env) xs (conn_start cs others x)"
  have "conns_ok issued (conn_start cs others x)"
    using assms(2) by (auto simp: conns_ok_def conn_start_def list_all_iff)
  then have w: "conns_ok issued ?w" by (rule run_conns_keep [OF assms(1)])
  have base: "base_ok b" if "map_of (cm_base ?w) name = Some b" for b
    using w map_of_SomeD [OF that] by (force simp: conns_ok_def)
  have user: "user_ok issued i u" if "map_of (owner_map name ?w) i = Some u" for i u
    using w owner_map_member [OF map_of_SomeD [OF that]] by (force simp: conns_ok_def)
  show ?thesis
    using assms(3-5) base user
    by (auto simp: get_connection_def Let_def base_ok_def user_ok_def conn_failed_def split: option.splits if_splits)
qed

text \<open>Handshakes that give a client labelled with the owner, and connectors of two kinds.\<close>

definition labelled_env :: "(string, unit) conn_env" where
  "labelled_env = \<lparr>me_connect = \<lambda>s o' x. (case o' of None \<Rightarrow> (Inr ''public'', x) | Some i \<Rightarrow> (Inr i, x)), me_close = \<lambda>c x. (None, x)\<rparr>"

definition labelled :: "string option \<Rightarrow> string \<Rightarrow> bool" where
  "labelled o' k \<longleftrightarrow> k = or_else o' ''public''"

definition example_connector :: "string \<Rightarrow> auth_mode \<Rightarrow> connector" where
  "example_connector slug mode =
    \<lparr>kn_slug = slug, kn_displayName = slug, kn_url = ''https://'' @ slug, kn_authMode = mode, kn_enabled = True, kn_catalogId = None,
     kn_catalogVersion = None, kn_icon = None, kn_serviceKeyRef = None, kn_serviceKeyHeader = None, kn_resolvedServiceKey = None,
     kn_oauth = None, kn_createdAt = 0, kn_updatedAt = 0\<rparr>"

definition busy_start :: "(string, unit) conn_world" where
  "busy_start = conn_start [example_connector ''mail'' AuthUserOauth, example_connector ''docs'' AuthNone]
     [[PutUser ''mail'' ''bob'' (connected (toServerConfig (example_connector ''mail'' AuthUserOauth)) (Some ''bob''))]] ()"

definition busy_history :: "conn_op list" where
  "busy_history = [ConnectAll None, EnsureConnected (Some ''ann'') ''mail'' None, EnsureConnected (Some ''bob'') ''mail'' None]"

theorem user_connections_stay_apart_witness:
  "map_option cn_client (get_connection (Some ''ann'') ''mail'' None (run_ops (run_conn labelled_env) busy_history busy_start)) =
     Some (Some ''ann'') \<and>
   map_option cn_client (get_connection None ''mail'' (Some ''bob'') (run_ops (run_conn labelled_env) busy_history busy_start)) =
     Some (Some ''bob'')"
proof -
  have e: "connect_issues labelled_env labelled"
    by (auto simp: connect_issues_def labelled_env_def labelled_def split: option.splits)
  have b: "\<forall>ws \<in> set [[PutUser ''mail'' ''bob'' (connected (toServerConfig (example_connector ''mail'' AuthUserOauth)) (Some ''bob''))]].
      list_all (write_ok labelled) ws"
    by (simp add: is_user_oauth_def toServerConfig_def toCredentialConfig_def example_connector_def labelled_def)
  let ?g = "\<lambda>amb o'. get_connection amb ''mail'' o' (run_ops (run_conn labelled_env) busy_history busy_start)"
  have live: "case ?g (Some ''ann'') None of None \<Rightarrow> False | Some c \<Rightarrow> is_user_oauth (cn_config c) \<and> cn_client c \<noteq> None"
    "case ?g None (Some ''bob'') of None \<Rightarrow> False | Some c \<Rightarrow> is_user_oauth (cn_config c) \<and> cn_client c \<noteq> None"
    by code_simp+
  have "cn_client c = Some ''ann''" if "?g (Some ''ann'') None = Some c" for c
    using user_connections_stay_apart [OF e b that [unfolded busy_start_def]] that live(1) by (auto simp: labelled_def)
  moreover have "cn_client c = Some ''bob''" if "?g None (Some ''bob'') = Some c" for c
    using user_connections_stay_apart [OF e b that [unfolded busy_start_def]] that live(2) by (auto simp: labelled_def)
  ultimately show ?thesis using live by (auto split: option.splits)
qed

section \<open>Eviction\<close>

lemma map_of_drop: "map_of (drop_key k m) i = (if i = k then None else map_of m i)"
  by (induction m) (auto simp: drop_key_def)

lemma owner_map_put: "owner_map n (w\<lparr>cm_users := map_put k m (cm_users w)\<rparr>) = (if n = k then m else owner_map n w)"
  by (simp add: owner_map_def js_simps)

lemma await_alone: "cm_others w = [] \<Longrightarrow> awaitM w = (Inr (), w)"
  by (simp add: awaitM_def)

lemma close_alone: "cm_others w = [] \<Longrightarrow> \<exists>r x. closeM env c w = (Inr r, w\<lparr>cm_ext := x\<rparr>)"
  by (cases "me_close env c (cm_ext w)") (auto simp: closeM_def bindM_def await_alone returnM_def)

definition evicted :: "string \<Rightarrow> string option \<Rightarrow> ('c, 'x) conn_world \<Rightarrow> string \<Rightarrow> string \<Rightarrow> bool" where
  "evicted o' provider w n i \<longleftrightarrow> i = o' \<and> (case map_of (owner_map n w) i of
     None \<Rightarrow> False | Some c \<Rightarrow> provider_matches (or_else (getServer n (cm_registry w)) (cn_config c)) provider)"

lemma evict_server_effect:
  assumes "cm_others w = []" "evict_server env amb o' provider name w = (r, w')"
  shows "r = Inr () \<and> cm_base w' = cm_base w \<and> cm_registry w' = cm_registry w \<and> cm_others w' = [] \<and>
    (\<forall>n i. map_of (owner_map n w') i = (if n = name \<and> evicted o' provider w n i then None else map_of (owner_map n w) i))"
proof (cases "map_of (owner_map name w) o'")
  case None
  then show ?thesis using assms by (auto simp: evict_server_def evicted_def)
next
  case (Some existing)
  show ?thesis
  proof (cases "provider_matches (or_else (getServer name (cm_registry w)) (cn_config existing)) provider")
    case False
    then show ?thesis using assms Some by (auto simp: evict_server_def evicted_def)
  next
    case True
    let ?w = "w\<lparr>cm_users := map_put name (drop_key o' (owner_map name w)) (cm_users w)\<rparr>"
    have d: "apply_write (DelUser name o') w = ?w"
      using Some by (auto simp: owner_map_def split: option.splits)
    have "\<exists>r' x. (case cn_client existing of None \<Rightarrow> returnM None | Some c \<Rightarrow> closeM env c) ?w = (Inr r', ?w\<lparr>cm_ext := x\<rparr>)"
      using close_alone [of ?w env] assms(1) by (cases "cn_client existing") (auto simp: returnM_def intro: exI [of _ "cm_ext ?w"])
    then obtain r' x where c: "(case cn_client existing of None \<Rightarrow> returnM None | Some c \<Rightarrow> closeM env c) ?w = (Inr r', ?w\<lparr>cm_ext := x\<rparr>)"
      by blast
    have n: "\<exists>es. notify_fallback amb name o' v = (Inr (), v\<lparr>cm_events := es\<rparr>)" for v :: "('a, 'b) conn_world"
      by (auto simp: notify_fallback_def emitM_def modifyM_def split: option.split intro: exI [of _ "cm_events v"])
    obtain es where "evict_server env amb o' provider name w = (Inr (), ?w\<lparr>cm_ext := x, cm_events := es\<rparr>)"
      using n [of "?w\<lparr>cm_ext := x\<rparr>"] c Some True
      by (auto simp: evict_server_def bindM_def writeM_def modifyM_def d simp del: apply_write.simps)
    then show ?thesis
      using assms Some True owner_map_put [where w = w and k = name and m = "drop_key o' (owner_map name w)"]
      by (auto simp: owner_map_def map_of_drop evicted_def)
  qed
qed

lemma evict_names_effect:
  assumes "cm_others w = []"
  shows "\<exists>w'. run_all (map (evict_server env amb o' provider) names) w = (Inr (), w') \<and> cm_base w' = cm_base w \<and>
    cm_registry w' = cm_registry w \<and> cm_others w' = [] \<and>
    (\<forall>n i. map_of (owner_map n w') i = (if n \<in> set names \<and> evicted o' provider w n i then None else map_of (owner_map n w) i))"
  using assms
proof (induction names arbitrary: w)
  case Nil
  then show ?case by (simp add: returnM_def)
next
  case (Cons name names)
  obtain r v where v: "evict_server env amb o' provider name w = (r, v)" by (cases "evict_server env amb o' provider name w")
  note e = evict_server_effect [OF Cons.prems v]
  obtain w' where w': "run_all (map (evict_server env amb o' provider) names) v = (Inr (), w')" "cm_base w' = cm_base v"
      "cm_registry w' = cm_registry v" "cm_others w' = []"
      "\<forall>n i. map_of (owner_map n w') i = (if n \<in> set names \<and> evicted o' provider v n i then None else map_of (owner_map n v) i)"
    using Cons.IH [of v] e by blast
  have "evicted o' provider v n i = (evicted o' provider w n i \<and> n \<noteq> name)" for n i
    using e by (auto simp: evicted_def split: option.splits)
  then show ?case using w' v e by auto
qed

text \<open>
  C31. An eviction of an owner, alone in the process, drops exactly the owner's connections to the
  backends of the provider (of any provider, when none is named) and leaves every other connection.
\<close>
theorem eviction_is_complete:
  assumes "cm_others w = []"
  shows "\<exists>w'. evictOwnerConnections env amb o' provider w = (Inr (), w') \<and> cm_base w' = cm_base w \<and>
    (\<forall>n i. map_of (owner_map n w') i = (if evicted o' provider w n i then None else map_of (owner_map n w) i))"
proof -
  have "n \<in> fst ` set (cm_users w)" if "evicted o' provider w n i" for n i
    using that by (cases "map_of (cm_users w) n") (force simp: evicted_def owner_map_def dest: map_of_SomeD)+
  then show ?thesis
    using evict_names_effect [OF assms, of env amb o' provider "map fst (cm_users w)"]
    unfolding evictOwnerConnections_def by (auto simp: image_iff)
qed

definition linked_world :: "(string, unit) conn_world" where
  "linked_world = run_ops (run_conn labelled_env)
     [EnsureConnected (Some ''ann'') ''mail'' None, EnsureConnected (Some ''bob'') ''mail'' None]
     (conn_start [example_connector ''mail'' AuthUserOauth] [] ())"

theorem eviction_is_complete_witness:
  "\<exists>w'. evictOwnerConnections labelled_env None ''ann'' (Some ''mail'') linked_world = (Inr (), w') \<and>
     map_of (owner_map ''mail'' w') ''ann'' = None \<and> map_option cn_client (map_of (owner_map ''mail'' w') ''bob'') = Some (Some ''bob'')"
proof -
  have "cm_others linked_world = []" by code_simp
  moreover have "evicted ''ann'' (Some ''mail'') linked_world ''mail'' ''ann''"
    "\<not> evicted ''ann'' (Some ''mail'') linked_world ''mail'' ''bob''"
    "map_option cn_client (map_of (owner_map ''mail'' linked_world) ''bob'') = Some (Some ''bob'')"
    by code_simp+
  ultimately show ?thesis
    using eviction_is_complete [of linked_world labelled_env None "''ann''" "Some ''mail''"] by auto
qed

end
