(* ===== verification/OAuthSafety.thy ===== *)
theory OAuthSafety
  imports OAuthApi ConnectionSafety
begin

text \<open>
  What holds of links and tokens: which callback stores a token and for whom, what unlinking and the
  reconciliation remove, whose token a call carries, and the cases in which the code does less.
\<close>

section \<open>Without other writers\<close>

text \<open>\<open>P\<close>: the part of the tables that a computation leaves alone.\<close>

definition leaves :: "(cred_db \<Rightarrow> 'p) \<Rightarrow> ('c, 'x, 'a) cred_comp \<Rightarrow> bool" where
  "leaves P m \<longleftrightarrow> (\<forall>w. kw_others w = [] \<longrightarrow> P (kw_db (snd (m w))) = P (kw_db w) \<and> kw_others (snd (m w)) = [])"

named_theorems leaves_intros "computations that leave a part of the tables alone"

lemma leavesD: "leaves P m \<Longrightarrow> kw_others w = [] \<Longrightarrow> P (kw_db (snd (m w))) = P (kw_db w) \<and> kw_others (snd (m w)) = []"
  by (simp add: leaves_def)

lemma leaves_return [leaves_intros]: "leaves P (returnM x)" "leaves P (throwM e)" "leaves P (liftC r)" "leaves P registryM"
  by (simp_all add: leaves_def returnM_def throwM_def liftC_def registryM_def)

lemma leaves_bind [leaves_intros]:
  assumes "leaves P m" "\<And>x. leaves P (k x)"
  shows "leaves P (bindM m k)"
  unfolding leaves_def
proof (intro allI impI, goal_cases)
  case (1 w)
  show ?case
    using leavesD [OF assms(1) 1] leavesD [OF assms(2)] by (auto simp: bindM_def split: prod.split sum.split)
qed

lemma leaves_catch [leaves_intros]:
  assumes "leaves P m" "\<And>e. leaves P (h e)"
  shows "leaves P (catchM m h)"
  unfolding leaves_def
proof (intro allI impI, goal_cases)
  case (1 w)
  show ?case
    using leavesD [OF assms(1) 1] leavesD [OF assms(2)] by (auto simp: catchM_def split: prod.split sum.split)
qed

lemma leaves_ext [leaves_intros]: "leaves P (on_ext f)"
  by (auto simp: leaves_def on_ext_def split: prod.split)

lemma leaves_clock [leaves_intros]: "leaves P (cnowM env)" "leaves P (cuuidM env)"
  by (simp_all add: cnowM_def cuuidM_def leaves_ext)

lemma leaves_conns [leaves_intros]: "leaves P (on_conns m)"
  by (simp add: leaves_def on_conns_def split: prod.split)

lemma cred_stmt_alone: "kw_others w = [] \<Longrightarrow> cstmt m w = (case m (kw_db w) of (r, db) \<Rightarrow> (r, w\<lparr>kw_db := db\<rparr>))"
  by (cases w) (simp add: cstmt_def others_write_def Let_def)

lemma leaves_stmt: "(\<And>db. P (snd (m db)) = P db) \<Longrightarrow> leaves P (cstmt m)"
  by (auto simp: leaves_def cred_stmt_alone split: prod.split) (metis snd_conv)

lemma leaves_query [leaves_intros]: "leaves P (cquery f)"
  unfolding cquery_def by (rule leaves_stmt) simp

lemma leaves_write: "(\<And>db. P (f db) = P db) \<Longrightarrow> leaves P (cwrite f)"
  unfolding cwrite_def by (rule leaves_stmt) simp

lemma leaves_registry [leaves_intros]: "leaves P (replace_registry cs)"
  by (simp add: leaves_def replace_registry_def modifyM_def)

lemma leaves_load [leaves_intros]: "leaves P (loadIntoRegistry env)"
proof -
  have "leaves P (hydrate_all env rs)" for rs
  proof (induction rs)
    case (Cons r rs)
    then show ?case
      by (auto simp: hydrate_def intro!: leaves_intros split: option.split)
  qed (simp add: leaves_intros)
  then show ?thesis by (auto simp: loadIntoRegistry_def intro!: leaves_intros)
qed

text \<open>Finding the server and the client touches neither tokens nor links.\<close>

definition grants_of :: "cred_db \<Rightarrow> ((string \<times> string) \<times> oauth_token) list \<times> pending_link list" where
  "grants_of db = (kd_tokens db, kd_links db)"

lemma grants_frame [simp]:
  "grants_of (set_discovery k r db) = grants_of db" "grants_of (set_client p c db) = grants_of db"
  "grants_of (upsert_registration g db) = grants_of db" "grants_of (delete_secret i db) = grants_of db"
  "grants_of (snd (insert_secret s db)) = grants_of db"
  by (simp_all add: grants_of_def set_discovery_def set_client_def upsert_registration_def delete_secret_def insert_secret_def)

lemma leaves_server [leaves_intros]: "leaves grants_of (resolveOAuthServer env c)"
proof -
  have "leaves grants_of (discover_server env c)"
    by (auto simp: discover_server_def intro!: leaves_intros leaves_write split: option.split)
  then show ?thesis
    by (auto simp: resolveOAuthServer_def Let_def intro!: leaves_intros split: option.split prod.split)
qed

lemma leaves_client [leaves_intros]: "leaves grants_of (ensureClient env provider c server redirectUri)"
proof -
  have s: "leaves grants_of (createSealedSecret env v)" for v
    by (auto simp: createSealedSecret_def intro!: leaves_intros)
  have "leaves grants_of (persistRegisteredClient env provider i client r sc)" for i client r sc
    by (auto simp: persistRegisteredClient_def persist_secret_def saved_registration_def
        intro!: leaves_intros leaves_write leaves_stmt s split: option.split)
  then have r: "leaves grants_of (register_client env provider c server redirectUri)"
    by (cases "text_in (os_metadata server) ''registration_endpoint''") (simp_all add: register_client_def leaves_intros)
  show ?thesis
    by (auto simp: ensureClient_def link_loadIssuerClient_def registered_secret_def intro!: leaves_intros r split: option.split)
qed

lemma leaves_find [leaves_intros]: "leaves P (find_provider provider)" "leaves P (resolveConnector env provider)"
  by (auto simp: find_provider_def resolveConnector_def intro!: leaves_intros split: option.split)

lemma leaves_tokens_failed [leaves_intros]: "leaves kd_tokens (callbackFailure e i)" "leaves kd_tokens (markLinkFailed i e)"
proof -
  show m: "leaves kd_tokens (markLinkFailed i e)" for i e
    by (auto simp: markLinkFailed_def update_link_def intro!: leaves_intros leaves_write split: option.split)
  show "leaves kd_tokens (callbackFailure e i)"
    by (auto simp: callbackFailure_def intro!: leaves_intros m)
qed

lemma leaves_page [leaves_intros]: "leaves P (callbackPageFromState env provider state e)"
  by (auto simp: callbackPageFromState_def intro!: leaves_intros split: option.split sum.split)

lemma leaves_context: "leaves kd_tokens (resolveCallbackContext env provider q)"
  by (auto simp: resolveCallbackContext_def intro!: leaves_intros split: option.split sum.split)

lemma leaves_weaken: "leaves grants_of m \<Longrightarrow> leaves kd_tokens m"
  by (auto simp: leaves_def grants_of_def)

section \<open>Which callback stores a token\<close>

text \<open>The pending link that a callback of a provider may complete.\<close>

definition callback_link :: "('c, 'x) oauth_env \<Rightarrow> string \<Rightarrow> oauth_callback_query \<Rightarrow> cred_db \<Rightarrow> pending_link \<Rightarrow> bool" where
  "callback_link env provider q db l \<longleftrightarrow>
    (\<exists>state s. cq_state q = Some state \<and> decodeOAuthLinkState env state = Inr s \<and> ls_provider s = JStr provider \<and>
       link_of_state env s = Some (pk_linkId l) \<and> get_link (pk_linkId l) db = Some l \<and> pk_status l = LinkPending \<and>
       ls_ownerId s = JStr (pk_ownerId l))"

lemma cred_query_alone: "kw_others w = [] \<Longrightarrow> cquery f w = (Inr (f (kw_db w)), w)"
  by (simp add: cquery_def cred_stmt_alone)

lemma write_alone: "kw_others w = [] \<Longrightarrow> cwrite f w = (Inr (), w\<lparr>kw_db := f (kw_db w)\<rparr>)"
  by (simp add: cwrite_def cred_stmt_alone)

lemma bind_split: "bindM m k w = (case m w of (Inl e, w') \<Rightarrow> (Inl e, w') | (Inr x, w') \<Rightarrow> k x w')"
  by (simp add: bindM_def)

lemma get_link_id: "get_link i db = Some l \<Longrightarrow> pk_linkId l = i"
  by (auto simp: get_link_def tbl_find_def find_Some_iff)

lemma never_accepts: "bindM m (\<lambda>e. returnM (Inl e)) w \<noteq> (Inr (Inr x), w')"
  by (auto simp: bind_split returnM_def split: prod.splits sum.splits)

lemma context_accepts:
  assumes "kw_others w = []" "resolveCallbackContext env provider q w = (Inr (Inr (code, l)), w')"
  shows "callback_link env provider q (kw_db w) l" "w' = w" "Option.bind (cq_code q) nonempty = Some code"
proof -
  obtain c state where cs: "Option.bind (cq_code q) nonempty = Some c" "Option.bind (cq_state q) nonempty = Some state"
    using assms(2)
    by (cases "Option.bind (cq_code q) nonempty"; cases "Option.bind (cq_state q) nonempty")
       (simp_all add: resolveCallbackContext_def returnM_def)
  obtain s where s: "decodeOAuthLinkState env state = Inr s"
    using assms(2) by (cases "decodeOAuthLinkState env state") (simp_all add: resolveCallbackContext_def returnM_def cs)
  have p: "ls_provider s = JStr provider"
    using assms(2) by (rule_tac ccontr) (simp add: resolveCallbackContext_def cs s never_accepts)
  obtain i where i: "link_of_state env s = Some i"
    using assms(2) by (cases "link_of_state env s") (simp_all add: resolveCallbackContext_def returnM_def cs s p)
  obtain k where k: "get_link i (kw_db w) = Some k"
    using assms by (cases "get_link i (kw_db w)")
      (simp_all add: resolveCallbackContext_def returnM_def cs s p i bind_split cred_query_alone)
  have st: "pk_status k = LinkPending"
    using assms k by (rule_tac ccontr) (simp add: resolveCallbackContext_def returnM_def cs s p i bind_split cred_query_alone)
  have o': "ls_ownerId s = JStr (pk_ownerId k)"
    using assms k st
    by (rule_tac ccontr) (simp add: resolveCallbackContext_def cs s p i bind_split [of "cquery _"] cred_query_alone never_accepts)
  have e: "code = c" "l = k" "w' = w"
    using assms k st o' by (simp_all add: resolveCallbackContext_def returnM_def cs s p i bind_split cred_query_alone)
  have "cq_state q = Some state" using cs(2) by (cases "cq_state q") (auto simp: nonempty_def split: if_splits)
  then show "callback_link env provider q (kw_db w) l" "w' = w" "Option.bind (cq_code q) nonempty = Some code"
    using s p i k st o' e cs(1) get_link_id [OF k] by (auto simp: callback_link_def)
qed

lemma wp_step:
  assumes "leaves P m" "kw_others w = []" "P (kw_db w) = p"
    "\<And>x w'. P (kw_db w') = p \<Longrightarrow> kw_others w' = [] \<Longrightarrow> Q x w'" "\<And>e w'. P (kw_db w') = p \<Longrightarrow> kw_others w' = [] \<Longrightarrow> E e w'"
  shows "wp m Q E w"
  using leavesD [OF assms(1,2)] assms(3-5) by (auto simp: wp_def split: prod.split sum.split)

lemma wp_write_alone: "kw_others w = [] \<Longrightarrow> Q () (w\<lparr>kw_db := f (kw_db w)\<rparr>) \<Longrightarrow> wp (cwrite f) Q E w"
  by (simp add: wp_def write_alone)

text \<open>The grants and links after an exchange that ended well.\<close>

definition exchanged :: "string \<Rightarrow> pending_link \<Rightarrow> cred_db \<Rightarrow> cred_db \<Rightarrow> bool" where
  "exchanged provider l db db' \<longleftrightarrow> (\<exists>db1 token. grants_of db1 = grants_of db \<and>
     db' = update_link (l\<lparr>pk_status := LinkCompleted\<rparr>) (set_token (pk_ownerId l) provider token db1))"

lemma exchange_spec:
  assumes "kw_others w = []"
  shows "wp (exchange_code env provider c code l)
    (\<lambda>_ w'. exchanged provider l (kw_db w) (kw_db w') \<and> kw_others w' = [])
    (\<lambda>_ w'. grants_of (kw_db w') = grants_of (kw_db w) \<and> kw_others w' = []) w"
proof -
  note step = wp_step [where P = grants_of and p = "grants_of (kw_db w)"]
  have last: "wp (cwrite (set_token (pk_ownerId l) provider token))
      (\<lambda>_. wp (cwrite (update_link (l\<lparr>pk_status := LinkCompleted\<rparr>)))
        (\<lambda>_ w'. exchanged provider l (kw_db w) (kw_db w') \<and> kw_others w' = []) E) E v"
    if "grants_of (kw_db v) = grants_of (kw_db w)" "kw_others v = []" for token v E
    using that by (intro wp_write_alone) (auto simp: exchanged_def)
  show ?thesis
    unfolding exchange_code_def wp_bind
    by (rule step [OF leaves_server], simp_all add: assms,
        rule step [OF leaves_client], simp_all,
        rule step [OF leaves_ext], simp_all,
        rule step [OF leaves_clock(1)], simp_all,
        rule step [OF leaves_return(3)], simp_all add: last)
qed

end
