(* ===== verification/LinkProtocol.thy ===== *)
theory LinkProtocol
  imports OAuthSafety
begin

text \<open>
  The abstract protocol of links and grants, and that every operation of the gateway on them, alone
  in the process, is a run of it. The protocol keeps grants as a map and of a link only its owner and
  its status; who may complete which link is a guard of a step.
\<close>

section \<open>The protocol\<close>

type_synonym link_spec = "(string \<times> string \<rightharpoonup> oauth_token) \<times> (string \<rightharpoonup> string \<times> link_status)"

inductive link_step :: "link_spec \<Rightarrow> link_spec \<Rightarrow> bool" where
  Begin: "ls i = None \<Longrightarrow> link_step (gs, ls) (gs, ls(i \<mapsto> (ow, LinkPending)))"
| Complete: "ls i = Some (ow, LinkPending) \<Longrightarrow> link_step (gs, ls) (gs((ow, p) \<mapsto> t), ls(i \<mapsto> (ow, LinkCompleted)))"
| Fail: "ls i = Some (ow, s) \<Longrightarrow> link_step (gs, ls) (gs, ls(i \<mapsto> (ow, LinkFailed)))"
| Renew: "gs (ow, p) \<noteq> None \<Longrightarrow> link_step (gs, ls) (gs((ow, p) \<mapsto> t), ls)"
| Revoke: "link_step (gs, ls) (gs((ow, p) := None), ls)"
| RevokeAll: "link_step (gs, ls) (gs |` {k. fst k \<noteq> ow}, ls)"
| Forget: "\<forall>p. gs (ow, p) = None \<Longrightarrow> link_step (gs, ls) (gs, ls |` {i. map_option fst (ls i) \<noteq> Some ow})"

inductive_cases link_stepE: "link_step (gs, ls) a"

abbreviation link_run :: "link_spec \<Rightarrow> link_spec \<Rightarrow> bool" where
  "link_run \<equiv> link_step\<^sup>*\<^sup>*"

text \<open>Statuses in the order in which a link goes through them: no step takes a link back.\<close>

instantiation link_status :: linorder
begin

definition less_eq_link_status :: "link_status \<Rightarrow> link_status \<Rightarrow> bool" where
  "less_eq_link_status s s' \<longleftrightarrow> s = s' \<or> s = LinkPending \<or> s' = LinkFailed"

definition less_link_status :: "link_status \<Rightarrow> link_status \<Rightarrow> bool" where
  "less_link_status s s' \<longleftrightarrow> s \<noteq> s' \<and> (s = LinkPending \<or> s' = LinkFailed)"

instance
proof (standard, goal_cases)
  case (5 x y)
  show ?case by (cases x; cases y) (simp_all add: less_eq_link_status_def)
qed (auto simp: less_eq_link_status_def less_link_status_def)

end

lemma link_never_goes_back:
  assumes "link_step a b" "snd a i = Some (ow, s)" "snd b i = Some (ow', s')"
  shows "ow' = ow \<and> s \<le> s'"
  using assms by (induction rule: link_step.induct) (auto simp: less_eq_link_status_def restrict_map_def split: if_splits)

text \<open>What the tables say.\<close>

definition abs_links :: "cred_db \<Rightarrow> string \<rightharpoonup> string \<times> link_status" where
  "abs_links db i = map_option (\<lambda>l. (pk_ownerId l, pk_status l)) (get_link i db)"

definition abs_db :: "cred_db \<Rightarrow> link_spec" where
  "abs_db db = (map_of (kd_tokens db), abs_links db)"

lemma abs_grants: "grants_of db = grants_of db' \<Longrightarrow> abs_db db = abs_db db'"
  by (simp add: abs_db_def abs_links_def fun_eq_iff get_link_def grants_of_def)

text \<open>Every grant belongs to an owner some of whose links a callback has answered.\<close>

definition answered :: "link_spec \<Rightarrow> bool" where
  "answered a \<longleftrightarrow> (\<forall>ow p. fst a (ow, p) \<noteq> None \<longrightarrow> (\<exists>i s. snd a i = Some (ow, s) \<and> s \<noteq> LinkPending))"

lemma answeredD: "answered a \<Longrightarrow> fst a (ow, p) \<noteq> None \<Longrightarrow> \<exists>i s. snd a i = Some (ow, s) \<and> s \<noteq> LinkPending"
  unfolding answered_def by blast

lemma answered_less:
  assumes "answered (gs, ls)" "\<And>ow p. gs' (ow, p) \<noteq> None \<Longrightarrow> \<exists>q. gs (ow, q) \<noteq> None"
  shows "answered (gs', ls)"
  using assms unfolding answered_def fst_conv snd_conv by blast

lemma answered_step:
  assumes "link_step a b" "answered a"
  shows "answered b"
  using assms
proof (induction rule: link_step.induct)
  case (Begin ls i gs ow)
  show ?case unfolding answered_def
  proof (intro allI impI)
    fix ow' p assume "fst (gs, ls(i \<mapsto> (ow, LinkPending))) (ow', p) \<noteq> None"
    then obtain j s where "ls j = Some (ow', s)" "s \<noteq> LinkPending"
      using answeredD [OF Begin.prems, of ow' p] by auto
    then show "\<exists>j s. snd (gs, ls(i \<mapsto> (ow, LinkPending))) j = Some (ow', s) \<and> s \<noteq> LinkPending"
      using Begin.hyps by (intro exI [of _ j]) auto
  qed
next
  case (Complete ls i ow gs p t)
  show ?case unfolding answered_def
  proof (intro allI impI)
    fix ow' p' assume g: "fst (gs((ow, p) \<mapsto> t), ls(i \<mapsto> (ow, LinkCompleted))) (ow', p') \<noteq> None"
    show "\<exists>j s. snd (gs((ow, p) \<mapsto> t), ls(i \<mapsto> (ow, LinkCompleted))) j = Some (ow', s) \<and> s \<noteq> LinkPending"
    proof (cases "ow' = ow")
      case True
      then show ?thesis by (intro exI [of _ i]) auto
    next
      case False
      then obtain j s where "ls j = Some (ow', s)" "s \<noteq> LinkPending"
        using answeredD [OF Complete.prems, of ow' p'] g by (auto split: if_splits)
      then show ?thesis using Complete.hyps False by (intro exI [of _ j]) auto
    qed
  qed
next
  case (Fail ls i ow s gs)
  show ?case unfolding answered_def
  proof (intro allI impI)
    fix ow' p assume "fst (gs, ls(i \<mapsto> (ow, LinkFailed))) (ow', p) \<noteq> None"
    then obtain j s' where "ls j = Some (ow', s')" "s' \<noteq> LinkPending"
      using answeredD [OF Fail.prems, of ow' p] by auto
    then show "\<exists>j s. snd (gs, ls(i \<mapsto> (ow, LinkFailed))) j = Some (ow', s) \<and> s \<noteq> LinkPending"
      using Fail.hyps by (intro exI [of _ j]) auto
  qed
next
  case (Renew gs ow p ls t)
  show ?case by (rule answered_less [OF Renew.prems]) (use Renew.hyps in \<open>auto split: if_splits\<close>)
next
  case (Revoke gs ls ow p)
  show ?case by (rule answered_less [OF Revoke.prems]) (auto split: if_splits)
next
  case (RevokeAll gs ls ow)
  show ?case by (rule answered_less [OF RevokeAll.prems]) (auto simp: restrict_map_def split: if_splits)
next
  case (Forget gs ow ls)
  show ?case unfolding answered_def
  proof (intro allI impI)
    fix ow' p assume g: "fst (gs, ls |` {i. map_option fst (ls i) \<noteq> Some ow}) (ow', p) \<noteq> None"
    then have o': "ow' \<noteq> ow" using Forget.hyps by auto
    obtain j s where "ls j = Some (ow', s)" "s \<noteq> LinkPending"
      using answeredD [OF Forget.prems, of ow' p] g by auto
    then show "\<exists>i s. snd (gs, ls |` {i. map_option fst (ls i) \<noteq> Some ow}) i = Some (ow', s) \<and> s \<noteq> LinkPending"
      using o' by (intro exI [of _ j]) (auto simp: restrict_map_def)
  qed
qed

lemma answered_run: "link_run a b \<Longrightarrow> answered a \<Longrightarrow> answered b"
  by (induction rule: rtranclp_induct) (auto intro: answered_step)

section \<open>Each statement is a step\<close>

lemma abs_create:
  "pk_status l = LinkPending \<Longrightarrow> link_run (abs_db db) (abs_db (snd (create_link l db)))"
proof (cases "pk_linkId l \<in> pk_linkId ` set (kd_links db)")
  case False
  assume p: "pk_status l = LinkPending"
  have n: "get_link (pk_linkId l) db = None"
    using False by (auto simp: get_link_def tbl_find_None image_iff)
  have "abs_links (db\<lparr>kd_links := kd_links db @ [l]\<rparr>) = (abs_links db)(pk_linkId l \<mapsto> (pk_ownerId l, LinkPending))"
    using n p by (auto simp: fun_eq_iff abs_links_def get_link_def tbl_find_append tbl_find_Cons tbl_find_Nil
        split: option.split)
  then show ?thesis
    using False n by (auto simp: create_link_def abs_db_def abs_links_def intro!: r_into_rtranclp link_step.Begin)
qed (simp add: create_link_def)

lemma get_link_update:
  "get_link (pk_linkId l) db \<noteq> None \<Longrightarrow>
   get_link i (update_link l db) = (if i = pk_linkId l then Some l else get_link i db)"
proof -
  have "tbl_find (\<lambda>r. pk_linkId r = i) (tbl_update (\<lambda>r. pk_linkId r = pk_linkId l) (\<lambda>_. l) ls) =
      (if i = pk_linkId l then map_option (\<lambda>_. l) (tbl_find (\<lambda>r. pk_linkId r = i) ls) else tbl_find (\<lambda>r. pk_linkId r = i) ls)" for ls
    by (induction ls) (auto simp: tbl_simps tbl_update_def)
  then show "get_link (pk_linkId l) db \<noteq> None \<Longrightarrow> ?thesis"
    by (auto simp: get_link_def update_link_def)
qed

lemma abs_fail:
  assumes "get_link i db = Some l"
  shows "link_run (abs_db db) (abs_db (update_link (l\<lparr>pk_status := LinkFailed, pk_error := e\<rparr>) db))"
proof -
  let ?l = "l\<lparr>pk_status := LinkFailed, pk_error := e\<rparr>"
  have i: "pk_linkId ?l = i" using get_link_id [OF assms] by simp
  have "abs_links (update_link ?l db) = (abs_links db)(i \<mapsto> (pk_ownerId l, LinkFailed))"
    using get_link_update [of ?l db] assms i by (auto simp: fun_eq_iff abs_links_def)
  moreover have "kd_tokens (update_link ?l db) = kd_tokens db" by (simp add: update_link_def)
  ultimately show ?thesis
    using assms by (auto simp: abs_db_def abs_links_def intro!: r_into_rtranclp link_step.Fail)
qed

lemma abs_complete:
  assumes "get_link (pk_linkId l) db = Some l" "pk_status l = LinkPending"
  shows "link_run (abs_db db) (abs_db (update_link (l\<lparr>pk_status := LinkCompleted\<rparr>) (set_token (pk_ownerId l) p t db)))"
proof -
  let ?db = "set_token (pk_ownerId l) p t db" and ?l = "l\<lparr>pk_status := LinkCompleted\<rparr>"
  have g: "get_link i ?db = get_link i db" for i by (simp add: get_link_def set_token_def)
  have "abs_links (update_link ?l ?db) = (abs_links db)(pk_linkId l \<mapsto> (pk_ownerId l, LinkCompleted))"
    using get_link_update [of ?l ?db] assms by (auto simp: fun_eq_iff abs_links_def g)
  moreover have "map_of (kd_tokens (update_link ?l ?db)) = (map_of (kd_tokens db))((pk_ownerId l, p) \<mapsto> t)"
    by (simp add: update_link_def set_token_def map_of_map_put)
  ultimately show ?thesis
    using assms by (auto simp: abs_db_def abs_links_def intro!: r_into_rtranclp link_step.Complete)
qed

lemma abs_renew: "get_token ow p db \<noteq> None \<Longrightarrow> link_run (abs_db db) (abs_db (set_token ow p t db))"
proof -
  assume "get_token ow p db \<noteq> None"
  moreover have "abs_links (set_token ow p t db) = abs_links db"
    by (simp add: fun_eq_iff abs_links_def get_link_def set_token_def)
  ultimately show ?thesis
    by (auto simp: abs_db_def get_token_def set_token_def map_of_map_put intro!: r_into_rtranclp link_step.Renew)
qed

lemma map_of_filter_key: "map_of (filter (\<lambda>e. P (fst e)) m) = map_of m |` {k. P k}"
  by (induction m) (auto simp: fun_eq_iff restrict_map_def)

lemma abs_revoke: "link_run (abs_db db) (abs_db (snd (delete_token ow p db)))"
proof -
  have "map_of (kd_tokens (snd (delete_token ow p db))) = (map_of (kd_tokens db))((ow, p) := None)"
    by (auto simp: delete_token_def map_of_filter_key [where P = "\<lambda>k. k \<noteq> (ow, p)"] fun_eq_iff restrict_map_def)
  moreover have "abs_links (snd (delete_token ow p db)) = abs_links db"
    by (simp add: fun_eq_iff abs_links_def get_link_def delete_token_def)
  ultimately show ?thesis
    by (auto simp: abs_db_def intro!: r_into_rtranclp link_step.Revoke)
qed

lemma abs_revoke_all: "link_run (abs_db db) (abs_db (snd (delete_tokens_of ow db)))"
proof -
  have "map_of (kd_tokens (snd (delete_tokens_of ow db))) = map_of (kd_tokens db) |` {k. fst k \<noteq> ow}"
    by (simp add: delete_tokens_of_def map_of_filter_key [where P = "\<lambda>k. fst k \<noteq> ow"])
  moreover have "abs_links (snd (delete_tokens_of ow db)) = abs_links db"
    by (simp add: fun_eq_iff abs_links_def get_link_def delete_tokens_of_def)
  ultimately show ?thesis
    by (auto simp: abs_db_def intro!: r_into_rtranclp link_step.RevokeAll)
qed

text \<open>The primary key of the links.\<close>

definition links_keyed :: "cred_db \<Rightarrow> bool" where
  "links_keyed db \<longleftrightarrow> distinct (map pk_linkId (kd_links db))"

lemma find_filter_keyed:
  "distinct (map pk_linkId ls) \<Longrightarrow> tbl_find (\<lambda>r. pk_linkId r = i) (tbl_delete Q ls) =
    (case tbl_find (\<lambda>r. pk_linkId r = i) ls of None \<Rightarrow> None | Some l \<Rightarrow> if Q l then None else Some l)"
proof (induction ls)
  case (Cons l ls)
  have "tbl_find (\<lambda>r. pk_linkId r = pk_linkId l) (tbl_delete Q ls) = None"
    using Cons.prems by (auto simp: tbl_find_None tbl_delete_def image_iff)
  then show ?case using Cons by (auto simp: tbl_find_Cons tbl_delete_def)
qed (simp add: tbl_find_Nil tbl_delete_def)

lemma abs_forget:
  assumes "links_keyed db" "\<forall>p. get_token ow p db = None"
  shows "link_run (abs_db db) (abs_db (snd (delete_links_of ow db)))"
proof -
  have "abs_links (snd (delete_links_of ow db)) = abs_links db |` {i. map_option fst (abs_links db i) \<noteq> Some ow}"
    using assms(1) by (auto simp: fun_eq_iff abs_links_def get_link_def delete_links_of_def links_keyed_def find_filter_keyed
        restrict_map_def split: option.splits)
  moreover have "kd_tokens (snd (delete_links_of ow db)) = kd_tokens db"
    by (simp add: delete_links_of_def)
  ultimately show ?thesis
    using link_step.Forget [of "map_of (kd_tokens db)" ow "abs_links db"] assms(2)
    by (simp add: abs_db_def get_token_def r_into_rtranclp)
qed

lemma keyed_frame:
  "grants_of db = grants_of db' \<Longrightarrow> links_keyed db = links_keyed db'"
  "links_keyed (set_token ow p t db) = links_keyed db" "links_keyed (snd (delete_token ow p db)) = links_keyed db"
  "links_keyed (snd (delete_tokens_of ow db)) = links_keyed db" "links_keyed (update_link l db) = links_keyed db"
  "links_keyed db \<Longrightarrow> links_keyed (snd (create_link l db))" "links_keyed db \<Longrightarrow> links_keyed (snd (delete_links_of ow db))"
proof -
  have m: "map pk_linkId (tbl_update (\<lambda>r. pk_linkId r = pk_linkId l) (\<lambda>_. l) ls) = map pk_linkId ls" for ls
    by (induction ls) (auto simp: tbl_update_def)
  show "links_keyed (update_link l db) = links_keyed db" by (simp add: links_keyed_def update_link_def m)
  show "links_keyed db \<Longrightarrow> links_keyed (snd (create_link l db))"
    by (auto simp: links_keyed_def create_link_def)
  show "links_keyed db \<Longrightarrow> links_keyed (snd (delete_links_of ow db))"
    by (auto simp: links_keyed_def delete_links_of_def tbl_delete_def distinct_map inj_on_def)
qed (simp_all add: links_keyed_def grants_of_def set_token_def delete_token_def delete_tokens_of_def)

section \<open>Each operation is a run\<close>

text \<open>What holds of the world while an operation runs that began with the tables at \<open>a\<close>.\<close>

definition running :: "link_spec \<Rightarrow> ('c, 'x) cred_world \<Rightarrow> bool" where
  "running a w \<longleftrightarrow> kw_others w = [] \<and> links_keyed (kw_db w) \<and> link_run a (abs_db (kw_db w))"

definition simulated :: "('c, 'x, 'a) cred_comp \<Rightarrow> bool" where
  "simulated m \<longleftrightarrow> (\<forall>a w. running a w \<longrightarrow> running a (snd (m w)))"

lemma simulatedD: "simulated m \<Longrightarrow> running a w \<Longrightarrow> running a (snd (m w))"
  unfolding simulated_def by blast

named_theorems simulated_intros "computations that are runs of the protocol"

lemma running_others: "running a w \<Longrightarrow> kw_others w = []"
  by (simp add: running_def)

lemma running_grants:
  assumes "running a w" "grants_of (kw_db w') = grants_of (kw_db w)" "kw_others w' = []"
  shows "running a w'"
  using assms abs_grants [OF assms(2)] keyed_frame(1) [OF assms(2)] by (simp add: running_def)

lemma simulated_leaves: "leaves grants_of m \<Longrightarrow> simulated m"
  by (auto simp: simulated_def dest: leavesD [OF _ running_others] intro: running_grants)

lemma simulated_wp: "(\<And>a w. running a w \<Longrightarrow> wp m (\<lambda>_. running a) (\<lambda>_. running a) w) \<Longrightarrow> simulated m"
  unfolding simulated_def
proof (intro allI impI, goal_cases)
  case (1 a w)
  show ?case using 1(1) [OF 1(2)] by (cases "m w") (auto simp: wp_def split: sum.splits)
qed

lemma wp_simulated: "simulated m \<Longrightarrow> running a w \<Longrightarrow> (\<And>x v. running a v \<Longrightarrow> Q x v) \<Longrightarrow> (\<And>e v. running a v \<Longrightarrow> E e v) \<Longrightarrow> wp m Q E w"
proof -
  assume m: "simulated m" and w: "running a w" and k: "\<And>x v. running a v \<Longrightarrow> Q x v" "\<And>e v. running a v \<Longrightarrow> E e v"
  have "running a (snd (m w))" using m w unfolding simulated_def by blast
  then show ?thesis using k by (cases "m w") (auto simp: wp_def split: sum.splits)
qed

lemma simulated_bind [simulated_intros]:
  assumes "simulated m" "\<And>x. simulated (k x)"
  shows "simulated (bindM m k)"
  using assms by (intro simulated_wp) (auto simp: wp_bind intro!: wp_simulated [OF assms(1)] wp_simulated [OF assms(2)])

lemma simulated_catch [simulated_intros]:
  assumes "simulated m" "\<And>e. simulated (h e)"
  shows "simulated (catchM m h)"
  using assms by (intro simulated_wp) (auto simp: wp_catch intro!: wp_simulated [OF assms(1)] wp_simulated [OF assms(2)])

lemma simulated_stmt:
  assumes "\<And>db. links_keyed db \<Longrightarrow> link_run (abs_db db) (abs_db (snd (m db))) \<and> links_keyed (snd (m db))"
  shows "simulated (cstmt m)"
  unfolding simulated_def
proof (intro allI impI, goal_cases)
  case (1 a w)
  then show ?case
    using assms [of "kw_db w"] by (auto simp: running_def cred_stmt_alone split: prod.split)
qed

lemma simulated_writes [simulated_intros]:
  "pk_status l = LinkPending \<Longrightarrow> simulated (cstmt (create_link l))" "simulated (cstmt (delete_token ow p))"
  by (rule simulated_stmt, simp add: abs_create keyed_frame(6), rule simulated_stmt, simp add: abs_revoke keyed_frame(3))

lemmas frames = leaves_return leaves_server leaves_client leaves_clock leaves_ext leaves_conns leaves_query leaves_find leaves_page

lemmas simulated_frames [simulated_intros] = frames [THEN simulated_leaves]

lemma running_write: "running a w \<Longrightarrow> links_keyed (f (kw_db w)) \<Longrightarrow> link_run (abs_db (kw_db w)) (abs_db (f (kw_db w))) \<Longrightarrow>
    running a (w\<lparr>kw_db := f (kw_db w)\<rparr>)"
  by (auto simp: running_def)

lemma simulated_initiate: "simulated (initiate env provider base owner origin)"
proof -
  have "simulated (begin_link env provider c ow uri origin)" for c ow uri
    by (auto simp: begin_link_def intro!: simulated_intros split: prod.split)
  then show ?thesis
    by (auto simp: initiate_def intro!: simulated_intros split: option.split)
qed

lemma simulated_mark: "simulated (markLinkFailed i e)"
proof (rule simulated_wp)
  fix a and w :: "('a, 'b) cred_world"
  assume w: "running a w"
  show "wp (markLinkFailed i e) (\<lambda>_. running a) (\<lambda>_. running a) w"
    using w abs_fail [of _ "kw_db w"] running_others [OF w]
    by (auto simp: markLinkFailed_def wp_bind wp_return wp_def cred_query_alone write_alone returnM_def bindM_def keyed_frame(5)
        intro!: running_write split: option.splits dest: running_def [THEN iffD1])
qed

lemma simulated_failure [simulated_intros]: "simulated (callbackFailure e i)" "simulated (markLinkFailed i e)"
  by (auto simp: callbackFailure_def intro!: simulated_intros simulated_mark)

lemma exchanged_runs:
  assumes "exchanged provider l db db'" "get_link (pk_linkId l) db = Some l" "pk_status l = LinkPending"
  shows "link_run (abs_db db) (abs_db db')" "links_keyed db' = links_keyed db"
proof -
  obtain db1 t where d: "grants_of db1 = grants_of db" "db' = update_link (l\<lparr>pk_status := LinkCompleted\<rparr>) (set_token (pk_ownerId l) provider t db1)"
    using assms(1) by (auto simp: exchanged_def)
  have "get_link (pk_linkId l) db1 = Some l" using assms(2) d(1) by (simp add: get_link_def grants_of_def)
  from abs_complete [OF this assms(3)] show "link_run (abs_db db) (abs_db db')" "links_keyed db' = links_keyed db"
    using abs_grants [OF d(1)] keyed_frame(1) [OF d(1)] by (simp_all add: d(2) keyed_frame(2,5))
qed

lemma simulated_exchange:
  assumes w: "running a w" and l: "get_link (pk_linkId l) (kw_db w) = Some l" "pk_status l = LinkPending"
  shows "wp (exchangeAndStoreToken env provider code l) (\<lambda>_. running a) (\<lambda>_. running a) w"
  unfolding exchangeAndStoreToken_def wp_bind
proof (rule wp_step [OF leaves_find(2) [where P = grants_of] running_others [OF w] refl], goal_cases)
  case (1 found v)
  have v: "running a v" by (rule running_grants [OF w 1])
  have lv: "get_link (pk_linkId l) (kw_db v) = Some l" using l(1) 1 by (simp add: get_link_def grants_of_def)
  note fail = wp_simulated [OF simulated_failure(1)]
  show ?case
  proof (cases found)
    case None
    then show ?thesis using v by (simp add: wp_bind wp_return fail)
  next
    case (Some c)
    have "wp (exchange_code env provider c code l) (\<lambda>_. running a) (\<lambda>_. running a) v"
    proof (rule wp_mono [OF exchange_spec [OF running_others [OF v]]], goal_cases)
      case (1 x u)
      then show ?case using exchanged_runs [OF _ lv l(2), of provider "kw_db u"] v by (auto simp: running_def)
    next
      case (2 e u)
      then show ?case by (blast intro: running_grants [OF v])
    qed
    then show ?thesis
      unfolding Some option.case wp_bind wp_catch wp_return by (rule wp_mono) (simp_all add: fail)
  qed
next
  case (2 e v)
  show ?case by (rule running_grants [OF w 2])
qed

lemma callback_linkD: "callback_link env provider q db l \<Longrightarrow> get_link (pk_linkId l) db = Some l \<and> pk_status l = LinkPending"
  by (auto simp: callback_link_def)

lemma simulated_callback: "simulated (completeCallback env provider q)"
proof -
  have fail: "simulated (failLatestLink env provider state m)" for state m
    by (auto simp: failLatestLink_def intro!: simulated_intros split: option.split sum.split)
  have context_sim: "simulated (resolveCallbackContext env provider q)"
    by (auto simp: resolveCallbackContext_def intro!: simulated_intros split: option.split sum.split)
  have good: "simulated (bindM (resolveCallbackContext env provider q) (\<lambda>r. case r of
      Inl e \<Rightarrow> bindM (callbackPageFromState env provider (cq_state q) e) (\<lambda>page.
        returnM \<lparr>qr_success = False, qr_error = Some e, qr_page = Some page\<rparr>)
    | Inr (code, l) \<Rightarrow> exchangeAndStoreToken env provider code l))" (is "simulated (bindM ?m ?k)")
  proof (rule simulated_wp)
    fix a and w :: "('a, 'b) cred_world" assume w: "running a w"
    have page: "simulated (bindM (callbackPageFromState env provider (cq_state q) e) (\<lambda>page.
        returnM \<lparr>qr_success = False, qr_error = Some e, qr_page = Some page\<rparr>))" for e
      by (intro simulated_intros)
    obtain r v where m: "?m w = (r, v)" by (cases "?m w")
    have v: "running a v" using simulatedD [OF context_sim w] m by simp
    have "wp (\<lambda>_. bindM ?m ?k w) (\<lambda>_. running a) (\<lambda>_. running a) w"
    proof (cases r)
      case (Inl e)
      then show ?thesis using m v by (simp add: wp_def bind_split)
    next
      case r: (Inr x)
      have "wp (?k x) (\<lambda>_. running a) (\<lambda>_. running a) v"
      proof (cases x)
        case (Inl e)
        show ?thesis unfolding Inl sum.case by (rule wp_simulated [OF page v])
      next
        case (Inr y)
        obtain code l where y: "y = (code, l)" by (cases y)
        note c = context_accepts [OF running_others [OF w] m [unfolded r Inr y]]
        show ?thesis
          unfolding Inr y sum.case prod.case c(2)
          by (rule simulated_exchange [OF w callback_linkD [OF c(1), THEN conjunct1] callback_linkD [OF c(1), THEN conjunct2]])
      qed
      then show ?thesis using m r by (simp add: wp_def bind_split)
    qed
    then show "wp (bindM ?m ?k) (\<lambda>_. running a) (\<lambda>_. running a) w" by (simp add: wp_def)
  qed
  show ?thesis
    unfolding completeCallback_def Let_def
    by (auto intro!: simulated_intros fail good split: option.split)
qed

lemma simulated_forget: "simulated (bindM (cstmt (delete_tokens_of ow)) (\<lambda>n. bindM (cstmt (delete_links_of ow)) (\<lambda>k. m n k)))"
  if m: "\<And>n k. simulated (m n k)"
proof (rule simulated_wp)
  fix a and w :: "('a, 'b) cred_world" assume w: "running a w"
  define v where "v = w\<lparr>kw_db := snd (delete_tokens_of ow (kw_db w))\<rparr>"
  define u where "u = v\<lparr>kw_db := snd (delete_links_of ow (kw_db v))\<rparr>"
  have gone: "\<forall>p. get_token ow p (kw_db v) = None"
    by (simp add: v_def get_token_def delete_tokens_of_def map_of_filter_key [where P = "\<lambda>k. fst k \<noteq> ow"] restrict_map_def)
  have v: "running a v" using w abs_revoke_all unfolding v_def by (intro running_write) (auto simp: running_def keyed_frame(4))
  have u: "running a u"
    using v gone unfolding u_def by (intro running_write abs_forget keyed_frame(7)) (auto simp: running_def)
  obtain n where n: "cstmt (delete_tokens_of ow) w = (Inr n, v)"
    using running_others [OF w] by (simp add: cred_stmt_alone delete_tokens_of_def v_def)
  obtain k where k: "cstmt (delete_links_of ow) v = (Inr k, u)"
    using running_others [OF v] by (simp add: cred_stmt_alone delete_links_of_def u_def)
  have wp_m: "wp (m n k) (\<lambda>_. running a) (\<lambda>_. running a) u" by (rule wp_simulated [OF m u])
  show "wp (bindM (cstmt (delete_tokens_of ow)) (\<lambda>n. bindM (cstmt (delete_links_of ow)) (\<lambda>k. m n k)))
      (\<lambda>_. running a) (\<lambda>_. running a) w"
    using wp_m unfolding wp_def bind_split n k prod.case sum.case .
qed

lemma simulated_reconcile: "simulated (reconcileOAuthGrants desired)"
proof -
  have "simulated (wipe_owners os n k)" for os n k
    by (induction os arbitrary: n k) (auto intro!: simulated_intros simulated_forget)
  then show ?thesis
    by (auto simp: reconcileOAuthGrants_def Let_def intro!: simulated_intros split: prod.split)
qed

lemma simulated_unlink: "simulated (unlink env provider owner)"
  by (auto simp: unlink_def intro!: simulated_intros split: option.split)

lemma simulated_delete: "simulated (delete_grants_route env ow)"
  by (auto simp: delete_grants_route_def intro!: simulated_intros simulated_forget split: option.split)

lemma leaves_refresh_client [leaves_intros]: "leaves P (refresh_client env provider c issuer)"
  by (auto simp: refresh_client_def registered_secret_def intro!: leaves_intros split: option.split)

lemma simulated_refresh:
  fixes w :: "('c, 'x) cred_world"
  assumes w: "running a w" and t: "get_token ow provider (kw_db w) \<noteq> None"
  shows "wp (performRefresh env ow provider stale) (\<lambda>_. running a) (\<lambda>_. running a) w"
proof -
  have held: "get_token ow provider (kw_db v) \<noteq> None" if "grants_of (kw_db v) = grants_of (kw_db w)" for v :: "('c, 'x) cred_world"
    using t that by (simp add: get_token_def grants_of_def)
  have run: "running a v" if "grants_of (kw_db v) = grants_of (kw_db w)" "kw_others v = []" for v :: "('c, 'x) cred_world"
    by (rule running_grants [OF w that])
  note step = wp_step [where P = grants_of and p = "grants_of (kw_db w)"]
  have put: "wp (cwrite (set_token ow provider token)) (\<lambda>_. running a) E v"
    if "grants_of (kw_db v) = grants_of (kw_db w)" "kw_others v = []" for token E and v :: "('c, 'x) cred_world"
    using run [OF that] abs_renew [OF held [OF that(1)]] that(2)
    by (intro wp_write_alone running_write) (auto simp: running_def keyed_frame(2))
  have "wp (refresh_at_server env ow provider c rt) (\<lambda>_. running a) (\<lambda>_. running a) v"
    if "grants_of (kw_db v) = grants_of (kw_db w)" "kw_others v = []" for c rt and v :: "('c, 'x) cred_world"
    unfolding refresh_at_server_def wp_bind
    apply (rule step [OF leaves_server that(2,1)])
    subgoal for server u
      apply (rule step [OF leaves_refresh_client], assumption, assumption)
      subgoal for client x
        apply (cases client)
        subgoal by (simp add: wp_throw run)
        subgoal for i
          by (simp only: option.case wp_bind)
             (rule step [OF leaves_ext], simp_all add: run, rule step [OF leaves_clock(1)], simp_all add: run,
              rule step [OF leaves_return(3)], simp_all add: run wp_return put)
        done
      by (rule run)
    by (rule run)
  then show ?thesis
    unfolding performRefresh_def wp_bind
    by (intro step [OF leaves_find(1) running_others [OF w] refl])
       (auto simp: wp_throw wp_catch run intro!: wp_mono split: option.split)
qed

lemma simulated_use: "simulated (getValidToken env ow provider)"
proof (rule simulated_wp)
  fix a and w :: "('a, 'b) cred_world" assume w: "running a w"
  show "wp (getValidToken env ow provider) (\<lambda>_. running a) (\<lambda>_. running a) w"
  proof (cases "get_token ow provider (kw_db w)")
    case None
    then show ?thesis using w running_others [OF w] by (simp add: getValidToken_def wp_def bind_split cred_query_alone returnM_def)
  next
    case (Some t)
    have run: "running a v" if "grants_of (kw_db v) = grants_of (kw_db w)" "kw_others v = []" for v :: "('a, 'b) cred_world"
      by (rule running_grants [OF w that])
    have f: "wp (refreshWithSingleFlight env ow provider t) (\<lambda>_. running a) (\<lambda>_. running a) v"
      if "grants_of (kw_db v) = grants_of (kw_db w)" "kw_others v = []" for v :: "('a, 'b) cred_world"
    proof (cases "map_of (kw_inflight v) (refreshLockKey ow provider)")
      case None
      have h: "get_token ow provider (kw_db v) \<noteq> None" using Some that(1) by (simp add: get_token_def grants_of_def)
      show ?thesis
        using simulated_refresh [OF run [OF that] h, of env t] None by (simp add: refreshWithSingleFlight_def wp_def)
    next
      case (Some r)
      then show ?thesis using run [OF that] by (simp add: refreshWithSingleFlight_def wp_def split: sum.split)
    qed
    have q: "wp (cquery (get_token ow provider)) Q E w = Q (Some t) w" for Q E
      using Some running_others [OF w] by (simp add: wp_def cred_query_alone)
    show ?thesis
      unfolding getValidToken_def wp_bind q option.case
      by (rule wp_step [OF leaves_clock(1) [where P = grants_of] running_others [OF w] refl])
         (auto simp: wp_return wp_bind run f)
  qed
qed

section \<open>The operations together\<close>

datatype link_op =
    Initiate string string "string option" "string option"
  | Callback string oauth_callback_query
  | Unlink string "string option"
  | DeleteGrants string
  | Reconcile "string list"
  | UseToken string string
  | ShowLinks "string option"

text \<open>An operation ends with an answer or an error; both leave the world as they made it.\<close>

fun run_link :: "('c, 'x) oauth_env \<Rightarrow> link_op \<Rightarrow> ('c, 'x) cred_world \<Rightarrow> ('c, 'x) cred_world" where
  "run_link env (Initiate provider base ow origin) w = snd (initiate env provider base ow origin w)"
| "run_link env (Callback provider q) w = snd (completeCallback env provider q w)"
| "run_link env (Unlink provider ow) w = snd (unlink env provider ow w)"
| "run_link env (DeleteGrants ow) w = snd (delete_grants_route env ow w)"
| "run_link env (Reconcile desired) w = snd (reconcileOAuthGrants desired w)"
| "run_link env (UseToken ow provider) w = snd (getValidToken env ow provider w)"
| "run_link env (ShowLinks ow) w = snd (listOAuthConnections env ow w)"

lemma simulated_show: "simulated (listOAuthConnections env ow)"
proof -
  have "simulated (project_providers env i grants ps)" for i grants ps
    by (induction ps) (auto simp: project_provider_def intro!: simulated_intros)
  then show ?thesis by (auto simp: listOAuthConnections_def intro!: simulated_intros)
qed

lemma running_link: "running a w \<Longrightarrow> running a (run_link env op w)"
  by (cases op) (simp_all add: simulatedD simulated_initiate simulated_callback simulated_unlink simulated_delete
    simulated_reconcile simulated_use simulated_show)

lemma running_links: "running a w \<Longrightarrow> running a (run_ops (run_link env) ops w)"
  by (induction ops arbitrary: w) (simp_all add: running_link)

lemma running_start: "kw_others w = [] \<Longrightarrow> links_keyed (kw_db w) \<Longrightarrow> running (abs_db (kw_db w)) w"
  by (simp add: running_def)

section \<open>An example\<close>

definition demo_override :: oauth_override where
  "demo_override = \<lparr>oo_providerKey = None, oo_issuer = Some ''https://as'', oo_tokenUrl = Some ''https://as/token'',
     oo_authorizeUrl = Some ''https://as/authorize'', oo_scopes = None, oo_clientId = None, oo_clientSecret = None,
     oo_registrationEndpoint = Some ''https://as/register'', oo_authorizeParams = None\<rparr>"

definition demo_connector :: "string \<Rightarrow> connector" where
  "demo_connector slug = (example_connector slug AuthUserOauth)\<lparr>kn_oauth := Some demo_override\<rparr>"

definition demo_state :: "string \<Rightarrow> string \<Rightarrow> string \<Rightarrow> json" where
  "demo_state ow provider i = JObj [(''ownerId'', JStr ow), (''provider'', JStr provider), (''linkId'', JStr i)]"

definition demo_decode :: "string \<Rightarrow> string + json" where
  "demo_decode s = (if s = ''a'' then Inr (demo_state ''ann'' ''mail'' ''i'') else if s = ''b'' then Inr (demo_state ''ann'' ''docs'' ''ii'')
     else if s = ''c'' then Inr (demo_state ''ann'' ''docs'' ''i'') else Inl ''not a state'')"

text \<open>
  One server with two backends, where a client is registered per redirect address and a token may be
  refreshed only by the client it was issued to; a token lasts one second.
\<close>

definition demo_env :: "(string, nat) oauth_env" where
  "demo_env = \<lparr>ve_loc = \<lambda>a b. True, ve_now = \<lambda>x. (int x, x), ve_uuid = \<lambda>x. (replicate (Suc x mod 5) (CHR ''i''), Suc x),
     ve_seal = \<lambda>s x. (Inr s, x), ve_unseal = Inr, ve_variable = \<lambda>_. None,
     ve_conn = \<lparr>me_connect = \<lambda>s ow x. (Inr ''client'', x), me_close = \<lambda>c x. (None, x)\<rparr>,
     vo_url = \<lambda>_. None, vo_query = \<lambda>_. [], vo_set_params = \<lambda>u _. Inr u, vo_discover = \<lambda>_ x. (Inl (CredError ''none''), x),
     vo_start = \<lambda>r x. (Inr (aq_state r, ''verifier''), x), vo_register = \<lambda>r x. (Inr (gq_redirectUri r, None), x),
     vo_exchange = \<lambda>r x. (Inr \<lparr>xt_access_token = xq_code r, xt_refresh_token = Some (fst (xq_client r)), xt_expires_in = Some 1\<rparr>, x),
     vo_refresh = \<lambda>r x. (if fst (fq_client r) = fq_refreshToken r
        then Inr \<lparr>xt_access_token = ''renewed'', xt_refresh_token = None, xt_expires_in = Some 1\<rparr>
        else Inl (SdkError ''invalid_grant'' ''issued to another client''), x),
     vo_decode = demo_decode,
     vo_encode = id, vo_json_text = \<lambda>_. [], vo_gateway_url = None, vo_listen_url = ''https://torii''\<rparr>"

definition demo_link :: "string \<Rightarrow> string \<Rightarrow> pending_link" where
  "demo_link i provider = \<lparr>pk_linkId = i, pk_ownerId = ''ann'', pk_provider = provider, pk_codeVerifier = Some ''v'',
     pk_redirectUri = buildOAuthCallbackRedirectUri ''t'' provider, pk_uiOrigin = Some ''u'', pk_status = LinkPending, pk_error = None,
     pk_createdAt = 0\<rparr>"

text \<open>An owner has begun to link both backends.\<close>

definition demo_world :: "(string, nat) cred_world" where
  "demo_world = \<lparr>kw_db = \<lparr>kd_tokens = [], kd_links = [demo_link ''i'' ''mail'', demo_link ''ii'' ''docs''], kd_clients = [],
     kd_registrations = [], kd_secrets = [], kd_connectors = [], kd_discovery = []\<rparr>, kw_others = [], kw_inflight = [],
     kw_conns = conn_start [demo_connector ''mail'', demo_connector ''docs''] [] 0\<rparr>"

text \<open>Time passes.\<close>

definition later :: "(string, nat) cred_world \<Rightarrow> (string, nat) cred_world" where
  "later w = w\<lparr>kw_conns := (kw_conns w)\<lparr>cm_ext := 5000\<rparr>\<rparr>"

definition good_query :: "string \<Rightarrow> string \<Rightarrow> oauth_callback_query" where
  "good_query state code = \<lparr>cq_code = Some code, cq_state = Some state, cq_error = None, cq_error_description = None\<rparr>"

definition link_mail :: link_op where
  "link_mail = Callback ''mail'' (good_query ''a'' ''m'')"

definition link_docs :: link_op where
  "link_docs = Callback ''docs'' (good_query ''b'' ''d'')"

text \<open>What the two callbacks leave.\<close>

definition callback_uri :: "string \<Rightarrow> string" where
  "callback_uri provider = ''t/oauth/callback/'' @ provider"

definition issued :: "string \<Rightarrow> string \<Rightarrow> oauth_token" where
  "issued code provider = \<lparr>ot_accessToken = code, ot_refreshToken = Some (callback_uri provider), ot_expiresAt = Some 1000\<rparr>"

definition registered_client :: "string \<Rightarrow> client_registration" where
  "registered_client provider = \<lparr>rg_issuer = ''https://as'', rg_clientId = callback_uri provider, rg_clientSecretRef = None,
     rg_redirectUri = Some (callback_uri provider), rg_origin = OriginDcr, rg_scopes = [], rg_createdAt = 0, rg_updatedAt = 0\<rparr>"

definition own_client_row :: "string \<Rightarrow> string \<times> provider_client" where
  "own_client_row provider = (provider, \<lparr>ci_clientId = callback_uri provider, ci_clientSecret = None,
     ci_redirectUri = Some (callback_uri provider)\<rparr>)"

definition mail_world :: "(string, nat) cred_world" where
  "mail_world = demo_world\<lparr>kw_db := (kw_db demo_world)\<lparr>kd_tokens := [((''ann'', ''mail''), issued ''m'' ''mail'')],
     kd_links := [(demo_link ''i'' ''mail'')\<lparr>pk_status := LinkCompleted\<rparr>, demo_link ''ii'' ''docs''],
     kd_clients := [own_client_row ''mail''], kd_registrations := [registered_client ''mail'']\<rparr>\<rparr>"

definition both_world :: "(string, nat) cred_world" where
  "both_world = demo_world\<lparr>kw_db := (kw_db demo_world)\<lparr>
     kd_tokens := [((''ann'', ''mail''), issued ''m'' ''mail''), ((''ann'', ''docs''), issued ''d'' ''docs'')],
     kd_links := [(demo_link ''i'' ''mail'')\<lparr>pk_status := LinkCompleted\<rparr>, (demo_link ''ii'' ''docs'')\<lparr>pk_status := LinkCompleted\<rparr>],
     kd_clients := [own_client_row ''mail'', own_client_row ''docs''], kd_registrations := [registered_client ''docs'']\<rparr>\<rparr>"

lemma demo_sel:
  "vo_decode demo_env = demo_decode" "ve_now demo_env = (\<lambda>x. (int x, x))"
  "vo_register demo_env = (\<lambda>r x. (Inr (gq_redirectUri r, None), x))"
  "vo_exchange demo_env = (\<lambda>r x. (Inr \<lparr>xt_access_token = xq_code r, xt_refresh_token = Some (fst (xq_client r)), xt_expires_in = Some 1\<rparr>, x))"
  "vo_refresh demo_env = (\<lambda>r x. (if fst (fq_client r) = fq_refreshToken r
        then Inr \<lparr>xt_access_token = ''renewed'', xt_refresh_token = None, xt_expires_in = Some 1\<rparr>
        else Inl (SdkError ''invalid_grant'' ''issued to another client''), x))"
  by (simp_all add: demo_env_def)

lemmas demo_eval = bind_split returnM_def throwM_def catchM_def liftC_def registryM_def on_ext_def cnowM_def cuuidM_def cred_query_alone
  write_alone cred_stmt_alone completeCallback_def resolveCallbackContext_def exchangeAndStoreToken_def exchange_code_def resolveConnector_def
  find_provider_def resolveOAuthServer_def ensureClient_def link_loadIssuerClient_def register_client_def persistRegisteredClient_def
  persist_secret_def saved_registration_def registered_secret_def toStoredOAuthToken_def nonempty_def decodeOAuthLinkState_def
  demo_decode_def demo_state_def truthy_of_def link_of_state_def text_of_def get_link_def demo_world_def demo_link_def tbl_simps
  connector_of_provider_def find_connector_def conn_start_def demo_connector_def demo_override_def example_connector_def
  metadataFromOverride_def override_metadata_def override_of_def own_client_def text_in_def get_registration_def get_client_def
  set_client_def upsert_registration_def set_token_def update_link_def get_token_def buildOAuthCallbackRedirectUri_def strip_slash_def
  clientInformationFrom_def rowToRegistration_def Let_def demo_sel link_mail_def link_docs_def good_query_def callback_uri_def
  issued_def registered_client_def own_client_row_def mail_world_def both_world_def tbl_update_def

lemma mail_linked: "run_link demo_env link_mail demo_world = mail_world"
  by (simp add: demo_eval)

lemma docs_linked: "run_link demo_env link_docs mail_world = both_world"
  by (simp add: demo_eval)

lemma mail_renewed: "map_sum id (map_option ot_accessToken) (fst (getValidToken demo_env ''ann'' ''mail'' (later mail_world))) = Inr (Some ''renewed'')"
  by (simp add: demo_eval getValidToken_def later_def isExpired_def refreshWithSingleFlight_def performRefresh_def refresh_at_server_def
      refresh_client_def)

lemma mail_stuck: "fst (getValidToken demo_env ''ann'' ''mail'' (later both_world)) = Inl (RefreshError ''issued to another client'' True)"
  by (simp add: demo_eval getValidToken_def later_def isExpired_def refreshWithSingleFlight_def performRefresh_def refresh_at_server_def
      refresh_client_def as_refresh_error_def cred_message_def isTerminalOAuthFailure_def terminal_codes_def)

end
