(* ===== verification/OAuthGuarantees.thy ===== *)
theory OAuthGuarantees
  imports LinkProtocol
begin

text \<open>
  The guarantees of linking: the operations refine the protocol of links, whose grants follow
  answered links; a callback stores a token only for the pending link it names; a call carries the
  token of its own owner; and the cases in which the code does less.
\<close>

section \<open>Refinement\<close>



text \<open>
  From tables without grants, after any requests, every grant is held by an owner one of whose
  links a callback has answered: an owner who never came back from an authorization has no token.
\<close>
theorem grants_follow_answered_links:
  assumes "kw_others w = []" "links_keyed (kw_db w)" "kd_tokens (kw_db w) = []"
    "get_token ow provider (kw_db (run_ops (run_link env) ops w)) \<noteq> None"
  shows "\<exists>i l. get_link i (kw_db (run_ops (run_link env) ops w)) = Some l \<and> pk_ownerId l = ow \<and> pk_status l \<noteq> LinkPending"
proof -
  have "answered (abs_db (kw_db w))" using assms(3) by (simp add: answered_def abs_db_def)
  moreover have "link_run (abs_db (kw_db w)) (abs_db (kw_db (run_ops (run_link env) ops w)))"
    using running_links [OF running_start [OF assms(1,2)]] by (simp add: running_def)
  ultimately have "answered (abs_db (kw_db (run_ops (run_link env) ops w)))" by (rule answered_run [rotated])
  from answeredD [OF this, of ow provider] show ?thesis
    using assms(4) by (auto simp: abs_db_def abs_links_def get_token_def)
qed

theorem grants_follow_answered_links_witness:
  "\<exists>i l. get_link i (kw_db mail_world) = Some l \<and> pk_ownerId l = ''ann'' \<and> pk_status l \<noteq> LinkPending"
proof -
  have w: "kw_others demo_world = []" "links_keyed (kw_db demo_world)" "kd_tokens (kw_db demo_world) = []"
    by (simp_all add: demo_world_def links_keyed_def demo_link_def)
  have "get_token ''ann'' ''mail'' (kw_db (run_ops (run_link demo_env) [link_mail] demo_world)) \<noteq> None"
    by (simp add: mail_linked mail_world_def get_token_def)
  from grants_follow_answered_links [OF w this] show ?thesis by (simp add: mail_linked)
qed

section \<open>Callbacks\<close>

lemma exchanged_tokens: "exchanged provider l db db' \<Longrightarrow> \<exists>t. kd_tokens db' = map_put (pk_ownerId l, provider) t (kd_tokens db)"
  by (auto simp: exchanged_def grants_of_def update_link_def set_token_def)

lemma exchange_tokens:
  assumes "kw_others w = []" "exchangeAndStoreToken env provider code l w = (r, w')" "kd_tokens (kw_db w') \<noteq> kd_tokens (kw_db w)"
  shows "\<exists>t. kd_tokens (kw_db w') = map_put (pk_ownerId l, provider) t (kd_tokens (kw_db w))"
proof -
  let ?Q = "\<lambda>w'. kd_tokens (kw_db w') = kd_tokens (kw_db w) \<or> (\<exists>t. kd_tokens (kw_db w') = map_put (pk_ownerId l, provider) t (kd_tokens (kw_db w)))"
  have fail: "wp (callbackFailure e i) (\<lambda>_. ?Q) (\<lambda>_. ?Q) v" if "?Q v" "kw_others v = []" for e i v
    using that by (intro wp_step [OF leaves_tokens_failed(1) that(2) refl]) auto
  have "wp (exchangeAndStoreToken env provider code l) (\<lambda>_. ?Q) (\<lambda>_. ?Q) w"
    unfolding exchangeAndStoreToken_def wp_bind
  proof (rule wp_step [OF leaves_find(2) [where P = grants_of] assms(1) refl], goal_cases)
    case (1 found v)
    then have v: "kd_tokens (kw_db v) = kd_tokens (kw_db w)" by (simp add: grants_of_def)
    show ?case
    proof (cases found)
      case None
      then show ?thesis using fail [of v] v 1(2) by (simp add: wp_bind wp_return)
    next
      case (Some c)
      show ?thesis
        unfolding Some option.case wp_catch wp_bind wp_return
        by (rule wp_mono [OF exchange_spec [OF 1(2)]])
           (use v in \<open>auto dest!: exchanged_tokens simp: grants_of_def intro!: fail\<close>)
    qed
  qed (simp add: grants_of_def)
  then show ?thesis using assms by (auto simp: wp_def split: sum.splits)
qed

text \<open>
  C26. A callback that changes the grants at all, with no other writer, sets one grant: that of the
  provider of its address, for the owner of a link that is pending, that its state names, and whose
  owner and the provider of the address its state names too.
\<close>
theorem callback_stores_for_pending_link:
  assumes "kw_others w = []" "completeCallback env provider q w = (r, w')" "kd_tokens (kw_db w') \<noteq> kd_tokens (kw_db w)"
  shows "\<exists>l t. callback_link env provider q (kw_db w) l \<and> kd_tokens (kw_db w') = map_put (pk_ownerId l, provider) t (kd_tokens (kw_db w))"
proof (cases "Option.bind (cq_error q) nonempty")
  case (Some e)
  have "leaves kd_tokens (completeCallback env provider q)"
    by (auto simp: completeCallback_def failLatestLink_def Some Let_def intro!: leaves_intros split: option.split sum.split)
  then show ?thesis using leavesD assms by fastforce
next
  case None
  obtain x v where m: "resolveCallbackContext env provider q w = (x, v)" by (cases "resolveCallbackContext env provider q w")
  have v: "kd_tokens (kw_db v) = kd_tokens (kw_db w)" "kw_others v = []"
    using leavesD [OF leaves_context assms(1)] m by (metis snd_conv)+
  have page: "kd_tokens (kw_db (snd (bindM (callbackPageFromState env provider s e) (\<lambda>p. returnM (f p)) v))) = kd_tokens (kw_db v)" for s e f
    using leavesD [OF _ v(2), of kd_tokens "bindM (callbackPageFromState env provider s e) (\<lambda>p. returnM (f p))"]
    by (auto intro!: leaves_intros)
  show ?thesis
  proof (cases x)
    case (Inl e)
    then show ?thesis using assms v m by (simp add: completeCallback_def None bind_split)
  next
    case x: (Inr y)
    show ?thesis
    proof (cases y)
      case (Inl e)
      then show ?thesis
        using assms(2,3) v(1) m x page [of "cq_state q" e "\<lambda>p. \<lparr>qr_success = False, qr_error = Some e, qr_page = Some p\<rparr>"]
        by (simp add: completeCallback_def None bind_split [of "resolveCallbackContext _ _ _"])
    next
      case (Inr z)
      obtain code l where z: "z = (code, l)" by (cases z)
      note c = context_accepts [OF assms(1) m [unfolded x Inr z]]
      have "exchangeAndStoreToken env provider code l w = (r, w')"
        using assms(2) m x Inr z c(2) by (simp add: completeCallback_def None bind_split)
      from exchange_tokens [OF assms(1) this assms(3)] show ?thesis using c(1) by blast
    qed
  qed
qed

theorem callback_stores_for_pending_link_witness:
  "\<exists>l t. callback_link demo_env ''mail'' (good_query ''a'' ''m'') (kw_db demo_world) l \<and>
     kd_tokens (kw_db mail_world) = map_put (pk_ownerId l, ''mail'') t (kd_tokens (kw_db demo_world))"
proof -
  have w: "kw_others demo_world = []" by (simp add: demo_world_def)
  obtain r w' where c: "completeCallback demo_env ''mail'' (good_query ''a'' ''m'') demo_world = (r, w')"
    by (cases "completeCallback demo_env ''mail'' (good_query ''a'' ''m'') demo_world")
  have m: "w' = mail_world" using mail_linked c by (simp add: link_mail_def)
  have "kd_tokens (kw_db w') \<noteq> kd_tokens (kw_db demo_world)" by (simp add: m mail_world_def demo_world_def)
  from callback_stores_for_pending_link [OF w c this] show ?thesis by (simp add: m)
qed

text \<open>
  The state is not signed and the link's own provider is not compared: a link that was begun for
  one provider is completed by the callback of another, and the owner has a grant for a provider that
  nobody asked to link.
\<close>
theorem callback_crosses_providers:
  "let w = run_link demo_env (Callback ''docs'' (good_query ''c'' ''code'')) demo_world in
     get_token ''ann'' ''docs'' (kw_db w) \<noteq> None \<and> get_token ''ann'' ''mail'' (kw_db w) = None \<and>
     map_option (\<lambda>l. (pk_provider l, pk_status l)) (get_link ''i'' (kw_db w)) = Some (''mail'', LinkCompleted) \<and>
     map_option pk_status (get_link ''ii'' (kw_db w)) = Some LinkPending"
  by (simp add: demo_eval)


section \<open>Failures reported by a callback\<close>

text \<open>
  C29. An error callback needs nothing but the name of a link: whoever sends one with a state that
  names a link marks it as failed whatever its status is, completed links included, and leaves the
  grants alone, so that an owner whose token is there is told that linking failed.
\<close>
theorem error_callback_fails_any_link:
  assumes "kw_others w = []" "Option.bind (cq_error q) nonempty = Some e" "Option.bind (cq_state q) nonempty = Some state"
    "decodeOAuthLinkState env state = Inr s" "ls_provider s = JStr provider" "link_of_state env s = Some i" "i \<noteq> []"
    "get_link i (kw_db w) = Some l"
  shows "let w' = snd (completeCallback env provider q w) in
    map_option pk_status (get_link i (kw_db w')) = Some LinkFailed \<and> kd_tokens (kw_db w') = kd_tokens (kw_db w)"
proof -
  let ?l = "\<lambda>m. l\<lparr>pk_status := LinkFailed, pk_error := Some m\<rparr>"
  have i: "pk_linkId l = i" by (rule get_link_id [OF assms(8)])
  have ne: "nonempty i = Some i" using assms(7) by (simp add: nonempty_def)
  have u: "get_link i (update_link (?l m) (kw_db w)) = Some (?l m)" for m
    using get_link_update [of "?l m" "kw_db w" i] assms(8) i by simp
  show ?thesis
    using assms by (simp add: completeCallback_def failLatestLink_def markLinkFailed_def callbackPageFromState_def bind_split cred_query_alone
      write_alone returnM_def Let_def ne u) (simp add: update_link_def)
qed

definition denied_query :: oauth_callback_query where
  "denied_query = \<lparr>cq_code = None, cq_state = Some ''a'', cq_error = Some ''denied'', cq_error_description = None\<rparr>"

theorem error_callback_fails_any_link_witness:
  "let w' = snd (completeCallback demo_env ''mail'' denied_query mail_world) in
    map_option pk_status (get_link ''i'' (kw_db w')) = Some LinkFailed \<and> get_token ''ann'' ''mail'' (kw_db w') \<noteq> None"
proof -
  have a: "kw_others mail_world = []" "Option.bind (cq_error denied_query) nonempty = Some ''denied''"
    "Option.bind (cq_state denied_query) nonempty = Some ''a''"
    "decodeOAuthLinkState demo_env ''a'' = Inr \<lparr>ls_ownerId = JStr ''ann'', ls_provider = JStr ''mail'', ls_linkId = Some (JStr ''i'')\<rparr>"
    "link_of_state demo_env \<lparr>ls_ownerId = JStr ''ann'', ls_provider = JStr ''mail'', ls_linkId = Some (JStr ''i'')\<rparr> = Some ''i''"
    "get_link ''i'' (kw_db mail_world) = Some ((demo_link ''i'' ''mail'')\<lparr>pk_status := LinkCompleted\<rparr>)"
    by (simp_all add: denied_query_def demo_eval)
  have "kd_tokens (kw_db (snd (completeCallback demo_env ''mail'' denied_query mail_world))) = kd_tokens (kw_db mail_world)"
    "map_option pk_status (get_link ''i'' (kw_db (snd (completeCallback demo_env ''mail'' denied_query mail_world)))) = Some LinkFailed"
    using error_callback_fails_any_link [OF a(1-4) _ a(5) _ a(6), of "''mail''"] by (simp_all add: Let_def)
  then show ?thesis by (simp add: Let_def get_token_def mail_world_def)
qed

section \<open>Credentials of a call\<close>

lemma set_token_get: "get_token ow p (set_token ow p t db) = Some t"
  by (simp add: get_token_def set_token_def map_of_map_put)

text \<open>The token a refresh returns is the one its last statement stored, whatever others wrote before.\<close>

lemma wp_set_token:
  "(\<And>w'. get_token ow p (kw_db w') = Some t \<Longrightarrow> Q () w') \<Longrightarrow> wp (cwrite (set_token ow p t)) Q E w"
  by (auto simp: wp_def cwrite_def cstmt_def Let_def set_token_get)

lemma wp_whatever: "(\<And>x w'. Q x w') \<Longrightarrow> (\<And>e w'. E e w') \<Longrightarrow> wp m Q E w"
  by (simp add: wp_def split: prod.split sum.split)

lemmas wp_whatevers = wp_whatever [where m = "on_ext f" for f] wp_whatever [where m = "cnowM env" for env] wp_whatever [where m = "liftC r" for r]
  wp_whatever [where m = "refresh_client env p c i" for env p c i]

lemma refreshed_is_stored:
  "wp (performRefresh env ow p stale) (\<lambda>t w'. get_token ow p (kw_db w') = Some t) (\<lambda>_ _. True) w"
proof -
  have r: "wp (refresh_at_server env ow p c rt) (\<lambda>t w'. get_token ow p (kw_db w') = Some t) (\<lambda>_ _. True) v" for c rt v
    unfolding refresh_at_server_def wp_bind
    by (rule wp_whatever) (auto simp: wp_bind wp_throw wp_return split: option.split intro!: wp_whatevers wp_set_token)
  show ?thesis
    unfolding performRefresh_def wp_bind
    by (rule wp_whatever) (auto simp: wp_throw wp_catch split: option.split intro!: wp_mono [OF r])
qed

lemma handed_out_is_stored:
  assumes "kw_inflight w = []"
  shows "wp (getValidToken env ow p) (\<lambda>t w'. case t of None \<Rightarrow> True | Some t' \<Rightarrow> get_token ow p (kw_db w') = Some t') (\<lambda>_ _. True) w"
proof -
  have q: "wp (cquery (get_token ow p)) Q (\<lambda>_ _. True) w" if "\<And>v. kw_inflight v = [] \<Longrightarrow> Q (get_token ow p (kw_db v)) v" for Q
  proof -
    have "kw_inflight (others_write w) = []" using assms by (simp add: others_write_def)
    from that [OF this] show ?thesis by (simp add: wp_def cquery_def cstmt_def Let_def)
  qed
  have clock: "wp (cnowM env) Q (\<lambda>_ _. True) v" if "\<And>x u. kw_inflight u = kw_inflight v \<Longrightarrow> kw_db u = kw_db v \<Longrightarrow> Q x u" for Q v
    using that by (simp add: wp_def cnowM_def on_ext_def split: prod.split)
  have "wp (refreshWithSingleFlight env ow p t) (\<lambda>t' w'. get_token ow p (kw_db w') = Some t') (\<lambda>_ _. True) v"
    if "kw_inflight v = []" for t v
    using refreshed_is_stored [of env ow p t v] that by (simp add: refreshWithSingleFlight_def wp_def)
  then show ?thesis
    unfolding getValidToken_def wp_bind
    by (intro q) (auto simp: wp_return wp_bind split: option.split intro!: clock)
qed


definition mail_server :: server_config where
  "mail_server = toServerConfig (demo_connector ''mail'')"


end
