(* ===== verification/ToolCatalog.thy ===== *)
theory ToolCatalog
  imports OAuthLinks GroupPolicy Namespacing
begin

text \<open>
  The tools of the backends as agents see them: \<^verbatim>\<open>apps/torii/src/catalog/tool-catalog.service.ts\<close>.
  Listing the tools of a client is a parameter; the backends, which the code asks together, are asked
  one after the other.
\<close>

section \<open>State\<close>

record mcp_tool =
  mt_name :: string
  mt_description :: "string option"
  mt_rest :: jobj

record listed_tool =
  lt_server :: string
  lt_bareName :: string
  lt_namespacedName :: string
  lt_tool :: mcp_tool

record server_tool_view =
  sv_name :: string
  sv_description :: "string option"
  sv_allowed :: bool

datatype catalog_log =
    PolicyLogged policy_log
  | LinkingLogged string string
  | ListFailed string string

record ('c, 'x) catalog_world =
  gw_cred :: "('c, 'x) cred_world"
  gw_catalog :: "listed_tool list"
  gw_serverTools :: "(string \<times> server_tool_view list) list"
  gw_discovered :: "(string \<times> mcp_tool list) list"
  gw_groups :: "group_policy_snapshot list"
  gw_logs :: "catalog_log list"

type_synonym ('c, 'x, 'a) catalog_comp = "(('c, 'x) catalog_world, cred_exn, 'a) comp"

record ('c, 'x) catalog_env =
  le_oauth :: "('c, 'x) oauth_env"
  le_listTools :: "'c \<Rightarrow> 'x \<Rightarrow> (string + mcp_tool list) \<times> 'x"

definition on_cred :: "('c, 'x, 'a) cred_comp \<Rightarrow> ('c, 'x, 'a) catalog_comp" where
  "on_cred m w = (case m (gw_cred w) of (r, v) \<Rightarrow> (r, w\<lparr>gw_cred := v\<rparr>))"

definition conns_of :: "('c, 'x) catalog_world \<Rightarrow> ('c, 'x) conn_world" where
  "conns_of w = kw_conns (gw_cred w)"

definition log_catalog :: "catalog_log list \<Rightarrow> ('c, 'x, unit) catalog_comp" where
  "log_catalog ls = modifyM (\<lambda>w. w\<lparr>gw_logs := gw_logs w @ ls\<rparr>)"

definition findTool :: "string \<Rightarrow> ('c, 'x) catalog_world \<Rightarrow> listed_tool option" where
  "findTool n w = find (\<lambda>e. lt_namespacedName e = n) (gw_catalog w)"

definition getServerTools :: "string \<Rightarrow> ('c, 'x) catalog_world \<Rightarrow> server_tool_view list" where
  "getServerTools name w = or_else (map_of (gw_serverTools w) name) []"

section \<open>Refreshing\<close>

text \<open>What a refresh has put together: the catalog, the views of a server, which servers answered and which failed.\<close>

record refresh_state =
  rf_catalog :: "listed_tool list"
  rf_serverTools :: "(string \<times> server_tool_view list) list"
  rf_refreshed :: "string list"
  rf_failed :: "string list"

definition listed :: "string \<Rightarrow> mcp_tool \<Rightarrow> listed_tool" where
  "listed server t = \<lparr>lt_server = server, lt_bareName = mt_name t, lt_namespacedName = namespaceTool server (mt_name t),
     lt_tool = t\<lparr>mt_name := namespaceTool server (mt_name t)\<rparr>\<rparr>"

definition populateServerCatalog ::
    "group_policy_snapshot list \<Rightarrow> string \<Rightarrow> mcp_tool list \<Rightarrow> refresh_state \<Rightarrow> refresh_state" where
  "populateServerCatalog groups server tools st =
    st\<lparr>rf_catalog := rf_catalog st @ map (listed server) (filter (\<lambda>t. isConfiguredGrant groups server (mt_name t)) tools),
       rf_serverTools := map_put server
         (map (\<lambda>t. \<lparr>sv_name = mt_name t, sv_description = mt_description t,
            sv_allowed = isConfiguredGrant groups server (mt_name t)\<rparr>) tools) (rf_serverTools st)\<rparr>"

definition warn_unknown :: "string \<Rightarrow> mcp_tool list \<Rightarrow> ('c, 'x, unit) catalog_comp" where
  "warn_unknown server tools w = log_catalog (map PolicyLogged (warnUnknownPolicyTools (gw_groups w) server (map mt_name tools))) w"

definition forget_tools :: "string \<Rightarrow> ('c, 'x, unit) catalog_comp" where
  "forget_tools server = modifyM (\<lambda>w. w\<lparr>gw_discovered := drop_key server (gw_discovered w)\<rparr>)"

definition remember_tools :: "string \<Rightarrow> mcp_tool list \<Rightarrow> ('c, 'x, unit) catalog_comp" where
  "remember_tools server tools = modifyM (\<lambda>w. w\<lparr>gw_discovered := map_put server tools (gw_discovered w)\<rparr>)"

definition list_tools ::
    "('c, 'x) catalog_env \<Rightarrow> string option \<Rightarrow> server_config \<Rightarrow> 'c \<Rightarrow> ('c, 'x, mcp_tool list) catalog_comp" where
  "list_tools env amb config client =
    on_cred (bindM (resolve_credentials (le_oauth env) amb config) (\<lambda>_.
      on_ext (\<lambda>x. case le_listTools env client x of (r, x') \<Rightarrow> (map_sum CredError id r, x'))))"

definition list_failure :: "server_config \<Rightarrow> refresh_state \<Rightarrow> cred_exn \<Rightarrow> ('c, 'x, refresh_state) catalog_comp" where
  "list_failure config st e =
    (case e of
       LinkingRequired p _ _ _ \<Rightarrow> bindM (log_catalog [LinkingLogged (sc_name config) p]) (\<lambda>_. returnM st)
     | NoCredentials m \<Rightarrow> bindM (log_catalog [ListFailed (sc_name config) m]) (\<lambda>_. returnM st)
     | _ \<Rightarrow> bindM (forget_tools (sc_name config)) (\<lambda>_.
            bindM (log_catalog [ListFailed (sc_name config)
              (''Failed to list tools from backend \"'' @ sc_name config @ ''\": '' @ cred_message e)]) (\<lambda>_.
            returnM (st\<lparr>rf_failed := sc_name config # rf_failed st\<rparr>))))"

definition populateM :: "bool \<Rightarrow> string \<Rightarrow> mcp_tool list \<Rightarrow> refresh_state \<Rightarrow> ('c, 'x, refresh_state) catalog_comp" where
  "populateM warn server tools st =
    bindM (if warn then warn_unknown server tools else returnM ()) (\<lambda>_ w.
      (Inr (populateServerCatalog (gw_groups w) server tools st), w))"

definition ask_backend ::
    "('c, 'x) catalog_env \<Rightarrow> string option \<Rightarrow> 'c connection \<Rightarrow> refresh_state \<Rightarrow> ('c, 'x, refresh_state) catalog_comp" where
  "ask_backend env amb c st =
    (case cn_client c of
       None \<Rightarrow> returnM st
     | Some client \<Rightarrow>
         if is_user_oauth (cn_config c) \<and> Option.bind amb nonempty = None then returnM st
         else catchM
           (bindM (list_tools env amb (cn_config c) client) (\<lambda>tools.
            bindM (remember_tools (sc_name (cn_config c)) tools) (\<lambda>_.
            populateM True (sc_name (cn_config c)) tools (st\<lparr>rf_refreshed := sc_name (cn_config c) # rf_refreshed st\<rparr>))))
           (list_failure (cn_config c) st))"

text \<open>The tools found before, for the accounts that could not be asked now.\<close>

definition keep_known :: "'c connection \<Rightarrow> refresh_state \<Rightarrow> ('c, 'x, refresh_state) catalog_comp" where
  "keep_known c st w =
    (let server = sc_name (cn_config c) in
     if server \<in> set (rf_refreshed st) \<or> server \<in> set (rf_failed st) \<or> \<not> is_user_oauth (cn_config c) then (Inr st, w)
     else (case map_of (gw_discovered w) server of
       None \<Rightarrow> (Inr st, w) | Some tools \<Rightarrow> populateM False server tools st w))"

fun each_connection ::
    "('c connection \<Rightarrow> refresh_state \<Rightarrow> ('c, 'x, refresh_state) catalog_comp) \<Rightarrow> 'c connection list \<Rightarrow> refresh_state \<Rightarrow>
     ('c, 'x, refresh_state) catalog_comp" where
  "each_connection f [] st = returnM st"
| "each_connection f (c # cs) st = bindM (f c st) (each_connection f cs)"

definition no_tools :: refresh_state where
  "no_tools = \<lparr>rf_catalog = [], rf_serverTools = [], rf_refreshed = [], rf_failed = []\<rparr>"

definition refresh_catalog :: "('c, 'x) catalog_env \<Rightarrow> string option \<Rightarrow> ('c, 'x, listed_tool list) catalog_comp" where
  "refresh_catalog env amb w =
    (let all = list_connections amb amb (conns_of w);
         active = map (\<lambda>c. sc_name (cn_config c)) all in
     bindM (modifyM (\<lambda>w. w\<lparr>gw_discovered := filter (\<lambda>e. fst e \<in> set active) (gw_discovered w)\<rparr>)) (\<lambda>_.
     bindM (each_connection (ask_backend env amb) (filter (\<lambda>c. cn_state c = Connected) all) no_tools) (\<lambda>st.
     bindM (each_connection keep_known all st) (\<lambda>st.
     (let catalog = sort_by (\<lambda>l r. ve_loc (le_oauth env) (lt_namespacedName l) (lt_namespacedName r)) (rf_catalog st) in
      bindM (modifyM (\<lambda>w. w\<lparr>gw_catalog := catalog, gw_serverTools := rf_serverTools st\<rparr>)) (\<lambda>_. returnM catalog))))) w)"

section \<open>The list for an agent\<close>

definition agent_tool_list_ttl_ms :: int where "agent_tool_list_ttl_ms = 60000"

record tools_list_result =
  tl_tools :: "mcp_tool list"
  tl_ttlMs :: int
  tl_cacheScope :: string

definition list_allows :: "group_policy_snapshot list \<Rightarrow> agent_principal \<Rightarrow> listed_tool \<Rightarrow> bool" where
  "list_allows groups p e \<longleftrightarrow> pe_decision (fst (evaluate groups (Some p) (lt_server e) (lt_bareName e))) \<noteq> Denied"

definition policy_logs :: "group_policy_snapshot list \<Rightarrow> agent_principal \<Rightarrow> listed_tool list \<Rightarrow> catalog_log list" where
  "policy_logs groups p es = map PolicyLogged (concat (map (\<lambda>e. snd (evaluate groups (Some p) (lt_server e) (lt_bareName e))) es))"

definition listToolsForAgent :: "('c, 'x) catalog_env \<Rightarrow> agent_principal \<Rightarrow> ('c, 'x, tools_list_result) catalog_comp" where
  "listToolsForAgent env p =
    bindM (on_cred (on_conns (ensureUserOAuthConnected (ve_conn (le_oauth env)) (Some (pr_ownerId p)) None))) (\<lambda>_.
    bindM (refresh_catalog env (Some (pr_ownerId p))) (\<lambda>catalog w.
    bindM (log_catalog (policy_logs (gw_groups w) p catalog)) (\<lambda>_.
    returnM \<lparr>tl_tools = map lt_tool (filter (list_allows (gw_groups w) p) catalog), tl_ttlMs = agent_tool_list_ttl_ms,
      tl_cacheScope = ''private''\<rparr>) w))"

end
