(* ===== verification/ConnectorAdmin.thy ===== *)
theory ConnectorAdmin
  imports ToolCatalog OAuthApi
begin

text \<open>
  The administration of connectors: \<^verbatim>\<open>apps/torii/src/connectors/connector-management.service.ts\<close>,
  \<^verbatim>\<open>utils/project-connector.ts\<close> and the routes of \<^verbatim>\<open>connectors-api.controller.ts\<close>. A write reloads the
  registry, reconciles the connections and refreshes the catalog, in the context of no agent; the
  notification of other replicas is counted in the state of the outside through \<open>ae_notify\<close>.
\<close>

record ('c, 'x) admin_env =
  ae_catalog :: "('c, 'x) catalog_env"
  ae_notify :: "'x \<Rightarrow> (cred_exn + unit) \<times> 'x"
  ae_is_url :: "string \<Rightarrow> bool"

abbreviation ae_oauth :: "('c, 'x) admin_env \<Rightarrow> ('c, 'x) oauth_env" where
  "ae_oauth env \<equiv> le_oauth (ae_catalog env)"

section \<open>What is shown of a connector\<close>

record public_oauth_client =
  po_set :: bool
  po_issuer :: "string option"
  po_clientId :: "string option"

record public_connector =
  pn_slug :: string
  pn_displayName :: string
  pn_url :: string
  pn_authMode :: auth_mode
  pn_enabled :: bool
  pn_catalogId :: "string option"
  pn_catalogVersion :: "string option"
  pn_icon :: "string option"
  pn_serviceKey :: "(bool \<times> string option) option"
  pn_oauthClient :: "public_oauth_client option"
  pn_createdAt :: int
  pn_updatedAt :: int

definition filled :: "string option \<Rightarrow> string option" where
  "filled v = Option.bind v nonempty"

definition projectPublicConnector :: "connector \<Rightarrow> public_oauth_client option \<Rightarrow> public_connector" where
  "projectPublicConnector c client =
    \<lparr>pn_slug = kn_slug c, pn_displayName = kn_displayName c, pn_url = kn_url c, pn_authMode = kn_authMode c,
     pn_enabled = kn_enabled c, pn_catalogId = filled (kn_catalogId c), pn_catalogVersion = filled (kn_catalogVersion c),
     pn_icon = filled (kn_icon c),
     pn_serviceKey = (if kn_authMode c = AuthServiceKey
       then Some (filled (kn_serviceKeyRef c) \<noteq> None \<or> filled (kn_resolvedServiceKey c) \<noteq> None, filled (kn_serviceKeyHeader c))
       else None),
     pn_oauthClient = client, pn_createdAt = kn_createdAt c, pn_updatedAt = kn_updatedAt c\<rparr>"

definition first_filled :: "string option \<Rightarrow> string option \<Rightarrow> string option" where
  "first_filled a b = (case filled a of None \<Rightarrow> filled b | s \<Rightarrow> s)"

definition public_client :: "connector \<Rightarrow> string option \<Rightarrow> client_registration option \<Rightarrow> public_oauth_client" where
  "public_client c issuer registration =
    \<lparr>po_set = (filled (override_of c oo_clientId) \<noteq> None \<or> filled (map_option rg_clientId registration) \<noteq> None),
     po_issuer = first_filled (map_option rg_issuer registration) issuer,
     po_clientId = first_filled (map_option rg_clientId registration) (override_of c oo_clientId)\<rparr>"

definition toPublic :: "connector \<Rightarrow> ('c, 'x, public_connector) cred_comp" where
  "toPublic c =
    bindM (case filled (override_of c oo_issuer) of
        Some i \<Rightarrow> returnM (Some i)
      | None \<Rightarrow> bindM (cquery (get_discovery (kn_url c))) (\<lambda>d. returnM (map_option dy_issuer d))) (\<lambda>issuer.
    bindM (case filled issuer of
        None \<Rightarrow> returnM None
      | Some i \<Rightarrow> cquery (get_registration i)) (\<lambda>registration.
    returnM (projectPublicConnector c
      (if kn_authMode c = AuthUserOauth then Some (public_client c issuer registration) else None))))"

fun all_public :: "connector list \<Rightarrow> ('c, 'x, public_connector list) cred_comp" where
  "all_public [] = returnM []"
| "all_public (c # cs) = bindM (toPublic c) (\<lambda>p. bindM (all_public cs) (\<lambda>ps. returnM (p # ps)))"

definition list_public :: "('c, 'x, public_connector list) cred_comp" where
  "list_public = bindM registryM all_public"

definition get_public :: "string \<Rightarrow> ('c, 'x, public_connector option) cred_comp" where
  "get_public name = bindM registryM (\<lambda>cs. case find_connector name cs of
     None \<Rightarrow> returnM None | Some c \<Rightarrow> bindM (toPublic c) (\<lambda>p. returnM (Some p)))"

section \<open>Secrets and registrations\<close>

definition storeServiceKey ::
    "('c, 'x) admin_env \<Rightarrow> string option \<Rightarrow> string option \<Rightarrow> ('c, 'x, string option) cred_comp" where
  "storeServiceKey env serviceKey envRef =
    (case filled envRef of
       Some name \<Rightarrow> bindM (createEnvRefSecret (ae_oauth env) name) (\<lambda>s.
         bindM (cstmt (insert_secret s)) (\<lambda>_. returnM (Some (se_id s))))
     | None \<Rightarrow> (case filled serviceKey of
         Some key \<Rightarrow> bindM (createSealedSecret (ae_oauth env) key) (\<lambda>s.
           bindM (cstmt (insert_secret s)) (\<lambda>_. returnM (Some (se_id s))))
       | None \<Rightarrow> returnM None))"

definition storeManualRegistration :: "('c, 'x) admin_env \<Rightarrow> oauth_override option \<Rightarrow> ('c, 'x, unit) cred_comp" where
  "storeManualRegistration env oauth =
    (case (filled (Option.bind oauth oo_issuer), filled (Option.bind oauth oo_clientId), filled (Option.bind oauth oo_clientSecret)) of
       (Some issuer, Some clientId, Some clientSecret) \<Rightarrow>
         bindM (createSealedSecret (ae_oauth env) clientSecret) (\<lambda>s.
         bindM (cstmt (insert_secret s)) (\<lambda>_.
         bindM (cnowM (ae_oauth env)) (\<lambda>t.
         bindM (cwrite (upsert_registration \<lparr>rg_issuer = issuer, rg_clientId = clientId, rg_clientSecretRef = Some (se_id s),
           rg_redirectUri = None, rg_origin = OriginManual, rg_scopes = or_else (Option.bind oauth oo_scopes) [],
           rg_createdAt = t, rg_updatedAt = t\<rparr>)) (\<lambda>_.
         saved_registration issuer))))
     | _ \<Rightarrow> returnM ())"

section \<open>Writes\<close>

definition refreshFromStore :: "('c, 'x) admin_env \<Rightarrow> ('c, 'x, unit) catalog_comp" where
  "refreshFromStore env =
    bindM (on_cred (loadIntoRegistry (ae_oauth env))) (\<lambda>_.
    bindM (on_cred (on_conns (reconcile (ve_conn (ae_oauth env)) None))) (\<lambda>_.
    bindM (refresh_catalog (ae_catalog env) None) (\<lambda>_.
    on_cred (on_conns (rebroadcast None None None)))))"

definition refreshRuntimeAndNotify :: "('c, 'x) admin_env \<Rightarrow> ('c, 'x, unit) catalog_comp" where
  "refreshRuntimeAndNotify env = bindM (refreshFromStore env) (\<lambda>_. on_cred (on_ext (ae_notify env)))"

text \<open>The connector of the registry under a slug, else the row written.\<close>

definition show_written :: "string \<Rightarrow> connector \<Rightarrow> ('c, 'x, public_connector) catalog_comp" where
  "show_written name row = on_cred (bindM registryM (\<lambda>cs. toPublic (or_else (find_connector name cs) row)))"

definition insert_row :: "('c, 'x) admin_env \<Rightarrow> connector \<Rightarrow> ('c, 'x, connector) cred_comp" where
  "insert_row env c =
    bindM (cnowM (ae_oauth env)) (\<lambda>t.
    bindM (cstmt (insert_connector_row (c\<lparr>kn_createdAt := t, kn_updatedAt := t, kn_oauth := map_option stripSecret (kn_oauth c)\<rparr>))) (\<lambda>_.
    bindM (cquery (get_connector (kn_slug c))) (\<lambda>created. case created of
      None \<Rightarrow> throwM (CredError (''Failed to insert connector \"'' @ kn_slug c @ ''\"''))
    | Some row \<Rightarrow> returnM row)))"

text \<open>What a patch names: a column that is not given keeps the value that was read.\<close>

record connector_patch =
  cp_displayName :: "string option"
  cp_url :: "string option"
  cp_enabled :: "bool option"
  cp_icon :: "string option"
  cp_serviceKeyRef :: "string option"
  cp_serviceKeyHeader :: "string option"
  cp_oauth :: "oauth_override option"

definition given :: "'a option \<Rightarrow> 'a option \<Rightarrow> 'a option" where
  "given v existing = (case v of None \<Rightarrow> existing | Some x \<Rightarrow> Some x)"

definition patched :: "connector_patch \<Rightarrow> connector \<Rightarrow> int \<Rightarrow> connector \<Rightarrow> connector" where
  "patched p e t c = c\<lparr>kn_displayName := or_else (cp_displayName p) (kn_displayName e), kn_url := or_else (cp_url p) (kn_url e),
     kn_authMode := kn_authMode e, kn_enabled := or_else (cp_enabled p) (kn_enabled e), kn_catalogId := kn_catalogId e,
     kn_catalogVersion := kn_catalogVersion e, kn_icon := given (cp_icon p) (kn_icon e),
     kn_serviceKeyRef := given (cp_serviceKeyRef p) (kn_serviceKeyRef e),
     kn_serviceKeyHeader := given (cp_serviceKeyHeader p) (kn_serviceKeyHeader e),
     kn_oauth := map_option stripSecret (given (cp_oauth p) (kn_oauth e)), kn_updatedAt := t\<rparr>"

definition update_row :: "('c, 'x) admin_env \<Rightarrow> string \<Rightarrow> connector_patch \<Rightarrow> ('c, 'x, connector option) cred_comp" where
  "update_row env name p =
    bindM (cquery (get_connector name)) (\<lambda>existing. case existing of
      None \<Rightarrow> returnM None
    | Some e \<Rightarrow>
        bindM (cnowM (ae_oauth env)) (\<lambda>t.
        bindM (cstmt (update_connector_row name (patched p e t))) (\<lambda>_.
        cquery (get_connector name))))"

definition assertAuthFields :: "create_connector \<Rightarrow> ('c, 'x, unit) cred_comp" where
  "assertAuthFields input =
    (if cc_authMode input = AuthServiceKey \<and> filled (cc_serviceKey input) = None \<and> filled (cc_serviceKeyEnvRef input) = None
     then throwM (ConnectorWriteError ''service_key connectors require serviceKey or serviceKeyEnvRef'' 400) else returnM ())"

definition insert_new ::
    "('c, 'x) admin_env \<Rightarrow> create_connector \<Rightarrow> string option \<Rightarrow> string option \<Rightarrow> ('c, 'x, connector) cred_comp" where
  "insert_new env input catalogId catalogVersion =
    bindM (storeServiceKey env (cc_serviceKey input) (cc_serviceKeyEnvRef input)) (\<lambda>ref.
    bindM (insert_row env \<lparr>kn_slug = cc_slug input, kn_displayName = cc_displayName input, kn_url = cc_url input,
      kn_authMode = cc_authMode input, kn_enabled = True, kn_catalogId = catalogId, kn_catalogVersion = catalogVersion,
      kn_icon = cc_icon input, kn_serviceKeyRef = ref, kn_serviceKeyHeader = cc_serviceKeyHeader input,
      kn_resolvedServiceKey = None, kn_oauth = oauthFromBody (cc_oauth input), kn_createdAt = 0, kn_updatedAt = 0\<rparr>) (\<lambda>created.
    bindM (storeManualRegistration env (oauthFromBody (cc_oauth input))) (\<lambda>_. returnM created)))"

definition taken_slug :: "cred_exn \<Rightarrow> cred_exn" where
  "taken_slug e = (if e = PgDuplicate ''connectors_pkey'' then ConnectorWriteError ''connector slug already exists'' 409 else e)"

definition admin_create ::
    "('c, 'x) admin_env \<Rightarrow> create_connector \<Rightarrow> string option \<Rightarrow> string option \<Rightarrow> ('c, 'x, public_connector) catalog_comp" where
  "admin_create env input catalogId catalogVersion =
    bindM (on_cred (assertAuthFields input)) (\<lambda>_.
    catchM
      (bindM (on_cred (insert_new env input catalogId catalogVersion)) (\<lambda>created.
       bindM (refreshRuntimeAndNotify env) (\<lambda>_.
       show_written (kn_slug created) created)))
      (\<lambda>e. throwM (taken_slug e)))"

definition installFromCatalog :: "('c, 'x) admin_env \<Rightarrow> install_catalog \<Rightarrow> ('c, 'x, public_connector) catalog_comp" where
  "installFromCatalog env input =
    (case getCatalogEntry (ic_catalogId input) of
       None \<Rightarrow> throwM (ConnectorWriteError (''unknown catalog connector \"'' @ ic_catalogId input @ ''\"'') 404)
     | Some entry \<Rightarrow>
         admin_create env
           \<lparr>cc_slug = or_else (ic_slug input) (ke_id entry), cc_displayName = ke_displayName entry, cc_url = ke_url entry,
            cc_authMode = ke_authMode entry, cc_icon = Some (ke_icon entry), cc_serviceKey = ic_serviceKey input,
            cc_serviceKeyHeader = None, cc_serviceKeyEnvRef = ic_serviceKeyEnvRef input,
            cc_oauth = oauthFromCatalog entry (ic_oauthClient input)\<rparr>
           (Some (ke_id entry)) (Some connector_catalog_version))"

text \<open>The key reference of a patch: a null key drops it, a new key or variable replaces it.\<close>

definition next_key_ref :: "('c, 'x) admin_env \<Rightarrow> update_connector \<Rightarrow> string option \<Rightarrow> ('c, 'x, string option) cred_comp" where
  "next_key_ref env input ref =
    (let dropped = (case filled ref of None \<Rightarrow> returnM () | Some i \<Rightarrow> cwrite (delete_secret i)) in
     if uc_serviceKey input = Some None \<and> filled (uc_serviceKeyEnvRef input) = None
     then bindM dropped (\<lambda>_. returnM None)
     else if filled (Option.bind (uc_serviceKey input) id) \<noteq> None \<or> filled (uc_serviceKeyEnvRef input) \<noteq> None
     then bindM dropped (\<lambda>_. storeServiceKey env (Option.bind (uc_serviceKey input) id) (uc_serviceKeyEnvRef input))
     else returnM ref)"

definition next_oauth :: "update_connector \<Rightarrow> connector \<Rightarrow> oauth_override option" where
  "next_oauth input existing = (case uc_oauth input of
     None \<Rightarrow> kn_oauth existing | Some None \<Rightarrow> None | Some (Some b) \<Rightarrow> oauthFromBody (Some b))"

definition patch_of :: "update_connector \<Rightarrow> string option \<Rightarrow> oauth_override option \<Rightarrow> connector_patch" where
  "patch_of input ref oauth = \<lparr>cp_displayName = uc_displayName input, cp_url = uc_url input, cp_enabled = uc_enabled input,
     cp_icon = Option.bind (uc_icon input) id, cp_serviceKeyRef = ref, cp_serviceKeyHeader = Option.bind (uc_serviceKeyHeader input) id,
     cp_oauth = oauth\<rparr>"

definition admin_update ::
    "('c, 'x) admin_env \<Rightarrow> string \<Rightarrow> update_connector \<Rightarrow> ('c, 'x, public_connector option) catalog_comp" where
  "admin_update env name input =
    bindM (on_cred (cquery (get_connector name))) (\<lambda>existing. case existing of
      None \<Rightarrow> returnM None
    | Some e \<Rightarrow>
        bindM (on_cred (next_key_ref env input (kn_serviceKeyRef e))) (\<lambda>ref.
        bindM (on_cred (update_row env name (patch_of input ref (next_oauth input e)))) (\<lambda>updated. case updated of
          None \<Rightarrow> returnM None
        | Some u \<Rightarrow>
            bindM (on_cred (storeManualRegistration env (next_oauth input e))) (\<lambda>_.
            bindM (refreshRuntimeAndNotify env) (\<lambda>_.
            bindM (show_written name u) (\<lambda>p. returnM (Some p)))))))"

definition admin_delete :: "('c, 'x) admin_env \<Rightarrow> string \<Rightarrow> ('c, 'x, bool) catalog_comp" where
  "admin_delete env name =
    bindM (on_cred (cquery (get_connector name))) (\<lambda>existing. case existing of
      None \<Rightarrow> returnM False
    | Some e \<Rightarrow>
        bindM (on_cred (case filled (kn_serviceKeyRef e) of None \<Rightarrow> returnM () | Some i \<Rightarrow> cwrite (delete_secret i))) (\<lambda>_.
        bindM (on_cred (cstmt (delete_connector_row name))) (\<lambda>deleted.
        bindM (if deleted then refreshRuntimeAndNotify env else returnM ()) (\<lambda>_. returnM deleted))))"

section \<open>Routes\<close>

datatype admin_answer =
    AdminError string
  | CatalogBody "catalog_entry list" string
  | ConnectorsBody "public_connector list"
  | ConnectorBody public_connector
  | EmptyBody

type_synonym admin_reply = "nat \<times> admin_answer"

text \<open>Any other error reaches the server.\<close>

definition sendWriteError :: "cred_exn \<Rightarrow> ('c, 'x, admin_reply) catalog_comp" where
  "sendWriteError e = (case e of ConnectorWriteError m status \<Rightarrow> returnM (status, AdminError m) | _ \<Rightarrow> throwM e)"

datatype connector_request =
    ListCatalog
  | ListConnectors
  | GetConnector string
  | InstallConnector json
  | CreateConnector json
  | PatchConnector string json
  | DeleteConnectorOf string

definition not_found_connector :: admin_reply where
  "not_found_connector = (404, AdminError ''connector not found'')"

fun admin_write :: "('c, 'x) admin_env \<Rightarrow> connector_request \<Rightarrow> ('c, 'x, admin_reply) catalog_comp" where
  "admin_write env (InstallConnector body) =
    (case installCatalogBodySchema body of
       None \<Rightarrow> returnM (400, AdminError ''invalid catalog install'')
     | Some input \<Rightarrow> catchM (bindM (installFromCatalog env input) (\<lambda>p. returnM (201, ConnectorBody p))) sendWriteError)"
| "admin_write env (CreateConnector body) =
    (case createConnectorBodySchema (ae_is_url env) body of
       None \<Rightarrow> returnM (400, AdminError ''invalid connector'')
     | Some input \<Rightarrow> catchM (bindM (admin_create env input None None) (\<lambda>p. returnM (201, ConnectorBody p))) sendWriteError)"
| "admin_write env (PatchConnector name body) =
    (case updateConnectorBodySchema (ae_is_url env) body of
       None \<Rightarrow> returnM (400, AdminError ''invalid connector update'')
     | Some input \<Rightarrow> catchM (bindM (admin_update env name input) (\<lambda>r. returnM (case r of
           None \<Rightarrow> not_found_connector | Some p \<Rightarrow> (200, ConnectorBody p)))) sendWriteError)"
| "admin_write env (DeleteConnectorOf name) =
    catchM (bindM (admin_delete env name) (\<lambda>deleted. returnM (if deleted then (204, EmptyBody) else not_found_connector)))
      sendWriteError"
| "admin_write env _ = returnM (404, AdminError ''not a write'')"

definition connectors_api ::
    "('c, 'x) admin_env \<Rightarrow> headers \<Rightarrow> connector_request \<Rightarrow> ('c, 'x, admin_reply) catalog_comp" where
  "connectors_api env hs request =
    (case request of
       ListCatalog \<Rightarrow> returnM (200, CatalogBody connector_catalog connector_catalog_version)
     | ListConnectors \<Rightarrow> on_cred (bindM list_public (\<lambda>ps. returnM (200, ConnectorsBody ps)))
     | GetConnector name \<Rightarrow> on_cred (bindM (get_public name) (\<lambda>r. returnM (case r of
           None \<Rightarrow> not_found_connector | Some p \<Rightarrow> (200, ConnectorBody p))))
     | _ \<Rightarrow> if AdminOnly hs then admin_write env request else returnM (403, AdminError ''Forbidden''))"

end
