(* ===== verification/ConnectorSafety.thy ===== *)
theory ConnectorSafety
  imports ConnectorAdmin LinkProtocol
begin

text \<open>
  What holds of the catalog and of the administration of connectors: which tools an agent is shown,
  who may change connectors, and what a secret that cannot be read does to the registry.
\<close>

section \<open>The tools of an agent\<close>

text \<open>Entries of the catalog: a tool under its namespaced name, on the grant surface.\<close>

definition proper_entry :: "group_policy_snapshot list \<Rightarrow> listed_tool \<Rightarrow> bool" where
  "proper_entry groups e \<longleftrightarrow> mt_name (lt_tool e) = lt_namespacedName e \<and> lt_namespacedName e = namespaceTool (lt_server e) (lt_bareName e) \<and>
     isConfiguredGrant groups (lt_server e) (lt_bareName e)"

definition proper_state :: "group_policy_snapshot list \<Rightarrow> refresh_state \<Rightarrow> ('c, 'x) catalog_world \<Rightarrow> bool" where
  "proper_state groups st w \<longleftrightarrow> gw_groups w = groups \<and> list_all (proper_entry groups) (rf_catalog st)"

abbreviation refreshes ::
    "group_policy_snapshot list \<Rightarrow> (refresh_state \<Rightarrow> ('c, 'x, refresh_state) catalog_comp) \<Rightarrow> bool" where
  "refreshes groups f \<equiv> \<forall>st w. proper_state groups st w \<longrightarrow> wp (f st) (proper_state groups) (\<lambda>_ _. True) w"

lemma proper_populate:
  "proper_state groups st w \<Longrightarrow> proper_state groups (populateServerCatalog groups server tools st) w"
  by (auto simp: proper_state_def populateServerCatalog_def proper_entry_def listed_def list_all_iff)

lemma wp_on_cred: "(\<And>x v. gw_groups v = gw_groups w \<Longrightarrow> Q x v) \<Longrightarrow> (\<And>e v. gw_groups v = gw_groups w \<Longrightarrow> E e v) \<Longrightarrow> wp (on_cred m) Q E w"
  by (auto simp: wp_def on_cred_def split: prod.split sum.split)

lemma wp_populateM: "proper_state groups st w \<Longrightarrow> wp (populateM warn server tools st) (proper_state groups) E w"
  by (auto simp: populateM_def wp_bind wp_return warn_unknown_def log_catalog_def wp_def modifyM_def bindM_def returnM_def
      intro!: proper_populate) (auto simp: proper_state_def populateServerCatalog_def proper_entry_def listed_def list_all_iff)

lemma wp_list_failure: "proper_state groups st w \<Longrightarrow> wp (list_failure config st e) (proper_state groups) E w"
  by (cases e) (auto simp: list_failure_def log_catalog_def forget_tools_def wp_simps proper_state_def)

lemma refreshes_ask: "refreshes groups (ask_backend env amb c)"
proof (intro allI impI)
  fix st and w :: "('a, 'b) catalog_world" assume s: "proper_state groups st w"
  have s': "proper_state groups st' v" if "gw_groups v = gw_groups w" "rf_catalog st' = rf_catalog st" for st' and v :: "('a, 'b) catalog_world"
    using s that by (simp add: proper_state_def)
  show "wp (ask_backend env amb c st) (proper_state groups) (\<lambda>_ _. True) w"
    using s
    by (auto simp: ask_backend_def wp_return wp_catch wp_bind list_tools_def remember_tools_def wp_modify split: option.split
        intro!: wp_on_cred wp_populateM wp_list_failure s')
qed

lemma refreshes_keep: "refreshes groups (keep_known c)"
proof (intro allI impI)
  fix st and w :: "('a, 'b) catalog_world" assume s: "proper_state groups st w"
  have "wp (populateM False (sc_name (cn_config c)) tools st) (proper_state groups) (\<lambda>_ _. True) w" for tools
    by (rule wp_populateM [OF s])
  then show "wp (keep_known c st) (proper_state groups) (\<lambda>_ _. True) w"
    using s by (simp add: keep_known_def Let_def wp_def split: option.split)
qed

lemma refreshes_each:
  fixes f :: "'c connection \<Rightarrow> refresh_state \<Rightarrow> ('c, 'x, refresh_state) catalog_comp"
  assumes "\<And>c. refreshes groups (f c)"
  shows "refreshes groups (each_connection f cs)"
proof (induction cs)
  case (Cons c cs)
  show ?case
  proof (intro allI impI)
    fix st and w :: "('c, 'x) catalog_world" assume "proper_state groups st w"
    then have "wp (f c st) (proper_state groups) (\<lambda>_ _. True) w" using assms by blast
    then show "wp (each_connection f (c # cs) st) (proper_state groups) (\<lambda>_ _. True) w"
      unfolding each_connection.simps wp_bind by (rule wp_mono) (use Cons.IH in blast)+
  qed
qed (simp add: wp_return)

lemma set_sort_by [simp]: "set (sort_by le xs) = set xs"
proof -
  have "set (insert_by le x ys) = insert x (set ys)" for x ys
    by (induction ys) auto
  then show ?thesis by (induction xs) (auto simp: sort_by_def)
qed

lemma refresh_proper:
  fixes w :: "('c, 'x) catalog_world"
  shows "wp (refresh_catalog env amb) (\<lambda>r w'. gw_groups w' = gw_groups w \<and> gw_catalog w' = r \<and> list_all (proper_entry (gw_groups w)) r)
    (\<lambda>_ _. True) w"
proof -
  let ?g = "gw_groups w"
  have start: "proper_state ?g no_tools v" if "gw_groups v = ?g" for v :: "('c, 'x) catalog_world"
    using that by (simp add: proper_state_def no_tools_def)
  have ask: "wp (each_connection (ask_backend env amb) cs st) (proper_state ?g) (\<lambda>_ _. True) v"
    if "proper_state ?g st v" for cs st v
    using refreshes_each [where f = "ask_backend env amb", OF refreshes_ask] that by blast
  have keep: "wp (each_connection keep_known cs st) (proper_state ?g) (\<lambda>_ _. True) v"
    if "proper_state ?g st v" for cs st and v :: "('c, 'x) catalog_world"
    using refreshes_each [where f = keep_known, OF refreshes_keep] that by blast
  show ?thesis
    by (rule wp_at [OF refresh_catalog_def])
       (auto simp: Let_def wp_bind wp_modify wp_return proper_state_def list_all_iff
         intro!: wp_mono [OF ask [OF start]] wp_mono [OF keep])
qed

text \<open>
  C32. Every tool an agent is shown is an entry of the catalog that was just put together, under the
  name of its server and its own, which some group grants and which policy does not deny the agent;
  a call under that name finds a tool in the catalog.
\<close>
theorem listed_tools_are_permitted:
  fixes w :: "('c, 'x) catalog_world"
  assumes "listToolsForAgent env p w = (Inr r, w')" "t \<in> set (tl_tools r)"
  shows "\<exists>e \<in> set (gw_catalog w'). lt_tool e = t \<and> mt_name t = namespaceTool (lt_server e) (lt_bareName e) \<and>
    isConfiguredGrant (gw_groups w) (lt_server e) (lt_bareName e) \<and> list_allows (gw_groups w) p e \<and> findTool (mt_name t) w' \<noteq> None"
proof -
  let ?Q = "\<lambda>r w'. (\<exists>es. gw_catalog w' = es \<and> list_all (proper_entry (gw_groups w)) es \<and>
    tl_tools r = map lt_tool (filter (list_allows (gw_groups w) p) es))"
  have "wp (listToolsForAgent env p) ?Q (\<lambda>_ _. True) w"
    unfolding listToolsForAgent_def wp_bind
  proof (rule wp_on_cred)
    fix x and v :: "('c, 'x) catalog_world" assume "gw_groups v = gw_groups w"
    then show "wp (refresh_catalog env (Some (pr_ownerId p))) (\<lambda>catalog. wp (\<lambda>w. bindM (log_catalog (policy_logs (gw_groups w) p catalog)) (\<lambda>_.
        returnM \<lparr>tl_tools = map lt_tool (filter (list_allows (gw_groups w) p) catalog), tl_ttlMs = agent_tool_list_ttl_ms,
          tl_cacheScope = ''private''\<rparr>) w) ?Q (\<lambda>_ _. True)) (\<lambda>_ _. True) v"
      by (intro wp_mono [OF refresh_proper [of env "Some (pr_ownerId p)" v]])
         (auto simp: wp_def log_catalog_def modifyM_def bindM_def returnM_def)
  qed simp
  then have q: "?Q r w'" using assms(1) by (simp add: wp_def)
  then obtain e where e: "e \<in> set (gw_catalog w')" "lt_tool e = t" "list_allows (gw_groups w) p e" "proper_entry (gw_groups w) e"
    using assms(2) by (auto simp: list_all_iff)
  then have "findTool (mt_name t) w' \<noteq> None" by (auto simp: findTool_def find_None_iff proper_entry_def)
  then show ?thesis using e by (auto simp: proper_entry_def)
qed

definition demo_group :: group_policy_snapshot where
  "demo_group = \<lparr>gs_name = ''g'', gs_servers = [\<lparr>gp_server = ''docs'', gp_default = Deny, gp_allow = [''read''], gp_deny = [], gp_gated = []\<rparr>]\<rparr>"

definition demo_agent :: agent_principal where
  "demo_agent = \<lparr>pr_agentId = ''a'', pr_ownerId = ''ann'', pr_groups = [''g''], pr_bearerId = ''b''\<rparr>"

definition demo_tool :: "string \<Rightarrow> mcp_tool" where
  "demo_tool n = \<lparr>mt_name = n, mt_description = None, mt_rest = []\<rparr>"

definition demo_catalog_env :: "(string, nat) catalog_env" where
  "demo_catalog_env = \<lparr>le_oauth = demo_env, le_listTools = \<lambda>_ x. (Inr [demo_tool ''read'', demo_tool ''drop''], x)\<rparr>"

text \<open>One backend without credentials, connected.\<close>

definition docs_world :: "(string, nat) catalog_world" where
  "docs_world = \<lparr>gw_cred = demo_world\<lparr>kw_conns := (conn_start [example_connector ''docs'' AuthNone] [] 0)\<lparr>cm_base :=
       [(''docs'', connected (toServerConfig (example_connector ''docs'' AuthNone)) (Some ''client''))]\<rparr>\<rparr>,
     gw_catalog = [], gw_serverTools = [], gw_discovered = [], gw_groups = [demo_group], gw_logs = []\<rparr>"

theorem listed_tools_are_permitted_witness:
  "\<exists>r w'. listToolsForAgent demo_catalog_env demo_agent docs_world = (Inr r, w') \<and> map mt_name (tl_tools r) = [''docs.read''] \<and>
     list_allows [demo_group] demo_agent (listed ''docs'' (demo_tool ''read''))"
proof -
  have "case listToolsForAgent demo_catalog_env demo_agent docs_world of (Inr r, w') \<Rightarrow> tl_tools r = [demo_tool ''docs.read''] \<and>
      gw_catalog w' = [listed ''docs'' (demo_tool ''read'')] | _ \<Rightarrow> False"
    by code_simp
  then obtain r w' where l: "listToolsForAgent demo_catalog_env demo_agent docs_world = (Inr r, w')"
    "tl_tools r = [demo_tool ''docs.read'']" "gw_catalog w' = [listed ''docs'' (demo_tool ''read'')]"
    by (auto split: prod.splits sum.splits)
  have "gw_groups docs_world = [demo_group]" by (simp add: docs_world_def)
  then have "list_allows [demo_group] demo_agent (listed ''docs'' (demo_tool ''read''))"
    using listed_tools_are_permitted [OF l(1), of "demo_tool ''docs.read''"] l(2,3) by auto
  then show ?thesis using l by (simp add: demo_tool_def)
qed

section \<open>Who changes connectors\<close>

text \<open>Computations that leave the world as it is when nobody else writes.\<close>

definition reads :: "('c, 'x, 'a) cred_comp \<Rightarrow> bool" where
  "reads m \<longleftrightarrow> (\<forall>w. kw_others w = [] \<longrightarrow> snd (m w) = w)"

named_theorems reads_intros "computations that only read"

lemma reads_basic [reads_intros]: "reads (returnM x)" "reads registryM" "reads (cquery f)"
  by (auto simp: reads_def returnM_def registryM_def cquery_def cstmt_def others_write_def Let_def)

lemma reads_bind [reads_intros]:
  assumes "reads m" "\<And>x. reads (k x)"
  shows "reads (bindM m k)"
  unfolding reads_def
proof (intro allI impI, goal_cases)
  case (1 w)
  then have m: "snd (m w) = w" using assms(1) by (simp add: reads_def)
  show ?case
  proof (cases "fst (m w)")
    case (Inl e)
    then show ?thesis using m by (cases "m w") (simp add: bindM_def)
  next
    case (Inr x)
    then show ?thesis using m 1 assms(2) [of x] by (cases "m w") (simp add: bindM_def reads_def)
  qed
qed

lemma reads_public [reads_intros]: "reads (toPublic c)"
  by (auto simp: toPublic_def intro!: reads_intros split: option.split)

lemma reads_list [reads_intros]: "reads (all_public cs)"
  by (induction cs) (auto intro!: reads_intros)

text \<open>
  Only operators who administer change connectors: whatever the request of anyone else is, the
  tables, the registry, the connections and the catalog stay as they are, and a request to change
  something is answered with 403.
\<close>
theorem only_admins_change_connectors:
  fixes w :: "('c, 'x) catalog_world"
  assumes "\<not> AdminOnly hs" "kw_others (gw_cred w) = []"
  shows "snd (connectors_api env hs request w) = w \<and>
    (request \<notin> {ListCatalog, ListConnectors} \<union> range GetConnector \<longrightarrow> fst (connectors_api env hs request w) = Inr (403, AdminError ''Forbidden''))"
proof -
  have lift: "snd (on_cred m w) = w" if "reads m" for m :: "('c, 'x, admin_reply) cred_comp"
    using that assms(2) by (auto simp: reads_def on_cred_def split: prod.split)
  have "reads (bindM list_public (\<lambda>ps. returnM (200, ConnectorsBody ps)) :: ('c, 'x, admin_reply) cred_comp)"
    by (auto simp: list_public_def intro!: reads_intros)
  moreover have "reads (bindM (get_public name) (\<lambda>r. returnM (g r)) :: ('c, 'x, admin_reply) cred_comp)" for name and g :: "public_connector option \<Rightarrow> admin_reply"
    by (auto simp: get_public_def intro!: reads_intros split: option.split)
  ultimately show ?thesis
    using assms(1) by (cases request) (simp_all add: connectors_api_def returnM_def lift)
qed

definition demo_admin_env :: "(string, nat) admin_env" where
  "demo_admin_env = \<lparr>ae_catalog = demo_catalog_env, ae_notify = \<lambda>x. (Inr (), x), ae_is_url = \<lambda>_. True\<rparr>"

theorem only_admins_change_connectors_witness:
  "connectors_api demo_admin_env [] (DeleteConnectorOf ''docs'') docs_world = (Inr (403, AdminError ''Forbidden''), docs_world)"
proof -
  have "\<not> AdminOnly []" "kw_others (gw_cred docs_world) = []"
    by (simp_all add: AdminOnly_def readOperatorContext_def headerValue_def docs_world_def demo_world_def)
  from only_admins_change_connectors [OF this, of demo_admin_env "DeleteConnectorOf ''docs''"] show ?thesis
    by (cases "connectors_api demo_admin_env [] (DeleteConnectorOf ''docs'') docs_world") auto
qed

section \<open>A secret that cannot be read\<close>

text \<open>
  C33. One secret that cannot be read keeps every connector out of the registry: as long as a row
  refers to an environment variable that is not set, loading throws and the registry stays what it was,
  so that neither the write that added the row nor any later one takes effect, nor does a start.
\<close>
theorem missing_variable_blocks_loading:
  assumes "kw_others w = []" "c \<in> set (kd_connectors (kw_db w))" "kn_serviceKeyRef c = Some i" "i \<noteq> []"
    "get_secret i (kw_db w) = Some s" "resolveSecretPayload env s = Inl e"
  shows "\<exists>e'. loadIntoRegistry env w = (Inl e', w)"
proof -
  have q: "cquery f w = (Inr (f (kw_db w)), w)" for f
    using assms(1) by (cases w) (simp add: cquery_def cstmt_def others_write_def Let_def)
  have alone: "snd (hydrate env r w) = w" for r
    by (auto simp: hydrate_def bindM_def q returnM_def liftC_def split: option.split sum.split)
  have stuck: "\<exists>e'. hydrate_all env rs w = (Inl e', w)" if "rowToConnector c \<in> set rs" for rs
    using that
  proof (induction rs)
    case (Cons r rs)
    show ?case
    proof (cases "fst (hydrate env r w)")
      case (Inl e')
      then show ?thesis using alone [of r] by (cases "hydrate env r w") (simp add: bindM_def)
    next
      case (Inr x)
      then have "rowToConnector c \<noteq> r"
        using assms(3-6) by (auto simp: rowToConnector_def nonempty_def hydrate_def bindM_def q liftC_def)
      then obtain e' where "hydrate_all env rs w = (Inl e', w)" using Cons by auto
      then show ?thesis using Inr alone [of r] by (cases "hydrate env r w") (simp add: bindM_def)
    qed
  qed simp
  have "rowToConnector c \<in> set (list_connectors (ve_loc env) (kw_db w))"
    using assms(2) by (simp add: list_connectors_def)
  from stuck [OF this] show ?thesis by (auto simp: loadIntoRegistry_def bindM_def q)
qed

text \<open>A row whose key is in a variable that is not set, next to one without a key.\<close>

definition keyed_world :: "(string, nat) cred_world" where
  "keyed_world = demo_world\<lparr>kw_db := (kw_db demo_world)\<lparr>
     kd_connectors := [example_connector ''docs'' AuthNone, (example_connector ''keyed'' AuthServiceKey)\<lparr>kn_serviceKeyRef := Some ''s''\<rparr>],
     kd_secrets := [\<lparr>se_id = ''s'', se_kind = EnvRefSecret, se_payload = ''KEY'', se_hint = None, se_createdAt = 0\<rparr>]\<rparr>\<rparr>"

theorem missing_variable_blocks_loading_witness:
  "\<exists>e. loadIntoRegistry demo_env keyed_world = (Inl e, keyed_world)"
proof -
  let ?c = "(example_connector ''keyed'' AuthServiceKey)\<lparr>kn_serviceKeyRef := Some ''s''\<rparr>"
  let ?s = "\<lparr>se_id = ''s'', se_kind = EnvRefSecret, se_payload = ''KEY'', se_hint = None, se_createdAt = 0\<rparr>"
  have "kw_others keyed_world = []" "?c \<in> set (kd_connectors (kw_db keyed_world))" "kn_serviceKeyRef ?c = Some ''s''" "''s'' \<noteq> []"
    "get_secret ''s'' (kw_db keyed_world) = Some ?s"
    "resolveSecretPayload demo_env ?s = Inl (CredError ''Missing environment variable: KEY'')"
    by (simp_all add: keyed_world_def demo_world_def get_secret_def tbl_find_Cons resolveSecretPayload_def demo_env_def)
  then show ?thesis by (rule missing_variable_blocks_loading)
qed

end
