(* ===== verification/Spec2Isabelle.thy ===== *)
theory Spec2Isabelle
  imports JsonText DispatchSafety RunGuarantees ScheduleDispatcher SubjectTokens UiAuth RunControl FudaLink TasksApi StatsFacts
    OAuthGuarantees ConnectorSafety
begin

text \<open>
  Keidai runs agents for a group of operators. It has four programs, all in TypeScript:
  \<^item> Torii (\<^verbatim>\<open>apps/torii\<close>) is the gateway between agents and the backends that serve tools over the Model
    Context Protocol. It decides who may call what, parks calls that need the approval of a person,
    carries the credentials, and keeps an audit of all calls.
  \<^item> Shaiden (\<^verbatim>\<open>apps/shaiden\<close>) is the runtime: it stores tasks, starts their runs by hand or on schedule,
    drives the loop between the model and the tools, and lets runs wait for Torii.
  \<^item> Fuda (\<^verbatim>\<open>apps/fuda\<close>) is the registry of identities: owners, their agents, and the tokens with which
    Shaiden calls Torii in the name of an agent.
  \<^item> The server of the UI (\<^verbatim>\<open>apps/keidai-ui/server\<close>) signs operators in and forwards their requests to the
    other three. What they share is in \<^verbatim>\<open>packages/shared\<close>.

  A theory models a component and proves what its operations do; a theory whose name ends in
  \<open>Safety\<close>, \<open>Guarantees\<close>, \<open>Facts\<close> or \<open>Protocol\<close> holds what follows for their compositions. The
  properties are the theorems whose text begins with \<open>C\<close> and a number.

  \<^bold>\<open>Conventions.\<close> An operation that may fail returns \<open>'e + 'a\<close>; one that has a state is a computation
  \<open>'s \<Rightarrow> ('e + 'a) \<times> 's\<close> put together with \<open>bindM\<close>, \<open>catchM\<close> and \<open>finallyM\<close> (\<open>Prelude\<close>), for which \<open>Triples\<close>
  computes weakest preconditions. A thrown error keeps what was written before it, as in the source.
  A table is a list of records in insertion order; a statement is one step on it, and where the
  source has several statements without a transaction, what other processes write between them is a
  list of steps in the world (\<open>tw_others\<close>, \<open>fw_others\<close>, \<open>aw_others\<close>, \<open>cm_others\<close>, \<open>kw_others\<close>), which theorems
  quantify over or set to the empty list where they say that nobody else writes. Strings are lists
  of UTF-8 bytes; where the source counts UTF-16 units, the model does. Instants are milliseconds as
  \<open>int\<close>; numbers of JavaScript that are counts are \<open>int\<close> or \<open>nat\<close>, with the bounds of a Postgres \<open>INTEGER\<close>
  written out (\<open>ToriiTypes\<close>); rates are exact rationals or reals. The network, the model, cryptography,
  parsers of libraries, the clock and fresh identifiers are arguments of the definitions.

  \<^bold>\<open>Foundations.\<close> \<open>Prelude\<close>, \<open>Triples\<close>, \<open>Histories\<close> (locales for invariants and resources kept over any history
  of operations, interpreted by every store), \<open>Texts\<close>, \<open>Json\<close> and \<open>JsonText\<close> (values, \<open>JSON.stringify\<close>, and that
  texts determine values), \<open>JsDate\<close> (the calendar), \<open>HttpInput\<close>.

  \<^bold>\<open>Torii: calls.\<close> \<open>ToriiTypes\<close>, \<open>CallTypes\<close>, \<open>Namespacing\<close>, \<open>McpTasks\<close> hold the vocabulary (\<^verbatim>\<open>packages/shared/src/mcp-tasks.ts\<close>,
  \<^verbatim>\<open>policy/utils\<close>, \<^verbatim>\<open>dispatch/utils\<close>). \<open>GroupPolicy\<close> is the evaluation of group policies, \<open>GroupRepository\<close> their tables,
  cache and management, \<open>TaskStore\<close> and \<open>ApprovalStore\<close> the two stores of parked calls, \<open>Gateway\<close> the
  approval gate, \<open>ToolDispatch\<close> the handlers of \<^verbatim>\<open>tool-dispatch.service.ts\<close>. \<open>DispatchSafety\<close> composes them: a backend
  is asked only for permitted or approved calls, an approval is used once, every approved call settles.

  \<^bold>\<open>Torii: backends and accounts.\<close> \<open>Connectors\<close> holds the records and bodies of connectors and their catalog,
  \<open>Connections\<close> the live connections (\<^verbatim>\<open>connection-manager.service.ts\<close>), \<open>CredentialStore\<close> the tables of tokens, links,
  clients, secrets and connectors, \<open>OAuthLinks\<close> linking, callbacks, refreshing and the credentials of a call
  (\<^verbatim>\<open>credentials\<close>), \<open>OAuthApi\<close> its routes and pages, \<open>ToolCatalog\<close> what agents are shown, \<open>ConnectorAdmin\<close> the administration.
  \<open>ConnectionSafety\<close> shows that clients are never shared between owners; \<open>OAuthSafety\<close> says which tables each
  step leaves alone; \<open>LinkProtocol\<close> is the abstract protocol of links and grants (a step relation on
  two maps) and the simulation of every operation by it; \<open>OAuthGuarantees\<close> and \<open>ConnectorSafety\<close> hold the results.

  \<^bold>\<open>Shaiden.\<close> \<open>RunTypes\<close>, \<open>RunAttempt\<close>, \<open>RunRepo\<close> model runs and their tables (\<^verbatim>\<open>runs/pg-run-repository.ts\<close>); \<open>RunHistory\<close>
  and \<open>RunLifecycle\<close> what they keep: the invariant, leases, continuation, retention. \<open>TaskLoop\<close> is the loop of a
  run (\<^verbatim>\<open>run/task-loop.ts\<close>), \<open>LoopSafety\<close> and \<open>LoopParking\<close> prove it once in a locale for arbitrary callbacks;
  \<open>RunStore\<close>, \<open>HarnessTools\<close>, \<open>ToriiClient\<close> and \<open>Harness\<close> are what the loop is run with, and \<open>HarnessFrame\<close>, \<open>HarnessSafety\<close>,
  \<open>DriveSafety\<close>, \<open>RunGuarantees\<close> interpret the locale on them: a drive settles, ends within its limit and stores its
  conversation. \<open>TaskSchema\<close>, \<open>TaskRepo\<close>, \<open>TaskSchedule\<close>, \<open>ScheduleDispatcher\<close> are tasks and the schedule; \<open>RunsApi\<close>, \<open>RunControl\<close>,
  \<open>TasksApi\<close>, \<open>Stats\<close>, \<open>StatsFacts\<close> the routes of operators and the statistics over attempts.

  \<^bold>\<open>Fuda and the UI server.\<close> \<open>Operators\<close> holds the allow list, the operator headers and the guard of administrators,
  \<open>FudaStore\<close> the tables, \<open>FudaOwners\<close> logins and the owners API, \<open>FudaAgents\<close> agents, grants and tokens, \<open>FudaAccess\<close> who may
  act for an agent, \<open>SubjectTokens\<close> the validation of the runtime's own token, \<open>FudaClient\<close> and \<open>FudaLink\<close> the client of
  the runtime composed with the service, \<open>UiAuth\<close> sessions, gates and the proxy.

  \<^bold>\<open>Bounds and fuel.\<close> Loops of the source that may not end take a number of rounds: \<open>nextRunAt\<close> takes its 400 days, and a
  theorem shows that they are enough for every recurring schedule; the loop of a run takes a number of
  rounds, and a theorem shows that an iteration limit ends it before; polling takes a number of polls;
  identifiers are tried 998 times and inserts 5 times, as in the source. Caches last 5 s
  (owners, in the UI server), 24 h (OAuth discovery), tokens 300 s with a skew of 30 s.

  \<^bold>\<open>Not modelled.\<close> React components and hooks, HTML pages of the UI server and the home page's layout (presentation);
  the wiring of Fastify, the MCP SDK and dependency injection; server-sent events, whose items are the
  modelled notifications; the trace store, which is only appended to and listed; migrations and pools
  (their keys and checks are in the tables); reading of environment and YAML; the sandbox and the model
  client, whose answers are arguments; log lines, except those that a property is about. Work that
  the source starts together with \<open>Promise.all\<close> runs in order, with the writes of others in between.
\<close>

end
